(* ===== verification/Py_Prelude.thy ===== *)
theory Py_Prelude
  imports Main "HOL-Library.List_Lexorder" "HOL-Library.Word"
begin

unbundle bit_operations_syntax

text \<open>
  The vocabulary every component shares: the Python values the brokers handle, the
  exceptions they raise, sequencing of fallible calls, and the generic lemmas on lists and
  strings that the component proofs use.

  \<^item> \<open>bytes\<close> is a list of 8-bit characters (\<open>b''abc''\<close> is the literal \<open>''abc''\<close>).
  \<^item> \<open>pystr\<close> is a Python \<open>str\<close>: a list of code points, so that lengths, UTF-8
    sizes, bidirectional overrides and surrogates mean what they mean in the code;
    \<open>u ''abc''\<close> is the literal.
  \<^item> a call that may raise returns \<open>exn + 'a\<close>; exception messages are kept, because the
    code builds them from the schema's labels.
\<close>

section \<open>Values\<close>

type_synonym bytes = string
type_synonym pystr = "nat list"

definition u :: "string \<Rightarrow> pystr" where
  "u s = map of_char s"

definition valid_str :: "pystr \<Rightarrow> bool" where
  "valid_str s \<longleftrightarrow> list_all (\<lambda>c. c < 1114112) s"

definition is_surrogate :: "nat \<Rightarrow> bool" where
  "is_surrogate c \<longleftrightarrow> 55296 \<le> c \<and> c \<le> 57343"

section \<open>Exceptions\<close>

text \<open>
  The classes the code raises or tells apart. The frame errors, \<open>JSONDecodeError\<close> and the
  Unicode errors are subclasses of \<open>ValueError\<close>; \<open>TimeoutError\<close>, \<open>FileExistsError\<close>,
  \<open>FileNotFoundError\<close> and \<open>PermissionError\<close> are subclasses of \<open>OSError\<close>.
\<close>

datatype exn =
    ValueError string
  | TypeError
  | KeyError
  | RuntimeError string
  | RecursionError
  | StructError
  | OSError string
  | TimeoutError
  | FileExistsError string
  | FileNotFoundError
  | PermissionError string
  | JSONDecodeError
  | UnicodeDecodeError
  | UnicodeEncodeError
  | FrameIncomplete string
  | FrameSizeError string
  | FrameJsonError string
  | FrameSchemaError string
  | FrameError string
  | StreamError string
  | EgressAuthorizationError string
  | PendingCapacityError string
  | PendingSnapshotMismatch string
  | FamilyIntakeDenied
  | FamilyIntakeInternalError
  | BrokerStageError pystr
  | SendNotStarted pystr
  | SendOutcomeUnknown pystr
  | HttpException
  | OtherException
  | Killed
  | OutOfFuel
  | NotModelled

definition is_value_error :: "exn \<Rightarrow> bool" where
  "is_value_error e = (case e of
       ValueError _ \<Rightarrow> True | JSONDecodeError \<Rightarrow> True | UnicodeDecodeError \<Rightarrow> True
     | UnicodeEncodeError \<Rightarrow> True | FrameIncomplete _ \<Rightarrow> True | FrameSizeError _ \<Rightarrow> True
     | FrameJsonError _ \<Rightarrow> True | FrameSchemaError _ \<Rightarrow> True | FrameError _ \<Rightarrow> True
     | StreamError _ \<Rightarrow> True | EgressAuthorizationError _ \<Rightarrow> True
     | PendingCapacityError _ \<Rightarrow> True | PendingSnapshotMismatch _ \<Rightarrow> True
     | FamilyIntakeDenied \<Rightarrow> True
     | _ \<Rightarrow> False)"

definition is_os_error :: "exn \<Rightarrow> bool" where
  "is_os_error e = (case e of
       OSError _ \<Rightarrow> True | TimeoutError \<Rightarrow> True | FileExistsError _ \<Rightarrow> True
     | FileNotFoundError \<Rightarrow> True | PermissionError _ \<Rightarrow> True | _ \<Rightarrow> False)"

text \<open>\<open>RecursionError\<close> is a \<open>RuntimeError\<close>.\<close>

definition is_runtime_error :: "exn \<Rightarrow> bool" where
  "is_runtime_error e = (case e of
       RuntimeError _ \<Rightarrow> True | RecursionError \<Rightarrow> True | FamilyIntakeInternalError \<Rightarrow> True
     | BrokerStageError _ \<Rightarrow> True | SendNotStarted _ \<Rightarrow> True | SendOutcomeUnknown _ \<Rightarrow> True
     | _ \<Rightarrow> False)"

type_synonym 'a res = "exn + 'a"

section \<open>Sequencing\<close>

text \<open>
  \<open>bindE m f\<close> is the next statement after \<open>m\<close>; \<open>catchE m h\<close> is \<open>try: m except: h\<close>,
  with \<open>h\<close> re-raising what the clause does not name; \<open>require b e\<close> is
  \<open>if not b: raise e\<close>.
\<close>

definition bindE :: "'e + 'a \<Rightarrow> ('a \<Rightarrow> 'e + 'b) \<Rightarrow> 'e + 'b" where
  "bindE m f = (case m of Inl e \<Rightarrow> Inl e | Inr x \<Rightarrow> f x)"

definition catchE :: "'e + 'a \<Rightarrow> ('e \<Rightarrow> 'e + 'a) \<Rightarrow> 'e + 'a" where
  "catchE m h = (case m of Inl e \<Rightarrow> h e | Inr x \<Rightarrow> Inr x)"

definition require :: "bool \<Rightarrow> 'e \<Rightarrow> 'e + unit" where
  "require b e = (if b then Inr () else Inl e)"

text \<open>\<open>except ValueError: raise e\<close>, and the same with another list of classes.\<close>

definition reraise_if :: "('e \<Rightarrow> bool) \<Rightarrow> 'e \<Rightarrow> 'e + 'a \<Rightarrow> 'e + 'a" where
  "reraise_if p e m = catchE m (\<lambda>x. Inl (if p x then e else x))"

named_theorems err_simps \<open>equations and inversions of the sequencing operators\<close>

lemma bindE_simps [simp, err_simps]:
  "bindE (Inr x) f = f x"
  "bindE (Inl e) f = Inl e"
  by (simp_all add: bindE_def)

lemma bindE_Inr_iff [err_simps]: "bindE m f = Inr y \<longleftrightarrow> (\<exists>x. m = Inr x \<and> f x = Inr y)"
  by (cases m) simp_all

lemma bindE_InrE [elim!]:
  "bindE m f = Inr y \<Longrightarrow> (\<And>x. m = Inr x \<Longrightarrow> f x = Inr y \<Longrightarrow> P) \<Longrightarrow> P"
  by (cases m) simp_all

lemma bindE_Inl_iff:
  "bindE m f = Inl e \<longleftrightarrow> m = Inl e \<or> (\<exists>x. m = Inr x \<and> f x = Inl e)"
  by (cases m) simp_all

lemma bindE_assoc: "bindE (bindE m f) g = bindE m (\<lambda>x. bindE (f x) g)"
  by (cases m) simp_all

lemma bindE_cong [fundef_cong]:
  "m = m' \<Longrightarrow> (\<And>x. m' = Inr x \<Longrightarrow> f x = g x) \<Longrightarrow> bindE m f = bindE m' g"
  by (cases m') simp_all

lemma catchE_simps [simp, err_simps]:
  "catchE (Inr x) h = Inr x"
  "catchE (Inl e) h = h e"
  by (simp_all add: catchE_def)

lemma require_simps [simp, err_simps]:
  "require True e = Inr ()"
  "require False e = Inl e"
  by (simp_all add: require_def)

lemma require_Inr_iff [err_simps]: "require b e = Inr x \<longleftrightarrow> b"
  by (simp add: require_def)

lemma require_Inl_iff: "require b e = Inl e' \<longleftrightarrow> \<not> b \<and> e' = e"
  by (auto simp: require_def)

lemma reraise_if_simps [simp, err_simps]:
  "reraise_if p e (Inr x) = Inr x"
  "reraise_if p e (Inl e') = Inl (if p e' then e else e')"
  by (simp_all add: reraise_if_def)

lemma reraise_if_Inr_iff [err_simps]: "reraise_if p e m = Inr x \<longleftrightarrow> m = Inr x"
  by (cases m) simp_all

text \<open>
  Calls that also change a state return it, in the error case too: the state a raised
  exception leaves behind. \<open>bindS\<close> is sequencing, \<open>finallyS\<close> is \<open>try: ... finally: ...\<close>.
\<close>

definition bindS :: "('e + 'a) \<times> 's \<Rightarrow> ('a \<Rightarrow> 's \<Rightarrow> ('e + 'b) \<times> 's) \<Rightarrow> ('e + 'b) \<times> 's" where
  "bindS m f = (case m of (Inl e, s) \<Rightarrow> (Inl e, s) | (Inr x, s) \<Rightarrow> f x s)"

definition finallyS :: "('e + 'a) \<times> 's \<Rightarrow> ('s \<Rightarrow> 's) \<Rightarrow> ('e + 'a) \<times> 's" where
  "finallyS m f = (case m of (r, s) \<Rightarrow> (r, f s))"

lemma bindS_simps [simp, err_simps]:
  "bindS (Inr x, s) f = f x s"
  "bindS (Inl e, s) f = (Inl e, s)"
  by (simp_all add: bindS_def)

lemma bindS_Inr_iff [err_simps]:
  "bindS m f = (Inr y, t) \<longleftrightarrow> (\<exists>x s. m = (Inr x, s) \<and> f x s = (Inr y, t))"
  by (cases m; cases "fst m") auto

lemma bindS_InrE [elim!]:
  "bindS m f = (Inr y, t) \<Longrightarrow> (\<And>x s. m = (Inr x, s) \<Longrightarrow> f x s = (Inr y, t) \<Longrightarrow> P) \<Longrightarrow> P"
  by (cases m; cases "fst m") auto

lemma bindS_cong [fundef_cong]:
  "m = m' \<Longrightarrow> (\<And>x s. m' = (Inr x, s) \<Longrightarrow> f x s = g x s) \<Longrightarrow> bindS m f = bindS m' g"
  by (cases m'; cases "fst m'") auto

lemma finallyS_simps [simp, err_simps]: "finallyS (r, s) f = (r, f s)"
  by (simp add: finallyS_def)

text \<open>Applying a fallible check to every element of a sequence, left to right.\<close>

fun mapE :: "('a \<Rightarrow> 'e + 'b) \<Rightarrow> 'a list \<Rightarrow> 'e + 'b list" where
  "mapE f [] = Inr []"
| "mapE f (x # xs) = bindE (f x) (\<lambda>y. bindE (mapE f xs) (\<lambda>ys. Inr (y # ys)))"

lemma mapE_Inr_iff: "mapE f xs = Inr ys \<longleftrightarrow> list_all2 (\<lambda>x y. f x = Inr y) xs ys"
  by (induction xs arbitrary: ys) (auto simp: err_simps list_all2_Cons1)

lemma mapE_same: "(\<And>x. x \<in> set xs \<Longrightarrow> f x = Inr x) \<Longrightarrow> mapE f xs = Inr xs"
  by (induction xs) simp_all

lemma mapE_append: "mapE f (xs @ ys) = bindE (mapE f xs) (\<lambda>a. bindE (mapE f ys) (\<lambda>b. Inr (a @ b)))"
  by (induction xs) (simp_all add: bindE_assoc bindE_def split: sum.splits)

section \<open>Strings\<close>

lemma u_simps [simp]:
  "u [] = []"
  "u (s @ t) = u s @ u t"
  "length (u s) = length s"
  by (simp_all add: u_def)

lemma u_Cons: "u (c # s) = of_char c # u s"
  by (simp add: u_def)

lemma u_eq_iff [simp]: "u s = u t \<longleftrightarrow> s = t"
  by (simp add: u_def inj_map_eq_map inj_def)

lemma u_eq_Nil_iff [simp]: "u s = [] \<longleftrightarrow> s = []" "[] = u s \<longleftrightarrow> s = []"
  by (simp_all add: u_def)

lemma valid_str_simps [simp]:
  "valid_str []"
  "valid_str (c # s) \<longleftrightarrow> c < 1114112 \<and> valid_str s"
  "valid_str (s @ t) \<longleftrightarrow> valid_str s \<and> valid_str t"
  by (auto simp: valid_str_def)

lemma valid_str_u [simp]: "valid_str (u s)"
proof -
  have "of_char c < (1114112 :: nat)" for c
    using nat_of_char_less_256 [of c] by linarith
  then show ?thesis by (induction s) (simp_all add: u_Cons)
qed

definition startswith :: "'a list \<Rightarrow> 'a list \<Rightarrow> bool" where
  "startswith s p \<longleftrightarrow> take (length p) s = p"

definition endswith :: "'a list \<Rightarrow> 'a list \<Rightarrow> bool" where
  "endswith s p \<longleftrightarrow> length p \<le> length s \<and> drop (length s - length p) s = p"

definition removeprefix :: "'a list \<Rightarrow> 'a list \<Rightarrow> 'a list" where
  "removeprefix p s = (if startswith s p then drop (length p) s else s)"

definition removesuffix :: "'a list \<Rightarrow> 'a list \<Rightarrow> 'a list" where
  "removesuffix p s = (if p \<noteq> [] \<and> endswith s p then take (length s - length p) s else s)"

lemma startswith_iff: "startswith s p \<longleftrightarrow> (\<exists>t. s = p @ t)"
  unfolding startswith_def by (metis append_eq_conv_conj append_take_drop_id)

lemma startswith_append [simp]: "startswith (p @ t) p"
  by (simp add: startswith_def)

lemma endswith_iff: "endswith s p \<longleftrightarrow> (\<exists>t. s = t @ p)"
proof
  assume "endswith s p"
  then have "s = take (length s - length p) s @ p"
    by (metis append_take_drop_id endswith_def)
  then show "\<exists>t. s = t @ p" by blast
qed (auto simp: endswith_def)

lemma removeprefix_append [simp]: "removeprefix p (p @ t) = t"
  by (simp add: removeprefix_def)

lemma startswith_removeprefix: "startswith s p \<Longrightarrow> s = p @ removeprefix p s"
  by (auto simp: startswith_iff)

text \<open>\<open>s.split(sep)\<close> on a one-element separator, and \<open>s.split(sep, 1)\<close>.\<close>

fun split_on :: "'a \<Rightarrow> 'a list \<Rightarrow> 'a list list" where
  "split_on x [] = [[]]"
| "split_on x (y # ys) =
     (if y = x then [] # split_on x ys
      else (case split_on x ys of [] \<Rightarrow> [[y]] | p # ps \<Rightarrow> (y # p) # ps))"

fun join_with :: "'a list \<Rightarrow> 'a list list \<Rightarrow> 'a list" where
  "join_with sep [] = []"
| "join_with sep [p] = p"
| "join_with sep (p # q # ps) = p @ sep @ join_with sep (q # ps)"

definition split1 :: "'a \<Rightarrow> 'a list \<Rightarrow> ('a list \<times> 'a list) option" where
  "split1 x ys = (if x \<in> set ys
     then Some (takeWhile (\<lambda>y. y \<noteq> x) ys, drop (Suc (length (takeWhile (\<lambda>y. y \<noteq> x) ys))) ys)
     else None)"

lemma split_on_nonempty [simp]: "split_on x ys \<noteq> []"
  by (induction ys) (auto split: list.splits)

lemma join_split_on [simp]: "join_with [x] (split_on x ys) = ys"
proof (induction ys)
  case (Cons y ys)
  obtain p ps where s: "split_on x ys = p # ps"
    by (meson neq_Nil_conv split_on_nonempty)
  with Cons.IH show ?case by (cases ps) auto
qed simp

lemma split_on_no_sep: "p \<in> set (split_on x ys) \<Longrightarrow> x \<notin> set p"
proof (induction ys arbitrary: p)
  case (Cons y ys)
  then show ?case by (auto split: if_splits list.splits)
qed simp

lemma split_on_single: "x \<notin> set p \<Longrightarrow> split_on x p = [p]"
  by (induction p) auto

lemma split_on_append: "x \<notin> set p \<Longrightarrow> split_on x (p @ x # ys) = p # split_on x ys"
  by (induction p) auto

lemma split_join_with:
  "ps \<noteq> [] \<Longrightarrow> (\<forall>p \<in> set ps. x \<notin> set p) \<Longrightarrow> split_on x (join_with [x] ps) = ps"
  by (induction "[x]" ps rule: join_with.induct) (auto simp: split_on_single split_on_append)

lemma split1_append: "x \<notin> set p \<Longrightarrow> split1 x (p @ x # ys) = Some (p, ys)"
  by (induction p) (auto simp: split1_def)

lemma split1_SomeD: "split1 x ys = Some (p, q) \<Longrightarrow> ys = p @ x # q \<and> x \<notin> set p"
proof (induction ys arbitrary: p)
  case (Cons y ys)
  show ?case
  proof (cases "y = x")
    case True
    with Cons.prems show ?thesis by (auto simp: split1_def)
  next
    case False
    with Cons.prems obtain p' where "p = y # p'" and "split1 x ys = Some (p', q)"
      by (auto simp: split1_def split: if_splits)
    with Cons.IH False show ?thesis by auto
  qed
qed (simp add: split1_def)

text \<open>\<open>p in s\<close> on strings.\<close>

fun contains :: "'a list \<Rightarrow> 'a list \<Rightarrow> bool" where
  "contains p [] \<longleftrightarrow> p = []"
| "contains p (x # xs) \<longleftrightarrow> startswith (x # xs) p \<or> contains p xs"

lemma contains_iff: "contains p s \<longleftrightarrow> (\<exists>a b. s = a @ p @ b)"
proof (induction s)
  case (Cons x xs)
  have "(\<exists>a b. x # xs = a @ p @ b) \<longleftrightarrow> (\<exists>b. x # xs = p @ b) \<or> (\<exists>a b. xs = a @ p @ b)"
    by (metis append_Cons append_Nil list.exhaust list.inject)
  with Cons.IH show ?case by (simp add: startswith_iff)
qed simp

section \<open>Character classes\<close>

definition in_range :: "nat \<Rightarrow> nat \<Rightarrow> nat \<Rightarrow> bool" where
  "in_range lo hi c \<longleftrightarrow> lo \<le> c \<and> c \<le> hi"

definition is_digit :: "nat \<Rightarrow> bool" where
  "is_digit c \<longleftrightarrow> in_range 48 57 c"

definition is_lower :: "nat \<Rightarrow> bool" where
  "is_lower c \<longleftrightarrow> in_range 97 122 c"

definition is_upper :: "nat \<Rightarrow> bool" where
  "is_upper c \<longleftrightarrow> in_range 65 90 c"

definition is_alnum :: "nat \<Rightarrow> bool" where
  "is_alnum c \<longleftrightarrow> is_digit c \<or> is_lower c \<or> is_upper c"

definition is_lower_hex :: "nat \<Rightarrow> bool" where
  "is_lower_hex c \<longleftrightarrow> is_digit c \<or> in_range 97 102 c"

text \<open>
  The shape of most of the code's anchored patterns, \<open>^[first][rest]{0,n}$\<close> under
  \<open>fullmatch\<close>.
\<close>

definition class_match :: "(nat \<Rightarrow> bool) \<Rightarrow> (nat \<Rightarrow> bool) \<Rightarrow> nat \<Rightarrow> pystr \<Rightarrow> bool" where
  "class_match first rest n s =
     (case s of [] \<Rightarrow> False | c # cs \<Rightarrow> first c \<and> length cs \<le> n \<and> list_all rest cs)"

lemma class_match_length: "class_match f r n s \<Longrightarrow> 0 < length s \<and> length s \<le> Suc n"
  by (auto simp: class_match_def split: list.splits)

lemma class_match_all:
  "class_match f r n s \<Longrightarrow> (\<And>c. f c \<Longrightarrow> r c) \<Longrightarrow> list_all r s"
  by (auto simp: class_match_def split: list.splits)

lemma class_match_notin:
  "class_match f r n s \<Longrightarrow> \<not> f c \<Longrightarrow> \<not> r c \<Longrightarrow> c \<notin> set s"
  by (auto simp: class_match_def list_all_iff split: list.splits)

section \<open>Decimal and hexadecimal digits\<close>

definition digit :: "nat \<Rightarrow> nat" where
  "digit d = d + 48"

lemma is_digit_digit: "is_digit (digit d) \<longleftrightarrow> d < 10"
  by (auto simp: is_digit_def in_range_def digit_def)

fun dec_digits :: "nat \<Rightarrow> pystr" where
  "dec_digits n = (if n < 10 then [digit n] else dec_digits (n div 10) @ [digit (n mod 10)])"

declare dec_digits.simps [simp del]

definition undec :: "pystr \<Rightarrow> nat" where
  "undec s = foldl (\<lambda>a c. 10 * a + (c - 48)) 0 s"

lemma undec_dec_digits [simp]: "undec (dec_digits n) = n"
proof (induction n rule: dec_digits.induct)
  case (1 n)
  then show ?case
    by (subst dec_digits.simps) (simp add: undec_def digit_def)
qed

lemma dec_digits_digits [simp]: "list_all is_digit (dec_digits n)"
proof (induction n rule: dec_digits.induct)
  case (1 n)
  then show ?case
    by (subst dec_digits.simps) (auto simp: is_digit_digit)
qed

lemma dec_digits_nonempty [simp]: "dec_digits n \<noteq> []"
  by (subst dec_digits.simps) simp

lemma dec_digits_hd: "0 < n \<Longrightarrow> in_range 49 57 (hd (dec_digits n))"
proof (induction n rule: dec_digits.induct)
  case (1 n)
  then show ?case
    by (subst dec_digits.simps) (auto simp: in_range_def digit_def hd_append)
qed

lemma dec_digits_0: "dec_digits 0 = [48]"
  by (subst dec_digits.simps) (simp add: digit_def)

lemma dec_digits_inj [simp]: "dec_digits m = dec_digits n \<longleftrightarrow> m = n"
  by (metis undec_dec_digits)

text \<open>The characters \<open>str.isspace\<close> accepts; \<open>str.strip()\<close>.\<close>

definition is_space :: "nat \<Rightarrow> bool" where
  "is_space c \<longleftrightarrow> (9 \<le> c \<and> c \<le> 13) \<or> (28 \<le> c \<and> c \<le> 32) \<or> c = 133 \<or> c = 160 \<or> c = 5760
     \<or> (8192 \<le> c \<and> c \<le> 8202) \<or> c = 8232 \<or> c = 8233 \<or> c = 8239 \<or> c = 8287 \<or> c = 12288"

definition strip :: "pystr \<Rightarrow> pystr" where
  "strip s = rev (dropWhile is_space (rev (dropWhile is_space s)))"

definition hex_digit :: "nat \<Rightarrow> nat" where
  "hex_digit d = (if d < 10 then d + 48 else d + 87)"

definition unhex :: "nat \<Rightarrow> nat option" where
  "unhex c = (if is_digit c then Some (c - 48)
     else if in_range 97 102 c then Some (c - 87)
     else if in_range 65 70 c then Some (c - 55) else None)"

lemma unhex_hex_digit [simp]: "d < 16 \<Longrightarrow> unhex (hex_digit d) = Some d"
  by (auto simp: unhex_def hex_digit_def is_digit_def in_range_def)

lemma hex_digit_range: "d < 16 \<Longrightarrow> 48 \<le> hex_digit d \<and> hex_digit d \<le> 102"
  by (auto simp: hex_digit_def)

section \<open>UTF-8 and ASCII\<close>

definition utf8_char :: "nat \<Rightarrow> bytes option" where
  "utf8_char c =
     (if c < 128 then Some [char_of c]
      else if c < 2048 then Some [char_of (192 + c div 64), char_of (128 + c mod 64)]
      else if is_surrogate c then None
      else if c < 65536 then
        Some [char_of (224 + c div 4096), char_of (128 + c div 64 mod 64), char_of (128 + c mod 64)]
      else Some [char_of (240 + c div 262144), char_of (128 + c div 4096 mod 64),
                 char_of (128 + c div 64 mod 64), char_of (128 + c mod 64)])"

fun utf8_encode :: "pystr \<Rightarrow> exn + bytes" where
  "utf8_encode [] = Inr []"
| "utf8_encode (c # s) =
     (case utf8_char c of None \<Rightarrow> Inl UnicodeEncodeError
      | Some b \<Rightarrow> bindE (utf8_encode s) (\<lambda>bs. Inr (b @ bs)))"

definition is_cont :: "char \<Rightarrow> bool" where
  "is_cont b \<longleftrightarrow> 128 \<le> (of_char b :: nat) \<and> (of_char b :: nat) < 192"

definition cont :: "char \<Rightarrow> nat" where
  "cont b = of_char b - 128"

text \<open>The strict decoder: no overlong form, no surrogate, nothing above U+10FFFF.\<close>

definition cp3 :: "nat \<Rightarrow> char \<Rightarrow> char \<Rightarrow> nat" where
  "cp3 n b1 b2 = (n - 224) * 4096 + cont b1 * 64 + cont b2"

definition cp4 :: "nat \<Rightarrow> char \<Rightarrow> char \<Rightarrow> char \<Rightarrow> nat" where
  "cp4 n b1 b2 b3 = (n - 240) * 262144 + cont b1 * 4096 + cont b2 * 64 + cont b3"

fun utf8_decode :: "bytes \<Rightarrow> exn + pystr" where
  "utf8_decode [] = Inr []"
| "utf8_decode (b # bs) =
     (let n = of_char b in
      if n < 128 then bindE (utf8_decode bs) (\<lambda>s. Inr (n # s))
      else (case bs of
          [] \<Rightarrow> Inl UnicodeDecodeError
        | b1 # bs1 \<Rightarrow>
          if 194 \<le> n \<and> n < 224 \<and> is_cont b1
          then bindE (utf8_decode bs1) (\<lambda>s. Inr (((n - 192) * 64 + cont b1) # s))
          else (case bs1 of
              [] \<Rightarrow> Inl UnicodeDecodeError
            | b2 # bs2 \<Rightarrow>
              if 224 \<le> n \<and> n < 240 \<and> is_cont b1 \<and> is_cont b2
                \<and> 2048 \<le> cp3 n b1 b2 \<and> \<not> is_surrogate (cp3 n b1 b2)
              then bindE (utf8_decode bs2) (\<lambda>s. Inr (cp3 n b1 b2 # s))
              else (case bs2 of
                  [] \<Rightarrow> Inl UnicodeDecodeError
                | b3 # bs3 \<Rightarrow>
                  if 240 \<le> n \<and> n < 245 \<and> is_cont b1 \<and> is_cont b2 \<and> is_cont b3
                    \<and> 65536 \<le> cp4 n b1 b2 b3 \<and> cp4 n b1 b2 b3 < 1114112
                  then bindE (utf8_decode bs3) (\<lambda>s. Inr (cp4 n b1 b2 b3 # s))
                  else Inl UnicodeDecodeError))))"

declare utf8_decode.simps(2) [simp del]

lemma of_char_char_of [simp]: "n < 256 \<Longrightarrow> of_char (char_of n :: char) = (n :: nat)"
  by (simp add: of_char_of)

lemma utf8_decode1: "c < 128 \<Longrightarrow> utf8_decode (char_of c # bs) = bindE (utf8_decode bs) (\<lambda>s. Inr (c # s))"
  by (simp add: utf8_decode.simps(2))

lemma utf8_decode2:
  assumes "2 \<le> a" "a < 32" "d < 64"
  shows "utf8_decode (char_of (192 + a) # char_of (128 + d) # bs)
    = bindE (utf8_decode bs) (\<lambda>s. Inr ((a * 64 + d) # s))"
  using assms by (simp add: utf8_decode.simps(2) is_cont_def cont_def)

lemma utf8_decode3:
  assumes "a < 16" "b < 64" "d < 64" "2048 \<le> a * 4096 + b * 64 + d"
    and "\<not> is_surrogate (a * 4096 + b * 64 + d)"
  shows "utf8_decode (char_of (224 + a) # char_of (128 + b) # char_of (128 + d) # bs)
    = bindE (utf8_decode bs) (\<lambda>s. Inr ((a * 4096 + b * 64 + d) # s))"
  using assms by (simp add: utf8_decode.simps(2) is_cont_def cont_def cp3_def)

lemma utf8_decode4:
  assumes "a < 5" "b < 64" "d < 64" "e < 64"
    and "65536 \<le> a * 262144 + b * 4096 + d * 64 + e" "a * 262144 + b * 4096 + d * 64 + e < 1114112"
  shows "utf8_decode (char_of (240 + a) # char_of (128 + b) # char_of (128 + d) # char_of (128 + e) # bs)
    = bindE (utf8_decode bs) (\<lambda>s. Inr ((a * 262144 + b * 4096 + d * 64 + e) # s))"
  using assms by (simp add: utf8_decode.simps(2) is_cont_def cont_def cp4_def)

lemma div64: "c div 64 mod 64 + 64 * (c div 4096) = c div (64 :: nat)"
  using div_mult2_eq [of c 64 64] by simp

lemma div4096: "c div 4096 mod 64 + 64 * (c div 262144) = c div (4096 :: nat)"
  using div_mult2_eq [of c 4096 64] by simp

lemma utf8_decode_char:
  assumes "utf8_char c = Some b" and "c < 1114112"
  shows "utf8_decode (b @ bs) = bindE (utf8_decode bs) (\<lambda>s. Inr (c # s))"
proof -
  have m: "c mod 64 + 64 * (c div 64) = c" by simp
  consider "c < 128" | "128 \<le> c" "c < 2048" | "2048 \<le> c" "c < 65536" | "65536 \<le> c"
    by linarith
  then show ?thesis
  proof cases
    case 1
    with assms show ?thesis by (auto simp: utf8_char_def utf8_decode1)
  next
    case 2
    with assms utf8_decode2 [of "c div 64" "c mod 64" bs] show ?thesis
      by (auto simp: utf8_char_def)
  next
    case 3
    have e: "c div 4096 * 4096 + c div 64 mod 64 * 64 + c mod 64 = c"
      using m div64 [of c] by linarith
    show ?thesis
      using assms 3 utf8_decode3 [of "c div 4096" "c div 64 mod 64" "c mod 64" bs, unfolded e]
      by (auto simp: utf8_char_def split: if_splits)
  next
    case 4
    have e: "c div 262144 * 262144 + c div 4096 mod 64 * 4096 + c div 64 mod 64 * 64 + c mod 64 = c"
      using m div64 [of c] div4096 [of c] by linarith
    have "\<not> is_surrogate c" using 4 by (simp add: is_surrogate_def)
    then show ?thesis
      using assms 4 utf8_decode4 [of "c div 262144" "c div 4096 mod 64" "c div 64 mod 64" "c mod 64" bs,
        unfolded e]
      by (auto simp: utf8_char_def split: if_splits)
  qed
qed

lemma utf8_round: "utf8_encode s = Inr b \<Longrightarrow> valid_str s \<Longrightarrow> utf8_decode b = Inr s"
proof (induction s arbitrary: b)
  case (Cons c s)
  then show ?case
    by (auto simp: utf8_decode_char err_simps split: option.splits)
qed simp

lemma utf8_encode_append:
  "utf8_encode (s @ t) = bindE (utf8_encode s) (\<lambda>a. bindE (utf8_encode t) (\<lambda>b. Inr (a @ b)))"
  by (induction s)
     (simp_all add: bindE_assoc bindE_def split: option.splits sum.splits)

lemma utf8_encode_total: "\<forall>c \<in> set s. \<not> is_surrogate c \<Longrightarrow> \<exists>b. utf8_encode s = Inr b"
proof (induction s)
  case (Cons c s)
  then obtain b where "utf8_encode s = Inr b" by auto
  with Cons.prems show ?case by (auto simp: utf8_char_def)
qed simp

definition ascii_encode :: "pystr \<Rightarrow> exn + bytes" where
  "ascii_encode s = (if list_all (\<lambda>c. c < 128) s then Inr (map char_of s) else Inl UnicodeEncodeError)"

definition ascii_decode :: "bytes \<Rightarrow> exn + pystr" where
  "ascii_decode b = (if list_all (\<lambda>c. of_char c < (128::nat)) b then Inr (map of_char b)
     else Inl UnicodeDecodeError)"

lemma ascii_round: "ascii_encode s = Inr b \<Longrightarrow> ascii_decode b = Inr s"
proof -
  assume a: "ascii_encode s = Inr b"
  then have "list_all (\<lambda>c. c < 128) s" and b: "b = map char_of s"
    by (auto simp: ascii_encode_def split: if_splits)
  then show ?thesis
    by (auto simp: ascii_decode_def list_all_iff o_def intro!: map_idI)
qed

text \<open>Big-endian 32-bit lengths, \<open>struct.pack(''>I'', n)\<close> and its inverse.\<close>

definition pack_u32 :: "nat \<Rightarrow> exn + bytes" where
  "pack_u32 n = (if n < 2 ^ 32
     then Inr [char_of (n div 2 ^ 24), char_of (n div 2 ^ 16 mod 256), char_of (n div 2 ^ 8 mod 256),
               char_of (n mod 256)]
     else Inl StructError)"

definition unpack_u32 :: "bytes \<Rightarrow> nat" where
  "unpack_u32 b = foldl (\<lambda>a c. 256 * a + of_char c) 0 b"

lemma pack_u32_length: "pack_u32 n = Inr b \<Longrightarrow> length b = 4"
  by (auto simp: pack_u32_def split: if_splits)

lemma unpack_pack_u32: "pack_u32 n = Inr b \<Longrightarrow> unpack_u32 b = n"
proof -
  assume a: "pack_u32 n = Inr b"
  then have n: "n < 4294967296" by (auto simp: pack_u32_def split: if_splits)
  then have l: "n div 16777216 < 256" by (simp add: less_mult_imp_div_less)
  have "n div 65536 mod 256 + 256 * (n div 16777216) = n div 65536"
    using div_mult2_eq [of n 65536 256] by simp
  moreover have "n div 256 mod 256 + 256 * (n div 65536) = n div 256"
    using div_mult2_eq [of n 256 256] by simp
  moreover have "n mod 256 + 256 * (n div 256) = n" by simp
  ultimately have "16777216 * (n div 16777216) + 65536 * (n div 65536 mod 256)
      + 256 * (n div 256 mod 256) + n mod 256 = n"
    by linarith
  with a n l show ?thesis
    by (auto simp: pack_u32_def unpack_u32_def algebra_simps)
qed

lemma unpack_u32_bound: "length b = 4 \<Longrightarrow> unpack_u32 b < 2 ^ 32"
proof -
  assume "length b = 4"
  then obtain b0 b1 b2 b3 where b: "b = [b0, b1, b2, b3]"
    by (auto simp: numeral_eq_Suc length_Suc_conv)
  have "16777216 * k + 65536 * l + 256 * m + n < 4294967296"
    if "k < 256" "l < 256" "m < 256" "n < 256" for k l m n :: nat
    using that by linarith
  then have "16777216 * of_char b0 + 65536 * of_char b1 + 256 * of_char b2 + of_char b3
      < (4294967296 :: nat)"
    by (meson nat_of_char_less_256)
  then show ?thesis by (simp add: b unpack_u32_def)
qed

end
