(* ===== verification/Py_Json.thy ===== *)
theory Py_Json
  imports Py_Prelude "HOL-Library.Multiset"
begin

text \<open>
  Python's \<open>json\<close> module, as far as the brokers use it: \<open>json.dumps\<close> with the options the
  frame schemas and the persisted records set (\<open>ensure_ascii\<close>, \<open>sort_keys\<close>,
  \<open>separators\<close>, \<open>indent\<close>) and \<open>json.loads\<close> with \<open>object_pairs_hook\<close> and
  \<open>parse_constant\<close>. Every framed message, policy file, pending record and audit line of
  the program goes through these two functions.

  An object is an association list in insertion order. A float is kept as its exact decimal
  value (mantissa and exponent of ten), because the code never computes with one; \<open>dumps\<close> of
  a float is not modelled. \<open>lim\<close> is the number of nested containers the interpreter's
  recursion limit leaves: beyond it the parser raises \<open>RecursionError\<close>, as CPython does. The
  parser also carries fuel; \<open>json_loads\<close> supplies enough (\<open>json_loads_fuel\<close>).
\<close>

section \<open>Values\<close>

datatype json =
    JNull
  | JBool bool
  | JInt int
  | JFloat int int
  | JStr pystr
  | JList "json list"
  | JObj "(pystr \<times> json) list"

text \<open>The interpreter's limit on the digits of a converted integer.\<close>

definition max_int_digits :: nat where
  "max_int_digits = 4300"

definition int_repr :: "int \<Rightarrow> pystr" where
  "int_repr i = (if i < 0 then 45 # dec_digits (nat (- i)) else dec_digits (nat i))"

definition small_int :: "int \<Rightarrow> bool" where
  "small_int i \<longleftrightarrow> length (dec_digits (nat \<bar>i\<bar>)) \<le> max_int_digits"

section \<open>Writing\<close>

record dump_opts =
  d_ascii :: bool
  d_sort :: bool
  d_item :: pystr
  d_key :: pystr
  d_indent :: "nat option"

definition hex4 :: "nat \<Rightarrow> pystr" where
  "hex4 c = [hex_digit (c div 4096), hex_digit (c div 256 mod 16), hex_digit (c div 16 mod 16),
             hex_digit (c mod 16)]"

definition esc_u :: "nat \<Rightarrow> pystr" where
  "esc_u c = 92 # 117 # hex4 c"

definition esc_char :: "bool \<Rightarrow> nat \<Rightarrow> pystr" where
  "esc_char ascii c =
     (if c = 34 then [92, 34]
      else if c = 92 then [92, 92]
      else if c = 10 then [92, 110]
      else if c = 13 then [92, 114]
      else if c = 9 then [92, 116]
      else if c = 12 then [92, 102]
      else if c = 8 then [92, 98]
      else if c < 32 then esc_u c
      else if ascii \<and> 126 < c then
        (if c < 65536 then esc_u c
         else esc_u (55296 + (c - 65536) div 1024) @ esc_u (56320 + (c - 65536) mod 1024))
      else [c])"

definition dump_str :: "bool \<Rightarrow> pystr \<Rightarrow> pystr" where
  "dump_str ascii s = [34] @ concat (map (esc_char ascii) s) @ [34]"

definition newline_at :: "dump_opts \<Rightarrow> nat \<Rightarrow> pystr" where
  "newline_at opt l = (case d_indent opt of None \<Rightarrow> [] | Some k \<Rightarrow> 10 # replicate (k * l) 32)"

fun render :: "dump_opts \<Rightarrow> nat \<Rightarrow> json \<Rightarrow> pystr" where
  "render opt l JNull = u ''null''"
| "render opt l (JBool b) = (if b then u ''true'' else u ''false'')"
| "render opt l (JInt i) = int_repr i"
| "render opt l (JFloat m e) = []"
| "render opt l (JStr s) = dump_str (d_ascii opt) s"
| "render opt l (JList vs) =
     (if vs = [] then u ''[]''
      else [91] @ newline_at opt (Suc l)
        @ join_with (d_item opt @ newline_at opt (Suc l)) (map (render opt (Suc l)) vs)
        @ newline_at opt l @ [93])"
| "render opt l (JObj kvs) =
     (if kvs = [] then u ''{}''
      else [123] @ newline_at opt (Suc l)
        @ join_with (d_item opt @ newline_at opt (Suc l))
            (map (\<lambda>(k, v). dump_str (d_ascii opt) k @ d_key opt @ render opt (Suc l) v) kvs)
        @ newline_at opt l @ [125])"

fun sort_json :: "json \<Rightarrow> json" where
  "sort_json (JList vs) = JList (map sort_json vs)"
| "sort_json (JObj kvs) = JObj (sort_key fst (map (\<lambda>(k, v). (k, sort_json v)) kvs))"
| "sort_json v = v"

text \<open>What makes \<open>dumps\<close> raise before it produces its text.\<close>

fun first_error :: "exn option list \<Rightarrow> exn option" where
  "first_error [] = None"
| "first_error (e # es) = (case e of None \<Rightarrow> first_error es | Some x \<Rightarrow> Some x)"

fun dump_error :: "json \<Rightarrow> exn option" where
  "dump_error (JInt i) = (if small_int i then None else Some (ValueError ''int string conversion limit''))"
| "dump_error (JFloat m e) = Some NotModelled"
| "dump_error (JList vs) = first_error (map dump_error vs)"
| "dump_error (JObj kvs) = first_error (map (\<lambda>(k, v). dump_error v) kvs)"
| "dump_error v = None"

definition json_dumps :: "dump_opts \<Rightarrow> json \<Rightarrow> exn + pystr" where
  "json_dumps opt v =
     (let w = (if d_sort opt then sort_json v else v) in
      case dump_error w of Some e \<Rightarrow> Inl e | None \<Rightarrow> Inr (render opt 0 w))"

section \<open>Reading\<close>

definition is_ws :: "nat \<Rightarrow> bool" where
  "is_ws c \<longleftrightarrow> c = 32 \<or> c = 9 \<or> c = 10 \<or> c = 13"

definition skip_ws :: "pystr \<Rightarrow> pystr" where
  "skip_ws s = dropWhile is_ws s"

fun scan_hex4 :: "pystr \<Rightarrow> (nat \<times> pystr) option" where
  "scan_hex4 (a # b # c # d # r) =
     (case (unhex a, unhex b, unhex c, unhex d) of
        (Some x, Some y, Some z, Some w) \<Rightarrow> Some (4096 * x + 256 * y + 16 * z + w, r)
      | _ \<Rightarrow> None)"
| "scan_hex4 _ = None"

text \<open>\<open>scan_low\<close> looks for the low half of a surrogate pair after the high half \<open>x\<close>.\<close>

definition scan_low :: "nat \<Rightarrow> pystr \<Rightarrow> (nat \<times> pystr) option" where
  "scan_low x r =
     (case r of
        c # d # r2 \<Rightarrow>
          (if c = 92 \<and> d = 117 then
             (case scan_hex4 r2 of
                None \<Rightarrow> None
              | Some (y, r3) \<Rightarrow>
                  if in_range 56320 57343 y
                  then Some (65536 + (x - 55296) * 1024 + (y - 56320), r3)
                  else Some (x, r))
           else Some (x, r))
      | _ \<Rightarrow> Some (x, r))"

definition scan_escape :: "pystr \<Rightarrow> (nat \<times> pystr) option" where
  "scan_escape s =
     (case s of
        [] \<Rightarrow> None
      | c # r \<Rightarrow>
          if c = 34 \<or> c = 92 \<or> c = 47 then Some (c, r)
          else if c = 98 then Some (8, r)
          else if c = 102 then Some (12, r)
          else if c = 110 then Some (10, r)
          else if c = 114 then Some (13, r)
          else if c = 116 then Some (9, r)
          else if c = 117 then
            (case scan_hex4 r of
               None \<Rightarrow> None
             | Some (x, r1) \<Rightarrow> if in_range 55296 56319 x then scan_low x r1 else Some (x, r1))
          else None)"

lemma scan_hex4_length: "scan_hex4 s = Some (x, r) \<Longrightarrow> length r < length s"
  by (cases s rule: scan_hex4.cases) (auto split: option.splits)

lemma scan_low_length: "scan_low x s = Some (y, r) \<Longrightarrow> length r \<le> length s"
  by (auto simp: scan_low_def split: list.splits if_splits option.splits dest!: scan_hex4_length)

lemma scan_escape_length: "scan_escape s = Some (x, r) \<Longrightarrow> length r < length s"
  by (auto simp: scan_escape_def split: list.splits if_splits option.splits
      dest!: scan_hex4_length scan_low_length)

text \<open>The body of a string literal, after its opening quote; control characters are refused.\<close>

function scan_string :: "pystr \<Rightarrow> (pystr \<times> pystr) option" where
  "scan_string [] = None"
| "scan_string (c # s) =
     (if c = 34 then Some ([], s)
      else if c = 92 then
        (case scan_escape s of
           None \<Rightarrow> None
         | Some (d, r) \<Rightarrow>
             (case scan_string r of None \<Rightarrow> None | Some (t, r2) \<Rightarrow> Some (d # t, r2)))
      else if c < 32 then None
      else (case scan_string s of None \<Rightarrow> None | Some (t, r2) \<Rightarrow> Some (c # t, r2)))"
  by pat_completeness auto
termination
  by (relation "measure length") (auto dest: scan_escape_length)

definition span_digits :: "pystr \<Rightarrow> pystr \<times> pystr" where
  "span_digits s = (takeWhile is_digit s, dropWhile is_digit s)"

definition scan_frac :: "pystr \<Rightarrow> pystr \<times> pystr" where
  "scan_frac s =
     (case s of
        c # d # _ \<Rightarrow> if c = 46 \<and> is_digit d then span_digits (tl s) else ([], s)
      | _ \<Rightarrow> ([], s))"

text \<open>An exponent: its sign and its digits (none when there is no exponent).\<close>

definition scan_exp :: "pystr \<Rightarrow> bool \<times> pystr \<times> pystr" where
  "scan_exp s =
     (case s of
        c # r \<Rightarrow>
          if c = 101 \<or> c = 69 then
            (let sg = (case r of x # _ \<Rightarrow> x = 43 \<or> x = 45 | [] \<Rightarrow> False);
                 neg = (case r of x # _ \<Rightarrow> x = 45 | [] \<Rightarrow> False);
                 (ds, r2) = span_digits (if sg then tl r else r)
             in if ds = [] then (False, [], s) else (neg, ds, r2))
          else (False, [], s)
      | [] \<Rightarrow> (False, [], []))"

definition signed :: "bool \<Rightarrow> nat \<Rightarrow> int" where
  "signed neg n = (if neg then - int n else int n)"

definition scan_number :: "pystr \<Rightarrow> exn + json \<times> pystr" where
  "scan_number s =
     (let neg = (case s of c # _ \<Rightarrow> c = 45 | [] \<Rightarrow> False);
          s1 = (if neg then tl s else s)
      in case s1 of
           [] \<Rightarrow> Inl JSONDecodeError
         | c # r \<Rightarrow>
             if \<not> is_digit c then Inl JSONDecodeError
             else
               (let (ip, s2) = (if c = 48 then ([48], r) else span_digits s1);
                    (fp, s3) = scan_frac s2;
                    (eneg, ep, s4) = scan_exp s3
                in if fp = [] \<and> ep = []
                   then (if length ip \<le> max_int_digits
                         then Inr (JInt (signed neg (undec ip)), s4)
                         else Inl (ValueError ''int string conversion limit''))
                   else Inr (JFloat (signed neg (undec (ip @ fp)))
                               (signed eneg (undec ep) - int (length fp)), s4)))"

text \<open>The fixed words and the constants passed to \<open>parse_constant\<close>.\<close>

definition scan_word :: "(string \<Rightarrow> exn + json) \<Rightarrow> pystr \<Rightarrow> (exn + json \<times> pystr) option" where
  "scan_word chook s =
     (if startswith s (u ''null'') then Some (Inr (JNull, drop 4 s))
      else if startswith s (u ''true'') then Some (Inr (JBool True, drop 4 s))
      else if startswith s (u ''false'') then Some (Inr (JBool False, drop 5 s))
      else if startswith s (u ''NaN'') then
        Some (bindE (chook ''NaN'') (\<lambda>v. Inr (v, drop 3 s)))
      else if startswith s (u ''Infinity'') then
        Some (bindE (chook ''Infinity'') (\<lambda>v. Inr (v, drop 8 s)))
      else if startswith s (u ''-Infinity'') then
        Some (bindE (chook ''-Infinity'') (\<lambda>v. Inr (v, drop 9 s)))
      else None)"

type_synonym pairs_hook = "(pystr \<times> json) list \<Rightarrow> exn + json"

fun parse_value :: "pairs_hook \<Rightarrow> (string \<Rightarrow> exn + json) \<Rightarrow> nat \<Rightarrow> nat \<Rightarrow> pystr \<Rightarrow> exn + json \<times> pystr"
  and parse_elems :: "pairs_hook \<Rightarrow> (string \<Rightarrow> exn + json) \<Rightarrow> nat \<Rightarrow> nat \<Rightarrow> pystr \<Rightarrow> exn + json list \<times> pystr"
  and parse_members ::
    "pairs_hook \<Rightarrow> (string \<Rightarrow> exn + json) \<Rightarrow> nat \<Rightarrow> nat \<Rightarrow> pystr \<Rightarrow> exn + (pystr \<times> json) list \<times> pystr"
where
  "parse_value h ch 0 d s = Inl OutOfFuel"
| "parse_value h ch (Suc n) d s =
     (case s of
        [] \<Rightarrow> Inl JSONDecodeError
      | c # cs \<Rightarrow>
          if c = 34 then
            (case scan_string cs of None \<Rightarrow> Inl JSONDecodeError | Some (t, r) \<Rightarrow> Inr (JStr t, r))
          else if c = 123 then
            (if d = 0 then Inl RecursionError
             else (case skip_ws cs of
                 [] \<Rightarrow> Inl JSONDecodeError
               | q # r \<Rightarrow>
                   if q = 125 then bindE (h []) (\<lambda>v. Inr (v, r))
                   else if q = 34 then
                     bindE (parse_members h ch n (d - 1) r)
                       (\<lambda>(kvs, r2). bindE (h kvs) (\<lambda>v. Inr (v, r2)))
                   else Inl JSONDecodeError))
          else if c = 91 then
            (if d = 0 then Inl RecursionError
             else (case skip_ws cs of
                 [] \<Rightarrow> Inl JSONDecodeError
               | q # r \<Rightarrow>
                   if q = 93 then Inr (JList [], r)
                   else bindE (parse_elems h ch n (d - 1) (q # r)) (\<lambda>(vs, r2). Inr (JList vs, r2))))
          else (case scan_word ch s of Some res \<Rightarrow> res | None \<Rightarrow> scan_number s))"
| "parse_elems h ch 0 d s = Inl OutOfFuel"
| "parse_elems h ch (Suc n) d s =
     bindE (parse_value h ch n d s) (\<lambda>(v, r).
       case skip_ws r of
         [] \<Rightarrow> Inl JSONDecodeError
       | q # r2 \<Rightarrow>
           if q = 44 then bindE (parse_elems h ch n d (skip_ws r2)) (\<lambda>(vs, r3). Inr (v # vs, r3))
           else if q = 93 then Inr ([v], r2)
           else Inl JSONDecodeError)"
| "parse_members h ch 0 d s = Inl OutOfFuel"
| "parse_members h ch (Suc n) d s =
     (case scan_string s of
        None \<Rightarrow> Inl JSONDecodeError
      | Some (k, r) \<Rightarrow>
          (case skip_ws r of
             [] \<Rightarrow> Inl JSONDecodeError
           | q # r1 \<Rightarrow>
               if q \<noteq> 58 then Inl JSONDecodeError
               else
                 bindE (parse_value h ch n d (skip_ws r1)) (\<lambda>(v, r2).
                   case skip_ws r2 of
                     [] \<Rightarrow> Inl JSONDecodeError
                   | q2 # r3 \<Rightarrow>
                       if q2 = 44 then
                         (case skip_ws r3 of
                            [] \<Rightarrow> Inl JSONDecodeError
                          | q3 # r4 \<Rightarrow>
                              if q3 = 34 then
                                bindE (parse_members h ch n d r4) (\<lambda>(kvs, r5). Inr ((k, v) # kvs, r5))
                              else Inl JSONDecodeError)
                       else if q2 = 125 then Inr ([(k, v)], r3)
                       else Inl JSONDecodeError)))"

definition json_loads ::
  "nat \<Rightarrow> pairs_hook \<Rightarrow> (string \<Rightarrow> exn + json) \<Rightarrow> pystr \<Rightarrow> exn + json" where
  "json_loads lim h ch s =
     (if startswith s [65279] then Inl JSONDecodeError
      else bindE (parse_value h ch (2 * length s + 2) lim (skip_ws s)) (\<lambda>(v, r).
        if skip_ws r = [] then Inr v else Inl JSONDecodeError))"


section \<open>Reading back what was written\<close>

definition clean_str :: "pystr \<Rightarrow> bool" where
  "clean_str s \<longleftrightarrow> list_all (\<lambda>c. c < 1114112 \<and> \<not> is_surrogate c) s"

fun plain :: "json \<Rightarrow> bool" where
  "plain (JInt i) = small_int i"
| "plain (JFloat m e) = False"
| "plain (JStr s) = clean_str s"
| "plain (JList vs) = list_all plain vs"
| "plain (JObj kvs) =
     (distinct (map fst kvs) \<and> list_all (\<lambda>(k, v). clean_str k \<and> plain v) kvs)"
| "plain v = True"

fun depth :: "json \<Rightarrow> nat" where
  "depth (JList vs) = Suc (foldr max (map depth vs) 0)"
| "depth (JObj kvs) = Suc (foldr max (map (\<lambda>(k, v). depth v) kvs) 0)"
| "depth v = 0"

definition opts_ok :: "dump_opts \<Rightarrow> bool" where
  "opts_ok opt \<longleftrightarrow>
     (case d_item opt of [] \<Rightarrow> False | c # w \<Rightarrow> c = 44 \<and> list_all is_ws w)
     \<and> (case d_key opt of [] \<Rightarrow> False | c # w \<Rightarrow> c = 58 \<and> list_all is_ws w)"

definition num_stop :: "pystr \<Rightarrow> bool" where
  "num_stop r \<longleftrightarrow> (case r of [] \<Rightarrow> True
     | c # _ \<Rightarrow> \<not> is_digit c \<and> c \<noteq> 46 \<and> c \<noteq> 101 \<and> c \<noteq> 69)"

lemma foldr_max_le: "x \<in> set xs \<Longrightarrow> x \<le> foldr max xs (0 :: nat)"
  by (induction xs) auto

lemma skip_ws_append: "list_all is_ws w \<Longrightarrow> skip_ws (w @ s) = skip_ws s"
  by (induction w) (auto simp: skip_ws_def)

lemma skip_ws_Cons [simp]: "\<not> is_ws c \<Longrightarrow> skip_ws (c # s) = c # s"
  by (simp add: skip_ws_def)

lemma skip_ws_length: "length (skip_ws s) \<le> length s"
  by (simp add: skip_ws_def length_dropWhile_le)

lemma is_ws_simps [simp]:
  "\<not> is_ws 34" "\<not> is_ws 44" "\<not> is_ws 58" "\<not> is_ws 91" "\<not> is_ws 93" "\<not> is_ws 123" "\<not> is_ws 125"
  by (simp_all add: is_ws_def)

lemma newline_at_ws [simp]: "list_all is_ws (newline_at opt l)"
  by (auto simp: newline_at_def is_ws_def list_all_iff split: option.splits)

subsection \<open>String literals\<close>

lemma scan_hex4_hex4: "c < 65536 \<Longrightarrow> scan_hex4 (hex4 c @ r) = Some (c, r)"
proof -
  assume c: "c < 65536"
  then have b: "c div 4096 < 16" by (simp add: less_mult_imp_div_less)
  have "c mod 16 + 16 * (c div 16) = c" by simp
  moreover have "c div 16 mod 16 + 16 * (c div 256) = c div 16"
    using div_mult2_eq [of c 16 16] by simp
  moreover have "c div 256 mod 16 + 16 * (c div 4096) = c div 256"
    using div_mult2_eq [of c 256 16] by simp
  ultimately have "4096 * (c div 4096) + 256 * (c div 256 mod 16) + 16 * (c div 16 mod 16) + c mod 16 = c"
    by linarith
  with b show ?thesis by (simp add: hex4_def)
qed

lemma length_esc_u [simp]: "length (esc_u c) = 6"
  by (simp add: esc_u_def hex4_def)

lemma scan_escape_esc_u:
  "c < 65536 \<Longrightarrow> \<not> is_surrogate c \<Longrightarrow> scan_escape (tl (esc_u c) @ r) = Some (c, r)"
  by (auto simp: esc_u_def scan_escape_def scan_hex4_hex4 in_range_def is_surrogate_def)

lemma scan_escape_pair:
  assumes "x < 1024" and "y < 1024"
  shows "scan_escape (tl (esc_u (55296 + x)) @ esc_u (56320 + y) @ r)
    = Some (65536 + x * 1024 + y, r)"
  using assms by (simp add: esc_u_def scan_escape_def scan_low_def scan_hex4_hex4 in_range_def)

lemma scan_string_esc_u:
  "c < 65536 \<Longrightarrow> \<not> is_surrogate c \<Longrightarrow> scan_string (esc_u c @ t)
    = (case scan_string t of None \<Rightarrow> None | Some (w, r) \<Rightarrow> Some (c # w, r))"
  using scan_escape_esc_u [of c t] by (simp add: esc_u_def)

lemma scan_string_pair:
  assumes "65536 \<le> c" and "c < 1114112"
  shows "scan_string (esc_u (55296 + (c - 65536) div 1024) @ esc_u (56320 + (c - 65536) mod 1024) @ t)
    = (case scan_string t of None \<Rightarrow> None | Some (w, r) \<Rightarrow> Some (c # w, r))"
proof -
  have x: "(c - 65536) div 1024 < 1024" using assms by (simp add: less_mult_imp_div_less)
  have y: "(c - 65536) mod 1024 < 1024" by simp
  have "(c - 65536) div 1024 * 1024 + (c - 65536) mod 1024 = c - 65536" by (rule div_mult_mod_eq)
  then have "65536 + (c - 65536) div 1024 * 1024 + (c - 65536) mod 1024 = c"
    using assms(1) by linarith
  with scan_escape_pair [OF x y, of t] show ?thesis by (simp add: esc_u_def)
qed

lemma scan_string_esc_char:
  assumes "c < 1114112" and "\<not> is_surrogate c"
  shows "scan_string (esc_char a c @ t)
    = (case scan_string t of None \<Rightarrow> None | Some (w, r) \<Rightarrow> Some (c # w, r))"
proof -
  consider (simple) "c \<in> {34, 92, 10, 13, 9, 12, 8}"
    | (ctrl) "c \<notin> {34, 92, 10, 13, 9, 12, 8}" "c < 32"
    | (plain) "c \<notin> {34, 92, 10, 13, 9, 12, 8}" "32 \<le> c" "\<not> (a \<and> 126 < c)"
    | (bmp) "c \<notin> {34, 92, 10, 13, 9, 12, 8}" "a" "126 < c" "c < 65536"
    | (astral) "a" "65536 \<le> c"
    by force
  then show ?thesis
  proof cases
    case simple
    then show ?thesis by (auto simp: esc_char_def scan_escape_def)
  next
    case ctrl
    then show ?thesis using scan_string_esc_u [of c t] assms by (simp add: esc_char_def)
  next
    case plain
    then show ?thesis by (auto simp: esc_char_def)
  next
    case bmp
    then show ?thesis using scan_string_esc_u [of c t] assms by (simp add: esc_char_def)
  next
    case astral
    then show ?thesis using scan_string_pair [of c t] assms by (simp add: esc_char_def)
  qed
qed

lemma clean_str_Cons: "clean_str (c # s) \<longleftrightarrow> c < 1114112 \<and> \<not> is_surrogate c \<and> clean_str s"
  by (auto simp: clean_str_def)

lemma scan_string_dump:
  "clean_str s \<Longrightarrow> scan_string (concat (map (esc_char a) s) @ 34 # r) = Some (s, r)"
  by (induction s) (simp_all add: scan_string_esc_char clean_str_Cons del: scan_string.simps(2),
      simp add: scan_string.simps(2))

lemma dump_str_eq: "dump_str a s = 34 # (concat (map (esc_char a) s) @ [34])"
  by (simp add: dump_str_def)

subsection \<open>Numbers\<close>

lemma span_digits_append:
  "list_all is_digit ds \<Longrightarrow> num_stop r \<Longrightarrow> span_digits (ds @ r) = (ds, r)"
  by (induction ds) (auto simp: span_digits_def num_stop_def split: list.splits)

lemma scan_frac_stop: "num_stop r \<Longrightarrow> scan_frac r = ([], r)"
  by (auto simp: scan_frac_def num_stop_def split: list.splits)

lemma scan_exp_stop: "num_stop r \<Longrightarrow> scan_exp r = (False, [], r)"
  by (auto simp: scan_exp_def num_stop_def split: list.splits)

lemma dec_digits_Cons:
  obtains c cs where "dec_digits n = c # cs" "is_digit c" "c = 48 \<longleftrightarrow> n = 0" "n = 0 \<longrightarrow> cs = []"
proof -
  obtain c cs where d: "dec_digits n = c # cs" by (meson dec_digits_nonempty neq_Nil_conv)
  moreover have "is_digit c" using dec_digits_digits [of n] d by simp
  moreover have "c = 48 \<longleftrightarrow> n = 0"
    using dec_digits_hd [of n] d dec_digits_0 by (cases "n = 0") (auto simp: in_range_def)
  moreover have "n = 0 \<longrightarrow> cs = []" using d dec_digits_0 by auto
  ultimately show thesis by (rule that)
qed

lemma scan_number_digits:
  assumes "length (dec_digits n) \<le> max_int_digits" and "num_stop r"
  shows "scan_number (dec_digits n @ r) = Inr (JInt (int n), r)"
    and "scan_number (45 # dec_digits n @ r) = Inr (JInt (- int n), r)"
proof -
  obtain c cs where d: "dec_digits n = c # cs" and c: "is_digit c" "c = 48 \<longleftrightarrow> n = 0"
    and z: "n = 0 \<longrightarrow> cs = []"
    by (rule dec_digits_Cons)
  have n45: "c \<noteq> 45" using c(1) by (auto simp: is_digit_def in_range_def)
  have sp: "span_digits (c # cs @ r) = (c # cs, r)"
    using span_digits_append [OF dec_digits_digits assms(2), of n] d by simp
  have u0: "undec [48] = 0" by (simp add: undec_def)
  have un: "undec (c # cs) = n" using undec_dec_digits [of n] d by simp
  show "scan_number (dec_digits n @ r) = Inr (JInt (int n), r)"
    using assms(1) c z n45 sp u0 un
    by (auto simp: scan_number_def d scan_frac_stop scan_exp_stop assms(2) signed_def max_int_digits_def)
  show "scan_number (45 # dec_digits n @ r) = Inr (JInt (- int n), r)"
    using assms(1) c z n45 sp u0 un
    by (auto simp: scan_number_def d scan_frac_stop scan_exp_stop assms(2) signed_def max_int_digits_def)
qed

lemma scan_number_int:
  "small_int i \<Longrightarrow> num_stop r \<Longrightarrow> scan_number (int_repr i @ r) = Inr (JInt i, r)"
  using scan_number_digits [of "nat \<bar>i\<bar>" r] by (auto simp: int_repr_def small_int_def)

text \<open>A digit, or a minus sign and a digit, starts none of the fixed words.\<close>

lemma scan_word_int: "scan_word ch (int_repr i @ r) = None"
proof -
  obtain c cs where d: "dec_digits (nat \<bar>i\<bar>) = c # cs" and c: "is_digit c"
    by (rule dec_digits_Cons)
  then have "int_repr i = (if i < 0 then [45] else []) @ c # cs"
    by (auto simp: int_repr_def)
  with c show ?thesis
    by (auto simp: scan_word_def startswith_def u_def is_digit_def in_range_def)
qed

subsection \<open>Containers\<close>

lemma join_with_Cons:
  "join_with sep (p # ps) = (if ps = [] then p else p @ sep @ join_with sep ps)"
  by (cases ps) simp_all

definition starts_value :: "pystr \<Rightarrow> bool" where
  "starts_value s \<longleftrightarrow> (case s of [] \<Rightarrow> False | c # _ \<Rightarrow> \<not> is_ws c \<and> c \<noteq> 93 \<and> c \<noteq> 125 \<and> c < 128)"

lemma starts_value_skip [simp]: "starts_value s \<Longrightarrow> skip_ws (s @ t) = s @ t"
  by (auto simp: starts_value_def split: list.splits)

lemma starts_value_append [simp]: "starts_value s \<Longrightarrow> starts_value (s @ t)"
  by (auto simp: starts_value_def split: list.splits)

lemma starts_value_join: "starts_value p \<Longrightarrow> starts_value (join_with sep (p # ps))"
  by (simp add: join_with_Cons)

lemma num_stop_simps [simp]:
  "num_stop []"
  "num_stop (44 # r)"
  "is_ws c \<Longrightarrow> num_stop (c # r)"
  "num_stop (93 # r)"
  "num_stop (125 # r)"
  by (auto simp: num_stop_def is_ws_def is_digit_def in_range_def)

lemma num_stop_ws: "list_all is_ws w \<Longrightarrow> num_stop r \<Longrightarrow> num_stop (w @ r)"
  by (cases w) auto

lemma starts_value_int: "starts_value (int_repr i)"
proof -
  obtain c cs where "dec_digits (nat \<bar>i\<bar>) = c # cs" and "is_digit c"
    by (rule dec_digits_Cons)
  then show ?thesis
    by (auto simp: int_repr_def starts_value_def is_ws_def is_digit_def in_range_def)
qed

lemma starts_value_render: "plain v \<Longrightarrow> starts_value (render opt l v)"
proof (cases v)
  case (JInt i)
  then show ?thesis using starts_value_int by simp
qed (auto simp: starts_value_def dump_str_def u_def is_ws_def)

lemma parse_elems_render:
  assumes "vs \<noteq> []" and "list_all is_ws w" and "list_all is_ws w2"
    and "\<And>v m t. v \<in> set vs \<Longrightarrow> num_stop t \<Longrightarrow> 2 * length (f v) \<le> m \<Longrightarrow>
           parse_value h ch m d (f v @ t) = Inr (v, t)"
    and "\<And>v. v \<in> set vs \<Longrightarrow> starts_value (f v)"
    and "2 * length (join_with (44 # w) (map f vs)) + 1 \<le> n"
  shows "parse_elems h ch n d (join_with (44 # w) (map f vs) @ w2 @ 93 # r) = Inr (vs, r)"
  using assms
proof (induction vs arbitrary: n)
  case (Cons v vs)
  obtain m where n: "n = Suc m" using Cons.prems(6) by (cases n) auto
  show ?case
  proof (cases "vs = []")
    case True
    with Cons.prems(6) n have "2 * length (f v) \<le> m" by simp
    then have "parse_value h ch m d (f v @ w2 @ 93 # r) = Inr (v, w2 @ 93 # r)"
      using Cons.prems(4) [of v] num_stop_ws [OF Cons.prems(3)] by simp
    with True n show ?thesis by (simp add: skip_ws_append Cons.prems(3))
  next
    case False
    let ?j = "join_with (44 # w) (map f vs)"
    from False Cons.prems(6) n have l: "2 * length (f v) \<le> m" "2 * length ?j + 1 \<le> m"
      by (auto simp: join_with_Cons)
    obtain v' vs' where vs: "vs = v' # vs'" using False by (cases vs) auto
    have sj: "starts_value ?j" using Cons.prems(5) vs by (auto intro: starts_value_join)
    have "parse_value h ch m d (f v @ 44 # w @ ?j @ w2 @ 93 # r) = Inr (v, 44 # w @ ?j @ w2 @ 93 # r)"
      using Cons.prems(4) [of v] l by simp
    moreover have "parse_elems h ch m d (?j @ w2 @ 93 # r) = Inr (vs, r)"
      using Cons.prems False l by (intro Cons.IH) auto
    ultimately show ?thesis
      using False n sj by (simp add: join_with_Cons skip_ws_append Cons.prems(2))
  qed
qed simp

lemma parse_members_render:
  assumes "kvs \<noteq> []" and "list_all is_ws w" and "list_all is_ws w2" and "list_all is_ws w3"
    and "\<And>k v m t. (k, v) \<in> set kvs \<Longrightarrow> num_stop t \<Longrightarrow> 2 * length (f v) \<le> m \<Longrightarrow>
           parse_value h ch m d (f v @ t) = Inr (v, t)"
    and "\<And>k v. (k, v) \<in> set kvs \<Longrightarrow> starts_value (f v) \<and> clean_str k"
    and "2 * length (join_with (44 # w) (map (\<lambda>(k, v). dump_str a k @ 58 # w3 @ f v) kvs)) + 1 \<le> n"
  shows "parse_members h ch n d
    (tl (join_with (44 # w) (map (\<lambda>(k, v). dump_str a k @ 58 # w3 @ f v) kvs)) @ w2 @ 125 # r)
    = Inr (kvs, r)"
  using assms
proof (induction kvs arbitrary: n)
  case (Cons kv kvs)
  obtain k v where kv: "kv = (k, v)" by (cases kv)
  obtain m where n: "n = Suc m" using Cons.prems(7) by (cases n) auto
  have k: "clean_str k" and sv: "starts_value (f v)" using Cons.prems(6) [of k v] kv by auto
  let ?g = "\<lambda>(k, v). dump_str a k @ 58 # w3 @ f v"
  show ?case
  proof (cases "kvs = []")
    case True
    with Cons.prems(7) n kv have "2 * length (f v) \<le> m" by simp
    then have "parse_value h ch m d (f v @ w2 @ 125 # r) = Inr (v, w2 @ 125 # r)"
      using Cons.prems(5) [of k v] num_stop_ws [OF Cons.prems(3)] kv by simp
    with True n kv k sv show ?thesis
      by (simp add: skip_ws_append Cons.prems dump_str_eq scan_string_dump)
  next
    case False
    let ?j = "join_with (44 # w) (map ?g kvs)"
    from False Cons.prems(7) n kv have l: "2 * length (f v) \<le> m" "2 * length ?j + 1 \<le> m"
      by (auto simp: join_with_Cons)
    obtain k' v' kvs' where kvs: "kvs = (k', v') # kvs'" using False by (cases kvs) auto
    have j: "?j = 34 # tl ?j" by (simp add: kvs join_with_Cons dump_str_eq)
    have "parse_value h ch m d (f v @ 44 # w @ ?j @ w2 @ 125 # r) = Inr (v, 44 # w @ ?j @ w2 @ 125 # r)"
      using Cons.prems(5) [of k v] l kv by simp
    moreover have "parse_members h ch m d (tl ?j @ w2 @ 125 # r) = Inr (kvs, r)"
      using Cons.prems(5,6) by (intro Cons.IH False Cons.prems(2-4) l(2)) (simp_all, blast+)
    moreover have "skip_ws (w @ ?j @ w2 @ 125 # r) = 34 # tl ?j @ w2 @ 125 # r"
      by (subst j) (simp add: skip_ws_append Cons.prems(2))
    ultimately show ?thesis
      using False n kv k sv
      by (simp add: join_with_Cons skip_ws_append Cons.prems dump_str_eq scan_string_dump)
  qed
qed simp

lemma opts_okD:
  assumes "opts_ok opt"
  obtains w w3 where "d_item opt = 44 # w" "list_all is_ws w" "d_key opt = 58 # w3" "list_all is_ws w3"
  using assms by (auto simp: opts_ok_def split: list.splits)

text \<open>Hooks that keep the pairs of an object with distinct keys.\<close>

definition keeps_objects :: "pairs_hook \<Rightarrow> bool" where
  "keeps_objects h \<longleftrightarrow> (\<forall>kvs. distinct (map fst kvs) \<longrightarrow> h kvs = Inr (JObj kvs))"

theorem parse_render:
  assumes "opts_ok opt" and "keeps_objects h"
  shows "plain v \<Longrightarrow> num_stop r \<Longrightarrow> 2 * length (render opt l v) \<le> n \<Longrightarrow> depth v \<le> d \<Longrightarrow>
    parse_value h ch n d (render opt l v @ r) = Inr (v, r)"
proof (induction v arbitrary: l n d r)
  case JNull
  then show ?case by (cases n) (auto simp: u_def scan_word_def startswith_def)
next
  case (JBool b)
  then show ?case by (cases n; cases b) (auto simp: u_def scan_word_def startswith_def)
next
  case (JInt i)
  obtain m where n: "n = Suc m" using JInt.prems(3) starts_value_int [of i]
    by (cases n) (auto simp: starts_value_def)
  obtain c cs where ic: "int_repr i = c # cs" "c \<noteq> 34" "c \<noteq> 123" "c \<noteq> 91"
  proof -
    obtain c cs where "dec_digits (nat \<bar>i\<bar>) = c # cs" and "is_digit c"
      by (rule dec_digits_Cons)
    then show thesis
      using that by (cases "i < 0") (auto simp: int_repr_def is_digit_def in_range_def)
  qed
  show ?case
    using scan_word_int [of ch i r] scan_number_int [of i r] JInt.prems ic n by auto
next
  case (JStr s)
  then show ?case by (cases n) (auto simp: dump_str_eq scan_string_dump)
next
  case (JList vs)
  obtain w where w: "d_item opt = 44 # w" "list_all is_ws w" using assms(1) by (rule opts_okD)
  obtain m where n: "n = Suc m" using JList.prems(3) by (cases n) (auto split: if_splits)
  obtain d' where d: "d = Suc d'" using JList.prems(4) by (cases d) auto
  show ?case
  proof (cases "vs = []")
    case True
    with n d show ?thesis by (simp add: u_def)
  next
    case False
    let ?w = "w @ newline_at opt (Suc l)"
    let ?j = "join_with (44 # ?w) (map (render opt (Suc l)) vs)"
    have dv: "depth v \<le> d'" if "v \<in> set vs" for v
      using foldr_max_le [of "depth v" "map depth vs"] that JList.prems(4) d by simp
    have sv: "starts_value (render opt (Suc l) v)" if "v \<in> set vs" for v
      using that JList.prems(1) by (intro starts_value_render) (auto simp: list_all_iff)
    have len: "2 * length ?j + 1 \<le> m" using False n JList.prems(3) w by simp
    have "parse_elems h ch m d' (?j @ newline_at opt l @ 93 # r) = Inr (vs, r)"
    proof (rule parse_elems_render [OF False _ newline_at_ws _ sv len])
      show "list_all is_ws ?w" using w by simp
      show "parse_value h ch k d' (render opt (Suc l) v @ t) = Inr (v, t)"
        if "v \<in> set vs" "num_stop t" "2 * length (render opt (Suc l) v) \<le> k" for v k t
        using that JList.prems(1) by (intro JList.IH) (auto simp: list_all_iff dv)
    qed
    moreover have "starts_value ?j" using sv False by (cases vs) (auto intro: starts_value_join)
    then obtain q js where "?j = q # js" "\<not> is_ws q" "q \<noteq> 93"
      by (auto simp: starts_value_def split: list.splits)
    ultimately show ?thesis using False n d w by (simp add: skip_ws_append)
  qed
next
  case (JObj kvs)
  obtain w w3 where w: "d_item opt = 44 # w" "list_all is_ws w" "d_key opt = 58 # w3" "list_all is_ws w3"
    using assms(1) by (rule opts_okD)
  obtain m where n: "n = Suc m" using JObj.prems(3) by (cases n) (auto split: if_splits)
  obtain d' where d: "d = Suc d'" using JObj.prems(4) by (cases d) auto
  have hk: "h kvs = Inr (JObj kvs)" using assms(2) JObj.prems(1) by (simp add: keeps_objects_def)
  show ?case
  proof (cases "kvs = []")
    case True
    with n d hk show ?thesis by (simp add: u_def)
  next
    case False
    let ?w = "w @ newline_at opt (Suc l)"
    let ?j = "join_with (44 # ?w)
      (map (\<lambda>(k, v). dump_str (d_ascii opt) k @ 58 # w3 @ render opt (Suc l) v) kvs)"
    have dv: "depth v \<le> d'" if "(k, v) \<in> set kvs" for k v
    proof -
      have "depth v \<in> set (map (\<lambda>(k, v). depth v) kvs)" using that by force
      then show ?thesis using foldr_max_le JObj.prems(4) d by fastforce
    qed
    have sv: "starts_value (render opt (Suc l) v) \<and> clean_str k" if "(k, v) \<in> set kvs" for k v
      using that JObj.prems(1) starts_value_render by (auto simp: list_all_iff)
    have len: "2 * length ?j + 1 \<le> m" using False n JObj.prems(3) w by simp
    have "parse_members h ch m d' (tl ?j @ newline_at opt l @ 125 # r) = Inr (kvs, r)"
    proof (rule parse_members_render [OF False _ newline_at_ws w(4) _ sv len])
      show "list_all is_ws ?w" using w by simp
      show "parse_value h ch k d' (render opt (Suc l) v @ t) = Inr (v, t)"
        if "(key, v) \<in> set kvs" "num_stop t" "2 * length (render opt (Suc l) v) \<le> k" for key v k t
        using that JObj.prems(1) by (intro JObj.IH) (auto simp: list_all_iff dv)
    qed
    moreover obtain js where j: "?j = 34 # js"
      using False by (cases kvs; cases "tl kvs") (auto simp: join_with_Cons dump_str_eq)
    moreover have "skip_ws (newline_at opt (Suc l) @ ?j @ newline_at opt l @ 125 # r)
        = 34 # js @ newline_at opt l @ 125 # r"
      unfolding j by (simp add: skip_ws_append)
    ultimately have "parse_members h ch m d' (js @ newline_at opt l @ 125 # r) = Inr (kvs, r)"
      and "skip_ws (newline_at opt (Suc l) @ ?j @ newline_at opt l @ 125 # r)
        = 34 # js @ newline_at opt l @ 125 # r"
      by simp_all
    moreover have "render opt l (JObj kvs) = 123 # newline_at opt (Suc l) @ ?j @ newline_at opt l @ [125]"
      using False by (simp add: w(1,3))
    ultimately show ?thesis unfolding n d by (simp del: render.simps add: hk)
  qed
qed simp_all

subsection \<open>\<open>loads\<close> after \<open>dumps\<close>\<close>

lemma distinct_map_sort_key: "distinct (map f (sort_key g xs)) = distinct (map f xs)"
  by (metis mset_map mset_sort mset_eq_imp_distinct_iff)

lemma plain_sort_json [simp]: "plain (sort_json v) = plain v"
proof (induction v)
  case (JList vs)
  then show ?case by (simp add: list_all_iff)
next
  case (JObj kvs)
  have "distinct (map fst (sort_key fst (map (\<lambda>(k, v). (k, sort_json v)) kvs))) = distinct (map fst kvs)"
    by (simp add: distinct_map_sort_key comp_def case_prod_unfold)
  with JObj.IH show ?case by (fastforce simp: list_all_iff)
qed simp_all

lemma dump_error_plain: "plain v \<Longrightarrow> dump_error v = None"
proof (induction v)
  case (JList vs)
  then show ?case by (induction vs) (auto simp: list_all_iff)
next
  case (JObj kvs)
  then have "\<forall>(k, v) \<in> set kvs. dump_error v = None"
    by (fastforce simp: list_all_iff)
  then show ?case by (induction kvs) auto
qed simp_all

definition normal_json :: "dump_opts \<Rightarrow> json \<Rightarrow> json" where
  "normal_json opt v = (if d_sort opt then sort_json v else v)"

lemma json_dumps_plain:
  "plain v \<Longrightarrow> json_dumps opt v = Inr (render opt 0 (normal_json opt v))"
  by (simp add: json_dumps_def normal_json_def dump_error_plain Let_def)

theorem loads_dumps:
  assumes "opts_ok opt" "keeps_objects h" "plain v" "depth (normal_json opt v) \<le> lim"
    and "list_all is_ws tail"
  shows "\<exists>t. json_dumps opt v = Inr t \<and> json_loads lim h ch (t @ tail) = Inr (normal_json opt v)"
proof -
  let ?v = "normal_json opt v"
  let ?t = "render opt 0 ?v"
  have pv: "plain ?v" using assms(3) by (simp add: normal_json_def)
  have sv: "starts_value ?t" using pv by (rule starts_value_render)
  have nb: "\<not> startswith (?t @ tail) [65279]"
    using sv by (auto simp: startswith_def starts_value_def split: list.splits)
  have "parse_value h ch (2 * length (?t @ tail) + 2) lim (?t @ tail) = Inr (?v, tail)"
    using assms pv num_stop_ws [of tail "[]"] by (intro parse_render) auto
  moreover have "skip_ws tail = []" using assms(5) skip_ws_append [of tail "[]"] by (simp add: skip_ws_def)
  ultimately have "json_loads lim h ch (?t @ tail) = Inr ?v"
    using nb sv by (simp add: json_loads_def)
  with json_dumps_plain [OF assms(3)] show ?thesis by blast
qed

section \<open>Progress: the parser consumes its input and never runs out of fuel\<close>

lemma scan_string_length: "scan_string s = Some (t, r) \<Longrightarrow> length r < length s"
proof (induction s arbitrary: t r rule: scan_string.induct)
  case (2 c s)
  then show ?case
    by (fastforce split: if_splits option.splits dest: scan_escape_length)
qed simp

lemma span_digits_length: "span_digits s = (ds, r) \<Longrightarrow> length r \<le> length s"
  by (auto simp: span_digits_def length_dropWhile_le)

lemma scan_frac_length: "scan_frac s = (ds, r) \<Longrightarrow> length r \<le> length s"
  by (auto simp: scan_frac_def split: list.splits if_splits dest: span_digits_length)

lemma scan_exp_length: "scan_exp s = (b, ds, r) \<Longrightarrow> length r \<le> length s"
  by (auto simp: scan_exp_def Let_def split: list.splits if_splits prod.splits
      dest!: span_digits_length)

lemma scan_number_length:
  assumes "scan_number s = Inr (v, r)"
  shows "length r < length s"
proof -
  define s1 where "s1 = (if (case s of c # _ \<Rightarrow> c = 45 | [] \<Rightarrow> False) then tl s else s)"
  have le: "length s1 \<le> length s" by (simp add: s1_def)
  from assms obtain c cs where s1: "s1 = c # cs" and dc: "is_digit c"
    by (auto simp: scan_number_def s1_def Let_def split: list.splits if_splits)
  obtain ip s2 where i: "(if c = 48 then ([48], cs) else span_digits s1) = (ip, s2)" by fastforce
  obtain fp s3 where f: "scan_frac s2 = (fp, s3)" by fastforce
  obtain b ep s4 where e: "scan_exp s3 = (b, ep, s4)" by (cases "scan_exp s3") auto
  have "length s2 < length s1"
    using i s1 dc by (auto simp: span_digits_def split: if_splits) (simp add: le_imp_less_Suc length_dropWhile_le)+
  moreover have "r = s4"
    using assms s1 dc i f e by (auto simp: scan_number_def s1_def Let_def split: if_splits)
  ultimately show ?thesis
    using scan_frac_length [OF f] scan_exp_length [OF e] le by simp
qed

lemma startswith_nonempty: "startswith s (u (c # p)) \<Longrightarrow> s \<noteq> []"
  by (auto simp: startswith_def)

lemma scan_word_length: "scan_word ch s = Some (Inr (v, r)) \<Longrightarrow> length r < length s"
  by (auto simp: scan_word_def bindE_Inr_iff split: if_splits dest!: startswith_nonempty)

lemma scan_number_fuel: "scan_number s \<noteq> Inl OutOfFuel"
  unfolding scan_number_def Let_def case_prod_unfold
  by (cases s) (simp_all split: list.split)

lemma skip_ws_ConsD: "skip_ws s = q # r \<Longrightarrow> length r < length s"
  using skip_ws_length [of s] by simp

lemma parse_length:
  "parse_value h ch n d s = Inr (v, r) \<Longrightarrow> length r < length s"
  "parse_elems h ch n d s = Inr (vs, r) \<Longrightarrow> length r < length s"
  "parse_members h ch n d s = Inr (kvs, r) \<Longrightarrow> length r < length s"
proof (induction h ch n d s and h ch n d s and h ch n d s arbitrary: v r and vs r and kvs r
    rule: parse_value_parse_elems_parse_members.induct)
  case (2 h ch n d s)
  show ?case
  proof (cases s)
    case Nil
    with 2 show ?thesis by simp
  next
    case (Cons c cs)
    show ?thesis
      using 2 unfolding Cons
      by (auto simp: err_simps split: if_splits list.splits option.splits
          dest!: scan_string_length skip_ws_ConsD scan_word_length scan_number_length)
         fastforce+
  qed
next
  case (4 h ch n d s)
  from "4.prems" obtain v r1 q r2 where v: "parse_value h ch n d s = Inr (v, r1)"
    and q: "skip_ws r1 = q # r2"
    and rest: "(\<exists>vs'. parse_elems h ch n d (skip_ws r2) = Inr (vs', r)) \<and> q = 44 \<or> r = r2"
    by (cases "parse_value h ch n d s") (auto simp: err_simps split: list.split_asm if_split_asm)
  from "4.IH"(1) [OF v] skip_ws_ConsD [OF q] have "length r2 < length s" by simp
  with rest "4.IH"(2) [OF v refl q] skip_ws_length [of r2] show ?case by fastforce
next
  case (6 h ch n d s)
  from "6.prems" obtain k r1 where s1: "scan_string s = Some (k, r1)"
    by (cases "scan_string s") auto
  with "6.prems" obtain r2 where s2: "skip_ws r1 = 58 # r2"
    by (cases "skip_ws r1") (auto split: if_split_asm)
  with "6.prems" s1 obtain v r3 where s3: "parse_value h ch n d (skip_ws r2) = Inr (v, r3)"
    by (cases "parse_value h ch n d (skip_ws r2)") auto
  with "6.prems" s1 s2 obtain q r4 where s4: "skip_ws r3 = q # r4"
    by (cases "skip_ws r3") auto
  have l: "length r4 < length s"
    using scan_string_length [OF s1] skip_ws_ConsD [OF s2] skip_ws_length [of r2]
      "6.IH"(1) [OF s1 refl s2 _ s3] skip_ws_ConsD [OF s4] by simp
  show ?case
  proof (cases "q = 44")
    case True
    with "6.prems" s1 s2 s3 s4 obtain r5 kvs' where s5: "skip_ws r4 = 34 # r5"
      and "parse_members h ch n d r5 = Inr (kvs', r)"
      by (cases "skip_ws r4") (auto simp: bindE_Inr_iff split: if_split_asm)
    then have "length r < length r5" using "6.IH"(2) [OF s1 refl s2 _ s3 refl s4 True s5 refl] by simp
    with skip_ws_ConsD [OF s5] l show ?thesis by simp
  next
    case False
    with "6.prems" s1 s2 s3 s4 l show ?thesis by (auto split: if_split_asm)
  qed
qed auto

lemma parse_fuel:
  assumes h: "\<And>kvs. h kvs \<noteq> Inl OutOfFuel" and ch: "\<And>w. ch w \<noteq> Inl OutOfFuel"
  shows "2 * length s + 1 \<le> n \<Longrightarrow> parse_value h ch n d s \<noteq> Inl OutOfFuel"
    and "2 * length s + 2 \<le> n \<Longrightarrow> parse_elems h ch n d s \<noteq> Inl OutOfFuel"
    and "2 * length s + 2 \<le> n \<Longrightarrow> parse_members h ch n d s \<noteq> Inl OutOfFuel"
  using assms
proof (induction h ch n d s and h ch n d s and h ch n d s rule: parse_value_parse_elems_parse_members.induct)
  case (2 h ch n d s)
  have w: "scan_word ch s \<noteq> Some (Inl OutOfFuel)"
    using "2.prems"(3) by (auto simp: scan_word_def bindE_Inl_iff split: if_splits)
  show ?case
  proof (cases s)
    case (Cons c cs)
    have m: "parse_members h ch n (d - 1) r \<noteq> Inl OutOfFuel"
      if "c = 123" "d \<noteq> 0" "skip_ws cs = 34 # r" for r
      using "2.IH"(1) [OF Cons _ that(1,2,3)] "2.prems" skip_ws_ConsD [OF that(3)] that(1) Cons by simp
    have e: "parse_elems h ch n (d - 1) (q # r) \<noteq> Inl OutOfFuel"
      if "c = 91" "d \<noteq> 0" "skip_ws cs = q # r" "q \<noteq> 93" for q r
      using "2.IH"(2) [OF Cons _ _ that(1,2,3,4)] "2.prems" skip_ws_ConsD [OF that(3)] that(1) Cons by simp
    show ?thesis
      using "2.prems"(2) w scan_number_fuel [of s] m e unfolding Cons
      by (auto simp: bindE_Inl_iff split: if_split list.split option.split)
  qed simp
next
  case (4 h ch n d s)
  have v: "parse_value h ch n d s \<noteq> Inl OutOfFuel" using 4 by auto
  have e: "parse_elems h ch n d (skip_ws r2) \<noteq> Inl OutOfFuel"
    if "parse_value h ch n d s = Inr (x, r1)" "skip_ws r1 = 44 # r2" for x r1 r2
  proof -
    have "length (skip_ws r2) < length s - 1"
      using parse_length(1) [OF that(1)] skip_ws_ConsD [OF that(2)] skip_ws_length [of r2] by linarith
    then have "2 * length (skip_ws r2) + 2 \<le> n" using "4.prems"(1) by linarith
    then show ?thesis using "4.IH"(2) [OF that(1) refl that(2) refl] "4.prems" by simp
  qed
  show ?case
    using v e by (cases "parse_value h ch n d s") (auto simp: bindE_Inl_iff split: list.split_asm if_split_asm)
next
  case (6 h ch n d s)
  have v: "parse_value h ch n d (skip_ws r1) \<noteq> Inl OutOfFuel"
    if "scan_string s = Some (k, r)" "skip_ws r = 58 # r1" for k r r1
  proof -
    have "length (skip_ws r1) < length s"
      using scan_string_length [OF that(1)] skip_ws_ConsD [OF that(2)] skip_ws_length [of r1] by linarith
    then have "2 * length (skip_ws r1) + 1 \<le> n" using "6.prems"(1) by linarith
    then show ?thesis using "6.IH"(1) that "6.prems" by auto
  qed
  have m: "parse_members h ch n d r4 \<noteq> Inl OutOfFuel"
    if "scan_string s = Some (k, r)" "skip_ws r = 58 # r1"
      "parse_value h ch n d (skip_ws r1) = Inr (x, r2)" "skip_ws r2 = 44 # r3" "skip_ws r3 = 34 # r4"
    for k r r1 x r2 r3 r4
  proof -
    have "length r4 < length s - 1"
      using scan_string_length [OF that(1)] skip_ws_ConsD [OF that(2)] skip_ws_length [of r1]
        parse_length(1) [OF that(3)] skip_ws_ConsD [OF that(4)] skip_ws_ConsD [OF that(5)] by linarith
    then have "2 * length r4 + 2 \<le> n" using "6.prems"(1) by linarith
    then show ?thesis using "6.IH"(2) that "6.prems" by auto
  qed
  show ?case
    using v m by (auto simp: bindE_Inl_iff split: list.split option.split if_split)
qed auto

theorem json_loads_fuel:
  "(\<And>kvs. h kvs \<noteq> Inl OutOfFuel) \<Longrightarrow> (\<And>w. ch w \<noteq> Inl OutOfFuel) \<Longrightarrow>
    json_loads lim h ch s \<noteq> Inl OutOfFuel"
  using parse_fuel(1) [of h ch "skip_ws s" "2 * length s + 2"] skip_ws_length [of s]
  by (auto simp: json_loads_def bindE_Inl_iff)

section \<open>What the callers need: objects, fields, validity of the text\<close>

text \<open>
  The loop every module writes as its \<open>object_pairs_hook\<close>: build the dictionary pair by
  pair and raise (each module its own message) at the first repeated key.
\<close>

fun build_object :: "exn \<Rightarrow> (pystr \<times> json) list \<Rightarrow> pairs_hook" where
  "build_object e result [] = Inr (JObj result)"
| "build_object e result ((key, val) # pairs) =
     (if key \<in> set (map fst result) then Inl e
      else build_object e (result @ [(key, val)]) pairs)"

lemma build_object_eq:
  "distinct (map fst acc) \<Longrightarrow>
   build_object e acc ps = (if distinct (map fst (acc @ ps)) then Inr (JObj (acc @ ps)) else Inl e)"
proof (induction e acc ps rule: build_object.induct)
  case (2 e acc k v ps)
  then show ?case by (auto simp: disjoint_iff)
qed simp

lemma keeps_build_object [simp]: "keeps_objects (build_object e [])"
  by (simp add: keeps_objects_def build_object_eq)

lemma build_object_distinct:
  "build_object e [] ps = Inr v \<Longrightarrow> v = JObj ps \<and> distinct (map fst ps)"
  by (auto simp: build_object_eq split: if_splits)

text \<open>
  \<open>v == 1\<close> as Python compares: \<open>True\<close> and every float that rounds to 1.0 are equal to the
  integer. The rounding interval of 1.0 is [1 - 2^-54, 1 + 2^-53], both ends included.
\<close>

definition scale :: "int \<Rightarrow> int \<Rightarrow> int" where
  "scale m e = (if 0 \<le> e then m * 10 ^ nat e else m)"

definition float_is_one :: "int \<Rightarrow> int \<Rightarrow> bool" where
  "float_is_one m e =
     (let one = (if 0 \<le> e then 1 else 10 ^ nat (- e)) in
      (2 ^ 54 - 1) * one \<le> 2 ^ 54 * scale m e \<and> 2 ^ 53 * scale m e \<le> (2 ^ 53 + 1) * one)"

fun py_is_one :: "json \<Rightarrow> bool" where
  "py_is_one (JInt i) = (i = 1)"
| "py_is_one (JBool b) = b"
| "py_is_one (JFloat m e) = float_is_one m e"
| "py_is_one _ = False"

lemma hex_digit_less: "d < 16 \<Longrightarrow> hex_digit d < 1114112"
  using hex_digit_range [of d] by linarith

lemma valid_str_esc: "c < 1114112 \<Longrightarrow> valid_str (esc_char a c)"
proof -
  assume c: "c < 1114112"
  have h: "valid_str (esc_u x)" if "x < 65536" for x
    using that by (auto simp: esc_u_def hex4_def less_mult_imp_div_less intro!: hex_digit_less)
  have "55296 + (c - 65536) div 1024 < 65536" "56320 + (c - 65536) mod 1024 < 65536"
    using c less_mult_imp_div_less [of "c - 65536" 1024 1024] mod_less_divisor [of 1024 "c - 65536"]
    by linarith+
  with h c show ?thesis by (auto simp: esc_char_def)
qed

lemma valid_ws: "list_all is_ws w \<Longrightarrow> valid_str w"
  by (auto simp: valid_str_def list_all_iff is_ws_def)

lemma valid_newline [simp]: "valid_str (newline_at opt l)"
  by (rule valid_ws) simp

lemma list_all_join:
  "list_all P sep \<Longrightarrow> (\<And>p. p \<in> set ps \<Longrightarrow> list_all P p) \<Longrightarrow> list_all P (join_with sep ps)"
  by (induction sep ps rule: join_with.induct) auto

lemma int_repr_chars: "list_all (\<lambda>c. 33 \<le> c \<and> c \<le> 126) (int_repr i)"
proof -
  have "list_all (\<lambda>c. 33 \<le> c \<and> c \<le> 126) (dec_digits n)" for n
    using dec_digits_digits [of n] by (auto simp: list_all_iff is_digit_def in_range_def)
  then show ?thesis by (simp add: int_repr_def)
qed

text \<open>What holds of every character of a text: the visible ASCII ones, the escapes and the separators.\<close>

lemma render_all:
  assumes P: "\<And>c. 33 \<le> c \<Longrightarrow> c \<le> 126 \<Longrightarrow> P c"
    and esc: "\<And>c. c < 1114112 \<Longrightarrow> list_all P (esc_char (d_ascii opt) c)"
    and seps: "list_all P (d_item opt)" "list_all P (d_key opt)" "\<And>l. list_all P (newline_at opt l)"
  shows "plain v \<Longrightarrow> list_all P (render opt l v)"
proof (induction v arbitrary: l)
  case (JInt i)
  then show ?case using int_repr_chars [of i] P by (auto simp: list_all_iff)
next
  case (JStr s)
  then have "list_all P (concat (map (esc_char (d_ascii opt)) s))"
    using esc by (induction s) (auto simp: clean_str_Cons)
  then show ?case by (simp add: dump_str_def P)
next
  case (JList vs)
  have "list_all P (join_with (d_item opt @ newline_at opt (Suc l)) (map (render opt (Suc l)) vs))"
    using JList seps by (intro list_all_join) (auto simp: list_all_iff)
  then show ?case using seps P by (simp add: u_def)
next
  case (JObj kvs)
  have d: "list_all P (dump_str (d_ascii opt) k)" if "clean_str k" for k
  proof -
    have "list_all P (concat (map (esc_char (d_ascii opt)) k))"
      using that esc by (induction k) (auto simp: clean_str_Cons)
    then show ?thesis by (simp add: dump_str_def P)
  qed
  have "list_all P (join_with (d_item opt @ newline_at opt (Suc l))
      (map (\<lambda>(k, v). dump_str (d_ascii opt) k @ d_key opt @ render opt (Suc l) v) kvs))"
  proof (rule list_all_join)
    show "list_all P (d_item opt @ newline_at opt (Suc l))" using seps by simp
    fix p
    assume "p \<in> set (map (\<lambda>(k, v). dump_str (d_ascii opt) k @ d_key opt @ render opt (Suc l) v) kvs)"
    then obtain k v where kv: "(k, v) \<in> set kvs" "p = dump_str (d_ascii opt) k @ d_key opt @ render opt (Suc l) v"
      by auto
    then have "clean_str k" "plain v" using JObj.prems by (auto simp: list_all_iff)
    with kv JObj.IH [of "(k, v)" v] d seps show "list_all P p" by auto
  qed
  then show ?case using seps P by (simp add: u_def)
qed (simp_all add: u_def P)

lemma valid_str_render: "opts_ok opt \<Longrightarrow> plain v \<Longrightarrow> valid_str (render opt l v)"
  unfolding valid_str_def
proof (rule render_all)
  assume "opts_ok opt"
  then obtain w w3 where "d_item opt = 44 # w" "list_all is_ws w" "d_key opt = 58 # w3" "list_all is_ws w3"
    by (rule opts_okD)
  then show "list_all (\<lambda>c. c < 1114112) (d_item opt)" "list_all (\<lambda>c. c < 1114112) (d_key opt)"
    using valid_ws by (simp_all add: valid_str_def)
qed (use valid_str_esc valid_newline in \<open>auto simp: valid_str_def\<close>)

lemma ascii_esc_char: "c < 1114112 \<Longrightarrow> list_all (\<lambda>c. 32 \<le> c \<and> c < 128) (esc_char True c)"
proof -
  assume c: "c < 1114112"
  have d: "32 \<le> hex_digit x \<and> hex_digit x < 128" if "x < 16" for x
    using hex_digit_range [OF that] by linarith
  have h: "list_all (\<lambda>c. 32 \<le> c \<and> c < 128) (esc_u x)" if "x < 65536" for x
    using that d [of "x div 4096"] d [of "x div 256 mod 16"] d [of "x div 16 mod 16"] d [of "x mod 16"]
    by (simp add: esc_u_def hex4_def less_mult_imp_div_less)
  have "55296 + (c - 65536) div 1024 < 65536" "56320 + (c - 65536) mod 1024 < 65536"
    using c less_mult_imp_div_less [of "c - 65536" 1024 1024] mod_less_divisor [of 1024 "c - 65536"]
    by linarith+
  with h c show ?thesis by (auto simp: esc_char_def)
qed

text \<open>With \<open>ensure_ascii\<close> and no indentation a text is one line of printable ASCII.\<close>

lemma render_one_line:
  assumes "d_ascii opt" and "d_indent opt = None" and "d_item opt = [44]" and "d_key opt = [58]" and "plain v"
  shows "list_all (\<lambda>c. 32 \<le> c \<and> c < 128) (render opt l v)"
  using assms(5) by (rule render_all [rotated -1]) (use assms ascii_esc_char in \<open>auto simp: newline_at_def\<close>)

text \<open>Objects whose values are not containers: only the order of the keys can change.\<close>

fun scalar :: "json \<Rightarrow> bool" where
  "scalar (JList vs) = False"
| "scalar (JObj kvs) = False"
| "scalar v = True"

lemma sort_json_scalar [simp]: "scalar v \<Longrightarrow> sort_json v = v"
  by (cases v) simp_all

lemma depth_scalar [simp]: "scalar v \<Longrightarrow> depth v = 0"
  by (cases v) simp_all

lemma normal_settled:
  assumes "distinct (map fst kvs)" and "\<forall>(k, v) \<in> set kvs. sort_json v = v"
  obtains kvs' where "normal_json opt (JObj kvs) = JObj kvs'" "mset kvs' = mset kvs"
    "map_of kvs' = map_of kvs"
proof -
  have m: "map (\<lambda>(k, v). (k, sort_json v)) kvs = kvs"
    using assms(2) by (auto intro!: map_idI)
  have "map_of (sort_key fst kvs) = map_of kvs"
    using assms(1) by (intro map_of_eqI) (auto simp: distinct_map_sort_key map_of_eq_Some_iff)
  then show thesis
    using that [of "sort_key fst kvs"] that [of kvs] m
    by (cases "d_sort opt") (simp_all add: normal_json_def)
qed

lemma normal_flat:
  assumes "distinct (map fst kvs)" and "\<forall>(k, v) \<in> set kvs. scalar v"
  obtains kvs' where "normal_json opt (JObj kvs) = JObj kvs'" "mset kvs' = mset kvs"
    "map_of kvs' = map_of kvs"
proof -
  have "\<forall>(k, v) \<in> set kvs. sort_json v = v" using assms(2) by fastforce
  with assms(1) show thesis using normal_settled that by blast
qed

lemma foldr_max_zero: "(\<And>x. x \<in> set xs \<Longrightarrow> x = (0 :: nat)) \<Longrightarrow> foldr max xs 0 = 0"
  by (induction xs) auto

lemma depth_flat: "\<forall>(k, v) \<in> set kvs. scalar v \<Longrightarrow> depth (JObj kvs) = 1"
  by (fastforce intro!: foldr_max_zero)

lemma replicate_2: "replicate 2 x = [x, x]"
  by (simp add: numeral_eq_Suc)

lemma replicate_4: "replicate 4 x = [x, x, x, x]"
  by (simp add: numeral_eq_Suc)

lemma clean_str_u [simp]: "clean_str (u s)"
proof -
  have "of_char c < (1114112 :: nat) \<and> \<not> is_surrogate (of_char c)" for c
    using nat_of_char_less_256 [of c] unfolding is_surrogate_def by linarith
  then show ?thesis by (induction s) (simp_all add: u_Cons clean_str_Cons clean_str_def)
qed

lemma small_int_1 [simp]: "small_int 1"
proof -
  have "dec_digits 1 = [49]" by (subst dec_digits.simps) (simp add: digit_def)
  then show ?thesis by (simp add: small_int_def max_int_digits_def)
qed

text \<open>The length of an object in one line.\<close>

lemma length_join: "length (join_with [c] ps) \<le> sum_list (map (\<lambda>p. length p + 1) ps)"
  by (induction "[c]" ps rule: join_with.induct) auto

lemma length_render_object:
  assumes "d_item opt = [44]" and "d_key opt = [58]" and "d_indent opt = None"
  shows "length (render opt l (JObj kvs))
    \<le> 2 + sum_list (map (\<lambda>(k, v). length (dump_str (d_ascii opt) k) + length (render opt (Suc l) v) + 2) kvs)"
proof -
  let ?f = "\<lambda>(k, v). dump_str (d_ascii opt) k @ d_key opt @ render opt (Suc l) v"
  have "length (render opt l (JObj kvs)) \<le> 2 + length (join_with [44] (map ?f kvs))"
    using assms by (simp add: newline_at_def)
  also have "length (join_with [44] (map ?f kvs)) \<le> sum_list (map (\<lambda>p. length p + 1) (map ?f kvs))"
    by (rule length_join)
  also have "map (\<lambda>p. length p + 1) (map ?f kvs)
      = map (\<lambda>(k, v). length (dump_str (d_ascii opt) k) + length (render opt (Suc l) v) + 2) kvs"
    using assms(2) by auto
  finally show ?thesis by simp
qed

text \<open>Integers below \<open>10 ^ 4300\<close> are within the interpreter's conversion limit.\<close>

lemma dec_digits_length: "n < 10 ^ k \<Longrightarrow> 0 < k \<Longrightarrow> length (dec_digits n) \<le> k"
proof (induction k arbitrary: n)
  case (Suc k)
  show ?case
  proof (cases "n < 10")
    case False
    with Suc.prems have "n div 10 < 10 ^ k" "0 < k" by (auto intro!: gr0I)
    with Suc.IH False show ?thesis by (subst dec_digits.simps) simp
  qed (subst dec_digits.simps, simp)
qed simp

lemma small_int_bounded:
  assumes "\<bar>i\<bar> < 10 ^ k" and "0 < k" and "k \<le> max_int_digits"
  shows "small_int i"
proof -
  have "nat \<bar>i\<bar> < 10 ^ k" using assms(1) by (simp add: nat_less_iff)
  then show ?thesis using dec_digits_length [of "nat \<bar>i\<bar>" k] assms(2,3) by (simp add: small_int_def)
qed

lemma small_int_64: "\<bar>i\<bar> \<le> 2 ^ 64 \<Longrightarrow> small_int i"
proof (rule small_int_bounded [where k = 20])
  assume "\<bar>i\<bar> \<le> 2 ^ 64"
  also have "(2 :: int) ^ 64 < 10 ^ 20" by simp
  finally show "\<bar>i\<bar> < 10 ^ 20" .
qed (simp_all add: max_int_digits_def)

text \<open>The equations that evaluate \<open>dumps\<close> on a concrete value.\<close>

lemmas json_eval = json_dumps_def dump_str_def esc_char_def esc_u_def hex4_def newline_at_def
  hex_digit_def u_def ascii_encode_def pack_u32_def replicate_2 replicate_4

end
