(* ===== verification/Broker_Frame.thy ===== *)
theory Broker_Frame
  imports Py_Json
begin

text \<open>
  \<open>src/agent_container/broker/frame.py\<close>: the length-prefixed JSON frames every broker
  protocol shares, and the chunked byte streams that follow a frame.

  A stream is any object with a \<open>read\<close> (or \<open>write\<close>) method: the model takes the method as
  a state-passing function, so the loops are verified against every stream, including one that
  returns too much, nothing, or something that is not bytes. \<open>lim\<close> is the nesting the JSON
  parser allows.
\<close>

section \<open>Schemas\<close>

definition HEADER_BYTES :: nat where
  "HEADER_BYTES = 4"

datatype codec = Ascii | Utf8

fun codec_encode :: "codec \<Rightarrow> pystr \<Rightarrow> exn + bytes" where
  "codec_encode Ascii s = ascii_encode s"
| "codec_encode Utf8 s = utf8_encode s"

fun codec_decode :: "codec \<Rightarrow> bytes \<Rightarrow> exn + pystr" where
  "codec_decode Ascii b = ascii_decode b"
| "codec_decode Utf8 b = utf8_decode b"

lemma codec_round: "codec_encode c s = Inr b \<Longrightarrow> valid_str s \<Longrightarrow> codec_decode c b = Inr s"
  by (cases c) (simp_all add: ascii_round utf8_round)

record json_options =
  ensure_ascii :: bool
  allow_nan :: bool
  sort_keys :: bool
  separators :: "(pystr \<times> pystr) option"
  encoding :: codec

record frame_schema =
  fs_label :: string
  stream_label :: string
  fs_fields :: "pystr set"
  max_bytes :: nat
  fs_json :: json_options
  frame_label :: "string option"

definition frame_prefix :: "frame_schema \<Rightarrow> string" where
  "frame_prefix s = (case frame_label s of None \<Rightarrow> fs_label s | Some l \<Rightarrow> l)"

text \<open>\<open>json.dumps\<close> under the options; without separators Python uses \<open>', '\<close> and \<open>': '\<close>.\<close>

definition dump_opts_of :: "json_options \<Rightarrow> dump_opts" where
  "dump_opts_of j = \<lparr>d_ascii = ensure_ascii j, d_sort = sort_keys j,
     d_item = (case separators j of None \<Rightarrow> u '', '' | Some (i, k) \<Rightarrow> i),
     d_key = (case separators j of None \<Rightarrow> u '': '' | Some (i, k) \<Rightarrow> k), d_indent = None\<rparr>"

section \<open>One frame\<close>

definition reject_constant :: "string \<Rightarrow> exn + json" where
  "reject_constant w = Inl (ValueError ''JSON constant is not allowed'')"

definition object_without_duplicates :: pairs_hook where
  "object_without_duplicates = build_object (ValueError ''JSON object has a duplicate key'') []"

definition encode_failure :: "exn \<Rightarrow> bool" where
  "encode_failure e \<longleftrightarrow> e = TypeError \<or> is_value_error e"

definition encode_frame :: "frame_schema \<Rightarrow> (pystr \<times> json) list \<Rightarrow> exn + bytes" where
  "encode_frame schema vals =
     bindE (reraise_if encode_failure (FrameSchemaError (fs_label schema @ '' is invalid''))
       (bindE (json_dumps (dump_opts_of (fs_json schema)) (JObj vals))
          (codec_encode (encoding (fs_json schema)))))
     (\<lambda>body. if body = [] \<or> max_bytes schema < length body
        then Inl (FrameSizeError (fs_label schema @ '' is too large''))
        else bindE (pack_u32 (length body)) (\<lambda>h. Inr (h @ body)))"

definition decode_body :: "nat \<Rightarrow> frame_schema \<Rightarrow> bytes \<Rightarrow> exn + json" where
  "decode_body lim schema body =
     reraise_if (\<lambda>e. e = TypeError \<or> is_value_error e)
       (FrameJsonError (frame_prefix schema @ '' JSON is invalid''))
       (bindE (codec_decode (encoding (fs_json schema)) body)
          (json_loads lim object_without_duplicates reject_constant))"

definition decode_frame ::
  "nat \<Rightarrow> frame_schema \<Rightarrow> (bytes \<Rightarrow> exn + json) option \<Rightarrow> bytes \<Rightarrow> exn + (pystr \<times> json) list \<times> nat"
where
  "decode_frame lim schema json_decoder data =
     (if length data < HEADER_BYTES
      then Inl (FrameIncomplete (frame_prefix schema @ '' frame is incomplete''))
      else
        let len = unpack_u32 (take HEADER_BYTES data) in
        if len = 0 \<or> max_bytes schema < len
        then Inl (FrameSizeError (frame_prefix schema @ '' frame size is invalid''))
        else
          let consumed = HEADER_BYTES + len in
          if length data < consumed
          then Inl (FrameIncomplete (frame_prefix schema @ '' frame is incomplete''))
          else
            let body = take len (drop HEADER_BYTES data) in
            bindE (case json_decoder of Some dec \<Rightarrow> dec body | None \<Rightarrow> decode_body lim schema body)
              (\<lambda>decoded. case decoded of
                 JObj kvs \<Rightarrow>
                   if set (map fst kvs) = fs_fields schema then Inr (kvs, consumed)
                   else Inl (FrameSchemaError (fs_label schema @ '' schema is invalid''))
               | _ \<Rightarrow> Inl (FrameSchemaError (fs_label schema @ '' schema is invalid''))))"

section \<open>Reading\<close>

text \<open>
  \<open>stream.read(n)\<close>: \<open>None\<close> stands for a result that is not \<open>bytes\<close> (a non-blocking raw
  stream returns such). Each turn of the loop adds at least one byte or ends it.
\<close>

type_synonym 's reader = "nat \<Rightarrow> 's \<Rightarrow> (exn + bytes option) \<times> 's"

function read_loop ::
  "'s reader \<Rightarrow> nat \<Rightarrow> string \<Rightarrow> bool \<Rightarrow> bytes \<Rightarrow> 's \<Rightarrow> (exn + bytes) \<times> 's" where
  "read_loop rd sz label initial_eof out s =
     (if length out < sz then
        (case rd (sz - length out) s of
           (Inl e, s') \<Rightarrow>
             (Inl (if is_os_error e \<or> e = TypeError \<or> is_value_error e
                   then StreamError (label @ '' is invalid'') else e), s')
         | (Inr None, s') \<Rightarrow> (Inl (StreamError (label @ '' is incomplete'')), s')
         | (Inr (Some chunk), s') \<Rightarrow>
             (if chunk = [] then
                (if initial_eof \<and> out = [] then (Inr [], s')
                 else (Inl (StreamError (label @ '' is incomplete'')), s'))
              else if sz - length out < length chunk
              then (Inl (StreamError (label @ '' is incomplete'')), s')
              else read_loop rd sz label initial_eof (out @ chunk) s'))
      else (Inr out, s))"
  by pat_completeness auto
termination
  by (relation "measure (\<lambda>(rd, sz, label, i, out, s). sz - length out)") (auto simp flip: length_greater_0_conv)

declare read_loop.simps [simp del]

definition read_exact ::
  "'s reader \<Rightarrow> nat \<Rightarrow> string \<Rightarrow> bool \<Rightarrow> 's \<Rightarrow> (exn + bytes) \<times> 's" where
  "read_exact rd sz label initial_eof s = read_loop rd sz label initial_eof [] s"

definition read_frame ::
  "nat \<Rightarrow> frame_schema \<Rightarrow> 's reader \<Rightarrow> 's \<Rightarrow> (exn + (pystr \<times> json) list) \<times> 's" where
  "read_frame lim schema rd s =
     bindS (read_exact rd HEADER_BYTES (stream_label schema) False s) (\<lambda>header s1.
       let len = unpack_u32 header in
       if len = 0 \<or> max_bytes schema < len
       then (Inl (FrameSizeError (frame_prefix schema @ '' frame size is invalid'')), s1)
       else
         bindS (read_exact rd len (stream_label schema) False s1) (\<lambda>body s2.
           case decode_frame lim schema None (header @ body) of
             Inl e \<Rightarrow> (Inl e, s2)
           | Inr (decoded, consumed) \<Rightarrow>
               if consumed \<noteq> length header + length body
               then (Inl (FrameError (frame_prefix schema @ '' frame is invalid'')), s2)
               else (Inr decoded, s2)))"

section \<open>Writing\<close>

text \<open>What \<open>stream.write(b)\<close> can return: an \<open>int\<close>, a \<open>bool\<close>, anything else.\<close>

datatype wresult = WInt int | WBool bool | WOther

type_synonym 's writer = "bytes \<Rightarrow> 's \<Rightarrow> (exn + wresult) \<times> 's"

function write_loop :: "'s writer \<Rightarrow> string \<Rightarrow> bytes \<Rightarrow> nat \<Rightarrow> 's \<Rightarrow> (exn + unit) \<times> 's" where
  "write_loop wr label frame offset s =
     (if offset < length frame then
        (case wr (drop offset frame) s of
           (Inl e, s') \<Rightarrow> (Inl e, s')
         | (Inr (WInt written), s') \<Rightarrow>
             (if written \<le> 0 \<or> int (length frame - offset) < written
              then (Inl (StreamError (label @ '' write failed'')), s')
              else write_loop wr label frame (offset + nat written) s')
         | (Inr _, s') \<Rightarrow> (Inl (StreamError (label @ '' write failed'')), s'))
      else (Inr (), s))"
  by pat_completeness auto
termination
  by (relation "measure (\<lambda>(wr, label, frame, offset, s). length frame - offset)") auto

declare write_loop.simps [simp del]

definition write_fully :: "'s writer \<Rightarrow> bytes \<Rightarrow> string \<Rightarrow> 's \<Rightarrow> (exn + unit) \<times> 's" where
  "write_fully wr frame label s = write_loop wr label frame 0 s"

definition write_all ::
  "'s writer \<Rightarrow> ('s \<Rightarrow> (exn + unit) \<times> 's) \<Rightarrow> bytes \<Rightarrow> string \<Rightarrow> 's \<Rightarrow> (exn + unit) \<times> 's" where
  "write_all wr flush frame label s = bindS (write_fully wr frame label s) (\<lambda>_ s'. flush s')"

section \<open>Chunked streams\<close>

fun write_chunks ::
  "'s writer \<Rightarrow> nat \<Rightarrow> string \<Rightarrow> nat \<Rightarrow> bytes list \<Rightarrow> 's \<Rightarrow> (exn + nat) \<times> 's" where
  "write_chunks wr maximum_chunk label transferred [] s = (Inr transferred, s)"
| "write_chunks wr maximum_chunk label transferred (chunk # chunks) s =
     (if chunk = [] \<or> maximum_chunk < length chunk
      then (Inl (FrameSizeError (label @ '' chunk is invalid'')), s)
      else (case pack_u32 (length chunk) of
          Inl e \<Rightarrow> (Inl e, s)
        | Inr header \<Rightarrow>
            bindS (write_fully wr header label s) (\<lambda>_ s1.
            bindS (write_fully wr chunk label s1) (\<lambda>_ s2.
            write_chunks wr maximum_chunk label (transferred + length chunk) chunks s2))))"

definition write_chunk_stream ::
  "'s writer \<Rightarrow> ('s \<Rightarrow> (exn + unit) \<times> 's) \<Rightarrow> bytes list \<Rightarrow> nat \<Rightarrow> string \<Rightarrow> 's \<Rightarrow> (exn + nat) \<times> 's"
where
  "write_chunk_stream wr flush chunks maximum_chunk label s =
     bindS (write_chunks wr maximum_chunk label 0 chunks s) (\<lambda>transferred s1.
     bindS (write_fully wr (replicate 4 (CHR 0x00)) label s1) (\<lambda>_ s2.
     bindS (flush s2) (\<lambda>_ s3. (Inr transferred, s3))))"

text \<open>
  The generator: the chunks it yields in order, then how it ends (a plain return or the
  exception it raises). \<open>transferred\<close> grows by at least one byte per chunk and is bounded by
  \<open>maximum_total\<close>, so the loop ends whatever \<open>read_bytes\<close> returns.
\<close>

function iter_chunks ::
  "(nat \<Rightarrow> bool \<Rightarrow> 's \<Rightarrow> (exn + bytes) \<times> 's) \<Rightarrow> nat \<Rightarrow> nat \<Rightarrow> string \<Rightarrow> bool \<Rightarrow> nat \<Rightarrow> 's
     \<Rightarrow> bytes list \<times> (exn + unit) \<times> 's" where
  "iter_chunks rb maximum_total maximum_chunk label allow_initial_eof transferred s =
     (case rb HEADER_BYTES (allow_initial_eof \<and> transferred = 0) s of
        (Inl e, s1) \<Rightarrow> ([], Inl e, s1)
      | (Inr header, s1) \<Rightarrow>
          (if header = [] then ([], Inr (), s1)
           else if length header \<noteq> 4 then ([], Inl StructError, s1)
           else if unpack_u32 header = 0 then ([], Inr (), s1)
           else if maximum_chunk < unpack_u32 header
           then ([], Inl (FrameSizeError (label @ '' chunk is invalid'')), s1)
           else if maximum_total < transferred + unpack_u32 header
           then ([], Inl (FrameSizeError (label @ '' is too large'')), s1)
           else (case rb (unpack_u32 header) False s1 of
               (Inl e, s2) \<Rightarrow> ([], Inl e, s2)
             | (Inr chunk, s2) \<Rightarrow>
                 (case iter_chunks rb maximum_total maximum_chunk label allow_initial_eof
                         (transferred + unpack_u32 header) s2 of
                    (cs, r, t) \<Rightarrow> (chunk # cs, r, t)))))"
  by pat_completeness auto
termination
  by (relation "measure (\<lambda>(rb, mt, mc, l, i, tr, s). mt - tr)") auto

declare iter_chunks.simps [simp del]

definition iter_chunk_stream ::
  "(nat \<Rightarrow> bool \<Rightarrow> 's \<Rightarrow> (exn + bytes) \<times> 's) \<Rightarrow> int \<Rightarrow> nat \<Rightarrow> string \<Rightarrow> bool \<Rightarrow> 's
     \<Rightarrow> bytes list \<times> (exn + unit) \<times> 's" where
  "iter_chunk_stream rb maximum_total maximum_chunk label allow_initial_eof s =
     (if maximum_total < 0 then ([], Inl (ValueError (label @ '' limit is invalid'')), s)
      else iter_chunks rb (nat maximum_total) maximum_chunk label allow_initial_eof 0 s)"

section \<open>Decoding what was encoded\<close>

lemma encode_frameE:
  assumes "encode_frame schema vals = Inr b"
  obtains t body h where "json_dumps (dump_opts_of (fs_json schema)) (JObj vals) = Inr t"
    "codec_encode (encoding (fs_json schema)) t = Inr body" "pack_u32 (length body) = Inr h"
    "b = h @ body" "body \<noteq> []" "length body \<le> max_bytes schema"
  using assms by (auto simp: encode_frame_def err_simps split: if_split_asm)

text \<open>
  Separators a schema may use: a comma and a colon, each with only white space after it.
\<close>

definition schema_ok :: "frame_schema \<Rightarrow> bool" where
  "schema_ok schema \<longleftrightarrow> opts_ok (dump_opts_of (fs_json schema))"

text \<open>The dictionary a reader gets back: the same entries, in sorted order if the schema sorts.\<close>

definition frame_values :: "frame_schema \<Rightarrow> (pystr \<times> json) list \<Rightarrow> (pystr \<times> json) list" where
  "frame_values schema vals =
     (case normal_json (dump_opts_of (fs_json schema)) (JObj vals) of JObj kvs \<Rightarrow> kvs | _ \<Rightarrow> [])"

lemma frame_values_eq:
  "normal_json (dump_opts_of (fs_json schema)) (JObj vals) = JObj (frame_values schema vals)"
  by (simp add: frame_values_def normal_json_def)

lemma frame_values_keys: "set (map fst (frame_values schema vals)) = set (map fst vals)"
  by (force simp: frame_values_def normal_json_def)

lemma frame_values_flat:
  assumes "distinct (map fst vals)" and "\<forall>(k, v) \<in> set vals. scalar v"
  shows "map_of (frame_values schema vals) = map_of vals"
    and "mset (frame_values schema vals) = mset vals"
  using normal_flat [OF assms, of "dump_opts_of (fs_json schema)"] frame_values_eq [of schema vals]
  by auto

lemma unpack_header:
  assumes "pack_u32 (length body) = Inr h"
  shows "length h = 4" "unpack_u32 (take 4 (h @ rest)) = length body"
  using pack_u32_length [OF assms] unpack_pack_u32 [OF assms] by simp_all

text \<open>
  A decoder passed in place of the default one: it must read what \<open>json.loads\<close> reads with some
  pairs hook that keeps objects without duplicates.
\<close>

definition reads_json :: "nat \<Rightarrow> frame_schema \<Rightarrow> (bytes \<Rightarrow> exn + json) option \<Rightarrow> bool" where
  "reads_json lim schema dec \<longleftrightarrow> (case dec of None \<Rightarrow> True
     | Some d \<Rightarrow> \<exists>h ch. keeps_objects h
         \<and> (\<forall>body kvs. bindE (codec_decode (encoding (fs_json schema)) body) (json_loads lim h ch) = Inr (JObj kvs)
              \<longrightarrow> d body = Inr (JObj kvs)))"

lemma reads_json_None [simp]: "reads_json lim schema None"
  by (simp add: reads_json_def)

lemma encode_frame_loads:
  assumes "schema_ok schema" and "plain (JObj vals)"
    and "depth (JObj (frame_values schema vals)) \<le> lim" and "keeps_objects h"
    and "json_dumps (dump_opts_of (fs_json schema)) (JObj vals) = Inr t"
    and "codec_encode (encoding (fs_json schema)) t = Inr body"
  shows "bindE (codec_decode (encoding (fs_json schema)) body) (json_loads lim h ch)
    = Inr (JObj (frame_values schema vals))"
proof -
  let ?o = "dump_opts_of (fs_json schema)"
  have l: "json_loads lim h ch t = Inr (JObj (frame_values schema vals))"
    using loads_dumps [of ?o h "JObj vals" lim "[]" ch] assms
    by (auto simp: schema_ok_def frame_values_eq simp del: depth.simps)
  have "valid_str t"
    using json_dumps_plain [OF assms(2), of ?o] assms(1,2,5)
      valid_str_render [of ?o "normal_json ?o (JObj vals)" 0]
    by (auto simp: schema_ok_def normal_json_def simp del: plain.simps render.simps sort_json.simps split: if_split_asm)
  with assms(6) have "codec_decode (encoding (fs_json schema)) body = Inr t"
    by (rule codec_round)
  with l show ?thesis by simp
qed

theorem decode_encode_frame:
  assumes "schema_ok schema" and "plain (JObj vals)" and "set (map fst vals) = fs_fields schema"
    and "depth (JObj (frame_values schema vals)) \<le> lim"
    and "encode_frame schema vals = Inr b" and "reads_json lim schema dec"
  shows "decode_frame lim schema dec (b @ rest) = Inr (frame_values schema vals, length b)"
proof -
  obtain t body h where e: "json_dumps (dump_opts_of (fs_json schema)) (JObj vals) = Inr t"
    "codec_encode (encoding (fs_json schema)) t = Inr body" "pack_u32 (length body) = Inr h"
    and b: "b = h @ body" and ne: "body \<noteq> []" and mb: "length body \<le> max_bytes schema"
    using assms(5) by (rule encode_frameE)
  note loads = encode_frame_loads [OF assms(1,2,4) _ e(1,2)]
  have "decode_body lim schema body = Inr (JObj (frame_values schema vals))"
    using loads [of object_without_duplicates reject_constant]
    by (simp add: decode_body_def object_without_duplicates_def reraise_if_Inr_iff)
  then have "(case dec of Some d \<Rightarrow> d body | None \<Rightarrow> decode_body lim schema body)
      = Inr (JObj (frame_values schema vals))"
    using assms(6) loads by (auto simp: reads_json_def split: option.split)
  moreover have "unpack_u32 (take HEADER_BYTES (b @ rest)) = length body" "length h = 4"
    using unpack_header [OF e(3)] b by (simp_all add: HEADER_BYTES_def)
  ultimately show ?thesis
    using ne mb frame_values_keys [of schema vals] assms(3)
    by (simp add: decode_frame_def b Let_def HEADER_BYTES_def)
qed

text \<open>What acceptance means, and what it depends on.\<close>

lemma decode_frame_Inr_iff:
  "decode_frame lim schema dec data = Inr (vals, n) \<longleftrightarrow>
     (\<exists>len. len = unpack_u32 (take HEADER_BYTES data) \<and> 0 < len \<and> len \<le> max_bytes schema
       \<and> n = HEADER_BYTES + len \<and> n \<le> length data
       \<and> (case dec of Some d \<Rightarrow> d (take len (drop HEADER_BYTES data))
            | None \<Rightarrow> decode_body lim schema (take len (drop HEADER_BYTES data))) = Inr (JObj vals)
       \<and> set (map fst vals) = fs_fields schema)"
  (is "?l \<longleftrightarrow> ?r")
proof
  assume ?l
  then show ?r
    by (auto simp: decode_frame_def Let_def not_less split: if_split_asm json.split_asm) force
qed (auto simp: decode_frame_def Let_def)

lemma decode_frame_bounds:
  assumes "decode_frame lim schema dec data = Inr (vals, n)"
  shows "n \<le> length data" "HEADER_BYTES < n" "n \<le> HEADER_BYTES + max_bytes schema"
    "n = HEADER_BYTES + unpack_u32 (take HEADER_BYTES data)" "set (map fst vals) = fs_fields schema"
  using assms by (auto simp: decode_frame_Inr_iff)

text \<open>Only the announced bytes decide.\<close>

lemma decode_frame_prefix:
  assumes "decode_frame lim schema dec data = Inr (vals, n)"
    and "take n data' = take n data" and "n \<le> length data'"
  shows "decode_frame lim schema dec data' = Inr (vals, n)"
proof -
  obtain len where n: "n = HEADER_BYTES + len" using assms(1) by (auto simp: decode_frame_Inr_iff)
  have "take HEADER_BYTES (take n data') = take HEADER_BYTES (take n data)"
    and "drop HEADER_BYTES (take n data') = drop HEADER_BYTES (take n data)"
    by (simp_all only: assms(2))
  then have "take HEADER_BYTES data' = take HEADER_BYTES data"
    and "take len (drop HEADER_BYTES data') = take len (drop HEADER_BYTES data)"
    by (simp_all add: n drop_take)
  with assms(1,3) n show ?thesis by (cases dec) (auto simp: decode_frame_Inr_iff)
qed

section \<open>Streams that deliver their bytes in order\<close>

text \<open>
  The contract a byte source gives its readers: a read of at least one byte takes a prefix
  of what is left, of any length up to the request, and returns nothing only at the end. A
  client proved against it does not depend on how the bytes are cut into reads.
\<close>

locale byte_source =
  fixes rd :: "'s reader" and content :: "'s \<Rightarrow> bytes"
  assumes rd_prefix: "0 < n \<Longrightarrow> \<exists>c t. rd n s = (Inr (Some c), t) \<and> content s = c @ content t
    \<and> length c \<le> n \<and> (c = [] \<longrightarrow> content s = [])"
begin

lemma read_loop_step:
  assumes "length out < sz" and "content s \<noteq> []"
  obtains c t where "content s = c @ content t" "c \<noteq> []" "length c \<le> sz - length out"
    "read_loop rd sz label i out s = read_loop rd sz label i (out @ c) t"
proof -
  obtain c t where "rd (sz - length out) s = (Inr (Some c), t)"
    and c: "content s = c @ content t" "length c \<le> sz - length out" "c \<noteq> []"
    using rd_prefix [of "sz - length out" s] assms by auto
  then have "read_loop rd sz label i out s = read_loop rd sz label i (out @ c) t"
    using assms(1) by (subst read_loop.simps) simp
  with c show thesis by (auto intro: that)
qed

lemma read_loop_end:
  assumes "length out < sz" and "content s = []"
  shows "\<exists>t. content t = [] \<and> read_loop rd sz label i out s
    = (if i \<and> out = [] then Inr [] else Inl (StreamError (label @ '' is incomplete'')), t)"
proof -
  obtain t where "rd (sz - length out) s = (Inr (Some []), t)" "content t = []"
    using rd_prefix [of "sz - length out" s] assms by auto
  with assms(1) show ?thesis by (subst read_loop.simps) auto
qed

lemma read_loop_content:
  assumes "length out \<le> sz"
  shows "\<exists>t. content t = drop (sz - length out) (content s) \<and>
    read_loop rd sz label i out s =
      (if sz \<le> length out + length (content s) then Inr (out @ take (sz - length out) (content s))
       else if i \<and> out @ content s = [] then Inr []
       else Inl (StreamError (label @ '' is incomplete'')), t)"
  using assms
proof (induction "sz - length out" arbitrary: out s rule: less_induct)
  case less
  show ?case
  proof (cases "length out < sz \<and> content s \<noteq> []")
    case True
    then obtain c t where c: "content s = c @ content t" "c \<noteq> []" "length c \<le> sz - length out"
      and r: "read_loop rd sz label i out s = read_loop rd sz label i (out @ c) t"
      using read_loop_step by blast
    have d: "sz - length (out @ c) < sz - length out" using c True by (auto simp flip: length_greater_0_conv)
    have "length (out @ c) \<le> sz" using c(3) True by simp linarith
    from less.hyps [OF d this, of t] c r show ?thesis
      by (cases "sz \<le> length out + length (content s)") auto
  next
    case False
    show ?thesis
    proof (cases "length out < sz")
      case True
      with False read_loop_end [of out sz s label i] show ?thesis by auto
    next
      case False
      with less.prems show ?thesis by (auto simp: read_loop.simps)
    qed
  qed
qed

lemma read_exact_content:
  obtains t where "content t = drop n (content s)"
    "read_exact rd n label i s =
      (if n \<le> length (content s) then Inr (take n (content s))
       else if i \<and> content s = [] then Inr []
       else Inl (StreamError (label @ '' is incomplete'')), t)"
  using read_loop_content [of "[]" n s label i] by (auto simp: read_exact_def)

text \<open>A frame at the head of the stream is read whole, and nothing after it is touched.\<close>

lemma read_frame_decode:
  assumes "content s = frame @ rest" and "decode_frame lim schema None frame = Inr (vals, length frame)"
  shows "\<exists>t. read_frame lim schema rd s = (Inr vals, t) \<and> content t = rest"
proof -
  let ?len = "unpack_u32 (take HEADER_BYTES frame)"
  note b = decode_frame_bounds [OF assms(2)]
  have len: "0 < ?len" "?len \<le> max_bytes schema" "length frame = HEADER_BYTES + ?len"
    using assms(2) by (auto simp: decode_frame_Inr_iff)
  obtain t1 where t1: "content t1 = drop HEADER_BYTES (content s)"
    "read_exact rd HEADER_BYTES (stream_label schema) False s = (Inr (take HEADER_BYTES frame), t1)"
    using read_exact_content [of HEADER_BYTES s "stream_label schema" False] b(2) assms(1) by auto
  obtain t2 where t2: "content t2 = rest"
    "read_exact rd ?len (stream_label schema) False t1 = (Inr (drop HEADER_BYTES frame), t2)"
    using read_exact_content [of ?len t1 "stream_label schema" False] b(2) len t1(1) assms(1) by auto
  have "read_frame lim schema rd s = (Inr vals, t2)"
    using t1(2) t2(2) len assms(2) b(2) by (simp add: read_frame_def Let_def)
  with t2(1) show ?thesis by blast
qed

text \<open>A chunk stream at the head of the source yields exactly its chunks.\<close>

lemma iter_chunks_content:
  assumes "content s = concat (map (\<lambda>c. projr (pack_u32 (length c)) @ c) chunks)
      @ replicate 4 (CHR 0x00) @ rest"
    and "\<forall>c \<in> set chunks. c \<noteq> [] \<and> length c \<le> mc" and "mc < 2 ^ 32"
    and "transferred + sum_list (map length chunks) \<le> mt"
  shows "\<exists>t. iter_chunks (\<lambda>n b. read_exact rd n label b) mt mc label i transferred s = (chunks, Inr (), t)
    \<and> content t = rest"
  using assms
proof (induction chunks arbitrary: transferred s)
  case Nil
  obtain t where t: "content t = rest"
    "read_exact rd 4 label (i \<and> transferred = 0) s = (Inr (replicate 4 (CHR 0x00)), t)"
    using read_exact_content [of 4 s label "i \<and> transferred = 0"] Nil.prems(1) by auto
  have "unpack_u32 (replicate 4 (CHR 0x00)) = 0" by (simp add: unpack_u32_def numeral_eq_Suc)
  then show ?case using t by (subst iter_chunks.simps) (auto simp: HEADER_BYTES_def)
next
  case (Cons c cs)
  let ?l = "length c"
  obtain h where h: "pack_u32 ?l = Inr h" using Cons.prems(2,3) by (auto simp: pack_u32_def)
  note hl = pack_u32_length [OF h] and hu = unpack_pack_u32 [OF h]
  let ?tail = "concat (map (\<lambda>c. projr (pack_u32 (length c)) @ c) cs) @ replicate 4 (CHR 0x00) @ rest"
  have cs: "content s = h @ c @ ?tail" using Cons.prems(1) h by simp
  obtain t1 where t1: "content t1 = c @ ?tail"
    "read_exact rd 4 label (i \<and> transferred = 0) s = (Inr h, t1)"
    using read_exact_content [of 4 s label "i \<and> transferred = 0"] cs hl by auto
  obtain t2 where t2: "content t2 = ?tail" "read_exact rd ?l label False t1 = (Inr c, t2)"
    using read_exact_content [of ?l t1 label False] t1(1) by auto
  obtain t where "iter_chunks (\<lambda>n b. read_exact rd n label b) mt mc label i (transferred + ?l) t2
      = (cs, Inr (), t)" "content t = rest"
    using Cons.IH [OF t2(1), of "transferred + ?l"] Cons.prems(2-4) by auto
  then show ?case
    using t1(2) t2(2) hl hu Cons.prems(2,4)
    by (subst iter_chunks.simps) (auto simp: HEADER_BYTES_def)
qed

end

section \<open>Streams that send what they report\<close>

text \<open>
  The contract of a byte sink: a write that reports \<open>k\<close> bytes has appended the first
  \<open>k\<close> of them to what the peer will read. It may report less than asked, or fail.
\<close>

locale byte_sink =
  fixes wr :: "'s writer" and sent :: "'s \<Rightarrow> bytes"
  assumes wr_reported: "wr d s = (Inr (WInt k), t) \<Longrightarrow> 0 < k \<Longrightarrow> k \<le> int (length d) \<Longrightarrow>
    sent t = sent s @ take (nat k) d"
begin

lemma write_loop_sent:
  assumes "write_loop wr label frame offset s = (Inr (), t)" and "offset \<le> length frame"
  shows "sent t = sent s @ drop offset frame"
  using assms
proof (induction "length frame - offset" arbitrary: offset s rule: less_induct)
  case less
  show ?case
  proof (cases "offset < length frame")
    case True
    with less.prems(1) obtain k s' where w: "wr (drop offset frame) s = (Inr (WInt k), s')"
      "0 < k" "k \<le> int (length frame - offset)"
      "write_loop wr label frame (offset + nat k) s' = (Inr (), t)"
      by (subst (asm) write_loop.simps)
         (auto split: prod.split_asm sum.split_asm wresult.split_asm if_split_asm)
    have "sent s' = sent s @ take (nat k) (drop offset frame)"
      using w(1-3) by (intro wr_reported) auto
    moreover have "sent t = sent s' @ drop (offset + nat k) frame"
      using w True by (intro less.hyps) auto
    ultimately show ?thesis by (metis append.assoc append_take_drop_id add.commute drop_drop)
  next
    case False
    with less.prems show ?thesis by (subst (asm) write_loop.simps) simp
  qed
qed

lemma write_fully_sent: "write_fully wr frame label s = (Inr (), t) \<Longrightarrow> sent t = sent s @ frame"
  using write_loop_sent [of label frame 0 s t] by (simp add: write_fully_def)

lemma write_chunks_sent:
  "write_chunks wr mc label n chunks s = (Inr m, t) \<Longrightarrow>
     sent t = sent s @ concat (map (\<lambda>c. projr (pack_u32 (length c)) @ c) chunks)
     \<and> m = n + sum_list (map length chunks) \<and> (\<forall>c \<in> set chunks. c \<noteq> [] \<and> length c \<le> mc)"
proof (induction chunks arbitrary: n s)
  case (Cons c cs)
  then show ?case
    by (fastforce split: if_split_asm sum.split_asm dest!: write_fully_sent)
qed simp

end

section \<open>The socket file the brokers read from\<close>

text \<open>
  \<open>client.makefile(''rwb'', buffering=0)\<close> on a connected stream socket: a read returns a
  non-empty prefix of the bytes the peer has sent, as long as the kernel happens to deliver
  it, and the empty string after the peer has shut down. \<open>sock_cuts\<close> lists the lengths of
  the deliveries (everything, once the list is used up).
\<close>

record sock =
  sock_buf :: bytes
  sock_cuts :: "nat list"

definition sock_read :: "sock reader" where
  "sock_read n s =
     (let k = min n (case sock_cuts s of [] \<Rightarrow> length (sock_buf s) | c # _ \<Rightarrow> max 1 c)
      in (Inr (Some (take k (sock_buf s))), \<lparr>sock_buf = drop k (sock_buf s), sock_cuts = tl (sock_cuts s)\<rparr>))"

interpretation sock_source: byte_source sock_read sock_buf
proof
  fix n :: nat and s
  assume "0 < n"
  then show "\<exists>c t. sock_read n s = (Inr (Some c), t) \<and> sock_buf s = c @ sock_buf t
      \<and> length c \<le> n \<and> (c = [] \<longrightarrow> sock_buf s = [])"
    by (auto simp: sock_read_def Let_def min_def split: list.split)
qed

text \<open>
  The other direction: the kernel accepts some of the bytes of each write and appends them
  to what the peer will read (\<open>out_cuts\<close>; a zero there is a broken connection).
\<close>

record sink =
  out_buf :: bytes
  out_cuts :: "nat list"

definition sink_write :: "sink writer" where
  "sink_write d s =
     (let k = min (length d) (case out_cuts s of [] \<Rightarrow> length d | c # _ \<Rightarrow> c);
          s' = \<lparr>out_buf = out_buf s @ take k d, out_cuts = tl (out_cuts s)\<rparr>
      in if k = 0 \<and> d \<noteq> [] then (Inl (OSError ''connection reset''), s') else (Inr (WInt (int k)), s'))"

definition sink_flush :: "sink \<Rightarrow> (exn + unit) \<times> sink" where
  "sink_flush s = (Inr (), s)"

interpretation sink_dest: byte_sink sink_write out_buf
  by unfold_locales (auto simp: sink_write_def Let_def split: if_split_asm)

section \<open>Properties\<close>

text \<open>
  C3. Framing round trip: for every schema whose separators are a comma and a colon, any
  dictionary of plain JSON values with exactly the schema's fields that \<open>encode_frame\<close>
  accepts is returned by \<open>decode_frame\<close> (in sorted order if the schema sorts keys), with the
  frame's own length as the consumed count and whatever bytes follow it ignored.
\<close>

theorem frame_roundtrip:
  assumes "schema_ok schema" and "plain (JObj vals)" and "set (map fst vals) = fs_fields schema"
    and "depth (JObj (frame_values schema vals)) \<le> lim"
    and "encode_frame schema vals = Inr frame"
  shows "decode_frame lim schema None (frame @ rest) = Inr (frame_values schema vals, length frame)"
  by (rule decode_encode_frame [OF assms reads_json_None])

definition demo_schema :: frame_schema where
  "demo_schema = \<lparr>fs_label = ''demo'', stream_label = ''demo stream'', fs_fields = {u ''b'', u ''a''},
     max_bytes = 64,
     fs_json = \<lparr>ensure_ascii = True, allow_nan = True, sort_keys = True,
                separators = Some (u '','', u '':''), encoding = Ascii\<rparr>,
     frame_label = None\<rparr>"

lemma demo_schema_ok: "schema_ok demo_schema"
  by (simp add: demo_schema_def schema_ok_def opts_ok_def dump_opts_of_def u_def)

definition demo_values :: "(pystr \<times> json) list" where
  "demo_values = [(u ''b'', JBool True), (u ''a'', JStr [233, 128512])]"

lemma demo_plain: "plain (JObj demo_values)"
  by (simp add: demo_values_def clean_str_def u_def is_surrogate_def)

lemma demo_depth: "depth (JObj (frame_values demo_schema demo_values)) \<le> 3"
  by (simp add: demo_values_def frame_values_def normal_json_def demo_schema_def dump_opts_of_def u_def)

definition demo_frame :: bytes where
  "demo_frame = [CHR 0x00, CHR 0x00, CHR 0x00, CHR 0x23]
     @ ''{\"a\":\"'' @ [CHR 0x5C] @ ''u00e9'' @ [CHR 0x5C] @ ''ud83d'' @ [CHR 0x5C] @ ''ude00\",\"b\":true}''"

lemma demo_encode: "encode_frame demo_schema demo_values = Inr demo_frame"
  by (simp add: encode_frame_def demo_schema_def demo_values_def demo_frame_def dump_opts_of_def
      json_eval char_of_def bit_0)

theorem frame_roundtrip_witness:
  "decode_frame 3 demo_schema None (demo_frame @ ''next'')
     = Inr ([(u ''a'', JStr [233, 128512]), (u ''b'', JBool True)], 39)"
proof -
  have "set (map fst demo_values) = fs_fields demo_schema"
    by (auto simp: demo_values_def demo_schema_def)
  moreover have "frame_values demo_schema demo_values
      = [(u ''a'', JStr [233, 128512]), (u ''b'', JBool True)]"
    by (simp add: demo_values_def frame_values_def normal_json_def demo_schema_def dump_opts_of_def u_def)
  ultimately show ?thesis
    using frame_roundtrip [OF demo_schema_ok demo_plain _ demo_depth demo_encode, of "''next''"]
    by (simp add: demo_frame_def)
qed

text \<open>
  Reading does not depend on delivery: when the bytes on a socket begin with a frame that
  \<open>decode_frame\<close> accepts, \<open>read_frame\<close> returns its fields however the kernel cuts the
  bytes into reads, and leaves exactly the bytes after the frame unread.
\<close>

lemma read_frame_any_delivery:
  assumes "decode_frame lim schema None frame = Inr (vals, length frame)"
  shows "\<exists>cuts'. read_frame lim schema sock_read \<lparr>sock_buf = frame @ rest, sock_cuts = cuts\<rparr>
    = (Inr vals, \<lparr>sock_buf = rest, sock_cuts = cuts'\<rparr>)"
proof -
  obtain t where "read_frame lim schema sock_read \<lparr>sock_buf = frame @ rest, sock_cuts = cuts\<rparr> = (Inr vals, t)"
    and "sock_buf t = rest"
    using sock_source.read_frame_decode [of "\<lparr>sock_buf = frame @ rest, sock_cuts = cuts\<rparr>" frame rest,
        OF _ assms] by auto
  then show ?thesis by (cases t) auto
qed

text \<open>
  \<open>read_exact\<close> is safe on every stream object, honest or not: what it returns has
  exactly the requested length, except for the empty result an initial end of file gives when
  the caller allows it.
\<close>

lemma read_exact_length:
  assumes "read_exact rd n label initial_eof s = (Inr b, t)"
  shows "length b = n \<or> initial_eof \<and> b = []"
proof -
  have "read_loop rd n label initial_eof out s = (Inr b, t) \<Longrightarrow> length out \<le> n \<Longrightarrow>
      length b = n \<or> initial_eof \<and> b = []" for out
  proof (induction rd n label initial_eof out s rule: read_loop.induct)
    case (1 rd n label i out s)
    show ?case
    proof (cases "length out < n \<and> \<not> (i \<and> b = [])")
      case True
      with "1.prems"(1) obtain c s' where c: "rd (n - length out) s = (Inr (Some c), s')" "c \<noteq> []"
        "\<not> n - length out < length c" "read_loop rd n label i (out @ c) s' = (Inr b, t)"
        by (subst (asm) read_loop.simps)
           (auto split: if_split_asm prod.split_asm sum.split_asm option.split_asm)
      then have "length (out @ c) \<le> n" using "1.prems"(2) by simp
      with c True show ?thesis by (intro "1.IH") auto
    next
      case False
      with "1.prems" show ?thesis by (subst (asm) read_loop.simps) auto
    qed
  qed
  from this [of "[]"] assms show ?thesis by (simp add: read_exact_def)
qed

text \<open>
  Chunked transfer round trip: when \<open>write_chunk_stream\<close> succeeds on a socket, however
  the kernel splits its writes, a reader of the bytes it sent gets back exactly the chunks,
  and stops at the terminator without touching what follows, however its reads are cut.
\<close>

lemma chunk_stream_roundtrip:
  assumes "write_chunk_stream sink_write sink_flush chunks mc label \<lparr>out_buf = [], out_cuts = oc\<rparr> = (Inr n, t)"
    and "mc < 2 ^ 32" and "n \<le> mt"
  shows "\<exists>s. iter_chunk_stream (\<lambda>k i. read_exact sock_read k label i) (int mt) mc label eof
      \<lparr>sock_buf = out_buf t @ rest, sock_cuts = ic\<rparr> = (chunks, Inr (), s) \<and> sock_buf s = rest"
proof -
  from assms(1) obtain t1 where w: "write_chunks sink_write mc label 0 chunks \<lparr>out_buf = [], out_cuts = oc\<rparr>
      = (Inr n, t1)" and f: "write_fully sink_write (replicate 4 (CHR 0x00)) label t1 = (Inr (), t)"
    by (auto simp: write_chunk_stream_def sink_flush_def)
  from sink_dest.write_chunks_sent [OF w] sink_dest.write_fully_sent [OF f]
  have "out_buf t = concat (map (\<lambda>c. projr (pack_u32 (length c)) @ c) chunks) @ replicate 4 (CHR 0x00)"
    and "n = sum_list (map length chunks)" "\<forall>c \<in> set chunks. c \<noteq> [] \<and> length c \<le> mc"
    by auto
  then show ?thesis
    using sock_source.iter_chunks_content [of "\<lparr>sock_buf = out_buf t @ rest, sock_cuts = ic\<rparr>" chunks
        rest mc 0 mt label eof] assms(2,3)
    by (simp add: iter_chunk_stream_def)
qed

lemma demo_header: "pack_u32 (Suc (Suc 0)) = Inr [CHR 0x00, CHR 0x00, CHR 0x00, CHR 0x02]"
proof -
  have "pack_u32 2 = Inr [CHR 0x00, CHR 0x00, CHR 0x00, CHR 0x02]"
    by (simp add: pack_u32_def char_of_def bit_0)
  then show ?thesis by (simp only: numeral_2_eq_2)
qed


end
