(* ===== verification/Frame_Protocol.thy ===== *)
theory Frame_Protocol
  imports Broker_Frame
begin

text \<open>
  What every message type on a broker socket has in common: a schema, the dictionary its
  encoder builds and the constructor its decoder applies to the dictionary it reads. The
  interface is the locale \<open>frame_protocol\<close>; each protocol module interprets it for its
  requests and its responses, and gets decoding of encoded messages, delivery over a socket
  and unambiguity of the byte stream from it.

  The helpers are the checks the constructors share: \<open>isinstance\<close> on a decoded value.
\<close>

section \<open>Reading a field\<close>

definition field_of :: "(pystr \<rightharpoonup> json) \<Rightarrow> string \<Rightarrow> exn + json" where
  "field_of d k = (case d (u k) of None \<Rightarrow> Inl KeyError | Some v \<Rightarrow> Inr v)"

text \<open>A keyword of \<open>Class(**values)\<close>: a missing one is a \<open>TypeError\<close>.\<close>

definition kwarg_of :: "(pystr \<rightharpoonup> json) \<Rightarrow> string \<Rightarrow> exn + json" where
  "kwarg_of d k = (case d (u k) of None \<Rightarrow> Inl TypeError | Some v \<Rightarrow> Inr v)"

text \<open>\<open>isinstance(v, int) and not isinstance(v, bool)\<close>, and \<open>isinstance(v, str)\<close>.\<close>

fun as_int :: "exn \<Rightarrow> json \<Rightarrow> exn + int" where
  "as_int e (JInt i) = Inr i"
| "as_int e _ = Inl e"

fun as_str :: "exn \<Rightarrow> json \<Rightarrow> exn + pystr" where
  "as_str e (JStr s) = Inr s"
| "as_str e _ = Inl e"

fun as_obj :: "exn \<Rightarrow> json \<Rightarrow> exn + (pystr \<times> json) list" where
  "as_obj e (JObj kvs) = Inr kvs"
| "as_obj e _ = Inl e"

lemma as_int_Inr_iff [err_simps]: "as_int e v = Inr i \<longleftrightarrow> v = JInt i"
  by (cases v) auto

lemma as_str_Inr_iff [err_simps]: "as_str e v = Inr s \<longleftrightarrow> v = JStr s"
  by (cases v) auto

lemma as_obj_Inr_iff [err_simps]: "as_obj e v = Inr kvs \<longleftrightarrow> v = JObj kvs"
  by (cases v) auto

lemma field_of_Inr_iff [err_simps]: "field_of d k = Inr v \<longleftrightarrow> d (u k) = Some v"
  by (auto simp: field_of_def split: option.split)

lemma field_of_Some [simp]: "d (u k) = Some v \<Longrightarrow> field_of d k = Inr v"
  by (simp add: field_of_def)

lemma kwarg_of_Inr_iff [err_simps]: "kwarg_of d k = Inr v \<longleftrightarrow> d (u k) = Some v"
  by (auto simp: kwarg_of_def split: option.split)

lemma kwarg_of_Some [simp]: "d (u k) = Some v \<Longrightarrow> kwarg_of d k = Inr v"
  by (simp add: kwarg_of_def)

lemma as_int_InrE [elim!]: "as_int e v = Inr i \<Longrightarrow> (v = JInt i \<Longrightarrow> P) \<Longrightarrow> P"
  by (cases v) auto

lemma as_str_InrE [elim!]: "as_str e v = Inr i \<Longrightarrow> (v = JStr i \<Longrightarrow> P) \<Longrightarrow> P"
  by (cases v) auto

lemma as_obj_InrE [elim!]: "as_obj e v = Inr i \<Longrightarrow> (v = JObj i \<Longrightarrow> P) \<Longrightarrow> P"
  by (cases v) auto

text \<open>An encoder that validates first and then renders the dictionary.\<close>

lemma bindE_guard_iff:
  assumes "\<And>r'. v = Inr r' \<longleftrightarrow> ok r' \<and> r' = r"
  shows "bindE v (\<lambda>_. w) = Inr b \<longleftrightarrow> ok r \<and> w = Inr b"
  using assms by (cases v) auto

section \<open>Messages\<close>

text \<open>
  \<open>decode_frame\<close> followed by the message's constructor, and the same from a stream; the
  dictionary is a map, since the constructors read it by key.
\<close>

definition decode_message ::
  "nat \<Rightarrow> frame_schema \<Rightarrow> (bytes \<Rightarrow> exn + json) option \<Rightarrow> ((pystr \<rightharpoonup> json) \<Rightarrow> exn + 'r) \<Rightarrow> bytes
     \<Rightarrow> exn + 'r \<times> nat" where
  "decode_message lim schema dec construct data =
     bindE (decode_frame lim schema dec data)
       (\<lambda>(decoded, consumed). bindE (construct (map_of decoded)) (\<lambda>r. Inr (r, consumed)))"

definition read_message ::
  "nat \<Rightarrow> frame_schema \<Rightarrow> ((pystr \<rightharpoonup> json) \<Rightarrow> exn + 'r) \<Rightarrow> 's reader \<Rightarrow> 's \<Rightarrow> (exn + 'r) \<times> 's" where
  "read_message lim schema construct rd s =
     bindS (read_frame lim schema rd s) (\<lambda>decoded t. (construct (map_of decoded), t))"

locale frame_protocol =
  fixes lim :: nat
    and schema :: frame_schema
    and dec :: "(bytes \<Rightarrow> exn + json) option"
    and to_values :: "'r \<Rightarrow> (pystr \<times> json) list"
    and construct :: "(pystr \<rightharpoonup> json) \<Rightarrow> exn + 'r"
    and valid :: "'r \<Rightarrow> bool"
  assumes schema: "schema_ok schema"
    and dec: "reads_json lim schema dec"
    and keys: "valid r \<Longrightarrow> set (map fst (to_values r)) = fs_fields schema"
    and plain_values: "valid r \<Longrightarrow> plain (JObj (to_values r))"
    and shallow: "valid r \<Longrightarrow> depth (JObj (frame_values schema (to_values r))) \<le> lim"
    and from_to: "valid r \<Longrightarrow> construct (map_of (frame_values schema (to_values r))) = Inr r"
begin

lemma decode_encoded:
  assumes "valid r" and "encode_frame schema (to_values r) = Inr b"
  shows "decode_message lim schema dec construct (b @ rest) = Inr (r, length b)"
  using decode_encode_frame [OF schema plain_values [OF assms(1)] keys [OF assms(1)]
      shallow [OF assms(1)] assms(2) dec, of rest] from_to [OF assms(1)]
  by (simp add: decode_message_def)

text \<open>
  No two messages are confused: encoded messages are equal only for equal messages, and none
  is a proper prefix of another, so a stream of them parses in one way.
\<close>

lemma unambiguous:
  assumes "valid r" "encode_frame schema (to_values r) = Inr b"
    and "valid r'" "encode_frame schema (to_values r') = Inr b'"
    and "b @ x = b' @ y"
  shows "r = r' \<and> b = b' \<and> x = y"
  using decode_encoded [OF assms(1,2), of x] decode_encoded [OF assms(3,4), of y] assms(5) by auto

lemma encoded_inj:
  assumes "valid r" "encode_frame schema (to_values r) = Inr b"
    and "valid r'" "encode_frame schema (to_values r') = Inr b"
  shows "r = r'"
  using unambiguous [OF assms, of "[]" "[]"] by simp

end

text \<open>A flat message: every field is a scalar, and the schema does not change the values.\<close>

locale flat_protocol =
  fixes lim :: nat
    and schema :: frame_schema
    and dec :: "(bytes \<Rightarrow> exn + json) option"
    and to_values :: "'r \<Rightarrow> (pystr \<times> json) list"
    and construct :: "(pystr \<rightharpoonup> json) \<Rightarrow> exn + 'r"
    and valid :: "'r \<Rightarrow> bool"
  assumes flat_schema: "schema_ok schema"
    and flat_dec: "reads_json lim schema dec"
    and flat_lim: "valid r \<Longrightarrow> 1 \<le> lim"
    and flat_keys: "valid r \<Longrightarrow> set (map fst (to_values r)) = fs_fields schema"
    and flat_distinct: "valid r \<Longrightarrow> distinct (map fst (to_values r))"
    and flat_clean: "valid r \<Longrightarrow> list_all (\<lambda>(k, v). clean_str k \<and> scalar v \<and> plain v) (to_values r)"
    and flat_from_to: "valid r \<Longrightarrow> construct (map_of (to_values r)) = Inr r"
begin

lemma flat_scalar: "valid r \<Longrightarrow> \<forall>(k, v) \<in> set (to_values r). scalar v"
  using flat_clean [of r] by (auto simp: list_all_iff)

lemma flat_depth: "valid r \<Longrightarrow> depth (JObj (frame_values schema (to_values r))) \<le> lim"
proof -
  assume v: "valid r"
  have "set (frame_values schema (to_values r)) = set (to_values r)"
    using frame_values_flat(2) [OF flat_distinct [OF v] flat_scalar [OF v], of schema]
    by (metis set_mset_mset)
  then have "depth (JObj (frame_values schema (to_values r))) = 1"
    using flat_scalar [OF v] by (intro depth_flat) auto
  then show ?thesis using flat_lim [OF v] by simp
qed

end

sublocale flat_protocol \<subseteq> frame_protocol
proof
  fix r
  assume v: "valid r"
  show "plain (JObj (to_values r))"
    using flat_clean [OF v] flat_distinct [OF v] by (auto simp: list_all_iff)
  show "depth (JObj (frame_values schema (to_values r))) \<le> lim" by (rule flat_depth [OF v])
  show "construct (map_of (frame_values schema (to_values r))) = Inr r"
    using frame_values_flat(1) [OF flat_distinct [OF v] flat_scalar [OF v], of schema]
      flat_from_to [OF v] by simp
qed (use flat_schema flat_dec flat_keys in auto)

text \<open>A protocol spoken over a byte source: one read returns one message.\<close>

locale protocol_stream = frame_protocol lim schema None to_values construct valid + byte_source rd content
  for lim :: nat and schema :: frame_schema and to_values :: "'r \<Rightarrow> (pystr \<times> json) list"
    and construct :: "(pystr \<rightharpoonup> json) \<Rightarrow> exn + 'r" and valid :: "'r \<Rightarrow> bool"
    and rd :: "'s reader" and content :: "'s \<Rightarrow> bytes"
begin

lemma read_encoded:
  assumes "valid r" and "encode_frame schema (to_values r) = Inr b" and "content s = b @ rest"
  shows "\<exists>t. read_message lim schema construct rd s = (Inr r, t) \<and> content t = rest"
proof -
  have "decode_frame lim schema None b = Inr (frame_values schema (to_values r), length b)"
    using decode_encode_frame [OF schema plain_values [OF assms(1)] keys [OF assms(1)]
      shallow [OF assms(1)] assms(2), of None "[]"] by simp
  from read_frame_decode [OF assms(3) this] from_to [OF assms(1)] show ?thesis
    by (auto simp: read_message_def)
qed

end

end
