(* ===== verification/Host_State.thy ===== *)
theory Host_State
  imports Py_Json
begin

text \<open>
  \<open>src/agent_container/state.py\<close> and \<open>src/agent_container/github_values.py\<close>: the
  validators every component applies to identifiers before it builds a path, a URL or a
  command from them, and the layout of the host state those identifiers select.

  A \<open>Path\<close> is the flag \<open>is_absolute\<close> and the list of its components; \<open>hashlib.sha256\<close>
  appears only in directory labels, as the function parameter \<open>sha\<close> (the hex digest).
\<close>

section \<open>Identifiers\<close>

definition is_slug_char :: "nat \<Rightarrow> bool" where
  "is_slug_char c \<longleftrightarrow> is_alnum c \<or> c = 46 \<or> c = 95 \<or> c = 45"

definition slug_match :: "pystr \<Rightarrow> bool" where
  "slug_match s = class_match is_alnum is_slug_char 99 s"

definition PROJECT_ID :: "pystr \<Rightarrow> bool" where
  "PROJECT_ID s = slug_match s"

definition REPOSITORY_PART :: "pystr \<Rightarrow> bool" where
  "REPOSITORY_PART s = slug_match s"

definition VERSION_PATTERN :: "pystr \<Rightarrow> bool" where
  "VERSION_PATTERN s = class_match is_alnum (\<lambda>c. is_slug_char c \<or> c = 43) 99 s"

definition PLUGIN_IDENTIFIER :: "pystr \<Rightarrow> bool" where
  "PLUGIN_IDENTIFIER s = (case split1 64 s of None \<Rightarrow> False | Some (a, b) \<Rightarrow> slug_match a \<and> slug_match b)"

definition AGENTS :: "pystr set" where
  "AGENTS = {u ''codex'', u ''claude''}"

definition validate_agent :: "pystr \<Rightarrow> bool \<Rightarrow> exn + pystr" where
  "validate_agent v allow_all =
     (if v \<notin> AGENTS \<union> (if allow_all then {u ''all''} else {})
      then Inl (ValueError ''agent must be codex or claude'') else Inr v)"

definition validate_version :: "pystr \<Rightarrow> exn + pystr" where
  "validate_version v =
     (if \<not> VERSION_PATTERN v then Inl (ValueError ''version must be a safe npm version or latest'') else Inr v)"

definition validate_plugin_identifier :: "pystr \<Rightarrow> exn + pystr" where
  "validate_plugin_identifier v =
     (if \<not> PLUGIN_IDENTIFIER v then Inl (ValueError ''plugin must be NAME@MARKETPLACE'') else Inr v)"

definition validate_project_id :: "pystr \<Rightarrow> exn + pystr" where
  "validate_project_id v =
     (if v \<in> {u ''.'', u ''..''} \<or> \<not> PROJECT_ID v
      then Inl (ValueError ''project_id must be a single safe repository-style slug'') else Inr v)"

text \<open>On a decoded JSON value the pattern match raises \<open>TypeError\<close> for anything but a string.\<close>

definition validate_project_id_json :: "json \<Rightarrow> exn + pystr" where
  "validate_project_id_json v = (case v of JStr s \<Rightarrow> validate_project_id s | _ \<Rightarrow> Inl TypeError)"

definition CLAUDE_OAUTH_TOKEN :: "pystr \<Rightarrow> bool" where
  "CLAUDE_OAUTH_TOKEN s \<longleftrightarrow> startswith s (u ''sk-ant-oat'')
     \<and> (case drop 10 s of
          a # b # c # rest \<Rightarrow> is_digit a \<and> is_digit b \<and> c = 45 \<and> rest \<noteq> []
            \<and> list_all (\<lambda>x. is_alnum x \<or> x = 95 \<or> x = 45) rest
        | _ \<Rightarrow> False)"

definition validate_claude_oauth_token :: "pystr \<Rightarrow> exn + pystr" where
  "validate_claude_oauth_token v =
     (if 35 \<in> set v then Inl (ValueError ''Claude OAuth token looks like a browser login code; paste the token printed by claude setup-token'')
      else if \<not> (32 \<le> length v \<and> length v \<le> 4096) \<or> \<not> CLAUDE_OAUTH_TOKEN v
      then Inl (ValueError ''Claude OAuth token has invalid format'') else Inr v)"

definition MAX_ISSUE_NUMBER :: int where
  "MAX_ISSUE_NUMBER = 2147483647"

definition validate_issue_number :: "json \<Rightarrow> exn + int" where
  "validate_issue_number v =
     (case v of JInt i \<Rightarrow>
        (if 1 \<le> i \<and> i \<le> MAX_ISSUE_NUMBER then Inr i else Inl (ValueError ''issue number is invalid''))
      | _ \<Rightarrow> Inl (ValueError ''issue number is invalid''))"

definition validate_repository_id :: "json \<Rightarrow> exn + int" where
  "validate_repository_id v =
     (case v of JInt i \<Rightarrow>
        (if i \<le> 0 then Inl (ValueError ''GitHub repository ID is invalid'') else Inr i)
      | _ \<Rightarrow> Inl (ValueError ''GitHub repository ID is invalid''))"

record Repository =
  repo_owner :: pystr
  repo_name :: pystr

definition parse_Repository :: "pystr \<Rightarrow> exn + Repository" where
  "parse_Repository v =
     (case split_on 47 v of
        [a, b] \<Rightarrow>
          (if list_ex (\<lambda>part. part \<in> {[], u ''.'', u ''..''} \<or> \<not> REPOSITORY_PART part) [a, b]
           then Inl (ValueError ''repository must be OWNER/REPOSITORY'')
           else Inr \<lparr>repo_owner = a, repo_name = b\<rparr>)
      | _ \<Rightarrow> Inl (ValueError ''repository must be OWNER/REPOSITORY''))"

definition slug :: "Repository \<Rightarrow> pystr" where
  "slug r = repo_owner r @ [47] @ repo_name r"

definition https_url :: "Repository \<Rightarrow> pystr" where
  "https_url r = u ''https://github.com/'' @ slug r @ u ''.git''"

section \<open>The state layout\<close>

type_synonym path = "bool \<times> pystr list"

definition path_of :: "pystr \<Rightarrow> path" where
  "path_of s = (startswith s [47], filter (\<lambda>p. p \<noteq> [] \<and> p \<noteq> u ''.'') (split_on 47 s))"

definition path_join :: "path \<Rightarrow> pystr \<Rightarrow> path" where
  "path_join p s = (if fst (path_of s) then path_of s else (fst p, snd p @ snd (path_of s)))"

definition github_broker_project_label :: "(bytes \<Rightarrow> pystr) \<Rightarrow> pystr \<Rightarrow> exn + pystr" where
  "github_broker_project_label sha project_id =
     bindE (validate_project_id project_id) (\<lambda>v. bindE (ascii_encode v) (\<lambda>b. Inr (take 12 (sha b))))"

definition handover_broker_project_label :: "(bytes \<Rightarrow> pystr) \<Rightarrow> pystr \<Rightarrow> exn + pystr" where
  "handover_broker_project_label sha project_id =
     bindE (validate_project_id project_id) (\<lambda>v. bindE (ascii_encode v) (\<lambda>b. Inr (take 12 (sha b))))"

definition egress_broker_project_label :: "(bytes \<Rightarrow> pystr) \<Rightarrow> pystr \<Rightarrow> exn + pystr" where
  "egress_broker_project_label sha project_id =
     bindE (validate_project_id project_id) (\<lambda>v. bindE (ascii_encode v) (\<lambda>b. Inr (take 12 (sha b))))"

record StateLayout =
  sl_root :: path
  sl_project_id :: pystr

text \<open>
  \<open>resolve\<close> is \<open>Path.resolve\<close> on the host's file system, \<open>home\<close> is \<open>Path.home()\<close>; an
  unset and an empty variable select the next default alike.
\<close>

definition from_environment ::
  "(path \<Rightarrow> path) \<Rightarrow> path \<Rightarrow> pystr \<Rightarrow> (string \<rightharpoonup> pystr) \<Rightarrow> exn + StateLayout" where
  "from_environment resolve home pid env =
     (let nonempty = (\<lambda>k. case env k of None \<Rightarrow> None | Some v \<Rightarrow> if v = [] then None else Some v);
          r = (case nonempty ''AGENT_CONTAINER_HOME'' of
                 Some v \<Rightarrow> path_of v
               | None \<Rightarrow>
                   (case nonempty ''XDG_DATA_HOME'' of
                      Some v \<Rightarrow> path_join (path_of v) (u ''agent-container'')
                    | None \<Rightarrow> path_join home (u ''.local/share/agent-container'')))
      in if \<not> fst r then Inl (ValueError ''agent container state root must be absolute'')
         else bindE (validate_project_id pid) (\<lambda>v. Inr \<lparr>sl_root = resolve r, sl_project_id = v\<rparr>))"

definition gh_dir :: "StateLayout \<Rightarrow> path" where
  "gh_dir l = path_join (sl_root l) (u ''gh'')"

definition codex_auth_dir :: "StateLayout \<Rightarrow> path" where
  "codex_auth_dir l = path_join (sl_root l) (u ''shared-auth/codex'')"

definition codex_auth_file :: "StateLayout \<Rightarrow> path" where
  "codex_auth_file l = path_join (codex_auth_dir l) (u ''auth.json'')"

definition claude_auth_dir :: "StateLayout \<Rightarrow> path" where
  "claude_auth_dir l = path_join (sl_root l) (u ''shared-auth/claude'')"

definition claude_token_file :: "StateLayout \<Rightarrow> path" where
  "claude_token_file l = path_join (claude_auth_dir l) (u ''oauth-token'')"

definition claude_legacy_credentials_file :: "StateLayout \<Rightarrow> path" where
  "claude_legacy_credentials_file l = path_join (claude_auth_dir l) (u ''.credentials.json'')"

definition claude_legacy_metadata_file :: "StateLayout \<Rightarrow> path" where
  "claude_legacy_metadata_file l = path_join (claude_auth_dir l) (u ''.claude.json'')"

definition claude_legacy_backups :: "StateLayout \<Rightarrow> path" where
  "claude_legacy_backups l = path_join (claude_auth_dir l) (u ''backups'')"

definition claude_quarantine_root :: "StateLayout \<Rightarrow> path" where
  "claude_quarantine_root l = path_join (sl_root l) (u ''quarantine/claude'')"

definition project_dir :: "StateLayout \<Rightarrow> path" where
  "project_dir l = path_join (path_join (sl_root l) (u ''projects'')) (sl_project_id l)"

definition codex_home :: "StateLayout \<Rightarrow> path" where
  "codex_home l = path_join (project_dir l) (u ''codex-home'')"

definition claude_config :: "StateLayout \<Rightarrow> path" where
  "claude_config l = path_join (project_dir l) (u ''claude-config'')"

definition cache :: "StateLayout \<Rightarrow> path" where
  "cache l = path_join (project_dir l) (u ''cache'')"

definition project_file :: "StateLayout \<Rightarrow> path" where
  "project_file l = path_join (project_dir l) (u ''project.json'')"

definition workspace :: "StateLayout \<Rightarrow> path" where
  "workspace l = path_join (path_join (sl_root l) (u ''workspaces'')) (sl_project_id l)"

definition github_broker_root :: "StateLayout \<Rightarrow> path" where
  "github_broker_root l = path_join (sl_root l) (u ''github-broker'')"

definition github_broker_run_root :: "(bytes \<Rightarrow> pystr) \<Rightarrow> StateLayout \<Rightarrow> exn + path" where
  "github_broker_run_root sha l =
     bindE (github_broker_project_label sha (sl_project_id l))
       (\<lambda>p. Inr (path_join (path_join (github_broker_root l) (u ''r'')) p))"

definition github_broker_policy_file :: "StateLayout \<Rightarrow> path" where
  "github_broker_policy_file l = path_join (project_dir l) (u ''github-broker.json'')"

definition handover_broker_root :: "StateLayout \<Rightarrow> path" where
  "handover_broker_root l = path_join (sl_root l) (u ''handover-broker'')"

definition handover_broker_run_root :: "(bytes \<Rightarrow> pystr) \<Rightarrow> StateLayout \<Rightarrow> exn + path" where
  "handover_broker_run_root sha l =
     bindE (handover_broker_project_label sha (sl_project_id l))
       (\<lambda>p. Inr (path_join (path_join (handover_broker_root l) (u ''r'')) p))"

definition handover_broker_audit_file :: "StateLayout \<Rightarrow> path" where
  "handover_broker_audit_file l = path_join (handover_broker_root l) (u ''audit/events.jsonl'')"

definition egress_policy_file :: "StateLayout \<Rightarrow> path" where
  "egress_policy_file l = path_join (project_dir l) (u ''egress.json'')"

definition egress_broker_root :: "StateLayout \<Rightarrow> path" where
  "egress_broker_root l = path_join (sl_root l) (u ''egress-broker'')"

definition egress_broker_run_root :: "(bytes \<Rightarrow> pystr) \<Rightarrow> StateLayout \<Rightarrow> exn + path" where
  "egress_broker_run_root sha l =
     bindE (egress_broker_project_label sha (sl_project_id l))
       (\<lambda>p. Inr (path_join (path_join (egress_broker_root l) (u ''r'')) p))"

definition egress_broker_audit_file :: "StateLayout \<Rightarrow> path" where
  "egress_broker_audit_file l = path_join (egress_broker_root l) (u ''audit/events.jsonl'')"

section \<open>Facts about validated identifiers\<close>

named_theorems class_simps \<open>membership in the character classes of the patterns\<close>

lemmas [class_simps] = is_alnum_def is_digit_def is_lower_def is_upper_def in_range_def is_slug_char_def
  is_lower_hex_def

lemma slug_match_chars: "slug_match s \<Longrightarrow> c \<in> set s \<Longrightarrow> is_slug_char c"
  using class_match_all [of is_alnum is_slug_char 99 s]
  by (auto simp: slug_match_def list_all_iff is_slug_char_def)

lemma slug_match_length: "slug_match s \<Longrightarrow> 0 < length s \<and> length s \<le> 100"
  using class_match_length [of is_alnum is_slug_char 99 s] by (simp add: slug_match_def)

lemma slug_match_hd: "slug_match s \<Longrightarrow> is_alnum (hd s)"
  by (auto simp: slug_match_def class_match_def split: list.splits)

lemma slug_match_ascii: "slug_match s \<Longrightarrow> \<exists>b. ascii_encode s = Inr b"
  using slug_match_chars [of s] by (fastforce simp: ascii_encode_def list_all_iff class_simps)

lemma slug_match_no_slash: "slug_match s \<Longrightarrow> 47 \<notin> set s"
  using slug_match_chars [of s 47] by (auto simp: class_simps)

lemma slug_match_not_dot: "slug_match s \<Longrightarrow> s \<notin> {[], u ''.'', u ''..''}"
  by (auto simp: slug_match_def class_match_def u_def class_simps)

lemma validate_project_id_iff: "validate_project_id v = Inr w \<longleftrightarrow> w = v \<and> slug_match v"
  using slug_match_not_dot [of v] by (auto simp: validate_project_id_def PROJECT_ID_def)

text \<open>A validated identifier is one path component.\<close>

lemma path_of_slug: "slug_match s \<Longrightarrow> path_of s = (False, [s])"
  using slug_match_no_slash [of s] slug_match_not_dot [of s] slug_match_hd [of s] slug_match_length [of s]
  by (cases s) (auto simp: path_of_def split_on_single startswith_def)

lemma path_join_slug: "slug_match s \<Longrightarrow> path_join p s = (fst p, snd p @ [s])"
  by (simp add: path_join_def path_of_slug)

lemma slug_match_u [simp]: "slug_match (u ''projects'')" "slug_match (u ''workspaces'')"
  by (simp_all add: slug_match_def class_match_def u_def class_simps)

lemma parse_Repository_iff:
  "parse_Repository v = Inr r \<longleftrightarrow> v = slug r \<and> slug_match (repo_owner r) \<and> slug_match (repo_name r)"
proof
  assume "parse_Repository v = Inr r"
  then obtain a b where "split_on 47 v = [a, b]" and ab: "slug_match a" "slug_match b"
    and r: "r = \<lparr>repo_owner = a, repo_name = b\<rparr>"
    by (auto simp: parse_Repository_def REPOSITORY_PART_def split: list.split_asm if_split_asm)
  then have "v = a @ 47 # b" using join_split_on [of 47 v] by simp
  with ab r show "v = slug r \<and> slug_match (repo_owner r) \<and> slug_match (repo_name r)" by (simp add: slug_def)
next
  assume a: "v = slug r \<and> slug_match (repo_owner r) \<and> slug_match (repo_name r)"
  then have "split_on 47 v = [repo_owner r, repo_name r]"
    by (simp add: slug_def split_on_append split_on_single slug_match_no_slash)
  with a slug_match_not_dot [of "repo_owner r"] slug_match_not_dot [of "repo_name r"]
  show "parse_Repository v = Inr r" by (simp add: parse_Repository_def REPOSITORY_PART_def)
qed

text \<open>
  The directory that a list of components leads to when no component is a symbolic link: ".." leads to the
  directory above.
\<close>

definition step_into :: "pystr list \<Rightarrow> pystr \<Rightarrow> pystr list" where
  "step_into here p = (if p = u ''..'' then butlast here else here @ [p])"

definition collapse :: "pystr list \<Rightarrow> pystr list" where
  "collapse ps = foldl step_into [] ps"

lemma collapse_plain: "u ''..'' \<notin> set ps \<Longrightarrow> foldl step_into here ps = here @ ps"
  by (induction ps arbitrary: here) (auto simp: step_into_def)

lemma collapse_no_dots: "u ''..'' \<notin> set (collapse ps)"
proof -
  have "u ''..'' \<notin> set here \<Longrightarrow> u ''..'' \<notin> set (foldl step_into here ps)" for here
    by (induction ps arbitrary: here) (auto simp: step_into_def dest: in_set_butlastD)
  then show ?thesis by (simp add: collapse_def)
qed

section \<open>Properties\<close>

text \<open>
  C4. Project isolation: for two projects under one environment, no path below the state directory or the
  workspace of one leads to a place below those of the other, even with the identifiers read as a file
  system does, where ".." climbs; and every such path stays below the state root. An identifier like ".." or
  one with a slash would break this; the validator admits none. The root is what \<open>Path.resolve\<close> returns,
  which has no ".." left.
\<close>

theorem project_isolation:
  assumes "from_environment resolve home p1 env = Inr l1" and "from_environment resolve home p2 env = Inr l2"
    and "\<And>p. u ''..'' \<notin> set (snd (resolve p))"
    and "p1 \<noteq> p2"
    and "D \<in> {project_dir l1, workspace l1}" and "E \<in> {project_dir l2, workspace l2}"
    and "u ''..'' \<notin> set xs" and "u ''..'' \<notin> set ys"
  shows "collapse (snd D @ xs) \<noteq> collapse (snd E @ ys) \<and> fst D = fst (sl_root l1)
    \<and> (\<exists>rest. rest \<noteq> [] \<and> collapse (snd D @ xs) = snd (sl_root l1) @ rest)"
proof -
  from assms(1,2) have p: "slug_match p1" "slug_match p2" "sl_project_id l1 = p1" "sl_project_id l2 = p2"
    and r: "sl_root l2 = sl_root l1" "sl_root l1 \<in> range resolve"
    by (auto simp: from_environment_def Let_def validate_project_id_iff split: if_split_asm option.split_asm)
  have root: "u ''..'' \<notin> set (snd (sl_root l1))" using r(2) assms(3) by (metis rangeE)
  have d: "\<exists>a \<in> {u ''projects'', u ''workspaces''}. snd D = snd (sl_root l1) @ [a, p1] \<and> fst D = fst (sl_root l1)"
    "\<exists>b \<in> {u ''projects'', u ''workspaces''}. snd E = snd (sl_root l1) @ [b, p2]"
    using assms(5,6) p r(1) by (auto simp: project_dir_def workspace_def path_join_slug simp del: u_simps)
  then obtain a b where ab: "snd D = snd (sl_root l1) @ [a, p1]" "fst D = fst (sl_root l1)" "snd E = snd (sl_root l1) @ [b, p2]"
    "a \<in> {u ''projects'', u ''workspaces''}" "b \<in> {u ''projects'', u ''workspaces''}" by blast
  have "u ''..'' \<notin> set (snd D @ xs)" "u ''..'' \<notin> set (snd E @ ys)"
    using ab root assms(7,8) slug_match_not_dot [OF p(1)] slug_match_not_dot [OF p(2)] by (auto simp: u_def)
  then have "collapse (snd D @ xs) = snd (sl_root l1) @ a # p1 # xs" "collapse (snd E @ ys) = snd (sl_root l1) @ b # p2 # ys"
    using ab(1,3) by (simp_all only: collapse_def collapse_plain append_Nil append_assoc append_Cons simp_thms)
  with ab assms(4) show ?thesis by simp
qed

theorem project_isolation_witness:
  "collapse (snd (workspace \<lparr>sl_root = (True, [u ''srv'']), sl_project_id = u ''demo''\<rparr>) @ [u ''src''])
     \<noteq> collapse (snd (workspace \<lparr>sl_root = (True, [u ''srv'']), sl_project_id = u ''prod''\<rparr>) @ [u ''src''])"
proof -
  let ?resolve = "\<lambda>p :: path. (fst p, collapse (snd p))"
  have e: "from_environment ?resolve (True, []) i [''AGENT_CONTAINER_HOME'' \<mapsto> u ''/tmp/../srv'']
      = Inr \<lparr>sl_root = (True, [u ''srv'']), sl_project_id = i\<rparr>" if "i \<in> {u ''demo'', u ''prod''}" for i
    using that
    by (auto simp: from_environment_def path_of_def startswith_def validate_project_id_def PROJECT_ID_def
        slug_match_def class_match_def u_def class_simps collapse_def step_into_def)
  have plain: "u ''..'' \<notin> set (snd (?resolve p))" for p using collapse_no_dots by simp
  have below: "u ''..'' \<notin> set [u ''src'']" "u ''demo'' \<noteq> u ''prod''" by (simp_all add: u_def)
  from project_isolation [where resolve = ?resolve, OF e [of "u ''demo''"] e [of "u ''prod''"] plain below(2)
      _ _ below(1) below(1)]
  show ?thesis by blast
qed

end
