(* ===== verification/Egress_Policy.thy ===== *)
theory Egress_Policy
  imports Host_State
begin

text \<open>
  \<open>src/agent_container/egress_policy.py\<close>: which destinations a project may reach. The
  domain grammar every egress component validates against, and the policy file's reader and
  writer.
\<close>

section \<open>Domains\<close>

definition is_label_char :: "nat \<Rightarrow> bool" where
  "is_label_char c \<longleftrightarrow> is_lower c \<or> is_digit c"

text \<open>\<open>^[a-z0-9](?:[a-z0-9-]{0,61}[a-z0-9])?$\<close>\<close>

definition LABEL :: "pystr \<Rightarrow> bool" where
  "LABEL s \<longleftrightarrow> s \<noteq> [] \<and> length s \<le> 63 \<and> is_label_char (hd s) \<and> is_label_char (last s)
     \<and> list_all (\<lambda>c. is_label_char c \<or> c = 45) s"

definition DENIED_SUFFIXES :: "pystr list" where
  "DENIED_SUFFIXES = [u ''.localhost'', u ''.local'', u ''.internal'', u ''.home'', u ''.arpa'']"

definition MAX_DOMAINS :: nat where
  "MAX_DOMAINS = 128"

text \<open>
  \<open>ipaddress.ip_address\<close> on a text without a colon accepts exactly the dotted quads: four
  parts of one to three digits, at most 255, without leading zeros. (An IPv6 address has
  colons, which no label contains.)
\<close>

definition is_octet :: "pystr \<Rightarrow> bool" where
  "is_octet p \<longleftrightarrow> p \<noteq> [] \<and> length p \<le> 3 \<and> list_all is_digit p \<and> undec p \<le> 255
     \<and> \<not> (hd p = 48 \<and> 1 < length p)"

definition is_ipv4_literal :: "pystr \<Rightarrow> bool" where
  "is_ipv4_literal s \<longleftrightarrow> length (split_on 46 s) = 4 \<and> list_all is_octet (split_on 46 s)"

definition domain_error :: exn where
  "domain_error = ValueError ''egress domain is invalid''"

definition validate_domain_str :: "pystr \<Rightarrow> exn + pystr" where
  "validate_domain_str v =
     (if \<not> list_all (\<lambda>c. c < 128) v then Inl domain_error
      else if \<not> (1 \<le> length v \<and> length v \<le> 253) then Inl domain_error
      else if list_ex is_upper v \<or> endswith v (u ''.'') then Inl domain_error
      else
        let labels = split_on 46 v in
        if length labels < 2 \<or> list_ex (\<lambda>l. \<not> LABEL l) labels
          \<or> list_ex (\<lambda>l. startswith l (u ''xn--'')) labels
        then Inl domain_error
        else if v = u ''localhost'' \<or> list_ex (endswith v) DENIED_SUFFIXES then Inl domain_error
        else if is_ipv4_literal (removesuffix (u '']'') (removeprefix (u ''['') v)) then Inl domain_error
        else Inr v)"

definition validate_domain :: "json \<Rightarrow> exn + pystr" where
  "validate_domain v = (case v of JStr s \<Rightarrow> validate_domain_str s | _ \<Rightarrow> Inl domain_error)"

section \<open>The policy file\<close>

record EgressPolicy =
  ep_version :: int
  ep_mode :: pystr
  additional_domains :: "pystr list"

definition policy_error :: exn where
  "policy_error = ValueError ''egress policy is invalid''"

definition policy_object_without_duplicates :: pairs_hook where
  "policy_object_without_duplicates = build_object (ValueError ''egress policy JSON is invalid'') []"

definition policy_constant :: "string \<Rightarrow> exn + json" where
  "policy_constant w = Inl (ValueError ''egress policy JSON is invalid'')"

definition decode_policy :: "nat \<Rightarrow> bytes \<Rightarrow> exn + EgressPolicy" where
  "decode_policy lim body =
     bindE (reraise_if (\<lambda>e. e = TypeError \<or> is_value_error e) policy_error
       (bindE (utf8_decode body) (json_loads lim policy_object_without_duplicates policy_constant)))
     (\<lambda>payload. case payload of
        JObj kvs \<Rightarrow>
          (if set (map fst kvs) \<noteq> {u ''version'', u ''mode'', u ''additional_domains''}
           then Inl policy_error
           else
             (case (map_of kvs (u ''version''), map_of kvs (u ''mode''), map_of kvs (u ''additional_domains'')) of
                (Some version, Some mode, Some domains) \<Rightarrow>
                  (case domains of
                     JList ds \<Rightarrow>
                       (if (\<exists>b. version = JBool b) \<or> \<not> py_is_one version
                          \<or> mode \<noteq> JStr (u ''allowlist'') \<or> MAX_DOMAINS < length ds
                        then Inl policy_error
                        else
                          bindE (mapE validate_domain ds) (\<lambda>validated.
                            if sort (remdups validated) \<noteq> validated then Inl policy_error
                            else Inr \<lparr>ep_version = 1, ep_mode = u ''allowlist'',
                                      additional_domains = validated\<rparr>))
                   | _ \<Rightarrow> Inl policy_error)
              | _ \<Rightarrow> Inl KeyError))
      | _ \<Rightarrow> Inl policy_error)"

text \<open>\<open>json.dumps(..., ensure_ascii=True, indent=2)\<close>, then a newline.\<close>

definition policy_dump_opts :: dump_opts where
  "policy_dump_opts = \<lparr>d_ascii = True, d_sort = False, d_item = u '','', d_key = u '': '', d_indent = Some 2\<rparr>"

definition policy_payload :: "EgressPolicy \<Rightarrow> json" where
  "policy_payload p = JObj [(u ''version'', JInt (ep_version p)), (u ''mode'', JStr (ep_mode p)),
     (u ''additional_domains'', JList (map JStr (additional_domains p)))]"

definition encode_policy :: "EgressPolicy \<Rightarrow> exn + bytes" where
  "encode_policy p =
     bindE (json_dumps policy_dump_opts (policy_payload p)) (\<lambda>t. ascii_encode (t @ [10]))"

section \<open>Facts\<close>

lemma validate_domain_str_Inr:
  "validate_domain_str v = Inr w \<longleftrightarrow> w = v \<and> list_all (\<lambda>c. c < 128) v \<and> 1 \<le> length v \<and> length v \<le> 253
     \<and> \<not> list_ex is_upper v \<and> \<not> endswith v (u ''.'') \<and> 2 \<le> length (split_on 46 v)
     \<and> list_all LABEL (split_on 46 v) \<and> \<not> list_ex (\<lambda>l. startswith l (u ''xn--'')) (split_on 46 v)
     \<and> v \<noteq> u ''localhost'' \<and> \<not> list_ex (endswith v) DENIED_SUFFIXES
     \<and> \<not> is_ipv4_literal (removesuffix (u '']'') (removeprefix (u ''['') v))"
  by (auto simp: validate_domain_str_def Let_def not_less not_le list_ex_iff list_all_iff Suc_le_eq)

lemma validate_domain_Inr: "validate_domain v = Inr w \<longleftrightarrow> v = JStr w \<and> validate_domain_str w = Inr w"
  by (cases v) (auto simp: validate_domain_def validate_domain_str_Inr)

lemma set_split_on: "set v \<subseteq> insert x (\<Union> (set ` set (split_on x v)))"
proof (induction v)
  case (Cons y v)
  then show ?case by (cases "split_on x v") auto
qed simp

text \<open>The characters of an accepted domain: nothing that could end a header line or a field.\<close>

lemma domain_chars:
  assumes "validate_domain_str v = Inr w" and "c \<in> set v"
  shows "is_label_char c \<or> c = 45 \<or> c = 46"
proof -
  from assms(1) have "\<forall>l \<in> set (split_on 46 v). LABEL l"
    by (auto simp: validate_domain_str_Inr list_all_iff)
  with assms(2) set_split_on [of v 46] show ?thesis
    by (auto simp: LABEL_def list_all_iff)
qed

lemma domain_clean: "validate_domain_str v = Inr w \<Longrightarrow> clean_str v"
  using domain_chars [of v w]
  by (fastforce simp: clean_str_def list_all_iff is_label_char_def class_simps is_surrogate_def)

definition valid_policy :: "EgressPolicy \<Rightarrow> bool" where
  "valid_policy p \<longleftrightarrow> ep_version p = 1 \<and> ep_mode p = u ''allowlist''
     \<and> length (additional_domains p) \<le> MAX_DOMAINS
     \<and> list_all (\<lambda>d. validate_domain_str d = Inr d) (additional_domains p)
     \<and> sorted (additional_domains p) \<and> distinct (additional_domains p)"

lemma sort_remdups_eq: "sort (remdups v) = v \<longleftrightarrow> sorted v \<and> distinct v"
  by (metis distinct_remdups distinct_remdups_id distinct_sort sort_key_id_if_sorted sorted_sort sorted_sort_id)

lemma plain_policy: "valid_policy p \<Longrightarrow> plain (policy_payload p)"
  by (auto simp: valid_policy_def policy_payload_def list_all_iff dest: domain_clean)

lemma depth_policy: "depth (policy_payload p) \<le> 2"
proof -
  have "foldr max (map depth (map JStr ds)) 0 = 0" for ds by (induction ds) auto
  then show ?thesis by (simp add: policy_payload_def)
qed


lemma mapE_validate: "mapE validate_domain (map JStr ds) = Inr ds'
    \<longleftrightarrow> ds' = ds \<and> list_all (\<lambda>d. validate_domain_str d = Inr d) ds"
proof (induction ds arbitrary: ds')
  case (Cons d ds)
  then show ?case by (auto simp: err_simps validate_domain_Inr)
qed auto

lemma policy_opts_ok: "opts_ok policy_dump_opts"
  by (simp add: opts_ok_def policy_dump_opts_def u_def is_ws_def)

text \<open>What the reader accepts, from the decoded JSON on.\<close>

lemma decode_policy_valid: "decode_policy lim body = Inr p \<Longrightarrow> valid_policy p"
proof -
  assume "decode_policy lim body = Inr p"
  then obtain ds v where v: "mapE validate_domain ds = Inr v" "length ds \<le> MAX_DOMAINS"
    "sort (remdups v) = v" "p = \<lparr>ep_version = 1, ep_mode = u ''allowlist'', additional_domains = v\<rparr>"
    by (auto simp: decode_policy_def not_less split: json.split_asm option.split_asm if_split_asm)
  have l: "list_all2 (\<lambda>x y. validate_domain x = Inr y) ds v"
    using v(1) by (simp add: mapE_Inr_iff)
  then have "length v = length ds" by (simp add: list_all2_lengthD)
  moreover have "list_all (\<lambda>d. validate_domain_str d = Inr d) v"
    using l by (induction rule: list_all2_induct) (simp_all add: validate_domain_Inr)
  ultimately have "length v = length ds" "list_all (\<lambda>d. validate_domain_str d = Inr d) v" .
  with v show ?thesis by (simp add: valid_policy_def sort_remdups_eq)
qed

lemma policy_payload_decoded:
  assumes "valid_policy p" and "json_loads lim policy_object_without_duplicates policy_constant t
    = Inr (policy_payload p)" and "utf8_decode b = Inr t"
  shows "decode_policy lim b = Inr p"
proof -
  have "p = \<lparr>ep_version = 1, ep_mode = u ''allowlist'', additional_domains = additional_domains p\<rparr>"
    using assms(1) by (cases p) (simp add: valid_policy_def)
  moreover have "sort (remdups (additional_domains p)) = additional_domains p"
    using assms(1) by (simp add: valid_policy_def sort_remdups_eq)
  moreover have "mapE validate_domain (map JStr (additional_domains p)) = Inr (additional_domains p)"
    using assms(1) by (simp add: mapE_validate valid_policy_def)
  ultimately show ?thesis
    using assms by (auto simp: decode_policy_def policy_payload_def valid_policy_def u_def)
qed

lemma ascii_utf8: "ascii_encode s = Inr b \<Longrightarrow> utf8_encode s = Inr b"
proof (induction s arbitrary: b)
  case (Cons c s)
  then show ?case by (auto simp: ascii_encode_def utf8_char_def split: if_split_asm)
qed (simp add: ascii_encode_def)

section \<open>Properties\<close>

text \<open>
  The policy file round trip: every policy within the grammar (version 1, mode allowlist,
  at most 128 valid domains, strictly increasing) that \<open>_encode_policy\<close> can write is read
  back unchanged by \<open>_decode_policy\<close>.
\<close>

lemma policy_roundtrip:
  assumes "valid_policy p" and "2 \<le> lim" and "encode_policy p = Inr b"
  shows "decode_policy lim b = Inr p"
proof -
  from assms(3) obtain t where t: "json_dumps policy_dump_opts (policy_payload p) = Inr t"
    and b: "ascii_encode (t @ [10]) = Inr b"
    by (auto simp: encode_policy_def)
  have n: "normal_json policy_dump_opts (policy_payload p) = policy_payload p"
    by (simp add: normal_json_def policy_dump_opts_def)
  have "json_loads lim policy_object_without_duplicates policy_constant (t @ [10]) = Inr (policy_payload p)"
    using loads_dumps [of policy_dump_opts policy_object_without_duplicates "policy_payload p" lim "[10]"
        policy_constant] t n policy_opts_ok plain_policy [OF assms(1)] depth_policy [of p] assms(2)
    by (simp add: policy_object_without_duplicates_def is_ws_def)
  moreover have "utf8_decode b = Inr (t @ [10])"
    using ascii_utf8 [OF b] b by (intro utf8_round) (auto simp: ascii_encode_def valid_str_def list_all_iff split: if_split_asm)
  ultimately show ?thesis by (rule policy_payload_decoded [OF assms(1)])
qed

end
