(* ===== verification/Egress_Protocol.thy ===== *)
theory Egress_Protocol
  imports Frame_Protocol Egress_Policy
begin

text \<open>
  \<open>src/agent_container/egress_broker_protocol.py\<close>: the request an adapter sends for a
  tunnel and the broker's answer, over the shared framing.
\<close>

section \<open>Schemas\<close>

definition PROTOCOL_VERSION :: int where
  "PROTOCOL_VERSION = 1"

definition MAX_METADATA_BYTES :: nat where
  "MAX_METADATA_BYTES = 16384"

definition MAX_SEQUENCE :: int where
  "MAX_SEQUENCE = 2 ^ 63 - 1"

definition REQUEST_FIELDS :: "pystr set" where
  "REQUEST_FIELDS = {u ''version'', u ''capability'', u ''project_id'', u ''sequence'', u ''operation'',
     u ''domain'', u ''port''}"

definition RESPONSE_FIELDS :: "pystr set" where
  "RESPONSE_FIELDS = {u ''version'', u ''status'', u ''code''}"

definition RESPONSE_STATUSES :: "pystr set" where
  "RESPONSE_STATUSES = {u ''ok'', u ''denied'', u ''error''}"

definition RESPONSE_CODES :: "pystr set" where
  "RESPONSE_CODES = {u ''authentication'', u ''policy'', u ''resolve'', u ''connect'', u ''limit'',
     u ''relay'', u ''unavailable''}"

definition REQUEST_SCHEMA :: frame_schema where
  "REQUEST_SCHEMA = \<lparr>fs_label = ''egress request'', stream_label = ''egress metadata stream'',
     fs_fields = REQUEST_FIELDS, max_bytes = MAX_METADATA_BYTES,
     fs_json = \<lparr>ensure_ascii = True, allow_nan = False, sort_keys = True,
                separators = Some (u '','', u '':''), encoding = Ascii\<rparr>,
     frame_label = Some ''egress metadata''\<rparr>"

definition RESPONSE_SCHEMA :: frame_schema where
  "RESPONSE_SCHEMA = \<lparr>fs_label = ''egress response'', stream_label = ''egress metadata stream'',
     fs_fields = RESPONSE_FIELDS, max_bytes = MAX_METADATA_BYTES,
     fs_json = \<lparr>ensure_ascii = True, allow_nan = True, sort_keys = True,
                separators = Some (u '','', u '':''), encoding = Ascii\<rparr>,
     frame_label = Some ''egress metadata''\<rparr>"

section \<open>Requests\<close>

record EgressRequest =
  rq_version :: int
  rq_capability :: pystr
  rq_project_id :: pystr
  rq_sequence :: int
  rq_operation :: pystr
  rq_domain :: pystr
  rq_port :: int

definition request_values :: "EgressRequest \<Rightarrow> (pystr \<times> json) list" where
  "request_values r =
     [(u ''version'', JInt (rq_version r)), (u ''capability'', JStr (rq_capability r)),
      (u ''project_id'', JStr (rq_project_id r)), (u ''sequence'', JInt (rq_sequence r)),
      (u ''operation'', JStr (rq_operation r)), (u ''domain'', JStr (rq_domain r)),
      (u ''port'', JInt (rq_port r))]"

definition request_error :: exn where
  "request_error = ValueError ''egress request schema is invalid''"

text \<open>
  \<open>_validate_request\<close> on the values of the fields, which a decoder has not typed yet. It
  returns the typed request.
\<close>

definition validate_request ::
  "json \<Rightarrow> json \<Rightarrow> json \<Rightarrow> json \<Rightarrow> json \<Rightarrow> json \<Rightarrow> json \<Rightarrow> exn + EgressRequest" where
  "validate_request version capability project_id sequence operation domain port =
     bindE (as_int request_error version) (\<lambda>v.
     bindE (require (v = PROTOCOL_VERSION) request_error) (\<lambda>_.
     bindE (as_str request_error capability) (\<lambda>c.
     bindE (require (c \<noteq> []) request_error) (\<lambda>_.
     bindE (as_str request_error project_id) (\<lambda>p.
     bindE (require (p \<noteq> []) request_error) (\<lambda>_.
     bindE (as_int request_error sequence) (\<lambda>q.
     bindE (require (1 \<le> q \<and> q \<le> MAX_SEQUENCE) request_error) (\<lambda>_.
     bindE (require (operation = JStr (u ''connect'')) request_error) (\<lambda>_.
     bindE (validate_domain domain) (\<lambda>d.
     bindE (as_int request_error port) (\<lambda>n.
     bindE (require (n = 443) request_error) (\<lambda>_.
     Inr \<lparr>rq_version = v, rq_capability = c, rq_project_id = p, rq_sequence = q,
          rq_operation = u ''connect'', rq_domain = d, rq_port = n\<rparr>))))))))))))"

definition request_from_values :: "(pystr \<rightharpoonup> json) \<Rightarrow> exn + EgressRequest" where
  "request_from_values d =
     bindE (kwarg_of d ''version'') (\<lambda>version.
     bindE (kwarg_of d ''capability'') (\<lambda>capability.
     bindE (kwarg_of d ''project_id'') (\<lambda>project_id.
     bindE (kwarg_of d ''sequence'') (\<lambda>sequence.
     bindE (kwarg_of d ''operation'') (\<lambda>operation.
     bindE (kwarg_of d ''domain'') (\<lambda>domain.
     bindE (kwarg_of d ''port'') (\<lambda>port.
     validate_request version capability project_id sequence operation domain port)))))))"

definition encode_request_frame :: "EgressRequest \<Rightarrow> exn + bytes" where
  "encode_request_frame r =
     bindE (validate_request (JInt (rq_version r)) (JStr (rq_capability r)) (JStr (rq_project_id r))
       (JInt (rq_sequence r)) (JStr (rq_operation r)) (JStr (rq_domain r)) (JInt (rq_port r)))
     (\<lambda>_. encode_frame REQUEST_SCHEMA (request_values r))"

definition decode_request_frame :: "nat \<Rightarrow> bytes \<Rightarrow> exn + EgressRequest \<times> nat" where
  "decode_request_frame lim data = decode_message lim REQUEST_SCHEMA None request_from_values data"

definition read_request_frame :: "nat \<Rightarrow> 's reader \<Rightarrow> 's \<Rightarrow> (exn + EgressRequest) \<times> 's" where
  "read_request_frame lim rd s = read_message lim REQUEST_SCHEMA request_from_values rd s"

section \<open>Responses\<close>

record EgressResponse =
  rs_version :: int
  rs_status :: pystr
  rs_code :: pystr

definition response_values :: "EgressResponse \<Rightarrow> (pystr \<times> json) list" where
  "response_values r =
     [(u ''version'', JInt (rs_version r)), (u ''status'', JStr (rs_status r)), (u ''code'', JStr (rs_code r))]"

definition response_error :: exn where
  "response_error = ValueError ''egress response schema is invalid''"

definition validate_response :: "json \<Rightarrow> json \<Rightarrow> json \<Rightarrow> exn + EgressResponse" where
  "validate_response version status code =
     bindE (as_int response_error version) (\<lambda>v.
     bindE (require (v = PROTOCOL_VERSION) response_error) (\<lambda>_.
     bindE (as_str response_error status) (\<lambda>s.
     bindE (require (s \<in> RESPONSE_STATUSES) response_error) (\<lambda>_.
     bindE (as_str response_error code) (\<lambda>c.
     bindE (require (c \<in> RESPONSE_CODES) response_error) (\<lambda>_.
     Inr \<lparr>rs_version = v, rs_status = s, rs_code = c\<rparr>))))))"

definition response_from_values :: "(pystr \<rightharpoonup> json) \<Rightarrow> exn + EgressResponse" where
  "response_from_values d =
     bindE (kwarg_of d ''version'') (\<lambda>version.
     bindE (kwarg_of d ''status'') (\<lambda>status.
     bindE (kwarg_of d ''code'') (\<lambda>code.
     validate_response version status code)))"

definition encode_response_frame :: "EgressResponse \<Rightarrow> exn + bytes" where
  "encode_response_frame r =
     bindE (validate_response (JInt (rs_version r)) (JStr (rs_status r)) (JStr (rs_code r)))
     (\<lambda>_. encode_frame RESPONSE_SCHEMA (response_values r))"

definition decode_response_frame :: "nat \<Rightarrow> bytes \<Rightarrow> exn + EgressResponse \<times> nat" where
  "decode_response_frame lim data = decode_message lim RESPONSE_SCHEMA None response_from_values data"

definition read_response_frame :: "nat \<Rightarrow> 's reader \<Rightarrow> 's \<Rightarrow> (exn + EgressResponse) \<times> 's" where
  "read_response_frame lim rd s = read_message lim RESPONSE_SCHEMA response_from_values rd s"

section \<open>The protocol contract\<close>

definition valid_request :: "EgressRequest \<Rightarrow> bool" where
  "valid_request r \<longleftrightarrow> rq_version r = 1 \<and> rq_capability r \<noteq> [] \<and> rq_project_id r \<noteq> []
     \<and> 1 \<le> rq_sequence r \<and> rq_sequence r \<le> MAX_SEQUENCE \<and> rq_operation r = u ''connect''
     \<and> validate_domain_str (rq_domain r) = Inr (rq_domain r) \<and> rq_port r = 443"

definition valid_response :: "EgressResponse \<Rightarrow> bool" where
  "valid_response r \<longleftrightarrow> rs_version r = 1 \<and> rs_status r \<in> RESPONSE_STATUSES \<and> rs_code r \<in> RESPONSE_CODES"

lemma validate_request_Inr:
  "validate_request a b c d e f g = Inr r \<longleftrightarrow> valid_request r \<and>
     [a, b, c, d, e, f, g] = map snd (request_values r)"
  by (cases r) (auto simp: validate_request_def err_simps valid_request_def request_values_def
      PROTOCOL_VERSION_def validate_domain_Inr)

lemma validate_response_Inr:
  "validate_response a b c = Inr r \<longleftrightarrow> valid_response r \<and> [a, b, c] = map snd (response_values r)"
  by (cases r) (auto simp: validate_response_def err_simps valid_response_def response_values_def
      PROTOCOL_VERSION_def)

lemma request_from_values_Inr:
  "request_from_values d = Inr r \<longleftrightarrow> valid_request r \<and> (\<forall>(k, v) \<in> set (request_values r). d k = Some v)"
  by (auto simp: request_from_values_def err_simps validate_request_Inr request_values_def)

lemma response_from_values_Inr:
  "response_from_values d = Inr r \<longleftrightarrow> valid_response r \<and> (\<forall>(k, v) \<in> set (response_values r). d k = Some v)"
  by (auto simp: response_from_values_def err_simps validate_response_Inr response_values_def)

lemma encode_request_frame_Inr:
  "encode_request_frame r = Inr b \<longleftrightarrow> valid_request r \<and> encode_frame REQUEST_SCHEMA (request_values r) = Inr b"
  unfolding encode_request_frame_def
  by (rule bindE_guard_iff) (auto simp: validate_request_Inr request_values_def)

lemma encode_response_frame_Inr:
  "encode_response_frame r = Inr b \<longleftrightarrow> valid_response r \<and> encode_frame RESPONSE_SCHEMA (response_values r) = Inr b"
  unfolding encode_response_frame_def
  by (rule bindE_guard_iff) (auto simp: validate_response_Inr response_values_def)

text \<open>What can be sent: a valid message whose text fields are free of surrogates.\<close>

definition sendable_request :: "nat \<Rightarrow> EgressRequest \<Rightarrow> bool" where
  "sendable_request lim r \<longleftrightarrow> 1 \<le> lim \<and> valid_request r \<and> clean_str (rq_capability r)
     \<and> clean_str (rq_project_id r)"

definition sendable_response :: "nat \<Rightarrow> EgressResponse \<Rightarrow> bool" where
  "sendable_response lim r \<longleftrightarrow> 1 \<le> lim \<and> valid_response r"

lemma small_sequence: "1 \<le> q \<Longrightarrow> q \<le> MAX_SEQUENCE \<Longrightarrow> small_int q"
  by (rule small_int_64) (simp add: MAX_SEQUENCE_def)

lemma small_443: "small_int 443"
  by (rule small_int_64) simp

interpretation egress_request: flat_protocol lim REQUEST_SCHEMA None request_values request_from_values
  "sendable_request lim" for lim
proof
  show "schema_ok REQUEST_SCHEMA"
    by (simp add: REQUEST_SCHEMA_def schema_ok_def opts_ok_def dump_opts_of_def u_def)
next
  fix r assume "sendable_request lim r"
  then have v: "valid_request r" "clean_str (rq_capability r)" "clean_str (rq_project_id r)" "1 \<le> lim"
    by (auto simp: sendable_request_def)
  show "1 \<le> lim" by (rule v)
  show "set (map fst (request_values r)) = fs_fields REQUEST_SCHEMA"
    by (auto simp: request_values_def REQUEST_SCHEMA_def REQUEST_FIELDS_def)
  show "distinct (map fst (request_values r))" by (simp add: request_values_def)
  show "list_all (\<lambda>(k, v). clean_str k \<and> scalar v \<and> plain v) (request_values r)"
    using v small_sequence small_443
    by (auto simp: request_values_def valid_request_def dest: domain_clean)
  show "request_from_values (map_of (request_values r)) = Inr r"
    using v(1) by (simp add: request_from_values_Inr) (simp add: request_values_def)
qed simp

interpretation egress_response: flat_protocol lim RESPONSE_SCHEMA None response_values response_from_values
  "sendable_response lim" for lim
proof
  show "schema_ok RESPONSE_SCHEMA"
    by (simp add: RESPONSE_SCHEMA_def schema_ok_def opts_ok_def dump_opts_of_def u_def)
next
  fix r assume "sendable_response lim r"
  then have v: "valid_response r" "1 \<le> lim" by (auto simp: sendable_response_def)
  show "1 \<le> lim" by (rule v)
  show "set (map fst (response_values r)) = fs_fields RESPONSE_SCHEMA"
    by (auto simp: response_values_def RESPONSE_SCHEMA_def RESPONSE_FIELDS_def)
  show "distinct (map fst (response_values r))" by (simp add: response_values_def)
  show "list_all (\<lambda>(k, v). clean_str k \<and> scalar v \<and> plain v) (response_values r)"
    using v by (auto simp: response_values_def valid_response_def RESPONSE_STATUSES_def RESPONSE_CODES_def)
  show "response_from_values (map_of (response_values r)) = Inr r"
    using v(1) by (simp add: response_from_values_Inr) (simp add: response_values_def)
qed simp

interpretation egress_request_sock: protocol_stream lim REQUEST_SCHEMA request_values request_from_values
  "sendable_request lim" sock_read sock_buf for lim
  by unfold_locales

interpretation egress_response_sock: protocol_stream lim RESPONSE_SCHEMA response_values response_from_values
  "sendable_response lim" sock_read sock_buf for lim
  by unfold_locales

section \<open>A concrete request\<close>

definition demo_request :: EgressRequest where
  "demo_request = \<lparr>rq_version = 1, rq_capability = u ''c'', rq_project_id = u ''p'', rq_sequence = 7,
     rq_operation = u ''connect'', rq_domain = u ''a.io'', rq_port = 443\<rparr>"

definition demo_request_frame :: bytes where
  "demo_request_frame = [CHR 0x00, CHR 0x00, CHR 0x00, CHR 0x6D]
     @ ''{\"capability\":\"c\",\"domain\":\"a.io\",\"operation\":\"connect\",\"port\":443,\"project_id\":\"p\",\"sequence\":7,\"version\":1}''"

lemma demo_request_valid: "valid_request demo_request"
  by (simp add: demo_request_def valid_request_def MAX_SEQUENCE_def validate_domain_str_def Let_def u_def
      endswith_def LABEL_def is_label_char_def startswith_def DENIED_SUFFIXES_def is_ipv4_literal_def
      removesuffix_def removeprefix_def class_simps)

lemma small_int_eval: "small_int 1" "small_int 7" "small_int 443"
  by (simp_all add: small_int_64)

lemma demo_request_encoded: "encode_request_frame demo_request = Inr demo_request_frame"
proof -
  have "encode_frame REQUEST_SCHEMA (request_values demo_request) = Inr demo_request_frame"
    by (simp add: encode_frame_def demo_request_def request_values_def demo_request_frame_def
        REQUEST_SCHEMA_def MAX_METADATA_BYTES_def dump_opts_of_def json_eval char_of_def bit_0 int_repr_def
        small_int_eval dec_digits.simps digit_def)
  with demo_request_valid show ?thesis by (simp add: encode_request_frame_Inr)
qed

section \<open>Properties\<close>

text \<open>
  Only well-formed requests are decoded: a request the broker decodes from any bytes has
  version 1, a non-empty capability and project, a sequence between 1 and 2^63 - 1, the
  operation connect, a domain of the policy's grammar and port 443; it consumes its header and
  body and nothing else, and bytes that follow it do not change it.
\<close>

lemma decoded_request_valid:
  assumes "decode_request_frame lim data = Inr (r, n)"
  shows "valid_request r \<and> n \<le> length data \<and> 4 < n \<and> n \<le> 4 + MAX_METADATA_BYTES
    \<and> decode_request_frame lim (take n data @ other) = Inr (r, n)"
proof -
  obtain d where d: "decode_frame lim REQUEST_SCHEMA None data = Inr (d, n)"
    and r: "request_from_values (map_of d) = Inr r"
    using assms by (auto simp: decode_request_frame_def decode_message_def)
  have b: "n \<le> length data" "4 < n" "n \<le> 4 + MAX_METADATA_BYTES"
    using decode_frame_bounds(1-3) [OF d] by (simp_all add: HEADER_BYTES_def REQUEST_SCHEMA_def)
  have "decode_frame lim REQUEST_SCHEMA None (take n data @ other) = Inr (d, n)"
    using b by (intro decode_frame_prefix [OF d]) simp_all
  moreover have "valid_request r" using r by (simp add: request_from_values_Inr)
  ultimately show ?thesis using b r by (simp add: decode_request_frame_def decode_message_def)
qed

text \<open>
  The adapter and the broker agree: a request the adapter can encode is what the broker
  reads from the socket, however its bytes are delivered, and the following bytes (the tunnel's)
  stay unread; no other request has an encoding that starts the same stream.
\<close>

lemma egress_request_delivery:
  assumes "encode_request_frame r = Inr b" and "1 \<le> lim"
    and "clean_str (rq_capability r)" and "clean_str (rq_project_id r)"
  shows "(\<exists>cuts'. read_request_frame lim sock_read \<lparr>sock_buf = b @ rest, sock_cuts = cuts\<rparr>
      = (Inr r, \<lparr>sock_buf = rest, sock_cuts = cuts'\<rparr>))
    \<and> (\<forall>r' b' rest'. encode_request_frame r' = Inr b' \<and> clean_str (rq_capability r')
        \<and> clean_str (rq_project_id r') \<and> b @ rest = b' @ rest' \<longrightarrow> r' = r)"
proof -
  have s: "sendable_request lim r" and e: "encode_frame REQUEST_SCHEMA (request_values r) = Inr b"
    using assms by (simp_all add: sendable_request_def encode_request_frame_Inr)
  obtain t where t: "read_message lim REQUEST_SCHEMA request_from_values sock_read
      \<lparr>sock_buf = b @ rest, sock_cuts = cuts\<rparr> = (Inr r, t)" "sock_buf t = rest"
    using egress_request_sock.read_encoded [OF s e, of "\<lparr>sock_buf = b @ rest, sock_cuts = cuts\<rparr>" rest] by auto
  have "r' = r" if "encode_request_frame r' = Inr b'" "clean_str (rq_capability r')"
    "clean_str (rq_project_id r')" "b @ rest = b' @ rest'" for r' b' rest'
    using egress_request.unambiguous [OF s e, of r' b' rest rest'] that assms(2)
    by (simp add: sendable_request_def encode_request_frame_Inr)
  with t show ?thesis by (cases t) (auto simp: read_request_frame_def)
qed


end
