(* ===== verification/Replay_Guard.thy ===== *)
theory Replay_Guard
  imports Host_State
begin

text \<open>
  The contract of a broker session that numbers its requests: every sequence number is
  consumed at most once, whatever a client submits and in whatever order. The egress session
  keeps a sliding bit window, the GitHub session a set; both interpret the locale
  \<open>replay_guard\<close>, whose ghost argument is the set of all numbers consumed so far.

  Also here is what their \<open>authorize\<close> methods share: \<open>secrets.compare_digest\<close>, which
  raises \<open>TypeError\<close> on a string with a character above 127.
\<close>

definition compare_digest :: "pystr \<Rightarrow> pystr \<Rightarrow> exn + bool" where
  "compare_digest a b =
     (if list_all (\<lambda>c. c < 128) a \<and> list_all (\<lambda>c. c < 128) b then Inr (a = b) else Inl TypeError)"

lemma compare_digest_True [err_simps]:
  "compare_digest a b = Inr True \<longleftrightarrow> a = b \<and> list_all (\<lambda>c. c < 128) a"
  by (auto simp: compare_digest_def)

lemma compare_digest_cases:
  obtains "compare_digest a b = Inl TypeError" | "compare_digest a b = Inr (a = b)"
  by (cases "list_all (\<lambda>c. c < 128) a \<and> list_all (\<lambda>c. c < 128) b") (auto simp: compare_digest_def)

text \<open>Submitting requests one after another: the numbers consumed, in order.\<close>

fun consumed_by :: "('q \<Rightarrow> 's \<Rightarrow> bool \<times> 's) \<Rightarrow> ('q \<Rightarrow> int) \<Rightarrow> 'q list \<Rightarrow> 's \<Rightarrow> int list" where
  "consumed_by submit number [] s = []"
| "consumed_by submit number (q # qs) s =
     (case submit q s of
        (True, t) \<Rightarrow> number q # consumed_by submit number qs t
      | (False, t) \<Rightarrow> consumed_by submit number qs t)"

locale replay_guard =
  fixes submit :: "'q \<Rightarrow> 's \<Rightarrow> bool \<times> 's"
    and number :: "'q \<Rightarrow> int"
    and history :: "'s \<Rightarrow> int set \<Rightarrow> bool"
  assumes refused: "history s H \<Longrightarrow> submit q s = (False, t) \<Longrightarrow> history t H"
    and consumed: "history s H \<Longrightarrow> submit q s = (True, t) \<Longrightarrow>
      number q \<notin> H \<and> history t (insert (number q) H)"
begin

lemma consumed_by_fresh:
  "history s H \<Longrightarrow> distinct (consumed_by submit number qs s)
     \<and> set (consumed_by submit number qs s) \<inter> H = {}"
proof (induction qs arbitrary: s H)
  case (Cons q qs)
  obtain b t where t: "submit q s = (b, t)" by (cases "submit q s")
  show ?case
  proof (cases b)
    case True
    with t consumed [OF Cons.prems] have "number q \<notin> H" "history t (insert (number q) H)" by auto
    with Cons.IH [of t "insert (number q) H"] t True show ?thesis by auto
  next
    case False
    with t refused [OF Cons.prems] have "history t H" by auto
    with Cons.IH [of t H] t False show ?thesis by auto
  qed
qed simp

lemma no_replay: "history s {} \<Longrightarrow> distinct (consumed_by submit number qs s)"
  using consumed_by_fresh [of s "{}"] by simp

end

end
