(* ===== verification/Egress_Session.thy ===== *)
theory Egress_Session
  imports Egress_Protocol Replay_Guard
begin

text \<open>
  \<open>src/agent_container/egress_broker.py\<close>: the session that authorises tunnel requests. Its
  lock makes \<open>authorize\<close> and \<open>deactivate\<close> atomic, so concurrent clients are an arbitrary
  sequence of these steps. \<open>create\<close> needs the file system and is not here; \<open>audit\<close> builds
  the record and hands it to the log, a state-passing parameter, like the listener and the
  artifacts \<open>close\<close> releases. \<open>now\<close> is the UTC timestamp and \<open>run_label\<close> the hash of the run id.
\<close>

section \<open>State\<close>

record EgressBrokerSession =
  es_project_id :: pystr
  es_agent :: pystr
  owner_uid :: int
  es_run_id :: pystr
  allowed_domains :: "pystr set"
  es_capability :: pystr
  highest_sequence :: int
  seen_sequences :: int
  es_listener :: bool
  es_closed :: bool
  es_cleanup_complete :: bool

definition SEQUENCE_WINDOW :: nat where
  "SEQUENCE_WINDOW = 4096"

definition SEQUENCE_MASK :: int where
  "SEQUENCE_MASK = push_bit SEQUENCE_WINDOW 1 - 1"

definition MANAGED_EGRESS_DOMAINS :: "pystr \<Rightarrow> pystr set" where
  "MANAGED_EGRESS_DOMAINS agent = {}"

text \<open>The part of \<open>create\<close> that decides: agent, policy and the domains they allow.\<close>

definition session_domains :: "pystr \<Rightarrow> EgressPolicy \<Rightarrow> exn + pystr set" where
  "session_domains agent policy =
     bindE (validate_agent agent False) (\<lambda>selected.
       if ep_version policy \<noteq> 1 \<or> ep_mode policy \<noteq> u ''allowlist''
       then Inl (ValueError ''egress policy is invalid'')
       else Inr (set (additional_domains policy) \<union> MANAGED_EGRESS_DOMAINS selected))"

definition new_session ::
  "pystr \<Rightarrow> pystr \<Rightarrow> int \<Rightarrow> pystr \<Rightarrow> pystr set \<Rightarrow> pystr \<Rightarrow> EgressBrokerSession" where
  "new_session project agent uid run_id allowed capability =
     \<lparr>es_project_id = project, es_agent = agent, owner_uid = uid, es_run_id = run_id,
      allowed_domains = allowed, es_capability = capability, highest_sequence = 0,
      seen_sequences = 0, es_listener = False, es_closed = False, es_cleanup_complete = False\<rparr>"

section \<open>Authorisation\<close>

text \<open>The window step; \<open>None\<close> refuses the number.\<close>

definition consume_sequence :: "int \<Rightarrow> int \<Rightarrow> int \<Rightarrow> (int \<times> int) option" where
  "consume_sequence sequence highest seen =
     (if highest < sequence then
        let advance = sequence - highest in
        Some (sequence,
          (if int SEQUENCE_WINDOW \<le> advance then 1
           else (push_bit (nat advance) seen OR 1) AND SEQUENCE_MASK))
      else
        let age = highest - sequence in
        if int SEQUENCE_WINDOW \<le> age then None
        else if seen AND push_bit (nat age) 1 \<noteq> 0 then None
        else Some (highest, seen OR push_bit (nat age) 1))"

definition authorize ::
  "EgressRequest \<Rightarrow> int \<Rightarrow> EgressBrokerSession \<Rightarrow> (exn + pystr) \<times> EgressBrokerSession" where
  "authorize request peer_uid s =
     (if es_closed s then (Inl (ValueError ''egress broker session is closed''), s)
      else if peer_uid \<noteq> owner_uid s
      then (Inl (ValueError ''egress broker request is not authorized''), s)
      else if rq_version request \<noteq> PROTOCOL_VERSION
      then (Inl (ValueError ''egress broker protocol version is not supported''), s)
      else
        (case compare_digest (rq_capability request) (es_capability s) of
           Inl e \<Rightarrow> (Inl e, s)
         | Inr False \<Rightarrow> (Inl (ValueError ''egress broker request is not authorized''), s)
         | Inr True \<Rightarrow>
             if rq_project_id request \<noteq> es_project_id s
             then (Inl (ValueError ''egress broker request project is not allowed''), s)
             else if \<not> (1 \<le> rq_sequence request \<and> rq_sequence request \<le> MAX_SEQUENCE)
             then (Inl (ValueError ''egress broker request sequence is invalid''), s)
             else
               (case consume_sequence (rq_sequence request) (highest_sequence s) (seen_sequences s) of
                  None \<Rightarrow> (Inl (ValueError ''egress broker request sequence is invalid''), s)
                | Some (highest, seen) \<Rightarrow>
                    let s' = s\<lparr>highest_sequence := highest, seen_sequences := seen\<rparr> in
                    if rq_operation request \<noteq> u ''connect'' \<or> rq_port request \<noteq> 443
                    then (Inl (EgressAuthorizationError ''policy''), s')
                    else if rq_domain request \<notin> allowed_domains s
                    then (Inl (EgressAuthorizationError ''policy''), s')
                    else (Inr (rq_domain request), s'))))"

definition deactivate :: "EgressBrokerSession \<Rightarrow> EgressBrokerSession" where
  "deactivate s = s\<lparr>es_closed := True, es_capability := []\<rparr>"

section \<open>Listener, audit and cleanup\<close>

text \<open>
  \<open>bind\<close> binds the socket, \<open>track\<close> records it with the artifacts, \<open>shut\<close> closes a
  listener, \<open>remove\<close> removes the artifacts and says whether something was left behind.
\<close>

definition open_listener ::
  "('w \<Rightarrow> (exn + unit) \<times> 'w) \<Rightarrow> ('w \<Rightarrow> (exn + unit) \<times> 'w) \<Rightarrow> ('w \<Rightarrow> (exn + unit) \<times> 'w)
     \<Rightarrow> EgressBrokerSession \<times> 'w \<Rightarrow> (exn + unit) \<times> EgressBrokerSession \<times> 'w" where
  "open_listener bind track shut sw =
     (case sw of (s, w) \<Rightarrow>
        if es_closed s \<or> es_listener s
        then (Inl (ValueError ''egress broker listener state is invalid''), s, w)
        else
          (case bind w of
             (Inl e, w1) \<Rightarrow> (Inl e, s, w1)
           | (Inr _, w1) \<Rightarrow>
               (case track w1 of
                  (Inl e, w2) \<Rightarrow>
                    (case shut w2 of (Inl e', w3) \<Rightarrow> (Inl e', s, w3) | (Inr _, w3) \<Rightarrow> (Inl e, s, w3))
                | (Inr _, w2) \<Rightarrow> (Inr (), s\<lparr>es_listener := True\<rparr>, w2))))"

definition AUDIT_STATUSES :: "pystr set" where
  "AUDIT_STATUSES = {u ''ok'', u ''denied'', u ''error''}"

definition AUDIT_STAGES :: "pystr set" where
  "AUDIT_STAGES = {u ''authentication'', u ''policy'', u ''resolve'', u ''connect'', u ''limit'',
     u ''relay'', u ''unavailable''}"

definition MAX_TUNNEL_BYTES :: int where
  "MAX_TUNNEL_BYTES = push_bit 31 1"

definition count_ok :: "int option \<Rightarrow> bool" where
  "count_ok c = (case c of None \<Rightarrow> True | Some n \<Rightarrow> 0 \<le> n \<and> n \<le> MAX_TUNNEL_BYTES)"

definition optional_field :: "string \<Rightarrow> ('a \<Rightarrow> json) \<Rightarrow> 'a option \<Rightarrow> (pystr \<times> json) list" where
  "optional_field k f v = (case v of None \<Rightarrow> [] | Some x \<Rightarrow> [(u k, f x)])"

definition audit_record ::
  "pystr \<Rightarrow> pystr \<Rightarrow> EgressBrokerSession \<Rightarrow> pystr \<Rightarrow> pystr option \<Rightarrow> int option \<Rightarrow> int option
     \<Rightarrow> exn + (pystr \<times> json) list" where
  "audit_record now run_label s status stage from_client from_upstream =
     (if es_closed s then Inl (ValueError ''egress broker session is closed'')
      else if status \<notin> AUDIT_STATUSES then Inl (ValueError ''egress broker audit status is invalid'')
      else if (if status = u ''ok'' then stage \<noteq> None
               else case stage of None \<Rightarrow> True | Some g \<Rightarrow> g \<notin> AUDIT_STAGES)
      then Inl (ValueError ''egress broker audit stage is invalid'')
      else if \<not> count_ok from_client \<or> \<not> count_ok from_upstream
      then Inl (ValueError ''egress broker audit byte count is invalid'')
      else Inr ([(u ''timestamp'', JStr now), (u ''run'', JStr run_label), (u ''project'', JStr (es_project_id s)),
          (u ''agent'', JStr (es_agent s)), (u ''operation'', JStr (u ''connect'')), (u ''status'', JStr status)]
        @ optional_field ''stage'' JStr stage
        @ optional_field ''bytes_from_client'' JInt from_client
        @ optional_field ''bytes_from_upstream'' JInt from_upstream))"

definition audit ::
  "((pystr \<times> json) list \<Rightarrow> 'w \<Rightarrow> (exn + unit) \<times> 'w) \<Rightarrow> pystr \<Rightarrow> pystr \<Rightarrow> EgressBrokerSession
     \<Rightarrow> pystr \<Rightarrow> pystr option \<Rightarrow> int option \<Rightarrow> int option \<Rightarrow> 'w \<Rightarrow> (exn + unit) \<times> 'w" where
  "audit log_append now run_label s status stage from_client from_upstream w =
     bindS (audit_record now run_label s status stage from_client from_upstream, w) (\<lambda>record w'. log_append record w')"

definition close ::
  "('w \<Rightarrow> (exn + unit) \<times> 'w) \<Rightarrow> ('w \<Rightarrow> bool \<times> 'w) \<Rightarrow> EgressBrokerSession \<times> 'w
     \<Rightarrow> (exn + unit) \<times> EgressBrokerSession \<times> 'w" where
  "close shut remove sw =
     (case sw of (s, w) \<Rightarrow>
        if es_cleanup_complete s then (Inr (), s, w)
        else
          let s1 = deactivate s in
          (case (if es_listener s1 then shut w else (Inr (), w)) of
             (Inl e, w1) \<Rightarrow>
               if is_os_error e
               then (case remove w1 of
                       (_, w2) \<Rightarrow> (Inl (ValueError ''egress broker cleanup failed''), s1, w2))
               else (Inl e, s1, w1)
           | (Inr _, w1) \<Rightarrow>
               let s2 = s1\<lparr>es_listener := False\<rparr> in
               (case remove w1 of
                  (True, w2) \<Rightarrow> (Inl (ValueError ''egress broker cleanup failed''), s2, w2)
                | (False, w2) \<Rightarrow> (Inr (), s2\<lparr>es_cleanup_complete := True\<rparr>, w2))))"

section \<open>The window holds exactly the recent history\<close>

text \<open>
  The abstract session remembers every number it consumed. The window refines it: the highest
  number, and for each of the 4096 most recent numbers whether it was consumed.
\<close>

definition window_of :: "int \<Rightarrow> int \<Rightarrow> int set \<Rightarrow> bool" where
  "window_of highest seen H \<longleftrightarrow> 0 \<le> highest \<and> H \<subseteq> {1..highest}
     \<and> (\<forall>i. bit seen i \<longleftrightarrow> i < SEQUENCE_WINDOW \<and> highest - int i \<in> H)"

definition fresh_number :: "int \<Rightarrow> int \<Rightarrow> int set \<Rightarrow> bool" where
  "fresh_number q highest H \<longleftrightarrow> q \<notin> H \<and> highest - q < int SEQUENCE_WINDOW"

lemma sequence_mask: "SEQUENCE_MASK = mask SEQUENCE_WINDOW"
  by (simp add: SEQUENCE_MASK_def mask_eq_exp_minus_1 push_bit_eq_mult)

lemma window_empty: "window_of 0 0 {}"
  by (simp add: window_of_def)

lemma window_pos [simp]: "0 < SEQUENCE_WINDOW"
  by (simp add: SEQUENCE_WINDOW_def)

lemma consume_sequence_fresh:
  assumes "window_of highest seen H" and "1 \<le> q"
  shows "consume_sequence q highest seen = None \<longleftrightarrow> \<not> fresh_number q highest H"
proof (cases "highest < q")
  case True
  then have "q \<notin> H" using assms(1) by (auto simp: window_of_def)
  with True show ?thesis by (simp add: consume_sequence_def Let_def fresh_number_def)
next
  case False
  have "seen AND push_bit (nat (highest - q)) 1 \<noteq> 0 \<longleftrightarrow> bit seen (nat (highest - q))"
    by (simp add: bit_iff_and_push_bit_not_eq_0)
  also have "\<dots> \<longleftrightarrow> highest - q < int SEQUENCE_WINDOW \<and> q \<in> H"
    using assms(1) False by (auto simp: window_of_def)
  finally show ?thesis using False by (auto simp: consume_sequence_def Let_def fresh_number_def)
qed

lemma consume_sequence_window:
  assumes w: "window_of highest seen H" and "1 \<le> q"
    and c: "consume_sequence q highest seen = Some (highest', seen')"
  shows "window_of highest' seen' (insert q H) \<and> highest' = max highest q"
proof (cases "highest < q")
  case True
  define a where "a = nat (q - highest)"
  have a: "0 < a" "q = highest + int a" using True by (simp_all add: a_def)
  have H: "h \<le> highest" if "h \<in> H" for h using w that by (auto simp: window_of_def)
  have old: "highest + int a - int i \<in> H \<longleftrightarrow> a \<le> i \<and> highest - int (i - a) \<in> H" for i
    using H [of "highest + int a - int i"] by (cases "a \<le> i") (auto simp: of_nat_diff algebra_simps)
  have s: "seen' = (if SEQUENCE_WINDOW \<le> a then 1 else (push_bit a seen OR 1) AND mask SEQUENCE_WINDOW)"
    and h: "highest' = q"
    using c True by (auto simp: consume_sequence_def Let_def a_def sequence_mask nat_le_iff le_nat_iff)
  have "bit seen' i \<longleftrightarrow> i < SEQUENCE_WINDOW \<and> q - int i \<in> insert q H" for i
  proof (cases "SEQUENCE_WINDOW \<le> a")
    case True
    then show ?thesis using s a old [of i] by (auto simp: bit_1_iff)
  next
    case False
    then have "bit seen' i \<longleftrightarrow> i < SEQUENCE_WINDOW \<and> (i = 0 \<or> a \<le> i \<and> bit seen (i - a))"
      using s by (auto simp: bit_simps)
    then show ?thesis using w a old [of i] by (auto simp: window_of_def)
  qed
  then show ?thesis using w h True assms(2) by (auto simp: window_of_def)
next
  case False
  have s: "highest' = highest" "seen' = seen OR push_bit (nat (highest - q)) 1"
    "highest - q < int SEQUENCE_WINDOW"
    using c False by (auto simp: consume_sequence_def Let_def split: if_split_asm)
  have "bit seen' i \<longleftrightarrow> bit seen i \<or> i = nat (highest - q)" for i
    by (auto simp: s bit_simps)
  then show ?thesis using w False s assms(2) by (auto simp: window_of_def)
qed

section \<open>What authorize decides\<close>

definition authentic :: "EgressRequest \<Rightarrow> int \<Rightarrow> EgressBrokerSession \<Rightarrow> bool" where
  "authentic q uid s \<longleftrightarrow> \<not> es_closed s \<and> uid = owner_uid s \<and> rq_version q = 1
     \<and> compare_digest (rq_capability q) (es_capability s) = Inr True
     \<and> rq_project_id q = es_project_id s \<and> 1 \<le> rq_sequence q \<and> rq_sequence q \<le> MAX_SEQUENCE"

definition permitted :: "EgressRequest \<Rightarrow> EgressBrokerSession \<Rightarrow> bool" where
  "permitted q s \<longleftrightarrow> rq_operation q = u ''connect'' \<and> rq_port q = 443 \<and> rq_domain q \<in> allowed_domains s"

definition history :: "EgressBrokerSession \<Rightarrow> int set \<Rightarrow> bool" where
  "history s H \<longleftrightarrow> window_of (highest_sequence s) (seen_sequences s) H"

text \<open>A reply after which the number is used up: a grant or a policy denial.\<close>

definition consumes :: "exn + pystr \<Rightarrow> bool" where
  "consumes r \<longleftrightarrow> (case r of Inr _ \<Rightarrow> True | Inl e \<Rightarrow> e = EgressAuthorizationError ''policy'')"

lemma authorize_refused:
  assumes "\<not> (authentic q uid s
    \<and> consume_sequence (rq_sequence q) (highest_sequence s) (seen_sequences s) \<noteq> None)"
  shows "\<exists>e. authorize q uid s = (Inl e, s) \<and> e \<noteq> EgressAuthorizationError ''policy''"
  using assms
  by (cases rule: compare_digest_cases [of "rq_capability q" "es_capability s"];
      cases "consume_sequence (rq_sequence q) (highest_sequence s) (seen_sequences s)")
     (auto simp: authorize_def authentic_def PROTOCOL_VERSION_def split: bool.splits)

lemma authorize_consumed:
  assumes "authentic q uid s"
    and "consume_sequence (rq_sequence q) (highest_sequence s) (seen_sequences s) = Some (h, w)"
  shows "authorize q uid s =
    (if permitted q s then Inr (rq_domain q) else Inl (EgressAuthorizationError ''policy''),
     s\<lparr>highest_sequence := h, seen_sequences := w\<rparr>)"
  using assms by (auto simp: authorize_def authentic_def permitted_def PROTOCOL_VERSION_def Let_def)

text \<open>The abstract step: the same decision against the whole history.\<close>

lemma authorize_refines:
  assumes h: "history s H" and a: "authorize q uid s = (r, t)"
  shows "consumes r \<longleftrightarrow> authentic q uid s \<and> fresh_number (rq_sequence q) (highest_sequence s) H"
    and "history t (if consumes r then insert (rq_sequence q) H else H)"
    and "\<not> consumes r \<Longrightarrow> t = s"
    and "r = Inr d \<longleftrightarrow> consumes r \<and> permitted q s \<and> d = rq_domain q"
    and "t = s\<lparr>highest_sequence := highest_sequence t, seen_sequences := seen_sequences t\<rparr>"
proof -
  let ?c = "consume_sequence (rq_sequence q) (highest_sequence s) (seen_sequences s)"
  have "(consumes r \<longleftrightarrow> authentic q uid s \<and> fresh_number (rq_sequence q) (highest_sequence s) H)
    \<and> history t (if consumes r then insert (rq_sequence q) H else H) \<and> (\<not> consumes r \<longrightarrow> t = s)
    \<and> (r = Inr d \<longleftrightarrow> consumes r \<and> permitted q s \<and> d = rq_domain q)
    \<and> t = s\<lparr>highest_sequence := highest_sequence t, seen_sequences := seen_sequences t\<rparr>"
  proof (cases "authentic q uid s \<and> ?c \<noteq> None")
    case True
    then obtain hs w where c: "?c = Some (hs, w)" and q: "1 \<le> rq_sequence q" by (auto simp: authentic_def)
    have f: "fresh_number (rq_sequence q) (highest_sequence s) H"
      using consume_sequence_fresh [OF h [unfolded history_def] q] c by simp
    have "window_of hs w (insert (rq_sequence q) H)"
      using consume_sequence_window [OF h [unfolded history_def] q c] by blast
    with True f authorize_consumed [of q uid s, OF _ c] a show ?thesis
      by (auto simp: consumes_def history_def)
  next
    case False
    from authorize_refused [OF this] a obtain e where r: "r = Inl e" "e \<noteq> EgressAuthorizationError ''policy''" "t = s"
      by auto
    have "\<not> (authentic q uid s \<and> fresh_number (rq_sequence q) (highest_sequence s) H)"
      using False consume_sequence_fresh [OF h [unfolded history_def], of "rq_sequence q"]
      by (auto simp: authentic_def)
    with r h show ?thesis by (auto simp: consumes_def)
  qed
  then show "consumes r \<longleftrightarrow> authentic q uid s \<and> fresh_number (rq_sequence q) (highest_sequence s) H"
    and "history t (if consumes r then insert (rq_sequence q) H else H)"
    and "\<not> consumes r \<Longrightarrow> t = s"
    and "r = Inr d \<longleftrightarrow> consumes r \<and> permitted q s \<and> d = rq_domain q"
    and "t = s\<lparr>highest_sequence := highest_sequence t, seen_sequences := seen_sequences t\<rparr>" by blast+
qed

definition submit :: "EgressRequest \<times> int \<Rightarrow> EgressBrokerSession \<Rightarrow> bool \<times> EgressBrokerSession" where
  "submit q s = (case authorize (fst q) (snd q) s of (r, t) \<Rightarrow> (consumes r, t))"

interpretation egress_guard: replay_guard submit "\<lambda>q. rq_sequence (fst q)" history
proof
  fix s t :: EgressBrokerSession and q :: "EgressRequest \<times> int" and H
  assume h: "history s H" and "submit q s = (False, t)"
  then obtain r where "authorize (fst q) (snd q) s = (r, t)" "\<not> consumes r"
    by (auto simp: submit_def split: prod.split_asm)
  with authorize_refines(2) [OF h this(1)] show "history t H" by simp
next
  fix s t :: EgressBrokerSession and q :: "EgressRequest \<times> int" and H
  assume h: "history s H" and "submit q s = (True, t)"
  then obtain r where "authorize (fst q) (snd q) s = (r, t)" "consumes r"
    by (auto simp: submit_def split: prod.split_asm)
  with authorize_refines(1,2) [OF h this(1)]
  show "rq_sequence (fst q) \<notin> H \<and> history t (insert (rq_sequence (fst q)) H)"
    by (auto simp: fresh_number_def)
qed

section \<open>Sessions in use\<close>

text \<open>
  What other threads and the runtime can do to a session, one atomic step after another; the
  outcomes of the socket and artifact calls are arbitrary.
\<close>

datatype session_event =
    Authorized EgressRequest int "exn + pystr"
  | Deactivated
  | Opened "exn + unit"
  | Closed "exn + unit"

inductive session_step :: "EgressBrokerSession \<Rightarrow> session_event \<Rightarrow> EgressBrokerSession \<Rightarrow> bool" where
  step_authorize: "authorize q uid s = (r, t) \<Longrightarrow> session_step s (Authorized q uid r) t"
| step_deactivate: "session_step s Deactivated (deactivate s)"
| step_open: "open_listener bind track shut (s, ()) = (r, t, ()) \<Longrightarrow> session_step s (Opened r) t"
| step_close: "close shut remove (s, ()) = (r, t, ()) \<Longrightarrow> session_step s (Closed r) t"

inductive_cases authorizedE: "session_step s (Authorized q uid r) t"
inductive_cases closedE: "session_step s (Closed r) t"

inductive session_trace :: "EgressBrokerSession \<Rightarrow> session_event list \<Rightarrow> EgressBrokerSession \<Rightarrow> bool" where
  trace_Nil: "session_trace s [] s"
| trace_Cons: "session_step s e t \<Longrightarrow> session_trace t es z \<Longrightarrow> session_trace s (e # es) z"

inductive_simps session_trace_Nil [simp]: "session_trace s [] t"
inductive_simps session_trace_Cons: "session_trace s (e # es) t"

definition session_ok :: "EgressBrokerSession \<Rightarrow> bool" where
  "session_ok s \<longleftrightarrow> (es_closed s \<longrightarrow> es_capability s = [])
     \<and> (es_cleanup_complete s \<longrightarrow> es_closed s \<and> \<not> es_listener s)"

lemma authorize_static:
  "authorize q uid s = (r, t) \<Longrightarrow> \<exists>h w. t = s\<lparr>highest_sequence := h, seen_sequences := w\<rparr>"
proof -
  assume a: "authorize q uid s = (r, t)"
  show ?thesis
  proof (cases "authentic q uid s
      \<and> consume_sequence (rq_sequence q) (highest_sequence s) (seen_sequences s) \<noteq> None")
    case True
    then obtain h w where "consume_sequence (rq_sequence q) (highest_sequence s) (seen_sequences s) = Some (h, w)"
      by auto
    with True a have "t = s\<lparr>highest_sequence := h, seen_sequences := w\<rparr>"
      by (simp add: authorize_consumed)
    then show ?thesis by blast
  next
    case False
    from authorize_refused [OF this] a have "t = s" by auto
    then show ?thesis by (intro exI [of _ "highest_sequence s"] exI [of _ "seen_sequences s"]) simp
  qed
qed

lemma open_listener_state:
  "open_listener bind track shut (s, w) = (r, t, w') \<Longrightarrow> t = s \<or> t = s\<lparr>es_listener := True\<rparr> \<and> \<not> es_closed s"
  by (auto simp: open_listener_def split: prod.split_asm sum.split_asm if_split_asm)

lemma close_state:
  assumes "close shut remove (s, w) = (r, t, w')"
  shows "t = s \<and> es_cleanup_complete s \<or>
    (\<exists>l c. t = (deactivate s)\<lparr>es_listener := l, es_cleanup_complete := c\<rparr> \<and> (c \<longrightarrow> \<not> l))"
proof (cases "es_cleanup_complete s")
  case False
  have e: "deactivate s = (deactivate s)\<lparr>es_listener := es_listener s, es_cleanup_complete := False\<rparr>"
    "(deactivate s)\<lparr>es_listener := False\<rparr> = (deactivate s)\<lparr>es_listener := False, es_cleanup_complete := False\<rparr>"
    using False by (simp_all add: deactivate_def)
  from assms False have "t = deactivate s \<or> t = (deactivate s)\<lparr>es_listener := False\<rparr>
      \<or> t = (deactivate s)\<lparr>es_listener := False, es_cleanup_complete := True\<rparr>"
    by (auto simp: close_def Let_def split: prod.split_asm sum.split_asm if_split_asm bool.split_asm)
  then show ?thesis using e by metis
qed (use assms in \<open>auto simp: close_def\<close>)

lemma step_invariant:
  "session_step s e t \<Longrightarrow> session_ok s \<Longrightarrow>
     session_ok t \<and> (es_closed s \<longrightarrow> es_closed t) \<and> owner_uid t = owner_uid s
     \<and> allowed_domains t = allowed_domains s \<and> es_project_id t = es_project_id s
     \<and> (\<not> es_closed t \<longrightarrow> es_capability t = es_capability s)"
proof (induction rule: session_step.induct)
  case (step_authorize q uid s r t)
  from authorize_static [OF step_authorize.hyps] obtain h w
    where "t = s\<lparr>highest_sequence := h, seen_sequences := w\<rparr>" by blast
  with step_authorize.prems show ?case by (simp add: session_ok_def)
next
  case (step_open bind track shut s r t)
  from open_listener_state [OF step_open.hyps] step_open.prems show ?case by (auto simp: session_ok_def)
next
  case (step_close shut remove s r t)
  from close_state [OF step_close.hyps] step_close.prems show ?case by (auto simp: session_ok_def deactivate_def)
qed (simp add: session_ok_def deactivate_def)

lemma trace_invariant:
  "session_trace s es t \<Longrightarrow> session_ok s \<Longrightarrow>
     session_ok t \<and> (es_closed s \<longrightarrow> es_closed t) \<and> owner_uid t = owner_uid s
     \<and> allowed_domains t = allowed_domains s \<and> es_project_id t = es_project_id s
     \<and> (\<not> es_closed t \<longrightarrow> es_capability t = es_capability s)"
proof (induction rule: session_trace.induct)
  case (trace_Cons s e t es z)
  from step_invariant [OF trace_Cons.hyps(1) trace_Cons.prems] trace_Cons.IH show ?case by auto
qed simp

text \<open>A grant says everything about the request, and the session was open.\<close>

lemma authorize_grant:
  assumes "authorize q uid s = (Inr d, t)"
  shows "authentic q uid s \<and> permitted q s \<and> d = rq_domain q"
proof (cases "authentic q uid s
    \<and> consume_sequence (rq_sequence q) (highest_sequence s) (seen_sequences s) \<noteq> None")
  case True
  with assms show ?thesis by (auto simp: authorize_consumed split: if_split_asm)
next
  case False
  from authorize_refused [OF this] assms show ?thesis by auto
qed

lemma trace_append: "session_trace s (xs @ ys) z \<longleftrightarrow> (\<exists>t. session_trace s xs t \<and> session_trace t ys z)"
  by (induction xs arbitrary: s) (auto simp: session_trace_Cons)

lemma new_session_ok: "session_ok (new_session p a uid r ds c)"
  by (simp add: new_session_def session_ok_def)

lemma history_new: "history (new_session p a uid r ds c) {}"
  by (simp add: history_def new_session_def window_empty)

section \<open>Properties\<close>

text \<open>
  C1. The sliding window is an exact replay guard: in a session whose window represents the set
  \<open>H\<close> of numbers consumed so far, \<open>authorize\<close> consumes a number exactly when the request is
  authentic, the number is not in \<open>H\<close> and fewer than 4096 numbers behind the highest; the new
  window represents \<open>H\<close> with the number added; a request that consumes nothing changes
  nothing; and a domain is granted exactly when a consuming request is also permitted.
\<close>

theorem authorize_refinement:
  assumes "history s H" and "authorize q uid s = (r, t)"
  shows "(consumes r \<longleftrightarrow> authentic q uid s \<and> rq_sequence q \<notin> H
      \<and> highest_sequence s - rq_sequence q < 4096)
    \<and> history t (if consumes r then insert (rq_sequence q) H else H)
    \<and> (consumes r \<or> t = s)
    \<and> (r = Inr d \<longleftrightarrow> consumes r \<and> permitted q s \<and> d = rq_domain q)"
  using authorize_refines(1-4) [OF assms] by (auto simp: fresh_number_def SEQUENCE_WINDOW_def)

definition demo_session :: EgressBrokerSession where
  "demo_session = new_session (u ''p'') (u ''codex'') 1000 (u ''r1'') {u ''a.io''} (u ''c'')"

lemma demo_authentic: "authentic demo_request 1000 demo_session" "permitted demo_request demo_session"
  by (simp_all add: authentic_def permitted_def demo_request_def demo_session_def new_session_def
      compare_digest_def MAX_SEQUENCE_def u_def)

lemma demo_sequence: "rq_sequence demo_request = 7" "rq_domain demo_request = u ''a.io''"
  "highest_sequence demo_session = 0"
  by (simp_all add: demo_request_def demo_session_def new_session_def)

theorem authorize_refinement_witness:
  "\<exists>t. authorize demo_request 1000 demo_session = (Inr (u ''a.io''), t) \<and> history t {7}"
proof -
  obtain r t where a: "authorize demo_request 1000 demo_session = (r, t)" by fastforce
  have "history demo_session {}" by (simp add: demo_session_def history_new)
  from authorize_refinement [OF this a, of "u ''a.io''"] demo_authentic
  have "consumes r \<and> history t (if consumes r then {rq_sequence demo_request} else {}) \<and> r = Inr (u ''a.io'')"
    by (auto simp: demo_sequence)
  then have "r = Inr (u ''a.io'')" "history t {7}" by (auto simp: demo_sequence split: if_splits)
  with a show ?thesis by simp
qed

text \<open>
  No request is replayed: whatever a client submits to a new session, in whatever order
  the broker's threads take it, no sequence number is consumed twice.
\<close>

lemma no_sequence_replayed:
  "distinct (consumed_by submit (\<lambda>q. rq_sequence (fst q)) qs (new_session p a uid run ds c))"
  by (rule egress_guard.no_replay [OF history_new])

text \<open>
  C2. Every grant is authorised: in every interleaving of authorisations, deactivations,
  listener openings and closings from a new session, a granted request came from the session's
  owner, carried its capability and its project, named a domain of its allow list on port 443,
  and preceded every deactivation and every close.
\<close>

theorem grants_authorised:
  assumes "session_trace (new_session p a uid run ds c) (before @ Authorized q who (Inr d) # after) t"
  shows "who = uid \<and> rq_capability q = c \<and> rq_project_id q = p \<and> rq_domain q = d \<and> d \<in> ds
    \<and> rq_port q = 443 \<and> Deactivated \<notin> set before \<and> (\<forall>r. Closed r \<notin> set before)"
proof -
  let ?n = "new_session p a uid run ds c"
  obtain s s' where b: "session_trace ?n before s" and g: "authorize q who s = (Inr d, s')"
    using assms by (auto simp: trace_append session_trace_Cons elim: authorizedE)
  note inv = trace_invariant [OF b new_session_ok]
  have open_s: "\<not> es_closed s" and grant: "authentic q who s" "permitted q s" "d = rq_domain q"
    using authorize_grant [OF g] by (auto simp: authentic_def)
  have shut: "e \<in> set before \<Longrightarrow> e = Deactivated \<or> e = Closed r \<Longrightarrow> es_closed s" for e r
  proof -
    assume "e \<in> set before" and e: "e = Deactivated \<or> e = Closed r"
    then obtain xs ys where "before = xs @ e # ys" by (meson split_list)
    with b obtain s1 s2 where t: "session_trace ?n xs s1" "session_step s1 e s2" "session_trace s2 ys s"
      by (auto simp: trace_append session_trace_Cons)
    have ok: "session_ok s1" using trace_invariant [OF t(1) new_session_ok] by simp
    have "es_closed s2"
      using t(2) e ok
      by (cases rule: session_step.cases) (auto simp: deactivate_def session_ok_def dest!: close_state)
    with trace_invariant [OF t(3)] step_invariant [OF t(2) ok] show ?thesis by simp
  qed
  show ?thesis
    using grant inv open_s shut
    by (auto simp: authentic_def permitted_def new_session_def compare_digest_True)
qed

theorem grants_authorised_witness:
  "\<exists>t. session_trace (new_session (u ''p'') (u ''codex'') 1000 (u ''r1'') {u ''a.io''} (u ''c''))
      ([] @ Authorized demo_request 1000 (Inr (u ''a.io'')) # [Deactivated]) t
    \<and> (1000 :: int) = 1000 \<and> u ''a.io'' \<in> {u ''a.io''}"
proof -
  let ?c = "consume_sequence 7 0 0"
  have "?c \<noteq> None"
    using consume_sequence_fresh [OF window_empty, of 7] by (simp add: fresh_number_def SEQUENCE_WINDOW_def)
  then obtain h w where "?c = Some (h, w)" by auto
  then have "\<exists>s'. authorize demo_request 1000 demo_session = (Inr (u ''a.io''), s')"
    using authorize_consumed [OF demo_authentic(1), of h w] demo_authentic(2)
    by (simp add: demo_sequence demo_session_def new_session_def)
  then obtain s' where a: "authorize demo_request 1000 demo_session = (Inr (u ''a.io''), s')" by auto
  have "session_trace demo_session [Authorized demo_request 1000 (Inr (u ''a.io'')), Deactivated] (deactivate s')"
    using step_authorize [OF a] step_deactivate by (auto simp: session_trace_Cons)
  then have t: "session_trace (new_session (u ''p'') (u ''codex'') 1000 (u ''r1'') {u ''a.io''} (u ''c''))
      ([] @ Authorized demo_request 1000 (Inr (u ''a.io'')) # [Deactivated]) (deactivate s')"
    by (simp add: demo_session_def)
  with grants_authorised [OF t] show ?thesis by blast
qed

end
