(* ===== verification/Egress_Gateway.thy ===== *)
theory Egress_Gateway
  imports Egress_Policy
begin

text \<open>
  \<open>src/agent_container/egress_gateway.py\<close>: which resolved addresses a tunnel may reach, and
  the relay between the client and the upstream connection.

  \<open>ipaddress\<close> is modelled on numbers, with the tables of Python 3.13 and later; the resolver
  and the sockets are parameters. A \<open>sockaddr\<close> is the list of its components.
\<close>

section \<open>IP addresses\<close>

datatype ip_address = IPv4 nat | IPv6 nat

definition in_net :: "nat \<Rightarrow> nat \<Rightarrow> nat \<Rightarrow> nat \<Rightarrow> bool" where
  "in_net width network prefix a \<longleftrightarrow> a div 2 ^ (width - prefix) = network div 2 ^ (width - prefix)"

definition quad :: "nat \<Rightarrow> nat \<Rightarrow> nat \<Rightarrow> nat \<Rightarrow> nat" where
  "quad a b c d = ((a * 256 + b) * 256 + c) * 256 + d"

definition hextets :: "nat list \<Rightarrow> nat" where
  "hextets hs = foldl (\<lambda>a h. a * 65536 + h) 0 (hs @ replicate (8 - length hs) 0)"

definition private4 :: "(nat \<times> nat) list" where
  "private4 = [(quad 0 0 0 0, 8), (quad 10 0 0 0, 8), (quad 127 0 0 0, 8), (quad 169 254 0 0, 16),
     (quad 172 16 0 0, 12), (quad 192 0 0 0, 24), (quad 192 0 2 0, 24), (quad 192 168 0 0, 16),
     (quad 198 18 0 0, 15), (quad 198 51 100 0, 24), (quad 203 0 113 0, 24), (quad 240 0 0 0, 4),
     (quad 255 255 255 255, 32)]"

definition private4_exceptions :: "(nat \<times> nat) list" where
  "private4_exceptions = [(quad 192 0 0 9, 32), (quad 192 0 0 10, 32)]"

definition private6 :: "(nat \<times> nat) list" where
  "private6 = [(1, 128), (0, 128), (65535 * 2 ^ 32, 96), (hextets [0x64, 0xff9b, 1], 48),
     (hextets [0x100], 64), (hextets [0x2001], 23), (hextets [0x2001, 0xdb8], 32), (hextets [0x2002], 16),
     (hextets [0x3fff], 20), (hextets [0xfc00], 7), (hextets [0xfe80], 10)]"

definition private6_exceptions :: "(nat \<times> nat) list" where
  "private6_exceptions = [(hextets [0x2001, 1, 0, 0, 0, 0, 0, 1], 128), (hextets [0x2001, 1, 0, 0, 0, 0, 0, 2], 128),
     (hextets [0x2001, 3], 32), (hextets [0x2001, 4, 0x112], 48), (hextets [0x2001, 0x20], 28),
     (hextets [0x2001, 0x30], 28)]"

definition reserved6 :: "(nat \<times> nat) list" where
  "reserved6 = [(0, 8), (hextets [0x100], 8), (hextets [0x200], 7), (hextets [0x400], 6), (hextets [0x800], 5),
     (hextets [0x1000], 4), (hextets [0x4000], 3), (hextets [0x6000], 3), (hextets [0x8000], 3),
     (hextets [0xa000], 3), (hextets [0xc000], 3), (hextets [0xe000], 4), (hextets [0xf000], 5),
     (hextets [0xf800], 6), (hextets [0xfe00], 9)]"

definition in_nets :: "nat \<Rightarrow> (nat \<times> nat) list \<Rightarrow> nat \<Rightarrow> bool" where
  "in_nets width nets a = list_ex (\<lambda>(n, p). in_net width n p a) nets"

definition ipv4_mapped :: "nat \<Rightarrow> nat option" where
  "ipv4_mapped a = (if a div 2 ^ 32 = 65535 then Some (a mod 2 ^ 32) else None)"

definition CGNAT :: "nat \<times> nat" where
  "CGNAT = (quad 100 64 0 0, 10)"

definition private_v4 :: "nat \<Rightarrow> bool" where
  "private_v4 a \<longleftrightarrow> in_nets 32 private4 a \<and> \<not> in_nets 32 private4_exceptions a"

definition global_v4 :: "nat \<Rightarrow> bool" where
  "global_v4 a \<longleftrightarrow> \<not> in_net 32 (fst CGNAT) (snd CGNAT) a \<and> \<not> private_v4 a"

definition special_v4 :: "nat \<Rightarrow> bool" where
  "special_v4 a \<longleftrightarrow> in_net 32 (quad 127 0 0 0) 8 a \<or> private_v4 a \<or> in_net 32 (quad 169 254 0 0) 16 a
     \<or> in_net 32 (quad 224 0 0 0) 4 a \<or> a = 0 \<or> in_net 32 (quad 240 0 0 0) 4 a"

definition private_v6 :: "nat \<Rightarrow> bool" where
  "private_v6 a \<longleftrightarrow> in_nets 128 private6 a \<and> \<not> in_nets 128 private6_exceptions a"

definition special_v6 :: "nat \<Rightarrow> bool" where
  "special_v6 a \<longleftrightarrow> a = 1 \<or> private_v6 a \<or> in_net 128 (hextets [0xfe80]) 10 a
     \<or> in_net 128 (hextets [0xff00]) 8 a \<or> a = 0 \<or> in_nets 128 reserved6 a"

text \<open>
  \<open>is_global\<close> and not loopback, private, link-local, multicast, unspecified or reserved, nor
  in 100.64.0.0/10. An IPv4-mapped IPv6 address has the properties of the IPv4 address.
\<close>

fun destination_allowed :: "ip_address \<Rightarrow> bool" where
  "destination_allowed (IPv4 a) = (global_v4 a \<and> \<not> special_v4 a \<and> \<not> in_net 32 (fst CGNAT) (snd CGNAT) a)"
| "destination_allowed (IPv6 a) =
     (case ipv4_mapped a of
        Some m \<Rightarrow> global_v4 m \<and> \<not> special_v4 m
      | None \<Rightarrow> \<not> private_v6 a \<and> \<not> special_v6 a)"

fun ip_version :: "ip_address \<Rightarrow> int" where
  "ip_version (IPv4 a) = 4"
| "ip_version (IPv6 a) = 6"

section \<open>Their texts\<close>

definition parse_ipv4 :: "pystr \<Rightarrow> nat option" where
  "parse_ipv4 s =
     (if is_ipv4_literal s
      then (case map undec (split_on 46 s) of [a, b, c, d] \<Rightarrow> Some (quad a b c d) | _ \<Rightarrow> None) else None)"

definition show_ipv4 :: "nat \<Rightarrow> pystr" where
  "show_ipv4 a = join_with [46] (map dec_digits [a div 2 ^ 24, a div 2 ^ 16 mod 256, a div 2 ^ 8 mod 256, a mod 256])"

definition hex_digits :: "nat \<Rightarrow> pystr" where
  "hex_digits h =
     (if h < 16 then [hex_digit h]
      else if h < 256 then [hex_digit (h div 16), hex_digit (h mod 16)]
      else if h < 4096 then [hex_digit (h div 256), hex_digit (h div 16 mod 16), hex_digit (h mod 16)]
      else [hex_digit (h div 4096), hex_digit (h div 256 mod 16), hex_digit (h div 16 mod 16), hex_digit (h mod 16)])"

definition parse_hextet :: "pystr \<Rightarrow> nat option" where
  "parse_hextet s =
     (if s = [] \<or> 4 < length s \<or> list_ex (\<lambda>c. unhex c = None) s then None
      else Some (foldl (\<lambda>a c. 16 * a + (case unhex c of None \<Rightarrow> 0 | Some d \<Rightarrow> d)) 0 s))"

definition option_all :: "'a option list \<Rightarrow> 'a list option" where
  "option_all xs = (if None \<in> set xs then None else Some (List.map_filter (\<lambda>x. x) xs))"

text \<open>The parts between colons, an IPv4 suffix already turned into two hextets.\<close>

definition ipv6_parts :: "pystr \<Rightarrow> pystr list option" where
  "ipv6_parts s =
     (let parts = split_on 58 s in
      if length parts < 3 then None
      else if 46 \<in> set (last parts) then
        (case parse_ipv4 (last parts) of
           None \<Rightarrow> None
         | Some a \<Rightarrow> Some (butlast parts @ [hex_digits (a div 65536), hex_digits (a mod 65536)]))
      else Some parts)"

definition parse_ipv6_number :: "pystr \<Rightarrow> nat option" where
  "parse_ipv6_number s =
     (case ipv6_parts s of
        None \<Rightarrow> None
      | Some parts \<Rightarrow>
          let skips = filter (\<lambda>i. parts ! i = []) [1 ..< length parts - 1] in
          if 9 < length parts \<or> 1 < length skips then None
          else if skips = [] then
            (if length parts \<noteq> 8 then None
             else map_option hextets (option_all (map parse_hextet parts)))
          else
            let i = hd skips; hi = take i parts; lo = drop (Suc i) parts;
                hi' = (if hd parts = [] then tl hi else hi); lo' = (if last parts = [] then butlast lo else lo) in
            if hd parts = [] \<and> hi' \<noteq> [] \<or> last parts = [] \<and> lo' \<noteq> [] \<or> 8 \<le> length hi' + length lo' then None
            else
              (case (option_all (map parse_hextet hi'), option_all (map parse_hextet lo')) of
                 (Some hs, Some ls) \<Rightarrow> Some (hextets (hs @ replicate (8 - (length hs + length ls)) 0 @ ls))
               | _ \<Rightarrow> None))"

text \<open>\<open>ipaddress.ip_address\<close>: the address and the scope text of an IPv6 one.\<close>

definition ip_of :: "pystr \<Rightarrow> (ip_address \<times> pystr option) option" where
  "ip_of s =
     (if 47 \<in> set s then None
      else
        (case parse_ipv4 s of
           Some a \<Rightarrow> Some (IPv4 a, None)
         | None \<Rightarrow>
             (case split1 37 s of
                None \<Rightarrow> map_option (\<lambda>a. (IPv6 a, None)) (parse_ipv6_number s)
              | Some (addr, scope) \<Rightarrow>
                  if scope = [] \<or> 37 \<in> set scope then None
                  else map_option (\<lambda>a. (IPv6 a, Some scope)) (parse_ipv6_number addr))))"

definition hextet_list :: "nat \<Rightarrow> nat list" where
  "hextet_list a = map (\<lambda>i. a div 65536 ^ (7 - i) mod 65536) [0 ..< 8]"

text \<open>Longest run of zero hextets, the first of the longest; a single zero is not compressed.\<close>

definition zero_run :: "nat list \<Rightarrow> nat \<Rightarrow> nat" where
  "zero_run hs i = length (takeWhile (\<lambda>h. h = 0) (drop i hs))"

definition best_run :: "nat list \<Rightarrow> nat \<times> nat" where
  "best_run hs = foldl (\<lambda>(i, n) j. if n < zero_run hs j then (j, zero_run hs j) else (i, n)) (0, 0) [0 ..< length hs]"

definition show_ipv6 :: "nat \<Rightarrow> pystr" where
  "show_ipv6 a =
     (case ipv4_mapped a of
        Some m \<Rightarrow> u ''::ffff:'' @ show_ipv4 m
      | None \<Rightarrow>
          (case best_run (hextet_list a) of (i, n) \<Rightarrow>
             if n < 2 then join_with [58] (map hex_digits (hextet_list a))
             else join_with [58] (map hex_digits (take i (hextet_list a))) @ u ''::''
                    @ join_with [58] (map hex_digits (drop (i + n) (hextet_list a)))))"

fun show_ip :: "ip_address \<times> pystr option \<Rightarrow> pystr" where
  "show_ip (IPv4 a, _) = show_ipv4 a"
| "show_ip (IPv6 a, None) = show_ipv6 a"
| "show_ip (IPv6 a, Some scope) = show_ipv6 a @ [37] @ scope"

section \<open>Resolution\<close>

definition AF_INET :: int where "AF_INET = 2"
definition AF_INET6 :: int where "AF_INET6 = 10"
definition SOCK_STREAM :: int where "SOCK_STREAM = 1"
definition IPPROTO_TCP :: int where "IPPROTO_TCP = 6"

text \<open>A Python value as the resolver returns it: what the checks can tell apart.\<close>

datatype pyval = PInt int | PBool bool | PStr pystr | PTuple "pyval list" | POther

fun as_number :: "pyval \<Rightarrow> int option" where
  "as_number (PInt i) = Some i"
| "as_number (PBool b) = Some (if b then 1 else 0)"
| "as_number _ = None"

record ResolvedTarget =
  rt_family :: int
  rt_socktype :: int
  rt_protocol :: int
  rt_sockaddr :: "pyval list"

definition dns_error :: exn where
  "dns_error = ValueError ''egress DNS response is invalid''"

fun five_tuple :: "pyval \<Rightarrow> exn + pyval \<times> pyval \<times> pyval \<times> pyval" where
  "five_tuple (PTuple [family, socktype, protocol, canonical_name, sockaddr])
     = Inr (family, socktype, protocol, sockaddr)"
| "five_tuple _ = Inl dns_error"

fun as_tuple :: "pyval \<Rightarrow> exn + pyval list" where
  "as_tuple (PTuple vs) = Inr vs"
| "as_tuple _ = Inl dns_error"

fun as_text :: "pyval \<Rightarrow> exn + pystr" where
  "as_text (PStr s) = Inr s"
| "as_text _ = Inl dns_error"

definition some_or :: "'a option \<Rightarrow> exn + 'a" where
  "some_or v = (case v of None \<Rightarrow> Inl dns_error | Some x \<Rightarrow> Inr x)"

definition validated_answer :: "pyval \<Rightarrow> exn + ResolvedTarget" where
  "validated_answer answer =
     bindE (five_tuple answer) (\<lambda>(family, socktype, protocol, sockaddr).
     bindE (some_or (as_number family)) (\<lambda>f.
     bindE (require (f \<in> {AF_INET, AF_INET6}) dns_error) (\<lambda>_.
     bindE (some_or (as_number socktype)) (\<lambda>t.
     bindE (require (t = SOCK_STREAM) dns_error) (\<lambda>_.
     bindE (some_or (as_number protocol)) (\<lambda>p.
     bindE (require (p = IPPROTO_TCP) dns_error) (\<lambda>_.
     bindE (as_tuple sockaddr) (\<lambda>addr.
     bindE (require (length addr = (if f = AF_INET then 2 else 4)) dns_error) (\<lambda>_.
     bindE (as_text (addr ! 0)) (\<lambda>host.
     bindE (require (addr ! 1 = PInt 443) dns_error) (\<lambda>_.
     bindE (some_or (ip_of host)) (\<lambda>(a, scope).
     bindE (require ((f = AF_INET) = (ip_version a = 4)) dns_error) (\<lambda>_.
     bindE (require (destination_allowed a) (ValueError ''egress DNS destination is not allowed'')) (\<lambda>_.
     bindE (require (f = AF_INET \<or> addr ! 2 = PInt 0 \<and> addr ! 3 = PInt 0) dns_error) (\<lambda>_.
       Inr \<lparr>rt_family = f, rt_socktype = t, rt_protocol = p,
            rt_sockaddr = PStr (show_ip (a, scope)) # tl addr\<rparr>)))))))))))))))"

text \<open>What the resolver returns: a list or tuple of answers, or something else.\<close>

datatype answers = Answers "pyval list" | NotASequence

fun add_targets :: "pyval list \<Rightarrow> ResolvedTarget list \<Rightarrow> exn + ResolvedTarget list" where
  "add_targets [] targets = Inr targets"
| "add_targets (answer # rest) targets =
     bindE (validated_answer answer) (\<lambda>target.
       add_targets rest (if target \<in> set targets then targets else targets @ [target]))"

definition resolve_target :: "(pystr \<Rightarrow> exn + answers) \<Rightarrow> pystr \<Rightarrow> exn + ResolvedTarget list" where
  "resolve_target resolver domain =
     (case resolver domain of
        Inl e \<Rightarrow> Inl (if is_os_error e then ValueError ''egress DNS resolution failed'' else e)
      | Inr NotASequence \<Rightarrow> Inl dns_error
      | Inr (Answers []) \<Rightarrow> Inl dns_error
      | Inr (Answers as) \<Rightarrow>
          bindE (add_targets as []) (\<lambda>targets. if targets = [] then Inl dns_error else Inr targets))"

text \<open>
  \<open>connect\<close> and \<open>getpeername\<close> act on a fresh socket; the result says whether it was closed.
\<close>

definition connect_target ::
  "(ResolvedTarget \<Rightarrow> 's \<Rightarrow> (exn + unit) \<times> 's) \<Rightarrow> ('s \<Rightarrow> (exn + pyval) \<times> 's) \<Rightarrow> ('s \<Rightarrow> 's)
     \<Rightarrow> ResolvedTarget \<Rightarrow> 's \<Rightarrow> (exn + unit) \<times> 's" where
  "connect_target connect getpeername shut target s =
     (let r = bindS (connect target s) (\<lambda>_ s1.
            bindS (getpeername s1) (\<lambda>peer s2.
              (case peer of
                 PTuple (a # b # rest) \<Rightarrow>
                   if a \<noteq> rt_sockaddr target ! 0 \<or> b \<noteq> rt_sockaddr target ! 1
                   then (Inl (ValueError ''egress connected peer does not match resolution''), s2)
                   else (Inr (), s2)
               | _ \<Rightarrow> (Inl (ValueError ''egress connected peer does not match resolution''), s2))))
      in case r of
           (Inl e, s3) \<Rightarrow>
             if is_os_error e \<or> is_value_error e
             then (Inl (ValueError ''egress connection failed''), shut s3) else (Inl e, s3)
         | (Inr x, s3) \<Rightarrow> (Inr x, s3))"

section \<open>Facts\<close>

lemma quad_div:
  assumes "b < 256" "c < 256" "d < 256"
  shows "quad a b c d div 2 ^ 24 = a" "quad a b c d div 2 ^ 16 = a * 256 + b"
    "quad a b c d div 2 ^ 8 = (a * 256 + b) * 256 + c" "quad a b c d mod 256 = d"
    "quad a b c d div 2 ^ 28 = a div 16" "quad a b c d div 2 ^ 22 = a * 4 + b div 64"
    "quad a b c d div 2 ^ 20 = a * 16 + b div 16"
proof -
  show 16: "quad a b c d div 2 ^ 16 = a * 256 + b"
    using assms by (intro div_nat_eqI) (simp_all add: quad_def)
  show 24: "quad a b c d div 2 ^ 24 = a"
    using assms by (intro div_nat_eqI) (simp_all add: quad_def)
  show "quad a b c d div 2 ^ 8 = (a * 256 + b) * 256 + c" "quad a b c d mod 256 = d"
    using assms by (simp_all only: quad_def mod_mult_self3 mod_less) simp
  show "quad a b c d div 2 ^ 28 = a div 16"
    using 24 div_mult2_eq [of "quad a b c d" "2 ^ 24" 16] by simp
  have "(a * 256 + b) div 64 = a * 4 + b div 64" "(a * 256 + b) div 16 = a * 16 + b div 16"
    by (simp_all add: div_add1_eq [of "a * 256"])
  then show "quad a b c d div 2 ^ 22 = a * 4 + b div 64" "quad a b c d div 2 ^ 20 = a * 16 + b div 16"
    using 16 div_mult2_eq [of "quad a b c d" "2 ^ 16" 64] div_mult2_eq [of "quad a b c d" "2 ^ 16" 16] by simp_all
qed

lemma show_quad:
  assumes "b < 256" "c < 256" "d < 256"
  shows "show_ipv4 (quad a b c d) = join_with [46] (map dec_digits [a, b, c, d])"
proof -
  have m: "(x * 256 + y) mod 256 = y" if "y < 256" for x y :: nat
    using that by (simp only: mod_mult_self3 mod_less)
  show ?thesis
    unfolding show_ipv4_def quad_div [OF assms] m [OF assms(1)] m [OF assms(2)] by (rule refl)
qed

text \<open>The addresses of a private, shared, loopback, link-local, multicast or reserved block.\<close>

definition internal_quad :: "nat \<Rightarrow> nat \<Rightarrow> bool" where
  "internal_quad a b \<longleftrightarrow> a \<in> {0, 10, 127} \<or> a = 100 \<and> 64 \<le> b \<and> b < 128 \<or> a = 169 \<and> b = 254
     \<or> a = 172 \<and> 16 \<le> b \<and> b < 32 \<or> a = 192 \<and> b = 168 \<or> 224 \<le> a"

lemma in_net_blocks:
  "in_net 32 (quad 0 0 0 0) 8 x \<longleftrightarrow> x div 2 ^ 24 = 0" "in_net 32 (quad 10 0 0 0) 8 x \<longleftrightarrow> x div 2 ^ 24 = 10"
  "in_net 32 (quad 127 0 0 0) 8 x \<longleftrightarrow> x div 2 ^ 24 = 127" "in_net 32 (quad 169 254 0 0) 16 x \<longleftrightarrow> x div 2 ^ 16 = 43518"
  "in_net 32 (quad 172 16 0 0) 12 x \<longleftrightarrow> x div 2 ^ 20 = 2753" "in_net 32 (quad 192 168 0 0) 16 x \<longleftrightarrow> x div 2 ^ 16 = 49320"
  "in_net 32 (quad 224 0 0 0) 4 x \<longleftrightarrow> x div 2 ^ 28 = 14" "in_net 32 (quad 240 0 0 0) 4 x \<longleftrightarrow> x div 2 ^ 28 = 15"
  "in_net 32 (quad 100 64 0 0) 10 x \<longleftrightarrow> x div 2 ^ 22 = 401"
  by (simp_all add: in_net_def quad_def)

lemma allowed_v4_nets:
  assumes "destination_allowed (IPv4 x)" and "\<not> in_nets 32 private4_exceptions x"
  shows "\<not> in_net 32 (quad 0 0 0 0) 8 x \<and> \<not> in_net 32 (quad 10 0 0 0) 8 x \<and> \<not> in_net 32 (quad 127 0 0 0) 8 x
    \<and> \<not> in_net 32 (quad 169 254 0 0) 16 x \<and> \<not> in_net 32 (quad 172 16 0 0) 12 x
    \<and> \<not> in_net 32 (quad 192 168 0 0) 16 x \<and> \<not> in_net 32 (quad 224 0 0 0) 4 x
    \<and> \<not> in_net 32 (quad 240 0 0 0) 4 x \<and> \<not> in_net 32 (quad 100 64 0 0) 10 x"
  using assms unfolding destination_allowed.simps global_v4_def special_v4_def private_v4_def
    in_nets_def private4_def CGNAT_def list_ex_Nil_iff list_ex_Cons_iff prod.case fst_conv snd_conv
  by blast

lemma allowed_not_internal:
  assumes "destination_allowed (IPv4 (quad a b c d))" and "a < 256" "b < 256" "c < 256" "d < 256"
  shows "\<not> internal_quad a b"
proof
  assume i: "internal_quad a b"
  note q = quad_div [OF assms(3-5), of a]
  have p: "in_nets 32 private4_exceptions (quad a b c d) \<Longrightarrow> a = 192 \<and> b = 0"
  proof -
    assume "in_nets 32 private4_exceptions (quad a b c d)"
    then have "quad a b c d \<in> {quad 192 0 0 9, quad 192 0 0 10}"
      by (auto simp: in_nets_def private4_exceptions_def in_net_def)
    then have "quad a b c d div 2 ^ 16 = 49152" by (auto simp: quad_def [of 192])
    then have e: "a * 256 + b = 49152" using q(2) by simp
    have "(a * 256 + b) div 256 = a" using assms(3) by simp
    then have "a = 192" unfolding e by simp
    with e show "a = 192 \<and> b = 0" by simp
  qed
  have m: "quad a b c d div 2 ^ 24 \<notin> {0, 10, 127} \<and> quad a b c d div 2 ^ 16 \<notin> {43518, 49320}
      \<and> quad a b c d div 2 ^ 20 \<noteq> 2753 \<and> quad a b c d div 2 ^ 28 \<notin> {14, 15} \<and> quad a b c d div 2 ^ 22 \<noteq> 401"
    if "\<not> (a = 192 \<and> b = 0)"
  proof -
    from that p have "\<not> in_nets 32 private4_exceptions (quad a b c d)" by blast
    from allowed_v4_nets [OF assms(1) this] show ?thesis unfolding in_net_blocks by blast
  qed
  note m' = m [unfolded q]
  consider "a \<in> {0, 10, 127}" | "a = 100" "64 \<le> b" "b < 128" | "a = 169" "b = 254"
    | "a = 172" "16 \<le> b" "b < 32" | "a = 192" "b = 168" | "224 \<le> a"
    using i unfolding internal_quad_def by blast
  then show False
  proof cases
    case 1
    then have "\<not> (a = 192 \<and> b = 0)" by auto
    from m' [OF this] 1 show False by blast
  next
    case 2
    then have "b div 64 = 1" by (intro div_nat_eqI) simp_all
    moreover have "\<not> (a = 192 \<and> b = 0)" using 2 by simp
    from m' [OF this] have "a * 4 + b div 64 \<noteq> 401" by blast
    ultimately show False using 2(1) by simp
  next
    case 3
    then have "\<not> (a = 192 \<and> b = 0)" by simp
    from m' [OF this] have "a * 256 + b \<noteq> 43518" by blast
    then show False using 3 by simp
  next
    case 4
    then have "b div 16 = 1" by (intro div_nat_eqI) simp_all
    moreover have "\<not> (a = 192 \<and> b = 0)" using 4 by simp
    from m' [OF this] have "a * 16 + b div 16 \<noteq> 2753" by blast
    ultimately show False using 4(1) by simp
  next
    case 5
    then have "\<not> (a = 192 \<and> b = 0)" by simp
    from m' [OF this] have "a * 256 + b \<noteq> 49320" by blast
    then show False using 5 by simp
  next
    case 6
    then have "\<not> (a = 192 \<and> b = 0)" by simp
    from m' [OF this] have "a div 16 \<notin> {14, 15}" by blast
    moreover have "a div 16 = 14 \<or> a div 16 = 15" using 6 assms(2) by linarith
    ultimately show False by blast
  qed
qed

lemma parse_ipv4_quad:
  assumes "parse_ipv4 s = Some a"
  obtains w x y z where "a = quad w x y z" "w < 256" "x < 256" "y < 256" "z < 256"
proof -
  from assms obtain p q r t where "split_on 46 s = [p, q, r, t]" "list_all is_octet [p, q, r, t]"
    "a = quad (undec p) (undec q) (undec r) (undec t)"
    by (auto simp: parse_ipv4_def is_ipv4_literal_def numeral_eq_Suc length_Suc_conv split: if_split_asm)
  then show thesis using that by (auto simp: is_octet_def)
qed

lemma ip_of_IPv4: "ip_of s = Some (IPv4 a, scope) \<Longrightarrow> parse_ipv4 s = Some a \<and> scope = None"
  by (auto simp: ip_of_def split: if_split_asm option.split_asm prod.split_asm)

text \<open>An accepted answer.\<close>

definition admitted :: "ResolvedTarget \<Rightarrow> bool" where
  "admitted t \<longleftrightarrow> rt_socktype t = SOCK_STREAM \<and> rt_protocol t = IPPROTO_TCP \<and>
     (rt_family t = AF_INET \<and> (\<exists>a b c d. rt_sockaddr t
          = [PStr (join_with [46] (map dec_digits [a, b, c, d])), PInt 443]
          \<and> a < 256 \<and> b < 256 \<and> c < 256 \<and> d < 256 \<and> \<not> internal_quad a b)
      \<or> rt_family t = AF_INET6 \<and> (\<exists>a scope. rt_sockaddr t
          = [PStr (show_ip (IPv6 a, scope)), PInt 443, PInt 0, PInt 0] \<and> destination_allowed (IPv6 a)))"

lemma as_tuple_Inr: "as_tuple v = Inr vs \<longleftrightarrow> v = PTuple vs"
  by (cases v) auto

lemma as_text_Inr: "as_text v = Inr s \<longleftrightarrow> v = PStr s"
  by (cases v) auto

lemma some_or_Inr: "some_or v = Inr x \<longleftrightarrow> v = Some x"
  by (cases v) (auto simp: some_or_def)

lemma validated_answer_admitted:
  assumes "validated_answer v = Inr t"
  shows "admitted t"
proof -
  from assms obtain addr host a scope where
    v: "rt_family t \<in> {AF_INET, AF_INET6}"
      "rt_socktype t = SOCK_STREAM" "rt_protocol t = IPPROTO_TCP"
      "length addr = (if rt_family t = AF_INET then 2 else 4)" "addr ! 0 = PStr host" "addr ! 1 = PInt 443"
      "ip_of host = Some (a, scope)" "(rt_family t = AF_INET) = (ip_version a = 4)" "destination_allowed a"
      "rt_family t = AF_INET \<or> addr ! 2 = PInt 0 \<and> addr ! 3 = PInt 0"
      "rt_sockaddr t = PStr (show_ip (a, scope)) # tl addr"
    unfolding validated_answer_def
    by (elim bindE_InrE; clarsimp simp: require_Inr_iff as_tuple_Inr as_text_Inr some_or_Inr split: prod.split_asm)
  show ?thesis
  proof (cases "rt_family t = AF_INET")
    case True
    then obtain n where n: "a = IPv4 n" using v(8) by (cases a) auto
    with v(7) obtain w x y z where q: "n = quad w x y z" "w < 256" "x < 256" "y < 256" "z < 256" and "scope = None"
      by (auto dest!: ip_of_IPv4 elim: parse_ipv4_quad)
    moreover have "addr = [PStr host, PInt 443]"
      using v(4,5,6) True by (auto simp: numeral_eq_Suc length_Suc_conv)
    ultimately show ?thesis
      using v True n allowed_not_internal [of w x y z] by (auto simp: admitted_def show_quad)
  next
    case False
    then obtain n where n: "a = IPv6 n" using v(8) by (cases a) auto
    have f: "rt_family t = AF_INET6" using v(1) False by auto
    have "addr = [PStr host, PInt 443, PInt 0, PInt 0]"
      using v(4,5,6,10) f by (auto simp: numeral_eq_Suc length_Suc_conv AF_INET_def AF_INET6_def)
    with v n f show ?thesis by (auto simp: admitted_def)
  qed
qed

text \<open>The result keeps the resolver's order and drops repetitions; one bad answer refuses all.\<close>

lemma add_targets_Inr:
  "add_targets as ts = Inr us \<Longrightarrow> distinct ts \<Longrightarrow>
   \<exists>vs. list_all2 (\<lambda>a v. validated_answer a = Inr v) as vs \<and> set us = set ts \<union> set vs \<and> distinct us
     \<and> (\<exists>ws. us = ts @ ws)"
proof (induction as arbitrary: ts)
  case (Cons a as)
  then obtain v where v: "validated_answer a = Inr v"
    and r: "add_targets as (if v \<in> set ts then ts else ts @ [v]) = Inr us" by auto
  have "distinct (if v \<in> set ts then ts else ts @ [v])" using Cons.prems(2) by simp
  from Cons.IH [OF r this] obtain vs ws where "list_all2 (\<lambda>a v. validated_answer a = Inr v) as vs"
    "set us = set (if v \<in> set ts then ts else ts @ [v]) \<union> set vs" "distinct us"
    "us = (if v \<in> set ts then ts else ts @ [v]) @ ws" by blast
  with v show ?case by (intro exI [of _ "v # vs"]) (auto split: if_split_asm)
qed auto

lemma resolve_target_Inr:
  assumes "resolve_target resolver domain = Inr ts"
  obtains as vs where "resolver domain = Inr (Answers as)" and "add_targets as [] = Inr ts" and "ts \<noteq> []"
    and "list_all2 (\<lambda>a v. validated_answer a = Inr v) as vs" and "set ts = set vs" and "distinct ts"
    and "list_all admitted vs"
proof -
  from assms obtain as where r: "resolver domain = Inr (Answers as)" and a: "add_targets as [] = Inr ts" "ts \<noteq> []"
    by (auto simp: resolve_target_def simp del: add_targets.simps
        split: sum.split_asm answers.split_asm list.split_asm if_split_asm)
  from add_targets_Inr [OF a(1)] obtain vs where vs: "list_all2 (\<lambda>a v. validated_answer a = Inr v) as vs"
    "set ts = set vs" "distinct ts" by auto
  have "list_all admitted vs" using vs(1) by (induction rule: list_all2_induct) (auto dest: validated_answer_admitted)
  with r a vs that show thesis by blast
qed

lemma resolve_target_admitted:
  assumes "resolve_target resolver domain = Inr ts"
  shows "ts \<noteq> [] \<and> list_all admitted ts"
  by (rule resolve_target_Inr [OF assms]) (simp add: list_all_iff)

section \<open>Properties\<close>

text \<open>
  C9. Only public destinations: whatever the resolver returns, \<open>resolve_target\<close> succeeds only
  with a non-empty list of distinct TCP targets on port 443, one for each answer, in the
  resolver's order. Every IPv4 target is the dotted quad of an address outside 0/8, 10/8, 127/8,
  100.64/10, 169.254/16, 172.16/12, 192.168/16 and 224/3; every IPv6 target passes the
  global-address checks with no flow label and no scope id. One answer that fails a check
  refuses the whole resolution.
\<close>

theorem resolved_targets_public:
  assumes "resolve_target resolver domain = Inr ts"
  shows "ts \<noteq> [] \<and> distinct ts \<and> list_all admitted ts
    \<and> (\<exists>as vs. resolver domain = Inr (Answers as) \<and> list_all2 (\<lambda>a v. validated_answer a = Inr v) as vs
        \<and> set vs = set ts \<and> hd vs = hd ts)"
proof -
  from resolve_target_Inr [OF assms] obtain as vs where r: "resolver domain = Inr (Answers as)"
    and a: "add_targets as [] = Inr ts" "ts \<noteq> []"
    and vs: "list_all2 (\<lambda>a v. validated_answer a = Inr v) as vs" "set ts = set vs" "distinct ts"
    and "list_all admitted vs" by metis
  moreover have "hd vs = hd ts"
  proof -
    from vs(2) a(2) have "vs \<noteq> []" by auto
    with vs(1) obtain x as' v vs' where c: "as = x # as'" "vs = v # vs'" "validated_answer x = Inr v"
      by (cases as; cases vs) auto
    then have "add_targets as' [v] = Inr ts" using a(1) by simp
    from add_targets_Inr [OF this] c show ?thesis by auto
  qed
  ultimately show ?thesis using r a vs by (auto simp: list_all_iff)
qed

definition demo_answer :: pyval where
  "demo_answer = PTuple [PInt 2, PInt 1, PInt 6, PStr [], PTuple [PStr (u ''93.184.216.34''), PInt 443]]"

definition demo_target :: ResolvedTarget where
  "demo_target = \<lparr>rt_family = 2, rt_socktype = 1, rt_protocol = 6,
     rt_sockaddr = [PStr (u ''93.184.216.34''), PInt 443]\<rparr>"

lemma demo_ip: "ip_of (u ''93.184.216.34'') = Some (IPv4 (quad 93 184 216 34), None)"
  by (simp add: ip_of_def parse_ipv4_def is_ipv4_literal_def is_octet_def undec_def u_def class_simps)

lemma demo_answer_ok: "validated_answer demo_answer = Inr demo_target"
proof -
  have "show_ip (IPv4 (quad 93 184 216 34), None) = u ''93.184.216.34''"
    by (simp add: show_quad dec_digits.simps digit_def u_def)
  moreover have "destination_allowed (IPv4 (quad 93 184 216 34))"
    by (simp add: global_v4_def special_v4_def private_v4_def in_nets_def private4_def
        private4_exceptions_def in_net_def CGNAT_def quad_def)
  ultimately show ?thesis
    by (simp add: validated_answer_def demo_answer_def demo_target_def AF_INET_def SOCK_STREAM_def
        IPPROTO_TCP_def some_or_def demo_ip)
qed

theorem resolved_targets_public_witness:
  "resolve_target (\<lambda>_. Inr (Answers [demo_answer, demo_answer])) (u ''a.io'') = Inr [demo_target]
    \<and> admitted demo_target"
proof -
  have "resolve_target (\<lambda>_. Inr (Answers [demo_answer, demo_answer])) (u ''a.io'') = Inr [demo_target]"
    by (simp add: resolve_target_def demo_answer_ok)
  with resolved_targets_public [OF this] show ?thesis by simp
qed

end
