(* ===== verification/Egress_Relay.thy ===== *)
theory Egress_Relay
  imports Egress_Policy
begin

text \<open>
  \<open>relay_tunnel\<close> of \<open>src/agent_container/egress_gateway.py\<close>: the loop that moves bytes both
  ways between the client and the upstream connection, with half-close, byte limits, an idle
  and a lifetime limit. Sockets, selector and clock are a record of state-passing functions;
  time is counted in ticks. The loop may run forever on a dead clock, so it is a
  \<open>partial_function\<close>: \<open>None\<close> is not returning. What is relayed is compared with what each side
  has sent, read or still unread.
\<close>

section \<open>The two connections\<close>

datatype side = Client | Upstream

fun peer :: "side \<Rightarrow> side" where
  "peer Client = Upstream"
| "peer Upstream = Client"

record RelayLimits =
  maximum_bytes_per_direction :: int
  idle_timeout :: int
  lifetime :: int
  chunk_bytes :: int

text \<open>
  \<open>rv_select\<close> gets the interest (read, write) in the client and in the upstream, and the
  timeout; it returns who is ready for what.
\<close>

record 's relay_env =
  rv_prepare :: "'s \<Rightarrow> (exn + unit) \<times> 's"
  rv_register :: "'s \<Rightarrow> (exn + unit) \<times> 's"
  rv_clock :: "'s \<Rightarrow> int \<times> 's"
  rv_select :: "bool \<times> bool \<Rightarrow> bool \<times> bool \<Rightarrow> int \<Rightarrow> 's \<Rightarrow> (exn + (side \<times> bool \<times> bool) list) \<times> 's"
  rv_recv :: "side \<Rightarrow> nat \<Rightarrow> 's \<Rightarrow> (exn + bytes) \<times> 's"
  rv_send :: "side \<Rightarrow> bytes \<Rightarrow> 's \<Rightarrow> (exn + int) \<times> 's"
  rv_shutdown :: "side \<Rightarrow> 's \<Rightarrow> (exn + unit) \<times> 's"

text \<open>
  The local variables: \<open>to_side d\<close> is the buffer waiting to be sent to \<open>d\<close> (\<open>to_client\<close>,
  \<open>to_upstream\<close>), \<open>from_side d\<close> the bytes received from it.
\<close>

record relay_state =
  side_open :: "side \<Rightarrow> bool"
  side_shutdown :: "side \<Rightarrow> bool"
  to_side :: "side \<Rightarrow> bytes"
  from_side :: "side \<Rightarrow> nat"
  last_activity :: int

section \<open>The loop\<close>

definition relay_read ::
  "'s relay_env \<Rightarrow> RelayLimits \<Rightarrow> side \<Rightarrow> relay_state \<Rightarrow> 's \<Rightarrow> (exn + relay_state) \<times> 's" where
  "relay_read env lim d st s =
     bindS (rv_recv env d (nat (chunk_bytes lim)) s) (\<lambda>body s1.
       if body = [] then (Inr (st\<lparr>side_open := (side_open st)(d := False)\<rparr>), s1)
       else
         let n = from_side st d + length body in
         if maximum_bytes_per_direction lim < int n
         then (Inl (ValueError ''egress relay byte limit exceeded''), s1)
         else
           (case rv_clock env s1 of (now, s2) \<Rightarrow>
              (Inr (st\<lparr>from_side := (from_side st)(d := n),
                        to_side := (to_side st)(peer d := to_side st (peer d) @ body),
                        last_activity := now\<rparr>), s2)))"

definition relay_write ::
  "'s relay_env \<Rightarrow> side \<Rightarrow> relay_state \<Rightarrow> 's \<Rightarrow> (exn + relay_state) \<times> 's" where
  "relay_write env d st s =
     bindS (rv_send env d (to_side st d) s) (\<lambda>sent s1.
       if sent \<le> 0 then (Inl (ValueError ''egress relay write failed''), s1)
       else
         (case rv_clock env s1 of (now, s2) \<Rightarrow>
            (Inr (st\<lparr>to_side := (to_side st)(d := drop (nat sent) (to_side st d)),
                     last_activity := now\<rparr>), s2)))"

fun relay_ready ::
  "'s relay_env \<Rightarrow> RelayLimits \<Rightarrow> (side \<times> bool \<times> bool) list \<Rightarrow> relay_state \<Rightarrow> 's
     \<Rightarrow> (exn + relay_state) \<times> 's" where
  "relay_ready env lim [] st s = (Inr st, s)"
| "relay_ready env lim ((d, readable, writable) # ready) st s =
     bindS (if readable then relay_read env lim d st s else (Inr st, s)) (\<lambda>st1 s1.
     bindS (if writable \<and> to_side st1 d \<noteq> [] then relay_write env d st1 s1 else (Inr st1, s1)) (\<lambda>st2 s2.
     relay_ready env lim ready st2 s2))"

text \<open>Pass the end of one direction on, once its buffer is empty.\<close>

definition relay_half_close ::
  "'s relay_env \<Rightarrow> side \<Rightarrow> relay_state \<Rightarrow> 's \<Rightarrow> (exn + relay_state) \<times> 's" where
  "relay_half_close env d st s =
     (if \<not> side_open st d \<and> to_side st (peer d) = [] \<and> \<not> side_shutdown st (peer d)
      then bindS (rv_shutdown env (peer d) s) (\<lambda>_ s1.
             (Inr (st\<lparr>side_shutdown := (side_shutdown st)(peer d := True)\<rparr>), s1))
      else (Inr st, s))"

definition interest :: "relay_state \<Rightarrow> side \<Rightarrow> bool \<times> bool" where
  "interest st d = (side_open st d \<and> to_side st (peer d) = [], to_side st d \<noteq> [])"

definition relay_turn ::
  "'s relay_env \<Rightarrow> RelayLimits \<Rightarrow> int \<Rightarrow> relay_state \<Rightarrow> 's \<Rightarrow> (exn + relay_state) \<times> 's" where
  "relay_turn env lim started st s =
     (case rv_clock env s of (now, s1) \<Rightarrow>
        let timeout = min (idle_timeout lim - (now - last_activity st)) (lifetime lim - (now - started)) in
        if timeout \<le> 0 then (Inl (ValueError ''egress relay timed out''), s1)
        else
          bindS (rv_select env (interest st Client) (interest st Upstream) timeout s1) (\<lambda>ready s2.
            if ready = [] then (Inl (ValueError ''egress relay timed out''), s2)
            else
              bindS (relay_ready env lim ready st s2) (\<lambda>st1 s3.
              bindS (relay_half_close env Client st1 s3) (\<lambda>st2 s4.
              relay_half_close env Upstream st2 s4))))"

definition relay_active :: "relay_state \<Rightarrow> bool" where
  "relay_active st \<longleftrightarrow> side_open st Client \<or> side_open st Upstream
     \<or> to_side st Client \<noteq> [] \<or> to_side st Upstream \<noteq> []"

partial_function (option) relay_loop ::
  "'s relay_env \<Rightarrow> RelayLimits \<Rightarrow> int \<Rightarrow> relay_state \<Rightarrow> 's \<Rightarrow> ((exn + relay_state) \<times> 's) option" where
  "relay_loop env lim started st s =
     (if \<not> relay_active st then Some (Inr st, s)
      else
        (case relay_turn env lim started st s of
           (Inl e, s1) \<Rightarrow> Some (Inl e, s1)
         | (Inr st1, s1) \<Rightarrow> relay_loop env lim started st1 s1))"

definition relay_limits_ok :: "RelayLimits \<Rightarrow> bool" where
  "relay_limits_ok lim \<longleftrightarrow> 0 \<le> maximum_bytes_per_direction lim \<and> 0 < idle_timeout lim
     \<and> 0 < lifetime lim \<and> 1 \<le> chunk_bytes lim \<and> chunk_bytes lim \<le> 65536"

definition relay_start :: "int \<Rightarrow> relay_state" where
  "relay_start now = \<lparr>side_open = (\<lambda>d. True), side_shutdown = (\<lambda>d. False), to_side = (\<lambda>d. []),
     from_side = (\<lambda>d. 0), last_activity = now\<rparr>"

definition relay_tunnel ::
  "'s relay_env \<Rightarrow> RelayLimits \<Rightarrow> 's \<Rightarrow> ((exn + nat \<times> nat) \<times> 's) option" where
  "relay_tunnel env lim s =
     (if \<not> relay_limits_ok lim then Some (Inl (ValueError ''egress relay limits are invalid''), s)
      else
        (case rv_clock env s of (started, s1) \<Rightarrow>
          (case rv_prepare env s1 of
             (Inl e, s2) \<Rightarrow> Some (Inl e, s2)
           | (Inr _, s2) \<Rightarrow>
               (case (case rv_register env s2 of
                        (Inl e, s3) \<Rightarrow> Some (Inl e, s3)
                      | (Inr _, s3) \<Rightarrow> relay_loop env lim started (relay_start started) s3) of
                  None \<Rightarrow> None
                | Some (Inl e, s4) \<Rightarrow>
                    Some (Inl (if is_os_error e then ValueError ''egress relay failed'' else e), s4)
                | Some (Inr st, s4) \<Rightarrow> Some (Inr (from_side st Client, from_side st Upstream), s4)))))"

section \<open>Honest sockets and a running clock\<close>

text \<open>
  What the relay relies on: a receive returns the next bytes of those that its peer sent and that have
  not been read, at most as many as asked, and returns none only when the peer has ended and all is read;
  a send that reports \<open>k\<close> bytes has sent the first \<open>k\<close>; nothing else changes what was received, is
  unread or was sent; time never goes back, and every reading of the clock is later than all
  that went before.
\<close>

locale relay_world =
  fixes env :: "'s relay_env"
    and received unread sent :: "'s \<Rightarrow> side \<Rightarrow> bytes"
    and elapsed :: "'s \<Rightarrow> int"
  assumes recv_law: "rv_recv env d n s = (Inr b, t) \<Longrightarrow>
      received t = (received s)(d := received s d @ b) \<and> length b \<le> n
      \<and> unread s = (unread t)(d := b @ unread t d) \<and> (b = [] \<longrightarrow> 0 < n \<longrightarrow> unread t d = [])"
    and recv_failed: "rv_recv env d n s = (Inl e, t) \<Longrightarrow> received t = received s \<and> unread t = unread s"
    and recv_sent: "sent (snd (rv_recv env d n s)) = sent s"
    and send_law: "rv_send env d b s = (Inr k, t) \<Longrightarrow> 0 < k \<Longrightarrow>
      nat k \<le> length b \<and> sent t = (sent s)(d := sent s d @ take (nat k) b)"
    and send_failed: "rv_send env d b s = (Inl e, t) \<or> rv_send env d b s = (Inr k, t) \<and> k \<le> 0 \<Longrightarrow> sent t = sent s"
    and send_received: "received (snd (rv_send env d b s)) = received s"
    and send_unread: "unread (snd (rv_send env d b s)) = unread s"
    and quiet: "received (snd (rv_clock env s)) = received s" "sent (snd (rv_clock env s)) = sent s"
      "received (snd (rv_select env i j w s)) = received s" "sent (snd (rv_select env i j w s)) = sent s"
      "received (snd (rv_shutdown env d s)) = received s" "sent (snd (rv_shutdown env d s)) = sent s"
      "received (snd (rv_prepare env s)) = received s" "sent (snd (rv_prepare env s)) = sent s"
      "received (snd (rv_register env s)) = received s" "sent (snd (rv_register env s)) = sent s"
    and unread_quiet: "unread (snd (rv_clock env s)) = unread s" "unread (snd (rv_select env i j w s)) = unread s"
      "unread (snd (rv_shutdown env d s)) = unread s" "unread (snd (rv_prepare env s)) = unread s"
      "unread (snd (rv_register env s)) = unread s"
    and clock_law: "rv_clock env s = (now, t) \<Longrightarrow> elapsed s < now \<and> now \<le> elapsed t"
    and later: "elapsed s \<le> elapsed (snd (rv_select env i j w s))"
      "elapsed s \<le> elapsed (snd (rv_recv env d n s))" "elapsed s \<le> elapsed (snd (rv_send env d b s))"
      "elapsed s \<le> elapsed (snd (rv_shutdown env d s))" "elapsed s \<le> elapsed (snd (rv_prepare env s))"
      "elapsed s \<le> elapsed (snd (rv_register env s))"
begin

text \<open>
  Nothing lost, reordered or invented: what came in is what went out and what is buffered, it and what is
  unread make up what the peer sends, and a side is given up only when all that its peer sends is read.
\<close>

definition relayed :: "RelayLimits \<Rightarrow> (side \<Rightarrow> bytes) \<Rightarrow> relay_state \<Rightarrow> 's \<Rightarrow> bool" where
  "relayed lim whole st s \<longleftrightarrow> (\<forall>d. received s d = sent s (peer d) @ to_side st (peer d)
     \<and> from_side st d = length (received s d) \<and> int (from_side st d) \<le> maximum_bytes_per_direction lim
     \<and> whole d = received s d @ unread s d \<and> (\<not> side_open st d \<longrightarrow> unread s d = []))"

definition prefix_kept :: "RelayLimits \<Rightarrow> (side \<Rightarrow> bytes) \<Rightarrow> 's \<Rightarrow> bool" where
  "prefix_kept lim whole s \<longleftrightarrow> (\<forall>d. (\<exists>rest. received s d = sent s (peer d) @ rest) \<and> whole d = received s d @ unread s d
     \<and> int (length (sent s (peer d))) \<le> maximum_bytes_per_direction lim)"

lemma relayed_prefix: "relayed lim whole st s \<Longrightarrow> prefix_kept lim whole s"
  unfolding relayed_def prefix_kept_def by (metis le_add1 length_append of_nat_le_iff order_trans)

lemma peer_simps [simp]: "peer (peer d) = d" "peer d \<noteq> d" "d \<noteq> peer d" "peer d = peer e \<longleftrightarrow> d = e"
  by (cases d; simp; cases e; simp)+

lemma peer_eq: "peer d = e \<longleftrightarrow> d = peer e"
  by (cases d; cases e) auto

lemma relayed_bound:
  assumes "relayed lim whole st s"
  shows "int (length (sent s d)) + int (length (to_side st d)) \<le> maximum_bytes_per_direction lim"
proof -
  have "received s (peer d) = sent s d @ to_side st d"
    and "from_side st (peer d) = length (received s (peer d))"
    and "int (from_side st (peer d)) \<le> maximum_bytes_per_direction lim"
    using assms [unfolded relayed_def, rule_format, of "peer d", unfolded peer_simps]
    by blast+
  then show ?thesis by simp
qed

text \<open>The outcome of a part of the loop that started in a good state.\<close>

definition keeps_relayed :: "RelayLimits \<Rightarrow> (side \<Rightarrow> bytes) \<Rightarrow> 's \<Rightarrow> (exn + relay_state) \<times> 's \<Rightarrow> bool" where
  "keeps_relayed lim whole s m \<longleftrightarrow> elapsed s \<le> elapsed (snd m)
     \<and> (case fst m of Inl e \<Rightarrow> prefix_kept lim whole (snd m) | Inr st \<Rightarrow> relayed lim whole st (snd m))"

lemma keeps_bindS:
  assumes "keeps_relayed lim whole s m" and "\<And>st t. relayed lim whole st t \<Longrightarrow> keeps_relayed lim whole t (f st t)"
  shows "keeps_relayed lim whole s (bindS m f)"
proof (cases m)
  case (Pair r t)
  show ?thesis
  proof (cases r)
    case (Inr st)
    with assms(1) Pair have "relayed lim whole st t" "elapsed s \<le> elapsed t" by (simp_all add: keeps_relayed_def)
    with assms(2) [of st t] Pair Inr show ?thesis by (auto simp: keeps_relayed_def)
  qed (use assms(1) Pair in \<open>simp add: keeps_relayed_def\<close>)
qed

lemma keeps_refl: "relayed lim whole st s \<Longrightarrow> keeps_relayed lim whole s (Inr st, s)"
  by (simp add: keeps_relayed_def)

lemma relay_read_law:
  assumes i: "relayed lim whole st s" and n: "1 \<le> chunk_bytes lim"
  shows "keeps_relayed lim whole s (relay_read env lim d st s)"
proof -
  obtain q s1 where q: "rv_recv env d (nat (chunk_bytes lim)) s = (q, s1)" by fastforce
  note el = later(2) [of s d "nat (chunk_bytes lim)", unfolded q snd_conv]
    and se = recv_sent [of d "nat (chunk_bytes lim)" s, unfolded q snd_conv]
    and all = i [unfolded relayed_def, rule_format]
    and bd = relayed_bound [OF i]
  show ?thesis
  proof (cases q)
    case (Inl e)
    have "received s1 = received s" "unread s1 = unread s" using recv_failed q Inl by auto
    with q Inl el se relayed_prefix [OF i] show ?thesis
      by (auto simp: keeps_relayed_def relay_read_def prefix_kept_def)
  next
    case (Inr b)
    have rc: "received s1 = (received s)(d := received s d @ b)" "unread s = (unread s1)(d := b @ unread s1 d)"
      using recv_law q Inr by blast+
    have kept: "whole x = received s1 x @ unread s1 x" for x using all [of x] rc by (cases "x = d") auto
    have un: "unread s1 x = (if x = d then drop (length b) (unread s d) else unread s x)" for x
      using rc(2) by auto
    show ?thesis
    proof (cases "b = []")
      case True
      have "unread s1 d = []" using recv_law [OF q [unfolded Inr]] True n by simp
      with q Inr el se rc(1) i bd kept un True show ?thesis
        by (auto simp: keeps_relayed_def relay_read_def relayed_def)
    next
      case False
      show ?thesis
      proof (cases "maximum_bytes_per_direction lim < int (from_side st d + length b)")
        case True
        have "received s d @ b = sent s (peer d) @ (to_side st (peer d) @ b)"
          using i by (simp add: relayed_def)
        then have "\<exists>rest. received s d @ b = sent s (peer d) @ rest" by blast
        with True q Inr False el se rc(1) kept relayed_prefix [OF i] show ?thesis
          by (auto simp: keeps_relayed_def relay_read_def prefix_kept_def)
      next
        case le: False
        obtain now s2 where c: "rv_clock env s1 = (now, s2)" by fastforce
        note qc = quiet(1,2) [of s1, unfolded c snd_conv] unread_quiet(1) [of s1, unfolded c snd_conv]
        have "elapsed s1 \<le> elapsed s2" using clock_law [OF c] by simp
        moreover have "\<not> side_open st x \<Longrightarrow> unread s1 x = []" for x using all [of x] un [of x] by auto
        moreover have "unread s d = b @ unread s1 d" and "x \<noteq> d \<Longrightarrow> unread s x = unread s1 x" for x
          using rc(2) by auto
        ultimately show ?thesis using q Inr False le c qc el se rc(1) i bd
          by (auto simp: keeps_relayed_def relay_read_def Let_def relayed_def peer_eq)
      qed
    qed
  qed
qed

lemma relay_write_law:
  assumes i: "relayed lim whole st s"
  shows "keeps_relayed lim whole s (relay_write env d st s)"
proof -
  obtain q s1 where q: "rv_send env d (to_side st d) s = (q, s1)" by fastforce
  note el = later(3) [of s d "to_side st d", unfolded q snd_conv]
    and re = send_received [of d "to_side st d" s, unfolded q snd_conv]
      send_unread [of d "to_side st d" s, unfolded q snd_conv]
    and bd = relayed_bound [OF i]
  show ?thesis
  proof (cases "\<exists>k. q = Inr k \<and> 0 < k")
    case True
    then obtain k where k: "q = Inr k" "0 < k" by blast
    have se: "nat k \<le> length (to_side st d)" "sent s1 = (sent s)(d := sent s d @ take (nat k) (to_side st d))"
      using send_law [OF q [unfolded k(1)] k(2)] by auto
    obtain now s2 where c: "rv_clock env s1 = (now, s2)" by fastforce
    note qc = quiet(1,2) [of s1, unfolded c snd_conv] unread_quiet(1) [of s1, unfolded c snd_conv]
    have "elapsed s1 \<le> elapsed s2" using clock_law [OF c] by simp
    with q k c qc el re se i bd show ?thesis
      by (auto simp: keeps_relayed_def relay_write_def relayed_def peer_eq)
  next
    case False
    then have "sent s1 = sent s" using send_failed q by (cases q) force+
    with False q el re relayed_prefix [OF i] show ?thesis
      by (cases q) (auto simp: keeps_relayed_def relay_write_def prefix_kept_def)
  qed
qed

lemma relay_ready_law:
  "relayed lim whole st s \<Longrightarrow> 1 \<le> chunk_bytes lim \<Longrightarrow> keeps_relayed lim whole s (relay_ready env lim ready st s)"
proof (induction ready arbitrary: st s)
  case (Cons x ready)
  obtain d readable writable where x: "x = (d, readable, writable)" by (cases x)
  show ?case
    unfolding x relay_ready.simps
  proof (intro keeps_bindS)
    show "keeps_relayed lim whole s (if readable then relay_read env lim d st s else (Inr st, s))"
      using relay_read_law [OF Cons.prems] keeps_refl [OF Cons.prems(1)] by simp
  next
    fix st1 s1 assume r: "relayed lim whole st1 s1"
    show "keeps_relayed lim whole s1 (if writable \<and> to_side st1 d \<noteq> [] then relay_write env d st1 s1 else (Inr st1, s1))"
      using relay_write_law [OF r] keeps_refl [OF r] by simp
  qed (rule Cons.IH, assumption, rule Cons.prems)
qed (simp add: keeps_refl)

lemma relay_half_close_law:
  assumes i: "relayed lim whole st s"
  shows "keeps_relayed lim whole s (relay_half_close env d st s)"
proof -
  obtain q s1 where q: "rv_shutdown env (peer d) s = (q, s1)" by fastforce
  note qs = quiet(5,6) [of "peer d" s, unfolded q snd_conv] unread_quiet(3) [of "peer d" s, unfolded q snd_conv]
    and el = later(4) [of s "peer d", unfolded q snd_conv]
  show ?thesis
    using i relayed_prefix [OF i] relayed_bound [OF i] q qs el
    by (cases q) (auto simp: keeps_relayed_def relay_half_close_def relayed_def prefix_kept_def)
qed

lemma relay_turn_law:
  assumes i: "relayed lim whole st s" and n: "1 \<le> chunk_bytes lim"
  shows "keeps_relayed lim whole s (relay_turn env lim started st s)"
    and "relay_turn env lim started st s = (Inr st', t) \<Longrightarrow> elapsed s < elapsed t \<and> elapsed s < started + lifetime lim"
proof -
  obtain now s1 where c: "rv_clock env s = (now, s1)" by fastforce
  note qc = quiet(1,2) [of s, unfolded c snd_conv] unread_quiet(1) [of s, unfolded c snd_conv]
  have el: "elapsed s < now" "now \<le> elapsed s1" using clock_law [OF c] by auto
  have i1: "relayed lim whole st s1" using i qc relayed_bound [OF i] by (auto simp: relayed_def)
  define timeout where "timeout = min (idle_timeout lim - (now - last_activity st)) (lifetime lim - (now - started))"
  obtain q s2 where q: "rv_select env (interest st Client) (interest st Upstream) timeout s1 = (q, s2)" by fastforce
  note qs = quiet(3,4) [of "interest st Client" "interest st Upstream" timeout s1, unfolded q snd_conv]
      unread_quiet(2) [of "interest st Client" "interest st Upstream" timeout s1, unfolded q snd_conv]
    and el2 = later(1) [of s1 "interest st Client" "interest st Upstream" timeout, unfolded q snd_conv]
  have i2: "relayed lim whole st s2" using i1 qs relayed_bound [OF i1] by (auto simp: relayed_def)
  have e: "relay_turn env lim started st s =
      (if timeout \<le> 0 then (Inl (ValueError ''egress relay timed out''), s1)
       else bindS (q, s2) (\<lambda>ready s2.
         if ready = [] then (Inl (ValueError ''egress relay timed out''), s2)
         else bindS (relay_ready env lim ready st s2) (\<lambda>st1 s3.
              bindS (relay_half_close env Client st1 s3) (\<lambda>st2 s4.
              relay_half_close env Upstream st2 s4))))"
    by (simp add: relay_turn_def c Let_def q flip: timeout_def)
  have k: "keeps_relayed lim whole s2 (bindS (relay_ready env lim ready st s2) (\<lambda>st1 s3.
      bindS (relay_half_close env Client st1 s3) (\<lambda>st2 s4. relay_half_close env Upstream st2 s4)))" for ready
    by (intro keeps_bindS relay_ready_law relay_half_close_law i2 n)
  show "keeps_relayed lim whole s (relay_turn env lim started st s)"
  proof (cases "timeout \<le> 0 \<or> (\<exists>x. q = Inl x) \<or> q = Inr []")
    case True
    then show ?thesis
      using e el el2 relayed_prefix [OF i1] relayed_prefix [OF i2] by (auto simp: keeps_relayed_def)
  next
    case False
    then obtain ready where "q = Inr ready" "ready \<noteq> []" by (cases q) auto
    with e k [of ready] False el el2 show ?thesis by (auto simp: keeps_relayed_def)
  qed
  show "elapsed s < elapsed t \<and> elapsed s < started + lifetime lim"
    if r: "relay_turn env lim started st s = (Inr st', t)"
  proof -
    have t0: "\<not> timeout \<le> 0" using r e by (cases "timeout \<le> 0") simp_all
    with r e have b: "bindS (q, s2) (\<lambda>ready s2.
         if ready = [] then (Inl (ValueError ''egress relay timed out''), s2)
         else bindS (relay_ready env lim ready st s2) (\<lambda>st1 s3.
              bindS (relay_half_close env Client st1 s3) (\<lambda>st2 s4.
              relay_half_close env Upstream st2 s4))) = (Inr st', t)" by simp
    then obtain ready where q': "q = Inr ready" by (cases q) simp_all
    with b have "ready \<noteq> []" by (cases ready) simp_all
    with b q' have "bindS (relay_ready env lim ready st s2) (\<lambda>st1 s3.
      bindS (relay_half_close env Client st1 s3) (\<lambda>st2 s4. relay_half_close env Upstream st2 s4)) = (Inr st', t)"
      by simp
    with k [of ready] have "elapsed s2 \<le> elapsed t" by (simp add: keeps_relayed_def)
    with t0 show ?thesis using el el2 by (auto simp: timeout_def)
  qed
qed

text \<open>The loop ends: every turn reads a later time, and none starts after the lifetime.\<close>

lemma relay_loop_returns:
  assumes "relayed lim whole st s" and "1 \<le> chunk_bytes lim"
  shows "\<exists>m. relay_loop env lim started st s = Some m \<and> elapsed s \<le> elapsed (snd m)
    \<and> (case fst m of Inl e \<Rightarrow> prefix_kept lim whole (snd m)
         | Inr st' \<Rightarrow> relayed lim whole st' (snd m) \<and> \<not> relay_active st')"
  using assms
proof (induction "nat (started + lifetime lim - elapsed s)" arbitrary: st s rule: less_induct)
  case less
  show ?case
  proof (cases "relay_active st")
    case False
    with less.prems(1) show ?thesis by (subst relay_loop.simps) simp
  next
    case True
    obtain r t where t: "relay_turn env lim started st s = (r, t)" by fastforce
    note k = relay_turn_law(1) [OF less.prems, of started, unfolded t keeps_relayed_def fst_conv snd_conv]
    show ?thesis
    proof (cases r)
      case (Inl e)
      with True t k show ?thesis by (subst relay_loop.simps) simp
    next
      case (Inr st1)
      note d = relay_turn_law(2) [OF less.prems t [unfolded Inr]]
      have "\<exists>m. relay_loop env lim started st1 t = Some m \<and> elapsed t \<le> elapsed (snd m)
        \<and> (case fst m of Inl e \<Rightarrow> prefix_kept lim whole (snd m)
             | Inr st' \<Rightarrow> relayed lim whole st' (snd m) \<and> \<not> relay_active st')"
        using d k Inr less.prems(2) by (intro less.hyps) auto
      with True t Inr k show ?thesis by (subst relay_loop.simps) auto
    qed
  qed
qed

text \<open>The whole tunnel, from two connections on which nothing has been transferred.\<close>

lemma relay_tunnel_law:
  assumes "\<And>d. received s d = []" and "\<And>d. sent s d = []" and "\<And>d. unread s d = whole d"
  shows "\<exists>r t. relay_tunnel env lim s = Some (r, t) \<and>
    (case r of
       Inl e \<Rightarrow> (\<forall>d. \<exists>rest. whole d = sent t (peer d) @ rest)
     | Inr (a, b) \<Rightarrow> (\<forall>d. sent t (peer d) = whole d) \<and> a = length (whole Client)
         \<and> b = length (whole Upstream) \<and> int (max a b) \<le> maximum_bytes_per_direction lim)"
proof (cases "relay_limits_ok lim")
  case False
  with assms(2) show ?thesis by (simp add: relay_tunnel_def)
next
  case True
  obtain started s1 where c: "rv_clock env s = (started, s1)" by fastforce
  obtain r2 s2 where p: "rv_prepare env s1 = (r2, s2)" by fastforce
  obtain r3 s3 where g: "rv_register env s2 = (r3, s3)" by fastforce
  have e: "received s2 d = []" "sent s2 d = []" "received s3 d = []" "sent s3 d = []" "unread s3 d = whole d" for d
    using assms quiet(1,2) [of s] quiet(7,8) [of s1] quiet(9,10) [of s2] unread_quiet(1) [of s] unread_quiet(4) [of s1]
      unread_quiet(5) [of s2] by (simp_all add: c p g)
  have "relayed lim whole (relay_start started) s3"
    using True e by (simp add: relayed_def relay_start_def relay_limits_ok_def)
  moreover have "1 \<le> chunk_bytes lim" using True by (simp add: relay_limits_ok_def)
  ultimately obtain m4 where
    m: "relay_loop env lim started (relay_start started) s3 = Some m4"
      "case fst m4 of Inl e \<Rightarrow> prefix_kept lim whole (snd m4) | Inr st' \<Rightarrow> relayed lim whole st' (snd m4) \<and> \<not> relay_active st'"
    using relay_loop_returns [of lim whole "relay_start started" s3 started] by blast
  obtain r4 s4 where m4: "m4 = (r4, s4)" by (cases m4)
  note l = m(1) [unfolded m4] and o = m(2) [unfolded m4 fst_conv snd_conv]
  show ?thesis
  proof (cases "(\<exists>x. r2 = Inl x) \<or> (\<exists>x. r3 = Inl x)")
    case True
    then show ?thesis using \<open>relay_limits_ok lim\<close> c p g e
      by (cases r2) (auto simp: relay_tunnel_def)
  next
    case False
    then obtain x y where xy: "r2 = Inr x" "r3 = Inr y" by (cases r2; cases r3) auto
    show ?thesis
    proof (cases r4)
      case (Inl e)
      have "\<exists>rest. whole d = sent s4 (peer d) @ rest" for d
        using o unfolding Inl by (auto simp: prefix_kept_def) (metis append_assoc)
      with \<open>relay_limits_ok lim\<close> c p g l xy Inl show ?thesis by (auto simp: relay_tunnel_def)
    next
      case (Inr st)
      with o have R: "relayed lim whole st s4" and na: "\<not> relay_active st" by simp_all
      have f: "received s4 d = sent s4 (peer d) @ to_side st (peer d)"
        "from_side st d = length (received s4 d)" "int (from_side st d) \<le> maximum_bytes_per_direction lim"
        "whole d = received s4 d @ unread s4 d" "\<not> side_open st d \<Longrightarrow> unread s4 d = []"
        for d using R unfolding relayed_def by blast+
      have "to_side st d = []" "\<not> side_open st d" for d using na by (cases d; auto simp: relay_active_def)+
      then have "sent s4 (peer d) = whole d" "from_side st d = length (whole d)" for d
        using f [of d] by auto
      with \<open>relay_limits_ok lim\<close> c p g l xy Inr f(3) [of Client] f(3) [of Upstream] show ?thesis
        by (auto simp: relay_tunnel_def)
    qed
  qed
qed

end

section \<open>A scripted world\<close>

text \<open>
  Two connections whose peers send given chunks (\<open>None\<close> is a receive that fails, an empty chunk the end) and
  then end,
  a kernel that accepts as much of each send as \<open>wire_caps\<close> says, a selector that answers from a
  schedule, cut down to what it was asked for, and then with everything it was asked for, and a
  clock that ticks once per reading.
\<close>

record wire =
  wire_in :: "side \<Rightarrow> bytes option list"
  wire_got :: "side \<Rightarrow> bytes"
  wire_out :: "side \<Rightarrow> bytes"
  wire_caps :: "nat list"
  wire_schedule :: "(side \<times> bool \<times> bool) list list"
  wire_now :: int

definition wire_recv :: "side \<Rightarrow> nat \<Rightarrow> wire \<Rightarrow> (exn + bytes) \<times> wire" where
  "wire_recv d n w =
     (case wire_in w d of
        [] \<Rightarrow> (Inr [], w)
      | None # cs \<Rightarrow> (Inl (OSError ''resource temporarily unavailable''), w\<lparr>wire_in := (wire_in w)(d := cs)\<rparr>)
      | Some c # cs \<Rightarrow>
          if c = [] then (Inr [], w)
          else
          (Inr (take n c),
           w\<lparr>wire_in := (wire_in w)(d := if drop n c = [] then cs else Some (drop n c) # cs),
             wire_got := (wire_got w)(d := wire_got w d @ take n c)\<rparr>))"

text \<open>What the peer sends: its chunks up to the end.\<close>

fun sent_by :: "bytes option list \<Rightarrow> bytes" where
  "sent_by [] = []"
| "sent_by (None # cs) = sent_by cs"
| "sent_by (Some c # cs) = (if c = [] then [] else c @ sent_by cs)"

definition wire_left :: "wire \<Rightarrow> side \<Rightarrow> bytes" where
  "wire_left w d = sent_by (wire_in w d)"

definition wire_send :: "side \<Rightarrow> bytes \<Rightarrow> wire \<Rightarrow> (exn + int) \<times> wire" where
  "wire_send d b w =
     (let k = min (length b) (case wire_caps w of [] \<Rightarrow> length b | c # _ \<Rightarrow> c) in
      (Inr (int k), w\<lparr>wire_caps := tl (wire_caps w), wire_out := (wire_out w)(d := wire_out w d @ take k b)\<rparr>))"

definition wire_select ::
  "bool \<times> bool \<Rightarrow> bool \<times> bool \<Rightarrow> int \<Rightarrow> wire \<Rightarrow> (exn + (side \<times> bool \<times> bool) list) \<times> wire" where
  "wire_select i j timeout w =
     (case wire_schedule w of
        [] \<Rightarrow> (Inr [(Client, i), (Upstream, j)], w)
      | ready # rest \<Rightarrow>
          (Inr (map (\<lambda>(d, r, v). let a = (case d of Client \<Rightarrow> i | Upstream \<Rightarrow> j) in (d, r \<and> fst a, v \<and> snd a)) ready),
           w\<lparr>wire_schedule := rest\<rparr>))"

definition wire_env :: "wire relay_env" where
  "wire_env = \<lparr>rv_prepare = (\<lambda>w. (Inr (), w)), rv_register = (\<lambda>w. (Inr (), w)),
     rv_clock = (\<lambda>w. (wire_now w + 1, w\<lparr>wire_now := wire_now w + 1\<rparr>)), rv_select = wire_select,
     rv_recv = wire_recv, rv_send = wire_send, rv_shutdown = (\<lambda>d w. (Inr (), w))\<rparr>"

lemma wire_recv_laws:
  assumes "wire_recv d n w = (r, w')"
  shows "wire_out w' = wire_out w" "wire_now w' = wire_now w"
    "(case r of
        Inl _ \<Rightarrow> wire_got w' = wire_got w \<and> wire_left w' = wire_left w
      | Inr b \<Rightarrow> wire_got w' = (wire_got w)(d := wire_got w d @ b) \<and> length b \<le> n
          \<and> wire_left w = (wire_left w')(d := b @ wire_left w' d) \<and> (b = [] \<longrightarrow> 0 < n \<longrightarrow> wire_left w' d = []))"
  using assms
  by (auto simp: wire_recv_def wire_left_def fun_eq_iff split: list.splits option.splits if_splits)

interpretation wires: relay_world wire_env wire_got wire_left wire_out wire_now
proof unfold_locales
  fix d n b s t e
  show "rv_recv wire_env d n s = (Inr b, t) \<Longrightarrow>
      wire_got t = (wire_got s)(d := wire_got s d @ b) \<and> length b \<le> n
      \<and> wire_left s = (wire_left t)(d := b @ wire_left t d) \<and> (b = [] \<longrightarrow> 0 < n \<longrightarrow> wire_left t d = [])"
    and "rv_recv wire_env d n s = (Inl e, t) \<Longrightarrow> wire_got t = wire_got s \<and> wire_left t = wire_left s"
    using wire_recv_laws(3) [of d n s] by (auto simp: wire_env_def)
  show "wire_out (snd (rv_recv wire_env d n s)) = wire_out s" "wire_now s \<le> wire_now (snd (rv_recv wire_env d n s))"
    using wire_recv_laws [of d n s "fst (wire_recv d n s)" "snd (wire_recv d n s)"] by (simp_all add: wire_env_def)
qed (auto simp: wire_env_def wire_left_def wire_send_def wire_select_def Let_def split: list.split_asm list.split)

section \<open>Properties\<close>

text \<open>
  C8. The tunnel is faithful and always ends: whatever the peers send and in whatever pieces,
  whatever the kernel accepts of each send, whatever the selector answers, \<open>relay_tunnel\<close>
  returns. When it succeeds, each side has been sent exactly what the other side sent up to its
  end, the counts are the lengths, and neither exceeds the limit; when it fails, each side has been
  sent a prefix of what the other side sends.
\<close>

theorem relay_faithful:
  "\<exists>r t. relay_tunnel wire_env lim \<lparr>wire_in = ins, wire_got = (\<lambda>d. []), wire_out = (\<lambda>d. []),
      wire_caps = caps, wire_schedule = schedule, wire_now = now\<rparr> = Some (r, t) \<and>
    (case r of
       Inl e \<Rightarrow> (\<forall>d. \<exists>rest. sent_by (ins d) = wire_out t (peer d) @ rest)
     | Inr (a, b) \<Rightarrow> (\<forall>d. wire_out t (peer d) = sent_by (ins d)) \<and> a = length (sent_by (ins Client))
         \<and> b = length (sent_by (ins Upstream)) \<and> int (max a b) \<le> maximum_bytes_per_direction lim)"
  by (rule wires.relay_tunnel_law) (simp_all add: wire_left_def)

end
