(* ===== verification/Egress_Adapter.thy ===== *)
theory Egress_Adapter
  imports Egress_Protocol
begin

text \<open>
  \<open>src/agent_container/egress_adapter.py\<close>: the proxy inside the container. It parses one
  CONNECT request per connection, asks the broker for a tunnel and relays. The broker
  connection, the client's socket and the relay are parameters; \<open>serve_adapter\<close> and the
  configuration loader, which only wire them up, are not modelled.
\<close>

section \<open>The CONNECT request\<close>

definition MAX_CONNECT_HEADER_BYTES :: nat where
  "MAX_CONNECT_HEADER_BYTES = 16384"

definition CONNECTED_RESPONSE :: bytes where
  "CONNECTED_RESPONSE = ''HTTP/1.1 200 Connection Established'' @ [CHR 0x0D, CHR 0x0A, CHR 0x0D, CHR 0x0A]"

definition BAD_GATEWAY_RESPONSE :: bytes where
  "BAD_GATEWAY_RESPONSE = ''HTTP/1.1 502 Bad Gateway'' @ [CHR 0x0D, CHR 0x0A, CHR 0x0D, CHR 0x0A]"

definition invalid_request :: exn where
  "invalid_request = ValueError ''egress CONNECT request is invalid''"

text \<open>\<open>s.replace(CRLF, '''')\<close> and \<open>s.split(CRLF)\<close>.\<close>

fun drop_crlf :: "pystr \<Rightarrow> pystr" where
  "drop_crlf [] = []"
| "drop_crlf [c] = [c]"
| "drop_crlf (c # d # s) = (if c = 13 \<and> d = 10 then drop_crlf s else c # drop_crlf (d # s))"

fun add_front :: "'a \<Rightarrow> 'a list list \<Rightarrow> 'a list list" where
  "add_front c [] = [[c]]"
| "add_front c (p # ps) = (c # p) # ps"

fun split_crlf :: "pystr \<Rightarrow> pystr list" where
  "split_crlf [] = [[]]"
| "split_crlf [c] = [[c]]"
| "split_crlf (c # d # s) = (if c = 13 \<and> d = 10 then [] # split_crlf s else add_front c (split_crlf (d # s)))"

definition is_domain_char :: "nat \<Rightarrow> bool" where
  "is_domain_char c \<longleftrightarrow> is_label_char c \<or> c = 46 \<or> c = 45"

definition REQUEST_LINE :: "pystr \<Rightarrow> pystr option" where
  "REQUEST_LINE line =
     (let p = u ''CONNECT ''; q = u '':443 HTTP/1.1'';
          d = take (length line - length p - length q) (drop (length p) line) in
      if line = p @ d @ q \<and> d \<noteq> [] \<and> list_all is_domain_char d then Some d else None)"

definition is_header_name_char :: "nat \<Rightarrow> bool" where
  "is_header_name_char c \<longleftrightarrow> is_alnum c \<or> c \<in> set (u ''!#$%&'') \<or> c \<in> {39, 42, 43, 46, 94, 95, 96, 124, 126, 45}"

definition HEADER_NAME :: "pystr \<Rightarrow> bool" where
  "HEADER_NAME s \<longleftrightarrow> s \<noteq> [] \<and> list_all is_header_name_char s"

definition lower :: "pystr \<Rightarrow> pystr" where
  "lower s = map (\<lambda>c. if is_upper c then c + 32 else c) s"

text \<open>The loop over the header lines, collecting the Host values.\<close>

fun host_values :: "pystr list \<Rightarrow> exn + pystr list" where
  "host_values [] = Inr []"
| "host_values (line # lines) =
     (case split1 58 line of
        None \<Rightarrow> Inl invalid_request
      | Some (name, v) \<Rightarrow>
          if \<not> HEADER_NAME name \<or> \<not> startswith v [32] then Inl invalid_request
          else
            let val = tl v in
            if val = [] \<or> hd val = 32 \<or> last val = 32 then Inl invalid_request
            else if lower name = u ''host''
            then bindE (host_values lines) (\<lambda>hosts. Inr (val # hosts))
            else if lower name \<in> {u ''content-length'', u ''transfer-encoding''} then Inl invalid_request
            else host_values lines)"

definition printable :: "nat \<Rightarrow> bool" where
  "printable c \<longleftrightarrow> 32 \<le> c \<and> c \<le> 126"

definition parse_connect_request :: "bytes \<Rightarrow> exn + pystr" where
  "parse_connect_request header =
     (if header = [] \<or> MAX_CONNECT_HEADER_BYTES < length header
        \<or> \<not> endswith (u header) [13, 10, 13, 10]
        \<or> 10 \<in> set (drop_crlf (u header)) \<or> 13 \<in> set (drop_crlf (u header))
      then Inl invalid_request
      else
        bindE (reraise_if (\<lambda>e. e = UnicodeDecodeError) invalid_request (ascii_decode header)) (\<lambda>text.
          if \<not> list_all printable (drop_crlf text) then Inl invalid_request
          else
            let lines = split_crlf (take (length text - 4) text) in
            (case REQUEST_LINE (hd lines) of
               None \<Rightarrow> Inl invalid_request
             | Some domain \<Rightarrow>
                 bindE (reraise_if is_value_error invalid_request (validate_domain_str domain)) (\<lambda>_.
                 bindE (host_values (tl lines)) (\<lambda>hosts.
                   if hosts \<noteq> [domain @ u '':443''] then Inl invalid_request else Inr domain)))))"

text \<open>
  Reading the header: \<open>recv(n)\<close> returns at most \<open>n\<close> bytes, nothing at the end. Every turn of
  the loop adds at least one byte, so it ends.
\<close>

function read_header_loop ::
  "(nat \<Rightarrow> 's \<Rightarrow> (exn + bytes) \<times> 's) \<Rightarrow> bytes \<Rightarrow> 's \<Rightarrow> (exn + bytes) \<times> 's" where
  "read_header_loop recv header s =
     (if contains [CHR 0x0D, CHR 0x0A, CHR 0x0D, CHR 0x0A] header then (Inr header, s)
      else if MAX_CONNECT_HEADER_BYTES \<le> length header then (Inl invalid_request, s)
      else
        (case recv (min 4096 (MAX_CONNECT_HEADER_BYTES - length header)) s of
           (Inl e, t) \<Rightarrow> (Inl e, t)
         | (Inr chunk, t) \<Rightarrow>
             (if chunk = [] then (Inl invalid_request, t) else read_header_loop recv (header @ chunk) t)))"
  by pat_completeness auto
termination
  by (relation "measure (\<lambda>(recv, header, s). MAX_CONNECT_HEADER_BYTES - length header)")
     (auto simp flip: length_greater_0_conv)

declare read_header_loop.simps [simp del]

definition read_connect_header :: "(nat \<Rightarrow> 's \<Rightarrow> (exn + bytes) \<times> 's) \<Rightarrow> 's \<Rightarrow> (exn + bytes) \<times> 's" where
  "read_connect_header recv s = read_header_loop recv [] s"

section \<open>Sequence numbers\<close>

record EgressSequence =
  sq_value :: int

definition next_sequence :: "EgressSequence \<Rightarrow> (exn + int) \<times> EgressSequence" where
  "next_sequence q =
     (if MAX_SEQUENCE \<le> sq_value q then (Inl (ValueError ''egress sequence is exhausted''), q)
      else (Inr (sq_value q + 1), q\<lparr>sq_value := sq_value q + 1\<rparr>))"

section \<open>One client\<close>

record AdapterConfig =
  ac_capability :: pystr
  ac_project_id :: pystr
  ac_agent :: pystr

text \<open>
  What a tunnel does to the outside, in order. \<open>gateway\<close> is the connection to the broker.
\<close>

datatype adapter_event =
    RequestSent EgressRequest
  | ClientSent bytes
  | TunnelOpened pystr int
  | Relayed
  | GatewayClosed

text \<open>
  The broker side of a tunnel: whether connecting, sending and reading the answer work.
  \<open>gw_response\<close> is what \<open>read_response_frame\<close> returns.
\<close>

record gateway =
  gw_connect :: "exn + unit"
  gw_send :: "exn + unit"
  gw_response :: "exn + EgressResponse"

definition tunnel_error :: exn where
  "tunnel_error = ValueError ''egress gateway request failed''"

definition open_gateway_tunnel ::
  "gateway \<Rightarrow> AdapterConfig \<Rightarrow> pystr \<Rightarrow> int \<Rightarrow> (exn + unit) \<times> adapter_event list" where
  "open_gateway_tunnel g config domain sequence =
     (case gw_connect g of
        Inl e \<Rightarrow> (Inl (if is_os_error e \<or> is_value_error e then tunnel_error else e), [])
      | Inr _ \<Rightarrow>
          let request = \<lparr>rq_version = PROTOCOL_VERSION, rq_capability = ac_capability config,
                rq_project_id = ac_project_id config, rq_sequence = sequence,
                rq_operation = u ''connect'', rq_domain = domain, rq_port = 443\<rparr>;
              exchange = bindE (encode_request_frame request) (\<lambda>_.
                bindE (gw_send g) (\<lambda>_.
                bindE (gw_response g) (\<lambda>response.
                  if rs_status response \<noteq> u ''ok'' \<or> rs_code response \<noteq> u ''connect''
                  then Inl tunnel_error else Inr ())));
              sent = (case bindE (encode_request_frame request) (\<lambda>_. gw_send g) of
                        Inl _ \<Rightarrow> [] | Inr _ \<Rightarrow> [RequestSent request]) in
          (case exchange of
             Inr _ \<Rightarrow> (Inr (), sent @ [TunnelOpened domain sequence])
           | Inl e \<Rightarrow>
               if is_os_error e \<or> is_value_error e then (Inl tunnel_error, sent @ [GatewayClosed])
               else (Inl e, sent)))"

text \<open>
  \<open>handle_connect_client\<close>: \<open>header\<close> is what reading the request gave, \<open>can_send\<close> whether the
  client still takes bytes, \<open>relay\<close> the outcome of the relay. The second result is the events,
  the third the sequence counter.
\<close>

definition handle_connect_client ::
  "gateway \<Rightarrow> (bytes \<Rightarrow> exn + unit) \<Rightarrow> (exn + nat \<times> nat) \<Rightarrow> AdapterConfig \<Rightarrow> (exn + bytes)
     \<Rightarrow> EgressSequence \<Rightarrow> (exn + (nat \<times> nat) option) \<times> adapter_event list \<times> EgressSequence" where
  "handle_connect_client g can_send relay config header q =
     (let refused = (\<lambda>e events q'.
            if is_os_error e \<or> is_value_error e
            then (case can_send BAD_GATEWAY_RESPONSE of
                    Inl e' \<Rightarrow> (if is_os_error e' then Inr None else Inl e', events, q')
                  | Inr _ \<Rightarrow> (Inr None, events @ [ClientSent BAD_GATEWAY_RESPONSE], q'))
            else (Inl e, events, q')) in
      (case bindE header parse_connect_request of
         Inl e \<Rightarrow> refused e [] q
       | Inr domain \<Rightarrow>
           (case next_sequence q of
              (Inl e, q1) \<Rightarrow> refused e [] q1
            | (Inr sequence, q1) \<Rightarrow>
                (case open_gateway_tunnel g config domain sequence of
                   (Inl e, events) \<Rightarrow> refused e events q1
                 | (Inr _, events) \<Rightarrow>
                     (case can_send CONNECTED_RESPONSE of
                        Inl e \<Rightarrow>
                          (case refused e events q1 of (r, events', q2) \<Rightarrow> (r, events' @ [GatewayClosed], q2))
                      | Inr _ \<Rightarrow>
                          let after = events @ [ClientSent CONNECTED_RESPONSE, Relayed, GatewayClosed] in
                          (case relay of
                             Inr counts \<Rightarrow> (Inr (Some counts), after, q1)
                           | Inl e \<Rightarrow>
                               if is_os_error e \<or> is_value_error e then (Inr None, after, q1)
                               else (Inl e, after, q1)))))))"

section \<open>Lines\<close>

lemma split_crlf_nonempty [simp]: "split_crlf s \<noteq> []"
proof (induction s rule: split_crlf.induct)
  case (3 c d s)
  then show ?case by (cases "split_crlf (d # s)") auto
qed simp_all

lemma join_add_front: "ps \<noteq> [] \<Longrightarrow> join_with sep (add_front c ps) = c # join_with sep ps"
  by (cases ps; cases "tl ps") auto

lemma concat_add_front: "concat (add_front c ps) = c # concat ps"
  by (cases ps) auto

lemma join_split_crlf: "join_with [13, 10] (split_crlf s) = s"
proof (induction s rule: split_crlf.induct)
  case (3 c d s)
  show ?case
  proof (cases "c = 13 \<and> d = 10")
    case True
    obtain p ps where "split_crlf s = p # ps" by (meson neq_Nil_conv split_crlf_nonempty)
    with 3(1) [OF True] True show ?thesis by simp
  next
    case False
    have "split_crlf (c # d # s) = add_front c (split_crlf (d # s))" using False by (simp only: split_crlf.simps if_False)
    with 3(2) [OF False] show ?thesis by (simp only: join_add_front split_crlf_nonempty not_False_eq_True)
  qed
qed simp_all

lemma concat_split_crlf: "concat (split_crlf s) = drop_crlf s"
proof (induction s rule: split_crlf.induct)
  case (3 c d s)
  show ?case
  proof (cases "c = 13 \<and> d = 10")
    case False
    have "split_crlf (c # d # s) = add_front c (split_crlf (d # s))"
      "drop_crlf (c # d # s) = c # drop_crlf (d # s)"
      using False by (simp_all only: split_crlf.simps drop_crlf.simps if_False)
    with 3(2) [OF False] show ?thesis by (simp only: concat_add_front)
  qed (use 3 in simp)
qed simp_all

lemma drop_crlf_append: "drop_crlf (w @ 13 # 10 # r) = drop_crlf w @ drop_crlf r"
  by (induction w rule: drop_crlf.induct) simp_all

lemma split_crlf_line: "13 \<notin> set p \<Longrightarrow> split_crlf p = [p]"
  by (induction p rule: split_crlf.induct) simp_all

lemma split_crlf_append: "13 \<notin> set p \<Longrightarrow> split_crlf (p @ 13 # 10 # r) = p # split_crlf r"
  by (induction p rule: split_crlf.induct) simp_all

lemma split_join_crlf:
  "ls \<noteq> [] \<Longrightarrow> \<forall>l \<in> set ls. 13 \<notin> set l \<Longrightarrow> split_crlf (join_with [13, 10] ls) = ls"
  by (induction "[13, 10 :: nat]" ls rule: join_with.induct) (auto simp: split_crlf_line split_crlf_append)

lemma join_with_lines: "join_with sep (l # ls) = l @ concat (map (\<lambda>l. sep @ l) ls)"
  by (induction ls arbitrary: l) simp_all

lemma REQUEST_LINE_Some:
  "REQUEST_LINE line = Some d \<longleftrightarrow>
     line = u ''CONNECT '' @ d @ u '':443 HTTP/1.1'' \<and> d \<noteq> [] \<and> list_all is_domain_char d"
  by (auto simp: REQUEST_LINE_def Let_def)

lemma domain_printable: "validate_domain_str d = Inr d \<Longrightarrow> list_all is_domain_char d \<and> list_all printable d \<and> d \<noteq> []"
proof -
  assume v: "validate_domain_str d = Inr d"
  have "is_domain_char c \<and> printable c" if "c \<in> set d" for c
    using domain_chars [OF v that] by (auto simp: is_domain_char_def printable_def is_label_char_def class_simps)
  then show ?thesis using v by (auto simp: list_all_iff validate_domain_str_Inr)
qed

lemma not_printable [simp]: "\<not> printable 13" "\<not> printable 10"
  by (simp_all add: printable_def)

lemma printable_u: "list_all printable (u ''CONNECT '')" "list_all printable (u '':443 HTTP/1.1'')"
  by (simp_all add: u_def printable_def)

lemma ascii_decode_u: "ascii_decode b = Inr t \<longleftrightarrow> t = u b \<and> list_all (\<lambda>c. c < 128) (u b)"
  by (auto simp: ascii_decode_def u_def list_all_iff)

text \<open>The requests the parser accepts, line by line.\<close>

definition connect_request :: "pystr \<Rightarrow> pystr list \<Rightarrow> pystr" where
  "connect_request d lines = u ''CONNECT '' @ d @ u '':443 HTTP/1.1''
     @ concat (map (\<lambda>l. [13, 10] @ l) lines) @ [13, 10, 13, 10]"

lemma parse_connect_sound:
  assumes "parse_connect_request header = Inr d"
  shows "validate_domain_str d = Inr d \<and> length header \<le> MAX_CONNECT_HEADER_BYTES
    \<and> (\<exists>lines. u header = connect_request d lines \<and> list_all (list_all printable) lines
        \<and> host_values lines = Inr [d @ u '':443''])"
proof -
  from assms have e: "endswith (u header) [13, 10, 13, 10]" "length header \<le> MAX_CONNECT_HEADER_BYTES"
    by (auto simp: parse_connect_request_def split: if_split_asm)
  then obtain w where w: "u header = w @ [13, 10, 13, 10]" by (auto simp: endswith_iff)
  have t: "length (u header) - 4 = length w" "take (length w) (u header) = w"
    unfolding w by simp_all
  from assms have l: "list_all printable (drop_crlf (u header))" "REQUEST_LINE (hd (split_crlf w)) = Some d"
    "validate_domain_str d = Inr d" "host_values (tl (split_crlf w)) = Inr [d @ u '':443'']"
    unfolding parse_connect_request_def
    by (auto simp: reraise_if_Inr_iff ascii_decode_u Let_def t validate_domain_str_Inr simp del: u_simps
        split: if_split_asm option.split_asm)
  have "drop_crlf (u header) = drop_crlf w" unfolding w by (simp add: drop_crlf_append [of w "[13, 10]"])
  with l(1) have "list_all printable (concat (split_crlf w))" by (simp add: concat_split_crlf)
  then have p: "list_all (list_all printable) (tl (split_crlf w))"
    by (cases "split_crlf w") (auto simp: list_all_iff)
  have "w = hd (split_crlf w) @ concat (map (\<lambda>l. [13, 10] @ l) (tl (split_crlf w)))"
    using join_with_lines [of "[13, 10]" "hd (split_crlf w)" "tl (split_crlf w)"] join_split_crlf [of w] by simp
  then have "u header = connect_request d (tl (split_crlf w))"
    using l(2) w by (simp add: REQUEST_LINE_Some connect_request_def del: u_simps)
  with e(2) l p show ?thesis by blast
qed

lemma parse_connect_complete:
  assumes "validate_domain_str d = Inr d" and "length header \<le> MAX_CONNECT_HEADER_BYTES"
    and "u header = connect_request d lines" and "list_all (list_all printable) lines"
    and "host_values lines = Inr [d @ u '':443'']"
  shows "parse_connect_request header = Inr d"
proof -
  let ?first = "u ''CONNECT '' @ d @ u '':443 HTTP/1.1''"
  let ?w = "join_with [13, 10] (?first # lines)"
  have w: "u header = ?w @ [13, 10, 13, 10]"
    unfolding assms(3) connect_request_def join_with_lines by simp
  have pr: "list_all (list_all printable) (?first # lines)"
    using domain_printable [OF assms(1)] printable_u assms(4) by simp
  then have "\<forall>l \<in> set (?first # lines). 13 \<notin> set l"
    unfolding list_all_iff using not_printable by blast
  then have sp: "split_crlf ?w = ?first # lines" by (intro split_join_crlf) simp_all
  have dc: "drop_crlf (u header) = concat (?first # lines)"
    using drop_crlf_append [of ?w "[13, 10]"] concat_split_crlf [of ?w] sp unfolding w by simp
  have all: "list_all printable (drop_crlf (u header))"
    using pr unfolding dc by (auto simp: list_all_iff)
  have no: "10 \<notin> set (drop_crlf (u header))" "13 \<notin> set (drop_crlf (u header))"
    using all not_printable unfolding list_all_iff by blast+
  have "set (u header) \<subseteq> set (drop_crlf (u header)) \<union> {13, 10}"
  proof -
    have "set (join_with [13, 10] ls) \<subseteq> set (concat ls) \<union> {13, 10 :: nat}" for ls
      by (induction "[13, 10 :: nat]" ls rule: join_with.induct) auto
    from this [of "?first # lines"] show ?thesis unfolding dc unfolding w by auto
  qed
  with all have "list_all (\<lambda>c. c < 128) (u header)" by (fastforce simp: list_all_iff printable_def)
  then have asc: "ascii_decode header = Inr (u header)" by (simp add: ascii_decode_u)
  have t: "take (length (u header) - 4) (u header) = ?w" unfolding w by simp
  have ends: "endswith (u header) [13, 10, 13, 10]" using w by (auto simp: endswith_iff)
  then have ne: "header \<noteq> []" by (auto simp: endswith_def)
  have rl: "REQUEST_LINE ?first = Some d"
    using domain_printable [OF assms(1)] by (simp add: REQUEST_LINE_Some)
  have nl: "\<not> MAX_CONNECT_HEADER_BYTES < length header" using assms(2) by simp
  show ?thesis
    using nl assms(5) no ends ne asc all sp rl
    by (simp only: parse_connect_request_def t Let_def list.sel option.case reraise_if_simps bindE_simps
        assms(1) if_False if_True simp_thms not_True_eq_False)
qed

section \<open>The header fs\<close>

text \<open>
  What a header may hold besides its first line, said without the parser: fields of a token as name, a
  colon, one space and a value that neither begins nor ends with a space. Names count without regard to
  case; none of them announces a body.
\<close>

definition token_chars :: pystr where
  "token_chars = u ''abcdefghijklmnopqrstuvwxyzABCDEFGHIJKLMNOPQRSTUVWXYZ0123456789!#$%&*+-.^_`|~'' @ [39]"

definition field_line :: "pystr \<times> pystr \<Rightarrow> pystr" where
  "field_line f = fst f @ u '': '' @ snd f"

definition plain_field :: "pystr \<times> pystr \<Rightarrow> bool" where
  "plain_field f \<longleftrightarrow> fst f \<noteq> [] \<and> set (fst f) \<subseteq> set token_chars
     \<and> snd f \<noteq> [] \<and> hd (snd f) \<noteq> 32 \<and> last (snd f) \<noteq> 32
     \<and> lower (fst f) \<noteq> u ''content-length'' \<and> lower (fst f) \<noteq> u ''transfer-encoding''"

definition hosts_of :: "(pystr \<times> pystr) list \<Rightarrow> pystr list" where
  "hosts_of fs = map snd (filter (\<lambda>f. lower (fst f) = u ''host'') fs)"

lemma header_name_chars: "is_header_name_char c \<longleftrightarrow> c \<in> set token_chars"
proof (cases "c < 128")
  case True
  have "list_all (\<lambda>c. is_header_name_char c = (c \<in> set token_chars)) [0..<128]" by code_simp
  with True show ?thesis by (simp add: list_all_iff)
next
  case False
  have "list_all (\<lambda>c. c < 128) token_chars" by code_simp
  with False show ?thesis by (auto simp: is_header_name_char_def u_def class_simps list_all_iff)
qed

lemma HEADER_NAME_iff: "HEADER_NAME n \<longleftrightarrow> n \<noteq> [] \<and> set n \<subseteq> set token_chars"
  by (auto simp: HEADER_NAME_def list_all_iff header_name_chars)

lemma no_colon: "58 \<notin> set token_chars"
  by (simp add: token_chars_def u_def)

lemma host_values_line:
  assumes "plain_field f"
  shows "host_values (field_line f # lines) =
    (if lower (fst f) = u ''host'' then bindE (host_values lines) (\<lambda>hosts. Inr (snd f # hosts)) else host_values lines)"
proof -
  have "58 \<notin> set (fst f)" using assms no_colon by (auto simp: plain_field_def)
  then have "split1 58 (field_line f) = Some (fst f, 32 # snd f)"
    by (simp add: field_line_def u_def split1_append)
  with assms show ?thesis
    by (simp add: plain_field_def HEADER_NAME_iff startswith_def del: u_simps)
qed

lemma host_values_plain: "list_all plain_field fs \<Longrightarrow> host_values (map field_line fs) = Inr (hosts_of fs)"
  by (induction fs) (simp_all add: host_values_line hosts_of_def del: host_values.simps(2))

lemma host_values_field:
  assumes "host_values (line # lines) = Inr hosts"
  obtains f hosts' where "line = field_line f" and "plain_field f" and "host_values lines = Inr hosts'"
proof -
  obtain name v where s: "split1 58 line = Some (name, v)" using assms by (auto split: option.split_asm)
  with assms have l: "HEADER_NAME name" "startswith v [32]" "tl v \<noteq> []" "hd (tl v) \<noteq> 32" "last (tl v) \<noteq> 32"
    "lower name \<noteq> u ''content-length''" "lower name \<noteq> u ''transfer-encoding''" "\<exists>hs. host_values lines = Inr hs"
    by (auto simp: Let_def simp del: u_simps split: if_split_asm)
  have "v = 32 # tl v" using l(2) by (auto simp: startswith_iff)
  then have "line = field_line (name, tl v)" using split1_SomeD [OF s] by (simp add: field_line_def u_def)
  moreover have "plain_field (name, tl v)" using l by (simp add: plain_field_def HEADER_NAME_iff del: u_simps)
  ultimately show thesis using that l(8) by blast
qed

lemma host_values_fields:
  "host_values lines = Inr hosts \<Longrightarrow> \<exists>fs. lines = map field_line fs \<and> list_all plain_field fs"
proof (induction lines arbitrary: hosts)
  case (Cons line lines)
  from host_values_field [OF Cons.prems] obtain f hosts' where f: "line = field_line f" "plain_field f"
    and r: "host_values lines = Inr hosts'" by blast
  from Cons.IH [OF r] obtain fs where "lines = map field_line fs" "list_all plain_field fs" by blast
  with f have "line # lines = map field_line (f # fs) \<and> list_all plain_field (f # fs)" by simp
  then show ?case by (rule exI)
qed simp

lemma host_values_iff:
  "host_values lines = Inr hosts \<longleftrightarrow>
     (\<exists>fs. lines = map field_line fs \<and> list_all plain_field fs \<and> hosts = hosts_of fs)"
  by (metis host_values_fields host_values_plain sum.inject(2))

section \<open>Properties\<close>

text \<open>
  C10. The CONNECT parser has one reading: \<open>parse_connect_request\<close> accepts a header for the
  domain \<open>d\<close> if and only if \<open>d\<close> is a valid domain and the header is, byte for byte, the line
  CONNECT d:443 HTTP/1.1, header fields of printable characters (a token, a colon, one space, a value
  without space at either end), none of them named Content-Length or Transfer-Encoding and exactly one
  named Host, whose value is d:443, and an empty line, all ended by CRLF, within 16384 bytes.
\<close>

theorem connect_request_exact:
  "parse_connect_request header = Inr d \<longleftrightarrow>
     validate_domain_str d = Inr d \<and> length header \<le> 16384
     \<and> (\<exists>fs. u header = connect_request d (map field_line fs) \<and> list_all (list_all printable) (map field_line fs)
         \<and> list_all plain_field fs \<and> hosts_of fs = [d @ u '':443''])"
  using parse_connect_sound [of header d] parse_connect_complete [of d header]
  unfolding MAX_CONNECT_HEADER_BYTES_def host_values_iff by metis

definition tunnel_request :: "AdapterConfig \<Rightarrow> pystr \<Rightarrow> int \<Rightarrow> EgressRequest" where
  "tunnel_request config domain sequence =
     \<lparr>rq_version = 1, rq_capability = ac_capability config, rq_project_id = ac_project_id config,
      rq_sequence = sequence, rq_operation = u ''connect'', rq_domain = domain, rq_port = 443\<rparr>"

text \<open>What the client is told, in order.\<close>

definition answers :: "adapter_event list \<Rightarrow> bytes list" where
  "answers events = concat (map (\<lambda>e. case e of ClientSent b \<Rightarrow> [b] | _ \<Rightarrow> []) events)"

lemma answers_simps [simp]:
  "answers [] = []" "answers (ClientSent b # es) = b # answers es" "answers (RequestSent q # es) = answers es"
  "answers (TunnelOpened d n # es) = answers es" "answers (Relayed # es) = answers es"
  "answers (GatewayClosed # es) = answers es" "answers (xs @ ys) = answers xs @ answers ys"
  by (simp_all add: answers_def)

lemma open_gateway_exchange:
  "open_gateway_tunnel g config d n =
     (let failed = (\<lambda>e evs. if is_os_error e \<or> is_value_error e then (Inl tunnel_error, evs @ [GatewayClosed]) else (Inl e, evs));
          request = tunnel_request config d n in
      case gw_connect g of
        Inl e \<Rightarrow> (Inl (if is_os_error e \<or> is_value_error e then tunnel_error else e), [])
      | Inr _ \<Rightarrow>
          (case encode_request_frame request of
             Inl e \<Rightarrow> failed e []
           | Inr _ \<Rightarrow>
               (case gw_send g of
                  Inl e \<Rightarrow> failed e []
                | Inr _ \<Rightarrow>
                    (case gw_response g of
                       Inl e \<Rightarrow> failed e [RequestSent request]
                     | Inr response \<Rightarrow>
                         if rs_status response = u ''ok'' \<and> rs_code response = u ''connect''
                         then (Inr (), [RequestSent request, TunnelOpened d n])
                         else failed tunnel_error [RequestSent request]))))"
  by (cases "gw_connect g"; cases "gw_send g"; cases "gw_response g")
    (simp_all add: open_gateway_tunnel_def tunnel_request_def PROTOCOL_VERSION_def Let_def bindE_def tunnel_error_def
      del: u_simps split: sum.split)

lemma open_gateway_events:
  assumes "open_gateway_tunnel g config d n = (r, events)"
  shows "answers events = []" "Relayed \<notin> set events"
    "isl r \<Longrightarrow> TunnelOpened d' n' \<notin> set events"
    "\<not> isl r \<Longrightarrow> \<exists>resp. gw_response g = Inr resp \<and> rs_status resp = u ''ok'' \<and> rs_code resp = u ''connect''
       \<and> events = [RequestSent (tunnel_request config d n), TunnelOpened d n] \<and> valid_request (tunnel_request config d n)"
proof -
  have "answers events = [] \<and> Relayed \<notin> set events \<and> (isl r \<longrightarrow> TunnelOpened d' n' \<notin> set events)
    \<and> (\<not> isl r \<longrightarrow> (\<exists>resp b. gw_response g = Inr resp \<and> rs_status resp = u ''ok'' \<and> rs_code resp = u ''connect''
       \<and> events = [RequestSent (tunnel_request config d n), TunnelOpened d n]
       \<and> encode_request_frame (tunnel_request config d n) = Inr b))"
    using assms unfolding open_gateway_exchange Let_def
    by (cases g; cases "gw_connect g"; cases "encode_request_frame (tunnel_request config d n)"; cases "gw_send g";
        cases "gw_response g"; simp only: gateway.simps)
      (auto simp: tunnel_error_def simp del: u_simps split: if_split_asm)
  then show "answers events = []" "Relayed \<notin> set events"
    "isl r \<Longrightarrow> TunnelOpened d' n' \<notin> set events"
    "\<not> isl r \<Longrightarrow> \<exists>resp. gw_response g = Inr resp \<and> rs_status resp = u ''ok'' \<and> rs_code resp = u ''connect''
       \<and> events = [RequestSent (tunnel_request config d n), TunnelOpened d n] \<and> valid_request (tunnel_request config d n)"
    by (auto simp: encode_request_frame_Inr simp del: u_simps)
qed

text \<open>
  C11. Each client is answered at most once, and 200 only for a tunnel that the proxy has: if a client is told
  that its connection is established, then its header parsed as a CONNECT for some domain, the request with
  the next sequence number for that domain was sent, the broker answered ok and connect, and the events are
  exactly: request, tunnel, 200, relay, close. Otherwise nothing is relayed, and what the client is told is one
  502, or nothing when the answer cannot be sent or an exception other than \<open>OSError\<close> and \<open>ValueError\<close>
  leaves the handler. A tunnel that was opened is closed last, and the counter advances by one exactly when
  the header parsed and the numbers are not used up.
\<close>

theorem connect_client_events:
  assumes "handle_connect_client g can_send relay config header q = (r, events, q')"
  shows "(if CONNECTED_RESPONSE \<in> set (answers events)
      then \<exists>d resp. bindE header parse_connect_request = Inr d \<and> gw_response g = Inr resp
        \<and> rs_status resp = u ''ok'' \<and> rs_code resp = u ''connect''
        \<and> events = [RequestSent (tunnel_request config d (sq_value q + 1)), TunnelOpened d (sq_value q + 1),
            ClientSent CONNECTED_RESPONSE, Relayed, GatewayClosed]
        \<and> valid_request (tunnel_request config d (sq_value q + 1))
      else Relayed \<notin> set events \<and> (\<forall>counts. r \<noteq> Inr (Some counts))
        \<and> answers events = (if isl r \<or> isl (can_send BAD_GATEWAY_RESPONSE) then [] else [BAD_GATEWAY_RESPONSE])
        \<and> (\<forall>d n. TunnelOpened d n \<in> set events \<longrightarrow> last events = GatewayClosed))
    \<and> sq_value q' = (if isl (bindE header parse_connect_request) \<or> MAX_SEQUENCE \<le> sq_value q
        then sq_value q else sq_value q + 1)"
proof -
  have ne: "BAD_GATEWAY_RESPONSE \<noteq> CONNECTED_RESPONSE"
    by (simp add: BAD_GATEWAY_RESPONSE_def CONNECTED_RESPONSE_def)
  show ?thesis
  proof (cases "bindE header parse_connect_request")
    case (Inl e)
    with assms ne show ?thesis
      by (auto simp: handle_connect_client_def Let_def split: if_split_asm sum.split_asm)
  next
    case d: (Inr d)
    show ?thesis
    proof (cases "MAX_SEQUENCE \<le> sq_value q")
      case True
      with d assms ne show ?thesis
        by (auto simp: handle_connect_client_def Let_def next_sequence_def split: if_split_asm sum.split_asm)
    next
      case False
      obtain oc evs where og: "open_gateway_tunnel g config d (sq_value q + 1) = (oc, evs)" by fastforce
      note ev = open_gateway_events [OF og]
      show ?thesis
      proof (cases oc)
        case (Inl e)
        with d False og ev(1-3) assms ne show ?thesis
          by (auto simp: handle_connect_client_def Let_def next_sequence_def split: if_split_asm sum.split_asm)
      next
        case (Inr x)
        with ev(4) obtain resp where "gw_response g = Inr resp" "rs_status resp = u ''ok''" "rs_code resp = u ''connect''"
          "evs = [RequestSent (tunnel_request config d (sq_value q + 1)), TunnelOpened d (sq_value q + 1)]"
          "valid_request (tunnel_request config d (sq_value q + 1))" by auto
        with d False og Inr assms ne show ?thesis
          by (auto simp: handle_connect_client_def Let_def next_sequence_def simp del: u_simps
              split: if_split_asm sum.split_asm)
      qed
    qed
  qed
qed

definition demo_config :: AdapterConfig where
  "demo_config = \<lparr>ac_capability = u ''c'', ac_project_id = u ''p'', ac_agent = u ''codex''\<rparr>"

definition demo_gateway :: gateway where
  "demo_gateway = \<lparr>gw_connect = Inr (), gw_send = Inr (),
     gw_response = Inr \<lparr>rs_version = 1, rs_status = u ''ok'', rs_code = u ''connect''\<rparr>\<rparr>"

definition demo_header :: bytes where
  "demo_header = ''CONNECT a.io:443 HTTP/1.1'' @ [CHR 0x0D, CHR 0x0A] @ ''Host: a.io:443''
     @ [CHR 0x0D, CHR 0x0A, CHR 0x0D, CHR 0x0A]"

lemma demo_header_parsed: "parse_connect_request demo_header = Inr (u ''a.io'')"
proof (rule parse_connect_complete)
  show "validate_domain_str (u ''a.io'') = Inr (u ''a.io'')"
    using demo_request_valid by (simp add: valid_request_def demo_request_def)
  show "u demo_header = connect_request (u ''a.io'') [u ''Host: a.io:443'']"
    by (simp add: demo_header_def connect_request_def u_def)
  show "host_values [u ''Host: a.io:443''] = Inr [u ''a.io'' @ u '':443'']"
    by (simp add: u_def split1_def HEADER_NAME_def is_header_name_char_def class_simps startswith_def lower_def)
qed (simp_all add: demo_header_def MAX_CONNECT_HEADER_BYTES_def u_def printable_def)

theorem connect_client_events_witness:
  "\<exists>events. handle_connect_client demo_gateway (\<lambda>b. Inr ()) (Inr (10, 20)) demo_config (Inr demo_header)
      \<lparr>sq_value = 6\<rparr> = (Inr (Some (10, 20)), events, \<lparr>sq_value = 7\<rparr>)
    \<and> events = [RequestSent (tunnel_request demo_config (u ''a.io'') 7), TunnelOpened (u ''a.io'') 7,
        ClientSent CONNECTED_RESPONSE, Relayed, GatewayClosed]"
proof -
  have r: "tunnel_request demo_config (u ''a.io'') 7 = demo_request"
    by (simp add: tunnel_request_def demo_config_def demo_request_def)
  have h: "\<exists>events. handle_connect_client demo_gateway (\<lambda>b. Inr ()) (Inr (10, 20)) demo_config (Inr demo_header)
      \<lparr>sq_value = 6\<rparr> = (Inr (Some (10, 20)), events, \<lparr>sq_value = 7\<rparr>) \<and> CONNECTED_RESPONSE \<in> set (answers events)"
    using demo_request_encoded r
    by (simp add: handle_connect_client_def demo_header_parsed next_sequence_def MAX_SEQUENCE_def
        open_gateway_tunnel_def demo_gateway_def PROTOCOL_VERSION_def tunnel_request_def)
  then obtain events where e: "handle_connect_client demo_gateway (\<lambda>b. Inr ()) (Inr (10, 20)) demo_config
      (Inr demo_header) \<lparr>sq_value = 6\<rparr> = (Inr (Some (10, 20)), events, \<lparr>sq_value = 7\<rparr>)"
    and c: "CONNECTED_RESPONSE \<in> set (answers events)" by blast
  from connect_client_events [OF e] c e show ?thesis by (auto simp: demo_header_parsed)
qed

end
