(* ===== verification/Github_Policy.thy ===== *)
theory Github_Policy
  imports Host_State
begin

text \<open>
  \<open>src/agent_container/github_broker_policy.py\<close>: what one project may do on its repository.
  A \<open>BrokerPolicy\<close> is created once from validated values; its methods decide operations,
  branches and push refs.
\<close>

section \<open>Branches and text\<close>

definition ALLOWED_OPERATIONS :: "pystr set" where
  "ALLOWED_OPERATIONS = {u ''git-upload-pack'', u ''git-receive-pack'', u ''pr-create'', u ''pr-view'',
     u ''pr-checks'', u ''issue-list'', u ''issue-view''}"

definition MAX_PR_NUMBER :: int where
  "MAX_PR_NUMBER = 2147483647"

definition MAX_PR_TITLE_BYTES :: nat where
  "MAX_PR_TITLE_BYTES = 256"

definition MAX_PR_BODY_BYTES :: nat where
  "MAX_PR_BODY_BYTES = 65536"

definition is_branch_char :: "nat \<Rightarrow> bool" where
  "is_branch_char c \<longleftrightarrow> is_alnum c \<or> c = 46 \<or> c = 95 \<or> c = 47 \<or> c = 45"

definition BRANCH :: "pystr \<Rightarrow> bool" where
  "BRANCH s = class_match is_alnum is_branch_char 199 s"

definition branch_error :: exn where
  "branch_error = ValueError ''branch is not allowed''"

text \<open>\<open>[64, 123]\<close> is an at sign and an opening brace, Git's reflog syntax.\<close>

definition validate_branch :: "pystr \<Rightarrow> exn + pystr" where
  "validate_branch v =
     (if \<not> BRANCH v \<or> startswith v (u ''refs/'') \<or> endswith v (u ''/'') \<or> endswith v (u ''.'')
       \<or> contains (u ''//'') v \<or> contains (u ''..'') v \<or> contains ([64, 123]) v
       \<or> list_ex (\<lambda>part. part \<in> {[], u ''.'', u ''..''} \<or> endswith part (u ''.lock'')) (split_on 47 v)
      then Inl branch_error else Inr v)"

definition validate_branch_json :: "json \<Rightarrow> exn + pystr" where
  "validate_branch_json v = (case v of JStr s \<Rightarrow> validate_branch s | _ \<Rightarrow> Inl branch_error)"

definition validate_text :: "string \<Rightarrow> nat \<Rightarrow> bool \<Rightarrow> bool \<Rightarrow> json \<Rightarrow> exn + pystr" where
  "validate_text name maximum_bytes allow_newline allow_empty v =
     (case v of
        JStr s \<Rightarrow>
          (if s = [] \<and> \<not> allow_empty then Inl (ValueError (name @ '' is invalid''))
           else bindE (utf8_encode s) (\<lambda>b.
             if maximum_bytes < length b then Inl (ValueError (name @ '' is invalid''))
             else if list_ex (\<lambda>c. c = 0 \<or> c = 127 \<or> c < 32 \<and> \<not> (allow_newline \<and> (c = 10 \<or> c = 9))) s
             then Inl (ValueError (name @ '' is invalid''))
             else Inr s))
      | _ \<Rightarrow> Inl (ValueError (name @ '' is invalid'')))"

definition validate_pr_number :: "json \<Rightarrow> exn + int" where
  "validate_pr_number v =
     (case v of
        JInt i \<Rightarrow> (if 1 \<le> i \<and> i \<le> MAX_PR_NUMBER then Inr i
          else Inl (ValueError ''pull request number is invalid''))
      | _ \<Rightarrow> Inl (ValueError ''pull request number is invalid''))"

definition validate_pr_title :: "json \<Rightarrow> exn + pystr" where
  "validate_pr_title v = validate_text ''pull request title'' MAX_PR_TITLE_BYTES False False v"

definition validate_pr_body :: "json \<Rightarrow> exn + pystr" where
  "validate_pr_body v = validate_text ''pull request body'' MAX_PR_BODY_BYTES True True v"

section \<open>The policy\<close>

record BrokerPolicy =
  bp_project_id :: pystr
  bp_repository :: Repository
  bp_repository_id :: "int option"
  default_branch :: pystr
  protected_branches :: "pystr set"

definition create_policy ::
  "pystr \<Rightarrow> pystr \<Rightarrow> json option \<Rightarrow> pystr \<Rightarrow> pystr list \<Rightarrow> bool \<Rightarrow> exn + BrokerPolicy" where
  "create_policy project repository repository_id dflt protected require_id =
     bindE (validate_project_id project) (\<lambda>validated_project.
     bindE (parse_Repository repository) (\<lambda>validated_repository.
     bindE (case repository_id of
              None \<Rightarrow> if require_id then Inl (ValueError ''GitHub repository ID is invalid'') else Inr None
            | Some v \<Rightarrow> bindE (validate_repository_id v) (\<lambda>i. Inr (Some i))) (\<lambda>rid.
     bindE (validate_branch dflt) (\<lambda>validated_default.
     bindE (mapE validate_branch protected) (\<lambda>branches.
     bindE (require (distinct branches) (ValueError ''protected branches must be unique'')) (\<lambda>_.
     bindE (require (validated_default \<in> set branches) (ValueError ''default branch must be protected'')) (\<lambda>_.
     Inr \<lparr>bp_project_id = validated_project, bp_repository = validated_repository,
          bp_repository_id = rid, default_branch = validated_default,
          protected_branches = set branches\<rparr>)))))))"

definition validate_operation :: "pystr \<Rightarrow> exn + pystr" where
  "validate_operation operation =
     (if operation \<notin> ALLOWED_OPERATIONS then Inl (ValueError ''operation is not allowed'') else Inr operation)"

definition validate_repository :: "BrokerPolicy \<Rightarrow> pystr \<Rightarrow> exn + unit" where
  "validate_repository p repository =
     require (repository = slug (bp_repository p)) (ValueError ''repository is not allowed'')"

definition validate_work_branch :: "BrokerPolicy \<Rightarrow> pystr \<Rightarrow> exn + pystr" where
  "validate_work_branch p branch =
     bindE (reraise_if (\<lambda>e. e = TypeError \<or> is_value_error e) branch_error (validate_branch branch))
       (\<lambda>validated. if validated \<in> protected_branches p then Inl (ValueError ''branch is protected'')
          else Inr validated)"

definition validate_push_ref :: "BrokerPolicy \<Rightarrow> pystr \<Rightarrow> exn + pystr" where
  "validate_push_ref p ref =
     (if \<not> startswith ref (u ''refs/heads/'') then Inl (ValueError ''push ref is not allowed'')
      else bindE (validate_work_branch p (removeprefix (u ''refs/heads/'') ref)) (\<lambda>_. Inr ref))"

section \<open>Facts\<close>

lemma validate_branch_Inr:
  "validate_branch v = Inr w \<longleftrightarrow> w = v \<and> BRANCH v \<and> \<not> startswith v (u ''refs/'')
     \<and> \<not> endswith v (u ''/'') \<and> \<not> endswith v (u ''.'') \<and> \<not> contains (u ''//'') v
     \<and> \<not> contains (u ''..'') v \<and> \<not> contains ([64, 123]) v
     \<and> list_all (\<lambda>part. part \<notin> {[], u ''.'', u ''..''} \<and> \<not> endswith part (u ''.lock'')) (split_on 47 v)"
  by (auto simp: validate_branch_def list_ex_iff list_all_iff)

lemma validate_branch_err: "validate_branch v = Inl e \<Longrightarrow> e = branch_error"
  by (auto simp: validate_branch_def split: if_split_asm)

lemma validate_work_branch_Inr:
  "validate_work_branch p b = Inr w \<longleftrightarrow> w = b \<and> validate_branch b = Inr b \<and> b \<notin> protected_branches p"
proof
  assume "validate_work_branch p b = Inr w"
  then obtain x where x: "validate_branch b = Inr x" "x \<notin> protected_branches p" "w = x"
    by (auto simp: validate_work_branch_def reraise_if_Inr_iff split: if_split_asm)
  then have "x = b" by (simp add: validate_branch_Inr)
  with x show "w = b \<and> validate_branch b = Inr b \<and> b \<notin> protected_branches p" by simp
qed (simp add: validate_work_branch_def)

lemma validate_push_ref_Inr:
  "validate_push_ref p ref = Inr w \<longleftrightarrow>
     w = ref \<and> (\<exists>b. ref = u ''refs/heads/'' @ b \<and> validate_branch b = Inr b \<and> b \<notin> protected_branches p)"
  by (auto simp: validate_push_ref_def startswith_iff validate_work_branch_Inr err_simps)

text \<open>A branch name's characters: nothing a command line or a ref path could interpret.\<close>

lemma validate_branch_chars: "validate_branch v = Inr w \<Longrightarrow> c \<in> set v \<Longrightarrow> is_branch_char c"
  using class_match_all [of is_alnum is_branch_char 199 v]
  by (auto simp: validate_branch_Inr BRANCH_def list_all_iff is_branch_char_def)

definition policy_ok :: "BrokerPolicy \<Rightarrow> bool" where
  "policy_ok p \<longleftrightarrow> slug_match (bp_project_id p) \<and> slug_match (repo_owner (bp_repository p))
     \<and> slug_match (repo_name (bp_repository p)) \<and> default_branch p \<in> protected_branches p
     \<and> (\<forall>b \<in> protected_branches p. validate_branch b = Inr b)
     \<and> (case bp_repository_id p of None \<Rightarrow> True | Some i \<Rightarrow> 0 < i)"

lemma create_policy_ok:
  assumes "create_policy project repository rid dflt protected req = Inr p"
  shows "policy_ok p \<and> bp_project_id p = project \<and> slug (bp_repository p) = repository
    \<and> default_branch p = dflt \<and> protected_branches p = set protected
    \<and> (req \<longrightarrow> bp_repository_id p \<noteq> None)"
proof -
  from assms obtain vp vr vi vd bs where v: "validate_project_id project = Inr vp"
    "parse_Repository repository = Inr vr" "validate_branch dflt = Inr vd"
    "mapE validate_branch protected = Inr bs" "vd \<in> set bs"
    and i: "(case rid of None \<Rightarrow> if req then Inl (ValueError ''GitHub repository ID is invalid'') else Inr None
        | Some v \<Rightarrow> bindE (validate_repository_id v) (\<lambda>i. Inr (Some i))) = Inr vi"
    and p: "p = \<lparr>bp_project_id = vp, bp_repository = vr, bp_repository_id = vi, default_branch = vd,
      protected_branches = set bs\<rparr>"
    by (auto simp: create_policy_def require_Inr_iff)
  have b: "list_all2 (\<lambda>x y. validate_branch x = Inr y) protected bs" using v(4) by (simp add: mapE_Inr_iff)
  have "bs = protected" using b by (induction rule: list_all2_induct) (simp_all add: validate_branch_Inr)
  moreover have "\<forall>x \<in> set bs. validate_branch x = Inr x"
    using b by (induction rule: list_all2_induct) (auto simp: validate_branch_Inr)
  moreover have "(case vi of None \<Rightarrow> True | Some i \<Rightarrow> 0 < i) \<and> (req \<longrightarrow> vi \<noteq> None)"
    using i by (auto simp: validate_repository_id_def split: option.split_asm if_split_asm json.split_asm)
  ultimately show ?thesis
    using v p by (auto simp: policy_ok_def validate_project_id_iff parse_Repository_iff validate_branch_Inr)
qed

text \<open>
  C12. Under a policy created from the project's configuration a push ref is accepted exactly
  when it is \<open>refs/heads/\<close> followed by a well-formed branch name that is not in the configured
  protected list; so the configured default branch is never pushed to, and no accepted ref has
  an empty, \<open>.\<close> or \<open>..\<close> component or a character a shell or a ref path interprets.
\<close>

theorem push_refs_safe:
  assumes "create_policy project repository rid dflt protected req = Inr p"
  shows "(validate_push_ref p ref = Inr w \<longleftrightarrow> w = ref \<and>
      (\<exists>b. ref = u ''refs/heads/'' @ b \<and> validate_branch b = Inr b \<and> b \<notin> set protected))
    \<and> (validate_push_ref p ref = Inr w \<longrightarrow>
        (\<exists>b. ref = u ''refs/heads/'' @ b \<and> b \<noteq> dflt \<and> list_all is_branch_char b
          \<and> list_all (\<lambda>part. part \<notin> {[], u ''.'', u ''..''}) (split_on 47 b)))"
proof -
  note ok = create_policy_ok [OF assms]
  have d: "dflt \<in> set protected" using ok by (auto simp: policy_ok_def)
  have i: "validate_push_ref p ref = Inr w \<longleftrightarrow> w = ref \<and>
      (\<exists>b. ref = u ''refs/heads/'' @ b \<and> validate_branch b = Inr b \<and> b \<notin> set protected)"
    using ok by (simp add: validate_push_ref_Inr)
  have b: "b \<noteq> dflt \<and> list_all is_branch_char b \<and> list_all (\<lambda>part. part \<notin> {[], u ''.'', u ''..''}) (split_on 47 b)"
    if "validate_branch b = Inr b" "b \<notin> set protected" for b
    using that d validate_branch_chars [OF that(1)] by (auto simp: list_all_iff validate_branch_Inr)
  show ?thesis unfolding i using b by blast
qed

definition demo_repository_policy :: BrokerPolicy where
  "demo_repository_policy =
     \<lparr>bp_project_id = u ''p'', bp_repository = \<lparr>repo_owner = u ''o'', repo_name = u ''r''\<rparr>,
      bp_repository_id = None, default_branch = u ''main'', protected_branches = {u ''main''}\<rparr>"

theorem push_refs_safe_witness:
  "create_policy (u ''p'') (u ''o/r'') None (u ''main'') [u ''main''] False = Inr demo_repository_policy
   \<and> validate_push_ref demo_repository_policy (u ''refs/heads/a'') = Inr (u ''refs/heads/a'')"
proof -
  have c: "create_policy (u ''p'') (u ''o/r'') None (u ''main'') [u ''main''] False = Inr demo_repository_policy"
    by code_simp
  have b: "validate_branch (u ''a'') = Inr (u ''a'')" "u ''a'' \<notin> set [u ''main'']"
    "u ''refs/heads/a'' = u ''refs/heads/'' @ u ''a''"
    by code_simp+
  show ?thesis
    using c b push_refs_safe [OF c, of "u ''refs/heads/a''" "u ''refs/heads/a''"] by blast
qed

end
