(* ===== verification/Github_Protocol.thy ===== *)
theory Github_Protocol
  imports Frame_Protocol Github_Policy
begin

text \<open>
  \<open>src/agent_container/github_broker_protocol.py\<close>: requests with a JSON object as payload,
  responses with a status, and the chunk streams between them. The request decoder passes its
  own JSON reader to the frame kernel, and both readers check the consumed length themselves.
\<close>

section \<open>Schemas\<close>

definition PROTOCOL_VERSION :: int where
  "PROTOCOL_VERSION = 1"

definition MAX_REQUEST_BYTES :: nat where
  "MAX_REQUEST_BYTES = 65536"

definition MAX_RESPONSE_BYTES :: nat where
  "MAX_RESPONSE_BYTES = 1024"

definition MAX_STREAM_CHUNK_BYTES :: nat where
  "MAX_STREAM_CHUNK_BYTES = 1048576"

definition MAX_REQUEST_NONCE :: int where
  "MAX_REQUEST_NONCE = 2 ^ 63 - 1"

definition REQUEST_FIELDS :: "pystr set" where
  "REQUEST_FIELDS = {u ''version'', u ''capability'', u ''project_id'', u ''sequence'', u ''operation'', u ''payload''}"

definition RESPONSE_FIELDS :: "pystr set" where
  "RESPONSE_FIELDS = {u ''version'', u ''status''}"

definition RESPONSE_STATUSES :: "pystr set" where
  "RESPONSE_STATUSES = {u ''ok'', u ''denied'', u ''error''}"

definition REQUEST_SCHEMA :: frame_schema where
  "REQUEST_SCHEMA = \<lparr>fs_label = ''broker request'', stream_label = ''broker stream'',
     fs_fields = REQUEST_FIELDS, max_bytes = MAX_REQUEST_BYTES,
     fs_json = \<lparr>ensure_ascii = False, allow_nan = False, sort_keys = False,
                separators = Some (u '','', u '':''), encoding = Utf8\<rparr>,
     frame_label = None\<rparr>"

definition RESPONSE_SCHEMA :: frame_schema where
  "RESPONSE_SCHEMA = \<lparr>fs_label = ''broker response'', stream_label = ''broker stream'',
     fs_fields = RESPONSE_FIELDS, max_bytes = MAX_RESPONSE_BYTES,
     fs_json = \<lparr>ensure_ascii = True, allow_nan = True, sort_keys = True,
                separators = Some (u '','', u '':''), encoding = Ascii\<rparr>,
     frame_label = None\<rparr>"

section \<open>Requests\<close>

record BrokerRequest =
  br_version :: int
  br_capability :: pystr
  br_project_id :: pystr
  br_sequence :: int
  br_operation :: pystr
  br_payload :: "(pystr \<times> json) list"

definition json_error :: exn where
  "json_error = ValueError ''broker request JSON is invalid''"

definition request_error :: exn where
  "request_error = ValueError ''broker request schema is invalid''"

definition request_reject_constant :: "string \<Rightarrow> exn + json" where
  "request_reject_constant w = Inl json_error"

definition request_object_without_duplicates :: pairs_hook where
  "request_object_without_duplicates = build_object json_error []"

definition decode_request_json :: "nat \<Rightarrow> bytes \<Rightarrow> exn + json" where
  "decode_request_json lim body =
     reraise_if (\<lambda>e. e = UnicodeDecodeError \<or> e = JSONDecodeError \<or> e = TypeError) json_error
       (bindE (utf8_decode body)
          (json_loads lim request_object_without_duplicates request_reject_constant))"

definition request_values :: "BrokerRequest \<Rightarrow> (pystr \<times> json) list" where
  "request_values r =
     [(u ''version'', JInt (br_version r)), (u ''capability'', JStr (br_capability r)),
      (u ''project_id'', JStr (br_project_id r)), (u ''sequence'', JInt (br_sequence r)),
      (u ''operation'', JStr (br_operation r)), (u ''payload'', JObj (br_payload r))]"

definition encode_request_frame :: "BrokerRequest \<Rightarrow> exn + bytes" where
  "encode_request_frame r = encode_frame REQUEST_SCHEMA (request_values r)"

definition request_from_values :: "(pystr \<rightharpoonup> json) \<Rightarrow> exn + BrokerRequest" where
  "request_from_values d =
     bindE (field_of d ''version'') (\<lambda>version.
     bindE (field_of d ''capability'') (\<lambda>capability.
     bindE (field_of d ''project_id'') (\<lambda>project.
     bindE (field_of d ''sequence'') (\<lambda>sequence.
     bindE (field_of d ''operation'') (\<lambda>operation.
     bindE (field_of d ''payload'') (\<lambda>payload.
     bindE (as_int request_error version) (\<lambda>v.
     bindE (as_str request_error capability) (\<lambda>c.
     bindE (as_str request_error project) (\<lambda>p.
     bindE (as_int request_error sequence) (\<lambda>q.
     bindE (require (1 \<le> q \<and> q \<le> MAX_REQUEST_NONCE) request_error) (\<lambda>_.
     bindE (as_str request_error operation) (\<lambda>x.
     bindE (as_obj request_error payload) (\<lambda>kvs.
     Inr \<lparr>br_version = v, br_capability = c, br_project_id = p, br_sequence = q,
          br_operation = x, br_payload = kvs\<rparr>)))))))))))))"

definition decode_request_frame :: "nat \<Rightarrow> bytes \<Rightarrow> exn + BrokerRequest \<times> nat" where
  "decode_request_frame lim data =
     decode_message lim REQUEST_SCHEMA (Some (decode_request_json lim)) request_from_values data"

section \<open>Responses\<close>

text \<open>The version is whatever compares equal to 1 and is not a boolean.\<close>

record BrokerResponse =
  bs_version :: json
  bs_status :: pystr

definition response_error :: exn where
  "response_error = FrameSchemaError ''broker response schema is invalid''"

definition response_values :: "BrokerResponse \<Rightarrow> (pystr \<times> json) list" where
  "response_values r = [(u ''version'', bs_version r), (u ''status'', JStr (bs_status r))]"

definition encode_response_frame :: "BrokerResponse \<Rightarrow> exn + bytes" where
  "encode_response_frame r =
     (if \<not> py_is_one (bs_version r) \<or> bs_status r \<notin> RESPONSE_STATUSES
      then Inl (ValueError ''broker response is invalid'')
      else encode_frame RESPONSE_SCHEMA (response_values r))"

definition response_from_values :: "(pystr \<rightharpoonup> json) \<Rightarrow> exn + BrokerResponse" where
  "response_from_values d =
     bindE (field_of d ''version'') (\<lambda>version.
     bindE (field_of d ''status'') (\<lambda>status.
       if (\<exists>b. version = JBool b) \<or> \<not> py_is_one version then Inl response_error
       else bindE (as_str response_error status) (\<lambda>s.
         if s \<notin> RESPONSE_STATUSES then Inl response_error
         else Inr \<lparr>bs_version = version, bs_status = s\<rparr>)))"

definition decode_response_frame :: "nat \<Rightarrow> bytes \<Rightarrow> exn + BrokerResponse \<times> nat" where
  "decode_response_frame lim data = decode_message lim RESPONSE_SCHEMA None response_from_values data"

section \<open>Readers and chunk streams\<close>

definition read_framed ::
  "nat \<Rightarrow> string \<Rightarrow> (bytes \<Rightarrow> exn + 'r \<times> nat) \<Rightarrow> 's reader \<Rightarrow> 's \<Rightarrow> (exn + 'r) \<times> 's" where
  "read_framed maximum kind dec rd s =
     bindS (read_exact rd HEADER_BYTES ''broker stream'' False s) (\<lambda>header s1.
       let len = unpack_u32 header in
       if len = 0 \<or> maximum < len
       then (Inl (FrameSizeError (''broker '' @ kind @ '' frame size is invalid'')), s1)
       else
         bindS (read_exact rd len ''broker stream'' False s1) (\<lambda>body s2.
           case dec (header @ body) of
             Inl e \<Rightarrow> (Inl e, s2)
           | Inr (r, consumed) \<Rightarrow>
               if consumed \<noteq> length header + length body
               then (Inl (ValueError (''broker '' @ kind @ '' frame is invalid'')), s2)
               else (Inr r, s2)))"

definition read_request_frame :: "nat \<Rightarrow> 's reader \<Rightarrow> 's \<Rightarrow> (exn + BrokerRequest) \<times> 's" where
  "read_request_frame lim rd s = read_framed MAX_REQUEST_BYTES ''request'' (decode_request_frame lim) rd s"

definition read_response_frame :: "nat \<Rightarrow> 's reader \<Rightarrow> 's \<Rightarrow> (exn + BrokerResponse) \<times> 's" where
  "read_response_frame lim rd s = read_framed MAX_RESPONSE_BYTES ''response'' (decode_response_frame lim) rd s"

definition broker_write_chunk_stream ::
  "'s writer \<Rightarrow> ('s \<Rightarrow> (exn + unit) \<times> 's) \<Rightarrow> bytes list \<Rightarrow> 's \<Rightarrow> (exn + nat) \<times> 's" where
  "broker_write_chunk_stream wr flush chunks s =
     write_chunk_stream wr flush chunks MAX_STREAM_CHUNK_BYTES ''broker stream'' s"

definition broker_iter_chunk_stream ::
  "'s reader \<Rightarrow> int \<Rightarrow> bool \<Rightarrow> 's \<Rightarrow> bytes list \<times> (exn + unit) \<times> 's" where
  "broker_iter_chunk_stream rd maximum_total allow_initial_eof s =
     iter_chunk_stream (\<lambda>n initial. read_exact rd n ''broker stream'' initial) maximum_total
       MAX_STREAM_CHUNK_BYTES ''broker stream'' allow_initial_eof s"

section \<open>The protocol contract\<close>

definition sendable_request :: "nat \<Rightarrow> BrokerRequest \<Rightarrow> bool" where
  "sendable_request lim r \<longleftrightarrow> small_int (br_version r) \<and> clean_str (br_capability r)
     \<and> clean_str (br_project_id r) \<and> 1 \<le> br_sequence r \<and> br_sequence r \<le> MAX_REQUEST_NONCE
     \<and> clean_str (br_operation r) \<and> plain (JObj (br_payload r))
     \<and> Suc (depth (JObj (br_payload r))) \<le> lim"

definition sendable_response :: "nat \<Rightarrow> BrokerResponse \<Rightarrow> bool" where
  "sendable_response lim r \<longleftrightarrow> 1 \<le> lim \<and> bs_version r = JInt 1 \<and> bs_status r \<in> RESPONSE_STATUSES"

lemma gh_request_from_values_Inr:
  "request_from_values d = Inr r \<longleftrightarrow> 1 \<le> br_sequence r \<and> br_sequence r \<le> MAX_REQUEST_NONCE
     \<and> (\<forall>(k, v) \<in> set (request_values r). d k = Some v)"
  by (cases r) (auto simp: request_from_values_def err_simps request_values_def)

lemma request_order: "frame_values REQUEST_SCHEMA vals = vals"
  by (simp add: frame_values_def normal_json_def REQUEST_SCHEMA_def dump_opts_of_def)

lemma decode_request_json_reads: "reads_json lim REQUEST_SCHEMA (Some (decode_request_json lim))"
proof -
  have "bindE (codec_decode (encoding (fs_json REQUEST_SCHEMA)) body)
      (json_loads lim request_object_without_duplicates request_reject_constant) = Inr v
    \<Longrightarrow> decode_request_json lim body = Inr v" for body v
    by (simp add: decode_request_json_def REQUEST_SCHEMA_def)
  then show ?thesis
    unfolding reads_json_def option.case
    by (intro exI [of _ request_object_without_duplicates] exI [of _ request_reject_constant])
       (simp add: request_object_without_duplicates_def)
qed

interpretation broker_request: frame_protocol lim REQUEST_SCHEMA "Some (decode_request_json lim)"
  request_values request_from_values "sendable_request lim" for lim
proof
  show "schema_ok REQUEST_SCHEMA"
    by (simp add: REQUEST_SCHEMA_def schema_ok_def opts_ok_def dump_opts_of_def u_def)
  show "reads_json lim REQUEST_SCHEMA (Some (decode_request_json lim))" by (rule decode_request_json_reads)
next
  fix r assume s: "sendable_request lim r"
  then have q: "small_int (br_sequence r)"
    by (intro small_int_64) (simp add: sendable_request_def MAX_REQUEST_NONCE_def)
  show "set (map fst (request_values r)) = fs_fields REQUEST_SCHEMA"
    by (auto simp: request_values_def REQUEST_SCHEMA_def REQUEST_FIELDS_def)
  show "plain (JObj (request_values r))"
    using s q by (simp add: request_values_def sendable_request_def)
  show "depth (JObj (frame_values REQUEST_SCHEMA (request_values r))) \<le> lim"
    using s unfolding request_order by (simp add: request_values_def sendable_request_def)
  show "request_from_values (map_of (frame_values REQUEST_SCHEMA (request_values r))) = Inr r"
    using s unfolding request_order gh_request_from_values_Inr
    by (simp add: sendable_request_def) (simp add: request_values_def)
qed

interpretation broker_response: flat_protocol lim RESPONSE_SCHEMA None response_values response_from_values
  "sendable_response lim" for lim
proof
  show "schema_ok RESPONSE_SCHEMA"
    by (simp add: RESPONSE_SCHEMA_def schema_ok_def opts_ok_def dump_opts_of_def u_def)
next
  fix r assume s: "sendable_response lim r"
  show "1 \<le> lim" using s by (simp add: sendable_response_def)
  show "set (map fst (response_values r)) = fs_fields RESPONSE_SCHEMA"
    by (auto simp: response_values_def RESPONSE_SCHEMA_def RESPONSE_FIELDS_def)
  show "distinct (map fst (response_values r))" by (simp add: response_values_def)
  show "list_all (\<lambda>(k, v). clean_str k \<and> scalar v \<and> plain v) (response_values r)"
    using s by (auto simp: response_values_def sendable_response_def RESPONSE_STATUSES_def)
  show "response_from_values (map_of (response_values r)) = Inr r"
    using s by (cases r) (simp add: response_from_values_def response_values_def sendable_response_def)
qed simp

context byte_source
begin

lemma read_framed_content:
  assumes "content s = b @ rest" and "dec b = Inr (r, length b)"
    and "length b = HEADER_BYTES + unpack_u32 (take HEADER_BYTES b)"
    and "0 < unpack_u32 (take HEADER_BYTES b)" and "unpack_u32 (take HEADER_BYTES b) \<le> maximum"
  shows "\<exists>t. read_framed maximum kind dec rd s = (Inr r, t) \<and> content t = rest"
proof -
  let ?n = "unpack_u32 (take HEADER_BYTES b)"
  obtain t1 where t1: "content t1 = drop HEADER_BYTES (content s)"
    "read_exact rd HEADER_BYTES ''broker stream'' False s = (Inr (take HEADER_BYTES b), t1)"
    using read_exact_content [of HEADER_BYTES s "''broker stream''" False] assms(1,3) by auto
  obtain t2 where t2: "content t2 = rest"
    "read_exact rd ?n ''broker stream'' False t1 = (Inr (drop HEADER_BYTES b), t2)"
    using read_exact_content [of ?n t1 "''broker stream''" False] assms(1,3) t1(1) by auto
  have "read_framed maximum kind dec rd s = (Inr r, t2)"
    using t1(2) t2(2) assms(2-5) by (simp add: read_framed_def Let_def)
  with t2(1) show ?thesis by blast
qed

end

lemma decode_request_frame_bounds:
  assumes "decode_request_frame lim b = Inr (r, n)"
  shows "n = HEADER_BYTES + unpack_u32 (take HEADER_BYTES b)" "0 < unpack_u32 (take HEADER_BYTES b)"
    "unpack_u32 (take HEADER_BYTES b) \<le> MAX_REQUEST_BYTES" "n \<le> length b"
  using assms
  by (auto simp: decode_request_frame_def decode_message_def decode_frame_Inr_iff REQUEST_SCHEMA_def)

section \<open>Properties\<close>

text \<open>
  The container's client and the broker agree: a request with clean text and a plain JSON
  payload that \<open>encode_request_frame\<close> accepts is what \<open>read_request_frame\<close> returns, payload
  included and in the same key order, however the socket delivers the bytes; the bytes after it
  stay unread; and no other such request has an encoding that starts the same stream.
\<close>

lemma broker_request_delivery:
  assumes "sendable_request lim r" and "encode_request_frame r = Inr b"
  shows "(\<exists>cuts'. read_request_frame lim sock_read \<lparr>sock_buf = b @ rest, sock_cuts = cuts\<rparr>
      = (Inr r, \<lparr>sock_buf = rest, sock_cuts = cuts'\<rparr>))
    \<and> (\<forall>r' b' rest'. sendable_request lim r' \<and> encode_request_frame r' = Inr b' \<and> b @ rest = b' @ rest'
        \<longrightarrow> r' = r)"
proof -
  have e: "encode_frame REQUEST_SCHEMA (request_values r) = Inr b"
    using assms(2) by (simp add: encode_request_frame_def)
  have d: "decode_request_frame lim b = Inr (r, length b)"
    using broker_request.decode_encoded [OF assms(1) e, of "[]"] by (simp add: decode_request_frame_def)
  obtain t where "read_request_frame lim sock_read \<lparr>sock_buf = b @ rest, sock_cuts = cuts\<rparr> = (Inr r, t)"
    "sock_buf t = rest"
    using sock_source.read_framed_content [of "\<lparr>sock_buf = b @ rest, sock_cuts = cuts\<rparr>" b rest
        "decode_request_frame lim" r MAX_REQUEST_BYTES "''request''"] decode_request_frame_bounds [OF d] d
    by (auto simp: read_request_frame_def)
  moreover have "r' = r" if "sendable_request lim r'" "encode_request_frame r' = Inr b'"
    "b @ rest = b' @ rest'" for r' b' rest'
    using broker_request.unambiguous [OF assms(1) e, of r' b' rest rest'] that
    by (simp add: encode_request_frame_def)
  ultimately show ?thesis by (cases t) auto
qed

definition demo_request :: BrokerRequest where
  "demo_request = \<lparr>br_version = 1, br_capability = u ''c'', br_project_id = u ''p'', br_sequence = 7,
     br_operation = u ''pr-view'', br_payload = [(u ''number'', JInt 7)]\<rparr>"

definition demo_request_frame :: bytes where
  "demo_request_frame = [CHR 0x00, CHR 0x00, CHR 0x00, CHR 0x69]
     @ ''{\"version\":1,\"capability\":\"c\",\"project_id\":\"p\",\"sequence\":7,\"operation\":\"pr-view\",\"payload\":{\"number\":7}}''"

lemma gh_small_int_eval: "small_int 1" "small_int 7"
  by (simp_all add: small_int_64)

lemma demo_request_sendable: "sendable_request 2 demo_request"
  by (simp add: sendable_request_def demo_request_def gh_small_int_eval MAX_REQUEST_NONCE_def)

lemma gh_demo_request_encoded: "encode_request_frame demo_request = Inr demo_request_frame"
  by (simp add: encode_request_frame_def encode_frame_def demo_request_def request_values_def
      demo_request_frame_def REQUEST_SCHEMA_def MAX_REQUEST_BYTES_def dump_opts_of_def json_eval utf8_char_def
      char_of_def bit_0 int_repr_def gh_small_int_eval dec_digits.simps digit_def)


end
