(* ===== verification/Github_Session.thy ===== *)
theory Github_Session
  imports Github_Protocol Replay_Guard
begin

text \<open>
  \<open>src/agent_container/github_broker.py\<close> and \<open>github_broker_error.py\<close>: the session that
  authorises GitHub requests. Unlike the egress session it remembers a set of numbers, at most
  4096 in its life. Parameters as in \<open>Egress_Session\<close>: the log, the listener and the artifacts
  are state-passing calls; \<open>create\<close> needs the file system and is not here.
\<close>

section \<open>State\<close>

definition BROKER_FAILURE_STAGES :: "pystr set" where
  "BROKER_FAILURE_STAGES = {u ''token'', u ''upload-discovery'', u ''upload-rpc'', u ''receive-discovery'',
     u ''receive-rpc'', u ''pr-request'', u ''issue-request'', u ''response-stream''}"

text \<open>\<open>BrokerStageError(stage)\<close>: the constructor itself refuses an unknown stage.\<close>

definition broker_stage_error :: "pystr \<Rightarrow> exn" where
  "broker_stage_error stage =
     (if stage \<notin> BROKER_FAILURE_STAGES then ValueError ''GitHub broker failure stage is invalid''
      else BrokerStageError stage)"

record BrokerSession =
  gs_policy :: BrokerPolicy
  gs_run_id :: pystr
  gs_capability :: pystr
  gs_seen_sequences :: "int set"
  gs_listener :: bool
  gs_closed :: bool
  gs_cleanup_complete :: bool

definition new_session :: "BrokerPolicy \<Rightarrow> pystr \<Rightarrow> pystr \<Rightarrow> BrokerSession" where
  "new_session policy run_id capability =
     \<lparr>gs_policy = policy, gs_run_id = run_id, gs_capability = capability, gs_seen_sequences = {},
      gs_listener = False, gs_closed = False, gs_cleanup_complete = False\<rparr>"

section \<open>Authorisation\<close>

record Authorization =
  az_operation :: pystr
  az_payload :: "(pystr \<times> json) list"

definition authorize :: "BrokerRequest \<Rightarrow> BrokerSession \<Rightarrow> (exn + Authorization) \<times> BrokerSession" where
  "authorize request s =
     (if gs_closed s then (Inl (ValueError ''broker session is closed''), s)
      else if br_version request \<noteq> PROTOCOL_VERSION
      then (Inl (ValueError ''broker protocol version is not supported''), s)
      else
        (case compare_digest (br_capability request) (gs_capability s) of
           Inl e \<Rightarrow> (Inl e, s)
         | Inr False \<Rightarrow> (Inl (ValueError ''broker request is not authorized''), s)
         | Inr True \<Rightarrow>
             if br_project_id request \<noteq> bp_project_id (gs_policy s)
             then (Inl (ValueError ''broker request project is not allowed''), s)
             else if \<not> (1 \<le> br_sequence request \<and> br_sequence request \<le> MAX_REQUEST_NONCE)
               \<or> br_sequence request \<in> gs_seen_sequences s \<or> 4096 \<le> card (gs_seen_sequences s)
             then (Inl (ValueError ''broker request sequence is invalid''), s)
             else
               (case validate_operation (br_operation request) of
                  Inl e \<Rightarrow> (Inl e, s)
                | Inr operation \<Rightarrow>
                    (Inr \<lparr>az_operation = operation, az_payload = br_payload request\<rparr>,
                     s\<lparr>gs_seen_sequences := insert (br_sequence request) (gs_seen_sequences s)\<rparr>))))"

definition deactivate :: "BrokerSession \<Rightarrow> BrokerSession" where
  "deactivate s = s\<lparr>gs_closed := True, gs_capability := []\<rparr>"

section \<open>Listener, audit and cleanup\<close>

definition open_listener ::
  "('w \<Rightarrow> (exn + unit) \<times> 'w) \<Rightarrow> ('w \<Rightarrow> (exn + unit) \<times> 'w) \<Rightarrow> ('w \<Rightarrow> (exn + unit) \<times> 'w)
     \<Rightarrow> BrokerSession \<times> 'w \<Rightarrow> (exn + unit) \<times> BrokerSession \<times> 'w" where
  "open_listener bind track shut sw =
     (case sw of (s, w) \<Rightarrow>
        if gs_closed s \<or> gs_listener s
        then (Inl (ValueError ''broker listener state is invalid''), s, w)
        else
          (case bind w of
             (Inl e, w1) \<Rightarrow> (Inl e, s, w1)
           | (Inr _, w1) \<Rightarrow>
               (case track w1 of
                  (Inl e, w2) \<Rightarrow>
                    (case shut w2 of (Inl e', w3) \<Rightarrow> (Inl e', s, w3) | (Inr _, w3) \<Rightarrow> (Inl e, s, w3))
                | (Inr _, w2) \<Rightarrow> (Inr (), s\<lparr>gs_listener := True\<rparr>, w2))))"

definition AUDIT_STATUSES :: "pystr set" where
  "AUDIT_STATUSES = {u ''ok'', u ''denied'', u ''error''}"

record AuditEntry =
  ae_operation :: pystr
  ae_status :: pystr
  ae_ref :: "pystr option"
  ae_pr_number :: "json option"
  ae_issue_number :: "json option"
  ae_bytes :: json
  ae_stage :: "pystr option"

text \<open>\<open>if v is not None: check(v)\<close>.\<close>

definition when_some :: "('a \<Rightarrow> exn + 'b) \<Rightarrow> 'a option \<Rightarrow> exn + 'b option" where
  "when_some f v = (case v of None \<Rightarrow> Inr None | Some x \<Rightarrow> bindE (f x) (\<lambda>y. Inr (Some y)))"

definition check_bytes :: "json \<Rightarrow> exn + int" where
  "check_bytes v =
     bindE (as_int (ValueError ''broker audit byte count is invalid'') v) (\<lambda>n.
       if 0 \<le> n \<and> n \<le> push_bit 50 1 then Inr n
       else Inl (ValueError ''broker audit byte count is invalid''))"

definition optional_entry :: "string \<Rightarrow> ('a \<Rightarrow> json) \<Rightarrow> 'a option \<Rightarrow> (pystr \<times> json) list" where
  "optional_entry k f v = (case v of None \<Rightarrow> [] | Some x \<Rightarrow> [(u k, f x)])"

definition audit_record ::
  "pystr \<Rightarrow> pystr \<Rightarrow> BrokerSession \<Rightarrow> AuditEntry \<Rightarrow> exn + (pystr \<times> json) list" where
  "audit_record now run_label s a =
     (if gs_closed s then Inl (ValueError ''broker session is closed'')
      else
        bindE (validate_operation (ae_operation a)) (\<lambda>_.
        bindE (require (ae_status a \<in> AUDIT_STATUSES) (ValueError ''broker audit status is invalid'')) (\<lambda>_.
        bindE (require (if ae_status a = u ''error''
                        then (case ae_stage a of None \<Rightarrow> False | Some g \<Rightarrow> g \<in> BROKER_FAILURE_STAGES)
                        else ae_stage a = None) (ValueError ''broker audit stage is invalid'')) (\<lambda>_.
        bindE (when_some (validate_push_ref (gs_policy s)) (ae_ref a)) (\<lambda>ref.
        bindE (when_some validate_pr_number (ae_pr_number a)) (\<lambda>pr.
        bindE (when_some validate_issue_number (ae_issue_number a)) (\<lambda>issue.
        bindE (check_bytes (ae_bytes a)) (\<lambda>n.
          Inr ([(u ''timestamp'', JStr now), (u ''run'', JStr run_label),
                (u ''project'', JStr (bp_project_id (gs_policy s))),
                (u ''repository'', JStr (slug (bp_repository (gs_policy s)))),
                (u ''operation'', JStr (ae_operation a)), (u ''status'', JStr (ae_status a)),
                (u ''bytes'', JInt n), (u ''policy_version'', JInt 1)]
            @ optional_entry ''ref'' JStr ref
            @ optional_entry ''pr_number'' JInt pr
            @ optional_entry ''issue_number'' JInt issue
            @ optional_entry ''stage'' JStr (ae_stage a))))))))))"

definition audit ::
  "((pystr \<times> json) list \<Rightarrow> 'w \<Rightarrow> (exn + unit) \<times> 'w) \<Rightarrow> pystr \<Rightarrow> pystr \<Rightarrow> BrokerSession
     \<Rightarrow> AuditEntry \<Rightarrow> 'w \<Rightarrow> (exn + unit) \<times> 'w" where
  "audit log_append now run_label s a w =
     bindS (audit_record now run_label s a, w) (\<lambda>record w'. log_append record w')"

definition close ::
  "('w \<Rightarrow> (exn + unit) \<times> 'w) \<Rightarrow> ('w \<Rightarrow> bool \<times> 'w) \<Rightarrow> BrokerSession \<times> 'w
     \<Rightarrow> (exn + unit) \<times> BrokerSession \<times> 'w" where
  "close shut remove sw =
     (case sw of (s, w) \<Rightarrow>
        if gs_cleanup_complete s then (Inr (), s, w)
        else
          let s1 = deactivate s in
          (case (if gs_listener s1 then shut w else (Inr (), w)) of
             (Inl e, w1) \<Rightarrow>
               if is_os_error e
               then (case remove w1 of (_, w2) \<Rightarrow> (Inl (ValueError ''broker cleanup failed''), s1, w2))
               else (Inl e, s1, w1)
           | (Inr _, w1) \<Rightarrow>
               let s2 = s1\<lparr>gs_listener := False\<rparr> in
               (case remove w1 of
                  (True, w2) \<Rightarrow> (Inl (ValueError ''broker cleanup failed''), s2, w2)
                | (False, w2) \<Rightarrow> (Inr (), s2\<lparr>gs_cleanup_complete := True\<rparr>, w2))))"

section \<open>What authorize decides\<close>

definition authentic :: "BrokerRequest \<Rightarrow> BrokerSession \<Rightarrow> bool" where
  "authentic q s \<longleftrightarrow> \<not> gs_closed s \<and> br_version q = 1
     \<and> compare_digest (br_capability q) (gs_capability s) = Inr True
     \<and> br_project_id q = bp_project_id (gs_policy s)
     \<and> 1 \<le> br_sequence q \<and> br_sequence q \<le> MAX_REQUEST_NONCE"

definition acceptable :: "BrokerRequest \<Rightarrow> BrokerSession \<Rightarrow> bool" where
  "acceptable q s \<longleftrightarrow> authentic q s \<and> br_sequence q \<notin> gs_seen_sequences s
     \<and> card (gs_seen_sequences s) < 4096 \<and> br_operation q \<in> ALLOWED_OPERATIONS"

lemma authorize_iff:
  "authorize q s =
     (if acceptable q s
      then (Inr \<lparr>az_operation = br_operation q, az_payload = br_payload q\<rparr>,
            s\<lparr>gs_seen_sequences := insert (br_sequence q) (gs_seen_sequences s)\<rparr>)
      else (Inl (projl (fst (authorize q s))), s))"
  by (cases rule: compare_digest_cases [of "br_capability q" "gs_capability s"])
     (auto simp: authorize_def acceptable_def authentic_def PROTOCOL_VERSION_def validate_operation_def
       not_le split: bool.splits)

lemma authorize_accept:
  "acceptable q s \<Longrightarrow> authorize q s =
     (Inr \<lparr>az_operation = br_operation q, az_payload = br_payload q\<rparr>,
      s\<lparr>gs_seen_sequences := insert (br_sequence q) (gs_seen_sequences s)\<rparr>)"
  using authorize_iff [of q s] by simp

lemma authorize_refuse: "\<not> acceptable q s \<Longrightarrow> \<exists>e. authorize q s = (Inl e, s)"
  using authorize_iff [of q s] by auto

definition history :: "BrokerSession \<Rightarrow> int set \<Rightarrow> bool" where
  "history s H \<longleftrightarrow> gs_seen_sequences s = H"

definition submit :: "BrokerRequest \<Rightarrow> BrokerSession \<Rightarrow> bool \<times> BrokerSession" where
  "submit q s = (case authorize q s of (r, t) \<Rightarrow> (\<not> isl r, t))"

interpretation github_guard: replay_guard submit br_sequence history
proof
  fix s t :: BrokerSession and q :: BrokerRequest and H
  assume "history s H" and "submit q s = (False, t)"
  then show "history t H"
    using authorize_refuse [of q s]
    by (cases "acceptable q s") (auto simp: submit_def authorize_accept)
next
  fix s t :: BrokerSession and q :: BrokerRequest and H
  assume "history s H" and "submit q s = (True, t)"
  then show "br_sequence q \<notin> H \<and> history t (insert (br_sequence q) H)"
    using authorize_refuse [of q s]
    by (cases "acceptable q s") (auto simp: submit_def authorize_accept history_def acceptable_def)
qed

section \<open>Sessions in use\<close>

datatype session_event =
    Authorized BrokerRequest "exn + Authorization"
  | Deactivated
  | Opened "exn + unit"
  | Closed "exn + unit"

inductive session_step :: "BrokerSession \<Rightarrow> session_event \<Rightarrow> BrokerSession \<Rightarrow> bool" where
  step_authorize: "authorize q s = (r, t) \<Longrightarrow> session_step s (Authorized q r) t"
| step_deactivate: "session_step s Deactivated (deactivate s)"
| step_open: "open_listener bind track shut (s, ()) = (r, t, ()) \<Longrightarrow> session_step s (Opened r) t"
| step_close: "close shut remove (s, ()) = (r, t, ()) \<Longrightarrow> session_step s (Closed r) t"

inductive_cases authorizedE: "session_step s (Authorized q r) t"

inductive session_trace :: "BrokerSession \<Rightarrow> session_event list \<Rightarrow> BrokerSession \<Rightarrow> bool" where
  trace_Nil: "session_trace s [] s"
| trace_Cons: "session_step s e t \<Longrightarrow> session_trace t es z \<Longrightarrow> session_trace s (e # es) z"

inductive_simps session_trace_Nil [simp]: "session_trace s [] t"
inductive_simps session_trace_Cons: "session_trace s (e # es) t"

text \<open>The numbers a trace granted.\<close>

fun granted :: "session_event list \<Rightarrow> int list" where
  "granted [] = []"
| "granted (Authorized q (Inr a) # es) = br_sequence q # granted es"
| "granted (e # es) = granted es"

definition session_ok :: "BrokerSession \<Rightarrow> bool" where
  "session_ok s \<longleftrightarrow> (gs_closed s \<longrightarrow> gs_capability s = [])
     \<and> (gs_cleanup_complete s \<longrightarrow> gs_closed s \<and> \<not> gs_listener s)
     \<and> finite (gs_seen_sequences s) \<and> card (gs_seen_sequences s) \<le> 4096"

lemma gh_open_listener_state:
  "open_listener bind track shut (s, w) = (r, t, w') \<Longrightarrow> t = s \<or> t = s\<lparr>gs_listener := True\<rparr> \<and> \<not> gs_closed s"
  by (auto simp: open_listener_def split: prod.split_asm sum.split_asm if_split_asm)

lemma gh_close_state:
  assumes "close shut remove (s, w) = (r, t, w')"
  shows "t = s \<and> gs_cleanup_complete s \<or>
    (\<exists>l c. t = (deactivate s)\<lparr>gs_listener := l, gs_cleanup_complete := c\<rparr> \<and> (c \<longrightarrow> \<not> l))"
proof (cases "gs_cleanup_complete s")
  case False
  have e: "deactivate s = (deactivate s)\<lparr>gs_listener := gs_listener s, gs_cleanup_complete := False\<rparr>"
    "(deactivate s)\<lparr>gs_listener := False\<rparr> = (deactivate s)\<lparr>gs_listener := False, gs_cleanup_complete := False\<rparr>"
    using False by (simp_all add: deactivate_def)
  from assms False have "t = deactivate s \<or> t = (deactivate s)\<lparr>gs_listener := False\<rparr>
      \<or> t = (deactivate s)\<lparr>gs_listener := False, gs_cleanup_complete := True\<rparr>"
    by (auto simp: close_def Let_def split: prod.split_asm sum.split_asm if_split_asm bool.split_asm)
  then show ?thesis using e by metis
qed (use assms in \<open>auto simp: close_def\<close>)

text \<open>What one step keeps: the policy, the invariant, and the numbers it grants.\<close>

lemma gh_step_invariant:
  "session_step s e t \<Longrightarrow> session_ok s \<Longrightarrow>
     session_ok t \<and> gs_policy t = gs_policy s \<and> (gs_closed s \<longrightarrow> gs_closed t)
     \<and> (\<not> gs_closed t \<longrightarrow> gs_capability t = gs_capability s)
     \<and> gs_seen_sequences t = set (granted [e]) \<union> gs_seen_sequences s
     \<and> set (granted [e]) \<inter> gs_seen_sequences s = {}"
proof (induction rule: session_step.induct)
  case (step_authorize q s r t)
  show ?case
  proof (cases "acceptable q s")
    case True
    with step_authorize show ?thesis
      by (auto simp: authorize_accept session_ok_def acceptable_def card_insert_if)
  next
    case False
    from authorize_refuse [OF this] step_authorize show ?thesis by auto
  qed
next
  case (step_open bind track shut s r t)
  from gh_open_listener_state [OF step_open.hyps] step_open.prems show ?case by (auto simp: session_ok_def)
next
  case (step_close shut remove s r t)
  from gh_close_state [OF step_close.hyps] step_close.prems show ?case by (auto simp: session_ok_def deactivate_def)
qed (simp add: session_ok_def deactivate_def)

lemma granted_Cons: "granted (e # es) = granted [e] @ granted es"
proof (cases e)
  case (Authorized q r)
  then show ?thesis by (cases r) simp_all
qed simp_all

lemma granted_single_distinct: "distinct (granted [e])"
proof (cases e)
  case (Authorized q r)
  then show ?thesis by (cases r) simp_all
qed simp_all

lemma gh_trace_invariant:
  "session_trace s es t \<Longrightarrow> session_ok s \<Longrightarrow>
     session_ok t \<and> gs_policy t = gs_policy s \<and> (gs_closed s \<longrightarrow> gs_closed t)
     \<and> (\<not> gs_closed t \<longrightarrow> gs_capability t = gs_capability s)
     \<and> gs_seen_sequences t = set (granted es) \<union> gs_seen_sequences s
     \<and> set (granted es) \<inter> gs_seen_sequences s = {} \<and> distinct (granted es)"
proof (induction rule: session_trace.induct)
  case (trace_Cons s e t es z)
  note st = gh_step_invariant [OF trace_Cons.hyps(1) trace_Cons.prems]
  note g = granted_Cons [of e es]
  from st trace_Cons.IH granted_single_distinct [of e] show ?case
    unfolding g by auto
qed simp

lemma gh_trace_append: "session_trace s (xs @ ys) z \<longleftrightarrow> (\<exists>t. session_trace s xs t \<and> session_trace t ys z)"
  by (induction xs arbitrary: s) (auto simp: session_trace_Cons)

lemma gh_new_session_ok: "session_ok (new_session p r c)"
  by (simp add: new_session_def session_ok_def)

section \<open>Properties\<close>

text \<open>
  C7. GitHub grants: in every interleaving of authorisations, deactivations, openings and
  closings of a new session, a granted request carried the session's capability and its
  project, asked for an allowed operation and is passed on with its own payload, and preceded
  every deactivation and close; the numbers granted are distinct and at most 4096 in all.
\<close>

theorem github_grants:
  assumes "session_trace (new_session policy run cap) (before @ Authorized q (Inr a) # after) t"
  shows "br_capability q = cap \<and> br_project_id q = bp_project_id policy
    \<and> az_operation a = br_operation q \<and> az_operation a \<in> ALLOWED_OPERATIONS \<and> az_payload a = br_payload q
    \<and> Deactivated \<notin> set before \<and> (\<forall>r. Closed r \<notin> set before)
    \<and> distinct (granted (before @ Authorized q (Inr a) # after))
    \<and> length (granted (before @ Authorized q (Inr a) # after)) \<le> 4096"
proof -
  let ?n = "new_session policy run cap"
  obtain s s' where b: "session_trace ?n before s" and g: "authorize q s = (Inr a, s')"
    using assms by (auto simp: gh_trace_append session_trace_Cons elim: authorizedE)
  note inv = gh_trace_invariant [OF b gh_new_session_ok]
  have acc: "acceptable q s" using authorize_refuse [of q s] g by fastforce
  then have a: "a = \<lparr>az_operation = br_operation q, az_payload = br_payload q\<rparr>"
    using g by (simp add: authorize_accept)
  have shut: "e \<in> set before \<Longrightarrow> e = Deactivated \<or> e = Closed r \<Longrightarrow> gs_closed s" for e r
  proof -
    assume "e \<in> set before" and e: "e = Deactivated \<or> e = Closed r"
    then obtain xs ys where "before = xs @ e # ys" by (meson split_list)
    with b obtain s1 s2 where t: "session_trace ?n xs s1" "session_step s1 e s2" "session_trace s2 ys s"
      by (auto simp: gh_trace_append session_trace_Cons)
    have ok: "session_ok s1" using gh_trace_invariant [OF t(1) gh_new_session_ok] by simp
    have "gs_closed s2"
      using t(2) e ok
      by (cases rule: session_step.cases) (auto simp: deactivate_def session_ok_def dest!: gh_close_state)
    with gh_trace_invariant [OF t(3)] gh_step_invariant [OF t(2) ok] show ?thesis by simp
  qed
  have "distinct (granted (before @ Authorized q (Inr a) # after))"
    and "card (set (granted (before @ Authorized q (Inr a) # after))) \<le> 4096"
    using gh_trace_invariant [OF assms gh_new_session_ok] by (auto simp: session_ok_def new_session_def)
  then show ?thesis
    using acc inv a shut
    by (auto simp: acceptable_def authentic_def new_session_def compare_digest_True distinct_card)
qed

definition demo_policy :: BrokerPolicy where
  "demo_policy = \<lparr>bp_project_id = u ''p'', bp_repository = \<lparr>repo_owner = u ''o'', repo_name = u ''r''\<rparr>,
     bp_repository_id = None, default_branch = u ''main'', protected_branches = {u ''main''}\<rparr>"

theorem github_grants_witness:
  "\<exists>t. session_trace (new_session demo_policy (u ''r1'') (u ''c''))
      ([] @ Authorized demo_request (Inr \<lparr>az_operation = u ''pr-view'', az_payload = [(u ''number'', JInt 7)]\<rparr>)
        # [Deactivated]) t \<and> length (granted
      ([] @ Authorized demo_request (Inr \<lparr>az_operation = u ''pr-view'', az_payload = [(u ''number'', JInt 7)]\<rparr>)
        # [Deactivated])) \<le> 4096"
proof -
  let ?s = "new_session demo_policy (u ''r1'') (u ''c'')"
  have "acceptable demo_request ?s"
    by (simp add: acceptable_def authentic_def demo_request_def new_session_def demo_policy_def
        compare_digest_def MAX_REQUEST_NONCE_def ALLOWED_OPERATIONS_def u_def)
  from authorize_accept [OF this] obtain s' where
    a: "authorize demo_request ?s = (Inr \<lparr>az_operation = u ''pr-view'', az_payload = [(u ''number'', JInt 7)]\<rparr>, s')"
    by (simp add: demo_request_def)
  have t: "session_trace ?s
      ([] @ Authorized demo_request (Inr \<lparr>az_operation = u ''pr-view'', az_payload = [(u ''number'', JInt 7)]\<rparr>)
        # [Deactivated]) (deactivate s')"
    using step_authorize [OF a] step_deactivate by (auto simp: session_trace_Cons)
  with github_grants [OF t] show ?thesis by blast
qed

end
