(* ===== verification/Git_Protocol.thy ===== *)
theory Git_Protocol
  imports Github_Policy
begin

text \<open>
  \<open>src/agent_container/git_protocol.py\<close>: the part of a push the broker reads before it lets
  it through. pkt-line sections, the ref advertisement of the repository, and the gate on the
  ref updates a client asks for.
\<close>

section \<open>pkt-line sections\<close>

definition MAX_PACKET_BYTES :: nat where
  "MAX_PACKET_BYTES = 65520"

definition MAX_SECTION_BYTES :: nat where
  "MAX_SECTION_BYTES = 1048576"

definition MAX_SECTION_PACKETS :: nat where
  "MAX_SECTION_PACKETS = 1024"

definition MAX_REF_UPDATES :: nat where
  "MAX_REF_UPDATES = 8"

definition hex_header :: "bytes \<Rightarrow> bool" where
  "hex_header h \<longleftrightarrow> length h = 4 \<and> list_all (\<lambda>c. unhex (of_char c) \<noteq> None) h"

definition hex_value :: "bytes \<Rightarrow> nat" where
  "hex_value h = foldl (\<lambda>a c. 16 * a + (case unhex (of_char c) of None \<Rightarrow> 0 | Some d \<Rightarrow> d)) 0 h"

function pkt_loop ::
  "nat \<Rightarrow> nat \<Rightarrow> nat \<Rightarrow> bytes \<Rightarrow> nat \<Rightarrow> bytes list \<Rightarrow> exn + bytes list \<times> nat" where
  "pkt_loop maximum_packet maximum_section maximum_packets data offset packets =
     (let header = take 4 (drop offset data); len = hex_value header in
      if length data < offset + 4 then Inl (ValueError ''pkt-line section is incomplete'')
      else if \<not> hex_header header then Inl (ValueError ''pkt-line header is invalid'')
      else if len = 0 then
        (if maximum_section < offset + 4 then Inl (ValueError ''pkt-line section is too large'')
         else Inr (packets, offset + 4))
      else if len < 4 then Inl (ValueError ''pkt-line control packet is not allowed'')
      else if maximum_packet < len then Inl (ValueError ''pkt-line packet is too large'')
      else if length data < offset + len then Inl (ValueError ''pkt-line packet is incomplete'')
      else if maximum_section < offset + len then Inl (ValueError ''pkt-line section is too large'')
      else if maximum_packets \<le> length packets
      then Inl (ValueError ''pkt-line section has too many packets'')
      else pkt_loop maximum_packet maximum_section maximum_packets data (offset + len)
             (packets @ [take (len - 4) (drop (offset + 4) data)]))"
  by pat_completeness auto
termination
  by (relation "measure (\<lambda>(mp, ms, mk, data, offset, packets). length data - offset)") auto

declare pkt_loop.simps [simp del]

definition decode_pkt_line_section :: "bytes \<Rightarrow> nat \<Rightarrow> nat \<Rightarrow> nat \<Rightarrow> exn + bytes list \<times> nat" where
  "decode_pkt_line_section data maximum_packet maximum_section maximum_packets =
     pkt_loop maximum_packet maximum_section maximum_packets data 0 []"

definition decode_section :: "bytes \<Rightarrow> exn + bytes list \<times> nat" where
  "decode_section data =
     decode_pkt_line_section data MAX_PACKET_BYTES MAX_SECTION_BYTES MAX_SECTION_PACKETS"

section \<open>Capabilities and object ids\<close>

definition without_lf :: "bytes \<Rightarrow> bytes" where
  "without_lf payload =
     (if endswith payload [CHR 0x0A] then take (length payload - 1) payload else payload)"

definition decode_ascii :: "bytes \<Rightarrow> string \<Rightarrow> exn + pystr" where
  "decode_ascii payload err = reraise_if (\<lambda>e. e = UnicodeDecodeError) (ValueError err) (ascii_decode payload)"

definition capability_name :: "pystr \<Rightarrow> pystr" where
  "capability_name c = takeWhile (\<lambda>x. x \<noteq> 61) c"

definition parse_capabilities :: "bytes \<Rightarrow> exn + pystr list" where
  "parse_capabilities raw =
     bindE (decode_ascii raw ''Git capabilities are invalid'') (\<lambda>text.
       let capabilities = (if text = [] then [] else split_on 32 text) in
       if [] \<in> set capabilities then Inl (ValueError ''Git capabilities are invalid'')
       else if \<not> distinct capabilities then Inl (ValueError ''Git capabilities are invalid'')
       else if \<not> distinct (map capability_name capabilities)
       then Inl (ValueError ''Git capabilities are invalid'')
       else Inr capabilities)"

definition OID_FORMATS :: "pystr \<rightharpoonup> nat" where
  "OID_FORMATS = [u ''sha1'' \<mapsto> 40, u ''sha256'' \<mapsto> 64]"

definition oid_length :: "pystr \<Rightarrow> exn + nat" where
  "oid_length f = (case OID_FORMATS f of None \<Rightarrow> Inl KeyError | Some n \<Rightarrow> Inr n)"

definition object_format :: "pystr list \<Rightarrow> exn + pystr" where
  "object_format capabilities =
     (let formats = map (removeprefix (u ''object-format=''))
                      (filter (\<lambda>c. startswith c (u ''object-format='')) capabilities) in
      if formats = [] then Inr (u ''sha1'')
      else if length formats \<noteq> 1 \<or> OID_FORMATS (hd formats) = None
      then Inl (ValueError ''Git object format is invalid'')
      else Inr (hd formats))"

definition validate_oid :: "pystr \<Rightarrow> pystr \<Rightarrow> exn + pystr" where
  "validate_oid v fmt =
     bindE (oid_length fmt) (\<lambda>expected.
       if length v \<noteq> expected \<or> list_ex (\<lambda>c. \<not> is_lower_hex c) v
       then Inl (ValueError ''Git object ID is invalid'') else Inr v)"

definition zero_oid :: "pystr \<Rightarrow> exn + pystr" where
  "zero_oid fmt = bindE (oid_length fmt) (\<lambda>n. Inr (replicate n 48))"

section \<open>The advertisement\<close>

definition is_ref_char :: "nat \<Rightarrow> bool" where
  "is_ref_char c \<longleftrightarrow> is_alnum c \<or> c \<in> {46, 95, 47, 123, 125, 45}"

definition REF :: "pystr \<Rightarrow> bool" where
  "REF s = class_match is_alnum is_ref_char 511 s"

definition validate_advertised_ref :: "pystr \<Rightarrow> exn + pystr" where
  "validate_advertised_ref v =
     (if v \<notin> {u ''HEAD'', u ''capabilities^{}''} \<and> (\<not> REF v \<or> \<not> startswith v (u ''refs/''))
      then Inl (ValueError ''Git advertisement ref is invalid'') else Inr v)"

record ReceivePackAdvertisement =
  adv_refs :: "pystr \<rightharpoonup> pystr"
  adv_capabilities :: "pystr list"
  adv_object_format :: pystr
  adv_consumed :: nat

text \<open>The body of the loop over the packets; \<open>packet_count\<close> is their number.\<close>

definition advertised_line ::
  "pystr \<Rightarrow> nat \<Rightarrow> bytes \<Rightarrow> (pystr \<rightharpoonup> pystr) \<Rightarrow> exn + (pystr \<rightharpoonup> pystr)" where
  "advertised_line fmt packet_count line refs =
     (case split_on (CHR '' '') line of
        [a, b] \<Rightarrow>
          bindE (decode_ascii a ''Git advertisement is invalid'') (\<lambda>t.
          bindE (validate_oid t fmt) (\<lambda>oid.
          bindE (decode_ascii b ''Git advertisement is invalid'') (\<lambda>r.
          bindE (validate_advertised_ref r) (\<lambda>ref.
            if ref = u ''capabilities^{}'' then
              bindE (zero_oid fmt) (\<lambda>z.
                if oid \<noteq> z \<or> packet_count \<noteq> 1 then Inl (ValueError ''Git empty advertisement is invalid'')
                else Inr refs)
            else if refs ref \<noteq> None then Inl (ValueError ''Git advertisement has duplicate refs'')
            else Inr (refs(ref \<mapsto> oid))))))
      | _ \<Rightarrow> Inl (ValueError ''Git advertisement is invalid''))"

fun advertised_rest ::
  "pystr \<Rightarrow> nat \<Rightarrow> bytes list \<Rightarrow> (pystr \<rightharpoonup> pystr) \<Rightarrow> exn + (pystr \<rightharpoonup> pystr)" where
  "advertised_rest fmt packet_count [] refs = Inr refs"
| "advertised_rest fmt packet_count (raw # packets) refs =
     (let line = without_lf raw in
      if CHR 0x00 \<in> set line then Inl (ValueError ''Git advertisement is invalid'')
      else bindE (advertised_line fmt packet_count line refs) (advertised_rest fmt packet_count packets))"

definition parse_receive_pack_advertisement :: "bytes \<Rightarrow> exn + ReceivePackAdvertisement" where
  "parse_receive_pack_advertisement data =
     bindE (decode_section data) (\<lambda>(packets, consumed).
       case packets of
         [] \<Rightarrow> Inl (ValueError ''Git advertisement is empty'')
       | first # rest \<Rightarrow>
           (case split1 (CHR 0x00) (without_lf first) of
              None \<Rightarrow> Inl (ValueError ''Git advertisement capabilities are missing'')
            | Some (first_ref, raw_capabilities) \<Rightarrow>
                bindE (parse_capabilities raw_capabilities) (\<lambda>capabilities.
                bindE (object_format capabilities) (\<lambda>fmt.
                bindE (advertised_line fmt (length packets) first_ref Map.empty) (\<lambda>refs1.
                bindE (advertised_rest fmt (length packets) rest refs1) (\<lambda>refs.
                  Inr \<lparr>adv_refs = refs, adv_capabilities = capabilities,
                       adv_object_format = fmt, adv_consumed = consumed\<rparr>))))))"

section \<open>The gate\<close>

definition FIXED_CLIENT_CAPABILITIES :: "pystr set" where
  "FIXED_CLIENT_CAPABILITIES = {u ''report-status'', u ''report-status-v2'', u ''side-band-64k'',
     u ''quiet'', u ''atomic'', u ''ofs-delta''}"

definition is_agent_char :: "nat \<Rightarrow> bool" where
  "is_agent_char c \<longleftrightarrow> is_alnum c \<or> c \<in> {46, 95, 47, 43, 126, 45}"

definition AGENT :: "pystr \<Rightarrow> bool" where
  "AGENT s \<longleftrightarrow> startswith s (u ''agent='') \<and> class_match is_alnum is_agent_char 127 (drop 6 s)"

definition client_capability_allowed :: "ReceivePackAdvertisement \<Rightarrow> pystr \<Rightarrow> bool" where
  "client_capability_allowed adv c \<longleftrightarrow>
     capability_name c \<in> set (map capability_name (adv_capabilities adv))
     \<and> (c \<in> FIXED_CLIENT_CAPABILITIES \<or> c = u ''object-format='' @ adv_object_format adv \<or> AGENT c)"

definition validate_client_capabilities ::
  "pystr list \<Rightarrow> ReceivePackAdvertisement \<Rightarrow> exn + pystr list" where
  "validate_client_capabilities capabilities adv =
     (let formats = filter (\<lambda>c. startswith c (u ''object-format='')) capabilities in
      if formats \<noteq> [] \<and> formats \<noteq> [u ''object-format='' @ adv_object_format adv]
      then Inl (ValueError ''Git object format does not match'')
      else if list_all (client_capability_allowed adv) capabilities then Inr capabilities
      else Inl (ValueError ''Git capability is not allowed''))"

record RefUpdate =
  old_oid :: pystr
  new_oid :: pystr
  up_ref :: pystr

record ReceivePackGate =
  gate_updates :: "RefUpdate list"
  gate_capabilities :: "pystr list"
  gate_consumed :: nat

definition gate_command ::
  "ReceivePackAdvertisement \<Rightarrow> BrokerPolicy \<Rightarrow> pystr \<Rightarrow> bytes \<Rightarrow> pystr set \<Rightarrow> exn + RefUpdate" where
  "gate_command adv policy zero raw_command seen =
     (case split_on (CHR '' '') raw_command of
        [a, b, c] \<Rightarrow>
          bindE (decode_ascii a ''Git push command is invalid'') (\<lambda>ta.
          bindE (validate_oid ta (adv_object_format adv)) (\<lambda>old.
          bindE (decode_ascii b ''Git push command is invalid'') (\<lambda>tb.
          bindE (validate_oid tb (adv_object_format adv)) (\<lambda>new.
          bindE (decode_ascii c ''Git push command is invalid'') (\<lambda>ref.
          bindE (validate_push_ref policy ref) (\<lambda>_.
            if ref \<in> seen then Inl (ValueError ''Git push contains duplicate refs'')
            else if new = zero then Inl (ValueError ''Git ref deletion is not allowed'')
            else if adv_refs adv ref \<noteq> None then Inl (ValueError ''Git push ref already exists'')
            else if old \<noteq> zero then Inl (ValueError ''Git push lease does not match'')
            else Inr \<lparr>old_oid = old, new_oid = new, up_ref = ref\<rparr>))))))
      | _ \<Rightarrow> Inl (ValueError ''Git push command is invalid''))"

definition gate_first ::
  "ReceivePackAdvertisement \<Rightarrow> bytes \<Rightarrow> exn + bytes \<times> pystr list" where
  "gate_first adv line =
     (case split1 (CHR 0x00) line of
        None \<Rightarrow> Inl (ValueError ''Git push capabilities are missing'')
      | Some (raw_command, raw_capabilities) \<Rightarrow>
          bindE (parse_capabilities (removeprefix '' '' raw_capabilities)) (\<lambda>parsed.
          bindE (validate_client_capabilities parsed adv) (\<lambda>capabilities.
            Inr (raw_command, capabilities))))"

fun gate_rest ::
  "ReceivePackAdvertisement \<Rightarrow> BrokerPolicy \<Rightarrow> pystr \<Rightarrow> bytes list \<Rightarrow> pystr set \<Rightarrow> exn + RefUpdate list" where
  "gate_rest adv policy zero [] seen = Inr []"
| "gate_rest adv policy zero (raw # packets) seen =
     (let line = without_lf raw in
      if CHR 0x00 \<in> set line then Inl (ValueError ''Git push command is invalid'')
      else bindE (gate_command adv policy zero line seen) (\<lambda>up.
        bindE (gate_rest adv policy zero packets (insert (up_ref up) seen)) (\<lambda>ups. Inr (up # ups))))"

definition gate_receive_pack_commands ::
  "bytes \<Rightarrow> ReceivePackAdvertisement \<Rightarrow> BrokerPolicy \<Rightarrow> exn + ReceivePackGate" where
  "gate_receive_pack_commands data adv policy =
     bindE (decode_section data) (\<lambda>(packets, consumed).
       if packets = [] then Inl (ValueError ''Git push has no ref updates'')
       else if MAX_REF_UPDATES < length packets
       then Inl (ValueError ''Git push has too many ref updates'')
       else
         bindE (zero_oid (adv_object_format adv)) (\<lambda>zero.
         bindE (gate_first adv (without_lf (hd packets))) (\<lambda>(raw_command, capabilities).
         bindE (gate_command adv policy zero raw_command {}) (\<lambda>up.
         bindE (gate_rest adv policy zero (tl packets) {up_ref up}) (\<lambda>ups.
           Inr \<lparr>gate_updates = up # ups, gate_capabilities = capabilities,
                gate_consumed = consumed\<rparr>)))))"

section \<open>The pkt-line grammar\<close>

text \<open>
  A section, as the Git documentation describes it: packets, each a four-digit hexadecimal
  length (of header and payload together) and its payload, then a flush packet.
\<close>

inductive pkt_section :: "bytes list \<Rightarrow> bytes \<Rightarrow> bool" where
  flush_pkt: "hex_header z \<Longrightarrow> hex_value z = 0 \<Longrightarrow> pkt_section [] z"
| data_pkt: "hex_header h \<Longrightarrow> hex_value h = length q + 4 \<Longrightarrow> pkt_section qs b
    \<Longrightarrow> pkt_section (q # qs) (h @ q @ b)"

lemma hex_header_length: "hex_header h \<Longrightarrow> length h = 4"
  by (simp add: hex_header_def)

lemma pkt_section_length: "pkt_section qs b \<Longrightarrow> 4 \<le> length b"
  by (induction rule: pkt_section.induct) (auto simp: hex_header_length)

lemma pkt_loop_complete:
  "pkt_section qs b \<Longrightarrow> data = pre @ b @ post \<Longrightarrow> \<forall>q \<in> set qs. length q + 4 \<le> mp \<Longrightarrow>
   length pre + length b \<le> ms \<Longrightarrow> length acc + length qs \<le> mk \<Longrightarrow>
   pkt_loop mp ms mk data (length pre) acc = Inr (acc @ qs, length pre + length b)"
proof (induction arbitrary: pre acc rule: pkt_section.induct)
  case (flush_pkt z)
  then show ?case by (subst pkt_loop.simps) (simp add: Let_def hex_header_length)
next
  case (data_pkt h q qs b)
  note l = hex_header_length [OF data_pkt.hyps(1)]
  have e: "pkt_loop mp ms mk data (length (pre @ h @ q)) (acc @ [q])
      = Inr ((acc @ [q]) @ qs, length (pre @ h @ q) + length b)"
    using data_pkt.prems by (intro data_pkt.IH) auto
  have t: "take 4 (drop (length pre) data) = h" "take (length q) (drop (length pre + 4) data) = q"
    using data_pkt.prems(1) l by simp_all
  have "pkt_loop mp ms mk data (length pre + (length q + 4)) (acc @ [q])
      = Inr (acc @ q # qs, length pre + (length q + (4 + length b)))"
    using e l by (simp add: add.commute add.left_commute)
  with data_pkt.hyps data_pkt.prems l show ?case
    by (subst pkt_loop.simps) (simp add: Let_def t add.commute add.left_commute)
qed

lemma pkt_loop_sound:
  "pkt_loop mp ms mk data offset packets = Inr (ps, n) \<Longrightarrow> length packets \<le> mk \<Longrightarrow>
   \<exists>qs. ps = packets @ qs \<and> offset \<le> n \<and> n \<le> length data \<and> n \<le> ms \<and> length ps \<le> mk
     \<and> (\<forall>q \<in> set qs. length q + 4 \<le> mp) \<and> pkt_section qs (take (n - offset) (drop offset data))"
proof (induction mp ms mk data offset packets rule: pkt_loop.induct)
  case (1 mp ms mk data offset packets)
  let ?h = "take 4 (drop offset data)"
  let ?len = "hex_value ?h"
  from "1.prems"(1) have h: "offset + 4 \<le> length data" "hex_header ?h"
    by (subst (asm) pkt_loop.simps; simp add: Let_def not_less split: if_split_asm)+
  show ?case
  proof (cases "?len = 0")
    case True
    with "1.prems" h have "ps = packets" "n = offset + 4" "n \<le> ms"
      by (subst (asm) pkt_loop.simps; simp add: Let_def split: if_split_asm)+
    with True h "1.prems"(2) show ?thesis by (auto intro: pkt_section.flush_pkt)
  next
    case False
    let ?q = "take (?len - 4) (drop (offset + 4) data)"
    from "1.prems"(1) False h have c: "4 \<le> ?len" "?len \<le> mp" "offset + ?len \<le> length data"
      "offset + ?len \<le> ms" "length packets < mk"
      and r: "pkt_loop mp ms mk data (offset + ?len) (packets @ [?q]) = Inr (ps, n)"
      by (subst (asm) pkt_loop.simps; simp add: Let_def not_less not_le split: if_split_asm)+
    obtain qs where qs: "ps = (packets @ [?q]) @ qs" "offset + ?len \<le> n" "n \<le> length data" "n \<le> ms"
      "length ps \<le> mk" "\<forall>q \<in> set qs. length q + 4 \<le> mp"
      "pkt_section qs (take (n - (offset + ?len)) (drop (offset + ?len) data))"
      using "1.IH" [OF refl refl _ _ _ _ _ _ _ _ r] False h c by auto
    have q: "length ?q + 4 = ?len" using c by simp
    have "take (n - offset) (drop offset data)
        = ?h @ ?q @ take (n - (offset + ?len)) (drop (offset + ?len) data)"
    proof -
      have n: "n - offset = 4 + ((?len - 4) + (n - (offset + ?len)))" using qs(2) c(1) by linarith
      have "take (4 + (k + m)) xs = take 4 xs @ take k (drop 4 xs) @ take m (drop (4 + k) xs)"
        for k m and xs :: bytes
        by (simp only: take_add drop_drop add.commute [of k 4])
      from this [of "?len - 4" "n - (offset + ?len)" "drop offset data"] show ?thesis unfolding n using c(1) by (simp add: add.commute)
    qed
    then have "pkt_section (?q # qs) (take (n - offset) (drop offset data))"
      using pkt_section.data_pkt [OF h(2) _ qs(7), of ?q] q by simp
    with qs q c show ?thesis by (intro exI [of _ "?q # qs"]) auto
  qed
qed

lemma decode_pkt_line_section_iff:
  "decode_pkt_line_section data mp ms mk = Inr (ps, n) \<longleftrightarrow>
     n \<le> length data \<and> n \<le> ms \<and> length ps \<le> mk \<and> list_all (\<lambda>q. length q + 4 \<le> mp) ps
     \<and> pkt_section ps (take n data)"
proof
  assume "decode_pkt_line_section data mp ms mk = Inr (ps, n)"
  then have r: "pkt_loop mp ms mk data 0 [] = Inr (ps, n)" by (simp add: decode_pkt_line_section_def)
  from pkt_loop_sound [OF r] show "n \<le> length data \<and> n \<le> ms \<and> length ps \<le> mk
      \<and> list_all (\<lambda>q. length q + 4 \<le> mp) ps \<and> pkt_section ps (take n data)"
    by (auto simp: list_all_iff)
next
  assume a: "n \<le> length data \<and> n \<le> ms \<and> length ps \<le> mk \<and> list_all (\<lambda>q. length q + 4 \<le> mp) ps
    \<and> pkt_section ps (take n data)"
  then show "decode_pkt_line_section data mp ms mk = Inr (ps, n)"
    using pkt_loop_complete [of ps "take n data" data "[]" "drop n data" mp ms "[]" mk]
    by (simp add: decode_pkt_line_section_def list_all_iff)
qed

section \<open>What the gate lets through\<close>

lemma ascii_decode_Inr: "ascii_decode b = Inr t \<Longrightarrow> u b = t"
  by (auto simp: ascii_decode_def u_def split: if_split_asm)

lemma decode_ascii_Inr: "decode_ascii b e = Inr t \<Longrightarrow> u b = t"
  by (auto simp: decode_ascii_def reraise_if_Inr_iff dest: ascii_decode_Inr)

definition update_line :: "RefUpdate \<Rightarrow> pystr" where
  "update_line up = old_oid up @ 32 # new_oid up @ 32 # up_ref up"

text \<open>A creation of a new work branch, relative to what the repository advertised.\<close>

definition creates_branch :: "ReceivePackAdvertisement \<Rightarrow> BrokerPolicy \<Rightarrow> RefUpdate \<Rightarrow> bool" where
  "creates_branch adv policy up \<longleftrightarrow>
     (\<exists>b n. up_ref up = u ''refs/heads/'' @ b \<and> validate_branch b = Inr b \<and> b \<notin> protected_branches policy
       \<and> adv_refs adv (up_ref up) = None \<and> OID_FORMATS (adv_object_format adv) = Some n
       \<and> old_oid up = replicate n 48 \<and> new_oid up \<noteq> replicate n 48 \<and> length (new_oid up) = n
       \<and> list_all is_lower_hex (new_oid up))"

lemma validate_oid_Inr:
  "validate_oid v fmt = Inr w \<longleftrightarrow> w = v \<and> list_all is_lower_hex v \<and> OID_FORMATS fmt = Some (length v)"
  by (auto simp: validate_oid_def oid_length_def list_ex_iff list_all_iff split: option.split)

lemma gate_command_Inr:
  assumes "gate_command adv policy zero raw seen = Inr up" and "zero_oid (adv_object_format adv) = Inr zero"
  shows "creates_branch adv policy up \<and> up_ref up \<notin> seen \<and> u raw = update_line up"
proof -
  from assms(1) obtain a b c where s: "split_on (CHR '' '') raw = [a, b, c]"
    by (auto simp: gate_command_def split: list.split_asm)
  with assms(1) have d: "decode_ascii a ''Git push command is invalid'' = Inr (old_oid up)"
    "validate_oid (old_oid up) (adv_object_format adv) = Inr (old_oid up)"
    "decode_ascii b ''Git push command is invalid'' = Inr (new_oid up)"
    "validate_oid (new_oid up) (adv_object_format adv) = Inr (new_oid up)"
    "decode_ascii c ''Git push command is invalid'' = Inr (up_ref up)"
    "validate_push_ref policy (up_ref up) = Inr (up_ref up)"
    "up_ref up \<notin> seen" "new_oid up \<noteq> zero" "adv_refs adv (up_ref up) = None" "old_oid up = zero"
    by (cases up; auto simp: gate_command_def validate_oid_Inr validate_push_ref_Inr split: if_split_asm)+
  have "raw = a @ CHR '' '' # b @ CHR '' '' # c" using s join_split_on [of "CHR '' ''" raw] by simp
  then have "u raw = update_line up"
    using d(1,3,5) by (auto simp: update_line_def u_Cons dest!: decode_ascii_Inr)
  moreover have "zero = replicate (length (old_oid up)) 48"
    using d(2) assms(2) by (auto simp: validate_oid_Inr zero_oid_def oid_length_def split: option.split_asm)
  ultimately show ?thesis
    using d by (auto simp: creates_branch_def validate_oid_Inr validate_push_ref_Inr)
qed

lemma takeWhile_absent: "x \<notin> set xs \<Longrightarrow> takeWhile (\<lambda>y. y \<noteq> x) xs = xs"
  by (auto simp: takeWhile_eq_all_conv)

lemma gate_rest_Inr:
  "gate_rest adv policy zero packets seen = Inr ups \<Longrightarrow> zero_oid (adv_object_format adv) = Inr zero \<Longrightarrow>
   list_all2 (\<lambda>raw up. u (takeWhile (\<lambda>c. c \<noteq> CHR 0x00) (without_lf raw)) = update_line up) packets ups
   \<and> distinct (map up_ref ups) \<and> seen \<inter> set (map up_ref ups) = {} \<and> list_all (creates_branch adv policy) ups"
proof (induction packets arbitrary: seen ups)
  case (Cons raw packets)
  then obtain up ups' where c: "CHR 0x00 \<notin> set (without_lf raw)"
    "gate_command adv policy zero (without_lf raw) seen = Inr up"
    "gate_rest adv policy zero packets (insert (up_ref up) seen) = Inr ups'" "ups = up # ups'"
    by (auto simp: Let_def split: if_split_asm)
  from gate_command_Inr [OF c(2) Cons.prems(2)] Cons.IH [OF c(3) Cons.prems(2)] c(1,4)
  show ?case by (auto simp: takeWhile_absent)
qed simp

lemma validate_client_capabilities_Inr:
  "validate_client_capabilities cs adv = Inr ds \<Longrightarrow> ds = cs \<and> list_all (client_capability_allowed adv) ds"
  by (auto simp: validate_client_capabilities_def Let_def split: if_split_asm)

section \<open>Properties\<close>

text \<open>
  C5. The section reader is exactly the pkt-line grammar: \<open>decode_pkt_line_section\<close> accepts
  \<open>n\<close> bytes as the packets \<open>ps\<close> if and only if those bytes are a section with these payloads,
  complete in the input, with every packet, the section and the packet count within the
  limits. What follows the section plays no part, so the broker and the Git server behind it
  cannot split the same bytes differently.
\<close>

theorem pkt_line_grammar:
  "decode_pkt_line_section data mp ms mk = Inr (ps, n) \<longleftrightarrow>
     n \<le> length data \<and> n \<le> ms \<and> length ps \<le> mk \<and> list_all (\<lambda>q. length q + 4 \<le> mp) ps
     \<and> pkt_section ps (take n data)"
  by (rule decode_pkt_line_section_iff)

text \<open>
  C6. The gate only lets new work branches be created: if it accepts a push, the section has
  between one and eight commands, and each command line is, byte for byte, the update the gate
  checked: from the zero id to a different id of the repository's format, of a distinct ref
  under refs/heads/ whose branch name is valid, not protected, and not advertised as existing.
  Every capability passed on was advertised by name and is on the fixed list, the repository's
  object format or an agent string.
\<close>

theorem gate_only_creates:
  assumes "gate_receive_pack_commands data adv policy = Inr g"
  shows "\<exists>packets. decode_section data = Inr (packets, gate_consumed g)
    \<and> 1 \<le> length packets \<and> length packets \<le> 8
    \<and> list_all2 (\<lambda>raw up. u (takeWhile (\<lambda>c. c \<noteq> CHR 0x00) (without_lf raw)) = update_line up)
        packets (gate_updates g)
    \<and> distinct (map up_ref (gate_updates g))
    \<and> list_all (creates_branch adv policy) (gate_updates g)
    \<and> list_all (client_capability_allowed adv) (gate_capabilities g)"
proof -
  from assms obtain packets n where s: "decode_section data = Inr (packets, n)" "packets \<noteq> []"
    "length packets \<le> 8"
    by (auto simp: gate_receive_pack_commands_def MAX_REF_UPDATES_def not_less split: if_split_asm)
  then obtain p ps where p: "packets = p # ps" by (cases packets) auto
  from assms s p obtain zero raw caps up ups where z: "zero_oid (adv_object_format adv) = Inr zero"
    and f: "gate_first adv (without_lf p) = Inr (raw, caps)"
    and c: "gate_command adv policy zero raw {} = Inr up"
    and r: "gate_rest adv policy zero ps {up_ref up} = Inr ups"
    and g: "g = \<lparr>gate_updates = up # ups, gate_capabilities = caps, gate_consumed = n\<rparr>"
    by (auto simp: gate_receive_pack_commands_def split: if_split_asm)
  from f obtain rc pc where "split1 (CHR 0x00) (without_lf p) = Some (raw, rc)"
    and pc: "validate_client_capabilities pc adv = Inr caps"
    by (auto simp: gate_first_def split: option.split_asm)
  then have "takeWhile (\<lambda>c. c \<noteq> CHR 0x00) (without_lf p) = raw"
    by (auto simp: split1_def split: if_split_asm)
  with gate_command_Inr [OF c z] gate_rest_Inr [OF r z] validate_client_capabilities_Inr [OF pc] s p g
  show ?thesis by (intro exI [of _ packets]) auto
qed

definition demo_policy :: BrokerPolicy where
  "demo_policy = \<lparr>bp_project_id = u ''p'', bp_repository = \<lparr>repo_owner = u ''o'', repo_name = u ''r''\<rparr>,
     bp_repository_id = None, default_branch = u ''main'', protected_branches = {u ''main''}\<rparr>"

definition demo_advertisement :: ReceivePackAdvertisement where
  "demo_advertisement = \<lparr>adv_refs = [u ''refs/heads/main'' \<mapsto> replicate 40 49],
     adv_capabilities = [u ''report-status''], adv_object_format = u ''sha1'', adv_consumed = 0\<rparr>"

definition demo_command :: bytes where
  "demo_command = ''0000000000000000000000000000000000000000 1111111111111111111111111111111111111111 refs/heads/w''"

definition demo_push :: bytes where
  "demo_push = ''0071'' @ demo_command @ [CHR 0x00] @ '' report-status'' @ ''0000''"

lemma demo_push_section: "decode_section demo_push
    = Inr ([demo_command @ [CHR 0x00] @ '' report-status''], 117)"
proof -
  have "pkt_section [demo_command @ [CHR 0x00] @ '' report-status'']
      (''0071'' @ (demo_command @ [CHR 0x00] @ '' report-status'') @ ''0000'')"
    by (rule data_pkt [OF _ _ flush_pkt])
       (simp_all add: hex_header_def hex_value_def unhex_def class_simps demo_command_def)
  then show ?thesis
    by (simp add: decode_section_def decode_pkt_line_section_iff demo_push_def MAX_PACKET_BYTES_def
        MAX_SECTION_BYTES_def MAX_SECTION_PACKETS_def) (simp add: demo_command_def)
qed

lemma demo_push_command: "gate_command demo_advertisement demo_policy (replicate 40 48) demo_command {}
    = Inr \<lparr>old_oid = replicate 40 48, new_oid = replicate 40 49, up_ref = u ''refs/heads/w''\<rparr>"
proof -
  have s: "split_on (CHR '' '') demo_command = [replicate 40 (CHR ''0''), replicate 40 (CHR ''1''), ''refs/heads/w'']"
    by (simp add: demo_command_def numeral_eq_Suc)
  have d: "decode_ascii (replicate 40 (CHR ''0'')) e = Inr (replicate 40 48)"
    "decode_ascii (replicate 40 (CHR ''1'')) e = Inr (replicate 40 49)"
    "decode_ascii ''refs/heads/w'' e = Inr (u ''refs/heads/w'')" for e
    by (simp_all add: decode_ascii_def ascii_decode_def list_all_iff u_def)
  have o: "validate_oid (replicate 40 c) (u ''sha1'') = Inr (replicate 40 c)" if "is_lower_hex c" for c
    using that by (simp add: validate_oid_Inr OID_FORMATS_def list_all_iff)
  have "validate_push_ref demo_policy (u ''refs/heads/'' @ u ''w'') = Inr (u ''refs/heads/'' @ u ''w'')"
    unfolding validate_push_ref_Inr
    by (intro conjI refl exI [of _ "u ''w''"])
       (simp_all add: demo_policy_def validate_branch_def BRANCH_def class_match_def u_def class_simps
        startswith_def endswith_def)
  then have r: "validate_push_ref demo_policy (u ''refs/heads/w'') = Inr (u ''refs/heads/w'')"
    by (simp add: u_def)
  have "replicate 40 (49 :: nat) \<noteq> replicate 40 48" by simp
  then show ?thesis
    using r by (simp add: gate_command_def s d o demo_advertisement_def class_simps)
qed

lemma demo_push_gate: "gate_receive_pack_commands demo_push demo_advertisement demo_policy
    = Inr \<lparr>gate_updates = [\<lparr>old_oid = replicate 40 48, new_oid = replicate 40 49, up_ref = u ''refs/heads/w''\<rparr>],
           gate_capabilities = [u ''report-status''], gate_consumed = 117\<rparr>"
proof -
  have n: "CHR 0x00 \<notin> set demo_command" by (simp add: demo_command_def)
  have lf: "without_lf (demo_command @ [CHR 0x00] @ '' report-status'') = demo_command @ [CHR 0x00] @ '' report-status''"
    by (simp add: without_lf_def endswith_iff demo_command_def)
  have "gate_first demo_advertisement (demo_command @ [CHR 0x00] @ '' report-status'')
      = Inr (demo_command, [u ''report-status''])"
    using split1_append [OF n, of "'' report-status''"]
    by (simp add: gate_first_def removeprefix_def startswith_def parse_capabilities_def decode_ascii_def
        ascii_decode_def u_def validate_client_capabilities_def client_capability_allowed_def
        capability_name_def demo_advertisement_def FIXED_CLIENT_CAPABILITIES_def)
  moreover have "zero_oid (adv_object_format demo_advertisement) = Inr (replicate 40 48)"
    by (simp add: zero_oid_def oid_length_def OID_FORMATS_def demo_advertisement_def)
  ultimately show ?thesis
    using lf by (simp add: gate_receive_pack_commands_def demo_push_section MAX_REF_UPDATES_def demo_push_command)
qed

theorem gate_only_creates_witness:
  "\<exists>packets. decode_section demo_push = Inr (packets, 117) \<and> 1 \<le> length packets
    \<and> list_all (creates_branch demo_advertisement demo_policy)
        [\<lparr>old_oid = replicate 40 48, new_oid = replicate 40 49, up_ref = u ''refs/heads/w''\<rparr>]"
  using gate_only_creates [OF demo_push_gate] by auto

end
