(* ===== verification/File_System.thy ===== *)
theory File_System
  imports Host_State "HOL-Library.AList"
begin

text \<open>
  The operating system the host code works on: files, directories and descriptors, and the
  calls of Python's \<open>os\<close>, \<open>fcntl\<close> and \<open>pathlib\<close> that the state and broker files use.

  Nothing here is assumed to go well. Before each call other processes may change any file
  (\<open>t_others\<close>), the call may fail (\<open>t_fault\<close>), transfer fewer bytes than asked for (\<open>t_amount\<close>),
  or the process may be killed (\<open>t_killed\<close>): the script \<open>w_turns\<close> says what happens at each
  call. A killed process makes no further change, so the state after a run whose process died is
  the state the next process finds; the clean-up code that still runs in the model has no effect.
  A file without links stays in the table until others free it; the names \<open>.\<close> and \<open>..\<close> are
  resolved in paths but are no entries of an open directory. What a loss of power does to
  data that was not yet synced is not modelled: \<open>fsync\<close> can fail and has no other effect.
\<close>

section \<open>Computations\<close>

type_synonym fid = "nat \<times> nat"

datatype file_kind = Regular | Directory | Symlink | Socket | Special

record inode =
  in_kind :: file_kind
  in_mode :: nat
  in_uid :: nat
  in_links :: nat
  in_data :: bytes
  in_entries :: "(pystr \<times> fid) list"
  in_target :: path

type_synonym files = "fid \<rightharpoonup> inode"

record open_file =
  of_fid :: fid
  of_offset :: nat
  of_append :: bool
  of_locked :: bool

record turn =
  t_others :: "files \<Rightarrow> files"
  t_fault :: "exn option"
  t_killed :: bool
  t_fid :: fid
  t_amount :: "nat option"
  t_random :: bytes

record world =
  w_files :: files
  w_root :: fid
  w_cwd :: "(pystr \<times> fid option) list"
  w_uid :: nat
  w_umask :: nat
  w_fds :: "nat \<rightharpoonup> open_file"
  w_next_fd :: nat
  w_turns :: "nat \<Rightarrow> turn"
  w_clock :: nat
  w_dead :: bool

text \<open>
  A computation over a state \<open>'s\<close>: the world, or the world together with the local variables
  that a \<open>finally\<close> block reads.
\<close>

type_synonym ('s, 'a) prog = "'s \<Rightarrow> (exn + 'a) \<times> 's"
type_synonym 'a io = "(world, 'a) prog"

definition ret :: "'a \<Rightarrow> ('s, 'a) prog" where
  "ret x w = (Inr x, w)"

definition raise :: "exn \<Rightarrow> ('s, 'a) prog" where
  "raise e w = (Inl e, w)"

definition bind :: "('s, 'a) prog \<Rightarrow> ('a \<Rightarrow> ('s, 'b) prog) \<Rightarrow> ('s, 'b) prog" where
  "bind m f w = (case m w of (Inl e, w1) \<Rightarrow> (Inl e, w1) | (Inr x, w1) \<Rightarrow> f x w1)"

definition lift :: "exn + 'a \<Rightarrow> ('s, 'a) prog" where
  "lift r w = (r, w)"

definition check :: "bool \<Rightarrow> exn \<Rightarrow> ('s, unit) prog" where
  "check b e w = (if b then (Inr (), w) else (Inl e, w))"

text \<open>\<open>try: m except: h\<close>, where \<open>h e\<close> re-raises what no clause names.\<close>

definition try_except :: "('s, 'a) prog \<Rightarrow> (exn \<Rightarrow> ('s, 'a) prog) \<Rightarrow> ('s, 'a) prog" where
  "try_except m h w = (case m w of (Inl e, w1) \<Rightarrow> h e w1 | (Inr x, w1) \<Rightarrow> (Inr x, w1))"

text \<open>\<open>try: m finally: c\<close>: an exception of \<open>c\<close> replaces the result.\<close>

definition try_finally :: "('s, 'a) prog \<Rightarrow> ('s, unit) prog \<Rightarrow> ('s, 'a) prog" where
  "try_finally m c w =
     (case m w of (r, w1) \<Rightarrow> (case c w1 of (Inl e, w2) \<Rightarrow> (Inl e, w2) | (Inr _, w2) \<Rightarrow> (r, w2)))"

text \<open>\<open>except E: raise e\<close>, and \<open>except BaseException: c; raise\<close>.\<close>

definition translate :: "(exn \<Rightarrow> bool) \<Rightarrow> exn \<Rightarrow> ('s, 'a) prog \<Rightarrow> ('s, 'a) prog" where
  "translate p e m = try_except m (\<lambda>x. raise (if p x then e else x))"

definition on_failure :: "('s, 'a) prog \<Rightarrow> ('s, unit) prog \<Rightarrow> ('s, 'a) prog" where
  "on_failure m c = try_except m (\<lambda>x. bind c (\<lambda>_. raise x))"

fun map_io :: "('a \<Rightarrow> ('s, 'b) prog) \<Rightarrow> 'a list \<Rightarrow> ('s, 'b list) prog" where
  "map_io f [] = ret []"
| "map_io f (x # xs) = bind (f x) (\<lambda>y. bind (map_io f xs) (\<lambda>ys. ret (y # ys)))"

text \<open>
  Local variables: an effect on the state beside them (the world, or whatever else a program works on),
  an assignment, a read, and the scope of the variables.
\<close>

definition sys :: "('s, 'a) prog \<Rightarrow> ('l \<times> 's, 'a) prog" where
  "sys m lw = (case m (snd lw) of (r, w) \<Rightarrow> (r, (fst lw, w)))"

definition assign :: "('l \<Rightarrow> 'l) \<Rightarrow> ('l \<times> 's, unit) prog" where
  "assign f lw = (Inr (), (f (fst lw), snd lw))"

definition locals :: "('l \<Rightarrow> ('l \<times> 's, 'a) prog) \<Rightarrow> ('l \<times> 's, 'a) prog" where
  "locals f lw = f (fst lw) lw"

definition with_locals :: "'l \<Rightarrow> ('l \<times> 's, 'a) prog \<Rightarrow> ('s, 'a) prog" where
  "with_locals l m w = (case m (l, w) of (r, lw) \<Rightarrow> (r, snd lw))"

text \<open>\<open>if v is not None: f(v)\<close>.\<close>

definition if_some :: "'a option \<Rightarrow> ('a \<Rightarrow> ('s, unit) prog) \<Rightarrow> ('s, unit) prog" where
  "if_some v f = (case v of None \<Rightarrow> ret () | Some x \<Rightarrow> f x)"

section \<open>One call of the system\<close>

definition turn_of :: "world \<Rightarrow> turn" where
  "turn_of w = w_turns w (w_clock w)"

text \<open>What happens before the call itself: time passes, others act.\<close>

definition before_call :: "world \<Rightarrow> world" where
  "before_call w = w\<lparr>w_clock := Suc (w_clock w), w_files := t_others (turn_of w) (w_files w)\<rparr>"

definition killed_world :: "world \<Rightarrow> world" where
  "killed_world w = w\<lparr>w_clock := Suc (w_clock w), w_dead := True\<rparr>"

definition sys_call :: "(turn \<Rightarrow> world \<Rightarrow> (exn + 'a) \<times> world) \<Rightarrow> 'a io" where
  "sys_call f w =
     (if w_dead w \<or> t_killed (turn_of w) then (Inl Killed, killed_world w)
      else
        (case t_fault (turn_of w) of
           Some e \<Rightarrow> (Inl e, before_call w)
         | None \<Rightarrow> f (turn_of w) (before_call w)))"

record stat_result =
  st_id :: fid
  st_kind :: file_kind
  st_mode :: nat
  st_uid :: nat
  st_nlink :: nat
  st_size :: nat

definition stat_of :: "fid \<Rightarrow> inode \<Rightarrow> stat_result" where
  "stat_of f i = \<lparr>st_id = f, st_kind = in_kind i, st_mode = in_mode i, st_uid = in_uid i,
     st_nlink = in_links i, st_size = length (in_data i)\<rparr>"

definition lookup :: "files \<Rightarrow> fid \<Rightarrow> pystr \<Rightarrow> fid option" where
  "lookup fs d name =
     (case fs d of
        None \<Rightarrow> None
      | Some i \<Rightarrow> if in_kind i = Directory then map_of (in_entries i) name else None)"

definition update_inode :: "fid \<Rightarrow> (inode \<Rightarrow> inode) \<Rightarrow> files \<Rightarrow> files" where
  "update_inode f g fs = (case fs f of None \<Rightarrow> fs | Some i \<Rightarrow> fs(f \<mapsto> g i))"

definition set_entry :: "fid \<Rightarrow> pystr \<Rightarrow> fid \<Rightarrow> files \<Rightarrow> files" where
  "set_entry d name f = update_inode d (\<lambda>i. i\<lparr>in_entries := AList.update name f (in_entries i)\<rparr>)"

definition remove_entry :: "fid \<Rightarrow> pystr \<Rightarrow> files \<Rightarrow> files" where
  "remove_entry d name = update_inode d (\<lambda>i. i\<lparr>in_entries := AList.delete name (in_entries i)\<rparr>)"

definition add_links :: "fid \<Rightarrow> (nat \<Rightarrow> nat) \<Rightarrow> files \<Rightarrow> files" where
  "add_links f g = update_inode f (\<lambda>i. i\<lparr>in_links := g (in_links i)\<rparr>)"

definition with_files :: "(files \<Rightarrow> files) \<Rightarrow> world \<Rightarrow> world" where
  "with_files g w = w\<lparr>w_files := g (w_files w)\<rparr>"

section \<open>Descriptors\<close>

definition bad_fd :: exn where
  "bad_fd = OSError ''EBADF''"

text \<open>What a descriptor refers to.\<close>

definition fd_inode :: "world \<Rightarrow> nat \<Rightarrow> (open_file \<times> inode) option" where
  "fd_inode w fd =
     (case w_fds w fd of
        None \<Rightarrow> None
      | Some o' \<Rightarrow> (case w_files w (of_fid o') of None \<Rightarrow> None | Some i \<Rightarrow> Some (o', i)))"

definition on_fd :: "nat \<Rightarrow> (turn \<Rightarrow> open_file \<Rightarrow> inode \<Rightarrow> world \<Rightarrow> (exn + 'a) \<times> world) \<Rightarrow> 'a io" where
  "on_fd fd f = sys_call (\<lambda>t w.
     case fd_inode w fd of None \<Rightarrow> (Inl bad_fd, w) | Some (o', i) \<Rightarrow> f t o' i w)"

definition new_fd :: "fid \<Rightarrow> bool \<Rightarrow> world \<Rightarrow> (exn + nat) \<times> world" where
  "new_fd f append_mode w =
     (Inr (w_next_fd w), w\<lparr>w_fds := (w_fds w)(w_next_fd w \<mapsto>
        \<lparr>of_fid = f, of_offset = 0, of_append = append_mode, of_locked = False\<rparr>),
        w_next_fd := Suc (w_next_fd w)\<rparr>)"

text \<open>A failing \<open>close\<close> has closed the descriptor all the same.\<close>

definition os_close :: "nat \<Rightarrow> unit io" where
  "os_close fd w =
     (if w_dead w \<or> t_killed (turn_of w) then (Inl Killed, killed_world w)
      else
        let w1 = (before_call w)\<lparr>w_fds := (w_fds w)(fd := None)\<rparr> in
        (case t_fault (turn_of w) of
           Some e \<Rightarrow> (Inl e, w1)
         | None \<Rightarrow> (if w_fds w fd = None then Inl bad_fd else Inr (), w1)))"

definition os_fstat :: "nat \<Rightarrow> stat_result io" where
  "os_fstat fd = on_fd fd (\<lambda>t o' i w. (Inr (stat_of (of_fid o') i), w))"

definition transfer :: "turn \<Rightarrow> nat \<Rightarrow> nat" where
  "transfer t n = (case t_amount t of None \<Rightarrow> n | Some k \<Rightarrow> min n k)"

text \<open>A read returns at least one byte while there is one.\<close>

definition os_read :: "nat \<Rightarrow> nat \<Rightarrow> bytes io" where
  "os_read fd n = on_fd fd (\<lambda>t o' i w.
     let chunk = take (if n = 0 then 0 else max 1 (transfer t n)) (drop (of_offset o') (in_data i)) in
     (Inr chunk, w\<lparr>w_fds := (w_fds w)(fd \<mapsto> o'\<lparr>of_offset := of_offset o' + length chunk\<rparr>)\<rparr>))"

definition os_pread :: "nat \<Rightarrow> nat \<Rightarrow> nat \<Rightarrow> bytes io" where
  "os_pread fd n offset = on_fd fd (\<lambda>t o' i w.
     (Inr (take (if n = 0 then 0 else max 1 (transfer t n)) (drop offset (in_data i))), w))"

definition splice :: "nat \<Rightarrow> bytes \<Rightarrow> bytes \<Rightarrow> bytes" where
  "splice k new old = take k (old @ replicate (k - length old) (CHR 0x00)) @ new @ drop (k + length new) old"

definition os_write :: "nat \<Rightarrow> bytes \<Rightarrow> nat io" where
  "os_write fd body = on_fd fd (\<lambda>t o' i w.
     let n = transfer t (length body);
         k = (if of_append o' then length (in_data i) else of_offset o')
     in (Inr n, (with_files (update_inode (of_fid o') (\<lambda>j. j\<lparr>in_data := splice k (take n body) (in_data j)\<rparr>)) w)
           \<lparr>w_fds := (w_fds w)(fd \<mapsto> o'\<lparr>of_offset := k + n\<rparr>)\<rparr>))"

definition os_fsync :: "nat \<Rightarrow> unit io" where
  "os_fsync fd = on_fd fd (\<lambda>t o' i w. (Inr (), w))"

definition os_ftruncate :: "nat \<Rightarrow> nat \<Rightarrow> unit io" where
  "os_ftruncate fd n = on_fd fd (\<lambda>t o' i w.
     (Inr (), with_files (update_inode (of_fid o')
        (\<lambda>j. j\<lparr>in_data := take n (in_data j @ replicate (n - length (in_data j)) (CHR 0x00))\<rparr>)) w))"

definition os_fchmod :: "nat \<Rightarrow> nat \<Rightarrow> unit io" where
  "os_fchmod fd mode = on_fd fd (\<lambda>t o' i w.
     (Inr (), with_files (update_inode (of_fid o') (\<lambda>j. j\<lparr>in_mode := mode\<rparr>)) w))"

text \<open>\<open>flock\<close> returns when the lock is granted, or fails; a lock is gone with its descriptor.\<close>

definition flock :: "nat \<Rightarrow> unit io" where
  "flock fd = on_fd fd (\<lambda>t o' i w. (Inr (), w\<lparr>w_fds := (w_fds w)(fd \<mapsto> o'\<lparr>of_locked := True\<rparr>)\<rparr>))"

section \<open>Names in an open directory\<close>

definition on_dir :: "nat \<Rightarrow> (turn \<Rightarrow> fid \<Rightarrow> world \<Rightarrow> (exn + 'a) \<times> world) \<Rightarrow> 'a io" where
  "on_dir fd f = on_fd fd (\<lambda>t o' i w.
     if in_kind i = Directory then f t (of_fid o') w else (Inl (OSError ''ENOTDIR''), w))"

definition on_entry :: "nat \<Rightarrow> pystr \<Rightarrow> (turn \<Rightarrow> fid \<Rightarrow> fid \<Rightarrow> inode \<Rightarrow> world \<Rightarrow> (exn + 'a) \<times> world) \<Rightarrow> 'a io" where
  "on_entry dir_fd name f = on_dir dir_fd (\<lambda>t d w.
     case lookup (w_files w) d name of
       None \<Rightarrow> (Inl FileNotFoundError, w)
     | Some g \<Rightarrow> (case w_files w g of None \<Rightarrow> (Inl (OSError ''EIO''), w) | Some i \<Rightarrow> f t d g i w))"

text \<open>\<open>os.stat(name, dir_fd=..., follow_symlinks=False)\<close>.\<close>

definition os_stat_at :: "nat \<Rightarrow> pystr \<Rightarrow> stat_result io" where
  "os_stat_at dir_fd name = on_entry dir_fd name (\<lambda>t d g i w. (Inr (stat_of g i), w))"

definition os_listdir :: "nat \<Rightarrow> pystr list io" where
  "os_listdir dir_fd = on_dir dir_fd (\<lambda>t d w.
     (Inr (case w_files w d of None \<Rightarrow> [] | Some i \<Rightarrow> map fst (in_entries i)), w))"

text \<open>
  The flags of \<open>os.open\<close>; \<open>O_CLOEXEC\<close> and \<open>O_NONBLOCK\<close> change nothing here. Every call that
  names a file in an open directory passes \<open>O_NOFOLLOW\<close>. The access mode matters for
  directories only: who may open a file is left to \<open>t_fault\<close>.
\<close>

datatype open_flag = O_RDONLY | O_WRONLY | O_RDWR | O_CREAT | O_EXCL | O_APPEND | O_DIRECTORY | O_NOFOLLOW

definition created_mode :: "nat \<Rightarrow> nat \<Rightarrow> nat" where
  "created_mode umask mode = mode - (mode AND umask)"

definition new_inode :: "file_kind \<Rightarrow> nat \<Rightarrow> nat \<Rightarrow> inode" where
  "new_inode k mode uid = \<lparr>in_kind = k, in_mode = mode, in_uid = uid, in_links = 1, in_data = [],
     in_entries = [], in_target = (False, [])\<rparr>"

definition open_inode :: "open_flag list \<Rightarrow> fid \<Rightarrow> inode \<Rightarrow> world \<Rightarrow> (exn + nat) \<times> world" where
  "open_inode flags g i w =
     (if in_kind i = Symlink then (Inl (OSError ''ELOOP''), w)
      else if O_DIRECTORY \<in> set flags \<and> in_kind i \<noteq> Directory then (Inl (OSError ''ENOTDIR''), w)
      else if in_kind i = Directory \<and> (O_WRONLY \<in> set flags \<or> O_RDWR \<in> set flags)
      then (Inl (OSError ''EISDIR''), w)
      else if in_kind i = Socket then (Inl (OSError ''ENXIO''), w)
      else new_fd g (O_APPEND \<in> set flags) w)"

definition open_in :: "open_flag list \<Rightarrow> nat \<Rightarrow> pystr \<Rightarrow> turn \<Rightarrow> fid \<Rightarrow> world \<Rightarrow> (exn + nat) \<times> world" where
  "open_in flags mode name t d w =
     (case lookup (w_files w) d name of
        Some g \<Rightarrow>
          if O_CREAT \<in> set flags \<and> O_EXCL \<in> set flags then (Inl (FileExistsError ''File exists''), w)
          else (case w_files w g of None \<Rightarrow> (Inl (OSError ''EIO''), w) | Some i \<Rightarrow> open_inode flags g i w)
      | None \<Rightarrow>
          if O_CREAT \<notin> set flags then (Inl FileNotFoundError, w)
          else if w_files w (t_fid t) \<noteq> None then (Inl (OSError ''ENOSPC''), w)
          else new_fd (t_fid t) (O_APPEND \<in> set flags)
                 (with_files (\<lambda>fs. (set_entry d name (t_fid t) fs)
                    (t_fid t \<mapsto> new_inode Regular (created_mode (w_umask w) mode) (w_uid w))) w))"

definition os_open_at :: "open_flag list \<Rightarrow> nat \<Rightarrow> nat \<Rightarrow> pystr \<Rightarrow> nat io" where
  "os_open_at flags mode dir_fd name = on_dir dir_fd (open_in flags mode name)"

definition os_unlink_at :: "nat \<Rightarrow> pystr \<Rightarrow> unit io" where
  "os_unlink_at dir_fd name = on_entry dir_fd name (\<lambda>t d g i w.
     if in_kind i = Directory then (Inl (OSError ''EISDIR''), w)
     else (Inr (), with_files (add_links g (\<lambda>n. n - 1) \<circ> remove_entry d name) w))"

definition os_rmdir_at :: "nat \<Rightarrow> pystr \<Rightarrow> unit io" where
  "os_rmdir_at dir_fd name = on_entry dir_fd name (\<lambda>t d g i w.
     if in_kind i \<noteq> Directory then (Inl (OSError ''ENOTDIR''), w)
     else if in_entries i \<noteq> [] then (Inl (OSError ''ENOTEMPTY''), w)
     else (Inr (), with_files (add_links g (\<lambda>n. 0) \<circ> remove_entry d name) w))"

text \<open>\<open>os.link\<close> inside one directory, without following a symbolic link.\<close>

definition os_link_at :: "nat \<Rightarrow> pystr \<Rightarrow> pystr \<Rightarrow> unit io" where
  "os_link_at dir_fd source destination = on_entry dir_fd source (\<lambda>t d g i w.
     if in_kind i = Directory then (Inl (PermissionError ''EPERM''), w)
     else if lookup (w_files w) d destination \<noteq> None then (Inl (FileExistsError ''File exists''), w)
     else (Inr (), with_files (add_links g Suc \<circ> set_entry d destination g) w))"

text \<open>\<open>renameat2(..., RENAME_EXCHANGE)\<close> inside one directory.\<close>

definition renameat2_exchange :: "nat \<Rightarrow> pystr \<Rightarrow> pystr \<Rightarrow> unit io" where
  "renameat2_exchange dir_fd source destination = on_entry dir_fd source (\<lambda>t d g i w.
     case lookup (w_files w) d destination of
       None \<Rightarrow> (Inl FileNotFoundError, w)
     | Some h \<Rightarrow> (Inr (), with_files (set_entry d destination g \<circ> set_entry d source h) w))"

text \<open>\<open>os.urandom\<close> and \<open>secrets.token_bytes\<close>.\<close>

definition random_bytes :: "nat \<Rightarrow> bytes io" where
  "random_bytes n = sys_call (\<lambda>t w. (Inr (take n (t_random t @ replicate n (CHR 0x00))), w))"

section \<open>Paths\<close>

text \<open>
  Resolution of a path from a directory: the stack of names walked so far, with the file each
  leads to. A symbolic link is replaced by its target; the number of links followed is
  bounded by 40, as in the kernel. With \<open>lax\<close> a missing name is kept (\<open>Path.resolve\<close>), else
  it is an error.
\<close>

definition top_of :: "fid \<Rightarrow> (pystr \<times> fid option) list \<Rightarrow> fid option" where
  "top_of root stack = (case stack of [] \<Rightarrow> Some root | (_, f) # _ \<Rightarrow> f)"

function walk ::
  "bool \<Rightarrow> nat \<Rightarrow> files \<Rightarrow> fid \<Rightarrow> (pystr \<times> fid option) list \<Rightarrow> pystr list
     \<Rightarrow> exn + (pystr \<times> fid option) list" where
  "walk lax links fs root stack [] = Inr stack"
| "walk lax links fs root stack (c # cs) =
     (if c = [] \<or> c = u ''.'' then walk lax links fs root stack cs
      else if c = u ''..'' then walk lax links fs root (tl stack) cs
      else
        (case top_of root stack of
           None \<Rightarrow> if lax then walk lax links fs root ((c, None) # stack) cs else Inl FileNotFoundError
         | Some d \<Rightarrow>
             (case fs d of
                None \<Rightarrow> Inl (OSError ''EIO'')
              | Some i \<Rightarrow>
                  if in_kind i \<noteq> Directory
                  then (if lax then walk lax links fs root ((c, None) # stack) cs
                        else Inl (OSError ''ENOTDIR''))
                  else
                    (case map_of (in_entries i) c of
                       None \<Rightarrow>
                         if lax then walk lax links fs root ((c, None) # stack) cs
                         else Inl FileNotFoundError
                     | Some g \<Rightarrow>
                         (case fs g of
                            None \<Rightarrow> Inl (OSError ''EIO'')
                          | Some j \<Rightarrow>
                              if in_kind j = Symlink then
                                (case links of
                                   0 \<Rightarrow> Inl (OSError ''ELOOP'')
                                 | Suc n \<Rightarrow>
                                     walk lax n fs root (if fst (in_target j) then [] else stack)
                                       (snd (in_target j) @ cs))
                              else walk lax links fs root ((c, Some g) # stack) cs)))))"
  by pat_completeness auto
termination by (relation "measures [\<lambda>(lax, n, fs, root, st, cs). n, \<lambda>(lax, n, fs, root, st, cs). length cs]") auto

definition max_links :: nat where
  "max_links = 40"

definition walk_path :: "bool \<Rightarrow> world \<Rightarrow> path \<Rightarrow> exn + (pystr \<times> fid option) list" where
  "walk_path lax w p =
     walk lax max_links (w_files w) (w_root w) (if fst p then [] else w_cwd w) (snd p)"

definition path_parent :: "path \<Rightarrow> path" where
  "path_parent p = (fst p, butlast (snd p))"

definition path_name :: "path \<Rightarrow> pystr" where
  "path_name p = (case snd p of [] \<Rightarrow> [] | cs \<Rightarrow> last cs)"

text \<open>\<open>path.stat()\<close> follows a final symbolic link, \<open>path.lstat()\<close> does not.\<close>

definition stat_id :: "world \<Rightarrow> fid option \<Rightarrow> (exn + stat_result) \<times> world" where
  "stat_id w f =
     (case f of
        None \<Rightarrow> (Inl FileNotFoundError, w)
      | Some g \<Rightarrow> (case w_files w g of None \<Rightarrow> (Inl (OSError ''EIO''), w) | Some i \<Rightarrow> (Inr (stat_of g i), w)))"

definition path_stat :: "path \<Rightarrow> stat_result io" where
  "path_stat p = sys_call (\<lambda>t w.
     case walk_path False w p of
       Inl e \<Rightarrow> (Inl e, w)
     | Inr stack \<Rightarrow> stat_id w (top_of (w_root w) stack))"

definition path_lstat :: "path \<Rightarrow> stat_result io" where
  "path_lstat p = (if snd p = [] then path_stat p else sys_call (\<lambda>t w.
     case walk_path False w (path_parent p) of
       Inl e \<Rightarrow> (Inl e, w)
     | Inr stack \<Rightarrow>
         (case top_of (w_root w) stack of
            None \<Rightarrow> (Inl FileNotFoundError, w)
          | Some d \<Rightarrow> stat_id w (lookup (w_files w) d (path_name p)))))"

text \<open>
  The directory and the name a path leads to, without following the last name. The root and the
  working directory have no name.
\<close>

definition in_parent :: "path \<Rightarrow> world \<Rightarrow> (fid \<Rightarrow> pystr \<Rightarrow> (exn + 'a) \<times> world) \<Rightarrow> (exn + 'a) \<times> world" where
  "in_parent p w f =
     (case walk_path False w (path_parent p) of
        Inl e \<Rightarrow> (Inl e, w)
      | Inr stack \<Rightarrow>
          (case top_of (w_root w) stack of
             None \<Rightarrow> (Inl FileNotFoundError, w)
           | Some d \<Rightarrow> if snd p = [] then (Inl (OSError ''EBUSY''), w) else f d (path_name p)))"

definition path_inode :: "path \<Rightarrow> world \<Rightarrow> exn + fid \<times> inode" where
  "path_inode p w =
     bindE (walk_path False w p) (\<lambda>stack.
       case top_of (w_root w) stack of
         None \<Rightarrow> Inl FileNotFoundError
       | Some g \<Rightarrow> (case w_files w g of None \<Rightarrow> Inl (OSError ''EIO'') | Some i \<Rightarrow> Inr (g, i)))"

text \<open>\<open>os.open\<close> of a path; a call that creates also passes \<open>O_NOFOLLOW\<close> or \<open>O_EXCL\<close>.\<close>

definition os_open_path :: "open_flag list \<Rightarrow> nat \<Rightarrow> path \<Rightarrow> nat io" where
  "os_open_path flags mode p = sys_call (\<lambda>t w.
     if snd p = [] \<or> (O_NOFOLLOW \<notin> set flags \<and> O_EXCL \<notin> set flags) then
       (case path_inode p w of Inl e \<Rightarrow> (Inl e, w) | Inr (g, i) \<Rightarrow> open_inode flags g i w)
     else in_parent p w (\<lambda>d name. open_in flags mode name t d w))"

text \<open>\<open>path.read_bytes()\<close>: the reads up to the end of the file are taken as one call.\<close>

definition path_read_bytes :: "path \<Rightarrow> bytes io" where
  "path_read_bytes p = sys_call (\<lambda>t w.
     case path_inode p w of
       Inl e \<Rightarrow> (Inl e, w)
     | Inr (g, i) \<Rightarrow> (if in_kind i = Directory then Inl (OSError ''EISDIR'') else Inr (in_data i), w))"

definition path_unlink :: "path \<Rightarrow> unit io" where
  "path_unlink p = sys_call (\<lambda>t w. in_parent p w (\<lambda>d name.
     case lookup (w_files w) d name of
       None \<Rightarrow> (Inl FileNotFoundError, w)
     | Some g \<Rightarrow>
         if (case w_files w g of None \<Rightarrow> False | Some i \<Rightarrow> in_kind i = Directory) then (Inl (OSError ''EISDIR''), w)
         else (Inr (), with_files (add_links g (\<lambda>n. n - 1) \<circ> remove_entry d name) w)))"

text \<open>\<open>os.replace\<close> of one file by another, both in directories that exist.\<close>

definition os_replace_path :: "path \<Rightarrow> path \<Rightarrow> unit io" where
  "os_replace_path source destination = sys_call (\<lambda>t w.
     in_parent source w (\<lambda>d name. in_parent destination w (\<lambda>d' name'.
       case lookup (w_files w) d name of
         None \<Rightarrow> (Inl FileNotFoundError, w)
       | Some g \<Rightarrow>
           (case lookup (w_files w) d' name' of
              None \<Rightarrow> (Inr (), with_files (set_entry d' name' g \<circ> remove_entry d name) w)
            | Some h \<Rightarrow>
                if (case w_files w h of None \<Rightarrow> False | Some i \<Rightarrow> in_kind i = Directory)
                then (Inl (OSError ''EISDIR''), w)
                else if h = g then (Inr (), w)
                else (Inr (), with_files (add_links h (\<lambda>n. n - 1) \<circ> set_entry d' name' g \<circ> remove_entry d name) w)))))"

definition path_chmod :: "nat \<Rightarrow> path \<Rightarrow> unit io" where
  "path_chmod mode p = sys_call (\<lambda>t w.
     case path_inode p w of
       Inl e \<Rightarrow> (Inl e, w)
     | Inr (g, i) \<Rightarrow> (Inr (), with_files (update_inode g (\<lambda>j. j\<lparr>in_mode := mode\<rparr>)) w))"

definition os_mkdir_path :: "nat \<Rightarrow> path \<Rightarrow> unit io" where
  "os_mkdir_path mode p = sys_call (\<lambda>t w.
     case walk_path False w (path_parent p) of
       Inl e \<Rightarrow> (Inl e, w)
     | Inr stack \<Rightarrow>
         (case top_of (w_root w) stack of
            None \<Rightarrow> (Inl FileNotFoundError, w)
          | Some d \<Rightarrow>
              if snd p = [] \<or> lookup (w_files w) d (path_name p) \<noteq> None
              then (Inl (FileExistsError ''File exists''), w)
              else if w_files w (t_fid t) \<noteq> None then (Inl (OSError ''ENOSPC''), w)
              else (Inr (), with_files (\<lambda>fs. (set_entry d (path_name p) (t_fid t) fs)
                     (t_fid t \<mapsto> new_inode Directory (created_mode (w_umask w) mode) (w_uid w))) w)))"

text \<open>\<open>pathlib\<close>'s predicates answer \<open>False\<close> on the errors of a path that leads nowhere.\<close>

definition leads_nowhere :: "exn \<Rightarrow> bool" where
  "leads_nowhere e \<longleftrightarrow> e \<in> {FileNotFoundError, OSError ''ENOTDIR'', OSError ''EBADF'', OSError ''ELOOP''}"

definition path_test :: "stat_result io \<Rightarrow> (stat_result \<Rightarrow> bool) \<Rightarrow> bool io" where
  "path_test m p = try_except (bind m (\<lambda>s. ret (p s))) (\<lambda>e. if leads_nowhere e then ret False else raise e)"

definition path_is_symlink :: "path \<Rightarrow> bool io" where
  "path_is_symlink p = path_test (path_lstat p) (\<lambda>s. st_kind s = Symlink)"

definition path_exists :: "path \<Rightarrow> bool io" where
  "path_exists p = path_test (path_stat p) (\<lambda>s. True)"

definition path_is_dir :: "path \<Rightarrow> bool io" where
  "path_is_dir p = path_test (path_stat p) (\<lambda>s. st_kind s = Directory)"

definition path_is_file :: "path \<Rightarrow> bool io" where
  "path_is_file p = path_test (path_stat p) (\<lambda>s. st_kind s = Regular)"

text \<open>\<open>path.resolve()\<close>, and \<open>path.resolve(strict=True)\<close>.\<close>

definition path_resolve :: "bool \<Rightarrow> path \<Rightarrow> path io" where
  "path_resolve strict p = sys_call (\<lambda>t w.
     case walk_path (\<not> strict) w p of
       Inl e \<Rightarrow> (Inl (if e = OSError ''ELOOP'' then RuntimeError ''Symlink loop'' else e), w)
     | Inr stack \<Rightarrow> (Inr (True, rev (map fst stack)), w))"

text \<open>\<open>path.mkdir(parents=True, exist_ok=True, mode=...)\<close>.\<close>

function path_mkdir :: "nat \<Rightarrow> path \<Rightarrow> unit io" where
  "path_mkdir mode p =
     try_except (os_mkdir_path mode p) (\<lambda>e.
       if e = FileNotFoundError then
         (if snd p = [] then raise e
          else bind (path_mkdir 511 (path_parent p)) (\<lambda>_.
            try_except (os_mkdir_path mode p) (\<lambda>e'.
              if is_os_error e' \<and> e' \<noteq> FileNotFoundError
              then bind (path_is_dir p) (\<lambda>d. if d then ret () else raise e')
              else raise e')))
       else if is_os_error e then bind (path_is_dir p) (\<lambda>d. if d then ret () else raise e)
       else raise e)"
  by pat_completeness auto
termination by (relation "measure (\<lambda>(m, p). length (snd p))") (auto simp: path_parent_def)

end
