(* ===== verification/Private_Files.thy ===== *)
theory Private_Files
  imports File_System
begin

text \<open>
  The private files and directories of \<open>src/agent_container/state.py\<close>: a path is used only when
  it is a directory of mode 0700 or a file of mode 0600 that the current user owns and that is
  no symbolic link. Error messages are kept without the path the code appends. Below, the loops
  that read and write whole files, which several modules repeat.
\<close>

section \<open>Directories and files\<close>

definition os_getuid :: "nat io" where
  "os_getuid w = (Inr (w_uid w), w)"

text \<open>\<open>0o700\<close> and \<open>0o600\<close>.\<close>

definition mode_0700 :: nat where "mode_0700 = 448"
definition mode_0600 :: nat where "mode_0600 = 384"

definition ensure_private_directory :: "bool \<Rightarrow> path \<Rightarrow> path io" where
  "ensure_private_directory create p =
     bind (path_is_symlink p) (\<lambda>link.
     bind (check (\<not> link) (ValueError ''directory must not be a symlink'')) (\<lambda>_.
     bind (if create then bind (path_exists p) (\<lambda>e. if e then ret () else path_mkdir mode_0700 p) else ret ()) (\<lambda>_.
     bind (path_is_dir p) (\<lambda>dir.
     bind (check dir FileNotFoundError) (\<lambda>_.
     bind (path_stat p) (\<lambda>s.
     bind (check (st_mode s = mode_0700) (PermissionError ''directory must have mode 0700'')) (\<lambda>_.
     bind (path_stat p) (\<lambda>s'.
     bind os_getuid (\<lambda>uid.
     bind (check (st_uid s' = uid) (PermissionError ''directory must be owned by the current user'')) (\<lambda>_.
     path_resolve False p))))))))))"

definition ensure_private_file :: "path \<Rightarrow> path io" where
  "ensure_private_file p =
     bind (path_is_symlink p) (\<lambda>link.
     bind (check (\<not> link) (ValueError ''credential file must not be a symlink'')) (\<lambda>_.
     bind (path_is_file p) (\<lambda>file.
     bind (check file FileNotFoundError) (\<lambda>_.
     bind (path_stat p) (\<lambda>s.
     bind (check (st_mode s = mode_0600) (PermissionError ''credential file must have mode 0600'')) (\<lambda>_.
     bind (path_stat p) (\<lambda>s'.
     bind os_getuid (\<lambda>uid.
     bind (check (st_uid s' = uid) (PermissionError ''credential file must be owned by the current user'')) (\<lambda>_.
     path_resolve False p)))))))))"

text \<open>The conditions are evaluated from left to right and stop at the first that holds.\<close>

definition validate_workspace :: "path \<Rightarrow> unit io" where
  "validate_workspace p =
     (let git_dir = path_join p (u ''.git'');
          unsafe = raise (ValueError ''workspace is not a safe Git repository'')
      in bind (path_is_dir p) (\<lambda>d. if \<not> d then unsafe
         else bind (path_is_symlink p) (\<lambda>l. if l then unsafe
         else bind (path_is_symlink git_dir) (\<lambda>gl. if gl then unsafe
         else bind (path_is_dir git_dir) (\<lambda>gd. if \<not> gd then unsafe else ret ())))))"

definition validate_workspace_origin :: "path \<Rightarrow> Repository \<Rightarrow> pystr \<Rightarrow> unit io" where
  "validate_workspace_origin p repository remote_url =
     bind (validate_workspace p) (\<lambda>_.
       check (strip remote_url \<in> {https_url repository, removesuffix (u ''.git'') (https_url repository)})
         (ValueError ''workspace origin does not match''))"

section \<open>Whole files\<close>

text \<open>
  \<open>while len(body) <= maximum: chunk = os.read(fd, min(4096, maximum + 1 - len(body))) ...\<close>:
  at most one byte more than \<open>maximum\<close> is read.
\<close>

function read_up_to :: "nat \<Rightarrow> nat \<Rightarrow> bytes \<Rightarrow> bytes io" where
  "read_up_to fd maximum body w =
     (if maximum < length body then (Inr body, w)
      else
        (case os_read fd (min 4096 (maximum + 1 - length body)) w of
           (Inl e, w1) \<Rightarrow> (Inl e, w1)
         | (Inr chunk, w1) \<Rightarrow>
             if chunk = [] then (Inr body, w1) else read_up_to fd maximum (body @ chunk) w1))"
  by pat_completeness auto
termination by (relation "measure (\<lambda>(fd, m, body, w). Suc m - length body)") (auto simp: length_greater_0_conv [symmetric] simp del: length_greater_0_conv)

declare read_up_to.simps [simp del]

text \<open>\<open>while remaining: written = os.write(fd, remaining) ...\<close>.\<close>

function write_all :: "exn \<Rightarrow> nat \<Rightarrow> bytes \<Rightarrow> unit io" where
  "write_all err fd remaining w =
     (if remaining = [] then (Inr (), w)
      else
        (case os_write fd remaining w of
           (Inl e, w1) \<Rightarrow> (Inl e, w1)
         | (Inr n, w1) \<Rightarrow> if n = 0 then (Inl err, w1) else write_all err fd (drop n remaining) w1))"
  by pat_completeness auto
termination by (relation "measure (\<lambda>(e, fd, r, w). length r)") auto

declare write_all.simps [simp del]

text \<open>\<open>secrets.token_hex(n)\<close>, \<open>bytes.hex\<close>.\<close>

definition hex_bytes :: "bytes \<Rightarrow> pystr" where
  "hex_bytes b = concat (map (\<lambda>c. [hex_digit (of_char c div 16), hex_digit (of_char c mod 16)]) b)"

definition token_hex :: "nat \<Rightarrow> pystr io" where
  "token_hex n = bind (random_bytes n) (\<lambda>b. ret (hex_bytes b))"

end
