(* ===== verification/Broker_Files.thy ===== *)
theory Broker_Files
  imports Private_Files
begin

text \<open>
  The files of a broker: \<open>src/agent_container/broker/audit.py\<close> (the private append-only log),
  \<open>capability.py\<close> (what the container side accepts as a path, a capability file and a socket)
  and \<open>artifacts.py\<close> (the identity-checked removal of a run directory). An error message starts
  with the broker's label, as in the code.
\<close>

section \<open>The audit log\<close>

definition AUDIT_STATUSES :: "pystr set" where
  "AUDIT_STATUSES = {u ''ok'', u ''denied'', u ''error''}"

definition TEXT_KEYS :: "pystr list" where
  "TEXT_KEYS = [u ''run'', u ''project'', u ''operation'']"

definition nonempty_text :: "json option \<Rightarrow> bool" where
  "nonempty_text v = (case v of Some (JStr s) \<Rightarrow> s \<noteq> [] | _ \<Rightarrow> False)"

text \<open>\<open>is_iso\<close> is \<open>datetime.fromisoformat\<close>: whether it accepts a text.\<close>

definition validate_envelope :: "(pystr \<Rightarrow> bool) \<Rightarrow> string \<Rightarrow> (pystr \<times> json) list \<Rightarrow> exn + unit" where
  "validate_envelope is_iso label record =
     require
       ((case map_of record (u ''timestamp'') of Some (JStr t) \<Rightarrow> is_iso t | _ \<Rightarrow> False)
        \<and> list_all (\<lambda>k. nonempty_text (map_of record k)) TEXT_KEYS
        \<and> (case map_of record (u ''status'') of Some (JStr t) \<Rightarrow> t \<in> AUDIT_STATUSES | _ \<Rightarrow> False)
        \<and> (u ''stage'' \<in> set (map fst record) \<longrightarrow> nonempty_text (map_of record (u ''stage''))))
       (ValueError (label @ '' record is invalid''))"

record AuditLog =
  al_path :: path
  al_label :: string

definition open_descriptor :: "AuditLog \<Rightarrow> nat io" where
  "open_descriptor log =
     (let irregular = ValueError (al_label log @ '' file must be a regular non-symlink file'') in
      bind (translate is_os_error irregular
        (os_open_path [O_WRONLY, O_APPEND, O_CREAT, O_NOFOLLOW] mode_0600 (al_path log))) (\<lambda>fd.
      try_except
        (bind (os_fstat fd) (\<lambda>s.
         bind (check (st_kind s = Regular) irregular) (\<lambda>_.
         bind (check (st_mode s = mode_0600) (PermissionError (al_label log @ '' file must have mode 0600''))) (\<lambda>_.
         bind os_getuid (\<lambda>uid.
         bind (check (st_uid s = uid) (PermissionError (al_label log @ '' file must be owned by the current user''))) (\<lambda>_.
         bind (translate is_os_error irregular (path_lstat (al_path log))) (\<lambda>current.
         bind (check (st_id current = st_id s) (ValueError (al_label log @ '' file changed during validation''))) (\<lambda>_.
         ret fd))))))))
        (\<lambda>e. bind (try_except (os_close fd) (\<lambda>e'. if is_os_error e' then ret () else raise e')) (\<lambda>_. raise e))))"

definition validate_log :: "AuditLog \<Rightarrow> unit io" where
  "validate_log log = bind (open_descriptor log) os_close"

definition audit_dump_opts :: dump_opts where
  "audit_dump_opts = \<lparr>d_ascii = True, d_sort = False, d_item = u '','', d_key = u '':'', d_indent = None\<rparr>"

definition audit_line :: "(pystr \<times> json) list \<Rightarrow> exn + bytes" where
  "audit_line record = bindE (json_dumps audit_dump_opts (JObj record)) (\<lambda>t. ascii_encode (t @ [10]))"

definition log_append :: "(pystr \<Rightarrow> bool) \<Rightarrow> AuditLog \<Rightarrow> (pystr \<times> json) list \<Rightarrow> unit io" where
  "log_append is_iso log record =
     bind (lift (validate_envelope is_iso (al_label log) record)) (\<lambda>_.
     bind (lift (audit_line record)) (\<lambda>body.
     bind (open_descriptor log) (\<lambda>fd.
     try_finally
       (bind (write_all (OSError (al_label log @ '' write failed'')) fd body) (\<lambda>_. os_fsync fd))
       (os_close fd))))"

section \<open>Capabilities\<close>

definition is_capability_char :: "nat \<Rightarrow> bool" where
  "is_capability_char c \<longleftrightarrow> is_alnum c \<or> c = 95 \<or> c = 45"

definition CAPABILITY_PATTERN :: "pystr \<Rightarrow> bool" where
  "CAPABILITY_PATTERN s \<longleftrightarrow> length s = 43 \<and> list_all is_capability_char s"

definition CAPABILITY_FILE_BYTES :: nat where
  "CAPABILITY_FILE_BYTES = 44"

definition label_invalid :: "string \<Rightarrow> exn" where
  "label_invalid label = ValueError (label @ '' is invalid'')"

definition validate_exact_path :: "path \<Rightarrow> string \<Rightarrow> path io" where
  "validate_exact_path p label =
     (if \<not> fst p then raise (label_invalid label)
      else bind (translate (\<lambda>e. is_os_error e \<or> (\<exists>m. e = RuntimeError m)) (label_invalid label) (path_resolve True p))
        (\<lambda>resolved. bind (check (resolved = p) (label_invalid label)) (\<lambda>_. ret resolved)))"

text \<open>\<open>while len(output) < 45: ... os.read(descriptor, 45 - len(output))\<close> stops at 45 bytes.\<close>

function read_capability_bytes :: "nat \<Rightarrow> bytes \<Rightarrow> bytes io" where
  "read_capability_bytes fd output w =
     (if CAPABILITY_FILE_BYTES + 1 \<le> length output then (Inr output, w)
      else
        (case os_read fd (CAPABILITY_FILE_BYTES + 1 - length output) w of
           (Inl e, w1) \<Rightarrow> (Inl e, w1)
         | (Inr chunk, w1) \<Rightarrow>
             if chunk = [] then (Inr output, w1) else read_capability_bytes fd (output @ chunk) w1))"
  by pat_completeness auto
termination
  by (relation "measure (\<lambda>(fd, output, w). CAPABILITY_FILE_BYTES + 1 - length output)")
    (auto simp: length_greater_0_conv [symmetric] simp del: length_greater_0_conv)

declare read_capability_bytes.simps [simp del]

definition capability_of :: "string \<Rightarrow> bytes \<Rightarrow> exn + pystr" where
  "capability_of label body =
     bindE (reraise_if (\<lambda>e. e = UnicodeDecodeError) (label_invalid label) (ascii_decode body)) (\<lambda>text.
       let capability = removesuffix [10] text in
       if \<not> CAPABILITY_PATTERN capability \<or> ascii_encode (capability @ [10]) \<noteq> Inr body
       then Inl (label_invalid label) else Inr capability)"

definition read_capability :: "path \<Rightarrow> string \<Rightarrow> pystr io" where
  "read_capability p label =
     (let invalid = label_invalid label in
      if \<not> fst p then raise invalid
      else
        bind (translate is_os_error invalid (os_open_path [O_RDONLY, O_NOFOLLOW] 0 p)) (\<lambda>fd.
        bind (try_finally
          (translate is_os_error invalid
            (bind (os_fstat fd) (\<lambda>s.
             bind os_getuid (\<lambda>uid.
             bind (check (st_kind s = Regular \<and> st_mode s = mode_0600 \<and> st_uid s = uid
                 \<and> st_size s = CAPABILITY_FILE_BYTES) invalid) (\<lambda>_.
             bind (read_capability_bytes fd []) (\<lambda>body.
             bind (translate (\<lambda>e. is_os_error e \<or> (\<exists>m. e = RuntimeError m)) invalid
               (bind (path_resolve True p) (\<lambda>resolved. bind (path_lstat p) (\<lambda>ps. ret (resolved, ps))))) (\<lambda>(resolved, ps).
             bind (check (resolved = p \<and> st_id s = st_id ps) invalid) (\<lambda>_.
             ret body))))))))
          (os_close fd)) (\<lambda>body.
        lift (capability_of label body))))"

definition validate_socket :: "path \<Rightarrow> string \<Rightarrow> path io" where
  "validate_socket p label =
     bind (path_stat p) (\<lambda>s.
     bind os_getuid (\<lambda>uid.
     bind (check (st_kind s = Socket \<and> st_mode s = mode_0600 \<and> st_uid s = uid) (label_invalid label)) (\<lambda>_.
     ret p)))"

text \<open>The socket calls are parameters: their states, connections and errors are the kernel's.\<close>

definition connect_unix ::
  "('s, 'c) prog \<Rightarrow> ('c \<Rightarrow> ('s, unit) prog) \<Rightarrow> ('c \<Rightarrow> ('s, unit) prog) \<Rightarrow> ('c \<Rightarrow> ('s, unit) prog) \<Rightarrow> ('s, 'c) prog" where
  "connect_unix create settimeout connect shut =
     bind create (\<lambda>client.
       on_failure (bind (settimeout client) (\<lambda>_. bind (connect client) (\<lambda>_. ret client))) (shut client))"

section \<open>Run directories\<close>

record tracked =
  tr_name :: pystr
  tr_kind :: file_kind
  tr_identity :: "fid option"

record RuntimeArtifacts =
  ra_label :: string
  ra_descriptor :: "nat option"
  ra_parent_descriptor :: "nat option"
  ra_name :: pystr
  ra_directory_identity :: fid
  ra_files :: "tracked list"
  ra_sockets :: "tracked list"
  ra_removed :: bool

definition open_artifacts :: "path \<Rightarrow> string \<Rightarrow> RuntimeArtifacts io" where
  "open_artifacts run_dir label =
     bind (os_open_path [O_RDONLY, O_DIRECTORY, O_NOFOLLOW] 0 (path_parent run_dir)) (\<lambda>parent.
     bind (on_failure (os_open_at [O_RDONLY, O_DIRECTORY] 0 parent (path_name run_dir)) (os_close parent)) (\<lambda>fd.
     bind (on_failure
       (bind (os_fstat fd) (\<lambda>s.
        bind os_getuid (\<lambda>uid.
        bind (check (st_kind s = Directory \<and> st_mode s = mode_0700 \<and> st_uid s = uid)
          (PermissionError (label @ '' run directory is not private''))) (\<lambda>_. ret s))))
       (bind (os_close fd) (\<lambda>_. os_close parent))) (\<lambda>s.
     ret \<lparr>ra_label = label, ra_descriptor = Some fd, ra_parent_descriptor = Some parent,
          ra_name = path_name run_dir, ra_directory_identity = st_id s, ra_files = [], ra_sockets = [],
          ra_removed = False\<rparr>)))"

definition require_open :: "(RuntimeArtifacts \<times> world, unit) prog" where
  "require_open = locals (\<lambda>a. check (ra_descriptor a \<noteq> None) (ValueError (ra_label a @ '' run directory is closed'')))"

text \<open>\<open>os.stat(name, dir_fd=fd)\<close> with the descriptor a field: \<open>-1\<close> is no open file.\<close>

definition dir_fd_of :: "nat option \<Rightarrow> (nat \<Rightarrow> 'a io) \<Rightarrow> 'a io" where
  "dir_fd_of d f = (case d of None \<Rightarrow> raise bad_fd | Some fd \<Rightarrow> f fd)"

definition track ::
  "pystr \<Rightarrow> file_kind \<Rightarrow> (tracked \<Rightarrow> RuntimeArtifacts \<Rightarrow> RuntimeArtifacts) \<Rightarrow> (RuntimeArtifacts \<times> world, unit) prog" where
  "track name kind into =
     bind require_open (\<lambda>_. locals (\<lambda>a.
     bind (try_except
       (bind (sys (dir_fd_of (ra_descriptor a) (\<lambda>fd. os_stat_at fd name))) (\<lambda>s.
        bind (check (st_kind s = kind) (ValueError (ra_label a @ '' artifact type is invalid''))) (\<lambda>_.
        ret (Some (st_id s)))))
       (\<lambda>e. if e = FileNotFoundError then ret None else raise e)) (\<lambda>identity.
     assign (into \<lparr>tr_name = name, tr_kind = kind, tr_identity = identity\<rparr>))))"

definition track_file :: "pystr \<Rightarrow> (RuntimeArtifacts \<times> world, unit) prog" where
  "track_file name = track name Regular (\<lambda>t a. a\<lparr>ra_files := ra_files a @ [t]\<rparr>)"

definition track_socket :: "pystr \<Rightarrow> (RuntimeArtifacts \<times> world, unit) prog" where
  "track_socket name = track name Socket (\<lambda>t a. a\<lparr>ra_sockets := ra_sockets a @ [t]\<rparr>)"

text \<open>A missing entry counts as removed; any other error does not.\<close>

definition removed_or_not :: "bool io \<Rightarrow> bool io" where
  "removed_or_not m = try_except m (\<lambda>e.
     if e = FileNotFoundError then ret True else if is_os_error e then ret False else raise e)"

definition remove_tracked :: "nat option \<Rightarrow> tracked \<Rightarrow> bool io" where
  "remove_tracked d t = removed_or_not
     (bind (dir_fd_of d (\<lambda>fd. os_stat_at fd (tr_name t))) (\<lambda>s.
        if st_kind s \<noteq> tr_kind t \<or> Some (st_id s) \<noteq> tr_identity t then ret False
        else bind (dir_fd_of d (\<lambda>fd. os_unlink_at fd (tr_name t))) (\<lambda>_. ret True)))"

definition remove_directory :: "RuntimeArtifacts \<Rightarrow> bool io" where
  "remove_directory a = removed_or_not
     (bind (dir_fd_of (ra_parent_descriptor a) (\<lambda>fd. os_stat_at fd (ra_name a))) (\<lambda>s.
      bind os_getuid (\<lambda>uid.
        if st_kind s \<noteq> Directory \<or> st_id s \<noteq> ra_directory_identity a \<or> st_mode s \<noteq> mode_0700 \<or> st_uid s \<noteq> uid
        then ret False
        else bind (dir_fd_of (ra_parent_descriptor a) (\<lambda>fd. os_rmdir_at fd (ra_name a))) (\<lambda>_. ret True))))"

fun remove_all :: "nat option \<Rightarrow> tracked list \<Rightarrow> bool io" where
  "remove_all d [] = ret True"
| "remove_all d (t # ts) = bind (remove_tracked d t) (\<lambda>ok. bind (remove_all d ts) (\<lambda>oks. ret (ok \<and> oks)))"

definition close_artifacts :: "(RuntimeArtifacts \<times> world, unit) prog" where
  "close_artifacts =
     bind (locals (\<lambda>a. if_some (ra_descriptor a) (\<lambda>fd.
       bind (assign (\<lambda>a. a\<lparr>ra_descriptor := None\<rparr>)) (\<lambda>_. sys (os_close fd))))) (\<lambda>_.
     locals (\<lambda>a. if_some (ra_parent_descriptor a) (\<lambda>fd.
       bind (assign (\<lambda>a. a\<lparr>ra_parent_descriptor := None\<rparr>)) (\<lambda>_. sys (os_close fd)))))"

text \<open>True means that something is left.\<close>

definition remove_artifacts :: "(RuntimeArtifacts \<times> world, bool) prog" where
  "remove_artifacts = locals (\<lambda>a.
     if ra_removed a then ret False
     else
       bind require_open (\<lambda>_.
       bind (sys (remove_all (ra_descriptor a) (ra_files a @ ra_sockets a))) (\<lambda>oks.
       bind (sys (remove_directory a)) (\<lambda>ok.
         if \<not> oks \<or> \<not> ok then ret True
         else
           bind (assign (\<lambda>a. a\<lparr>ra_removed := True\<rparr>)) (\<lambda>_.
           bind close_artifacts (\<lambda>_. ret False))))))"

end
