(* ===== verification/Family_Issue.thy ===== *)
theory Family_Issue
  imports Host_State
begin

text \<open>
  \<open>src/agent_container/family_issue.py\<close>: an issue proposal is validated field by field, its
  text is escaped so that none of it is read as Markdown structure, and the host renders the
  body with headings and bullets of its own. A regular expression of the source is a function
  that measures the match at the head of a text.
\<close>

section \<open>Drafts\<close>

definition TITLE_BYTES :: nat where "TITLE_BYTES = 256"
definition SUMMARY_BYTES :: nat where "SUMMARY_BYTES = 2 * 1024"
definition CONTEXT_BYTES :: nat where "CONTEXT_BYTES = 4 * 1024"
definition CRITERION_BYTES :: nat where "CRITERION_BYTES = 512"
definition MAX_CRITERIA :: nat where "MAX_CRITERIA = 20"

definition REQUEST_FIELDS :: "pystr set" where
  "REQUEST_FIELDS = {u ''title'', u ''summary'', u ''context'', u ''acceptance_criteria''}"

definition BIDI_OVERRIDES :: "nat \<Rightarrow> bool" where
  "BIDI_OVERRIDES c \<longleftrightarrow> (8234 \<le> c \<and> c < 8239) \<or> (8294 \<le> c \<and> c < 8298)"

record FamilyIssueDraft =
  fd_title :: pystr
  fd_summary :: pystr
  fd_context :: pystr
  acceptance_criteria :: "pystr list"

record CanonicalFamilyIssue =
  ci_title :: pystr
  ci_body :: pystr

definition draft_invalid :: exn where
  "draft_invalid = ValueError ''family issue draft is invalid''"

definition control_char :: "nat \<Rightarrow> bool" where
  "control_char c \<longleftrightarrow> c \<le> 31 \<or> (127 \<le> c \<and> c \<le> 159)"

definition validate_draft_text :: "pystr \<Rightarrow> nat \<Rightarrow> exn + pystr" where
  "validate_draft_text v maximum_bytes =
     (if v = [] then Inl draft_invalid
      else bindE (reraise_if (\<lambda>e. e = UnicodeEncodeError) draft_invalid (utf8_encode v)) (\<lambda>encoded.
        if maximum_bytes < length encoded then Inl draft_invalid
        else if list_ex (\<lambda>c. control_char c \<or> BIDI_OVERRIDES c) v then Inl draft_invalid
        else Inr v))"

definition draft_text_of :: "nat \<Rightarrow> json \<Rightarrow> exn + pystr" where
  "draft_text_of maximum_bytes v =
     (case v of JStr s \<Rightarrow> validate_draft_text s maximum_bytes | _ \<Rightarrow> Inl draft_invalid)"

definition validate_draft :: "FamilyIssueDraft \<Rightarrow> exn + FamilyIssueDraft" where
  "validate_draft d =
     bindE (validate_draft_text (fd_title d) TITLE_BYTES) (\<lambda>_.
     bindE (validate_draft_text (fd_summary d) SUMMARY_BYTES) (\<lambda>_.
     bindE (validate_draft_text (fd_context d) CONTEXT_BYTES) (\<lambda>_.
     bindE (require (1 \<le> length (acceptance_criteria d) \<and> length (acceptance_criteria d) \<le> MAX_CRITERIA)
       draft_invalid) (\<lambda>_.
     bindE (mapE (\<lambda>c. validate_draft_text c CRITERION_BYTES) (acceptance_criteria d)) (\<lambda>_.
     Inr d)))))"

text \<open>
  \<open>payload\<close> is the decoded JSON value. A criterion that is no string is refused where the draft
  is validated, with the same error.
\<close>

definition parse_family_issue_draft :: "json \<Rightarrow> exn + FamilyIssueDraft" where
  "parse_family_issue_draft payload =
     (case payload of
        JObj kvs \<Rightarrow>
          bindE (require (set (map fst kvs) = REQUEST_FIELDS) draft_invalid) (\<lambda>_.
          bindE (case map_of kvs (u ''acceptance_criteria'') of
                   Some (JList criteria) \<Rightarrow> Inr criteria | _ \<Rightarrow> Inl draft_invalid) (\<lambda>criteria.
          bindE (draft_text_of TITLE_BYTES (the (map_of kvs (u ''title'')))) (\<lambda>title.
          bindE (draft_text_of SUMMARY_BYTES (the (map_of kvs (u ''summary'')))) (\<lambda>summary.
          bindE (draft_text_of CONTEXT_BYTES (the (map_of kvs (u ''context'')))) (\<lambda>context.
          bindE (mapE (\<lambda>c. case c of JStr s \<Rightarrow> Inr s | _ \<Rightarrow> Inl draft_invalid) criteria) (\<lambda>texts.
          validate_draft \<lparr>fd_title = title, fd_summary = summary, fd_context = context,
            acceptance_criteria = texts\<rparr>))))))
      | _ \<Rightarrow> Inl draft_invalid)"

section \<open>The regular expressions\<close>

text \<open>\<open>\S\<close> is any character but \<open>is_space\<close>; what \<open>$\<close> matches at the end of a text.\<close>

definition at_end :: "pystr \<Rightarrow> bool" where
  "at_end s \<longleftrightarrow> s = [] \<or> s = [10]"

definition space_or_end :: "pystr \<Rightarrow> bool" where
  "space_or_end s \<longleftrightarrow> startswith s [32] \<or> at_end s"

text \<open>A text in brackets: its length with both brackets, when it has at least \<open>least\<close> characters.\<close>

definition enclosed :: "nat \<Rightarrow> nat \<Rightarrow> (nat \<Rightarrow> bool) \<Rightarrow> nat \<Rightarrow> pystr \<Rightarrow> nat option" where
  "enclosed left right ok least s =
     (case s of
        [] \<Rightarrow> None
      | c # cs \<Rightarrow>
          let n = length (takeWhile ok cs) in
          if c = left \<and> least \<le> n \<and> startswith (drop n cs) [right] then Some (n + 2) else None)"

text \<open>A matcher gets the character before the text and measures the match and its group.\<close>

type_synonym matcher = "nat option \<Rightarrow> pystr \<Rightarrow> (nat \<times> nat) option"

definition bracket_pair :: "nat \<Rightarrow> nat \<Rightarrow> (nat \<Rightarrow> bool) \<Rightarrow> matcher" where
  "bracket_pair left right ok prev s =
     (let bang = (if startswith s [33] then 1 else 0) in
      case enclosed 91 93 (\<lambda>c. c \<noteq> 93 \<and> c \<noteq> 10) 1 (drop bang s) of
        None \<Rightarrow> None
      | Some n \<Rightarrow>
          (case enclosed left right ok 0 (drop (bang + n) s) of
             None \<Rightarrow> None
           | Some m \<Rightarrow> Some (bang + n + m, 0)))"

definition LINK :: matcher where
  "LINK = bracket_pair 40 41 (\<lambda>c. c \<noteq> 41 \<and> c \<noteq> 10)"

definition REFERENCE_LINK :: matcher where
  "REFERENCE_LINK = bracket_pair 91 93 (\<lambda>c. c \<noteq> 93 \<and> c \<noteq> 10)"

text \<open>The last occurrence of \<open>p\<close> on the line: where a greedy \<open>[^\n]*p\<close> ends.\<close>

definition last_on_line :: "pystr \<Rightarrow> pystr \<Rightarrow> nat option" where
  "last_on_line p s =
     (let l = takeWhile (\<lambda>c. c \<noteq> 10) s;
          hits = filter (\<lambda>i. startswith (drop i l) p) [0..<length l]
      in if hits = [] then None else Some (last hits))"

definition autolink_scheme :: "pystr \<Rightarrow> nat option" where
  "autolink_scheme s =
     (if startswith s (u ''https:'') then Some 6
      else if startswith s (u ''http:'') then Some 5
      else if startswith s (u ''mailto:'') then Some 7 else None)"

definition url_char :: "nat \<Rightarrow> bool" where
  "url_char c \<longleftrightarrow> c \<noteq> 32 \<and> c \<noteq> 60 \<and> c \<noteq> 62 \<and> c \<noteq> 10"

definition ascii_letter :: "nat \<Rightarrow> bool" where
  "ascii_letter c \<longleftrightarrow> (65 \<le> c \<and> c \<le> 90) \<or> (97 \<le> c \<and> c \<le> 122)"

text \<open>After an opening angle bracket: the rest up to and with the closing one.\<close>

definition angle_url :: "pystr \<Rightarrow> nat option" where
  "angle_url s =
     (case autolink_scheme s of
        None \<Rightarrow> None
      | Some k \<Rightarrow>
          let n = length (takeWhile url_char (drop k s)) in
          if 1 \<le> n \<and> startswith (drop (k + n) s) [62] then Some (k + n + 1) else None)"

definition angle_mail :: "pystr \<Rightarrow> nat option" where
  "angle_mail s =
     (let n = length (takeWhile (\<lambda>c. url_char c \<and> c \<noteq> 64) s);
          m = length (takeWhile (\<lambda>c. url_char c \<and> c \<noteq> 64) (drop (n + 1) s))
      in if 1 \<le> n \<and> startswith (drop n s) [64] \<and> 1 \<le> m \<and> startswith (drop (n + 1 + m) s) [62]
         then Some (n + m + 2) else None)"

definition angle_tag :: "pystr \<Rightarrow> nat option" where
  "angle_tag s =
     (let k = (if startswith s [47] then 1 else 0);
          n = length (takeWhile (\<lambda>c. c \<noteq> 62 \<and> c \<noteq> 10) (drop (k + 1) s))
      in if (case drop k s of [] \<Rightarrow> False | c # _ \<Rightarrow> ascii_letter c) \<and> startswith (drop (k + 1 + n) s) [62]
         then Some (k + n + 2) else None)"

definition HTML_OR_AUTOLINK :: matcher where
  "HTML_OR_AUTOLINK prev s =
     (case (if startswith s (u ''<!--'') then last_on_line (u ''-->'') (drop 4 s) else None) of
        Some n \<Rightarrow> Some (n + 7, 0)
      | None \<Rightarrow>
          if startswith s [60] then
            (case angle_url (tl s) of
               Some n \<Rightarrow> Some (n + 1, 0)
             | None \<Rightarrow>
                 (case angle_mail (tl s) of
                    Some n \<Rightarrow> Some (n + 1, 0)
                  | None \<Rightarrow> map_option (\<lambda>n. (n + 1, 0)) (angle_tag (tl s))))
          else None)"

text \<open>
  \<open>(.+?)(?<=\S)\1\<close> after a delimiter of \<open>k\<close> characters \<open>c\<close>: the length of the shortest
  group that ends before the delimiter again.
\<close>

definition closing :: "nat \<Rightarrow> nat \<Rightarrow> pystr \<Rightarrow> nat option" where
  "closing k c s =
     List.find (\<lambda>m. \<not> is_space (s ! (m - 1)) \<and> 10 \<notin> set (take m s) \<and> startswith (drop m s) (replicate k c))
       [1..<length s]"

definition delimited_with :: "nat \<Rightarrow> nat \<Rightarrow> pystr \<Rightarrow> (nat \<times> nat) option" where
  "delimited_with c k s =
     (case drop k s of
        [] \<Rightarrow> None
      | d # _ \<Rightarrow>
          if is_space d then None
          else map_option (\<lambda>m. (k + m + k, k)) (closing k c (drop k s)))"

text \<open>The lengths the delimiter group may take, longest first.\<close>

definition delimiter_lengths :: "pystr \<Rightarrow> nat list" where
  "delimiter_lengths s =
     (case s of
        [] \<Rightarrow> []
      | c # _ \<Rightarrow>
          let n = length (takeWhile (\<lambda>d. d = c) s) in
          if c = 42 \<or> c = 95 then rev [1..<Suc (min 3 n)]
          else if c = 126 then rev [2..<Suc n] else [])"

definition DELIMITED :: matcher where
  "DELIMITED prev s =
     (if prev = Some 92 then None
      else
        (case List.find (\<lambda>k. delimited_with (hd s) k s \<noteq> None) (delimiter_lengths s) of
           None \<Rightarrow> None
         | Some k \<Rightarrow> delimited_with (hd s) k s))"

text \<open>\<open>finditer\<close>: the matches from left to right, as start, end and group length.\<close>

function finditer :: "matcher \<Rightarrow> nat \<Rightarrow> nat option \<Rightarrow> pystr \<Rightarrow> (nat \<times> nat \<times> nat) list" where
  "finditer m i prev [] = []"
| "finditer m i prev (c # cs) =
     (case m prev (c # cs) of
        None \<Rightarrow> finditer m (i + 1) (Some c) cs
      | Some (n, g) \<Rightarrow>
          (i, i + n, g) # finditer m (i + max 1 n) (Some ((c # cs) ! (max 1 n - 1))) (drop (max 1 n - 1) cs))"
  by pat_completeness auto
termination by (relation "measure (\<lambda>(m, i, prev, s). length s)") auto

definition THEMATIC_BREAK :: "pystr \<Rightarrow> bool" where
  "THEMATIC_BREAK s \<longleftrightarrow>
     (case s of
        [] \<Rightarrow> False
      | c # _ \<Rightarrow> c \<in> {45, 42, 95} \<and> list_all (\<lambda>d. d = 32 \<or> d = c) s \<and> 3 \<le> length (filter (\<lambda>d. d = c) s))"

section \<open>Escaping\<close>

definition task_marker :: "pystr \<Rightarrow> bool" where
  "task_marker s \<longleftrightarrow> list_ex (\<lambda>p. startswith s (u p) \<and> space_or_end (drop 3 s)) [''[ ]'', ''[x]'', ''[X]'']"

definition positions :: "nat \<Rightarrow> (nat \<Rightarrow> bool) \<Rightarrow> pystr \<Rightarrow> nat list" where
  "positions off p s = map (\<lambda>i. off + i) (filter (\<lambda>i. p (s ! i)) [0..<length s])"

definition block_escapes :: "nat \<Rightarrow> pystr \<Rightarrow> nat list" where
  "block_escapes lead b =
     (let hashes = length (takeWhile (\<lambda>c. c = 35) b);
          digits = length (takeWhile is_digit b)
      in if 1 \<le> hashes \<and> hashes \<le> 6 \<and> space_or_end (drop hashes b) then [lead]
         else if startswith b [62] \<and> space_or_end (tl b) then [lead]
         else if b \<noteq> [] \<and> hd b \<in> {45, 43, 42} \<and> space_or_end (tl b)
         then lead # (if startswith b (u ''---'') \<or> startswith b (u ''***'')
                      then positions lead (\<lambda>c. c = 45 \<or> c = 42) b else [])
         else if THEMATIC_BREAK b then positions lead (\<lambda>c. c = 45 \<or> c = 42 \<or> c = 95) b
         else if 1 \<le> digits \<and> digits \<le> 9 \<and> drop digits b \<noteq> [] \<and> b ! digits \<in> {46, 41}
           \<and> space_or_end (drop (digits + 1) b)
         then [lead + digits] else [])"

definition link_escapes :: "pystr \<Rightarrow> nat \<times> nat \<times> nat \<Rightarrow> nat list" where
  "link_escapes v m =
     (case m of (start, stop, _) \<Rightarrow>
        let bang = (v ! start = 33);
            s = (if bang then start + 1 else start);
            first_close = s + length (takeWhile (\<lambda>c. c \<noteq> 93) (drop s v))
        in (if bang then [start] else []) @ [s, first_close, first_close + 1, stop - 1])"

definition escaped_positions :: "pystr \<Rightarrow> nat list" where
  "escaped_positions v =
     (let lead = length (takeWhile (\<lambda>c. c = 32) v);
          b = drop lead v;
          close = lead + length (takeWhile (\<lambda>c. c \<noteq> 93) b)
      in (if task_marker b then [lead, lead + 2] else [])
         @ (case enclosed 91 93 (\<lambda>c. c \<noteq> 93) 1 b of
              Some n \<Rightarrow> (if startswith (drop n b) [58] then [lead, close, close + 1] else [])
            | None \<Rightarrow> [])
         @ block_escapes lead b
         @ concat (map (link_escapes v) (finditer LINK 0 None v @ finditer REFERENCE_LINK 0 None v))
         @ concat (map (\<lambda>(start, stop, _). [start, stop - 1]) (finditer HTML_OR_AUTOLINK 0 None v))
         @ concat (map (\<lambda>(start, stop, g). [start..<start + g] @ [stop - g..<stop])
             (finditer DELIMITED 0 None v)))"

definition always_escaped :: "nat \<Rightarrow> bool" where
  "always_escaped c \<longleftrightarrow> c = 92 \<or> c = 96 \<or> c = 38"

fun escape_at :: "(nat \<Rightarrow> bool) \<Rightarrow> nat \<Rightarrow> pystr \<Rightarrow> pystr" where
  "escape_at E i [] = []"
| "escape_at E i (c # cs) =
     (if E i \<or> always_escaped c then [92, c] else [c]) @ escape_at E (i + 1) cs"

definition escape_markdown_literal :: "pystr \<Rightarrow> pystr" where
  "escape_markdown_literal v = (let escaped = escaped_positions v in escape_at (\<lambda>i. i \<in> set escaped) 0 v)"

section \<open>Rendering\<close>

definition render_family_issue_body :: "FamilyIssueDraft \<Rightarrow> exn + pystr" where
  "render_family_issue_body draft =
     bindE (validate_draft draft) (\<lambda>d.
       let summary = escape_markdown_literal (fd_summary d);
           context = escape_markdown_literal (fd_context d);
           criteria = concat (map (\<lambda>c. u ''- '' @ escape_markdown_literal c @ [10]) (acceptance_criteria d))
       in Inr (u ''## Summary'' @ [10, 10] @ summary @ [10, 10]
             @ u ''## Context'' @ [10, 10] @ context @ [10, 10]
             @ u ''## Acceptance criteria'' @ [10, 10] @ criteria))"

definition agent_label :: "pystr \<Rightarrow> pystr" where
  "agent_label a = (if a = u ''claude'' then u ''Claude'' else u ''Codex'')"

definition canonicalize_family_issue ::
  "FamilyIssueDraft \<Rightarrow> pystr option \<Rightarrow> pystr option \<Rightarrow> exn + CanonicalFamilyIssue" where
  "canonicalize_family_issue draft agent repository =
     bindE (validate_draft draft) (\<lambda>d.
     bindE (render_family_issue_body d) (\<lambda>body.
       case (agent, repository) of
         (None, None) \<Rightarrow> Inr \<lparr>ci_title = fd_title d, ci_body = body\<rparr>
       | (Some a, Some r) \<Rightarrow>
           bindE (reraise_if (\<lambda>e. e = TypeError \<or> is_value_error e) draft_invalid
             (bindE (validate_agent a False) (\<lambda>va. bindE (validate_project_id r) (\<lambda>vr. Inr (va, vr)))))
           (\<lambda>(va, vr).
             Inr \<lparr>ci_title = fd_title d,
                  ci_body = body @ [10] @ u ''---'' @ [10, 10, 8212, 32] @ agent_label va @ u '' ('' @ vr
                    @ u '')'' @ [10]\<rparr>)
       | _ \<Rightarrow> Inl draft_invalid))"

section \<open>What the host renders\<close>

fun unescape :: "pystr \<Rightarrow> pystr" where
  "unescape [] = []"
| "unescape (c # s) = (if c = 92 then (case s of [] \<Rightarrow> [] | d # t \<Rightarrow> d # unescape t) else c # unescape s)"

lemma unescape_escape_at: "unescape (escape_at E i v) = v"
  by (induction E i v rule: escape_at.induct) (auto simp: always_escaped_def)

lemma unescape_escape [simp]: "unescape (escape_markdown_literal v) = v"
  by (simp add: escape_markdown_literal_def Let_def unescape_escape_at)

lemma escape_inj: "escape_markdown_literal v = escape_markdown_literal w \<longleftrightarrow> v = w"
  using unescape_escape by metis

lemma set_escape_at: "set (escape_at E i v) \<subseteq> insert 92 (set v)"
  by (induction E i v rule: escape_at.induct) auto

lemma escape_no_newline: "10 \<notin> set v \<Longrightarrow> 10 \<notin> set (escape_markdown_literal v)"
  using set_escape_at [of _ 0 v] unfolding escape_markdown_literal_def Let_def by fastforce

definition clean_text :: "nat \<Rightarrow> pystr \<Rightarrow> bool" where
  "clean_text maximum_bytes v \<longleftrightarrow> v \<noteq> [] \<and> (\<exists>b. utf8_encode v = Inr b \<and> length b \<le> maximum_bytes)
     \<and> list_all (\<lambda>c. \<not> control_char c \<and> \<not> BIDI_OVERRIDES c) v"

lemma validate_draft_text_Inr:
  "validate_draft_text v m = Inr w \<longleftrightarrow> w = v \<and> clean_text m v"
  by (cases "utf8_encode v") (auto simp: validate_draft_text_def clean_text_def list_all_iff list_ex_iff not_less)

lemma clean_no_newline: "clean_text m v \<Longrightarrow> 10 \<notin> set v"
  by (auto simp: clean_text_def list_all_iff control_char_def)

definition draft_ok :: "FamilyIssueDraft \<Rightarrow> bool" where
  "draft_ok d \<longleftrightarrow> clean_text TITLE_BYTES (fd_title d) \<and> clean_text SUMMARY_BYTES (fd_summary d)
     \<and> clean_text CONTEXT_BYTES (fd_context d) \<and> 1 \<le> length (acceptance_criteria d)
     \<and> length (acceptance_criteria d) \<le> MAX_CRITERIA
     \<and> list_all (clean_text CRITERION_BYTES) (acceptance_criteria d)"

lemma mapE_validate_draft_text:
  "(\<exists>ys. mapE (\<lambda>c. validate_draft_text c m) xs = Inr ys) \<longleftrightarrow> list_all (clean_text m) xs"
  by (induction xs) (auto simp: bindE_Inr_iff validate_draft_text_Inr)

lemma validate_draft_Inr: "validate_draft d = Inr d' \<longleftrightarrow> d' = d \<and> draft_ok d"
  by (auto simp: validate_draft_def draft_ok_def bindE_Inr_iff validate_draft_text_Inr require_Inr_iff
      mapE_validate_draft_text [symmetric])

definition issue_lines :: "FamilyIssueDraft \<Rightarrow> pystr list" where
  "issue_lines d = [u ''## Summary'', [], escape_markdown_literal (fd_summary d), [],
     u ''## Context'', [], escape_markdown_literal (fd_context d), [], u ''## Acceptance criteria'', []]
     @ map (\<lambda>c. u ''- '' @ escape_markdown_literal c) (acceptance_criteria d)"

definition footer_lines :: "pystr option \<Rightarrow> pystr option \<Rightarrow> pystr list" where
  "footer_lines agent repository =
     (case (agent, repository) of
        (Some a, Some r) \<Rightarrow> [[], u ''---'', [], [8212, 32] @ agent_label a @ u '' ('' @ r @ u '')'', []]
      | _ \<Rightarrow> [[]])"

lemma split_on_line: "10 \<notin> set p \<Longrightarrow> split_on 10 (p @ 10 # ys) = p # split_on 10 ys"
  by (rule split_on_append)

lemma split_on_newline: "split_on 10 (10 # ys) = [] # split_on 10 ys"
  by simp

lemma ten_notin_u: "CHR 0x0A \<notin> set s \<Longrightarrow> 10 \<notin> set (u s)"
proof
  assume "CHR 0x0A \<notin> set s" and "10 \<in> set (u s)"
  then obtain c where c: "c \<in> set s" "of_char c = (10 :: nat)" by (auto simp: u_def)
  have "c = char_of (10 :: nat)" unfolding c(2) [symmetric] by simp
  also have "char_of (10 :: nat) = CHR 0x0A" by code_simp
  finally show False using c(1) \<open>CHR 0x0A \<notin> set s\<close> by simp
qed

lemma split_on_criteria:
  "list_all (clean_text m) cs \<Longrightarrow>
   split_on 10 (concat (map (\<lambda>c. u ''- '' @ escape_markdown_literal c @ [10]) cs) @ rest)
     = map (\<lambda>c. u ''- '' @ escape_markdown_literal c) cs @ split_on 10 rest"
proof (induction cs)
  case (Cons c cs)
  have n: "10 \<notin> set (u ''- '' @ escape_markdown_literal c)"
    using Cons.prems clean_no_newline escape_no_newline ten_notin_u by auto
  show ?case
    using split_on_line [OF n, of "concat (map (\<lambda>c. u ''- '' @ escape_markdown_literal c @ [10]) cs) @ rest"] Cons
    by simp
qed simp

lemma split_on_body:
  assumes "draft_ok d" and "render_family_issue_body d = Inr body"
  shows "split_on 10 (body @ rest) = issue_lines d @ split_on 10 rest"
proof -
  note c = clean_no_newline escape_no_newline
  have n: "10 \<notin> set (escape_markdown_literal (fd_summary d))" "10 \<notin> set (escape_markdown_literal (fd_context d))"
    "list_all (clean_text CRITERION_BYTES) (acceptance_criteria d)"
    "10 \<notin> set (u ''## Summary'')" "10 \<notin> set (u ''## Context'')" "10 \<notin> set (u ''## Acceptance criteria'')"
    using assms(1) c by (auto simp: draft_ok_def intro!: ten_notin_u)
  have v: "validate_draft d = Inr d" using assms(1) by (simp add: validate_draft_Inr)
  have b: "body @ rest = u ''## Summary'' @ 10 # 10 # escape_markdown_literal (fd_summary d) @ 10 # 10
      # u ''## Context'' @ 10 # 10 # escape_markdown_literal (fd_context d) @ 10 # 10
      # u ''## Acceptance criteria'' @ 10 # 10
      # concat (map (\<lambda>c. u ''- '' @ escape_markdown_literal c @ [10]) (acceptance_criteria d)) @ rest"
    using assms(2) by (simp add: render_family_issue_body_def v Let_def)
  show ?thesis
    unfolding b issue_lines_def
    by (simp only: split_on_line [OF n(1)] split_on_line [OF n(2)] split_on_line [OF n(4)] split_on_line [OF n(5)]
        split_on_line [OF n(6)] split_on_newline split_on_criteria [OF n(3)] append_Cons append_Nil append_assoc)
qed

lemma canonicalize_lines:
  assumes "canonicalize_family_issue d agent repository = Inr ci"
  shows "draft_ok d \<and> ci_title ci = fd_title d
    \<and> split_on 10 (ci_body ci) = issue_lines d @ footer_lines agent repository"
proof -
  from assms obtain body where b: "draft_ok d" "render_family_issue_body d = Inr body"
    by (auto simp: canonicalize_family_issue_def validate_draft_Inr)
  have v: "validate_draft d = Inr d" using b(1) by (simp add: validate_draft_Inr)
  have l: "split_on 10 (body @ rest) = issue_lines d @ split_on 10 rest" for rest
    by (rule split_on_body [OF b])
  show ?thesis
  proof (cases agent)
    case None
    then show ?thesis
      using assms b l [of "[]"]
      by (cases repository) (auto simp: canonicalize_family_issue_def v footer_lines_def)
  next
    case (Some a)
    with assms b obtain r where r: "repository = Some r" "validate_agent a False = Inr a"
      "validate_project_id r = Inr r"
      "ci = \<lparr>ci_title = fd_title d, ci_body = body @ [10] @ u ''---'' @ [10, 10, 8212, 32] @ agent_label a
        @ u '' ('' @ r @ u '')'' @ [10]\<rparr>"
      by (cases repository)
        (auto simp: canonicalize_family_issue_def v reraise_if_Inr_iff validate_agent_def
          validate_project_id_iff split: if_split_asm)
    have n: "10 \<notin> set ([8212, 32] @ agent_label a @ u '' ('' @ r @ u '')'')" "10 \<notin> set (u ''---'')"
      using slug_match_chars [of r 10] r(3) 
      by (auto simp: agent_label_def validate_project_id_iff class_simps intro!: ten_notin_u)
    have "split_on 10 ([10] @ u ''---'' @ [10, 10, 8212, 32] @ agent_label a @ u '' ('' @ r @ u '')'' @ [10])
        = footer_lines agent repository"
      using split_on_line [OF n(1), of "[]"] split_on_line [OF n(2)]
      by (simp add: footer_lines_def Some r(1))
    with l r(4) b(1) show ?thesis by simp
  qed
qed

text \<open>
  C18. What is previewed and posted is exactly the host's structure around the proposal: a
  canonical issue has the proposal's title, and its body, cut into lines, is the host's
  headings, one line for the summary, one for the context, one bullet for each criterion and
  the host's footer; so no proposed text starts a line of its own. Removing the backslashes from
  a rendered text gives the proposed text back, and every proposed text is free of control
  characters and bidirectional overrides.
\<close>

theorem issue_body_structure:
  assumes "canonicalize_family_issue d agent repository = Inr ci"
  shows "ci_title ci = fd_title d \<and> split_on 10 (ci_body ci) = issue_lines d @ footer_lines agent repository
    \<and> map unescape [escape_markdown_literal (fd_summary d), escape_markdown_literal (fd_context d)]
        = [fd_summary d, fd_context d]
    \<and> map (unescape \<circ> escape_markdown_literal) (acceptance_criteria d) = acceptance_criteria d
    \<and> list_all (list_all (\<lambda>c. \<not> control_char c \<and> \<not> BIDI_OVERRIDES c))
        (fd_title d # fd_summary d # fd_context d # acceptance_criteria d)"
  using canonicalize_lines [OF assms]
  by (auto simp: draft_ok_def clean_text_def list_all_iff comp_def)

definition demo_draft :: FamilyIssueDraft where
  "demo_draft = \<lparr>fd_title = u ''T'', fd_summary = u ''# a'', fd_context = u ''b'', acceptance_criteria = [u ''c'']\<rparr>"

definition demo_issue :: CanonicalFamilyIssue where
  "demo_issue = \<lparr>ci_title = u ''T'', ci_body = join_with [10] [u ''## Summary'', [], [92] @ u ''# a'', [],
     u ''## Context'', [], u ''b'', [], u ''## Acceptance criteria'', [], u ''- c'', []]\<rparr>"

lemma utf8_ascii: "list_all (\<lambda>c. c < 128) s \<Longrightarrow> utf8_encode s = Inr (map char_of s)"
  by (induction s) (simp_all add: utf8_char_def)

lemma demo_draft_ok: "draft_ok demo_draft"
  by (simp add: draft_ok_def demo_draft_def clean_text_def u_def utf8_char_def control_char_def BIDI_OVERRIDES_def
      TITLE_BYTES_def SUMMARY_BYTES_def CONTEXT_BYTES_def CRITERION_BYTES_def MAX_CRITERIA_def)

lemma demo_issue_canonical: "canonicalize_family_issue demo_draft None None = Inr demo_issue"
proof -
  have "escape_markdown_literal (u ''# a'') = [92] @ u ''# a''"
    "escape_markdown_literal (u ''b'') = u ''b''"
    "escape_markdown_literal (u ''c'') = u ''c''" "u ''- c'' = u ''- '' @ u ''c''"
    by code_simp+
  then show ?thesis
    using demo_draft_ok
    by (simp add: canonicalize_family_issue_def render_family_issue_body_def validate_draft_Inr [THEN iffD2] Let_def
        demo_draft_def demo_issue_def)
qed

theorem issue_body_structure_witness:
  "split_on 10 (ci_body demo_issue) = issue_lines demo_draft @ [[]]"
  using issue_body_structure [OF demo_issue_canonical] by (simp add: footer_lines_def)

text \<open>
  C19. The preview shows everything: two proposals with the same canonical issue, for the same
  agent and repository, are the same proposal.
\<close>

theorem canonical_issue_injective:
  assumes "canonicalize_family_issue d agent repository = Inr ci"
    and "canonicalize_family_issue d' agent repository = Inr ci"
  shows "d = d'"
proof -
  have l: "issue_lines d = issue_lines d'" "fd_title d = fd_title d'"
    using canonicalize_lines [OF assms(1)] canonicalize_lines [OF assms(2)] by simp_all
  have "inj (\<lambda>c. u ''- '' @ escape_markdown_literal c)"
    by (simp add: inj_def escape_inj)
  then have "acceptance_criteria d = acceptance_criteria d'"
    using l(1) by (simp add: issue_lines_def inj_map_eq_map)
  with l show ?thesis by (simp add: issue_lines_def escape_inj)
qed

text \<open>A summary that begins with a number sign, and one that spells the escaped number sign itself.\<close>

definition escaped_draft :: FamilyIssueDraft where
  "escaped_draft = \<lparr>fd_title = u ''T'', fd_summary = 92 # u ''# a'', fd_context = u ''b'', acceptance_criteria = [u ''c'']\<rparr>"

lemma escaped_draft_canonical: "\<exists>ci. canonicalize_family_issue escaped_draft None None = Inr ci"
proof -
  have "draft_ok escaped_draft"
    by (simp add: draft_ok_def escaped_draft_def clean_text_def u_def utf8_char_def control_char_def BIDI_OVERRIDES_def
        TITLE_BYTES_def SUMMARY_BYTES_def CONTEXT_BYTES_def CRITERION_BYTES_def MAX_CRITERIA_def)
  then show ?thesis
    by (simp add: canonicalize_family_issue_def render_family_issue_body_def validate_draft_Inr [THEN iffD2] Let_def)
qed

theorem canonical_issue_injective_witness:
  "\<exists>ci ci'. canonicalize_family_issue demo_draft None None = Inr ci
     \<and> canonicalize_family_issue escaped_draft None None = Inr ci' \<and> ci \<noteq> ci'"
proof -
  obtain ci' where e: "canonicalize_family_issue escaped_draft None None = Inr ci'" using escaped_draft_canonical by blast
  have "fd_summary demo_draft \<noteq> fd_summary escaped_draft" by (simp add: demo_draft_def escaped_draft_def u_def)
  then have "demo_draft \<noteq> escaped_draft" by metis
  with canonical_issue_injective [OF demo_issue_canonical] e have "demo_issue \<noteq> ci'" by blast
  with demo_issue_canonical e show ?thesis by blast
qed

end
