(* ===== verification/Family_State.thy ===== *)
theory Family_State
  imports Private_Files
begin

text \<open>
  \<open>src/agent_container/family_state.py\<close>: the layout of the family's private state, the binding of
  a project to a GitHub repository with its file format, and the file discipline the family
  stores share: parents opened component by component, identities compared before and after,
  files published by link or exchange. The variables a \<open>finally\<close> block reads are a record of
  locals.
\<close>

section \<open>Layout\<close>

record FamilyStateLayout =
  fl_root :: path
  fl_project_id :: pystr

definition create_layout :: "path \<Rightarrow> pystr \<Rightarrow> exn + FamilyStateLayout" where
  "create_layout root project =
     (if \<not> fst root then Inl (ValueError ''family state root must be absolute'')
      else bindE (validate_project_id project) (\<lambda>v. Inr \<lparr>fl_root = root, fl_project_id = v\<rparr>))"

definition family_root :: "FamilyStateLayout \<Rightarrow> path" where
  "family_root l = path_join (fl_root l) (u ''family'')"

definition family_app_file :: "FamilyStateLayout \<Rightarrow> path" where
  "family_app_file l = path_join (family_root l) (u ''app.json'')"

definition family_private_key_file :: "FamilyStateLayout \<Rightarrow> path" where
  "family_private_key_file l = path_join (family_root l) (u ''private-key.pem'')"

definition family_project_dir :: "FamilyStateLayout \<Rightarrow> path" where
  "family_project_dir l = path_join (path_join (family_root l) (u ''projects'')) (fl_project_id l)"

definition family_binding_file :: "FamilyStateLayout \<Rightarrow> path" where
  "family_binding_file l = path_join (family_project_dir l) (u ''binding.json'')"

definition family_pending_dir :: "FamilyStateLayout \<Rightarrow> path" where
  "family_pending_dir l = path_join (family_project_dir l) (u ''pending'')"

definition family_audit_file :: "FamilyStateLayout \<Rightarrow> path" where
  "family_audit_file l = path_join (path_join (family_project_dir l) (u ''audit'')) (u ''events.jsonl'')"

definition family_intake_run_root :: "(bytes \<Rightarrow> pystr) \<Rightarrow> FamilyStateLayout \<Rightarrow> exn + path" where
  "family_intake_run_root sha l =
     bindE (github_broker_project_label sha (fl_project_id l)) (\<lambda>p.
       Inr (path_join (path_join (path_join (family_root l) (u ''intake'')) (u ''r'')) p))"

section \<open>Private entries\<close>

definition same_inode :: "stat_result \<Rightarrow> stat_result \<Rightarrow> bool" where
  "same_inode left right \<longleftrightarrow> st_id left = st_id right"

definition validate_private_directory :: "stat_result \<Rightarrow> unit io" where
  "validate_private_directory s =
     bind (check (st_kind s = Directory) (ValueError ''family binding parent is invalid'')) (\<lambda>_.
     bind (check (st_mode s = mode_0700) (PermissionError ''family binding parent is not private'')) (\<lambda>_.
     bind os_getuid (\<lambda>uid.
     check (st_uid s = uid) (PermissionError ''family binding parent is not private''))))"

definition validate_private_file :: "stat_result \<Rightarrow> unit io" where
  "validate_private_file s =
     bind (check (st_kind s = Regular \<and> st_nlink s = 1) (ValueError ''family binding file is invalid'')) (\<lambda>_.
     bind (check (st_mode s = mode_0600) (PermissionError ''family binding file is not private'')) (\<lambda>_.
     bind os_getuid (\<lambda>uid.
     check (st_uid s = uid) (PermissionError ''family binding file is not private''))))"

definition is_permission_error :: "exn \<Rightarrow> bool" where
  "is_permission_error e = (case e of PermissionError _ \<Rightarrow> True | _ \<Rightarrow> False)"

text \<open>\<open>except PermissionError: raise\<close>, then \<open>except (OSError, ValueError): raise e\<close>.\<close>

definition keep_permission :: "(exn \<Rightarrow> bool) \<Rightarrow> exn \<Rightarrow> ('s, 'a) prog \<Rightarrow> ('s, 'a) prog" where
  "keep_permission p e m = translate (\<lambda>x. \<not> is_permission_error x \<and> p x) e m"

text \<open>One step down: the local variable is the descriptor of the directory reached.\<close>

definition open_component :: "pystr \<Rightarrow> bool \<Rightarrow> (nat \<times> world, bool) prog" where
  "open_component component seen = locals (\<lambda>fd.
     bind (sys (os_stat_at fd component)) (\<lambda>before.
     bind (sys (os_open_at [O_RDONLY, O_DIRECTORY] 0 fd component)) (\<lambda>child.
     bind (sys (os_fstat child)) (\<lambda>opened.
     bind (sys (os_close fd)) (\<lambda>_.
     bind (assign (\<lambda>_. child)) (\<lambda>_.
     bind (check (same_inode before opened) (ValueError ''family binding parent changed'')) (\<lambda>_.
       if seen then bind (sys (validate_private_directory opened)) (\<lambda>_. ret True)
       else bind (sys os_getuid) (\<lambda>uid.
         ret (st_kind opened = Directory \<and> st_mode opened = mode_0700 \<and> st_uid opened = uid)))))))))"

fun open_components :: "pystr list \<Rightarrow> bool \<Rightarrow> (nat \<times> world, nat) prog" where
  "open_components [] seen = locals (\<lambda>fd.
     bind (sys (os_fstat fd)) (\<lambda>s. bind (sys (validate_private_directory s)) (\<lambda>_. ret fd)))"
| "open_components (c # cs) seen = bind (open_component c seen) (open_components cs)"

definition open_private_parent :: "path \<Rightarrow> nat io" where
  "open_private_parent p =
     (if \<not> fst p \<or> path_name p \<in> {[], u ''.'', u ''..''} then raise (ValueError ''family binding path is invalid'')
      else
        bind (keep_permission (\<lambda>e. is_os_error e \<or> is_value_error e) (ValueError ''family binding parent is invalid'')
          (ensure_private_directory False (path_parent p))) (\<lambda>_.
        bind (os_open_path [O_RDONLY, O_DIRECTORY, O_NOFOLLOW] 0 (True, [])) (\<lambda>root.
        with_locals root
          (try_except (open_components (snd (path_parent p)) False) (\<lambda>e. locals (\<lambda>fd.
             bind (sys (os_close fd)) (\<lambda>_.
               raise (if is_os_error e \<and> \<not> is_permission_error e
                      then ValueError ''family binding parent is invalid'' else e))))))))"

definition binding_file_invalid :: exn where
  "binding_file_invalid = ValueError ''family binding file is invalid''"

definition entry_stat :: "nat \<Rightarrow> pystr \<Rightarrow> stat_result io" where
  "entry_stat parent name = translate is_os_error binding_file_invalid (os_stat_at parent name)"

definition open_private_file :: "nat \<Rightarrow> pystr \<Rightarrow> (nat \<times> stat_result) io" where
  "open_private_file parent name =
     bind (entry_stat parent name) (\<lambda>before.
     bind (validate_private_file before) (\<lambda>_.
     bind (translate is_os_error binding_file_invalid (os_open_at [O_RDONLY] 0 parent name)) (\<lambda>fd.
     on_failure
       (bind (os_fstat fd) (\<lambda>opened.
        bind (validate_private_file opened) (\<lambda>_.
        bind (check (same_inode before opened) (ValueError ''family binding file changed'')) (\<lambda>_.
        ret (fd, opened)))))
       (os_close fd))))"

text \<open>Open, read at most \<open>maximum\<close> bytes, close, and compare the identity again.\<close>

definition read_entry :: "exn \<Rightarrow> exn \<Rightarrow> nat \<Rightarrow> nat \<Rightarrow> pystr \<Rightarrow> (bytes \<times> stat_result) io" where
  "read_entry too_long changed maximum parent name =
     bind (open_private_file parent name) (\<lambda>(fd, expected).
     bind (try_finally
       (bind (read_up_to fd maximum []) (\<lambda>body. bind (check (length body \<le> maximum) too_long) (\<lambda>_. ret body)))
       (os_close fd)) (\<lambda>body.
     bind (entry_stat parent name) (\<lambda>current.
     bind (validate_private_file current) (\<lambda>_.
     bind (check (same_inode expected current) changed) (\<lambda>_.
     ret (body, expected))))))"

definition binding_error :: exn where
  "binding_error = ValueError ''family binding is invalid''"

definition file_changed :: exn where
  "file_changed = ValueError ''family binding file changed''"

definition read_private_bytes :: "path \<Rightarrow> nat \<Rightarrow> bytes io" where
  "read_private_bytes p maximum =
     bind (open_private_parent p) (\<lambda>parent.
     try_finally
       (bind (keep_permission (\<lambda>e. is_os_error e \<or> is_value_error e) binding_file_invalid (ensure_private_file p)) (\<lambda>_.
        bind (read_entry binding_error file_changed maximum parent (path_name p)) (\<lambda>(body, expected). ret body)))
       (os_close parent))"

section \<open>Bindings\<close>

record FamilyBinding =
  fb_repository :: Repository
  fb_repository_id :: int

definition without_duplicate_keys :: pairs_hook where
  "without_duplicate_keys = build_object binding_error []"

definition binding_constant :: "string \<Rightarrow> exn + json" where
  "binding_constant w = Inl (ValueError [])"

text \<open>\<open>str.lower()\<close> on the ASCII text that the repository grammar admits.\<close>

definition lower :: "pystr \<Rightarrow> pystr" where
  "lower s = map (\<lambda>c. if is_upper c then c + 32 else c) s"

definition decode_binding :: "nat \<Rightarrow> bytes \<Rightarrow> exn + FamilyBinding" where
  "decode_binding lim body =
     reraise_if (\<lambda>e. e = TypeError \<or> is_value_error e) binding_error
       (bindE (utf8_decode body) (\<lambda>text.
        bindE (json_loads lim without_duplicate_keys binding_constant text) (\<lambda>payload.
          case payload of
            JObj kvs \<Rightarrow>
              bindE (require (set (map fst kvs) = {u ''repository'', u ''repository_id''}) (ValueError [])) (\<lambda>_.
              bindE (case map_of kvs (u ''repository'') of Some (JStr t) \<Rightarrow> Inr t | _ \<Rightarrow> Inl binding_error) (\<lambda>t.
              bindE (parse_Repository t) (\<lambda>repository.
              bindE (require (slug repository = t \<and> t = lower t) (ValueError [])) (\<lambda>_.
              bindE (validate_repository_id (the (map_of kvs (u ''repository_id'')))) (\<lambda>i.
              Inr \<lparr>fb_repository = repository, fb_repository_id = i\<rparr>)))))
          | _ \<Rightarrow> Inl (ValueError []))))"

definition validate_binding :: "FamilyBinding \<Rightarrow> exn + FamilyBinding" where
  "validate_binding b =
     (if slug (fb_repository b) \<noteq> lower (slug (fb_repository b)) then Inl binding_error
      else
        bindE (reraise_if is_value_error binding_error
          (bindE (parse_Repository (slug (fb_repository b))) (\<lambda>_. validate_repository_id (JInt (fb_repository_id b))))) (\<lambda>i.
        Inr \<lparr>fb_repository = fb_repository b, fb_repository_id = i\<rparr>))"

definition binding_payload :: "FamilyBinding \<Rightarrow> json" where
  "binding_payload b = JObj [(u ''repository'', JStr (slug (fb_repository b))),
     (u ''repository_id'', JInt (fb_repository_id b))]"

definition binding_dump_opts :: dump_opts where
  "binding_dump_opts = \<lparr>d_ascii = True, d_sort = False, d_item = u '','', d_key = u '': '', d_indent = Some 2\<rparr>"

definition encode_binding :: "FamilyBinding \<Rightarrow> exn + bytes" where
  "encode_binding b =
     bindE (validate_binding b) (\<lambda>v.
     bindE (json_dumps binding_dump_opts (binding_payload v)) (\<lambda>t. ascii_encode (t @ [10])))"

definition load_family_binding :: "nat \<Rightarrow> path \<Rightarrow> FamilyBinding io" where
  "load_family_binding lim p = bind (read_private_bytes p 4096) (\<lambda>body. lift (decode_binding lim body))"

section \<open>Publishing a file\<close>

definition snapshot :: "nat \<Rightarrow> nat \<Rightarrow> pystr \<Rightarrow> (bytes \<times> stat_result) io" where
  "snapshot lim parent name =
     bind (read_entry binding_error file_changed 4096 parent name) (\<lambda>(body, expected).
     bind (lift (decode_binding lim body)) (\<lambda>_. ret (body, expected)))"

definition temporary_name :: "pystr \<Rightarrow> pystr io" where
  "temporary_name name = bind (token_hex 16) (\<lambda>t. ret (u ''.'' @ name @ u ''.'' @ t))"

definition unlink_owned :: "nat \<Rightarrow> pystr \<Rightarrow> stat_result \<Rightarrow> unit io" where
  "unlink_owned parent name expected =
     bind (try_except (bind (os_stat_at parent name) (\<lambda>s. ret (Some s)))
       (\<lambda>e. if e = FileNotFoundError then ret None else raise e)) (\<lambda>current.
     case current of
       None \<Rightarrow> ret ()
     | Some s \<Rightarrow> if same_inode s expected then os_unlink_at parent name else ret ())"

text \<open>A kernel or file system without the exchange is a \<open>RuntimeError\<close>.\<close>

definition rename_exchange :: "nat \<Rightarrow> pystr \<Rightarrow> pystr \<Rightarrow> unit io" where
  "rename_exchange parent source destination =
     translate (\<lambda>e. e \<in> {OSError ''ENOSYS'', OSError ''EINVAL'', OSError ''ENOTSUP''})
       (RuntimeError ''atomic family binding replacement is unavailable'')
       (renameat2_exchange parent source destination)"

text \<open>
  Opening a lock file: created when missing, the same private file before and after the lock is
  granted. The two modules that do this differ in the label of their errors.
\<close>

definition open_lock_file :: "string \<Rightarrow> nat \<Rightarrow> pystr \<Rightarrow> nat io" where
  "open_lock_file label parent name =
     bind (translate is_os_error (ValueError (label @ '' lock is invalid''))
       (os_open_at [O_RDWR, O_CREAT] mode_0600 parent name)) (\<lambda>fd.
     on_failure
       (bind (os_fstat fd) (\<lambda>opened.
        bind (validate_private_file opened) (\<lambda>_.
        bind (os_stat_at parent name) (\<lambda>current.
        bind (validate_private_file current) (\<lambda>_.
        bind (check (same_inode opened current) (ValueError (label @ '' lock changed''))) (\<lambda>_.
        bind (flock fd) (\<lambda>_.
        bind (os_stat_at parent name) (\<lambda>current'.
        bind (validate_private_file current') (\<lambda>_.
        bind (check (same_inode opened current') (ValueError (label @ '' lock changed''))) (\<lambda>_.
        ret fd))))))))))
       (os_close fd))"

definition open_binding_lock :: "nat \<Rightarrow> pystr \<Rightarrow> nat io" where
  "open_binding_lock parent name = open_lock_file ''family binding'' parent (u ''.'' @ name @ u ''.lock'')"

record publish_locals =
  pl_lock :: "nat option"
  pl_descriptor :: "nat option"
  pl_displaced :: "nat option"
  pl_temporary :: "(pystr \<times> stat_result) option"
  pl_published :: bool

definition no_locals :: publish_locals where
  "no_locals = \<lparr>pl_lock = None, pl_descriptor = None, pl_displaced = None, pl_temporary = None, pl_published = False\<rparr>"

definition write_error :: exn where
  "write_error = OSError ''family binding write failed''"

text \<open>
  The temporary file: created exclusively, made private, filled and synced, under the
  descriptor and the identity the \<open>finally\<close> block cleans up.
\<close>

definition write_temporary :: "nat \<Rightarrow> pystr \<Rightarrow> bytes \<Rightarrow> (publish_locals \<times> world, stat_result) prog" where
  "write_temporary parent temporary body =
     bind (sys (os_open_at [O_WRONLY, O_CREAT, O_EXCL] mode_0600 parent temporary)) (\<lambda>fd.
     bind (assign (\<lambda>l. l\<lparr>pl_descriptor := Some fd\<rparr>)) (\<lambda>_.
     bind (sys (os_fstat fd)) (\<lambda>s.
     bind (assign (\<lambda>l. l\<lparr>pl_temporary := Some (temporary, s)\<rparr>)) (\<lambda>_.
     bind (sys (os_fchmod fd mode_0600)) (\<lambda>_.
     bind (sys (os_fstat fd)) (\<lambda>s'.
     bind (sys (validate_private_file s')) (\<lambda>_.
     bind (sys (write_all write_error fd body)) (\<lambda>_.
     bind (sys (os_fsync fd)) (\<lambda>_. ret s)))))))))"

definition close_descriptor :: "(publish_locals \<times> world, unit) prog" where
  "close_descriptor = locals (\<lambda>l. if_some (pl_descriptor l) (\<lambda>fd.
     bind (sys (os_close fd)) (\<lambda>_. assign (\<lambda>l. l\<lparr>pl_descriptor := None\<rparr>))))"

text \<open>The \<open>finally\<close> block of the functions that publish.\<close>

definition publish_cleanup :: "nat \<Rightarrow> (publish_locals \<times> world, unit) prog" where
  "publish_cleanup parent = locals (\<lambda>l.
     bind (if_some (pl_descriptor l) (\<lambda>fd. sys (os_close fd))) (\<lambda>_.
     bind (if_some (pl_displaced l) (\<lambda>fd. sys (os_close fd))) (\<lambda>_.
     bind (if_some (if pl_published l then None else pl_temporary l)
       (\<lambda>(temporary, s). sys (unlink_owned parent temporary s))) (\<lambda>_.
     if_some (pl_lock l) (\<lambda>fd. sys (os_close fd))))))"

definition existing_binding :: "nat \<Rightarrow> nat \<Rightarrow> pystr \<Rightarrow> stat_result option io" where
  "existing_binding lim parent name =
     try_except (bind (snapshot lim parent name) (\<lambda>(body, original). ret (Some original)))
       (\<lambda>e. if is_value_error e then
          try_except (bind (os_stat_at parent name) (\<lambda>_. raise e))
            (\<lambda>e'. if e' = FileNotFoundError then ret None else raise e')
        else raise e)"

definition write_family_binding :: "nat \<Rightarrow> path \<Rightarrow> FamilyBinding \<Rightarrow> bool \<Rightarrow> unit io" where
  "write_family_binding lim p binding replace_existing =
     bind (lift (encode_binding binding)) (\<lambda>body.
     bind (open_private_parent p) (\<lambda>parent.
     let name = path_name p in
     with_locals no_locals
       (try_finally
         (bind (sys (open_binding_lock parent name)) (\<lambda>lock.
          bind (assign (\<lambda>l. l\<lparr>pl_lock := Some lock\<rparr>)) (\<lambda>_.
          bind (sys (existing_binding lim parent name)) (\<lambda>original.
          bind (check (original = None \<or> replace_existing) (FileExistsError ''family binding already exists'')) (\<lambda>_.
          bind (sys (temporary_name name)) (\<lambda>temporary.
          bind (write_temporary parent temporary body) (\<lambda>s.
          bind close_descriptor (\<lambda>_.
          bind (case original of
              None \<Rightarrow>
                bind (sys (os_link_at parent temporary name)) (\<lambda>_.
                bind (assign (\<lambda>l. l\<lparr>pl_published := True\<rparr>)) (\<lambda>_.
                sys (unlink_owned parent temporary s)))
            | Some orig \<Rightarrow>
                bind (sys (entry_stat parent name)) (\<lambda>current.
                bind (sys (validate_private_file current)) (\<lambda>_.
                bind (check (same_inode orig current) file_changed) (\<lambda>_.
                bind (sys (os_fsync parent)) (\<lambda>_.
                bind (sys (rename_exchange parent temporary name)) (\<lambda>_.
                bind (sys (entry_stat parent temporary)) (\<lambda>replaced.
                bind (if same_inode orig replaced then ret ()
                      else bind (sys (rename_exchange parent temporary name)) (\<lambda>_. raise file_changed)) (\<lambda>_.
                bind (assign (\<lambda>l. l\<lparr>pl_published := True\<rparr>)) (\<lambda>_.
                sys (unlink_owned parent temporary orig)))))))))) (\<lambda>_.
          sys (os_fsync parent))))))))))
         (bind (publish_cleanup parent) (\<lambda>_. sys (os_close parent))))))"

end
