(* ===== verification/Family_Pending.thy ===== *)
theory Family_Pending
  imports Family_Issue Family_State
begin

text \<open>
  \<open>src/agent_container/family_pending.py\<close>, the data: states and their transitions, the audit
  event that a record carries until it is logged, the validation of a record, and the file
  formats of records and audit lines. The operations on the store are in \<open>Pending_Store\<close>.
\<close>

section \<open>Constants\<close>

definition REQUEST_ID :: "pystr \<Rightarrow> bool" where
  "REQUEST_ID s \<longleftrightarrow> length s = 32 \<and> list_all is_lower_hex s"

definition TTL_SECONDS :: int where "TTL_SECONDS = 24 * 60 * 60"
definition MAX_UNFINISHED :: nat where "MAX_UNFINISHED = 10"
definition MAX_STORE_RECORDS :: nat where "MAX_STORE_RECORDS = 4096"
definition MAX_CANONICAL_BODY_BYTES :: nat where "MAX_CANONICAL_BODY_BYTES = 64 * 1024"
definition MAX_RECORD_BYTES :: nat where "MAX_RECORD_BYTES = 128 * 1024"
definition MAX_AUDIT_BYTES :: nat where "MAX_AUDIT_BYTES = 4 * 1024 * 1024"
definition ID_ATTEMPTS :: nat where "ID_ATTEMPTS = 32"

definition STORE_LOCK :: pystr where
  "STORE_LOCK = u ''.pending.lock''"

definition AUDIT_OPERATIONS :: "pystr set" where
  "AUDIT_OPERATIONS = {u ''intake'', u ''preview'', u ''approve'', u ''reject'', u ''expire'',
     u ''resolve-created'', u ''resolve-not-created'', u ''recover''}"

definition AUDIT_STATUSES :: "pystr set" where
  "AUDIT_STATUSES = {u ''pending'', u ''sending'', u ''created'', u ''rejected'', u ''expired'',
     u ''unknown'', u ''denied'', u ''error''}"

definition AUDIT_STAGES :: "pystr set" where
  "AUDIT_STAGES = {u ''intake'', u ''validation'', u ''binding'', u ''token'', u ''inventory'',
     u ''send'', u ''response'', u ''cleanup'', u ''reconcile''}"

section \<open>States\<close>

datatype PendingState = PENDING | SENDING | CREATED | REJECTED | EXPIRED | UNKNOWN

fun state_value :: "PendingState \<Rightarrow> pystr" where
  "state_value PENDING = u ''pending''"
| "state_value SENDING = u ''sending''"
| "state_value CREATED = u ''created''"
| "state_value REJECTED = u ''rejected''"
| "state_value EXPIRED = u ''expired''"
| "state_value UNKNOWN = u ''unknown''"

text \<open>\<open>PendingState(value)\<close>: the member with this value.\<close>

definition state_of_value :: "json option \<Rightarrow> exn + PendingState" where
  "state_of_value v =
     (case v of
        Some (JStr s) \<Rightarrow>
          (case List.find (\<lambda>st. state_value st = s) [PENDING, SENDING, CREATED, REJECTED, EXPIRED, UNKNOWN] of
             Some st \<Rightarrow> Inr st | None \<Rightarrow> Inl (ValueError ''not a valid PendingState''))
      | _ \<Rightarrow> Inl (ValueError ''not a valid PendingState''))"

definition CONTENT_STATES :: "PendingState set" where
  "CONTENT_STATES = {PENDING, SENDING, UNKNOWN}"

definition TERMINAL_STATES :: "PendingState set" where
  "TERMINAL_STATES = {CREATED, REJECTED, EXPIRED}"

fun TRANSITIONS :: "PendingState \<Rightarrow> PendingState set" where
  "TRANSITIONS PENDING = {SENDING, REJECTED, EXPIRED}"
| "TRANSITIONS SENDING = {PENDING, CREATED, UNKNOWN}"
| "TRANSITIONS UNKNOWN = {PENDING, CREATED}"
| "TRANSITIONS CREATED = {}"
| "TRANSITIONS REJECTED = {}"
| "TRANSITIONS EXPIRED = {}"

section \<open>Audit events\<close>

record AuditEvent =
  ev_timestamp :: int
  ev_project_id :: pystr
  ev_request_id :: pystr
  ev_operation :: pystr
  ev_status :: pystr
  ev_stage :: pystr

definition pending_invalid :: exn where
  "pending_invalid = ValueError ''family pending record is invalid''"

definition validate_request_id :: "pystr \<Rightarrow> exn + pystr" where
  "validate_request_id v = (if REQUEST_ID v then Inr v else Inl pending_invalid)"

definition validate_expected_project_id :: "pystr \<Rightarrow> exn + pystr" where
  "validate_expected_project_id v =
     reraise_if (\<lambda>e. e = TypeError \<or> is_value_error e) pending_invalid (validate_project_id v)"

definition exact_integer :: "int \<Rightarrow> exn + int" where
  "exact_integer v = (if v < 0 then Inl pending_invalid else Inr v)"

definition exact_text :: "pystr \<Rightarrow> exn + pystr" where
  "exact_text v = bindE (reraise_if (\<lambda>e. e = UnicodeEncodeError) pending_invalid (utf8_encode v)) (\<lambda>_. Inr v)"

definition event_error :: exn where
  "event_error = ValueError ''family audit event is invalid''"

definition event_validated :: "AuditEvent \<Rightarrow> exn + AuditEvent" where
  "event_validated ev =
     bindE (require (0 \<le> ev_timestamp ev) event_error) (\<lambda>_.
     bindE (reraise_if (\<lambda>e. e = TypeError \<or> is_value_error e) event_error
       (bindE (validate_project_id (ev_project_id ev)) (\<lambda>_. validate_request_id (ev_request_id ev)))) (\<lambda>_.
     bindE (require (ev_operation ev \<in> AUDIT_OPERATIONS \<and> ev_status ev \<in> AUDIT_STATUSES
       \<and> ev_stage ev \<in> AUDIT_STAGES) event_error) (\<lambda>_.
     Inr ev)))"

definition line_dump_opts :: dump_opts where
  "line_dump_opts = \<lparr>d_ascii = True, d_sort = True, d_item = u '','', d_key = u '':'', d_indent = None\<rparr>"

definition event_payload :: "AuditEvent \<Rightarrow> json" where
  "event_payload ev = JObj [(u ''operation'', JStr (ev_operation ev)), (u ''project_id'', JStr (ev_project_id ev)),
     (u ''request_id'', JStr (ev_request_id ev)), (u ''stage'', JStr (ev_stage ev)),
     (u ''status'', JStr (ev_status ev)), (u ''timestamp'', JInt (ev_timestamp ev))]"

definition event_encode :: "AuditEvent \<Rightarrow> exn + bytes" where
  "event_encode ev =
     bindE (event_validated ev) (\<lambda>e.
     bindE (json_dumps line_dump_opts (event_payload e)) (\<lambda>t. ascii_encode (t @ [10])))"

definition EVENT_FIELDS :: "pystr set" where
  "EVENT_FIELDS = {u ''operation'', u ''project_id'', u ''request_id'', u ''stage'', u ''status'', u ''timestamp''}"

text \<open>
  \<open>_AuditEvent(marker["timestamp"], ...).validated()\<close> on decoded values: a value of another type
  is refused with the same error.
\<close>

definition event_of_values :: "(pystr \<times> json) list \<Rightarrow> exn + AuditEvent" where
  "event_of_values kvs =
     (case (map_of kvs (u ''timestamp''), map_of kvs (u ''project_id''), map_of kvs (u ''request_id''),
            map_of kvs (u ''operation''), map_of kvs (u ''status''), map_of kvs (u ''stage'')) of
        (Some (JInt t), Some (JStr p), Some (JStr r), Some (JStr op), Some (JStr st), Some (JStr sg)) \<Rightarrow>
          event_validated \<lparr>ev_timestamp = t, ev_project_id = p, ev_request_id = r, ev_operation = op,
            ev_status = st, ev_stage = sg\<rparr>
      | _ \<Rightarrow> Inl event_error)"

definition audit_file_invalid :: exn where
  "audit_file_invalid = ValueError ''family audit file is invalid''"

definition no_duplicates :: pairs_hook where
  "no_duplicates = build_object pending_invalid []"

definition no_constants :: "string \<Rightarrow> exn + json" where
  "no_constants w = Inl pending_invalid"

definition decode_audit_line :: "nat \<Rightarrow> bytes \<Rightarrow> exn + AuditEvent" where
  "decode_audit_line lim body =
     reraise_if (\<lambda>e. e = TypeError \<or> is_value_error e) audit_file_invalid
       (bindE (ascii_decode body) (\<lambda>text.
        bindE (json_loads lim no_duplicates no_constants text) (\<lambda>payload.
          case payload of
            JObj kvs \<Rightarrow> (if set (map fst kvs) = EVENT_FIELDS then event_of_values kvs else Inl (ValueError []))
          | _ \<Rightarrow> Inl (ValueError []))))"

section \<open>Records\<close>

record PendingRequest =
  pr_request_id :: pystr
  pr_project_id :: pystr
  pr_created_at :: int
  pr_expires_at :: int
  pr_state :: PendingState
  pr_issue :: "CanonicalFamilyIssue option"
  pr_issue_number :: "int option"
  pr_issue_url :: "pystr option"
  pr_recovery :: bool
  pr_event :: "AuditEvent option"

definition ISSUE_PART :: "pystr \<Rightarrow> bool" where
  "ISSUE_PART s = class_match is_alnum is_slug_char 99 s"

definition validate_issue_url :: "pystr \<Rightarrow> int \<Rightarrow> exn + pystr" where
  "validate_issue_url v issue_number =
     bindE (exact_text v) (\<lambda>url.
       let prefix = u ''https://github.com/'';
           suffix = u ''/issues/'' @ int_repr issue_number;
           repository = drop (length prefix) (take (length url - length suffix) url)
       in if \<not> startswith url prefix \<or> \<not> endswith url suffix then Inl pending_invalid
          else
            (case split_on 47 repository of
               [a, b] \<Rightarrow>
                 (if list_ex (\<lambda>p. p \<in> {[], u ''.'', u ''..''} \<or> \<not> ISSUE_PART p) [a, b]
                  then Inl pending_invalid else Inr url)
             | _ \<Rightarrow> Inl pending_invalid))"

text \<open>The text of a record that has one: the title and the body, within their sizes.\<close>

definition validate_content :: "CanonicalFamilyIssue \<Rightarrow> exn + CanonicalFamilyIssue" where
  "validate_content issue =
     bindE (reraise_if (\<lambda>e. e = UnicodeEncodeError) pending_invalid (utf8_encode (ci_title issue))) (\<lambda>title.
     bindE (reraise_if (\<lambda>e. e = UnicodeEncodeError) pending_invalid (utf8_encode (ci_body issue))) (\<lambda>body.
     bindE (require (ci_title issue \<noteq> [] \<and> length title \<le> 256) pending_invalid) (\<lambda>_.
     bindE (require (ci_body issue \<noteq> [] \<and> length body \<le> MAX_CANONICAL_BODY_BYTES) pending_invalid) (\<lambda>_.
     Inr issue))))"

text \<open>Which of issue, number and URL a state has, and what they must be.\<close>

definition validate_outcome :: "PendingRequest \<Rightarrow> exn + unit" where
  "validate_outcome r =
     bindE (if pr_state r \<in> CONTENT_STATES then
              (case pr_issue r of
                 None \<Rightarrow> Inl pending_invalid
               | Some issue \<Rightarrow>
                   bindE (validate_content issue) (\<lambda>_.
                     require (pr_issue_number r = None \<and> pr_issue_url r = None) pending_invalid))
            else require (pr_issue r = None) pending_invalid) (\<lambda>_.
     if pr_state r = CREATED then
       (case (pr_issue_number r, pr_issue_url r) of
          (Some n, Some url) \<Rightarrow>
            bindE (reraise_if (\<lambda>e. e = TypeError \<or> is_value_error e) pending_invalid (validate_issue_number (JInt n))) (\<lambda>_.
            bindE (validate_issue_url url n) (\<lambda>_. Inr ()))
        | _ \<Rightarrow> Inl pending_invalid)
     else require (pr_issue_number r = None \<and> pr_issue_url r = None) pending_invalid)"

definition validate_pending :: "PendingRequest \<Rightarrow> exn + PendingRequest" where
  "validate_pending r =
     bindE (validate_request_id (pr_request_id r)) (\<lambda>_.
     bindE (validate_expected_project_id (pr_project_id r)) (\<lambda>_.
     bindE (exact_integer (pr_created_at r)) (\<lambda>_.
     bindE (exact_integer (pr_expires_at r)) (\<lambda>_.
     bindE (require (pr_expires_at r = pr_created_at r + TTL_SECONDS) pending_invalid) (\<lambda>_.
     bindE (require (pr_recovery r \<longrightarrow> pr_state r = UNKNOWN \<and> pr_event r = None) pending_invalid) (\<lambda>_.
     bindE (case pr_event r of
              None \<Rightarrow> Inr ()
            | Some ev \<Rightarrow>
                bindE (reraise_if is_value_error pending_invalid (event_validated ev)) (\<lambda>_.
                  require (ev_project_id ev = pr_project_id r \<and> ev_request_id ev = pr_request_id r) pending_invalid)) (\<lambda>_.
     bindE (validate_outcome r) (\<lambda>_. Inr r))))))))"

text \<open>\<open>_request_payload\<close>, in the order the keys are added; the encoder sorts them.\<close>

definition request_payload :: "PendingRequest \<Rightarrow> exn + json" where
  "request_payload r =
     bindE (if pr_state r \<in> CONTENT_STATES then
              (case pr_issue r of
                 None \<Rightarrow> Inl pending_invalid
               | Some issue \<Rightarrow> Inr [(u ''body'', JStr (ci_body issue)), (u ''title'', JStr (ci_title issue))])
            else bindE (require (pr_issue r = None) pending_invalid) (\<lambda>_. Inr [])) (\<lambda>content.
     bindE (if pr_state r = CREATED then
              (case (pr_issue_number r, pr_issue_url r) of
                 (Some n, Some url) \<Rightarrow> Inr [(u ''issue_number'', JInt n), (u ''issue_url'', JStr url)]
               | _ \<Rightarrow> Inl pending_invalid)
            else bindE (require (pr_issue_number r = None \<and> pr_issue_url r = None) pending_invalid) (\<lambda>_. Inr [])) (\<lambda>result.
     bindE (case pr_event r of
              None \<Rightarrow> Inr []
            | Some ev \<Rightarrow> bindE (event_validated ev) (\<lambda>e. Inr [(u ''audit_event'', event_payload e)])) (\<lambda>marker.
     Inr (JObj ([(u ''created_at'', JInt (pr_created_at r)), (u ''expires_at'', JInt (pr_expires_at r)),
           (u ''project_id'', JStr (pr_project_id r)), (u ''request_id'', JStr (pr_request_id r)),
           (u ''state'', JStr (state_value (pr_state r)))]
         @ content @ result
         @ (if pr_recovery r then [(u ''recovery_audit_pending'', JBool True)] else [])
         @ marker)))))"

definition encode_pending :: "PendingRequest \<Rightarrow> exn + bytes" where
  "encode_pending r =
     bindE (validate_pending r) (\<lambda>v.
     bindE (request_payload v) (\<lambda>payload.
     bindE (json_dumps line_dump_opts payload) (\<lambda>t. ascii_encode (t @ [10]))))"

definition COMMON_FIELDS :: "pystr set" where
  "COMMON_FIELDS = {u ''created_at'', u ''expires_at'', u ''project_id'', u ''request_id'', u ''state''}"

text \<open>The marker: absent, null, or an event.\<close>

definition marker_of :: "(pystr \<times> json) list \<Rightarrow> exn + AuditEvent option" where
  "marker_of kvs =
     (case map_of kvs (u ''audit_event'') of
        None \<Rightarrow> Inr None
      | Some JNull \<Rightarrow> Inr None
      | Some (JObj m) \<Rightarrow>
          (if set (map fst m) = EVENT_FIELDS then bindE (event_of_values m) (\<lambda>ev. Inr (Some ev))
           else Inl pending_invalid)
      | Some _ \<Rightarrow> Inl pending_invalid)"

definition text_field :: "(pystr \<times> json) list \<Rightarrow> string \<Rightarrow> exn + pystr" where
  "text_field kvs k = (case map_of kvs (u k) of Some (JStr s) \<Rightarrow> Inr s | None \<Rightarrow> Inl KeyError | _ \<Rightarrow> Inl pending_invalid)"

definition int_field :: "(pystr \<times> json) list \<Rightarrow> string \<Rightarrow> exn + int" where
  "int_field kvs k = (case map_of kvs (u k) of Some (JInt i) \<Rightarrow> Inr i | None \<Rightarrow> Inl KeyError | _ \<Rightarrow> Inl pending_invalid)"

text \<open>What the fields of a payload say beyond the common ones: issue, number, URL, recovery bit.\<close>

definition outcome_fields ::
  "(pystr \<times> json) list \<Rightarrow> PendingState \<Rightarrow> bool
     \<Rightarrow> exn + CanonicalFamilyIssue option \<times> int option \<times> pystr option \<times> bool" where
  "outcome_fields kvs state marked =
     (let keys = set (map fst kvs); marker_key = (if marked then {u ''audit_event''} else {}) in
      if state \<in> CONTENT_STATES then
        (let allowed = COMMON_FIELDS \<union> {u ''body'', u ''title''} \<union> marker_key;
             recovery = (state = UNKNOWN \<and> \<not> marked \<and> keys = allowed \<union> {u ''recovery_audit_pending''}
               \<and> map_of kvs (u ''recovery_audit_pending'') = Some (JBool True))
         in bindE (require (recovery \<or> keys = allowed) pending_invalid) (\<lambda>_.
            bindE (text_field kvs ''title'') (\<lambda>t. bindE (exact_text t) (\<lambda>title.
            bindE (text_field kvs ''body'') (\<lambda>b. bindE (exact_text b) (\<lambda>body.
              Inr (Some \<lparr>ci_title = title, ci_body = body\<rparr>, None, None, recovery)))))))
      else if state = CREATED then
        bindE (require (keys = COMMON_FIELDS \<union> {u ''issue_number'', u ''issue_url''} \<union> marker_key) pending_invalid) (\<lambda>_.
        bindE (int_field kvs ''issue_number'') (\<lambda>n.
        bindE (text_field kvs ''issue_url'') (\<lambda>url. Inr (None, Some n, Some url, False))))
      else
        bindE (require (keys = COMMON_FIELDS \<union> marker_key) pending_invalid) (\<lambda>_.
          Inr (None, None, None, False)))"

definition pending_of_values :: "(pystr \<times> json) list \<Rightarrow> exn + PendingRequest" where
  "pending_of_values kvs =
     bindE (state_of_value (map_of kvs (u ''state''))) (\<lambda>state.
     bindE (marker_of kvs) (\<lambda>marker.
     bindE (outcome_fields kvs state (marker \<noteq> None)) (\<lambda>(issue, number, url, recovery).
     bindE (text_field kvs ''request_id'') (\<lambda>request_id.
     bindE (text_field kvs ''project_id'') (\<lambda>project.
     bindE (int_field kvs ''created_at'') (\<lambda>created_at.
     bindE (int_field kvs ''expires_at'') (\<lambda>expires_at.
     validate_pending \<lparr>pr_request_id = request_id, pr_project_id = project, pr_created_at = created_at,
       pr_expires_at = expires_at, pr_state = state, pr_issue = issue, pr_issue_number = number,
       pr_issue_url = url, pr_recovery = recovery, pr_event = marker\<rparr>)))))))"

definition decode_pending :: "nat \<Rightarrow> bytes \<Rightarrow> exn + PendingRequest" where
  "decode_pending lim body =
     reraise_if (\<lambda>e. e = KeyError \<or> e = TypeError \<or> is_value_error e) pending_invalid
       (bindE (ascii_decode body) (\<lambda>text.
        bindE (json_loads lim no_duplicates no_constants text) (\<lambda>payload.
          case payload of JObj kvs \<Rightarrow> pending_of_values kvs | _ \<Rightarrow> Inl pending_invalid)))"

end
