(* ===== verification/Pending_Store.thy ===== *)
theory Pending_Store
  imports Family_Pending "HOL-Library.Product_Lexorder"
begin

text \<open>
  \<open>src/agent_container/family_pending.py\<close>, the operations: the private directory of pending
  records, the locks, the publication and the replacement of a record, the append-only audit
  file, and the transitions that keep the two in step. A record carries the audit event of its
  last change until the event is in the audit file: the marker is written with the state and
  cleared after the append.

  \<open>lim\<close> is the interpreter's recursion limit, as in the other decoders. A \<open>LockedPending\<close> handle
  is the local variable of the \<open>with\<close> block that holds the locks, so it is active wherever it
  can be used.
\<close>

section \<open>Reading the store\<close>

definition record_name_of :: "pystr \<Rightarrow> pystr" where
  "record_name_of request_id = request_id @ u ''.json''"

text \<open>\<open>_RECORD_NAME\<close> and \<open>_LOCK_NAME\<close>: the request id in a file name.\<close>

definition RECORD_NAME :: "pystr \<Rightarrow> pystr option" where
  "RECORD_NAME n = (if REQUEST_ID (take 32 n) \<and> drop 32 n = u ''.json'' then Some (take 32 n) else None)"

definition LOCK_NAME :: "pystr \<Rightarrow> pystr option" where
  "LOCK_NAME n =
     (if startswith n (u ''.'') \<and> REQUEST_ID (take 32 (drop 1 n)) \<and> drop 33 n = u ''.json.lock''
      then Some (take 32 (drop 1 n)) else None)"

definition record_changed :: exn where
  "record_changed = ValueError ''family pending record changed''"

definition read_record_body :: "nat \<Rightarrow> nat \<Rightarrow> pystr \<Rightarrow> (PendingRequest \<times> stat_result \<times> bytes) io" where
  "read_record_body lim parent record_name =
     bind (read_entry pending_invalid record_changed MAX_RECORD_BYTES parent record_name) (\<lambda>(body, expected).
     bind (lift (decode_pending lim body)) (\<lambda>request. ret (request, expected, body)))"

definition read_record :: "nat \<Rightarrow> nat \<Rightarrow> pystr \<Rightarrow> (PendingRequest \<times> stat_result) io" where
  "read_record lim parent record_name =
     bind (read_record_body lim parent record_name) (\<lambda>(request, expected, body). ret (request, expected))"

definition open_lock :: "nat \<Rightarrow> pystr \<Rightarrow> nat io" where
  "open_lock parent lock_name = open_lock_file ''family pending'' parent lock_name"

definition inventory_invalid :: exn where
  "inventory_invalid = ValueError ''family pending inventory is invalid''"

text \<open>One entry of the directory: the record ids and the lock ids seen so far.\<close>

definition inventory_entry ::
  "nat \<Rightarrow> pystr \<Rightarrow> pystr list \<times> pystr list \<Rightarrow> (pystr list \<times> pystr list) io" where
  "inventory_entry parent name seen =
     bind (case RECORD_NAME name of
             Some r \<Rightarrow> ret (r # fst seen, snd seen)
           | None \<Rightarrow>
               (case LOCK_NAME name of
                  Some l \<Rightarrow> ret (fst seen, l # snd seen)
                | None \<Rightarrow> if name \<noteq> STORE_LOCK then raise inventory_invalid else ret seen)) (\<lambda>seen'.
     bind (entry_stat parent name) (\<lambda>s. bind (validate_private_file s) (\<lambda>_. ret seen')))"

fun inventory_entries ::
  "nat \<Rightarrow> pystr list \<Rightarrow> pystr list \<times> pystr list \<Rightarrow> (pystr list \<times> pystr list) io" where
  "inventory_entries parent [] seen = ret seen"
| "inventory_entries parent (n # ns) seen = bind (inventory_entry parent n seen) (inventory_entries parent ns)"

definition inventory :: "nat \<Rightarrow> pystr list io" where
  "inventory parent =
     bind (translate is_os_error inventory_invalid (os_listdir parent)) (\<lambda>entries.
     bind (inventory_entries parent entries ([], [])) (\<lambda>(records, locks).
     bind (check (set locks \<subseteq> set records) inventory_invalid) (\<lambda>_.
     bind (check (card (set records) \<le> MAX_STORE_RECORDS) inventory_invalid) (\<lambda>_.
     ret (sorted_list_of_set (set records))))))"

section \<open>Publishing and replacing a record\<close>

definition cleanup_incomplete :: exn where
  "cleanup_incomplete = ValueError ''family pending content cleanup is incomplete''"

definition prove_cleanup :: "nat \<Rightarrow> pystr \<Rightarrow> nat \<Rightarrow> stat_result \<Rightarrow> nat \<Rightarrow> unit io" where
  "prove_cleanup parent temporary retained expected expected_links =
     bind (os_fstat retained) (\<lambda>s.
     bind (check (same_inode expected s \<and> st_nlink s = expected_links) cleanup_incomplete) (\<lambda>_.
     bind (try_except (bind (os_stat_at parent temporary) (\<lambda>_. ret True))
       (\<lambda>e. if e = FileNotFoundError then ret False else raise e)) (\<lambda>present.
     bind (check (\<not> present) cleanup_incomplete) (\<lambda>_.
     bind (inventory parent) (\<lambda>_. ret ())))))"

definition publish_new :: "nat \<Rightarrow> pystr \<Rightarrow> bytes \<Rightarrow> unit io" where
  "publish_new parent record_name body =
     bind (temporary_name record_name) (\<lambda>temporary.
     with_locals no_locals
       (try_finally
         (bind (write_temporary parent temporary body) (\<lambda>s.
          bind (sys (os_link_at parent temporary record_name)) (\<lambda>_.
          bind (assign (\<lambda>l. l\<lparr>pl_published := True\<rparr>)) (\<lambda>_.
          bind (sys (unlink_owned parent temporary s)) (\<lambda>_. locals (\<lambda>l.
          let retained = (case pl_descriptor l of None \<Rightarrow> 0 | Some fd \<Rightarrow> fd) in
          bind (sys (prove_cleanup parent temporary retained s 1)) (\<lambda>_.
          bind (sys (os_fsync parent)) (\<lambda>_.
          sys (prove_cleanup parent temporary retained s 1)))))))))
         (publish_cleanup parent)))"

definition atomic_replace :: "nat \<Rightarrow> pystr \<Rightarrow> stat_result \<Rightarrow> bytes \<Rightarrow> stat_result io" where
  "atomic_replace parent record_name expected body =
     bind (temporary_name record_name) (\<lambda>temporary.
     with_locals no_locals
       (try_finally
         (bind (write_temporary parent temporary body) (\<lambda>temporary_stat.
          bind close_descriptor (\<lambda>_.
          bind (sys (entry_stat parent record_name)) (\<lambda>current.
          bind (sys (validate_private_file current)) (\<lambda>_.
          bind (check (same_inode expected current) record_changed) (\<lambda>_.
          bind (sys (open_private_file parent record_name)) (\<lambda>(displaced, displaced_stat).
          bind (assign (\<lambda>l. l\<lparr>pl_displaced := Some displaced\<rparr>)) (\<lambda>_.
          bind (check (same_inode expected displaced_stat) record_changed) (\<lambda>_.
          bind (sys (os_fsync parent)) (\<lambda>_.
          bind (sys (rename_exchange parent temporary record_name)) (\<lambda>_.
          bind (sys (entry_stat parent temporary)) (\<lambda>replaced.
          bind (if same_inode expected replaced then ret ()
                else bind (sys (rename_exchange parent temporary record_name)) (\<lambda>_. raise record_changed)) (\<lambda>_.
          bind (assign (\<lambda>l. l\<lparr>pl_published := True\<rparr>)) (\<lambda>_.
          bind (sys (unlink_owned parent temporary expected)) (\<lambda>_.
          bind (sys (prove_cleanup parent temporary displaced expected 0)) (\<lambda>_.
          bind (sys (os_fsync parent)) (\<lambda>_.
          bind (sys (prove_cleanup parent temporary displaced expected 0)) (\<lambda>_.
          bind (sys (entry_stat parent record_name)) (\<lambda>final.
          bind (sys (validate_private_file final)) (\<lambda>_.
          bind (check (same_inode temporary_stat final) record_changed) (\<lambda>_.
          ret final)))))))))))))))))))))
         (publish_cleanup parent)))"

section \<open>The audit file\<close>

text \<open>\<open>bytes.splitlines\<close>: lines end at a line feed, a carriage return, or both.\<close>

fun splitlines :: "bytes \<Rightarrow> bytes \<Rightarrow> bytes list" where
  "splitlines line [] = (if line = [] then [] else [line])"
| "splitlines line (c # cs) =
     (if c = CHR 0x0A then line # splitlines [] cs
      else if c = CHR 0x0D then line # splitlines [] (if startswith cs [CHR 0x0A] then drop 1 cs else cs)
      else splitlines (line @ [c]) cs)"

function read_exact_size :: "nat \<Rightarrow> nat \<Rightarrow> bytes \<Rightarrow> bytes io" where
  "read_exact_size fd bound body w =
     (if bound \<le> length body then (Inr body, w)
      else
        (case os_pread fd (min 4096 (bound - length body)) (length body) w of
           (Inl e, w1) \<Rightarrow> (Inl e, w1)
         | (Inr chunk, w1) \<Rightarrow>
             if chunk = [] then (Inl audit_file_invalid, w1) else read_exact_size fd bound (body @ chunk) w1))"
  by pat_completeness auto
termination
  by (relation "measure (\<lambda>(fd, bound, body, w). bound - length body)")
    (auto simp: length_greater_0_conv [symmetric] simp del: length_greater_0_conv)

declare read_exact_size.simps [simp del]

definition audit_lines_of :: "nat \<Rightarrow> pystr option \<Rightarrow> bytes \<Rightarrow> exn + AuditEvent list" where
  "audit_lines_of lim expected_project body =
     bindE (require (body = [] \<or> endswith body [CHR 0x0A]) audit_file_invalid) (\<lambda>_.
     mapE (\<lambda>line. bindE (decode_audit_line lim line) (\<lambda>ev.
         bindE (require (case expected_project of None \<Rightarrow> True | Some p \<Rightarrow> ev_project_id ev = p) audit_file_invalid)
           (\<lambda>_. Inr ev)))
       (splitlines [] body))"

definition validate_audit_contents :: "nat \<Rightarrow> nat \<Rightarrow> pystr option \<Rightarrow> (nat \<times> nat) io" where
  "validate_audit_contents lim fd expected_project =
     bind (os_fstat fd) (\<lambda>s.
     bind (check (st_size s \<le> MAX_AUDIT_BYTES) audit_file_invalid) (\<lambda>_.
     bind (read_exact_size fd (st_size s) []) (\<lambda>body.
     bind (lift (audit_lines_of lim expected_project body)) (\<lambda>events.
     ret (st_size s, length events)))))"

definition audit_changed :: exn where
  "audit_changed = ValueError ''family audit file changed''"

definition open_audit :: "nat \<Rightarrow> nat \<Rightarrow> pystr \<Rightarrow> (nat \<times> nat) io" where
  "open_audit lim parent name =
     bind (try_except
       (bind (os_open_at [O_RDWR, O_APPEND, O_CREAT, O_EXCL] mode_0600 parent name) (\<lambda>fd. ret (fd, True)))
       (\<lambda>e. if (\<exists>m. e = FileExistsError m)
             then bind (translate is_os_error audit_file_invalid (os_open_at [O_RDWR, O_APPEND] 0 parent name))
                    (\<lambda>fd. ret (fd, False))
             else raise (if is_os_error e then audit_file_invalid else e))) (\<lambda>(fd, created).
     on_failure
       (bind (if created then os_fchmod fd mode_0600 else ret ()) (\<lambda>_.
        bind (os_fstat fd) (\<lambda>opened.
        bind (validate_private_file opened) (\<lambda>_.
        bind (os_stat_at parent name) (\<lambda>current.
        bind (validate_private_file current) (\<lambda>_.
        bind (check (same_inode opened current) audit_changed) (\<lambda>_.
        bind (flock fd) (\<lambda>_.
        bind (os_stat_at parent name) (\<lambda>current'.
        bind (validate_private_file current') (\<lambda>_.
        bind (check (same_inode opened current') audit_changed) (\<lambda>_.
        bind (validate_audit_contents lim fd None) (\<lambda>(bytes_read, count).
        ret (fd, bytes_read)))))))))))))
       (os_close fd))"

definition audit_identity :: "nat \<Rightarrow> pystr \<Rightarrow> nat \<Rightarrow> bool io" where
  "audit_identity parent name fd =
     bind (os_fstat fd) (\<lambda>opened.
     bind (validate_private_file opened) (\<lambda>_.
     bind (os_stat_at parent name) (\<lambda>current.
     bind (validate_private_file current) (\<lambda>_.
     ret (same_inode opened current)))))"

definition require_audit_identity :: "nat \<Rightarrow> pystr \<Rightarrow> nat \<Rightarrow> unit io" where
  "require_audit_identity parent name fd =
     bind (translate (\<lambda>e. is_os_error e \<or> is_value_error e) audit_changed (audit_identity parent name fd)) (\<lambda>same.
     check same audit_changed)"

definition audit_identity_matches :: "nat \<Rightarrow> pystr \<Rightarrow> nat \<Rightarrow> bool io" where
  "audit_identity_matches parent name fd =
     try_except (audit_identity parent name fd) (\<lambda>e. if is_os_error e \<or> is_value_error e then ret False else raise e)"

definition validate_family_audit :: "nat \<Rightarrow> path \<Rightarrow> pystr \<Rightarrow> nat io" where
  "validate_family_audit lim p expected_project =
     bind (lift (validate_expected_project_id expected_project)) (\<lambda>project.
     bind (open_private_parent p) (\<lambda>parent.
     let name = path_name p in
     with_locals None
       (try_finally
         (bind (try_except (bind (sys (os_open_at [O_RDONLY] 0 parent name)) (\<lambda>fd. assign (\<lambda>_. Some fd)))
            (\<lambda>e. if e = FileNotFoundError then ret ()
                  else raise (if is_os_error e then audit_file_invalid else e))) (\<lambda>_. locals (\<lambda>l.
          case l of
            None \<Rightarrow> ret 0
          | Some fd \<Rightarrow> sys
              (bind (os_fstat fd) (\<lambda>opened.
               bind (validate_private_file opened) (\<lambda>_.
               bind (os_stat_at parent name) (\<lambda>current.
               bind (validate_private_file current) (\<lambda>_.
               bind (check (same_inode opened current) audit_changed) (\<lambda>_.
               bind (flock fd) (\<lambda>_.
               bind (require_audit_identity parent name fd) (\<lambda>_.
               bind (validate_audit_contents lim fd (Some project)) (\<lambda>(bytes_read, count).
               bind (require_audit_identity parent name fd) (\<lambda>_.
               ret count)))))))))))))
         (bind (locals (\<lambda>l. if_some l (\<lambda>fd. sys (os_close fd)))) (\<lambda>_. sys (os_close parent))))))"

definition rollback_audit_append :: "nat \<Rightarrow> pystr \<Rightarrow> nat \<Rightarrow> nat \<Rightarrow> unit io" where
  "rollback_audit_append parent name fd original_size =
     bind (audit_identity_matches parent name fd) (\<lambda>same.
       if \<not> same then ret ()
       else
         bind (os_ftruncate fd original_size) (\<lambda>_.
         bind (os_fsync fd) (\<lambda>_.
         bind (require_audit_identity parent name fd) (\<lambda>_.
         bind (os_fsync parent) (\<lambda>_.
         require_audit_identity parent name fd)))))"

text \<open>The descriptor of the audit file, the local the \<open>finally\<close> block closes.\<close>

definition append_opened :: "nat \<Rightarrow> nat \<Rightarrow> pystr \<Rightarrow> bytes \<Rightarrow> (nat option \<times> world, unit) prog" where
  "append_opened lim parent name body =
     bind (sys (open_audit lim parent name)) (\<lambda>(fd, original_size).
     bind (assign (\<lambda>_. Some fd)) (\<lambda>_.
     bind (check (original_size + length body \<le> MAX_AUDIT_BYTES) audit_file_invalid) (\<lambda>_.
     sys (on_failure
       (bind (write_all write_error fd body) (\<lambda>_.
        bind (os_fsync fd) (\<lambda>_.
        bind (require_audit_identity parent name fd) (\<lambda>_.
        bind (os_fsync parent) (\<lambda>_.
        require_audit_identity parent name fd)))))
       (rollback_audit_append parent name fd original_size)))))"

definition append_family_audit :: "nat \<Rightarrow> path \<Rightarrow> AuditEvent \<Rightarrow> unit io" where
  "append_family_audit lim p ev =
     bind (lift (event_encode ev)) (\<lambda>body.
     bind (open_private_parent p) (\<lambda>parent.
     with_locals None
       (try_finally (append_opened lim parent (path_name p) body)
         (bind (locals (\<lambda>l. if_some l (\<lambda>fd. sys (os_close fd)))) (\<lambda>_. sys (os_close parent))))))"

section \<open>Locked requests\<close>

record LockedPending =
  lk_parent :: nat
  lk_record_name :: pystr
  lk_expected :: stat_result
  lk_request :: PendingRequest
  lk_body :: bytes

record PendingSnapshot =
  sn_request :: PendingRequest
  sn_identity :: fid
  sn_body :: bytes

record lock_locals =
  ll_store :: "nat option"
  ll_lock :: "nat option"

text \<open>\<open>with pending_lock(...) as locked: block\<close>.\<close>

definition pending_lock ::
  "nat \<Rightarrow> path \<Rightarrow> pystr \<Rightarrow> pystr \<Rightarrow> PendingSnapshot option \<Rightarrow> bool \<Rightarrow> bool
     \<Rightarrow> (LockedPending \<times> world, 'a) prog \<Rightarrow> 'a io" where
  "pending_lock lim store request_id expected_project expected_snapshot allow_audit_pending store_locked block =
     bind (lift (validate_request_id request_id)) (\<lambda>validated_id.
     bind (lift (validate_expected_project_id expected_project)) (\<lambda>project.
     let record_name = record_name_of validated_id in
     bind (open_private_parent (path_join store (u ''record''))) (\<lambda>parent.
     with_locals \<lparr>ll_store = None, ll_lock = None\<rparr>
       (try_finally
         (bind (if store_locked then ret ()
                else bind (sys (open_lock parent STORE_LOCK)) (\<lambda>fd. assign (\<lambda>l. l\<lparr>ll_store := Some fd\<rparr>))) (\<lambda>_.
          bind (sys (inventory parent)) (\<lambda>_.
          bind (sys (entry_stat parent record_name)) (\<lambda>metadata.
          bind (sys (validate_private_file metadata)) (\<lambda>_.
          bind (sys (open_lock parent (u ''.'' @ record_name @ u ''.lock''))) (\<lambda>fd.
          bind (assign (\<lambda>l. l\<lparr>ll_lock := Some fd\<rparr>)) (\<lambda>_.
          bind (sys (inventory parent)) (\<lambda>_.
          bind (sys (read_record_body lim parent record_name)) (\<lambda>(request, expected, body).
          bind (check (pr_request_id request = validated_id \<and> pr_project_id request = project) pending_invalid) (\<lambda>_.
          bind (check (\<not> (pr_recovery request \<or> pr_event request \<noteq> None) \<or> allow_audit_pending)
            (ValueError ''family pending audit is incomplete'')) (\<lambda>_.
          bind (check (case expected_snapshot of
                None \<Rightarrow> True
              | Some sn \<Rightarrow> sn_request sn = request \<and> pr_request_id (sn_request sn) = validated_id
                  \<and> pr_project_id (sn_request sn) = project \<and> sn_identity sn = st_id expected \<and> sn_body sn = body)
            (PendingSnapshotMismatch ''family pending request changed'')) (\<lambda>_.
          sys (with_locals \<lparr>lk_parent = parent, lk_record_name = record_name, lk_expected = expected,
            lk_request = request, lk_body = body\<rparr> block)))))))))))))
         (locals (\<lambda>l.
           bind (if_some (ll_lock l) (\<lambda>fd. sys (os_close fd))) (\<lambda>_.
           bind (if_some (ll_store l) (\<lambda>fd. sys (os_close fd))) (\<lambda>_.
           sys (os_close parent)))))))))"

definition snapshot_pending :: "nat \<Rightarrow> path \<Rightarrow> pystr \<Rightarrow> pystr \<Rightarrow> PendingSnapshot io" where
  "snapshot_pending lim store request_id project =
     pending_lock lim store request_id project None False False (locals (\<lambda>lk.
       ret \<lparr>sn_request = lk_request lk, sn_identity = st_id (lk_expected lk), sn_body = lk_body lk\<rparr>))"

definition load_pending :: "nat \<Rightarrow> path \<Rightarrow> pystr \<Rightarrow> pystr \<Rightarrow> PendingRequest io" where
  "load_pending lim store request_id project =
     pending_lock lim store request_id project None False False (locals (\<lambda>lk. ret (lk_request lk)))"

definition by_age :: "PendingRequest list \<Rightarrow> PendingRequest list" where
  "by_age rs = sort_key (\<lambda>r. (pr_created_at r, pr_request_id r)) rs"

definition list_pending :: "nat \<Rightarrow> path \<Rightarrow> pystr \<Rightarrow> PendingRequest list io" where
  "list_pending lim store expected_project =
     bind (lift (validate_expected_project_id expected_project)) (\<lambda>project.
     bind (open_private_parent (path_join store (u ''record''))) (\<lambda>parent.
     bind (with_locals None
       (try_finally
         (bind (sys (open_lock parent STORE_LOCK)) (\<lambda>fd. bind (assign (\<lambda>_. Some fd)) (\<lambda>_. sys (inventory parent))))
         (bind (locals (\<lambda>l. if_some l (\<lambda>fd. sys (os_close fd)))) (\<lambda>_. sys (os_close parent))))) (\<lambda>request_ids.
     bind (map_io (\<lambda>i. load_pending lim store i project) request_ids) (\<lambda>requests.
     ret (by_age requests)))))"

definition inspect_pending_store :: "nat \<Rightarrow> path \<Rightarrow> pystr \<Rightarrow> PendingRequest list io" where
  "inspect_pending_store lim store expected_project =
     bind (lift (validate_expected_project_id expected_project)) (\<lambda>project.
     bind (open_private_parent (path_join store (u ''record''))) (\<lambda>parent.
     try_finally
       (bind (inventory parent) (\<lambda>request_ids.
        bind (map_io (\<lambda>i. bind (read_record lim parent (record_name_of i)) (\<lambda>(request, _).
            bind (check (pr_request_id request = i \<and> pr_project_id request = project) pending_invalid) (\<lambda>_.
            ret request))) request_ids) (\<lambda>requests.
        bind (inventory parent) (\<lambda>again.
        bind (check (again = request_ids) (ValueError ''family pending inventory changed'')) (\<lambda>_.
        ret (by_age requests))))))
       (os_close parent)))"

section \<open>Transitions\<close>

definition transition_invalid :: exn where
  "transition_invalid = ValueError ''family pending transition is invalid''"

text \<open>The record on disk is still the one this handle was opened for.\<close>

definition observe_unchanged :: "nat \<Rightarrow> (LockedPending \<times> world, PendingRequest) prog" where
  "observe_unchanged lim = locals (\<lambda>lk.
     bind (sys (entry_stat (lk_parent lk) (lk_record_name lk))) (\<lambda>current.
     bind (sys (validate_private_file current)) (\<lambda>_.
     bind (check (same_inode (lk_expected lk) current) record_changed) (\<lambda>_.
     bind (sys (read_record lim (lk_parent lk) (lk_record_name lk))) (\<lambda>(observed, observed_stat).
     bind (check (observed = lk_request lk \<and> same_inode (lk_expected lk) observed_stat) record_changed) (\<lambda>_.
     ret observed))))))"

definition store_changed :: "PendingRequest \<Rightarrow> (LockedPending \<times> world, PendingRequest) prog" where
  "store_changed changed = locals (\<lambda>lk.
     bind (lift (encode_pending changed)) (\<lambda>body.
     bind (sys (atomic_replace (lk_parent lk) (lk_record_name lk) (lk_expected lk) body)) (\<lambda>s.
     bind (assign (\<lambda>lk. lk\<lparr>lk_expected := s, lk_request := changed, lk_body := body\<rparr>)) (\<lambda>_.
     ret changed))))"

text \<open>The number and URL a transition carries: those of a created issue, else none.\<close>

definition created_result ::
  "PendingState \<Rightarrow> int option \<Rightarrow> pystr option \<Rightarrow> exn + int option \<times> pystr option" where
  "created_result target issue_number issue_url =
     (let invalid = ValueError ''family pending created result is invalid'' in
      if target = CREATED then
        (case issue_number of
           None \<Rightarrow> Inl invalid
         | Some n \<Rightarrow>
             bindE (reraise_if (\<lambda>e. e = TypeError \<or> is_value_error e) invalid (validate_issue_number (JInt n))) (\<lambda>number.
             bindE (case issue_url of None \<Rightarrow> Inl pending_invalid | Some t \<Rightarrow> validate_issue_url t number) (\<lambda>url.
             Inr (Some number, Some url))))
      else bindE (require (issue_number = None \<and> issue_url = None) invalid) (\<lambda>_. Inr (None, None)))"

definition transition_pending ::
  "nat \<Rightarrow> PendingState \<Rightarrow> int option \<Rightarrow> pystr option \<Rightarrow> bool \<Rightarrow> AuditEvent option
     \<Rightarrow> (LockedPending \<times> world, PendingRequest) prog" where
  "transition_pending lim target issue_number issue_url recovery event = locals (\<lambda>lk.
     bind (check (recovery \<longrightarrow> target = UNKNOWN) transition_invalid) (\<lambda>_.
     bind (check (\<not> (recovery \<and> event \<noteq> None)) transition_invalid) (\<lambda>_.
     bind (check (\<not> (pr_recovery (lk_request lk) \<or> pr_event (lk_request lk) \<noteq> None))
       (ValueError ''family pending audit is incomplete'')) (\<lambda>_.
     bind (check (target \<in> TRANSITIONS (pr_state (lk_request lk))) transition_invalid) (\<lambda>_.
     bind (observe_unchanged lim) (\<lambda>observed.
     bind (lift (created_result target issue_number issue_url)) (\<lambda>(number, url).
     bind (lift (validate_pending (observed\<lparr>pr_state := target,
         pr_issue := (if target \<in> CONTENT_STATES then pr_issue observed else None),
         pr_issue_number := number, pr_issue_url := url, pr_recovery := recovery, pr_event := event\<rparr>))) (\<lambda>changed.
     store_changed changed))))))))"

definition replace_audit_metadata ::
  "nat \<Rightarrow> bool \<Rightarrow> AuditEvent option \<Rightarrow> (LockedPending \<times> world, PendingRequest) prog" where
  "replace_audit_metadata lim recovery event =
     bind (observe_unchanged lim) (\<lambda>observed.
     bind (lift (validate_pending (observed\<lparr>pr_recovery := recovery, pr_event := event\<rparr>))) (\<lambda>changed.
     store_changed changed))"

definition migrate_recovery_audit_pending :: "nat \<Rightarrow> int \<Rightarrow> (LockedPending \<times> world, PendingRequest) prog" where
  "migrate_recovery_audit_pending lim timestamp = locals (\<lambda>lk.
     let r = lk_request lk in
     bind (check (pr_state r = UNKNOWN \<and> pr_recovery r \<and> pr_event r = None)
       (ValueError ''family pending recovery audit is not pending'')) (\<lambda>_.
     bind (lift (event_validated \<lparr>ev_timestamp = timestamp, ev_project_id = pr_project_id r,
       ev_request_id = pr_request_id r, ev_operation = u ''recover'', ev_status = u ''unknown'',
       ev_stage = u ''reconcile''\<rparr>)) (\<lambda>event.
     replace_audit_metadata lim False (Some event))))"

definition audit_not_pending :: exn where
  "audit_not_pending = ValueError ''family pending audit is not pending''"

definition clear_audit_event :: "nat \<Rightarrow> (LockedPending \<times> world, PendingRequest) prog" where
  "clear_audit_event lim = locals (\<lambda>lk.
     bind (check (pr_event (lk_request lk) \<noteq> None) audit_not_pending) (\<lambda>_.
     replace_audit_metadata lim False None))"

definition drain_audit_event :: "nat \<Rightarrow> path \<Rightarrow> (LockedPending \<times> world, PendingRequest) prog" where
  "drain_audit_event lim audit_path = locals (\<lambda>lk.
     case pr_event (lk_request lk) of
       None \<Rightarrow> raise audit_not_pending
     | Some event \<Rightarrow>
         bind (sys (append_family_audit lim audit_path event)) (\<lambda>_. clear_audit_event lim))"

definition transition_pending_audited ::
  "nat \<Rightarrow> PendingState \<Rightarrow> path \<Rightarrow> int \<Rightarrow> pystr \<Rightarrow> pystr \<Rightarrow> pystr \<Rightarrow> int option \<Rightarrow> pystr option
     \<Rightarrow> (LockedPending \<times> world, PendingRequest) prog" where
  "transition_pending_audited lim target audit_path timestamp operation status stage issue_number issue_url =
     locals (\<lambda>lk.
     bind (lift (event_validated \<lparr>ev_timestamp = timestamp, ev_project_id = pr_project_id (lk_request lk),
       ev_request_id = pr_request_id (lk_request lk), ev_operation = operation, ev_status = status,
       ev_stage = stage\<rparr>)) (\<lambda>event.
     bind (transition_pending lim target issue_number issue_url False (Some event)) (\<lambda>_.
     drain_audit_event lim audit_path)))"

definition expire_pending :: "nat \<Rightarrow> path \<Rightarrow> pystr \<Rightarrow> pystr \<Rightarrow> int \<Rightarrow> PendingRequest io" where
  "expire_pending lim store request_id expected_project now =
     bind (lift (exact_integer now)) (\<lambda>timestamp.
     pending_lock lim store request_id expected_project None False False (locals (\<lambda>lk.
       bind (check (pr_state (lk_request lk) = PENDING \<and> pr_expires_at (lk_request lk) \<le> timestamp)
         (ValueError ''family pending request cannot expire'')) (\<lambda>_.
       transition_pending lim EXPIRED None None False None))))"

section \<open>Recovery\<close>

definition recover_locked :: "nat \<Rightarrow> path \<Rightarrow> int \<Rightarrow> (LockedPending \<times> world, PendingRequest) prog" where
  "recover_locked lim audit_path timestamp = locals (\<lambda>lk.
     if pr_state (lk_request lk) = SENDING
     then transition_pending_audited lim UNKNOWN audit_path timestamp (u ''recover'') (u ''unknown'')
            (u ''reconcile'') None None
     else
       bind (if pr_recovery (lk_request lk)
             then bind (migrate_recovery_audit_pending lim timestamp) (\<lambda>_. ret ()) else ret ()) (\<lambda>_.
       locals (\<lambda>lk'.
         bind (check (pr_event (lk_request lk') \<noteq> None) (ValueError ''family pending request cannot be recovered'')) (\<lambda>_.
         drain_audit_event lim audit_path))))"

text \<open>\<open>if condition(locked.request): action\<close> on the handle as it is now.\<close>

definition when_request ::
  "(PendingRequest \<Rightarrow> bool) \<Rightarrow> (LockedPending \<times> world, 'a) prog \<Rightarrow> (LockedPending \<times> world, unit) prog" where
  "when_request p m = locals (\<lambda>lk. if p (lk_request lk) then bind m (\<lambda>_. ret ()) else ret ())"

text \<open>
  What both \<open>create_pending\<close> and \<open>initialize_pending_store\<close> do with a record they find: finish
  its audit, mark an interrupted send as unknown, expire it when its time is over.
\<close>

definition settle_locked :: "nat \<Rightarrow> path \<Rightarrow> int \<Rightarrow> (LockedPending \<times> world, unit) prog" where
  "settle_locked lim audit_path timestamp =
     bind (when_request pr_recovery (migrate_recovery_audit_pending lim timestamp)) (\<lambda>_.
     bind (when_request (\<lambda>r. pr_event r \<noteq> None) (drain_audit_event lim audit_path)) (\<lambda>_.
     bind (when_request (\<lambda>r. pr_state r = SENDING) (recover_locked lim audit_path timestamp)) (\<lambda>_.
     when_request (\<lambda>r. pr_state r = PENDING \<and> pr_expires_at r \<le> timestamp)
       (transition_pending_audited lim EXPIRED audit_path timestamp (u ''expire'') (u ''expired'') (u ''cleanup'')
          None None))))"

definition recovery_timestamp :: "nat \<Rightarrow> path \<Rightarrow> pystr \<Rightarrow> int io \<Rightarrow> int io" where
  "recovery_timestamp lim audit_path expected_project clock =
     bind clock (\<lambda>timestamp.
     bind (check (0 \<le> timestamp) (ValueError ''family pending recovery clock is invalid'')) (\<lambda>_.
     bind (validate_family_audit lim audit_path expected_project) (\<lambda>_.
     ret timestamp)))"

text \<open>\<open>with\<close> the store lock held, its parent closed at the end.\<close>

definition with_store_lock :: "path \<Rightarrow> (nat \<Rightarrow> 'a io) \<Rightarrow> 'a io" where
  "with_store_lock store block =
     bind (open_private_parent (path_join store (u ''record''))) (\<lambda>parent.
     with_locals None
       (try_finally
         (bind (sys (open_lock parent STORE_LOCK)) (\<lambda>fd. bind (assign (\<lambda>_. Some fd)) (\<lambda>_. sys (block parent))))
         (bind (locals (\<lambda>l. if_some l (\<lambda>fd. sys (os_close fd)))) (\<lambda>_. sys (os_close parent)))))"

definition was_recovery :: "PendingRequest \<Rightarrow> bool" where
  "was_recovery r \<longleftrightarrow> pr_state r = SENDING \<or> pr_recovery r
     \<or> (case pr_event r of None \<Rightarrow> False | Some ev \<Rightarrow> ev_operation ev = u ''recover'')"

text \<open>The recovered requests, as pairs of request id and project id.\<close>

definition initialize_one ::
  "nat \<Rightarrow> path \<Rightarrow> pystr \<Rightarrow> path \<Rightarrow> int \<Rightarrow> pystr \<Rightarrow> (pystr \<times> pystr) list io" where
  "initialize_one lim store project audit_path timestamp request_id =
     pending_lock lim store request_id project None True True (locals (\<lambda>lk.
       let recovery = was_recovery (lk_request lk) in
       bind (when_request pr_recovery (migrate_recovery_audit_pending lim timestamp)) (\<lambda>_.
       bind (when_request (\<lambda>r. pr_event r \<noteq> None) (drain_audit_event lim audit_path)) (\<lambda>_. locals (\<lambda>lk'.
       let interrupted = (pr_state (lk_request lk') = SENDING) in
       bind (when_request (\<lambda>r. pr_state r = SENDING) (recover_locked lim audit_path timestamp)) (\<lambda>_.
       bind (when_request (\<lambda>r. pr_state r = PENDING \<and> pr_expires_at r \<le> timestamp)
         (transition_pending_audited lim EXPIRED audit_path timestamp (u ''expire'') (u ''expired'') (u ''cleanup'')
            None None)) (\<lambda>_. locals (\<lambda>lk''.
       ret (if recovery \<or> interrupted
            then [(pr_request_id (lk_request lk''), pr_project_id (lk_request lk''))] else [])))))))))"

definition initialize_pending_store ::
  "nat \<Rightarrow> path \<Rightarrow> pystr \<Rightarrow> path \<Rightarrow> int io \<Rightarrow> (pystr \<times> pystr) list io" where
  "initialize_pending_store lim store expected_project audit_path clock =
     bind (lift (validate_expected_project_id expected_project)) (\<lambda>project.
     bind (recovery_timestamp lim audit_path project clock) (\<lambda>timestamp.
     with_store_lock store (\<lambda>parent.
       bind (inventory parent) (\<lambda>request_ids.
       bind (map_io (initialize_one lim store project audit_path timestamp) request_ids) (\<lambda>recovered.
       ret (sort_key fst (concat recovered)))))))"

definition recover_sending ::
  "nat \<Rightarrow> path \<Rightarrow> pystr \<Rightarrow> pystr \<Rightarrow> path \<Rightarrow> int io \<Rightarrow> PendingRequest io" where
  "recover_sending lim store request_id expected_project audit_path clock =
     bind (lift (validate_expected_project_id expected_project)) (\<lambda>project.
     bind (recovery_timestamp lim audit_path project clock) (\<lambda>timestamp.
     pending_lock lim store request_id project None False False (recover_locked lim audit_path timestamp)))"

section \<open>Creation\<close>

definition new_pending ::
  "pystr \<Rightarrow> pystr \<Rightarrow> int \<Rightarrow> CanonicalFamilyIssue \<Rightarrow> AuditEvent option \<Rightarrow> PendingRequest" where
  "new_pending request_id project created_at issue event =
     \<lparr>pr_request_id = request_id, pr_project_id = project, pr_created_at = created_at,
      pr_expires_at = created_at + TTL_SECONDS, pr_state = PENDING, pr_issue = Some issue,
      pr_issue_number = None, pr_issue_url = None, pr_recovery = False, pr_event = event\<rparr>"

text \<open>One attempt: \<open>None\<close> when the generated id is taken.\<close>

definition create_attempt ::
  "nat \<Rightarrow> path \<Rightarrow> nat \<Rightarrow> pystr \<Rightarrow> int \<Rightarrow> CanonicalFamilyIssue \<Rightarrow> path option \<Rightarrow> bytes io
     \<Rightarrow> PendingRequest option io" where
  "create_attempt lim store parent project created_at issue audit_path random =
     bind random (\<lambda>generated.
     bind (check (length generated = 16) (ValueError ''family pending random source is invalid'')) (\<lambda>_.
     let request_id = hex_bytes generated; record_name = record_name_of request_id in
     bind (try_except (bind (os_stat_at parent record_name) (\<lambda>_. ret True))
       (\<lambda>e. if e = FileNotFoundError then ret False else raise e)) (\<lambda>taken.
       if taken then ret None
       else
         bind (if audit_path = None then ret None
               else bind (lift (event_validated \<lparr>ev_timestamp = created_at, ev_project_id = project,
                 ev_request_id = request_id, ev_operation = u ''intake'', ev_status = u ''pending'',
                 ev_stage = u ''intake''\<rparr>)) (\<lambda>ev. ret (Some ev))) (\<lambda>event.
         let request = new_pending request_id project created_at issue event in
         bind (try_except
           (bind (lift (encode_pending request)) (\<lambda>body. bind (publish_new parent record_name body) (\<lambda>_. ret True)))
           (\<lambda>e. if (\<exists>m. e = FileExistsError m) then ret False else raise e)) (\<lambda>published.
           if \<not> published then ret None
           else
             (case audit_path of
                None \<Rightarrow> bind (lift (validate_pending request)) (\<lambda>r. ret (Some r))
              | Some p \<Rightarrow>
                  pending_lock lim store request_id project None True True
                    (bind (drain_audit_event lim p) (\<lambda>r. ret (Some r)))))))))"

fun create_attempts ::
  "nat \<Rightarrow> nat \<Rightarrow> path \<Rightarrow> nat \<Rightarrow> pystr \<Rightarrow> int \<Rightarrow> CanonicalFamilyIssue \<Rightarrow> path option \<Rightarrow> bytes io
     \<Rightarrow> PendingRequest io" where
  "create_attempts 0 lim store parent project created_at issue audit_path random =
     raise (FileExistsError ''could not allocate family pending request'')"
| "create_attempts (Suc n) lim store parent project created_at issue audit_path random =
     bind (create_attempt lim store parent project created_at issue audit_path random) (\<lambda>r.
       case r of
         Some request \<Rightarrow> ret request
       | None \<Rightarrow> create_attempts n lim store parent project created_at issue audit_path random)"

text \<open>The records that still hold content; all must be this project's.\<close>

definition count_unfinished :: "nat \<Rightarrow> nat \<Rightarrow> pystr \<Rightarrow> pystr list \<Rightarrow> nat io" where
  "count_unfinished lim parent project records =
     bind (map_io (\<lambda>i. bind (read_record lim parent (record_name_of i)) (\<lambda>(request, _).
         bind (check (pr_project_id request = project) pending_invalid) (\<lambda>_.
         ret (pr_state request)))) records) (\<lambda>states.
     ret (length (filter (\<lambda>st. st \<in> CONTENT_STATES) states)))"

definition create_pending ::
  "nat \<Rightarrow> path \<Rightarrow> pystr \<Rightarrow> CanonicalFamilyIssue \<Rightarrow> int \<Rightarrow> path option \<Rightarrow> bytes io \<Rightarrow> PendingRequest io" where
  "create_pending lim store project_id issue now audit_path random =
     bind (lift (validate_expected_project_id project_id)) (\<lambda>project.
     bind (lift (exact_integer now)) (\<lambda>created_at.
     bind (lift (validate_pending (new_pending (replicate 32 48) project created_at issue None))) (\<lambda>_.
     bind (case audit_path of None \<Rightarrow> ret ()
           | Some p \<Rightarrow> bind (validate_family_audit lim p project) (\<lambda>_. ret ())) (\<lambda>_.
     with_store_lock store (\<lambda>parent.
       bind (inventory parent) (\<lambda>found.
       bind (case audit_path of
               None \<Rightarrow> ret found
             | Some p \<Rightarrow>
                 bind (map_io (\<lambda>i. pending_lock lim store i project None True True (settle_locked lim p created_at))
                   found) (\<lambda>_. inventory parent)) (\<lambda>records.
       bind (count_unfinished lim parent project records) (\<lambda>unfinished.
       bind (check (unfinished < MAX_UNFINISHED) (PendingCapacityError ''family pending inventory is full'')) (\<lambda>_.
       create_attempts ID_ATTEMPTS lim store parent project created_at issue audit_path random)))))))))"

end
