(* ===== verification/File_Logic.thy ===== *)
theory File_Logic
  imports Private_Files
begin

text \<open>
  How programs over the file system are verified. \<open>triple P m Q E\<close>: from a state with \<open>P\<close>, \<open>m\<close>
  ends with \<open>Q\<close> of its result or raises with \<open>E\<close> of the exception. As a killed process raises
  too, \<open>E\<close> speaks about every point at which the process may die.

  The other processes are bounded by \<open>quiet R\<close>: they leave the files in the region \<open>R\<close> alone, and
  new files come from \<open>R\<close>; faults are operating system errors. Programs that only look
  (\<open>looks\<close>) keep the files of the region and all descriptors; programs that also open and close
  files of their own (\<open>reads\<close>) keep the files and never make the descriptor \<open>p\<close> refer to another file.
\<close>

section \<open>Triples\<close>

definition triple ::
  "('s \<Rightarrow> bool) \<Rightarrow> ('s, 'a) prog \<Rightarrow> ('a \<Rightarrow> 's \<Rightarrow> bool) \<Rightarrow> (exn \<Rightarrow> 's \<Rightarrow> bool) \<Rightarrow> bool" where
  "triple P m Q E \<longleftrightarrow> (\<forall>s. P s \<longrightarrow> (case m s of (Inr x, t) \<Rightarrow> Q x t | (Inl e, t) \<Rightarrow> E e t))"

lemma tripleI:
  "(\<And>s x t. P s \<Longrightarrow> m s = (Inr x, t) \<Longrightarrow> Q x t) \<Longrightarrow> (\<And>s e t. P s \<Longrightarrow> m s = (Inl e, t) \<Longrightarrow> E e t) \<Longrightarrow> triple P m Q E"
  by (auto simp: triple_def split: prod.splits sum.splits)

lemma tripleD: "triple P m Q E \<Longrightarrow> m s = (Inr x, t) \<Longrightarrow> P s \<Longrightarrow> Q x t"
  unfolding triple_def by (erule allE [where x = s]) simp

lemma triple_errorD: "triple P m Q E \<Longrightarrow> m s = (Inl e, t) \<Longrightarrow> P s \<Longrightarrow> E e t"
  unfolding triple_def by (erule allE [where x = s]) simp

lemma triple_conseq:
  assumes "triple P' m Q' E'" and "\<And>s. P s \<Longrightarrow> P' s" and "\<And>x s. Q' x s \<Longrightarrow> Q x s"
    and "\<And>e s. E' e s \<Longrightarrow> E e s"
  shows "triple P m Q E"
  using tripleD [OF assms(1)] triple_errorD [OF assms(1)] assms(2-4) by (blast intro: tripleI)

lemma triple_pre: "triple P' m Q E \<Longrightarrow> (\<And>s. P s \<Longrightarrow> P' s) \<Longrightarrow> triple P m Q E"
  by (rule triple_conseq)

lemma triple_post: "triple P m Q' E \<Longrightarrow> (\<And>x s. Q' x s \<Longrightarrow> Q x s) \<Longrightarrow> triple P m Q E"
  by (rule triple_conseq)

lemma triple_ret: "(\<And>s. P s \<Longrightarrow> Q x s) \<Longrightarrow> triple P (ret x) Q E"
  by (simp add: triple_def ret_def)

lemma triple_raise: "(\<And>s. P s \<Longrightarrow> E e s) \<Longrightarrow> triple P (raise e) Q E"
  by (simp add: triple_def raise_def)

lemma triple_bind:
  "triple P m R E \<Longrightarrow> (\<And>x. triple (R x) (f x) Q E) \<Longrightarrow> triple P (bind m f) Q E"
  unfolding triple_def bind_def by (fastforce split: prod.splits sum.splits)

lemma triple_check:
  "(\<And>s. P s \<Longrightarrow> b \<Longrightarrow> Q () s) \<Longrightarrow> (\<And>s. P s \<Longrightarrow> \<not> b \<Longrightarrow> E e s) \<Longrightarrow> triple P (check b e) Q E"
  by (simp add: triple_def check_def)

lemma triple_lift:
  "(\<And>x s. r = Inr x \<Longrightarrow> P s \<Longrightarrow> Q x s) \<Longrightarrow> (\<And>e s. r = Inl e \<Longrightarrow> P s \<Longrightarrow> E e s) \<Longrightarrow> triple P (lift r) Q E"
  by (auto simp: triple_def lift_def split: sum.splits)

lemma triple_try_except:
  "triple P m Q R \<Longrightarrow> (\<And>e. triple (R e) (h e) Q E) \<Longrightarrow> triple P (try_except m h) Q E"
  unfolding triple_def try_except_def by (fastforce split: prod.splits sum.splits)

lemma triple_try_finally:
  assumes m: "triple P m R F" and c: "\<And>x. triple (R x) c (\<lambda>_. Q x) E" and f: "\<And>e. triple (F e) c (\<lambda>_. E e) E"
  shows "triple P (try_finally m c) Q E"
  unfolding triple_def
proof (intro allI impI)
  fix s
  assume s: "P s"
  obtain r s1 where ms: "m s = (r, s1)" by fastforce
  obtain q s2 where cs: "c s1 = (q, s2)" by fastforce
  show "case try_finally m c s of (Inl e, t) \<Rightarrow> E e t | (Inr x, t) \<Rightarrow> Q x t"
  proof (cases r)
    case (Inl e)
    then show ?thesis
      using triple_errorD [OF m, of s e s1] s ms cs triple_errorD [OF f, of s1 _ s2 e] tripleD [OF f, of s1 _ s2 e]
      by (cases q) (auto simp: try_finally_def)
  next
    case (Inr x)
    then show ?thesis
      using tripleD [OF m, of s x s1] s ms cs triple_errorD [OF c, of s1 _ s2 x] tripleD [OF c, of s1 _ s2 x]
      by (cases q) (auto simp: try_finally_def)
  qed
qed

lemma triple_translate:
  "triple P m Q (\<lambda>x. E (if p x then e else x)) \<Longrightarrow> triple P (translate p e m) Q E"
  unfolding translate_def by (erule triple_try_except) (rule triple_raise)

lemma triple_on_failure:
  "triple P m Q F \<Longrightarrow> (\<And>e. triple (F e) c (\<lambda>_. E e) E) \<Longrightarrow> triple P (on_failure m c) Q E"
  unfolding on_failure_def
  by (erule triple_try_except) (rule triple_bind, assumption, rule triple_raise)

lemma triple_sys:
  "(\<And>l. triple (\<lambda>w. P (l, w)) m (\<lambda>x w. Q x (l, w)) (\<lambda>e w. E e (l, w))) \<Longrightarrow> triple P (sys m) Q E"
  unfolding triple_def sys_def by (fastforce split: prod.splits sum.splits)

lemma triple_assign: "(\<And>l w. P (l, w) \<Longrightarrow> Q () (f l, w)) \<Longrightarrow> triple P (assign f) Q E"
  by (auto simp: triple_def assign_def)

lemma triple_locals: "(\<And>l. triple (\<lambda>s. P s \<and> fst s = l) (f l) Q E) \<Longrightarrow> triple P (locals f) Q E"
  by (auto simp: triple_def locals_def)

lemma triple_with_locals:
  "triple (\<lambda>s. fst s = l \<and> P (snd s)) m (\<lambda>x s. Q x (snd s)) (\<lambda>e s. E e (snd s)) \<Longrightarrow>
   triple P (with_locals l m) Q E"
  unfolding triple_def with_locals_def by (fastforce split: prod.splits sum.splits)

lemma triple_if_some:
  "(v = None \<Longrightarrow> triple P (ret ()) Q E) \<Longrightarrow> (\<And>x. v = Some x \<Longrightarrow> triple P (f x) Q E) \<Longrightarrow> triple P (if_some v f) Q E"
  by (cases v) (simp_all add: if_some_def)

lemma triple_if:
  "(b \<Longrightarrow> triple P m Q E) \<Longrightarrow> (\<not> b \<Longrightarrow> triple P m' Q E) \<Longrightarrow> triple P (if b then m else m') Q E"
  by simp

lemma triple_disj:
  "triple P m Q E \<Longrightarrow> triple P' m Q E \<Longrightarrow> triple (\<lambda>s. P s \<or> P' s) m Q E"
  by (auto simp: triple_def)

lemma triple_ex: "(\<And>x. triple (P x) m Q E) \<Longrightarrow> triple (\<lambda>s. \<exists>x. P x s) m Q E"
  by (blast intro: tripleI dest: tripleD triple_errorD)

lemma triple_conj_pure: "(b \<Longrightarrow> triple P m Q E) \<Longrightarrow> triple (\<lambda>s. b \<and> P s) m Q E"
  by (auto simp: triple_def)

section \<open>Quiet surroundings\<close>

definition quiet :: "fid set \<Rightarrow> world \<Rightarrow> bool" where
  "quiet R w \<longleftrightarrow> (\<forall>n. (\<forall>fs. \<forall>f \<in> R. t_others (w_turns w n) fs f = fs f) \<and> t_fid (w_turns w n) \<in> R
     \<and> (\<forall>e. t_fault (w_turns w n) = Some e \<longrightarrow> is_os_error e))
   \<and> (\<forall>fd \<in> dom (w_fds w). fd < w_next_fd w)"

definition same_files :: "fid set \<Rightarrow> world \<Rightarrow> world \<Rightarrow> bool" where
  "same_files R w w' \<longleftrightarrow> (\<forall>f \<in> R. w_files w' f = w_files w f) \<and> w_turns w' = w_turns w \<and> w_uid w' = w_uid w
     \<and> w_root w' = w_root w"

text \<open>Nothing that a program can see of the region has changed.\<close>

definition same_view :: "fid set \<Rightarrow> world \<Rightarrow> world \<Rightarrow> bool" where
  "same_view R w w' \<longleftrightarrow> same_files R w w' \<and> w_fds w' = w_fds w \<and> w_next_fd w' = w_next_fd w"

text \<open>Every descriptor is closed or refers to what it referred to; new ones have new numbers.\<close>

definition keeps_fds :: "world \<Rightarrow> world \<Rightarrow> bool" where
  "keeps_fds w w' \<longleftrightarrow> w_next_fd w \<le> w_next_fd w' \<and> (\<forall>fd \<in> dom (w_fds w'). fd < w_next_fd w')
     \<and> (\<forall>p < w_next_fd w. map_option of_fid (w_fds w' p) \<in> {None, map_option of_fid (w_fds w p)})"

definition looks :: "fid set \<Rightarrow> 'a io \<Rightarrow> bool" where
  "looks R m \<longleftrightarrow> (\<forall>w. quiet R w \<longrightarrow> same_view R w (snd (m w)))"

definition reads :: "fid set \<Rightarrow> 'a io \<Rightarrow> bool" where
  "reads R m \<longleftrightarrow> (\<forall>w. quiet R w \<longrightarrow> same_files R w (snd (m w)) \<and> keeps_fds w (snd (m w)))"

named_theorems look_intros \<open>programs that only look\<close>
named_theorems read_intros \<open>programs that change no file\<close>

lemma same_files_refl [simp]: "same_files R w w"
  by (simp add: same_files_def)

lemma same_view_refl [simp]: "same_view R w w"
  by (simp add: same_view_def)

lemma same_files_trans: "same_files R w w' \<Longrightarrow> same_files R w' w'' \<Longrightarrow> same_files R w w''"
  by (simp add: same_files_def)

lemma same_view_trans: "same_view R w w' \<Longrightarrow> same_view R w' w'' \<Longrightarrow> same_view R w w''"
  by (auto simp: same_view_def intro: same_files_trans)

lemma keeps_fds_refl: "quiet R w \<Longrightarrow> keeps_fds w w"
  by (simp add: keeps_fds_def quiet_def)

lemma keeps_fds_trans: "keeps_fds w w' \<Longrightarrow> keeps_fds w' w'' \<Longrightarrow> keeps_fds w w''"
proof -
  assume a: "keeps_fds w w'" "keeps_fds w' w''"
  have "map_option of_fid (w_fds w'' p) \<in> {None, map_option of_fid (w_fds w p)}" if "p < w_next_fd w" for p
  proof -
    have "p < w_next_fd w'" using a(1) that by (simp add: keeps_fds_def)
    then have "map_option of_fid (w_fds w'' p) \<in> {None, map_option of_fid (w_fds w' p)}"
      using a(2) by (simp add: keeps_fds_def)
    moreover have "map_option of_fid (w_fds w' p) \<in> {None, map_option of_fid (w_fds w p)}"
      using a(1) that by (simp add: keeps_fds_def)
    ultimately show ?thesis by auto
  qed
  then show ?thesis using a by (simp add: keeps_fds_def)
qed

lemma quiet_view: "quiet R w \<Longrightarrow> same_view R w w' \<Longrightarrow> quiet R w'"
  by (simp add: quiet_def same_view_def same_files_def)

lemma quiet_read: "quiet R w \<Longrightarrow> same_files R w w' \<Longrightarrow> keeps_fds w w' \<Longrightarrow> quiet R w'"
  by (simp add: quiet_def same_files_def keeps_fds_def)

lemma view_before_call: "quiet R w \<Longrightarrow> same_view R w (before_call w)"
  by (simp add: same_view_def same_files_def before_call_def turn_of_def quiet_def)

lemma view_killed: "same_view R w (killed_world w)"
  by (simp add: same_view_def same_files_def killed_world_def)

lemma view_keeps_fds: "quiet R w \<Longrightarrow> same_view R w w' \<Longrightarrow> keeps_fds w w'"
  by (simp add: same_view_def keeps_fds_def quiet_def)

lemma looks_reads: "looks R m \<Longrightarrow> reads R m"
  unfolding looks_def reads_def using view_keeps_fds by (auto simp: same_view_def)

text \<open>A class of programs closed under sequencing and exception handling.\<close>

locale program_class =
  fixes ok :: "world \<Rightarrow> bool" and rel :: "world \<Rightarrow> world \<Rightarrow> bool"
  assumes rel_refl: "ok w \<Longrightarrow> rel w w"
    and rel_trans: "ok w \<Longrightarrow> rel w w' \<Longrightarrow> rel w' w'' \<Longrightarrow> rel w w''"
    and rel_ok: "ok w \<Longrightarrow> rel w w' \<Longrightarrow> ok w'"
begin

definition within :: "'a io \<Rightarrow> bool" where
  "within m \<longleftrightarrow> (\<forall>w. ok w \<longrightarrow> rel w (snd (m w)))"

lemma within_result: "within m \<Longrightarrow> ok w \<Longrightarrow> m w = (r, w') \<Longrightarrow> rel w w'"
  unfolding within_def by (metis snd_conv)

lemma within_constant: "within (ret x)" "within (raise e)" "within (lift r)" "within (check b e)" "within os_getuid"
  by (simp_all add: within_def ret_def raise_def lift_def check_def os_getuid_def rel_refl)

lemma within_bind: "within m \<Longrightarrow> (\<And>x. within (f x)) \<Longrightarrow> within (bind m f)"
  unfolding within_def bind_def
  by (auto split: prod.split sum.split) (metis rel_ok rel_trans snd_conv)+

lemma within_try_except: "within m \<Longrightarrow> (\<And>e. within (h e)) \<Longrightarrow> within (try_except m h)"
  unfolding within_def try_except_def
  by (auto split: prod.split sum.split) (metis rel_ok rel_trans snd_conv)+

lemma within_try_finally: "within m \<Longrightarrow> within c \<Longrightarrow> within (try_finally m c)"
  unfolding within_def try_finally_def
  by (auto split: prod.split sum.split) (metis rel_ok rel_trans snd_conv)+

lemma within_translate: "within m \<Longrightarrow> within (translate p e m)"
  unfolding translate_def by (intro within_try_except within_constant)

lemma within_on_failure: "within m \<Longrightarrow> within c \<Longrightarrow> within (on_failure m c)"
  unfolding on_failure_def by (intro within_try_except within_bind within_constant)

lemma within_map_io: "(\<And>x. within (f x)) \<Longrightarrow> within (map_io f xs)"
  by (induction xs) (simp_all add: within_bind within_constant)

lemma within_path_test: "within m \<Longrightarrow> within (path_test m p)"
  unfolding path_test_def by (intro within_try_except within_bind) (auto intro: within_constant)

lemma read_up_to_rel:
  "(\<And>n. within (os_read fd n)) \<Longrightarrow> ok w \<Longrightarrow> rel w (snd (read_up_to fd m body w))"
proof (induction fd m body w rule: read_up_to.induct)
  case (1 fd m body w)
  obtain r w1 where o: "os_read fd (min 4096 (m + 1 - length body)) w = (r, w1)" by fastforce
  have r: "rel w w1" "ok w1"
    using within_result [OF "1.prems"(1) "1.prems"(2) o] rel_ok "1.prems"(2) by blast+
  show ?case
  proof (cases "m < length body \<or> (\<exists>e. r = Inl e) \<or> r = Inr []")
    case True
    then show ?thesis using r o rel_refl "1.prems"(2) by (subst read_up_to.simps) auto
  next
    case False
    then obtain chunk where c: "r = Inr chunk" "chunk \<noteq> []" "\<not> m < length body" by (cases r) auto
    then have "read_up_to fd m body w = read_up_to fd m (body @ chunk) w1"
      using o by (subst read_up_to.simps) simp
    then show ?thesis
      using "1.IH" [OF c(3) _ _ c(2) "1.prems"(1) r(2)] o c(1) r(1) rel_trans "1.prems"(2) by auto
  qed
qed

lemma within_read_up_to: "(\<And>n. within (os_read fd n)) \<Longrightarrow> within (read_up_to fd m body)"
  unfolding within_def using read_up_to_rel unfolding within_def by blast

end

interpretation look: program_class "quiet R" "same_view R" for R
  by unfold_locales (auto intro: same_view_trans quiet_view)

interpretation rd: program_class "quiet R" "\<lambda>w w'. same_files R w w' \<and> keeps_fds w w'" for R
  by unfold_locales (auto intro: same_files_trans keeps_fds_trans keeps_fds_refl quiet_read)

lemma looks_within: "looks R = look.within R"
  by (simp add: fun_eq_iff looks_def look.within_def)

lemma reads_within: "reads R = rd.within R"
  by (simp add: fun_eq_iff reads_def rd.within_def)

lemmas looks_steps [look_intros] = look.within_constant [folded looks_within] look.within_bind [folded looks_within]
  look.within_try_except [folded looks_within] look.within_translate [folded looks_within]

lemmas reads_steps [read_intros] = rd.within_constant [folded reads_within] rd.within_bind [folded reads_within]
  rd.within_try_except [folded reads_within] rd.within_try_finally [folded reads_within]
  rd.within_translate [folded reads_within] rd.within_on_failure [folded reads_within]
  rd.within_map_io [folded reads_within] rd.within_path_test [folded reads_within]
  rd.within_read_up_to [folded reads_within]

lemma reads_branches [read_intros]:
  "(\<And>a b. reads R (f a b)) \<Longrightarrow> reads R (case_prod f x)"
  "(b \<Longrightarrow> reads R m) \<Longrightarrow> (\<not> b \<Longrightarrow> reads R m') \<Longrightarrow> reads R (if b then m else m')"
  "reads R m \<Longrightarrow> (\<And>y. reads R (g y)) \<Longrightarrow> reads R (case v of None \<Rightarrow> m | Some y \<Rightarrow> g y)"
  by (simp_all split: prod.split option.split)

section \<open>Calls\<close>

lemma triple_sys_call:
  assumes kill: "\<And>w. P w \<Longrightarrow> E Killed (killed_world w)"
    and fault: "\<And>w e. P w \<Longrightarrow> t_fault (turn_of w) = Some e \<Longrightarrow> E e (before_call w)"
    and run: "\<And>w x w'. P w \<Longrightarrow> f (turn_of w) (before_call w) = (Inr x, w') \<Longrightarrow> Q x w'"
    and err: "\<And>w e w'. P w \<Longrightarrow> f (turn_of w) (before_call w) = (Inl e, w') \<Longrightarrow> E e w'"
  shows "triple P (sys_call f) Q E"
  using assms by (fastforce simp: triple_def sys_call_def split: option.split prod.splits sum.splits)

lemma looks_sys_call:
  assumes "\<And>t w. snd (f t w) = w"
  shows "looks R (sys_call f)"
  using assms view_killed view_before_call
  by (fastforce simp: looks_def sys_call_def split: option.split)

lemma reads_sys_call:
  assumes "\<And>t w. quiet R w \<Longrightarrow> same_files R w (snd (f t w)) \<and> keeps_fds w (snd (f t w))"
  shows "reads R (sys_call f)"
  unfolding reads_def
proof (intro allI impI)
  fix w
  assume q: "quiet R w"
  have v: "same_files R w w' \<and> keeps_fds w w'" if "same_view R w w'" for w'
    using that view_keeps_fds [OF q that] by (simp add: same_view_def)
  have b: "quiet R (before_call w)" "same_files R w (before_call w)" "keeps_fds w (before_call w)"
    using quiet_view [OF q view_before_call [OF q]] v [OF view_before_call [OF q]] by simp_all
  show "same_files R w (snd (sys_call f w)) \<and> keeps_fds w (snd (sys_call f w))"
    using v [OF view_killed] b assms [OF b(1), of "turn_of w"] same_files_trans keeps_fds_trans
    by (auto simp: sys_call_def split: option.split)
qed

lemma looks_on_fd: "(\<And>t o' i w. snd (f t o' i w) = w) \<Longrightarrow> looks R (on_fd fd f)"
  unfolding on_fd_def by (rule looks_sys_call) (simp split: option.split)

lemma looks_on_dir: "(\<And>t d w. snd (f t d w) = w) \<Longrightarrow> looks R (on_dir fd f)"
  unfolding on_dir_def by (rule looks_on_fd) simp

lemma looks_on_entry: "(\<And>t d g i w. snd (f t d g i w) = w) \<Longrightarrow> looks R (on_entry fd name f)"
  unfolding on_entry_def by (rule looks_on_dir) (simp split: option.split)

lemma look_calls [look_intros]:
  "looks R (os_fstat fd)" "looks R (os_fsync fd)" "looks R (os_pread fd n off)" "looks R (os_stat_at fd name)" "looks R (os_listdir fd)"
  "looks R (random_bytes n)" "looks R os_getuid"
  unfolding os_fstat_def os_fsync_def os_pread_def os_stat_at_def os_listdir_def random_bytes_def
  by (rule looks_on_fd looks_on_dir looks_on_entry looks_sys_call looks_steps; simp)+

lemma looks_stat_id: "snd (stat_id w f) = w"
  by (simp add: stat_id_def split: option.split)

lemma look_paths [look_intros]: "looks R (path_stat p)" "looks R (path_lstat p)" "looks R (path_resolve b p)"
proof -
  show s: "looks R (path_stat p)" for p
    unfolding path_stat_def by (rule looks_sys_call) (simp add: looks_stat_id split: sum.split)
  have "looks R (sys_call (\<lambda>t w. case walk_path False w (path_parent p) of
       Inl e \<Rightarrow> (Inl e, w)
     | Inr stack \<Rightarrow>
         (case top_of (w_root w) stack of
            None \<Rightarrow> (Inl FileNotFoundError, w)
          | Some d \<Rightarrow> stat_id w (lookup (w_files w) d (path_name p)))))"
    by (rule looks_sys_call) (simp add: looks_stat_id split: sum.split option.split)
  then show "looks R (path_lstat p)" using s by (simp add: path_lstat_def)
  show "looks R (path_resolve b p)"
    unfolding path_resolve_def by (rule looks_sys_call) (simp split: sum.split)
qed

lemmas look_reads [read_intros] = look_calls [THEN looks_reads] look_paths [THEN looks_reads]

lemma reads_on_fd:
  assumes "\<And>t o' i w. quiet R w \<Longrightarrow> fd_inode w fd = Some (o', i) \<Longrightarrow>
      same_files R w (snd (f t o' i w)) \<and> keeps_fds w (snd (f t o' i w))"
  shows "reads R (on_fd fd f)"
  unfolding on_fd_def
  by (rule reads_sys_call) (use assms keeps_fds_refl in \<open>auto split: option.split\<close>)

lemma fd_inode_Some: "fd_inode w fd = Some (o', i) \<longleftrightarrow> w_fds w fd = Some o' \<and> w_files w (of_fid o') = Some i"
  by (auto simp: fd_inode_def split: option.split)

text \<open>A change of the offset or the lock of a descriptor, and a new descriptor.\<close>

lemma keeps_touched:
  assumes "quiet R w" and "w_fds w fd = Some o'" and "of_fid o'' = of_fid o'"
  shows "same_files R w (w\<lparr>w_fds := (w_fds w)(fd \<mapsto> o'')\<rparr>) \<and> keeps_fds w (w\<lparr>w_fds := (w_fds w)(fd \<mapsto> o'')\<rparr>)"
  using assms by (auto simp: same_files_def keeps_fds_def quiet_def)

lemma keeps_new_fd:
  assumes "quiet R w"
  shows "same_files R w (snd (new_fd f a w)) \<and> keeps_fds w (snd (new_fd f a w))"
proof -
  have "fd < Suc (w_next_fd w)" if "fd \<in> dom (w_fds w)" for fd
    using assms that by (simp add: quiet_def less_Suc_eq)
  then show ?thesis by (auto simp: new_fd_def same_files_def keeps_fds_def)
qed

lemma reads_close [read_intros]: "reads R (os_close fd)"
  unfolding reads_def
proof (intro allI impI)
  fix w
  assume q: "quiet R w"
  then show "same_files R w (snd (os_close fd w)) \<and> keeps_fds w (snd (os_close fd w))"
    using view_killed [of R w] view_keeps_fds [OF q view_killed]
    by (auto simp: os_close_def Let_def same_view_def before_call_def same_files_def keeps_fds_def quiet_def turn_of_def
        split: option.split)
qed

lemma reads_read [read_intros]: "reads R (os_read fd n)"
  unfolding os_read_def by (rule reads_on_fd) (simp add: Let_def fd_inode_Some keeps_touched)

lemma reads_flock [read_intros]: "reads R (flock fd)"
  unfolding flock_def by (rule reads_on_fd) (simp add: fd_inode_Some keeps_touched)

lemma reads_open [read_intros]:
  assumes "O_CREAT \<notin> set flags"
  shows "reads R (os_open_at flags mode fd name)"
  unfolding os_open_at_def on_dir_def
  by (rule reads_on_fd)
    (use assms keeps_new_fd keeps_fds_refl in \<open>auto simp: open_in_def open_inode_def split: option.split\<close>)

lemma reads_open_path:
  assumes "O_CREAT \<notin> set flags"
  shows "reads R (os_open_path flags mode p)"
  unfolding os_open_path_def
  by (rule reads_sys_call)
    (use assms keeps_new_fd keeps_fds_refl in
      \<open>auto simp: open_in_def open_inode_def in_parent_def split: option.split sum.split\<close>)

end
