(* ===== verification/Publish_Logic.thy ===== *)
theory Publish_Logic
  imports Pending_Store File_Logic
begin

text \<open>
  How a file is published in a private directory: what each call of
  \<open>src/agent_container/family_state.py\<close> and \<open>family_pending.py\<close> does to one name, while
  nobody else works in the directory, whatever fails and wherever the process is killed.
\<close>

declare split_paired_All [simp del] split_paired_Ex [simp del]

section \<open>One name of a directory\<close>

definition contents :: "files \<Rightarrow> fid \<rightharpoonup> file_kind \<times> bytes \<times> (pystr \<times> fid) list" where
  "contents fs f = map_option (\<lambda>i. (in_kind i, in_data i, in_entries i)) (fs f)"

text \<open>A snapshot: the root directory and the contents of some files.\<close>

type_synonym snapshot_files = "fid \<times> (fid \<rightharpoonup> file_kind \<times> bytes \<times> (pystr \<times> fid) list)"

abbreviation files_in :: "snapshot_files \<Rightarrow> fid set" where
  "files_in G \<equiv> dom (snd G)"

definition frozen :: "snapshot_files \<Rightarrow> world \<Rightarrow> bool" where
  "frozen G w \<longleftrightarrow> w_root w = fst G \<and> (\<forall>g \<in> files_in G. contents (w_files w) g = snd G g)"

lemma frozen_cong:
  "frozen G w \<Longrightarrow> w_root w' = w_root w \<Longrightarrow>
   (\<And>g. g \<in> files_in G \<Longrightarrow> contents (w_files w') g = contents (w_files w) g) \<Longrightarrow> frozen G w'"
  by (simp add: frozen_def)

lemma frozen_descriptors [simp]:
  "frozen G (w\<lparr>w_fds := fds\<rparr>) = frozen G w" "frozen G (w\<lparr>w_next_fd := k\<rparr>) = frozen G w"
  by (simp_all add: frozen_def)

text \<open>
  The directory \<open>d\<close> that the descriptor \<open>p\<close> refers to, as long as it is open; the files of \<open>G\<close>
  have the contents that \<open>G\<close> says.
\<close>

definition dir_open :: "fid set \<Rightarrow> snapshot_files \<Rightarrow> nat \<Rightarrow> fid \<Rightarrow> world \<Rightarrow> bool" where
  "dir_open R G p d w \<longleftrightarrow> quiet R w \<and> p < w_next_fd w \<and> map_option of_fid (w_fds w p) \<in> {None, Some d}
     \<and> d \<in> R \<and> map_option in_kind (w_files w d) = Some Directory
     \<and> files_in G \<subseteq> R \<and> d \<notin> files_in G \<and> frozen G w"

text \<open>What is at a name: nothing, or a file with its content.\<close>

definition at_name :: "fid set \<Rightarrow> snapshot_files \<Rightarrow> fid \<Rightarrow> pystr \<Rightarrow> (fid \<times> bytes) option \<Rightarrow> world \<Rightarrow> bool" where
  "at_name R G d n e w \<longleftrightarrow> d \<in> R \<and> lookup (w_files w) d n = map_option fst e
     \<and> (\<forall>f c. e = Some (f, c) \<longrightarrow> f \<in> R \<and> f \<noteq> d \<and> f \<notin> files_in G \<and> map_option in_data (w_files w f) = Some c)"

definition kept :: "fid set \<Rightarrow> snapshot_files \<Rightarrow> nat \<Rightarrow> fid \<Rightarrow> pystr \<Rightarrow> ((fid \<times> bytes) option \<Rightarrow> bool) \<Rightarrow> world \<Rightarrow> bool" where
  "kept R G p d n X w \<longleftrightarrow> dir_open R G p d w \<and> (\<exists>e. X e \<and> at_name R G d n e w)"

text \<open>Two names at once, for different files.\<close>

definition both :: "fid set \<Rightarrow> snapshot_files \<Rightarrow> nat \<Rightarrow> fid \<Rightarrow> pystr \<Rightarrow> (fid \<times> bytes) option \<Rightarrow> pystr \<Rightarrow> fid \<Rightarrow> bytes \<Rightarrow> world \<Rightarrow> bool" where
  "both R G p d n e tmp t c w \<longleftrightarrow> dir_open R G p d w \<and> at_name R G d n e w \<and> at_name R G d tmp (Some (t, c)) w
     \<and> (\<forall>f b. e = Some (f, b) \<longrightarrow> f \<noteq> t)"

text \<open>\<open>fd\<close> writes to the file \<open>t\<close> at its end.\<close>

definition writes_to :: "nat \<Rightarrow> fid \<Rightarrow> nat \<Rightarrow> world \<Rightarrow> bool" where
  "writes_to fd t k w \<longleftrightarrow> (\<exists>o'. w_fds w fd = Some o' \<and> of_fid o' = t \<and> of_offset o' = k \<and> \<not> of_append o')"

lemma both_kept: "both R G p d n e tmp t c w \<Longrightarrow> X e \<Longrightarrow> kept R G p d n X w"
  by (auto simp: both_def kept_def)

lemma kept_mono: "kept R G p d n X w \<Longrightarrow> (\<And>e. X e \<Longrightarrow> Y e) \<Longrightarrow> kept R G p d n Y w"
  by (auto simp: kept_def)

section \<open>Looking and reading\<close>

definition stable :: "fid set \<Rightarrow> (world \<Rightarrow> bool) \<Rightarrow> bool" where
  "stable R P \<longleftrightarrow> (\<forall>w. P w \<longrightarrow> quiet R w) \<and> (\<forall>w w'. P w \<longrightarrow> same_files R w w' \<longrightarrow> keeps_fds w w' \<longrightarrow> P w')"

lemma triple_reads: "reads R m \<Longrightarrow> stable R P \<Longrightarrow> triple P m (\<lambda>_. P) (\<lambda>_. P)"
  unfolding reads_def stable_def by (rule tripleI) (metis snd_conv)+

lemma same_name: "d \<in> R \<Longrightarrow> same_files R w w' \<Longrightarrow> lookup (w_files w') d n = lookup (w_files w) d n"
  by (simp add: same_files_def lookup_def)

lemma at_name_same: "at_name R G d n e w \<Longrightarrow> same_files R w w' \<Longrightarrow> at_name R G d n e w'"
  unfolding at_name_def using same_name [of d R w w' n] by (simp add: same_files_def)

lemma dir_open_same:
  assumes "dir_open R G p d w" and "same_files R w w'" and "keeps_fds w w'"
  shows "dir_open R G p d w'"
proof -
  have "map_option of_fid (w_fds w' p) \<in> {None, map_option of_fid (w_fds w p)}" "p < w_next_fd w'"
    using assms by (auto simp: dir_open_def keeps_fds_def intro: order_less_le_trans)
  moreover have "frozen G w'"
    by (rule frozen_cong [of G w]) (use assms in \<open>auto simp: dir_open_def same_files_def contents_def\<close>)
  moreover have "quiet R w'" using assms quiet_read unfolding dir_open_def by blast
  ultimately show ?thesis
    using assms by (auto simp: dir_open_def same_files_def)
qed

lemma dir_open_quiet: "dir_open R G p d w \<Longrightarrow> quiet R w"
  by (simp add: dir_open_def)

lemma stable_kept: "stable R (kept R G p d n X)"
  unfolding stable_def kept_def by (blast intro: dir_open_same at_name_same dir_open_quiet)

lemma stable_both: "stable R (both R G p d n e tmp t c)"
  unfolding stable_def both_def by (blast intro: dir_open_same at_name_same dir_open_quiet)

lemma triple_looks:
  assumes l: "looks R m" and "\<And>w. P w \<Longrightarrow> quiet R w" and "\<And>w w'. P w \<Longrightarrow> same_view R w w' \<Longrightarrow> P w'"
  shows "triple P m (\<lambda>_. P) (\<lambda>_. P)"
  using assms unfolding looks_def by (intro tripleI) (metis snd_conv)+

section \<open>Changing\<close>

text \<open>A call on an open directory, from the call to its effect.\<close>

lemma dir_open_view: "dir_open R G p d w \<Longrightarrow> same_view R w w' \<Longrightarrow> dir_open R G p d w'"
  using dir_open_same view_keeps_fds dir_open_quiet unfolding same_view_def by blast

lemma dir_before_call: "dir_open R G p d w \<Longrightarrow> dir_open R G p d (before_call w)"
  using dir_open_view view_before_call dir_open_quiet by blast

lemma dir_killed: "dir_open R G p d w \<Longrightarrow> dir_open R G p d (killed_world w)"
  using dir_open_view view_killed by blast

lemma stable_call:
  assumes "stable R P" and "P w"
  shows "P (before_call w)" "P (killed_world w)"
proof -
  have q: "quiet R w" using assms by (simp add: stable_def)
  have "same_files R w (before_call w)" "same_files R w (killed_world w)"
    using view_before_call [OF q] view_killed [of R w] by (simp_all add: same_view_def)
  then show "P (before_call w)" "P (killed_world w)"
    using assms view_keeps_fds [OF q view_before_call [OF q]] view_keeps_fds [OF q view_killed]
    unfolding stable_def by blast+
qed

lemma triple_on_dir:
  assumes open_d: "\<And>w. P w \<Longrightarrow> dir_open R G p d w"
    and st: "stable R P" and err: "\<And>w e. P w \<Longrightarrow> E e w"
    and run: "\<And>t w. P w \<Longrightarrow> t_fid t \<in> R \<Longrightarrow> case f t d w of (Inr x, w') \<Rightarrow> Q x w' | (Inl e, w') \<Rightarrow> E e w'"
  shows "triple P (on_dir p f) Q E"
proof -
  note kill = stable_call(2) [OF st] and before = stable_call(1) [OF st]
  have fid: "t_fid (turn_of w) \<in> R" if "P w" for w
    using open_d [OF that] by (simp add: dir_open_def quiet_def turn_of_def)
  have r: "(f (turn_of w) d (before_call w) = (Inr x, w') \<longrightarrow> Q x w') \<and> (f (turn_of w) d (before_call w) = (Inl e, w') \<longrightarrow> E e w')"
    if "P w" for w x e w'
    using run [OF before [OF that] fid [OF that]] by auto
  have d: "of_fid o' = d" if "P w" "fd_inode (before_call w) p = Some (o', i)" for w o' i
    using open_d [OF before [OF that(1)]] that(2) by (auto simp: dir_open_def fd_inode_Some)
  show ?thesis
    unfolding on_dir_def on_fd_def
    by (rule triple_sys_call)
      (use kill before err r d in \<open>auto split: option.split_asm if_split_asm\<close>)
qed

lemma lookup_set_entry [simp]:
  "lookup (set_entry d n f fs) d' m = (if d' = d \<and> map_option in_kind (fs d) = Some Directory \<and> m = n then Some f else lookup fs d' m)"
  by (auto simp: lookup_def set_entry_def update_inode_def update_conv' split: option.split)

lemma lookup_remove_entry [simp]:
  "lookup (remove_entry d n fs) d' m = (if d' = d \<and> m = n then None else lookup fs d' m)"
  by (auto simp: lookup_def remove_entry_def update_inode_def delete_conv' split: option.split)

lemma lookup_add_links [simp]: "lookup (add_links f g fs) d n = lookup fs d n"
  by (auto simp: lookup_def add_links_def update_inode_def split: option.split)

lemma data_entries [simp]:
  "map_option in_data (set_entry d n f fs g) = map_option in_data (fs g)"
  "map_option in_data (remove_entry d n fs g) = map_option in_data (fs g)"
  "map_option in_data (add_links f h fs g) = map_option in_data (fs g)"
  by (auto simp: set_entry_def remove_entry_def add_links_def update_inode_def split: option.split)

lemma kind_entries [simp]:
  "map_option in_kind (set_entry d n f fs g) = map_option in_kind (fs g)"
  "map_option in_kind (remove_entry d n fs g) = map_option in_kind (fs g)"
  "map_option in_kind (add_links f h fs g) = map_option in_kind (fs g)"
  by (auto simp: set_entry_def remove_entry_def add_links_def update_inode_def split: option.split)


lemma with_files_simps [simp]:
  "w_files (with_files g w) = g (w_files w)" "w_fds (with_files g w) = w_fds w"
  "w_next_fd (with_files g w) = w_next_fd w" "w_root (with_files g w) = w_root w" "quiet R (with_files g w) = quiet R w"
  by (simp_all add: with_files_def quiet_def)

lemma contents_simps [simp]:
  "g \<noteq> d \<Longrightarrow> contents (set_entry d n f fs) g = contents fs g"
  "g \<noteq> d \<Longrightarrow> contents (remove_entry d n fs) g = contents fs g"
  "contents (add_links f h fs) g = contents fs g"
  "g \<noteq> f \<Longrightarrow> contents (fs(f \<mapsto> i)) g = contents fs g"
  "g \<noteq> f \<Longrightarrow> contents (update_inode f k fs) g = contents fs g"
  by (auto simp: contents_def set_entry_def remove_entry_def add_links_def update_inode_def split: option.split)

lemma contents_None: "contents fs g = None \<longleftrightarrow> fs g = None"
  by (simp add: contents_def)

lemma frozen_present: "frozen G w \<Longrightarrow> w_files w f = None \<Longrightarrow> f \<notin> files_in G"
proof
  assume "frozen G w" "w_files w f = None" "f \<in> files_in G"
  then have "contents (w_files w) f = snd G f" by (simp add: frozen_def)
  moreover have "contents (w_files w) f = None" using \<open>w_files w f = None\<close> by (simp add: contents_None)
  ultimately have "snd G f = None" by simp
  with \<open>f \<in> files_in G\<close> show False by auto
qed

lemma dir_open_with_files:
  assumes "dir_open R G p d w" and "map_option in_kind (g (w_files w) d) = map_option in_kind (w_files w d)"
    and "\<And>x. x \<in> files_in G \<Longrightarrow> contents (g (w_files w)) x = contents (w_files w) x"
  shows "dir_open R G p d (with_files g w)"
proof -
  have "frozen G (with_files g w)"
    by (rule frozen_cong [of G w]) (use assms in \<open>auto simp: dir_open_def\<close>)
  then show ?thesis using assms(1,2) by (simp add: dir_open_def)
qed

lemma dir_not_frozen: "dir_open R G p d w \<Longrightarrow> x \<in> files_in G \<Longrightarrow> x \<noteq> d"
  by (auto simp: dir_open_def)

lemma dir_open_new_fd:
  assumes "dir_open R G p d w"
  shows "dir_open R G p d (snd (new_fd f a w))"
proof -
  have q: "quiet R (snd (new_fd f a w))"
    using keeps_new_fd quiet_read dir_open_quiet [OF assms] by blast
  then show ?thesis using assms by (auto simp: dir_open_def new_fd_def)
qed

lemma at_name_files: "w_files w' = w_files w \<Longrightarrow> at_name R G d n e w' = at_name R G d n e w"
  by (simp add: at_name_def)

lemma new_fd_files [simp]: "w_files (snd (new_fd f a w)) = w_files w"
  by (simp add: new_fd_def)

text \<open>A new file at a name that was free.\<close>

definition with_new_file :: "fid \<Rightarrow> pystr \<Rightarrow> fid \<Rightarrow> nat \<Rightarrow> world \<Rightarrow> world" where
  "with_new_file d m t mode w =
     with_files (\<lambda>fs. (set_entry d m t fs)(t \<mapsto> new_inode Regular (created_mode (w_umask w) mode) (w_uid w))) w"

lemma new_file_effects:
  assumes o': "dir_open R G p d w" and t: "w_files w t = None"
  shows "dir_open R G p d (with_new_file d m t mode w)"
    "lookup (w_files (with_new_file d m t mode w)) d x = (if x = m then Some t else lookup (w_files w) d x)"
    "map_option in_data (w_files (with_new_file d m t mode w) f) = (if f = t then Some [] else map_option in_data (w_files w f))"
    "t \<notin> files_in G" "t \<noteq> d"
proof -
  let ?g = "\<lambda>fs. (set_entry d m t fs)(t \<mapsto> new_inode Regular (created_mode (w_umask w) mode) (w_uid w))"
  show n: "t \<noteq> d" using o' t by (auto simp: dir_open_def)
  show fz: "t \<notin> files_in G" using o' t frozen_present [of G w t] by (simp add: dir_open_def)
  show "dir_open R G p d (with_new_file d m t mode w)"
    unfolding with_new_file_def
  proof (rule dir_open_with_files [OF o'])
    show "map_option in_kind (?g (w_files w) d) = map_option in_kind (w_files w d)" using n by simp
    fix x
    assume "x \<in> files_in G"
    then have "x \<noteq> d" "x \<noteq> t" using fz dir_not_frozen [OF o'] by blast+
    then show "contents (?g (w_files w)) x = contents (w_files w) x" by simp
  qed
  show "lookup (w_files (with_new_file d m t mode w)) d x = (if x = m then Some t else lookup (w_files w) d x)"
    using o' n lookup_set_entry [of d m t "w_files w" d x]
    by (simp add: with_new_file_def lookup_def dir_open_def)
  show "map_option in_data (w_files (with_new_file d m t mode w) f) = (if f = t then Some [] else map_option in_data (w_files w f))"
    by (cases "f = t") (simp_all add: with_new_file_def new_inode_def)
qed

lemma new_file_at:
  assumes o': "dir_open R G p d w" and t: "w_files w t = None" "t \<in> R"
  shows "at_name R G d m (Some (t, [])) (with_new_file d m t mode w)"
  unfolding at_name_def new_file_effects(2,3) [OF o' t(1)]
  using new_file_effects(4,5) [OF o' t(1)] o' t(2) by (simp add: dir_open_def)

lemma open_in_new:
  assumes "lookup (w_files w) d m = None" and "w_files w (t_fid t) = None" and "O_CREAT \<in> set flags"
  shows "open_in flags mode m t d w = new_fd (t_fid t) (O_APPEND \<in> set flags) (with_new_file d m (t_fid t) mode w)"
  using assms by (simp add: open_in_def with_new_file_def)

lemma triple_open_new:
  assumes "tmp \<noteq> n"
  shows "triple (kept R G p d n ((=) e)) (os_open_at [O_WRONLY, O_CREAT, O_EXCL] mode p tmp)
    (\<lambda>fd w. \<exists>t. both R G p d n e tmp t [] w \<and> writes_to fd t 0 w) (\<lambda>_. kept R G p d n ((=) e))"
  unfolding os_open_at_def
proof (rule triple_on_dir)
  fix t :: turn and w
  assume P: "kept R G p d n ((=) e) w" and r: "t_fid t \<in> R"
  have k: "dir_open R G p d w" "at_name R G d n e w" using P by (auto simp: kept_def)
  show "case open_in [O_WRONLY, O_CREAT, O_EXCL] mode tmp t d w of
      (Inr fd, w') \<Rightarrow> \<exists>t. both R G p d n e tmp t [] w' \<and> writes_to fd t 0 w' | (Inl x, w') \<Rightarrow> kept R G p d n ((=) e) w'"
  proof (cases "lookup (w_files w) d tmp = None \<and> w_files w (t_fid t) = None")
    case False
    then show ?thesis using P by (auto simp: open_in_def split: option.split)
  next
    case True
    then have free: "lookup (w_files w) d tmp = None" "w_files w (t_fid t) = None" by simp_all
    let ?w = "with_new_file d tmp (t_fid t) mode w"
    note eff = new_file_effects [OF k(1) free(2)]
    have n: "\<And>f c. e = Some (f, c) \<Longrightarrow> f \<noteq> t_fid t"
      using free k by (auto simp: at_name_def)
    have "dir_open R G p d (snd (new_fd (t_fid t) False ?w))" by (rule dir_open_new_fd [OF eff(1)])
    moreover have "at_name R G d n e ?w"
      unfolding at_name_def eff(2,3) using k n assms by (cases e) (auto simp: at_name_def)
    ultimately have "both R G p d n e tmp (t_fid t) [] (snd (new_fd (t_fid t) False ?w))"
      using n new_file_at [OF k(1) free(2) r] at_name_files [of "snd (new_fd (t_fid t) False ?w)" ?w] by (auto simp: both_def)
    moreover have "open_in [O_WRONLY, O_CREAT, O_EXCL] mode tmp t d w = new_fd (t_fid t) False ?w"
      by (simp add: open_in_new [OF free])
    moreover have "fst (new_fd (t_fid t) False ?w) = Inr (w_next_fd ?w)"
      "writes_to (w_next_fd ?w) (t_fid t) 0 (snd (new_fd (t_fid t) False ?w))"
      by (simp_all add: new_fd_def writes_to_def)
    ultimately show ?thesis by (cases "new_fd (t_fid t) False ?w") auto
  qed
qed (auto simp: kept_def intro: stable_kept)

text \<open>Calls on the names.\<close>

lemma triple_on_entry:
  assumes "\<And>w. P w \<Longrightarrow> dir_open R G p d w"
    and "stable R P" and "\<And>w e. P w \<Longrightarrow> E e w"
    and "\<And>t g i w. P w \<Longrightarrow> lookup (w_files w) d name = Some g \<Longrightarrow> w_files w g = Some i \<Longrightarrow>
        case f t d g i w of (Inr x, w') \<Rightarrow> Q x w' | (Inl e, w') \<Rightarrow> E e w'"
  shows "triple P (on_entry p name f) Q E"
  unfolding on_entry_def
  by (rule triple_on_dir [OF assms(1-3)]) (use assms(3,4) in \<open>auto split: option.split\<close>)

lemma at_name_move:
  assumes "at_name R G d n e w" and "lookup (g (w_files w)) d m = map_option fst e"
    and "\<And>f. map_option in_data (g (w_files w) f) = map_option in_data (w_files w f)"
  shows "at_name R G d m e (with_files g w)"
  using assms by (simp add: at_name_def)

lemma both_parts: "both R G p d n e tmp t c w \<Longrightarrow>
    dir_open R G p d w \<and> at_name R G d n e w \<and> at_name R G d tmp (Some (t, c)) w \<and> (\<forall>f b. e = Some (f, b) \<longrightarrow> f \<noteq> t)"
  by (simp add: both_def)

lemma triple_unlink:
  assumes "tmp \<noteq> n"
  shows "triple (kept R G p d n X) (os_unlink_at p tmp) (\<lambda>_. kept R G p d n X) (\<lambda>_. kept R G p d n X)"
  unfolding os_unlink_at_def
proof (rule triple_on_entry)
  fix t :: turn and g i w
  assume P: "kept R G p d n X w"
  let ?w = "with_files (add_links g (\<lambda>n. n - 1) \<circ> remove_entry d tmp) w"
  obtain e where e: "X e" "at_name R G d n e w" and o': "dir_open R G p d w" using P by (auto simp: kept_def)
  have "at_name R G d n e ?w"
    by (rule at_name_move [OF e(2)]) (use e(2) assms in \<open>simp_all add: at_name_def\<close>)
  moreover have "dir_open R G p d ?w"
    by (rule dir_open_with_files [OF o']) (use dir_not_frozen [OF o'] in simp_all)
  ultimately have "kept R G p d n X ?w" using e(1) by (auto simp: kept_def)
  then show "case if in_kind i = Directory then (Inl (OSError ''EISDIR''), w) else (Inr (), ?w) of
      (Inr x, w') \<Rightarrow> kept R G p d n X w' | (Inl e, w') \<Rightarrow> kept R G p d n X w'"
    using P by simp
qed (auto simp: kept_def intro: stable_kept)

lemma triple_exchange:
  "triple (both R G p d n (Some (f, c)) tmp t b) (renameat2_exchange p tmp n)
     (\<lambda>_. both R G p d n (Some (t, b)) tmp f c) (\<lambda>_. both R G p d n (Some (f, c)) tmp t b)"
  unfolding renameat2_exchange_def
proof (rule triple_on_entry)
  fix u :: turn and g i w
  assume P: "both R G p d n (Some (f, c)) tmp t b w" and g: "lookup (w_files w) d tmp = Some g"
  note k = both_parts [OF P]
  let ?w = "with_files (set_entry d n t \<circ> set_entry d tmp f) w"
  have l: "lookup (w_files w) d n = Some f" "g = t" "map_option in_kind (w_files w d) = Some Directory"
    "tmp \<noteq> n"
    using k g by (auto simp: at_name_def dir_open_def)
  have "at_name R G d n (Some (t, b)) ?w" "at_name R G d tmp (Some (f, c)) ?w"
    by (rule at_name_move [of R G d tmp], use k l in simp_all)
      (rule at_name_move [of R G d n], use k l in simp_all)
  moreover have "dir_open R G p d ?w"
    by (rule dir_open_with_files) (use k dir_not_frozen [of R G p d w] in simp_all)
  ultimately have "both R G p d n (Some (t, b)) tmp f c ?w" using k by (auto simp: both_def)
  then show "case case lookup (w_files w) d n of
        None \<Rightarrow> (Inl FileNotFoundError, w)
      | Some h \<Rightarrow> (Inr (), with_files (set_entry d n g \<circ> set_entry d tmp h) w) of
      (Inr x, w') \<Rightarrow> both R G p d n (Some (t, b)) tmp f c w' | (Inl e, w') \<Rightarrow> both R G p d n (Some (f, c)) tmp t b w'"
    using l by simp
qed (auto simp: both_def intro: stable_both)

lemma triple_link:
  "triple (both R G p d n None tmp t b) (os_link_at p tmp n)
     (\<lambda>_. kept R G p d n ((=) (Some (t, b)))) (\<lambda>_. both R G p d n None tmp t b)"
  unfolding os_link_at_def
proof (rule triple_on_entry)
  fix u :: turn and g i w
  assume P: "both R G p d n None tmp t b w" and g: "lookup (w_files w) d tmp = Some g"
  note k = both_parts [OF P]
  let ?w = "with_files (add_links t Suc \<circ> set_entry d n t) w"
  have l: "lookup (w_files w) d n = None" "g = t" "map_option in_kind (w_files w d) = Some Directory"
    using k g by (auto simp: at_name_def dir_open_def)
  have "at_name R G d n (Some (t, b)) ?w"
    by (rule at_name_move [of R G d tmp]) (use k l in simp_all)
  moreover have "dir_open R G p d ?w"
    by (rule dir_open_with_files) (use k dir_not_frozen [of R G p d w] in simp_all)
  ultimately have "kept R G p d n ((=) (Some (t, b))) ?w" by (auto simp: kept_def)
  then show "case if in_kind i = Directory then (Inl (PermissionError ''EPERM''), w)
      else if lookup (w_files w) d n \<noteq> None then (Inl (FileExistsError ''File exists''), w)
      else (Inr (), with_files (add_links g Suc \<circ> set_entry d n g) w) of
      (Inr x, w') \<Rightarrow> kept R G p d n ((=) (Some (t, b))) w' | (Inl e, w') \<Rightarrow> both R G p d n None tmp t b w'"
    using P l by simp
qed (auto simp: both_def intro: stable_both)

section \<open>Filling a new file\<close>

definition filling :: "fid set \<Rightarrow> snapshot_files \<Rightarrow> nat \<Rightarrow> fid \<Rightarrow> pystr \<Rightarrow> (fid \<times> bytes) option \<Rightarrow> pystr \<Rightarrow> fid \<Rightarrow> nat \<Rightarrow> bytes \<Rightarrow> world \<Rightarrow> bool" where
  "filling R G p d n e tmp t fd c w \<longleftrightarrow> both R G p d n e tmp t c w \<and> writes_to fd t (length c) w"

lemma filling_both: "filling R G p d n e tmp t fd c w \<Longrightarrow> both R G p d n e tmp t c w"
  by (simp add: filling_def)

lemma filling_view:
  assumes "filling R G p d n e tmp t fd c w" and "same_view R w w'"
  shows "filling R G p d n e tmp t fd c w'"
proof -
  have "quiet R w" using assms(1) by (simp add: filling_def both_def dir_open_def)
  then have "both R G p d n e tmp t c w'"
    using assms stable_both view_keeps_fds unfolding filling_def stable_def same_view_def by blast
  then show ?thesis using assms by (simp add: filling_def writes_to_def same_view_def)
qed

lemma filling_kept: "filling R G p d n e tmp t fd c w \<Longrightarrow> kept R G p d n ((=) e) w"
  by (auto simp: filling_def intro: both_kept)

lemma filling_quiet: "filling R G p d n e tmp t fd c w \<Longrightarrow> quiet R w"
  by (simp add: filling_def both_def dir_open_def)

lemma triple_filling_looks:
  "looks R m \<Longrightarrow> triple (filling R G p d n e tmp t fd c) m (\<lambda>_. filling R G p d n e tmp t fd c) (\<lambda>_. kept R G p d n ((=) e))"
  by (rule triple_conseq [where P' = "filling R G p d n e tmp t fd c", OF triple_looks])
    (blast intro: filling_quiet filling_view filling_kept)+

text \<open>A call on the descriptor that is being written to.\<close>

lemma triple_filling_call:
  assumes run: "\<And>u o' i w. filling R G p d n e tmp t fd c w \<Longrightarrow> w_fds w fd = Some o' \<Longrightarrow> of_fid o' = t \<Longrightarrow> of_offset o' = length c \<Longrightarrow>
      \<not> of_append o' \<Longrightarrow> w_files w t = Some i \<Longrightarrow> in_data i = c \<Longrightarrow>
      case f u o' i w of (Inr x, w') \<Rightarrow> Q x w' | (Inl x, w') \<Rightarrow> False"
  shows "triple (filling R G p d n e tmp t fd c) (on_fd fd f) Q (\<lambda>_. kept R G p d n ((=) e))"
proof -
  have b: "filling R G p d n e tmp t fd c (before_call w)" and k: "filling R G p d n e tmp t fd c (killed_world w)"
    if "filling R G p d n e tmp t fd c w" for w
    using filling_view [OF that] view_before_call [OF filling_quiet [OF that]] view_killed by blast+
  have r: "\<exists>o' i. fd_inode (before_call w) fd = Some (o', i)
      \<and> (case f (turn_of w) o' i (before_call w) of (Inr x, w') \<Rightarrow> Q x w' | (Inl x, w') \<Rightarrow> False)"
    if "filling R G p d n e tmp t fd c w" for w
  proof -
    note bw = b [OF that]
    obtain o' where o': "w_fds (before_call w) fd = Some o'" "of_fid o' = t" "of_offset o' = length c" "\<not> of_append o'"
      using bw by (auto simp: filling_def writes_to_def)
    obtain i where i: "w_files (before_call w) t = Some i" "in_data i = c"
      using bw by (auto simp: filling_def both_def at_name_def)
    show ?thesis using run [OF b [OF that] o' i(1,2)] o' i by (auto simp: fd_inode_Some)
  qed
  show ?thesis
    unfolding on_fd_def
    by (rule triple_sys_call) (use k b filling_kept r in \<open>fastforce split: option.split_asm\<close>)+
qed

lemma update_inode_at: "map_option in_data (update_inode t h fs f) = (if f = t then map_option (in_data \<circ> h) (fs t) else map_option in_data (fs f))"
  by (simp add: update_inode_def option.map_comp split: option.split)

lemma lookup_update_inode: "d \<noteq> t \<Longrightarrow> lookup (update_inode t h fs) d n = lookup fs d n"
  by (simp add: lookup_def update_inode_def split: option.split)

text \<open>The file being written gets the content \<open>b\<close>, its descriptor a new offset.\<close>

lemma filling_update:
  assumes f: "filling R G p d n e tmp t fd c w" and fd: "w_fds w fd = Some o'" "of_fid o'' = t" "of_offset o'' = length b" "\<not> of_append o''"
    and i: "w_files w t = Some i" "in_data (h i) = b"
  shows "filling R G p d n e tmp t fd b ((with_files (update_inode t h) w)\<lparr>w_fds := (w_fds w)(fd \<mapsto> o'')\<rparr>)"
proof -
  let ?w = "(with_files (update_inode t h) w)\<lparr>w_fds := (w_fds w)(fd \<mapsto> o'')\<rparr>"
  note k = both_parts [OF filling_both [OF f]]
  have t: "t \<noteq> d" "of_fid o' = t" using f fd(1) by (auto simp: filling_def both_def at_name_def writes_to_def)
  have nf: "t \<notin> files_in G" using k by (auto simp: at_name_def)
  have "dir_open R G p d (with_files (update_inode t h) w)"
  proof (rule dir_open_with_files)
    show "dir_open R G p d w" using k by simp
    show "map_option in_kind (update_inode t h (w_files w) d) = map_option in_kind (w_files w d)"
      using t by (simp add: update_inode_def split: option.split)
    show "contents (update_inode t h (w_files w)) x = contents (w_files w) x" if "x \<in> files_in G" for x
      using that nf by (intro contents_simps) blast
  qed
  then have "dir_open R G p d ?w"
    using fd t by (auto simp: dir_open_def quiet_def)
  moreover have "w_files ?w = update_inode t h (w_files w)" by simp
  then have "at_name R G d n e ?w" "at_name R G d tmp (Some (t, b)) ?w"
    unfolding at_name_def using k t i
    by (auto simp: at_name_def update_inode_at lookup_update_inode)
  moreover have "writes_to fd t (length b) ?w" using fd by (simp add: writes_to_def)
  ultimately show ?thesis using k by (auto simp: filling_def both_def)
qed

lemma splice_end: "splice (length c) b c = c @ b"
  by (simp add: splice_def)

lemma triple_write:
  "triple (filling R G p d n e tmp t fd c) (os_write fd b)
     (\<lambda>k. filling R G p d n e tmp t fd (c @ take k b)) (\<lambda>_. kept R G p d n ((=) e))"
  unfolding os_write_def
proof (rule triple_filling_call)
  fix u o' i w
  assume f: "filling R G p d n e tmp t fd c w" and fd: "w_fds w fd = Some o'" "of_fid o' = t" "of_offset o' = length c"
    "\<not> of_append o'" and i: "w_files w t = Some i" "in_data i = c"
  have le: "transfer u (length b) \<le> length b" by (simp add: transfer_def split: option.split)
  show "case let n = transfer u (length b); k = if of_append o' then length (in_data i) else of_offset o'
      in (Inr n, (with_files (update_inode (of_fid o') (\<lambda>j. j\<lparr>in_data := splice k (take n b) (in_data j)\<rparr>)) w)
           \<lparr>w_fds := (w_fds w)(fd \<mapsto> o'\<lparr>of_offset := k + n\<rparr>)\<rparr>) of
      (Inr x, w') \<Rightarrow> filling R G p d n e tmp t fd (c @ take x b) w' | (Inl x, w') \<Rightarrow> False"
    using filling_update [OF f fd(1), of "o'\<lparr>of_offset := length c + transfer u (length b)\<rparr>" "c @ take (transfer u (length b)) b"
        i "\<lambda>j. j\<lparr>in_data := splice (length c) (take (transfer u (length b)) b) (in_data j)\<rparr>"] fd i le
    by (simp add: Let_def splice_end)
qed

lemma write_all_step:
  "write_all err fd b = (if b = [] then ret () else bind (os_write fd b) (\<lambda>k. if k = 0 then raise err else write_all err fd (drop k b)))"
  by (rule ext, subst write_all.simps) (simp add: ret_def bind_def raise_def split: prod.split sum.split)

lemma triple_write_all:
  "triple (filling R G p d n e tmp t fd c) (write_all err fd b)
     (\<lambda>_. filling R G p d n e tmp t fd (c @ b)) (\<lambda>_. kept R G p d n ((=) e))"
proof (induction "length b" arbitrary: b c rule: less_induct)
  case less
  show ?case
  proof (cases "b = []")
    case True
    then show ?thesis using write_all_step [of err fd b] by (simp add: triple_ret)
  next
    case False
    have "triple (filling R G p d n e tmp t fd (c @ take k b)) (if k = 0 then raise err else write_all err fd (drop k b))
        (\<lambda>_. filling R G p d n e tmp t fd (c @ b)) (\<lambda>_. kept R G p d n ((=) e))" for k
    proof (cases "k = 0")
      case True
      then show ?thesis using filling_kept by (simp add: triple_raise)
    next
      case k: False
      with False have "length (drop k b) < length b" by simp
      from less [OF this, of "c @ take k b"] k show ?thesis by simp
    qed
    then show ?thesis
      unfolding write_all_step [of err fd b] if_not_P [OF False] by (rule triple_bind [OF triple_write])
  qed
qed

lemma triple_fchmod:
  "triple (filling R G p d n e tmp t fd c) (os_fchmod fd mode) (\<lambda>_. filling R G p d n e tmp t fd c) (\<lambda>_. kept R G p d n ((=) e))"
  unfolding os_fchmod_def
proof (rule triple_filling_call)
  fix u :: turn and o' i w
  assume f: "filling R G p d n e tmp t fd c w" and fd: "w_fds w fd = Some o'" "of_fid o' = t" "of_offset o' = length c"
    "\<not> of_append o'" and i: "w_files w t = Some i" "in_data i = c"
  let ?w = "with_files (update_inode t (\<lambda>j. j\<lparr>in_mode := mode\<rparr>)) w"
  have "?w\<lparr>w_fds := (w_fds w)(fd \<mapsto> o')\<rparr> = ?w"
    using fd(1) by (simp add: with_files_def fun_upd_idem)
  then show "case (Inr (), with_files (update_inode (of_fid o') (\<lambda>j. j\<lparr>in_mode := mode\<rparr>)) w) of
      (Inr x, w') \<Rightarrow> filling R G p d n e tmp t fd c w' | (Inl x, w') \<Rightarrow> False"
    using filling_update [OF f fd(1) fd(2-4) i(1), of "\<lambda>j. j\<lparr>in_mode := mode\<rparr>"] fd(2) i by simp
qed

end
