(* ===== verification/Publish_Safety.thy ===== *)
theory Publish_Safety
  imports Publish_Logic
begin

text \<open>
  What \<open>_publish_new\<close> and \<open>_atomic_replace\<close> of \<open>src/agent_container/family_pending.py\<close> do to
  the name of a record: at every moment, also when a call fails or the process is killed, the
  name leads to the old content or to the whole new content, and to the new one on success.
\<close>

section \<open>The functions that only read\<close>

lemma reads_entry_stat [read_intros]: "reads R (entry_stat p n)"
  unfolding entry_stat_def by (intro read_intros)

lemma reads_validate_private_file [read_intros]: "reads R (validate_private_file s)"
  unfolding validate_private_file_def by (intro read_intros)

lemma reads_open_private_file [read_intros]: "reads R (open_private_file p n)"
  unfolding open_private_file_def by (intro read_intros) simp

lemma reads_map_option_stat [read_intros]:
  "reads R m \<Longrightarrow> reads R (try_except (bind m (\<lambda>_. ret True)) (\<lambda>e. if e = x then ret False else raise e))"
  by (intro read_intros)

lemma reads_inventory [read_intros]: "reads R (inventory p)"
proof -
  have e: "reads R (inventory_entry p n seen)" for n seen
    unfolding inventory_entry_def by (intro read_intros)
  have "reads R (inventory_entries p ns seen)" for ns seen
    by (induction ns arbitrary: seen) (auto intro: read_intros e)
  then show ?thesis unfolding inventory_def by (intro read_intros)
qed

lemma reads_prove_cleanup [read_intros]: "reads R (prove_cleanup p tmp fd s k)"
  unfolding prove_cleanup_def by (intro read_intros)

lemma reads_temporary_name [read_intros]: "reads R (temporary_name n)"
  unfolding temporary_name_def token_hex_def by (intro read_intros)

lemma temporary_name_fresh: "temporary_name n w = (Inr tmp, w') \<Longrightarrow> tmp \<noteq> n"
proof -
  assume "temporary_name n w = (Inr tmp, w')"
  then obtain t where "tmp = u ''.'' @ n @ u ''.'' @ t"
    by (auto simp: temporary_name_def token_hex_def bind_def ret_def split: prod.split_asm sum.split_asm)
  then have "length n < length tmp" by (simp add: u_def)
  then show ?thesis by auto
qed

lemma triple_temporary_name:
  assumes "\<And>w. kept R G p d n X w \<Longrightarrow> F w"
  shows "triple (kept R G p d n X) (temporary_name n) (\<lambda>tmp w. tmp \<noteq> n \<and> kept R G p d n X w) (\<lambda>_. F)"
proof (rule tripleI)
  note k = triple_reads [OF reads_temporary_name stable_kept]
  fix w x t e
  assume w: "kept R G p d n X w"
  show "temporary_name n w = (Inr x, t) \<Longrightarrow> x \<noteq> n \<and> kept R G p d n X t"
    using temporary_name_fresh tripleD [OF k _ w] by blast
  show "temporary_name n w = (Inl e, t) \<Longrightarrow> F t"
    using triple_errorD [OF k _ w] assms by blast
qed

section \<open>The local variables\<close>

text \<open>What the clean-up may remove is never the name itself.\<close>

definition safe_locals :: "pystr \<Rightarrow> publish_locals \<Rightarrow> bool" where
  "safe_locals n l \<longleftrightarrow> (\<forall>x. pl_temporary l = Some x \<longrightarrow> fst x \<noteq> n)"

definition under :: "pystr \<Rightarrow> (world \<Rightarrow> bool) \<Rightarrow> publish_locals \<times> world \<Rightarrow> bool" where
  "under n P s \<longleftrightarrow> safe_locals n (fst s) \<and> P (snd s)"

lemma triple_under:
  assumes "triple P m Q E"
  shows "triple (under n P) (sys m) (\<lambda>x. under n (Q x)) (\<lambda>e. under n (E e))"
  by (rule triple_sys, rule tripleI) (auto simp: under_def dest: tripleD [OF assms] triple_errorD [OF assms])

lemma triple_assign_under:
  assumes "\<And>l. safe_locals n l \<Longrightarrow> safe_locals n (f l)"
  shows "triple (under n P) (assign f) (\<lambda>_. under n P) E"
  by (rule triple_assign) (use assms in \<open>simp add: under_def\<close>)

lemma triple_under_reads:
  assumes "reads R m" and "stable R P" and "\<And>w. P w \<Longrightarrow> F w"
  shows "triple (under n P) (sys m) (\<lambda>_. under n P) (\<lambda>_. under n F)"
  by (rule triple_conseq [OF triple_under [OF triple_reads [OF assms(1,2)]]]) (use assms(3) in \<open>auto simp: under_def\<close>)

lemma triple_under_check:
  assumes "\<And>w. P w \<Longrightarrow> F w"
  shows "triple (under n P) (check b e) (\<lambda>_. under n P) (\<lambda>_. under n F)"
  by (rule triple_check) (use assms in \<open>auto simp: under_def\<close>)

text \<open>The steps of a sequence, with the weaker fact \<open>F\<close> that holds when it is left.\<close>

lemma bind_reads:
  assumes "reads R m" and "stable R P" and "\<And>w. P w \<Longrightarrow> F w"
    and "\<And>x. triple (under n P) (f x) Q (\<lambda>_. under n F)"
  shows "triple (under n P) (bind (sys m) f) Q (\<lambda>_. under n F)"
  by (rule triple_bind [OF triple_under_reads [OF assms(1-3)] assms(4)])

lemma bind_check:
  assumes "\<And>w. P w \<Longrightarrow> F w" and "\<And>x. triple (under n P) (f x) Q (\<lambda>_. under n F)"
  shows "triple (under n P) (bind (check b e) f) Q (\<lambda>_. under n F)"
  by (rule triple_bind [OF triple_under_check [OF assms(1)] assms(2)])

lemma bind_assign:
  assumes "\<And>l. safe_locals n l \<Longrightarrow> safe_locals n (g l)" and "\<And>x. triple (under n P) (f x) Q E"
  shows "triple (under n P) (bind (assign g) f) Q E"
  by (rule triple_bind [OF triple_assign_under [OF assms(1)] assms(2)])

lemma bind_under:
  assumes "triple P m (\<lambda>_. P') (\<lambda>_. P'')" and "\<And>w. P'' w \<Longrightarrow> F w"
    and "\<And>x. triple (under n P') (f x) Q (\<lambda>_. under n F)"
  shows "triple (under n P) (bind (sys m) f) Q (\<lambda>_. under n F)"
proof (rule triple_bind [OF _ assms(3)])
  show "triple (under n P) (sys m) (\<lambda>_. under n P') (\<lambda>_. under n F)"
    by (rule triple_conseq [OF triple_under [OF assms(1)]]) (auto simp: under_def assms(2))
qed

section \<open>Clean-up\<close>

lemma triple_unlink_owned:
  assumes "tmp \<noteq> n"
  shows "triple (kept R G p d n X) (unlink_owned p tmp s) (\<lambda>_. kept R G p d n X) (\<lambda>_. kept R G p d n X)"
  unfolding unlink_owned_def
proof (rule triple_bind)
  show "triple (kept R G p d n X) (try_except (bind (os_stat_at p tmp) (\<lambda>s. ret (Some s)))
      (\<lambda>e. if e = FileNotFoundError then ret None else raise e)) (\<lambda>_. kept R G p d n X) (\<lambda>_. kept R G p d n X)"
    by (rule triple_reads [OF _ stable_kept]) (intro read_intros)
  show "triple (kept R G p d n X) (case c of None \<Rightarrow> ret () | Some s' \<Rightarrow> if same_inode s' s then os_unlink_at p tmp else ret ())
      (\<lambda>_. kept R G p d n X) (\<lambda>_. kept R G p d n X)" for c
    by (cases c) (auto intro: triple_ret triple_unlink [OF assms])
qed

lemma triple_locals_under:
  assumes "\<And>l. safe_locals n l \<Longrightarrow> triple (under n P) (f l) Q E"
  shows "triple (under n P) (locals f) Q E"
proof (rule triple_locals)
  fix l
  show "triple (\<lambda>s. under n P s \<and> fst s = l) (f l) Q E"
  proof (cases "safe_locals n l")
    case True
    show ?thesis by (rule triple_pre [OF assms [OF True]]) simp
  qed (auto simp: triple_def under_def)
qed

text \<open>Programs that keep \<open>P\<close>, whether they return or raise.\<close>

definition keeping :: "('s \<Rightarrow> bool) \<Rightarrow> ('s, 'a) prog \<Rightarrow> bool" where
  "keeping P m \<longleftrightarrow> triple P m (\<lambda>_. P) (\<lambda>_. P)"

lemma keeping_bind: "keeping P m \<Longrightarrow> (\<And>x. keeping P (f x)) \<Longrightarrow> keeping P (bind m f)"
  unfolding keeping_def by (rule triple_bind)

lemma keeping_ret: "keeping P (ret x)"
  unfolding keeping_def by (rule triple_ret)

lemma keeping_if_some: "(\<And>x. v = Some x \<Longrightarrow> keeping P (f x)) \<Longrightarrow> keeping P (if_some v f)"
  unfolding keeping_def by (rule triple_if_some) (auto intro: triple_ret)

lemma keeping_sys_reads: "reads R m \<Longrightarrow> stable R P \<Longrightarrow> keeping (under n P) (sys m)"
  unfolding keeping_def by (rule triple_under_reads)

lemma keeping_publish_cleanup: "keeping (under n (kept R G p d n X)) (publish_cleanup p)"
proof -
  note step = keeping_bind keeping_if_some keeping_sys_reads [OF reads_close stable_kept]
  have un: "keeping (under n (kept R G p d n X)) (sys (unlink_owned p tmp s))" if "tmp \<noteq> n" for tmp s
    unfolding keeping_def by (rule triple_under [OF triple_unlink_owned [OF that]])
  have cl: "keeping (under n (kept R G p d n X)) (if_some v (\<lambda>fd. sys (os_close fd)))" for v
    by (intro step)
  have "keeping (under n (kept R G p d n X))
      (if_some (if pl_published l then None else pl_temporary l) (\<lambda>(tmp, s). sys (unlink_owned p tmp s)))"
    if "safe_locals n l" for l
    using that by (intro keeping_if_some) (auto simp: safe_locals_def split: if_split_asm intro: un)
  then have "keeping (under n (kept R G p d n X)) (bind (if_some (pl_descriptor l) (\<lambda>fd. sys (os_close fd))) (\<lambda>_.
     bind (if_some (pl_displaced l) (\<lambda>fd. sys (os_close fd))) (\<lambda>_.
     bind (if_some (if pl_published l then None else pl_temporary l)
       (\<lambda>(temporary, s). sys (unlink_owned p temporary s))) (\<lambda>_.
     if_some (pl_lock l) (\<lambda>fd. sys (os_close fd))))))" if "safe_locals n l" for l
    using that by (intro keeping_bind cl)
  then show ?thesis
    unfolding publish_cleanup_def keeping_def by (rule triple_locals_under)
qed

text \<open>The scope of the local variables and its clean-up.\<close>

lemma triple_publishing:
  assumes "triple (\<lambda>s. fst s = no_locals \<and> P (snd s)) m (\<lambda>x. under n (kept R G p d n (Q x))) (\<lambda>e. under n (kept R G p d n E))"
  shows "triple P (with_locals no_locals (try_finally m (publish_cleanup p)))
    (\<lambda>x. kept R G p d n (Q x)) (\<lambda>e w. kept R G p d n (\<lambda>c. E c \<or> (\<exists>x. Q x c)) w)"
proof (rule triple_with_locals, rule triple_try_finally)
  show "triple (\<lambda>s. fst s = no_locals \<and> P (snd s)) m (\<lambda>x. under n (kept R G p d n (Q x))) (\<lambda>e. under n (kept R G p d n E))"
    by (rule assms)
  note c = keeping_publish_cleanup [unfolded keeping_def]
  show "triple (under n (kept R G p d n (Q x))) (publish_cleanup p) (\<lambda>_ s. kept R G p d n (Q x) (snd s))
      (\<lambda>e s. kept R G p d n (\<lambda>c. E c \<or> (\<exists>x. Q x c)) (snd s))" for x
    by (rule triple_conseq [OF c]) (auto simp: under_def elim: kept_mono)
  show "triple (under n (kept R G p d n E)) (publish_cleanup p) (\<lambda>_ s. kept R G p d n (\<lambda>c. E c \<or> (\<exists>x. Q x c)) (snd s))
      (\<lambda>e s. kept R G p d n (\<lambda>c. E c \<or> (\<exists>x. Q x c)) (snd s))" for e
    by (rule triple_conseq [OF c]) (auto simp: under_def elim: kept_mono)
qed

section \<open>The temporary file\<close>

lemma triple_write_temporary:
  assumes "tmp \<noteq> n"
  shows "triple (\<lambda>s. fst s = no_locals \<and> kept R G p d n ((=) e) (snd s)) (write_temporary p tmp body)
    (\<lambda>_ s. \<exists>t. under n (both R G p d n e tmp t body) s) (\<lambda>_. under n (kept R G p d n ((=) e)))"
proof -
  let ?F = "\<lambda>t fd c. filling R G p d n e tmp t fd c"
  let ?E = "\<lambda>_ :: exn. under n (kept R G p d n ((=) e))"
  have start: "safe_locals n no_locals" by (simp add: safe_locals_def no_locals_def)
  have look: "triple (under n (?F t fd c)) (sys m) (\<lambda>_. under n (?F t fd c)) ?E" if "looks R m" for t fd c m
    by (rule triple_under [OF triple_filling_looks [OF that]])
  have set: "triple (under n (?F t fd c)) (assign f) (\<lambda>_. under n (?F t fd c)) ?E"
    if "\<And>l. safe_locals n l \<Longrightarrow> safe_locals n (f l)" for t fd c f
    by (rule triple_assign_under [OF that])
  have v: "looks R (validate_private_file s)" for s
    unfolding validate_private_file_def by (intro look_intros)
  have "triple (under n (?F t fd [])) (bind (sys (os_fstat fd)) (\<lambda>s.
       bind (assign (\<lambda>l. l\<lparr>pl_temporary := Some (tmp, s)\<rparr>)) (\<lambda>_.
       bind (sys (os_fchmod fd mode_0600)) (\<lambda>_.
       bind (sys (os_fstat fd)) (\<lambda>s'.
       bind (sys (validate_private_file s')) (\<lambda>_.
       bind (sys (write_all write_error fd body)) (\<lambda>_.
       bind (sys (os_fsync fd)) (\<lambda>_. ret s)))))))) (\<lambda>_. under n (?F t fd body)) ?E" for t fd
    by (rule triple_bind, rule look, rule look_intros, rule triple_bind, rule set, simp add: safe_locals_def assms,
        rule triple_bind, rule triple_under, rule triple_fchmod, rule triple_bind, rule look, rule look_intros,
        rule triple_bind, rule look, rule v, rule triple_bind, rule triple_under, rule triple_write_all,
        unfold append_Nil, rule triple_bind, rule look, rule look_intros, rule triple_ret)
  note body = this
  show ?thesis
    unfolding write_temporary_def
  proof (rule triple_bind)
    show "triple (\<lambda>s. fst s = no_locals \<and> kept R G p d n ((=) e) (snd s))
        (sys (os_open_at [O_WRONLY, O_CREAT, O_EXCL] mode_0600 p tmp))
        (\<lambda>fd s. \<exists>t. under n (?F t fd []) s) ?E"
      by (rule triple_conseq [OF triple_under [OF triple_open_new [OF assms]]])
        (auto simp: under_def start filling_def)
    fix fd
    show "triple (\<lambda>s. \<exists>t. under n (?F t fd []) s) (bind (assign (\<lambda>l. l\<lparr>pl_descriptor := Some fd\<rparr>)) (\<lambda>_.
       bind (sys (os_fstat fd)) (\<lambda>s.
       bind (assign (\<lambda>l. l\<lparr>pl_temporary := Some (tmp, s)\<rparr>)) (\<lambda>_.
       bind (sys (os_fchmod fd mode_0600)) (\<lambda>_.
       bind (sys (os_fstat fd)) (\<lambda>s'.
       bind (sys (validate_private_file s')) (\<lambda>_.
       bind (sys (write_all write_error fd body)) (\<lambda>_.
       bind (sys (os_fsync fd)) (\<lambda>_. ret s)))))))))
       (\<lambda>_ s. \<exists>t. under n (both R G p d n e tmp t body) s) ?E"
    proof (rule triple_ex)
      fix t
      show "triple (under n (?F t fd [])) (bind (assign (\<lambda>l. l\<lparr>pl_descriptor := Some fd\<rparr>)) (\<lambda>_.
         bind (sys (os_fstat fd)) (\<lambda>s.
         bind (assign (\<lambda>l. l\<lparr>pl_temporary := Some (tmp, s)\<rparr>)) (\<lambda>_.
         bind (sys (os_fchmod fd mode_0600)) (\<lambda>_.
         bind (sys (os_fstat fd)) (\<lambda>s'.
         bind (sys (validate_private_file s')) (\<lambda>_.
         bind (sys (write_all write_error fd body)) (\<lambda>_.
         bind (sys (os_fsync fd)) (\<lambda>_. ret s)))))))))
         (\<lambda>_ s. \<exists>t. under n (both R G p d n e tmp t body) s) ?E"
        by (rule triple_bind [OF set triple_post [OF body]])
          (auto simp: safe_locals_def under_def intro: filling_both)
    qed
  qed
qed


text \<open>A function that publishes: the temporary file is written, the rest \<open>k\<close> starts from it.\<close>

lemma triple_staged:
  assumes tmp: "tmp \<noteq> n" and e: "E e"
    and rest: "\<And>t s. triple (under n (both R G p d n e tmp t body)) (k s)
        (\<lambda>x. under n (kept R G p d n (Q x))) (\<lambda>_. under n (kept R G p d n E))"
  shows "triple (kept R G p d n ((=) e))
    (with_locals no_locals (try_finally (bind (write_temporary p tmp body) k) (publish_cleanup p)))
    (\<lambda>x. kept R G p d n (Q x)) (\<lambda>_. kept R G p d n (\<lambda>c. E c \<or> (\<exists>x. Q x c)))"
proof (rule triple_publishing, rule triple_bind)
  show "triple (\<lambda>s. fst s = no_locals \<and> kept R G p d n ((=) e) (snd s)) (write_temporary p tmp body)
      (\<lambda>_ s. \<exists>t. under n (both R G p d n e tmp t body) s) (\<lambda>_. under n (kept R G p d n E))"
    by (rule triple_conseq [OF triple_write_temporary [OF tmp]]) (use e in \<open>auto simp: under_def elim!: kept_mono\<close>)
  show "triple (\<lambda>s. \<exists>t. under n (both R G p d n e tmp t body) s) (k s) (\<lambda>x. under n (kept R G p d n (Q x)))
      (\<lambda>_. under n (kept R G p d n E))" for s
    by (rule triple_ex, rule rest)
qed

section \<open>Publishing\<close>

lemma triple_close_descriptor:
  assumes "stable R P"
  shows "triple (under n P) close_descriptor (\<lambda>_. under n P) (\<lambda>_. under n P)"
  unfolding close_descriptor_def
proof (rule triple_locals_under)
  fix l :: publish_locals
  have "keeping (under n P) (bind (sys (os_close fd)) (\<lambda>_. assign (\<lambda>l. l\<lparr>pl_descriptor := None\<rparr>)))" for fd
    by (intro keeping_bind keeping_sys_reads [OF reads_close assms])
      (simp add: keeping_def, rule triple_assign_under, simp add: safe_locals_def)
  then show "triple (under n P) (if_some (pl_descriptor l) (\<lambda>fd. bind (sys (os_close fd)) (\<lambda>_. assign (\<lambda>l. l\<lparr>pl_descriptor := None\<rparr>))))
      (\<lambda>_. under n P) (\<lambda>_. under n P)"
    unfolding keeping_def [symmetric] by (rule keeping_if_some)
qed

lemma triple_rename_exchange:
  "triple (both R G p d n (Some (f, c)) tmp t b) (rename_exchange p tmp n)
     (\<lambda>_. both R G p d n (Some (t, b)) tmp f c) (\<lambda>_. both R G p d n (Some (f, c)) tmp t b)"
  unfolding rename_exchange_def by (rule triple_translate) (rule triple_exchange)

text \<open>The old content in the file \<open>f\<close>, or the new one in a file.\<close>

definition old_or_new :: "fid \<Rightarrow> bytes \<Rightarrow> bytes \<Rightarrow> (fid \<times> bytes) option \<Rightarrow> bool" where
  "old_or_new f old new e \<longleftrightarrow> e = Some (f, old) \<or> (\<exists>t. e = Some (t, new))"

definition is_new :: "bytes \<Rightarrow> (fid \<times> bytes) option \<Rightarrow> bool" where
  "is_new new e \<longleftrightarrow> (\<exists>t. e = Some (t, new))"

lemma triple_raise_under: "(\<And>w. P w \<Longrightarrow> F w) \<Longrightarrow> triple (under n P) (raise e) Q (\<lambda>_. under n F)"
  by (rule triple_raise) (simp add: under_def)

text \<open>After the exchange: the name has the new content, the temporary name the old file.\<close>

lemma triple_after_exchange:
  assumes "tmp \<noteq> n"
  shows "triple (under n (both R G p d n (Some (t, body)) tmp f old))
    (bind (sys (entry_stat p tmp)) (\<lambda>replaced.
     bind (if same_inode expected replaced then ret ()
           else bind (sys (rename_exchange p tmp n)) (\<lambda>_. raise record_changed)) (\<lambda>_.
     bind (assign (\<lambda>l. l\<lparr>pl_published := True\<rparr>)) (\<lambda>_.
     bind (sys (unlink_owned p tmp expected)) (\<lambda>_.
     bind (sys (prove_cleanup p tmp displaced expected 0)) (\<lambda>_.
     bind (sys (os_fsync p)) (\<lambda>_.
     bind (sys (prove_cleanup p tmp displaced expected 0)) (\<lambda>_.
     bind (sys (entry_stat p n)) (\<lambda>final.
     bind (sys (validate_private_file final)) (\<lambda>_.
     bind (check (same_inode temporary_stat final) record_changed) (\<lambda>_.
     ret final)))))))))))
    (\<lambda>_. under n (kept R G p d n (is_new body))) (\<lambda>_. under n (kept R G p d n (old_or_new f old body)))"
proof -
  let ?B = "under n (both R G p d n (Some (t, body)) tmp f old)"
  let ?K = "under n (kept R G p d n (is_new body))"
  let ?E = "\<lambda>_ :: exn. under n (kept R G p d n (old_or_new f old body))"
  have weak: "both R G p d n (Some (t, body)) tmp f old w \<Longrightarrow> kept R G p d n (old_or_new f old body) w"
    "both R G p d n (Some (f, old)) tmp t body w \<Longrightarrow> kept R G p d n (old_or_new f old body) w"
    "kept R G p d n (is_new body) w \<Longrightarrow> kept R G p d n (old_or_new f old body) w"
    "both R G p d n (Some (t, body)) tmp f old w \<Longrightarrow> kept R G p d n (is_new body) w" for w
    by (auto simp: old_or_new_def is_new_def elim!: both_kept kept_mono)
  have r: "triple ?K (sys m) (\<lambda>_. ?K) ?E" if "reads R m" for m :: "'x io"
    by (rule triple_under_reads [OF that stable_kept weak(3)])
  have x: "triple ?B (if same_inode expected replaced then ret ()
      else bind (sys (rename_exchange p tmp n)) (\<lambda>_. raise record_changed)) (\<lambda>_. ?K) ?E" for replaced
  proof (cases "same_inode expected replaced")
    case True
    show ?thesis unfolding if_P [OF True] by (rule triple_ret) (simp add: under_def weak(4))
  next
    case False
    have "triple ?B (sys (rename_exchange p tmp n)) (\<lambda>_. under n (both R G p d n (Some (f, old)) tmp t body)) ?E"
      by (rule triple_conseq [OF triple_under [OF triple_rename_exchange]]) (auto simp: under_def weak)
    with False show ?thesis using triple_bind [OF _ triple_raise_under [OF weak(2)]] by simp
  qed
  show ?thesis
    by (rule bind_reads [OF reads_entry_stat stable_both weak(1)], assumption, rule triple_bind [OF x],
        rule bind_assign, simp add: safe_locals_def, rule bind_under [OF triple_unlink_owned [OF assms] weak(3)], assumption,
        rule triple_bind [OF r [OF reads_prove_cleanup]], rule triple_bind [OF r], rule look_reads,
        rule triple_bind [OF r [OF reads_prove_cleanup]], rule triple_bind [OF r [OF reads_entry_stat]],
        rule triple_bind [OF r [OF reads_validate_private_file]], rule bind_check [OF weak(3)], assumption,
        rule triple_ret)
qed

text \<open>Before it: the name still has the old file.\<close>

lemma triple_before_exchange:
  assumes tmp: "tmp \<noteq> n"
    and rest: "\<And>displaced. triple (under n (both R G p d n (Some (t, body)) tmp f old)) (k displaced)
        (\<lambda>_. under n (kept R G p d n (is_new body))) (\<lambda>_. under n (kept R G p d n (old_or_new f old body)))"
  shows "triple (under n (both R G p d n (Some (f, old)) tmp t body))
    (bind close_descriptor (\<lambda>_.
     bind (sys (entry_stat p n)) (\<lambda>current.
     bind (sys (validate_private_file current)) (\<lambda>_.
     bind (check (same_inode expected current) record_changed) (\<lambda>_.
     bind (sys (open_private_file p n)) (\<lambda>(displaced, displaced_stat).
     bind (assign (\<lambda>l. l\<lparr>pl_displaced := Some displaced\<rparr>)) (\<lambda>_.
     bind (check (same_inode expected displaced_stat) record_changed) (\<lambda>_.
     bind (sys (os_fsync p)) (\<lambda>_.
     bind (sys (rename_exchange p tmp n)) (\<lambda>_. k displaced))))))))))
    (\<lambda>_. under n (kept R G p d n (is_new body))) (\<lambda>_. under n (kept R G p d n (old_or_new f old body)))"
proof -
  have weak: "both R G p d n (Some (f, old)) tmp t body w \<Longrightarrow> kept R G p d n (old_or_new f old body) w" for w
    by (auto simp: old_or_new_def elim!: both_kept)
  note r = bind_reads [OF _ stable_both weak]
  have c: "triple (under n (both R G p d n (Some (f, old)) tmp t body)) close_descriptor
      (\<lambda>_. under n (both R G p d n (Some (f, old)) tmp t body)) (\<lambda>_. under n (kept R G p d n (old_or_new f old body)))"
    by (rule triple_conseq [OF triple_close_descriptor [OF stable_both]]) (auto simp: under_def weak)
  show ?thesis
    apply (rule triple_bind [OF c])
    apply (rule r [OF reads_entry_stat], assumption)
    apply (rule r [OF reads_validate_private_file], assumption)
    apply (rule bind_check [OF weak], assumption)
    apply (rule r [OF reads_open_private_file], assumption)
    apply (unfold case_prod_unfold)
    apply (rule bind_assign, simp add: safe_locals_def)
    apply (rule bind_check [OF weak], assumption)
    apply (rule r, rule look_reads, assumption)
    apply (rule bind_under [OF triple_rename_exchange weak], assumption)
    by (rule rest)
qed

lemma triple_atomic_replace:
  "triple (kept R G p d n ((=) (Some (f, old)))) (atomic_replace p n expected body)
     (\<lambda>_. kept R G p d n (is_new body)) (\<lambda>_. kept R G p d n (old_or_new f old body))"
proof -
  have old: "old_or_new f old body (Some (f, old))" by (simp add: old_or_new_def)
  have w: "(\<lambda>c. old_or_new f old body c \<or> (\<exists>x :: stat_result. is_new body c)) = old_or_new f old body"
    by (auto simp: old_or_new_def is_new_def)
  show ?thesis
    unfolding atomic_replace_def
    by (rule triple_bind [OF triple_temporary_name], erule kept_mono, simp add: old_or_new_def, rule triple_conj_pure,
        rule triple_staged [where Q = "\<lambda>_ :: stat_result. is_new body" and E = "old_or_new f old body", unfolded w],
        assumption, rule old, rule triple_before_exchange, assumption, rule triple_after_exchange, assumption)
qed

text \<open>A new record: the name is free, or leads to the whole file.\<close>

definition none_or_new :: "bytes \<Rightarrow> (fid \<times> bytes) option \<Rightarrow> bool" where
  "none_or_new new e \<longleftrightarrow> e = None \<or> (\<exists>t. e = Some (t, new))"

lemma triple_publish_new:
  "triple (kept R G p d n ((=) None)) (publish_new p n body)
     (\<lambda>_. kept R G p d n (is_new body)) (\<lambda>_. kept R G p d n (none_or_new body))"
proof -
  have none: "none_or_new body None" by (simp add: none_or_new_def)
  have w: "(\<lambda>c. none_or_new body c \<or> (\<exists>x :: unit. is_new body c)) = none_or_new body"
    by (auto simp: none_or_new_def is_new_def)
  have weak: "both R G p d n None tmp t body w \<Longrightarrow> kept R G p d n (none_or_new body) w"
    "kept R G p d n (is_new body) w \<Longrightarrow> kept R G p d n (none_or_new body) w"
    "kept R G p d n ((=) (Some (t, body))) w \<Longrightarrow> kept R G p d n (is_new body) w" for tmp t w
    by (auto simp: none_or_new_def is_new_def elim!: both_kept kept_mono)
  let ?K = "under n (kept R G p d n (is_new body))"
  have un: "triple (kept R G p d n (is_new body)) (unlink_owned p tmp s) (\<lambda>_. kept R G p d n (is_new body)) (\<lambda>_. kept R G p d n (is_new body))"
    if "tmp \<noteq> n" for tmp s
    by (rule triple_unlink_owned [OF that])
  have link: "triple (both R G p d n None tmp t body) (os_link_at p tmp n)
      (\<lambda>_. kept R G p d n (is_new body)) (\<lambda>_. both R G p d n None tmp t body)" for tmp t
    by (rule triple_post [OF triple_link weak(3)])
  have r: "triple ?K (sys m) (\<lambda>_. ?K) (\<lambda>_. under n (kept R G p d n (none_or_new body)))" if "reads R m" for m :: "'x io"
    by (rule triple_under_reads [OF that stable_kept weak(2)])
  have f: "triple ?K (sys (prove_cleanup p tmp fd s 1)) (\<lambda>_. ?K) (\<lambda>_. under n (kept R G p d n (none_or_new body)))" for tmp fd s
    by (rule r [OF reads_prove_cleanup])
  have tail: "triple ?K (locals (\<lambda>l.
          let retained = (case pl_descriptor l of None \<Rightarrow> 0 | Some fd \<Rightarrow> fd) in
          bind (sys (prove_cleanup p tmp retained s 1)) (\<lambda>_.
          bind (sys (os_fsync p)) (\<lambda>_.
          sys (prove_cleanup p tmp retained s 1))))) (\<lambda>_. ?K) (\<lambda>_. under n (kept R G p d n (none_or_new body)))" for tmp s
    unfolding Let_def
    by (rule triple_locals_under, rule triple_bind [OF f], rule triple_bind [OF r], rule look_reads, rule f)
  show ?thesis
    unfolding publish_new_def
    by (rule triple_bind [OF triple_temporary_name], erule kept_mono, simp add: none_or_new_def, rule triple_conj_pure,
        rule triple_staged [where Q = "\<lambda>_ :: unit. is_new body" and E = "none_or_new body", unfolded w],
        assumption, rule none,
        rule bind_under [OF link weak(1)], assumption, rule bind_assign, simp add: safe_locals_def,
        rule bind_under [OF un weak(2)], assumption, assumption, rule tail)
qed

section \<open>Crash safety\<close>

text \<open>
  C14. A record is replaced atomically. While only this process works in the directory, and
  whatever calls fail, transfer fewer bytes, or kill the process, the record's name leads after
  \<open>_atomic_replace\<close> to a file with exactly the old content or exactly the new content; to the
  new content when the function returns. The files outside, whose contents are \<open>G\<close>, are as before.
\<close>

theorem atomic_replace_crash_safe:
  assumes "dir_open R G p d w" and "at_name R G d n (Some (f, old)) w"
  shows "case atomic_replace p n expected body w of (r, w') \<Rightarrow>
    (\<exists>g c. lookup (w_files w') d n = Some g \<and> map_option in_data (w_files w' g) = Some c
       \<and> (case r of Inl e \<Rightarrow> c = old \<or> c = body | Inr s \<Rightarrow> c = body))
    \<and> frozen G w'"
proof -
  have k: "kept R G p d n ((=) (Some (f, old))) w" using assms by (auto simp: kept_def)
  show ?thesis
  proof (cases "atomic_replace p n expected body w")
    case (Pair r w')
    show ?thesis
    proof (cases r)
      case (Inl e)
      then show ?thesis
        using triple_errorD [OF triple_atomic_replace _ k] Pair
        by (fastforce simp: kept_def old_or_new_def at_name_def dir_open_def)
    next
      case (Inr s)
      then show ?thesis
        using tripleD [OF triple_atomic_replace _ k] Pair
        by (fastforce simp: kept_def is_new_def at_name_def dir_open_def)
    qed
  qed
qed

text \<open>A directory with one file, and another directory outside; every second call fails.\<close>

definition demo_turn :: "nat \<Rightarrow> turn" where
  "demo_turn n = \<lparr>t_others = (\<lambda>fs. fs), t_fault = (if even n then None else Some (OSError ''EIO'')), t_killed = (n = 9),
     t_fid = (1, n), t_amount = Some 3, t_random = []\<rparr>"

definition demo_inode :: "file_kind \<Rightarrow> bytes \<Rightarrow> (pystr \<times> fid) list \<Rightarrow> inode" where
  "demo_inode k b es = \<lparr>in_kind = k, in_mode = mode_0600, in_uid = 0, in_links = 1, in_data = b, in_entries = es,
     in_target = (False, [])\<rparr>"

definition demo_files :: "bytes \<Rightarrow> files" where
  "demo_files b = [(0, 1) \<mapsto> demo_inode Directory [] [(u ''r'', (0, 2))], (0, 2) \<mapsto> demo_inode Regular b [],
     (0, 3) \<mapsto> demo_inode Regular ''x'' []]"

definition demo_world :: "bytes \<Rightarrow> world" where
  "demo_world b = \<lparr>w_files = demo_files b, w_root = (0, 1), w_cwd = [], w_uid = 0, w_umask = 63,
     w_fds = [5 \<mapsto> \<lparr>of_fid = (0, 1), of_offset = 0, of_append = False, of_locked = False\<rparr>],
     w_next_fd = 6, w_turns = demo_turn, w_clock = 0, w_dead = False\<rparr>"

definition demo_outside :: snapshot_files where
  "demo_outside = ((0, 1), [(0, 3) \<mapsto> (Regular, ''x'', [])])"

lemma demo_dir_open: "dir_open UNIV demo_outside 5 (0, 1) (demo_world b)"
  by (simp add: dir_open_def quiet_def demo_world_def demo_turn_def demo_files_def demo_inode_def demo_outside_def frozen_def
      contents_def is_os_error_def)

lemma demo_at_name: "at_name UNIV demo_outside (0, 1) (u ''r'') (Some ((0, 2), b)) (demo_world b)"
  by (simp add: at_name_def lookup_def demo_world_def demo_files_def demo_inode_def demo_outside_def)

theorem atomic_replace_crash_safe_witness:
  "case atomic_replace 5 (u ''r'') (stat_of (0, 2) (demo_inode Regular ''old'' [])) ''new'' (demo_world ''old'') of (r, w') \<Rightarrow>
    (\<exists>g c. lookup (w_files w') (0, 1) (u ''r'') = Some g \<and> map_option in_data (w_files w' g) = Some c
       \<and> (case r of Inl e \<Rightarrow> c = ''old'' \<or> c = ''new'' | Inr s \<Rightarrow> c = ''new''))
    \<and> frozen demo_outside w'"
  by (rule atomic_replace_crash_safe [OF demo_dir_open demo_at_name])

text \<open>
  C15. A new record appears as a whole: after \<open>_publish_new\<close> the free name is still free or
  leads to a file with the whole body, and it does lead there when the function returns.
\<close>

theorem publish_new_crash_safe:
  assumes "dir_open R G p d w" and "lookup (w_files w) d n = None"
  shows "case publish_new p n body w of (r, w') \<Rightarrow>
    (case lookup (w_files w') d n of
       None \<Rightarrow> (case r of Inl e \<Rightarrow> True | Inr _ \<Rightarrow> False)
     | Some g \<Rightarrow> map_option in_data (w_files w' g) = Some body)
    \<and> frozen G w'"
proof -
  have k: "kept R G p d n ((=) None) w" using assms by (auto simp: kept_def at_name_def dir_open_def)
  show ?thesis
  proof (cases "publish_new p n body w")
    case (Pair r w')
    show ?thesis
    proof (cases r)
      case (Inl e)
      then show ?thesis
        using triple_errorD [OF triple_publish_new _ k] Pair
        by (fastforce simp: kept_def none_or_new_def at_name_def dir_open_def)
    next
      case (Inr s)
      then show ?thesis
        using tripleD [OF triple_publish_new _ k] Pair
        by (fastforce simp: kept_def is_new_def at_name_def dir_open_def)
    qed
  qed
qed

theorem publish_new_crash_safe_witness:
  "case publish_new 5 (u ''n'') ''new'' (demo_world ''old'') of (r, w') \<Rightarrow>
    (case lookup (w_files w') (0, 1) (u ''n'') of
       None \<Rightarrow> (case r of Inl e \<Rightarrow> True | Inr _ \<Rightarrow> False)
     | Some g \<Rightarrow> map_option in_data (w_files w' g) = Some ''new'')
    \<and> frozen demo_outside w'"
proof (rule publish_new_crash_safe [OF demo_dir_open])
  show "lookup (w_files (demo_world ''old'')) (0, 1) (u ''n'') = None"
    by (simp add: lookup_def demo_world_def demo_files_def demo_inode_def)
qed

end
