(* ===== verification/Pending_Records.thy ===== *)
theory Pending_Records
  imports Pending_Store
begin

text \<open>
  The formats of pending records and audit lines: what is written is read back, what is read is
  valid, and every record made of a canonical issue fits the limit of the reader.
\<close>

section \<open>Validation\<close>

definition event_ok :: "AuditEvent \<Rightarrow> bool" where
  "event_ok ev \<longleftrightarrow> 0 \<le> ev_timestamp ev \<and> slug_match (ev_project_id ev) \<and> REQUEST_ID (ev_request_id ev)
     \<and> ev_operation ev \<in> AUDIT_OPERATIONS \<and> ev_status ev \<in> AUDIT_STATUSES \<and> ev_stage ev \<in> AUDIT_STAGES"

lemma validate_request_id_Inr: "validate_request_id v = Inr w \<longleftrightarrow> w = v \<and> REQUEST_ID v"
  by (auto simp: validate_request_id_def)

lemma event_validated_Inr: "event_validated ev = Inr e \<longleftrightarrow> e = ev \<and> event_ok ev"
  by (auto simp: event_validated_def event_ok_def err_simps validate_project_id_iff validate_request_id_Inr)

lemma validate_expected_Inr: "validate_expected_project_id v = Inr w \<longleftrightarrow> w = v \<and> slug_match v"
  by (auto simp: validate_expected_project_id_def err_simps validate_project_id_iff)

lemma exact_integer_Inr: "exact_integer i = Inr j \<longleftrightarrow> j = i \<and> 0 \<le> i"
  by (auto simp: exact_integer_def)

definition outcome_ok :: "PendingRequest \<Rightarrow> bool" where
  "outcome_ok r \<longleftrightarrow> validate_outcome r = Inr ()"

definition pending_ok :: "PendingRequest \<Rightarrow> bool" where
  "pending_ok r \<longleftrightarrow> REQUEST_ID (pr_request_id r) \<and> slug_match (pr_project_id r) \<and> 0 \<le> pr_created_at r
     \<and> pr_expires_at r = pr_created_at r + TTL_SECONDS \<and> (pr_recovery r \<longrightarrow> pr_state r = UNKNOWN \<and> pr_event r = None)
     \<and> (\<forall>ev. pr_event r = Some ev \<longrightarrow> event_ok ev \<and> ev_project_id ev = pr_project_id r
          \<and> ev_request_id ev = pr_request_id r)
     \<and> outcome_ok r"

lemma validate_pending_Inr: "validate_pending r = Inr r' \<longleftrightarrow> r' = r \<and> pending_ok r"
  by (cases "pr_event r")
    (auto simp: validate_pending_def pending_ok_def outcome_ok_def err_simps validate_request_id_Inr
      validate_expected_Inr exact_integer_Inr event_validated_Inr TTL_SECONDS_def)

lemma content_iff: "pr_state r \<in> CONTENT_STATES \<longleftrightarrow> pr_state r \<noteq> CREATED \<and> pr_state r \<notin> {REJECTED, EXPIRED}"
  by (cases "pr_state r") (auto simp: CONTENT_STATES_def)

text \<open>What each state has: content before the end, a number and a URL when created, else nothing.\<close>

lemma outcome_shape:
  assumes "outcome_ok r"
  shows "pr_state r \<in> CONTENT_STATES \<and> (\<exists>issue. pr_issue r = Some issue \<and> validate_content issue = Inr issue)
      \<and> pr_issue_number r = None \<and> pr_issue_url r = None
    \<or> pr_state r = CREATED \<and> pr_issue r = None
      \<and> (\<exists>n url. pr_issue_number r = Some n \<and> pr_issue_url r = Some url \<and> 1 \<le> n \<and> n \<le> MAX_ISSUE_NUMBER
           \<and> validate_issue_url url n = Inr url)
    \<or> pr_state r \<in> {REJECTED, EXPIRED} \<and> pr_issue r = None \<and> pr_issue_number r = None \<and> pr_issue_url r = None"
proof -
  have c: "validate_content issue = Inr x \<Longrightarrow> x = issue" for issue x
    by (auto simp: validate_content_def)
  have uu: "validate_issue_url url n = Inr x \<Longrightarrow> x = url" for url n x
    by (auto simp: validate_issue_url_def exact_text_def Let_def split: if_split_asm list.split_asm)
  show ?thesis
    using assms
    by (auto simp: outcome_ok_def validate_outcome_def content_iff err_simps validate_issue_number_def
        split: option.split_asm if_split_asm dest: c uu)
qed

section \<open>Lines of JSON\<close>

lemma line_opts_ok: "opts_ok line_dump_opts"
  by (simp add: opts_ok_def line_dump_opts_def u_def is_ws_def)

lemma no_duplicates_keeps [simp]: "keeps_objects no_duplicates"
  by (simp add: no_duplicates_def)

lemma clean_ascii: "list_all (\<lambda>c. c < 128) s \<Longrightarrow> clean_str s"
  by (auto simp: clean_str_def list_all_iff is_surrogate_def)

lemma clean_slug: "slug_match s \<Longrightarrow> clean_str s"
  using slug_match_chars [of s] by (fastforce simp: list_all_iff class_simps intro: clean_ascii)

lemma clean_request_id: "REQUEST_ID s \<Longrightarrow> clean_str s"
  by (fastforce simp: REQUEST_ID_def list_all_iff class_simps intro: clean_ascii)

text \<open>
  What \<open>json.dumps(...) + "\n"\<close> writes: one line of printable ASCII that reads back.
\<close>

definition line_of :: "json \<Rightarrow> bytes" where
  "line_of v = map char_of (render line_dump_opts 0 (normal_json line_dump_opts v))"

lemma plain_normal: "plain v \<Longrightarrow> plain (normal_json opt v)"
  by (simp add: normal_json_def)

lemma line_printable: "plain v \<Longrightarrow> list_all (\<lambda>c. 32 \<le> c \<and> c < 128) (render line_dump_opts 0 (normal_json line_dump_opts v))"
  by (rule render_one_line) (simp_all add: line_dump_opts_def u_def plain_normal)

lemma dumps_line:
  assumes "plain v"
  shows "bindE (json_dumps line_dump_opts v) (\<lambda>t. ascii_encode (t @ [10])) = Inr (line_of v @ [CHR 0x0A])"
proof -
  have "(char_of (10 :: nat) :: char) = CHR 0x0A" by code_simp
  then show ?thesis
    using line_printable [OF assms]
    by (auto simp: json_dumps_plain [OF assms] line_of_def ascii_encode_def list_all_iff)
qed

lemma ascii_decode_line:
  fixes tail :: pystr
  assumes "plain v" and "list_all (\<lambda>c. c < 128) tail"
  shows "ascii_decode (line_of v @ map char_of tail) = Inr (render line_dump_opts 0 (normal_json line_dump_opts v) @ tail)"
proof -
  have "list_all (\<lambda>c. c < 128) (render line_dump_opts 0 (normal_json line_dump_opts v) @ tail)"
    using line_printable [OF assms(1)] assms(2) by (auto simp: list_all_iff)
  then have "ascii_encode (render line_dump_opts 0 (normal_json line_dump_opts v) @ tail) = Inr (line_of v @ map char_of tail)"
    by (simp add: ascii_encode_def line_of_def)
  then show ?thesis by (rule ascii_round)
qed

lemma loads_line:
  fixes tail :: pystr
  assumes "plain v" and "depth (normal_json line_dump_opts v) \<le> lim" and "tail \<in> {[], [10]}"
  shows "bindE (ascii_decode (line_of v @ map char_of tail)) (json_loads lim no_duplicates no_constants)
    = Inr (normal_json line_dump_opts v)"
proof -
  have w: "list_all is_ws tail" and a: "list_all (\<lambda>c. c < 128) tail" using assms(3) by (auto simp: is_ws_def)
  have "json_loads lim no_duplicates no_constants (render line_dump_opts 0 (normal_json line_dump_opts v) @ tail)
      = Inr (normal_json line_dump_opts v)"
    using loads_dumps [OF line_opts_ok no_duplicates_keeps assms(1,2) w, of no_constants] json_dumps_plain [OF assms(1)]
    by auto
  then show ?thesis by (simp only: ascii_decode_line [OF assms(1) a] bindE_simps)
qed

lemma line_no_break:
  assumes "plain v" and "c \<in> set (line_of v)"
  shows "c \<noteq> CHR 0x0A \<and> c \<noteq> CHR 0x0D"
proof -
  from assms(2) obtain n where n: "n \<in> set (render line_dump_opts 0 (normal_json line_dump_opts v))" "c = char_of n"
    by (auto simp: line_of_def)
  then have "32 \<le> n" "n < 128" using line_printable [OF assms(1)] by (auto simp: list_all_iff)
  then have "(of_char c :: nat) = n" by (simp add: n(2))
  moreover have "(of_char (CHR 0x0A) :: nat) = 10" "(of_char (CHR 0x0D) :: nat) = 13" by code_simp+
  ultimately show ?thesis using \<open>32 \<le> n\<close> by auto
qed

section \<open>Audit events\<close>

lemma audit_words:
  "ev_operation ev \<in> AUDIT_OPERATIONS \<Longrightarrow> clean_str (ev_operation ev)"
  "ev_status ev \<in> AUDIT_STATUSES \<Longrightarrow> clean_str (ev_status ev)"
  "ev_stage ev \<in> AUDIT_STAGES \<Longrightarrow> clean_str (ev_stage ev)"
  by (auto simp: AUDIT_OPERATIONS_def AUDIT_STATUSES_def AUDIT_STAGES_def)

definition event_keys :: "pystr list" where
  "event_keys = [u ''operation'', u ''project_id'', u ''request_id'', u ''stage'', u ''status'', u ''timestamp'']"

lemma event_keys_sorted: "sorted event_keys" "distinct event_keys"
  by code_simp+

lemma event_payload_keys: "event_payload ev = JObj kvs \<Longrightarrow> map fst kvs = event_keys"
  by (auto simp: event_payload_def event_keys_def)

lemma event_payload_sorted [simp]: "sort_json (event_payload ev) = event_payload ev"
proof -
  obtain kvs where kvs: "event_payload ev = JObj kvs" by (simp add: event_payload_def)
  have s: "map (\<lambda>(k, v). (k, sort_json v)) kvs = kvs"
    using kvs by (auto simp: event_payload_def)
  have "sorted (map fst kvs)" using event_payload_keys [OF kvs] event_keys_sorted by simp
  then show ?thesis by (simp add: kvs s sort_key_id_if_sorted)
qed

lemma event_payload_depth [simp]: "depth (event_payload ev) = 1"
  unfolding event_payload_def by (rule depth_flat) auto

lemma event_payload_plain:
  assumes "event_ok ev" and "small_int (ev_timestamp ev)"
  shows "plain (event_payload ev)"
  using assms audit_words [of ev] clean_slug clean_request_id
  by (simp add: event_payload_def event_ok_def)

definition event_line :: "AuditEvent \<Rightarrow> bytes" where
  "event_line ev = line_of (event_payload ev) @ [CHR 0x0A]"

lemma event_encode_line:
  "event_ok ev \<Longrightarrow> small_int (ev_timestamp ev) \<Longrightarrow> event_encode ev = Inr (event_line ev)"
  using dumps_line [OF event_payload_plain]
  by (simp add: event_encode_def event_line_def event_validated_Inr [THEN iffD2])

lemma event_of_payload: "event_ok ev \<Longrightarrow> event_payload ev = JObj kvs \<Longrightarrow> event_of_values kvs = Inr ev"
  by (cases ev) (auto simp: event_payload_def event_of_values_def event_validated_Inr)

lemma event_payload_fields: "event_payload ev = JObj kvs \<Longrightarrow> set (map fst kvs) = EVENT_FIELDS"
  by (auto simp: event_payload_def EVENT_FIELDS_def)

lemma decode_event_line:
  assumes "event_ok ev" and "small_int (ev_timestamp ev)" and "1 \<le> lim"
  shows "decode_audit_line lim (line_of (event_payload ev)) = Inr ev"
proof -
  obtain kvs where kvs: "event_payload ev = JObj kvs" by (simp add: event_payload_def)
  have "normal_json line_dump_opts (event_payload ev) = event_payload ev"
    by (simp add: normal_json_def)
  then have "bindE (ascii_decode (line_of (event_payload ev))) (json_loads lim no_duplicates no_constants)
      = Inr (event_payload ev)"
    using loads_line [OF event_payload_plain [OF assms(1,2)], of lim "[]"] assms(3) by simp
  then show ?thesis
    using event_of_payload [OF assms(1) kvs] event_payload_fields [OF kvs]
    by (auto simp: decode_audit_line_def bindE_assoc [symmetric] kvs)
qed

lemma splitlines_line: "(\<And>c. c \<in> set l \<Longrightarrow> c \<noteq> CHR 0x0A \<and> c \<noteq> CHR 0x0D) \<Longrightarrow>
    splitlines acc (l @ CHR 0x0A # rest) = (acc @ l) # splitlines [] rest"
  by (induction l arbitrary: acc) auto

lemma splitlines_events:
  assumes "\<forall>ev \<in> set evs. event_ok ev \<and> small_int (ev_timestamp ev)"
  shows "splitlines [] (concat (map event_line evs)) = map (\<lambda>ev. line_of (event_payload ev)) evs"
  using assms
proof (induction evs)
  case (Cons ev evs)
  have "splitlines [] (line_of (event_payload ev) @ CHR 0x0A # concat (map event_line evs))
      = line_of (event_payload ev) # splitlines [] (concat (map event_line evs))"
    using splitlines_line [of "line_of (event_payload ev)" "[]"] line_no_break [OF event_payload_plain] Cons.prems
    by (metis append_Nil list.set_intros(1))
  moreover have "concat (map event_line (ev # evs)) = line_of (event_payload ev) @ CHR 0x0A # concat (map event_line evs)"
    by (simp add: event_line_def)
  ultimately show ?case using Cons by simp
qed simp

lemma events_end_line: "concat (map event_line evs) = [] \<or> endswith (concat (map event_line evs)) [CHR 0x0A]"
proof (cases evs rule: rev_cases)
  case (snoc es ev)
  then show ?thesis by (auto simp: event_line_def endswith_iff)
qed simp

definition event_storable :: "pystr option \<Rightarrow> AuditEvent \<Rightarrow> bool" where
  "event_storable project ev \<longleftrightarrow> event_ok ev \<and> small_int (ev_timestamp ev)
     \<and> (case project of None \<Rightarrow> True | Some p \<Rightarrow> ev_project_id ev = p)"

lemma audit_lines_read:
  assumes "list_all (event_storable project) evs" and "1 \<le> lim"
  shows "audit_lines_of lim project (concat (map event_line evs)) = Inr evs"
proof -
  have "mapE (\<lambda>line. bindE (decode_audit_line lim line) (\<lambda>ev.
         bindE (require (case project of None \<Rightarrow> True | Some p \<Rightarrow> ev_project_id ev = p) audit_file_invalid)
           (\<lambda>_. Inr ev))) (map (\<lambda>ev. line_of (event_payload ev)) evs) = Inr evs"
    using assms(1) by (induction evs) (simp_all add: event_storable_def decode_event_line [OF _ _ assms(2)] split: option.splits)
  moreover have "\<forall>ev \<in> set evs. event_ok ev \<and> small_int (ev_timestamp ev)"
    using assms(1) by (auto simp: list_all_iff event_storable_def)
  ultimately show ?thesis
    using events_end_line [of evs] by (simp add: audit_lines_of_def splitlines_events)
qed

text \<open>
  C20. The audit file round trip: a file made of the lines that \<open>_AuditEvent.encode\<close> writes for any
  sequence of valid events is read by \<open>_validate_audit_contents\<close> as exactly these events, in
  this order; no event can forge, split or swallow a line.
\<close>

theorem audit_file_roundtrip:
  assumes "list_all (event_storable project) evs" and "1 \<le> lim"
  shows "mapE event_encode evs = Inr (map event_line evs)
    \<and> audit_lines_of lim project (concat (map event_line evs)) = Inr evs"
proof
  show "mapE event_encode evs = Inr (map event_line evs)"
    using assms(1) by (induction evs) (simp_all add: event_encode_line event_storable_def)
  show "audit_lines_of lim project (concat (map event_line evs)) = Inr evs"
    by (rule audit_lines_read [OF assms])
qed

definition demo_event :: AuditEvent where
  "demo_event = \<lparr>ev_timestamp = 7, ev_project_id = u ''p'', ev_request_id = replicate 32 48,
     ev_operation = u ''intake'', ev_status = u ''pending'', ev_stage = u ''intake''\<rparr>"

lemma small_int_7: "small_int 7"
  by (rule small_int_64) simp

lemma demo_event_ok: "event_ok demo_event"
  by (simp add: event_ok_def demo_event_def slug_match_def class_match_def REQUEST_ID_def list_all_length class_simps
      AUDIT_OPERATIONS_def AUDIT_STATUSES_def AUDIT_STAGES_def u_Cons)

theorem audit_file_roundtrip_witness:
  "audit_lines_of 5 (Some (u ''p'')) (event_line demo_event @ event_line demo_event) = Inr [demo_event, demo_event]"
proof -
  have "list_all (event_storable (Some (u ''p''))) [demo_event, demo_event]"
    using demo_event_ok small_int_7 by (simp add: event_storable_def demo_event_def)
  from audit_file_roundtrip [OF this, of 5] show ?thesis by simp
qed

section \<open>Records\<close>

definition event_entry :: "PendingRequest \<Rightarrow> (pystr \<times> json) list" where
  "event_entry r = (case pr_event r of None \<Rightarrow> [] | Some ev \<Rightarrow> [(u ''audit_event'', event_payload ev)])"

definition recovery_entry :: "PendingRequest \<Rightarrow> (pystr \<times> json) list" where
  "recovery_entry r = (if pr_recovery r then [(u ''recovery_audit_pending'', JBool True)] else [])"

definition outcome_entries :: "PendingRequest \<Rightarrow> (pystr \<times> json) list" where
  "outcome_entries r =
     (case pr_issue r of
        Some issue \<Rightarrow> [(u ''body'', JStr (ci_body issue)), (u ''title'', JStr (ci_title issue))]
      | None \<Rightarrow>
          (case (pr_issue_number r, pr_issue_url r) of
             (Some n, Some url) \<Rightarrow> [(u ''issue_number'', JInt n), (u ''issue_url'', JStr url)]
           | _ \<Rightarrow> []))"

definition common_entries :: "PendingRequest \<Rightarrow> (pystr \<times> json) list" where
  "common_entries r = [(u ''created_at'', JInt (pr_created_at r)), (u ''expires_at'', JInt (pr_expires_at r)),
     (u ''project_id'', JStr (pr_project_id r)), (u ''request_id'', JStr (pr_request_id r)),
     (u ''state'', JStr (state_value (pr_state r)))]"

definition entries_of :: "PendingRequest \<Rightarrow> (pystr \<times> json) list" where
  "entries_of r = common_entries r @ outcome_entries r @ recovery_entry r @ event_entry r"

lemma request_payload_entries:
  assumes "pending_ok r"
  shows "request_payload r = Inr (JObj (entries_of r))"
proof -
  have e: "(case pr_event r of None \<Rightarrow> Inr []
        | Some ev \<Rightarrow> bindE (event_validated ev) (\<lambda>e. Inr [(u ''audit_event'', event_payload e)])) = Inr (event_entry r)"
    using assms by (auto simp: pending_ok_def event_entry_def event_validated_Inr [THEN iffD2] split: option.split)
  have o': "outcome_ok r" using assms by (simp add: pending_ok_def)
  from outcome_shape [OF o'] show ?thesis
    by (auto simp: request_payload_def e content_iff outcome_entries_def entries_of_def common_entries_def
        recovery_entry_def)
qed

lemma state_of_state_value [simp]: "state_of_value (Some (JStr (state_value st))) = Inr st"
  by (cases st) (simp_all add: state_of_value_def)

lemma entry_keys:
  "fst ` set (entries_of r) = COMMON_FIELDS \<union> fst ` set (outcome_entries r)
     \<union> (if pr_recovery r then {u ''recovery_audit_pending''} else {})
     \<union> (if pr_event r = None then {} else {u ''audit_event''})"
  by (auto simp: entries_of_def common_entries_def COMMON_FIELDS_def recovery_entry_def event_entry_def split: option.split)

lemma entry_lookup:
  "map_of (entries_of r) (u ''state'') = Some (JStr (state_value (pr_state r)))"
  "map_of (entries_of r) (u ''created_at'') = Some (JInt (pr_created_at r))"
  "map_of (entries_of r) (u ''expires_at'') = Some (JInt (pr_expires_at r))"
  "map_of (entries_of r) (u ''project_id'') = Some (JStr (pr_project_id r))"
  "map_of (entries_of r) (u ''request_id'') = Some (JStr (pr_request_id r))"
  "map_of (entries_of r) (u ''audit_event'') = map_option event_payload (pr_event r)"
  "map_of (entries_of r) (u ''recovery_audit_pending'') = (if pr_recovery r then Some (JBool True) else None)"
  "map_of (entries_of r) (u ''title'') = map_of (outcome_entries r) (u ''title'')"
  "map_of (entries_of r) (u ''body'') = map_of (outcome_entries r) (u ''body'')"
  "map_of (entries_of r) (u ''issue_number'') = map_of (outcome_entries r) (u ''issue_number'')"
  "map_of (entries_of r) (u ''issue_url'') = map_of (outcome_entries r) (u ''issue_url'')"
  by (auto simp: entries_of_def common_entries_def recovery_entry_def event_entry_def outcome_entries_def
      split: option.split)

lemma entries_distinct: "distinct (map fst (entries_of r))"
  by (auto simp: entries_of_def common_entries_def recovery_entry_def event_entry_def outcome_entries_def
      split: option.split)

lemma marker_entries:
  "(\<And>ev. pr_event r = Some ev \<Longrightarrow> event_ok ev) \<Longrightarrow> marker_of (entries_of r) = Inr (pr_event r)"
  using event_payload_fields event_of_payload
  by (cases "pr_event r") (auto simp: marker_of_def entry_lookup event_payload_def)

lemma exact_text_Inr: "exact_text v = Inr w \<longleftrightarrow> w = v \<and> (\<exists>b. utf8_encode v = Inr b)"
  by (auto simp: exact_text_def err_simps)

lemma validate_content_texts:
  "validate_content issue = Inr x \<Longrightarrow> exact_text (ci_title issue) = Inr (ci_title issue)
     \<and> exact_text (ci_body issue) = Inr (ci_body issue)"
  by (auto simp: validate_content_def err_simps exact_text_Inr)

lemma outcome_entries_read:
  assumes "pending_ok r"
  shows "outcome_fields (entries_of r) (pr_state r) (pr_event r \<noteq> None)
    = Inr (pr_issue r, pr_issue_number r, pr_issue_url r, pr_recovery r)"
proof -
  have o': "outcome_ok r" and c: "pr_recovery r \<Longrightarrow> pr_state r = UNKNOWN \<and> pr_event r = None"
    using assms by (simp_all add: pending_ok_def)
  from outcome_shape [OF o'] show ?thesis
  proof (elim disjE conjE exE)
    fix issue
    assume s: "pr_state r \<in> CONTENT_STATES" "pr_issue r = Some issue" "validate_content issue = Inr issue"
      "pr_issue_number r = None" "pr_issue_url r = None"
    have k: "fst ` set (outcome_entries r) = {u ''body'', u ''title''}" by (simp add: outcome_entries_def s)
    have "\<lparr>ci_title = ci_title issue, ci_body = ci_body issue\<rparr> = issue" by simp
    then show ?thesis
      using validate_content_texts [OF s(3)] c s
      by (cases "pr_recovery r")
        (auto simp: outcome_fields_def Let_def entry_keys k entry_lookup text_field_def outcome_entries_def COMMON_FIELDS_def)
  next
    fix n url
    assume s: "pr_state r = CREATED" "pr_issue r = None" "pr_issue_number r = Some n" "pr_issue_url r = Some url"
    have k: "fst ` set (outcome_entries r) = {u ''issue_number'', u ''issue_url''}" by (simp add: outcome_entries_def s)
    show ?thesis
      using c s
      by (auto simp: outcome_fields_def Let_def entry_keys k entry_lookup text_field_def int_field_def outcome_entries_def
          COMMON_FIELDS_def CONTENT_STATES_def)
  next
    assume s: "pr_state r \<in> {REJECTED, EXPIRED}" "pr_issue r = None" "pr_issue_number r = None" "pr_issue_url r = None"
    have k: "fst ` set (outcome_entries r) = {}" by (simp add: outcome_entries_def s)
    show ?thesis
      using c s by (auto simp: outcome_fields_def Let_def entry_keys k CONTENT_STATES_def)
  qed
qed

lemma pending_of_entries:
  assumes "pending_ok r"
  shows "pending_of_values (entries_of r) = Inr r"
proof -
  have "marker_of (entries_of r) = Inr (pr_event r)"
    using assms by (intro marker_entries) (simp add: pending_ok_def)
  moreover have "validate_pending \<lparr>pr_request_id = pr_request_id r, pr_project_id = pr_project_id r,
      pr_created_at = pr_created_at r, pr_expires_at = pr_expires_at r, pr_state = pr_state r,
      pr_issue = pr_issue r, pr_issue_number = pr_issue_number r, pr_issue_url = pr_issue_url r,
      pr_recovery = pr_recovery r, pr_event = pr_event r\<rparr> = Inr r"
    using assms by (cases r) (simp add: validate_pending_Inr)
  ultimately show ?thesis
    using outcome_entries_read [OF assms]
    by (simp add: pending_of_values_def entry_lookup text_field_def int_field_def)
qed

lemma pending_of_values_cong:
  assumes "map_of kvs = map_of kvs'"
  shows "pending_of_values kvs = pending_of_values kvs'"
proof -
  have "set (map fst kvs) = set (map fst kvs')"
    using assms by (metis dom_map_of_conv_image_fst list.set_map)
  then show ?thesis
    unfolding pending_of_values_def marker_of_def outcome_fields_def text_field_def int_field_def assms by (simp only:)
qed

lemma utf8_clean: "utf8_encode s = Inr b \<Longrightarrow> valid_str s \<Longrightarrow> clean_str s"
proof (induction s arbitrary: b)
  case (Cons c s)
  then show ?case
    by (auto simp: clean_str_Cons utf8_char_def is_surrogate_def split: if_split_asm option.split_asm)
qed (simp add: clean_str_def)

text \<open>A record whose texts are Python strings and whose numbers the JSON library can write.\<close>

definition storable :: "PendingRequest \<Rightarrow> bool" where
  "storable r \<longleftrightarrow> pending_ok r \<and> small_int (pr_created_at r) \<and> small_int (pr_expires_at r)
     \<and> (\<forall>ev. pr_event r = Some ev \<longrightarrow> small_int (ev_timestamp ev))
     \<and> (\<forall>issue. pr_issue r = Some issue \<longrightarrow> valid_str (ci_title issue) \<and> valid_str (ci_body issue))
     \<and> (\<forall>url. pr_issue_url r = Some url \<longrightarrow> valid_str url)"

lemma state_value_clean [simp]: "clean_str (state_value st)"
  by (cases st) simp_all

lemma issue_number_small: "1 \<le> n \<Longrightarrow> n \<le> MAX_ISSUE_NUMBER \<Longrightarrow> small_int n"
  by (rule small_int_64) (simp add: MAX_ISSUE_NUMBER_def)

lemma outcome_plain:
  assumes "storable r"
  shows "list_all (\<lambda>(k, v). clean_str k \<and> plain v \<and> sort_json v = v \<and> depth v = 0) (outcome_entries r)"
proof -
  have o': "outcome_ok r" using assms by (simp add: storable_def pending_ok_def)
  have t: "clean_str s" if "exact_text s = Inr s" "valid_str s" for s
    using that utf8_clean by (auto simp: exact_text_Inr)
  have i: "exact_text url = Inr url" if "validate_issue_url url n = Inr url" for url n
    using that by (auto simp: validate_issue_url_def exact_text_Inr)
  from outcome_shape [OF o'] show ?thesis
    using assms validate_content_texts t i issue_number_small
    by (auto simp: outcome_entries_def storable_def)
qed

definition flat_entry :: "pystr \<times> json \<Rightarrow> bool" where
  "flat_entry e \<longleftrightarrow> clean_str (fst e) \<and> plain (snd e) \<and> sort_json (snd e) = snd e \<and> depth (snd e) \<le> 1"

lemma entries_flat:
  assumes "storable r"
  shows "list_all flat_entry (entries_of r)"
proof -
  have ok: "pending_ok r" "small_int (pr_created_at r)" "small_int (pr_expires_at r)"
    using assms by (simp_all add: storable_def)
  have "list_all flat_entry (common_entries r)"
    using ok clean_slug clean_request_id by (simp add: common_entries_def flat_entry_def pending_ok_def)
  moreover have "list_all flat_entry (recovery_entry r)"
    by (simp add: recovery_entry_def flat_entry_def)
  moreover have "list_all flat_entry (event_entry r)"
  proof (cases "pr_event r")
    case (Some ev)
    then have "event_ok ev" "small_int (ev_timestamp ev)" using assms ok(1) by (simp_all add: storable_def pending_ok_def)
    then show ?thesis using event_payload_plain by (simp add: event_entry_def Some flat_entry_def)
  qed (simp add: event_entry_def)
  moreover have "list_all flat_entry (outcome_entries r)"
    using outcome_plain [OF assms] by (auto simp: list_all_iff flat_entry_def)
  ultimately show ?thesis by (simp add: entries_of_def)
qed

lemma entries_plain:
  assumes "storable r"
  shows "plain (JObj (entries_of r)) \<and> (\<forall>(k, v) \<in> set (entries_of r). sort_json v = v \<and> depth v \<le> 1)"
proof -
  have "\<forall>e \<in> set (entries_of r). flat_entry e" using entries_flat [OF assms] by (simp add: list_all_iff)
  then show ?thesis using entries_distinct [of r] by (auto simp: list_all_iff flat_entry_def)
qed

lemma record_normal:
  assumes "storable r"
  obtains kvs where "normal_json line_dump_opts (JObj (entries_of r)) = JObj kvs"
    "mset kvs = mset (entries_of r)" "map_of kvs = map_of (entries_of r)" "depth (JObj kvs) \<le> 2"
proof -
  have "\<forall>(k, v) \<in> set (entries_of r). sort_json v = v" using entries_plain [OF assms] by fastforce
  then obtain kvs where k: "normal_json line_dump_opts (JObj (entries_of r)) = JObj kvs"
    "mset kvs = mset (entries_of r)" "map_of kvs = map_of (entries_of r)"
    using normal_settled [OF entries_distinct] by blast
  have "set kvs = set (entries_of r)" using k(2) by (rule mset_eq_setD)
  then have "\<forall>(k, v) \<in> set kvs. depth v \<le> 1" using entries_plain [OF assms] by fastforce
  then have "foldr max (map (\<lambda>(k, v). depth v) kvs) 0 \<le> 1"
    by (induction kvs) auto
  then have "depth (JObj kvs) \<le> 2" by simp
  with k that show thesis by blast
qed

definition record_line :: "PendingRequest \<Rightarrow> bytes" where
  "record_line r = line_of (JObj (entries_of r)) @ [CHR 0x0A]"

lemma encode_record: "storable r \<Longrightarrow> encode_pending r = Inr (record_line r)"
  using dumps_line [of "JObj (entries_of r)"] entries_plain [of r]
  by (auto simp: encode_pending_def validate_pending_Inr [THEN iffD2] storable_def request_payload_entries record_line_def)

lemma decode_record:
  assumes "storable r" and "2 \<le> lim"
  shows "decode_pending lim (record_line r) = Inr r"
proof -
  obtain kvs where k: "normal_json line_dump_opts (JObj (entries_of r)) = JObj kvs"
    "map_of kvs = map_of (entries_of r)" "depth (JObj kvs) \<le> 2"
    using record_normal [OF assms(1)] by metis
  have "map char_of [10 :: nat] = [CHR 0x0A]" by code_simp
  then have "bindE (ascii_decode (record_line r)) (json_loads lim no_duplicates no_constants) = Inr (JObj kvs)"
    using loads_line [of "JObj (entries_of r)" lim "[10]"] entries_plain [OF assms(1)] k assms(2)
    by (simp add: record_line_def)
  moreover have "pending_of_values kvs = Inr r"
    using pending_of_values_cong [OF k(2)] pending_of_entries assms(1) by (simp add: storable_def)
  ultimately show ?thesis by (auto simp: decode_pending_def bindE_assoc [symmetric])
qed

text \<open>
  C21. The record round trip: for every record that can be stored, \<open>_encode\<close> writes a line that
  \<open>_decode\<close> reads back as the same record, in whatever state it is and whatever its texts are.
\<close>

theorem pending_roundtrip:
  assumes "storable r" and "2 \<le> lim"
  shows "\<exists>b. encode_pending r = Inr b \<and> decode_pending lim b = Inr r"
  using encode_record [OF assms(1)] decode_record [OF assms] by blast

definition demo_sent :: PendingRequest where
  "demo_sent = \<lparr>pr_request_id = replicate 32 48, pr_project_id = u ''p'', pr_created_at = 7,
     pr_expires_at = 7 + TTL_SECONDS, pr_state = SENDING, pr_issue = Some demo_issue,
     pr_issue_number = None, pr_issue_url = None, pr_recovery = False, pr_event = Some demo_event\<rparr>"

lemma demo_issue_texts:
  "list_all (\<lambda>c. c < 128) (ci_title demo_issue)" "list_all (\<lambda>c. c < 128) (ci_body demo_issue)"
  "length (ci_title demo_issue) = 1" "length (ci_body demo_issue) < 100" "ci_body demo_issue \<noteq> []"
  by (simp_all add: demo_issue_def u_def)

lemma demo_issue_content: "validate_content demo_issue = Inr demo_issue"
  using demo_issue_texts utf8_ascii
  by (auto simp: validate_content_def MAX_CANONICAL_BODY_BYTES_def err_simps)

lemma demo_issue_valid: "valid_str (ci_title demo_issue)" "valid_str (ci_body demo_issue)"
  using demo_issue_texts(1,2) by (auto simp: valid_str_def list_all_iff)

lemma demo_sent_storable: "storable demo_sent"
proof -
  have "small_int (7 + TTL_SECONDS)" by (rule small_int_64) (simp add: TTL_SECONDS_def)
  moreover have "REQUEST_ID (replicate 32 48)" "slug_match (u ''p'')"
    using demo_event_ok by (simp_all add: event_ok_def demo_event_def)
  moreover have "outcome_ok demo_sent"
    by (simp add: outcome_ok_def validate_outcome_def demo_sent_def CONTENT_STATES_def demo_issue_content)
  ultimately show ?thesis
    using demo_event_ok small_int_7 demo_issue_valid
    by (simp add: storable_def pending_ok_def demo_sent_def demo_event_def)
qed

theorem pending_roundtrip_witness:
  "\<exists>b. encode_pending demo_sent = Inr b \<and> decode_pending 2 b = Inr demo_sent"
  by (rule pending_roundtrip [OF demo_sent_storable]) simp

lemma pending_of_values_valid: "pending_of_values kvs = Inr r \<Longrightarrow> pending_ok r"
  by (auto simp: pending_of_values_def err_simps validate_pending_Inr split: prod.split_asm)

lemma decoded_pending_ok: "decode_pending lim b = Inr r \<Longrightarrow> pending_ok r"
  unfolding decode_pending_def reraise_if_Inr_iff bindE_Inr_iff
  by (elim exE conjE) (rename_tac v, case_tac v, auto dest: pending_of_values_valid)

text \<open>
  Nothing invalid is read: a record that \<open>_decode\<close> accepts has a well-formed id and
  project, its lifetime is the fixed one, its text is there exactly in the states that may still
  be sent, its issue number and URL exactly when it was created, a pending audit event belongs
  to this record, and the recovery bit is set only in the unknown state.
\<close>

lemma decoded_record_valid:
  assumes "decode_pending lim b = Inr r"
  shows "REQUEST_ID (pr_request_id r) \<and> slug_match (pr_project_id r)
    \<and> pr_expires_at r = pr_created_at r + TTL_SECONDS
    \<and> (pr_issue r \<noteq> None \<longleftrightarrow> pr_state r \<in> CONTENT_STATES)
    \<and> (pr_issue_number r \<noteq> None \<longleftrightarrow> pr_state r = CREATED) \<and> (pr_issue_url r \<noteq> None \<longleftrightarrow> pr_state r = CREATED)
    \<and> (case pr_event r of None \<Rightarrow> True
       | Some ev \<Rightarrow> event_ok ev \<and> ev_project_id ev = pr_project_id r \<and> ev_request_id ev = pr_request_id r)
    \<and> (if pr_recovery r then pr_state r = UNKNOWN \<and> pr_event r = None else True)"
proof -
  have ok: "pending_ok r" by (rule decoded_pending_ok [OF assms])
  then have "outcome_ok r" by (simp add: pending_ok_def)
  from outcome_shape [OF this] show ?thesis
    using ok by (auto simp: pending_ok_def CONTENT_STATES_def split: option.split)
qed

end
