(* ===== verification/Pending_Bounds.thy ===== *)
theory Pending_Bounds
  imports Pending_Records
begin

text \<open>
  The sizes of \<open>src/agent_container/family_issue.py\<close> and
  \<open>src/agent_container/family_pending.py\<close> fit together: whatever proposal passes the limits
  of the draft, its canonical issue passes the limits of a record, and the record passes the
  limit of the reader that the file must fit in.
\<close>

section \<open>Widths of texts\<close>

text \<open>\<open>fits a b s\<close>: as a JSON string \<open>s\<close> takes at most \<open>a\<close> characters, as UTF-8 at most \<open>b\<close> bytes.\<close>

definition json_width :: "pystr \<Rightarrow> nat" where
  "json_width s = length (concat (map (esc_char True) s))"

definition fits :: "nat \<Rightarrow> nat \<Rightarrow> pystr \<Rightarrow> bool" where
  "fits a b s \<longleftrightarrow> json_width s \<le> a \<and> (\<exists>e. utf8_encode s = Inr e \<and> length e \<le> b) \<and> valid_str s"

lemma json_width_simps [simp]:
  "json_width [] = 0" "json_width (c # s) = length (esc_char True c) + json_width s"
  "json_width (s @ t) = json_width s + json_width t"
  by (simp_all add: json_width_def)

lemma utf8_append:
  "utf8_encode s = Inr a \<Longrightarrow> utf8_encode t = Inr b \<Longrightarrow> utf8_encode (s @ t) = Inr (a @ b)"
  by (induction s arbitrary: a) (auto split: option.split_asm)

lemma fits_append: "fits a b s \<Longrightarrow> fits c d t \<Longrightarrow> fits (a + c) (b + d) (s @ t)"
  by (fastforce simp: fits_def intro: utf8_append)

lemma fits_mono: "fits a b s \<Longrightarrow> a \<le> a' \<Longrightarrow> b \<le> b' \<Longrightarrow> fits a' b' s"
  by (fastforce simp: fits_def)

lemma fits_concat:
  "(\<And>s. s \<in> set ss \<Longrightarrow> fits a b s) \<Longrightarrow> fits (length ss * a) (length ss * b) (concat ss)"
proof (induction ss)
  case Nil
  then show ?case by (simp add: fits_def)
next
  case (Cons s ss)
  then show ?case using fits_append [of a b s "length ss * a" "length ss * b" "concat ss"] by simp
qed

lemma fits_ascii:
  assumes "list_all (\<lambda>c. c = 10 \<or> 32 \<le> c \<and> c < 127) s"
  shows "fits (2 * length s) (length s) s"
proof -
  have "json_width s \<le> 2 * length s" using assms by (induction s) (auto simp: esc_char_def)
  moreover have "utf8_encode s = Inr (map char_of s)" using assms by (intro utf8_ascii) (auto simp: list_all_iff)
  moreover have "valid_str s" using assms by (auto simp: valid_str_def list_all_iff)
  ultimately show ?thesis by (simp add: fits_def)
qed

lemma escaped_char_width:
  "utf8_char c = Some b \<Longrightarrow> \<not> control_char c \<Longrightarrow>
   length (esc_char True 92) + length (esc_char True c) \<le> 4 * length b \<and> 1 \<le> length b"
  by (auto simp: utf8_char_def esc_char_def control_char_def split: if_split_asm)

lemma escape_fits:
  assumes "utf8_encode v = Inr b" and "list_all (\<lambda>c. \<not> control_char c) v" and "valid_str v"
  shows "fits (4 * length b) (2 * length b) (escape_at E i v)"
  using assms
proof (induction E i v arbitrary: b rule: escape_at.induct)
  case (1 E i)
  then show ?case by (simp add: fits_def)
next
  case (2 E i c cs)
  from "2.prems"(1) obtain x y where xy: "utf8_char c = Some x" "utf8_encode cs = Inr y" "b = x @ y"
    by (auto split: option.split_asm)
  then have r: "fits (4 * length y) (2 * length y) (escape_at E (i + 1) cs)"
    using 2 by simp
  have w: "length (esc_char True 92) + length (esc_char True c) \<le> 4 * length x" "1 \<le> length x"
    using escaped_char_width [OF xy(1)] "2.prems"(2) by simp_all
  have "utf8_char 92 = Some [char_of (92 :: nat)]" by (simp add: utf8_char_def)
  then have "fits (4 * length x) (2 * length x) (if E i \<or> always_escaped c then [92, c] else [c])"
    using w xy(1) "2.prems"(3) by (auto simp: fits_def)
  from fits_append [OF this r] show ?case by (simp add: xy(3) distrib_left)
qed

lemma clean_text_fits:
  assumes "clean_text m v" and "valid_str v"
  shows "fits (4 * m) (2 * m) (escape_markdown_literal v)"
proof -
  obtain b where b: "utf8_encode v = Inr b" "length b \<le> m" and c: "list_all (\<lambda>c. \<not> control_char c) v"
    using assms(1) by (auto simp: clean_text_def list_all_iff)
  show ?thesis
    unfolding escape_markdown_literal_def Let_def
    by (rule fits_mono [OF escape_fits [OF b(1) c assms(2)]]) (use b(2) in simp_all)
qed

lemma title_fits:
  assumes "clean_text m v" and "valid_str v"
  shows "fits (4 * m) m v"
proof -
  obtain b where b: "utf8_encode v = Inr b" "length b \<le> m" and c: "list_all (\<lambda>c. \<not> control_char c) v"
    using assms(1) by (auto simp: clean_text_def list_all_iff)
  have "json_width v \<le> 4 * length b"
    using b(1) c
  proof (induction v arbitrary: b)
    case (Cons c cs)
    then obtain x y where xy: "utf8_char c = Some x" "utf8_encode cs = Inr y" "b = x @ y"
      by (auto split: option.split_asm)
    then show ?case using escaped_char_width [OF xy(1)] Cons.IH [OF xy(2)] Cons.prems by simp
  qed simp
  with b assms(2) show ?thesis by (auto simp: fits_def)
qed

section \<open>Canonical issues\<close>

definition draft_strings :: "FamilyIssueDraft \<Rightarrow> bool" where
  "draft_strings d \<longleftrightarrow> list_all valid_str (fd_title d # fd_summary d # fd_context d # acceptance_criteria d)"

lemma length_u [simp]: "length (u s) = length s"
  by (simp add: u_def)

lemma body_fits:
  assumes ok: "draft_ok d" and s: "draft_strings d" and b: "render_family_issue_body d = Inr body"
  shows "fits 65800 32900 body"
proof -
  have v: "validate_draft d = Inr d" using ok by (simp add: validate_draft_Inr)
  let ?e = escape_markdown_literal
  have sum: "fits 8192 4096 (?e (fd_summary d))" and con: "fits 16384 8192 (?e (fd_context d))"
    using clean_text_fits [of SUMMARY_BYTES "fd_summary d"] clean_text_fits [of CONTEXT_BYTES "fd_context d"] ok s
    by (simp_all add: draft_ok_def draft_strings_def SUMMARY_BYTES_def CONTEXT_BYTES_def)
  have lit: "fits 6 3 (u ''- '' @ [10])" "fits 26 13 (u ''## Summary'' @ [10, 10])" 
    "fits 30 15 ([10, 10] @ u ''## Context'' @ [10, 10])"
    "fits 54 27 ([10, 10] @ u ''## Acceptance criteria'' @ [10, 10])"
    by (rule fits_mono [OF fits_ascii]; simp add: u_Cons)+
  have "fits 2054 1027 (u ''- '' @ ?e c @ [10])" if "c \<in> set (acceptance_criteria d)" for c
  proof -
    have "fits 2048 1024 (?e c)"
      using clean_text_fits [of CRITERION_BYTES c] ok s that
      by (auto simp: draft_ok_def draft_strings_def CRITERION_BYTES_def list_all_iff)
    moreover have "fits 4 2 (u ''- '')" "fits 2 1 [10 :: nat]"
      by (rule fits_mono [OF fits_ascii]; simp add: u_Cons)+
    ultimately show ?thesis
      using fits_append [of 4 2 "u ''- ''" "2048 + 2" "1024 + 1" "?e c @ [10]"] fits_append [of 2048 1024 "?e c" 2 1 "[10]"]
      by simp
  qed
  then have "fits (length (acceptance_criteria d) * 2054) (length (acceptance_criteria d) * 1027)
      (concat (map (\<lambda>c. u ''- '' @ ?e c @ [10]) (acceptance_criteria d)))"
    using fits_concat [of "map (\<lambda>c. u ''- '' @ ?e c @ [10]) (acceptance_criteria d)" 2054 1027] by fastforce
  then have cri: "fits 41080 20540 (concat (map (\<lambda>c. u ''- '' @ ?e c @ [10]) (acceptance_criteria d)))"
    by (rule fits_mono) (use ok in \<open>simp_all add: draft_ok_def MAX_CRITERIA_def\<close>)
  have "body = (u ''## Summary'' @ [10, 10]) @ ?e (fd_summary d) @ ([10, 10] @ u ''## Context'' @ [10, 10])
      @ ?e (fd_context d) @ ([10, 10] @ u ''## Acceptance criteria'' @ [10, 10])
      @ concat (map (\<lambda>c. u ''- '' @ ?e c @ [10]) (acceptance_criteria d))"
    using b by (simp add: render_family_issue_body_def v Let_def)
  then show ?thesis
    by (simp only:)
      (rule fits_mono [OF fits_append [OF lit(2) fits_append [OF sum fits_append [OF lit(3)
         fits_append [OF con fits_append [OF lit(4) cri]]]]]]; simp)
qed


lemma issue_fits:
  assumes "canonicalize_family_issue d agent repository = Inr ci" and s: "draft_strings d"
  shows "fits 1024 256 (ci_title ci) \<and> fits 66300 33100 (ci_body ci) \<and> ci_title ci \<noteq> [] \<and> ci_body ci \<noteq> []"
proof -
  from assms(1) obtain body where b: "draft_ok d" "render_family_issue_body d = Inr body"
    by (auto simp: canonicalize_family_issue_def validate_draft_Inr)
  have v: "validate_draft d = Inr d" using b(1) by (simp add: validate_draft_Inr)
  have t: "fits 1024 256 (fd_title d)" "fd_title d \<noteq> []"
    using title_fits [of TITLE_BYTES "fd_title d"] b(1) s
    by (simp_all add: draft_ok_def draft_strings_def TITLE_BYTES_def clean_text_def)
  have f: "fits 65800 32900 body" by (rule body_fits [OF b(1) s b(2)])
  have n: "body \<noteq> []" using b(2) by (auto simp: render_family_issue_body_def v Let_def u_Cons)
  show ?thesis
  proof (cases agent)
    case None
    then show ?thesis
      using assms(1) b t f n fits_mono [OF f, of 66300 33100]
      by (cases repository) (auto simp: canonicalize_family_issue_def v)
  next
    case (Some a)
    with assms(1) b obtain r where r: "repository = Some r" "slug_match r"
      "ci = \<lparr>ci_title = fd_title d, ci_body = body @ [10] @ u ''---'' @ [10, 10, 8212, 32] @ agent_label a
        @ u '' ('' @ r @ u '')'' @ [10]\<rparr>"
      by (cases repository)
        (auto simp: canonicalize_family_issue_def v reraise_if_Inr_iff validate_agent_def
          validate_project_id_iff split: if_split_asm)
    have "list_all (\<lambda>c. c = 10 \<or> 32 \<le> c \<and> c < 127) r"
      using slug_match_chars [OF r(2)] by (fastforce simp: list_all_iff class_simps)
    from fits_mono [OF fits_ascii [OF this], of 200 100] have x: "fits 200 100 r"
      using slug_match_length [OF r(2)] by simp
    have dash: "fits 12 6 [10, 8212, 32]" by (simp add: fits_def esc_char_def utf8_char_def is_surrogate_def)
    have lit: "fits 10 5 ([10] @ u ''---'' @ [10])" "fits 12 6 (agent_label a)" "fits 4 2 (u '' ('')" "fits 4 2 (u '')'' @ [10])"
      by (rule fits_mono [OF fits_ascii]; simp add: u_Cons agent_label_def)+
    have "ci_body ci = body @ ([10] @ u ''---'' @ [10]) @ [10, 8212, 32] @ agent_label a @ u '' ('' @ r @ u '')'' @ [10]"
      by (simp add: r(3))
    then have "fits 66300 33100 (ci_body ci)"
      by (simp only:) (rule fits_mono [OF fits_append [OF f fits_append [OF lit(1) fits_append [OF dash fits_append [OF lit(2)
          fits_append [OF lit(3) fits_append [OF x lit(4)]]]]]]]; simp)
    with t n r(3) show ?thesis by simp
  qed
qed

lemma issue_content:
  assumes "canonicalize_family_issue d agent repository = Inr ci" and "draft_strings d"
  shows "validate_content ci = Inr ci \<and> valid_str (ci_title ci) \<and> valid_str (ci_body ci)"
  using issue_fits [OF assms] by (auto simp: validate_content_def fits_def MAX_CANONICAL_BODY_BYTES_def)

section \<open>New records\<close>

text \<open>The records that \<open>create_pending\<close> makes, at any time before the year 5138.\<close>

definition new_event_ok :: "pystr \<Rightarrow> pystr \<Rightarrow> int \<Rightarrow> AuditEvent option \<Rightarrow> bool" where
  "new_event_ok request_id project t event \<longleftrightarrow>
     (\<forall>ev. event = Some ev \<longrightarrow> event_ok ev \<and> ev_project_id ev = project \<and> ev_request_id ev = request_id
        \<and> ev_timestamp ev = t)"

lemma new_storable:
  assumes "canonicalize_family_issue d agent repository = Inr ci" and "draft_strings d"
    and "REQUEST_ID i" and "slug_match p" and "0 \<le> t" and "t < 10 ^ 11" and "new_event_ok i p t event"
  shows "storable (new_pending i p t ci event)"
proof -
  have "small_int t" "small_int (t + TTL_SECONDS)"
    using assms(5,6) by (auto intro!: small_int_64 simp: TTL_SECONDS_def)
  then show ?thesis
    using issue_content [OF assms(1,2)] assms(3-7)
    by (auto simp: storable_def pending_ok_def new_pending_def new_event_ok_def outcome_ok_def validate_outcome_def
        CONTENT_STATES_def)
qed

lemma dump_length: "length (dump_str True s) = 2 + json_width s"
  by (simp add: dump_str_def json_width_def)

lemma width_ascii: "list_all (\<lambda>c. c = 10 \<or> 32 \<le> c \<and> c < 127) s \<Longrightarrow> json_width s \<le> 2 * length s"
  using fits_ascii by (simp add: fits_def)

lemma line_opts_fields [simp]:
  "d_ascii line_dump_opts" "d_item line_dump_opts = [44]" "d_key line_dump_opts = [58]" "d_indent line_dump_opts = None"
  by (simp_all add: line_dump_opts_def u_def)

definition entry_length :: "pystr \<times> json \<Rightarrow> nat" where
  "entry_length e = length (dump_str True (fst e)) + length (render line_dump_opts 1 (snd e)) + 2"

lemma record_length:
  assumes "storable r"
  shows "length (record_line r) \<le> 3 + sum_list (map entry_length (entries_of r))"
proof -
  obtain kvs where k: "normal_json line_dump_opts (JObj (entries_of r)) = JObj kvs" "mset kvs = mset (entries_of r)"
    using record_normal [OF assms] by metis
  have "length (record_line r) = Suc (length (render line_dump_opts 0 (JObj kvs)))"
    by (simp only: record_line_def line_of_def k(1) length_append length_map length_Cons list.size)
  also have "\<dots> \<le> Suc (2 + sum_list (map entry_length kvs))"
    using length_render_object [of line_dump_opts 0 kvs]
    by (simp only: line_opts_fields entry_length_def [abs_def] case_prod_unfold One_nat_def Suc_le_mono)
  also have "sum_list (map entry_length kvs) = sum_list (map entry_length (entries_of r))"
    using k(2) by (metis mset_map sum_mset_sum_list)
  finally show ?thesis by simp
qed

lemma int_length:
  assumes "0 \<le> i" and "i < 10 ^ 12"
  shows "length (int_repr i) \<le> 12"
proof -
  have "nat \<bar>i\<bar> < 10 ^ 12" using assms by (simp add: nat_less_iff)
  then show ?thesis using dec_digits_length [of "nat \<bar>i\<bar>" 12] assms(1) by (simp add: int_repr_def)
qed

lemma key_length: "list_all (\<lambda>c. c = 10 \<or> 32 \<le> c \<and> c < 127) (u k) \<Longrightarrow> length (dump_str True (u k)) \<le> 2 + 2 * length k"
  using width_ascii [of "u k"] by (simp add: dump_length)

lemma slug_width: "slug_match p \<Longrightarrow> json_width p \<le> 200"
proof -
  assume p: "slug_match p"
  have "list_all (\<lambda>c. c = 10 \<or> 32 \<le> c \<and> c < 127) p"
    using slug_match_chars [OF p] by (fastforce simp: list_all_iff class_simps)
  from width_ascii [OF this] show ?thesis using slug_match_length [OF p] by simp
qed

lemma id_width: "REQUEST_ID i \<Longrightarrow> json_width i \<le> 64"
proof -
  assume i: "REQUEST_ID i"
  have "list_all (\<lambda>c. c = 10 \<or> 32 \<le> c \<and> c < 127) i"
    using i by (fastforce simp: REQUEST_ID_def list_all_iff class_simps)
  from width_ascii [OF this] show ?thesis using i by (simp add: REQUEST_ID_def)
qed

lemma word_width:
  "w \<in> AUDIT_OPERATIONS \<union> AUDIT_STATUSES \<union> AUDIT_STAGES \<Longrightarrow> json_width w \<le> 40"
  by (auto simp: AUDIT_OPERATIONS_def AUDIT_STATUSES_def AUDIT_STAGES_def u_Cons esc_char_def)

lemma event_length:
  assumes "event_ok ev" and "ev_timestamp ev < 10 ^ 11"
  shows "length (render line_dump_opts 1 (event_payload ev)) \<le> 1000"
proof -
  have i: "length (int_repr (ev_timestamp ev)) \<le> 12" using assms by (intro int_length) (simp_all add: event_ok_def)
  have w: "json_width (ev_operation ev) \<le> 40" "json_width (ev_status ev) \<le> 40" "json_width (ev_stage ev) \<le> 40"
    "json_width (ev_project_id ev) \<le> 200" "json_width (ev_request_id ev) \<le> 64"
    using assms(1) word_width slug_width id_width by (auto simp: event_ok_def)
  show ?thesis
    unfolding event_payload_def
    by (rule order_trans [OF length_render_object])
      (use i w in \<open>simp_all add: line_opts_fields dump_length u_Cons esc_char_def\<close>)
qed

lemma new_entries_length:
  assumes c: "canonicalize_family_issue d agent repository = Inr ci" "draft_strings d"
    and i: "REQUEST_ID i" and p: "slug_match p" and t: "0 \<le> t" "t < 10 ^ 11" and ev: "new_event_ok i p t event"
  shows "sum_list (map entry_length (entries_of (new_pending i p t ci event))) \<le> 100000"
proof -
  let ?r = "new_pending i p t ci event"
  have n: "length (int_repr t) \<le> 12" "length (int_repr (t + TTL_SECONDS)) \<le> 12"
    using t by (auto intro!: int_length simp: TTL_SECONDS_def)
  have w: "json_width (ci_title ci) \<le> 1024" "json_width (ci_body ci) \<le> 66300"
    using issue_fits [OF c] by (simp_all add: fits_def)
  have "sum_list (map entry_length (event_entry ?r)) \<le> 2000"
  proof (cases event)
    case (Some e)
    then have "event_ok e" "ev_timestamp e < 10 ^ 11" using ev t by (simp_all add: new_event_ok_def)
    from event_length [OF this] show ?thesis
      by (simp add: event_entry_def new_pending_def Some entry_length_def dump_length u_Cons esc_char_def del: One_nat_def)
  qed (simp add: event_entry_def new_pending_def)
  moreover have "sum_list (map entry_length (common_entries ?r)) \<le> 1000"
    using n slug_width [OF p] id_width [OF i]
    by (simp add: common_entries_def new_pending_def entry_length_def dump_length u_Cons esc_char_def)
  moreover have "sum_list (map entry_length (outcome_entries ?r)) \<le> 68000"
    using w by (simp add: outcome_entries_def new_pending_def entry_length_def dump_length u_Cons esc_char_def)
  moreover have "recovery_entry ?r = []" by (simp add: recovery_entry_def new_pending_def)
  ultimately show ?thesis by (simp add: entries_of_def)
qed

text \<open>
  C22. No proposal that passes the limits of a draft is too large to be stored: the record that
  \<open>create_pending\<close> makes of its canonical issue is encoded without an error, the file is
  within the limit that its readers enforce, and reading it gives the record back.
\<close>

theorem new_record_fits:
  assumes "canonicalize_family_issue d agent repository = Inr ci" and "draft_strings d"
    and "REQUEST_ID i" and "slug_match p" and "0 \<le> t" and "t < 10 ^ 11" and "new_event_ok i p t event" and "2 \<le> lim"
  shows "\<exists>b. encode_pending (new_pending i p t ci event) = Inr b \<and> length b \<le> MAX_RECORD_BYTES
    \<and> decode_pending lim b = Inr (new_pending i p t ci event)"
proof -
  have s: "storable (new_pending i p t ci event)" by (rule new_storable [OF assms(1-7)])
  have "length (record_line (new_pending i p t ci event)) \<le> MAX_RECORD_BYTES"
    using record_length [OF s] new_entries_length [OF assms(1-7)] by (simp add: MAX_RECORD_BYTES_def)
  then show ?thesis using encode_record [OF s] decode_record [OF s assms(8)] by blast
qed

lemma demo_draft_strings: "draft_strings demo_draft"
  by (simp add: draft_strings_def demo_draft_def)

theorem new_record_fits_witness:
  "\<exists>b. encode_pending (new_pending (replicate 32 48) (u ''p'') 7 demo_issue (Some demo_event)) = Inr b
     \<and> length b \<le> MAX_RECORD_BYTES
     \<and> decode_pending 2 b = Inr (new_pending (replicate 32 48) (u ''p'') 7 demo_issue (Some demo_event))"
proof (rule new_record_fits [OF demo_issue_canonical demo_draft_strings])
  have "event_ok demo_event" by (rule demo_event_ok)
  then show "REQUEST_ID (replicate 32 48)" "slug_match (u ''p'')"
    by (simp_all add: event_ok_def demo_event_def)
  show "new_event_ok (replicate 32 48) (u ''p'') 7 (Some demo_event)"
    using demo_event_ok by (simp add: new_event_ok_def demo_event_def)
qed simp_all

end
