(* ===== verification/Pending_Safety.thy ===== *)
theory Pending_Safety
  imports Publish_Safety Pending_Bounds
begin

text \<open>
  The life of a record of \<open>src/agent_container/family_pending.py\<close>: the transitions that the
  store allows as a relation between records, and the proof that the operations on a locked
  record take its file along this relation, one whole step at a time, whatever fails; then
  any run of these operations, with reopenings after each failure or kill.
\<close>

section \<open>The life of a record\<close>

definition marked :: "PendingRequest \<Rightarrow> bool" where
  "marked r \<longleftrightarrow> pr_recovery r \<or> pr_event r \<noteq> None"

text \<open>
  A transition needs the last one to be logged; it keeps the text only for states that may
  still be sent. \<open>migrate\<close> turns the old recovery bit into an event, \<open>logged\<close> drops the event.
\<close>

inductive pending_step :: "PendingRequest \<Rightarrow> PendingRequest \<Rightarrow> bool" where
  transition: "\<not> marked r \<Longrightarrow> target \<in> TRANSITIONS (pr_state r) \<Longrightarrow>
     r' = r\<lparr>pr_state := target, pr_issue := (if target \<in> CONTENT_STATES then pr_issue r else None),
       pr_issue_number := number, pr_issue_url := url, pr_recovery := recovery, pr_event := event\<rparr> \<Longrightarrow>
     pending_ok r' \<Longrightarrow> pending_step r r'"
| migrate: "pr_recovery r \<Longrightarrow> pr_event r = None \<Longrightarrow> r' = r\<lparr>pr_recovery := False, pr_event := Some ev\<rparr> \<Longrightarrow>
     pending_ok r' \<Longrightarrow> pending_step r r'"
| logged: "pr_event r = Some ev \<Longrightarrow> r' = r\<lparr>pr_recovery := False, pr_event := None\<rparr> \<Longrightarrow>
     pending_ok r' \<Longrightarrow> pending_step r r'"

inductive_cases pending_stepE: "pending_step r r'"

lemma step_identity:
  "pending_step r r' \<Longrightarrow> pr_request_id r' = pr_request_id r \<and> pr_project_id r' = pr_project_id r
     \<and> pr_created_at r' = pr_created_at r \<and> pr_expires_at r' = pr_expires_at r"
  by (auto elim: pending_stepE)

lemma terminal_no_transition: "st \<in> TERMINAL_STATES \<longleftrightarrow> TRANSITIONS st = {}"
  by (cases st) (auto simp: TERMINAL_STATES_def)

lemma step_terminal:
  assumes "pending_step r r'" and "pr_state r \<in> TERMINAL_STATES"
  shows "pr_state r' = pr_state r \<and> pr_issue r' = pr_issue r \<and> pr_issue_number r' = pr_issue_number r
    \<and> pr_issue_url r' = pr_issue_url r"
  using assms terminal_no_transition by (auto elim!: pending_stepE)

text \<open>A text that was erased, or that the request had, is never replaced by another.\<close>

lemma step_issue: "pending_step r r' \<Longrightarrow> pr_issue r' = pr_issue r \<or> pr_issue r' = None"
  by (erule pending_stepE) auto

lemma steps_preserve:
  assumes "pending_step\<^sup>*\<^sup>* r r'"
  shows "pr_request_id r' = pr_request_id r \<and> pr_project_id r' = pr_project_id r
    \<and> pr_created_at r' = pr_created_at r \<and> pr_expires_at r' = pr_expires_at r
    \<and> (pr_issue r' = pr_issue r \<or> pr_issue r' = None)"
  using assms
proof induction
  case (step q q')
  then show ?case using step_identity step_issue by fastforce
qed simp

lemma steps_terminal:
  assumes "pending_step\<^sup>*\<^sup>* r r'" and "pr_state r \<in> TERMINAL_STATES"
  shows "pr_state r' = pr_state r \<and> pr_issue r' = pr_issue r \<and> pr_issue_number r' = pr_issue_number r
    \<and> pr_issue_url r' = pr_issue_url r"
  using assms
proof induction
  case (step q q')
  then show ?case using step_terminal [of q q'] by simp
qed simp

section \<open>What a record that was written can be\<close>

text \<open>Texts of a record are Python strings.\<close>

definition valid_texts :: "PendingRequest \<Rightarrow> bool" where
  "valid_texts r \<longleftrightarrow> (\<forall>issue. pr_issue r = Some issue \<longrightarrow> valid_str (ci_title issue) \<and> valid_str (ci_body issue))
     \<and> (\<forall>url. pr_issue_url r = Some url \<longrightarrow> valid_str url)"

lemma first_error_None: "first_error es = None \<longleftrightarrow> (\<forall>e \<in> set es. e = None)"
  by (induction es) (auto split: option.split)

lemma dumped_entries:
  assumes "json_dumps line_dump_opts (JObj kvs) = Inr t" and "(k, v) \<in> set kvs"
  shows "dump_error (sort_json v) = None"
proof -
  have "dump_error (sort_json (JObj kvs)) = None"
    using assms(1) by (auto simp: json_dumps_def Let_def line_dump_opts_def split: option.split_asm)
  then show ?thesis using assms(2) by (force simp: first_error_None)
qed

lemma small_of_dump: "dump_error (sort_json (JInt i)) = None \<Longrightarrow> small_int i"
  by (simp split: if_split_asm)

lemma encoded_storable:
  assumes e: "encode_pending r = Inr b" and v: "valid_texts r"
  shows "storable r"
proof -
  have ok: "pending_ok r" using e by (auto simp: encode_pending_def err_simps validate_pending_Inr)
  then obtain t where t: "json_dumps line_dump_opts (JObj (entries_of r)) = Inr t"
    using e validate_pending_Inr [of r r] request_payload_entries [OF ok]
    by (auto simp: encode_pending_def bindE_Inr_iff)
  have "small_int (pr_created_at r)" "small_int (pr_expires_at r)"
    using dumped_entries [OF t, of "u ''created_at''" "JInt (pr_created_at r)"]
      dumped_entries [OF t, of "u ''expires_at''" "JInt (pr_expires_at r)"] small_of_dump
    by (simp_all only: entries_of_def common_entries_def set_append list.set Un_iff insert_iff simp_thms)
  moreover have "small_int (ev_timestamp ev)" if "pr_event r = Some ev" for ev
  proof -
    have "dump_error (sort_json (event_payload ev)) = None"
      by (rule dumped_entries [OF t, of "u ''audit_event''"]) (simp add: entries_of_def event_entry_def that)
    then have "dump_error (event_payload ev) = None" by (simp only: event_payload_sorted)
    then show ?thesis by (simp add: event_payload_def split: if_split_asm)
  qed
  ultimately show ?thesis using ok v by (auto simp: storable_def valid_texts_def)
qed

lemma encoded_decodes:
  assumes "encode_pending r = Inr b" and "valid_texts r" and "2 \<le> lim"
  shows "decode_pending lim b = Inr r"
  using encode_record [OF encoded_storable [OF assms(1,2)]] decode_record [OF encoded_storable [OF assms(1,2)] assms(3)] assms(1)
  by simp

section \<open>A locked record\<close>

text \<open>The name leads to a file that decodes to a record with \<open>H\<close>.\<close>

definition record_with :: "nat \<Rightarrow> (PendingRequest \<Rightarrow> bool) \<Rightarrow> (fid \<times> bytes) option \<Rightarrow> bool" where
  "record_with lim H e \<longleftrightarrow> (\<exists>f c r. e = Some (f, c) \<and> decode_pending lim c = Inr r \<and> valid_texts r \<and> H r)"

text \<open>The handle of a \<open>with\<close> block, and what is true of the file when the block is left.\<close>

definition handle :: "fid set \<Rightarrow> snapshot_files \<Rightarrow> nat \<Rightarrow> fid \<Rightarrow> pystr \<Rightarrow> nat \<Rightarrow> (PendingRequest \<Rightarrow> bool) \<Rightarrow> LockedPending \<times> world \<Rightarrow> bool" where
  "handle R G p d n lim H s \<longleftrightarrow> lk_parent (fst s) = p \<and> lk_record_name (fst s) = n \<and> H (lk_request (fst s))
     \<and> kept R G p d n (record_with lim (\<lambda>r. r = lk_request (fst s))) (snd s)"

definition left :: "fid set \<Rightarrow> snapshot_files \<Rightarrow> nat \<Rightarrow> fid \<Rightarrow> pystr \<Rightarrow> nat \<Rightarrow> (PendingRequest \<Rightarrow> bool) \<Rightarrow> LockedPending \<times> world \<Rightarrow> bool" where
  "left R G p d n lim H s \<longleftrightarrow> kept R G p d n (record_with lim H) (snd s)"

lemma handle_left: "handle R G p d n lim H s \<Longrightarrow> (\<And>r. H r \<Longrightarrow> L r) \<Longrightarrow> left R G p d n lim L s"
  unfolding handle_def left_def by (elim conjE kept_mono) (auto simp: record_with_def)

lemma triple_handle_reads:
  assumes "reads R m" and "\<And>r. H r \<Longrightarrow> L r"
  shows "triple (handle R G p d n lim H) (sys m) (\<lambda>_. handle R G p d n lim H) (\<lambda>_. left R G p d n lim L)"
proof (rule triple_sys)
  fix l :: LockedPending
  let ?X = "record_with lim (\<lambda>r. r = lk_request l)"
  show "triple (\<lambda>w. handle R G p d n lim H (l, w)) m (\<lambda>_ w. handle R G p d n lim H (l, w)) (\<lambda>_ w. left R G p d n lim L (l, w))"
  proof (cases "lk_parent l = p \<and> lk_record_name l = n \<and> H (lk_request l)")
    case True
    have "triple (kept R G p d n ?X) m (\<lambda>_. kept R G p d n ?X) (\<lambda>_. kept R G p d n ?X)"
      by (rule triple_reads [OF assms(1) stable_kept])
    then show ?thesis
      by (rule triple_conseq) (use True assms(2) in \<open>auto simp: handle_def left_def record_with_def elim!: kept_mono\<close>)
  qed (auto simp: triple_def handle_def)
qed

lemma triple_handle_check:
  assumes "\<And>r. H r \<Longrightarrow> L r"
  shows "triple (handle R G p d n lim H) (check b e) (\<lambda>_ s. b \<and> handle R G p d n lim H s) (\<lambda>_. left R G p d n lim L)"
  by (rule triple_check) (use handle_left assms in blast)+

lemma triple_handle_lift:
  assumes "\<And>r. H r \<Longrightarrow> L r"
  shows "triple (handle R G p d n lim H) (lift v) (\<lambda>x s. v = Inr x \<and> handle R G p d n lim H s) (\<lambda>_. left R G p d n lim L)"
  by (rule triple_lift) (use handle_left assms in blast)+

lemma reads_read_entry [read_intros]: "reads R (read_entry a b m p n)"
  unfolding read_entry_def by (intro read_intros)

lemma reads_read_record [read_intros]: "reads R (read_record lim p n)"
  unfolding read_record_def read_record_body_def by (intro read_intros)


lemma triple_observe_unchanged:
  assumes "\<And>r. H r \<Longrightarrow> L r"
  shows "triple (handle R G p d n lim H) (observe_unchanged lim)
    (\<lambda>r s. r = lk_request (fst s) \<and> handle R G p d n lim H s) (\<lambda>_. left R G p d n lim L)"
  unfolding observe_unchanged_def
proof (rule triple_locals)
  fix l :: LockedPending
  let ?H = "handle R G p d n lim (\<lambda>r. r = lk_request l \<and> H r)"
  have w: "r = lk_request l \<and> H r \<Longrightarrow> L r" for r using assms by blast
  note r = triple_handle_reads [where H = "\<lambda>r. r = lk_request l \<and> H r", OF _ w]
  have "triple ?H
      (bind (sys (entry_stat (lk_parent l) (lk_record_name l))) (\<lambda>current.
       bind (sys (validate_private_file current)) (\<lambda>_.
       bind (check (same_inode (lk_expected l) current) record_changed) (\<lambda>_.
       bind (sys (read_record lim (lk_parent l) (lk_record_name l))) (\<lambda>(observed, observed_stat).
       bind (check (observed = lk_request l \<and> same_inode (lk_expected l) observed_stat) record_changed) (\<lambda>_.
       ret observed))))))
      (\<lambda>r s. r = lk_request (fst s) \<and> handle R G p d n lim H s) (\<lambda>_. left R G p d n lim L)"
    by (rule triple_bind [OF r [OF reads_entry_stat]], assumption, rule triple_bind [OF r [OF reads_validate_private_file]],
        assumption, rule triple_bind [OF triple_handle_check [where L = L]], simp add: assms, rule triple_conj_pure,
        rule triple_bind [OF r [OF reads_read_record]], assumption, unfold case_prod_unfold,
        rule triple_bind [OF triple_handle_check [where L = L]], simp add: assms, rule triple_conj_pure, rule triple_ret,
        clarsimp simp: handle_def)
  then show "triple (\<lambda>s. handle R G p d n lim H s \<and> fst s = l)
      (bind (sys (entry_stat (lk_parent l) (lk_record_name l))) (\<lambda>current.
       bind (sys (validate_private_file current)) (\<lambda>_.
       bind (check (same_inode (lk_expected l) current) record_changed) (\<lambda>_.
       bind (sys (read_record lim (lk_parent l) (lk_record_name l))) (\<lambda>(observed, observed_stat).
       bind (check (observed = lk_request l \<and> same_inode (lk_expected l) observed_stat) record_changed) (\<lambda>_.
       ret observed))))))
      (\<lambda>r s. r = lk_request (fst s) \<and> handle R G p d n lim H s) (\<lambda>_. left R G p d n lim L)"
    by (rule triple_pre) (auto simp: handle_def)
qed

lemma kept_split: "kept R G p d n (record_with lim H) w \<longleftrightarrow>
    (\<exists>f c r. (decode_pending lim c = Inr r \<and> valid_texts r \<and> H r) \<and> kept R G p d n ((=) (Some (f, c))) w)"
  unfolding kept_def record_with_def by blast

lemma triple_replace_record:
  assumes new: "decode_pending lim body = Inr changed" "valid_texts changed" and L: "L r0" "L changed"
  shows "triple (kept R G p d n (record_with lim (\<lambda>r. r = r0))) (atomic_replace p n expected body)
    (\<lambda>_. kept R G p d n (record_with lim (\<lambda>r. r = changed))) (\<lambda>_. kept R G p d n (record_with lim L))"
  unfolding kept_split [where H = "\<lambda>r. r = r0", abs_def]
proof (intro triple_ex triple_conj_pure)
  fix f c r
  assume "decode_pending lim c = Inr r \<and> valid_texts r \<and> r = r0"
  then show "triple (kept R G p d n ((=) (Some (f, c)))) (atomic_replace p n expected body)
      (\<lambda>_. kept R G p d n (record_with lim (\<lambda>r. r = changed))) (\<lambda>_. kept R G p d n (record_with lim L))"
    by (intro triple_conseq [OF triple_atomic_replace])
      (use new L in \<open>auto simp: record_with_def is_new_def old_or_new_def elim!: kept_mono\<close>)
qed

lemma triple_store_changed:
  assumes v: "valid_texts changed" and lim: "2 \<le> lim" and H: "H changed" and old: "\<And>r. H' r \<Longrightarrow> L r" and new: "H changed \<Longrightarrow> L changed"
  shows "triple (handle R G p d n lim H') (store_changed changed)
    (\<lambda>r s. r = changed \<and> handle R G p d n lim (\<lambda>q. q = changed) s) (\<lambda>_. left R G p d n lim L)"
  unfolding store_changed_def
proof (rule triple_locals)
  fix l :: LockedPending
  show "triple (\<lambda>s. handle R G p d n lim H' s \<and> fst s = l)
     (bind (lift (encode_pending changed)) (\<lambda>body.
      bind (sys (atomic_replace (lk_parent l) (lk_record_name l) (lk_expected l) body)) (\<lambda>s.
      bind (assign (\<lambda>lk. lk\<lparr>lk_expected := s, lk_request := changed, lk_body := body\<rparr>)) (\<lambda>_.
      ret changed))))
     (\<lambda>r s. r = changed \<and> handle R G p d n lim (\<lambda>q. q = changed) s) (\<lambda>_. left R G p d n lim L)"
  proof (rule triple_bind)
    show "triple (\<lambda>s. handle R G p d n lim H' s \<and> fst s = l) (lift (encode_pending changed))
        (\<lambda>body s. encode_pending changed = Inr body \<and> handle R G p d n lim H' s \<and> fst s = l) (\<lambda>_. left R G p d n lim L)"
      by (rule triple_lift) (use handle_left old in blast)+
    fix body
    show "triple (\<lambda>s. encode_pending changed = Inr body \<and> handle R G p d n lim H' s \<and> fst s = l)
       (bind (sys (atomic_replace (lk_parent l) (lk_record_name l) (lk_expected l) body)) (\<lambda>s.
        bind (assign (\<lambda>lk. lk\<lparr>lk_expected := s, lk_request := changed, lk_body := body\<rparr>)) (\<lambda>_.
        ret changed)))
       (\<lambda>r s. r = changed \<and> handle R G p d n lim (\<lambda>q. q = changed) s) (\<lambda>_. left R G p d n lim L)"
    proof (rule triple_conj_pure)
      assume "encode_pending changed = Inr body"
      then have dec: "decode_pending lim body = Inr changed" using encoded_decodes v lim by blast
      let ?N = "kept R G p d n (record_with lim (\<lambda>r. r = changed))"
      let ?S = "\<lambda>s. fst s = l \<and> lk_parent l = p \<and> lk_record_name l = n \<and> ?N (snd s)"
      have "triple (\<lambda>s. handle R G p d n lim H' s \<and> fst s = l)
          (sys (atomic_replace (lk_parent l) (lk_record_name l) (lk_expected l) body)) (\<lambda>_. ?S) (\<lambda>_. left R G p d n lim L)"
      proof (cases "lk_parent l = p \<and> lk_record_name l = n \<and> H' (lk_request l)")
        case True
        have "triple (kept R G p d n (record_with lim (\<lambda>r. r = lk_request l))) (atomic_replace p n (lk_expected l) body)
            (\<lambda>_. ?N) (\<lambda>_. kept R G p d n (record_with lim L))"
          by (rule triple_replace_record [OF dec v]) (use True old new H in auto)
        note t = this
        have "triple (\<lambda>w. handle R G p d n lim H' (la, w) \<and> fst (la, w) = l) (atomic_replace p n (lk_expected l) body)
            (\<lambda>_ w. ?S (la, w)) (\<lambda>_ w. left R G p d n lim L (la, w))" for la
        proof (cases "la = l")
          case eq: True
          show ?thesis by (rule triple_conseq [OF t]) (use True eq in \<open>simp_all add: handle_def left_def\<close>)
        qed (simp add: triple_def)
        then show ?thesis using True by (intro triple_sys) simp
      qed (auto simp: triple_def handle_def)
      then show "triple (\<lambda>s. handle R G p d n lim H' s \<and> fst s = l)
         (bind (sys (atomic_replace (lk_parent l) (lk_record_name l) (lk_expected l) body)) (\<lambda>s.
          bind (assign (\<lambda>lk. lk\<lparr>lk_expected := s, lk_request := changed, lk_body := body\<rparr>)) (\<lambda>_.
          ret changed)))
         (\<lambda>r s. r = changed \<and> handle R G p d n lim (\<lambda>q. q = changed) s) (\<lambda>_. left R G p d n lim L)"
        by (rule triple_bind) (rule triple_bind [OF triple_assign], rule_tac [2] triple_ret, auto simp: handle_def)
    qed
  qed
qed

section \<open>The operations\<close>

text \<open>What a transition to \<open>target\<close> makes of a record.\<close>

definition moved_to :: "PendingState \<Rightarrow> PendingRequest \<Rightarrow> PendingRequest \<Rightarrow> bool" where
  "moved_to target r r' \<longleftrightarrow> pending_step r r' \<and> pr_state r' = target \<and> target \<in> TRANSITIONS (pr_state r)"

lemma validate_issue_url_same: "validate_issue_url url n = Inr x \<Longrightarrow> x = url"
  by (auto simp: validate_issue_url_def exact_text_def Let_def split: if_split_asm list.split_asm)

lemma created_result_url: "created_result t n url = Inr (m, Some v) \<Longrightarrow> url = Some v"
  by (auto simp: created_result_def bindE_Inr_iff require_Inr_iff Let_def dest: validate_issue_url_same
      split: if_split_asm option.split_asm)

text \<open>The steps of an operation on a handle.\<close>

lemma triple_false: "(\<And>s. \<not> P s) \<Longrightarrow> triple P m Q E"
  by (simp add: triple_def)

lemma bind_handle_check:
  assumes "b \<Longrightarrow> triple (handle R G p d n lim H) (f ()) Q (\<lambda>_. left R G p d n lim L)" and "\<And>r. H r \<Longrightarrow> L r"
  shows "triple (handle R G p d n lim H) (bind (check b e) f) Q (\<lambda>_. left R G p d n lim L)"
  by (rule triple_bind [OF triple_handle_check [OF assms(2)]], assumption, rule triple_conj_pure) (simp add: assms(1))

lemma bind_handle_lift:
  assumes "\<And>x. v = Inr x \<Longrightarrow> triple (handle R G p d n lim H) (f x) Q (\<lambda>_. left R G p d n lim L)" and "\<And>r. H r \<Longrightarrow> L r"
  shows "triple (handle R G p d n lim H) (bind (lift v) f) Q (\<lambda>_. left R G p d n lim L)"
  by (rule triple_bind [OF triple_handle_lift [OF assms(2)]], assumption, rule triple_conj_pure) (simp add: assms(1))

lemma bind_handle_observe:
  assumes "triple (handle R G p d n lim (\<lambda>r. r = r0)) (f r0) Q (\<lambda>_. left R G p d n lim L)" and "L r0"
  shows "triple (handle R G p d n lim (\<lambda>r. r = r0)) (bind (observe_unchanged lim) f) Q (\<lambda>_. left R G p d n lim L)"
proof (rule triple_bind [OF triple_observe_unchanged])
  show "r = r0 \<Longrightarrow> L r" for r using assms(2) by simp
  show "triple (\<lambda>s. r = lk_request (fst s) \<and> handle R G p d n lim (\<lambda>r. r = r0) s) (f r) Q (\<lambda>_. left R G p d n lim L)" for r
  proof (cases "r = r0")
    case True
    show ?thesis unfolding True by (rule triple_pre [OF assms(1)]) (erule conjunct2)
  next
    case False
    then show ?thesis by (intro triple_false) (auto simp: handle_def)
  qed
qed

lemma triple_handle_pure:
  assumes "\<And>r0. H r0 \<Longrightarrow> triple (handle R G p d n lim (\<lambda>r. r = r0)) m Q E"
  shows "triple (handle R G p d n lim H) m Q E"
proof (rule tripleI)
  fix s x t e
  assume s: "handle R G p d n lim H s"
  then have h: "H (lk_request (fst s))" "handle R G p d n lim (\<lambda>r. r = lk_request (fst s)) s"
    by (simp_all add: handle_def)
  show "m s = (Inr x, t) \<Longrightarrow> Q x t" by (rule tripleD [OF assms [OF h(1)] _ h(2)])
  show "m s = (Inl e, t) \<Longrightarrow> E e t" by (rule triple_errorD [OF assms [OF h(1)] _ h(2)])
qed

lemma transition_split: 
  assumes "\<And>l. lk_request l = r0 \<Longrightarrow> triple (handle R G p d n lim (\<lambda>r. r = r0)) (f l) Q E"
  shows "triple (handle R G p d n lim (\<lambda>r. r = r0)) (locals f) Q E"
proof (rule triple_locals)
  fix l
  show "triple (\<lambda>s. handle R G p d n lim (\<lambda>r. r = r0) s \<and> fst s = l) (f l) Q E"
  proof (cases "lk_request l = r0")
    case True
    show ?thesis by (rule triple_pre [OF assms [OF True]]) simp
  next
    case False
    then show ?thesis by (intro triple_false) (auto simp: handle_def)
  qed
qed

lemma triple_transition_pending:
  assumes url: "\<forall>t. issue_url = Some t \<longrightarrow> valid_str t" and texts: "valid_texts r0" and lim: "2 \<le> lim"
  shows "triple (handle R G p d n lim (\<lambda>r. r = r0)) (transition_pending lim target issue_number issue_url recovery event)
    (\<lambda>r s. moved_to target r0 r \<and> pr_recovery r = recovery \<and> pr_event r = event \<and> handle R G p d n lim (\<lambda>q. q = r) s)
    (\<lambda>_. left R G p d n lim (\<lambda>r. r = r0 \<or> moved_to target r0 r \<and> pr_event r = event))"
  unfolding transition_pending_def
proof (rule transition_split)
  fix l
  assume l: "lk_request l = r0"
  let ?L = "\<lambda>r. r = r0 \<or> moved_to target r0 r \<and> pr_event r = event"
  let ?Q = "\<lambda>r s. moved_to target r0 r \<and> pr_recovery r = recovery \<and> pr_event r = event \<and> handle R G p d n lim (\<lambda>q. q = r) s"
  have weak: "r = r0 \<Longrightarrow> ?L r" for r by simp
  have store: "triple (handle R G p d n lim (\<lambda>r. r = r0)) (store_changed changed) ?Q (\<lambda>_. left R G p d n lim ?L)"
    if n: "\<not> (pr_recovery r0 \<or> pr_event r0 \<noteq> None)" "target \<in> TRANSITIONS (pr_state r0)"
      and cr: "created_result target issue_number issue_url = Inr (number, url)"
      and ch: "validate_pending (r0\<lparr>pr_state := target, pr_issue := (if target \<in> CONTENT_STATES then pr_issue r0 else None),
         pr_issue_number := number, pr_issue_url := url, pr_recovery := recovery, pr_event := event\<rparr>) = Inr changed"
    for changed number url
  proof -
    have eq: "changed = r0\<lparr>pr_state := target, pr_issue := (if target \<in> CONTENT_STATES then pr_issue r0 else None),
         pr_issue_number := number, pr_issue_url := url, pr_recovery := recovery, pr_event := event\<rparr>"
      using ch unfolding validate_pending_Inr by (rule conjunct1)
    have ok: "pending_ok changed"
      using ch unfolding validate_pending_Inr by (elim conjE) (simp only:)
    have "pending_step r0 changed"
      by (rule pending_step.transition [OF _ n(2) eq ok]) (use n(1) in \<open>simp add: marked_def\<close>)
    moreover have "pr_state changed = target" unfolding eq by simp
    ultimately have m: "moved_to target r0 changed" using n(2) by (simp only: moved_to_def)
    have "valid_texts changed"
      using texts url cr created_result_url [of target issue_number issue_url number]
      by (cases issue_url) (auto simp: eq valid_texts_def)
    moreover have "pr_recovery changed = recovery" "pr_event changed = event" unfolding eq by simp_all
    moreover note m
    ultimately show ?thesis
      by (intro triple_post [OF triple_store_changed [OF _ lim, where H = "\<lambda>_. True"]]) simp_all
  qed
  show "triple (handle R G p d n lim (\<lambda>r. r = r0)) (bind (check (recovery \<longrightarrow> target = UNKNOWN) transition_invalid) (\<lambda>_.
     bind (check (\<not> (recovery \<and> event \<noteq> None)) transition_invalid) (\<lambda>_.
     bind (check (\<not> (pr_recovery (lk_request l) \<or> pr_event (lk_request l) \<noteq> None))
       (ValueError ''family pending audit is incomplete'')) (\<lambda>_.
     bind (check (target \<in> TRANSITIONS (pr_state (lk_request l))) transition_invalid) (\<lambda>_.
     bind (observe_unchanged lim) (\<lambda>observed.
     bind (lift (created_result target issue_number issue_url)) (\<lambda>(number, url).
     bind (lift (validate_pending (observed\<lparr>pr_state := target,
         pr_issue := (if target \<in> CONTENT_STATES then pr_issue observed else None),
         pr_issue_number := number, pr_issue_url := url, pr_recovery := recovery, pr_event := event\<rparr>))) (\<lambda>changed.
     store_changed changed)))))))) ?Q (\<lambda>_. left R G p d n lim ?L)"
    unfolding l
    by (intro bind_handle_check bind_handle_observe weak) 
      (unfold case_prod_unfold, intro bind_handle_lift weak store, simp_all)
qed

lemma triple_replace_audit_metadata:
  assumes texts: "valid_texts r0" and lim: "2 \<le> lim"
    and step: "\<And>r'. r' = r0\<lparr>pr_recovery := recovery, pr_event := event\<rparr> \<Longrightarrow> pending_ok r' \<Longrightarrow> pending_step r0 r'"
  shows "triple (handle R G p d n lim (\<lambda>r. r = r0)) (replace_audit_metadata lim recovery event)
    (\<lambda>r s. pending_step r0 r \<and> r = r0\<lparr>pr_recovery := recovery, pr_event := event\<rparr> \<and> handle R G p d n lim (\<lambda>q. q = r) s)
    (\<lambda>_. left R G p d n lim (\<lambda>r. r = r0 \<or> pending_step r0 r))"
  unfolding replace_audit_metadata_def
proof (intro bind_handle_observe bind_handle_lift)
  fix changed
  assume "validate_pending (r0\<lparr>pr_recovery := recovery, pr_event := event\<rparr>) = Inr changed"
  then have ch: "changed = r0\<lparr>pr_recovery := recovery, pr_event := event\<rparr>"
    and ok: "pending_ok (r0\<lparr>pr_recovery := recovery, pr_event := event\<rparr>)"
    unfolding validate_pending_Inr by (rule conjunct1, rule conjunct2)
  have st: "pending_step r0 changed" unfolding ch by (rule step [OF refl ok])
  have "valid_texts changed" using texts unfolding ch by (simp add: valid_texts_def)
  then show "triple (handle R G p d n lim (\<lambda>r. r = r0)) (store_changed changed)
      (\<lambda>r s. pending_step r0 r \<and> r = r0\<lparr>pr_recovery := recovery, pr_event := event\<rparr> \<and> handle R G p d n lim (\<lambda>q. q = r) s)
      (\<lambda>_. left R G p d n lim (\<lambda>r. r = r0 \<or> pending_step r0 r))"
    by (intro triple_post [OF triple_store_changed [OF _ lim, where H = "\<lambda>_. True"]])
      (use st in \<open>simp_all add: ch [symmetric]\<close>)
qed simp_all

lemma triple_clear_audit_event:
  assumes texts: "valid_texts r0" and lim: "2 \<le> lim"
  shows "triple (handle R G p d n lim (\<lambda>r. r = r0)) (clear_audit_event lim)
    (\<lambda>r s. pending_step r0 r \<and> r = r0\<lparr>pr_recovery := False, pr_event := None\<rparr> \<and> handle R G p d n lim (\<lambda>q. q = r) s)
    (\<lambda>_. left R G p d n lim (\<lambda>r. r = r0 \<or> pending_step r0 r))"
  unfolding clear_audit_event_def
proof (rule transition_split, rule bind_handle_check)
  fix l :: LockedPending
  assume "lk_request l = r0" and "pr_event (lk_request l) \<noteq> None"
  then obtain ev where ev: "pr_event r0 = Some ev" by blast
  show "triple (handle R G p d n lim (\<lambda>r. r = r0)) (replace_audit_metadata lim False None)
    (\<lambda>r s. pending_step r0 r \<and> r = r0\<lparr>pr_recovery := False, pr_event := None\<rparr> \<and> handle R G p d n lim (\<lambda>q. q = r) s)
    (\<lambda>_. left R G p d n lim (\<lambda>r. r = r0 \<or> pending_step r0 r))"
    by (rule triple_replace_audit_metadata [OF texts lim pending_step.logged [OF ev]])
qed simp

lemma triple_migrate:
  assumes texts: "valid_texts r0" and lim: "2 \<le> lim"
  shows "triple (handle R G p d n lim (\<lambda>r. r = r0)) (migrate_recovery_audit_pending lim timestamp)
    (\<lambda>r s. pending_step r0 r \<and> pr_event r \<noteq> None \<and> handle R G p d n lim (\<lambda>q. q = r) s)
    (\<lambda>_. left R G p d n lim (\<lambda>r. r = r0 \<or> pending_step r0 r))"
  unfolding migrate_recovery_audit_pending_def Let_def
proof (rule transition_split, rule bind_handle_check, rule bind_handle_lift)
  fix l :: LockedPending and ev
  assume "lk_request l = r0" and "pr_state (lk_request l) = UNKNOWN \<and> pr_recovery (lk_request l) \<and> pr_event (lk_request l) = None"
  then have r: "pr_recovery r0" "pr_event r0 = None" by auto
  show "triple (handle R G p d n lim (\<lambda>r. r = r0)) (replace_audit_metadata lim False (Some ev))
    (\<lambda>r s. pending_step r0 r \<and> pr_event r \<noteq> None \<and> handle R G p d n lim (\<lambda>q. q = r) s)
    (\<lambda>_. left R G p d n lim (\<lambda>r. r = r0 \<or> pending_step r0 r))"
    by (rule triple_post [OF triple_replace_audit_metadata [OF texts lim pending_step.migrate [OF r]]])
      (assumption, assumption, auto)
qed simp_all

section \<open>Properties\<close>

text \<open>
  Any sequence of the operations on one record, carried out by the code: a handle performs operations as long
  as they return; an operation that fails, or a process that is killed, leaves the \<open>with\<close> block, and
  whoever opens the record next, in whatever world it then is, gets a handle with what the file decodes to,
  provided that nobody else touched the file in between. (\<open>drain_audit_event\<close> writes the audit file, which is
  elsewhere, between two operations of a handle: it is a reopening and then \<open>Clear_Event\<close>.)
\<close>

datatype pending_operation =
    Transition PendingState "int option" "pystr option" bool "AuditEvent option"
  | Migrate int
  | Clear_Event

fun perform :: "nat \<Rightarrow> pending_operation \<Rightarrow> (LockedPending \<times> world, PendingRequest) prog" where
  "perform lim (Transition target number url recovery event) = transition_pending lim target number url recovery event"
| "perform lim (Migrate timestamp) = migrate_recovery_audit_pending lim timestamp"
| "perform lim Clear_Event = clear_audit_event lim"

fun address_text :: "pending_operation \<Rightarrow> bool" where
  "address_text (Transition target number (Some url) recovery event) = valid_str url"
| "address_text _ = True"

inductive pending_run ::
  "fid set \<Rightarrow> snapshot_files \<Rightarrow> fid \<Rightarrow> pystr \<Rightarrow> nat \<Rightarrow> PendingRequest \<Rightarrow> LockedPending option \<Rightarrow> world \<Rightarrow> bool"
  for R G d n lim r0 where
  begun: "dir_open R G (lk_parent lk) d w \<Longrightarrow> at_name R G d n (Some (f, b)) w \<Longrightarrow> lk_record_name lk = n \<Longrightarrow>
    decode_pending lim b = Inr r0 \<Longrightarrow> lk_request lk = r0 \<Longrightarrow> pending_run R G d n lim r0 (Some lk) w"
| performed: "pending_run R G d n lim r0 (Some lk) w \<Longrightarrow> address_text operation \<Longrightarrow>
    perform lim operation (lk, w) = (r, (lk', w')) \<Longrightarrow>
    pending_run R G d n lim r0 (if isl r then None else Some lk') w'"
| opened: "pending_run R G d n lim r0 h w \<Longrightarrow> at_name R G d n (Some (f, b)) w \<Longrightarrow>
    dir_open R G (lk_parent lk) d w' \<Longrightarrow> at_name R G d n (Some (g, b)) w' \<Longrightarrow> lk_record_name lk = n \<Longrightarrow>
    decode_pending lim b = Inr (lk_request lk) \<Longrightarrow> pending_run R G d n lim r0 (Some lk) w'"

lemma at_name_unique: "at_name R G d n e w \<Longrightarrow> at_name R G d n e' w \<Longrightarrow> e = e'"
  by (cases e; cases e') (auto simp: at_name_def)

lemma triple_perform:
  assumes texts: "valid_texts r0" and lim: "2 \<le> lim" and url: "address_text operation"
  shows "triple (handle R G p d n lim (\<lambda>r. r = r0)) (perform lim operation)
    (\<lambda>r s. pending_step r0 r \<and> handle R G p d n lim (\<lambda>q. q = r) s) (\<lambda>_. left R G p d n lim (\<lambda>r. r = r0 \<or> pending_step r0 r))"
proof (cases operation)
  case (Transition target number addr recovery event)
  have "\<forall>t. addr = Some t \<longrightarrow> valid_str t" using url Transition by auto
  from triple_transition_pending [OF this texts lim, of R G p d n target number recovery event]
  show ?thesis unfolding Transition perform.simps
    by (rule triple_conseq) (auto simp: moved_to_def left_def record_with_def elim!: kept_mono)
next
  case (Migrate timestamp)
  from triple_migrate [OF texts lim, of R G p d n timestamp]
  show ?thesis unfolding Migrate perform.simps by (rule triple_conseq) auto
next
  case Clear_Event
  from triple_clear_audit_event [OF texts lim, of R G p d n]
  show ?thesis unfolding Clear_Event perform.simps by (rule triple_conseq) auto
qed

text \<open>At every moment of a run the file has a record that the code's steps lead to, and an open handle has it.\<close>

definition run_keeps :: "fid set \<Rightarrow> snapshot_files \<Rightarrow> fid \<Rightarrow> pystr \<Rightarrow> nat \<Rightarrow> PendingRequest \<Rightarrow> LockedPending option \<Rightarrow> world \<Rightarrow> bool" where
  "run_keeps R G d n lim r0 h w \<longleftrightarrow> (\<exists>f b q. at_name R G d n (Some (f, b)) w \<and> decode_pending lim b = Inr q \<and> valid_texts q
     \<and> pending_step\<^sup>*\<^sup>* r0 q
     \<and> (case h of None \<Rightarrow> True | Some lk \<Rightarrow> lk_record_name lk = n \<and> lk_request lk = q \<and> dir_open R G (lk_parent lk) d w))"

lemma run_keeps_handle:
  "run_keeps R G d n lim r0 (Some lk) w \<longleftrightarrow> pending_step\<^sup>*\<^sup>* r0 (lk_request lk)
     \<and> handle R G (lk_parent lk) d n lim (\<lambda>r. r = lk_request lk) (lk, w)"
  unfolding run_keeps_def handle_def kept_def record_with_def by fastforce

lemma left_run_keeps:
  "left R G p d n lim (\<lambda>r. r = r1 \<or> pending_step r1 r) (lk', w') \<Longrightarrow> pending_step\<^sup>*\<^sup>* r0 r1 \<Longrightarrow> run_keeps R G d n lim r0 None w'"
  unfolding run_keeps_def left_def kept_def record_with_def by (fastforce intro: rtranclp.rtrancl_into_rtrancl)

lemma handle_parent: "handle R G p d n lim H (lk, w) \<Longrightarrow> lk_parent lk = p \<and> H (lk_request lk)"
  by (simp add: handle_def)

lemma handle_texts: "handle R G p d n lim H (lk, w) \<Longrightarrow> valid_texts (lk_request lk)"
  by (auto simp: handle_def kept_def record_with_def)

lemma pending_run_keeps:
  assumes "pending_run R G d n lim r0 h w" and "valid_texts r0" and "2 \<le> lim"
  shows "run_keeps R G d n lim r0 h w"
  using assms(1)
proof induction
  case (begun lk w f b)
  then show ?case unfolding run_keeps_def using assms(2) by fastforce
next
  case (performed lk w operation r lk' w')
  from performed.IH have st: "pending_step\<^sup>*\<^sup>* r0 (lk_request lk)"
    and h: "handle R G (lk_parent lk) d n lim (\<lambda>r. r = lk_request lk) (lk, w)" unfolding run_keeps_handle by blast+
  note t = triple_perform [OF handle_texts [OF h] assms(3) performed.hyps(2)]
  show ?case
  proof (cases r)
    case (Inl e)
    then show ?thesis using left_run_keeps [OF triple_errorD [OF t performed.hyps(3) [unfolded Inl] h] st] by simp
  next
    case (Inr x)
    from tripleD [OF t performed.hyps(3) [unfolded Inr] h]
    have "pending_step (lk_request lk) x" "handle R G (lk_parent lk) d n lim (\<lambda>q. q = x) (lk', w')" by blast+
    moreover from handle_parent [OF this(2)] have "lk_parent lk' = lk_parent lk" "lk_request lk' = x" by blast+
    ultimately show ?thesis using st Inr by (auto simp: run_keeps_handle intro: rtranclp.rtrancl_into_rtrancl)
  qed
next
  case (opened h w f b lk w' g)
  from opened.IH obtain f' b' q where q: "at_name R G d n (Some (f', b')) w" "decode_pending lim b' = Inr q" "valid_texts q"
    "pending_step\<^sup>*\<^sup>* r0 q" unfolding run_keeps_def by blast
  from at_name_unique [OF q(1) opened.hyps(2)] have "b' = b" by simp
  with q opened.hyps show ?case unfolding run_keeps_def by fastforce
qed

text \<open>
  C17. The life of a record: whatever operations the code performs on it, one after the other, by handles that
  follow each other after failures and kills, at every moment the name leads to a file that decodes to a
  record with the identity, project and lifetime it had at the start; its text is the one it had or erased;
  an open handle has that record; and if it was created, rejected or expired at the start, its state, text,
  number and URL are as they were.
\<close>

theorem pending_life:
  assumes "pending_run R G d n lim r0 h w" and "valid_texts r0" and "2 \<le> lim"
  shows "\<exists>g b q. lookup (w_files w) d n = Some g \<and> map_option in_data (w_files w g) = Some b
    \<and> decode_pending lim b = Inr q
    \<and> (pr_request_id q, pr_project_id q, pr_created_at q, pr_expires_at q)
      = (pr_request_id r0, pr_project_id r0, pr_created_at r0, pr_expires_at r0)
    \<and> pr_issue q \<in> {pr_issue r0, None}
    \<and> (case h of None \<Rightarrow> True | Some lk \<Rightarrow> lk_request lk = q)
    \<and> (if pr_state r0 \<in> {CREATED, REJECTED, EXPIRED}
       then (pr_state q, pr_issue q, pr_issue_number q, pr_issue_url q)
         = (pr_state r0, pr_issue r0, pr_issue_number r0, pr_issue_url r0) else True)"
proof -
  obtain g b q where q: "at_name R G d n (Some (g, b)) w" "decode_pending lim b = Inr q" "pending_step\<^sup>*\<^sup>* r0 q"
    "case h of None \<Rightarrow> True | Some lk \<Rightarrow> lk_request lk = q"
    using pending_run_keeps [OF assms] unfolding run_keeps_def by (cases h) auto
  from q(1) have "lookup (w_files w) d n = Some g" "map_option in_data (w_files w g) = Some b" by (simp_all add: at_name_def)
  with q(2,4) steps_preserve [OF q(3)] steps_terminal [OF q(3), unfolded TERMINAL_STATES_def] show ?thesis
    by (intro exI [of _ g] exI [of _ b] exI [of _ q]) auto
qed

definition demo_new :: PendingRequest where
  "demo_new = new_pending (replicate 32 48) (u ''p'') 7 demo_issue None"

lemma demo_new_storable: "storable demo_new"
  unfolding demo_new_def
proof (rule new_storable [OF demo_issue_canonical demo_draft_strings])
  show "REQUEST_ID (replicate 32 48)" "slug_match (u ''p'')"
    using demo_event_ok by (simp_all add: event_ok_def demo_event_def)
qed (simp_all add: new_event_ok_def)

text \<open>
  C13. A transition is lawful and atomic: whatever fails during \<open>transition_pending\<close>, and also
  when the process is killed, the record's file decodes either to the record as it was, or to a
  record that a transition to the target allowed by the state table has made of it, with the
  audit event to be logged in it; and when the function returns, to the record it returns.
\<close>

theorem transition_crash_safe:
  assumes "dir_open R G (lk_parent lk) d w" and "at_name R G d (lk_record_name lk) (Some (f, c)) w"
    and "decode_pending lim c = Inr (lk_request lk)" and "valid_texts (lk_request lk)"
    and "\<forall>t. url = Some t \<longrightarrow> valid_str t" and "2 \<le> lim"
  shows "case transition_pending lim target number url recovery event (lk, w) of (r, (lk', w')) \<Rightarrow>
    \<exists>g b q. lookup (w_files w') d (lk_record_name lk) = Some g \<and> map_option in_data (w_files w' g) = Some b
      \<and> decode_pending lim b = Inr q
      \<and> (case r of
           Inl e \<Rightarrow> q = lk_request lk \<or> moved_to target (lk_request lk) q \<and> pr_event q = event
         | Inr x \<Rightarrow> q = x \<and> lk_request lk' = x \<and> moved_to target (lk_request lk) x \<and> pr_event x = event)"
proof -
  let ?r = "lk_request lk"
  have h: "handle R G (lk_parent lk) d (lk_record_name lk) lim (\<lambda>r. r = ?r) (lk, w)"
  proof -
    have "kept R G (lk_parent lk) d (lk_record_name lk) ((=) (Some (f, c))) w" using assms(1,2) by (auto simp: kept_def)
    then show ?thesis unfolding handle_def kept_split fst_conv snd_conv using assms(3,4) by blast
  qed
  note t = triple_transition_pending [OF assms(5,4,6), of R G "lk_parent lk" d "lk_record_name lk" target number recovery event]
  obtain r lk' w' where o': "transition_pending lim target number url recovery event (lk, w) = (r, (lk', w'))"
    by (metis prod.exhaust)
  show ?thesis
  proof (cases r)
    case (Inl e)
    have "left R G (lk_parent lk) d (lk_record_name lk) lim (\<lambda>r. r = ?r \<or> moved_to target ?r r \<and> pr_event r = event) (lk', w')"
      using triple_errorD [OF t _ h] o' Inl by blast
    then show ?thesis using o' Inl by (fastforce simp: left_def kept_def record_with_def at_name_def)
  next
    case (Inr x)
    have "moved_to target ?r x \<and> pr_event x = event \<and> handle R G (lk_parent lk) d (lk_record_name lk) lim (\<lambda>q. q = x) (lk', w')"
      using tripleD [OF t _ h] o' Inr by blast
    then show ?thesis using o' Inr by (fastforce simp: handle_def kept_def record_with_def at_name_def)
  qed
qed

definition demo_handle :: LockedPending where
  "demo_handle = \<lparr>lk_parent = 5, lk_record_name = u ''r'',
     lk_expected = stat_of (0, 2) (demo_inode Regular (record_line demo_new) []), lk_request = demo_new, lk_body = record_line demo_new\<rparr>"

lemma demo_handle_parts: "lk_parent demo_handle = 5" "lk_record_name demo_handle = u ''r''" "lk_request demo_handle = demo_new"
  by (simp_all add: demo_handle_def)

lemma demo_new_texts: "valid_texts demo_new"
  using demo_issue_valid by (simp add: valid_texts_def demo_new_def new_pending_def)

theorem transition_crash_safe_witness:
  "case transition_pending 2 SENDING None None False None (demo_handle, demo_world (record_line demo_new)) of (r, (lk', w')) \<Rightarrow>
    \<exists>g b q. lookup (w_files w') (0, 1) (u ''r'') = Some g \<and> map_option in_data (w_files w' g) = Some b
      \<and> decode_pending 2 b = Inr q
      \<and> (case r of
           Inl e \<Rightarrow> q = demo_new \<or> moved_to SENDING demo_new q \<and> pr_event q = None
         | Inr x \<Rightarrow> q = x \<and> lk_request lk' = x \<and> moved_to SENDING demo_new x \<and> pr_event x = None)"
proof (rule transition_crash_safe [where R = UNIV and G = demo_outside and lk = demo_handle and d = "(0, 1)"
      and w = "demo_world (record_line demo_new)" and f = "(0, 2)" and c = "record_line demo_new", unfolded demo_handle_parts])
  show "decode_pending 2 (record_line demo_new) = Inr demo_new" by (rule decode_record [OF demo_new_storable]) simp
qed (use demo_dir_open demo_at_name demo_new_texts in simp_all)

theorem pending_life_witness:
  "case transition_pending 2 REJECTED None None False None (demo_handle, demo_world (record_line demo_new)) of (r, (lk', w')) \<Rightarrow>
    \<exists>g b q. lookup (w_files w') (0, 1) (u ''r'') = Some g \<and> map_option in_data (w_files w' g) = Some b
      \<and> decode_pending 2 b = Inr q \<and> pr_request_id q = pr_request_id demo_new \<and> pr_issue q \<in> {pr_issue demo_new, None}"
proof -
  let ?w = "demo_world (record_line demo_new)"
  obtain r lk' w' where o': "transition_pending 2 REJECTED None None False None (demo_handle, ?w) = (r, (lk', w'))"
    by (metis prod.exhaust)
  have "pending_run UNIV demo_outside (0, 1) (u ''r'') 2 demo_new (Some demo_handle) ?w"
    by (rule pending_run.begun [where f = "(0, 2)" and b = "record_line demo_new"])
      (use decode_record [OF demo_new_storable, of 2] demo_dir_open demo_at_name in \<open>simp_all add: demo_handle_parts\<close>)
  then have "pending_run UNIV demo_outside (0, 1) (u ''r'') 2 demo_new (if isl r then None else Some lk') w'"
    by (rule pending_run.performed [where operation = "Transition REJECTED None None False None"]) (simp_all add: o')
  from pending_life [OF this demo_new_texts] show ?thesis by (auto simp: o')
qed

end
