(* ===== verification/Audit_Safety.thy ===== *)
theory Audit_Safety
  imports Publish_Safety
begin

text \<open>
  The append-only audit file of \<open>src/agent_container/family_pending.py\<close>: what
  \<open>_append_family_audit\<close> does to the file, while nobody else works in its directory.
\<close>

section \<open>A descriptor that appends\<close>

text \<open>The name leads to the file \<open>a\<close> with content \<open>c\<close>, and \<open>fd\<close> writes at its end.\<close>

definition appending :: "fid set \<Rightarrow> snapshot_files \<Rightarrow> nat \<Rightarrow> fid \<Rightarrow> pystr \<Rightarrow> fid \<Rightarrow> nat \<Rightarrow> bytes \<Rightarrow> world \<Rightarrow> bool" where
  "appending R G p d n a fd c w \<longleftrightarrow> kept R G p d n ((=) (Some (a, c))) w
     \<and> (\<exists>o'. w_fds w fd = Some o' \<and> of_fid o' = a \<and> of_append o')"

lemma appending_kept: "appending R G p d n a fd c w \<Longrightarrow> kept R G p d n ((=) (Some (a, c))) w"
  by (simp add: appending_def)

lemma kept_quiet: "kept R G p d n X w \<Longrightarrow> quiet R w"
  by (simp add: kept_def dir_open_def)

lemma kept_view: "kept R G p d n X w \<Longrightarrow> same_view R w w' \<Longrightarrow> kept R G p d n X w'"
  using stable_kept [of R G p d n X] view_keeps_fds kept_quiet unfolding stable_def same_view_def by blast

lemma appending_view: "appending R G p d n a fd c w \<Longrightarrow> same_view R w w' \<Longrightarrow> appending R G p d n a fd c w'"
  unfolding appending_def using kept_view [of R G p d n "(=) (Some (a, c))" w w'] by (simp add: same_view_def)

lemma triple_appending_looks:
  "looks R m \<Longrightarrow> triple (appending R G p d n a fd c) m (\<lambda>_. appending R G p d n a fd c) (\<lambda>_. appending R G p d n a fd c)"
  by (rule triple_looks) (auto intro: appending_view dest: appending_kept kept_quiet)

text \<open>A call on the descriptor.\<close>

lemma triple_appending_call:
  assumes run: "\<And>u o' i w. appending R G p d n a fd c w \<Longrightarrow> w_fds w fd = Some o' \<Longrightarrow> of_fid o' = a \<Longrightarrow>
      of_append o' \<Longrightarrow> w_files w a = Some i \<Longrightarrow> in_data i = c \<Longrightarrow>
      case f u o' i w of (Inr x, w') \<Rightarrow> Q x w' | (Inl x, w') \<Rightarrow> False"
  shows "triple (appending R G p d n a fd c) (on_fd fd f) Q (\<lambda>_. appending R G p d n a fd c)"
proof -
  have q: "quiet R w" if "appending R G p d n a fd c w" for w
    using that by (rule kept_quiet [OF appending_kept])
  have b: "appending R G p d n a fd c (before_call w)" and k: "appending R G p d n a fd c (killed_world w)"
    if "appending R G p d n a fd c w" for w
    using appending_view [OF that] view_before_call [OF q [OF that]] view_killed by blast+
  have r: "\<exists>o' i. fd_inode (before_call w) fd = Some (o', i)
      \<and> (case f (turn_of w) o' i (before_call w) of (Inr x, w') \<Rightarrow> Q x w' | (Inl x, w') \<Rightarrow> False)"
    if "appending R G p d n a fd c w" for w
  proof -
    note bw = b [OF that]
    obtain o' where o': "w_fds (before_call w) fd = Some o'" "of_fid o' = a" "of_append o'"
      using bw by (auto simp: appending_def)
    obtain i where i: "w_files (before_call w) a = Some i" "in_data i = c"
      using bw by (auto simp: appending_def kept_def at_name_def)
    show ?thesis using run [OF b [OF that] o' i(1,2)] o' i by (auto simp: fd_inode_Some)
  qed
  show ?thesis
    unfolding on_fd_def
    by (rule triple_sys_call) (use k b r in \<open>fastforce split: option.split_asm\<close>)+
qed

lemma appending_update:
  assumes f: "appending R G p d n a fd c w" and fd: "w_fds w fd = Some o'" "of_fid o'' = a" "of_append o''"
    and i: "w_files w a = Some i" "in_data (h i) = b"
  shows "appending R G p d n a fd b ((with_files (update_inode a h) w)\<lparr>w_fds := (w_fds w)(fd \<mapsto> o'')\<rparr>)"
proof -
  let ?w = "(with_files (update_inode a h) w)\<lparr>w_fds := (w_fds w)(fd \<mapsto> o'')\<rparr>"
  have k: "dir_open R G p d w" "at_name R G d n (Some (a, c)) w" "a \<noteq> d" "a \<notin> files_in G" "of_fid o' = a"
    using f fd(1) by (auto simp: appending_def kept_def at_name_def)
  have "dir_open R G p d (with_files (update_inode a h) w)"
  proof (rule dir_open_with_files [OF k(1)])
    show "map_option in_kind (update_inode a h (w_files w) d) = map_option in_kind (w_files w d)"
      using k(3) by (simp add: update_inode_def split: option.split)
    show "contents (update_inode a h (w_files w)) x = contents (w_files w) x" if "x \<in> files_in G" for x
      using that k(4) by (intro contents_simps) blast
  qed
  then have "dir_open R G p d ?w"
    using fd k by (auto simp: dir_open_def quiet_def)
  moreover have "w_files ?w = update_inode a h (w_files w)" by simp
  then have "at_name R G d n (Some (a, b)) ?w"
    unfolding at_name_def using k i
    by (auto simp: at_name_def update_inode_at lookup_update_inode)
  ultimately show ?thesis using fd by (auto simp: appending_def kept_def)
qed

lemma appending_update_file:
  assumes f: "appending R G p d n a fd c w" and fd: "w_fds w fd = Some o'" "of_fid o' = a" "of_append o'"
    and i: "w_files w a = Some i" "in_data (h i) = b"
  shows "appending R G p d n a fd b (with_files (update_inode a h) w)"
proof -
  have "(with_files (update_inode a h) w)\<lparr>w_fds := (w_fds w)(fd \<mapsto> o')\<rparr> = with_files (update_inode a h) w"
    using fd(1) by (simp add: with_files_def fun_upd_idem)
  with appending_update [where h = h, OF f fd i] show ?thesis by simp
qed

lemma triple_append_write:
  "triple (appending R G p d n a fd c) (os_write fd b)
     (\<lambda>k. appending R G p d n a fd (c @ take k b)) (\<lambda>_. appending R G p d n a fd c)"
  unfolding os_write_def
proof (rule triple_appending_call)
  fix u o' i w
  assume f: "appending R G p d n a fd c w" and fd: "w_fds w fd = Some o'" "of_fid o' = a" "of_append o'"
    and i: "w_files w a = Some i" "in_data i = c"
  show "case let n = transfer u (length b); k = if of_append o' then length (in_data i) else of_offset o'
      in (Inr n, (with_files (update_inode (of_fid o') (\<lambda>j. j\<lparr>in_data := splice k (take n b) (in_data j)\<rparr>)) w)
           \<lparr>w_fds := (w_fds w)(fd \<mapsto> o'\<lparr>of_offset := k + n\<rparr>)\<rparr>) of
      (Inr x, w') \<Rightarrow> appending R G p d n a fd (c @ take x b) w' | (Inl x, w') \<Rightarrow> False"
    using appending_update [OF f fd(1), of "o'\<lparr>of_offset := length c + transfer u (length b)\<rparr>" i
        "\<lambda>j. j\<lparr>in_data := splice (length c) (take (transfer u (length b)) b) (in_data j)\<rparr>" "c @ take (transfer u (length b)) b"]
      fd i by (simp add: Let_def splice_end)
qed

text \<open>Some of \<open>b\<close> has been appended.\<close>

definition partly :: "fid set \<Rightarrow> snapshot_files \<Rightarrow> nat \<Rightarrow> fid \<Rightarrow> pystr \<Rightarrow> fid \<Rightarrow> nat \<Rightarrow> bytes \<Rightarrow> bytes \<Rightarrow> world \<Rightarrow> bool" where
  "partly R G p d n a fd c b w \<longleftrightarrow> (\<exists>k. appending R G p d n a fd (c @ take k b) w)"

lemma triple_append_all:
  "triple (appending R G p d n a fd c) (write_all err fd b)
     (\<lambda>_. appending R G p d n a fd (c @ b)) (\<lambda>_. partly R G p d n a fd c b)"
proof (induction "length b" arbitrary: b c rule: less_induct)
  case less
  have none: "appending R G p d n a fd c w \<Longrightarrow> partly R G p d n a fd c b w" for w
    unfolding partly_def by (rule exI [where x = 0]) simp
  show ?case
  proof (cases "b = []")
    case True
    then show ?thesis using write_all_step [of err fd b] by (simp add: triple_ret)
  next
    case False
    have rest: "triple (appending R G p d n a fd (c @ take k b)) (if k = 0 then raise err else write_all err fd (drop k b))
        (\<lambda>_. appending R G p d n a fd (c @ b)) (\<lambda>_. partly R G p d n a fd c b)" for k
    proof (cases "k = 0")
      case True
      then show ?thesis using none by (simp add: triple_raise)
    next
      case k: False
      with False have l: "length (drop k b) < length b" by simp
      have w: "partly R G p d n a fd (c @ take k b) (drop k b) w \<Longrightarrow> partly R G p d n a fd c b w" for w
        unfolding partly_def by (metis append.assoc take_add)
      show ?thesis
        using less [OF l, of "c @ take k b"] k by (auto intro: triple_conseq w)
    qed
    show ?thesis
      unfolding write_all_step [of err fd b] if_not_P [OF False]
      by (rule triple_bind [OF triple_conseq [OF triple_append_write] rest]) (auto intro: none)
  qed
qed

section \<open>Opening the audit file\<close>

lemma triple_append_fstat:
  "triple (appending R G p d n a fd c) (os_fstat fd) (\<lambda>s w. st_size s = length c \<and> appending R G p d n a fd c w)
     (\<lambda>_. appending R G p d n a fd c)"
  unfolding os_fstat_def by (rule triple_appending_call) (auto simp: stat_of_def)

lemma triple_append_truncate:
  assumes "k = length c"
  shows "triple (appending R G p d n a fd (c @ x)) (os_ftruncate fd k) (\<lambda>_. appending R G p d n a fd c)
    (\<lambda>_. appending R G p d n a fd (c @ x))"
  unfolding os_ftruncate_def
  by (rule triple_appending_call) (use assms in \<open>auto intro!: appending_update_file\<close>)

lemma triple_append_fchmod:
  "triple (appending R G p d n a fd c) (os_fchmod fd mode) (\<lambda>_. appending R G p d n a fd c) (\<lambda>_. appending R G p d n a fd c)"
  unfolding os_fchmod_def
  by (rule triple_appending_call) (auto intro!: appending_update_file)

lemma triple_append_flock:
  "triple (appending R G p d n a fd c) (flock fd) (\<lambda>_. appending R G p d n a fd c) (\<lambda>_. appending R G p d n a fd c)"
  unfolding flock_def
proof (rule triple_appending_call)
  fix u :: turn and o' i w
  assume f: "appending R G p d n a fd c w" and fd: "w_fds w fd = Some o'" "of_fid o' = a" "of_append o'"
    and i: "w_files w a = Some i" "in_data i = c"
  have "with_files (update_inode a (\<lambda>j. j)) w = w"
    using i(1) by (simp add: with_files_def update_inode_def fun_upd_idem)
  with appending_update [OF f fd(1), of "o'\<lparr>of_locked := True\<rparr>" i "\<lambda>j. j" c] fd i
  show "case (Inr (), w\<lparr>w_fds := (w_fds w)(fd \<mapsto> o'\<lparr>of_locked := True\<rparr>)\<rparr>) of
      (Inr x, w') \<Rightarrow> appending R G p d n a fd c w' | (Inl x, w') \<Rightarrow> False"
    by simp
qed

text \<open>The file is created when the name is free.\<close>

lemma triple_open_created:
  assumes "O_CREAT \<in> set flags" and "O_EXCL \<in> set flags" and "O_APPEND \<in> set flags"
  shows "triple (kept R G p d n ((=) e)) (os_open_at flags mode p n)
    (\<lambda>fd w. e = None \<and> (\<exists>t. appending R G p d n t fd [] w)) (\<lambda>_. kept R G p d n ((=) e))"
  unfolding os_open_at_def
proof (rule triple_on_dir)
  fix t :: turn and w
  assume P: "kept R G p d n ((=) e) w" and r: "t_fid t \<in> R"
  have k: "dir_open R G p d w" "at_name R G d n e w" using P by (auto simp: kept_def)
  show "case open_in flags mode n t d w of
      (Inr fd, w') \<Rightarrow> e = None \<and> (\<exists>t. appending R G p d n t fd [] w') | (Inl x, w') \<Rightarrow> kept R G p d n ((=) e) w'"
  proof (cases "lookup (w_files w) d n = None \<and> w_files w (t_fid t) = None")
    case False
    then show ?thesis using P assms by (auto simp: open_in_def split: option.split)
  next
    case True
    then have free: "lookup (w_files w) d n = None" "w_files w (t_fid t) = None" by simp_all
    let ?w = "with_new_file d n (t_fid t) mode w"
    have "e = None" using k(2) free(1) by (simp add: at_name_def)
    moreover have "dir_open R G p d (snd (new_fd (t_fid t) True ?w))"
      by (rule dir_open_new_fd [OF new_file_effects(1) [OF k(1) free(2)]])
    then have "kept R G p d n ((=) (Some (t_fid t, []))) (snd (new_fd (t_fid t) True ?w))"
      using new_file_at [OF k(1) free(2) r] at_name_files [of "snd (new_fd (t_fid t) True ?w)" ?w] by (auto simp: kept_def)
    then have "appending R G p d n (t_fid t) (w_next_fd ?w) [] (snd (new_fd (t_fid t) True ?w))"
      by (simp add: appending_def new_fd_def)
    moreover have "open_in flags mode n t d w = new_fd (t_fid t) True ?w"
      using assms by (simp add: open_in_new [OF free])
    moreover have "fst (new_fd (t_fid t) True ?w) = Inr (w_next_fd ?w)" by (simp add: new_fd_def)
    ultimately show ?thesis by (cases "new_fd (t_fid t) True ?w") auto
  qed
qed (auto simp: kept_def intro: stable_kept)

lemma triple_open_existing:
  assumes "O_CREAT \<notin> set flags" and "O_APPEND \<in> set flags"
  shows "triple (kept R G p d n ((=) e)) (os_open_at flags mode p n)
    (\<lambda>fd w. \<exists>a c. e = Some (a, c) \<and> appending R G p d n a fd c w) (\<lambda>_. kept R G p d n ((=) e))"
  unfolding os_open_at_def
proof (rule triple_on_dir)
  fix t :: turn and w
  assume P: "kept R G p d n ((=) e) w"
  have k: "dir_open R G p d w" "at_name R G d n e w" using P by (auto simp: kept_def)
  show "case open_in flags mode n t d w of
      (Inr fd, w') \<Rightarrow> \<exists>a c. e = Some (a, c) \<and> appending R G p d n a fd c w' | (Inl x, w') \<Rightarrow> kept R G p d n ((=) e) w'"
  proof (cases e)
    case None
    then show ?thesis using P k assms by (simp add: open_in_def at_name_def)
  next
    case (Some ac)
    obtain a c where ac: "ac = (a, c)" by fastforce
    have "kept R G p d n ((=) (Some (a, c))) (snd (new_fd a True w))"
      using k dir_open_new_fd [OF k(1)] at_name_files [of "snd (new_fd a True w)" w] by (auto simp: kept_def Some ac)
    then have "appending R G p d n a (w_next_fd w) c (snd (new_fd a True w))"
      by (simp add: appending_def new_fd_def)
    moreover have "fst (new_fd a True w) = Inr (w_next_fd w)" by (simp add: new_fd_def)
    moreover have "lookup (w_files w) d n = Some a" "\<exists>i. w_files w a = Some i" using k(2) by (auto simp: at_name_def Some ac)
    ultimately show ?thesis
      using P assms by (cases "new_fd a True w") (auto simp: open_in_def open_inode_def Some ac split: if_splits)
  qed
qed (auto simp: kept_def intro: stable_kept)

lemma looks_validate_private_file [look_intros]: "looks R (validate_private_file s)"
  unfolding validate_private_file_def by (intro look_intros)

lemma looks_branch [look_intros]:
  "(b \<Longrightarrow> looks R m) \<Longrightarrow> (\<not> b \<Longrightarrow> looks R m') \<Longrightarrow> looks R (if b then m else m')"
  "(\<And>a b. looks R (f a b)) \<Longrightarrow> looks R (case_prod f x)"
  by (simp_all split: prod.split)

lemma looks_audit_identity [look_intros]: "looks R (audit_identity p n fd)"
  unfolding audit_identity_def by (intro look_intros)

lemma looks_audit_identity_matches [look_intros]: "looks R (audit_identity_matches p n fd)"
  unfolding audit_identity_matches_def by (intro look_intros)

lemma looks_require_audit_identity [look_intros]: "looks R (require_audit_identity p n fd)"
  unfolding require_audit_identity_def by (intro look_intros)

lemma looks_read_exact_size [look_intros]: "looks R (read_exact_size fd bound body)"
proof -
  have "quiet R w \<Longrightarrow> same_view R w (snd (read_exact_size fd bound body w))" for w
  proof (induction fd bound body w rule: read_exact_size.induct)
    case (1 fd bound body w)
    show ?case
    proof (cases "bound \<le> length body")
      case False
      obtain r w1 where o': "os_pread fd (min 4096 (bound - length body)) (length body) w = (r, w1)" by fastforce
      have "looks R (os_pread fd (min 4096 (bound - length body)) (length body))" by (intro look_intros)
      then have v: "same_view R w w1" using "1.prems" o' unfolding looks_def by (metis snd_conv)
      show ?thesis
      proof (cases r)
        case (Inl e)
        then show ?thesis using False o' v by (subst read_exact_size.simps) simp
      next
        case (Inr chunk)
        then show ?thesis
          using False o' v "1.IH" [OF False o' [symmetric, unfolded Inr] refl] quiet_view [OF "1.prems" v] same_view_trans
          by (subst read_exact_size.simps) auto
      qed
    qed (subst read_exact_size.simps, simp)
  qed
  then show ?thesis by (simp add: looks_def)
qed

text \<open>\<open>open_audit\<close>: the file that was there, or a new one, opened to append; its size is returned.\<close>

definition opened :: "(fid \<times> bytes) option \<Rightarrow> fid \<Rightarrow> bytes \<Rightarrow> bool" where
  "opened e a c \<longleftrightarrow> e = Some (a, c) \<or> e = None \<and> c = []"

definition before_append :: "(fid \<times> bytes) option \<Rightarrow> (fid \<times> bytes) option \<Rightarrow> bool" where
  "before_append e e' \<longleftrightarrow> e' = e \<or> (\<exists>a c. opened e a c \<and> e' = Some (a, c))"

lemma bind_appending:
  assumes "looks R m" and "\<And>w. appending R G p d n a fd c w \<Longrightarrow> F w"
    and "\<And>x. triple (appending R G p d n a fd c) (f x) Q (\<lambda>_. F)"
  shows "triple (appending R G p d n a fd c) (bind m f) Q (\<lambda>_. F)"
  by (rule triple_bind [OF triple_conseq [OF triple_appending_looks [OF assms(1)]] assms(3)]) (auto intro: assms(2))

lemma bind_appending_call:
  assumes "triple (appending R G p d n a fd c) m (\<lambda>_. appending R G p d n a fd c) (\<lambda>_. appending R G p d n a fd c)"
    and "\<And>w. appending R G p d n a fd c w \<Longrightarrow> F w"
    and "\<And>x. triple (appending R G p d n a fd c) (f x) Q (\<lambda>_. F)"
  shows "triple (appending R G p d n a fd c) (bind m f) Q (\<lambda>_. F)"
  by (rule triple_bind [OF triple_conseq [OF assms(1)] assms(3)]) (auto intro: assms(2))

lemma triple_audit_contents:
  "triple (appending R G p d n a fd c) (validate_audit_contents lim fd project)
     (\<lambda>r w. fst r = length c \<and> appending R G p d n a fd c w) (\<lambda>_. appending R G p d n a fd c)"
  unfolding validate_audit_contents_def
proof (rule triple_bind [OF triple_append_fstat], rule triple_conj_pure)
  fix s
  assume "st_size s = length c"
  then show "triple (appending R G p d n a fd c) (bind (check (st_size s \<le> MAX_AUDIT_BYTES) audit_file_invalid) (\<lambda>_.
     bind (read_exact_size fd (st_size s) []) (\<lambda>body.
     bind (lift (audit_lines_of lim project body)) (\<lambda>events.
     ret (st_size s, length events))))) (\<lambda>r w. fst r = length c \<and> appending R G p d n a fd c w)
     (\<lambda>_. appending R G p d n a fd c)"
    by (intro bind_appending triple_ret look_intros) simp_all
qed

lemma triple_open_audit:
  "triple (kept R G p d n ((=) e)) (open_audit lim p n)
     (\<lambda>r w. \<exists>a c. (opened e a c \<and> snd r = length c) \<and> appending R G p d n a (fst r) c w)
     (\<lambda>_. kept R G p d n (before_append e))"
  unfolding open_audit_def
proof (rule triple_bind)
  let ?F = "kept R G p d n (before_append e)"
  have weak: "kept R G p d n ((=) e) w \<Longrightarrow> ?F w" for w
    by (erule kept_mono) (simp add: before_append_def)
  have app: "appending R G p d n a fd c w \<Longrightarrow> ?F w" if "opened e a c" for a c fd w
    by (rule kept_mono [OF appending_kept]) (use that in \<open>auto simp: before_append_def\<close>)
  show "triple (kept R G p d n ((=) e)) (try_except
       (bind (os_open_at [O_RDWR, O_APPEND, O_CREAT, O_EXCL] mode_0600 p n) (\<lambda>fd. ret (fd, True)))
       (\<lambda>e. if (\<exists>m. e = FileExistsError m)
             then bind (translate is_os_error audit_file_invalid (os_open_at [O_RDWR, O_APPEND] 0 p n))
                    (\<lambda>fd. ret (fd, False))
             else raise (if is_os_error e then audit_file_invalid else e)))
      (\<lambda>r w. \<exists>a c. opened e a c \<and> appending R G p d n a (fst r) c w) (\<lambda>_. ?F)"
  proof (rule triple_try_except)
    show "triple (kept R G p d n ((=) e)) (bind (os_open_at [O_RDWR, O_APPEND, O_CREAT, O_EXCL] mode_0600 p n) (\<lambda>fd. ret (fd, True)))
        (\<lambda>r w. \<exists>a c. opened e a c \<and> appending R G p d n a (fst r) c w) (\<lambda>_. kept R G p d n ((=) e))"
      by (rule triple_bind [OF triple_open_created], simp, simp, simp, rule triple_ret, auto simp: opened_def)
    have "triple (kept R G p d n ((=) e)) (bind (translate is_os_error audit_file_invalid (os_open_at [O_RDWR, O_APPEND] 0 p n))
        (\<lambda>fd. ret (fd, False))) (\<lambda>r w. \<exists>a c. opened e a c \<and> appending R G p d n a (fst r) c w) (\<lambda>_. ?F)"
      by (rule triple_bind [OF triple_translate [OF triple_conseq [OF triple_open_existing]]], simp, simp, assumption,
          assumption, erule weak, rule triple_ret, auto simp: opened_def)
    then show "triple (kept R G p d n ((=) e)) (if (\<exists>m. x = FileExistsError m)
             then bind (translate is_os_error audit_file_invalid (os_open_at [O_RDWR, O_APPEND] 0 p n))
                    (\<lambda>fd. ret (fd, False))
             else raise (if is_os_error x then audit_file_invalid else x))
        (\<lambda>r w. \<exists>a c. opened e a c \<and> appending R G p d n a (fst r) c w) (\<lambda>_. ?F)" for x
      using weak by (simp add: triple_raise)
  qed
  fix r :: "nat \<times> bool"
  show "triple (\<lambda>w. \<exists>a c. opened e a c \<and> appending R G p d n a (fst r) c w) (case r of (fd, created) \<Rightarrow> on_failure
       (bind (if created then os_fchmod fd mode_0600 else ret ()) (\<lambda>_.
        bind (os_fstat fd) (\<lambda>opened.
        bind (validate_private_file opened) (\<lambda>_.
        bind (os_stat_at p n) (\<lambda>current.
        bind (validate_private_file current) (\<lambda>_.
        bind (check (same_inode opened current) audit_changed) (\<lambda>_.
        bind (flock fd) (\<lambda>_.
        bind (os_stat_at p n) (\<lambda>current'.
        bind (validate_private_file current') (\<lambda>_.
        bind (check (same_inode opened current') audit_changed) (\<lambda>_.
        bind (validate_audit_contents lim fd None) (\<lambda>(bytes_read, count).
        ret (fd, bytes_read)))))))))))))
       (os_close fd))
     (\<lambda>r w. \<exists>a c. (opened e a c \<and> snd r = length c) \<and> appending R G p d n a (fst r) c w) (\<lambda>_. ?F)"
  proof (intro triple_ex triple_conj_pure, unfold case_prod_unfold, rule triple_on_failure)
    fix a c
    assume op: "opened e a c"
    let ?A = "appending R G p d n a (fst r) c"
    note step = bind_appending bind_appending_call [OF triple_append_flock]
    have ch: "triple ?A (if snd r then os_fchmod (fst r) mode_0600 else ret ()) (\<lambda>_. ?A) (\<lambda>_. ?A)"
      by (auto intro: triple_append_fchmod triple_ret)
    have last: "triple ?A (bind (validate_audit_contents lim (fst r) None) (\<lambda>x. ret (fst r, fst x)))
        (\<lambda>r w. \<exists>a c. (opened e a c \<and> snd r = length c) \<and> appending R G p d n a (fst r) c w) (\<lambda>_. ?A)"
      by (rule triple_bind [OF triple_audit_contents]) (rule triple_conj_pure, rule triple_ret, use op in auto)
    show "triple ?A
       (bind (if snd r then os_fchmod (fst r) mode_0600 else ret ()) (\<lambda>_.
        bind (os_fstat (fst r)) (\<lambda>opened.
        bind (validate_private_file opened) (\<lambda>_.
        bind (os_stat_at p n) (\<lambda>current.
        bind (validate_private_file current) (\<lambda>_.
        bind (check (same_inode opened current) audit_changed) (\<lambda>_.
        bind (flock (fst r)) (\<lambda>_.
        bind (os_stat_at p n) (\<lambda>current'.
        bind (validate_private_file current') (\<lambda>_.
        bind (check (same_inode opened current') audit_changed) (\<lambda>_.
        bind (validate_audit_contents lim (fst r) None) (\<lambda>x.
        ret (fst r, fst x)))))))))))))
        (\<lambda>r w. \<exists>a c. (opened e a c \<and> snd r = length c) \<and> appending R G p d n a (fst r) c w) (\<lambda>_. ?A)"
      by (rule bind_appending_call [OF ch], assumption, intro step look_intros last)
    show "triple ?A (os_close (fst r)) (\<lambda>_. ?F) (\<lambda>_. ?F)" for x :: exn
      by (rule triple_conseq [OF triple_reads [OF reads_close stable_kept]]) (auto intro: app [OF op])
  qed
qed

section \<open>Appending a line\<close>

lemma triple_rollback:
  "triple (partly R G p d n a fd c b) (rollback_audit_append p n fd (length c))
     (\<lambda>_. partly R G p d n a fd c b) (\<lambda>_. partly R G p d n a fd c b)"
proof -
  let ?P = "partly R G p d n a fd c b"
  have weak: "appending R G p d n a fd (c @ take k b) w \<Longrightarrow> ?P w" "appending R G p d n a fd c w \<Longrightarrow> ?P w" for k w
    unfolding partly_def by blast (rule exI [where x = 0], simp)
  have tail: "triple (appending R G p d n a fd c) (bind (os_fsync fd) (\<lambda>_.
         bind (require_audit_identity p n fd) (\<lambda>_.
         bind (os_fsync p) (\<lambda>_.
         require_audit_identity p n fd)))) (\<lambda>_. ?P) (\<lambda>_. ?P)"
    by (intro bind_appending look_intros weak(2))
      (assumption+, rule triple_conseq [OF triple_appending_looks], rule look_intros, assumption, erule weak(2), erule weak(2))
  have "triple (appending R G p d n a fd (c @ take k b)) (rollback_audit_append p n fd (length c)) (\<lambda>_. ?P) (\<lambda>_. ?P)" for k
    unfolding rollback_audit_append_def
  proof (rule bind_appending)
    show "looks R (audit_identity_matches p n fd)" by (rule look_intros)
    show "appending R G p d n a fd (c @ take k b) w \<Longrightarrow> ?P w" for w by (rule weak(1))
    have "triple (appending R G p d n a fd (c @ take k b)) (os_ftruncate fd (length c)) (\<lambda>_. appending R G p d n a fd c) (\<lambda>_. ?P)"
      by (rule triple_conseq [OF triple_append_truncate [OF refl]]) (auto intro: weak)
    from triple_bind [OF this tail]
    show "triple (appending R G p d n a fd (c @ take k b)) (if \<not> same then ret ()
       else
         bind (os_ftruncate fd (length c)) (\<lambda>_.
         bind (os_fsync fd) (\<lambda>_.
         bind (require_audit_identity p n fd) (\<lambda>_.
         bind (os_fsync p) (\<lambda>_.
         require_audit_identity p n fd))))) (\<lambda>_. ?P) (\<lambda>_. ?P)" for same
      using weak(1) by (simp add: triple_ret)
  qed
  then show ?thesis by (subst (1) partly_def [abs_def]) (rule triple_ex)
qed

lemma triple_on_world:
  "triple P m Q E \<Longrightarrow> triple (\<lambda>s. P (snd s)) (sys m) (\<lambda>x s. Q x (snd s)) (\<lambda>e s. E e (snd s))"
  by (rule triple_sys) simp

definition appended :: "bytes \<Rightarrow> (fid \<times> bytes) option \<Rightarrow> (fid \<times> bytes) option \<Rightarrow> bool" where
  "appended b e e' \<longleftrightarrow> (\<exists>a c. opened e a c \<and> e' = Some (a, c @ b))"

definition grown :: "bytes \<Rightarrow> (fid \<times> bytes) option \<Rightarrow> (fid \<times> bytes) option \<Rightarrow> bool" where
  "grown b e e' \<longleftrightarrow> e' = e \<or> (\<exists>k. appended (take k b) e e')"

lemma appended_grown: "appended b e e' \<Longrightarrow> grown b e e'"
  unfolding grown_def by (rule disjI2) (rule exI [where x = "length b"], simp)

lemma partly_grown: "opened e a c \<Longrightarrow> partly R G p d n a fd c b w \<Longrightarrow> kept R G p d n (grown b e) w"
  unfolding partly_def appending_def
  by (elim exE conjE) (erule kept_mono, auto simp: grown_def appended_def)

lemma appending_grown: "opened e a c \<Longrightarrow> appending R G p d n a fd c w \<Longrightarrow> kept R G p d n (grown b e) w"
  by (erule partly_grown) (unfold partly_def, rule exI [where x = 0], simp)

lemma triple_append_opened:
  "triple (\<lambda>s. kept R G p d n ((=) e) (snd s)) (append_opened lim p n b)
     (\<lambda>_ s. kept R G p d n (appended b e) (snd s)) (\<lambda>_ s. kept R G p d n (grown b e) (snd s))"
  unfolding append_opened_def
proof (rule triple_bind)
  let ?F = "kept R G p d n (grown b e)"
  have base: "before_append e e' \<Longrightarrow> grown b e e'" for e'
    by (auto simp: before_append_def grown_def appended_def intro: exI [where x = 0])
  show "triple (\<lambda>s. kept R G p d n ((=) e) (snd s)) (sys (open_audit lim p n))
      (\<lambda>r s. \<exists>a c. (opened e a c \<and> snd r = length c) \<and> appending R G p d n a (fst r) c (snd s)) (\<lambda>_ s. ?F (snd s))"
    by (rule triple_sys) (rule triple_conseq [OF triple_open_audit], auto elim: kept_mono base)
  fix r :: "nat \<times> nat"
  show "triple (\<lambda>s. \<exists>a c. (opened e a c \<and> snd r = length c) \<and> appending R G p d n a (fst r) c (snd s))
      (case r of (fd, original_size) \<Rightarrow> bind (assign (\<lambda>_. Some fd)) (\<lambda>_.
     bind (check (original_size + length b \<le> MAX_AUDIT_BYTES) audit_file_invalid) (\<lambda>_.
     sys (on_failure
       (bind (write_all write_error fd b) (\<lambda>_.
        bind (os_fsync fd) (\<lambda>_.
        bind (require_audit_identity p n fd) (\<lambda>_.
        bind (os_fsync p) (\<lambda>_.
        require_audit_identity p n fd)))))
       (rollback_audit_append p n fd original_size)))))
      (\<lambda>_ s. kept R G p d n (appended b e) (snd s)) (\<lambda>_ s. ?F (snd s))"
  proof (intro triple_ex triple_conj_pure, unfold case_prod_unfold)
    fix a c
    assume op: "opened e a c \<and> snd r = length c"
    let ?A = "\<lambda>s. appending R G p d n a (fst r) c (snd s)"
    let ?P = "partly R G p d n a (fst r) c b"
    have weak: "appending R G p d n a (fst r) (c @ b) w \<Longrightarrow> ?P w" for w
      unfolding partly_def by (rule exI [where x = "length b"]) simp
    have whole: "appending R G p d n a (fst r) (c @ b) w \<Longrightarrow> kept R G p d n (appended b e) w" for w
      by (rule kept_mono [OF appending_kept]) (use op in \<open>auto simp: appended_def\<close>)
    have "triple (appending R G p d n a (fst r) (c @ b)) (bind (os_fsync (fst r)) (\<lambda>_.
        bind (require_audit_identity p n (fst r)) (\<lambda>_.
        bind (os_fsync p) (\<lambda>_.
        require_audit_identity p n (fst r))))) (\<lambda>_. kept R G p d n (appended b e)) (\<lambda>_. ?P)"
      by (intro bind_appending look_intros weak)
        (assumption+, rule triple_conseq [OF triple_appending_looks], rule look_intros, assumption, erule whole, erule weak)
    note w = triple_bind [OF triple_append_all this]
    have "triple (appending R G p d n a (fst r) c) (on_failure
       (bind (write_all write_error (fst r) b) (\<lambda>_.
        bind (os_fsync (fst r)) (\<lambda>_.
        bind (require_audit_identity p n (fst r)) (\<lambda>_.
        bind (os_fsync p) (\<lambda>_.
        require_audit_identity p n (fst r))))))
       (rollback_audit_append p n (fst r) (snd r))) (\<lambda>_. kept R G p d n (appended b e)) (\<lambda>_. ?F)"
      unfolding conjunct2 [OF op]
      by (rule triple_on_failure [OF w]) (rule triple_conseq [OF triple_rollback], use op in \<open>auto intro: partly_grown\<close>)
    note s = triple_on_world [OF this]
    show "triple ?A (bind (assign (\<lambda>_. Some (fst r))) (\<lambda>_.
     bind (check (snd r + length b \<le> MAX_AUDIT_BYTES) audit_file_invalid) (\<lambda>_.
     sys (on_failure
       (bind (write_all write_error (fst r) b) (\<lambda>_.
        bind (os_fsync (fst r)) (\<lambda>_.
        bind (require_audit_identity p n (fst r)) (\<lambda>_.
        bind (os_fsync p) (\<lambda>_.
        require_audit_identity p n (fst r))))))
       (rollback_audit_append p n (fst r) (snd r)))))) (\<lambda>_ s. kept R G p d n (appended b e) (snd s)) (\<lambda>_ s. ?F (snd s))"
      by (rule triple_bind [OF triple_assign [where Q = "\<lambda>_. ?A"]], simp, rule triple_bind [OF triple_check [where Q = "\<lambda>_. ?A"]], assumption,
          erule appending_grown [OF conjunct1 [OF op]], rule s)
  qed
qed

text \<open>
  C16. The audit file only grows: whatever calls fail and wherever the process is killed, after
  an attempt to append a line the file holds every byte it held before, followed by a part of the
  new line, and by the whole line when the function returns. Nothing else in the directory or
  outside changes.
\<close>

theorem audit_append_only:
  assumes "dir_open R G p d w" and "at_name R G d n (Some (a, old)) w"
  shows "case append_opened lim p n line (l, w) of (r, (l', w')) \<Rightarrow>
    (\<exists>k. lookup (w_files w') d n = Some a \<and> map_option in_data (w_files w' a) = Some (old @ take k line)
       \<and> (case r of Inl e \<Rightarrow> k \<le> length line | Inr s \<Rightarrow> k = length line))
    \<and> frozen G w'"
proof -
  have k: "kept R G p d n ((=) (Some (a, old))) (snd (l, w))" using assms by (auto simp: kept_def)
  obtain r l' w' where o': "append_opened lim p n line (l, w) = (r, (l', w'))" by (metis prod.exhaust)
  have t: "\<exists>j. take k line = take j line \<and> j \<le> length line" for k
    by (rule exI [where x = "min k (length line)"]) (simp add: min_def)
  show ?thesis
  proof (cases r)
    case (Inl e)
    then have "kept R G p d n (grown line (Some (a, old))) w'"
      using triple_errorD [OF triple_append_opened _ k] o' by fastforce
    then obtain e' where e': "grown line (Some (a, old)) e'" "at_name R G d n e' w'" "frozen G w'"
      by (auto simp: kept_def dir_open_def)
    from e'(1) have "\<exists>k. e' = Some (a, old @ take k line)"
      by (auto simp: grown_def appended_def opened_def intro: exI [where x = 0])
    then obtain k where "e' = Some (a, old @ take k line)" by blast
    moreover obtain j where "take k line = take j line" "j \<le> length line" using t by blast
    ultimately show ?thesis using e' o' Inl by (auto simp: at_name_def)
  next
    case (Inr x)
    then have "kept R G p d n (appended line (Some (a, old))) w'"
      using tripleD [OF triple_append_opened _ k] o' by fastforce
    then show ?thesis using o' Inr by (auto simp: kept_def dir_open_def appended_def opened_def at_name_def)
  qed
qed

theorem audit_append_only_witness:
  "case append_opened 3 5 (u ''r'') ''line'' (None, demo_world ''old'') of (r, (l', w')) \<Rightarrow>
    (\<exists>k. lookup (w_files w') (0, 1) (u ''r'') = Some (0, 2) \<and> map_option in_data (w_files w' (0, 2)) = Some (''old'' @ take k ''line'')
       \<and> (case r of Inl e \<Rightarrow> k \<le> length ''line'' | Inr s \<Rightarrow> k = length ''line''))
    \<and> frozen demo_outside w'"
  by (rule audit_append_only [OF demo_dir_open demo_at_name])

end
