(* ===== verification/Broker_Runtime.thy ===== *)
theory Broker_Runtime
  imports Broker_Files
begin

text \<open>
  The private artifacts of \<open>src/agent_container/broker/runtime.py\<close>: run directories, capabilities and
  the socket a broker listens on, and what every broker session does with them when it starts. A
  listening socket has no state here but its entry in the file system; its calls can fail.
\<close>

section \<open>Python's library\<close>

text \<open>\<open>str(path)\<close>, and \<open>os.fsencode\<close>, which keeps escaped bytes.\<close>

definition path_str :: "path \<Rightarrow> pystr" where
  "path_str p = (if fst p then u ''/'' @ join_with (u ''/'') (snd p)
     else if snd p = [] then u ''.'' else join_with (u ''/'') (snd p))"

fun fsencode :: "pystr \<Rightarrow> exn + bytes" where
  "fsencode [] = Inr []"
| "fsencode (c # s) =
     bindE (if in_range 56448 56575 c then Inr [char_of (c - 56320)]
            else case utf8_char c of None \<Rightarrow> Inl UnicodeEncodeError | Some b \<Rightarrow> Inr b) (\<lambda>b.
     bindE (fsencode s) (\<lambda>bs. Inr (b @ bs)))"

text \<open>\<open>base64.urlsafe_b64encode\<close> without the padding, and \<open>secrets.token_urlsafe\<close>.\<close>

definition base64url_digit :: "nat \<Rightarrow> nat" where
  "base64url_digit d =
     (if d < 26 then 65 + d else if d < 52 then 71 + d else if d < 62 then d - 4 else if d = 62 then 45 else 95)"

fun base64url :: "nat list \<Rightarrow> pystr" where
  "base64url [] = []"
| "base64url [a] = map base64url_digit [a div 4, a mod 4 * 16]"
| "base64url [a, b] = map base64url_digit [a div 4, a mod 4 * 16 + b div 16, b mod 16 * 4]"
| "base64url (a # b # c # rest) =
     map base64url_digit [a div 4, a mod 4 * 16 + b div 16, b mod 16 * 4 + c div 64, c mod 64] @ base64url rest"

definition token_urlsafe :: "nat \<Rightarrow> pystr io" where
  "token_urlsafe n = bind (random_bytes n) (\<lambda>b. ret (base64url (map of_char b)))"

text \<open>\<open>shutil.rmtree\<close>; deeper than \<open>lim\<close> directories it raises \<open>RecursionError\<close>.\<close>

definition path_rmdir :: "path \<Rightarrow> unit io" where
  "path_rmdir p = sys_call (\<lambda>t w. in_parent p w (\<lambda>d name.
     case lookup (w_files w) d name of
       None \<Rightarrow> (Inl FileNotFoundError, w)
     | Some g \<Rightarrow>
         (case w_files w g of
            None \<Rightarrow> (Inl (OSError ''EIO''), w)
          | Some i \<Rightarrow>
              if in_kind i \<noteq> Directory then (Inl (OSError ''ENOTDIR''), w)
              else if in_entries i \<noteq> [] then (Inl (OSError ''ENOTEMPTY''), w)
              else (Inr (), with_files (add_links g (\<lambda>n. 0) \<circ> remove_entry d name) w))))"

fun rmtree_fd :: "nat \<Rightarrow> nat \<Rightarrow> unit io" where
  "rmtree_fd 0 fd = raise RecursionError"
| "rmtree_fd (Suc n) fd =
     bind (os_listdir fd) (\<lambda>names.
     bind (map_io (\<lambda>name.
       bind (os_stat_at fd name) (\<lambda>s.
       if st_kind s = Directory then
         bind (os_open_at [O_RDONLY, O_DIRECTORY] 0 fd name) (\<lambda>child.
         bind (try_finally (rmtree_fd n child) (os_close child)) (\<lambda>_.
         os_rmdir_at fd name))
       else os_unlink_at fd name)) names) (\<lambda>_. ret ()))"

definition rmtree :: "nat \<Rightarrow> path \<Rightarrow> unit io" where
  "rmtree lim p =
     bind (path_lstat p) (\<lambda>s.
     bind (os_open_path [O_RDONLY] 0 p) (\<lambda>fd.
     bind (try_finally
       (bind (os_fstat fd) (\<lambda>s'.
        bind (check (st_id s = st_id s') (OSError ''Cannot call rmtree on a symbolic link'')) (\<lambda>_.
        rmtree_fd lim fd)))
       (os_close fd)) (\<lambda>_.
     path_rmdir p)))"

section \<open>Private artifacts\<close>

definition MAX_UNIX_SOCKET_PATH_BYTES :: nat where
  "MAX_UNIX_SOCKET_PATH_BYTES = 107"

definition create_private_file :: "path \<Rightarrow> pystr \<Rightarrow> string \<Rightarrow> nat \<Rightarrow> unit io" where
  "create_private_file p body label mode =
     bind (os_open_path [O_WRONLY, O_CREAT, O_EXCL, O_NOFOLLOW] mode p) (\<lambda>fd.
     try_finally
       (bind (os_fchmod fd mode) (\<lambda>_.
        bind (lift (ascii_encode body)) (\<lambda>encoded.
        bind (write_all (OSError (label @ '' private file write failed'')) fd encoded) (\<lambda>_.
        os_fsync fd))))
       (os_close fd))"

fun allocate_run_dir :: "nat \<Rightarrow> path \<Rightarrow> string \<Rightarrow> (pystr \<times> path) io" where
  "allocate_run_dir 0 project_root label =
     raise (FileExistsError (''could not allocate '' @ label @ '' runtime''))"
| "allocate_run_dir (Suc attempts) project_root label =
     bind (token_hex 8) (\<lambda>run_id.
     let run_dir = path_join project_root run_id in
     bind (try_except (bind (os_mkdir_path mode_0700 run_dir) (\<lambda>_. ret True))
       (\<lambda>e. if (\<exists>m. e = FileExistsError m) then ret False else raise e)) (\<lambda>created.
     if created then ret (run_id, run_dir) else allocate_run_dir attempts project_root label))"

definition generate_capability :: "string \<Rightarrow> pystr io" where
  "generate_capability label =
     bind (token_urlsafe 32) (\<lambda>capability.
     bind (check (CAPABILITY_PATTERN capability)
       (RuntimeError (''generated '' @ label @ '' capability has invalid format''))) (\<lambda>_.
     ret capability))"

text \<open>
  The calls of a Unix socket: creation, binding to a path, listening, closing. Binding makes an
  entry for the socket.
\<close>

definition socket_call :: "unit io" where
  "socket_call = sys_call (\<lambda>t w. (Inr (), w))"

definition socket_bind :: "path \<Rightarrow> unit io" where
  "socket_bind p = sys_call (\<lambda>t w. in_parent p w (\<lambda>d name.
     if lookup (w_files w) d name \<noteq> None then (Inl (OSError ''EADDRINUSE''), w)
     else if w_files w (t_fid t) \<noteq> None then (Inl (OSError ''ENOSPC''), w)
     else (Inr (), with_files (\<lambda>fs. (set_entry d name (t_fid t) fs)
            (t_fid t \<mapsto> new_inode Socket (created_mode (w_umask w) 511) (w_uid w))) w)))"

definition bind_private_listener :: "path \<Rightarrow> string \<Rightarrow> unit io" where
  "bind_private_listener socket_path label =
     bind (lift (fsencode (path_str socket_path))) (\<lambda>encoded.
     bind (check (length encoded \<le> MAX_UNIX_SOCKET_PATH_BYTES)
       (ValueError (label @ '' socket path is too long''))) (\<lambda>_.
     bind (path_exists socket_path) (\<lambda>present.
     bind (if present then ret True else path_is_symlink socket_path) (\<lambda>taken.
     bind (check (\<not> taken) (FileExistsError (label @ '' socket path already exists''))) (\<lambda>_.
     bind socket_call (\<lambda>_.
     on_failure
       (bind (socket_bind socket_path) (\<lambda>_.
        bind (path_chmod mode_0600 socket_path) (\<lambda>_. socket_call)))
       (bind socket_call (\<lambda>_.
        bind (try_except (bind (path_lstat socket_path) (\<lambda>s. ret (Some s)))
          (\<lambda>e. if e = FileNotFoundError then ret None else raise e)) (\<lambda>metadata.
        case metadata of
          None \<Rightarrow> ret ()
        | Some s \<Rightarrow> if st_kind s = Socket then path_unlink socket_path else ret ())))))))))"

section \<open>A new run\<close>

text \<open>
  What the \<open>create\<close> methods of the broker sessions share after they have prepared the project's
  directory: the run directory, its capability and the artifacts that remove it again. Every
  failure takes the run directory away.
\<close>

definition track_capability :: "RuntimeArtifacts \<Rightarrow> unit io \<Rightarrow> RuntimeArtifacts io" where
  "track_capability artifacts discard w =
     (case track_file (u ''capability'') (artifacts, w) of
        (Inr _, (a, w1)) \<Rightarrow> (Inr a, w1)
      | (Inl e, (a, w1)) \<Rightarrow>
          (case close_artifacts (a, w1) of
             (Inl e', (_, w2)) \<Rightarrow> (Inl e', w2)
           | (Inr _, (_, w2)) \<Rightarrow> bind discard (\<lambda>_. raise e) w2))"

definition discarding :: "(exn \<Rightarrow> bool) \<Rightarrow> 'a io \<Rightarrow> unit io \<Rightarrow> 'a io" where
  "discarding p m discard = try_except m (\<lambda>e. if p e then bind discard (\<lambda>_. raise e) else raise e)"

definition new_run :: "nat \<Rightarrow> string \<Rightarrow> path \<Rightarrow> (pystr \<times> path \<times> pystr \<times> RuntimeArtifacts) io" where
  "new_run lim label project_root =
     bind (allocate_run_dir 8 project_root label) (\<lambda>(run_id, run_dir).
     let discard = rmtree lim run_dir in
     bind (discarding (\<lambda>e. \<exists>m. e = RuntimeError m) (generate_capability label) discard) (\<lambda>capability.
     bind (discarding (\<lambda>_. True)
       (create_private_file (path_join run_dir (u ''capability'')) (capability @ [10]) label mode_0600)
       discard) (\<lambda>_.
     bind (discarding (\<lambda>_. True) (open_artifacts run_dir label) discard) (\<lambda>artifacts.
     bind (track_capability artifacts discard) (\<lambda>tracked.
     ret (run_id, run_dir, capability, tracked))))))"

lemma base64url_length:
  "length (base64url bs) = 4 * (length bs div 3) + (if length bs mod 3 = 0 then 0 else length bs mod 3 + 1)"
proof (induction bs rule: base64url.induct)
  case (4 a b c rest)
  have "(3 + n) div 3 = Suc (n div 3)" "(3 + n) mod 3 = n mod 3" for n :: nat by simp_all
  with 4 show ?case by simp
qed simp_all

lemma base64url_digit_char: "d < 64 \<Longrightarrow> is_capability_char (base64url_digit d)"
  by (auto simp: base64url_digit_def is_capability_char_def class_simps)

lemma base64url_chars: "\<forall>b \<in> set bs. b < 256 \<Longrightarrow> list_all is_capability_char (base64url bs)"
proof (induction bs rule: base64url.induct)
  case (2 a)
  then show ?case by (auto intro!: base64url_digit_char)
next
  case (3 a b)
  then have "b div 16 < 16" by auto
  with 3 show ?case by (auto intro!: base64url_digit_char)
next
  case (4 a b c rest)
  then have "b div 16 < 16" "c div 64 < 4" "a div 4 < 64" by auto
  with 4 show ?case by (auto intro!: base64url_digit_char)
qed simp

text \<open>A capability of 32 random bytes always has the format that is checked.\<close>

lemma generated_capability:
  assumes "generate_capability label w = (r, w')"
  shows "(case r of Inr c \<Rightarrow> CAPABILITY_PATTERN c | Inl e \<Rightarrow> \<nexists>m. e = RuntimeError m \<and> t_fault (turn_of w) \<noteq> Some e)"
proof -
  have p: "CAPABILITY_PATTERN (base64url (map of_char b))" if "length b = 32" for b :: bytes
    using base64url_length [of "map of_char b"] base64url_chars [of "map of_char b"] that nat_of_char_less_256
    by (auto simp: CAPABILITY_PATTERN_def)
  show ?thesis
    using assms p [of "take 32 (t_random (turn_of w) @ replicate 32 (CHR 0x00))"]
    by (auto simp: generate_capability_def token_urlsafe_def random_bytes_def sys_call_def bind_def ret_def check_def
        split: if_split_asm option.split_asm)
qed

end
