(* ===== verification/Broker_Sessions.thy ===== *)
theory Broker_Sessions
  imports Egress_Session Github_Session Broker_Runtime
begin

text \<open>
  \<open>create\<close> of the egress and the GitHub session (\<open>src/agent_container/egress_broker.py\<close> and
  \<open>github_broker.py\<close>): the private directories, the audit file and a new run. The session proper is
  that of \<open>Egress_Session\<close> and \<open>Github_Session\<close>; beside it are the paths and the artifacts of its
  run. \<open>sha\<close> is the hexadecimal SHA-256 digest, \<open>lim\<close> the depth \<open>rmtree\<close> allows.
\<close>

record broker_run =
  rn_dir :: path
  rn_socket_path :: path
  rn_capability_path :: path
  rn_audit_file :: path
  rn_artifacts :: RuntimeArtifacts

definition broker_run_of :: "path \<Rightarrow> path \<Rightarrow> RuntimeArtifacts \<Rightarrow> broker_run" where
  "broker_run_of dir log_file artifacts =
     \<lparr>rn_dir = dir, rn_socket_path = path_join dir (u ''broker.sock''),
      rn_capability_path = path_join dir (u ''capability''), rn_audit_file = log_file,
      rn_artifacts = artifacts\<rparr>"

definition run_label :: "(bytes \<Rightarrow> pystr) \<Rightarrow> pystr \<Rightarrow> exn + pystr" where
  "run_label sha run_id = bindE (ascii_encode run_id) (\<lambda>b. Inr (take 16 (sha b)))"

definition create_egress_session ::
  "nat \<Rightarrow> (bytes \<Rightarrow> pystr) \<Rightarrow> StateLayout \<Rightarrow> pystr \<Rightarrow> EgressPolicy \<Rightarrow> (EgressBrokerSession \<times> broker_run) io" where
  "create_egress_session lim sha layout agent policy =
     bind (ensure_private_directory False (sl_root layout)) (\<lambda>_.
     bind (lift (validate_agent agent False)) (\<lambda>selected_agent.
     bind (lift (session_domains agent policy)) (\<lambda>allowed.
     bind (ensure_private_directory True (egress_broker_root layout)) (\<lambda>_.
     bind (ensure_private_directory True (path_join (egress_broker_root layout) (u ''audit''))) (\<lambda>_.
     bind (ensure_private_directory True (path_join (egress_broker_root layout) (u ''r''))) (\<lambda>_.
     bind (lift (egress_broker_run_root sha layout)) (\<lambda>run_root.
     bind (ensure_private_directory True run_root) (\<lambda>project_root.
     let log_file = egress_broker_audit_file layout in
     bind (validate_log \<lparr>al_path = log_file, al_label = ''egress broker audit''\<rparr>) (\<lambda>_.
     bind (new_run lim ''egress broker'' project_root) (\<lambda>(run_id, dir, capability, artifacts).
     bind os_getuid (\<lambda>uid.
     ret (Egress_Session.new_session (sl_project_id layout) selected_agent (int uid) run_id allowed capability,
          broker_run_of dir log_file artifacts))))))))))))"

definition create_github_session ::
  "nat \<Rightarrow> (bytes \<Rightarrow> pystr) \<Rightarrow> path \<Rightarrow> BrokerPolicy \<Rightarrow> (BrokerSession \<times> broker_run) io" where
  "create_github_session lim sha state_root policy =
     bind (ensure_private_directory False state_root) (\<lambda>root.
     bind (ensure_private_directory True (path_join root (u ''github-broker''))) (\<lambda>broker_root.
     bind (ensure_private_directory True (path_join broker_root (u ''audit''))) (\<lambda>audit_root.
     bind (ensure_private_directory True (path_join broker_root (u ''r''))) (\<lambda>run_root.
     bind (lift (github_broker_project_label sha (bp_project_id policy))) (\<lambda>project_label.
     bind (ensure_private_directory True (path_join run_root project_label)) (\<lambda>project_root.
     let log_file = path_join audit_root (u ''events.jsonl'') in
     bind (validate_log \<lparr>al_path = log_file, al_label = ''broker audit''\<rparr>) (\<lambda>_.
     bind (new_run lim ''broker'' project_root) (\<lambda>(run_id, dir, capability, artifacts).
     ret (Github_Session.new_session policy run_id capability, broker_run_of dir log_file artifacts)))))))))"

end
