(* ===== verification/Handover_Protocol.thy ===== *)
theory Handover_Protocol
  imports Frame_Protocol
begin

text \<open>
  \<open>src/agent_container/handover_broker_protocol.py\<close>: the request of an agent to publish a
  handover note and the broker's answer, the path of the note or an error code.
\<close>

section \<open>Schemas\<close>

definition PROTOCOL_VERSION :: int where
  "PROTOCOL_VERSION = 1"

definition MAX_REQUEST_BYTES :: nat where
  "MAX_REQUEST_BYTES = 65536"

definition MAX_DOCUMENT_BYTES :: nat where
  "MAX_DOCUMENT_BYTES = 65536"

definition REQUEST_FIELDS :: "pystr set" where
  "REQUEST_FIELDS = {u ''version'', u ''capability'', u ''project_id'', u ''operation'', u ''title'', u ''body''}"

definition RESPONSE_FIELDS :: "pystr set" where
  "RESPONSE_FIELDS = {u ''version'', u ''status'', u ''path'', u ''code''}"

definition RESPONSE_STATUSES :: "pystr set" where
  "RESPONSE_STATUSES = {u ''ok'', u ''denied'', u ''error''}"

definition RESPONSE_CODES :: "pystr set" where
  "RESPONSE_CODES = {u ''authentication'', u ''schema'', u ''size'', u ''content-policy'',
     u ''filesystem-boundary'', u ''write'', u ''unavailable''}"

definition REQUEST_OPERATION :: pystr where
  "REQUEST_OPERATION = u ''create''"

definition JSON_OPTIONS :: json_options where
  "JSON_OPTIONS = \<lparr>ensure_ascii = False, allow_nan = False, sort_keys = False,
     separators = Some (u '','', u '':''), encoding = Utf8\<rparr>"

definition REQUEST_SCHEMA :: frame_schema where
  "REQUEST_SCHEMA = \<lparr>fs_label = ''handover broker request'', stream_label = ''handover broker stream'',
     fs_fields = REQUEST_FIELDS, max_bytes = MAX_REQUEST_BYTES, fs_json = JSON_OPTIONS, frame_label = None\<rparr>"

definition RESPONSE_SCHEMA :: frame_schema where
  "RESPONSE_SCHEMA = \<lparr>fs_label = ''handover broker response'', stream_label = ''handover broker stream'',
     fs_fields = RESPONSE_FIELDS, max_bytes = MAX_REQUEST_BYTES, fs_json = JSON_OPTIONS, frame_label = None\<rparr>"

section \<open>Fields\<close>

definition schema_error :: exn where
  "schema_error = ValueError ''handover broker schema is invalid''"

definition request_error :: exn where
  "request_error = ValueError ''handover broker request schema is invalid''"

definition response_error :: exn where
  "response_error = ValueError ''handover broker response schema is invalid''"

definition validate_string :: "json \<Rightarrow> exn + pystr" where
  "validate_string value =
     bindE (as_str schema_error value) (\<lambda>s.
     bindE (require (0 \<notin> set s) schema_error) (\<lambda>_.
     bindE (require (list_all (\<lambda>c. \<not> is_surrogate c) s) schema_error) (\<lambda>_. Inr s)))"

definition validate_version :: "json \<Rightarrow> exn + int" where
  "validate_version value =
     bindE (as_int schema_error value) (\<lambda>v.
     bindE (require (v = PROTOCOL_VERSION) schema_error) (\<lambda>_. Inr v))"

definition validate_operation :: "json \<Rightarrow> exn + pystr" where
  "validate_operation value =
     bindE (validate_string value) (\<lambda>x.
     bindE (require (x = REQUEST_OPERATION) request_error) (\<lambda>_. Inr x))"

section \<open>Requests\<close>

record HandoverRequest =
  hq_version :: int
  hq_capability :: pystr
  hq_project_id :: pystr
  hq_operation :: pystr
  hq_title :: pystr
  hq_body :: pystr

definition request_from_values :: "(pystr \<rightharpoonup> json) \<Rightarrow> exn + HandoverRequest" where
  "request_from_values d =
     bindE (bindE (field_of d ''version'') validate_version) (\<lambda>version.
     bindE (bindE (field_of d ''capability'') validate_string) (\<lambda>capability.
     bindE (bindE (field_of d ''project_id'') validate_string) (\<lambda>project_id.
     bindE (bindE (field_of d ''operation'') validate_operation) (\<lambda>operation.
     bindE (bindE (field_of d ''title'') validate_string) (\<lambda>title.
     bindE (bindE (field_of d ''body'') validate_string) (\<lambda>body.
     Inr \<lparr>hq_version = version, hq_capability = capability, hq_project_id = project_id,
          hq_operation = operation, hq_title = title, hq_body = body\<rparr>))))))"

definition request_values :: "HandoverRequest \<Rightarrow> exn + (pystr \<times> json) list" where
  "request_values r =
     bindE (validate_version (JInt (hq_version r))) (\<lambda>version.
     bindE (validate_string (JStr (hq_capability r))) (\<lambda>capability.
     bindE (validate_string (JStr (hq_project_id r))) (\<lambda>project_id.
     bindE (validate_operation (JStr (hq_operation r))) (\<lambda>operation.
     bindE (validate_string (JStr (hq_title r))) (\<lambda>title.
     bindE (validate_string (JStr (hq_body r))) (\<lambda>body.
     Inr [(u ''version'', JInt version), (u ''capability'', JStr capability),
          (u ''project_id'', JStr project_id), (u ''operation'', JStr operation),
          (u ''title'', JStr title), (u ''body'', JStr body)]))))))"

definition encode_request_frame :: "HandoverRequest \<Rightarrow> exn + bytes" where
  "encode_request_frame r = bindE (request_values r) (encode_frame REQUEST_SCHEMA)"

definition decode_request_frame :: "nat \<Rightarrow> bytes \<Rightarrow> exn + HandoverRequest \<times> nat" where
  "decode_request_frame lim data = decode_message lim REQUEST_SCHEMA None request_from_values data"

definition read_request_frame :: "nat \<Rightarrow> 's reader \<Rightarrow> 's \<Rightarrow> (exn + HandoverRequest) \<times> 's" where
  "read_request_frame lim rd s = read_message lim REQUEST_SCHEMA request_from_values rd s"

section \<open>Responses\<close>

record HandoverResponse =
  hs_version :: int
  hs_status :: pystr
  hs_path :: pystr
  hs_code :: pystr

text \<open>\<open>_validate_response\<close> on the values of the fields, and the response it accepts.\<close>

definition validate_response :: "json \<Rightarrow> json \<Rightarrow> json \<Rightarrow> json \<Rightarrow> exn + HandoverResponse" where
  "validate_response version status path code =
     bindE (validate_version version) (\<lambda>v.
     bindE (validate_string status) (\<lambda>s.
     bindE (validate_string path) (\<lambda>p.
     bindE (validate_string code) (\<lambda>c.
     bindE (require (s \<in> RESPONSE_STATUSES) response_error) (\<lambda>_.
     bindE (if s = u ''ok''
            then require (p \<noteq> [] \<and> startswith p (u ''/'') \<and> c = []) response_error
            else require (p = [] \<and> c \<in> RESPONSE_CODES) response_error) (\<lambda>_.
     Inr \<lparr>hs_version = v, hs_status = s, hs_path = p, hs_code = c\<rparr>))))))"

definition response_values :: "HandoverResponse \<Rightarrow> (pystr \<times> json) list" where
  "response_values r =
     [(u ''version'', JInt (hs_version r)), (u ''status'', JStr (hs_status r)),
      (u ''path'', JStr (hs_path r)), (u ''code'', JStr (hs_code r))]"

definition encode_response_frame :: "HandoverResponse \<Rightarrow> exn + bytes" where
  "encode_response_frame r =
     bindE (validate_response (JInt (hs_version r)) (JStr (hs_status r)) (JStr (hs_path r)) (JStr (hs_code r)))
       (\<lambda>_. encode_frame RESPONSE_SCHEMA (response_values r))"

definition response_from_values :: "(pystr \<rightharpoonup> json) \<Rightarrow> exn + HandoverResponse" where
  "response_from_values d =
     bindE (field_of d ''version'') (\<lambda>version.
     bindE (field_of d ''status'') (\<lambda>status.
     bindE (field_of d ''path'') (\<lambda>path.
     bindE (field_of d ''code'') (\<lambda>code.
     validate_response version status path code))))"

definition decode_response_frame :: "nat \<Rightarrow> bytes \<Rightarrow> exn + HandoverResponse \<times> nat" where
  "decode_response_frame lim data = decode_message lim RESPONSE_SCHEMA None response_from_values data"

definition read_response_frame :: "nat \<Rightarrow> 's reader \<Rightarrow> 's \<Rightarrow> (exn + HandoverResponse) \<times> 's" where
  "read_response_frame lim rd s = read_message lim RESPONSE_SCHEMA response_from_values rd s"

section \<open>The protocol contract\<close>

definition handover_text :: "pystr \<Rightarrow> bool" where
  "handover_text s \<longleftrightarrow> 0 \<notin> set s \<and> list_all (\<lambda>c. \<not> is_surrogate c) s"

definition valid_request :: "HandoverRequest \<Rightarrow> bool" where
  "valid_request r \<longleftrightarrow> hq_version r = 1 \<and> handover_text (hq_capability r) \<and> handover_text (hq_project_id r)
     \<and> hq_operation r = u ''create'' \<and> handover_text (hq_title r) \<and> handover_text (hq_body r)"

definition valid_response :: "HandoverResponse \<Rightarrow> bool" where
  "valid_response r \<longleftrightarrow> hs_version r = 1 \<and> handover_text (hs_path r)
     \<and> (hs_status r = u ''ok'' \<and> startswith (hs_path r) (u ''/'') \<and> hs_code r = []
        \<or> hs_status r \<in> {u ''denied'', u ''error''} \<and> hs_path r = [] \<and> hs_code r \<in> RESPONSE_CODES)"

definition plain_request_values :: "HandoverRequest \<Rightarrow> (pystr \<times> json) list" where
  "plain_request_values r =
     [(u ''version'', JInt (hq_version r)), (u ''capability'', JStr (hq_capability r)),
      (u ''project_id'', JStr (hq_project_id r)), (u ''operation'', JStr (hq_operation r)),
      (u ''title'', JStr (hq_title r)), (u ''body'', JStr (hq_body r))]"

lemma validate_string_Inr [err_simps]: "validate_string v = Inr s \<longleftrightarrow> v = JStr s \<and> handover_text s"
  by (auto simp: validate_string_def handover_text_def err_simps)

lemma validate_version_Inr [err_simps]: "validate_version v = Inr i \<longleftrightarrow> v = JInt 1 \<and> i = 1"
  by (auto simp: validate_version_def err_simps PROTOCOL_VERSION_def)

lemma handover_text_eval:
  "handover_text (u ''create'')" "handover_text (u ''ok'')" "handover_text (u ''denied'')"
  "handover_text (u ''error'')" "handover_text []" "c \<in> RESPONSE_CODES \<Longrightarrow> handover_text c"
  by (auto simp: handover_text_def u_def is_surrogate_def RESPONSE_CODES_def)

lemma validate_operation_Inr [err_simps]:
  "validate_operation v = Inr x \<longleftrightarrow> v = JStr (u ''create'') \<and> x = u ''create''"
  by (auto simp: validate_operation_def err_simps REQUEST_OPERATION_def handover_text_eval)

lemma request_values_Inr:
  "request_values r = Inr vals \<longleftrightarrow> valid_request r \<and> vals = plain_request_values r"
  by (auto simp: request_values_def err_simps valid_request_def plain_request_values_def)

lemma ho_request_from_values_Inr:
  "request_from_values d = Inr r \<longleftrightarrow> valid_request r \<and> (\<forall>(k, v) \<in> set (plain_request_values r). d k = Some v)"
  by (cases r) (auto simp: request_from_values_def err_simps valid_request_def plain_request_values_def)

lemma ho_validate_response_Inr:
  "validate_response a b c d = Inr r \<longleftrightarrow> valid_response r \<and> [a, b, c, d] = map snd (response_values r)"
proof -
  have "RESPONSE_STATUSES = insert (u ''ok'') {u ''denied'', u ''error''}"
    by (auto simp: RESPONSE_STATUSES_def)
  moreover have "u ''ok'' \<noteq> u ''denied''" "u ''ok'' \<noteq> u ''error''"
    "\<not> startswith [] (u ''/'')" by (simp_all add: u_def startswith_def)
  ultimately show ?thesis
    by (cases r) (auto simp: validate_response_def err_simps valid_response_def response_values_def
        handover_text_eval split: if_split_asm)
qed

lemma ho_response_from_values_Inr:
  "response_from_values d = Inr r \<longleftrightarrow> valid_response r \<and> (\<forall>(k, v) \<in> set (response_values r). d k = Some v)"
  by (auto simp: response_from_values_def err_simps ho_validate_response_Inr response_values_def)

lemma ho_encode_request_Inr:
  "encode_request_frame r = Inr b \<longleftrightarrow> valid_request r \<and> encode_frame REQUEST_SCHEMA (plain_request_values r) = Inr b"
  by (auto simp: encode_request_frame_def err_simps request_values_Inr)

lemma ho_encode_response_Inr:
  "encode_response_frame r = Inr b \<longleftrightarrow> valid_response r \<and> encode_frame RESPONSE_SCHEMA (response_values r) = Inr b"
  unfolding encode_response_frame_def
  by (rule bindE_guard_iff) (auto simp: ho_validate_response_Inr response_values_def)

text \<open>What can be sent: valid messages of clean text, that is of code points.\<close>

definition sendable_request :: "nat \<Rightarrow> HandoverRequest \<Rightarrow> bool" where
  "sendable_request lim r \<longleftrightarrow> 1 \<le> lim \<and> valid_request r \<and> clean_str (hq_capability r)
     \<and> clean_str (hq_project_id r) \<and> clean_str (hq_title r) \<and> clean_str (hq_body r)"

definition sendable_response :: "nat \<Rightarrow> HandoverResponse \<Rightarrow> bool" where
  "sendable_response lim r \<longleftrightarrow> 1 \<le> lim \<and> valid_response r \<and> clean_str (hs_path r)"

lemma handover_schema_ok: "schema_ok REQUEST_SCHEMA" "schema_ok RESPONSE_SCHEMA"
  by (simp_all add: REQUEST_SCHEMA_def RESPONSE_SCHEMA_def JSON_OPTIONS_def schema_ok_def opts_ok_def
      dump_opts_of_def u_def)

lemma clean_str_Nil: "clean_str []"
  by (simp add: clean_str_def)

interpretation handover_request: flat_protocol lim REQUEST_SCHEMA None plain_request_values request_from_values
  "sendable_request lim" for lim
proof
  show "schema_ok REQUEST_SCHEMA" by (rule handover_schema_ok)
next
  fix r assume v: "sendable_request lim r"
  show "1 \<le> lim" using v by (simp add: sendable_request_def)
  show "set (map fst (plain_request_values r)) = fs_fields REQUEST_SCHEMA"
    by (auto simp: plain_request_values_def REQUEST_SCHEMA_def REQUEST_FIELDS_def)
  show "distinct (map fst (plain_request_values r))" by (simp add: plain_request_values_def)
  show "list_all (\<lambda>(k, v). clean_str k \<and> scalar v \<and> plain v) (plain_request_values r)"
    using v small_int_1 by (auto simp: plain_request_values_def sendable_request_def valid_request_def)
  show "request_from_values (map_of (plain_request_values r)) = Inr r"
    using v by (simp add: ho_request_from_values_Inr sendable_request_def) (simp add: plain_request_values_def)
qed simp

interpretation handover_response: flat_protocol lim RESPONSE_SCHEMA None response_values response_from_values
  "sendable_response lim" for lim
proof
  show "schema_ok RESPONSE_SCHEMA" by (rule handover_schema_ok)
next
  fix r assume v: "sendable_response lim r"
  show "1 \<le> lim" using v by (simp add: sendable_response_def)
  show "set (map fst (response_values r)) = fs_fields RESPONSE_SCHEMA"
    by (auto simp: response_values_def RESPONSE_SCHEMA_def RESPONSE_FIELDS_def)
  show "distinct (map fst (response_values r))" by (simp add: response_values_def)
  show "list_all (\<lambda>(k, v). clean_str k \<and> scalar v \<and> plain v) (response_values r)"
    using v small_int_1
    by (auto simp: response_values_def sendable_response_def valid_response_def RESPONSE_CODES_def
        clean_str_Nil)
  show "response_from_values (map_of (response_values r)) = Inr r"
    using v by (simp add: ho_response_from_values_Inr sendable_response_def) (simp add: response_values_def)
qed simp

interpretation handover_request_sock: protocol_stream lim REQUEST_SCHEMA plain_request_values request_from_values
  "sendable_request lim" sock_read sock_buf for lim
  by unfold_locales

interpretation handover_response_sock: protocol_stream lim RESPONSE_SCHEMA response_values response_from_values
  "sendable_response lim" sock_read sock_buf for lim
  by unfold_locales

end
