(* ===== verification/Handover_Content.thy ===== *)
theory Handover_Content
  imports Handover_Protocol Host_State "HOL-Library.Sublist"
begin

text \<open>
  The pure part of \<open>src/agent_container/handover_writer.py\<close>: what a note may contain and the
  document the host makes of it. The agent supplies the title and the body; the lines above the
  body are the host's.
\<close>

section \<open>Text\<close>

text \<open>\<open>str.splitlines()\<close>: the line boundaries of \<open>str\<close>, with a carriage return and line feed as one.\<close>

definition is_line_boundary :: "nat \<Rightarrow> bool" where
  "is_line_boundary c \<longleftrightarrow> in_range 10 13 c \<or> in_range 28 30 c \<or> c = 133 \<or> c = 8232 \<or> c = 8233"

fun str_splitlines :: "pystr \<Rightarrow> pystr \<Rightarrow> pystr list" where
  "str_splitlines line [] = (if line = [] then [] else [line])"
| "str_splitlines line (c # cs) =
     (if is_line_boundary c
      then line # str_splitlines [] (if c = 13 \<and> startswith cs [10] then drop 1 cs else cs)
      else str_splitlines (line @ [c]) cs)"

text \<open>\<open>s.rstrip("\<newline>")\<close> with a line feed.\<close>

definition rstrip_newlines :: "pystr \<Rightarrow> pystr" where
  "rstrip_newlines s = rev (dropWhile (\<lambda>c. c = 10) (rev s))"

text \<open>A decimal number of at least \<open>n\<close> digits.\<close>

definition padded :: "nat \<Rightarrow> nat \<Rightarrow> pystr" where
  "padded n k = replicate (n - length (dec_digits k)) 48 @ dec_digits k"

text \<open>
  A \<open>datetime\<close>: the moment it stands for, in UTC, and whether it carries an offset (a naive one
  has no moment of its own and is refused before it is used).
\<close>

record datetime =
  dt_year :: nat
  dt_month :: nat
  dt_day :: nat
  dt_hour :: nat
  dt_minute :: nat
  dt_second :: nat
  dt_aware :: bool

definition isoformat_utc :: "datetime \<Rightarrow> pystr" where
  "isoformat_utc t =
     padded 4 (dt_year t) @ u ''-'' @ padded 2 (dt_month t) @ u ''-'' @ padded 2 (dt_day t) @ u ''T''
     @ padded 2 (dt_hour t) @ u '':'' @ padded 2 (dt_minute t) @ u '':'' @ padded 2 (dt_second t) @ u ''+00:00''"

section \<open>Content\<close>

definition REQUIRED_HEADINGS :: "pystr list" where
  "REQUIRED_HEADINGS =
     [[35, 35, 32, 20316, 26989, 12398, 30446, 30340],
      [35, 35, 32, 29694, 22312, 22320],
      [35, 35, 32, 27770, 23450, 20107, 38917, 12392, 29702, 30001],
      [35, 35, 32, 22793, 26356, 12375, 12383, 12501, 12449, 12452, 12523, 12539, 99, 111, 109, 109, 105, 116,
       12539, 80, 82],
      [35, 35, 32, 26908, 35388, 32080, 26524],
      [35, 35, 32, 26410, 35299, 27770, 20107, 38917, 12392, 12522, 12473, 12463],
      [35, 35, 32, 27425, 12398, 19968, 25163]]"

text \<open>
  The alternatives of \<open>_CREDENTIALS\<close> at the head of a text; \<open>before\<close> says that an alphanumeric
  character stands before it. In a private key the class includes every character of
  \<open>PRIVATE KEY\<close> and no hyphen, so the run before the hyphens has to end with these words.
\<close>

definition token_at :: "string \<Rightarrow> (nat \<Rightarrow> bool) \<Rightarrow> nat \<Rightarrow> pystr \<Rightarrow> bool" where
  "token_at lead is_char least s \<longleftrightarrow> startswith s (u lead)
     \<and> least \<le> length (takeWhile is_char (removeprefix (u lead) s))"

definition private_key_at :: "pystr \<Rightarrow> bool" where
  "private_key_at s \<longleftrightarrow> startswith s (u ''-----BEGIN '')
     \<and> (let rest = removeprefix (u ''-----BEGIN '') s;
            run = takeWhile (\<lambda>c. is_upper c \<or> c = 32) rest
        in endswith run (u ''PRIVATE KEY'') \<and> startswith (drop (length run) rest) (u ''-----''))"

definition credential_at :: "bool \<Rightarrow> pystr \<Rightarrow> bool" where
  "credential_at before s \<longleftrightarrow>
     token_at ''ghp_'' is_alnum 20 s
     \<or> token_at ''github_pat_'' (\<lambda>c. is_alnum c \<or> c = 95) 20 s
     \<or> \<not> before \<and> token_at ''sk-'' (\<lambda>c. is_alnum c \<or> c = 95 \<or> c = 45) 16 s
     \<or> private_key_at s"

fun CREDENTIALS :: "bool \<Rightarrow> pystr \<Rightarrow> bool" where
  "CREDENTIALS before [] \<longleftrightarrow> credential_at before []"
| "CREDENTIALS before (c # cs) \<longleftrightarrow> credential_at before (c # cs) \<or> CREDENTIALS (is_alnum c) cs"

definition not_utf8 :: "exn \<Rightarrow> bool" where
  "not_utf8 e \<longleftrightarrow> e = UnicodeEncodeError"

definition validate_handover_content :: "pystr \<Rightarrow> pystr \<Rightarrow> exn + pystr \<times> pystr" where
  "validate_handover_content title0 body0 =
     bindE (require (10 \<notin> set title0 \<and> 13 \<notin> set title0)
       (ValueError ''handover title must be one non-empty line'')) (\<lambda>_.
     let title = strip title0 in
     bindE (require (title \<noteq> []) (ValueError ''handover title must be one non-empty line'')) (\<lambda>_.
     let body = rstrip_newlines body0 @ [10] in
     bindE (reraise_if not_utf8 (ValueError ''handover content must be UTF-8'')
       (bindE (utf8_encode title) (\<lambda>_. utf8_encode body))) (\<lambda>body_bytes.
     bindE (require (0 \<notin> set title \<and> 0 \<notin> set body) (ValueError ''handover content must not contain NUL'')) (\<lambda>_.
     bindE (require (length body_bytes \<le> MAX_DOCUMENT_BYTES) (ValueError ''handover document is too large'')) (\<lambda>_.
     bindE (require (\<not> CREDENTIALS False title \<and> \<not> CREDENTIALS False body)
       (ValueError ''handover content appears to contain credentials'')) (\<lambda>_.
     let headings = filter (\<lambda>l. startswith l (u ''## '')) (str_splitlines [] body) in
     bindE (require (startswith body (hd REQUIRED_HEADINGS @ [10]) \<and> headings = REQUIRED_HEADINGS)
       (ValueError ''handover body must contain exactly the required sections'')) (\<lambda>_.
     Inr (title, body))))))))"

section \<open>The document\<close>

definition NO_SESSION :: pystr where
  "NO_SESSION = [65288, 26410, 35352, 37682, 65289]"

definition handover_text_of :: "pystr \<Rightarrow> pystr \<Rightarrow> pystr \<Rightarrow> pystr \<Rightarrow> pystr \<Rightarrow> pystr" where
  "handover_text_of title project created session body =
     u ''# Handover: '' @ title @ [10, 10] @ u ''- Project: '' @ project @ [10]
     @ u ''- Created: '' @ created @ [10] @ u ''- Session: '' @ session @ [10, 10] @ body"

definition render_handover :: "pystr \<Rightarrow> pystr \<Rightarrow> pystr \<Rightarrow> datetime \<Rightarrow> pystr \<Rightarrow> exn + bytes" where
  "render_handover project_id title0 body0 now session_id =
     bindE (validate_project_id project_id) (\<lambda>project.
     bindE (validate_handover_content title0 body0) (\<lambda>(title, body).
     let session = strip session_id in
     bindE (require (10 \<notin> set session \<and> 13 \<notin> set session \<and> 0 \<notin> set session)
       (ValueError ''handover session ID must be one line'')) (\<lambda>_.
     let session = (if session = [] then NO_SESSION else session) in
     bindE (require (dt_aware now) (ValueError ''handover timestamp must include a timezone'')) (\<lambda>_.
     let created = isoformat_utc now in
     bindE (utf8_encode (handover_text_of title project created session body)) (\<lambda>document.
     bindE (require (length document \<le> MAX_DOCUMENT_BYTES) (ValueError ''handover document is too large'')) (\<lambda>_.
     Inr document))))))"

section \<open>What a note can and cannot contain\<close>

definition is_heading :: "pystr \<Rightarrow> bool" where
  "is_heading l \<longleftrightarrow> startswith l (u ''## '')"

lemma is_heading_append:
  assumes "c \<noteq> 35" and "c \<noteq> 32"
  shows "is_heading (line @ c # rest) \<longleftrightarrow> is_heading line"
proof -
  have "u ''## '' = [35, 35, 32]" by (simp add: u_def)
  then have h: "is_heading l \<longleftrightarrow> take 3 l = [35, 35, 32]" for l
    by (simp add: is_heading_def startswith_def numeral_3_eq_3)
  consider "line = []" | a where "line = [a]" | a b where "line = [a, b]" | a b d r where "line = a # b # d # r"
    by (metis neq_Nil_conv)
  then show ?thesis using assms by cases (auto simp: h numeral_3_eq_3 take_Cons split: nat.splits)
qed

text \<open>
  Lines cut at line feeds only, as Markdown does, are found among the lines that
  \<open>str.splitlines\<close> cuts: each heading among them starts with one of its headings, in order.
\<close>

lemma headings_of_lines:
  assumes "10 \<notin> set line"
  shows "\<exists>hs. subseq hs (filter is_heading (str_splitlines line s))
     \<and> list_all2 startswith (filter is_heading (split_on 10 (line @ s))) hs"
  using assms
proof (induction line s rule: str_splitlines.induct)
  case (1 line)
  then show ?case
    by (cases "is_heading line") (auto simp: split_on_single is_heading_def startswith_def)
next
  case (2 line c cs)
  show ?case
  proof (cases "is_line_boundary c")
    case False
    then have "c \<noteq> 10" by (auto simp: is_line_boundary_def in_range_def)
    with "2.IH"(2) [OF False] "2.prems" False show ?thesis by simp
  next
    case b: True
    define rest where "rest = (if c = 13 \<and> startswith cs [10] then drop 1 cs else cs)"
    obtain hs where hs: "subseq hs (filter is_heading (str_splitlines [] rest))"
      "list_all2 startswith (filter is_heading (split_on 10 rest)) hs"
      using "2.IH"(1) [OF b] by (auto simp: rest_def)
    have c: "c \<noteq> 35" "c \<noteq> 32" using b by (auto simp: is_line_boundary_def in_range_def)
    have pieces: "str_splitlines line (c # cs) = line # str_splitlines [] rest"
      using b by (simp add: rest_def)
    have close: "\<exists>hs'. subseq hs' (filter is_heading (line # str_splitlines [] rest))
        \<and> list_all2 startswith (filter is_heading (l # ls)) hs'"
      if heads: "is_heading l = is_heading line" "startswith l line"
        and tails: "\<exists>hs''. subseq hs'' hs \<and> list_all2 startswith (filter is_heading ls) hs''" for l ls
    proof -
      obtain hs'' where hs'': "subseq hs'' hs" "list_all2 startswith (filter is_heading ls) hs''"
        using tails by blast
      with hs(1) have s: "subseq hs'' (filter is_heading (str_splitlines [] rest))"
        by (blast intro: subseq_order.order_trans)
      show ?thesis
        by (rule exI [of _ "if is_heading line then line # hs'' else hs''"])
           (use s hs''(2) heads in auto)
    qed
    show ?thesis
    proof (cases "c = 10")
      case True
      then have "split_on 10 (line @ c # cs) = line # split_on 10 cs" "rest = cs"
        using "2.prems" by (simp_all add: split_on_append rest_def)
      moreover have "startswith line line" by (simp add: startswith_def)
      moreover have "\<exists>hs''. subseq hs'' hs \<and> list_all2 startswith (filter is_heading (split_on 10 cs)) hs''"
        using hs(2) \<open>rest = cs\<close> by blast
      ultimately show ?thesis unfolding pieces using close [of line "split_on 10 cs"] by simp
    next
      case c10: False
      show ?thesis
      proof (cases "c = 13 \<and> startswith cs [10]")
        case True
        then obtain cs' where cs: "cs = 10 # cs'" "rest = cs'"
          by (auto simp: startswith_iff rest_def)
        have "split_on 10 (line @ c # cs) = (line @ [c]) # split_on 10 cs'"
          using split_on_append [of 10 "line @ [c]" cs'] "2.prems" c10 cs by simp
        moreover have "\<exists>hs''. subseq hs'' hs \<and> list_all2 startswith (filter is_heading (split_on 10 cs')) hs''"
          using hs(2) cs(2) by blast
        ultimately show ?thesis
          unfolding pieces using close [of "line @ [c]" "split_on 10 cs'"] is_heading_append [OF c, of line "[]"]
          by simp
      next
        case False
        then have r: "rest = cs" by (auto simp: rest_def)
        obtain p ps where ps: "split_on 10 cs = p # ps" by (meson neq_Nil_conv split_on_nonempty)
        have l: "split_on 10 (line @ c # cs) = (line @ c # p) # ps"
          using "2.prems" c10 ps by (induction line) auto
        have "\<exists>hs''. subseq hs'' hs \<and> list_all2 startswith (filter is_heading ps) hs''"
        proof (cases "is_heading p")
          case True
          with hs(2) r ps obtain h hs'' where "hs = h # hs''" "list_all2 startswith (filter is_heading ps) hs''"
            by (auto simp: list_all2_Cons1)
          then show ?thesis by (auto intro: exI [of _ hs''])
        next
          case False
          with hs(2) r ps show ?thesis by (auto intro: exI [of _ hs])
        qed
        then show ?thesis
          unfolding pieces l using close [of "line @ c # p" ps] is_heading_append [OF c, of line p] by simp
      qed
    qed
  qed
qed

lemma strip_strip [simp]: "strip (strip s) = strip s"
proof -
  define t where "t = dropWhile is_space s"
  have t: "dropWhile is_space t = t" by (simp add: t_def)
  define v where "v = rev (dropWhile is_space (rev t))"
  have "\<exists>w. t = v @ w" unfolding v_def
    by (metis rev_append rev_rev_ident takeWhile_dropWhile_id)
  then have "dropWhile is_space v = v"
    using t by (cases v) (auto split: if_split_asm dest: arg_cong [where f = length] simp: dropWhile_eq_self_iff)
  then show ?thesis by (simp add: strip_def t_def v_def)
qed

lemma rstrip_line [simp]: "rstrip_newlines (rstrip_newlines s @ [10]) = rstrip_newlines s"
  by (simp add: rstrip_newlines_def)

lemma validate_content_Inr:
  "validate_handover_content t0 b0 = Inr (t, b) \<longleftrightarrow>
     10 \<notin> set t0 \<and> 13 \<notin> set t0 \<and> t = strip t0 \<and> t \<noteq> [] \<and> b = rstrip_newlines b0 @ [10]
     \<and> (\<exists>tb bb. utf8_encode t = Inr tb \<and> utf8_encode b = Inr bb \<and> length bb \<le> MAX_DOCUMENT_BYTES)
     \<and> 0 \<notin> set t \<and> 0 \<notin> set b \<and> \<not> CREDENTIALS False t \<and> \<not> CREDENTIALS False b
     \<and> startswith b (hd REQUIRED_HEADINGS @ [10])
     \<and> filter is_heading (str_splitlines [] b) = REQUIRED_HEADINGS"
  by (auto simp: validate_handover_content_def Let_def err_simps is_heading_def [abs_def])

lemma strip_subset: "set (strip s) \<subseteq> set s"
  unfolding strip_def by (auto dest!: set_dropWhileD)

lemma validate_content_again:
  assumes "validate_handover_content t0 b0 = Inr (t, b)"
  shows "validate_handover_content t b = Inr (t, b)"
  using assms strip_subset [of t0] unfolding validate_content_Inr by auto

text \<open>Digits and literal text hold no line feed.\<close>

lemma dec_digits_no_newline [simp]: "10 \<notin> set (dec_digits n)"
proof (induction n rule: dec_digits.induct)
  case (1 n)
  then show ?case by (subst dec_digits.simps) (auto simp: digit_def)
qed

lemma padded_no_newline [simp]: "10 \<notin> set (padded n k)"
  by (simp add: padded_def)

lemma isoformat_no_newline: "10 \<notin> set (isoformat_utc t)"
  by (simp add: isoformat_utc_def u_def)

lemma slug_no_newline: "slug_match s \<Longrightarrow> 10 \<notin> set s"
  by (auto simp: slug_match_def class_match_def is_slug_char_def class_simps list_all_iff split: list.splits)

definition host_lines :: "pystr \<Rightarrow> pystr \<Rightarrow> pystr \<Rightarrow> pystr \<Rightarrow> pystr list" where
  "host_lines title project created session =
     [u ''# Handover: '' @ title, [], u ''- Project: '' @ project, u ''- Created: '' @ created,
      u ''- Session: '' @ session, []]"

lemma document_lines:
  assumes "10 \<notin> set title" "10 \<notin> set project" "10 \<notin> set created" "10 \<notin> set session"
  shows "split_on 10 (handover_text_of title project created session body)
    = host_lines title project created session @ split_on 10 body"
proof -
  have "handover_text_of title project created session body
      = (u ''# Handover: '' @ title) @ 10 # [] @ 10 # (u ''- Project: '' @ project) @ 10 #
        (u ''- Created: '' @ created) @ 10 # (u ''- Session: '' @ session) @ 10 # [] @ 10 # body"
    by (simp add: handover_text_of_def)
  moreover have "split_on 10 ((u k @ x) @ 10 # ys) = (u k @ x) # split_on 10 ys"
    if "10 \<notin> set (u k)" "10 \<notin> set x" for k x ys
    using that by (intro split_on_append) simp
  moreover have "split_on 10 ([] @ 10 # ys) = [] # split_on (10 :: nat) ys" for ys by simp
  moreover have "10 \<notin> set (u ''# Handover: '')" "10 \<notin> set (u ''- Project: '')"
    "10 \<notin> set (u ''- Created: '')" "10 \<notin> set (u ''- Session: '')"
    by (simp_all add: u_def)
  ultimately show ?thesis using assms unfolding host_lines_def by (simp only: append.simps simp_thms)
qed

text \<open>Without the other separators, \<open>splitlines\<close> gives the lines between line feeds, but for an empty last one.\<close>

definition other_separators :: "nat set" where
  "other_separators = {11, 12, 13, 28, 29, 30, 133, 8232, 8233}"

lemma headings_of_plain_lines:
  assumes "set s \<inter> other_separators = {}" and "10 \<notin> set line"
  shows "filter is_heading (split_on 10 (line @ s)) = filter is_heading (str_splitlines line s)"
  using assms
proof (induction line s rule: str_splitlines.induct)
  case (1 line)
  then show ?case by (simp add: split_on_single is_heading_def startswith_def)
next
  case (2 line c cs)
  show ?case
  proof (cases "is_line_boundary c")
    case True
    with "2.prems" have c: "c = 10" by (auto simp: is_line_boundary_def in_range_def other_separators_def)
    have "filter is_heading (split_on 10 ([] @ cs)) = filter is_heading (str_splitlines [] cs)"
      using "2.IH"(1) [OF True] "2.prems" c by simp
    moreover have "split_on 10 (line @ c # cs) = line # split_on 10 cs" using "2.prems" c by (simp add: split_on_append)
    ultimately show ?thesis using True c by simp
  next
    case False
    then have "c \<noteq> 10" by (auto simp: is_line_boundary_def in_range_def)
    with "2.IH"(2) [OF False] "2.prems" False show ?thesis by simp
  qed
qed

text \<open>
  C23. The agent cannot forge a note: the lines of a rendered document are the host's six, with
  the agent's title on the first, followed by the lines of the body; the \<open>## \<close> lines of the body, as
  \<open>splitlines\<close> gives them, are exactly the required headings in order. When the body has no separator other
  than line feeds these are also the \<open>## \<close> lines of the document; whatever separators it has, a \<open>## \<close> line
  of the document begins with one of them, in their order. No text of the agent matches a credential pattern,
  and the document is within its limit.
\<close>

theorem handover_document_structure:
  assumes "render_handover project t0 b0 now s0 = Inr doc"
  shows "\<exists>text title body session hs. utf8_encode text = Inr doc \<and> length doc \<le> MAX_DOCUMENT_BYTES
    \<and> split_on 10 text = host_lines title project (isoformat_utc now) session @ split_on 10 body
    \<and> title = strip t0 \<and> body = rstrip_newlines b0 @ [10] \<and> session \<in> {strip s0, NO_SESSION}
    \<and> startswith body (hd REQUIRED_HEADINGS @ [10])
    \<and> filter is_heading (str_splitlines [] body) = REQUIRED_HEADINGS
    \<and> (set body \<inter> other_separators = {} \<longrightarrow> filter is_heading (split_on 10 text) = REQUIRED_HEADINGS)
    \<and> subseq hs REQUIRED_HEADINGS \<and> list_all2 startswith (filter is_heading (split_on 10 text)) hs
    \<and> \<not> CREDENTIALS False title \<and> \<not> CREDENTIALS False body"
proof -
  from assms obtain title body session where r:
    "slug_match project" "validate_handover_content t0 b0 = Inr (title, body)"
    "10 \<notin> set (strip s0)" "session = (if strip s0 = [] then NO_SESSION else strip s0)"
    "utf8_encode (handover_text_of title project (isoformat_utc now) session body) = Inr doc"
    "length doc \<le> MAX_DOCUMENT_BYTES"
    by (auto simp: render_handover_def err_simps Let_def validate_project_id_iff)
  note c = r(2) [unfolded validate_content_Inr]
  have "10 \<notin> set title" using c strip_subset [of t0] by auto
  moreover have "10 \<notin> set session" using r(3,4) by (auto simp: NO_SESSION_def)
  ultimately have l: "split_on 10 (handover_text_of title project (isoformat_utc now) session body)
      = host_lines title project (isoformat_utc now) session @ split_on 10 body"
    by (intro document_lines slug_no_newline [OF r(1)] isoformat_no_newline)
  have n: "filter is_heading (host_lines title project (isoformat_utc now) session) = []"
    by (simp add: host_lines_def is_heading_def startswith_def u_def)
  obtain hs where hs: "subseq hs REQUIRED_HEADINGS"
    "list_all2 startswith (filter is_heading (split_on 10 body)) hs"
    using headings_of_lines [of "[]" body] c by auto
  have h: "list_all2 startswith (filter is_heading
      (split_on 10 (handover_text_of title project (isoformat_utc now) session body))) hs"
    unfolding l by (simp add: n hs(2))
  have t: "title = strip t0" "body = rstrip_newlines b0 @ [10]" "startswith body (hd REQUIRED_HEADINGS @ [10])"
    "\<not> CREDENTIALS False title" "\<not> CREDENTIALS False body"
    using c by blast+
  have x: "filter is_heading (str_splitlines [] body) = REQUIRED_HEADINGS" using c by blast
  have y: "set body \<inter> other_separators = {} \<longrightarrow> filter is_heading
      (split_on 10 (handover_text_of title project (isoformat_utc now) session body)) = REQUIRED_HEADINGS"
    unfolding l using headings_of_plain_lines [of body "[]"] x by (simp add: n)
  have s: "session \<in> {strip s0, NO_SESSION}" using r(4) by (cases "strip s0 = []") simp_all
  show ?thesis
    by (intro exI conjI) (rule r(5) r(6) l t s x y hs(1) h)+
qed

definition demo_note_body :: pystr where
  "demo_note_body = concat (map (\<lambda>h. h @ [10, 120, 10]) REQUIRED_HEADINGS) @ [10]"

definition demo_moment :: datetime where
  "demo_moment = \<lparr>dt_year = 2026, dt_month = 1, dt_day = 2, dt_hour = 3, dt_minute = 4, dt_second = 5,
     dt_aware = True\<rparr>"

lemma utf8_encode_length: "utf8_encode s = Inr b \<Longrightarrow> length b \<le> 4 * length s"
proof (induction s arbitrary: b)
  case (Cons c s)
  then obtain x y where "utf8_char c = Some x" "utf8_encode s = Inr y" "b = x @ y"
    by (auto simp: err_simps split: option.split_asm)
  moreover from this have "length x \<le> 4" by (auto simp: utf8_char_def split: if_split_asm)
  ultimately show ?case using Cons.IH [of y] by simp
qed simp

lemma utf8_encode_small:
  "\<forall>c \<in> set s. \<not> is_surrogate c \<Longrightarrow> 4 * length s \<le> n \<Longrightarrow> \<exists>b. utf8_encode s = Inr b \<and> length b \<le> n"
  using utf8_encode_total [of s] utf8_encode_length [of s] by fastforce

lemmas content_eval = u_def strip_def is_space_def REQUIRED_HEADINGS_def rstrip_newlines_def
  CREDENTIALS.simps credential_at_def token_at_def private_key_at_def startswith_def removeprefix_def
  class_simps is_heading_def is_line_boundary_def in_range_def is_surrogate_def MAX_DOCUMENT_BYTES_def

lemma demo_note_content:
  "validate_handover_content (u '' note '') demo_note_body = Inr (u ''note'', butlast demo_note_body)"
proof -
  have t: "strip (u '' note '') = u ''note''" by (simp add: content_eval)
  have b: "rstrip_newlines demo_note_body @ [10] = butlast demo_note_body"
    by (simp add: demo_note_body_def content_eval)
  have e: "\<exists>tb. utf8_encode (u ''note'') = Inr tb \<and> length tb \<le> MAX_DOCUMENT_BYTES"
    "\<exists>bb. utf8_encode (butlast demo_note_body) = Inr bb \<and> length bb \<le> MAX_DOCUMENT_BYTES"
    by (rule utf8_encode_small; simp add: demo_note_body_def content_eval)+
  have k: "\<not> CREDENTIALS False (u ''note'')" "\<not> CREDENTIALS False (butlast demo_note_body)"
    by (simp_all add: demo_note_body_def content_eval)
  have h: "filter is_heading (str_splitlines [] (butlast demo_note_body)) = REQUIRED_HEADINGS"
    by (simp add: demo_note_body_def content_eval)
  have "startswith (butlast demo_note_body) (hd REQUIRED_HEADINGS @ [10])" "0 \<notin> set (butlast demo_note_body)"
    "0 \<notin> set (u ''note'')" "10 \<notin> set (u '' note '')" "13 \<notin> set (u '' note '')" "u ''note'' \<noteq> []"
    by (simp_all add: demo_note_body_def content_eval)
  then show ?thesis unfolding validate_content_Inr t b using e k h by blast
qed

lemma demo_note_rendered:
  "\<exists>doc. render_handover (u ''p'') (u '' note '') demo_note_body demo_moment [] = Inr doc"
proof -
  have p: "validate_project_id (u ''p'') = Inr (u ''p'')"
    by (simp add: validate_project_id_iff slug_match_def class_match_def class_simps u_def)
  have "\<exists>doc. utf8_encode (handover_text_of (u ''note'') (u ''p'') (isoformat_utc demo_moment) NO_SESSION
      (butlast demo_note_body)) = Inr doc \<and> length doc \<le> MAX_DOCUMENT_BYTES"
    by (rule utf8_encode_small)
      (simp_all add: handover_text_of_def demo_note_body_def demo_moment_def isoformat_utc_def padded_def
        dec_digits.simps digit_def NO_SESSION_def content_eval)
  then obtain doc where "utf8_encode (handover_text_of (u ''note'') (u ''p'') (isoformat_utc demo_moment)
      NO_SESSION (butlast demo_note_body)) = Inr doc" "length doc \<le> MAX_DOCUMENT_BYTES" by blast
  then show ?thesis
    by (simp add: render_handover_def p demo_note_content strip_def demo_moment_def)
qed

theorem handover_document_structure_witness:
  "\<exists>doc text. render_handover (u ''p'') (u '' note '') demo_note_body demo_moment [] = Inr doc
     \<and> utf8_encode text = Inr doc \<and> filter is_heading (split_on 10 text) = REQUIRED_HEADINGS"
proof -
  obtain doc where "render_handover (u ''p'') (u '' note '') demo_note_body demo_moment [] = Inr doc"
    using demo_note_rendered by blast
  moreover have "set (rstrip_newlines demo_note_body @ [10]) \<inter> other_separators = {}"
    by (simp add: demo_note_body_def content_eval other_separators_def)
  ultimately show ?thesis using handover_document_structure [of "u ''p''" "u '' note ''" demo_note_body demo_moment "[]"] by metis
qed

end
