(* ===== verification/Handover_Writer.thy ===== *)
theory Handover_Writer
  imports Handover_Content Private_Files
begin

text \<open>
  The file operations of \<open>src/agent_container/handover_writer.py\<close>: a note is written to a temporary
  file of the project's directory and linked to its final name while the session is still open.
  \<open>clock\<close> is \<open>datetime.now\<close>, \<open>guard\<close> what entering the publication guard does.
\<close>

section \<open>The project directory\<close>

definition directory_invalid :: exn where
  "directory_invalid = ValueError ''handover project directory is invalid''"

definition directory_changed :: exn where
  "directory_changed = ValueError ''handover project directory changed''"

definition same_file :: "stat_result \<Rightarrow> stat_result \<Rightarrow> bool" where
  "same_file left right \<longleftrightarrow> st_id left = st_id right"

text \<open>The local variable is the descriptor of the directory reached.\<close>

fun open_directory_chain :: "pystr list \<Rightarrow> (nat \<times> world, nat) prog" where
  "open_directory_chain [] = locals (\<lambda>fd.
     bind (sys (os_fstat fd)) (\<lambda>s. bind (check (st_kind s = Directory) directory_invalid) (\<lambda>_. ret fd)))"
| "open_directory_chain (c # cs) = locals (\<lambda>fd.
     bind (sys (os_open_at [O_RDONLY, O_DIRECTORY, O_NOFOLLOW] 0 fd c)) (\<lambda>child.
     bind (sys (os_close fd)) (\<lambda>_.
     bind (assign (\<lambda>_. child)) (\<lambda>_.
     open_directory_chain cs))))"

definition open_directory_components :: "path \<Rightarrow> nat io" where
  "open_directory_components directory =
     (if \<not> fst directory \<or> list_ex (\<lambda>c. c \<in> {[], u ''.'', u ''..''}) (snd directory)
      then raise directory_invalid
      else
        bind (translate is_os_error directory_invalid
          (os_open_path [O_RDONLY, O_DIRECTORY, O_NOFOLLOW] 0 (True, []))) (\<lambda>root.
        with_locals root (try_except (open_directory_chain (snd directory))
          (\<lambda>e. locals (\<lambda>fd. bind (sys (os_close fd)) (\<lambda>_. raise e))))))"

definition revalidate_project_directory :: "path \<Rightarrow> nat \<Rightarrow> unit io" where
  "revalidate_project_directory directory directory_fd =
     bind (translate is_os_error directory_changed (open_directory_components directory)) (\<lambda>current.
     try_finally
       (bind (os_fstat current) (\<lambda>s. bind (os_fstat directory_fd) (\<lambda>t. check (same_file s t) directory_changed)))
       (os_close current))"

definition open_project_directory :: "path \<Rightarrow> pystr \<Rightarrow> (path \<times> nat) io" where
  "open_project_directory directory project_id0 =
     bind (lift (validate_project_id project_id0)) (\<lambda>project_id.
     bind (check (fst directory \<and> path_name directory = project_id) directory_invalid) (\<lambda>_.
     bind (translate (\<lambda>e. is_os_error e \<or> is_value_error e) directory_invalid
       (open_directory_components directory)) (\<lambda>fd.
     bind (on_failure (revalidate_project_directory directory fd) (os_close fd)) (\<lambda>_.
     ret (directory, fd)))))"

section \<open>Owned entries\<close>

definition entry_metadata :: "nat \<Rightarrow> pystr \<Rightarrow> stat_result io" where
  "entry_metadata directory_fd name =
     translate is_os_error (OSError ''handover file identity check failed'') (os_stat_at directory_fd name)"

definition verify_owned_entry :: "nat \<Rightarrow> pystr \<Rightarrow> stat_result \<Rightarrow> unit io" where
  "verify_owned_entry directory_fd name owned =
     bind (entry_metadata directory_fd name) (\<lambda>s.
     check (same_file s owned) (OSError ''handover file identity changed''))"

definition cleanup_error :: exn where
  "cleanup_error = OSError ''handover file cleanup failed''"

definition unlink_owned_entry :: "nat \<Rightarrow> pystr \<Rightarrow> stat_result \<Rightarrow> unit io" where
  "unlink_owned_entry directory_fd name owned =
     bind (try_except (bind (os_stat_at directory_fd name) (\<lambda>s. ret (Some s)))
       (\<lambda>e. if e = FileNotFoundError then ret None
            else raise (if is_os_error e then cleanup_error else e))) (\<lambda>current.
     case current of
       None \<Rightarrow> ret ()
     | Some s \<Rightarrow>
         bind (check (same_file s owned) (OSError ''handover file cleanup refused a changed entry'')) (\<lambda>_.
         try_except (os_unlink_at directory_fd name)
           (\<lambda>e. if e = FileNotFoundError then ret ()
                else raise (if is_os_error e then cleanup_error else e))))"

section \<open>One attempt\<close>

record handover_locals =
  hl_fd :: "nat option"
  hl_owned :: "stat_result option"
  hl_temporary_created :: bool
  hl_published :: bool
  hl_complete :: bool

definition no_handover :: handover_locals where
  "no_handover = \<lparr>hl_fd = None, hl_owned = None, hl_temporary_created = False, hl_published = False,
     hl_complete = False\<rparr>"

type_synonym 'a attempt = "(handover_locals \<times> world, 'a) prog"

text \<open>\<open>try: m except OSError: cleanup_failed = True\<close>: whether it failed.\<close>

definition failed :: "unit io \<Rightarrow> bool attempt" where
  "failed m = try_except (bind (sys m) (\<lambda>_. ret False)) (\<lambda>e. if is_os_error e then ret True else raise e)"

definition handover_cleanup :: "nat \<Rightarrow> pystr \<Rightarrow> pystr \<Rightarrow> unit attempt" where
  "handover_cleanup directory_fd temporary final =
     bind (locals (\<lambda>l. case (hl_owned l, hl_fd l) of
         (None, Some fd) \<Rightarrow>
           try_except (bind (sys (os_fstat fd)) (\<lambda>s. bind (assign (\<lambda>l. l\<lparr>hl_owned := Some s\<rparr>)) (\<lambda>_. ret False)))
             (\<lambda>e. if is_os_error e then ret True else raise e)
       | _ \<Rightarrow> ret False)) (\<lambda>f1.
     bind (locals (\<lambda>l. case (hl_complete l, hl_owned l) of
         (False, Some owned) \<Rightarrow>
           bind (if hl_published l then failed (unlink_owned_entry directory_fd final owned) else ret False) (\<lambda>f2.
           bind (if hl_temporary_created l then failed (unlink_owned_entry directory_fd temporary owned)
                 else ret False) (\<lambda>f3.
           ret (f2 \<or> f3)))
       | _ \<Rightarrow> ret False)) (\<lambda>f2.
     bind (locals (\<lambda>l. case hl_fd l of Some fd \<Rightarrow> failed (os_close fd) | None \<Rightarrow> ret False)) (\<lambda>f3.
     check (\<not> (f1 \<or> f2 \<or> f3)) (OSError ''handover rollback failed''))))"

text \<open>The body of the \<open>try\<close>: \<open>None\<close> is \<open>continue\<close>.\<close>

definition handover_publish ::
  "unit io \<Rightarrow> path \<Rightarrow> nat \<Rightarrow> pystr \<Rightarrow> pystr \<Rightarrow> bytes \<Rightarrow> path option attempt" where
  "handover_publish guard project directory_fd temporary final document =
     bind (sys (os_open_at [O_WRONLY, O_CREAT, O_EXCL, O_NOFOLLOW] mode_0600 directory_fd temporary)) (\<lambda>fd.
     bind (assign (\<lambda>l. l\<lparr>hl_fd := Some fd, hl_temporary_created := True\<rparr>)) (\<lambda>_.
     bind (sys (os_fstat fd)) (\<lambda>owned.
     bind (assign (\<lambda>l. l\<lparr>hl_owned := Some owned\<rparr>)) (\<lambda>_.
     bind (sys (os_fchmod fd mode_0600)) (\<lambda>_.
     bind (sys (os_fstat fd)) (\<lambda>s.
     bind (check (st_mode s = mode_0600) (PermissionError ''handover file must have mode 0600'')) (\<lambda>_.
     bind (sys (write_all (OSError ''failed to write handover document'') fd document)) (\<lambda>_.
     bind (sys (os_fsync fd)) (\<lambda>_.
     bind (sys (revalidate_project_directory project directory_fd)) (\<lambda>_.
     bind (sys guard) (\<lambda>_.
     bind (sys (verify_owned_entry directory_fd temporary owned)) (\<lambda>_.
     bind (try_except (bind (sys (os_link_at directory_fd temporary final)) (\<lambda>_. ret True))
       (\<lambda>e. if (\<exists>m. e = FileExistsError m) then ret False else raise e)) (\<lambda>linked.
     if \<not> linked then ret None
     else
       bind (assign (\<lambda>l. l\<lparr>hl_published := True\<rparr>)) (\<lambda>_.
       bind (sys (verify_owned_entry directory_fd final owned)) (\<lambda>_.
       bind (sys (unlink_owned_entry directory_fd temporary owned)) (\<lambda>_.
       bind (assign (\<lambda>l. l\<lparr>hl_temporary_created := False\<rparr>)) (\<lambda>_.
       bind (sys (os_fsync directory_fd)) (\<lambda>_.
       bind (sys (revalidate_project_directory project directory_fd)) (\<lambda>_.
       bind (sys (os_close fd)) (\<lambda>_.
       bind (assign (\<lambda>l. l\<lparr>hl_fd := None, hl_complete := True\<rparr>)) (\<lambda>_.
       ret (Some (path_join project final)))))))))))))))))))))))"

text \<open>\<open>strftime("%Y-%m-%d_%H%M%S_")\<close>: the year is not padded.\<close>

definition handover_stamp :: "datetime \<Rightarrow> pystr" where
  "handover_stamp t =
     dec_digits (dt_year t) @ u ''-'' @ padded 2 (dt_month t) @ u ''-'' @ padded 2 (dt_day t) @ u ''_''
     @ padded 2 (dt_hour t) @ padded 2 (dt_minute t) @ padded 2 (dt_second t) @ u ''_''"

definition handover_attempt :: "unit io \<Rightarrow> path \<Rightarrow> nat \<Rightarrow> datetime \<Rightarrow> bytes \<Rightarrow> path option io" where
  "handover_attempt guard project directory_fd timestamp document =
     bind (token_hex 8) (\<lambda>t8.
     bind (token_hex 4) (\<lambda>t4.
     let temporary = u ''.handover-'' @ t8 @ u ''.tmp'';
         final = handover_stamp timestamp @ t4 @ u ''.md''
     in with_locals no_handover
          (try_finally (handover_publish guard project directory_fd temporary final document)
             (handover_cleanup directory_fd temporary final))))"

fun handover_attempts :: "nat \<Rightarrow> unit io \<Rightarrow> path \<Rightarrow> nat \<Rightarrow> datetime \<Rightarrow> bytes \<Rightarrow> path io" where
  "handover_attempts 0 guard project directory_fd timestamp document =
     raise (FileExistsError ''could not allocate unique handover path'')"
| "handover_attempts (Suc n) guard project directory_fd timestamp document =
     bind (handover_attempt guard project directory_fd timestamp document) (\<lambda>created.
     case created of
       Some p \<Rightarrow> ret p
     | None \<Rightarrow> handover_attempts n guard project directory_fd timestamp document)"

definition create_atomic_handover ::
  "datetime \<Rightarrow> unit io \<Rightarrow> path \<Rightarrow> pystr \<Rightarrow> pystr \<Rightarrow> pystr \<Rightarrow> datetime option \<Rightarrow> pystr \<Rightarrow> path io" where
  "create_atomic_handover clock guard directory project_id title body now session_id =
     (let timestamp = (case now of None \<Rightarrow> clock | Some t \<Rightarrow> t) in
      bind (lift (render_handover project_id title body timestamp session_id)) (\<lambda>document.
      bind (open_project_directory directory project_id) (\<lambda>(project, directory_fd).
      try_finally (handover_attempts 8 guard project directory_fd timestamp document)
        (os_close directory_fd))))"

end
