(* ===== verification/Handover_Broker.thy ===== *)
theory Handover_Broker
  imports Handover_Writer Broker_Runtime Replay_Guard
begin

text \<open>
  \<open>src/agent_container/handover_broker.py\<close> and \<open>handover_broker_transport.py\<close>: the session that
  accepts notes from the agent and the handler of one connection, from the request to the audit
  line. A session may be deactivated by another thread at any time: \<open>ho_stop_at\<close> is the moment, on
  the clock of the world, from which its lock finds it closed. \<open>now\<close> is the timestamp of an audit
  line, \<open>is_iso\<close> whether \<open>fromisoformat\<close> accepts it, \<open>sha\<close> the hexadecimal SHA-256 digest.
\<close>

section \<open>The session\<close>

record HandoverBrokerSession =
  ho_project_id :: pystr
  ho_project_dir :: path
  ho_owner_uid :: int
  ho_run_id :: pystr
  ho_run_dir :: path
  ho_audit_file :: path
  ho_capability :: pystr
  ho_artifacts :: RuntimeArtifacts
  ho_listener :: bool
  ho_closed :: bool
  ho_cleanup_complete :: bool
  ho_stop_at :: "nat option"

definition ho_socket_path :: "HandoverBrokerSession \<Rightarrow> path" where
  "ho_socket_path s = path_join (ho_run_dir s) (u ''broker.sock'')"

definition handover_closed :: "HandoverBrokerSession \<Rightarrow> world \<Rightarrow> bool" where
  "handover_closed s w \<longleftrightarrow> ho_closed s \<or> (case ho_stop_at s of None \<Rightarrow> False | Some t \<Rightarrow> t \<le> w_clock w)"

definition project_directory_invalid :: exn where
  "project_directory_invalid = ValueError ''handover project directory is invalid''"

definition validate_project_directory :: "path \<Rightarrow> pystr \<Rightarrow> path io" where
  "validate_project_directory directory project_id =
     bind (check (fst directory \<and> path_name directory = project_id) project_directory_invalid) (\<lambda>_.
     bind (translate is_os_error project_directory_invalid (path_resolve True directory)) (\<lambda>resolved.
     bind (if resolved \<noteq> directory then ret True else path_is_symlink directory) (\<lambda>bad.
     bind (if bad then ret True else bind (path_is_dir directory) (\<lambda>d. ret (\<not> d))) (\<lambda>bad.
     bind (check (\<not> bad) project_directory_invalid) (\<lambda>_.
     ret resolved)))))"

definition create_handover_session ::
  "nat \<Rightarrow> (bytes \<Rightarrow> pystr) \<Rightarrow> path \<Rightarrow> pystr \<Rightarrow> path \<Rightarrow> nat option \<Rightarrow> HandoverBrokerSession io" where
  "create_handover_session lim sha state_root project_id directory stop_at =
     bind (ensure_private_directory False state_root) (\<lambda>root.
     bind (lift (validate_project_id project_id)) (\<lambda>validated_project.
     bind (validate_project_directory directory validated_project) (\<lambda>bound_project_dir.
     bind (ensure_private_directory True (path_join root (u ''handover-broker''))) (\<lambda>broker_root.
     bind (ensure_private_directory True (path_join broker_root (u ''audit''))) (\<lambda>audit_root.
     bind (ensure_private_directory True (path_join broker_root (u ''r''))) (\<lambda>run_root.
     bind (lift (handover_broker_project_label sha validated_project)) (\<lambda>label.
     bind (ensure_private_directory True (path_join run_root label)) (\<lambda>project_root.
     let log_file = path_join audit_root (u ''events.jsonl'') in
     bind (validate_log \<lparr>al_path = log_file, al_label = ''handover broker audit''\<rparr>) (\<lambda>_.
     bind (new_run lim ''handover broker'' project_root) (\<lambda>(run_id, dir, capability, artifacts).
     bind os_getuid (\<lambda>uid.
     ret \<lparr>ho_project_id = validated_project, ho_project_dir = bound_project_dir, ho_owner_uid = int uid,
          ho_run_id = run_id, ho_run_dir = dir, ho_audit_file = log_file, ho_capability = capability,
          ho_artifacts = artifacts, ho_listener = False, ho_closed = False, ho_cleanup_complete = False,
          ho_stop_at = stop_at\<rparr>)))))))))))"

definition authorize_handover :: "HandoverRequest \<Rightarrow> int \<Rightarrow> HandoverBrokerSession \<Rightarrow> (pystr \<times> pystr) io" where
  "authorize_handover request peer_uid s w =
     (let not_authorized = ValueError ''handover broker request is not authorized'' in
      (if handover_closed s w then Inl (ValueError ''handover broker session is closed'')
       else if peer_uid \<noteq> ho_owner_uid s then Inl not_authorized
       else if hq_version request \<noteq> PROTOCOL_VERSION
       then Inl (ValueError ''handover broker protocol version is not supported'')
       else
         bindE (compare_digest (hq_capability request) (ho_capability s)) (\<lambda>same.
         if \<not> same then Inl not_authorized
         else if hq_project_id request \<noteq> ho_project_id s
         then Inl (ValueError ''handover broker request project is not allowed'')
         else if hq_operation request \<noteq> u ''create''
         then Inl (ValueError ''handover broker request operation is not allowed'')
         else validate_handover_content (hq_title request) (hq_body request)), w))"

text \<open>Entering the guard under which a note gets its final name.\<close>

definition publication_guard :: "HandoverBrokerSession \<Rightarrow> unit io" where
  "publication_guard s w =
     (if handover_closed s w then Inl (OSError ''handover publication is unavailable'') else Inr (), w)"

definition deactivate_handover :: "HandoverBrokerSession \<Rightarrow> HandoverBrokerSession" where
  "deactivate_handover s = s\<lparr>ho_closed := True, ho_capability := []\<rparr>"

definition on_artifacts ::
  "(RuntimeArtifacts \<times> world, 'a) prog \<Rightarrow> (HandoverBrokerSession \<times> world, 'a) prog" where
  "on_artifacts m sw =
     (case m (ho_artifacts (fst sw), snd sw) of (r, (a, w)) \<Rightarrow> (r, ((fst sw)\<lparr>ho_artifacts := a\<rparr>, w)))"

definition open_handover_listener :: "(HandoverBrokerSession \<times> world, unit) prog" where
  "open_handover_listener sw =
     (if handover_closed (fst sw) (snd sw) \<or> ho_listener (fst sw)
      then raise (ValueError ''handover broker listener state is invalid'') sw
      else
        bind (sys (bind_private_listener (ho_socket_path (fst sw)) ''handover broker'')) (\<lambda>_.
        bind (on_failure (on_artifacts (track_socket (u ''broker.sock''))) (sys socket_call)) (\<lambda>_.
        assign (\<lambda>s. s\<lparr>ho_listener := True\<rparr>))) sw)"

definition close_handover :: "(HandoverBrokerSession \<times> world, unit) prog" where
  "close_handover = locals (\<lambda>s.
     if ho_cleanup_complete s then ret ()
     else
       bind (assign deactivate_handover) (\<lambda>_.
       bind (if ho_listener s
             then try_except (bind (sys socket_call) (\<lambda>_. bind (assign (\<lambda>s. s\<lparr>ho_listener := False\<rparr>)) (\<lambda>_. ret False)))
               (\<lambda>e. if is_os_error e then ret True else raise e)
             else ret False) (\<lambda>f1.
       bind (on_artifacts remove_artifacts) (\<lambda>f2.
       bind (check (\<not> (f1 \<or> f2)) (ValueError ''handover broker cleanup failed'')) (\<lambda>_.
       assign (\<lambda>s. s\<lparr>ho_cleanup_complete := True\<rparr>))))))"

section \<open>Audit\<close>

text \<open>The decimal digits of Unicode, which \<open>\d\<close> matches, come in runs of ten from these zeros.\<close>

definition DECIMAL_ZEROS :: "nat list" where
  "DECIMAL_ZEROS = [48, 1632, 1776, 1984, 2406, 2534, 2662, 2790, 2918, 3046, 3174, 3302, 3430, 3558, 3664, 3792,
     3872, 4160, 4240, 6112, 6160, 6470, 6608, 6784, 6800, 6992, 7088, 7232, 7248, 42528, 43216, 43264, 43472,
     43504, 43600, 44016, 65296, 66720, 68912, 69734, 69872, 69942, 70096, 70384, 70736, 70864, 71248, 71360,
     71472, 71904, 72016, 72784, 73040, 73120, 92768, 92864, 93008, 120782, 120792, 120802, 120812, 120822,
     123200, 123632, 125264, 130032]"

definition is_decimal :: "nat \<Rightarrow> bool" where
  "is_decimal c \<longleftrightarrow> list_ex (\<lambda>z. z \<le> c \<and> c < z + 10) DECIMAL_ZEROS"

definition HANDOVER_FILENAME :: "pystr \<Rightarrow> bool" where
  "HANDOVER_FILENAME s \<longleftrightarrow> length s = 29
     \<and> list_all is_decimal (take 4 s @ take 2 (drop 5 s) @ take 2 (drop 8 s) @ take 6 (drop 11 s))
     \<and> s ! 4 = 45 \<and> s ! 7 = 45 \<and> s ! 10 = 95 \<and> s ! 17 = 95
     \<and> list_all is_lower_hex (take 8 (drop 18 s)) \<and> drop 26 s = u ''.md''"

definition validate_container_path :: "pystr \<Rightarrow> pystr \<Rightarrow> exn + pystr" where
  "validate_container_path path project_id =
     (let parsed = path_of path;
          double_root = startswith path (u ''//'') \<and> \<not> startswith path (u ''///'')
      in bindE (require (0 \<notin> set path \<and> 10 \<notin> set path \<and> 13 \<notin> set path
             \<and> fst parsed \<and> \<not> double_root
             \<and> path_parent parsed = path_join (path_of (u ''/handovers'')) project_id
             \<and> HANDOVER_FILENAME (path_name parsed))
           (ValueError ''handover broker audit path is invalid'')) (\<lambda>_. Inr path))"

definition HANDOVER_AUDIT_STAGES :: "pystr set" where
  "HANDOVER_AUDIT_STAGES = {u ''authentication'', u ''schema'', u ''size'', u ''content-policy'',
     u ''filesystem-boundary'', u ''write'', u ''unavailable'', u ''response''}"

definition handover_record ::
  "(bytes \<Rightarrow> pystr) \<Rightarrow> pystr \<Rightarrow> HandoverBrokerSession \<Rightarrow> pystr \<Rightarrow> pystr \<Rightarrow> pystr \<Rightarrow> exn + (pystr \<times> json) list" where
  "handover_record sha now s status stage path =
     bindE (require (status \<in> AUDIT_STATUSES) (ValueError ''handover broker audit status is invalid'')) (\<lambda>_.
     bindE (require (stage \<in> HANDOVER_AUDIT_STAGES) (ValueError ''handover broker audit stage is invalid'')) (\<lambda>_.
     bindE (if status = u ''ok'' then validate_container_path path (ho_project_id s)
            else if path \<noteq> [] then Inl (ValueError ''handover broker audit path is invalid'') else Inr path) (\<lambda>p.
     bindE (ascii_encode (ho_run_id s)) (\<lambda>run.
     Inr ([(u ''timestamp'', JStr now), (u ''run'', JStr (take 16 (sha run))),
           (u ''project'', JStr (ho_project_id s)), (u ''operation'', JStr (u ''create'')),
           (u ''status'', JStr status), (u ''stage'', JStr stage)]
        @ (if p = [] then [] else [(u ''path'', JStr p)]))))))"

definition audit_handover ::
  "(bytes \<Rightarrow> pystr) \<Rightarrow> (pystr \<Rightarrow> bool) \<Rightarrow> pystr \<Rightarrow> HandoverBrokerSession \<Rightarrow> pystr \<Rightarrow> pystr \<Rightarrow> pystr \<Rightarrow> unit io" where
  "audit_handover sha is_iso now s status stage path w =
     (if handover_closed s w then (Inl (ValueError ''handover broker session is closed''), w)
      else
        bind (lift (handover_record sha now s status stage path)) (\<lambda>record.
        log_append is_iso \<lparr>al_path = ho_audit_file s, al_label = ''handover broker audit''\<rparr> record) w)"

end
