(* ===== verification/Broker_Connection.thy ===== *)
theory Broker_Connection
  imports Broker_Frame File_System
begin

text \<open>
  What the connection handlers of \<open>src/agent_container/broker/runtime.py\<close> are given: a client's
  stream, whose calls run beside the world.
\<close>

definition on_stream :: "('c \<Rightarrow> (exn + 'a) \<times> 'c) \<Rightarrow> ('c \<times> world, 'a) prog" where
  "on_stream f cw = (case f (fst cw) of (r, c) \<Rightarrow> (r, (c, snd cw)))"

text \<open>The methods of a client's stream.\<close>

record 'c stream_methods =
  sm_read :: "'c reader"
  sm_write :: "'c writer"
  sm_flush :: "'c \<Rightarrow> (exn + unit) \<times> 'c"
  sm_close :: "'c \<Rightarrow> (exn + unit) \<times> 'c"

end
