(* ===== verification/Handover_Transport.thy ===== *)
theory Handover_Transport
  imports Handover_Broker Broker_Connection
begin

text \<open>
  \<open>src/agent_container/handover_broker_transport.py\<close>: one connection of the handover broker. The
  state is the stream of the client beside the world; \<open>rd\<close>, \<open>wr\<close>, \<open>flush\<close> and \<open>shut\<close> are the
  stream's methods.
\<close>

definition AUTHORIZATION_BODY :: pystr where
  "AUTHORIZATION_BODY = concat (map (\<lambda>h. h @ [10] @ u ''authorization'' @ [10]) REQUIRED_HEADINGS)"

text \<open>\<open>_RequestFailure\<close> is the left side of the value.\<close>

definition read_one_request :: "nat \<Rightarrow> 'c stream_methods \<Rightarrow> ('c \<times> world, pystr + HandoverRequest) prog" where
  "read_one_request lim io =
     try_except (bind (on_stream (read_request_frame lim (sm_read io))) (\<lambda>r. ret (Inr r)))
       (\<lambda>e. case e of
          FrameSizeError m \<Rightarrow> ret (Inl (u ''size''))
        | _ \<Rightarrow> if is_value_error e then ret (Inl (u ''schema'')) else raise e)"

text \<open>The loop is that of \<open>write_fully\<close>; every error it can raise here means \<open>False\<close>.\<close>

definition write_response :: "'c stream_methods \<Rightarrow> HandoverResponse \<Rightarrow> ('c \<times> world, bool) prog" where
  "write_response io response =
     try_except
       (bind (lift (encode_response_frame response)) (\<lambda>frame.
        bind (on_stream (Broker_Frame.write_all (sm_write io) (sm_flush io) frame ''handover broker response'')) (\<lambda>_.
        ret True)))
       (\<lambda>e. if is_os_error e \<or> e = TypeError \<or> is_value_error e then ret False else raise e)"

definition unless_refused :: "(world, unit) prog \<Rightarrow> nat \<Rightarrow> ('c \<times> world, nat) prog" where
  "unless_refused m result =
     try_except (bind (sys m) (\<lambda>_. ret result))
       (\<lambda>e. if is_os_error e \<or> is_value_error e then ret 1 else raise e)"

type_synonym audit_method = "pystr \<Rightarrow> pystr \<Rightarrow> pystr \<Rightarrow> unit io"

definition finish_handover ::
  "'c stream_methods \<Rightarrow> audit_method \<Rightarrow> HandoverResponse \<Rightarrow> pystr \<Rightarrow> pystr \<Rightarrow> pystr \<Rightarrow> nat \<Rightarrow> ('c \<times> world, nat) prog" where
  "finish_handover io audit response status stage path result =
     bind (write_response io response) (\<lambda>sent.
       if \<not> sent then unless_refused (audit (u ''error'') (u ''response'') []) 1
       else unless_refused (audit status stage path) result)"

definition failure_response :: "pystr \<Rightarrow> HandoverResponse" where
  "failure_response code =
     \<lparr>hs_version = PROTOCOL_VERSION,
      hs_status = (if code \<in> {u ''authentication'', u ''schema'', u ''size'', u ''content-policy''}
                   then u ''denied'' else u ''error''),
      hs_path = [], hs_code = code\<rparr>"

definition refuse_handover :: "'c stream_methods \<Rightarrow> audit_method \<Rightarrow> pystr \<Rightarrow> ('c \<times> world, nat) prog" where
  "refuse_handover io audit code =
     finish_handover io audit (failure_response code) (hs_status (failure_response code)) code [] 1"

text \<open>
  The note is created; its path, or the code of the failure. A killed process runs no
  \<open>except\<close> clause.
\<close>

definition publish_handover ::
  "datetime \<Rightarrow> HandoverBrokerSession \<Rightarrow> pystr \<Rightarrow> pystr \<Rightarrow> datetime option \<Rightarrow> ('c \<times> world, pystr + path) prog" where
  "publish_handover clock s title body now =
     try_except
       (bind (sys (create_atomic_handover clock (publication_guard s) (ho_project_dir s) (ho_project_id s)
           title body now [])) (\<lambda>created.
        bind (check (path_parent created = ho_project_dir s)
          (ValueError ''handover writer returned an invalid path'')) (\<lambda>_.
        ret (Inr created))))
       (\<lambda>e. if is_value_error e then ret (Inl (u ''filesystem-boundary''))
            else if is_os_error e then ret (Inl (u ''write''))
            else if e = Killed then raise e
            else ret (Inl (u ''unavailable'')))"

definition serve_request ::
  "datetime \<Rightarrow> audit_method \<Rightarrow> 'c stream_methods \<Rightarrow> HandoverBrokerSession \<Rightarrow> int \<Rightarrow> datetime option
     \<Rightarrow> HandoverRequest \<Rightarrow> ('c \<times> world, nat) prog" where
  "serve_request clock audit io s peer_uid now request =
     bind (try_except
       (bind (sys (authorize_handover
          (request\<lparr>hq_title := u ''handover authorization'', hq_body := AUTHORIZATION_BODY\<rparr>) peer_uid s))
          (\<lambda>_. ret True))
       (\<lambda>e. if is_value_error e then ret False else raise e)) (\<lambda>authorized.
     if \<not> authorized then refuse_handover io audit (u ''authentication'')
     else
       (case validate_handover_content (hq_title request) (hq_body request) of
          Inl e \<Rightarrow> if is_value_error e then refuse_handover io audit (u ''content-policy'') else raise e
        | Inr (title, body) \<Rightarrow>
            bind (publish_handover clock s title body now) (\<lambda>outcome.
            case outcome of
              Inl code \<Rightarrow> refuse_handover io audit code
            | Inr created \<Rightarrow>
                let container_path = u ''/handovers/'' @ ho_project_id s @ u ''/'' @ path_name created;
                    response = \<lparr>hs_version = PROTOCOL_VERSION, hs_status = u ''ok'',
                      hs_path = container_path, hs_code = []\<rparr>
                in finish_handover io audit response (u ''ok'') (u ''write'') container_path 0)))"

definition handle_handover_connection ::
  "nat \<Rightarrow> datetime \<Rightarrow> audit_method \<Rightarrow> 'c stream_methods \<Rightarrow> HandoverBrokerSession \<Rightarrow> int \<Rightarrow> datetime option
     \<Rightarrow> ('c \<times> world, nat) prog" where
  "handle_handover_connection lim clock audit io s peer_uid now =
     try_finally
       (bind (read_one_request lim io) (\<lambda>request.
        case request of
          Inl code \<Rightarrow> refuse_handover io audit code
        | Inr r \<Rightarrow> serve_request clock audit io s peer_uid now r))
       (try_except (on_stream (sm_close io)) (\<lambda>e. if is_os_error e then ret () else raise e))"

end
