(* ===== verification/Raise_Logic.thy ===== *)
theory Raise_Logic
  imports Broker_Runtime Frame_Protocol
begin

text \<open>
  Which exceptions a program can raise. \<open>raises K m\<close>: from a world whose calls fail with operating
  system errors only, \<open>m\<close> raises only exceptions in \<open>K\<close>, and the world stays such. The lemmas follow
  the constructs of the language; a function is bounded by applying them to its body.
\<close>

section \<open>Programs\<close>

definition os_faults :: "world \<Rightarrow> bool" where
  "os_faults w \<longleftrightarrow> (\<forall>n e. t_fault (w_turns w n) = Some e \<longrightarrow> is_os_error e)"

definition bounded :: "('s \<Rightarrow> bool) \<Rightarrow> (exn \<Rightarrow> bool) \<Rightarrow> ('s, 'a) prog \<Rightarrow> bool" where
  "bounded I K m \<longleftrightarrow> (\<forall>s. I s \<longrightarrow> I (snd (m s)) \<and> (\<forall>e. fst (m s) = Inl e \<longrightarrow> K e))"

abbreviation raises :: "(exn \<Rightarrow> bool) \<Rightarrow> 'a io \<Rightarrow> bool" where
  "raises \<equiv> bounded os_faults"

abbreviation raises_in :: "(exn \<Rightarrow> bool) \<Rightarrow> ('l \<times> world, 'a) prog \<Rightarrow> bool" where
  "raises_in \<equiv> bounded (\<lambda>s. os_faults (snd s))"

named_theorems raise_intros \<open>which exceptions a program can raise\<close>

lemma bounded_mono: "bounded I K m \<Longrightarrow> (\<And>e. K e \<Longrightarrow> K' e) \<Longrightarrow> bounded I K' m"
  by (simp add: bounded_def)

lemma bounded_result: "bounded I K m \<Longrightarrow> I s \<Longrightarrow> m s = (r, t) \<Longrightarrow> I t \<and> (\<forall>e. r = Inl e \<longrightarrow> K e)"
  unfolding bounded_def by (metis fst_conv snd_conv)

lemma bounded_ret [raise_intros]: "bounded I K (ret x)"
  by (simp add: bounded_def ret_def)

lemma bounded_raise [raise_intros]: "K e \<Longrightarrow> bounded I K (raise e)"
  by (simp add: bounded_def raise_def)

lemma bounded_check [raise_intros]: "K e \<Longrightarrow> bounded I K (check b e)"
  by (simp add: bounded_def check_def)

lemma bounded_lift: "(\<And>e. r = Inl e \<Longrightarrow> K e) \<Longrightarrow> bounded I K (lift r)"
  by (simp add: bounded_def lift_def)

lemma bounded_bind [raise_intros]: "bounded I K m \<Longrightarrow> (\<And>x. bounded I K (f x)) \<Longrightarrow> bounded I K (bind m f)"
  unfolding bounded_def bind_def by (auto split: prod.split sum.split)

text \<open>A handler is entered with what the block can raise.\<close>

lemma bounded_try:
  "bounded I K' m \<Longrightarrow> (\<And>e. K' e \<Longrightarrow> bounded I K (h e)) \<Longrightarrow> bounded I K (try_except m h)"
  unfolding bounded_def try_except_def by (auto split: prod.split sum.split)

lemma bounded_finally [raise_intros]: "bounded I K m \<Longrightarrow> bounded I K c \<Longrightarrow> bounded I K (try_finally m c)"
  unfolding bounded_def try_finally_def by (auto split: prod.split sum.split)

lemma bounded_translate:
  "bounded I K' m \<Longrightarrow> (\<And>e. K' e \<Longrightarrow> K (if p e then x else e)) \<Longrightarrow> bounded I K (translate p x m)"
  unfolding translate_def by (rule bounded_try [where K' = K']) (simp_all only: bounded_raise)

lemma bounded_on_failure [raise_intros]:
  "bounded I K m \<Longrightarrow> bounded I K c \<Longrightarrow> bounded I K (on_failure m c)"
  unfolding on_failure_def by (rule bounded_try [where K' = K]) (auto intro: raise_intros)

lemma bounded_if [raise_intros]:
  "(b \<Longrightarrow> bounded I K m) \<Longrightarrow> (\<not> b \<Longrightarrow> bounded I K m') \<Longrightarrow> bounded I K (if b then m else m')"
  by simp

lemma bounded_branches [raise_intros]:
  "bounded I K m \<Longrightarrow> (\<And>x. bounded I K (f x)) \<Longrightarrow> bounded I K (case v of None \<Rightarrow> m | Some x \<Rightarrow> f x)"
  "(\<And>a b. bounded I K (g a b)) \<Longrightarrow> bounded I K (case p of (a, b) \<Rightarrow> g a b)"
  "(\<And>a. bounded I K (l a)) \<Longrightarrow> (\<And>b. bounded I K (r b)) \<Longrightarrow> bounded I K (case s of Inl a \<Rightarrow> l a | Inr b \<Rightarrow> r b)"
  by (simp_all split: option.split prod.split sum.split)

lemma bounded_let [raise_intros]: "bounded I K (f x) \<Longrightarrow> bounded I K (let y = x in f y)"
  by simp

lemma bounded_map_io [raise_intros]: "(\<And>x. bounded I K (f x)) \<Longrightarrow> bounded I K (map_io f xs)"
  by (induction xs) (auto intro: raise_intros)

lemma bounded_if_some [raise_intros]: "(\<And>x. bounded I K (f x)) \<Longrightarrow> bounded I K (if_some v f)"
  by (simp add: if_some_def bounded_ret split: option.split)

text \<open>Local variables.\<close>

lemma raises_sys [raise_intros]: "raises K m \<Longrightarrow> raises_in K (sys m)"
  unfolding bounded_def sys_def by (auto split: prod.split)

lemma raises_assign [raise_intros]: "raises_in K (assign f)"
  by (simp add: bounded_def assign_def)

lemma raises_locals [raise_intros]: "(\<And>l. raises_in K (f l)) \<Longrightarrow> raises_in K (locals f)"
  by (simp add: bounded_def locals_def)

lemma raises_with_locals [raise_intros]: "raises_in K m \<Longrightarrow> raises K (with_locals l m)"
  unfolding bounded_def with_locals_def by (auto split: prod.split) (metis fst_conv snd_conv)+

section \<open>System calls\<close>

text \<open>What a call can raise: an error of the system, or the end of the process.\<close>

definition io_error :: "exn \<Rightarrow> bool" where
  "io_error e \<longleftrightarrow> is_os_error e \<or> e = Killed"

lemma io_error_simps [simp]: "io_error Killed" "is_os_error e \<Longrightarrow> io_error e"
  by (simp_all add: io_error_def)

lemma raises_sys_call:
  assumes "\<And>t w. w_turns (snd (f t w)) = w_turns w \<and> (\<forall>e. fst (f t w) = Inl e \<longrightarrow> K e)" and "\<And>e. io_error e \<Longrightarrow> K e"
  shows "raises K (sys_call f)"
proof -
  have "os_faults (before_call w) = os_faults w" "os_faults (killed_world w) = os_faults w" for w
    by (simp_all add: os_faults_def before_call_def killed_world_def)
  moreover have "is_os_error e" if "os_faults w" "t_fault (turn_of w) = Some e" for w e
    using that by (simp add: os_faults_def turn_of_def)
  moreover have "os_faults (snd (f t w)) = os_faults w" for t w
    using assms(1) [of t w] by (simp add: os_faults_def)
  ultimately show ?thesis
    using assms by (auto simp: bounded_def sys_call_def split: option.split)
qed

lemma os_error_simps [simp]:
  "is_os_error (OSError m)" "is_os_error FileNotFoundError" "is_os_error (FileExistsError m)"
  "is_os_error (PermissionError m)" "is_os_error bad_fd"
  by (simp_all add: is_os_error_def bad_fd_def)

lemma raises_on_fd:
  assumes "\<And>t o' i w. w_turns (snd (f t o' i w)) = w_turns w \<and> (\<forall>e. fst (f t o' i w) = Inl e \<longrightarrow> io_error e)"
  shows "raises io_error (on_fd fd f)"
  unfolding on_fd_def by (rule raises_sys_call) (use assms in \<open>auto split: option.split\<close>)

lemma raises_on_dir:
  assumes "\<And>t d w. w_turns (snd (f t d w)) = w_turns w \<and> (\<forall>e. fst (f t d w) = Inl e \<longrightarrow> io_error e)"
  shows "raises io_error (on_dir fd f)"
  unfolding on_dir_def by (rule raises_on_fd) (use assms in simp)

lemma raises_on_entry:
  assumes "\<And>t d g i w. w_turns (snd (f t d g i w)) = w_turns w \<and> (\<forall>e. fst (f t d g i w) = Inl e \<longrightarrow> io_error e)"
  shows "raises io_error (on_entry fd name f)"
  unfolding on_entry_def by (rule raises_on_dir) (use assms in \<open>auto split: option.split\<close>)

lemma new_fd_turns: "w_turns (snd (new_fd g a w)) = w_turns w" "fst (new_fd g a w) \<noteq> Inl e"
  by (simp_all add: new_fd_def)

lemma open_inode_errors: "w_turns (snd (open_inode flags g i w)) = w_turns w \<and> (\<forall>e. fst (open_inode flags g i w) = Inl e \<longrightarrow> io_error e)"
  by (auto simp: open_inode_def new_fd_turns)

lemma open_in_errors: "w_turns (snd (open_in flags mode name t d w)) = w_turns w
    \<and> (\<forall>e. fst (open_in flags mode name t d w) = Inl e \<longrightarrow> io_error e)"
  using open_inode_errors new_fd_turns
  by (auto simp: open_in_def with_files_def split: option.split)

lemma raises_close: "raises io_error (os_close fd)"
proof -
  have "is_os_error e" if "os_faults w" "t_fault (turn_of w) = Some e" for w e
    using that by (simp add: os_faults_def turn_of_def)
  then show ?thesis
    by (auto simp: bounded_def os_close_def Let_def os_faults_def before_call_def killed_world_def turn_of_def
        split: option.split)
qed

lemma raises_calls:
  "raises io_error (os_fstat fd)" "raises io_error (os_read fd n)" "raises io_error (os_write fd b)"
  "raises io_error (os_fsync fd)" "raises io_error (os_fchmod fd mode)" "raises io_error (os_ftruncate fd n)"
  "raises io_error (os_pread fd n k)" "raises io_error (flock fd)"
  unfolding os_fstat_def os_read_def os_write_def os_fsync_def os_fchmod_def os_ftruncate_def os_pread_def flock_def
  by (rule raises_on_fd; simp add: Let_def with_files_def)+

lemma raises_dir_calls:
  "raises io_error (os_stat_at fd name)" "raises io_error (os_listdir fd)" "raises io_error (os_open_at flags mode fd name)"
  "raises io_error (os_unlink_at fd name)" "raises io_error (os_rmdir_at fd name)" "raises io_error (os_link_at fd name name')"
  "raises io_error (renameat2_exchange fd name name')"
  unfolding os_stat_at_def os_listdir_def os_open_at_def os_unlink_at_def os_rmdir_at_def os_link_at_def
    renameat2_exchange_def
  by (rule raises_on_entry raises_on_dir; simp add: with_files_def open_in_errors split: option.split)+

lemma raises_random: "raises io_error (random_bytes n)"
  unfolding random_bytes_def by (rule raises_sys_call) simp_all

lemma raises_getuid [raise_intros]: "raises K os_getuid"
  by (simp add: bounded_def os_getuid_def)

lemma raises_weaken: "raises io_error m \<Longrightarrow> (\<And>e. io_error e \<Longrightarrow> K e) \<Longrightarrow> raises K m"
  by (rule bounded_mono)

lemma walk_errors: "walk lax n fs root stack cs = Inl e \<Longrightarrow> is_os_error e"
  by (induction lax n fs root stack cs rule: walk.induct)
     (auto split: if_split_asm option.split_asm nat.split_asm)

lemma walk_path_errors: "walk_path lax w p = Inl e \<Longrightarrow> is_os_error e"
  unfolding walk_path_def by (rule walk_errors)

lemma stat_id_errors: "w_turns (snd (stat_id w f)) = w_turns w \<and> (\<forall>e. fst (stat_id w f) = Inl e \<longrightarrow> io_error e)"
  by (auto simp: stat_id_def split: option.split)

lemma path_inode_errors: "path_inode p w = Inl e \<Longrightarrow> is_os_error e"
proof (cases "walk_path False w p")
  case (Inr stack)
  assume "path_inode p w = Inl e"
  then show ?thesis
    unfolding path_inode_def Inr
    by (cases "top_of (w_root w) stack"; cases "w_files w (the (top_of (w_root w) stack))") auto
qed (auto simp: path_inode_def dest: walk_path_errors)

lemma in_parent_errors:
  assumes "\<And>d name. w_turns (snd (f d name)) = w_turns w \<and> (\<forall>e. fst (f d name) = Inl e \<longrightarrow> io_error e)"
  shows "w_turns (snd (in_parent p w f)) = w_turns w \<and> (\<forall>e. fst (in_parent p w f) = Inl e \<longrightarrow> io_error e)"
  using assms by (auto simp: in_parent_def split: sum.split option.split dest: walk_path_errors)

lemma raises_path_calls:
  "raises io_error (path_stat p)" "raises io_error (path_lstat p)" "raises io_error (os_open_path flags mode p)"
  "raises io_error (path_read_bytes p)" "raises io_error (path_unlink p)" "raises io_error (path_chmod mode p)"
  "raises io_error (os_mkdir_path mode p)" "raises io_error (path_rmdir p)" "raises io_error (socket_bind p)"
  "raises io_error socket_call"
proof -
  show s: "raises io_error (path_stat p)" for p
    unfolding path_stat_def
    by (rule raises_sys_call) (auto simp: stat_id_errors split: sum.split dest: walk_path_errors)
  have "raises io_error (sys_call (\<lambda>t w. case walk_path False w (path_parent p) of
       Inl e \<Rightarrow> (Inl e, w)
     | Inr stack \<Rightarrow>
         (case top_of (w_root w) stack of
            None \<Rightarrow> (Inl FileNotFoundError, w)
          | Some d \<Rightarrow> stat_id w (lookup (w_files w) d (path_name p)))))"
    by (rule raises_sys_call) (auto simp: stat_id_errors split: sum.split option.split dest: walk_path_errors)
  then show "raises io_error (path_lstat p)" using s by (simp add: path_lstat_def)
  show "raises io_error (os_open_path flags mode p)"
    unfolding os_open_path_def
    by (rule raises_sys_call)
      (auto simp: open_inode_errors open_in_errors split: sum.split dest: path_inode_errors
        intro!: in_parent_errors)
  show "raises io_error (path_read_bytes p)"
    unfolding path_read_bytes_def by (rule raises_sys_call) (auto split: sum.split if_splits dest: path_inode_errors)
  show "raises io_error (path_unlink p)"
    unfolding path_unlink_def
    by (rule raises_sys_call) (auto intro!: in_parent_errors simp: with_files_def split: option.split option.split_asm if_split_asm)
  show "raises io_error (path_chmod mode p)"
    unfolding path_chmod_def
    by (rule raises_sys_call) (auto simp: with_files_def split: sum.split dest: path_inode_errors)
  show "raises io_error (os_mkdir_path mode p)"
    unfolding os_mkdir_path_def
    by (rule raises_sys_call) (auto simp: with_files_def split: sum.split option.split dest: walk_path_errors)
  show "raises io_error (path_rmdir p)"
    unfolding path_rmdir_def
    by (rule raises_sys_call) (auto intro!: in_parent_errors simp: with_files_def split: option.split option.split_asm if_split_asm)
  show "raises io_error (socket_bind p)"
    unfolding socket_bind_def
    by (rule raises_sys_call) (auto intro!: in_parent_errors simp: with_files_def split: option.split option.split_asm if_split_asm)
  show "raises io_error socket_call"
    unfolding socket_call_def by (rule raises_sys_call) simp_all
qed

lemma raises_path_test: "raises io_error m \<Longrightarrow> raises io_error (path_test m p)"
  unfolding path_test_def by (rule bounded_try [where K' = io_error]) (auto intro: raise_intros)

lemma raises_path_tests:
  "raises io_error (path_is_symlink p)" "raises io_error (path_exists p)" "raises io_error (path_is_dir p)"
  "raises io_error (path_is_file p)"
  unfolding path_is_symlink_def path_exists_def path_is_dir_def path_is_file_def
  by (rule raises_path_test, rule raises_path_calls)+

text \<open>\<open>path.resolve\<close> raises \<open>RuntimeError\<close> on a loop of links.\<close>

lemma raises_resolve: "raises (\<lambda>e. io_error e \<or> e = RuntimeError ''Symlink loop'') (path_resolve strict p)"
  unfolding path_resolve_def by (rule raises_sys_call) (auto split: sum.split dest: walk_path_errors)

lemma raises_write_all: "is_os_error x \<Longrightarrow> raises io_error (Private_Files.write_all x fd b)"
proof -
  assume x: "is_os_error x"
  have "os_faults w \<Longrightarrow> is_os_error x \<Longrightarrow> os_faults (snd (Private_Files.write_all x fd b w))
      \<and> (\<forall>e. fst (Private_Files.write_all x fd b w) = Inl e \<longrightarrow> io_error e)" for w
  proof (induction x fd b w rule: Private_Files.write_all.induct)
    case (1 err fd b w)
    show ?case
    proof (cases "b = []")
      case False
      obtain r w1 where o: "os_write fd b w = (r, w1)" by fastforce
      note k = bounded_result [OF raises_calls(3) "1.prems"(1) o]
      show ?thesis
      proof (cases r)
        case (Inl e)
        then show ?thesis using o k False by (subst (1 2) Private_Files.write_all.simps) simp
      next
        case (Inr n)
        show ?thesis
        proof (cases "n = 0")
          case True
          then show ?thesis using o k False Inr "1.prems"(2) by (subst (1 2) Private_Files.write_all.simps) simp
        next
          case n: False
          then show ?thesis
            using "1.IH" [OF False o [symmetric] Inr n] k o False Inr "1.prems"(2)
            by (subst (1 2) Private_Files.write_all.simps) simp
        qed
      qed
    qed (simp add: Private_Files.write_all.simps "1.prems")
  qed
  with x show ?thesis by (simp add: bounded_def)
qed

lemmas call_raises = raises_close raises_calls raises_dir_calls raises_random raises_path_calls raises_path_tests
  raises_write_all

end
