(* ===== verification/Frame_Errors.thy ===== *)
theory Frame_Errors
  imports Frame_Protocol
begin

text \<open>
  Which exceptions the frame kernel of \<open>src/agent_container/broker/frame.py\<close> raises. Whatever the
  bytes, decoding raises a \<open>ValueError\<close>, or \<open>RecursionError\<close> when the text is nested deeper than
  the parser allows: the brokers catch the first and not the second.
\<close>

definition decode_failure :: "exn \<Rightarrow> bool" where
  "decode_failure e \<longleftrightarrow> is_value_error e \<or> e = RecursionError"

lemma value_error_simps [simp]:
  "is_value_error (ValueError m)" "is_value_error JSONDecodeError" "is_value_error UnicodeDecodeError"
  "is_value_error UnicodeEncodeError" "is_value_error (FrameIncomplete m)" "is_value_error (FrameSizeError m)"
  "is_value_error (FrameJsonError m)" "is_value_error (FrameSchemaError m)" "is_value_error (FrameError m)"
  "is_value_error (StreamError m)" "\<not> is_value_error RecursionError" "\<not> is_value_error TypeError"
  "\<not> is_value_error Killed" "\<not> is_value_error OutOfFuel"
  by (simp_all add: is_value_error_def)

lemma decode_failure_simps [simp]: "decode_failure RecursionError" "is_value_error e \<Longrightarrow> decode_failure e"
  by (simp_all add: decode_failure_def)

definition parse_failure :: "exn \<Rightarrow> bool" where
  "parse_failure e \<longleftrightarrow> decode_failure e \<or> e = OutOfFuel"

lemma parse_failure_simps [simp]: "parse_failure OutOfFuel" "decode_failure e \<Longrightarrow> parse_failure e"
  by (simp_all add: parse_failure_def)

lemma bindE_InlE:
  "bindE m f = Inl e \<Longrightarrow> (m = Inl e \<Longrightarrow> P) \<Longrightarrow> (\<And>x. m = Inr x \<Longrightarrow> f x = Inl e \<Longrightarrow> P) \<Longrightarrow> P"
  by (auto simp: bindE_Inl_iff)

lemma scan_number_errors: "scan_number s = Inl e \<Longrightarrow> is_value_error e"
  by (auto simp: scan_number_def Let_def split: list.split_asm if_split_asm prod.split_asm)

lemma parse_errors:
  assumes "\<And>kvs e. h kvs = Inl e \<Longrightarrow> is_value_error e" and "\<And>w e. ch w = Inl e \<Longrightarrow> is_value_error e"
  shows "parse_value h ch n d s = Inl e \<Longrightarrow> parse_failure e"
    and "parse_elems h ch n d s = Inl e \<Longrightarrow> parse_failure e"
    and "parse_members h ch n d s = Inl e \<Longrightarrow> parse_failure e"
  using assms
proof (induction h ch n d s and h ch n d s and h ch n d s arbitrary: e and e and e
    rule: parse_value_parse_elems_parse_members.induct)
  case (2 h ch n d s)
  have w: "scan_word ch s = Some (Inl e) \<Longrightarrow> is_value_error e" for e
    using "2.prems"(3) by (auto simp: scan_word_def bindE_Inl_iff split: if_splits)
  show ?case
  proof (cases s)
    case Nil
    with "2.prems"(1) show ?thesis by simp
  next
    case (Cons c cs)
    have m: "parse_members h ch n (d - 1) r = Inl e \<Longrightarrow> parse_failure e"
      if "c \<noteq> 34" "c = 123" "d \<noteq> 0" "skip_ws cs = 34 # r" for r e
      using "2.IH"(1) [OF Cons that(1-4)] "2.prems"(2,3) by simp
    have el: "parse_elems h ch n (d - 1) (q # r) = Inl e \<Longrightarrow> parse_failure e"
      if "c \<noteq> 34" "c \<noteq> 123" "c = 91" "d \<noteq> 0" "skip_ws cs = q # r" "q \<noteq> 93" for q r e
      using "2.IH"(2) [OF Cons that(1-6)] "2.prems"(2,3) by simp
    show ?thesis
      using "2.prems" w scan_number_errors [of s] m el unfolding Cons
      by (auto simp: bindE_Inl_iff split: if_split_asm list.split_asm option.split_asm)
  qed
next
  case (4 h ch n d s)
  have v: "parse_value h ch n d s = Inl e \<Longrightarrow> parse_failure e" for e using 4 by auto
  have el: "parse_elems h ch n d (skip_ws r2) = Inl e \<Longrightarrow> parse_failure e"
    if "parse_value h ch n d s = Inr (x, r1)" "skip_ws r1 = 44 # r2" for x r1 r2 e
    using "4.IH"(2) [OF that(1) refl that(2) refl] "4.prems"(2,3) by simp
  show ?case
  proof (cases "parse_value h ch n d s")
    case (Inl x)
    with "4.prems"(1) v show ?thesis by simp
  next
    case (Inr y)
    obtain a b where y: "y = (a, b)" by (cases y)
    show ?thesis
      using "4.prems"(1) el Inr y
      by (cases "skip_ws b") (auto elim!: bindE_InlE split: if_split_asm)
  qed
next
  case (6 h ch n d s)
  have v: "parse_value h ch n d (skip_ws r1) = Inl e \<Longrightarrow> parse_failure e"
    if "scan_string s = Some (k, r)" "skip_ws r = 58 # r1" for k r r1 e
    using "6.IH"(1) that "6.prems"(2,3) by auto
  have m: "parse_members h ch n d r4 = Inl e \<Longrightarrow> parse_failure e"
    if "scan_string s = Some (k, r)" "skip_ws r = 58 # r1"
      "parse_value h ch n d (skip_ws r1) = Inr (x, r2)" "skip_ws r2 = 44 # r3" "skip_ws r3 = 34 # r4"
    for k r r1 x r2 r3 r4 e
    using "6.IH"(2) that "6.prems"(2,3) by auto
  show ?case
    using "6.prems"(1) v m
    by (auto elim!: bindE_InlE split: list.split_asm option.split_asm if_split_asm prod.split_asm)
qed auto

lemma json_loads_errors:
  assumes h: "\<And>kvs e. h kvs = Inl e \<Longrightarrow> is_value_error e" and ch: "\<And>w e. ch w = Inl e \<Longrightarrow> is_value_error e"
    and r: "json_loads lim h ch s = Inl e"
  shows "decode_failure e"
proof -
  have "h kvs \<noteq> Inl OutOfFuel" "ch w \<noteq> Inl OutOfFuel" for kvs w
    using h [of kvs OutOfFuel] ch [of w OutOfFuel] by auto
  then have o': "e \<noteq> OutOfFuel" using json_loads_fuel [of h ch lim s] r by auto
  have v: "parse_failure e'" if "parse_value h ch n d t = Inl e'" for n d t e'
    by (rule parse_errors(1) [OF h ch that])
  have "parse_failure e"
  proof (cases "startswith s [65279]")
    case True
    then show ?thesis using r by (auto simp: json_loads_def)
  next
    case False
    then have "bindE (parse_value h ch (2 * length s + 2) lim (skip_ws s)) (\<lambda>(v, r).
        if skip_ws r = [] then Inr v else Inl JSONDecodeError) = Inl e"
      using r unfolding json_loads_def by (simp only: if_False)
    then show ?thesis
      by (rule bindE_InlE) (auto split: if_split_asm prod.split_asm dest: v simp del: parse_value.simps)
  qed
  with o' show ?thesis by (simp add: parse_failure_def)
qed

lemma utf8_decode_errors: "utf8_decode b = Inl e \<Longrightarrow> e = UnicodeDecodeError"
  by (induction b rule: utf8_decode.induct)
     (auto simp: utf8_decode.simps(2) Let_def bindE_Inl_iff split: if_split_asm list.split_asm)

lemma codec_decode_errors: "codec_decode c b = Inl e \<Longrightarrow> e = UnicodeDecodeError"
  by (cases c) (auto simp: ascii_decode_def utf8_decode_errors split: if_split_asm)

lemma object_errors: "object_without_duplicates kvs = Inl e \<Longrightarrow> is_value_error e"
  by (auto simp: object_without_duplicates_def build_object_eq split: if_split_asm)

lemma constant_errors: "reject_constant w = Inl e \<Longrightarrow> is_value_error e"
  by (auto simp: reject_constant_def)

lemma decode_body_errors:
  assumes "decode_body lim schema body = Inl e"
  shows "e = FrameJsonError (frame_prefix schema @ '' JSON is invalid'') \<or> e = RecursionError"
proof -
  obtain e' where e': "bindE (codec_decode (encoding (fs_json schema)) body)
      (json_loads lim object_without_duplicates reject_constant) = Inl e'"
    and e: "e = (if e' = TypeError \<or> is_value_error e'
       then FrameJsonError (frame_prefix schema @ '' JSON is invalid'') else e')"
    using assms unfolding decode_body_def
    by (cases "bindE (codec_decode (encoding (fs_json schema)) body)
      (json_loads lim object_without_duplicates reject_constant)") auto
  have "decode_failure e'"
    using e' json_loads_errors [OF object_errors constant_errors]
    by (auto simp: bindE_Inl_iff dest!: codec_decode_errors)
  with e show ?thesis by (auto simp: decode_failure_def)
qed

lemma decode_frame_errors:
  assumes "decode_frame lim schema None data = Inl e"
  shows "decode_failure e"
proof -
  have b: "decode_failure x" if "decode_body lim schema body = Inl x" for body x
    using decode_body_errors [OF that] by auto
  show ?thesis
    using assms unfolding decode_frame_def Let_def option.case
    by (auto elim!: bindE_InlE intro: b split: if_split_asm json.split_asm)
qed

section \<open>Reading\<close>

text \<open>A stream whose \<open>read\<close> raises only what the reader translates.\<close>

definition plain_errors :: "exn \<Rightarrow> bool" where
  "plain_errors e \<longleftrightarrow> is_os_error e \<or> e = TypeError \<or> is_value_error e"

definition honest_reader :: "'s reader \<Rightarrow> bool" where
  "honest_reader rd \<longleftrightarrow> (\<forall>n s e. fst (rd n s) = Inl e \<longrightarrow> plain_errors e)"

lemma read_loop_errors:
  assumes "honest_reader rd"
  shows "fst (read_loop rd n label eof out s) = Inl e \<Longrightarrow> is_value_error e"
  using assms
proof (induction rd n label eof out s rule: read_loop.induct)
  case (1 rd n label i out s)
  obtain r s' where r: "rd (n - length out) s = (r, s')" by fastforce
  have p: "r = Inl x \<Longrightarrow> plain_errors x" for x
    using "1.prems"(2) r unfolding honest_reader_def by (metis fst_conv)
  show ?case
  proof (cases "\<exists>c. r = Inr (Some c) \<and> c \<noteq> [] \<and> length c \<le> n - length out \<and> length out < n")
    case True
    then obtain c where c: "r = Inr (Some c)" "c \<noteq> []" "length c \<le> n - length out" "length out < n" by blast
    then have "read_loop rd n label i out s = read_loop rd n label i (out @ c) s'"
      using r by (subst read_loop.simps) auto
    with "1.prems" c r "1.IH" show ?thesis by auto
  next
    case False
    with "1.prems"(1) r p show ?thesis
      by (subst (asm) read_loop.simps)
        (auto simp: plain_errors_def split: if_split_asm sum.split_asm option.split_asm)
  qed
qed

lemma read_exact_errors:
  "honest_reader rd \<Longrightarrow> fst (read_exact rd n label eof s) = Inl e \<Longrightarrow> is_value_error e"
  unfolding read_exact_def by (rule read_loop_errors)

lemma bindS_errors: "fst (bindS m f) = Inl e \<Longrightarrow> fst m = Inl e \<or> (\<exists>x. fst m = Inr x \<and> fst (f x (snd m)) = Inl e)"
  by (auto simp: bindS_def split: prod.split_asm sum.split_asm)

lemma read_frame_errors:
  assumes "honest_reader rd" and "fst (read_frame lim schema rd s) = Inl e"
  shows "decode_failure e"
  using assms(2) read_exact_errors [OF assms(1)] decode_frame_errors
  by (auto simp: read_frame_def Let_def dest!: bindS_errors split: if_split_asm sum.split_asm prod.split_asm)

text \<open>A frame that is read has the fields of its schema.\<close>

lemma read_frame_keys:
  assumes "fst (read_frame lim schema rd s) = Inr d"
  shows "set (map fst d) = fs_fields schema"
proof -
  have "\<exists>b n. decode_frame lim schema None b = Inr (d, n)"
    using assms by (auto simp: read_frame_def Let_def bindS_def split: prod.split_asm sum.split_asm if_split_asm)
  then show ?thesis by (auto simp: decode_frame_Inr_iff)
qed

lemma read_message_errors:
  assumes "honest_reader rd"
    and "\<And>d e. set (map fst d) = fs_fields schema \<Longrightarrow> construct (map_of d) = Inl e \<Longrightarrow> is_value_error e"
    and "fst (read_message lim schema construct rd s) = Inl e"
  shows "decode_failure e"
proof -
  consider "fst (read_frame lim schema rd s) = Inl e"
    | d where "fst (read_frame lim schema rd s) = Inr d" "construct (map_of d) = Inl e"
    using bindS_errors [OF assms(3) [unfolded read_message_def]] by auto
  then show ?thesis
  proof cases
    case 1
    then show ?thesis using read_frame_errors [OF assms(1)] by blast
  next
    case 2
    then show ?thesis using assms(2) [OF read_frame_keys [OF 2(1)] 2(2)] by simp
  qed
qed

section \<open>Writing\<close>

text \<open>Values without numbers that are not integers, as every message of the brokers has.\<close>

fun no_float :: "json \<Rightarrow> bool" where
  "no_float (JFloat m e) = False"
| "no_float (JList vs) = list_all no_float vs"
| "no_float (JObj kvs) = list_all (\<lambda>(k, v). no_float v) kvs"
| "no_float v = True"

lemma first_error_Some: "first_error es = Some x \<Longrightarrow> Some x \<in> set es"
  by (induction es rule: first_error.induct) (auto split: option.split_asm)

lemma dump_error_value: "no_float v \<Longrightarrow> dump_error v = Some e \<Longrightarrow> is_value_error e"
proof (induction v arbitrary: e rule: dump_error.induct)
  case (3 vs)
  then show ?case by (fastforce simp: list_all_iff dest!: first_error_Some)
next
  case (4 kvs)
  then show ?case by (fastforce simp: list_all_iff dest!: first_error_Some)
qed (auto split: if_split_asm)

lemma no_float_sort: "no_float v \<Longrightarrow> no_float (sort_json v)"
  by (induction v rule: sort_json.induct) (force simp: list_all_iff)+

lemma json_dumps_errors: "no_float v \<Longrightarrow> json_dumps opt v = Inl e \<Longrightarrow> is_value_error e"
  using dump_error_value [of v e] dump_error_value [of "sort_json v" e] no_float_sort [of v]
  by (auto simp: json_dumps_def Let_def split: option.split_asm if_split_asm)

lemma encode_frame_errors:
  assumes "no_float (JObj vals)" and "max_bytes schema < 2 ^ 32" and "encode_frame schema vals = Inl e"
  shows "is_value_error e"
proof -
  have u: "utf8_encode s = Inl e \<Longrightarrow> is_value_error e" for s e
    by (induction s) (auto split: option.split_asm elim!: bindE_InlE)
  have c: "codec_encode c s = Inl e \<Longrightarrow> is_value_error e" for c s e
    by (cases c) (auto simp: ascii_encode_def dest: u split: if_split_asm)
  have r: "reraise_if p x m = Inl e \<Longrightarrow> is_value_error x \<Longrightarrow> (\<And>y. m = Inl y \<Longrightarrow> is_value_error y) \<Longrightarrow> is_value_error e"
    for p x and m :: "exn + bytes" by (cases m) (auto split: if_split_asm)
  show ?thesis
    using assms(3) unfolding encode_frame_def
  proof (rule bindE_InlE)
    assume "reraise_if encode_failure (FrameSchemaError (fs_label schema @ '' is invalid''))
       (bindE (json_dumps (dump_opts_of (fs_json schema)) (JObj vals))
          (codec_encode (encoding (fs_json schema)))) = Inl e"
    then show ?thesis
      by (rule r) (auto elim!: bindE_InlE dest: c json_dumps_errors [OF assms(1)])
  next
    fix body
    assume "(if body = [] \<or> max_bytes schema < length body
        then Inl (FrameSizeError (fs_label schema @ '' is too large''))
        else bindE (pack_u32 (length body)) (\<lambda>h. Inr (h @ body))) = Inl e"
    then show ?thesis
      using assms(2) by (auto split: if_split_asm elim!: bindE_InlE simp: pack_u32_def)
  qed
qed

text \<open>A stream whose \<open>write\<close> raises only what its callers expect.\<close>

definition honest_writer :: "'s writer \<Rightarrow> bool" where
  "honest_writer wr \<longleftrightarrow> (\<forall>b s e. fst (wr b s) = Inl e \<longrightarrow> plain_errors e)"

lemma write_loop_errors:
  assumes "honest_writer wr"
  shows "fst (write_loop wr label frame offset s) = Inl e \<Longrightarrow> plain_errors e"
  using assms
proof (induction wr label frame offset s rule: write_loop.induct)
  case (1 wr label frame offset s)
  obtain r s' where r: "wr (drop offset frame) s = (r, s')" by fastforce
  have p: "r = Inl x \<Longrightarrow> plain_errors x" for x
    using "1.prems"(2) r unfolding honest_writer_def by (metis fst_conv)
  show ?case
  proof (cases "case r of Inr (WInt n) \<Rightarrow> 0 < n \<and> n \<le> int (length frame - offset) \<and> offset < length frame | _ \<Rightarrow> False")
    case True
    then obtain n where n: "r = Inr (WInt n)" "0 < n" "n \<le> int (length frame - offset)" "offset < length frame"
      by (auto split: sum.split_asm wresult.split_asm)
    then have "write_loop wr label frame offset s = write_loop wr label frame (offset + nat n) s'"
      using r by (subst write_loop.simps) simp
    with "1.prems" n r "1.IH" show ?thesis by auto
  next
    case False
    with "1.prems"(1) r p show ?thesis
      by (subst (asm) write_loop.simps)
        (auto simp: plain_errors_def split: if_split_asm sum.split_asm wresult.split_asm)
  qed
qed

lemma write_all_errors:
  assumes "honest_writer wr" and "\<And>s e. fst (flush s) = Inl e \<Longrightarrow> plain_errors e"
    and "fst (write_all wr flush frame label s) = Inl e"
  shows "plain_errors e"
  using assms(3) write_loop_errors [OF assms(1)] assms(2)
  by (auto simp: write_all_def write_fully_def dest!: bindS_errors)

end
