(* ===== verification/Handover_Errors.thy ===== *)
theory Handover_Errors
  imports Handover_Transport Raise_Logic Frame_Errors
begin

text \<open>
  How the handover broker of \<open>src/agent_container/handover_broker_transport.py\<close> ends a connection:
  the exceptions of every part are bounded, so that the exceptions of the handler are.
\<close>

section \<open>The stream\<close>

definition honest_stream :: "'c stream_methods \<Rightarrow> bool" where
  "honest_stream io \<longleftrightarrow> honest_reader (sm_read io) \<and> honest_writer (sm_write io)
     \<and> (\<forall>c e. fst (sm_flush io c) = Inl e \<longrightarrow> plain_errors e)
     \<and> (\<forall>c e. fst (sm_close io c) = Inl e \<longrightarrow> is_os_error e)"

lemma raises_on_stream:
  "(\<And>c e. fst (f c) = Inl e \<Longrightarrow> K e) \<Longrightarrow> raises_in K (on_stream f)"
  by (auto simp: bounded_def on_stream_def split: prod.split) (metis fst_conv)

lemma request_from_values_errors:
  assumes "set (map fst d) = fs_fields REQUEST_SCHEMA" and "request_from_values (map_of d) = Inl e"
  shows "is_value_error e"
proof -
  have k: "map_of d (u k) \<noteq> None" if "u k \<in> REQUEST_FIELDS" for k
    using that assms(1) by (simp add: map_of_eq_None_iff REQUEST_SCHEMA_def)
  have f: "field_of (map_of d) k \<noteq> Inl e" if "u k \<in> REQUEST_FIELDS" for k
    using k [OF that] by (auto simp: field_of_def)
  have s: "validate_string v = Inl x \<Longrightarrow> is_value_error x" for v x
    by (cases v) (auto simp: validate_string_def schema_error_def require_Inl_iff elim!: bindE_InlE)
  have n: "Handover_Protocol.validate_version v = Inl x \<Longrightarrow> is_value_error x" for v x
    by (cases v) (auto simp: Handover_Protocol.validate_version_def schema_error_def require_Inl_iff elim!: bindE_InlE)
  have o': "validate_operation v = Inl x \<Longrightarrow> is_value_error x" for v x
    by (auto simp: validate_operation_def request_error_def require_Inl_iff elim!: bindE_InlE dest: s)
  show ?thesis
    using assms(2) unfolding request_from_values_def
    by (auto elim!: bindE_InlE dest: s n o' simp: f REQUEST_FIELDS_def)
qed

lemma read_request_errors:
  assumes "honest_reader rd" and "fst (read_request_frame lim rd s) = Inl e"
  shows "decode_failure e"
  by (rule read_message_errors [OF assms(1) request_from_values_errors])
    (use assms(2) in \<open>simp_all add: read_request_frame_def\<close>)

lemma raises_read_one:
  assumes "honest_stream io"
  shows "raises_in (\<lambda>e. e = RecursionError) (read_one_request lim io)"
  unfolding read_one_request_def
proof (rule bounded_try)
  show "raises_in decode_failure (bind (on_stream (read_request_frame lim (sm_read io))) (\<lambda>r. ret (Inr r)))"
    using assms read_request_errors
    by (intro raise_intros raises_on_stream) (auto simp: honest_stream_def)
  fix e
  assume "decode_failure e"
  then show "raises_in (\<lambda>e. e = RecursionError) (case e of FrameSizeError m \<Rightarrow> ret (Inl (u ''size''))
        | _ \<Rightarrow> if is_value_error e then ret (Inl (u ''schema'')) else raise e)"
    by (cases e) (auto simp: decode_failure_def intro: raise_intros)
qed

lemma encode_response_errors: "encode_response_frame r = Inl e \<Longrightarrow> is_value_error e"
proof -
  have s: "validate_string v = Inl x \<Longrightarrow> is_value_error x" for v x
    by (cases v) (auto simp: validate_string_def schema_error_def require_Inl_iff elim!: bindE_InlE)
  have n: "Handover_Protocol.validate_version v = Inl x \<Longrightarrow> is_value_error x" for v x
    by (cases v) (auto simp: Handover_Protocol.validate_version_def schema_error_def require_Inl_iff elim!: bindE_InlE)
  have v: "validate_response a b c d = Inl x \<Longrightarrow> is_value_error x" for a b c d x
    unfolding validate_response_def
    by (auto simp: require_Inl_iff response_error_def elim!: bindE_InlE dest: s n split: if_split_asm)
  have f: "encode_frame RESPONSE_SCHEMA (response_values r) = Inl x \<Longrightarrow> is_value_error x" for x
    by (rule encode_frame_errors) (simp_all add: response_values_def RESPONSE_SCHEMA_def MAX_REQUEST_BYTES_def)
  assume "encode_response_frame r = Inl e"
  then show ?thesis
    unfolding encode_response_frame_def by (auto elim!: bindE_InlE dest: v f)
qed

lemma raises_write_response:
  assumes "honest_stream io"
  shows "raises_in (\<lambda>e. False) (write_response io r)"
  unfolding write_response_def
proof (rule bounded_try)
  show "raises_in plain_errors (bind (lift (encode_response_frame r)) (\<lambda>frame.
      bind (on_stream (Broker_Frame.write_all (sm_write io) (sm_flush io) frame ''handover broker response''))
        (\<lambda>_. ret True)))"
    using assms write_all_errors [of "sm_write io" "sm_flush io"]
    by (intro raise_intros bounded_lift raises_on_stream)
      (auto simp: honest_stream_def plain_errors_def dest: encode_response_errors)
qed (auto simp: plain_errors_def intro: raise_intros)

section \<open>The audit log\<close>

definition log_error :: "exn \<Rightarrow> bool" where
  "log_error e \<longleftrightarrow> io_error e \<or> is_value_error e"

lemma log_error_simps [simp]: "io_error e \<Longrightarrow> log_error e" "is_value_error e \<Longrightarrow> log_error e"
  by (simp_all add: log_error_def)

lemma raises_log_calls: "raises io_error m \<Longrightarrow> raises log_error m"
  by (erule bounded_mono) simp

lemma raises_open_descriptor: "raises log_error (open_descriptor log)"
proof -
  have t: "raises log_error (translate is_os_error (ValueError x) m)" if "raises io_error m" for x and m :: "'b io"
    by (rule bounded_translate [OF that]) (auto simp: io_error_def)
  have c: "raises log_error (try_except (os_close fd) (\<lambda>e'. if is_os_error e' then ret () else raise e'))" for fd
    by (rule bounded_try [OF raises_close]) (auto intro: raise_intros)
  show ?thesis
    unfolding open_descriptor_def Let_def
    by (intro raise_intros t call_raises bounded_try [where K' = log_error] raises_log_calls [OF raises_calls(1)] c) auto
qed

lemma raises_log_append:
  assumes "no_float (JObj record)"
  shows "raises log_error (log_append is_iso log record)"
proof -
  have "is_value_error e" if "audit_line record = Inl e" for e
    using that json_dumps_errors [OF assms]
    by (auto simp: audit_line_def ascii_encode_def elim!: bindE_InlE split: if_split_asm)
  moreover have "is_value_error e" if "validate_envelope is_iso l record = Inl e" for l e
    using that by (auto simp: validate_envelope_def require_Inl_iff)
  ultimately show ?thesis
    unfolding log_append_def
    by (intro raise_intros bounded_lift raises_open_descriptor raises_log_calls [OF raises_write_all]
        raises_log_calls [OF raises_calls(4)] raises_log_calls [OF raises_close]) auto
qed

lemma container_path_errors: "validate_container_path p project = Inl e \<Longrightarrow> is_value_error e"
  unfolding validate_container_path_def Let_def by (auto simp: require_Inl_iff elim!: bindE_InlE)

lemma handover_record_errors: "handover_record sha now s status stage path = Inl e \<Longrightarrow> is_value_error e"
  unfolding handover_record_def
  by (auto simp: require_Inl_iff ascii_encode_def elim!: bindE_InlE dest: container_path_errors split: if_split_asm)

lemma handover_record_flat: "handover_record sha now s status stage path = Inr r \<Longrightarrow> no_float (JObj r)"
  by (auto simp: handover_record_def split: if_split_asm)

lemma raises_audit: "raises log_error (audit_handover sha is_iso now s status stage path)"
proof -
  have "raises log_error (bind (lift (handover_record sha now s status stage path)) (\<lambda>record.
      log_append is_iso \<lparr>al_path = ho_audit_file s, al_label = ''handover broker audit''\<rparr> record))"
  proof (cases "handover_record sha now s status stage path")
    case (Inl e)
    then show ?thesis
      using handover_record_errors [OF Inl] by (simp add: bounded_def bind_def lift_def)
  next
    case (Inr r)
    then show ?thesis
      using raises_log_append [OF handover_record_flat [OF Inr]] by (simp add: bounded_def bind_def lift_def)
  qed
  then show ?thesis by (simp add: bounded_def audit_handover_def)
qed

section \<open>The handler\<close>

definition audited :: "audit_method \<Rightarrow> bool" where
  "audited audit \<longleftrightarrow> (\<forall>status stage path. raises log_error (audit status stage path))"

definition contained :: "exn \<Rightarrow> bool" where
  "contained e \<longleftrightarrow> e \<in> {TypeError, RecursionError, Killed}"

lemma contained_simps [simp]: "contained TypeError" "contained RecursionError" "contained Killed"
  by (simp_all add: contained_def)

lemma raises_unless_refused:
  assumes "raises log_error m"
  shows "raises_in contained (unless_refused m k)"
  unfolding unless_refused_def
proof (rule bounded_try)
  show "raises_in log_error (bind (sys m) (\<lambda>_. ret k))" by (intro raise_intros assms)
qed (auto simp: log_error_def io_error_def intro: raise_intros)

lemma raises_finish:
  assumes "honest_stream io" and "audited audit"
  shows "raises_in contained (finish_handover io audit r status stage path k)"
  unfolding finish_handover_def
  by (intro raise_intros raises_unless_refused bounded_mono [OF raises_write_response [OF assms(1)]])
    (use assms(2) in \<open>auto simp: audited_def\<close>)

text \<open>
  Whatever the writer raises is caught, so it is enough that it leaves the script of the world
  alone.
\<close>

abbreviation any :: "exn \<Rightarrow> bool" where
  "any \<equiv> \<lambda>_. True"

lemma raises_any: "bounded I K m \<Longrightarrow> bounded I any m"
  by (rule bounded_mono) simp_all

lemma any_try: "bounded I any m \<Longrightarrow> (\<And>e. bounded I any (h e)) \<Longrightarrow> bounded I any (try_except m h)"
  by (rule bounded_try)

lemma any_translate: "bounded I any m \<Longrightarrow> bounded I any (translate p e m)"
  by (rule bounded_translate) simp_all

lemma any_lift: "bounded I any (lift r)"
  by (rule bounded_lift) simp

lemmas any_intros = raise_intros any_try any_translate any_lift call_raises [THEN raises_any]

lemma any_token_hex: "raises any (token_hex n)"
  unfolding token_hex_def by (intro any_intros)

lemma any_directory: "raises any (open_directory_components p)"
proof -
  have "raises_in any (open_directory_chain cs)" for cs
    by (induction cs) (auto intro!: any_intros)
  then show ?thesis unfolding open_directory_components_def by (intro any_intros) simp_all
qed

lemma any_revalidate: "raises any (revalidate_project_directory p fd)"
  unfolding revalidate_project_directory_def by (intro any_intros any_directory) simp_all

lemma any_verify: "raises any (verify_owned_entry fd n s)"
  unfolding verify_owned_entry_def entry_metadata_def by (intro any_intros) simp_all

lemma any_unlink: "raises any (unlink_owned_entry fd n s)"
  unfolding unlink_owned_entry_def by (intro any_intros) simp_all

lemma any_failed: "raises any m \<Longrightarrow> raises_in any (failed m)"
  unfolding failed_def by (intro any_intros) simp_all

lemma any_cleanup: "raises_in any (handover_cleanup fd t f)"
proof -
  have f: "raises_in any (failed (unlink_owned_entry fd n s))" "raises_in any (failed (os_close k))" for n s k
    by (intro any_failed any_unlink raises_any [OF raises_close])+
  have o'': "raises_in any (try_except (bind (sys (os_fstat k)) (\<lambda>s. bind (assign (g s)) (\<lambda>_. ret False)))
      (\<lambda>e. if is_os_error e then ret True else raise e))" for k and g :: "stat_result \<Rightarrow> handover_locals \<Rightarrow> handover_locals"
    by (intro any_intros) simp_all
  have l: "raises_in any ((case (hl_owned l, hl_fd l) of
         (None, Some fd) \<Rightarrow>
           try_except (bind (sys (os_fstat fd)) (\<lambda>s. bind (assign (\<lambda>l. l\<lparr>hl_owned := Some s\<rparr>)) (\<lambda>_. ret False)))
             (\<lambda>e. if is_os_error e then ret True else raise e)
       | _ \<Rightarrow> ret False) :: bool attempt)" for l :: handover_locals
    using o'' [of _ "\<lambda>s l. l\<lparr>hl_owned := Some s\<rparr>"]
    by (cases "hl_owned l"; cases "hl_fd l") (simp_all add: bounded_ret)
  have m: "raises_in any ((case (hl_complete l, hl_owned l) of
         (False, Some owned) \<Rightarrow>
           bind (if hl_published l then failed (unlink_owned_entry fd f owned) else ret False) (\<lambda>f2.
           bind (if hl_temporary_created l then failed (unlink_owned_entry fd t owned)
                 else ret False) (\<lambda>f3.
           ret (f2 \<or> f3)))
       | _ \<Rightarrow> ret False) :: bool attempt)" for l :: handover_locals
    by (auto split: option.split bool.split intro!: bounded_bind bounded_ret f)
  show ?thesis
    unfolding handover_cleanup_def
    by (rule bounded_bind, rule raises_locals, rule l, rule bounded_bind, rule raises_locals, rule m,
        rule bounded_bind, rule raises_locals, rule bounded_branches(1), rule bounded_ret, rule f, rule bounded_check) simp
qed

lemma any_attempt:
  assumes "raises any guard"
  shows "raises any (handover_attempt guard p fd t doc)"
proof -
  have w: "raises any (Private_Files.write_all (OSError x) fd b)" for x fd b
    by (rule raises_any [OF raises_write_all]) simp
  have "raises_in any (handover_publish guard p fd tmp f doc)" for tmp f
    unfolding handover_publish_def
    by (intro any_intros w any_revalidate any_verify any_unlink assms) simp_all
  then show ?thesis
    unfolding handover_attempt_def by (intro any_intros any_token_hex any_cleanup) simp_all
qed

lemma any_create:
  assumes "raises any guard"
  shows "raises any (create_atomic_handover clock guard dir project title body now session)"
proof -
  have "raises any (handover_attempts n guard p fd t doc)" for n p fd t doc
    by (induction n) (auto intro!: any_intros any_attempt assms)
  moreover have "raises any (open_project_directory p project)" for p
    unfolding open_project_directory_def
    by (intro any_intros any_directory any_revalidate) simp_all
  ultimately show ?thesis
    unfolding create_atomic_handover_def Let_def by (intro any_intros) simp_all
qed

lemma raises_publish: "raises_in contained (publish_handover clock s title body now)"
  unfolding publish_handover_def
proof (rule bounded_try)
  have "raises any (publication_guard s)" by (simp add: bounded_def publication_guard_def)
  then show "raises_in any (bind (sys (create_atomic_handover clock (publication_guard s) (ho_project_dir s)
      (ho_project_id s) title body now [])) (\<lambda>created.
    bind (check (path_parent created = ho_project_dir s)
      (ValueError ''handover writer returned an invalid path'')) (\<lambda>_. ret (Inr created))))"
    by (intro any_intros any_create) simp_all
qed (auto intro: raise_intros)

lemma content_errors: "validate_handover_content t b = Inl e \<Longrightarrow> is_value_error e"
proof -
  have r: "reraise_if not_utf8 (ValueError x) (bindE (utf8_encode t) (\<lambda>_. utf8_encode b)) = Inl e \<Longrightarrow> is_value_error e"
    for x t b e
  proof -
    have e: "utf8_encode s = Inl y \<Longrightarrow> y = UnicodeEncodeError" for s y
      by (induction s) (auto split: option.split_asm elim!: bindE_InlE)
    show "reraise_if not_utf8 (ValueError x) (bindE (utf8_encode t) (\<lambda>_. utf8_encode b)) = Inl e \<Longrightarrow> ?thesis"
      by (cases "bindE (utf8_encode t) (\<lambda>_. utf8_encode b)")
        (auto simp: not_utf8_def elim!: bindE_InlE dest!: e split: if_split_asm)
  qed
  assume "validate_handover_content t b = Inl e"
  then show ?thesis
    unfolding validate_handover_content_def Let_def
    by (auto simp: require_Inl_iff elim!: bindE_InlE dest: r)
qed

lemma raises_authorize:
  "raises (\<lambda>e. is_value_error e \<or> e = TypeError) (authorize_handover request peer s)"
proof -
  have c: "compare_digest a b = Inl e \<Longrightarrow> e = TypeError" for a b e
    by (auto simp: compare_digest_def split: if_split_asm)
  show ?thesis
    unfolding authorize_handover_def bounded_def Let_def
    by (auto elim!: bindE_InlE dest: c content_errors split: if_split_asm)
qed

lemma raises_refuse:
  "honest_stream io \<Longrightarrow> audited audit \<Longrightarrow> raises_in contained (refuse_handover io audit code)"
  unfolding refuse_handover_def by (rule raises_finish)

lemma raises_serve:
  assumes "honest_stream io" and "audited audit"
  shows "raises_in contained (serve_request clock audit io s peer now request)"
proof -
  have a: "raises_in contained (try_except (bind (sys (authorize_handover r peer s)) (\<lambda>_. ret True))
      (\<lambda>e. if is_value_error e then ret False else raise e))" for r
    by (rule bounded_try [where K' = "\<lambda>e. is_value_error e \<or> e = TypeError"])
      (auto intro!: raise_intros raises_authorize)
  have v: "raises_in contained (case validate_handover_content t b of
          Inl e \<Rightarrow> if is_value_error e then refuse_handover io audit (u ''content-policy'') else raise e
        | Inr (t', b') \<Rightarrow> f t' b')" if "\<And>t' b'. raises_in contained (f t' b')" for t b f
    using that content_errors [of t b] raises_refuse [OF assms] by (auto split: sum.split prod.split)
  show ?thesis
    unfolding serve_request_def
    by (rule bounded_bind, rule a, rule bounded_if, rule raises_refuse [OF assms], rule v, rule bounded_bind,
        rule raises_publish, rule bounded_branches(3), rule raises_refuse [OF assms])
      (unfold Let_def, rule raises_finish [OF assms])
qed

lemma raises_handle:
  assumes "honest_stream io" and "audited audit"
  shows "raises_in contained (handle_handover_connection lim clock audit io s peer now)"
proof -
  have c: "raises_in contained (try_except (on_stream (sm_close io)) (\<lambda>e. if is_os_error e then ret () else raise e))"
    by (rule bounded_try [where K' = is_os_error, OF raises_on_stream])
      (use assms(1) in \<open>auto simp: honest_stream_def intro: raise_intros\<close>)
  show ?thesis
    unfolding handle_handover_connection_def
    by (rule bounded_finally [OF bounded_bind c], rule bounded_mono [OF raises_read_one [OF assms(1)]], simp,
        rule bounded_branches(3), rule raises_refuse [OF assms], rule raises_serve [OF assms])
qed

text \<open>What a program can return.\<close>

definition gives :: "('a \<Rightarrow> bool) \<Rightarrow> ('s, 'a) prog \<Rightarrow> bool" where
  "gives Q m \<longleftrightarrow> (\<forall>s x. fst (m s) = Inr x \<longrightarrow> Q x)"

lemma gives_intros:
  "Q x \<Longrightarrow> gives Q (ret x)" "gives Q (raise e)"
  "(\<And>x. gives Q (f x)) \<Longrightarrow> gives Q (bind m f)"
  "gives Q m' \<Longrightarrow> (\<And>e. gives Q (h e)) \<Longrightarrow> gives Q (try_except m' h)"
  "gives Q m' \<Longrightarrow> gives Q (try_finally m' c)"
  "gives Q m' \<Longrightarrow> gives Q m'' \<Longrightarrow> gives Q (if b then m' else m'')"
  "(\<And>x. gives Q (f' x)) \<Longrightarrow> (\<And>x. gives Q (g x)) \<Longrightarrow> gives Q (case v of Inl x \<Rightarrow> f' x | Inr x \<Rightarrow> g x)"
  "(\<And>x y. gives Q (k x y)) \<Longrightarrow> gives Q (case p of (x, y) \<Rightarrow> k x y)"
  unfolding gives_def ret_def raise_def bind_def try_except_def try_finally_def
  by (auto split: prod.split sum.split prod.split_asm sum.split_asm) (metis fst_conv)+

lemma gives_finish: "k \<in> {0, 1} \<Longrightarrow> gives (\<lambda>n. n \<in> {0, 1}) (finish_handover io audit r status stage path k)"
  unfolding finish_handover_def unless_refused_def by (intro gives_intros) auto

lemma gives_handle: "gives (\<lambda>n. n \<in> {0, 1}) (handle_handover_connection lim clock audit io s peer now)"
  unfolding handle_handover_connection_def serve_request_def refuse_handover_def Let_def
  by (intro gives_intros gives_finish) auto

section \<open>Properties\<close>

text \<open>
  C24. One client cannot stop the broker with what it sends, except in two ways the code does not
  handle: whatever the bytes of the connection, whatever calls of the system fail and whenever
  the session is deactivated, the handler returns 0 or 1, or raises \<open>TypeError\<close> (the comparison
  of a capability with characters above 127), \<open>RecursionError\<close> (JSON nested too deeply) or dies
  with the process.
\<close>

theorem handover_client_contained:
  assumes "honest_stream io" and "os_faults w"
    and "handle_handover_connection lim clock (audit_handover sha is_iso stamp s) io s peer now (c, w) = (r, cw)"
  shows "r \<in> {Inr 0, Inr 1, Inl TypeError, Inl RecursionError, Inl Killed}"
proof -
  have a: "audited (audit_handover sha is_iso stamp s)"
    using raises_audit by (simp add: audited_def)
  show ?thesis
  proof (cases r)
    case (Inl e)
    then have "contained e"
      using bounded_result [OF raises_handle [OF assms(1) a] _ assms(3)] assms(2) by simp
    with Inl show ?thesis by (auto simp: contained_def)
  next
    case (Inr n)
    then show ?thesis using gives_handle assms(3) unfolding gives_def by (metis fst_conv insertCI insertE singletonD)
  qed
qed

text \<open>A client that the kernel serves byte by byte, and a broker at rest.\<close>

definition demo_stream :: "sock stream_methods" where
  "demo_stream = \<lparr>sm_read = sock_read, sm_write = (\<lambda>b s. (Inr (WInt (int (length b))), s)),
     sm_flush = (\<lambda>s. (Inr (), s)), sm_close = (\<lambda>s. (Inr (), s))\<rparr>"

lemma demo_stream_honest: "honest_stream demo_stream"
  by (simp add: honest_stream_def demo_stream_def honest_reader_def honest_writer_def sock_read_def Let_def)

definition demo_idle :: world where
  "demo_idle = \<lparr>w_files = Map.empty, w_root = (0, 1), w_cwd = [], w_uid = 1000, w_umask = 63,
     w_fds = Map.empty, w_next_fd = 6,
     w_turns = (\<lambda>n. \<lparr>t_others = id, t_fault = None, t_killed = False, t_fid = (0, n), t_amount = None,
       t_random = []\<rparr>), w_clock = 0, w_dead = False\<rparr>"

lemma demo_idle_faults: "os_faults demo_idle"
  by (simp add: os_faults_def demo_idle_def)

definition demo_handover_session :: HandoverBrokerSession where
  "demo_handover_session = \<lparr>ho_project_id = u ''p'', ho_project_dir = (True, [u ''p'']), ho_owner_uid = 1000,
     ho_run_id = u ''r'', ho_run_dir = (True, [u ''r'']), ho_audit_file = (True, [u ''a'']), ho_capability = u ''c'',
     ho_artifacts = \<lparr>ra_label = [], ra_descriptor = None, ra_parent_descriptor = None, ra_name = [],
       ra_directory_identity = (0, 1), ra_files = [], ra_sockets = [], ra_removed = False\<rparr>,
     ho_listener = True, ho_closed = False, ho_cleanup_complete = False, ho_stop_at = None\<rparr>"

definition demo_latin_request :: HandoverRequest where
  "demo_latin_request = \<lparr>hq_version = 1, hq_capability = [233], hq_project_id = u ''p'',
     hq_operation = u ''create'', hq_title = u ''t'', hq_body = u ''b''\<rparr>"

lemma demo_latin_encoded: "\<exists>b. encode_request_frame demo_latin_request = Inr b"
proof -
  have "valid_request demo_latin_request"
    by (simp add: valid_request_def demo_latin_request_def handover_text_def is_surrogate_def u_def)
  moreover have "\<exists>b. encode_frame REQUEST_SCHEMA (plain_request_values demo_latin_request) = Inr b"
    by (simp add: encode_frame_def demo_latin_request_def plain_request_values_def REQUEST_SCHEMA_def
        JSON_OPTIONS_def MAX_REQUEST_BYTES_def dump_opts_of_def json_eval utf8_char_def char_of_def bit_0
        int_repr_def small_int_1 dec_digits.simps digit_def pack_u32_def)
  ultimately show ?thesis by (simp add: ho_encode_request_Inr)
qed

text \<open>The capability that is not ASCII reaches the comparison, whose \<open>TypeError\<close> nobody catches.\<close>

lemma latin_capability_stops_broker:
  "\<exists>b cw. encode_request_frame demo_latin_request = Inr b
     \<and> handle_handover_connection 1 demo_moment (audit_handover sha is_iso stamp demo_handover_session) demo_stream
         demo_handover_session 1000 None (\<lparr>sock_buf = b, sock_cuts = []\<rparr>, demo_idle) = (Inl TypeError, cw)"
proof -
  obtain b where b: "encode_request_frame demo_latin_request = Inr b" using demo_latin_encoded by blast
  have "clean_str [233]" by (simp add: clean_str_def is_surrogate_def)
  then have "sendable_request 1 demo_latin_request"
    using b by (simp add: ho_encode_request_Inr sendable_request_def) (simp add: demo_latin_request_def)
  then obtain t where t: "read_request_frame 1 sock_read \<lparr>sock_buf = b, sock_cuts = []\<rparr> = (Inr demo_latin_request, t)"
    using handover_request_sock.read_encoded [of 1 demo_latin_request b "\<lparr>sock_buf = b, sock_cuts = []\<rparr>" "[]"] b
    by (auto simp: ho_encode_request_Inr read_request_frame_def)
  have "\<exists>cw. handle_handover_connection 1 demo_moment (audit_handover sha is_iso stamp demo_handover_session) demo_stream
      demo_handover_session 1000 None (\<lparr>sock_buf = b, sock_cuts = []\<rparr>, demo_idle) = (Inl TypeError, cw)"
    by (simp add: handle_handover_connection_def try_finally_def bind_def try_except_def read_one_request_def on_stream_def
        demo_stream_def t t [unfolded One_nat_def] ret_def serve_request_def sys_def authorize_handover_def handover_closed_def
        demo_handover_session_def demo_latin_request_def PROTOCOL_VERSION_def compare_digest_def raise_def)
  with b show ?thesis by blast
qed

theorem handover_client_contained_witness:
  "\<exists>b r cw. encode_request_frame demo_latin_request = Inr b
     \<and> handle_handover_connection 1 demo_moment (audit_handover (\<lambda>_. []) (\<lambda>_. True) [] demo_handover_session) demo_stream
         demo_handover_session 1000 None (\<lparr>sock_buf = b, sock_cuts = []\<rparr>, demo_idle) = (r, cw)
     \<and> r \<in> {Inr 0, Inr 1, Inl TypeError, Inl RecursionError, Inl Killed}"
proof -
  obtain b where b: "encode_request_frame demo_latin_request = Inr b" using demo_latin_encoded by blast
  obtain r cw where h: "handle_handover_connection 1 demo_moment
      (audit_handover (\<lambda>_. []) (\<lambda>_. True) [] demo_handover_session) demo_stream
      demo_handover_session 1000 None (\<lparr>sock_buf = b, sock_cuts = []\<rparr>, demo_idle) = (r, cw)" by (meson surj_pair)
  from handover_client_contained [OF demo_stream_honest demo_idle_faults h] b h show ?thesis by blast
qed

end
