(* ===== verification/Relay_Liveness.thy ===== *)
theory Relay_Liveness
  imports Egress_Relay
begin

text \<open>
  The relay of \<open>src/agent_container/egress_gateway.py\<close> gets its work done: on two connections that
  keep accepting and delivering bytes it returns with everything delivered, within a number of
  clock readings that is linear in the bytes.
\<close>

section \<open>Connections that cooperate\<close>

definition to_come :: "wire \<Rightarrow> side \<Rightarrow> bytes" where
  "to_come w d = concat (map the (wire_in w d))"

lemma sent_by_chunks: "[] \<notin> set cs \<Longrightarrow> sent_by (map Some cs) = concat cs"
  by (induction cs) auto

definition cooperative :: "wire \<Rightarrow> bool" where
  "cooperative w \<longleftrightarrow> (\<forall>d. None \<notin> set (wire_in w d) \<and> Some [] \<notin> set (wire_in w d))
     \<and> 0 \<notin> set (wire_caps w) \<and> wire_schedule w = []"

lemma recv_cooperative:
  assumes "cooperative w" and "0 < n"
  obtains b w' where "rv_recv wire_env d n w = (Inr b, w')" and "cooperative w'"
    and "to_come w d = b @ to_come w' d" and "to_come w' (peer d) = to_come w (peer d)"
    and "wire_got w' = (wire_got w)(d := wire_got w d @ b)" and "b = [] \<longleftrightarrow> to_come w d = []"
    and "wire_now w' = wire_now w" and "wire_out w' = wire_out w"
proof (cases "wire_in w d")
  case Nil
  with assms that [of "[]" w] show thesis by (simp add: wire_env_def wire_recv_def to_come_def)
next
  case (Cons x cs)
  then have "x \<in> set (wire_in w d)" by simp
  with assms(1) have "x \<noteq> None" "x \<noteq> Some []" unfolding cooperative_def by metis+
  then obtain c where c: "x = Some c" "c \<noteq> []" by (cases x) auto
  have p: "peer d \<noteq> d" by (cases d) simp_all
  define w' where "w' = w\<lparr>wire_in := (wire_in w)(d := if drop n c = [] then cs else Some (drop n c) # cs),
             wire_got := (wire_got w)(d := wire_got w d @ take n c)\<rparr>"
  have r: "rv_recv wire_env d n w = (Inr (take n c), w')"
    using Cons c by (simp add: wire_env_def wire_recv_def w'_def)
  have t: "to_come w d = c @ concat (map the cs)" using Cons c by (simp add: to_come_def)
  show thesis
  proof (rule that [OF r])
    have "None \<notin> set cs" "Some [] \<notin> set cs"
      using assms(1) Cons unfolding cooperative_def by (metis list.set_intros(2))+
    then show "cooperative w'" using assms(1) unfolding cooperative_def w'_def by auto
    show "to_come w d = take n c @ to_come w' d"
      using t by (auto simp: to_come_def w'_def simp flip: append_assoc)
    show "take n c = [] \<longleftrightarrow> to_come w d = []" using t c assms(2) by simp
  qed (use p in \<open>simp_all add: w'_def to_come_def\<close>)
qed

lemma send_cooperative:
  assumes "cooperative w" and "b \<noteq> []"
  obtains k w' where "rv_send wire_env d b w = (Inr (int k), w')" and "cooperative w'" and "0 < k"
    and "k \<le> length b" and "to_come w' = to_come w" and "wire_got w' = wire_got w"
    and "wire_now w' = wire_now w"
proof -
  define k where "k = min (length b) (case wire_caps w of [] \<Rightarrow> length b | c # _ \<Rightarrow> c)"
  define w' where "w' = w\<lparr>wire_caps := tl (wire_caps w), wire_out := (wire_out w)(d := wire_out w d @ take k b)\<rparr>"
  have "0 < k" using assms by (auto simp: k_def cooperative_def split: list.split)
  moreover have "cooperative w'"
    using assms(1) list.set_sel(2) [of "wire_caps w" 0] by (cases "wire_caps w") (auto simp: cooperative_def w'_def)
  moreover have "rv_send wire_env d b w = (Inr (int k), w')"
    by (simp add: wire_env_def wire_send_def k_def w'_def Let_def)
  ultimately show thesis
    by (intro that [of k w']) (simp_all add: k_def w'_def to_come_def fun_eq_iff)
qed

section \<open>Progress\<close>

text \<open>
  The work left, the number of ended directions, and how far the clock is ahead of the last
  activity, ended directions aside.
\<close>

definition work :: "relay_state \<Rightarrow> wire \<Rightarrow> nat" where
  "work st w = (\<Sum>d \<leftarrow> [Client, Upstream].
     2 * length (to_come w d) + length (to_side st d) + of_bool (side_open st d))"

definition lag :: "relay_state \<Rightarrow> wire \<Rightarrow> int" where
  "lag st w = wire_now w - last_activity st - (of_bool (\<not> side_open st Client) + of_bool (\<not> side_open st Upstream))"

definition serving :: "RelayLimits \<Rightarrow> (side \<Rightarrow> bytes) \<Rightarrow> relay_state \<Rightarrow> wire \<Rightarrow> bool" where
  "serving lim whole st w \<longleftrightarrow> cooperative w \<and> 1 \<le> chunk_bytes lim
     \<and> (\<forall>d. wire_got w d @ to_come w d = whole d \<and> (\<not> side_open st d \<longrightarrow> to_come w d = [])
          \<and> from_side st d = length (wire_got w d) \<and> int (length (whole d)) \<le> maximum_bytes_per_direction lim)"

definition advances ::
  "RelayLimits \<Rightarrow> (side \<Rightarrow> bytes) \<Rightarrow> nat \<Rightarrow> bool \<Rightarrow> relay_state \<Rightarrow> wire \<Rightarrow> (exn + relay_state) \<times> wire \<Rightarrow> bool" where
  "advances lim whole k b st w m \<longleftrightarrow> (\<exists>st' w'. m = (Inr st', w') \<and> serving lim whole st' w'
     \<and> work st' w' + of_bool b \<le> work st w \<and> wire_now w' \<le> wire_now w + int k
     \<and> lag st' w' \<le> max 0 (lag st w - of_bool b))"

lemma advances_skip: "serving lim whole st w \<Longrightarrow> advances lim whole k False st w (Inr st, w)"
  by (auto simp: advances_def)

lemma advances_weaken: "advances lim whole k b st w m \<Longrightarrow> k \<le> k' \<Longrightarrow> (b' \<Longrightarrow> b) \<Longrightarrow> advances lim whole k' b' st w m"
  unfolding advances_def
  by (elim exE conjE, intro exI conjI, assumption, assumption) (auto simp: of_bool_def split: if_splits)

lemma advances_bindS:
  assumes "advances lim whole k b st w m"
    and "\<And>st' w'. serving lim whole st' w' \<Longrightarrow> advances lim whole k' False st' w' (f st' w')"
  shows "advances lim whole (k + k') b st w (bindS m f)"
proof -
  obtain st1 w1 where 1: "m = (Inr st1, w1)" "serving lim whole st1 w1" "work st1 w1 + of_bool b \<le> work st w"
      "wire_now w1 \<le> wire_now w + int k" "lag st1 w1 \<le> max 0 (lag st w - of_bool b)"
    using assms(1) by (auto simp: advances_def)
  obtain st2 w2 where 2: "f st1 w1 = (Inr st2, w2)" "serving lim whole st2 w2" "work st2 w2 \<le> work st1 w1"
      "wire_now w2 \<le> wire_now w1 + int k'" "lag st2 w2 \<le> max 0 (lag st1 w1)"
    using assms(2) [OF 1(2)] by (auto simp: advances_def)
  show ?thesis using 1 2 by (auto simp: advances_def)
qed

lemma advances_read:
  assumes s: "serving lim whole st w"
  shows "advances lim whole 1 (side_open st d) st w (relay_read wire_env lim d st w)"
proof -
  have coop: "cooperative w" and n: "0 < nat (chunk_bytes lim)" using s by (simp_all add: serving_def)
  obtain b w' where r: "rv_recv wire_env d (nat (chunk_bytes lim)) w = (Inr b, w')" "cooperative w'"
    "to_come w d = b @ to_come w' d" "to_come w' (peer d) = to_come w (peer d)"
    "wire_got w' = (wire_got w)(d := wire_got w d @ b)" "b = [] \<longleftrightarrow> to_come w d = []"
    "wire_now w' = wire_now w" "wire_out w' = wire_out w"
    by (rule recv_cooperative [OF coop n])
  have parts: "wire_got w d @ to_come w d = whole d" "from_side st d = length (wire_got w d)"
    "int (length (whole d)) \<le> maximum_bytes_per_direction lim" for d
    using s unfolding serving_def by blast+
  have ended: "to_come w d = []" if "\<not> side_open st d" for d using s that unfolding serving_def by blast
  show ?thesis
  proof (cases "b = []")
    case True
    then have w': "to_come w' = to_come w" using r(3,4) by (intro ext) (metis append_Nil peer.elims side.exhaust)
    define st' where "st' = st\<lparr>side_open := (side_open st)(d := False)\<rparr>"
    have e: "relay_read wire_env lim d st w = (Inr st', w')" using r True by (simp add: relay_read_def st'_def)
    have "serving lim whole st' w'"
      using s r True w' by (auto simp: serving_def st'_def)
    moreover have "work st' w' + of_bool (side_open st d) \<le> work st w"
      by (cases d) (simp_all add: work_def st'_def w')
    moreover have "lag st' w' \<le> lag st w - of_bool (side_open st d)"
      using r by (cases d) (simp_all add: lag_def st'_def)
    ultimately show ?thesis using e r by (auto simp: advances_def)
  next
    case False
    define st' where "st' = st\<lparr>from_side := (from_side st)(d := from_side st d + length b),
        to_side := (to_side st)(peer d := to_side st (peer d) @ b), last_activity := wire_now w' + 1\<rparr>"
    define w2 where "w2 = w'\<lparr>wire_now := wire_now w' + 1\<rparr>"
    have t: "length (wire_got w d) + length b \<le> length (whole d)"
      by (simp flip: parts(1) add: r(3))
    then have "\<not> maximum_bytes_per_direction lim < int (from_side st d + length b)"
      using parts(2,3) [of d] by linarith
    then have e: "relay_read wire_env lim d st w = (Inr st', w2)"
      using r False by (simp add: relay_read_def st'_def w2_def wire_env_def)
    have tc: "to_come w2 = to_come w'" and gt: "wire_got w2 = wire_got w'" and co: "cooperative w2"
      using r(2) by (simp_all add: w2_def to_come_def cooperative_def fun_eq_iff)
    have "wire_got w2 d @ to_come w2 d = whole d \<and> (\<not> side_open st' d \<longrightarrow> to_come w2 d = [])
        \<and> from_side st' d = length (wire_got w2 d)"
      using parts(1,2) [of d] r(3,5,6) ended [of d] False by (auto simp: st'_def tc gt)
    moreover have "wire_got w2 (peer d) @ to_come w2 (peer d) = whole (peer d)
        \<and> (\<not> side_open st' (peer d) \<longrightarrow> to_come w2 (peer d) = [])
        \<and> from_side st' (peer d) = length (wire_got w2 (peer d))"
      using parts(1,2) [of "peer d"] r(4,5) ended [of "peer d"] by (cases d) (auto simp: st'_def tc gt)
    ultimately have "wire_got w2 x @ to_come w2 x = whole x \<and> (\<not> side_open st' x \<longrightarrow> to_come w2 x = [])
        \<and> from_side st' x = length (wire_got w2 x)" for x
      by (cases d; cases x) simp_all
    then have "serving lim whole st' w2"
      using co s parts(3) unfolding serving_def by blast
    moreover have "work st' w2 + of_bool (side_open st d) \<le> work st w"
      using r(3,4) False by (cases d; cases b) (simp_all add: work_def st'_def tc)
    moreover have "lag st' w2 \<le> 0" by (simp add: lag_def st'_def w2_def)
    ultimately show ?thesis using e r by (auto simp: advances_def w2_def)
  qed
qed

lemma advances_write:
  assumes s: "serving lim whole st w" and b: "to_side st d \<noteq> []"
  shows "advances lim whole 1 True st w (relay_write wire_env d st w)"
proof -
  obtain k w' where r: "rv_send wire_env d (to_side st d) w = (Inr (int k), w')" "cooperative w'" "0 < k"
    "k \<le> length (to_side st d)" "to_come w' = to_come w" "wire_got w' = wire_got w" "wire_now w' = wire_now w"
    using send_cooperative [OF _ b] s unfolding serving_def by metis
  define st' where "st' = st\<lparr>to_side := (to_side st)(d := drop k (to_side st d)), last_activity := wire_now w' + 1\<rparr>"
  define w2 where "w2 = w'\<lparr>wire_now := wire_now w' + 1\<rparr>"
  have e: "relay_write wire_env d st w = (Inr st', w2)"
    using r by (simp add: relay_write_def st'_def w2_def wire_env_def)
  have tc: "to_come w2 = to_come w" and gt: "wire_got w2 = wire_got w" and co: "cooperative w2"
    using r by (simp_all add: w2_def to_come_def cooperative_def fun_eq_iff)
  have "serving lim whole st' w2" using s co by (simp add: serving_def tc gt st'_def)
  moreover have "work st' w2 + 1 \<le> work st w"
    using r(3,4) by (cases d) (auto simp: work_def st'_def tc)
  moreover have "lag st' w2 \<le> 0" by (simp add: lag_def st'_def w2_def)
  ultimately show ?thesis using e r by (auto simp: advances_def w2_def)
qed

lemma advances_half_close:
  assumes "serving lim whole st w"
  shows "advances lim whole 0 False st w (relay_half_close wire_env d st w)"
  using assms by (auto simp: advances_def relay_half_close_def wire_env_def serving_def work_def lag_def)

definition offer :: "RelayLimits \<Rightarrow> side \<Rightarrow> bool \<Rightarrow> bool \<Rightarrow> relay_state \<Rightarrow> wire \<Rightarrow> (exn + relay_state) \<times> wire" where
  "offer lim d i j st w = bindS (if i then relay_read wire_env lim d st w else (Inr st, w)) (\<lambda>st1 w1.
     if j \<and> to_side st1 d \<noteq> [] then relay_write wire_env d st1 w1 else (Inr st1, w1))"

lemma advances_offered_write:
  "serving lim whole st w \<Longrightarrow>
     advances lim whole 1 False st w (if j \<and> to_side st d \<noteq> [] then relay_write wire_env d st w else (Inr st, w))"
  using advances_weaken [OF advances_write] advances_skip by auto

lemma advances_offer:
  assumes s: "serving lim whole st w"
  shows "advances lim whole 2 False st w (offer lim d i j st w)"
    and "i \<and> side_open st d \<or> \<not> i \<and> j \<and> to_side st d \<noteq> [] \<Longrightarrow> advances lim whole 2 True st w (offer lim d i j st w)"
proof -
  have r: "i \<Longrightarrow> advances lim whole 2 (side_open st d) st w (offer lim d i j st w)"
    using advances_bindS [OF advances_read [OF s, of d] advances_offered_write]
    by (simp add: numeral_2_eq_2 offer_def)
  show "advances lim whole 2 False st w (offer lim d i j st w)"
    using r advances_weaken [OF r] advances_weaken [OF advances_offered_write [OF s]] by (cases i) (auto simp: offer_def)
  show "advances lim whole 2 True st w (offer lim d i j st w)"
    if "i \<and> side_open st d \<or> \<not> i \<and> j \<and> to_side st d \<noteq> []"
    using that r advances_weaken [OF advances_write [OF s], of d 2 True] by (auto simp: offer_def)
qed

lemma bindS_bindS: "bindS (bindS m f) g = bindS m (\<lambda>x s. bindS (f x s) g)"
  by (cases m; cases "fst m") auto

lemma relay_ready_offers:
  "relay_ready wire_env lim [(Client, i, j), (Upstream, k, l)] st w
     = bindS (offer lim Client i j st w) (offer lim Upstream k l)"
proof -
  have r: "bindS m (\<lambda>st s. (Inr st, s)) = m" for m :: "(exn + relay_state) \<times> wire"
    by (cases m; cases "fst m") auto
  have u: "relay_ready wire_env lim [(Upstream, k, l)] = offer lim Upstream k l"
  proof -
    have z: "relay_ready wire_env lim [] = (\<lambda>st s. (Inr st, s))" by (intro ext) simp
    show ?thesis by (intro ext, subst relay_ready.simps) (simp only: z r offer_def)
  qed
  show ?thesis
    by (subst relay_ready.simps) (simp only: u offer_def [of lim Client] bindS_bindS)
qed

lemma advances_ready:
  assumes s: "serving lim whole st w" and a: "relay_active st"
  shows "advances lim whole 4 True st w
    (relay_ready wire_env lim [(Client, interest st Client), (Upstream, interest st Upstream)] st w)"
proof -
  obtain i j k l where ij: "interest st Client = (i, j)" and kl: "interest st Upstream = (k, l)"
    by (metis surj_pair)
  have d: "i \<or> j \<or> k \<or> l" using a ij kl by (auto simp: relay_active_def interest_def)
  show ?thesis
  proof (cases "i \<or> j")
    case True
    then have "i \<and> side_open st Client \<or> \<not> i \<and> j \<and> to_side st Client \<noteq> []"
      using ij by (auto simp: interest_def)
    from advances_bindS [OF advances_offer(2) [OF s this], of 2 "offer lim Upstream k l"] advances_offer(1)
    show ?thesis unfolding ij kl relay_ready_offers by simp
  next
    case False
    then have "k \<and> side_open st Upstream \<or> \<not> k \<and> l \<and> to_side st Upstream \<noteq> []"
      using d kl by (auto simp: interest_def)
    from advances_offer(2) [OF s this] False
    show ?thesis unfolding ij kl relay_ready_offers offer_def [of lim Client]
      by (auto elim: advances_weaken)
  qed
qed

section \<open>The loop\<close>

definition in_time :: "RelayLimits \<Rightarrow> int \<Rightarrow> relay_state \<Rightarrow> wire \<Rightarrow> bool" where
  "in_time lim started st w \<longleftrightarrow> lag st w \<le> 0 \<and> 4 \<le> idle_timeout lim
     \<and> wire_now w + 5 * int (work st w) \<le> started + lifetime lim"

lemma relay_turn_advances:
  assumes s: "serving lim whole st w" and a: "relay_active st" and t: "in_time lim started st w"
  shows "\<exists>st' w'. relay_turn wire_env lim started st w = (Inr st', w') \<and> serving lim whole st' w'
    \<and> in_time lim started st' w' \<and> work st' w' < work st w"
proof -
  define w1 where "w1 = w\<lparr>wire_now := wire_now w + 1\<rparr>"
  have tc: "to_come w1 = to_come w" by (simp add: w1_def to_come_def fun_eq_iff)
  have s1: "serving lim whole st w1" using s by (simp add: serving_def tc) (simp add: w1_def cooperative_def)
  have wk: "work st w1 = work st w" by (simp add: work_def tc)
  have lg: "lag st w1 \<le> 1" using t by (simp add: in_time_def lag_def w1_def)
  have "0 < work st w" using a by (cases "side_open st Client"; cases "side_open st Upstream") (auto simp: work_def relay_active_def)
  then have "\<not> idle_timeout lim - (wire_now w + 1 - last_activity st) \<le> 0"
    "\<not> lifetime lim - (wire_now w + 1 - started) \<le> 0"
    using t by (auto simp: in_time_def lag_def of_bool_def split: if_splits)
  then have timeout: "\<not> min (idle_timeout lim - (wire_now w + 1 - last_activity st)) (lifetime lim - (wire_now w + 1 - started)) \<le> 0"
    by (simp add: min_le_iff_disj)
  have e: "relay_turn wire_env lim started st w =
      bindS (relay_ready wire_env lim [(Client, interest st Client), (Upstream, interest st Upstream)] st w1)
        (\<lambda>st1 s3. bindS (relay_half_close wire_env Client st1 s3) (relay_half_close wire_env Upstream))"
    using s1 timeout unfolding relay_turn_def
    by (simp add: wire_env_def wire_select_def serving_def cooperative_def Let_def flip: w1_def) 
  have "advances lim whole (4 + (0 + 0)) True st w1 (relay_turn wire_env lim started st w)"
    unfolding e by (intro advances_bindS advances_ready s1 a advances_half_close)
  then obtain st' w' where "relay_turn wire_env lim started st w = (Inr st', w')" "serving lim whole st' w'"
      "work st' w' + 1 \<le> work st w1" "wire_now w' \<le> wire_now w1 + 4" "lag st' w' \<le> max 0 (lag st w1 - 1)"
    by (auto simp: advances_def)
  with t wk lg show ?thesis by (auto simp: in_time_def w1_def)
qed

lemma relay_loop_delivers:
  assumes "serving lim whole st w" and "in_time lim started st w"
  shows "\<exists>st' w'. relay_loop wire_env lim started st w = Some (Inr st', w') \<and> serving lim whole st' w' \<and> \<not> relay_active st'"
  using assms
proof (induction "work st w" arbitrary: st w rule: less_induct)
  case less
  show ?case
  proof (cases "relay_active st")
    case True
    from relay_turn_advances [OF less.prems(1) True less.prems(2)] obtain st1 w1 where
      "relay_turn wire_env lim started st w = (Inr st1, w1)" "serving lim whole st1 w1" "in_time lim started st1 w1"
      "work st1 w1 < work st w" by blast
    with less.hyps [of st1 w1] True show ?thesis by (subst relay_loop.simps) simp
  qed (use less.prems in \<open>subst relay_loop.simps, simp\<close>)
qed

section \<open>Properties\<close>

text \<open>
  C25. The tunnel gets its work done: when the peers send their bytes in non-empty pieces and then
  end, no receive fails, the kernel accepts at least one byte of each send, the byte limit allows
  what is sent, and the timeouts leave ten readings of the clock per byte and four without
  activity, then \<open>relay_tunnel\<close> returns with every byte delivered in both directions.
\<close>

theorem relay_delivers:
  assumes "relay_limits_ok lim" and "\<And>d. [] \<notin> set (chunks d)" and "0 \<notin> set caps"
    and "\<And>d. int (length (concat (chunks d))) \<le> maximum_bytes_per_direction lim"
    and "4 \<le> idle_timeout lim"
    and "10 * int (length (concat (chunks Client)) + length (concat (chunks Upstream)) + 1) \<le> lifetime lim"
  shows "\<exists>t. relay_tunnel wire_env lim \<lparr>wire_in = (\<lambda>d. map Some (chunks d)), wire_got = (\<lambda>d. []),
      wire_out = (\<lambda>d. []), wire_caps = caps, wire_schedule = [], wire_now = now\<rparr>
        = Some (Inr (length (concat (chunks Client)), length (concat (chunks Upstream))), t)
    \<and> wire_out t Upstream = concat (chunks Client) \<and> wire_out t Client = concat (chunks Upstream)"
proof -
  define w where "w = \<lparr>wire_in = (\<lambda>d. map Some (chunks d)), wire_got = (\<lambda>d. []),
      wire_out = (\<lambda>d. []), wire_caps = caps, wire_schedule = [], wire_now = now\<rparr>"
  define w1 where "w1 = w\<lparr>wire_now := now + 1\<rparr>"
  have tc: "to_come w1 d = concat (chunks d)" for d by (simp add: to_come_def w1_def w_def comp_def)
  have "serving lim (\<lambda>d. concat (chunks d)) (relay_start (now + 1)) w1"
    using assms tc by (auto simp: serving_def cooperative_def w1_def w_def relay_limits_ok_def relay_start_def)
  moreover have "in_time lim (now + 1) (relay_start (now + 1)) w1"
    using assms by (simp add: in_time_def lag_def work_def tc) (simp add: w1_def relay_start_def)
  ultimately obtain st t where l: "relay_loop wire_env lim (now + 1) (relay_start (now + 1)) w1 = Some (Inr st, t)"
      and s: "serving lim (\<lambda>d. concat (chunks d)) st t" "\<not> relay_active st"
    using relay_loop_delivers by blast
  have r: "relay_tunnel wire_env lim w = Some (Inr (from_side st Client, from_side st Upstream), t)"
    using l assms(1) by (simp add: relay_tunnel_def wire_env_def w1_def w_def)
  have "\<exists>r' t'. relay_tunnel wire_env lim w = Some (r', t') \<and> (case r' of
       Inl e \<Rightarrow> (\<forall>d. \<exists>rest. concat (chunks d) = wire_out t' (peer d) @ rest)
     | Inr (a, b) \<Rightarrow> (\<forall>d. wire_out t' (peer d) = concat (chunks d)) \<and> a = length (concat (chunks Client))
         \<and> b = length (concat (chunks Upstream)) \<and> int (max a b) \<le> maximum_bytes_per_direction lim)"
    by (rule wires.relay_tunnel_law) (use assms in \<open>simp_all add: w_def wire_left_def sent_by_chunks\<close>)
  then have "\<forall>d. wire_out t (peer d) = concat (chunks d)" "from_side st Client = length (concat (chunks Client))"
    "from_side st Upstream = length (concat (chunks Upstream))" using r by auto
  with r show ?thesis unfolding w_def by (metis peer.simps)
qed

theorem relay_delivers_witness:
  "\<exists>t. relay_tunnel wire_env \<lparr>maximum_bytes_per_direction = 4, idle_timeout = 4, lifetime = 60, chunk_bytes = 2\<rparr>
      \<lparr>wire_in = (\<lambda>d. map Some (case d of Client \<Rightarrow> [''GET''] | Upstream \<Rightarrow> [''o'', ''k''])), wire_got = (\<lambda>d. []),
      wire_out = (\<lambda>d. []), wire_caps = [1], wire_schedule = [], wire_now = 0\<rparr> = Some (Inr (3, 2), t)
    \<and> wire_out t Upstream = ''GET'' \<and> wire_out t Client = ''ok''"
proof -
  let ?c = "\<lambda>d. case d of Client \<Rightarrow> [''GET''] | Upstream \<Rightarrow> [''o'', ''k'']"
  have "[] \<notin> set (?c d)" "int (length (concat (?c d))) \<le> 4" for d by (cases d; simp)+
  then show ?thesis
    using relay_delivers [of "\<lparr>maximum_bytes_per_direction = 4, idle_timeout = 4, lifetime = 60, chunk_bytes = 2\<rparr>" ?c "[1]" 0]
    by (simp add: relay_limits_ok_def eval_nat_numeral)
qed

end
