(* ===== verification/Frame_Termination.thy ===== *)
theory Frame_Termination
  imports Broker_Frame
begin

text \<open>
  How often the loops of \<open>src/agent_container/broker/frame.py\<close> call their stream: the stream
  objects are wrapped by a counter of calls.
\<close>

section \<open>Counted streams\<close>

definition counted :: "('b \<Rightarrow> 's \<Rightarrow> 'r \<times> 's) \<Rightarrow> 'b \<Rightarrow> 's \<times> nat \<Rightarrow> 'r \<times> 's \<times> nat" where
  "counted f x = (\<lambda>(s, c). case f x s of (r, t) \<Rightarrow> (r, t, Suc c))"

text \<open>The counter does not change the program, and the program adds at most \<open>k\<close> to it.\<close>

definition uncounted :: "nat \<Rightarrow> nat \<Rightarrow> 'r \<times> 's \<Rightarrow> 'r \<times> 's \<times> nat \<Rightarrow> bool" where
  "uncounted k c m m' \<longleftrightarrow> (\<exists>c'. m' = (fst m, snd m, c') \<and> c' \<le> c + k)"

lemma uncounted_pure [simp, intro]: "uncounted k c (r, s) (r, s, c)" "0 < k \<Longrightarrow> uncounted k c (r, s) (r, s, Suc c)"
  by (simp_all add: uncounted_def)

lemma uncounted_next: "uncounted k (Suc c) m m' \<Longrightarrow> Suc k \<le> k' \<Longrightarrow> uncounted k' c m m'"
  by (auto simp: uncounted_def)

lemma uncounted_more: "uncounted k c m m' \<Longrightarrow> k \<le> k' \<Longrightarrow> uncounted k' c m m'"
  by (auto simp: uncounted_def)

lemma uncounted_bindS:
  assumes "uncounted k c m m'" and "\<And>x t c'. m = (Inr x, t) \<Longrightarrow> uncounted k' c' (f x t) (g x (t, c'))"
  shows "uncounted (k + k') c (bindS m f) (bindS m' g)"
proof -
  obtain r t where m: "m = (r, t)" by (cases m)
  obtain c' where c: "m' = (r, t, c')" "c' \<le> c + k" using assms(1) m by (auto simp: uncounted_def)
  show ?thesis
  proof (cases r)
    case (Inr x)
    then show ?thesis using assms(2) [of x t c'] m c by (auto simp: uncounted_def)
  qed (use m c in \<open>simp add: uncounted_def\<close>)
qed

section \<open>The loops\<close>

lemma read_loop_counted:
  "uncounted (n - length out) c (read_loop rd n label i out s) (read_loop (counted rd) n label i out (s, c))"
proof (induction rd n label i out s arbitrary: c rule: read_loop.induct)
  case (1 rd n label i out s)
  obtain r t where rt: "rd (n - length out) s = (r, t)" by fastforce
  have call: "counted rd (n - length out) (s, c) = (r, t, Suc c)" using rt by (simp add: counted_def)
  show ?case
  proof (cases "length out < n")
    case False
    then show ?thesis by (subst (1 2) read_loop.simps) auto
  next
    case lt: True
    show ?thesis
    proof (cases "\<exists>b. r = Inr (Some b) \<and> b \<noteq> [] \<and> \<not> n - length out < length b")
      case True
      then obtain b where b: "r = Inr (Some b)" "b \<noteq> []" "\<not> n - length out < length b" by blast
      from b have "uncounted (n - length (out @ b)) (Suc c) (read_loop rd n label i (out @ b) t)
          (read_loop (counted rd) n label i (out @ b) (t, Suc c))"
        by (intro "1.IH" [OF lt rt [symmetric] b(1) refl]) auto
      then have "uncounted (n - length out) c (read_loop rd n label i (out @ b) t)
          (read_loop (counted rd) n label i (out @ b) (t, Suc c))"
        using b lt by (elim uncounted_next) (cases b; simp)
      then show ?thesis using lt b by (subst (1 2) read_loop.simps) (simp add: rt call)
    next
      case False
      then have "(\<exists>e. r = Inl e) \<or> r = Inr None \<or> (\<exists>b. r = Inr (Some b) \<and> (b = [] \<or> n - length out < length b))"
        by (metis option.exhaust sum.exhaust)
      then show ?thesis using lt
        by (subst (1 2) read_loop.simps) (elim disjE exE conjE; simp add: rt call)
    qed
  qed
qed

lemma write_loop_counted:
  "uncounted (length frame - offset) c (write_loop wr label frame offset s) (write_loop (counted wr) label frame offset (s, c))"
proof (induction wr label frame offset s arbitrary: c rule: write_loop.induct)
  case (1 wr label frame offset s)
  obtain r t where rt: "wr (drop offset frame) s = (r, t)" by fastforce
  have call: "counted wr (drop offset frame) (s, c) = (r, t, Suc c)" using rt by (simp add: counted_def)
  show ?case
  proof (cases "offset < length frame")
    case False
    then show ?thesis by (subst (1 2) write_loop.simps) auto
  next
    case lt: True
    show ?thesis
    proof (cases "\<exists>k. r = Inr (WInt k) \<and> \<not> (k \<le> 0 \<or> int (length frame - offset) < k)")
      case True
      then obtain k where k: "r = Inr (WInt k)" "\<not> (k \<le> 0 \<or> int (length frame - offset) < k)" by blast
      from "1.IH" [OF lt rt [symmetric] k(1) refl k(2), of "Suc c"]
      have "uncounted (length frame - offset) c (write_loop wr label frame (offset + nat k) t)
          (write_loop (counted wr) label frame (offset + nat k) (t, Suc c))"
        using k lt by (elim uncounted_next) linarith
      then show ?thesis using lt k by (subst (1 2) write_loop.simps) (simp add: rt call)
    next
      case False
      then have "(\<exists>e. r = Inl e) \<or> (\<exists>k. r = Inr (WInt k) \<and> (k \<le> 0 \<or> int (length frame - offset) < k))
          \<or> (\<exists>b. r = Inr (WBool b)) \<or> r = Inr WOther"
        by (metis wresult.exhaust sum.exhaust)
      then show ?thesis using lt
        by (subst (1 2) write_loop.simps) (elim disjE exE conjE; simp add: rt call)
    qed
  qed
qed

lemma read_frame_counted:
  "uncounted (HEADER_BYTES + max_bytes schema) c (read_frame lim schema rd s) (read_frame lim schema (counted rd) (s, c))"
proof -
  have r: "uncounted n c (read_exact rd n label False s) (read_exact (counted rd) n label False (s, c))" for n c label s
    using read_loop_counted [of n "[]"] by (simp add: read_exact_def)
  have p: "uncounted k c (x, t) (x, t, c)" for k c t and x :: "exn + (pystr \<times> json) list" by auto
  show ?thesis
    unfolding read_frame_def Let_def
  proof (rule uncounted_bindS [OF r])
    fix h t c
    show "uncounted (max_bytes schema) c
      (if unpack_u32 h = 0 \<or> max_bytes schema < unpack_u32 h
       then (Inl (FrameSizeError (frame_prefix schema @ '' frame size is invalid'')), t)
       else bindS (read_exact rd (unpack_u32 h) (stream_label schema) False t) (\<lambda>body s2.
           case decode_frame lim schema None (h @ body) of Inl e \<Rightarrow> (Inl e, s2)
           | Inr (decoded, consumed) \<Rightarrow> if consumed \<noteq> length h + length body
               then (Inl (FrameError (frame_prefix schema @ '' frame is invalid'')), s2) else (Inr decoded, s2)))
      (if unpack_u32 h = 0 \<or> max_bytes schema < unpack_u32 h
       then (Inl (FrameSizeError (frame_prefix schema @ '' frame size is invalid'')), t, c)
       else bindS (read_exact (counted rd) (unpack_u32 h) (stream_label schema) False (t, c)) (\<lambda>body s2.
           case decode_frame lim schema None (h @ body) of Inl e \<Rightarrow> (Inl e, s2)
           | Inr (decoded, consumed) \<Rightarrow> if consumed \<noteq> length h + length body
               then (Inl (FrameError (frame_prefix schema @ '' frame is invalid'')), s2) else (Inr decoded, s2)))"
    proof (cases "unpack_u32 h = 0 \<or> max_bytes schema < unpack_u32 h")
      case False
      then show ?thesis
        by (simp only: if_False, intro uncounted_more [OF uncounted_bindS [OF r, where k' = 0]])
          (auto split: sum.split intro: p)
    qed (simp add: p)
  qed
qed

section \<open>Properties\<close>

text \<open>
  C26. A peer cannot keep the framing code busy: on any stream object, whatever it returns, reading
  a frame ends after at most \<open>HEADER_BYTES + max_bytes\<close> calls of \<open>read\<close> and writing one after at
  most one call of \<open>write\<close> per byte (the counted stream behaves as the stream, and the counter
  says how often it was called).
\<close>

theorem frame_calls_bounded:
  "\<exists>reads writes. read_frame lim schema (counted rd) (s, 0) = (fst (read_frame lim schema rd s), snd (read_frame lim schema rd s), reads)
     \<and> reads \<le> HEADER_BYTES + max_bytes schema
     \<and> write_fully (counted wr) frame label (s', 0) = (fst (write_fully wr frame label s'), snd (write_fully wr frame label s'), writes)
     \<and> writes \<le> length frame"
  using read_frame_counted [of schema 0 lim rd s] write_loop_counted [of frame 0 0 wr label s']
  by (auto simp: uncounted_def write_fully_def)

end
