(* ===== verification/Egress_Runtime.thy ===== *)
theory Egress_Runtime
  imports Egress_Session Egress_Gateway Egress_Relay
begin

text \<open>
  \<open>src/agent_container/egress_broker_runtime.py\<close>: the broker's tunnels. Each client has a worker
  thread running \<open>_handle_client\<close>; workers share the session and the reservations, each access
  under a lock. A worker is a record whose phase says which call of the handler comes next, so
  that threads interleave call by call; what the calls outside the program return is given by an
  observation.
\<close>

section \<open>Reservations\<close>

definition MAX_ACTIVE_TUNNELS :: nat where
  "MAX_ACTIVE_TUNNELS = 32"

definition MAX_CREATED_TUNNELS :: nat where
  "MAX_CREATED_TUNNELS = 128"

record tunnel_limits =
  next_reservation :: nat
  active_reservations :: "nat set"
  created_reservations :: "nat set"
  created_tunnels :: nat

definition no_tunnels :: tunnel_limits where
  "no_tunnels = \<lparr>next_reservation = 1, active_reservations = {}, created_reservations = {}, created_tunnels = 0\<rparr>"

definition reserve_tunnel :: "tunnel_limits \<Rightarrow> (exn + nat) \<times> tunnel_limits" where
  "reserve_tunnel l =
     (let pending_creations = card (active_reservations l - created_reservations l) in
      if MAX_ACTIVE_TUNNELS \<le> card (active_reservations l)
        \<or> MAX_CREATED_TUNNELS \<le> created_tunnels l + pending_creations
      then (Inl (ValueError ''egress tunnel limit reached''), l)
      else (Inr (next_reservation l),
            l\<lparr>next_reservation := next_reservation l + 1,
              active_reservations := insert (next_reservation l) (active_reservations l)\<rparr>))"

definition reservation_invalid :: exn where
  "reservation_invalid = ValueError ''egress tunnel reservation is invalid''"

definition mark_tunnel_created :: "nat \<Rightarrow> tunnel_limits \<Rightarrow> (exn + unit) \<times> tunnel_limits" where
  "mark_tunnel_created r l =
     (if r \<notin> active_reservations l \<or> r \<in> created_reservations l \<or> MAX_CREATED_TUNNELS \<le> created_tunnels l
      then (Inl reservation_invalid, l)
      else (Inr (), l\<lparr>created_reservations := insert r (created_reservations l),
                      created_tunnels := created_tunnels l + 1\<rparr>))"

definition release_tunnel :: "nat \<Rightarrow> tunnel_limits \<Rightarrow> (exn + unit) \<times> tunnel_limits" where
  "release_tunnel r l =
     (if r \<notin> active_reservations l then (Inl reservation_invalid, l)
      else (Inr (), l\<lparr>active_reservations := active_reservations l - {r},
                      created_reservations := created_reservations l - {r}\<rparr>))"

section \<open>One client\<close>

text \<open>
  The calls of the handler: \<open>Refusing s g\<close> is about to answer status \<open>s\<close> with code \<open>g\<close>,
  \<open>Auditing\<close> to write the audit entry, \<open>Closing r\<close> to run the \<open>finally\<close> block with outcome \<open>r\<close>.
\<close>

datatype tunnel_phase =
    Greeting
  | Reserving pystr
  | Resolving pystr
  | Connecting pystr ResolvedTarget
  | Marking
  | Announcing
  | Relaying
  | Refusing pystr pystr
  | Auditing pystr "pystr option" "(nat \<times> nat) option"
  | Closing "exn + unit"
  | Finished "exn + unit"

record worker =
  wk_uid :: int
  wk_phase :: tunnel_phase
  wk_reservation :: "nat option"
  wk_upstream :: bool

definition new_worker :: "int \<Rightarrow> worker" where
  "new_worker uid = \<lparr>wk_uid = uid, wk_phase = Greeting, wk_reservation = None, wk_upstream = False\<rparr>"

text \<open>What happens outside while a call runs; \<open>ob_wire\<close> is the state of the two connections.\<close>

record 's observation =
  ob_request :: "exn + EgressRequest"
  ob_sent :: "exn + unit"
  ob_resolver :: "pystr \<Rightarrow> exn + answers"
  ob_connect :: "ResolvedTarget \<Rightarrow> 's \<Rightarrow> (exn + unit) \<times> 's"
  ob_peername :: "'s \<Rightarrow> (exn + pyval) \<times> 's"
  ob_shut :: "'s \<Rightarrow> 's"
  ob_env :: "'s relay_env"
  ob_wire :: 's
  ob_now :: pystr
  ob_log :: "exn + unit"
  ob_upstream_closed :: "exn + unit"
  ob_stream_closed :: "exn + unit"

text \<open>What a worker does, as seen from outside: \<open>Resolved d\<close> is a call of the resolver for \<open>d\<close>, whatever it gives.\<close>

datatype tunnel_event =
    Granted EgressRequest
  | Resolved pystr
  | Answered pystr pystr
  | Audited "(pystr \<times> json) list"
  | Dialled pystr ResolvedTarget
  | Relayed nat nat

text \<open>\<open>RelayLimits()\<close>, in clock ticks.\<close>

definition default_limits :: "int \<Rightarrow> RelayLimits" where
  "default_limits second = \<lparr>maximum_bytes_per_direction = push_bit 31 1, idle_timeout = 300 * second,
     lifetime = 7200 * second, chunk_bytes = 65536\<rparr>"

definition at_phase :: "worker \<Rightarrow> tunnel_phase \<Rightarrow> worker" where
  "at_phase w p = w\<lparr>wk_phase := p\<rparr>"

text \<open>\<open>_write_response\<close>; the answer counts as given once it is handed to the stream.\<close>

definition write_answer :: "'s observation \<Rightarrow> pystr \<Rightarrow> pystr \<Rightarrow> (exn + unit) \<times> tunnel_event list" where
  "write_answer ob status code =
     (case encode_response_frame \<lparr>rs_version = PROTOCOL_VERSION, rs_status = status, rs_code = code\<rparr> of
        Inl e \<Rightarrow> (Inl e, [])
      | Inr frame \<Rightarrow> (ob_sent ob, [Answered status code]))"

definition audit_tunnel ::
  "'s observation \<Rightarrow> pystr \<Rightarrow> EgressBrokerSession \<Rightarrow> pystr \<Rightarrow> pystr option \<Rightarrow> (nat \<times> nat) option
     \<Rightarrow> (exn + unit) \<times> tunnel_event list" where
  "audit_tunnel ob run_label s status stage counts =
     audit (\<lambda>record events. (ob_log ob, events @ [Audited record])) (ob_now ob) run_label s status stage
       (map_option (int \<circ> fst) counts) (map_option (int \<circ> snd) counts) []"

text \<open>
  The \<open>finally\<close> block: an exception in it replaces the outcome and skips the rest.
\<close>

definition close_tunnel ::
  "'s observation \<Rightarrow> worker \<Rightarrow> tunnel_limits \<Rightarrow> exn + unit \<Rightarrow> (exn + unit) \<times> tunnel_limits" where
  "close_tunnel ob w l outcome =
     bindS (if wk_upstream w then ob_upstream_closed ob else Inr (), l) (\<lambda>_ l.
     bindS (case wk_reservation w of None \<Rightarrow> (Inr (), l) | Some r \<Rightarrow> release_tunnel r l) (\<lambda>_ l.
     bindS (ob_stream_closed ob, l) (\<lambda>_ l.
     (outcome, l))))"

text \<open>One call. A relay that does not return leaves its worker where it is.\<close>

definition handle_client ::
  "pystr \<Rightarrow> int \<Rightarrow> 's observation \<Rightarrow> worker \<Rightarrow> EgressBrokerSession \<times> tunnel_limits
     \<Rightarrow> worker \<times> (EgressBrokerSession \<times> tunnel_limits) \<times> tunnel_event list" where
  "handle_client run_label second ob w sl =
     (case sl of (s, l) \<Rightarrow>
      (case wk_phase w of
         Greeting \<Rightarrow>
           (case (case ob_request ob of
                    Inl e \<Rightarrow> (Inl e, s)
                  | Inr request \<Rightarrow> authorize request (wk_uid w) s) of
              (Inl e, s1) \<Rightarrow>
                (if is_os_error e \<or> is_value_error e
                 then at_phase w (Refusing (u ''denied'')
                        (if e = EgressAuthorizationError ''policy'' then u ''policy'' else u ''authentication''))
                 else at_phase w (Closing (Inl e)), (s1, l), [])
            | (Inr domain, s1) \<Rightarrow> (at_phase w (Reserving domain), (s1, l), [Granted (projr (ob_request ob))]))
       | Reserving domain \<Rightarrow>
           (case reserve_tunnel l of
              (Inl e, l1) \<Rightarrow> (at_phase w (Refusing (u ''denied'') (u ''limit'')), (s, l1), [])
            | (Inr r, l1) \<Rightarrow> ((at_phase w (Resolving domain))\<lparr>wk_reservation := Some r\<rparr>, (s, l1), []))
       | Resolving domain \<Rightarrow>
           (case resolve_target (ob_resolver ob) domain of
              Inl e \<Rightarrow>
                (at_phase w (if is_value_error e then Refusing (u ''denied'') (u ''resolve'') else Closing (Inl e)),
                 (s, l), [Resolved domain])
            | Inr targets \<Rightarrow> (at_phase w (Connecting domain (hd targets)), (s, l), [Resolved domain]))
       | Connecting domain target \<Rightarrow>
           (case connect_target (ob_connect ob) (ob_peername ob) (ob_shut ob) target (ob_wire ob) of
              (Inl e, _) \<Rightarrow>
                (at_phase w (if is_value_error e then Refusing (u ''error'') (u ''connect'') else Closing (Inl e)),
                 (s, l), [Dialled domain target])
            | (Inr _, _) \<Rightarrow> ((at_phase w Marking)\<lparr>wk_upstream := True\<rparr>, (s, l), [Dialled domain target]))
       | Marking \<Rightarrow>
           (case mark_tunnel_created (the (wk_reservation w)) l of
              (Inl e, l1) \<Rightarrow> (at_phase w (Closing (Inl e)), (s, l1), [])
            | (Inr _, l1) \<Rightarrow> (at_phase w Announcing, (s, l1), []))
       | Announcing \<Rightarrow>
           (case write_answer ob (u ''ok'') (u ''connect'') of
              (Inl e, events) \<Rightarrow> (at_phase w (Closing (Inl e)), (s, l), events)
            | (Inr _, events) \<Rightarrow> (at_phase w Relaying, (s, l), events))
       | Relaying \<Rightarrow>
           (case relay_tunnel (ob_env ob) (default_limits second) (ob_wire ob) of
              None \<Rightarrow> (w, (s, l), [])
            | Some (Inl e, _) \<Rightarrow>
                (at_phase w (if is_value_error e then Auditing (u ''error'') (Some (u ''relay'')) None
                             else Closing (Inl e)), (s, l), [])
            | Some (Inr counts, _) \<Rightarrow>
                (at_phase w (Auditing (u ''ok'') None (Some counts)), (s, l), [Relayed (fst counts) (snd counts)]))
       | Refusing status code \<Rightarrow>
           (case write_answer ob status code of
              (Inl e, events) \<Rightarrow> (at_phase w (Closing (Inl e)), (s, l), events)
            | (Inr _, events) \<Rightarrow> (at_phase w (Auditing status (Some code) None), (s, l), events))
       | Auditing status stage counts \<Rightarrow>
           (case audit_tunnel ob run_label s status stage counts of
              (r, events) \<Rightarrow> (at_phase w (Closing r), (s, l), events))
       | Closing outcome \<Rightarrow>
           (case close_tunnel ob w l outcome of
              (r, l1) \<Rightarrow> (at_phase w (Finished r), (s, l1), []))
       | Finished outcome \<Rightarrow> (w, (s, l), [])))"

section \<open>The broker\<close>

record tunnel_broker =
  tb_session :: EgressBrokerSession
  tb_limits :: tunnel_limits
  tb_workers :: "nat \<rightharpoonup> worker"
  tb_log :: "(nat \<times> tunnel_event) list"

definition new_tunnel_broker :: "EgressBrokerSession \<Rightarrow> tunnel_broker" where
  "new_tunnel_broker s = \<lparr>tb_session = s, tb_limits = no_tunnels, tb_workers = Map.empty, tb_log = []\<rparr>"

text \<open>
  A client is accepted, some worker makes its next call, or the runtime deactivates the session;
  \<open>world\<close> holds the observations that can be made.
\<close>

inductive tunnel_step :: "'s observation set \<Rightarrow> pystr \<Rightarrow> int \<Rightarrow> tunnel_broker \<Rightarrow> tunnel_broker \<Rightarrow> bool"
  for world run_label second where
  accept: "tb_workers b i = None \<Longrightarrow>
     tunnel_step world run_label second b (b\<lparr>tb_workers := (tb_workers b)(i \<mapsto> new_worker uid)\<rparr>)"
| work: "tb_workers b i = Some w \<Longrightarrow>
     ob \<in> world \<Longrightarrow>
     handle_client run_label second ob w (tb_session b, tb_limits b) = (w', (s, l), events) \<Longrightarrow>
     tunnel_step world run_label second b
       (b\<lparr>tb_session := s, tb_limits := l, tb_workers := (tb_workers b)(i \<mapsto> w'),
          tb_log := tb_log b @ map (Pair i) events\<rparr>)"
| deactivated: "tunnel_step world run_label second b (b\<lparr>tb_session := deactivate (tb_session b)\<rparr>)"

end
