(* ===== verification/Tunnel_Safety.thy ===== *)
theory Tunnel_Safety
  imports Egress_Runtime
begin

text \<open>
  What the tunnels of \<open>src/agent_container/egress_broker_runtime.py\<close> keep in every interleaving of
  their workers: the limits, and the story of each client.
\<close>

section \<open>The story of a client\<close>

definition dialled_story :: "tunnel_event list \<Rightarrow> bool" where
  "dialled_story es \<longleftrightarrow> (\<exists>q t. es = [Granted q, Resolved (rq_domain q), Dialled (rq_domain q) t] \<and> admitted t)"

definition relay_story :: "tunnel_event list \<Rightarrow> bool" where
  "relay_story es \<longleftrightarrow> (\<exists>es'. es = es' @ [Answered (u ''ok'') (u ''connect'')] \<and> dialled_story es')"

definition refused_story :: "pystr \<Rightarrow> pystr \<Rightarrow> tunnel_event list \<Rightarrow> bool" where
  "refused_story status code es \<longleftrightarrow>
     status = u ''denied'' \<and> code \<in> {u ''policy'', u ''authentication''} \<and> es = []
   \<or> status = u ''denied'' \<and> code = u ''limit'' \<and> (\<exists>q. es = [Granted q])
   \<or> status = u ''denied'' \<and> code = u ''resolve'' \<and> (\<exists>q. es = [Granted q, Resolved (rq_domain q)])
   \<or> status = u ''error'' \<and> code = u ''connect'' \<and> dialled_story es"

text \<open>
  All a client can live through: a refusal that is answered and audited, or a tunnel to an admitted
  target that is announced, relayed and audited.
\<close>

definition audited_story :: "tunnel_event list \<Rightarrow> bool" where
  "audited_story es \<longleftrightarrow> (\<exists>es' record. es = es' @ [Audited record] \<and>
     ((\<exists>status code es0. refused_story status code es0 \<and> es' = es0 @ [Answered status code])
      \<or> relay_story es' \<or> (\<exists>es0 a b. relay_story es0 \<and> es' = es0 @ [Relayed a b])))"

definition partial_story :: "tunnel_event list \<Rightarrow> bool" where
  "partial_story es \<longleftrightarrow> (\<exists>rest. audited_story (es @ rest))"

fun story :: "tunnel_phase \<Rightarrow> tunnel_event list \<Rightarrow> bool" where
  "story Greeting es \<longleftrightarrow> es = []"
| "story (Reserving d) es \<longleftrightarrow> (\<exists>q. es = [Granted q] \<and> rq_domain q = d)"
| "story (Resolving d) es \<longleftrightarrow> (\<exists>q. es = [Granted q] \<and> rq_domain q = d)"
| "story (Connecting d t) es \<longleftrightarrow> (\<exists>q. es = [Granted q, Resolved d] \<and> rq_domain q = d) \<and> admitted t"
| "story Marking es \<longleftrightarrow> dialled_story es"
| "story Announcing es \<longleftrightarrow> dialled_story es"
| "story Relaying es \<longleftrightarrow> relay_story es"
| "story (Refusing status code) es \<longleftrightarrow> refused_story status code es"
| "story (Auditing status stage counts) es \<longleftrightarrow> (\<forall>record. audited_story (es @ [Audited record]))"
| "story (Closing r) es \<longleftrightarrow> partial_story es"
| "story (Finished r) es \<longleftrightarrow> partial_story es"

lemma partial_append: "partial_story (es @ es') \<Longrightarrow> partial_story es"
  by (auto simp: partial_story_def)

lemma audited_partial: "audited_story es \<Longrightarrow> partial_story es"
  unfolding partial_story_def by (metis append_Nil2)

lemma audited_snoc: "audited_story (es @ [Audited record]) \<longleftrightarrow>
    (\<exists>status code es0. refused_story status code es0 \<and> es = es0 @ [Answered status code])
      \<or> relay_story es \<or> (\<exists>es0 a b. relay_story es0 \<and> es = es0 @ [Relayed a b])"
  by (auto simp: audited_story_def)

lemma audited_intros:
  "relay_story es \<Longrightarrow> audited_story (es @ [Audited record])"
  "relay_story es \<Longrightarrow> audited_story ((es @ [Relayed a b]) @ [Audited record])"
  "refused_story status code es \<Longrightarrow> audited_story ((es @ [Answered status code]) @ [Audited record])"
  by (simp_all only: audited_snoc) blast+

lemma partial_intros:
  "relay_story es \<Longrightarrow> partial_story es"
  "relay_story es \<Longrightarrow> partial_story (es @ [Relayed a b])"
  "refused_story status code es \<Longrightarrow> partial_story (es @ [Answered status code])"
  by (rule partial_append [OF audited_partial]; erule audited_intros)+

lemma refused_partial: "refused_story status code es \<Longrightarrow> partial_story es"
  by (rule partial_append [OF partial_intros(3)])

lemma dialled_relay: "dialled_story es \<Longrightarrow> relay_story (es @ [Answered (u ''ok'') (u ''connect'')])"
  by (auto simp: relay_story_def)

lemma dialled_partial: "dialled_story es \<Longrightarrow> partial_story es"
  using dialled_relay partial_intros(1) partial_append by blast

lemma granted_partial: "partial_story [Granted q]" "partial_story []"
proof -
  have "refused_story (u ''denied'') (u ''limit'') [Granted q]" by (auto simp: refused_story_def)
  then show "partial_story [Granted q]" by (rule refused_partial)
  then show "partial_story []" by (metis append_Nil partial_append)
qed

lemma resolved_partial: "partial_story [Granted q, Resolved (rq_domain q)]"
proof -
  have "refused_story (u ''denied'') (u ''resolve'') [Granted q, Resolved (rq_domain q)]" by (auto simp: refused_story_def)
  then show ?thesis by (rule refused_partial)
qed

lemma story_partial: "story p es \<Longrightarrow> partial_story es"
  using granted_partial resolved_partial dialled_partial partial_intros(1) refused_partial partial_append [OF audited_partial]
  by (cases p) (auto, blast)

lemma audited_shape:
  assumes "audited_story es"
  obtains status code entry where "es = [Answered status code, Audited entry]"
  | q status code entry where "es = [Granted q, Answered status code, Audited entry]"
  | q status code entry where "es = [Granted q, Resolved (rq_domain q), Answered status code, Audited entry]"
  | q t status code entry where "es = [Granted q, Resolved (rq_domain q), Dialled (rq_domain q) t, Answered status code, Audited entry]"
      "admitted t"
  | q t m n entry where "es = [Granted q, Resolved (rq_domain q), Dialled (rq_domain q) t, Answered (u ''ok'') (u ''connect''),
      Relayed m n, Audited entry]" "admitted t"
  using assms unfolding audited_story_def refused_story_def relay_story_def dialled_story_def by fastforce

text \<open>What a client's part of the log shows, however far the client has got.\<close>

definition events_granted :: "tunnel_event list \<Rightarrow> bool" where
  "events_granted es \<longleftrightarrow>
     (\<forall>d. Resolved d \<in> set es \<longrightarrow> (\<exists>q. Granted q \<in> set es \<and> rq_domain q = d))
     \<and> (\<forall>d t. Dialled d t \<in> set es \<longrightarrow> Resolved d \<in> set es \<and> admitted t)
     \<and> (\<forall>m n. Relayed m n \<in> set es \<longrightarrow> (\<exists>d t. Dialled d t \<in> set es))"

lemma partial_granted:
  assumes "partial_story es"
  shows "events_granted es"
proof -
  obtain rest where "audited_story (es @ rest)" using assms by (auto simp: partial_story_def)
  then show ?thesis
    by (cases rule: audited_shape) (auto simp: events_granted_def append_eq_Cons_conv)
qed

lemma write_answer_cases:
  assumes "write_answer ob status code = (r, events)"
  shows "events = [Answered status code] \<or> events = [] \<and> (\<exists>e. r = Inl e)"
  using assms by (auto simp: write_answer_def split: sum.split_asm)

lemma audit_tunnel_cases:
  assumes "audit_tunnel ob run_label s status stage counts = (r, events)"
  shows "events = [] \<or> (\<exists>record. events = [Audited record])"
  using assms by (auto simp: audit_tunnel_def audit_def bindS_def split: sum.split_asm)

lemma handle_client_story:
  assumes st: "story (wk_phase w) es" and h: "handle_client run_label second ob w (s, l) = (w', sl', events)"
  shows "story (wk_phase w') (es @ events)"
proof (cases "wk_phase w")
  case Greeting
  then show ?thesis using st h
    by (auto simp: handle_client_def at_phase_def refused_story_def granted_partial dest: authorize_grant
        split: sum.split_asm prod.split_asm if_split_asm)
next
  case (Reserving d)
  then show ?thesis using st h
    by (auto simp: handle_client_def at_phase_def refused_story_def split: sum.split_asm prod.split_asm)
next
  case (Resolving d)
  then show ?thesis using st h
    by (auto simp: handle_client_def at_phase_def refused_story_def resolved_partial split: sum.split_asm)
      (metis list.pred_set hd_in_set resolve_target_admitted)
next
  case (Connecting d t)
  then obtain q where q: "es = [Granted q, Resolved d]" "rq_domain q = d" "admitted t" using st by auto
  then have "dialled_story (es @ [Dialled d t])" by (auto simp: dialled_story_def)
  with Connecting h show ?thesis
    by (auto simp: handle_client_def at_phase_def refused_story_def dialled_partial split: sum.split_asm prod.split_asm)
next
  case Marking
  then show ?thesis using st h
    by (auto simp: handle_client_def at_phase_def dialled_partial split: sum.split_asm prod.split_asm)
next
  case Announcing
  then show ?thesis using st h dialled_relay partial_intros(1)
    by (auto simp: handle_client_def at_phase_def dialled_partial split: sum.split_asm prod.split_asm
        dest!: write_answer_cases)
next
  case Relaying
  then show ?thesis using st h partial_intros(1) audited_intros(1,2)
    by (auto simp: handle_client_def at_phase_def split: sum.split_asm prod.split_asm option.split_asm)
next
  case (Refusing status code)
  then show ?thesis using st h partial_intros(3) refused_partial audited_intros(3)
    by (auto simp: handle_client_def at_phase_def split: sum.split_asm prod.split_asm dest!: write_answer_cases)
next
  case (Auditing status stage counts)
  then have "\<And>record. partial_story (es @ [Audited record])" "partial_story es"
    using st audited_partial partial_append by auto
  with Auditing h show ?thesis
    by (auto simp: handle_client_def at_phase_def split: prod.split_asm dest!: audit_tunnel_cases)
next
  case (Closing r)
  then show ?thesis using st h by (auto simp: handle_client_def at_phase_def split: prod.split_asm)
next
  case (Finished r)
  then show ?thesis using st h by (auto simp: handle_client_def)
qed

section \<open>Every interleaving\<close>

abbreviation tunnel_steps :: "'s observation set \<Rightarrow> pystr \<Rightarrow> int \<Rightarrow> tunnel_broker \<Rightarrow> tunnel_broker \<Rightarrow> bool" where
  "tunnel_steps world run_label second \<equiv> (tunnel_step world run_label second)\<^sup>*\<^sup>*"

definition client_log :: "tunnel_broker \<Rightarrow> nat \<Rightarrow> tunnel_event list" where
  "client_log b i = map snd (filter (\<lambda>x. fst x = i) (tb_log b))"

definition stories :: "tunnel_broker \<Rightarrow> bool" where
  "stories b \<longleftrightarrow> (\<forall>i. (tb_workers b i = None \<longrightarrow> client_log b i = [])
     \<and> (\<forall>w. tb_workers b i = Some w \<longrightarrow> story (wk_phase w) (client_log b i)))"

lemma client_log_append:
  "client_log (b\<lparr>tb_session := s, tb_limits := l, tb_workers := ws, tb_log := tb_log b @ map (Pair i) events\<rparr>) j
     = client_log b j @ (if j = i then events else [])"
  by (auto simp: client_log_def filter_map comp_def)

lemma step_stories:
  "tunnel_step world run_label second b b' \<Longrightarrow> stories b \<Longrightarrow> stories b'"
proof (induction rule: tunnel_step.induct)
  case (accept b i uid)
  have l: "client_log (b\<lparr>tb_workers := ws\<rparr>) = client_log b" for ws by (simp add: client_log_def fun_eq_iff)
  from accept show ?case unfolding stories_def l by (auto simp: new_worker_def)
next
  case (work b i w ob w' s l events)
  then have "story (wk_phase w) (client_log b i)" by (simp add: stories_def)
  with work.hyps(3) have "story (wk_phase w') (client_log b i @ events)" by (rule handle_client_story [rotated])
  with work show ?case unfolding stories_def client_log_append by simp
next
  case (deactivated b)
  then show ?case by (simp add: stories_def client_log_def)
qed

lemma steps_stories: "tunnel_steps world run_label second (new_tunnel_broker s) b \<Longrightarrow> stories b"
  by (induction rule: rtranclp_induct)
    (simp_all add: step_stories, simp add: stories_def new_tunnel_broker_def client_log_def)

lemma in_client_log: "e \<in> set (client_log b i) \<longleftrightarrow> (i, e) \<in> set (tb_log b)"
  by (force simp: client_log_def)

lemma steps_partial:
  assumes "tunnel_steps world run_label second (new_tunnel_broker s) b"
  shows "partial_story (client_log b i)"
  using steps_stories [OF assms] granted_partial(2) story_partial unfolding stories_def by (metis option.exhaust)

section \<open>The limits\<close>

definition unfinished :: "worker \<Rightarrow> bool" where
  "unfinished w \<longleftrightarrow> (\<forall>r. wk_phase w \<noteq> Finished r)"

text \<open>What a worker holds in each phase.\<close>

definition holds :: "tunnel_limits \<Rightarrow> worker \<Rightarrow> bool" where
  "holds l w \<longleftrightarrow>
     (case wk_phase w of
        Greeting \<Rightarrow> wk_reservation w = None \<and> \<not> wk_upstream w
      | Reserving _ \<Rightarrow> wk_reservation w = None \<and> \<not> wk_upstream w
      | Resolving _ \<Rightarrow> \<not> wk_upstream w \<and> (\<exists>r. wk_reservation w = Some r \<and> r \<in> active_reservations l - created_reservations l)
      | Connecting _ _ \<Rightarrow> \<not> wk_upstream w \<and> (\<exists>r. wk_reservation w = Some r \<and> r \<in> active_reservations l - created_reservations l)
      | Marking \<Rightarrow> (\<exists>r. wk_reservation w = Some r \<and> r \<in> active_reservations l - created_reservations l)
      | Announcing \<Rightarrow> (\<exists>r. wk_reservation w = Some r \<and> r \<in> created_reservations l)
      | Relaying \<Rightarrow> (\<exists>r. wk_reservation w = Some r \<and> r \<in> created_reservations l)
      | Finished _ \<Rightarrow> True
      | Refusing status _ \<Rightarrow> status \<noteq> u ''ok'' \<and> (wk_upstream w \<longrightarrow> wk_reservation w \<noteq> None)
          \<and> (\<forall>r. wk_reservation w = Some r \<longrightarrow> r \<in> active_reservations l)
      | _ \<Rightarrow> (wk_upstream w \<longrightarrow> wk_reservation w \<noteq> None)
          \<and> (\<forall>r. wk_reservation w = Some r \<longrightarrow> r \<in> active_reservations l))"

definition limits_ok :: "tunnel_limits \<Rightarrow> bool" where
  "limits_ok l \<longleftrightarrow> finite (active_reservations l) \<and> created_reservations l \<subseteq> active_reservations l
     \<and> (\<forall>r \<in> active_reservations l. r < next_reservation l) \<and> card (active_reservations l) \<le> MAX_ACTIVE_TUNNELS
     \<and> created_tunnels l + card (active_reservations l - created_reservations l) \<le> MAX_CREATED_TUNNELS"

text \<open>
  A step of one worker: the limits stay good, its own holding is as its new phase says, other
  reservations are untouched, and a reservation it takes is new.
\<close>

definition apart :: "nat option \<Rightarrow> tunnel_limits \<Rightarrow> tunnel_limits \<Rightarrow> bool" where
  "apart r l l' \<longleftrightarrow> (\<forall>x. Some x \<noteq> r \<longrightarrow> x \<in> active_reservations l \<longrightarrow>
     x \<in> active_reservations l' \<and> (x \<in> created_reservations l' \<longleftrightarrow> x \<in> created_reservations l))"

lemma reserve_limits:
  assumes "limits_ok l" and "reserve_tunnel l = (Inr r, l')"
  shows "limits_ok l'" and "r \<in> active_reservations l' - created_reservations l'" and "r \<notin> active_reservations l"
    and "apart None l l'" and "created_tunnels l' = created_tunnels l"
proof -
  let ?A = "active_reservations l" and ?C = "created_reservations l"
  have r: "r = next_reservation l" "l' = l\<lparr>next_reservation := next_reservation l + 1, active_reservations := insert r ?A\<rparr>"
    "card ?A < MAX_ACTIVE_TUNNELS" "created_tunnels l + card (?A - ?C) < MAX_CREATED_TUNNELS"
    using assms(2) by (auto simp: reserve_tunnel_def Let_def split: if_split_asm)
  have n: "r \<notin> ?A" "r \<notin> ?C" using assms(1) r(1) by (auto simp: limits_ok_def)
  then have d: "insert r ?A - ?C = insert r (?A - ?C)" by blast
  then have "card (insert r ?A - ?C) = card (?A - ?C) + 1" "card (insert r ?A) = card ?A + 1"
    using n assms(1) by (simp_all add: limits_ok_def)
  then show "limits_ok l'" using assms(1) r(1,3,4) n unfolding r(2) limits_ok_def by (auto simp: less_Suc_eq)
  show "r \<in> active_reservations l' - created_reservations l'" "r \<notin> ?A" "apart None l l'"
    "created_tunnels l' = created_tunnels l"
    using r n by (auto simp: apart_def)
qed

lemma mark_limits:
  assumes "limits_ok l" and "r \<in> active_reservations l - created_reservations l"
  obtains l' where "mark_tunnel_created r l = (Inr (), l')" and "limits_ok l'" and "r \<in> created_reservations l'"
    and "apart (Some r) l l'" and "created_tunnels l' = created_tunnels l + 1"
proof -
  let ?A = "active_reservations l" and ?C = "created_reservations l"
  have f: "finite (?A - ?C)" using assms(1) by (simp add: limits_ok_def)
  then have c: "card (?A - insert r ?C) + 1 = card (?A - ?C)"
    using card_Suc_Diff1 [OF f assms(2)] by (simp add: Diff_insert [of ?A r ?C])
  then have "created_tunnels l < MAX_CREATED_TUNNELS" using assms(1) by (simp add: limits_ok_def)
  moreover have "limits_ok (l\<lparr>created_reservations := insert r ?C, created_tunnels := created_tunnels l + 1\<rparr>)"
    using assms c unfolding limits_ok_def by simp
  ultimately show thesis
    using assms(2)
    by (intro that [of "l\<lparr>created_reservations := insert r ?C, created_tunnels := created_tunnels l + 1\<rparr>"])
      (auto simp: mark_tunnel_created_def apart_def)
qed

lemma release_limits:
  assumes "limits_ok l" and "r \<in> active_reservations l"
  obtains l' where "release_tunnel r l = (Inr (), l')" and "limits_ok l'" and "apart (Some r) l l'"
    and "created_tunnels l' = created_tunnels l"
proof -
  let ?A = "active_reservations l" and ?C = "created_reservations l"
  have "card (?A - {r}) \<le> card ?A" "card (?A - {r} - (?C - {r})) \<le> card (?A - ?C)"
    using assms by (auto simp: limits_ok_def intro: card_mono)
  then have "limits_ok (l\<lparr>active_reservations := ?A - {r}, created_reservations := ?C - {r}\<rparr>)"
    using assms by (auto simp: limits_ok_def)
  then show thesis using assms(2)
    by (intro that [of "l\<lparr>active_reservations := ?A - {r}, created_reservations := ?C - {r}\<rparr>"])
      (auto simp: release_tunnel_def apart_def)
qed

text \<open>What a step of one worker does to the limits and to what it holds.\<close>

definition announces :: "tunnel_event \<Rightarrow> bool" where
  "announces e \<longleftrightarrow> e = Answered (u ''ok'') (u ''connect'')"

definition worker_progress :: "worker \<Rightarrow> tunnel_limits \<Rightarrow> worker \<Rightarrow> tunnel_limits \<Rightarrow> tunnel_event list \<Rightarrow> bool" where
  "worker_progress w l w' l' events \<longleftrightarrow> limits_ok l' \<and> holds l' w'
     \<and> apart (if unfinished w then wk_reservation w else None) l l'
     \<and> (unfinished w' \<longrightarrow> unfinished w \<and> (wk_reservation w' = wk_reservation w
          \<or> wk_reservation w = None \<and> (\<exists>r. wk_reservation w' = Some r \<and> r \<notin> active_reservations l)))
     \<and> created_tunnels l + length (filter announces events) + of_bool (wk_phase w' = Announcing)
        \<le> created_tunnels l' + of_bool (wk_phase w = Announcing)"

lemma apart_refl [simp]: "apart r l l"
  by (simp add: apart_def)

lemma close_limits:
  assumes "limits_ok l" and "holds l w" and "wk_phase w = Closing r0" and "close_tunnel ob w l outcome = (r, l')"
  shows "limits_ok l' \<and> apart (wk_reservation w) l l' \<and> created_tunnels l' = created_tunnels l"
proof (cases "wk_reservation w")
  case None
  with assms show ?thesis by (auto simp: close_tunnel_def bindS_def split: sum.split_asm)
next
  case (Some x)
  then have "x \<in> active_reservations l" using assms(2,3) by (simp add: holds_def)
  from release_limits [OF assms(1) this] obtain l1 where "release_tunnel x l = (Inr (), l1)" "limits_ok l1"
    "apart (Some x) l l1" "created_tunnels l1 = created_tunnels l" by blast
  with assms Some show ?thesis by (auto simp: close_tunnel_def bindS_def split: sum.split_asm if_split_asm)
qed

lemma handle_client_limits:
  assumes l: "limits_ok l" and w: "holds l w"
    and h: "handle_client run_label second ob w (s, l) = (w', (s', l'), events)"
  shows "worker_progress w l w' l' events"
proof (cases "wk_phase w")
  case Greeting
  with l w h show ?thesis
    by (auto simp: worker_progress_def handle_client_def at_phase_def holds_def unfinished_def announces_def
        split: sum.split_asm prod.split_asm if_split_asm)
next
  case (Reserving d)
  obtain r l1 where rl: "reserve_tunnel l = (r, l1)" by fastforce
  show ?thesis
  proof (cases r)
    case (Inl e)
    then have "l1 = l" using rl by (auto simp: reserve_tunnel_def Let_def split: if_split_asm)
    with Reserving Inl rl l w h show ?thesis
      by (auto simp: worker_progress_def handle_client_def at_phase_def holds_def unfinished_def announces_def)
  next
    case (Inr x)
    note n = reserve_limits [OF l rl [unfolded Inr]]
    from Reserving Inr rl w h n show ?thesis
      by (auto simp: worker_progress_def handle_client_def at_phase_def holds_def unfinished_def announces_def)
  qed
next
  case (Resolving d)
  with l w h show ?thesis
    by (auto simp: worker_progress_def handle_client_def at_phase_def holds_def unfinished_def announces_def
        split: sum.split_asm if_split_asm)
next
  case (Connecting d t)
  with l w h show ?thesis
    by (auto simp: worker_progress_def handle_client_def at_phase_def holds_def unfinished_def announces_def
        split: sum.split_asm if_split_asm prod.split_asm)
next
  case Marking
  then obtain r where r: "wk_reservation w = Some r" "r \<in> active_reservations l - created_reservations l"
    using w by (auto simp: holds_def)
  from mark_limits [OF l r(2)] obtain l1 where "mark_tunnel_created r l = (Inr (), l1)" "limits_ok l1"
    "r \<in> created_reservations l1" "apart (Some r) l l1" "created_tunnels l1 = created_tunnels l + 1" by blast
  with Marking r h show ?thesis
    by (auto simp: worker_progress_def handle_client_def at_phase_def holds_def unfinished_def announces_def)
next
  case Announcing
  then obtain r where "wk_reservation w = Some r" "r \<in> active_reservations l" "r \<in> created_reservations l"
    using w l by (auto simp: holds_def limits_ok_def)
  with Announcing l h show ?thesis
    by (auto simp: worker_progress_def handle_client_def at_phase_def holds_def unfinished_def announces_def
        split: sum.split_asm prod.split_asm dest!: write_answer_cases)
next
  case Relaying
  then obtain r where "wk_reservation w = Some r" "r \<in> active_reservations l" "r \<in> created_reservations l"
    using w l by (auto simp: holds_def limits_ok_def)
  with Relaying l h show ?thesis
    by (auto simp: worker_progress_def handle_client_def at_phase_def holds_def unfinished_def announces_def
        split: sum.split_asm prod.split_asm option.split_asm if_split_asm)
next
  case (Refusing status code)
  with l w h show ?thesis
    by (auto simp: worker_progress_def handle_client_def at_phase_def holds_def unfinished_def announces_def
        split: sum.split_asm prod.split_asm dest!: write_answer_cases)
next
  case (Auditing status stage counts)
  with l w h show ?thesis
    by (auto simp: worker_progress_def handle_client_def at_phase_def holds_def unfinished_def announces_def
        split: prod.split_asm dest!: audit_tunnel_cases)
next
  case (Closing r0)
  obtain r l1 where c: "close_tunnel ob w l r0 = (r, l1)" by fastforce
  from close_limits [OF l w Closing c] Closing c h show ?thesis
    by (auto simp: worker_progress_def handle_client_def at_phase_def holds_def unfinished_def announces_def)
next
  case (Finished r)
  with l w h show ?thesis
    by (auto simp: worker_progress_def handle_client_def holds_def unfinished_def)
qed

section \<open>All workers\<close>

definition within_limits :: "tunnel_broker \<Rightarrow> bool" where
  "within_limits b \<longleftrightarrow> limits_ok (tb_limits b) \<and> finite (dom (tb_workers b))
     \<and> (\<forall>i w. tb_workers b i = Some w \<longrightarrow> holds (tb_limits b) w)
     \<and> (\<forall>i j w v r. tb_workers b i = Some w \<longrightarrow> tb_workers b j = Some v \<longrightarrow> unfinished w \<longrightarrow> unfinished v
          \<longrightarrow> wk_reservation w = Some r \<longrightarrow> wk_reservation v = Some r \<longrightarrow> i = j)
     \<and> length (filter (\<lambda>x. announces (snd x)) (tb_log b))
         + card {i. \<exists>w. tb_workers b i = Some w \<and> wk_phase w = Announcing} \<le> created_tunnels (tb_limits b)"

lemma holds_active: "limits_ok l \<Longrightarrow> holds l w \<Longrightarrow> unfinished w \<Longrightarrow> wk_reservation w = Some r \<Longrightarrow> r \<in> active_reservations l"
  by (auto simp: holds_def unfinished_def limits_ok_def split: tunnel_phase.split_asm)

lemma holds_apart:
  assumes "limits_ok l" and "holds l v" and "apart x l l'" and "unfinished v \<Longrightarrow> wk_reservation v \<noteq> None \<Longrightarrow> wk_reservation v \<noteq> x"
    and "limits_ok l'"
  shows "holds l' v"
  using assms by (auto simp: holds_def unfinished_def limits_ok_def apart_def split: tunnel_phase.splits) 

lemma card_switch:
  assumes "finite A" and "x \<in> A \<longleftrightarrow> p"
  shows "card (if q then insert x A else A - {x}) + of_bool p = card A + of_bool q"
  using assms card_Suc_Diff1 [of A x] by (cases p; cases q) (auto simp: insert_absorb)

lemma within_work:
  assumes b: "within_limits b" and w: "tb_workers b i = Some w"
    and p: "worker_progress w (tb_limits b) w' l events"
    and b': "b' = b\<lparr>tb_session := s, tb_limits := l, tb_workers := (tb_workers b)(i \<mapsto> w'),
      tb_log := tb_log b @ map (Pair i) events\<rparr>"
  shows "within_limits b'"
proof -
  note inv = b [unfolded within_limits_def] and prog = p [unfolded worker_progress_def]
  define x where "x = (if unfinished w then wk_reservation w else None)"
  let ?A = "\<lambda>b. {i. \<exists>w. tb_workers b i = Some w \<and> wk_phase w = Announcing}"
  have ok: "limits_ok (tb_limits b)" "limits_ok l" "apart x (tb_limits b) l"
    using inv prog by (simp_all add: x_def)
  have uniq: "j = k" if "tb_workers b j = Some v" "tb_workers b k = Some v'" "unfinished v" "unfinished v'"
      "wk_reservation v = Some r" "wk_reservation v' = Some r" for j k v v' r
    using inv that by blast
  have other: "wk_reservation v \<noteq> x" if "tb_workers b j = Some v" "j \<noteq> i" "unfinished v" "wk_reservation v \<noteq> None" for j v
    using inv w that unfolding x_def by (metis option.exhaust)
  have holds: "holds l v" if "tb_workers b' j = Some v" for j v
  proof (cases "j = i")
    case False
    then have v: "tb_workers b j = Some v" using that b' by simp
    then have "holds (tb_limits b) v" using inv by blast
    from holds_apart [OF ok(1) this ok(3) other [OF v False] ok(2)] show ?thesis .
  qed (use that b' prog in simp)
  have new: "wk_reservation v \<noteq> Some r" if "unfinished w'" "wk_reservation w' = Some r"
      "tb_workers b j = Some v" "j \<noteq> i" "unfinished v" for j v r
  proof -
    have "unfinished w" "wk_reservation w = Some r \<or> r \<notin> active_reservations (tb_limits b)"
      using prog that by auto
    then show ?thesis using other [OF that(3,4,5)] holds_active [OF ok(1) _ that(5)] inv that(3)
      unfolding x_def by (metis option.distinct(1))
  qed
  have a: "?A b' = (if wk_phase w' = Announcing then insert i (?A b) else ?A b - {i})"
    using b' by auto
  have "finite (?A b)" by (rule finite_subset [of _ "dom (tb_workers b)"]) (use inv in auto)
  moreover have "i \<in> ?A b \<longleftrightarrow> wk_phase w = Announcing" using w by simp
  ultimately have "card (?A b') + of_bool (wk_phase w = Announcing) = card (?A b) + of_bool (wk_phase w' = Announcing)"
    unfolding a by (rule card_switch)
  moreover have "length (filter (\<lambda>x. announces (snd x)) (tb_log b'))
      = length (filter (\<lambda>x. announces (snd x)) (tb_log b)) + length (filter announces events)"
    using b' by (simp add: filter_map comp_def)
  ultimately have "length (filter (\<lambda>x. announces (snd x)) (tb_log b')) + card (?A b') \<le> created_tunnels l"
    using inv prog by linarith
  moreover have "j = k" if "tb_workers b' j = Some v" "tb_workers b' k = Some v'" "unfinished v" "unfinished v'"
      "wk_reservation v = Some r" "wk_reservation v' = Some r" for j k v v' r
  proof -
    have old: "tb_workers b n = Some u" if "tb_workers b' n = Some u" "n \<noteq> i" for n u using that b' by simp
    have at: "u = w'" if "tb_workers b' i = Some u" for u using that b' by simp
    consider "j = i" "k = i" | "j = i" "k \<noteq> i" | "j \<noteq> i" "k = i" | "j \<noteq> i" "k \<noteq> i" by blast
    then show ?thesis
    proof cases
      case 2
      then have "wk_reservation v' \<noteq> Some r" using that old at by (intro new [of _ k]) auto
      with that show ?thesis by blast
    next
      case 3
      then have "wk_reservation v \<noteq> Some r" using that old at by (intro new [of _ j]) auto
      with that show ?thesis by blast
    next
      case 4
      show ?thesis by (rule uniq [OF old [OF that(1) 4(1)] old [OF that(2) 4(2)] that(3-6)])
    qed simp
  qed
  moreover have "finite (dom (tb_workers b'))" using inv b' by simp
  moreover have "tb_limits b' = l" using b' by simp
  ultimately show ?thesis using ok(2) holds unfolding within_limits_def by (metis (no_types, lifting))
qed

lemma step_within: "tunnel_step world run_label second b b' \<Longrightarrow> within_limits b \<Longrightarrow> within_limits b'"
proof (induction rule: tunnel_step.induct)
  case (accept b i uid)
  have "{j. \<exists>w. ((tb_workers b)(i \<mapsto> new_worker uid)) j = Some w \<and> wk_phase w = Announcing}
      = {j. \<exists>w. tb_workers b j = Some w \<and> wk_phase w = Announcing}"
    using accept.hyps by (auto simp: new_worker_def)
  with accept show ?case by (auto simp: within_limits_def holds_def new_worker_def)
next
  case (work b i w ob w' s l events)
  then have "limits_ok (tb_limits b)" "holds (tb_limits b) w" by (auto simp: within_limits_def)
  from handle_client_limits [OF this work.hyps(3)] within_work [OF work.prems work.hyps(1)] show ?case by blast
qed (simp add: within_limits_def)

lemma steps_within: "tunnel_steps world run_label second (new_tunnel_broker s) b \<Longrightarrow> within_limits b"
  by (induction rule: rtranclp_induct)
    (simp_all add: step_within, simp add: within_limits_def new_tunnel_broker_def limits_ok_def no_tunnels_def)

lemma open_tunnels:
  assumes "within_limits b"
  shows "card {i. \<exists>w. tb_workers b i = Some w \<and> unfinished w \<and> wk_upstream w} \<le> MAX_ACTIVE_TUNNELS"
proof -
  let ?O = "{i. \<exists>w. tb_workers b i = Some w \<and> unfinished w \<and> wk_upstream w}"
  define f where "f i = the (wk_reservation (the (tb_workers b i)))" for i
  note inv = assms [unfolded within_limits_def]
  have r: "wk_reservation w = Some (f i) \<and> f i \<in> active_reservations (tb_limits b)"
    if "tb_workers b i = Some w" "unfinished w" "wk_upstream w" for i w
  proof -
    have "holds (tb_limits b) w" using inv that(1) by blast
    moreover from this have "wk_reservation w \<noteq> None"
      using that(2,3) by (auto simp: holds_def unfinished_def split: tunnel_phase.split_asm)
    ultimately show ?thesis using that holds_active [of "tb_limits b" w] inv by (auto simp: f_def)
  qed
  have "inj_on f ?O"
  proof (rule inj_onI)
    fix i j assume "i \<in> ?O" "j \<in> ?O" and e: "f i = f j"
    then obtain w v where "tb_workers b i = Some w" "unfinished w" "wk_upstream w"
      "tb_workers b j = Some v" "unfinished v" "wk_upstream v" by blast
    moreover from this have "wk_reservation w = Some (f i)" "wk_reservation v = Some (f i)"
      using r [of i w] r [of j v] e by simp_all
    ultimately show "i = j" using inv by blast
  qed
  moreover have "f ` ?O \<subseteq> active_reservations (tb_limits b)" using r by auto
  moreover have "finite (active_reservations (tb_limits b))" using inv by (simp add: limits_ok_def)
  ultimately have "card ?O \<le> card (active_reservations (tb_limits b))" by (rule card_inj_on_le)
  then show ?thesis using inv by (simp add: limits_ok_def)
qed

section \<open>The session\<close>

definition is_grant :: "nat \<times> tunnel_event \<Rightarrow> bool" where
  "is_grant x \<longleftrightarrow> (\<exists>q. snd x = Granted q)"

definition grant_sequence :: "nat \<times> tunnel_event \<Rightarrow> int" where
  "grant_sequence x = (case snd x of Granted q \<Rightarrow> rq_sequence q | _ \<Rightarrow> 0)"

text \<open>Only a greeting touches the session, by authorising its request.\<close>

lemma handle_client_session:
  assumes "handle_client run_label second ob w (s, l) = (w', (s', l'), events)"
  shows "wk_uid w' = wk_uid w \<and> (s' = s \<and> (\<forall>q. Granted q \<notin> set events)
    \<or> (\<exists>q r. authorize q (wk_uid w) s = (r, s') \<and> events = (case r of Inr d \<Rightarrow> [Granted q] | Inl e \<Rightarrow> [])))"
proof (cases "wk_phase w")
  case Greeting
  with assms show ?thesis
    by (auto simp: handle_client_def at_phase_def split: sum.split_asm prod.split_asm if_split_asm) force+
qed (use assms in \<open>auto simp: handle_client_def at_phase_def split: sum.split_asm prod.split_asm option.split_asm
       dest!: write_answer_cases audit_tunnel_cases\<close>)

definition same_session :: "EgressBrokerSession \<Rightarrow> EgressBrokerSession \<Rightarrow> bool" where
  "same_session s0 s \<longleftrightarrow> session_ok s \<and> owner_uid s = owner_uid s0 \<and> allowed_domains s = allowed_domains s0
     \<and> es_project_id s = es_project_id s0 \<and> (\<not> es_closed s \<longrightarrow> es_capability s = es_capability s0)"

definition authorised :: "EgressBrokerSession \<Rightarrow> (nat \<rightharpoonup> worker) \<Rightarrow> nat \<Rightarrow> EgressRequest \<Rightarrow> bool" where
  "authorised s0 ws i q \<longleftrightarrow> permitted q s0 \<and> rq_capability q = es_capability s0
     \<and> rq_project_id q = es_project_id s0 \<and> (\<exists>w. ws i = Some w \<and> wk_uid w = owner_uid s0)"

definition grants_in :: "(nat \<times> tunnel_event) list \<Rightarrow> (nat \<times> tunnel_event) list" where
  "grants_in log = filter is_grant log"

definition kept_with :: "EgressBrokerSession \<Rightarrow> EgressBrokerSession \<Rightarrow> (nat \<times> tunnel_event) list \<Rightarrow> (nat \<rightharpoonup> worker) \<Rightarrow> bool" where
  "kept_with s0 s log ws \<longleftrightarrow> same_session s0 s
     \<and> (\<exists>H. history s H \<and> grant_sequence ` set (grants_in log) \<subseteq> H)
     \<and> distinct (map grant_sequence (grants_in log))
     \<and> (\<forall>i q. (i, Granted q) \<in> set (grants_in log) \<longrightarrow> authorised s0 ws i q)"

lemma grants_in_simps [simp]:
  "grants_in [] = []" "grants_in (xs @ ys) = grants_in xs @ grants_in ys"
  "grants_in [(i, Granted q)] = [(i, Granted q)]" "grant_sequence (i, Granted q) = rq_sequence q"
  by (simp_all add: grants_in_def is_grant_def grant_sequence_def)

lemma grants_in_none: "\<forall>q. Granted q \<notin> set events \<Longrightarrow> grants_in (map (Pair i) events) = []"
  by (auto simp: grants_in_def is_grant_def filter_empty_conv)

lemma grants_in_log: "(i, Granted q) \<in> set (grants_in log) \<longleftrightarrow> (i, Granted q) \<in> set log"
  by (simp add: grants_in_def is_grant_def)

lemma authorised_update [simp]:
  "ws i = Some w \<Longrightarrow> wk_uid w' = wk_uid w \<Longrightarrow> authorised s0 (ws(i \<mapsto> w')) j q = authorised s0 ws j q"
  "authorised s0 ws j q \<Longrightarrow> ws i = None \<Longrightarrow> authorised s0 (ws(i \<mapsto> w')) j q"
  by (auto simp: authorised_def)

abbreviation session_kept :: "EgressBrokerSession \<Rightarrow> tunnel_broker \<Rightarrow> bool" where
  "session_kept s0 b \<equiv> kept_with s0 (tb_session b) (tb_log b) (tb_workers b)"

lemma kept_authorize:
  assumes inv: "kept_with s0 s log ws" and w: "ws i = Some w" and a: "authorize q (wk_uid w) s = (r, s')"
    and u: "wk_uid w' = wk_uid w"
  shows "kept_with s0 s' (log @ map (Pair i) (case r of Inr d \<Rightarrow> [Granted q] | Inl e \<Rightarrow> [])) (ws(i \<mapsto> w'))"
proof -
  note inv' = inv [unfolded kept_with_def]
  obtain H where H: "history s H" "grant_sequence ` set (grants_in log) \<subseteq> H" using inv' by blast
  note rf = authorize_refines [OF H(1) a]
  have static: "same_session s0 s'"
    using step_invariant [OF step_authorize [OF a]] inv' by (auto simp: same_session_def)
  show ?thesis
  proof (cases r)
    case (Inl x)
    have "history s' (if consumes r then insert (rq_sequence q) H else H)" using rf(2) by simp
    then have "\<exists>H'. history s' H' \<and> grant_sequence ` set (grants_in log) \<subseteq> H'"
      using H(2) by (metis subset_insertI2)
    then show ?thesis using static inv' w u Inl by (simp add: kept_with_def)
  next
    case (Inr d)
    then have "consumes r" by (simp add: consumes_def)
    then have n: "rq_sequence q \<notin> H" "history s' (insert (rq_sequence q) H)"
      using rf(1,2) by (auto simp: fresh_number_def)
    have "authorised s0 ws i q"
      using authorize_grant [OF a [unfolded Inr]] inv' w
      by (auto simp: authentic_def permitted_def compare_digest_True same_session_def authorised_def)
    moreover have "rq_sequence q \<notin> grant_sequence ` set (grants_in log)" using n(1) H(2) by blast
    moreover have "\<exists>H'. history s' H' \<and> rq_sequence q \<in> H' \<and> grant_sequence ` set (grants_in log) \<subseteq> H'"
      using n(2) H(2) by blast
    ultimately show ?thesis using static inv' w u Inr by (auto simp: kept_with_def)
  qed
qed

lemma step_session: "tunnel_step world run_label second b b' \<Longrightarrow> session_kept s0 b \<Longrightarrow> session_kept s0 b'"
proof (induction rule: tunnel_step.induct)
  case (accept b i uid)
  then have "kept_with s0 (tb_session b) (tb_log b) ((tb_workers b)(i \<mapsto> new_worker uid))"
    using authorised_update(2) unfolding kept_with_def by blast
  then show ?case by (simp add: fun_upd_def)
next
  case (deactivated b)
  have "history (deactivate (tb_session b)) H = history (tb_session b) H" for H
    by (simp add: history_def deactivate_def)
  with deactivated show ?case by (simp add: kept_with_def same_session_def session_ok_def deactivate_def)
next
  case (work b i w ob w' s l events)
  note h = handle_client_session [OF work.hyps(3)]
  have "kept_with s0 s (tb_log b @ map (Pair i) events) ((tb_workers b)(i \<mapsto> w'))"
  proof (cases "s = tb_session b \<and> (\<forall>q. Granted q \<notin> set events)")
    case True
    then show ?thesis using work.prems work.hyps(1) h by (simp add: kept_with_def grants_in_none)
  next
    case False
    with kept_authorize [OF work.prems work.hyps(1)] h show ?thesis by blast
  qed
  then show ?case by (simp add: fun_upd_def)
qed

lemma steps_session:
  "tunnel_steps world run_label second (new_tunnel_broker (new_session p a uid run ds c)) b \<Longrightarrow>
     session_kept (new_session p a uid run ds c) b"
proof (induction rule: rtranclp_induct)
  case base
  have "same_session (new_session p a uid run ds c) (new_session p a uid run ds c)"
    using new_session_ok by (simp add: same_session_def)
  moreover have "\<exists>H. history (new_session p a uid run ds c) H" using history_new by blast
  ultimately show ?case by (auto simp: kept_with_def new_tunnel_broker_def)
qed (rule step_session)

section \<open>A run\<close>

definition demo_ob :: "unit observation" where
  "demo_ob = \<lparr>ob_request = Inr demo_request, ob_sent = Inr (), ob_resolver = (\<lambda>_. Inr (Answers [demo_answer])),
     ob_connect = (\<lambda>_ s. (Inr (), s)), ob_peername = (\<lambda>s. (Inr (PTuple (rt_sockaddr demo_target)), s)), ob_shut = id,
     ob_env = \<lparr>rv_prepare = Pair (Inr ()), rv_register = Pair (Inr ()), rv_clock = Pair 0,
       rv_select = (\<lambda>i j timeout. Pair (Inr [])), rv_recv = (\<lambda>d n. Pair (Inr [])), rv_send = (\<lambda>d b. Pair (Inr 0)),
       rv_shutdown = (\<lambda>d. Pair (Inr ()))\<rparr>,
     ob_wire = (), ob_now = [], ob_log = Inr (), ob_upstream_closed = Inr (), ob_stream_closed = Inr ()\<rparr>"

lemma demo_granted: "\<exists>s. authorize demo_request 1000 demo_session = (Inr (u ''a.io''), s)"
proof -
  have "consume_sequence 7 0 0 \<noteq> None"
    using consume_sequence_fresh [OF window_empty, of 7] by (simp add: fresh_number_def SEQUENCE_WINDOW_def)
  then obtain h w where "consume_sequence 7 0 0 = Some (h, w)" by auto
  then show ?thesis
    using authorize_consumed [OF demo_authentic(1), of h w] demo_authentic(2)
    by (simp add: demo_sequence demo_session_def new_session_def)
qed

lemma demo_tunnel_run:
  "\<exists>b. tunnel_steps {demo_ob} (u ''r'') 1 (new_tunnel_broker demo_session) b
     \<and> (0, Dialled (u ''a.io'') demo_target) \<in> set (tb_log b)"
proof -
  obtain s where s: "authorize demo_request 1000 demo_session = (Inr (u ''a.io''), s)" using demo_granted by blast
  define l where "l = \<lparr>next_reservation = 2, active_reservations = {1}, created_reservations = {}, created_tunnels = 0\<rparr>"
  let ?h = "handle_client (u ''r'') 1 demo_ob" and ?S = "tunnel_steps {demo_ob} (u ''r'') 1 (new_tunnel_broker demo_session)"
  have go: "?S b \<Longrightarrow> tb_workers b 0 = Some w \<Longrightarrow> ?h w (tb_session b, tb_limits b) = (w', (s', l'), es) \<Longrightarrow>
      ?S (b\<lparr>tb_session := s', tb_limits := l', tb_workers := (tb_workers b)(0 \<mapsto> w'), tb_log := tb_log b @ map (Pair 0) es\<rparr>)"
    for b w w' s' l' es
    by (erule rtranclp.rtrancl_into_rtrancl, rule work) simp_all
  have 0: "?S (new_tunnel_broker demo_session)" by simp
  have "?S ((new_tunnel_broker demo_session)\<lparr>tb_workers := [0 \<mapsto> new_worker 1000]\<rparr>)"
    using rtranclp.rtrancl_into_rtrancl [OF 0 accept [of "new_tunnel_broker demo_session" 0 _ _ _ 1000]]
    by (simp add: new_tunnel_broker_def)
  from go [OF this, of "new_worker 1000" "at_phase (new_worker 1000) (Reserving (u ''a.io''))" s no_tunnels "[Granted demo_request]"]
  obtain b1 where 1: "?S b1" "tb_workers b1 0 = Some (at_phase (new_worker 1000) (Reserving (u ''a.io'')))"
    "tb_session b1 = s" "tb_limits b1 = no_tunnels"
    using s by (force simp: new_tunnel_broker_def handle_client_def new_worker_def demo_ob_def)
  define w2 where "w2 = \<lparr>wk_uid = 1000, wk_phase = Resolving (u ''a.io''), wk_reservation = Some 1, wk_upstream = False\<rparr>"
  have "?h (at_phase (new_worker 1000) (Reserving (u ''a.io''))) (s, no_tunnels) = (w2, (s, l), [])"
    by (simp add: handle_client_def at_phase_def new_worker_def reserve_tunnel_def no_tunnels_def Let_def w2_def l_def
        MAX_ACTIVE_TUNNELS_def MAX_CREATED_TUNNELS_def)
  from go [OF 1(1,2)] this 1 obtain b2 where 2: "?S b2" "tb_workers b2 0 = Some w2" "tb_session b2 = s" "tb_limits b2 = l"
    by force
  have r: "resolve_target (ob_resolver demo_ob) (u ''a.io'') = Inr [demo_target]"
    by (simp add: resolve_target_def demo_ob_def demo_answer_ok)
  have "?h w2 (s, l) = (at_phase w2 (Connecting (u ''a.io'') demo_target), (s, l), [Resolved (u ''a.io'')])"
    using r by (simp add: handle_client_def w2_def)
  from go [OF 2(1,2)] this 2 obtain b3 where 3: "?S b3" "tb_session b3 = s" "tb_limits b3 = l"
    "tb_workers b3 0 = Some (at_phase w2 (Connecting (u ''a.io'') demo_target))"
    by force
  have "connect_target (ob_connect demo_ob) (ob_peername demo_ob) (ob_shut demo_ob) demo_target (ob_wire demo_ob) = (Inr (), ())"
    by (simp add: connect_target_def demo_ob_def demo_target_def Let_def)
  then have "?h (at_phase w2 (Connecting (u ''a.io'') demo_target)) (s, l)
      = ((at_phase w2 Marking)\<lparr>wk_upstream := True\<rparr>, (s, l), [Dialled (u ''a.io'') demo_target])"
    by (simp add: handle_client_def at_phase_def)
  from go [OF 3(1,4)] this 3 show ?thesis by force
qed

section \<open>Properties\<close>

text \<open>
  C32. The limits hold in every interleaving of clients: at most 32 upstream connections are open at
  any time, at most 128 tunnels are announced in a run, and a worker that has connected always gets
  its tunnel counted (the error branch of \<open>_mark_tunnel_created\<close> is never taken).
\<close>

theorem tunnel_limits:
  assumes "tunnel_steps world run_label second (new_tunnel_broker s) b"
  shows "card {i. \<exists>w. tb_workers b i = Some w \<and> unfinished w \<and> wk_upstream w} \<le> 32
    \<and> length (filter (\<lambda>x. snd x = Answered (u ''ok'') (u ''connect'')) (tb_log b)) \<le> 128
    \<and> (\<forall>i w. tb_workers b i = Some w \<longrightarrow> wk_phase w = Marking \<longrightarrow>
         fst (mark_tunnel_created (the (wk_reservation w)) (tb_limits b)) = Inr ())"
proof -
  note b = steps_within [OF assms]
  note inv = b [unfolded within_limits_def]
  have "created_tunnels (tb_limits b) \<le> 128" using inv by (simp add: limits_ok_def MAX_CREATED_TUNNELS_def)
  then have "length (filter (\<lambda>x. announces (snd x)) (tb_log b)) \<le> 128" using inv by linarith
  moreover have "fst (mark_tunnel_created (the (wk_reservation w)) (tb_limits b)) = Inr ()"
    if w: "tb_workers b i = Some w" and m: "wk_phase w = Marking" for i w
  proof -
    have l: "limits_ok (tb_limits b)" and "holds (tb_limits b) w" using inv w by blast+
    then obtain r where r: "wk_reservation w = Some r" "r \<in> active_reservations (tb_limits b) - created_reservations (tb_limits b)"
      using m by (auto simp: holds_def)
    from mark_limits [OF l r(2)] r(1) show ?thesis by (metis fst_conv option.sel)
  qed
  ultimately show ?thesis using open_tunnels [OF b] by (simp add: announces_def MAX_ACTIVE_TUNNELS_def)
qed

theorem tunnel_limits_witness:
  "\<exists>b :: tunnel_broker. (0, Dialled (u ''a.io'') demo_target) \<in> set (tb_log b)
     \<and> card {i. \<exists>w. tb_workers b i = Some w \<and> unfinished w \<and> wk_upstream w} \<le> 32"
  using demo_tunnel_run tunnel_limits [of "{demo_ob}" "u ''r''" 1 demo_session] by blast

text \<open>
  C31. Nothing is done for a client without a grant, in any interleaving: every grant is for a request that was
  permitted by the allow list, named port 443, carried the capability and project of the session and came from
  its owner, and no other client ever used its sequence number; the resolver is called only for the domain of
  the client's own grant, whatever it then answers; only an admitted target (a public address on port 443) is
  dialled, and only for a domain that was resolved for this client; and bytes are relayed, completely or not,
  only for a client for which a target was dialled and that was told so.
\<close>

theorem tunnels_authorised:
  assumes "tunnel_steps world run_label second (new_tunnel_broker (new_session p a uid run ds c)) b"
  shows "(\<forall>i q. (i, Granted q) \<in> set (tb_log b) \<longrightarrow>
        rq_domain q \<in> ds \<and> rq_port q = 443 \<and> rq_capability q = c \<and> rq_project_id q = p
        \<and> (\<exists>w. tb_workers b i = Some w \<and> wk_uid w = uid)
        \<and> (\<forall>j q'. (j, Granted q') \<in> set (tb_log b) \<longrightarrow> rq_sequence q' = rq_sequence q \<longrightarrow> j = i \<and> q' = q))
    \<and> (\<forall>i d. (i, Resolved d) \<in> set (tb_log b) \<longrightarrow> (\<exists>q. (i, Granted q) \<in> set (tb_log b) \<and> rq_domain q = d))
    \<and> (\<forall>i d t. (i, Dialled d t) \<in> set (tb_log b) \<longrightarrow> (i, Resolved d) \<in> set (tb_log b) \<and> admitted t)
    \<and> (\<forall>i m n. (i, Relayed m n) \<in> set (tb_log b) \<longrightarrow> (\<exists>d t. (i, Dialled d t) \<in> set (tb_log b)))
    \<and> (\<forall>i w. tb_workers b i = Some w \<longrightarrow> wk_phase w = Relaying \<longrightarrow>
         (\<exists>d t. (i, Dialled d t) \<in> set (tb_log b)) \<and> (i, Answered (u ''ok'') (u ''connect'')) \<in> set (tb_log b))"
proof (intro conjI)
  note k = steps_session [OF assms, unfolded kept_with_def]
  have e: "events_granted (client_log b i)" for i by (rule partial_granted [OF steps_partial [OF assms]])
  have "j = i \<and> q' = q" if "(i, Granted q) \<in> set (tb_log b)" "(j, Granted q') \<in> set (tb_log b)"
      "rq_sequence q' = rq_sequence q" for i q j q'
    using k that inj_onD [of grant_sequence "set (grants_in (tb_log b))" "(j, Granted q')" "(i, Granted q)"]
    by (simp add: grants_in_log distinct_map)
  moreover have "rq_domain q \<in> ds \<and> rq_port q = 443 \<and> rq_capability q = c \<and> rq_project_id q = p
        \<and> (\<exists>w. tb_workers b i = Some w \<and> wk_uid w = uid)" if "(i, Granted q) \<in> set (tb_log b)" for i q
  proof -
    have "authorised (new_session p a uid run ds c) (tb_workers b) i q" using k that by (simp add: grants_in_log)
    then show ?thesis by (simp add: authorised_def permitted_def new_session_def)
  qed
  ultimately show "\<forall>i q. (i, Granted q) \<in> set (tb_log b) \<longrightarrow>
        rq_domain q \<in> ds \<and> rq_port q = 443 \<and> rq_capability q = c \<and> rq_project_id q = p
        \<and> (\<exists>w. tb_workers b i = Some w \<and> wk_uid w = uid)
        \<and> (\<forall>j q'. (j, Granted q') \<in> set (tb_log b) \<longrightarrow> rq_sequence q' = rq_sequence q \<longrightarrow> j = i \<and> q' = q)" by blast
  show "\<forall>i d. (i, Resolved d) \<in> set (tb_log b) \<longrightarrow> (\<exists>q. (i, Granted q) \<in> set (tb_log b) \<and> rq_domain q = d)"
    "\<forall>i d t. (i, Dialled d t) \<in> set (tb_log b) \<longrightarrow> (i, Resolved d) \<in> set (tb_log b) \<and> admitted t"
    "\<forall>i m n. (i, Relayed m n) \<in> set (tb_log b) \<longrightarrow> (\<exists>d t. (i, Dialled d t) \<in> set (tb_log b))"
    using e unfolding events_granted_def in_client_log by blast+
  show "\<forall>i w. tb_workers b i = Some w \<longrightarrow> wk_phase w = Relaying \<longrightarrow>
         (\<exists>d t. (i, Dialled d t) \<in> set (tb_log b)) \<and> (i, Answered (u ''ok'') (u ''connect'')) \<in> set (tb_log b)"
  proof (intro allI impI)
    fix i w assume "tb_workers b i = Some w" "wk_phase w = Relaying"
    then have "relay_story (client_log b i)" using steps_stories [OF assms] unfolding stories_def by (metis story.simps(7))
    then have "(\<exists>d t. Dialled d t \<in> set (client_log b i)) \<and> Answered (u ''ok'') (u ''connect'') \<in> set (client_log b i)"
      by (auto simp: relay_story_def dialled_story_def)
    then show "(\<exists>d t. (i, Dialled d t) \<in> set (tb_log b)) \<and> (i, Answered (u ''ok'') (u ''connect'')) \<in> set (tb_log b)"
      by (simp add: in_client_log)
  qed
qed

theorem tunnels_authorised_witness:
  "\<exists>(b :: tunnel_broker) q. (0, Dialled (u ''a.io'') demo_target) \<in> set (tb_log b)
     \<and> (0, Resolved (u ''a.io'')) \<in> set (tb_log b) \<and> (0, Granted q) \<in> set (tb_log b) \<and> rq_domain q = u ''a.io''
     \<and> rq_capability q = es_capability demo_session \<and> admitted demo_target"
proof -
  obtain b where run: "tunnel_steps {demo_ob} (u ''r'') 1 (new_tunnel_broker demo_session) b"
    and d: "(0, Dialled (u ''a.io'') demo_target) \<in> set (tb_log b)" using demo_tunnel_run by blast
  note all = tunnels_authorised [OF run [unfolded demo_session_def]]
  have r: "(0, Resolved (u ''a.io'')) \<in> set (tb_log b)" "admitted demo_target"
    using conjunct1 [OF conjunct2 [OF conjunct2 [OF all]]] d by blast+
  then obtain q where q: "(0, Granted q) \<in> set (tb_log b)" "rq_domain q = u ''a.io''"
    using conjunct1 [OF conjunct2 [OF all]] by blast
  have "rq_capability q = es_capability demo_session"
    using conjunct1 [OF all] q(1) by (simp add: demo_session_def new_session_def)
  with d r q show ?thesis by blast
qed

text \<open>
  C33. Every client is served in one of the ways the handler means: what the broker does for a client
  is, as far as it got, a refusal (before authorisation, after it, or after dialling an admitted
  target) that is answered once with its reason and then audited, or one grant, one resolution of its domain, one dialled target,
  one announcement, and then at most one completed relay and one audit entry.
\<close>

theorem client_served_once:
  assumes "tunnel_steps world run_label second (new_tunnel_broker s) b"
  shows "\<exists>rest. audited_story (client_log b i @ rest)"
  using steps_partial [OF assms] by (simp add: partial_story_def)

theorem client_served_once_witness:
  "\<exists>(b :: tunnel_broker) rest. (0, Dialled (u ''a.io'') demo_target) \<in> set (tb_log b) \<and> audited_story (client_log b 0 @ rest)"
  using demo_tunnel_run client_served_once [of "{demo_ob}" "u ''r''" 1 demo_session _ 0] by blast

end
