(* ===== verification/Intake_Protocol.thy ===== *)
theory Intake_Protocol
  imports Frame_Protocol Family_Issue
begin

text \<open>
  \<open>src/agent_container/family_intake_protocol.py\<close>: the messages between the family agent and the
  intake broker. A request carries an issue proposal as a JSON object, which both encoder and
  decoder validate and bring into one form. The module has transfer loops of its own.
\<close>

section \<open>Schemas\<close>

definition PROTOCOL_VERSION :: int where
  "PROTOCOL_VERSION = 1"

definition MAX_REQUEST_BYTES :: nat where
  "MAX_REQUEST_BYTES = 16384"

definition MAX_RESPONSE_BYTES :: nat where
  "MAX_RESPONSE_BYTES = 1024"

definition INTAKE_REQUEST_FIELDS :: "pystr set" where
  "INTAKE_REQUEST_FIELDS = {u ''version'', u ''operation'', u ''capability'', u ''payload''}"

definition INTAKE_RESPONSE_FIELDS :: "pystr set" where
  "INTAKE_RESPONSE_FIELDS = {u ''version'', u ''status'', u ''request_id'', u ''expires_at''}"

definition REQUEST_OPERATION :: pystr where
  "REQUEST_OPERATION = u ''issue_create_request''"

definition RESPONSE_STATUS :: pystr where
  "RESPONSE_STATUS = u ''pending''"

definition intake_schema :: "nat \<Rightarrow> string \<Rightarrow> pystr set \<Rightarrow> frame_schema" where
  "intake_schema maximum kind names = \<lparr>fs_label = ''family intake '' @ kind, stream_label = ''family intake stream'',
     fs_fields = names, max_bytes = maximum - HEADER_BYTES,
     fs_json = \<lparr>ensure_ascii = False, allow_nan = False, sort_keys = True, separators = Some (u '','', u '':''),
       encoding = Utf8\<rparr>,
     frame_label = None\<rparr>"

section \<open>Validation\<close>

definition json_invalid :: exn where
  "json_invalid = ValueError ''family intake JSON is invalid''"

definition schema_invalid :: exn where
  "schema_invalid = ValueError ''family intake schema is invalid''"

definition request_invalid :: exn where
  "request_invalid = ValueError ''family intake request schema is invalid''"

definition response_invalid :: exn where
  "response_invalid = ValueError ''family intake response schema is invalid''"

definition validate_version :: "json \<Rightarrow> exn + int" where
  "validate_version v =
     bindE (as_int schema_invalid v) (\<lambda>i. bindE (require (i = PROTOCOL_VERSION) schema_invalid) (\<lambda>_. Inr i))"

definition validate_text :: "json \<Rightarrow> exn + pystr" where
  "validate_text v =
     bindE (as_str schema_invalid v) (\<lambda>s.
     bindE (require (s \<noteq> []) schema_invalid) (\<lambda>_.
     bindE (reraise_if (\<lambda>e. e = UnicodeEncodeError) schema_invalid (utf8_encode s)) (\<lambda>_.
     bindE (require (\<not> list_ex (\<lambda>c. c < 32 \<or> c = 127) s) schema_invalid) (\<lambda>_.
     Inr s))))"

record FamilyIntakeRequest =
  fi_version :: int
  fi_operation :: pystr
  fi_capability :: pystr
  fi_payload :: json

record FamilyIntakeResponse =
  fr_version :: int
  fr_status :: pystr
  fr_request_id :: pystr
  fr_expires_at :: int

definition draft_payload :: "FamilyIssueDraft \<Rightarrow> json" where
  "draft_payload d = JObj [(u ''title'', JStr (fd_title d)), (u ''summary'', JStr (fd_summary d)),
     (u ''context'', JStr (fd_context d)), (u ''acceptance_criteria'', JList (map JStr (acceptance_criteria d)))]"

definition validate_request :: "json \<Rightarrow> json \<Rightarrow> json \<Rightarrow> json \<Rightarrow> exn + FamilyIntakeRequest" where
  "validate_request version operation capability payload =
     bindE (validate_version version) (\<lambda>v.
     bindE (validate_text operation) (\<lambda>x.
     bindE (validate_text capability) (\<lambda>c.
     bindE (require (x = REQUEST_OPERATION \<and> (\<exists>kvs. payload = JObj kvs)) request_invalid) (\<lambda>_.
     bindE (parse_family_issue_draft payload) (\<lambda>draft.
     Inr \<lparr>fi_version = v, fi_operation = x, fi_capability = c, fi_payload = draft_payload draft\<rparr>)))))"

definition validate_response :: "json \<Rightarrow> json \<Rightarrow> json \<Rightarrow> json \<Rightarrow> exn + FamilyIntakeResponse" where
  "validate_response version status request_id expires_at =
     bindE (validate_version version) (\<lambda>v.
     bindE (validate_text status) (\<lambda>s.
     bindE (validate_text request_id) (\<lambda>i.
     bindE (require (s = RESPONSE_STATUS \<and> length i \<le> 128) response_invalid) (\<lambda>_.
     bindE (as_int response_invalid expires_at) (\<lambda>e.
     bindE (require (1 \<le> e) response_invalid) (\<lambda>_.
     Inr \<lparr>fr_version = v, fr_status = s, fr_request_id = i, fr_expires_at = e\<rparr>))))))"

section \<open>Encoding and decoding\<close>

definition request_values :: "FamilyIntakeRequest \<Rightarrow> (pystr \<times> json) list" where
  "request_values r = [(u ''version'', JInt (fi_version r)), (u ''operation'', JStr (fi_operation r)),
     (u ''capability'', JStr (fi_capability r)), (u ''payload'', fi_payload r)]"

definition response_values :: "FamilyIntakeResponse \<Rightarrow> (pystr \<times> json) list" where
  "response_values r = [(u ''version'', JInt (fr_version r)), (u ''status'', JStr (fr_status r)),
     (u ''request_id'', JStr (fr_request_id r)), (u ''expires_at'', JInt (fr_expires_at r))]"

definition encode_request_frame :: "FamilyIntakeRequest \<Rightarrow> exn + bytes" where
  "encode_request_frame r =
     bindE (validate_request (JInt (fi_version r)) (JStr (fi_operation r)) (JStr (fi_capability r)) (fi_payload r))
       (\<lambda>r'. encode_frame (intake_schema MAX_REQUEST_BYTES ''request'' {}) (request_values r'))"

definition encode_response_frame :: "FamilyIntakeResponse \<Rightarrow> exn + bytes" where
  "encode_response_frame r =
     bindE (validate_response (JInt (fr_version r)) (JStr (fr_status r)) (JStr (fr_request_id r)) (JInt (fr_expires_at r)))
       (\<lambda>r'. encode_frame (intake_schema MAX_RESPONSE_BYTES ''response'' {}) (response_values r'))"

definition intake_reject_constant :: "string \<Rightarrow> exn + json" where
  "intake_reject_constant w = Inl json_invalid"

definition intake_object_without_duplicates :: pairs_hook where
  "intake_object_without_duplicates = build_object json_invalid []"

definition decode_json :: "nat \<Rightarrow> string \<Rightarrow> bytes \<Rightarrow> exn + json" where
  "decode_json lim kind body =
     bindE (reraise_if (\<lambda>e. e = TypeError \<or> is_value_error e)
         (ValueError (''family intake '' @ kind @ '' JSON is invalid''))
         (bindE (utf8_decode body) (json_loads lim intake_object_without_duplicates intake_reject_constant)))
       (\<lambda>decoded. bindE (require (\<exists>kvs. decoded = JObj kvs)
          (ValueError (''family intake '' @ kind @ '' schema is invalid''))) (\<lambda>_. Inr decoded))"

definition request_from_values :: "(pystr \<rightharpoonup> json) \<Rightarrow> exn + FamilyIntakeRequest" where
  "request_from_values d =
     bindE (field_of d ''version'') (\<lambda>version.
     bindE (field_of d ''operation'') (\<lambda>operation.
     bindE (field_of d ''capability'') (\<lambda>capability.
     bindE (field_of d ''payload'') (\<lambda>payload.
     validate_request version operation capability payload))))"

definition response_from_values :: "(pystr \<rightharpoonup> json) \<Rightarrow> exn + FamilyIntakeResponse" where
  "response_from_values d =
     bindE (field_of d ''version'') (\<lambda>version.
     bindE (field_of d ''status'') (\<lambda>status.
     bindE (field_of d ''request_id'') (\<lambda>request_id.
     bindE (field_of d ''expires_at'') (\<lambda>expires_at.
     validate_response version status request_id expires_at))))"

definition decode_request_frame :: "nat \<Rightarrow> bytes \<Rightarrow> exn + FamilyIntakeRequest \<times> nat" where
  "decode_request_frame lim data =
     decode_message lim (intake_schema MAX_REQUEST_BYTES ''request'' INTAKE_REQUEST_FIELDS)
       (Some (decode_json lim ''request'')) request_from_values data"

definition decode_response_frame :: "nat \<Rightarrow> bytes \<Rightarrow> exn + FamilyIntakeResponse \<times> nat" where
  "decode_response_frame lim data =
     decode_message lim (intake_schema MAX_RESPONSE_BYTES ''response'' INTAKE_RESPONSE_FIELDS)
       (Some (decode_json lim ''response'')) response_from_values data"

section \<open>Streams\<close>

definition stream_invalid :: exn where
  "stream_invalid = ValueError ''family intake stream is invalid''"

definition stream_incomplete :: exn where
  "stream_incomplete = ValueError ''family intake stream is incomplete''"

definition stream_failure :: "exn \<Rightarrow> exn" where
  "stream_failure e = (if is_os_error e \<or> e = TypeError \<or> is_value_error e then stream_invalid else e)"

function intake_read_loop :: "'s reader \<Rightarrow> nat \<Rightarrow> bytes \<Rightarrow> 's \<Rightarrow> (exn + bytes) \<times> 's" where
  "intake_read_loop rd sz output s =
     (if length output < sz then
        (case rd (sz - length output) s of
           (Inl e, s') \<Rightarrow> (Inl (stream_failure e), s')
         | (Inr None, s') \<Rightarrow> (Inl stream_incomplete, s')
         | (Inr (Some chunk), s') \<Rightarrow>
             (if chunk = [] \<or> sz - length output < length chunk then (Inl stream_incomplete, s')
              else intake_read_loop rd sz (output @ chunk) s'))
      else (Inr output, s))"
  by pat_completeness auto
termination
  by (relation "measure (\<lambda>(rd, sz, output, s). sz - length output)") (auto simp flip: length_greater_0_conv)

declare intake_read_loop.simps [simp del]

definition intake_read_exact :: "'s reader \<Rightarrow> nat \<Rightarrow> 's \<Rightarrow> (exn + bytes) \<times> 's" where
  "intake_read_exact rd sz s = intake_read_loop rd sz [] s"

definition intake_read_frame :: "nat \<Rightarrow> string \<Rightarrow> 's reader \<Rightarrow> 's \<Rightarrow> (exn + bytes) \<times> 's" where
  "intake_read_frame maximum kind rd s =
     bindS (intake_read_exact rd HEADER_BYTES s) (\<lambda>header s1.
       let len = unpack_u32 header in
       if len = 0 \<or> maximum - HEADER_BYTES < len
       then (Inl (ValueError (''family intake '' @ kind @ '' frame size is invalid'')), s1)
       else bindS (intake_read_exact rd len s1) (\<lambda>body s2. (Inr (header @ body), s2)))"

definition read_request_frame :: "nat \<Rightarrow> 's reader \<Rightarrow> 's \<Rightarrow> (exn + FamilyIntakeRequest) \<times> 's" where
  "read_request_frame lim rd s =
     bindS (intake_read_frame MAX_REQUEST_BYTES ''request'' rd s) (\<lambda>frame t.
       (map_sum id fst (decode_request_frame lim frame), t))"

definition read_response_frame :: "nat \<Rightarrow> 's reader \<Rightarrow> 's \<Rightarrow> (exn + FamilyIntakeResponse) \<times> 's" where
  "read_response_frame lim rd s =
     bindS (intake_read_frame MAX_RESPONSE_BYTES ''response'' rd s) (\<lambda>frame t.
       (map_sum id fst (decode_response_frame lim frame), t))"

function intake_write_loop :: "'s writer \<Rightarrow> bytes \<Rightarrow> nat \<Rightarrow> 's \<Rightarrow> (exn + unit) \<times> 's" where
  "intake_write_loop wr frame offset s =
     (if offset < length frame then
        (case wr (drop offset frame) s of
           (Inl e, s') \<Rightarrow> (Inl (stream_failure e), s')
         | (Inr (WInt written), s') \<Rightarrow>
             (if written < 1 \<or> int (length frame - offset) < written
              then (Inl (ValueError ''family intake stream write failed''), s')
              else intake_write_loop wr frame (offset + nat written) s')
         | (Inr _, s') \<Rightarrow> (Inl (ValueError ''family intake stream write failed''), s'))
      else (Inr (), s))"
  by pat_completeness auto
termination
  by (relation "measure (\<lambda>(wr, frame, offset, s). length frame - offset)") auto

declare intake_write_loop.simps [simp del]

definition intake_write_all ::
  "'s writer \<Rightarrow> ('s \<Rightarrow> (exn + unit) \<times> 's) \<Rightarrow> bytes \<Rightarrow> 's \<Rightarrow> (exn + unit) \<times> 's" where
  "intake_write_all wr flush frame s =
     bindS (intake_write_loop wr frame 0 s) (\<lambda>_ s1.
       case flush s1 of (Inl e, s2) \<Rightarrow> (Inl (stream_failure e), s2) | (Inr x, s2) \<Rightarrow> (Inr x, s2))"

definition write_request_frame ::
  "'s writer \<Rightarrow> ('s \<Rightarrow> (exn + unit) \<times> 's) \<Rightarrow> FamilyIntakeRequest \<Rightarrow> 's \<Rightarrow> (exn + unit) \<times> 's" where
  "write_request_frame wr flush r s = bindS (encode_request_frame r, s) (\<lambda>frame s1. intake_write_all wr flush frame s1)"

definition write_response_frame ::
  "'s writer \<Rightarrow> ('s \<Rightarrow> (exn + unit) \<times> 's) \<Rightarrow> FamilyIntakeResponse \<Rightarrow> 's \<Rightarrow> (exn + unit) \<times> 's" where
  "write_response_frame wr flush r s = bindS (encode_response_frame r, s) (\<lambda>frame s1. intake_write_all wr flush frame s1)"

section \<open>The loops are the frame kernel's\<close>

definition renamed :: "exn \<Rightarrow> exn" where
  "renamed e = (case e of StreamError m \<Rightarrow> ValueError m | _ \<Rightarrow> e)"

lemma renamed_simps [simp]: "renamed (StreamError m) = ValueError m" "\<not> is_value_error e \<Longrightarrow> renamed e = e"
  by (cases e; simp add: renamed_def is_value_error_def)+

lemma intake_read_loop_eq:
  "intake_read_loop rd sz out s =
     (case read_loop rd sz ''family intake stream'' False out s of (r, t) \<Rightarrow> (map_sum renamed id r, t))"
proof (induction rd sz out s rule: intake_read_loop.induct)
  case (1 rd sz out s)
  obtain r t where rt: "rd (sz - length out) s = (r, t)" by fastforce
  have step: "?case" if "\<not> length out < sz"
    using that by (subst intake_read_loop.simps, subst read_loop.simps) simp
  have fail: "?case" if "length out < sz" and "(\<exists>e. r = Inl e) \<or> r = Inr None \<or> (\<exists>b. r = Inr (Some b) \<and> (b = [] \<or> sz - length out < length b))"
    using that rt
    by (subst intake_read_loop.simps, subst read_loop.simps)
      (elim disjE exE conjE; simp add: stream_failure_def stream_invalid_def stream_incomplete_def)
  have more: "?case" if "length out < sz" "r = Inr (Some b)" "\<not> (b = [] \<or> sz - length out < length b)" for b
    using that rt "1.IH" [OF that(1) rt [symmetric] that(2) refl that(3)]
    by (subst intake_read_loop.simps, subst read_loop.simps) (simp add: id_def)
  show ?case using step fail more by (metis option.exhaust sum.exhaust)
qed

section \<open>The protocol contract\<close>

lemma map_of_sort_key: "distinct (map fst kvs) \<Longrightarrow> map_of (sort_key fst kvs) = map_of kvs"
  by (intro map_of_eqI) (auto simp: distinct_map_sort_key map_of_eq_Some_iff)

lemma frame_values_map:
  assumes "distinct (map fst vals)" and "sort_keys (fs_json schema)"
  shows "map_of (frame_values schema vals) k = map_option sort_json (map_of vals k)"
proof -
  let ?m = "map (\<lambda>(k, v). (k, sort_json v)) vals"
  have d: "distinct (map fst ?m)" using assms(1) by (simp add: comp_def case_prod_unfold)
  have "frame_values schema vals = sort_key fst ?m"
    using assms(2) by (simp add: frame_values_def normal_json_def dump_opts_of_def)
  moreover have "map_of (sort_key fst ?m) = map_of ?m" by (rule map_of_sort_key [OF d])
  ultimately show ?thesis by (simp add: map_of_map comp_def map_option_case split: option.split)
qed

definition printable_text :: "pystr \<Rightarrow> bool" where
  "printable_text s \<longleftrightarrow> s \<noteq> [] \<and> (\<exists>b. utf8_encode s = Inr b) \<and> list_all (\<lambda>c. 32 \<le> c \<and> c \<noteq> 127) s"

lemma validate_text_Inr: "validate_text v = Inr s \<longleftrightarrow> v = JStr s \<and> printable_text s"
  by (cases v; cases "utf8_encode s")
    (auto simp: validate_text_def printable_text_def bindE_Inr_iff require_Inr_iff list_all_iff list_ex_iff not_le)

lemma parse_draft_payload:
  assumes "draft_ok d"
  shows "parse_family_issue_draft (draft_payload d) = Inr d"
    and "parse_family_issue_draft (sort_json (draft_payload d)) = Inr d"
proof -
  let ?kvs = "[(u ''title'', JStr (fd_title d)), (u ''summary'', JStr (fd_summary d)),
     (u ''context'', JStr (fd_context d)), (u ''acceptance_criteria'', JList (map JStr (acceptance_criteria d)))]"
  have t: "mapE (\<lambda>c. case c of JStr s \<Rightarrow> Inr s | _ \<Rightarrow> Inl draft_invalid) (map JStr cs) = Inr cs" for cs
    by (induction cs) simp_all
  have p: "parse_family_issue_draft (JObj kvs) = Inr d"
    if "set (map fst kvs) = REQUEST_FIELDS" "map_of kvs = map_of ?kvs" for kvs
  proof -
    have "validate_draft_text (fd_title d) TITLE_BYTES = Inr (fd_title d)"
      "validate_draft_text (fd_summary d) SUMMARY_BYTES = Inr (fd_summary d)"
      "validate_draft_text (fd_context d) CONTEXT_BYTES = Inr (fd_context d)"
      "validate_draft \<lparr>fd_title = fd_title d, fd_summary = fd_summary d, fd_context = fd_context d,
        acceptance_criteria = acceptance_criteria d\<rparr> = Inr d"
      using assms by (simp_all add: validate_draft_text_Inr validate_draft_Inr draft_ok_def)
    then show ?thesis
      using that t [of "acceptance_criteria d"] by (simp add: parse_family_issue_draft_def draft_text_of_def)
  qed
  have k: "set (map fst ?kvs) = REQUEST_FIELDS" by (auto simp: Family_Issue.REQUEST_FIELDS_def)
  then show "parse_family_issue_draft (draft_payload d) = Inr d" using p by (simp add: draft_payload_def)
  have "sort_json v = v" if "(k, v) \<in> set ?kvs" for k v using that by (auto intro: map_idI)
  then have m: "map (\<lambda>(k, v). (k, sort_json v)) ?kvs = ?kvs" by (intro map_idI) auto
  have "sort_json (draft_payload d) = JObj (sort_key fst ?kvs)"
    by (simp only: draft_payload_def sort_json.simps m)
  moreover have "parse_family_issue_draft (JObj (sort_key fst ?kvs)) = Inr d"
  proof (rule p)
    show "set (map fst (sort_key fst ?kvs)) = REQUEST_FIELDS" using k by (simp only: set_map set_sort)
    show "map_of (sort_key fst ?kvs) = map_of ?kvs" by (rule map_of_sort_key) simp
  qed
  ultimately show "parse_family_issue_draft (sort_json (draft_payload d)) = Inr d" by simp
qed

definition sendable_request :: "nat \<Rightarrow> FamilyIntakeRequest \<Rightarrow> bool" where
  "sendable_request lim r \<longleftrightarrow> 3 \<le> lim \<and> fi_version r = 1 \<and> fi_operation r = REQUEST_OPERATION
     \<and> printable_text (fi_capability r) \<and> clean_str (fi_capability r)
     \<and> (\<exists>d. draft_ok d \<and> fi_payload r = draft_payload d \<and> clean_str (fd_title d) \<and> clean_str (fd_summary d)
          \<and> clean_str (fd_context d) \<and> list_all clean_str (acceptance_criteria d))"

definition sendable_response :: "nat \<Rightarrow> FamilyIntakeResponse \<Rightarrow> bool" where
  "sendable_response lim r \<longleftrightarrow> 1 \<le> lim \<and> fr_version r = 1 \<and> fr_status r = RESPONSE_STATUS
     \<and> printable_text (fr_request_id r) \<and> clean_str (fr_request_id r) \<and> length (fr_request_id r) \<le> 128
     \<and> 1 \<le> fr_expires_at r \<and> small_int (fr_expires_at r)"

abbreviation request_schema :: frame_schema where
  "request_schema \<equiv> intake_schema MAX_REQUEST_BYTES ''request'' INTAKE_REQUEST_FIELDS"

abbreviation response_schema :: frame_schema where
  "response_schema \<equiv> intake_schema MAX_RESPONSE_BYTES ''response'' INTAKE_RESPONSE_FIELDS"

lemma encode_any_fields: "encode_frame (intake_schema m kind names) vals = encode_frame (intake_schema m kind names') vals"
proof -
  have "fs_label (intake_schema m kind names) = fs_label (intake_schema m kind names')"
    "max_bytes (intake_schema m kind names) = max_bytes (intake_schema m kind names')"
    "fs_json (intake_schema m kind names) = fs_json (intake_schema m kind names')"
    by (simp_all add: intake_schema_def)
  then show ?thesis by (simp only: encode_frame_def)
qed

lemma decode_json_reads: "reads_json lim (intake_schema m kind names) (Some (decode_json lim kind'))"
proof -
  have "decode_json lim kind' body = Inr (JObj kvs)"
    if "bindE (codec_decode (encoding (fs_json (intake_schema m kind names))) body)
      (json_loads lim intake_object_without_duplicates intake_reject_constant) = Inr (JObj kvs)" for body kvs
    using that by (simp add: decode_json_def intake_schema_def)
  then show ?thesis
    unfolding reads_json_def option.case
    by (intro exI [of _ intake_object_without_duplicates] exI [of _ intake_reject_constant])
      (simp add: intake_object_without_duplicates_def)
qed

lemma intake_schema_ok: "schema_ok (intake_schema m kind names)"
  by (simp add: intake_schema_def schema_ok_def opts_ok_def dump_opts_of_def u_def)

lemma printable_words: "printable_text REQUEST_OPERATION" "printable_text RESPONSE_STATUS"
  "clean_str REQUEST_OPERATION" "clean_str RESPONSE_STATUS"
  by (simp_all add: printable_text_def REQUEST_OPERATION_def RESPONSE_STATUS_def clean_str_u) (simp_all add: u_def utf8_char_def)

lemma validated_request:
  assumes "sendable_request lim r" and "v \<in> {fi_payload r, sort_json (fi_payload r)}"
  shows "validate_request (JInt (fi_version r)) (JStr (fi_operation r)) (JStr (fi_capability r)) v = Inr r"
proof -
  obtain d where d: "draft_ok d" "fi_payload r = draft_payload d" using assms(1) unfolding sendable_request_def by blast
  have "validate_text (JStr s) = Inr s" if "printable_text s" for s using that by (simp add: validate_text_Inr)
  moreover have "parse_family_issue_draft v = Inr d" using assms(2) d parse_draft_payload [OF d(1)] by auto
  moreover have "\<exists>kvs. v = JObj kvs" using assms(2) d by (auto simp: draft_payload_def)
  ultimately show ?thesis
    using assms(1) d printable_words(1)
    by (auto simp: validate_request_def validate_version_def sendable_request_def PROTOCOL_VERSION_def)
qed

lemma foldr_max_bound: "foldr max xs 0 \<le> n \<longleftrightarrow> (\<forall>x \<in> set xs. x \<le> n)" for n :: nat
  by (induction xs) auto

lemma foldr_max_cong: "set xs = set ys \<Longrightarrow> foldr max xs 0 = foldr max ys (0 :: nat)"
  by (metis foldr_max_bound order_refl antisym)

lemma depth_sort_json [simp]: "depth (sort_json v) = depth v"
proof (induction v rule: sort_json.induct)
  case (1 vs)
  then have "map depth (map sort_json vs) = map depth vs" by simp
  then show ?case by (simp only: sort_json.simps depth.simps)
next
  case (2 kvs)
  then have "(\<lambda>(k, v). depth v) ` set (map (\<lambda>(k, v). (k, sort_json v)) kvs) = (\<lambda>(k, v). depth v) ` set kvs"
    by (force simp: image_image)
  then have "foldr max (map (\<lambda>(k, v). depth v) (sort_key fst (map (\<lambda>(k, v). (k, sort_json v)) kvs))) 0
      = foldr max (map (\<lambda>(k, v). depth v) kvs) 0"
    by (intro foldr_max_cong) simp
  then show ?case by simp
qed simp_all

interpretation intake_request: frame_protocol lim request_schema "Some (decode_json lim ''request'')"
  request_values request_from_values "sendable_request lim" for lim
proof
  show "schema_ok request_schema" by (rule intake_schema_ok)
  show "reads_json lim request_schema (Some (decode_json lim ''request''))" by (rule decode_json_reads)
next
  fix r assume s: "sendable_request lim r"
  then obtain d where d: "draft_ok d" "fi_payload r = draft_payload d" "clean_str (fd_title d)" "clean_str (fd_summary d)"
    "clean_str (fd_context d)" "list_all clean_str (acceptance_criteria d)" unfolding sendable_request_def by blast
  have c: "clean_str (u ''title'')" "clean_str (u ''summary'')" "clean_str (u ''context'')"
    "clean_str (u ''acceptance_criteria'')" "clean_str (u ''version'')" "clean_str (u ''operation'')"
    "clean_str (u ''capability'')" "clean_str (u ''payload'')" by (simp_all only: clean_str_u)
  have ks: "distinct (map fst (request_values r))" by (simp add: request_values_def)
  show k: "set (map fst (request_values r)) = fs_fields request_schema"
    by (auto simp: request_values_def intake_schema_def INTAKE_REQUEST_FIELDS_def)
  show "plain (JObj (request_values r))"
    using s d c printable_words by (simp add: request_values_def sendable_request_def draft_payload_def list_all_iff)
  show "depth (JObj (frame_values request_schema (request_values r))) \<le> lim"
  proof -
    have "JObj (frame_values request_schema (request_values r)) = sort_json (JObj (request_values r))"
      by (simp add: frame_values_def normal_json_def dump_opts_of_def intake_schema_def)
    moreover have "depth (JObj (request_values r)) \<le> 3"
    proof -
      have "foldr max (map depth (map JStr (acceptance_criteria d))) 0 \<le> (0 :: nat)" by (simp only: foldr_max_bound) auto
      then show ?thesis by (simp add: request_values_def d(2) draft_payload_def)
    qed
    ultimately show ?thesis using s by (simp only: depth_sort_json) (simp add: sendable_request_def)
  qed
  show "request_from_values (map_of (frame_values request_schema (request_values r))) = Inr r"
    using validated_request [OF s, of "sort_json (fi_payload r)"]
    by (simp add: request_from_values_def field_of_def frame_values_map ks intake_schema_def) (simp add: request_values_def)
qed

interpretation intake_response: flat_protocol lim response_schema "Some (decode_json lim ''response'')"
  response_values response_from_values "sendable_response lim" for lim
proof
  show "schema_ok response_schema" by (rule intake_schema_ok)
  show "reads_json lim response_schema (Some (decode_json lim ''response''))" by (rule decode_json_reads)
next
  fix r assume s: "sendable_response lim r"
  show "1 \<le> lim" using s by (simp add: sendable_response_def)
  show "set (map fst (response_values r)) = fs_fields response_schema"
    by (auto simp: response_values_def intake_schema_def INTAKE_RESPONSE_FIELDS_def)
  show "distinct (map fst (response_values r))" by (simp add: response_values_def)
  show "list_all (\<lambda>(k, v). clean_str k \<and> scalar v \<and> plain v) (response_values r)"
    using s printable_words by (simp add: response_values_def sendable_response_def clean_str_u)
  have t: "validate_text (JStr x) = Inr x" if "printable_text x" for x using that by (simp add: validate_text_Inr)
  then show "response_from_values (map_of (response_values r)) = Inr r"
    using s printable_words
    by (simp add: response_from_values_def response_values_def sendable_response_def validate_response_def
        validate_version_def PROTOCOL_VERSION_def field_of_def)
qed

context byte_source
begin

lemma intake_read_exact_content:
  assumes "n \<le> length (content s)"
  obtains t where "intake_read_exact rd n s = (Inr (take n (content s)), t)" and "content t = drop n (content s)"
proof -
  obtain t where "content t = drop n (content s)"
    "read_loop rd n ''family intake stream'' False [] s = (Inr (take n (content s)), t)"
    by (rule read_exact_content [of n s "''family intake stream''" False]) (use assms in \<open>simp add: read_exact_def\<close>)
  then show thesis by (intro that [of t]) (simp_all add: intake_read_exact_def intake_read_loop_eq)
qed

lemma intake_read_frame_content:
  assumes "content s = b @ rest" and "length b = HEADER_BYTES + unpack_u32 (take HEADER_BYTES b)"
    and "0 < unpack_u32 (take HEADER_BYTES b)" and "unpack_u32 (take HEADER_BYTES b) \<le> maximum - HEADER_BYTES"
  obtains t where "intake_read_frame maximum kind rd s = (Inr b, t)" and "content t = rest"
proof -
  let ?n = "unpack_u32 (take HEADER_BYTES b)"
  obtain t1 where t1: "intake_read_exact rd HEADER_BYTES s = (Inr (take HEADER_BYTES b), t1)"
    "content t1 = drop HEADER_BYTES b @ rest"
    using intake_read_exact_content [of HEADER_BYTES s] assms(1,2) by auto
  obtain t2 where t2: "intake_read_exact rd ?n t1 = (Inr (drop HEADER_BYTES b), t2)" "content t2 = rest"
    using intake_read_exact_content [of ?n t1] t1(2) assms(2) by auto
  show thesis
    by (rule that [of t2]) (use t1 t2 assms in \<open>simp_all add: intake_read_frame_def Let_def\<close>)
qed

end

section \<open>Properties\<close>

definition demo_intake :: FamilyIntakeRequest where
  "demo_intake = \<lparr>fi_version = 1, fi_operation = REQUEST_OPERATION, fi_capability = u ''c'', fi_payload = draft_payload demo_draft\<rparr>"

lemma demo_intake_sendable: "sendable_request 3 demo_intake"
proof -
  have "draft_ok demo_draft \<and> clean_str (fd_title demo_draft) \<and> clean_str (fd_summary demo_draft)
      \<and> clean_str (fd_context demo_draft) \<and> list_all clean_str (acceptance_criteria demo_draft)"
    using demo_draft_ok by (simp add: demo_draft_def clean_str_u)
  moreover have "printable_text (u ''c'')" "clean_str (u ''c'')" by (simp_all add: printable_text_def u_def utf8_char_def clean_str_def is_surrogate_def)
  ultimately show ?thesis unfolding sendable_request_def demo_intake_def by auto
qed

lemma demo_intake_encoded: "\<exists>b. encode_request_frame demo_intake = Inr b"
  using validated_request [OF demo_intake_sendable, of "fi_payload demo_intake"]
  by (simp add: encode_request_frame_def) (simp add: encode_frame_def demo_intake_def request_values_def draft_payload_def demo_draft_def REQUEST_OPERATION_def
      intake_schema_def MAX_REQUEST_BYTES_def dump_opts_of_def json_eval utf8_char_def
      char_of_def bit_0 HEADER_BYTES_def int_repr_def dec_digits.simps digit_def pack_u32_def)

text \<open>
  Proposals arrive as they were sent: a request that \<open>encode_request_frame\<close> accepts, with a
  well-formed proposal, is what \<open>read_request_frame\<close> returns to the broker, however the socket cuts
  the bytes (through transfer loops of the module's own); nothing after it is read, and no other
  such request has an encoding that starts the same stream.
\<close>

lemma intake_request_delivery:
  assumes "sendable_request lim r" and "encode_request_frame r = Inr b"
  shows "(\<exists>cuts'. read_request_frame lim sock_read \<lparr>sock_buf = b @ rest, sock_cuts = cuts\<rparr>
      = (Inr r, \<lparr>sock_buf = rest, sock_cuts = cuts'\<rparr>))
    \<and> (\<forall>r' b' rest'. sendable_request lim r' \<and> encode_request_frame r' = Inr b' \<and> b @ rest = b' @ rest'
        \<longrightarrow> r' = r)"
proof -
  have enc: "encode_frame request_schema (request_values r) = Inr b"
    if "sendable_request lim r" "encode_request_frame r = Inr b" for r b
    using that validated_request [OF that(1), of "fi_payload r"]
    by (simp add: encode_request_frame_def encode_any_fields [where names = "{}" and names' = INTAKE_REQUEST_FIELDS])
  note e = enc [OF assms]
  have d: "decode_request_frame lim b = Inr (r, length b)"
    using intake_request.decode_encoded [OF assms(1) e, of "[]"] by (simp add: decode_request_frame_def)
  then have n: "length b = HEADER_BYTES + unpack_u32 (take HEADER_BYTES b)" "0 < unpack_u32 (take HEADER_BYTES b)"
    "unpack_u32 (take HEADER_BYTES b) \<le> MAX_REQUEST_BYTES - HEADER_BYTES"
    by (auto simp: decode_request_frame_def decode_message_def decode_frame_Inr_iff intake_schema_def)
  obtain t where "intake_read_frame MAX_REQUEST_BYTES ''request'' sock_read \<lparr>sock_buf = b @ rest, sock_cuts = cuts\<rparr> = (Inr b, t)"
    "sock_buf t = rest"
    using sock_source.intake_read_frame_content [of "\<lparr>sock_buf = b @ rest, sock_cuts = cuts\<rparr>" b rest MAX_REQUEST_BYTES] n
    by auto
  then have "\<exists>t. read_request_frame lim sock_read \<lparr>sock_buf = b @ rest, sock_cuts = cuts\<rparr> = (Inr r, t) \<and> sock_buf t = rest"
    using d by (simp add: read_request_frame_def)
  moreover have "r' = r" if "sendable_request lim r'" "encode_request_frame r' = Inr b'" "b @ rest = b' @ rest'" for r' b' rest'
    using intake_request.unambiguous [OF assms(1) e that(1) enc [OF that(1,2)] that(3)] by simp
  ultimately show ?thesis by (metis sock.surjective old.unit.exhaust)
qed

end
