(* ===== verification/Family_Intake.thy ===== *)
theory Family_Intake
  imports Intake_Protocol Pending_Store Broker_Runtime Broker_Connection Replay_Guard
begin

text \<open>
  \<open>src/agent_container/family_intake_broker.py\<close> and \<open>family_intake_transport.py\<close>: the session of one
  family run, which admits only clients below a registered process and accepts one proposal. The
  session's clock, random source and process reader are fields, as in the code; the default reader
  parses \<open>/proc/<pid>/stat\<close>. Methods run on the session beside the world; \<open>_lock\<close> makes
  each of them one step.
\<close>

section \<open>Process identities\<close>

definition MAX_PROCESS_STAT_BYTES :: nat where
  "MAX_PROCESS_STAT_BYTES = 8192"

definition MAX_PROCESS_DEPTH :: nat where
  "MAX_PROCESS_DEPTH = 64"

text \<open>Parent, start time and owner.\<close>

type_synonym process_identity = "int \<times> int \<times> int"

definition identity_invalid :: exn where
  "identity_invalid = ValueError ''family intake process identity is invalid''"

text \<open>\<open>int(s)\<close> for an ASCII string without white space at its ends; \<open>s.split()\<close>.\<close>

fun int_digits :: "pystr \<Rightarrow> pystr option" where
  "int_digits [] = None"
| "int_digits [c] = (if is_digit c then Some [c] else None)"
| "int_digits (c # d # cs) =
     (if is_digit c then map_option ((#) c) (int_digits (if d = 95 then cs else d # cs)) else None)"

definition py_int :: "pystr \<Rightarrow> exn + int" where
  "py_int s =
     (let neg = startswith s (u ''-''); body = (if neg \<or> startswith s (u ''+'') then tl s else s) in
      case int_digits body of
        None \<Rightarrow> Inl (ValueError ''invalid literal for int()'')
      | Some ds \<Rightarrow>
          if length ds \<le> max_int_digits then Inr (if neg then - int (undec ds) else int (undec ds))
          else Inl (ValueError ''int string conversion limit''))"

fun split_fields :: "pystr \<Rightarrow> pystr \<Rightarrow> pystr list" where
  "split_fields word [] = (if word = [] then [] else [word])"
| "split_fields word (c # cs) =
     (if is_space c then (if word = [] then [] else [word]) @ split_fields [] cs
      else split_fields (word @ [c]) cs)"

text \<open>\<open>s.find(c)\<close> and \<open>s.rfind(c)\<close>.\<close>

definition find_char :: "nat \<Rightarrow> pystr \<Rightarrow> int" where
  "find_char c s = (if c \<in> set s then int (length (takeWhile (\<lambda>x. x \<noteq> c) s)) else - 1)"

definition rfind_char :: "nat \<Rightarrow> pystr \<Rightarrow> int" where
  "rfind_char c s =
     (if c \<in> set s then int (length s) - 1 - int (length (takeWhile (\<lambda>x. x \<noteq> c) (rev s))) else - 1)"

definition parse_stat :: "int \<Rightarrow> bytes \<Rightarrow> int \<Rightarrow> exn + process_identity" where
  "parse_stat pid body owner_uid =
     bindE (ascii_decode body) (\<lambda>text.
     let opening = find_char 40 text; closing = rfind_char 41 text in
     if opening < 1 \<or> closing \<le> opening \<or> \<not> startswith (drop (nat (closing + 1)) text) (u '' '')
     then Inl identity_invalid
     else
       bindE (py_int (strip (take (nat opening) text))) (\<lambda>observed_pid.
       let stat_fields = split_fields [] (drop (nat (closing + 2)) text) in
       if observed_pid \<noteq> pid \<or> length stat_fields < 20 then Inl identity_invalid
       else
         bindE (py_int (stat_fields ! 1)) (\<lambda>parent_pid.
         bindE (py_int (stat_fields ! 19)) (\<lambda>start_time.
         if parent_pid < 0 \<or> start_time \<le> 0 \<or> owner_uid < 0 then Inl identity_invalid
         else Inr (parent_pid, start_time, owner_uid)))))"

function read_stat_loop :: "nat \<Rightarrow> bytes \<Rightarrow> bytes io" where
  "read_stat_loop fd body =
     (if length body \<le> MAX_PROCESS_STAT_BYTES then
        bind (os_read fd (min 1024 (MAX_PROCESS_STAT_BYTES + 1 - length body))) (\<lambda>chunk.
          if chunk = [] then ret body else read_stat_loop fd (body @ chunk))
      else ret body)"
  by pat_completeness auto
termination
  by (relation "measure (\<lambda>(fd, body). MAX_PROCESS_STAT_BYTES + 1 - length body)") (auto simp: diff_less_mono2)

declare read_stat_loop.simps [simp del]

definition read_process_identity :: "int \<Rightarrow> process_identity io" where
  "read_process_identity pid =
     bind (check (0 < pid) identity_invalid) (\<lambda>_.
     let process_path = path_join (path_of (u ''/proc'')) (int_repr pid); stat_path = path_join process_path (u ''stat'') in
     with_locals None
       (try_finally
         (translate (\<lambda>e. is_os_error e \<or> is_value_error e) identity_invalid
           (bind (sys (path_stat process_path)) (\<lambda>owner.
            bind (sys (os_open_path [O_RDONLY] 511 stat_path)) (\<lambda>fd.
            bind (assign (\<lambda>_. Some fd)) (\<lambda>_.
            bind (sys (read_stat_loop fd [])) (\<lambda>body.
            bind (check (length body \<le> MAX_PROCESS_STAT_BYTES) identity_invalid) (\<lambda>_.
            lift (parse_stat pid body (int (st_uid owner))))))))))
         (locals (\<lambda>descriptor. if_some descriptor (\<lambda>fd. sys (os_close fd))))))"

section \<open>The session\<close>

record FamilyIntakeSession =
  si_project_id :: pystr
  si_capability :: pystr
  si_expires_at :: int
  si_consumed :: bool
  si_store :: path
  si_binding_path :: path
  si_audit_path :: path
  si_agent :: pystr
  si_repository :: pystr
  si_owner_uid :: int
  si_clock :: "int io"
  si_random_bytes :: "nat \<Rightarrow> bytes io"
  si_process_reader :: "int \<Rightarrow> process_identity io"
  si_active :: bool
  si_failed :: bool
  si_registration_attempted :: bool
  si_runtime_root :: "(int \<times> int) option"

type_synonym 'a intake = "(FamilyIntakeSession \<times> world, 'a) prog"

definition session_invalid :: exn where
  "session_invalid = ValueError ''family intake session is invalid''"

definition exact_nonnegative_integer :: "int \<Rightarrow> exn + int" where
  "exact_nonnegative_integer value = (if value < 0 then Inl session_invalid else Inr value)"

definition validate_store :: "path \<Rightarrow> pystr \<Rightarrow> exn + path" where
  "validate_store store project_id =
     (if \<not> fst store then Inl session_invalid
      else if path_name store \<noteq> u ''pending'' \<or> path_name (path_parent store) \<noteq> project_id
        \<or> path_name (path_parent (path_parent store)) \<noteq> u ''projects'' then Inl session_invalid
      else Inr store)"

text \<open>\<open>__post_init__\<close>, on the record of the constructor's arguments.\<close>

definition create_intake_session :: "FamilyIntakeSession \<Rightarrow> exn + FamilyIntakeSession" where
  "create_intake_session s =
     (let caught = reraise_if (\<lambda>e. e = TypeError \<or> is_value_error e) session_invalid in
      bindE (caught (validate_project_id (si_project_id s))) (\<lambda>project_id.
      bindE (require (CAPABILITY_PATTERN (si_capability s)) session_invalid) (\<lambda>_.
      bindE (caught (validate_agent (si_agent s) False)) (\<lambda>agent.
      bindE (caught (validate_project_id (si_repository s))) (\<lambda>repository.
      bindE (exact_nonnegative_integer (si_expires_at s)) (\<lambda>expires_at.
      bindE (exact_nonnegative_integer (si_owner_uid s)) (\<lambda>owner_uid.
      bindE (validate_store (si_store s) project_id) (\<lambda>store.
      bindE (require (fst (si_binding_path s)
          \<and> si_binding_path s = path_join (path_parent store) (u ''binding.json'')
          \<and> fst (si_audit_path s)
          \<and> si_audit_path s = path_join (path_join (path_parent store) (u ''audit'')) (u ''events.jsonl''))
        session_invalid) (\<lambda>_.
      Inr (s\<lparr>si_project_id := project_id, si_agent := agent, si_repository := repository,
             si_expires_at := expires_at, si_owner_uid := owner_uid, si_store := store,
             si_active := True, si_failed := False, si_registration_attempted := False,
             si_runtime_root := None\<rparr>))))))))))"

definition owns_store :: "FamilyIntakeSession \<Rightarrow> path \<Rightarrow> bool" where
  "owns_store s store \<longleftrightarrow> store = si_store s"

definition fail_locked :: "FamilyIntakeSession \<Rightarrow> FamilyIntakeSession" where
  "fail_locked s = s\<lparr>si_failed := True, si_active := False, si_capability := []\<rparr>"

definition deactivate_intake :: "FamilyIntakeSession \<Rightarrow> FamilyIntakeSession" where
  "deactivate_intake s = s\<lparr>si_active := False, si_capability := []\<rparr>"

definition read_process :: "FamilyIntakeSession \<Rightarrow> int \<Rightarrow> process_identity io" where
  "read_process s pid =
     bind (translate (\<lambda>e. is_os_error e \<or> is_runtime_error e \<or> e = TypeError \<or> is_value_error e)
       FamilyIntakeDenied (si_process_reader s pid)) (\<lambda>identity.
     case identity of (parent, start, owner) \<Rightarrow>
       bind (check (\<not> (parent < 0 \<or> start \<le> 0 \<or> owner < 0)) FamilyIntakeDenied) (\<lambda>_. ret identity))"

section \<open>The registered process and its descendants\<close>

definition registration_invalid :: exn where
  "registration_invalid = ValueError ''family intake runtime registration is invalid''"

definition register_runtime :: "int \<Rightarrow> unit intake" where
  "register_runtime peer_pid = locals (\<lambda>s.
     bind (check (\<not> (\<not> si_active s \<or> si_consumed s \<or> si_registration_attempted s \<or> peer_pid \<le> 0))
       registration_invalid) (\<lambda>_.
     bind (assign (\<lambda>s. s\<lparr>si_registration_attempted := True\<rparr>)) (\<lambda>_.
     bind (sys (read_process s peer_pid)) (\<lambda>first.
     bind (sys (read_process s peer_pid)) (\<lambda>second.
     bind (check (\<not> (first \<noteq> second \<or> snd (snd first) \<noteq> si_owner_uid s)) registration_invalid) (\<lambda>_.
     assign (\<lambda>s. s\<lparr>si_runtime_root := Some (peer_pid, fst (snd first))\<rparr>)))))))"

text \<open>
  The walk of \<open>validate_peer\<close> from \<open>current\<close> up to the root, at most \<open>n\<close> processes; \<open>snapshots\<close>
  lists the processes seen, in order.
\<close>

fun walk_ancestors ::
  "nat \<Rightarrow> FamilyIntakeSession \<Rightarrow> int \<times> int \<Rightarrow> (int \<times> process_identity) list \<Rightarrow> int
     \<Rightarrow> (int \<times> process_identity) list io" where
  "walk_ancestors 0 s root snapshots current = raise FamilyIntakeDenied"
| "walk_ancestors (Suc n) s root snapshots current =
     bind (check (current \<notin> fst ` set snapshots) FamilyIntakeDenied) (\<lambda>_.
     bind (read_process s current) (\<lambda>identity.
     bind (check (snd (snd identity) = si_owner_uid s) FamilyIntakeDenied) (\<lambda>_.
     let snapshots = snapshots @ [(current, identity)] in
     if current = fst root
     then bind (check (fst (snd identity) = snd root) FamilyIntakeDenied) (\<lambda>_. ret snapshots)
     else
       bind (check (\<not> (fst identity \<le> 0 \<or> fst identity = current)) FamilyIntakeDenied) (\<lambda>_.
       walk_ancestors n s root snapshots (fst identity)))))"

definition recheck :: "FamilyIntakeSession \<Rightarrow> int \<times> process_identity \<Rightarrow> unit io" where
  "recheck s seen =
     bind (read_process s (fst seen)) (\<lambda>observed. check (observed = snd seen) FamilyIntakeDenied)"

definition validate_peer :: "int \<Rightarrow> int \<Rightarrow> unit intake" where
  "validate_peer peer_pid peer_uid = locals (\<lambda>s.
     case si_runtime_root s of
       None \<Rightarrow> raise FamilyIntakeDenied
     | Some root \<Rightarrow>
         bind (check (\<not> (\<not> si_active s \<or> peer_pid \<le> 0 \<or> peer_uid \<noteq> si_owner_uid s)) FamilyIntakeDenied) (\<lambda>_.
         bind (sys (walk_ancestors MAX_PROCESS_DEPTH s root [] peer_pid)) (\<lambda>snapshots.
         bind (sys (map_io (recheck s) snapshots)) (\<lambda>_. ret ()))))"

section \<open>One proposal\<close>

definition prepare_issue :: "FamilyIntakeSession \<Rightarrow> FamilyIntakeRequest \<Rightarrow> exn + CanonicalFamilyIssue" where
  "prepare_issue s request =
     reraise_if (\<lambda>e. e = TypeError \<or> is_value_error e) FamilyIntakeDenied
       (bindE (encode_request_frame request) (\<lambda>_.
        bindE (parse_family_issue_draft (fi_payload request)) (\<lambda>draft.
        canonicalize_family_issue draft (Some (si_agent s)) (Some (si_repository s)))))"

text \<open>The part of \<open>handle\<close> that decides, and consumes the capability.\<close>

definition authorize_intake :: "nat \<Rightarrow> FamilyIntakeRequest \<Rightarrow> int \<Rightarrow> unit intake" where
  "authorize_intake lim request observed_now = locals (\<lambda>s.
     bind (check (\<not> (\<not> si_active s \<or> si_runtime_root s = None \<or> si_consumed s \<or> si_expires_at s \<le> observed_now
         \<or> fi_version request \<noteq> 1 \<or> fi_operation request \<noteq> u ''issue_create_request'')) FamilyIntakeDenied) (\<lambda>_.
     bind (lift (compare_digest (fi_capability request) (si_capability s))) (\<lambda>same.
     bind (check same FamilyIntakeDenied) (\<lambda>_.
     bind (translate (\<lambda>e. is_os_error e \<or> e = TypeError \<or> is_value_error e) FamilyIntakeDenied
       (sys (load_family_binding lim (si_binding_path s)))) (\<lambda>_.
     assign (\<lambda>s. s\<lparr>si_consumed := True\<rparr>))))))"

definition persist_issue :: "nat \<Rightarrow> CanonicalFamilyIssue \<Rightarrow> int \<Rightarrow> FamilyIntakeResponse intake" where
  "persist_issue lim issue observed_now = locals (\<lambda>s.
     bind (try_except
       (sys (create_pending lim (si_store s) (si_project_id s) issue observed_now (Some (si_audit_path s))
          (si_random_bytes s 16)))
       (\<lambda>e. case e of
          PendingCapacityError _ \<Rightarrow> raise FamilyIntakeDenied
        | _ \<Rightarrow> if is_os_error e \<or> is_runtime_error e \<or> e = TypeError \<or> is_value_error e
               then bind (assign fail_locked) (\<lambda>_. raise FamilyIntakeInternalError)
               else raise e)) (\<lambda>pending.
     ret \<lparr>fr_version = 1, fr_status = u ''pending'', fr_request_id = pr_request_id pending,
          fr_expires_at = pr_expires_at pending\<rparr>))"

definition handle_locked ::
  "nat \<Rightarrow> FamilyIntakeRequest \<Rightarrow> CanonicalFamilyIssue \<Rightarrow> int \<Rightarrow> FamilyIntakeResponse intake" where
  "handle_locked lim request issue observed_now =
     (if observed_now < 0 then bind (assign fail_locked) (\<lambda>_. raise FamilyIntakeInternalError)
      else bind (authorize_intake lim request observed_now) (\<lambda>_. persist_issue lim issue observed_now))"

definition handle_request :: "nat \<Rightarrow> FamilyIntakeRequest \<Rightarrow> FamilyIntakeResponse intake" where
  "handle_request lim request = locals (\<lambda>s.
     bind (lift (prepare_issue s request)) (\<lambda>issue.
     bind (sys (si_clock s)) (\<lambda>observed_now.
     handle_locked lim request issue observed_now)))"

section \<open>One connection\<close>

text \<open>\<open>FamilyPeerPolicy.admit\<close>; the state is the client's stream, the session and the world.\<close>

definition admit_peer :: "int \<Rightarrow> int \<Rightarrow> bool intake" where
  "admit_peer peer_pid peer_uid =
     try_except (bind (validate_peer peer_pid peer_uid) (\<lambda>_. ret True))
       (\<lambda>e. if e = FamilyIntakeDenied then ret False else raise e)"

definition on_session :: "'a intake \<Rightarrow> ('c \<times> FamilyIntakeSession \<times> world, 'a) prog" where
  "on_session m csw = (case m (snd csw) of (r, sw) \<Rightarrow> (r, (fst csw, sw)))"

definition on_client :: "('c \<Rightarrow> (exn + 'a) \<times> 'c) \<Rightarrow> ('c \<times> FamilyIntakeSession \<times> world, 'a) prog" where
  "on_client f csw = (case f (fst csw) of (r, c) \<Rightarrow> (r, (c, snd csw)))"

definition handle_intake_connection ::
  "nat \<Rightarrow> 'c stream_methods \<Rightarrow> path \<Rightarrow> ('c \<times> FamilyIntakeSession \<times> world, unit) prog" where
  "handle_intake_connection lim io store =
     try_finally
       (try_except
         (bind (on_session (locals (\<lambda>s. check (owns_store s store) (ValueError ''family intake store is invalid'')))) (\<lambda>_.
          bind (on_client (read_request_frame lim (sm_read io))) (\<lambda>request.
          bind (on_session (handle_request lim request)) (\<lambda>response.
          on_client (write_response_frame (sm_write io) (sm_flush io) response)))))
         (\<lambda>e. if e = FamilyIntakeInternalError then raise e
              else if e = FamilyIntakeDenied \<or> is_os_error e \<or> e = TypeError \<or> is_value_error e then ret ()
              else raise e))
       (try_except (on_client (sm_close io))
         (\<lambda>e. if is_os_error e \<or> e = TypeError \<or> is_value_error e then ret () else raise e))"

end
