(* ===== verification/Intake_Safety.thy ===== *)
theory Intake_Safety
  imports Family_Intake
begin

text \<open>
  The family intake admits exactly the descendants of the registered process, and its capability is
  good for one proposal.
\<close>

section \<open>Admission\<close>

text \<open>A process table that does not change while it is read.\<close>

definition table_reader :: "(int \<rightharpoonup> process_identity) \<Rightarrow> int \<Rightarrow> process_identity io" where
  "table_reader T pid w = (case T pid of None \<Rightarrow> Inl FileNotFoundError | Some i \<Rightarrow> Inr i, w)"

text \<open>The steps of the owner's processes to their parents.\<close>

definition parent_of :: "(int \<rightharpoonup> process_identity) \<Rightarrow> int \<Rightarrow> (int \<times> int) set" where
  "parent_of T owner = {(p, q). \<exists>t. T p = Some (q, t, owner) \<and> 0 < t \<and> 0 < q}"

definition well_formed :: "process_identity \<Rightarrow> bool" where
  "well_formed i \<longleftrightarrow> 0 \<le> fst i \<and> 0 < fst (snd i) \<and> 0 \<le> snd (snd i)"

lemma read_table:
  "si_process_reader s = table_reader T \<Longrightarrow> 0 \<le> si_owner_uid s \<Longrightarrow>
   read_process s p w = (case T p of
      Some i \<Rightarrow> if well_formed i then Inr i else Inl FamilyIntakeDenied | None \<Rightarrow> Inl FamilyIntakeDenied, w)"
  by (auto simp: read_process_def table_reader_def well_formed_def bind_def translate_def try_except_def raise_def ret_def
      check_def is_os_error_def split: option.split)

lemma parent_of_fun: "(p, q) \<in> parent_of T uid \<Longrightarrow> (p, q') \<in> parent_of T uid \<Longrightarrow> q = q'"
  by (auto simp: parent_of_def)

text \<open>How far the root is above a process.\<close>

definition height :: "(int \<times> int) set \<Rightarrow> int \<Rightarrow> int \<Rightarrow> nat" where
  "height R r p = (LEAST n. (p, r) \<in> R ^^ n)"

lemma height_step:
  assumes "(p, r) \<in> R ^^ n" "p \<noteq> r" "\<And>q q'. (p, q) \<in> R \<Longrightarrow> (p, q') \<in> R \<Longrightarrow> q = q'"
  shows "\<exists>q. (p, q) \<in> R \<and> (q, r) \<in> R ^^ (height R r p - 1) \<and> height R r p = Suc (height R r q)"
proof -
  have h: "(p, r) \<in> R ^^ height R r p" unfolding height_def using assms(1) by (rule LeastI)
  then obtain m where m: "height R r p = Suc m" using assms(2) by (cases "height R r p") auto
  with h obtain q where q: "(p, q) \<in> R" "(q, r) \<in> R ^^ m" by (metis relpow_Suc_D2)
  have "height R r q \<le> m" unfolding height_def using q(2) by (rule Least_le)
  moreover have "height R r p \<le> Suc (height R r q)"
  proof -
    have "(q, r) \<in> R ^^ height R r q" unfolding height_def using q(2) by (rule LeastI)
    then have "(p, r) \<in> R ^^ Suc (height R r q)" using q(1) by (rule relpow_Suc_I2 [rotated])
    then show ?thesis unfolding height_def by (rule Least_le)
  qed
  ultimately show ?thesis using q m by auto
qed

definition tree :: "FamilyIntakeSession \<Rightarrow> (int \<rightharpoonup> process_identity) \<Rightarrow> (int \<times> int) set" where
  "tree s T = parent_of T (si_owner_uid s)"

definition root_alive :: "FamilyIntakeSession \<Rightarrow> (int \<rightharpoonup> process_identity) \<Rightarrow> int \<times> int \<Rightarrow> bool" where
  "root_alive s T root \<longleftrightarrow> (\<exists>q. T (fst root) = Some (q, snd root, si_owner_uid s) \<and> 0 \<le> q \<and> 0 < snd root)"

text \<open>A session that reads from the table \<open>T\<close>.\<close>

definition reads_table :: "FamilyIntakeSession \<Rightarrow> (int \<rightharpoonup> process_identity) \<Rightarrow> bool" where
  "reads_table s T \<longleftrightarrow> si_process_reader s = table_reader T \<and> 0 \<le> si_owner_uid s"

definition in_table :: "(int \<rightharpoonup> process_identity) \<Rightarrow> (int \<times> process_identity) list \<Rightarrow> bool" where
  "in_table T seen \<longleftrightarrow> (\<forall>x \<in> set seen. T (fst x) = Some (snd x) \<and> well_formed (snd x))"

lemma in_table_simps [simp]:
  "in_table T []" "in_table T (xs @ [x]) \<longleftrightarrow> in_table T xs \<and> T (fst x) = Some (snd x) \<and> well_formed (snd x)"
  "in_table T (x # xs) \<longleftrightarrow> T (fst x) = Some (snd x) \<and> well_formed (snd x) \<and> in_table T xs"
  by (auto simp: in_table_def)

lemma read_process_table:
  "reads_table s T \<Longrightarrow> read_process s p w = (case T p of
      Some i \<Rightarrow> if well_formed i then Inr i else Inl FamilyIntakeDenied | None \<Rightarrow> Inl FamilyIntakeDenied, w)"
  by (simp add: read_table reads_table_def)

lemmas walk_simps = read_process_table bind_def check_def raise_def ret_def Let_def

lemma walk_sound:
  "reads_table s T \<Longrightarrow> walk_ancestors n s root seen p w = (Inr seen', w') \<Longrightarrow>
   (\<exists>k<n. (p, fst root) \<in> tree s T ^^ k) \<and> root_alive s T root"
proof (induction n arbitrary: seen p)
  case (Suc n)
  show ?case
  proof (cases "p = fst root")
    case True
    with Suc.prems have "root_alive s T root"
      by (auto simp: walk_simps well_formed_def root_alive_def split: if_split_asm option.split_asm)
    moreover have "(p, fst root) \<in> tree s T ^^ 0" using True by simp
    ultimately show ?thesis by blast
  next
    case False
    with Suc.prems obtain q t where q: "T p = Some (q, t, si_owner_uid s)" "0 < t" "0 < q"
      and w: "walk_ancestors n s root (seen @ [(p, q, t, si_owner_uid s)]) q w = (Inr seen', w')"
      by (auto simp: walk_simps well_formed_def split: if_split_asm option.split_asm)
    then have "(p, q) \<in> tree s T" by (auto simp: tree_def parent_of_def)
    with Suc.IH [OF Suc.prems(1) w] show ?thesis by (metis Suc_mono relpow_Suc_I2)
  qed
qed (simp add: raise_def)

lemma walk_complete:
  assumes "root_alive s T root" "reads_table s T"
  shows "(p, fst root) \<in> tree s T ^^ k \<Longrightarrow> height (tree s T) (fst root) p < n \<Longrightarrow>
     \<forall>x \<in> set seen. height (tree s T) (fst root) p < height (tree s T) (fst root) (fst x) \<Longrightarrow>
     in_table T seen \<Longrightarrow>
     \<exists>seen'. walk_ancestors n s root seen p w = (Inr seen', w)
       \<and> in_table T seen'"
proof (induction n arbitrary: seen p k)
  have owner: "0 \<le> si_owner_uid s" using assms(2) by (simp add: reads_table_def)
  case (Suc n)
  have fresh: "p \<notin> fst ` set seen" using Suc.prems(3) by auto
  show ?case
  proof (cases "p = fst root")
    case True
    with assms fresh Suc.prems(4) show ?thesis
      by (auto simp: walk_simps root_alive_def well_formed_def owner)
  next
    case False
    obtain q where q: "(p, q) \<in> tree s T" "(q, fst root) \<in> tree s T ^^ (height (tree s T) (fst root) p - 1)"
      and h: "height (tree s T) (fst root) p = Suc (height (tree s T) (fst root) q)"
      using height_step [OF Suc.prems(1) False] parent_of_fun unfolding tree_def by blast
    from q(1) obtain t where t: "T p = Some (q, t, si_owner_uid s)" "0 < t" "0 < q"
      by (auto simp: tree_def parent_of_def)
    have "q \<noteq> p" using h by auto
    moreover have "\<exists>seen'. walk_ancestors n s root (seen @ [(p, q, t, si_owner_uid s)]) q w = (Inr seen', w)
        \<and> in_table T seen'"
      by (rule Suc.IH [OF q(2)]) (use Suc.prems h t owner in \<open>auto simp: well_formed_def\<close>)
    ultimately show ?thesis using False fresh t owner assms(2) by (simp add: walk_simps well_formed_def)
  qed
qed simp

lemma recheck_all: "reads_table s T \<Longrightarrow> in_table T seen \<Longrightarrow>
    fst (map_io (recheck s) seen w) = Inr (map (\<lambda>_. ()) seen)"
  by (induction seen) (auto simp: recheck_def walk_simps split: sum.splits prod.splits)

lemma validate_peer_iff:
  assumes "reads_table s T" "si_runtime_root s = Some root"
  shows "fst (validate_peer pid uid (s, w)) = Inr ()
    \<longleftrightarrow> si_active s \<and> 0 < pid \<and> uid = si_owner_uid s \<and> root_alive s T root
      \<and> (\<exists>n < MAX_PROCESS_DEPTH. (pid, fst root) \<in> tree s T ^^ n)" (is "?l \<longleftrightarrow> ?r")
proof
  assume ?l
  then obtain seen w' where "walk_ancestors MAX_PROCESS_DEPTH s root [] pid w = (Inr seen, w')"
    and "si_active s \<and> 0 < pid \<and> uid = si_owner_uid s"
    using assms by (auto simp: validate_peer_def locals_def bind_def check_def sys_def split: if_split_asm sum.splits prod.splits)
  with walk_sound [OF assms(1)] show ?r by blast
next
  assume r: ?r
  then obtain n where n: "n < MAX_PROCESS_DEPTH" "(pid, fst root) \<in> tree s T ^^ n" by blast
  then have "height (tree s T) (fst root) pid \<le> n" unfolding height_def by (simp add: Least_le)
  then obtain seen where "walk_ancestors MAX_PROCESS_DEPTH s root [] pid w = (Inr seen, w)"
    "in_table T seen"
    using walk_complete [OF _ assms(1), of root pid n MAX_PROCESS_DEPTH "[]" w] r n by auto
  with recheck_all [OF assms(1), of seen w] r assms show ?l
    by (auto simp: validate_peer_def locals_def bind_def check_def sys_def ret_def split: prod.splits sum.splits)
qed

section \<open>Histories of a session\<close>

text \<open>
  The methods of a session in any order; between them anything may happen in the world. The parts
  of \<open>handle\<close> outside the lock see constants of the session only, so its locked part is the step.
\<close>

datatype intake_event =
  Handling FamilyIntakeRequest int "FamilyIntakeSession \<times> world" "FamilyIntakeSession \<times> world" "exn + FamilyIntakeResponse"

inductive intake_step ::
  "nat \<Rightarrow> FamilyIntakeSession \<times> world \<times> intake_event list \<Rightarrow> FamilyIntakeSession \<times> world \<times> intake_event list \<Rightarrow> bool"
  for lim where
  registers: "register_runtime pid (s, w) = (r, (s', w')) \<Longrightarrow> intake_step lim (s, w, log) (s', w', log)"
| admits: "validate_peer pid uid (s, w) = (r, (s', w')) \<Longrightarrow> intake_step lim (s, w, log) (s', w', log)"
| handles: "prepare_issue s q = Inr issue \<Longrightarrow> handle_locked lim q issue now (s, w) = (r, (s', w')) \<Longrightarrow>
    intake_step lim (s, w, log) (s', w', log @ [Handling q now (s, w) (s', w') r])"
| deactivates: "intake_step lim (s, w, log) (deactivate_intake s, w, log)"
| outside: "intake_step lim (s, w, log) (s, w', log)"

abbreviation intake_steps where
  "intake_steps lim \<equiv> (intake_step lim)\<^sup>*\<^sup>*"

fun consumes :: "intake_event \<Rightarrow> bool" where
  "consumes (Handling q now before after r) \<longleftrightarrow> \<not> si_consumed (fst before) \<and> si_consumed (fst after)"

definition may_consume :: "FamilyIntakeRequest \<Rightarrow> int \<Rightarrow> FamilyIntakeSession \<Rightarrow> bool" where
  "may_consume q now s \<longleftrightarrow> si_active s \<and> si_runtime_root s \<noteq> None \<and> \<not> si_consumed s \<and> now < si_expires_at s
     \<and> fi_version q = 1 \<and> fi_operation q = u ''issue_create_request'' \<and> fi_capability q = si_capability s"

lemma authorize_cases:
  assumes "authorize_intake lim q now (s, w) = (r, (s', w'))"
  shows "(r = Inr () \<and> s' = s\<lparr>si_consumed := True\<rparr> \<and> may_consume q now s)
    \<or> (\<exists>e. r = Inl e \<and> s' = s \<and> w' \<in> {w, snd (load_family_binding lim (si_binding_path s) w)})"
proof (cases "si_active s \<and> si_runtime_root s \<noteq> None \<and> \<not> si_consumed s \<and> now < si_expires_at s
     \<and> fi_version q = 1 \<and> fi_operation q = u ''issue_create_request''")
  case False
  then show ?thesis using assms by (auto simp: authorize_intake_def locals_def bind_def check_def)
next
  case True
  obtain l w1 where l: "load_family_binding lim (si_binding_path s) w = (l, w1)" by fastforce
  show ?thesis
  proof (cases "compare_digest (fi_capability q) (si_capability s)")
    case (Inl e)
    with True assms show ?thesis by (auto simp: authorize_intake_def locals_def bind_def check_def lift_def)
  next
    case (Inr same)
    show ?thesis
    proof (cases "same \<and> (\<exists>x. l = Inr x)")
      case good: True
      then have "fi_capability q = si_capability s" using Inr compare_digest_True by metis
      with good True Inr l assms show ?thesis
        by (auto simp: authorize_intake_def locals_def bind_def check_def lift_def sys_def translate_def try_except_def
            raise_def assign_def may_consume_def)
    next
      case False
      with True Inr l assms show ?thesis
        by (cases same; cases l)
          (auto simp: authorize_intake_def locals_def bind_def check_def lift_def sys_def translate_def try_except_def raise_def)
    qed
  qed
qed

lemma persist_cases:
  "persist_issue lim issue now (s, w) = (r, (s', w')) \<Longrightarrow> s' = s \<or> s' = fail_locked s"
  by (auto simp: persist_issue_def locals_def bind_def sys_def try_except_def raise_def assign_def ret_def
      split: prod.splits sum.splits exn.splits if_splits)

lemma handle_locked_cases:
  assumes "handle_locked lim q issue now (s, w) = (r, (s', w'))"
  shows "(may_consume q now s \<and> s' \<in> {s\<lparr>si_consumed := True\<rparr>, fail_locked (s\<lparr>si_consumed := True\<rparr>)})
    \<or> (\<exists>e. r = Inl e \<and> s' \<in> {s, fail_locked s} \<and> w' \<in> {w, snd (load_family_binding lim (si_binding_path s) w)})"
proof (cases "now < 0")
  case True
  then show ?thesis using assms by (auto simp: handle_locked_def bind_def assign_def raise_def)
next
  case False
  obtain a s1 w1 where a: "authorize_intake lim q now (s, w) = (a, (s1, w1))" by (metis prod.exhaust)
  show ?thesis
  proof (cases a)
    case (Inl e)
    with a False assms authorize_cases [OF a] show ?thesis by (auto simp: handle_locked_def bind_def)
  next
    case (Inr x)
    with a False assms have "persist_issue lim issue now (s1, w1) = (r, (s', w'))"
      by (simp add: handle_locked_def bind_def)
    with persist_cases authorize_cases [OF a] Inr show ?thesis by fastforce
  qed
qed

text \<open>What the session's methods keep, from the state \<open>s0\<close> in which it was made.\<close>

definition session_kept_from :: "FamilyIntakeSession \<Rightarrow> FamilyIntakeSession \<Rightarrow> bool" where
  "session_kept_from s0 s \<longleftrightarrow> si_expires_at s = si_expires_at s0 \<and> si_binding_path s = si_binding_path s0
     \<and> (si_active s \<longrightarrow> si_capability s = si_capability s0)"

definition handled_well :: "nat \<Rightarrow> FamilyIntakeSession \<Rightarrow> intake_event \<Rightarrow> bool" where
  "handled_well lim s0 e = (case e of Handling q now (s, w) (s', w') r \<Rightarrow>
     (if \<not> si_consumed s \<and> si_consumed s'
      then si_active s \<and> si_runtime_root s \<noteq> None \<and> now < si_expires_at s0 \<and> fi_capability q = si_capability s0
      else (\<exists>x. r = Inl x) \<and> w' \<in> {w, snd (load_family_binding lim (si_binding_path s0) w)}))"

definition intake_kept :: "nat \<Rightarrow> FamilyIntakeSession \<Rightarrow> FamilyIntakeSession \<times> world \<times> intake_event list \<Rightarrow> bool" where
  "intake_kept lim s0 st = (case st of (s, w, log) \<Rightarrow> session_kept_from s0 s
     \<and> length (filter consumes log) = (if si_consumed s then 1 else 0) \<and> (\<forall>e \<in> set log. handled_well lim s0 e))"

lemma register_state:
  "register_runtime pid (s, w) = (r, (s', w')) \<Longrightarrow>
   si_consumed s' = si_consumed s \<and> (session_kept_from s0 s \<longrightarrow> session_kept_from s0 s')"
  by (auto simp: register_runtime_def locals_def bind_def check_def sys_def assign_def session_kept_from_def
      split: prod.splits sum.splits if_splits)

lemma validate_peer_state: "validate_peer pid uid (s, w) = (r, (s', w')) \<Longrightarrow> s' = s"
  by (auto simp: validate_peer_def locals_def bind_def check_def sys_def raise_def ret_def
      split: prod.splits sum.splits if_splits option.splits)

lemma handle_kept:
  assumes "handle_locked lim q issue now (s, w) = (r, (s', w'))" and "session_kept_from s0 s"
  shows "session_kept_from s0 s' \<and> handled_well lim s0 (Handling q now (s, w) (s', w') r)
    \<and> (si_consumed s \<longrightarrow> si_consumed s')"
  using handle_locked_cases [OF assms(1)] assms(2)
  by (auto simp: session_kept_from_def handled_well_def may_consume_def fail_locked_def)

lemma intake_step_kept: "intake_step lim st st' \<Longrightarrow> intake_kept lim s0 st \<Longrightarrow> intake_kept lim s0 st'"
proof (induction rule: intake_step.induct)
  case (registers pid s w r s' w' log)
  with register_state [OF registers.hyps, of s0] show ?case by (simp add: intake_kept_def)
next
  case (admits pid uid s w r s' w' log)
  with validate_peer_state [OF admits.hyps] show ?case by (simp add: intake_kept_def)
next
  case (handles s q issue now w r s' w' log)
  with handle_kept [OF handles.hyps(2), of s0] show ?case
    by (auto simp: intake_kept_def)
next
  case (deactivates s w log)
  then show ?case by (simp add: intake_kept_def session_kept_from_def deactivate_intake_def)
next
  case (outside s w log w')
  then show ?case by (simp add: intake_kept_def)
qed

lemma intake_steps_kept: "intake_steps lim st st' \<Longrightarrow> intake_kept lim s0 st \<Longrightarrow> intake_kept lim s0 st'"
  by (induction rule: rtranclp_induct) (auto intro: intake_step_kept)

section \<open>Concrete runs\<close>

text \<open>A family directory with a binding, and a process 101 whose parent 100 is the runtime.\<close>

definition demo_directory :: "(pystr \<times> fid) list \<Rightarrow> inode" where
  "demo_directory es = \<lparr>in_kind = Directory, in_mode = 448, in_uid = 1000, in_links = 2, in_data = [],
     in_entries = es, in_target = (False, [])\<rparr>"

definition demo_file :: "bytes \<Rightarrow> inode" where
  "demo_file b = \<lparr>in_kind = Regular, in_mode = 384, in_uid = 1000, in_links = 1, in_data = b,
     in_entries = [], in_target = (False, [])\<rparr>"

definition demo_binding_text :: bytes where
  "demo_binding_text = ''{'' @ [CHR 10] @ ''  \"repository\": \"a/b\",'' @ [CHR 10] @ ''  \"repository_id\": 7'' @ [CHR 10] @ ''}''"

definition demo_family_files :: files where
  "demo_family_files = [(0, 1) \<mapsto> demo_directory [(u ''projects'', (0, 2))],
     (0, 2) \<mapsto> demo_directory [(u ''p'', (0, 3))],
     (0, 3) \<mapsto> demo_directory [(u ''binding.json'', (0, 4))],
     (0, 4) \<mapsto> demo_file demo_binding_text]"

definition demo_family :: world where
  "demo_family = \<lparr>w_files = demo_family_files, w_root = (0, 1), w_cwd = [], w_uid = 1000, w_umask = 63,
     w_fds = Map.empty, w_next_fd = 3,
     w_turns = (\<lambda>n. \<lparr>t_others = id, t_fault = None, t_killed = False, t_fid = (1, n), t_amount = None,
       t_random = []\<rparr>), w_clock = 0, w_dead = False\<rparr>"

definition demo_binding :: FamilyBinding where
  "demo_binding = \<lparr>fb_repository = \<lparr>repo_owner = u ''a'', repo_name = u ''b''\<rparr>, fb_repository_id = 7\<rparr>"

lemma demo_binding_read:
  "fst (read_private_bytes (True, [u ''projects'', u ''p'', u ''binding.json'']) 4096 demo_family) = Inr demo_binding_text"
  by code_simp

lemma demo_binding_decoded: "decode_binding 5 demo_binding_text = Inr demo_binding"
proof -
  have "json_dumps binding_dump_opts (binding_payload demo_binding) = Inr (u demo_binding_text)" by code_simp
  then have "json_loads 5 without_duplicate_keys binding_constant (u demo_binding_text)
      = Inr (normal_json binding_dump_opts (binding_payload demo_binding))"
    using loads_dumps [of binding_dump_opts without_duplicate_keys "binding_payload demo_binding" 5 "[]" binding_constant]
    by (simp add: binding_payload_def demo_binding_def slug_def binding_dump_opts_def opts_ok_def clean_str_u
        normal_json_def without_duplicate_keys_def small_int_def max_int_digits_def dec_digits.simps clean_str_def
        is_surrogate_def u_def is_ws_def)
  moreover have "normal_json binding_dump_opts (binding_payload demo_binding) = binding_payload demo_binding"
    by (simp add: normal_json_def binding_dump_opts_def)
  moreover have "utf8_decode demo_binding_text = Inr (u demo_binding_text)" by code_simp
  moreover have "slug (fb_repository demo_binding) = u ''a/b''" "u ''a/b'' = lower (u ''a/b'')"
    "parse_Repository (u ''a/b'') = Inr (fb_repository demo_binding)"
    by code_simp+
  ultimately show ?thesis
    by (simp add: decode_binding_def binding_payload_def validate_repository_id_def u_def insert_commute)
      (simp add: demo_binding_def u_def)
qed

definition demo_processes :: "int \<rightharpoonup> process_identity" where
  "demo_processes = [100 \<mapsto> (1, 7, 1000), 101 \<mapsto> (100, 8, 1000)]"

definition demo_session :: FamilyIntakeSession where
  "demo_session = \<lparr>si_project_id = u ''p'', si_capability = u ''c'', si_expires_at = 10, si_consumed = False,
     si_store = (True, [u ''projects'', u ''p'', u ''pending'']),
     si_binding_path = (True, [u ''projects'', u ''p'', u ''binding.json'']),
     si_audit_path = (True, [u ''projects'', u ''p'', u ''audit'', u ''events.jsonl'']),
     si_agent = u ''codex'', si_repository = u ''p'', si_owner_uid = 1000, si_clock = ret 5,
     si_random_bytes = random_bytes, si_process_reader = table_reader demo_processes, si_active = True,
     si_failed = False, si_registration_attempted = False, si_runtime_root = Some (100, 7)\<rparr>"

lemma demo_reads: "reads_table demo_session demo_processes"
  by (simp add: reads_table_def demo_session_def)

lemma demo_issue_prepared: "\<exists>issue. prepare_issue demo_session demo_intake = Inr issue"
proof -
  obtain b where "encode_request_frame demo_intake = Inr b" using demo_intake_encoded by blast
  moreover have "parse_family_issue_draft (fi_payload demo_intake) = Inr demo_draft"
    using parse_draft_payload [OF demo_draft_ok] by (simp add: demo_intake_def)
  moreover have "validate_agent (u ''codex'') False = Inr (u ''codex'')" "validate_project_id (u ''p'') = Inr (u ''p'')"
    by code_simp+
  then have "case canonicalize_family_issue demo_draft (Some (u ''codex'')) (Some (u ''p'')) of Inl e \<Rightarrow> False | Inr i \<Rightarrow> True"
    using demo_issue_canonical by (auto simp: canonicalize_family_issue_def)
  ultimately show ?thesis by (auto simp: prepare_issue_def demo_session_def split: sum.splits)
qed

lemma demo_consumed:
  assumes "handle_locked 5 demo_intake issue 5 (demo_session, demo_family) = (r, (s', w'))"
  shows "si_consumed s'"
proof -
  obtain w1 where l: "load_family_binding 5 (si_binding_path demo_session) demo_family = (Inr demo_binding, w1)"
    using demo_binding_read demo_binding_decoded
    by (cases "read_private_bytes (True, [u ''projects'', u ''p'', u ''binding.json'']) 4096 demo_family")
      (simp add: load_family_binding_def bind_def lift_def demo_session_def)
  have "authorize_intake 5 demo_intake 5 (demo_session, demo_family) = (Inr (), (demo_session\<lparr>si_consumed := True\<rparr>, w1))"
    using l by (simp add: authorize_intake_def locals_def bind_def check_def lift_def sys_def translate_def try_except_def
        assign_def demo_session_def demo_intake_def REQUEST_OPERATION_def compare_digest_def u_def)
  then have "persist_issue 5 issue 5 (demo_session\<lparr>si_consumed := True\<rparr>, w1) = (r, (s', w'))"
    using assms by (simp add: handle_locked_def bind_def)
  from persist_cases [OF this] show ?thesis by (auto simp: fail_locked_def)
qed

section \<open>Properties\<close>

text \<open>
  C29. On a process table that stands still, exactly the descendants of the registered process are
  admitted: a client is let in iff the session is active, the uid is the owner's, the registered
  process still has the start time it was registered with, and fewer than 64 steps of the owner's
  processes to their parents lead to it.
\<close>

theorem peer_admission_exact:
  assumes "si_process_reader s = table_reader T" and "0 \<le> si_owner_uid s"
    and "si_runtime_root s = Some (root, start)"
  shows "fst (validate_peer pid uid (s, w)) = Inr () \<longleftrightarrow>
    si_active s \<and> 0 < pid \<and> uid = si_owner_uid s
    \<and> (\<exists>q. T root = Some (q, start, si_owner_uid s) \<and> 0 \<le> q \<and> 0 < start)
    \<and> (\<exists>n < 64. (pid, root) \<in> parent_of T (si_owner_uid s) ^^ n)"
  using validate_peer_iff [of s T "(root, start)" pid uid w] assms
  by (simp add: reads_table_def root_alive_def tree_def MAX_PROCESS_DEPTH_def)

theorem peer_admission_exact_witness:
  "fst (validate_peer 101 1000 (demo_session, demo_family)) = Inr () \<and> fst (validate_peer 1 1000 (demo_session, demo_family)) \<noteq> Inr ()"
proof -
  note exact = peer_admission_exact [of demo_session demo_processes 100 7]
  have "(101, 100) \<in> parent_of demo_processes 1000 ^^ 1"
    by (simp add: parent_of_def demo_processes_def)
  then have "\<exists>n < 64. (101, 100) \<in> parent_of demo_processes 1000 ^^ n" by (intro exI [of _ 1]) simp
  moreover have "(1, 100) \<notin> parent_of demo_processes 1000 ^^ n" for n
  proof
    assume "(1, 100) \<in> parent_of demo_processes 1000 ^^ n"
    then have "\<exists>y. (1, y) \<in> parent_of demo_processes 1000" by (cases n) (simp, metis relpow_Suc_D2)
    then show False by (simp add: parent_of_def demo_processes_def)
  qed
  ultimately show ?thesis
    using exact [of 101 1000 demo_family] exact [of 1 1000 demo_family] by (simp add: demo_session_def) (simp add: demo_processes_def)
qed

text \<open>
  C30. A capability is good for one proposal: in every sequence of calls of a session, whatever
  happens in between, at most one request is ever handed to the store, when it carried the session's
  capability, before it expired, on an active session with a registered process; every other request
  is refused without any effect but reading the binding.
\<close>

theorem intake_single_use:
  assumes "\<not> si_consumed s0" and "intake_steps lim (s0, w0, []) (s, w, log)"
  shows "length (filter consumes log) \<le> 1
    \<and> (\<forall>q now s1 w1 s2 w2 r. Handling q now (s1, w1) (s2, w2) r \<in> set log \<longrightarrow>
        (if \<not> si_consumed s1 \<and> si_consumed s2
         then si_active s1 \<and> si_runtime_root s1 \<noteq> None \<and> now < si_expires_at s0 \<and> fi_capability q = si_capability s0
         else (\<exists>x. r = Inl x) \<and> w2 \<in> {w1, snd (load_family_binding lim (si_binding_path s0) w1)}))"
proof -
  have "intake_kept lim s0 (s0, w0, [])" using assms(1) by (simp add: intake_kept_def session_kept_from_def)
  from intake_steps_kept [OF assms(2) this] show ?thesis
    by (force simp: intake_kept_def handled_well_def)
qed

theorem intake_single_use_witness:
  "\<exists>(s :: FamilyIntakeSession) (w :: world) log. si_consumed s \<and> length log = 1 \<and> length (filter consumes log) \<le> 1"
proof -
  obtain issue where i: "prepare_issue demo_session demo_intake = Inr issue" using demo_issue_prepared by blast
  obtain r s w where h: "handle_locked 5 demo_intake issue 5 (demo_session, demo_family) = (r, (s, w))"
    by (metis prod.exhaust)
  from intake_step.handles [OF i h, of "[]"]
  have "intake_steps 5 (demo_session, demo_family, []) (s, w, [Handling demo_intake 5 (demo_session, demo_family) (s, w) r])"
    by simp
  from intake_single_use [OF _ this] demo_consumed [OF h] show ?thesis
    by (intro exI [of _ s] exI [of _ w] exI [of _ "[Handling demo_intake 5 (demo_session, demo_family) (s, w) r]"])
      (simp add: demo_session_def)
qed

end
