(* ===== verification/Family_Mount.thy ===== *)
theory Family_Mount
  imports Broker_Runtime
begin

text \<open>
  \<open>src/agent_container/family_runtime_mount.py\<close>: the mount of the intake socket into a container,
  pinned by the identity of its directory and socket.
\<close>

definition CONTAINER_SOCKET :: pystr where
  "CONTAINER_SOCKET = u ''/run/agent-family/intake.sock''"

definition mount_invalid :: exn where
  "mount_invalid = ValueError ''family runtime mount is invalid''"

definition ignore_os_error :: "('s, unit) prog \<Rightarrow> ('s, unit) prog" where
  "ignore_os_error m = try_except m (\<lambda>e. if is_os_error e then ret () else raise e)"

text \<open>The local variable \<open>descriptor\<close> is the directory reached, -1 when it is closed.\<close>

definition open_child :: "pystr \<Rightarrow> (int \<times> world, unit) prog" where
  "open_child component = locals (\<lambda>d.
     bind (sys (os_open_at [O_RDONLY, O_DIRECTORY, O_NOFOLLOW] 511 (nat d) component)) (\<lambda>child.
     bind (on_failure (sys (os_close (nat d)))
       (bind (assign (\<lambda>_. - 1)) (\<lambda>_. ignore_os_error (sys (os_close child))))) (\<lambda>_.
     assign (\<lambda>_. int child))))"

definition open_directory :: "path \<Rightarrow> nat io" where
  "open_directory p =
     bind (os_open_path [O_RDONLY, O_DIRECTORY] 511 (True, [])) (\<lambda>root.
     with_locals (int root)
       (on_failure
         (bind (map_io open_child (snd p)) (\<lambda>_. locals (\<lambda>d. ret (nat d))))
         (locals (\<lambda>d. if 0 \<le> d then ignore_os_error (sys (os_close (nat d))) else ret ()))))"

definition snapshot_descriptor :: "nat \<Rightarrow> (fid \<times> fid) io" where
  "snapshot_descriptor descriptor =
     bind (os_fstat descriptor) (\<lambda>directory.
     bind (os_stat_at descriptor (u ''intake.sock'')) (\<lambda>socket_metadata.
     bind os_getuid (\<lambda>uid.
     bind (check (st_kind directory = Directory \<and> st_mode directory = mode_0700 \<and> st_uid directory = uid
         \<and> st_kind socket_metadata = Socket \<and> st_mode socket_metadata = mode_0600 \<and> st_uid socket_metadata = uid)
       mount_invalid) (\<lambda>_.
     ret (st_id directory, st_id socket_metadata)))))"

definition mount_snapshot :: "path \<Rightarrow> (fid \<times> fid) io" where
  "mount_snapshot p =
     bind (open_directory p) (\<lambda>descriptor. try_finally (snapshot_descriptor descriptor) (os_close descriptor))"

record FamilyRuntimeMount =
  fm_socket_dir :: path
  fm_capability :: pystr
  fm_environment :: "(pystr \<times> pystr) list"
  fm_directory_identity :: "fid option"
  fm_socket_identity :: "fid option"
  fm_directory_descriptor :: int
  fm_socket_descriptor :: int

text \<open>\<open>__post_init__\<close>; the dictionary is a list with distinct keys.\<close>

definition expected_environment :: "pystr \<Rightarrow> (pystr \<times> pystr) list" where
  "expected_environment capability =
     [(u ''AGENT_FAMILY_SOCKET'', CONTAINER_SOCKET), (u ''AGENT_FAMILY_CAPABILITY'', capability)]"

definition same_dict :: "(pystr \<times> pystr) list \<Rightarrow> (pystr \<times> pystr) list \<Rightarrow> bool" where
  "same_dict a b \<longleftrightarrow> length a = length b \<and> set a = set b"

definition create_mount :: "FamilyRuntimeMount \<Rightarrow> exn + FamilyRuntimeMount" where
  "create_mount m =
     bindE (require (fst (fm_socket_dir m)) mount_invalid) (\<lambda>_.
     bindE (require (CAPABILITY_PATTERN (fm_capability m)) mount_invalid) (\<lambda>_.
     bindE (require (same_dict (fm_environment m) (expected_environment (fm_capability m))) mount_invalid) (\<lambda>_.
     Inr (m\<lparr>fm_environment := expected_environment (fm_capability m)\<rparr>))))"

text \<open>\<open>os.open(name, O_PATH | O_NOFOLLOW, dir_fd=...)\<close>: any entry, for \<open>fstat\<close> only.\<close>

definition os_open_pinned :: "nat \<Rightarrow> pystr \<Rightarrow> nat io" where
  "os_open_pinned dir_fd name = on_entry dir_fd name (\<lambda>t d g i w. new_fd g False w)"

definition capture_mount :: "path \<Rightarrow> pystr \<Rightarrow> (pystr \<times> pystr) list \<Rightarrow> FamilyRuntimeMount io" where
  "capture_mount socket_dir capability environment =
     bind (open_directory socket_dir) (\<lambda>descriptor.
     with_locals (- 1)
       (on_failure
         (bind (sys (snapshot_descriptor descriptor)) (\<lambda>(directory_identity, socket_identity).
          bind (sys (os_open_pinned descriptor (u ''intake.sock''))) (\<lambda>socket_descriptor.
          bind (assign (\<lambda>_. int socket_descriptor)) (\<lambda>_.
          bind (sys (os_fstat socket_descriptor)) (\<lambda>socket_opened.
          bind (check (st_id socket_opened = socket_identity \<and> st_kind socket_opened = Socket) mount_invalid) (\<lambda>_.
          lift (create_mount \<lparr>fm_socket_dir = socket_dir, fm_capability = capability, fm_environment = environment,
            fm_directory_identity = Some directory_identity, fm_socket_identity = Some socket_identity,
            fm_directory_descriptor = int descriptor, fm_socket_descriptor = int socket_descriptor\<rparr>)))))))
         (locals (\<lambda>socket_descriptor.
            bind (if 0 \<le> socket_descriptor then sys (os_close (nat socket_descriptor)) else ret ()) (\<lambda>_.
            sys (os_close descriptor))))))"

definition revalidate_mount :: "FamilyRuntimeMount \<Rightarrow> unit io" where
  "revalidate_mount m =
     (case (fm_directory_identity m, fm_socket_identity m) of
        (Some directory_identity, Some socket_identity) \<Rightarrow>
          bind (check (0 \<le> fm_directory_descriptor m \<and> 0 \<le> fm_socket_descriptor m) mount_invalid) (\<lambda>_.
          bind (translate (\<lambda>e. is_os_error e \<or> is_value_error e) mount_invalid
            (bind (snapshot_descriptor (nat (fm_directory_descriptor m))) (\<lambda>pinned.
             bind (os_fstat (nat (fm_socket_descriptor m))) (\<lambda>pinned_socket.
             bind (mount_snapshot (fm_socket_dir m)) (\<lambda>observed.
             ret (pinned, pinned_socket, observed)))))) (\<lambda>(pinned, pinned_socket, observed).
          check (pinned = (directory_identity, socket_identity) \<and> observed = (directory_identity, socket_identity)
              \<and> st_id pinned_socket = socket_identity \<and> st_kind pinned_socket = Socket) mount_invalid))
      | _ \<Rightarrow> raise mount_invalid)"

definition pass_fds :: "FamilyRuntimeMount \<Rightarrow> int list" where
  "pass_fds m = []"

definition mount_socket_path :: "FamilyRuntimeMount \<Rightarrow> path" where
  "mount_socket_path m = path_join (fm_socket_dir m) (u ''intake.sock'')"

definition mount_source :: "FamilyRuntimeMount \<Rightarrow> path" where
  "mount_source m = mount_socket_path m"

definition family_container_name :: "FamilyRuntimeMount \<Rightarrow> pystr" where
  "family_container_name m =
     u ''agent-family-'' @ path_name (path_parent (fm_socket_dir m)) @ u ''-'' @ path_name (fm_socket_dir m)"

definition close_one :: "int \<Rightarrow> (FamilyRuntimeMount \<Rightarrow> FamilyRuntimeMount) \<Rightarrow> (FamilyRuntimeMount \<times> world, bool) prog" where
  "close_one descriptor forget =
     (if 0 \<le> descriptor then
        bind (try_except (bind (sys (os_close (nat descriptor))) (\<lambda>_. ret False))
          (\<lambda>e. if is_os_error e then ret True else raise e)) (\<lambda>failed.
        bind (assign forget) (\<lambda>_. ret failed))
      else ret False)"

definition close_mount :: "(FamilyRuntimeMount \<times> world, unit) prog" where
  "close_mount = locals (\<lambda>m.
     bind (close_one (fm_socket_descriptor m) (\<lambda>m. m\<lparr>fm_socket_descriptor := - 1\<rparr>)) (\<lambda>f1.
     bind (close_one (fm_directory_descriptor m) (\<lambda>m. m\<lparr>fm_directory_descriptor := - 1\<rparr>)) (\<lambda>f2.
     check (\<not> (f1 \<or> f2)) (OSError ''family runtime mount close failed''))))"

end
