(* ===== verification/Podman.thy ===== *)
theory Podman
  imports Family_Mount
begin

text \<open>
  \<open>src/agent_container/podman.py\<close>: the command lines given to the container engine. \<open>me\<close> is the
  user and group of the process, \<open>sha\<close> the hexadecimal SHA-256 digest.
\<close>

section \<open>Values\<close>

definition CLAUDE_TOKEN_PATH :: pystr where
  "CLAUDE_TOKEN_PATH = u ''/run/secrets/claude-oauth-token''"

definition CLAUDE_LAUNCHER_PREFIX :: "pystr list" where
  "CLAUDE_LAUNCHER_PREFIX = [u ''python3'', u ''-m'', u ''agent_container.claude_launcher'', CLAUDE_TOKEN_PATH,
     u ''--'', u ''claude'']"

definition CODEX_STATUS_LINE_CONFIG :: pystr where
  "CODEX_STATUS_LINE_CONFIG = u ''tui.status_line=[\"model-with-reasoning\",\"context-remaining\",''
     @ u ''\"five-hour-limit\",\"weekly-limit\",\"git-branch\",\"project-name\"]''"

definition CLAUDE_CONFIG_TMPFS :: pystr where
  "CLAUDE_CONFIG_TMPFS = u ''--tmpfs=/home/agent/.claude:rw,nosuid,nodev,noexec,size=16m''"

definition CLAUDE_RUNTIME_HOME_TMPFS_MOUNT :: pystr where
  "CLAUDE_RUNTIME_HOME_TMPFS_MOUNT = u ''type=tmpfs,dst=/home/agent,tmpfs-size=16777216,''
     @ u ''tmpfs-mode=0700,U=true,noexec,nosuid,nodev''"

definition BROKER_RUNTIME_PATH :: pystr where
  "BROKER_RUNTIME_PATH = u ''/run/agent-broker''"

definition HANDOVER_BROKER_RUNTIME_PATH :: pystr where
  "HANDOVER_BROKER_RUNTIME_PATH = u ''/run/agent-handover''"

definition EGRESS_RUNTIME_PATH :: pystr where
  "EGRESS_RUNTIME_PATH = u ''/run/agent-egress''"

definition FAMILY_RUNTIME_PATH :: pystr where
  "FAMILY_RUNTIME_PATH = u ''/run/agent-family''"

definition FAMILY_SOCKET_TARGET :: pystr where
  "FAMILY_SOCKET_TARGET = FAMILY_RUNTIME_PATH @ u ''/intake.sock''"

definition RUNTIME_LAUNCHER :: pystr where
  "RUNTIME_LAUNCHER = u ''agent-runtime-launcher''"

definition FAMILY_RUN_ID :: "pystr \<Rightarrow> bool" where
  "FAMILY_RUN_ID s \<longleftrightarrow> length s = 16 \<and> list_all is_lower_hex s"

definition CONTAINER_ID :: "pystr \<Rightarrow> bool" where
  "CONTAINER_ID s \<longleftrightarrow> 12 \<le> length s \<and> length s \<le> 64 \<and> list_all is_lower_hex s"

definition RESOURCE_AGENTS :: "pystr set" where
  "RESOURCE_AGENTS = {u ''codex'', u ''claude''}"

definition RESOURCE_STATS_FORMAT :: pystr where
  "RESOURCE_STATS_FORMAT = u ''{{.ID}}'' @ [9] @ u ''{{.CPUPerc}}'' @ [9] @ u ''{{.MemUsage}}'' @ [9]
     @ u ''{{.PIDs}}'' @ [9] @ u ''{{.UpTime}}''"

record CommandSpec =
  argv :: "pystr list"
  spec_environment :: "(pystr \<times> pystr) list"
  spec_pass_fds :: "int list"

definition command_spec :: "pystr list \<Rightarrow> CommandSpec" where
  "command_spec words = \<lparr>argv = words, spec_environment = [], spec_pass_fds = []\<rparr>"

record BrokerRuntimeMount =
  bm_run_dir :: path
  bm_repository :: Repository

record EgressRuntimeMount =
  em_run_dir :: path
  em_project_id :: pystr
  em_agent :: pystr

text \<open>\<open>EgressRuntimeMount.container_name\<close>; the digest is of the path's UTF-8 encoding.\<close>

definition egress_container_name :: "(bytes \<Rightarrow> pystr) \<Rightarrow> EgressRuntimeMount \<Rightarrow> exn + pystr" where
  "egress_container_name sha e =
     bindE (utf8_encode (path_str (em_run_dir e))) (\<lambda>b. Inr (u ''agent-egress-'' @ take 16 (sha b)))"

record HandoverRuntimeMount =
  hm_run_dir :: path

section \<open>Parts of a command line\<close>

text \<open>\<open>path.is_relative_to(other)\<close>.\<close>

definition is_relative_to :: "path \<Rightarrow> path \<Rightarrow> bool" where
  "is_relative_to p q \<longleftrightarrow> fst p = fst q \<and> take (length (snd q)) (snd p) = snd q"

definition handover_overlaps :: exn where
  "handover_overlaps = ValueError (''handover project must not overlap agent state or a writable mount; ''
     @ ''move it outside AGENT_CONTAINER_HOME and update the registered handover_root (see docs/codex-operations.md)'')"

definition validate_handover_project :: "StateLayout \<Rightarrow> path \<Rightarrow> unit io" where
  "validate_handover_project layout handover_project =
     bind (path_resolve False handover_project) (\<lambda>resolved_handover.
     bind (map_io (\<lambda>writable_source.
         bind (path_resolve False writable_source) (\<lambda>resolved_writable.
         check (\<not> (resolved_handover = resolved_writable \<or> is_relative_to resolved_handover resolved_writable
             \<or> is_relative_to resolved_writable resolved_handover)) handover_overlaps))
       [sl_root layout, workspace layout, claude_config layout, cache layout]) (\<lambda>_. ret ()))"

definition mount_option :: "path \<Rightarrow> pystr \<Rightarrow> bool \<Rightarrow> pystr" where
  "mount_option source target read_only =
     u ''type=bind,src='' @ path_str source @ u '',dst='' @ target @ (if read_only then u '',ro=true'' else [])"

definition runtime_prefix :: "int \<times> int \<Rightarrow> pystr list" where
  "runtime_prefix me =
     [u ''podman'', u ''run'', u ''--rm'', u ''--interactive'', u ''--tty'', u ''--read-only'', u ''--cap-drop=all'',
      u ''--security-opt=no-new-privileges'', u ''--userns=keep-id:uid=1000,gid=1000'',
      u ''--tmpfs=/tmp:rw,nosuid,nodev,size=512m'']"

definition AGENT_SANDBOX_ARGS :: "pystr list" where
  "AGENT_SANDBOX_ARGS = [u ''--security-opt=unmask=/proc/*'']"

definition noninteractive_prefix :: "int \<times> int \<Rightarrow> pystr list" where
  "noninteractive_prefix me = remove1 (u ''--tty'') (remove1 (u ''--interactive'') (runtime_prefix me))"

definition runtime_monitor_args :: "StateLayout \<Rightarrow> pystr \<Rightarrow> exn + pystr list" where
  "runtime_monitor_args layout agent =
     (if agent \<notin> {u ''codex'', u ''claude''} then Inl (ValueError ''runtime agent is invalid'')
      else Inr [u ''--label'', u ''io.agent-container.managed=true'',
                u ''--label'', u ''io.agent-container.project='' @ sl_project_id layout,
                u ''--label'', u ''io.agent-container.agent='' @ agent])"

definition env_args :: "(pystr \<times> pystr) list \<Rightarrow> pystr list" where
  "env_args kvs = concat (map (\<lambda>(name, value). [u ''--env'', name @ u ''='' @ value]) kvs)"

definition PROXY_VALUES :: "(pystr \<times> pystr) list" where
  "PROXY_VALUES =
     (let proxy = u ''http://127.0.0.1:17843''; direct = u ''localhost,127.0.0.1,::1'' in
      [(u ''HTTPS_PROXY'', proxy), (u ''https_proxy'', proxy), (u ''HTTP_PROXY'', proxy), (u ''http_proxy'', proxy),
       (u ''NO_PROXY'', direct), (u ''no_proxy'', direct)])"

definition egress_args :: "(bytes \<Rightarrow> pystr) \<Rightarrow> StateLayout \<Rightarrow> pystr \<Rightarrow> EgressRuntimeMount \<Rightarrow> exn + pystr list" where
  "egress_args sha layout agent egress =
     bindE (require (fst (em_run_dir egress) \<and> em_project_id egress = sl_project_id layout \<and> em_agent egress = agent)
       (ValueError ''egress runtime mount does not match agent runtime'')) (\<lambda>_.
     bindE (egress_container_name sha egress) (\<lambda>container_name.
     Inr ([u ''--name='' @ container_name, u ''--network=none'',
           u ''--mount'', mount_option (em_run_dir egress) EGRESS_RUNTIME_PATH True]
          @ env_args [(u ''AGENT_EGRESS_SOCKET'', EGRESS_RUNTIME_PATH @ u ''/broker.sock''),
              (u ''AGENT_EGRESS_CAPABILITY'', EGRESS_RUNTIME_PATH @ u ''/capability''),
              (u ''AGENT_EGRESS_AGENT'', agent)]
          @ env_args PROXY_VALUES)))"

definition stop_words :: "pystr \<Rightarrow> pystr list" where
  "stop_words container_name = [u ''podman'', u ''stop'', u ''--ignore'', u ''--time=2'', container_name]"

definition kill_words :: "pystr \<Rightarrow> pystr list" where
  "kill_words container_name = [u ''podman'', u ''kill'', u ''--signal=KILL'', container_name]"

definition egress_runtime_stop_spec :: "(bytes \<Rightarrow> pystr) \<Rightarrow> EgressRuntimeMount \<Rightarrow> exn + CommandSpec" where
  "egress_runtime_stop_spec sha egress = bindE (egress_container_name sha egress) (\<lambda>n. Inr (command_spec (stop_words n)))"

definition egress_runtime_kill_spec :: "(bytes \<Rightarrow> pystr) \<Rightarrow> EgressRuntimeMount \<Rightarrow> exn + CommandSpec" where
  "egress_runtime_kill_spec sha egress = bindE (egress_container_name sha egress) (\<lambda>n. Inr (command_spec (kill_words n)))"

definition git_environment_args :: "pystr \<Rightarrow> pystr list" where
  "git_environment_args gh_config_dir = env_args
     [(u ''GH_CONFIG_DIR'', gh_config_dir), (u ''GIT_CONFIG_COUNT'', u ''1''),
      (u ''GIT_CONFIG_KEY_0'', u ''credential.https://github.com.helper''),
      (u ''GIT_CONFIG_VALUE_0'', u ''!gh auth git-credential'')]"

definition broker_git_args :: "StateLayout \<Rightarrow> BrokerRuntimeMount \<Rightarrow> exn + pystr list" where
  "broker_git_args layout broker =
     (let repo = slug (bm_repository broker) in
      bindE (require (fst (bm_run_dir broker)) (ValueError ''broker runtime path must be absolute'')) (\<lambda>_.
      bindE (require (repo_name (bm_repository broker) \<noteq> [] \<and> length (filter (\<lambda>c. c = 47) repo) = 1)
        (ValueError ''broker repository is invalid'')) (\<lambda>_.
      Inr ([u ''--mount'', mount_option (bm_run_dir broker) BROKER_RUNTIME_PATH True]
           @ env_args [(u ''AGENT_BROKER_SOCKET'', BROKER_RUNTIME_PATH @ u ''/broker.sock''),
               (u ''AGENT_BROKER_CAPABILITY'', BROKER_RUNTIME_PATH @ u ''/capability''),
               (u ''AGENT_BROKER_REPOSITORY'', repo),
               (u ''AGENT_PROJECT_ID'', sl_project_id layout),
               (u ''GIT_CONFIG_COUNT'', u ''1''),
               (u ''GIT_CONFIG_KEY_0'', u ''url.'' @ (u ''agent-broker://'' @ repo) @ u ''.insteadOf''),
               (u ''GIT_CONFIG_VALUE_0'', https_url (bm_repository broker))]))))"

definition handover_broker_args :: "HandoverRuntimeMount \<Rightarrow> exn + pystr list" where
  "handover_broker_args broker =
     bindE (require (fst (hm_run_dir broker)) (ValueError ''handover broker runtime path must be absolute'')) (\<lambda>_.
     Inr ([u ''--mount'', mount_option (hm_run_dir broker) HANDOVER_BROKER_RUNTIME_PATH True]
          @ env_args [(u ''AGENT_HANDOVER_BROKER_SOCKET'', HANDOVER_BROKER_RUNTIME_PATH @ u ''/broker.sock''),
              (u ''AGENT_HANDOVER_BROKER_CAPABILITY'', HANDOVER_BROKER_RUNTIME_PATH @ u ''/capability'')]))"

text \<open>\<open>os.path.normpath\<close> of an absolute path.\<close>

definition normpath :: "path \<Rightarrow> path" where
  "normpath p = (fst p, rev (foldl (\<lambda>up part. if part = u ''..'' then tl up else part # up) [] (snd p)))"

definition family_runtime_args ::
  "(bytes \<Rightarrow> pystr) \<Rightarrow> StateLayout \<Rightarrow> FamilyRuntimeMount \<Rightarrow> bool \<Rightarrow> pystr list io" where
  "family_runtime_args sha layout family named_by_egress =
     bind (lift (github_broker_project_label sha (sl_project_id layout))) (\<lambda>label.
     let expected_parent = path_join (path_join (path_join (path_join (sl_root layout) (u ''family'')) (u ''intake''))
           (u ''r'')) label;
         socket_dir = fm_socket_dir family;
         expected = [(u ''AGENT_FAMILY_SOCKET'', FAMILY_RUNTIME_PATH @ u ''/intake.sock''),
           (u ''AGENT_FAMILY_CAPABILITY'', fm_capability family)] in
     bind (check (pass_fds family = []) mount_invalid) (\<lambda>_.
     bind (check (fst socket_dir \<and> path_parent socket_dir = expected_parent \<and> FAMILY_RUN_ID (path_name socket_dir)
         \<and> socket_dir = normpath socket_dir \<and> same_dict (fm_environment family) expected) mount_invalid) (\<lambda>_.
     bind (revalidate_mount family) (\<lambda>_.
     ret ((if named_by_egress then [] else [u ''--name='' @ family_container_name family])
       @ [u ''--mount'', mount_option (mount_source family) FAMILY_SOCKET_TARGET False] @ env_args expected)))))"

definition runtime_launcher_args :: "FamilyRuntimeMount option \<Rightarrow> pystr list" where
  "runtime_launcher_args family =
     [RUNTIME_LAUNCHER] @ (if family = None then [] else [u ''--registration-gate''])
     @ (case family of None \<Rightarrow> [] | Some f \<Rightarrow>
          (case pass_fds f of [] \<Rightarrow> [] | fd # _ \<Rightarrow> [u ''--close-fd='' @ int_repr fd]))
     @ [u ''--'']"

definition family_gate_argv :: "pystr list \<Rightarrow> int \<Rightarrow> path \<Rightarrow> exn + pystr list" where
  "family_gate_argv words gate_fd pidfile =
     (let placeholder = u ''--registration-gate''; failed = RuntimeError ''family runtime launch handoff failed'';
          k = length (takeWhile (\<lambda>x. x \<noteq> placeholder) words) in
      bindE (require (take 2 words = [u ''podman'', u ''run''] \<and> 3 \<le> gate_fd \<and> count_list words placeholder = 1) failed) (\<lambda>_.
      bindE (require (k \<noteq> 0 \<and> words ! (k - 1) = RUNTIME_LAUNCHER) failed) (\<lambda>_.
      let launched = words[k := u ''--registration-gate-fd='' @ int_repr gate_fd] in
      Inr (take 2 launched @ [u ''--pidfile='' @ path_str pidfile, u ''--preserve-fd='' @ int_repr gate_fd]
           @ drop 2 launched))))"

end
