(* ===== verification/Podman_Specs.thy ===== *)
theory Podman_Specs
  imports Podman
begin

text \<open>
  \<open>src/agent_container/podman.py\<close>: the commands of the life cycle, from building an image to running
  an agent, and the way a container is stopped.
\<close>

section \<open>Images and information\<close>

definition build_image_spec ::
  "path \<Rightarrow> pystr \<Rightarrow> pystr \<Rightarrow> pystr \<Rightarrow> pystr \<Rightarrow> pystr \<Rightarrow> pystr \<Rightarrow> CommandSpec io" where
  "build_image_spec repo_root img node_version codex_version claude_version cachebuster agent_container_version =
     bind (path_resolve False repo_root) (\<lambda>root.
     ret (command_spec
       ([u ''podman'', u ''build'',
         u ''--build-arg'', u ''NODE_VERSION='' @ node_version,
         u ''--build-arg'', u ''CODEX_VERSION='' @ codex_version,
         u ''--build-arg'', u ''CLAUDE_VERSION='' @ claude_version,
         u ''--build-arg'', u ''AGENT_CLI_CACHEBUST='' @ cachebuster,
         u ''--build-arg'', u ''AGENT_CONTAINER_VERSION='' @ agent_container_version,
         u ''--tag'', img, u ''--file'', path_str (path_join root (u ''Containerfile'')), path_str root])))"

definition podman_image_id_spec :: "pystr \<Rightarrow> CommandSpec" where
  "podman_image_id_spec img =
     command_spec [u ''podman'', u ''image'', u ''inspect'', u ''--format'', u ''{{.Id}}'', img]"

definition podman_architecture_spec :: CommandSpec where
  "podman_architecture_spec = command_spec [u ''podman'', u ''info'', u ''--format'', u ''{{.Host.Arch}}'']"

definition podman_project_images_spec :: "pystr \<Rightarrow> exn + CommandSpec" where
  "podman_project_images_spec project_id =
     bindE (validate_project_id project_id) (\<lambda>project_id.
     Inr (command_spec [u ''podman'', u ''images'', u ''--filter'',
       u ''reference='' @ (u ''localhost/agent-container-project:'' @ project_id @ u ''-*''),
       u ''--format'', u ''{{.Repository}}:{{.Tag}}'']))"

definition podman_running_agent_containers_spec :: "pystr \<Rightarrow> pystr \<Rightarrow> exn + CommandSpec" where
  "podman_running_agent_containers_spec project_id agent =
     bindE (validate_project_id project_id) (\<lambda>project_id.
     if agent \<notin> RESOURCE_AGENTS then Inl (ValueError ''runtime agent is invalid'')
     else Inr (command_spec [u ''podman'', u ''ps'',
       u ''--filter'', u ''label=io.agent-container.managed=true'',
       u ''--filter'', u ''label=io.agent-container.project='' @ project_id,
       u ''--filter'', u ''label=io.agent-container.agent='' @ agent,
       u ''--format'', u ''{{.ID}}'']))"

definition podman_stats_spec :: "pystr \<Rightarrow> exn + CommandSpec" where
  "podman_stats_spec container_id =
     (if \<not> CONTAINER_ID container_id then Inl (ValueError ''container ID is invalid'')
      else Inr (command_spec [u ''podman'', u ''stats'', u ''--no-stream'', u ''--format'', RESOURCE_STATS_FORMAT,
        container_id]))"

definition build_project_image_spec :: "path \<Rightarrow> path \<Rightarrow> pystr \<Rightarrow> pystr \<Rightarrow> CommandSpec io" where
  "build_project_image_spec build_context containerfile base_image img =
     bind (path_resolve False build_context) (\<lambda>resolved_context.
     bind (path_resolve False containerfile) (\<lambda>resolved_containerfile.
     bind (check (path_parent resolved_containerfile = resolved_context)
       (ValueError ''project Containerfile must be inside its build context'')) (\<lambda>_.
     ret (command_spec [u ''podman'', u ''build'', u ''--pull=never'',
       u ''--build-arg'', u ''BASE_IMAGE='' @ base_image, u ''--tag'', img,
       u ''--file'', path_str resolved_containerfile, path_str resolved_context]))))"

text \<open>The options of the commands that only look into an image.\<close>

definition status_prefix :: "pystr list" where
  "status_prefix = [u ''podman'', u ''run'', u ''--rm'', u ''--read-only'', u ''--cap-drop=all'',
     u ''--security-opt=no-new-privileges'', u ''--userns=keep-id:uid=1000,gid=1000'',
     u ''--tmpfs=/tmp:rw,nosuid,nodev,size=512m'']"

definition cli_version_spec :: "pystr \<Rightarrow> pystr \<Rightarrow> CommandSpec" where
  "cli_version_spec img agent = command_spec (status_prefix @ [img, agent, u ''--version''])"

definition fixed_node_version_spec :: "pystr \<Rightarrow> pystr \<Rightarrow> CommandSpec" where
  "fixed_node_version_spec img executable = command_spec (status_prefix @ [img, executable, u ''--version''])"

definition node_version_spec :: "pystr \<Rightarrow> CommandSpec" where
  "node_version_spec img = fixed_node_version_spec img (u ''/opt/agent-node/bin/node'')"

definition project_node_version_spec :: "pystr \<Rightarrow> CommandSpec" where
  "project_node_version_spec img = fixed_node_version_spec img (u ''/opt/project-node/bin/node'')"

definition claude_policy_status_spec :: "pystr \<Rightarrow> CommandSpec" where
  "claude_policy_status_spec img =
     command_spec (status_prefix @ [img, u ''python3'', u ''-m'', u ''agent_container.claude_policy''])"

definition handover_broker_client_status_spec :: "int \<times> int \<Rightarrow> pystr \<Rightarrow> CommandSpec" where
  "handover_broker_client_status_spec me img = command_spec (noninteractive_prefix me
     @ [img, u ''python3'', u ''-m'', u ''agent_container.handover_broker_client'', u ''--self-check''])"

definition egress_adapter_status_spec :: "int \<times> int \<Rightarrow> pystr \<Rightarrow> CommandSpec" where
  "egress_adapter_status_spec me img = command_spec (noninteractive_prefix me
     @ [u ''--network=none''] @ [img, u ''agent-egress-runtime'', u ''--self-check''])"

definition podman_version_spec :: CommandSpec where
  "podman_version_spec = command_spec [u ''podman'', u ''--version'']"

definition podman_rootless_spec :: CommandSpec where
  "podman_rootless_spec = command_spec [u ''podman'', u ''info'', u ''--format'', u ''{{.Host.Security.Rootless}}'']"

definition podman_oci_runtime_spec :: CommandSpec where
  "podman_oci_runtime_spec = command_spec [u ''podman'', u ''info'', u ''--format'', u ''{{.Host.OCIRuntime.Name}}'']"

definition podman_connections_spec :: CommandSpec where
  "podman_connections_spec =
     command_spec [u ''podman'', u ''system'', u ''connection'', u ''list'', u ''--format'', u ''json'']"

definition podman_image_exists_spec :: "pystr \<Rightarrow> CommandSpec" where
  "podman_image_exists_spec img = command_spec [u ''podman'', u ''image'', u ''exists'', img]"

section \<open>Setting up agents and projects\<close>

definition auth_codex_spec :: "int \<times> int \<Rightarrow> StateLayout \<Rightarrow> pystr \<Rightarrow> CommandSpec" where
  "auth_codex_spec me layout img = command_spec (runtime_prefix me
     @ [u ''--mount'', mount_option (codex_auth_dir layout) (u ''/home/agent/.codex'') False]
     @ [img, u ''codex'', u ''login'', u ''--device-auth''])"

definition codex_login_status_spec :: "int \<times> int \<Rightarrow> StateLayout \<Rightarrow> pystr \<Rightarrow> CommandSpec" where
  "codex_login_status_spec me layout img = command_spec (runtime_prefix me
     @ [u ''--mount'', mount_option (codex_auth_dir layout) (u ''/home/agent/.codex'') False]
     @ [img, u ''codex'', u ''login'', u ''status''])"

definition CLAUDE_CONFIG_ENV :: "pystr list" where
  "CLAUDE_CONFIG_ENV = env_args [(u ''CLAUDE_CONFIG_DIR'', u ''/home/agent/.claude'')]"

definition claude_setup_prefix :: "int \<times> int \<Rightarrow> pystr list" where
  "claude_setup_prefix me = runtime_prefix me @ [CLAUDE_CONFIG_TMPFS] @ CLAUDE_CONFIG_ENV"

definition claude_setup_token_spec :: "int \<times> int \<Rightarrow> pystr \<Rightarrow> CommandSpec" where
  "claude_setup_token_spec me img =
     command_spec (claude_setup_prefix me @ [img, u ''claude'', u ''setup-token''])"

definition claude_token_status_spec :: "int \<times> int \<Rightarrow> path \<Rightarrow> pystr \<Rightarrow> CommandSpec" where
  "claude_token_status_spec me token_file img = command_spec (claude_setup_prefix me
     @ [u ''--mount'', mount_option token_file CLAUDE_TOKEN_PATH True]
     @ [img] @ CLAUDE_LAUNCHER_PREFIX @ [u ''auth'', u ''status''])"

definition clone_project_spec ::
  "int \<times> int \<Rightarrow> StateLayout \<Rightarrow> Repository \<Rightarrow> pystr \<Rightarrow> BrokerRuntimeMount option \<Rightarrow> exn + CommandSpec" where
  "clone_project_spec me layout repository img broker =
     bindE (case broker of
         None \<Rightarrow> Inr (git_environment_args (u ''/home/agent/.config/gh'')
             @ [u ''--mount'', mount_option (gh_dir layout) (u ''/home/agent/.config/gh'') True])
       | Some b \<Rightarrow>
           if bm_repository b \<noteq> repository
           then Inl (ValueError ''broker repository does not match clone repository'') else broker_git_args layout b) (\<lambda>git.
     Inr (command_spec (runtime_prefix me @ git
       @ [u ''--mount'', mount_option (path_join (sl_root layout) (u ''workspaces'')) (u ''/workspaces'') False]
       @ (if broker = None then [img, u ''gh'', u ''repo'', u ''clone'', slug repository]
          else [img, u ''git'', u ''clone'', https_url repository])
       @ [u ''/workspaces/'' @ sl_project_id layout])))"

definition codex_home_mount :: "StateLayout \<Rightarrow> pystr list" where
  "codex_home_mount layout = [u ''--mount'', mount_option (codex_home layout) (u ''/home/agent/.codex'') False]"

definition codex_superpowers_marketplace_spec :: "int \<times> int \<Rightarrow> StateLayout \<Rightarrow> pystr \<Rightarrow> bool \<Rightarrow> CommandSpec" where
  "codex_superpowers_marketplace_spec me layout img update = command_spec (noninteractive_prefix me
     @ codex_home_mount layout @ [img, u ''codex'', u ''plugin'', u ''marketplace'']
     @ (if update then [u ''upgrade'', u ''superpowers-dev'', u ''--json'']
        else [u ''add'', u ''obra/superpowers'', u ''--ref'', u ''main'', u ''--json'']))"

definition codex_superpowers_install_spec :: "int \<times> int \<Rightarrow> StateLayout \<Rightarrow> pystr \<Rightarrow> CommandSpec" where
  "codex_superpowers_install_spec me layout img = command_spec (noninteractive_prefix me
     @ codex_home_mount layout
     @ [img, u ''codex'', u ''plugin'', u ''add'', u ''superpowers@superpowers-dev'', u ''--json''])"

definition claude_plugin_prefix :: "int \<times> int \<Rightarrow> StateLayout \<Rightarrow> pystr list" where
  "claude_plugin_prefix me layout = noninteractive_prefix me
     @ [u ''--mount'', CLAUDE_RUNTIME_HOME_TMPFS_MOUNT]
     @ [u ''--mount'', mount_option (claude_config layout) (u ''/home/agent/.claude'') False] @ CLAUDE_CONFIG_ENV"

definition claude_superpowers_marketplace_spec :: "int \<times> int \<Rightarrow> StateLayout \<Rightarrow> pystr \<Rightarrow> bool \<Rightarrow> CommandSpec" where
  "claude_superpowers_marketplace_spec me layout img update = command_spec (claude_plugin_prefix me layout
     @ [img, u ''claude'', u ''plugin'', u ''marketplace'', if update then u ''update'' else u ''add'']
     @ [if update then u ''claude-plugins-official'' else u ''anthropics/claude-plugins-official''])"

definition claude_superpowers_spec :: "int \<times> int \<Rightarrow> StateLayout \<Rightarrow> pystr \<Rightarrow> bool \<Rightarrow> CommandSpec" where
  "claude_superpowers_spec me layout img update = command_spec (claude_plugin_prefix me layout
     @ [img, u ''claude'', u ''plugin'', if update then u ''update'' else u ''install'',
        u ''superpowers@claude-plugins-official'', u ''--scope'', u ''user'', u ''--yes''])"

section \<open>Running an agent\<close>

definition mount_args :: "(path \<times> pystr \<times> bool) list \<Rightarrow> pystr list" where
  "mount_args mounts = concat (map (\<lambda>(source, target, read_only).
     [u ''--mount'', mount_option source target read_only]) mounts)"

definition codex_mounts :: "StateLayout \<Rightarrow> path \<Rightarrow> BrokerRuntimeMount option \<Rightarrow> (path \<times> pystr \<times> bool) list" where
  "codex_mounts layout handover_project broker =
     [(workspace layout, u ''/workspace'', False),
      (codex_home layout, u ''/home/agent/.codex'', False),
      (codex_auth_file layout, u ''/home/agent/.codex/auth.json'', False),
      (cache layout, u ''/home/agent/.cache'', False)]
     @ (if broker = None then [(gh_dir layout, u ''/home/agent/.config/gh'', True)] else [])
     @ [(handover_project, u ''/handovers/'' @ sl_project_id layout, True)]"

definition claude_mounts :: "StateLayout \<Rightarrow> path \<Rightarrow> BrokerRuntimeMount option \<Rightarrow> (path \<times> pystr \<times> bool) list" where
  "claude_mounts layout handover_project broker =
     [(workspace layout, u ''/workspace'', False),
      (claude_config layout, u ''/home/agent/.claude'', False),
      (claude_token_file layout, CLAUDE_TOKEN_PATH, True),
      (cache layout, u ''/home/agent/.cache'', False)]
     @ (if broker = None then [(gh_dir layout, u ''/home/agent/gh-config'', True)] else [])
     @ [(handover_project, u ''/handovers/'' @ sl_project_id layout, True)]"

definition runtime_checks :: "int \<times> int \<Rightarrow> int \<Rightarrow> int \<Rightarrow> StateLayout \<Rightarrow> path \<Rightarrow> unit io" where
  "runtime_checks me uid gid layout handover_project =
     bind (check ((uid, gid) = me) (ValueError ''runtime uid and gid must match the current user'')) (\<lambda>_.
     validate_handover_project layout handover_project)"

definition egress_part :: "(bytes \<Rightarrow> pystr) \<Rightarrow> StateLayout \<Rightarrow> pystr \<Rightarrow> EgressRuntimeMount option \<Rightarrow> exn + pystr list" where
  "egress_part sha layout agent egress = (case egress of None \<Rightarrow> Inr [] | Some e \<Rightarrow> egress_args sha layout agent e)"

definition family_part ::
  "(bytes \<Rightarrow> pystr) \<Rightarrow> StateLayout \<Rightarrow> FamilyRuntimeMount option \<Rightarrow> EgressRuntimeMount option \<Rightarrow> pystr list io" where
  "family_part sha layout family egress =
     (case family of None \<Rightarrow> ret [] | Some f \<Rightarrow> family_runtime_args sha layout f (egress \<noteq> None))"

definition git_part :: "StateLayout \<Rightarrow> pystr \<Rightarrow> BrokerRuntimeMount option \<Rightarrow> exn + pystr list" where
  "git_part layout gh_config_dir broker =
     (case broker of None \<Rightarrow> Inr (git_environment_args gh_config_dir) | Some b \<Rightarrow> broker_git_args layout b)"

text \<open>The words after the options: the image, the launcher and its command.\<close>

definition agent_command ::
  "pystr \<Rightarrow> FamilyRuntimeMount option \<Rightarrow> EgressRuntimeMount option \<Rightarrow> pystr list \<Rightarrow> pystr list" where
  "agent_command img family egress command =
     [img] @ runtime_launcher_args family
     @ (if egress = None then [] else [u ''agent-egress-runtime'', u ''--'']) @ command"

definition run_spec :: "FamilyRuntimeMount option \<Rightarrow> pystr list \<Rightarrow> CommandSpec" where
  "run_spec family words = \<lparr>argv = words, spec_environment = [],
     spec_pass_fds = (case family of None \<Rightarrow> [] | Some f \<Rightarrow> pass_fds f)\<rparr>"

definition run_codex_spec ::
  "int \<times> int \<Rightarrow> (bytes \<Rightarrow> pystr) \<Rightarrow> StateLayout \<Rightarrow> path \<Rightarrow> pystr \<Rightarrow> int \<Rightarrow> int \<Rightarrow> HandoverRuntimeMount
     \<Rightarrow> BrokerRuntimeMount option \<Rightarrow> EgressRuntimeMount option \<Rightarrow> FamilyRuntimeMount option \<Rightarrow> CommandSpec io" where
  "run_codex_spec me sha layout handover_project img uid gid handover_broker broker egress family_mount =
     bind (runtime_checks me uid gid layout handover_project) (\<lambda>_.
     bind (lift (runtime_monitor_args layout (u ''codex''))) (\<lambda>monitor.
     bind (lift (git_part layout (u ''/home/agent/.config/gh'') broker)) (\<lambda>git.
     bind (lift (handover_broker_args handover_broker)) (\<lambda>handover.
     bind (lift (egress_part sha layout (u ''codex'') egress)) (\<lambda>network.
     bind (family_part sha layout family_mount egress) (\<lambda>family.
     ret (run_spec family_mount
       (runtime_prefix (uid, gid) @ AGENT_SANDBOX_ARGS @ monitor @ git @ handover
        @ env_args [(u ''AGENT_HANDOVER_ROOT'', u ''/handovers'')]
        @ mount_args (codex_mounts layout handover_project broker)
        @ network @ family
        @ env_args [(u ''AGENT_PROJECT_ID'', sl_project_id layout)]
        @ agent_command img family_mount egress
            [u ''codex'', u ''--approve-for-me'', u ''-c'', CODEX_STATUS_LINE_CONFIG]))))))))"

definition run_claude_spec ::
  "int \<times> int \<Rightarrow> (bytes \<Rightarrow> pystr) \<Rightarrow> StateLayout \<Rightarrow> path \<Rightarrow> pystr \<Rightarrow> int \<Rightarrow> int \<Rightarrow> HandoverRuntimeMount
     \<Rightarrow> BrokerRuntimeMount option \<Rightarrow> EgressRuntimeMount option \<Rightarrow> FamilyRuntimeMount option \<Rightarrow> CommandSpec io" where
  "run_claude_spec me sha layout handover_project img uid gid handover_broker broker egress family_mount =
     bind (runtime_checks me uid gid layout handover_project) (\<lambda>_.
     bind (lift (runtime_monitor_args layout (u ''claude''))) (\<lambda>monitor.
     bind (lift (git_part layout (u ''/home/agent/gh-config'') broker)) (\<lambda>git.
     bind (lift (handover_broker_args handover_broker)) (\<lambda>handover.
     bind (lift (egress_part sha layout (u ''claude'') egress)) (\<lambda>network.
     bind (family_part sha layout family_mount egress) (\<lambda>family.
     ret (run_spec family_mount
       (runtime_prefix (uid, gid) @ AGENT_SANDBOX_ARGS @ monitor
        @ [u ''--mount'', CLAUDE_RUNTIME_HOME_TMPFS_MOUNT] @ git @ handover
        @ mount_args (claude_mounts layout handover_project broker)
        @ CLAUDE_CONFIG_ENV
        @ env_args [(u ''AGENT_HANDOVER_ROOT'', u ''/handovers'')]
        @ network @ family
        @ env_args [(u ''AGENT_PROJECT_ID'', sl_project_id layout)]
        @ agent_command img family_mount egress CLAUDE_LAUNCHER_PREFIX))))))))"

section \<open>Stopping a container\<close>

text \<open>
  \<open>run words\<close> is what \<open>subprocess.run\<close> does with a command and five seconds: no result when it
  cannot be started or does not end in time, else the return code. The
  \<open>EgressBrokerRuntimeError\<close> of the code is \<open>OtherException\<close>.
\<close>

definition CONTAINER_NAME :: "pystr \<Rightarrow> bool" where
  "CONTAINER_NAME s \<longleftrightarrow> class_match (\<lambda>c. is_lower c \<or> is_digit c)
     (\<lambda>c. is_lower c \<or> is_digit c \<or> c \<in> {46, 45, 95}) 127 s"

definition stop_named_container :: "(pystr list \<Rightarrow> 'w \<Rightarrow> int option \<times> 'w) \<Rightarrow> pystr \<Rightarrow> 'w \<Rightarrow> (exn + unit) \<times> 'w" where
  "stop_named_container run container_name w =
     (if \<not> CONTAINER_NAME container_name then (Inl OtherException, w)
      else
        (case run (stop_words container_name) w of (r, w1) \<Rightarrow>
           if r = Some 0 then (Inr (), w1)
           else
             (case run (kill_words container_name) w1 of (r2, w2) \<Rightarrow>
                if r2 = Some 0 then (Inr (), w2)
                else (Inl OtherException, w2))))"

end
