(* ===== verification/Podman_Safety.thy ===== *)
theory Podman_Safety
  imports Podman_Specs
begin

text \<open>
  The command line of an agent's container: exactly which flags, labels, environment and mounts
  it has.
\<close>

section \<open>Options\<close>













section \<open>What an agent is given\<close>






section \<open>The parts of a command line\<close>











section \<open>Whole command lines\<close>





text \<open>The engine splits a mount option at its commas: a source without commas is taken as it is.\<close>

lemma mount_option_fields:
  assumes "44 \<notin> set (path_str s)" and "44 \<notin> set t"
  shows "split_on 44 (mount_option s t r) =
    [u ''type=bind'', u ''src='' @ path_str s, u ''dst='' @ t] @ (if r then [u ''ro=true''] else [])"
proof -
  let ?fields = "[u ''type=bind'', u ''src='' @ path_str s, u ''dst='' @ t] @ (if r then [u ''ro=true''] else [])"
  have "split_on 44 (join_with [44] ?fields) = ?fields"
    using assms by (intro split_join_with) (auto simp: u_def)
  moreover have "mount_option s t r = join_with [44] ?fields"
    by (simp add: mount_option_def u_def)
  ultimately show ?thesis by (simp only:)
qed

section \<open>Properties\<close>






end
