(* ===== verification/Socket_Runtime.thy ===== *)
theory Socket_Runtime
  imports Py_Prelude
begin

text \<open>
  \<open>src/agent_container/broker/runtime.py\<close>, the class \<open>SocketBrokerRuntime\<close>: a thread accepts clients
  and serves them itself or starts a worker thread for each; the owner of the runtime starts it and
  stops it. A thread is a phase that says which call it makes next, so threads interleave call by
  call; an observation says what the calls outside the class return.
\<close>

section \<open>Configuration and outside calls\<close>

record runtime_config =
  rc_threaded :: bool
  rc_raw_client :: bool
  rc_deactivate_after_join :: bool

record outside =
  ob_open_listener :: "exn + unit"
  ob_settimeout :: "exn + unit"
  ob_thread_start :: "exn + unit"
  ob_listener_close :: "exn + unit"
  ob_ready :: "exn + bool"
  ob_accept :: "exn + unit"
  ob_connection :: "exn + unit"
  ob_policy :: "(exn + bool) option"
  ob_handler :: "exn + unit"
  ob_stream_close :: "exn + unit"
  ob_client_close :: "exn + unit"
  ob_deactivate :: "exn + unit"
  ob_close :: "exn + unit"

text \<open>The phases of the accept thread (\<open>_serve\<close>), of a worker (\<open>_run_worker\<close>) and of \<open>stop\<close>.\<close>

datatype accept_phase = Awaiting_Ready | Checking | Accepting | Starting nat | Serving | Ended

datatype worker_phase = Registered | Running | Finishing | Gone

datatype stop_phase =
    Deactivating
  | Closing_Listener bool
  | Joining bool bool
  | Joining_Workers bool bool bool
  | Late_Deactivating bool bool bool
  | Cleaning bool bool bool
  | Returned "exn + unit"

record socket_runtime =
  sr_stop :: bool
  sr_failed :: bool
  sr_thread :: "accept_phase option"
  sr_listener :: bool
  sr_error :: bool
  sr_deactivate_error :: bool
  sr_exited :: bool
  sr_workers :: "nat set"
  sr_threads :: "nat \<rightharpoonup> worker_phase"
  sr_stopping :: "stop_phase option"
  sr_deactivated :: bool
  sr_closed :: bool
  sr_served :: nat

text \<open>
  The fields after \<open>sr_workers\<close> are not the object's: the worker threads, the call of \<open>stop\<close> under
  way, whether \<open>deactivate\<close> and \<open>close\<close> have succeeded, and how often the handler ran.
\<close>

definition new_runtime :: socket_runtime where
  "new_runtime = \<lparr>sr_stop = False, sr_failed = False, sr_thread = None, sr_listener = False, sr_error = False,
     sr_deactivate_error = False, sr_exited = False, sr_workers = {}, sr_threads = Map.empty, sr_stopping = None,
     sr_deactivated = False, sr_closed = False, sr_served = 0\<rparr>"

section \<open>Starting\<close>

text \<open>The exception class a runtime is configured with.\<close>

definition runtime_error :: exn where
  "runtime_error = OtherException"

definition call_close :: "outside \<Rightarrow> socket_runtime \<Rightarrow> (exn + unit) \<times> socket_runtime" where
  "call_close ob r = (ob_close ob, r\<lparr>sr_closed := sr_closed r \<or> ob_close ob = Inr ()\<rparr>)"

definition cleanup_after_start :: "outside \<Rightarrow> socket_runtime \<Rightarrow> (exn + unit) \<times> socket_runtime" where
  "cleanup_after_start ob r =
     (case call_close ob r of
        (Inl e, r1) \<Rightarrow>
          if is_os_error e \<or> is_value_error e then (Inl runtime_error, r1\<lparr>sr_exited := False\<rparr>) else (Inl e, r1)
      | (Inr _, r1) \<Rightarrow> (Inl runtime_error, r1\<lparr>sr_exited := True\<rparr>))"

text \<open>The \<open>except\<close> clause of \<open>start\<close>; \<open>opened\<close> says whether there is a listener to close.\<close>

definition start_failed :: "outside \<Rightarrow> bool \<Rightarrow> socket_runtime \<Rightarrow> (exn + unit) \<times> socket_runtime" where
  "start_failed ob opened r =
     (case (if opened then ob_listener_close ob else Inr ()) of
        Inl e \<Rightarrow> if is_os_error e then cleanup_after_start ob r else (Inl e, r)
      | Inr _ \<Rightarrow> cleanup_after_start ob r)"

definition start_runtime :: "outside \<Rightarrow> socket_runtime \<Rightarrow> (exn + unit) \<times> socket_runtime" where
  "start_runtime ob r =
     (if sr_thread r \<noteq> None \<or> sr_exited r then (Inl runtime_error, r)
      else
        (case ob_open_listener ob of
           Inl _ \<Rightarrow> start_failed ob False r
         | Inr _ \<Rightarrow>
             (case ob_settimeout ob of
                Inl _ \<Rightarrow> start_failed ob True r
              | Inr _ \<Rightarrow>
                  let r1 = r\<lparr>sr_listener := True\<rparr> in
                  (case ob_thread_start ob of
                     Inl _ \<Rightarrow> start_failed ob True r1
                   | Inr _ \<Rightarrow> (Inr (), r1\<lparr>sr_thread := Some Awaiting_Ready\<rparr>)))))"

section \<open>Serving\<close>

definition admit_connection :: "outside \<Rightarrow> exn + bool" where
  "admit_connection ob =
     bindE (ob_connection ob) (\<lambda>_.
     case ob_policy ob of
       None \<Rightarrow> Inr True
     | Some (Inl e) \<Rightarrow> bindE (ob_stream_close ob) (\<lambda>_. Inl e)
     | Some (Inr admitted) \<Rightarrow>
         if admitted then Inr True else bindE (ob_stream_close ob) (\<lambda>_. Inr False))"

text \<open>The result, and whether the handler ran.\<close>

definition handle_one :: "runtime_config \<Rightarrow> outside \<Rightarrow> (exn + unit) \<times> bool" where
  "handle_one cfg ob =
     (if rc_raw_client cfg then (ob_handler ob, True)
      else
        (case admit_connection ob of
           Inl e \<Rightarrow> (Inl e, False)
         | Inr admitted \<Rightarrow>
             if \<not> admitted then (Inr (), False)
             else (case ob_stream_close ob of Inl e \<Rightarrow> (Inl e, True) | Inr _ \<Rightarrow> (ob_handler ob, True))))"

definition serve_fails :: "socket_runtime \<Rightarrow> socket_runtime" where
  "serve_fails r = r\<lparr>sr_error := True, sr_failed := True, sr_thread := Some Ended\<rparr>"

definition at_accept :: "accept_phase \<Rightarrow> socket_runtime \<Rightarrow> socket_runtime" where
  "at_accept p r = r\<lparr>sr_thread := Some p\<rparr>"

definition at_worker :: "nat \<Rightarrow> worker_phase \<Rightarrow> socket_runtime \<Rightarrow> socket_runtime" where
  "at_worker i p r = r\<lparr>sr_threads := (sr_threads r)(i \<mapsto> p)\<rparr>"

definition serve_one :: "runtime_config \<Rightarrow> outside \<Rightarrow> socket_runtime \<Rightarrow> (exn + unit) \<times> socket_runtime" where
  "serve_one cfg ob r =
     (case handle_one cfg ob of (res, handled) \<Rightarrow> (res, r\<lparr>sr_served := sr_served r + (if handled then 1 else 0)\<rparr>))"

text \<open>One call of the accept thread; \<open>i\<close> is the worker it creates, if it does.\<close>

definition serve_step :: "runtime_config \<Rightarrow> outside \<Rightarrow> nat \<Rightarrow> accept_phase \<Rightarrow> socket_runtime \<Rightarrow> socket_runtime" where
  "serve_step cfg ob i phase r =
     (case phase of
        Awaiting_Ready \<Rightarrow>
          if sr_stop r then at_accept Ended r
          else (case ob_ready ob of
                  Inl _ \<Rightarrow> serve_fails r
                | Inr ready \<Rightarrow> if ready then at_accept Checking r else r)
      | Checking \<Rightarrow> if sr_stop r then at_accept Ended r else at_accept Accepting r
      | Accepting \<Rightarrow>
          (case ob_accept ob of
             Inl e \<Rightarrow>
               if e = TimeoutError then at_accept Checking r
               else if is_os_error e \<and> sr_stop r then at_accept Ended r
               else serve_fails r
           | Inr _ \<Rightarrow>
               if rc_threaded cfg
               then at_accept (Starting i) (at_worker i Registered (r\<lparr>sr_workers := insert i (sr_workers r)\<rparr>))
               else at_accept Serving r)
      | Starting j \<Rightarrow>
          (case ob_thread_start ob of
             Inl _ \<Rightarrow> serve_fails (at_worker j Gone (r\<lparr>sr_workers := sr_workers r - {j}\<rparr>))
           | Inr _ \<Rightarrow> at_accept Checking (at_worker j Running r))
      | Serving \<Rightarrow>
          (case serve_one cfg ob r of (res, r1) \<Rightarrow>
             (case ob_client_close ob of
                Inl _ \<Rightarrow> serve_fails r1
              | Inr _ \<Rightarrow> (case res of Inl _ \<Rightarrow> serve_fails r1 | Inr _ \<Rightarrow> at_accept Checking r1)))
      | Ended \<Rightarrow> r)"

definition worker_step :: "runtime_config \<Rightarrow> outside \<Rightarrow> nat \<Rightarrow> worker_phase \<Rightarrow> socket_runtime \<Rightarrow> socket_runtime" where
  "worker_step cfg ob i phase r =
     (case phase of
        Running \<Rightarrow>
          (case serve_one cfg ob r of (res, r1) \<Rightarrow>
             (case res of
                Inr _ \<Rightarrow> at_worker i Finishing r1
              | Inl e \<Rightarrow>
                  if is_os_error e then at_worker i Finishing r1
                  else at_worker i Finishing (r1\<lparr>sr_error := True, sr_stop := True, sr_failed := True\<rparr>)))
      | Finishing \<Rightarrow>
          (case ob_client_close ob of
             Inl _ \<Rightarrow> at_worker i Gone r
           | Inr _ \<Rightarrow> at_worker i Gone (r\<lparr>sr_workers := sr_workers r - {i}\<rparr>))
      | _ \<Rightarrow> r)"

section \<open>Stopping\<close>

definition try_deactivate :: "outside \<Rightarrow> socket_runtime \<Rightarrow> bool \<times> socket_runtime" where
  "try_deactivate ob r =
     (case ob_deactivate ob of
        Inl _ \<Rightarrow> (False, r\<lparr>sr_deactivate_error := True\<rparr>)
      | Inr _ \<Rightarrow> (True, r\<lparr>sr_deactivate_error := False, sr_deactivated := True\<rparr>))"

definition thread_alive :: "socket_runtime \<Rightarrow> bool" where
  "thread_alive r = (case sr_thread r of None \<Rightarrow> False | Some p \<Rightarrow> p \<noteq> Ended)"

definition stop_begin :: "socket_runtime \<Rightarrow> stop_phase \<times> socket_runtime" where
  "stop_begin r = (if sr_exited r then (Returned (Inr ()), r) else (Deactivating, r\<lparr>sr_stop := True\<rparr>))"

text \<open>
  The calls of \<open>stop\<close>. A join that times out leaves its thread alive, so what matters is whether it
  is alive afterwards.
\<close>

definition stop_step :: "runtime_config \<Rightarrow> outside \<Rightarrow> stop_phase \<Rightarrow> socket_runtime \<Rightarrow> stop_phase \<times> socket_runtime" where
  "stop_step cfg ob phase r =
     (case phase of
        Deactivating \<Rightarrow>
          if rc_deactivate_after_join cfg then (Closing_Listener False, r)
          else (case try_deactivate ob r of (ok, r1) \<Rightarrow> (Closing_Listener (\<not> ok), r1))
      | Closing_Listener deactivate_failed \<Rightarrow>
          if \<not> sr_listener r then (Joining deactivate_failed False, r)
          else (case ob_listener_close ob of
                  Inl e \<Rightarrow> if is_os_error e then (Joining deactivate_failed True, r) else (Returned (Inl e), r)
                | Inr _ \<Rightarrow> (Joining deactivate_failed False, r\<lparr>sr_listener := False\<rparr>))
      | Joining deactivate_failed cleanup_failed \<Rightarrow>
          (Joining_Workers deactivate_failed cleanup_failed (thread_alive r), r)
      | Joining_Workers deactivate_failed cleanup_failed did_not_stop \<Rightarrow>
          (Late_Deactivating deactivate_failed cleanup_failed (did_not_stop \<or> sr_workers r \<noteq> {}), r)
      | Late_Deactivating deactivate_failed cleanup_failed did_not_stop \<Rightarrow>
          if rc_deactivate_after_join cfg
          then (case try_deactivate ob r of (ok, r1) \<Rightarrow> (Cleaning (\<not> ok) cleanup_failed did_not_stop, r1))
          else (Cleaning deactivate_failed cleanup_failed did_not_stop, r)
      | Cleaning deactivate_failed cleanup_failed did_not_stop \<Rightarrow>
          if did_not_stop then (Returned (Inl runtime_error), r)
          else
            (case call_close ob r of
               (Inl e, r1) \<Rightarrow> (Returned (Inl (if is_os_error e \<or> is_value_error e then runtime_error else e)), r1)
             | (Inr _, r1) \<Rightarrow>
                 if deactivate_failed then (Returned (Inl runtime_error), r1)
                 else if cleanup_failed \<or> sr_error r1 then (Returned (Inl runtime_error), r1\<lparr>sr_exited := True\<rparr>)
                 else (Returned (Inr ()), r1\<lparr>sr_exited := True\<rparr>))
      | Returned res \<Rightarrow> (Returned res, r))"

section \<open>All threads\<close>

text \<open>
  The owner makes one call at a time. A worker's number is new.
\<close>

inductive runtime_step :: "runtime_config \<Rightarrow> socket_runtime \<Rightarrow> socket_runtime \<Rightarrow> bool" for cfg where
  starts: "sr_stopping r = None \<Longrightarrow> start_runtime ob r = (res, r') \<Longrightarrow> runtime_step cfg r r'"
| serves: "sr_thread r = Some phase \<Longrightarrow> sr_threads r i = None \<Longrightarrow>
    runtime_step cfg r (serve_step cfg ob i phase r)"
| works: "sr_threads r i = Some phase \<Longrightarrow> runtime_step cfg r (worker_step cfg ob i phase r)"
| stops: "sr_stopping r = None \<Longrightarrow> stop_begin r = (phase, r') \<Longrightarrow>
    runtime_step cfg r (r'\<lparr>sr_stopping := Some phase\<rparr>)"
| stopping: "sr_stopping r = Some phase \<Longrightarrow> stop_step cfg ob phase r = (phase', r') \<Longrightarrow>
    runtime_step cfg r (r'\<lparr>sr_stopping := Some phase'\<rparr>)"
| returns: "sr_stopping r = Some (Returned res) \<Longrightarrow> runtime_step cfg r (r\<lparr>sr_stopping := None\<rparr>)"

end
