(* ===== verification/Runtime_Safety.thy ===== *)
theory Runtime_Safety
  imports Socket_Runtime
begin

text \<open>A runtime that counts as exited is closed for good, however its threads interleave.\<close>

section \<open>The invariant\<close>

lemma thread_alive_iff: "thread_alive r \<longleftrightarrow> (\<exists>p. sr_thread r = Some p \<and> p \<noteq> Ended)"
  by (simp add: thread_alive_def split: option.split)

definition workers_known :: "socket_runtime \<Rightarrow> bool" where
  "workers_known r \<longleftrightarrow> (\<forall>i p. sr_threads r i = Some p \<longrightarrow> p \<noteq> Gone \<longrightarrow> i \<in> sr_workers r)
     \<and> (\<forall>j. sr_thread r = Some (Starting j) \<longrightarrow> sr_threads r j = Some Registered)
     \<and> (sr_thread r = None \<longrightarrow> sr_workers r = {} \<and> sr_threads r = Map.empty)"

text \<open>No thread of the runtime runs, and none will be started.\<close>

definition quiet :: "socket_runtime \<Rightarrow> bool" where
  "quiet r \<longleftrightarrow> \<not> thread_alive r \<and> sr_workers r = {}"

text \<open>What a call of \<open>stop\<close> has found out in each phase.\<close>

fun stop_knows :: "runtime_config \<Rightarrow> socket_runtime \<Rightarrow> stop_phase \<Rightarrow> bool" where
  "stop_knows cfg r Deactivating = True"
| "stop_knows cfg r (Closing_Listener df) = (df \<or> rc_deactivate_after_join cfg \<or> sr_deactivated r)"
| "stop_knows cfg r (Joining df cf) = (df \<or> rc_deactivate_after_join cfg \<or> sr_deactivated r)"
| "stop_knows cfg r (Joining_Workers df cf dns) =
     ((df \<or> rc_deactivate_after_join cfg \<or> sr_deactivated r) \<and> (dns \<or> \<not> thread_alive r))"
| "stop_knows cfg r (Late_Deactivating df cf dns) =
     ((df \<or> rc_deactivate_after_join cfg \<or> sr_deactivated r) \<and> (dns \<or> quiet r))"
| "stop_knows cfg r (Cleaning df cf dns) = ((df \<or> sr_deactivated r) \<and> (dns \<or> quiet r))"
| "stop_knows cfg r (Returned res) = (res = Inr () \<longrightarrow> sr_exited r)"

definition exit_closed :: "socket_runtime \<Rightarrow> bool" where
  "exit_closed r \<longleftrightarrow> (sr_exited r \<longrightarrow> sr_closed r \<and> quiet r \<and> (sr_thread r \<noteq> None \<longrightarrow> sr_deactivated r)
     \<and> (\<forall>p. sr_stopping r = Some p \<longrightarrow> (\<exists>res. p = Returned res)))"

definition runtime_ok :: "runtime_config \<Rightarrow> socket_runtime \<Rightarrow> bool" where
  "runtime_ok cfg r \<longleftrightarrow> workers_known r \<and> exit_closed r \<and> (\<forall>p. sr_stopping r = Some p \<longrightarrow> stop_knows cfg r p)"

lemmas runtime_defs = runtime_ok_def workers_known_def exit_closed_def quiet_def thread_alive_iff

lemma new_runtime_ok: "runtime_ok cfg new_runtime"
  by (simp add: runtime_defs new_runtime_def)

text \<open>What the other threads do leaves a fact of \<open>stop\<close> true.\<close>

lemma stop_knows_cong:
  assumes "stop_knows cfg r p" and "sr_deactivated r \<longrightarrow> sr_deactivated r'" and "sr_exited r \<longrightarrow> sr_exited r'"
    and "\<not> thread_alive r \<longrightarrow> \<not> thread_alive r'" and "quiet r \<longrightarrow> quiet r'"
  shows "stop_knows cfg r' p"
  using assms by (cases p) auto

lemma start_ok:
  assumes "runtime_ok cfg r" "sr_stopping r = None" "start_runtime ob r = (res, r')"
  shows "runtime_ok cfg r'"
proof (cases "sr_thread r \<noteq> None \<or> sr_exited r")
  case True
  then show ?thesis using assms by (auto simp: start_runtime_def)
next
  case False
  then have n: "sr_thread r = None" "\<not> sr_exited r" by auto
  have clean: "runtime_ok cfg r2" if "start_failed ob b r1 = (res, r2)" "sr_thread r1 = None" "\<not> sr_exited r1"
    "sr_stopping r1 = None" "sr_workers r1 = {}" "sr_threads r1 = Map.empty" for b r1 r2
    using that by (auto simp: start_failed_def cleanup_after_start_def call_close_def runtime_defs
        split: sum.splits if_split_asm prod.splits)
  have "sr_workers r = {}" "sr_threads r = Map.empty" using assms(1) n by (auto simp: runtime_defs)
  with n assms(2,3) clean show ?thesis
    by (auto simp: start_runtime_def Let_def runtime_defs split: sum.splits)
qed

lemma serve_one_state: "serve_one cfg ob r = (res, r') \<Longrightarrow> \<exists>n. r' = r\<lparr>sr_served := n\<rparr>"
  by (auto simp: serve_one_def split: prod.splits)

lemma serve_ok:
  assumes "runtime_ok cfg r" and "sr_thread r = Some phase" and "sr_threads r i = None"
  shows "runtime_ok cfg (serve_step cfg ob i phase r)"
proof (cases "phase = Ended")
  case True
  then show ?thesis using assms by (simp add: serve_step_def)
next
  case False
  let ?r = "serve_step cfg ob i phase r"
  have alive: "thread_alive r" using False assms(2) by (auto simp: thread_alive_iff)
  have ne: "\<not> sr_exited r" using alive assms(1) by (auto simp: runtime_ok_def exit_closed_def quiet_def)
  obtain res r1 where s1: "serve_one cfg ob r = (res, r1)" by fastforce
  obtain n where r1: "r1 = r\<lparr>sr_served := n\<rparr>" using serve_one_state [OF s1] by blast
  have same: "sr_stopping ?r = sr_stopping r" "sr_exited ?r = sr_exited r" "sr_deactivated ?r = sr_deactivated r"
    using s1 r1 by (cases phase; auto simp: serve_step_def at_accept_def at_worker_def serve_fails_def split: sum.splits)+
  have w: "workers_known r" using assms(1) by (simp add: runtime_ok_def)
  have "workers_known ?r"
    using w assms(2,3) s1 r1 False
    by (cases phase) (auto simp: workers_known_def serve_step_def at_accept_def at_worker_def serve_fails_def split: sum.splits if_split_asm)
  moreover have "stop_knows cfg ?r p" if "sr_stopping ?r = Some p" for p
    by (rule stop_knows_cong [of cfg r]) (use assms(1) that same alive in \<open>auto simp: runtime_ok_def quiet_def\<close>)
  ultimately show ?thesis using same ne by (simp add: runtime_ok_def exit_closed_def)
qed

lemma works_ok:
  assumes "runtime_ok cfg r" and "sr_threads r i = Some phase"
  shows "runtime_ok cfg (worker_step cfg ob i phase r)"
proof (cases "phase = Running \<or> phase = Finishing")
  case False
  then show ?thesis using assms(1) by (cases phase) (auto simp: worker_step_def)
next
  case True
  let ?r = "worker_step cfg ob i phase r"
  have w: "workers_known r" using assms(1) by (simp add: runtime_ok_def)
  then have busy: "sr_workers r \<noteq> {}" using True assms(2) by (auto simp: workers_known_def)
  have ne: "\<not> sr_exited r" using busy assms(1) by (auto simp: runtime_ok_def exit_closed_def quiet_def)
  obtain res r1 where s1: "serve_one cfg ob r = (res, r1)" by fastforce
  obtain n where r1: "r1 = r\<lparr>sr_served := n\<rparr>" using serve_one_state [OF s1] by blast
  have same: "sr_stopping ?r = sr_stopping r" "sr_exited ?r = sr_exited r" "sr_deactivated ?r = sr_deactivated r"
      "sr_thread ?r = sr_thread r"
    using s1 r1 by (cases phase; auto simp: worker_step_def at_worker_def split: sum.splits)+
  have "workers_known ?r"
    using w assms(2) s1 r1 True
    by (auto simp: workers_known_def worker_step_def at_worker_def split: sum.splits if_split_asm)
  moreover have "stop_knows cfg ?r p" if "sr_stopping ?r = Some p" for p
    by (rule stop_knows_cong [of cfg r])
      (use assms(1) that same busy in \<open>auto simp: runtime_ok_def quiet_def thread_alive_iff\<close>)
  ultimately show ?thesis using same ne by (simp add: runtime_ok_def exit_closed_def)
qed

lemma stopping_ok:
  assumes "runtime_ok cfg r" and "sr_stopping r = Some phase" and "stop_step cfg ob phase r = (phase', r')"
  shows "runtime_ok cfg (r'\<lparr>sr_stopping := Some phase'\<rparr>)"
proof -
  have k: "stop_knows cfg r phase" using assms(1,2) by (simp add: runtime_ok_def)
  have ne: "\<not> sr_exited r" if "\<nexists>res. phase = Returned res"
    using assms(1,2) that by (auto simp: runtime_ok_def exit_closed_def)
  show ?thesis
    using assms(1,3) k ne
    by (cases phase)
      (auto simp: stop_step_def try_deactivate_def call_close_def runtime_ok_def workers_known_def exit_closed_def
        quiet_def thread_alive_iff split: sum.splits if_split_asm prod.splits)
qed

lemma runtime_step_ok: "runtime_step cfg r r' \<Longrightarrow> runtime_ok cfg r \<Longrightarrow> runtime_ok cfg r'"
proof (induction rule: runtime_step.induct)
  case (starts r ob res r')
  then show ?case by (blast intro: start_ok)
next
  case (serves r phase i ob)
  then show ?case by (blast intro: serve_ok)
next
  case (works r i phase ob)
  then show ?case by (blast intro: works_ok)
next
  case (stops r phase r')
  then show ?case
    by (auto simp: stop_begin_def runtime_ok_def workers_known_def exit_closed_def quiet_def thread_alive_iff
        split: if_split_asm)
next
  case (stopping r phase ob phase' r')
  then show ?case by (blast intro: stopping_ok)
next
  case (returns r res)
  then show ?case by (auto simp: runtime_ok_def workers_known_def exit_closed_def quiet_def thread_alive_iff)
qed

abbreviation runtime_steps :: "runtime_config \<Rightarrow> socket_runtime \<Rightarrow> socket_runtime \<Rightarrow> bool" where
  "runtime_steps cfg \<equiv> (runtime_step cfg)\<^sup>*\<^sup>*"

lemma runtime_steps_ok: "runtime_steps cfg r r' \<Longrightarrow> runtime_ok cfg r \<Longrightarrow> runtime_ok cfg r'"
  by (induction rule: rtranclp_induct) (auto intro: runtime_step_ok)

section \<open>After the exit\<close>

lemma exited_step:
  assumes "runtime_step cfg r r'" and "runtime_ok cfg r" and "sr_exited r"
  shows "sr_exited r' \<and> sr_served r' = sr_served r"
proof -
  have q: "\<not> thread_alive r" "sr_workers r = {}" and p: "\<And>p. sr_stopping r = Some p \<Longrightarrow> \<exists>res. p = Returned res"
    and w: "workers_known r"
    using assms(2,3) by (auto simp: runtime_ok_def exit_closed_def quiet_def)
  from assms(1) show ?thesis
  proof cases
    case (starts ob res)
    then show ?thesis using assms(3) by (auto simp: start_runtime_def)
  next
    case (serves phase i ob)
    then show ?thesis using q(1) assms(3) by (cases phase) (auto simp: thread_alive_iff serve_step_def)
  next
    case (works i phase ob)
    then have "phase = Gone" using w q(2) by (auto simp: workers_known_def)
    then show ?thesis using works assms(3) by (simp add: worker_step_def)
  next
    case (stops phase r1)
    then show ?thesis using assms(3) by (auto simp: stop_begin_def)
  next
    case (stopping phase ob phase' r1)
    with p obtain res where "phase = Returned res" by blast
    then show ?thesis using stopping assms(3) by (auto simp: stop_step_def)
  next
    case (returns res)
    then show ?thesis using assms(3) by simp
  qed
qed

lemma exited_steps:
  "runtime_steps cfg r r' \<Longrightarrow> runtime_ok cfg r \<Longrightarrow> sr_exited r \<Longrightarrow> sr_exited r' \<and> sr_served r' = sr_served r"
proof (induction rule: rtranclp_induct)
  case (step r1 r2)
  then show ?case using runtime_steps_ok [OF step.hyps(1) step.prems(1)] exited_step [OF step.hyps(2)] by metis
qed simp

section \<open>A run\<close>

text \<open>Steps in which every outside call succeeds.\<close>

definition fine :: outside where
  "fine = \<lparr>ob_open_listener = Inr (), ob_settimeout = Inr (), ob_thread_start = Inr (), ob_listener_close = Inr (),
     ob_ready = Inr True, ob_accept = Inr (), ob_connection = Inr (), ob_policy = None, ob_handler = Inr (),
     ob_stream_close = Inr (), ob_client_close = Inr (), ob_deactivate = Inr (), ob_close = Inr ()\<rparr>"

datatype runtime_action = Start | Serve | Stop | Go_On

fun run_action :: "runtime_config \<Rightarrow> runtime_action \<Rightarrow> socket_runtime \<Rightarrow> socket_runtime" where
  "run_action cfg Start r = (if sr_stopping r = None then snd (start_runtime fine r) else r)"
| "run_action cfg Serve r = (case sr_thread r of None \<Rightarrow> r
     | Some phase \<Rightarrow> if sr_threads r 0 = None then serve_step cfg fine 0 phase r else r)"
| "run_action cfg Stop r =
     (if sr_stopping r = None then (case stop_begin r of (p, r1) \<Rightarrow> r1\<lparr>sr_stopping := Some p\<rparr>) else r)"
| "run_action cfg Go_On r = (case sr_stopping r of None \<Rightarrow> r
     | Some phase \<Rightarrow> (case stop_step cfg fine phase r of (p, r1) \<Rightarrow> r1\<lparr>sr_stopping := Some p\<rparr>))"

lemma run_action_step: "runtime_steps cfg r (run_action cfg a r)"
  by (cases a)
    (auto intro!: r_into_rtranclp split: option.split prod.split
      intro: runtime_step.starts runtime_step.serves runtime_step.stops runtime_step.stopping simp: prod_eq_iff)

lemma run_actions_steps: "runtime_steps cfg r (fold (run_action cfg) as r)"
proof (induction as arbitrary: r)
  case (Cons a as)
  show ?case using rtranclp_trans [OF run_action_step Cons] by simp
qed simp

definition demo_run :: socket_runtime where
  "demo_run = fold (run_action \<lparr>rc_threaded = False, rc_raw_client = False, rc_deactivate_after_join = False\<rparr>)
     [Start, Serve, Serve, Serve, Serve, Stop, Go_On, Go_On, Serve, Go_On, Go_On, Go_On, Go_On] new_runtime"

lemma demo_run_steps:
  "runtime_steps \<lparr>rc_threaded = False, rc_raw_client = False, rc_deactivate_after_join = False\<rparr> new_runtime demo_run"
  by (simp only: demo_run_def run_actions_steps)

lemma demo_run_exits: "sr_exited demo_run \<and> sr_served demo_run = 1 \<and> sr_stopping demo_run = Some (Returned (Inr ()))"
  by code_simp

section \<open>Properties\<close>

text \<open>
  C27. Stopping fails closed: in every interleaving of the accept thread, the workers and the calls of
  \<open>start\<close> and \<open>stop\<close>, whatever the calls outside return, a runtime that counts as exited has closed
  its session, has no thread left that runs or could be started, and if it ever served it has been
  deactivated; from then on it stays exited and no client is handled. \<open>stop\<close> returns normally only
  from an exited runtime.
\<close>

theorem runtime_fail_closed:
  assumes "runtime_steps cfg new_runtime r"
  shows "(sr_stopping r = Some (Returned (Inr ())) \<longrightarrow> sr_exited r)
    \<and> (sr_exited r \<longrightarrow> sr_closed r \<and> (sr_thread r = None \<or> sr_thread r = Some Ended \<and> sr_deactivated r)
        \<and> (\<forall>i p. sr_threads r i = Some p \<longrightarrow> p = Gone)
        \<and> (\<forall>r'. runtime_steps cfg r r' \<longrightarrow> sr_exited r' \<and> sr_served r' = sr_served r))"
proof -
  have ok: "runtime_ok cfg r" using runtime_steps_ok [OF assms new_runtime_ok] .
  have "sr_closed r \<and> (sr_thread r = None \<or> sr_thread r = Some Ended \<and> sr_deactivated r)
      \<and> (\<forall>i p. sr_threads r i = Some p \<longrightarrow> p = Gone)" if "sr_exited r"
    using ok that by (auto simp: runtime_ok_def exit_closed_def quiet_def thread_alive_iff workers_known_def)
  moreover have "sr_exited r" if "sr_stopping r = Some (Returned (Inr ()))"
    using ok that by (simp add: runtime_ok_def)
  ultimately show ?thesis using exited_steps [OF _ ok] by blast
qed

theorem runtime_fail_closed_witness:
  "sr_closed demo_run \<and> sr_deactivated demo_run \<and> sr_served demo_run = 1
     \<and> \<not> (\<exists>r'. runtime_steps \<lparr>rc_threaded = False, rc_raw_client = False, rc_deactivate_after_join = False\<rparr>
            demo_run r' \<and> sr_served r' \<noteq> 1)"
proof -
  have "sr_thread demo_run = Some Ended" by code_simp
  with runtime_fail_closed [OF demo_run_steps] demo_run_exits show ?thesis by auto
qed

end
