(* ===== verification/Generators.thy ===== *)
theory Generators
  imports File_System
begin

text \<open>
  Python generators of bytes, for the transfers that stream. A generator runs over a state of its
  own side (\<open>'g\<close>, the remote host) and is consumed by code over another state. Being a datatype, a
  generator is finitely deep on every path: to define one is to prove that its loop ends.
\<close>

section \<open>Generators and their consumer\<close>

text \<open>
  \<open>advance\<close> is \<open>next(g)\<close>. \<open>discard\<close> is what runs when the consumer drops a suspended generator: the
  \<open>finally\<close> clauses around the \<open>yield\<close>, whose exceptions are not reported to anyone.
\<close>

datatype 'g generator = Generator (advance: "'g \<Rightarrow> 'g gen_turn \<times> 'g") (discard: "'g \<Rightarrow> 'g")
  and 'g gen_turn = Stopped | Raised exn | Yielded bytes "'g generator"

text \<open>\<open>for chunk in g: body\<close>, with an accumulator for the variables the body updates.\<close>

primrec for_each :: "'g generator \<Rightarrow> (bytes \<Rightarrow> 'a \<Rightarrow> ('s, 'a) prog) \<Rightarrow> 'a \<Rightarrow> ('g \<times> 's, 'a) prog"
  and for_each_turn :: "'g gen_turn \<Rightarrow> (bytes \<Rightarrow> 'a \<Rightarrow> ('s, 'a) prog) \<Rightarrow> 'a \<Rightarrow> ('g \<times> 's, 'a) prog" where
  "for_each (Generator adv dis) =
     (\<lambda>body a gs. case (map_prod for_each_turn id \<circ> adv) (fst gs) of (k, g) \<Rightarrow> k body a (g, snd gs))"
| "for_each_turn Stopped = (\<lambda>body a gs. (Inr a, gs))"
| "for_each_turn (Raised e) = (\<lambda>body a gs. (Inl e, gs))"
| "for_each_turn (Yielded chunk k) =
     (\<lambda>body a gs.
        case body chunk a (snd gs) of
          (Inl e, s) \<Rightarrow> (Inl e, (discard k (fst gs), s))
        | (Inr a', s) \<Rightarrow> for_each k body a' (fst gs, s))"

text \<open>A generator that has ended, and one that raises at its first step.\<close>

definition ended :: "'g generator" where
  "ended = Generator (\<lambda>g. (Stopped, g)) id"

definition failing :: "exn \<Rightarrow> 'g generator" where
  "failing e = Generator (\<lambda>g. (Raised e, g)) id"

text \<open>Statements before the first \<open>yield\<close>.\<close>

definition starting :: "('g, 'a) prog \<Rightarrow> ('a \<Rightarrow> 'g generator) \<Rightarrow> 'g generator" where
  "starting m k = Generator (\<lambda>g. case m g of (Inl e, g1) \<Rightarrow> (Raised e, g1) | (Inr x, g1) \<Rightarrow> advance (k x) g1) id"

section \<open>All that a generator yields\<close>

primrec drain :: "'g generator \<Rightarrow> 'g \<Rightarrow> bytes list \<times> (exn + unit) \<times> 'g"
  and drain_turn :: "'g gen_turn \<Rightarrow> 'g \<Rightarrow> bytes list \<times> (exn + unit) \<times> 'g" where
  "drain (Generator adv dis) = (\<lambda>g. case (map_prod drain_turn id \<circ> adv) g of (k, g1) \<Rightarrow> k g1)"
| "drain_turn Stopped = (\<lambda>g. ([], Inr (), g))"
| "drain_turn (Raised e) = (\<lambda>g. ([], Inl e, g))"
| "drain_turn (Yielded chunk k) = (\<lambda>g. case drain k g of (chunks, r, g1) \<Rightarrow> (chunk # chunks, r, g1))"

lemma for_each_step:
  "for_each k body a (g, s) = (case advance k g of (t, g1) \<Rightarrow> for_each_turn t body a (g1, s))"
  by (cases k) (simp split: prod.split)

lemma drain_step: "drain k g = (case advance k g of (t, g1) \<Rightarrow> drain_turn t g1)"
  by (cases k) (simp split: prod.split)

lemma drain_simps [simp]:
  "drain ended g = ([], Inr (), g)" "drain (failing e) g = ([], Inl e, g)"
  by (simp_all add: ended_def failing_def)

lemma drain_starting:
  "drain (starting m k) g = (case m g of (Inl e, g1) \<Rightarrow> ([], Inl e, g1) | (Inr x, g1) \<Rightarrow> drain (k x) g1)"
  unfolding starting_def drain_step [of "Generator _ _"] drain_step [of "k _"]
  by (simp split: prod.split sum.split)

text \<open>A loop whose body accepts every chunk folds over what the generator yields.\<close>

fun fold_prog :: "(bytes \<Rightarrow> 'a \<Rightarrow> ('s, 'a) prog) \<Rightarrow> bytes list \<Rightarrow> 'a \<Rightarrow> ('s, 'a) prog" where
  "fold_prog body [] a = ret a"
| "fold_prog body (c # cs) a = bind (body c a) (fold_prog body cs)"

lemma for_each_fold:
  "fold_prog body (fst (drain k g)) a s = (Inr b, s') \<Longrightarrow>
     for_each k body a (g, s) = (case snd (drain k g) of
        (Inr _, g') \<Rightarrow> (Inr b, (g', s')) | (Inl e, g') \<Rightarrow> (Inl e, (g', s')))"
  "fold_prog body (fst (drain_turn t g)) a s = (Inr b, s') \<Longrightarrow>
     for_each_turn t body a (g, s) = (case snd (drain_turn t g) of
        (Inr _, g') \<Rightarrow> (Inr b, (g', s')) | (Inl e, g') \<Rightarrow> (Inl e, (g', s')))"
proof (induction k and t arbitrary: g a s and g a s)
  case (Generator adv dis)
  obtain t g1 where t: "adv g = (t, g1)" by fastforce
  then have r: "(t, g1) \<in> range adv" by (metis rangeI)
  have "for_each_turn t body a (g1, s) = (case snd (drain_turn t g1) of
        (Inr _, g') \<Rightarrow> (Inr b, (g', s')) | (Inl e, g') \<Rightarrow> (Inl e, (g', s')))"
    using Generator.prems t by (intro Generator.IH [OF r]) (auto simp: prod_set_simps)
  then show ?case using t by simp
next
  case (Yielded chunk k)
  obtain cs r g1 where d: "drain k g = (cs, r, g1)" by (cases "drain k g") auto
  with Yielded.prems obtain a' s1 where b: "body chunk a s = (Inr a', s1)" "fold_prog body cs a' s1 = (Inr b, s')"
    by (auto simp: bind_def split: prod.split_asm sum.split_asm)
  from Yielded.IH [of g a' s1] d b show ?case by simp
qed (auto simp: ret_def)

end
