(* ===== verification/Git_Transport.thy ===== *)
theory Git_Transport
  imports Generators Github_Session
begin

text \<open>
  \<open>src/agent_container/github_git_transport.py\<close>: what the broker does at GitHub for a fetch or a
  push. The HTTP opener and the provider of installation tokens are fields of the transports and
  parameters here; \<open>'g\<close> is their state. The two classes have the same \<open>_open\<close>, written once.
\<close>

section \<open>Limits\<close>

definition GITHUB :: pystr where
  "GITHUB = u ''https://github.com''"

definition MAX_DISCOVERY_BYTES :: nat where
  "MAX_DISCOVERY_BYTES = 1048576"

definition MAX_UPLOAD_PACK_REQUEST_BYTES :: nat where
  "MAX_UPLOAD_PACK_REQUEST_BYTES = 16 * 1024 * 1024"

definition MAX_UPLOAD_PACK_RESPONSE_BYTES :: nat where
  "MAX_UPLOAD_PACK_RESPONSE_BYTES = 8 * 1024 * 1024 * 1024"

definition MAX_RECEIVE_PACK_ADVERTISEMENT_BYTES :: nat where
  "MAX_RECEIVE_PACK_ADVERTISEMENT_BYTES = 4 * 1024 * 1024"

definition MAX_RECEIVE_PACK_REQUEST_BYTES :: nat where
  "MAX_RECEIVE_PACK_REQUEST_BYTES = 2 * 1024 * 1024 * 1024"

definition MAX_RECEIVE_PACK_RESPONSE_BYTES :: nat where
  "MAX_RECEIVE_PACK_RESPONSE_BYTES = 16 * 1024 * 1024"

definition READ_CHUNK_BYTES :: nat where
  "READ_CHUNK_BYTES = 65536"

definition RECEIVE_PACK_PREAMBLE :: bytes where
  "RECEIVE_PACK_PREAMBLE = ''001f# service=git-receive-pack'' @ [CHR 0x0A] @ ''0000''"

definition UPLOAD_PACK_PREAMBLE :: bytes where
  "UPLOAD_PACK_PREAMBLE = ''001e# service=git-upload-pack'' @ [CHR 0x0A] @ ''0000''"

section \<open>Tokens and HTTP\<close>

record 'g token_provider =
  tp_get :: "('g, pystr) prog"
  tp_invalidate :: "('g, unit) prog"

text \<open>
  The status is \<open>None\<close> when it is not an \<open>int\<close> or is a \<open>bool\<close>; the content type is the header's
  value, empty when it is missing.
\<close>

record 'g http_stream =
  st_status :: "int option"
  st_content_type :: pystr
  st_read :: "nat \<Rightarrow> ('g, bytes) prog"
  st_close :: "('g, unit) prog"

type_synonym 'g open_http = "pystr \<Rightarrow> pystr \<Rightarrow> (pystr \<times> pystr) list \<Rightarrow> bytes option \<Rightarrow> ('g, 'g http_stream) prog"

text \<open>\<open>except (BrokerStageError, ValueError, RuntimeError, OSError)\<close>: the first is a \<open>RuntimeError\<close>.\<close>

definition transport_failure :: "exn \<Rightarrow> bool" where
  "transport_failure e \<longleftrightarrow> is_value_error e \<or> is_runtime_error e \<or> is_os_error e"

definition get_installation_token :: "'g token_provider \<Rightarrow> ('g, pystr) prog" where
  "get_installation_token tokens = translate transport_failure (broker_stage_error (u ''token'')) (tp_get tokens)"

definition invalidate_installation_token :: "'g token_provider \<Rightarrow> ('g, unit) prog" where
  "invalidate_installation_token tokens =
     translate transport_failure (broker_stage_error (u ''token'')) (tp_invalidate tokens)"

definition close_http_response :: "'g http_stream \<Rightarrow> pystr \<Rightarrow> ('g, unit) prog" where
  "close_http_response response stage =
     translate transport_failure (broker_stage_error stage) (st_close response)"

text \<open>\<open>base64.b64encode\<close>.\<close>

definition base64_digit :: "nat \<Rightarrow> nat" where
  "base64_digit d =
     (if d < 26 then 65 + d else if d < 52 then 71 + d else if d < 62 then d - 4 else if d = 62 then 43 else 47)"

fun b64encode :: "nat list \<Rightarrow> pystr" where
  "b64encode [] = []"
| "b64encode [a] = map base64_digit [a div 4, a mod 4 * 16] @ [61, 61]"
| "b64encode [a, b] = map base64_digit [a div 4, a mod 4 * 16 + b div 16, b mod 16 * 4] @ [61]"
| "b64encode (a # b # c # rest) =
     map base64_digit [a div 4, a mod 4 * 16 + b div 16, b mod 16 * 4 + c div 64, c mod 64] @ b64encode rest"

definition basic_authorization :: "pystr \<Rightarrow> exn + pystr" where
  "basic_authorization token =
     bindE (ascii_encode (u ''x-access-token:'' @ token)) (\<lambda>b. Inr (u ''Basic '' @ b64encode (map of_char b)))"

definition repository_url :: "Repository \<Rightarrow> pystr" where
  "repository_url r = GITHUB @ u ''/'' @ slug r @ u ''.git''"

text \<open>
  \<open>_open\<close>: at most two attempts, the second only after the answer 401 and with a new token;
  \<open>n\<close> is the number of attempts left.
\<close>

fun open_attempts ::
  "'g token_provider \<Rightarrow> 'g open_http \<Rightarrow> pystr \<Rightarrow> pystr \<Rightarrow> (pystr \<times> pystr) list \<Rightarrow> bytes option \<Rightarrow> pystr \<Rightarrow> nat
     \<Rightarrow> ('g, 'g http_stream) prog" where
  "open_attempts tokens http meth url headers body stage 0 = raise OtherException"
| "open_attempts tokens http meth url headers body stage (Suc n) =
     bind (get_installation_token tokens) (\<lambda>token.
     bind (lift (basic_authorization token)) (\<lambda>basic.
     bind (translate (\<lambda>e. is_runtime_error e \<or> is_os_error e) (broker_stage_error stage)
            (http meth url (headers @ [(u ''Authorization'', basic)]) body)) (\<lambda>response.
       if st_status response \<noteq> Some 401 \<or> n = 0 then ret response
       else
         bind (close_http_response response stage) (\<lambda>_.
         bind (invalidate_installation_token tokens) (\<lambda>_.
         open_attempts tokens http meth url headers body stage n)))))"

definition git_open ::
  "'g token_provider \<Rightarrow> 'g open_http \<Rightarrow> pystr \<Rightarrow> pystr \<Rightarrow> (pystr \<times> pystr) list \<Rightarrow> bytes option \<Rightarrow> pystr
     \<Rightarrow> ('g, 'g http_stream) prog" where
  "git_open tokens http meth url headers body stage = open_attempts tokens http meth url headers body stage 2"

definition validate_response :: "'g http_stream \<Rightarrow> string \<Rightarrow> exn + unit" where
  "validate_response response expected =
     (if st_status response \<noteq> Some 200 then Inl (RuntimeError ''GitHub Git request failed'')
      else if strip (takeWhile (\<lambda>c. c \<noteq> 59) (st_content_type response)) \<noteq> u expected
      then Inl (ValueError ''GitHub Git response content type is invalid'')
      else Inr ())"

section \<open>Discovery\<close>

definition upload_headers :: "(pystr \<times> pystr) list" where
  "upload_headers =
     [(u ''Accept'', u ''application/x-git-upload-pack-advertisement''), (u ''Cache-Control'', u ''no-cache''),
      (u ''Git-Protocol'', u ''version=2''), (u ''User-Agent'', u ''agent-container-github-broker'')]"

definition upload_advertisement :: "bytes \<Rightarrow> exn + bytes" where
  "upload_advertisement body =
     (if body = [] \<or> MAX_DISCOVERY_BYTES < length body \<or> \<not> startswith body UPLOAD_PACK_PREAMBLE
      then Inl (ValueError ''GitHub upload-pack advertisement is invalid'')
      else
        let advertisement = drop (length UPLOAD_PACK_PREAMBLE) body in
        if \<not> startswith advertisement (''000eversion 2'' @ [CHR 0x0A])
        then Inl (ValueError ''GitHub upload-pack did not negotiate protocol v2'')
        else Inr advertisement)"

definition receive_advertisement :: "bytes \<Rightarrow> exn + bytes" where
  "receive_advertisement body =
     (if MAX_RECEIVE_PACK_ADVERTISEMENT_BYTES < length body \<or> \<not> startswith body RECEIVE_PACK_PREAMBLE
      then Inl (ValueError ''GitHub receive-pack advertisement is invalid'')
      else
        let advertisement = drop (length RECEIVE_PACK_PREAMBLE) body in
        if advertisement = [] then Inl (ValueError ''GitHub receive-pack advertisement is invalid'')
        else Inr advertisement)"

definition read_advertisement ::
  "'g http_stream \<Rightarrow> string \<Rightarrow> nat \<Rightarrow> (bytes \<Rightarrow> exn + bytes) \<Rightarrow> pystr \<Rightarrow> ('g, bytes) prog" where
  "read_advertisement response expected maximum advertisement stage =
     try_finally
       (translate transport_failure (broker_stage_error stage)
         (bind (lift (validate_response response expected)) (\<lambda>_.
          bind (st_read response (maximum + 1)) (\<lambda>body. lift (advertisement body)))))
       (close_http_response response stage)"

definition upload_discover :: "Repository \<Rightarrow> 'g token_provider \<Rightarrow> 'g open_http \<Rightarrow> ('g, bytes) prog" where
  "upload_discover repository tokens http =
     bind (git_open tokens http (u ''GET'') (repository_url repository @ u ''/info/refs?service=git-upload-pack'')
            upload_headers None (u ''upload-discovery'')) (\<lambda>response.
     read_advertisement response ''application/x-git-upload-pack-advertisement'' MAX_DISCOVERY_BYTES
       upload_advertisement (u ''upload-discovery''))"

definition receive_discover :: "Repository \<Rightarrow> 'g token_provider \<Rightarrow> 'g open_http \<Rightarrow> ('g, bytes) prog" where
  "receive_discover repository tokens http =
     bind (git_open tokens http (u ''GET'') (repository_url repository @ u ''/info/refs?service=git-receive-pack'')
            [(u ''Accept'', u ''application/x-git-receive-pack-advertisement''), (u ''Cache-Control'', u ''no-cache''),
             (u ''User-Agent'', u ''agent-container-github-broker'')]
            None (u ''receive-discovery'')) (\<lambda>response.
     read_advertisement response ''application/x-git-receive-pack-advertisement''
       MAX_RECEIVE_PACK_ADVERTISEMENT_BYTES receive_advertisement (u ''receive-discovery''))"

section \<open>Transfers\<close>

text \<open>
  The two \<open>try\<close> statements around the loop: how the body ends, then the \<open>finally\<close> clause, whose
  exception replaces the body's; a consumer that drops the generator runs the \<open>finally\<close> clause only.
\<close>

definition leave_transfer :: "'g http_stream \<Rightarrow> pystr \<Rightarrow> exn + unit \<Rightarrow> 'g \<Rightarrow> 'g gen_turn \<times> 'g" where
  "leave_transfer response stage r g =
     (case try_finally (translate transport_failure (broker_stage_error stage) (lift r))
             (close_http_response response stage) g of
        (Inl e, g1) \<Rightarrow> (Raised e, g1)
      | (Inr _, g1) \<Rightarrow> (Stopped, g1))"

definition drop_transfer :: "'g http_stream \<Rightarrow> pystr \<Rightarrow> 'g \<Rightarrow> 'g" where
  "drop_transfer response stage g = snd (close_http_response response stage g)"

text \<open>
  The upload loop holds back the last four bytes, so that the flush packet that ends the response
  is replaced by a response-end packet.
\<close>

function upload_chunks :: "'g http_stream \<Rightarrow> nat \<Rightarrow> bytes \<Rightarrow> 'g generator" where
  "upload_chunks response transferred pending =
     Generator (\<lambda>g.
       case st_read response READ_CHUNK_BYTES g of
         (Inl e, g1) \<Rightarrow> leave_transfer response (u ''upload-rpc'') (Inl e) g1
       | (Inr chunk, g1) \<Rightarrow>
           if chunk = [] then
             (if pending \<noteq> ''0000''
              then leave_transfer response (u ''upload-rpc'')
                     (Inl (ValueError ''GitHub upload-pack response is incomplete'')) g1
              else (Yielded ''0002'' (Generator (leave_transfer response (u ''upload-rpc'') (Inr ()))
                                       (drop_transfer response (u ''upload-rpc''))), g1))
           else if MAX_UPLOAD_PACK_RESPONSE_BYTES < transferred + length chunk
           then leave_transfer response (u ''upload-rpc'')
                  (Inl (ValueError ''GitHub upload-pack response is too large'')) g1
           else
             let buffered = pending @ chunk; n = length buffered - 4 in
             if 4 < length buffered
             then (Yielded (take n buffered) (upload_chunks response (transferred + length chunk) (drop n buffered)), g1)
             else advance (upload_chunks response (transferred + length chunk) buffered) g1)
     (drop_transfer response (u ''upload-rpc''))"
  by pat_completeness auto
termination
  by (relation "measure (\<lambda>(response, transferred, pending). MAX_UPLOAD_PACK_RESPONSE_BYTES + 1 - transferred)")
    (auto simp flip: length_greater_0_conv)

declare upload_chunks.simps [simp del]

definition upload_rpc :: "Repository \<Rightarrow> 'g token_provider \<Rightarrow> 'g open_http \<Rightarrow> bytes \<Rightarrow> 'g generator" where
  "upload_rpc repository tokens http request =
     (if request = [] \<or> MAX_UPLOAD_PACK_REQUEST_BYTES < length request \<or> \<not> endswith request ''0000''
      then failing (ValueError ''GitHub upload-pack request is invalid'')
      else
        starting
          (git_open tokens http (u ''POST'') (repository_url repository @ u ''/git-upload-pack'')
             ((u ''Accept'', u ''application/x-git-upload-pack-result'') # tl upload_headers
               @ [(u ''Content-Type'', u ''application/x-git-upload-pack-request'')])
             (Some request) (u ''upload-rpc''))
          (\<lambda>response.
             case validate_response response ''application/x-git-upload-pack-result'' of
               Inl e \<Rightarrow> Generator (leave_transfer response (u ''upload-rpc'') (Inl e)) id
             | Inr _ \<Rightarrow> upload_chunks response 0 []))"

function receive_chunks :: "'g http_stream \<Rightarrow> nat \<Rightarrow> 'g generator" where
  "receive_chunks response transferred =
     Generator (\<lambda>g.
       case st_read response READ_CHUNK_BYTES g of
         (Inl e, g1) \<Rightarrow> leave_transfer response (u ''receive-rpc'') (Inl e) g1
       | (Inr chunk, g1) \<Rightarrow>
           if chunk = [] then
             leave_transfer response (u ''receive-rpc'')
               (if transferred = 0 then Inl (ValueError ''GitHub receive-pack response is invalid'') else Inr ()) g1
           else if MAX_RECEIVE_PACK_RESPONSE_BYTES < transferred + length chunk
           then leave_transfer response (u ''receive-rpc'')
                  (Inl (ValueError ''GitHub receive-pack response is too large'')) g1
           else (Yielded chunk (receive_chunks response (transferred + length chunk)), g1))
     (drop_transfer response (u ''receive-rpc''))"
  by pat_completeness auto
termination
  by (relation "measure (\<lambda>(response, transferred). MAX_RECEIVE_PACK_RESPONSE_BYTES + 1 - transferred)")
    (auto simp flip: length_greater_0_conv)

declare receive_chunks.simps [simp del]

definition receive_rpc :: "Repository \<Rightarrow> 'g token_provider \<Rightarrow> 'g open_http \<Rightarrow> bytes \<Rightarrow> 'g generator" where
  "receive_rpc repository tokens http request =
     (if request = [] \<or> MAX_RECEIVE_PACK_REQUEST_BYTES < length request
      then failing (ValueError ''GitHub receive-pack request is invalid'')
      else
        starting
          (git_open tokens http (u ''POST'') (repository_url repository @ u ''/git-receive-pack'')
             [(u ''Accept'', u ''application/x-git-receive-pack-result''), (u ''Cache-Control'', u ''no-cache''),
              (u ''Content-Type'', u ''application/x-git-receive-pack-request''),
              (u ''User-Agent'', u ''agent-container-github-broker'')]
             (Some request) (u ''receive-rpc''))
          (\<lambda>response.
             case validate_response response ''application/x-git-receive-pack-result'' of
               Inl e \<Rightarrow> Generator (leave_transfer response (u ''receive-rpc'') (Inl e)) id
             | Inr _ \<Rightarrow> receive_chunks response 0))"

end
