(* ===== verification/Github_Transport.thy ===== *)
theory Github_Transport
  imports Git_Protocol Git_Transport Broker_Connection
begin

text \<open>
  \<open>src/agent_container/github_broker_transport.py\<close>, the broker's side: one connection, from the
  request to its last audit record. The transports to GitHub are arguments, as in the code; their
  state \<open>'g\<close> stands beside the connection's own (the client's stream, the session, and the world
  that holds the clock and the audit file).
\<close>

section \<open>The parts of a connection\<close>

record 'g git_transport =
  gt_discover :: "('g, bytes) prog"
  gt_rpc :: "bytes \<Rightarrow> 'g generator"

record 'g pr_transport =
  pt_create :: "pystr \<Rightarrow> pystr \<Rightarrow> pystr \<Rightarrow> pystr \<Rightarrow> ('g, (pystr \<times> json) list) prog"
  pt_view :: "int \<Rightarrow> ('g, (pystr \<times> json) list) prog"
  pt_checks :: "int \<Rightarrow> ('g, (pystr \<times> json) list) prog"

record 'g issue_transport =
  it_list_open :: "('g, (pystr \<times> json) list) prog"
  it_view :: "int \<Rightarrow> ('g, (pystr \<times> json) list) prog"

record ('c, 'w) connection =
  cn_client :: 'c
  cn_session :: BrokerSession
  cn_world :: 'w

record ('c, 'w) broker_env =
  be_lim :: nat
  be_io :: "'c stream_methods"
  be_now :: "'w \<Rightarrow> pystr"
  be_log :: "(pystr \<times> json) list \<Rightarrow> ('w, unit) prog"
  be_label :: pystr

type_synonym ('g, 'c, 'w, 'a) served = "('g \<times> ('c, 'w) connection, 'a) prog"

definition on_client :: "('c \<Rightarrow> (exn + 'a) \<times> 'c) \<Rightarrow> (('c, 'w) connection, 'a) prog" where
  "on_client f s = (case f (cn_client s) of (r, c) \<Rightarrow> (r, s\<lparr>cn_client := c\<rparr>))"

definition on_remote :: "('g, 'a) prog \<Rightarrow> ('g, 'c, 'w, 'a) served" where
  "on_remote f gs = (case f (fst gs) of (r, g) \<Rightarrow> (r, (g, snd gs)))"

definition on_connection :: "(('c, 'w) connection, 'a) prog \<Rightarrow> ('g, 'c, 'w, 'a) served" where
  "on_connection f gs = (case f (snd gs) of (r, s) \<Rightarrow> (r, (fst gs, s)))"

definition authorize_request :: "BrokerRequest \<Rightarrow> (('c, 'w) connection, Authorization) prog" where
  "authorize_request request s =
     (case authorize request (cn_session s) of (r, session) \<Rightarrow> (r, s\<lparr>cn_session := session\<rparr>))"

definition session_policy :: "('g, 'c, 'w, BrokerPolicy) served" where
  "session_policy gs = (Inr (gs_policy (cn_session (snd gs))), gs)"

text \<open>\<open>session.audit\<close> with its default arguments; the record's time is the clock's.\<close>

definition audit_entry :: "pystr \<Rightarrow> string \<Rightarrow> AuditEntry" where
  "audit_entry operation status =
     \<lparr>ae_operation = operation, ae_status = u status, ae_ref = None, ae_pr_number = None,
      ae_issue_number = None, ae_bytes = JInt 0, ae_stage = None\<rparr>"

definition failed_entry :: "pystr \<Rightarrow> pystr \<Rightarrow> AuditEntry" where
  "failed_entry operation stage = (audit_entry operation ''error'')\<lparr>ae_stage := Some stage\<rparr>"

definition audit_call :: "('c, 'w) broker_env \<Rightarrow> AuditEntry \<Rightarrow> ('g, 'c, 'w, unit) served" where
  "audit_call env entry =
     on_connection (\<lambda>s.
       case audit (be_log env) (be_now env (cn_world s)) (be_label env) (cn_session s) entry (cn_world s) of
         (r, w) \<Rightarrow> (r, s\<lparr>cn_world := w\<rparr>))"

text \<open>\<open>_write_response\<close>: one \<open>write\<close>, whose count is not looked at, and a flush.\<close>

definition stream_failure :: "exn \<Rightarrow> bool" where
  "stream_failure e \<longleftrightarrow> is_value_error e \<or> is_os_error e"

definition write_response :: "('c, 'w) broker_env \<Rightarrow> string \<Rightarrow> ('g, 'c, 'w, bool) served" where
  "write_response env status =
     try_except
       (bind (lift (encode_response_frame \<lparr>bs_version = JInt PROTOCOL_VERSION, bs_status = u status\<rparr>)) (\<lambda>frame.
        bind (on_connection (on_client (sm_write (be_io env) frame))) (\<lambda>_.
        bind (on_connection (on_client (sm_flush (be_io env)))) (\<lambda>_. ret True))))
       (\<lambda>e. if stream_failure e then ret False else raise e)"

section \<open>Streams\<close>

text \<open>\<open>write_chunk_stream\<close> over a generator: the loop's body, the loop, and the terminator.\<close>

definition write_one_chunk :: "('c, 'w) broker_env \<Rightarrow> bytes \<Rightarrow> nat \<Rightarrow> (('c, 'w) connection, nat) prog" where
  "write_one_chunk env chunk transferred =
     on_client (write_chunks (sm_write (be_io env)) MAX_STREAM_CHUNK_BYTES ''broker stream'' transferred [chunk])"

definition finish_chunk_stream :: "('c, 'w) broker_env \<Rightarrow> (('c, 'w) connection, unit) prog" where
  "finish_chunk_stream env =
     on_client (write_all (sm_write (be_io env)) (sm_flush (be_io env)) (replicate 4 (CHR 0x00)) ''broker stream'')"

definition send_generator :: "('c, 'w) broker_env \<Rightarrow> 'g generator \<Rightarrow> ('g, 'c, 'w, nat) served" where
  "send_generator env chunks =
     bind (for_each chunks (write_one_chunk env) 0) (\<lambda>transferred.
     bind (on_connection (finish_chunk_stream env)) (\<lambda>_. ret transferred))"

definition send_chunks :: "('c, 'w) broker_env \<Rightarrow> bytes list \<Rightarrow> ('g, 'c, 'w, nat) served" where
  "send_chunks env chunks =
     on_connection (on_client (broker_write_chunk_stream (sm_write (be_io env)) (sm_flush (be_io env)) chunks))"

text \<open>\<open>b''''.join(iter_chunk_stream(...))\<close>.\<close>

definition receive_body :: "('c, 'w) broker_env \<Rightarrow> nat \<Rightarrow> bool \<Rightarrow> ('g, 'c, 'w, bytes) served" where
  "receive_body env maximum allow_initial_eof =
     on_connection (on_client (\<lambda>c.
       case broker_iter_chunk_stream (sm_read (be_io env)) (int maximum) allow_initial_eof c of
         (chunks, Inl e, c') \<Rightarrow> (Inl e, c')
       | (chunks, Inr _, c') \<Rightarrow> (Inr (concat chunks), c')))"

section \<open>What the handlers share\<close>

definition client_request :: "('c, 'w) broker_env \<Rightarrow> BrokerRequest option \<Rightarrow> ('g, 'c, 'w, BrokerRequest) served" where
  "client_request env initial_request =
     (case initial_request of
        Some request \<Rightarrow> ret request
      | None \<Rightarrow> on_connection (on_client (read_request_frame (be_lim env) (sm_read (be_io env)))))"

text \<open>An audit record and the result 1.\<close>

definition fail_stage :: "('c, 'w) broker_env \<Rightarrow> AuditEntry \<Rightarrow> ('g, 'c, 'w, nat) served" where
  "fail_stage env entry = bind (audit_call env entry) (\<lambda>_. ret 1)"

text \<open>\<open>try: m; except BrokerStageError as error: h(error.stage); except (ValueError, OSError): h'()\<close>.\<close>

definition try_stage :: "('s, 'a) prog \<Rightarrow> (pystr \<Rightarrow> ('s, 'a) prog) \<Rightarrow> (exn \<Rightarrow> bool) \<Rightarrow> ('s, 'a) prog \<Rightarrow> ('s, 'a) prog" where
  "try_stage m h p h' =
     try_except m (\<lambda>e. case e of BrokerStageError stage \<Rightarrow> h stage | _ \<Rightarrow> if p e then h' else raise e)"

text \<open>The same with the code's pattern of leaving the handler from the clause: \<open>Inl n\<close> is \<open>return n\<close>.\<close>

definition unless_returned :: "('s, nat + 'a) prog \<Rightarrow> ('a \<Rightarrow> ('s, nat) prog) \<Rightarrow> ('s, nat) prog" where
  "unless_returned m f = bind m (\<lambda>r. case r of Inl n \<Rightarrow> ret n | Inr x \<Rightarrow> f x)"

definition returning :: "('s, nat) prog \<Rightarrow> ('s, nat + 'a) prog" where
  "returning m = bind m (\<lambda>n. ret (Inl n))"

definition going_on :: "('s, 'a) prog \<Rightarrow> ('s, nat + 'a) prog" where
  "going_on m = bind m (\<lambda>x. ret (Inr x))"

text \<open>The \<open>try\<close> block that authorises a Git request for the policy's own repository.\<close>

definition authorize_git ::
  "('c, 'w) broker_env \<Rightarrow> BrokerRequest option \<Rightarrow> string \<Rightarrow> ('g, 'c, 'w, nat + unit) served" where
  "authorize_git env initial_request operation =
     try_except
       (going_on
         (bind (client_request env initial_request) (\<lambda>request.
          bind (on_connection (authorize_request request)) (\<lambda>authorized.
          bind session_policy (\<lambda>policy.
          check (az_operation authorized = u operation
              \<and> az_payload authorized = [(u ''repository'', JStr (slug (bp_repository policy)))])
            (ValueError ''broker request is not allowed''))))))
       (\<lambda>e. if stream_failure e then returning (bind (write_response env ''denied'') (\<lambda>_. ret 1)) else raise e)"

section \<open>Fetching\<close>

text \<open>The loop over the client's requests; \<open>n\<close> bounds its turns, each of which reads from the client.\<close>

fun upload_requests ::
  "nat \<Rightarrow> ('c, 'w) broker_env \<Rightarrow> 'g git_transport \<Rightarrow> nat \<Rightarrow> ('g, 'c, 'w, nat) served" where
  "upload_requests 0 env transport transferred = raise OutOfFuel"
| "upload_requests (Suc n) env transport transferred =
     unless_returned
       (try_except (going_on (receive_body env (16 * 1024 * 1024) True))
         (\<lambda>e. if stream_failure e
              then returning (fail_stage env (failed_entry (u ''git-upload-pack'') (u ''response-stream'')))
              else raise e))
       (\<lambda>request_body.
         if request_body = [] then
           bind (audit_call env ((audit_entry (u ''git-upload-pack'') ''ok'')\<lparr>ae_bytes := JInt (int transferred)\<rparr>))
             (\<lambda>_. ret 0)
         else
           unless_returned
             (try_stage (going_on (send_generator env (gt_rpc transport request_body)))
               (\<lambda>stage. returning (fail_stage env (failed_entry (u ''git-upload-pack'') stage)))
               stream_failure
               (returning (fail_stage env (failed_entry (u ''git-upload-pack'') (u ''response-stream'')))))
             (\<lambda>sent. upload_requests n env transport (transferred + sent)))"

definition handle_upload_pack_connection ::
  "nat \<Rightarrow> ('c, 'w) broker_env \<Rightarrow> 'g git_transport \<Rightarrow> BrokerRequest option \<Rightarrow> ('g, 'c, 'w, nat) served" where
  "handle_upload_pack_connection n env transport initial_request =
     unless_returned (authorize_git env initial_request ''git-upload-pack'') (\<lambda>_.
     unless_returned
       (try_stage (going_on (on_remote (gt_discover transport)))
         (\<lambda>stage. returning
           (bind (audit_call env (failed_entry (u ''git-upload-pack'') stage)) (\<lambda>_.
            bind (write_response env ''error'') (\<lambda>_. ret 1))))
         (\<lambda>e. False) (ret (Inl 1))) (\<lambda>discovery.
     bind (write_response env ''ok'') (\<lambda>sent.
       if \<not> sent then fail_stage env (failed_entry (u ''git-upload-pack'') (u ''response-stream''))
       else
         unless_returned
           (try_except (going_on (send_chunks env [discovery]))
             (\<lambda>e. if stream_failure e
                  then returning (fail_stage env (failed_entry (u ''git-upload-pack'') (u ''response-stream'')))
                  else raise e))
           (upload_requests n env transport))))"

section \<open>Pushing\<close>

fun audit_updates :: "('c, 'w) broker_env \<Rightarrow> nat \<Rightarrow> RefUpdate list \<Rightarrow> ('g, 'c, 'w, unit) served" where
  "audit_updates env transferred [] = ret ()"
| "audit_updates env transferred (update # updates) =
     bind (audit_call env ((audit_entry (u ''git-receive-pack'') ''ok'')
       \<lparr>ae_ref := Some (up_ref update), ae_bytes := JInt (int transferred)\<rparr>)) (\<lambda>_.
     audit_updates env transferred updates)"

definition handle_receive_pack_connection ::
  "('c, 'w) broker_env \<Rightarrow> 'g git_transport \<Rightarrow> BrokerRequest option \<Rightarrow> ('g, 'c, 'w, nat) served" where
  "handle_receive_pack_connection env transport initial_request =
     unless_returned (authorize_git env initial_request ''git-receive-pack'') (\<lambda>_.
     unless_returned
       (try_stage
         (going_on
           (bind (on_remote (gt_discover transport)) (\<lambda>discovery.
            bind (lift (parse_receive_pack_advertisement discovery)) (\<lambda>advertisement.
            ret (discovery, advertisement)))))
         (\<lambda>stage. returning
           (bind (audit_call env (failed_entry (u ''git-receive-pack'') stage)) (\<lambda>_.
            bind (write_response env ''error'') (\<lambda>_. ret 1))))
         is_value_error
         (returning
           (bind (audit_call env (failed_entry (u ''git-receive-pack'') (u ''receive-discovery''))) (\<lambda>_.
            bind (write_response env ''error'') (\<lambda>_. ret 1))))) (\<lambda>(discovery, advertisement).
     bind (write_response env ''ok'') (\<lambda>sent.
       if \<not> sent then fail_stage env (failed_entry (u ''git-receive-pack'') (u ''response-stream''))
       else
         unless_returned
           (try_except
             (going_on
               (bind (send_chunks env [discovery]) (\<lambda>_. receive_body env (256 * 1024 * 1024) False)))
             (\<lambda>e. if stream_failure e
                  then returning (fail_stage env (failed_entry (u ''git-receive-pack'') (u ''response-stream'')))
                  else raise e)) (\<lambda>request_body.
         bind session_policy (\<lambda>policy.
           case gate_receive_pack_commands request_body advertisement policy of
             Inl e \<Rightarrow> if is_value_error e then fail_stage env (audit_entry (u ''git-receive-pack'') ''denied'') else raise e
           | Inr gated \<Rightarrow>
               unless_returned
                 (try_stage (going_on (send_generator env (gt_rpc transport request_body)))
                   (\<lambda>stage. returning (fail_stage env (failed_entry (u ''git-receive-pack'') stage)))
                   stream_failure
                   (returning (fail_stage env (failed_entry (u ''git-receive-pack'') (u ''response-stream'')))))
                 (\<lambda>transferred.
                   bind (audit_updates env transferred (gate_updates gated)) (\<lambda>_. ret 0)))))))"

section \<open>Pull requests\<close>

definition MAX_PR_RESPONSE_BYTES :: nat where
  "MAX_PR_RESPONSE_BYTES = 2 * 1024 * 1024"

definition MAX_ISSUE_RESPONSE_BYTES :: nat where
  "MAX_ISSUE_RESPONSE_BYTES = 2 * 1024 * 1024"

definition PR_OPERATIONS :: "pystr set" where
  "PR_OPERATIONS = {u ''pr-create'', u ''pr-view'', u ''pr-checks''}"

definition ISSUE_OPERATIONS :: "pystr set" where
  "ISSUE_OPERATIONS = {u ''issue-list'', u ''issue-view''}"

text \<open>What \<open>_validate_pr_payload\<close> returns, by the operation it will be used for.\<close>

datatype pr_payload = Pr_Create pystr pystr pystr pystr | Pr_Number int

definition pr_payload_error :: exn where
  "pr_payload_error = ValueError ''broker pull request payload is invalid''"

definition validate_pr_payload :: "pystr \<Rightarrow> (pystr \<times> json) list \<Rightarrow> exn + pr_payload" where
  "validate_pr_payload operation payload =
     (if operation = u ''pr-create'' \<and> set (map fst payload) = {u ''base'', u ''head'', u ''title'', u ''body''}
      then
        bindE (field_of (map_of payload) ''base'') (\<lambda>base.
        bindE (field_of (map_of payload) ''head'') (\<lambda>head.
        bindE (field_of (map_of payload) ''title'') (\<lambda>title.
        bindE (field_of (map_of payload) ''body'') (\<lambda>body.
        bindE (as_str pr_payload_error base) (\<lambda>b.
        bindE (as_str pr_payload_error head) (\<lambda>h.
        bindE (as_str pr_payload_error title) (\<lambda>t.
        bindE (as_str pr_payload_error body) (\<lambda>text. Inr (Pr_Create b h t text)))))))))
      else if operation \<in> {u ''pr-view'', u ''pr-checks''} \<and> set (map fst payload) = {u ''number''}
      then
        bindE (field_of (map_of payload) ''number'') (\<lambda>number.
        bindE (as_int pr_payload_error number) (\<lambda>n. Inr (Pr_Number n)))
      else Inl pr_payload_error)"

definition response_opts :: dump_opts where
  "response_opts = \<lparr>d_ascii = False, d_sort = True, d_item = u '','', d_key = u '':'', d_indent = None\<rparr>"

definition response_body :: "(pystr \<times> json) list \<Rightarrow> exn + bytes" where
  "response_body result = bindE (json_dumps response_opts (JObj result)) utf8_encode"

text \<open>The \<open>except\<close> clause of a refused request: the refusal is audited unless the audit rejects it.\<close>

definition refuse_request :: "('c, 'w) broker_env \<Rightarrow> pystr \<Rightarrow> ('g, 'c, 'w, nat) served" where
  "refuse_request env operation =
     bind (write_response env ''denied'') (\<lambda>_.
     bind (try_except (audit_call env (audit_entry operation ''denied''))
       (\<lambda>e. if is_value_error e then ret () else raise e)) (\<lambda>_. ret 1))"

definition refusing :: "('c, 'w) broker_env \<Rightarrow> pystr \<Rightarrow> ('g, 'c, 'w, 'a) served \<Rightarrow> ('g, 'c, 'w, nat + 'a) served" where
  "refusing env operation m =
     try_except (going_on m) (\<lambda>e. if stream_failure e then returning (refuse_request env operation) else raise e)"

definition authorize_operation ::
  "pystr set \<Rightarrow> string \<Rightarrow> (pystr \<Rightarrow> (pystr \<times> json) list \<Rightarrow> exn + 'p) \<Rightarrow> BrokerRequest \<Rightarrow> ('g, 'c, 'w, 'p) served" where
  "authorize_operation operations message validate request =
     bind (on_connection (authorize_request request)) (\<lambda>authorized.
     bind (check (az_operation authorized \<in> operations) (ValueError message)) (\<lambda>_.
     lift (validate (az_operation authorized) (az_payload authorized))))"

text \<open>The call the operation stands for.\<close>

definition call_pr_transport :: "'g pr_transport \<Rightarrow> pystr \<Rightarrow> pr_payload \<Rightarrow> ('g, (pystr \<times> json) list) prog" where
  "call_pr_transport transport operation payload =
     (case payload of
        Pr_Create base head title body \<Rightarrow> pt_create transport base head title body
      | Pr_Number number \<Rightarrow>
          if operation = u ''pr-view'' then pt_view transport number else pt_checks transport number)"

definition result_number :: "(pystr \<times> json) list \<Rightarrow> json option" where
  "result_number result =
     (case map_of result (u ''number'') of Some (JInt n) \<Rightarrow> Some (JInt n) | _ \<Rightarrow> None)"

definition handle_pull_request_connection ::
  "('c, 'w) broker_env \<Rightarrow> 'g pr_transport \<Rightarrow> BrokerRequest option \<Rightarrow> ('g, 'c, 'w, nat) served" where
  "handle_pull_request_connection env transport initial_request =
     unless_returned (refusing env (u ''pr-view'') (client_request env initial_request)) (\<lambda>request.
     let operation = br_operation request in
     unless_returned
       (refusing env operation (authorize_operation PR_OPERATIONS
         ''broker pull request operation is not allowed'' validate_pr_payload request)) (\<lambda>payload.
     unless_returned
       (try_stage (going_on (on_remote (call_pr_transport transport operation payload)))
         (\<lambda>stage. returning
           (bind (write_response env ''error'') (\<lambda>_. fail_stage env (failed_entry operation stage))))
         (\<lambda>e. False) (ret (Inl 1))) (\<lambda>result.
     bind (lift (response_body result)) (\<lambda>body.
     bind (check (body \<noteq> [] \<and> length body \<le> MAX_PR_RESPONSE_BYTES)
       (ValueError ''broker pull request response is invalid'')) (\<lambda>_.
     bind (write_response env ''ok'') (\<lambda>sent.
       if \<not> sent then fail_stage env (failed_entry operation (u ''response-stream''))
       else
         unless_returned
           (try_except (going_on (send_chunks env [body]))
             (\<lambda>e. if stream_failure e
                  then returning (fail_stage env (failed_entry operation (u ''response-stream''))) else raise e))
           (\<lambda>transferred.
             bind (audit_call env ((audit_entry operation ''ok'')
               \<lparr>ae_pr_number := result_number result, ae_bytes := JInt (int transferred)\<rparr>)) (\<lambda>_. ret 0))))))))"

section \<open>Issues\<close>

text \<open>\<open>None\<close> for a listing, the number for a view.\<close>

definition validate_issue_payload :: "pystr \<Rightarrow> (pystr \<times> json) list \<Rightarrow> exn + int option" where
  "validate_issue_payload operation payload =
     (if operation = u ''issue-list'' \<and> payload = [] then Inr None
      else if operation = u ''issue-view'' \<and> set (map fst payload) = {u ''number''}
      then
        bindE (field_of (map_of payload) ''number'') (\<lambda>number.
        bindE (validate_issue_number number) (\<lambda>n. Inr (Some n)))
      else Inl (ValueError ''broker Issue payload is invalid''))"

function slices :: "nat \<Rightarrow> 'a list \<Rightarrow> 'a list list" where
  "slices n xs = (if n = 0 \<or> xs = [] then [] else take n xs # slices n (drop n xs))"
  by pat_completeness auto
termination by (relation "measure (\<lambda>(n, xs). length xs)") (auto simp flip: length_greater_0_conv)

declare slices.simps [simp del]

definition call_issue_transport :: "'g issue_transport \<Rightarrow> int option \<Rightarrow> ('g, (pystr \<times> json) list) prog" where
  "call_issue_transport transport number =
     (case number of None \<Rightarrow> it_list_open transport | Some n \<Rightarrow> it_view transport n)"

definition issue_failure :: "pystr \<Rightarrow> int option \<Rightarrow> pystr \<Rightarrow> AuditEntry" where
  "issue_failure operation number stage =
     (failed_entry operation stage)\<lparr>ae_issue_number := map_option JInt number\<rparr>"

definition handle_issue_connection ::
  "('c, 'w) broker_env \<Rightarrow> 'g issue_transport \<Rightarrow> BrokerRequest option \<Rightarrow> ('g, 'c, 'w, nat) served" where
  "handle_issue_connection env transport initial_request =
     unless_returned (refusing env (u ''issue-view'') (client_request env initial_request)) (\<lambda>request.
     let operation = br_operation request in
     unless_returned
       (refusing env operation (authorize_operation ISSUE_OPERATIONS
         ''broker Issue operation is not allowed'' validate_issue_payload request)) (\<lambda>number.
     unless_returned
       (try_stage (going_on (on_remote (call_issue_transport transport number)))
         (\<lambda>stage. returning
           (bind (write_response env ''error'') (\<lambda>_. fail_stage env (issue_failure operation number stage))))
         (\<lambda>e. False) (ret (Inl 1))) (\<lambda>result.
     bind (try_except (lift (response_body result))
       (\<lambda>e. if e = TypeError \<or> is_value_error e then ret [] else raise e)) (\<lambda>body.
       if body = [] \<or> MAX_ISSUE_RESPONSE_BYTES < length body
       then
         bind (write_response env ''error'') (\<lambda>_. fail_stage env (issue_failure operation number (u ''issue-request'')))
       else
         bind (write_response env ''ok'') (\<lambda>sent.
           if \<not> sent then fail_stage env (issue_failure operation number (u ''response-stream''))
           else
             unless_returned
               (try_except (going_on (send_chunks env (slices MAX_STREAM_CHUNK_BYTES body)))
                 (\<lambda>e. if stream_failure e
                      then returning (fail_stage env (issue_failure operation number (u ''response-stream'')))
                      else raise e))
               (\<lambda>transferred.
                 bind (audit_call env ((audit_entry operation ''ok'')
                   \<lparr>ae_issue_number := map_option JInt number, ae_bytes := JInt (int transferred)\<rparr>))
                   (\<lambda>_. ret 0)))))))"

section \<open>One connection\<close>

definition dispatch_request ::
  "nat \<Rightarrow> ('c, 'w) broker_env \<Rightarrow> 'g git_transport \<Rightarrow> 'g git_transport option \<Rightarrow> 'g pr_transport option
     \<Rightarrow> 'g issue_transport option \<Rightarrow> BrokerRequest \<Rightarrow> ('g, 'c, 'w, nat) served" where
  "dispatch_request n env upload receive pr issue request =
     (let refuse = bind (write_response env ''denied'') (\<lambda>_. ret 1) in
      if br_operation request = u ''git-upload-pack''
      then handle_upload_pack_connection n env upload (Some request)
      else if br_operation request = u ''git-receive-pack''
      then (case receive of Some t \<Rightarrow> handle_receive_pack_connection env t (Some request) | None \<Rightarrow> refuse)
      else if br_operation request \<in> PR_OPERATIONS
      then (case pr of Some t \<Rightarrow> handle_pull_request_connection env t (Some request) | None \<Rightarrow> refuse)
      else if br_operation request \<in> ISSUE_OPERATIONS
      then (case issue of Some t \<Rightarrow> handle_issue_connection env t (Some request) | None \<Rightarrow> refuse)
      else refuse)"

definition handle_broker_connection ::
  "nat \<Rightarrow> ('c, 'w) broker_env \<Rightarrow> 'g git_transport \<Rightarrow> 'g git_transport option \<Rightarrow> 'g pr_transport option
     \<Rightarrow> 'g issue_transport option \<Rightarrow> ('g, 'c, 'w, nat) served" where
  "handle_broker_connection n env upload receive pr issue =
     unless_returned
       (try_except (going_on (client_request env None))
         (\<lambda>e. if stream_failure e then returning (bind (write_response env ''denied'') (\<lambda>_. ret 1)) else raise e))
       (dispatch_request n env upload receive pr issue)"

end
