(* ===== verification/Transport_Logic.thy ===== *)
theory Transport_Logic
  imports Github_Transport File_Logic
begin

text \<open>
  What one connection does to GitHub and to the audit file, observed from outside: transports and
  an audit log that write down their calls, and the triples that follow these two records through the
  handlers of \<open>Github_Transport\<close>.
\<close>

section \<open>Recording\<close>

datatype remote_call =
    Fetch_Discovery "exn + bytes"
  | Fetch bytes
  | Push_Discovery "exn + bytes"
  | Push bytes
  | Pr_Call pystr pr_payload
  | Issue_Call "int option"

primrec beside :: "'g generator \<Rightarrow> ('l \<times> 'g) generator"
  and beside_turn :: "'g gen_turn \<Rightarrow> ('l \<times> 'g) gen_turn" where
  "beside (Generator adv dis) =
     Generator (\<lambda>lg. case (map_prod beside_turn id \<circ> adv) (snd lg) of (t, g) \<Rightarrow> (t, (fst lg, g)))
       (\<lambda>lg. (fst lg, dis (snd lg)))"
| "beside_turn Stopped = Stopped"
| "beside_turn (Raised e) = Raised e"
| "beside_turn (Yielded chunk k) = Yielded chunk (beside k)"

text \<open>A generator makes its call when it is first advanced.\<close>

definition record_start :: "'l \<Rightarrow> 'g generator \<Rightarrow> ('l list \<times> 'g) generator" where
  "record_start c k =
     Generator (\<lambda>lg. advance (beside k) (fst lg @ [c], snd lg)) (\<lambda>lg. (fst lg, discard k (snd lg)))"

definition record_call :: "(exn + 'a \<Rightarrow> 'l) \<Rightarrow> ('g, 'a) prog \<Rightarrow> ('l list \<times> 'g, 'a) prog" where
  "record_call c m lg = (case m (snd lg) of (r, g) \<Rightarrow> (r, (fst lg @ [c r], g)))"

definition recording_fetch :: "'g git_transport \<Rightarrow> (remote_call list \<times> 'g) git_transport" where
  "recording_fetch t = \<lparr>gt_discover = record_call Fetch_Discovery (gt_discover t),
     gt_rpc = (\<lambda>request. record_start (Fetch request) (gt_rpc t request))\<rparr>"

definition recording_push :: "'g git_transport \<Rightarrow> (remote_call list \<times> 'g) git_transport" where
  "recording_push t = \<lparr>gt_discover = record_call Push_Discovery (gt_discover t),
     gt_rpc = (\<lambda>request. record_start (Push request) (gt_rpc t request))\<rparr>"

definition recording_pr :: "'g pr_transport \<Rightarrow> (remote_call list \<times> 'g) pr_transport" where
  "recording_pr t =
     \<lparr>pt_create = (\<lambda>base head title body.
        record_call (\<lambda>_. Pr_Call (u ''pr-create'') (Pr_Create base head title body)) (pt_create t base head title body)),
      pt_view = (\<lambda>n. record_call (\<lambda>_. Pr_Call (u ''pr-view'') (Pr_Number n)) (pt_view t n)),
      pt_checks = (\<lambda>n. record_call (\<lambda>_. Pr_Call (u ''pr-checks'') (Pr_Number n)) (pt_checks t n))\<rparr>"

definition recording_issue :: "'g issue_transport \<Rightarrow> (remote_call list \<times> 'g) issue_transport" where
  "recording_issue t =
     \<lparr>it_list_open = record_call (\<lambda>_. Issue_Call None) (it_list_open t),
      it_view = (\<lambda>n. record_call (\<lambda>_. Issue_Call (Some n)) (it_view t n))\<rparr>"

type_synonym audit_records = "(pystr \<times> json) list list"

text \<open>A record counts once the log has taken it.\<close>

definition recording_env :: "('c, 'w) broker_env \<Rightarrow> ('c, audit_records \<times> 'w) broker_env" where
  "recording_env env =
     \<lparr>be_lim = be_lim env, be_io = be_io env, be_now = (\<lambda>rw. be_now env (snd rw)),
      be_log = (\<lambda>record rw. case be_log env record (snd rw) of
         (Inl e, w) \<Rightarrow> (Inl e, (fst rw, w)) | (Inr _, w) \<Rightarrow> (Inr (), (fst rw @ [record], w))),
      be_label = be_label env\<rparr>"

section \<open>Triples of the constructs\<close>

named_theorems serve_intros \<open>how a handler's programs keep the records\<close>

lemma triple_going_on: "triple P m (\<lambda>x. Q (Inr x)) E \<Longrightarrow> triple P (going_on m) Q E"
  unfolding going_on_def by (rule triple_bind, assumption, rule triple_ret)

lemma triple_returning: "triple P m (\<lambda>n. Q (Inl n)) E \<Longrightarrow> triple P (returning m) Q E"
  unfolding returning_def by (rule triple_bind, assumption, rule triple_ret)

lemma triple_unless_returned:
  "triple P m (\<lambda>r. case r of Inl n \<Rightarrow> Q n | Inr x \<Rightarrow> R x) E \<Longrightarrow> (\<And>x. triple (R x) (f x) Q E) \<Longrightarrow>
   triple P (unless_returned m f) Q E"
  unfolding unless_returned_def
  by (erule triple_bind) (auto split: sum.split intro: triple_ret)

lemma triple_catching:
  "triple P m Q F \<Longrightarrow> (\<And>e. p e \<Longrightarrow> triple (F e) h Q E) \<Longrightarrow> (\<And>e s. F e s \<Longrightarrow> E e s) \<Longrightarrow>
   triple P (try_except m (\<lambda>e. if p e then h else raise e)) Q E"
  by (erule triple_try_except) (auto intro!: triple_if triple_raise)

lemma triple_try_stage:
  "triple P m Q F \<Longrightarrow> (\<And>g. triple (F (BrokerStageError g)) (h g) Q E) \<Longrightarrow>
   (\<And>e. p e \<Longrightarrow> triple (F e) h' Q E) \<Longrightarrow> (\<And>e s. F e s \<Longrightarrow> E e s) \<Longrightarrow> triple P (try_stage m h p h') Q E"
  unfolding try_stage_def
  by (erule triple_try_except) (auto split: exn.split intro!: triple_if triple_raise)

section \<open>The records during a connection\<close>

definition at :: "BrokerPolicy \<Rightarrow> remote_call list \<Rightarrow> audit_records
    \<Rightarrow> (remote_call list \<times> 'g) \<times> ('c, audit_records \<times> 'w) connection \<Rightarrow> bool" where
  "at p calls recs st \<longleftrightarrow>
     fst (fst st) = calls \<and> fst (cn_world (snd st)) = recs \<and> gs_policy (cn_session (snd st)) = p"

text \<open>Programs that touch neither.\<close>

definition unobserved :: "((remote_call list \<times> 'g) \<times> ('c, audit_records \<times> 'w) connection, 'a) prog \<Rightarrow> bool" where
  "unobserved m \<longleftrightarrow> (\<forall>p calls recs. triple (at p calls recs) m (\<lambda>_. at p calls recs) (\<lambda>_. at p calls recs))"

lemma unobservedD: "unobserved m \<Longrightarrow> triple (at p calls recs) m (\<lambda>_. at p calls recs) (\<lambda>_. at p calls recs)"
  by (simp add: unobserved_def)

lemma unobserved_bind: "unobserved m \<Longrightarrow> (\<And>x. unobserved (f x)) \<Longrightarrow> unobserved (bind m f)"
  unfolding unobserved_def by (blast intro: triple_bind)

lemma unobserved_ret: "unobserved (ret x)"
  by (simp add: unobserved_def triple_ret)

lemma unobserved_lift: "unobserved (lift r)"
  by (simp add: unobserved_def triple_lift)

lemma unobserved_try: "unobserved m \<Longrightarrow> (\<And>e. unobserved (h e)) \<Longrightarrow> unobserved (try_except m h)"
  unfolding unobserved_def by (blast intro: triple_try_except)

lemma unobserved_raise: "unobserved (raise e)"
  by (simp add: unobserved_def triple_raise)

lemma unobserved_client: "unobserved (on_connection (on_client f))"
  unfolding unobserved_def
  by (auto intro!: tripleI simp: at_def on_connection_def on_client_def split: prod.splits)

lemmas unobserved_intros = unobserved_bind unobserved_ret unobserved_lift unobserved_try unobserved_raise unobserved_client

lemma unobserved_write_response: "unobserved (write_response env status)"
  unfolding write_response_def by (auto intro!: unobserved_intros split: if_split)

lemma unobserved_streams:
  "unobserved (send_chunks env chunks)" "unobserved (receive_body env maximum eof)"
  "unobserved (on_connection (finish_chunk_stream env))"
  unfolding send_chunks_def receive_body_def finish_chunk_stream_def by (rule unobserved_client)+

lemma triple_session_policy:
  "triple (at p calls recs) session_policy (\<lambda>x st. x = p \<and> at p calls recs st) E"
  by (rule tripleI) (auto simp: session_policy_def at_def)

text \<open>A generator that runs beside the record leaves it alone.\<close>

lemma for_each_beside:
  "(\<And>chunk a p recs s. gs_policy (cn_session s) = p \<and> fst (cn_world s) = recs \<Longrightarrow>
      gs_policy (cn_session (snd (body chunk a s))) = p \<and> fst (cn_world (snd (body chunk a s))) = recs) \<Longrightarrow>
   at p calls recs ((l, g), s) \<Longrightarrow> at p calls recs (snd (for_each (beside k) body a ((l, g), s)))"
  "(\<And>chunk a p recs s. gs_policy (cn_session s) = p \<and> fst (cn_world s) = recs \<Longrightarrow>
      gs_policy (cn_session (snd (body chunk a s))) = p \<and> fst (cn_world (snd (body chunk a s))) = recs) \<Longrightarrow>
   at p calls recs ((l, g), s) \<Longrightarrow> at p calls recs (snd (for_each_turn (beside_turn t) body a ((l, g), s)))"
proof (induction k and t arbitrary: l g a s and l g a s)
  case (Generator adv dis)
  obtain t g1 where t: "adv g = (t, g1)" by fastforce
  then have r: "(t, g1) \<in> range adv" by (metis rangeI)
  have "at p calls recs (snd (for_each_turn (beside_turn t) body a ((l, g1), s)))"
    using Generator.prems by (intro Generator.IH [OF r]) (auto simp: prod_set_simps at_def)
  then show ?case using t by simp
next
  case (Yielded chunk k)
  obtain r s1 where b: "body chunk a s = (r, s1)" by fastforce
  then have s1: "at p calls recs ((l, g), s1)"
    using Yielded.prems(1) [of s p recs chunk a] Yielded.prems(2) by (simp add: at_def)
  show ?case
  proof (cases r)
    case (Inl e)
    with b s1 show ?thesis by (cases k) (simp add: at_def)
  next
    case (Inr a')
    from Yielded.IH [OF Yielded.prems(1) s1] b Inr show ?thesis by simp
  qed
qed simp_all

lemma write_one_chunk_keeps:
  "gs_policy (cn_session (snd (write_one_chunk env chunk a s))) = gs_policy (cn_session s)
   \<and> cn_world (snd (write_one_chunk env chunk a s)) = cn_world s"
  by (simp add: write_one_chunk_def on_client_def split: prod.split)

lemma triple_record_start:
  "triple (at p calls recs) (for_each (record_start c k) (write_one_chunk env) a)
     (\<lambda>_. at p (calls @ [c]) recs) (\<lambda>_. at p (calls @ [c]) recs)"
proof -
  have "at p (calls @ [c]) recs (snd (for_each (record_start c k) (write_one_chunk env) a st))"
    if a: "at p calls recs st" for st
  proof -
    obtain g s where st: "st = ((calls, g), s)" using a unfolding at_def by (metis prod.collapse)
    have "for_each (record_start c k) (write_one_chunk env) a st
        = for_each (beside k) (write_one_chunk env) a ((calls @ [c], g), s)"
      by (simp add: st record_start_def for_each_step [of "beside k"] split: prod.split)
    moreover have "at p (calls @ [c]) recs ((calls @ [c], g), s)" using a by (simp add: st at_def)
    ultimately show ?thesis using for_each_beside(1) [of "write_one_chunk env"] write_one_chunk_keeps by metis
  qed
  then show ?thesis by (metis (no_types, lifting) snd_conv tripleI)
qed

lemma triple_send_generator:
  "triple (at p calls recs) (send_generator env (record_start c k))
     (\<lambda>_. at p (calls @ [c]) recs) (\<lambda>_. at p (calls @ [c]) recs)"
  unfolding send_generator_def
  by (rule triple_bind [OF triple_record_start])
    (rule triple_bind [OF unobservedD [OF unobserved_streams(3)]], rule triple_ret)

lemma triple_on_remote:
  "triple (at p calls recs) (on_remote (record_call c m))
     (\<lambda>x. at p (calls @ [c (Inr x)]) recs) (\<lambda>e. at p (calls @ [c (Inl e)]) recs)"
  by (rule tripleI) (auto simp: at_def on_remote_def record_call_def split: prod.splits)

section \<open>Audit records\<close>

definition says :: "(pystr \<times> json) list \<Rightarrow> pystr \<Rightarrow> string \<Rightarrow> bool" where
  "says record operation status \<longleftrightarrow>
     map_of record (u ''operation'') = Some (JStr operation) \<and> map_of record (u ''status'') = Some (JStr (u status))"

definition says_ref :: "(pystr \<times> json) list \<Rightarrow> pystr option" where
  "says_ref record = (case map_of record (u ''ref'') of Some (JStr r) \<Rightarrow> Some r | _ \<Rightarrow> None)"

lemma audit_record_says:
  assumes "audit_record now label s a = Inr record" and "ae_status a = u status"
  shows "says record (ae_operation a) status" and "says_ref record = ae_ref a"
proof -
  from assms(1) obtain ref pr issue b where v: "when_some (validate_push_ref (gs_policy s)) (ae_ref a) = Inr ref"
    and r: "record = [(u ''timestamp'', JStr now), (u ''run'', JStr label),
                (u ''project'', JStr (bp_project_id (gs_policy s))),
                (u ''repository'', JStr (slug (bp_repository (gs_policy s)))),
                (u ''operation'', JStr (ae_operation a)), (u ''status'', JStr (ae_status a)),
                (u ''bytes'', JInt b), (u ''policy_version'', JInt 1)]
            @ optional_entry ''ref'' JStr ref
            @ optional_entry ''pr_number'' JInt pr
            @ optional_entry ''issue_number'' JInt issue
            @ optional_entry ''stage'' JStr (ae_stage a)"
    by (auto simp: audit_record_def err_simps split: if_split_asm)
  have "ref = ae_ref a"
    using v by (auto simp: when_some_def err_simps validate_push_ref_def split: option.splits if_splits)
  with r assms(2) show "says record (ae_operation a) status" "says_ref record = ae_ref a"
    by (auto simp: says_def says_ref_def u_def optional_entry_def split: option.splits)
qed

lemma triple_audit:
  "triple (at p calls recs) (audit_call (recording_env env) entry)
     (\<lambda>_ st. \<exists>record. at p calls (recs @ [record]) st
        \<and> (\<forall>status. ae_status entry = u status \<longrightarrow> says record (ae_operation entry) status \<and> says_ref record = ae_ref entry))
     (\<lambda>_. at p calls recs)"
proof (rule tripleI)
  fix st t x
  assume "at p calls recs st" and "audit_call (recording_env env) entry st = (Inr x, t)"
  then obtain line now where "audit_record now (be_label env) (cn_session (snd st)) entry = Inr line"
    and "at p calls (recs @ [line]) t"
    by (auto simp: audit_call_def on_connection_def audit_def recording_env_def at_def bindS_def
        split: prod.splits sum.splits)
  with audit_record_says show "\<exists>record. at p calls (recs @ [record]) t
      \<and> (\<forall>status. ae_status entry = u status \<longrightarrow> says record (ae_operation entry) status \<and> says_ref record = ae_ref entry)"
    by blast
next
  fix st t e
  assume "at p calls recs st" and "audit_call (recording_env env) entry st = (Inl e, t)"
  then show "at p calls recs t"
    by (auto simp: audit_call_def on_connection_def audit_def recording_env_def at_def bindS_def
        split: prod.splits sum.splits)
qed

end
