(* ===== verification/Transport_Safety.thy ===== *)
theory Transport_Safety
  imports Transport_Logic
begin

text \<open>
  What the broker does at GitHub for a connection, and what it leaves in the audit file: every call
  is one an authorised request stands for, a push goes on only behind the gate, and each result leaves
  exactly the audit records it must.
\<close>

section \<open>What is allowed\<close>

definition fetch_story :: "remote_call list \<Rightarrow> bool" where
  "fetch_story calls \<longleftrightarrow> calls = [] \<or> (\<exists>r bodies. calls = Fetch_Discovery r # map Fetch bodies)"

definition push_story :: "BrokerPolicy \<Rightarrow> remote_call list \<Rightarrow> bool" where
  "push_story p calls \<longleftrightarrow> calls = [] \<or> (\<exists>r. calls = [Push_Discovery r])
     \<or> (\<exists>d adv body gated. calls = [Push_Discovery (Inr d), Push body]
          \<and> parse_receive_pack_advertisement d = Inr adv \<and> gate_receive_pack_commands body adv p = Inr gated)"

definition rest_story :: "remote_call option \<Rightarrow> remote_call list \<Rightarrow> bool" where
  "rest_story call calls \<longleftrightarrow> calls = [] \<or> (\<exists>c. call = Some c \<and> calls = [c])"

definition pr_call_of :: "BrokerRequest \<Rightarrow> remote_call option" where
  "pr_call_of q = (case validate_pr_payload (br_operation q) (br_payload q) of
     Inr payload \<Rightarrow> Some (Pr_Call (br_operation q) payload) | Inl _ \<Rightarrow> None)"

definition issue_call_of :: "BrokerRequest \<Rightarrow> remote_call option" where
  "issue_call_of q = (case validate_issue_payload (br_operation q) (br_payload q) of
     Inr number \<Rightarrow> Some (Issue_Call number) | Inl _ \<Rightarrow> None)"

definition own_repository :: "BrokerPolicy \<Rightarrow> BrokerRequest \<Rightarrow> bool" where
  "own_repository p q \<longleftrightarrow> br_payload q = [(u ''repository'', JStr (slug (bp_repository p)))]"

definition story :: "BrokerPolicy \<Rightarrow> BrokerRequest \<Rightarrow> remote_call list \<Rightarrow> bool" where
  "story p q calls \<longleftrightarrow>
     (if br_operation q = u ''git-upload-pack'' then own_repository p q \<and> fetch_story calls
      else if br_operation q = u ''git-receive-pack'' then own_repository p q \<and> push_story p calls
      else if br_operation q \<in> PR_OPERATIONS then rest_story (pr_call_of q) calls
      else br_operation q \<in> ISSUE_OPERATIONS \<and> rest_story (issue_call_of q) calls)"

text \<open>
  Result 0: for a push, the gated request went out and there is one \<open>ok\<close> record for each ref the gate let
  through; for anything else there is one \<open>ok\<close> record. Result 1 after a call at GitHub: one record, an error,
  or a denial when a push was stopped before its request went out. Result 1 without a call: no record for a
  fetch or push; for a pull request or Issue operation one denial, which can be missing only when there is no
  transport for it, the session is closed or the log does not take the record.
\<close>

definition push_completed :: "BrokerPolicy \<Rightarrow> remote_call list \<Rightarrow> audit_records \<Rightarrow> bool" where
  "push_completed p calls recs \<longleftrightarrow>
     (\<exists>d adv body gated. calls = [Push_Discovery (Inr d), Push body]
        \<and> parse_receive_pack_advertisement d = Inr adv \<and> gate_receive_pack_commands body adv p = Inr gated
        \<and> map says_ref recs = map (\<lambda>update. Some (up_ref update)) (gate_updates gated))"

definition push_stopped :: "remote_call list \<Rightarrow> bool" where
  "push_stopped calls \<longleftrightarrow> (\<exists>d adv. calls = [Push_Discovery (Inr d)] \<and> parse_receive_pack_advertisement d = Inr adv)"

definition accounted :: "bool \<Rightarrow> BrokerPolicy \<Rightarrow> pystr \<Rightarrow> remote_call list \<Rightarrow> nat \<Rightarrow> audit_records \<Rightarrow> bool" where
  "accounted due p operation calls n recs \<longleftrightarrow>
     (if n = 0
      then calls \<noteq> [] \<and> recs \<noteq> [] \<and> (\<forall>r \<in> set recs. says r operation ''ok'')
        \<and> (if operation = u ''git-receive-pack'' then push_completed p calls recs else length recs = 1)
      else n = 1
        \<and> (if calls = []
           then recs = [] \<and> \<not> due
             \<or> (\<exists>r. recs = [r] \<and> says r operation ''denied'') \<and> operation \<in> PR_OPERATIONS \<union> ISSUE_OPERATIONS
           else \<exists>r. recs = [r] \<and> (says r operation ''error'' \<or> says r operation ''denied'' \<and> push_stopped calls)))"

text \<open>When a refusal has to be recorded.\<close>

definition takes_records :: "('c, 'w) broker_env \<Rightarrow> bool" where
  "takes_records env \<longleftrightarrow> (\<forall>entry w. fst (be_log env entry w) = Inr ())"

definition refusal_due ::
  "('c, 'w) broker_env \<Rightarrow> 'g pr_transport option \<Rightarrow> 'g issue_transport option \<Rightarrow> BrokerSession \<Rightarrow> pystr \<Rightarrow> bool" where
  "refusal_due env pr issue s operation \<longleftrightarrow> takes_records env \<and> \<not> gs_closed s
     \<and> (operation \<in> PR_OPERATIONS \<and> pr \<noteq> None \<or> operation \<in> ISSUE_OPERATIONS \<and> issue \<noteq> None)"

definition finished :: "bool \<Rightarrow> BrokerPolicy \<Rightarrow> pystr \<Rightarrow> remote_call list \<Rightarrow> nat
    \<Rightarrow> (remote_call list \<times> 'g) \<times> ('c, audit_records \<times> 'w) connection \<Rightarrow> bool" where
  "finished due p operation calls n st \<longleftrightarrow> (\<exists>recs. at p calls recs st \<and> accounted due p operation calls n recs)"

definition left :: "BrokerPolicy \<Rightarrow> remote_call list
    \<Rightarrow> (remote_call list \<times> 'g) \<times> ('c, audit_records \<times> 'w) connection \<Rightarrow> bool" where
  "left p calls st \<longleftrightarrow> (\<exists>recs. at p calls recs st)"

lemma finished_silent: "at p [] [] st \<Longrightarrow> \<not> due \<Longrightarrow> finished due p operation [] 1 st"
  unfolding finished_def by (rule exI [of _ "[]"]) (simp add: accounted_def)

text \<open>The entry of a failure after a call.\<close>

definition failing :: "remote_call list \<Rightarrow> AuditEntry \<Rightarrow> bool" where
  "failing calls entry \<longleftrightarrow> calls \<noteq> []
     \<and> (ae_status entry = u ''error'' \<or> ae_status entry = u ''denied'' \<and> push_stopped calls)"

lemma at_left: "at p calls recs st \<Longrightarrow> left p calls st"
  unfolding left_def by blast

lemma triple_unobserved:
  "unobserved m \<Longrightarrow> triple (at p calls recs) m (\<lambda>_. at p calls recs) (\<lambda>_. left p calls)"
  by (erule triple_conseq [OF unobservedD]) (blast intro: at_left)+

lemma triple_finished:
  assumes "\<And>recs. accounted due p operation calls n recs \<Longrightarrow> triple (at p calls recs) m Q E"
  shows "triple (finished due p operation calls n) m Q E"
  unfolding finished_def
proof (intro triple_ex)
  fix recs
  show "triple (\<lambda>s. at p calls recs s \<and> accounted due p operation calls n recs) m Q E"
    using assms [of recs] by (cases "accounted due p operation calls n recs") (simp_all add: triple_def)
qed

text \<open>A failure's record, alone, before an answer and after one.\<close>

lemma triple_failed_entry:
  assumes "ae_operation entry = operation" and "failing calls entry"
  shows "triple (at p calls []) (audit_call (recording_env env) entry)
    (\<lambda>_. finished due p operation calls 1) (\<lambda>_. left p calls)"
proof (rule triple_conseq [OF triple_audit])
  fix x st
  assume "\<exists>line. at p calls ([] @ [line]) st
    \<and> (\<forall>status. ae_status entry = u status \<longrightarrow> says line (ae_operation entry) status \<and> says_ref line = ae_ref entry)"
  then obtain line where a: "at p calls [line] st"
    and s: "\<forall>status. ae_status entry = u status \<longrightarrow> says line (ae_operation entry) status"
    by auto
  have "accounted due p operation calls 1 [line]" using assms s by (auto simp: accounted_def failing_def)
  with a show "finished due p operation calls 1 st" unfolding finished_def by blast
qed (simp_all add: at_left)

lemma triple_fail_stage:
  assumes "ae_operation entry = operation" and "failing calls entry"
  shows "triple (at p calls []) (fail_stage (recording_env env) entry)
    (finished due p operation calls) (\<lambda>_. left p calls)"
  unfolding fail_stage_def
  by (rule triple_bind [OF triple_failed_entry [OF assms]], rule triple_ret)

lemma triple_answer_then:
  "triple (at p calls recs) m Q (\<lambda>_. left p calls) \<Longrightarrow>
   triple (at p calls recs) (bind (write_response (recording_env env) status) (\<lambda>_. m)) Q (\<lambda>_. left p calls)"
  by (rule triple_bind [OF triple_unobserved [OF unobserved_write_response]])

lemma triple_audit_then_answer:
  assumes "ae_operation entry = operation" and "failing calls entry"
  shows "triple (at p calls []) (bind (audit_call (recording_env env) entry) (\<lambda>_.
      bind (write_response (recording_env env) status) (\<lambda>_. ret 1)))
    (finished due p operation calls) (\<lambda>_. left p calls)"
proof (rule triple_bind [OF triple_failed_entry [OF assms]], rule triple_finished, rule triple_answer_then, rule triple_ret)
  fix recs st
  assume "accounted due p operation calls 1 recs" and "at p calls recs st"
  then show "finished due p operation calls 1 st" unfolding finished_def by blast
qed

section \<open>Authorisation\<close>

definition from_session :: "BrokerSession \<Rightarrow> (remote_call list \<times> 'g) \<times> ('c, audit_records \<times> 'w) connection \<Rightarrow> bool" where
  "from_session s st \<longleftrightarrow> at (gs_policy s) [] [] st \<and> cn_session (snd st) = s"

lemma triple_authorize:
  "triple (from_session s) (on_connection (authorize_request q))
     (\<lambda>a st. (acceptable q s \<and> a = \<lparr>az_operation = br_operation q, az_payload = br_payload q\<rparr>)
        \<and> at (gs_policy s) [] [] st)
     (\<lambda>_. at (gs_policy s) [] [])"
proof (cases "acceptable q s")
  case True
  show ?thesis
    by (rule tripleI)
      (auto simp: from_session_def at_def on_connection_def authorize_request_def authorize_accept [OF True] True)
next
  case False
  from authorize_refuse [OF False] obtain e where "authorize q s = (Inl e, s)" by auto
  then show ?thesis
    by (intro tripleI) (auto simp: from_session_def at_def on_connection_def authorize_request_def)
qed

definition git_allowed :: "BrokerSession \<Rightarrow> BrokerRequest \<Rightarrow> string \<Rightarrow> bool" where
  "git_allowed s q operation \<longleftrightarrow>
     acceptable q s \<and> br_operation q = u operation \<and> own_repository (gs_policy s) q"

lemma triple_authorize_git:
  "triple (from_session s) (authorize_git (recording_env env) (Some q) operation)
     (\<lambda>r. case r of
        Inl n \<Rightarrow> (\<lambda>st. n = 1 \<and> at (gs_policy s) [] [] st)
      | Inr _ \<Rightarrow> (\<lambda>st. git_allowed s q operation \<and> at (gs_policy s) [] [] st))
     (\<lambda>_. left (gs_policy s) [])"
proof -
  have "triple (from_session s)
      (bind (ret q) (\<lambda>request.
       bind (on_connection (authorize_request request)) (\<lambda>authorized.
       bind session_policy (\<lambda>policy.
       check (az_operation authorized = u operation
          \<and> az_payload authorized = [(u ''repository'', JStr (slug (bp_repository policy)))])
        (ValueError ''broker request is not allowed'')))))
      (\<lambda>_ st. git_allowed s q operation \<and> at (gs_policy s) [] [] st) (\<lambda>_. at (gs_policy s) [] [])"
  proof (rule triple_bind [where R = "\<lambda>x st. x = q \<and> from_session s st", OF triple_ret], simp,
      rule triple_conj_pure, simp, rule triple_bind [OF triple_authorize], rule triple_conj_pure)
    fix authorized
    assume a: "acceptable q s \<and> authorized = \<lparr>az_operation = br_operation q, az_payload = br_payload q\<rparr>"
    show "triple (at (gs_policy s) [] []) (bind session_policy (\<lambda>policy.
       check (az_operation authorized = u operation
          \<and> az_payload authorized = [(u ''repository'', JStr (slug (bp_repository policy)))])
        (ValueError ''broker request is not allowed'')))
      (\<lambda>_ st. git_allowed s q operation \<and> at (gs_policy s) [] [] st) (\<lambda>_. at (gs_policy s) [] [])"
      by (rule triple_bind [OF triple_session_policy], rule triple_conj_pure, rule triple_check)
         (simp_all add: a git_allowed_def own_repository_def)
  qed
  then have m: "triple (from_session s)
      (going_on (bind (ret q) (\<lambda>request.
       bind (on_connection (authorize_request request)) (\<lambda>authorized.
       bind session_policy (\<lambda>policy.
       check (az_operation authorized = u operation
          \<and> az_payload authorized = [(u ''repository'', JStr (slug (bp_repository policy)))])
        (ValueError ''broker request is not allowed''))))))
     (\<lambda>r. case r of
        Inl n \<Rightarrow> (\<lambda>st. n = 1 \<and> at (gs_policy s) [] [] st)
      | Inr _ \<Rightarrow> (\<lambda>st. git_allowed s q operation \<and> at (gs_policy s) [] [] st)) (\<lambda>_. at (gs_policy s) [] [])"
    by (intro triple_going_on) simp
  show ?thesis
    unfolding authorize_git_def client_request_def option.case
    by (rule triple_catching [OF m])
      (auto intro!: triple_returning triple_answer_then triple_ret simp: at_left)
qed

section \<open>Fetching and pushing\<close>

definition outcome :: "bool \<Rightarrow> (remote_call list \<Rightarrow> bool) \<Rightarrow> BrokerPolicy \<Rightarrow> pystr \<Rightarrow> nat
    \<Rightarrow> (remote_call list \<times> 'g) \<times> ('c, audit_records \<times> 'w) connection \<Rightarrow> bool" where
  "outcome due P p operation n st \<longleftrightarrow> (\<exists>calls. P calls \<and> finished due p operation calls n st)"

definition broken :: "(remote_call list \<Rightarrow> bool) \<Rightarrow> BrokerPolicy
    \<Rightarrow> (remote_call list \<times> 'g) \<times> ('c, audit_records \<times> 'w) connection \<Rightarrow> bool" where
  "broken P p st \<longleftrightarrow> (\<exists>calls. P calls \<and> left p calls st)"

lemma outcomeI:
  "P calls \<Longrightarrow> triple A m (finished due p operation calls) (\<lambda>_. left p calls) \<Longrightarrow>
   triple A m (outcome due P p operation) (\<lambda>_. broken P p)"
  by (erule triple_conseq) (auto simp: outcome_def broken_def)

lemma triple_broken: "P calls \<Longrightarrow> triple A m Q (\<lambda>_. left p calls) \<Longrightarrow> triple A m Q (\<lambda>_. broken P p)"
  by (erule triple_conseq) (auto simp: broken_def)

lemma at_broken: "P calls \<Longrightarrow> at p calls recs st \<Longrightarrow> broken P p st"
  unfolding broken_def left_def by blast

abbreviation going :: "bool \<Rightarrow> (remote_call list \<Rightarrow> bool) \<Rightarrow> BrokerPolicy \<Rightarrow> pystr
    \<Rightarrow> ('a \<Rightarrow> (remote_call list \<times> 'g) \<times> ('c, audit_records \<times> 'w) connection \<Rightarrow> bool) \<Rightarrow> nat + 'a
    \<Rightarrow> (remote_call list \<times> 'g) \<times> ('c, audit_records \<times> 'w) connection \<Rightarrow> bool" where
  "going due P p operation R r \<equiv> (case r of Inl n \<Rightarrow> outcome due P p operation n | Inr x \<Rightarrow> R x)"

lemma failed_entry_simps [simp]:
  "ae_operation (failed_entry operation stage) = operation" "ae_status (failed_entry operation stage) = u ''error''"
  "ae_operation (audit_entry operation status) = operation" "ae_status (audit_entry operation status) = u status"
  by (simp_all add: failed_entry_def audit_entry_def)

lemma failing_simps [simp]:
  "failing calls (failed_entry operation stage) \<longleftrightarrow> calls \<noteq> []"
  "failing calls (audit_entry operation ''denied'') \<longleftrightarrow> calls \<noteq> [] \<and> push_stopped calls"
  by (simp_all add: failing_def u_def)

text \<open>A step that may fail, with its record.\<close>

lemma triple_fail_returning:
  assumes "P calls" and "ae_operation entry = operation" and "failing calls entry"
  shows "triple (at p calls []) (returning (fail_stage (recording_env env) entry))
    (going due P p operation R) (\<lambda>_. broken P p)"
  by (rule triple_returning) (simp add: outcomeI [where P = P, OF assms(1) triple_fail_stage [OF assms(2,3)]])

lemma triple_stream_step:
  assumes "P calls" and "unobserved m" and "ae_operation entry = operation"
    and "failing calls entry"
  shows "triple (at p calls [])
    (try_except (going_on m)
      (\<lambda>e. if stream_failure e then returning (fail_stage (recording_env env) entry) else raise e))
    (going due P p operation (\<lambda>_. at p calls [])) (\<lambda>_. broken P p)"
proof (rule triple_catching [where F = "\<lambda>_. at p calls []"])
  show "triple (at p calls []) (going_on m) (going due P p operation (\<lambda>_. at p calls [])) (\<lambda>_. at p calls [])"
    by (rule triple_going_on) (simp add: unobservedD [OF assms(2)])
qed (rule triple_fail_returning [where P = P, OF assms(1,3,4)], rule at_broken [where P = P, OF assms(1)])

lemma triple_transfer_step:
  assumes "P (calls @ [c])"
  shows "triple (at p calls [])
    (try_stage (going_on (send_generator (recording_env env) (record_start c k)))
      (\<lambda>stage. returning (fail_stage (recording_env env) (failed_entry operation stage)))
      stream_failure
      (returning (fail_stage (recording_env env) (failed_entry operation (u ''response-stream'')))))
    (going due P p operation (\<lambda>_. at p (calls @ [c]) [])) (\<lambda>_. broken P p)"
proof (rule triple_try_stage [where F = "\<lambda>_. at p (calls @ [c]) []"])
  show "triple (at p calls []) (going_on (send_generator (recording_env env) (record_start c k)))
      (going due P p operation (\<lambda>_. at p (calls @ [c]) [])) (\<lambda>_. at p (calls @ [c]) [])"
    by (rule triple_going_on) (simp add: triple_send_generator)
qed (rule triple_fail_returning [where P = P, OF assms], simp, simp,
     rule triple_fail_returning [where P = P, OF assms], simp, simp, rule at_broken [where P = P, OF assms])

text \<open>A failed discovery is recorded and answered.\<close>

lemma triple_answered_failure:
  assumes "P calls" and "ae_operation entry = operation" and "failing calls entry"
  shows "triple (at p calls [])
    (returning
      (bind (audit_call (recording_env env) entry) (\<lambda>_.
       bind (write_response (recording_env env) status) (\<lambda>_. ret 1))))
    (going due P p operation R) (\<lambda>_. broken P p)"
  by (rule triple_returning, simp only: sum.case)
    (rule outcomeI [where P = P, OF assms(1) triple_audit_then_answer [OF assms(2,3)]])

text \<open>After the answer \<open>ok\<close>.\<close>

lemma triple_ok_then:
  assumes "P calls" and "ae_operation entry = operation" and "failing calls entry"
    and "triple (at p calls []) m (outcome due P p operation) (\<lambda>_. broken P p)"
  shows "triple (at p calls [])
    (bind (write_response (recording_env env) ''ok'')
      (\<lambda>sent. if \<not> sent then fail_stage (recording_env env) entry else m))
    (outcome due P p operation) (\<lambda>_. broken P p)"
proof (rule triple_bind [OF triple_broken [where P = P, OF assms(1) triple_unobserved [OF unobserved_write_response]]], rule triple_if)
  show "triple (at p calls []) (fail_stage (recording_env env) entry) (outcome due P p operation) (\<lambda>_. broken P p)"
    by (rule outcomeI [where P = P, OF assms(1) triple_fail_stage [OF assms(2,3)]])
qed (rule assms(4))

definition fetching :: "remote_call list \<Rightarrow> bool" where
  "fetching calls \<longleftrightarrow> (\<exists>r bodies. calls = Fetch_Discovery r # map Fetch bodies)"

lemma fetching_story: "fetching calls \<Longrightarrow> fetch_story calls"
  by (simp add: fetching_def fetch_story_def)

lemma fetching_nonempty: "fetching calls \<Longrightarrow> calls \<noteq> []"
  by (auto simp: fetching_def)

lemma fetching_more: "fetching calls \<Longrightarrow> fetching (calls @ [Fetch body])"
  unfolding fetching_def by (metis append_Cons list.simps(8) list.simps(9) map_append)

lemma accounted_ok: "says line operation ''ok'' \<Longrightarrow> calls \<noteq> [] \<and> operation \<noteq> u ''git-receive-pack'' \<Longrightarrow> accounted due p operation calls 0 [line]"
  by (simp add: accounted_def)

lemma triple_ok_entry:
  assumes "P calls" and "ae_operation entry = operation" and "ae_status entry = u ''ok''"
    and "calls \<noteq> [] \<and> operation \<noteq> u ''git-receive-pack''"
  shows "triple (at p calls []) (bind (audit_call (recording_env env) entry) (\<lambda>_. ret 0))
    (outcome due P p operation) (\<lambda>_. broken P p)"
proof -
  have "triple (at p calls []) (audit_call (recording_env env) entry)
      (\<lambda>_. finished due p operation calls 0) (\<lambda>_. broken P p)"
  proof (rule triple_conseq [OF triple_audit])
    fix x st
    assume "\<exists>line. at p calls ([] @ [line]) st
      \<and> (\<forall>status. ae_status entry = u status \<longrightarrow> says line (ae_operation entry) status \<and> says_ref line = ae_ref entry)"
    then obtain line where "at p calls [line] st" "says line operation ''ok''" using assms(2,3) by auto
    with accounted_ok [OF _ assms(4)] show "finished due p operation calls 0 st" unfolding finished_def by blast
  qed (simp_all add: at_broken [where P = P, OF assms(1)])
  then show ?thesis
    by (rule triple_bind) (rule triple_ret, use assms(1) in \<open>auto simp: outcome_def\<close>)
qed

lemma triple_upload_requests:
  "fetching calls \<Longrightarrow>
   triple (at p calls []) (upload_requests n (recording_env env) (recording_fetch t) transferred)
     (outcome due fetch_story p (u ''git-upload-pack'')) (\<lambda>_. broken fetch_story p)"
proof (induction n arbitrary: calls transferred)
  case 0
  then show ?case by (auto intro!: triple_raise at_broken fetching_story)
next
  case (Suc n)
  note f = fetching_story [OF Suc.prems]
  show ?case
    unfolding upload_requests.simps
  proof (rule triple_unless_returned [OF triple_stream_step [where P = fetch_story, OF f]], rule unobserved_streams(2),
      simp, simp add: fetching_nonempty [OF Suc.prems], rule triple_if)
    fix request_body :: bytes
    show "triple (at p calls []) (bind (audit_call (recording_env env)
         ((audit_entry (u ''git-upload-pack'') ''ok'')\<lparr>ae_bytes := JInt (int transferred)\<rparr>)) (\<lambda>_. ret 0))
       (outcome due fetch_story p (u ''git-upload-pack'')) (\<lambda>_. broken fetch_story p)"
      by (rule triple_ok_entry [where P = fetch_story, OF f]) (simp_all add: fetching_nonempty [OF Suc.prems] u_def)
    have s: "gt_rpc (recording_fetch t) request_body = record_start (Fetch request_body) (gt_rpc t request_body)"
      by (simp add: recording_fetch_def)
    show "triple (at p calls [])
      (unless_returned
        (try_stage (going_on (send_generator (recording_env env) (gt_rpc (recording_fetch t) request_body)))
          (\<lambda>stage. returning (fail_stage (recording_env env) (failed_entry (u ''git-upload-pack'') stage)))
          stream_failure
          (returning (fail_stage (recording_env env) (failed_entry (u ''git-upload-pack'') (u ''response-stream'')))))
        (\<lambda>sent. upload_requests n (recording_env env) (recording_fetch t) (transferred + sent)))
      (outcome due fetch_story p (u ''git-upload-pack'')) (\<lambda>_. broken fetch_story p)"
      unfolding s
      by (rule triple_unless_returned [OF triple_transfer_step [where P = fetch_story]])
        (simp_all add: fetching_story fetching_more Suc)
  qed
qed

section \<open>The Git handlers\<close>

definition served :: "BrokerSession \<Rightarrow> BrokerRequest \<Rightarrow> remote_call list \<Rightarrow> bool" where
  "served s q calls \<longleftrightarrow> calls = [] \<or> acceptable q s \<and> story (gs_policy s) q calls"

abbreviation handled :: "bool \<Rightarrow> BrokerSession \<Rightarrow> BrokerRequest
    \<Rightarrow> ((remote_call list \<times> 'g) \<times> ('c, audit_records \<times> 'w) connection, nat) prog \<Rightarrow> bool" where
  "handled due s q m \<equiv> triple (from_session s) m
     (outcome due (served s q) (gs_policy s) (br_operation q)) (\<lambda>_. broken (served s q) (gs_policy s))"

lemma triple_stories:
  "triple A m (outcome due P p operation) (\<lambda>_. broken P p) \<Longrightarrow> (\<And>calls. P calls \<Longrightarrow> P' calls) \<Longrightarrow>
   triple A m (outcome due P' p operation) (\<lambda>_. broken P' p)"
  by (erule triple_conseq) (auto simp: outcome_def broken_def)

lemma served_Nil: "served s q []"
  by (simp add: served_def)

lemma served_refused: "at p [] [] st \<Longrightarrow> \<not> due \<Longrightarrow> outcome due (served s q) p operation 1 st"
  unfolding outcome_def using served_Nil finished_silent by blast

text \<open>A handler that starts with the authorisation of a Git request.\<close>

lemma handled_git:
  assumes "\<And>x. git_allowed s q operation \<Longrightarrow> triple (at (gs_policy s) [] []) (f x)
      (outcome due (served s q) (gs_policy s) (u operation)) (\<lambda>_. broken (served s q) (gs_policy s))"
    and "br_operation q = u operation" and "\<not> due"
  shows "handled due s q (unless_returned (authorize_git (recording_env env) (Some q) operation) f)"
  unfolding assms(2)
proof (rule triple_unless_returned [OF triple_conseq [OF triple_authorize_git]])
  show "triple (\<lambda>st. git_allowed s q operation \<and> at (gs_policy s) [] [] st) (f x)
      (outcome due (served s q) (gs_policy s) (u operation)) (\<lambda>_. broken (served s q) (gs_policy s))" for x
    by (rule triple_conj_pure) (rule assms(1))
next
  fix x :: "nat + unit" and st
  assume "(case x of
        Inl n \<Rightarrow> (\<lambda>st. n = 1 \<and> at (gs_policy s) [] [] st)
      | Inr _ \<Rightarrow> (\<lambda>st. git_allowed s q operation \<and> at (gs_policy s) [] [] st)) st"
  then show "(case x of
        Inl n \<Rightarrow> outcome due (served s q) (gs_policy s) (u operation) n
      | Inr _ \<Rightarrow> (\<lambda>st. git_allowed s q operation \<and> at (gs_policy s) [] [] st)) st"
    by (auto split: sum.splits simp: served_refused [OF _ assms(3), unfolded One_nat_def])
qed (auto simp: broken_def served_def)

lemma fetch_served:
  "git_allowed s q ''git-upload-pack'' \<Longrightarrow> fetch_story calls \<Longrightarrow> served s q calls"
  by (simp add: served_def story_def git_allowed_def)

lemma push_served:
  "git_allowed s q ''git-receive-pack'' \<Longrightarrow> push_story (gs_policy s) calls \<Longrightarrow> served s q calls"
  by (simp add: served_def story_def git_allowed_def)

lemma handled_upload:
  assumes "br_operation q = u ''git-upload-pack''" and "\<not> due"
  shows "handled due s q (handle_upload_pack_connection n (recording_env env) (recording_fetch t) (Some q))"
  unfolding handle_upload_pack_connection_def
proof (rule handled_git [OF _ assms(1,2)])
  fix x :: unit
  assume g: "git_allowed s q ''git-upload-pack''"
  let ?p = "gs_policy s" and ?o = "u ''git-upload-pack''"
  have d: "gt_discover (recording_fetch t) = record_call Fetch_Discovery (gt_discover t)"
    by (simp add: recording_fetch_def)
  have f: "fetching [Fetch_Discovery r]" for r by (simp add: fetching_def)
  note fs = fetching_story [OF f]
  have first: "triple (at ?p [] [])
      (try_stage (going_on (on_remote (record_call Fetch_Discovery (gt_discover t))))
        (\<lambda>stage. returning
          (bind (audit_call (recording_env env) (failed_entry ?o stage)) (\<lambda>_.
           bind (write_response (recording_env env) ''error'') (\<lambda>_. ret 1))))
        (\<lambda>e. False) (ret (Inl 1)))
      (\<lambda>r. case r of Inl n \<Rightarrow> outcome due fetch_story ?p ?o n | Inr x \<Rightarrow> at ?p [Fetch_Discovery (Inr x)] [])
      (\<lambda>_. broken fetch_story ?p)"
  proof (rule triple_try_stage [where F = "\<lambda>e. at ?p [Fetch_Discovery (Inl e)] []"])
    show "triple (at ?p [] []) (going_on (on_remote (record_call Fetch_Discovery (gt_discover t))))
        (\<lambda>r. case r of Inl n \<Rightarrow> outcome due fetch_story ?p ?o n | Inr x \<Rightarrow> at ?p [Fetch_Discovery (Inr x)] [])
        (\<lambda>e. at ?p [Fetch_Discovery (Inl e)] [])"
      by (rule triple_going_on) (use triple_on_remote [of ?p "[]" "[]"] in simp)
    fix stage
    show "triple (at ?p [Fetch_Discovery (Inl (BrokerStageError stage))] [])
        (returning
          (bind (audit_call (recording_env env) (failed_entry ?o stage)) (\<lambda>_.
           bind (write_response (recording_env env) ''error'') (\<lambda>_. ret 1))))
        (\<lambda>r. case r of Inl n \<Rightarrow> outcome due fetch_story ?p ?o n | Inr x \<Rightarrow> at ?p [Fetch_Discovery (Inr x)] [])
        (\<lambda>_. broken fetch_story ?p)"
      by (rule triple_answered_failure [where P = fetch_story, OF fs]) simp_all
  qed (auto intro: at_broken fs)
  show "triple (at ?p [] [])
    (unless_returned
       (try_stage (going_on (on_remote (gt_discover (recording_fetch t))))
         (\<lambda>stage. returning
           (bind (audit_call (recording_env env) (failed_entry ?o stage)) (\<lambda>_.
            bind (write_response (recording_env env) ''error'') (\<lambda>_. ret 1))))
         (\<lambda>e. False) (ret (Inl 1))) (\<lambda>discovery.
     bind (write_response (recording_env env) ''ok'') (\<lambda>sent.
       if \<not> sent then fail_stage (recording_env env) (failed_entry ?o (u ''response-stream''))
       else
         unless_returned
           (try_except (going_on (send_chunks (recording_env env) [discovery]))
             (\<lambda>e. if stream_failure e
                  then returning (fail_stage (recording_env env) (failed_entry ?o (u ''response-stream'')))
                  else raise e))
           (upload_requests n (recording_env env) (recording_fetch t)))))
    (outcome due (served s q) ?p ?o) (\<lambda>_. broken (served s q) ?p)"
    unfolding d
  proof (rule triple_stories [OF triple_unless_returned [OF first]])
    fix discovery
    show "triple (at ?p [Fetch_Discovery (Inr discovery)] [])
      (bind (write_response (recording_env env) ''ok'') (\<lambda>sent.
       if \<not> sent then fail_stage (recording_env env) (failed_entry ?o (u ''response-stream''))
       else
         unless_returned
           (try_except (going_on (send_chunks (recording_env env) [discovery]))
             (\<lambda>e. if stream_failure e
                  then returning (fail_stage (recording_env env) (failed_entry ?o (u ''response-stream'')))
                  else raise e))
           (upload_requests n (recording_env env) (recording_fetch t))))
      (outcome due fetch_story ?p ?o) (\<lambda>_. broken fetch_story ?p)"
      by (rule triple_ok_then [where P = fetch_story, OF fs _ _
            triple_unless_returned [OF triple_stream_step [where P = fetch_story, OF fs unobserved_streams(1)]]])
        (simp_all add: triple_upload_requests f)
  qed (rule fetch_served [OF g])
qed

lemma triple_audit_updates:
  "triple (at p calls recs) (audit_updates (recording_env env) transferred updates)
     (\<lambda>_ st. \<exists>new. at p calls (recs @ new) st \<and> (\<forall>r \<in> set new. says r (u ''git-receive-pack'') ''ok'')
        \<and> map says_ref new = map (\<lambda>update. Some (up_ref update)) updates)
     (\<lambda>_. left p calls)"
proof (induction updates arbitrary: recs)
  case Nil
  show ?case unfolding audit_updates.simps
    by (rule triple_ret) (rule exI [of _ "[]"], simp)
next
  case (Cons update updates)
  let ?entry = "(audit_entry (u ''git-receive-pack'') ''ok'')\<lparr>ae_ref := Some (up_ref update), ae_bytes := JInt (int transferred)\<rparr>"
  have audited: "triple (at p calls recs) (audit_call (recording_env env) ?entry)
     (\<lambda>_ st. \<exists>line. (says line (u ''git-receive-pack'') ''ok'' \<and> says_ref line = Some (up_ref update))
        \<and> at p calls (recs @ [line]) st) (\<lambda>_. left p calls)"
  proof (rule triple_conseq [OF triple_audit])
    fix x st
    assume "\<exists>line. at p calls (recs @ [line]) st \<and> (\<forall>status. ae_status ?entry = u status \<longrightarrow>
      says line (ae_operation ?entry) status \<and> says_ref line = ae_ref ?entry)"
    then obtain line where "at p calls (recs @ [line]) st" and "\<forall>status. u ''ok'' = u status \<longrightarrow>
      says line (u ''git-receive-pack'') status \<and> says_ref line = Some (up_ref update)"
      by auto
    then show "\<exists>line. (says line (u ''git-receive-pack'') ''ok'' \<and> says_ref line = Some (up_ref update))
        \<and> at p calls (recs @ [line]) st"
      by blast
  qed (simp_all add: at_left)
  show ?case unfolding audit_updates.simps
  proof (rule triple_bind [OF audited], intro triple_ex triple_conj_pure, goal_cases)
    case (1 _ line)
    note line = 1
    show ?case
    proof (rule triple_conseq [OF Cons.IH])
      fix x st
      assume "\<exists>new. at p calls ((recs @ [line]) @ new) st \<and> (\<forall>r \<in> set new. says r (u ''git-receive-pack'') ''ok'')
        \<and> map says_ref new = map (\<lambda>update. Some (up_ref update)) updates"
      then obtain new where "at p calls (recs @ line # new) st" "\<forall>r \<in> set new. says r (u ''git-receive-pack'') ''ok''"
        "map says_ref new = map (\<lambda>update. Some (up_ref update)) updates" by auto
      with line show "\<exists>new. at p calls (recs @ new) st \<and> (\<forall>r \<in> set new. says r (u ''git-receive-pack'') ''ok'')
        \<and> map says_ref new = map (\<lambda>update. Some (up_ref update)) (update # updates)"
        by (intro exI [of _ "line # new"]) simp
    qed simp_all
  qed
qed

lemma gate_updates_nonempty: "gate_receive_pack_commands body adv p = Inr gated \<Longrightarrow> gate_updates gated \<noteq> []"
  by (auto simp: gate_receive_pack_commands_def err_simps split: if_split_asm prod.split_asm)

text \<open>The calls of a push, step by step.\<close>

lemma push_story_intros:
  "push_story p []" "push_story p [Push_Discovery r]"
  "parse_receive_pack_advertisement d = Inr adv \<Longrightarrow> gate_receive_pack_commands body adv p = Inr gated \<Longrightarrow>
     push_story p [Push_Discovery (Inr d), Push body]"
  by (auto simp: push_story_def)

lemma triple_push_discovery:
  "triple (at p [] [])
     (try_stage
         (going_on
           (bind (on_remote (gt_discover (recording_push t))) (\<lambda>discovery.
            bind (lift (parse_receive_pack_advertisement discovery)) (\<lambda>advertisement.
            ret (discovery, advertisement)))))
         (\<lambda>stage. returning
           (bind (audit_call (recording_env env) (failed_entry (u ''git-receive-pack'') stage)) (\<lambda>_.
            bind (write_response (recording_env env) ''error'') (\<lambda>_. ret 1))))
         is_value_error
         (returning
           (bind (audit_call (recording_env env) (failed_entry (u ''git-receive-pack'') (u ''receive-discovery''))) (\<lambda>_.
            bind (write_response (recording_env env) ''error'') (\<lambda>_. ret 1)))))
     (going due (push_story p) p (u ''git-receive-pack'')
       (\<lambda>(d, adv) st. parse_receive_pack_advertisement d = Inr adv \<and> at p [Push_Discovery (Inr d)] [] st))
     (\<lambda>_. broken (push_story p) p)"
proof -
  have d: "gt_discover (recording_push t) = record_call Push_Discovery (gt_discover t)"
    by (simp add: recording_push_def)
  let ?F = "\<lambda>e st. \<exists>r. at p [Push_Discovery r] [] st"
  have m: "triple (at p [] [])
      (bind (on_remote (record_call Push_Discovery (gt_discover t))) (\<lambda>discovery.
            bind (lift (parse_receive_pack_advertisement discovery)) (\<lambda>advertisement.
            ret (discovery, advertisement))))
      (\<lambda>(d, adv) st. parse_receive_pack_advertisement d = Inr adv \<and> at p [Push_Discovery (Inr d)] [] st) ?F"
  proof (rule triple_bind [where R = "\<lambda>d. at p [Push_Discovery (Inr d)] []"])
    show "triple (at p [] []) (on_remote (record_call Push_Discovery (gt_discover t)))
        (\<lambda>d. at p [Push_Discovery (Inr d)] []) ?F"
      by (rule triple_conseq [OF triple_on_remote]) auto
    fix d
    show "triple (at p [Push_Discovery (Inr d)] [])
        (bind (lift (parse_receive_pack_advertisement d)) (\<lambda>advertisement. ret (d, advertisement)))
        (\<lambda>(d, adv) st. parse_receive_pack_advertisement d = Inr adv \<and> at p [Push_Discovery (Inr d)] [] st) ?F"
      by (rule triple_bind [OF triple_lift [where Q = "\<lambda>adv st. parse_receive_pack_advertisement d = Inr adv
            \<and> at p [Push_Discovery (Inr d)] [] st"]]) (auto intro: triple_ret)
  qed
  have f: "triple (?F e) (returning
           (bind (audit_call (recording_env env) (failed_entry (u ''git-receive-pack'') stage)) (\<lambda>_.
            bind (write_response (recording_env env) ''error'') (\<lambda>_. ret 1))))
        (going due (push_story p) p (u ''git-receive-pack'') R) (\<lambda>_. broken (push_story p) p)" for e stage R
    by (intro triple_ex triple_answered_failure [where P = "push_story p"]) (simp_all add: push_story_intros)
  show ?thesis
    unfolding d
  proof (rule triple_try_stage [where F = ?F])
    show "triple (at p [] []) (going_on (bind (on_remote (record_call Push_Discovery (gt_discover t))) (\<lambda>discovery.
            bind (lift (parse_receive_pack_advertisement discovery)) (\<lambda>advertisement.
            ret (discovery, advertisement)))))
        (going due (push_story p) p (u ''git-receive-pack'')
          (\<lambda>(d, adv) st. parse_receive_pack_advertisement d = Inr adv \<and> at p [Push_Discovery (Inr d)] [] st)) ?F"
      by (rule triple_going_on) (simp add: m)
    show "broken (push_story p) p st" if "?F e st" for e st
      using that push_story_intros(2) by (blast intro: at_broken [where P = "push_story p"])
  qed (rule f)+
qed

text \<open>What follows the gate: the transfer, then one record per ref.\<close>

lemma triple_push_transfer:
  assumes "parse_receive_pack_advertisement d = Inr adv" and "gate_receive_pack_commands body adv p = Inr gated"
  shows "triple (at p [Push_Discovery (Inr d)] [])
     (unless_returned
       (try_stage (going_on (send_generator (recording_env env) (gt_rpc (recording_push t) body)))
         (\<lambda>stage. returning (fail_stage (recording_env env) (failed_entry (u ''git-receive-pack'') stage)))
         stream_failure
         (returning (fail_stage (recording_env env) (failed_entry (u ''git-receive-pack'') (u ''response-stream'')))))
       (\<lambda>transferred.
         bind (audit_updates (recording_env env) transferred (gate_updates gated)) (\<lambda>_. ret 0)))
     (outcome due (push_story p) p (u ''git-receive-pack'')) (\<lambda>_. broken (push_story p) p)"
proof -
  let ?calls = "[Push_Discovery (Inr d)] @ [Push body]" and ?o = "u ''git-receive-pack''"
  have s: "gt_rpc (recording_push t) body = record_start (Push body) (gt_rpc t body)"
    by (simp add: recording_push_def)
  have P: "push_story p ?calls" using push_story_intros(3) [OF assms] by simp
  have completed: "outcome due (push_story p) p ?o 0 st"
    if "at p ?calls new st" and "\<forall>r \<in> set new. says r ?o ''ok''"
      and refs: "map says_ref new = map (\<lambda>update. Some (up_ref update)) (gate_updates gated)" for new st
  proof -
    have "new \<noteq> []" using refs gate_updates_nonempty [OF assms(2)] by auto
    moreover have "push_completed p ?calls new" using assms refs by (auto simp: push_completed_def)
    ultimately have "accounted due p ?o ?calls 0 new" using that by (simp add: accounted_def)
    with that(1) P show ?thesis unfolding outcome_def finished_def by blast
  qed
  show ?thesis
    unfolding s
  proof (rule triple_unless_returned [OF triple_transfer_step [where P = "push_story p", OF P]])
    fix transferred
    show "triple (at p ?calls []) (bind (audit_updates (recording_env env) transferred (gate_updates gated)) (\<lambda>_. ret 0))
        (outcome due (push_story p) p ?o) (\<lambda>_. broken (push_story p) p)"
    proof (rule triple_broken [where P = "push_story p", OF P], rule triple_bind [OF triple_audit_updates], rule triple_ret)
      fix st
      assume "\<exists>new. at p ?calls ([] @ new) st \<and> (\<forall>r \<in> set new. says r ?o ''ok'')
          \<and> map says_ref new = map (\<lambda>update. Some (up_ref update)) (gate_updates gated)"
      then show "outcome due (push_story p) p ?o 0 st" by (elim exE conjE) (rule completed, simp_all)
    qed
  qed
qed

lemma unobserved_exchange:
  "unobserved (bind (send_chunks env chunks) (\<lambda>_. receive_body env maximum eof))"
  by (intro unobserved_bind unobserved_streams)

lemma handled_receive:
  assumes "br_operation q = u ''git-receive-pack''" and "\<not> due"
  shows "handled due s q (handle_receive_pack_connection (recording_env env) (recording_push t) (Some q))"
  unfolding handle_receive_pack_connection_def
proof (rule handled_git [OF _ assms(1,2)], goal_cases)
  case (1 x)
  let ?p = "gs_policy s"
  show ?case
  proof (rule triple_stories [OF triple_unless_returned [OF triple_push_discovery]], goal_cases)
    case (1 x)
    obtain d adv where x: "x = (d, adv)" by (cases x)
    have P: "push_story ?p [Push_Discovery (Inr d)]" by (rule push_story_intros)
    show ?case
      unfolding x prod.case
    proof (rule triple_conj_pure,
        rule triple_ok_then [where P = "push_story ?p", OF P _ _
          triple_unless_returned [OF triple_stream_step [where P = "push_story ?p", OF P unobserved_exchange]]], goal_cases)
      case (5 body)
      show ?case
      proof (rule triple_bind [OF triple_session_policy], rule triple_conj_pure, goal_cases)
        case (1 policy)
        show ?case
        proof (cases "gate_receive_pack_commands body adv policy")
          case (Inl e)
          have "push_stopped [Push_Discovery (Inr d)]" using 5(1) by (auto simp: push_stopped_def)
          with Inl show ?thesis
            by (auto intro!: outcomeI [where P = "push_story ?p", OF P triple_fail_stage]
                triple_raise at_broken [where P = "push_story ?p", OF P])
        next
          case (Inr gated)
          with triple_push_transfer [OF 5(1), of body ?p gated] 1 show ?thesis by simp
        qed
      qed
    qed simp_all
  qed (rule push_served [OF 1])
qed

section \<open>The pull request and Issue handlers\<close>

lemma rest_served:
  assumes "acceptable q s" and "br_operation q \<in> PR_OPERATIONS \<and> call = pr_call_of q
      \<or> br_operation q \<in> ISSUE_OPERATIONS \<and> call = issue_call_of q"
    and "rest_story call calls"
  shows "served s q calls"
proof -
  have "br_operation q \<notin> {u ''git-upload-pack'', u ''git-receive-pack''}"
    and "br_operation q \<in> ISSUE_OPERATIONS \<Longrightarrow> br_operation q \<notin> PR_OPERATIONS"
    using assms(2) by (auto simp: PR_OPERATIONS_def ISSUE_OPERATIONS_def u_def)
  with assms show ?thesis by (auto simp: served_def story_def)
qed

lemma rest_story_intros: "rest_story call []" "rest_story (Some c) [c]"
  by (simp_all add: rest_story_def)

text \<open>Before any call, with the session as open as it was.\<close>

definition refusable :: "BrokerSession \<Rightarrow> (remote_call list \<times> 'g) \<times> ('c, audit_records \<times> 'w) connection \<Rightarrow> bool" where
  "refusable s st \<longleftrightarrow> at (gs_policy s) [] [] st \<and> gs_closed (cn_session (snd st)) = gs_closed s"

lemma refusable_at: "refusable s st \<Longrightarrow> at (gs_policy s) [] [] st"
  by (simp add: refusable_def)

lemma on_client_session: "cn_session (snd (snd (on_connection (on_client f) st))) = cn_session (snd st)"
  by (simp add: on_connection_def on_client_def split: prod.split)

lemma client_keeps_session:
  "triple (\<lambda>st. cn_session (snd st) = x) (on_connection (on_client f)) (\<lambda>_ st. cn_session (snd st) = x)
     (\<lambda>_ st. cn_session (snd st) = x)"
proof (rule tripleI)
  fix st t y assume "cn_session (snd st) = x" and "on_connection (on_client f) st = (Inr y, t)"
  with on_client_session [of f st] show "cn_session (snd t) = x" by simp
next
  fix st t e assume "cn_session (snd st) = x" and "on_connection (on_client f) st = (Inl e, t)"
  with on_client_session [of f st] show "cn_session (snd t) = x" by simp
qed

lemma write_response_keeps_session:
  "triple (\<lambda>st. cn_session (snd st) = x) (write_response env status) (\<lambda>_ st. cn_session (snd st) = x)
     (\<lambda>_ st. cn_session (snd st) = x)"
  unfolding write_response_def
  by (rule triple_try_except [where R = "\<lambda>_ st. cn_session (snd st) = x"])
    (auto intro!: triple_bind [where R = "\<lambda>_ st. cn_session (snd st) = x"] triple_lift client_keeps_session triple_ret
      triple_if triple_raise)

lemma write_response_session: "cn_session (snd (snd (write_response env status st))) = cn_session (snd st)"
proof -
  obtain r t where r: "write_response env status st = (r, t)" by (cases "write_response env status st")
  show ?thesis
  proof (cases r)
    case (Inl e)
    with triple_errorD [OF write_response_keeps_session r [unfolded Inl] refl] r show ?thesis by simp
  next
    case (Inr y)
    with tripleD [OF write_response_keeps_session r [unfolded Inr] refl] r show ?thesis by simp
  qed
qed

lemma refusable_response:
  "triple (refusable s) (write_response (recording_env env) status) (\<lambda>_. refusable s) (\<lambda>_. refusable s)"
proof (rule tripleI)
  fix st t x assume "refusable s st" and r: "write_response (recording_env env) status st = (Inr x, t)"
  with tripleD [OF unobservedD [OF unobserved_write_response] r] write_response_session [of "recording_env env" status st]
  show "refusable s t" by (auto simp: refusable_def)
next
  fix st t e assume "refusable s st" and r: "write_response (recording_env env) status st = (Inl e, t)"
  with triple_errorD [OF unobservedD [OF unobserved_write_response] r] write_response_session [of "recording_env env" status st]
  show "refusable s t" by (auto simp: refusable_def)
qed

lemma audit_log_taken:
  assumes "takes_records env" and "audit_record (be_now env (snd (cn_world c))) (be_label env) (cn_session c) entry = Inr line"
  shows "\<exists>t. audit_call (recording_env env) entry (g, c) = (Inr (), t)"
proof -
  have "fst (be_log env line (snd (cn_world c))) = Inr ()" using assms(1) by (simp add: takes_records_def)
  then show ?thesis using assms(2)
    by (auto simp: audit_call_def on_connection_def audit_def recording_env_def bindS_def split: prod.split sum.split)
qed

lemma denial_recorded:
  assumes "takes_records env" and "\<not> gs_closed (cn_session (snd st))" and "operation \<in> PR_OPERATIONS \<union> ISSUE_OPERATIONS"
  shows "\<exists>t. audit_call (recording_env env) (audit_entry operation ''denied'') st = (Inr (), t)"
proof -
  have "operation \<in> ALLOWED_OPERATIONS" using assms(3)
    by (auto simp: ALLOWED_OPERATIONS_def PR_OPERATIONS_def ISSUE_OPERATIONS_def)
  then have "\<exists>line. audit_record now label (cn_session (snd st)) (audit_entry operation ''denied'') = Inr line" for now label
    using assms(2) by (simp add: audit_record_def audit_entry_def validate_operation_def AUDIT_STATUSES_def when_some_def
        check_bytes_def u_def)
  then show ?thesis using audit_log_taken [OF assms(1)] by (metis prod.collapse)
qed

lemma triple_refuse_request:
  assumes "operation \<in> PR_OPERATIONS \<union> ISSUE_OPERATIONS" and "due \<longrightarrow> takes_records env \<and> \<not> gs_closed s"
  shows "triple (refusable s) (refuse_request (recording_env env) operation)
     (outcome due (served s q) (gs_policy s) operation) (\<lambda>_. broken (served s q) (gs_policy s))"
  unfolding refuse_request_def
proof (rule triple_bind [OF triple_conseq [OF refusable_response]], assumption, assumption)
  let ?p = "gs_policy s"
  show "broken (served s q) ?p st" if "refusable s st" for st
    using at_broken [where P = "served s q", OF served_Nil refusable_at [OF that]] .
  have audited: "triple (refusable s) (audit_call (recording_env env) (audit_entry operation ''denied''))
        (\<lambda>_. finished due ?p operation [] 1) (\<lambda>_ st. at ?p [] [] st \<and> \<not> due)"
  proof (rule tripleI)
    fix st t x
    assume "refusable s st" and r: "audit_call (recording_env env) (audit_entry operation ''denied'') st = (Inr x, t)"
    from tripleD [OF triple_audit r refusable_at [OF this(1)]]
    obtain line where "at ?p [] [line] t" "says line operation ''denied''" by (auto simp: audit_entry_def)
    moreover from this(2) have "accounted due ?p operation [] 1 [line]" using assms(1) by (simp add: accounted_def)
    ultimately show "finished due ?p operation [] 1 t" unfolding finished_def by blast
  next
    fix st t e
    assume a: "refusable s st" and r: "audit_call (recording_env env) (audit_entry operation ''denied'') st = (Inl e, t)"
    from triple_errorD [OF triple_audit r refusable_at [OF a]] have "at ?p [] [] t" .
    moreover have "\<not> due" using denial_recorded [of env st operation] r a assms by (auto simp: refusable_def)
    ultimately show "at ?p [] [] t \<and> \<not> due" by blast
  qed
  show "triple (refusable s)
      (bind (try_except (audit_call (recording_env env) (audit_entry operation ''denied''))
        (\<lambda>e. if is_value_error e then ret () else raise e)) (\<lambda>_. ret 1))
      (outcome due (served s q) ?p operation) (\<lambda>_. broken (served s q) ?p)"
  proof (rule triple_bind [where R = "\<lambda>_. finished due ?p operation [] 1"], rule triple_catching [OF audited])
    show "triple (\<lambda>st. at ?p [] [] st \<and> \<not> due) (ret ()) (\<lambda>_. finished due ?p operation [] 1) (\<lambda>_. broken (served s q) ?p)"
      by (rule triple_ret) (blast intro: finished_silent)
    show "broken (served s q) ?p st" if "at ?p [] [] st \<and> \<not> due" for st
      using that at_broken [where P = "served s q", OF served_Nil] by blast
    show "triple (finished due ?p operation [] 1) (ret 1) (outcome due (served s q) ?p operation) (\<lambda>_. broken (served s q) ?p)"
      by (rule triple_ret) (auto simp: outcome_def intro: served_Nil)
  qed
qed

lemma unless_returned_request:
  "unless_returned (refusing env operation (client_request env (Some q))) f = f q"
  by (rule ext) (simp add: unless_returned_def refusing_def client_request_def going_on_def try_except_def bind_def ret_def)

lemma refusable_authorize:
  "triple (from_session s) (on_connection (authorize_request q))
     (\<lambda>a st. (acceptable q s \<and> a = \<lparr>az_operation = br_operation q, az_payload = br_payload q\<rparr>) \<and> refusable s st)
     (\<lambda>_. refusable s)"
proof (cases "acceptable q s")
  case True
  show ?thesis
    by (rule tripleI)
      (auto simp: from_session_def refusable_def at_def on_connection_def authorize_request_def authorize_accept [OF True] True)
next
  case False
  from authorize_refuse [OF False] obtain e where "authorize q s = (Inl e, s)" by auto
  then show ?thesis
    by (intro tripleI) (auto simp: from_session_def refusable_def at_def on_connection_def authorize_request_def)
qed

lemma handled_operation:
  assumes "\<And>payload. acceptable q s \<Longrightarrow> br_operation q \<in> operations \<Longrightarrow>
      validate (br_operation q) (br_payload q) = Inr payload \<Longrightarrow>
      triple (at (gs_policy s) [] []) (f payload)
        (outcome due (served s q) (gs_policy s) (br_operation q)) (\<lambda>_. broken (served s q) (gs_policy s))"
    and "br_operation q \<in> PR_OPERATIONS \<union> ISSUE_OPERATIONS" and "due \<longrightarrow> takes_records env \<and> \<not> gs_closed s"
  shows "handled due s q (unless_returned
    (refusing (recording_env env) (br_operation q) (authorize_operation operations message validate q)) f)"
proof (rule triple_unless_returned)
  let ?p = "gs_policy s"
  let ?ok = "\<lambda>payload. acceptable q s \<and> br_operation q \<in> operations \<and> validate (br_operation q) (br_payload q) = Inr payload"
  have a: "triple (from_session s) (authorize_operation operations message validate q)
      (\<lambda>payload st. ?ok payload \<and> at ?p [] [] st) (\<lambda>_. refusable s)"
    unfolding authorize_operation_def
  proof (rule triple_bind [OF refusable_authorize], rule triple_conj_pure, goal_cases)
    case (1 a)
    show ?case
      by (rule triple_bind [where R = "\<lambda>_ st. az_operation a \<in> operations \<and> refusable s st"],
          rule triple_check, simp, simp, rule triple_conj_pure, rule triple_lift) (use 1 refusable_at in auto)
  qed
  show "triple (from_session s)
      (refusing (recording_env env) (br_operation q) (authorize_operation operations message validate q))
      (going due (served s q) ?p (br_operation q) (\<lambda>payload st. ?ok payload \<and> at ?p [] [] st))
      (\<lambda>_. broken (served s q) ?p)"
    unfolding refusing_def
  proof (rule triple_catching [OF triple_going_on, where F = "\<lambda>_. refusable s"], goal_cases)
    case 1
    show ?case using a by simp
  next
    case (2 e)
    show ?case by (rule triple_returning) (simp add: triple_refuse_request [OF assms(2,3)])
  next
    case (3 e st)
    show ?case by (rule at_broken [where P = "served s q", OF served_Nil refusable_at]) (rule 3)
  qed
  show "triple (\<lambda>st. ?ok payload \<and> at ?p [] [] st) (f payload)
      (outcome due (served s q) ?p (br_operation q)) (\<lambda>_. broken (served s q) ?p)" for payload
    by (rule triple_conj_pure) (rule assms(1); simp)
qed

text \<open>The call, and the record and answer when it fails at a stage.\<close>

lemma triple_rest_call:
  assumes "P []" and "P [c]" and "\<And>stage. ae_operation (entry stage) = operation \<and> ae_status (entry stage) = u ''error''"
  shows "triple (at p [] [])
     (try_stage (going_on (on_remote (record_call (\<lambda>_. c) m)))
       (\<lambda>stage. returning
         (bind (write_response (recording_env env) ''error'') (\<lambda>_. fail_stage (recording_env env) (entry stage))))
       (\<lambda>e. False) (ret (Inl 1)))
     (going due P p operation (\<lambda>_. at p [c] [])) (\<lambda>_. broken P p)"
proof (rule triple_try_stage [where F = "\<lambda>_. at p [c] []"], goal_cases)
  case 1
  show ?case by (rule triple_going_on) (use triple_on_remote [of p "[]" "[]" "\<lambda>_. c" m] in simp)
next
  case (2 g)
  show ?case
    by (rule triple_returning, simp only: sum.case)
      (rule outcomeI [where P = P, OF assms(2) triple_answer_then [OF triple_fail_stage]], simp_all add: assms(3) failing_def)
qed (auto intro: at_broken [where P = P, OF assms(2)])

lemma pr_call_recorded:
  assumes "validate_pr_payload operation payload = Inr v"
  shows "\<exists>m. call_pr_transport (recording_pr t) operation v = record_call (\<lambda>_. Pr_Call operation v) m"
  using assms
  by (cases v) (auto simp: validate_pr_payload_def call_pr_transport_def recording_pr_def err_simps split: if_split_asm)

lemma issue_call_recorded: "\<exists>m. call_issue_transport (recording_issue t) v = record_call (\<lambda>_. Issue_Call v) m"
  by (cases v) (auto simp: call_issue_transport_def recording_issue_def)

lemma rest_not_push: "operation \<in> PR_OPERATIONS \<union> ISSUE_OPERATIONS \<Longrightarrow>
    operation \<noteq> u ''git-upload-pack'' \<and> operation \<noteq> u ''git-receive-pack''"
  by (auto simp: PR_OPERATIONS_def ISSUE_OPERATIONS_def u_def)

lemma handled_pull_request:
  assumes "br_operation q \<in> PR_OPERATIONS" and "due \<longrightarrow> takes_records env \<and> \<not> gs_closed s"
  shows "handled due s q (handle_pull_request_connection (recording_env env) (recording_pr t) (Some q))"
  unfolding handle_pull_request_connection_def unless_returned_request Let_def
proof (rule handled_operation [OF _ _ assms(2)], goal_cases)
  case (1 v)
  let ?o = "br_operation q"
  obtain m where m: "call_pr_transport (recording_pr t) ?o v = record_call (\<lambda>_. Pr_Call ?o v) m"
    using pr_call_recorded [OF 1(3)] by blast
  have call: "pr_call_of q = Some (Pr_Call ?o v)" using 1(3) by (simp add: pr_call_of_def)
  have np: "?o \<noteq> u ''git-receive-pack''" using rest_not_push assms(1) by blast
  have P: "served s q [Pr_Call ?o v]"
    using rest_served [OF 1(1), of "pr_call_of q"] assms(1) call rest_story_intros(2) by simp
  show ?case
    unfolding m
  proof (rule triple_unless_returned [OF triple_rest_call [where P = "served s q", OF served_Nil P]], simp, goal_cases)
    case (1 result)
    show ?case
    proof (rule triple_bind [where R = "\<lambda>_. at (gs_policy s) [Pr_Call ?o v] []"], rule triple_lift, assumption,
        rule at_broken [where P = "served s q", OF P], assumption,
        rule triple_bind [where R = "\<lambda>_. at (gs_policy s) [Pr_Call ?o v] []"], rule triple_check, assumption,
        rule at_broken [where P = "served s q", OF P], assumption, goal_cases)
      case (1 body x)
      show ?case
        by (rule triple_ok_then [where P = "served s q", OF P _ _
            triple_unless_returned [OF triple_stream_step [where P = "served s q", OF P unobserved_streams(1)]]])
          (simp_all add: triple_ok_entry [where P = "served s q", OF P] np)
    qed
  qed
qed (use assms(1) in blast)

lemma handled_issue:
  assumes "br_operation q \<in> ISSUE_OPERATIONS" and "due \<longrightarrow> takes_records env \<and> \<not> gs_closed s"
  shows "handled due s q (handle_issue_connection (recording_env env) (recording_issue t) (Some q))"
  unfolding handle_issue_connection_def unless_returned_request Let_def
proof (rule handled_operation [OF _ _ assms(2)], goal_cases)
  case (1 v)
  let ?o = "br_operation q"
  obtain m where m: "call_issue_transport (recording_issue t) v = record_call (\<lambda>_. Issue_Call v) m"
    using issue_call_recorded by blast
  have call: "issue_call_of q = Some (Issue_Call v)" using 1(3) by (simp add: issue_call_of_def)
  have np: "?o \<noteq> u ''git-receive-pack''" using rest_not_push assms(1) by blast
  have P: "served s q [Issue_Call v]"
    using rest_served [OF 1(1), of "issue_call_of q"] assms(1) call rest_story_intros(2) by simp
  have e: "ae_operation (issue_failure ?o v stage) = ?o" "ae_status (issue_failure ?o v stage) = u ''error''" for stage
    by (simp_all add: issue_failure_def)
  have fl: "failing [Issue_Call v] (issue_failure ?o v stage)" for stage
    by (simp add: issue_failure_def failing_def failed_entry_def audit_entry_def)
  show ?case
    unfolding m
  proof (rule triple_unless_returned [OF triple_rest_call [where P = "served s q", OF served_Nil P]], simp add: e, goal_cases)
    case (1 result)
    show ?case
    proof (rule triple_bind [where R = "\<lambda>_. at (gs_policy s) [Issue_Call v] []"],
        rule triple_catching [where F = "\<lambda>_. at (gs_policy s) [Issue_Call v] []"], rule triple_lift, assumption, assumption,
        rule triple_ret, assumption, rule at_broken [where P = "served s q", OF P], assumption,
        rule triple_if, goal_cases)
      case (1 body)
      show ?case
        by (rule outcomeI [where P = "served s q", OF P triple_answer_then [OF triple_fail_stage]]) (simp_all add: e fl)
    next
      case (2 body)
      show ?case
        by (rule triple_ok_then [where P = "served s q", OF P _ _
            triple_unless_returned [OF triple_stream_step [where P = "served s q", OF P unobserved_streams(1)]]])
          (simp_all add: e fl triple_ok_entry [where P = "served s q", OF P] np)
    qed
  qed
qed (use assms(1) in blast)

section \<open>One connection\<close>

lemma handled_dispatch:
  fixes env :: "('c, 'w) broker_env" and pr :: "'g pr_transport option" and issue :: "'g issue_transport option"
  shows "handled (refusal_due env pr issue s (br_operation q)) s q (dispatch_request n (recording_env env) (recording_fetch upload)
     (map_option recording_push receive) (map_option recording_pr pr) (map_option recording_issue issue) q)"
proof -
  let ?o = "br_operation q" and ?due = "refusal_due env pr issue s (br_operation q)"
  let ?refuse = "bind (write_response (recording_env env) ''denied'') (\<lambda>_. ret 1)"
  have refuse: "handled due s q ?refuse" if "\<not> due" for due
    by (rule triple_pre [OF outcomeI [where P = "served s q" and calls = "[]", OF served_Nil triple_answer_then [OF triple_ret]]])
      (use that in \<open>auto simp: from_session_def intro: finished_silent [unfolded One_nat_def]\<close>)
  have not_due: "?o \<notin> PR_OPERATIONS \<union> ISSUE_OPERATIONS \<Longrightarrow> \<not> ?due"
    "?o \<in> PR_OPERATIONS \<Longrightarrow> pr = None \<Longrightarrow> \<not> ?due"
    "?o \<in> ISSUE_OPERATIONS \<Longrightarrow> issue = None \<Longrightarrow> \<not> ?due"
    by (auto simp: refusal_due_def PR_OPERATIONS_def ISSUE_OPERATIONS_def u_def)
  have taken: "?due \<longrightarrow> takes_records env \<and> \<not> gs_closed s" by (simp add: refusal_due_def)
  have git: "?o \<in> {u ''git-upload-pack'', u ''git-receive-pack''} \<Longrightarrow> \<not> ?due"
    using rest_not_push not_due(1) by blast
  show ?thesis
    unfolding dispatch_request_def Let_def
  proof (intro triple_if, goal_cases)
    case 1
    then show ?case using git by (intro handled_upload) auto
  next
    case 2
    then have nd: "\<not> ?due" using git by blast
    show ?case
    proof (cases receive)
      case None
      show ?thesis unfolding None option.map option.case by (rule refuse [OF nd])
    next
      case (Some t)
      show ?thesis unfolding Some option.map option.case by (rule handled_receive [OF 2(2) nd])
    qed
  next
    case 3
    show ?case
    proof (cases pr)
      case None
      show ?thesis unfolding None option.map option.case by (rule refuse) (use not_due(2) 3(3) None in simp)
    next
      case (Some t)
      show ?thesis unfolding Some option.map option.case by (rule handled_pull_request [OF 3(3)]) (use taken Some in simp)
    qed
  next
    case 4
    show ?case
    proof (cases issue)
      case None
      show ?thesis unfolding None option.map option.case by (rule refuse) (use not_due(3) 4(4) None in simp)
    next
      case (Some t)
      show ?thesis unfolding Some option.map option.case by (rule handled_issue [OF 4(4)]) (use taken Some in simp)
    qed
  next
    case 5
    then show ?case using not_due(1) by (intro refuse) blast
  qed
qed

text \<open>The connection, and what it was asked for.\<close>

lemma connection_outcome:
  assumes "handle_broker_connection n (recording_env env) (recording_fetch upload) (map_option recording_push receive)
      (map_option recording_pr pr) (map_option recording_issue issue)
      (([], g), \<lparr>cn_client = c, cn_session = s, cn_world = ([], w)\<rparr>)
    = (r, ((calls, g'), \<lparr>cn_client = c', cn_session = s', cn_world = (recs, w')\<rparr>))"
  shows "(calls = [] \<and> recs = [] \<and> (isl r \<or> r = Inr 1)
        \<and> isl (fst (read_request_frame (be_lim env) (sm_read (be_io env)) c))) \<or>
    (\<exists>q c1. read_request_frame (be_lim env) (sm_read (be_io env)) c = (Inr q, c1) \<and> served s q calls
      \<and> (\<forall>k. r = Inr k \<longrightarrow> accounted (refusal_due env pr issue s (br_operation q)) (gs_policy s) (br_operation q) calls k recs))"
proof -
  let ?st = "(([] :: remote_call list, g), \<lparr>cn_client = c, cn_session = s, cn_world = ([], w)\<rparr>)"
  let ?d = "dispatch_request n (recording_env env) (recording_fetch upload) (map_option recording_push receive)
     (map_option recording_pr pr) (map_option recording_issue issue)"
  obtain x c1 where read: "read_request_frame (be_lim env) (sm_read (be_io env)) c = (x, c1)" by fastforce
  let ?st1 = "(([] :: remote_call list, g), \<lparr>cn_client = c1, cn_session = s, cn_world = ([], w)\<rparr>)"
  have env: "be_lim (recording_env env) = be_lim env" "be_io (recording_env env) = be_io env"
    by (simp_all add: recording_env_def)
  have at1: "at (gs_policy s) [] [] ?st1" and from1: "from_session s ?st1" by (simp_all add: at_def from_session_def)
  have req: "client_request (recording_env env) None ?st = (x, ?st1)"
    by (simp add: client_request_def on_connection_def on_client_def env read)
  show ?thesis
  proof (cases x)
    case (Inr q)
    then have d: "?d q ?st1 = (r, ((calls, g'), \<lparr>cn_client = c', cn_session = s', cn_world = (recs, w')\<rparr>))"
      using assms req
      by (simp add: handle_broker_connection_def unless_returned_def going_on_def try_except_def bind_def ret_def)
    show ?thesis
    proof (cases r)
      case (Inl e)
      from triple_errorD [OF handled_dispatch d [unfolded Inl] from1]
      have "served s q calls" by (auto simp: broken_def left_def at_def)
      with read \<open>x = Inr q\<close> Inl show ?thesis by blast
    next
      case (Inr k)
      from tripleD [OF handled_dispatch d [unfolded Inr] from1]
      have "served s q calls" "accounted (refusal_due env pr issue s (br_operation q)) (gs_policy s) (br_operation q) calls k recs"
        by (auto simp: outcome_def finished_def at_def)
      with read \<open>x = Inr q\<close> Inr show ?thesis by blast
    qed
  next
    case (Inl e)
    show ?thesis
    proof (cases "stream_failure e")
      case True
      have refusal: "triple (at (gs_policy s) [] []) (bind (write_response (recording_env env) ''denied'') (\<lambda>_. ret 1))
          (\<lambda>k st. k = 1 \<and> at (gs_policy s) [] [] st) (\<lambda>_. at (gs_policy s) [] [])"
        by (rule triple_bind [OF unobservedD [OF unobserved_write_response]], rule triple_ret) simp
      have run: "bind (write_response (recording_env env) ''denied'') (\<lambda>_. ret 1) ?st1
          = (r, ((calls, g'), \<lparr>cn_client = c', cn_session = s', cn_world = (recs, w')\<rparr>))"
        using assms req Inl True
        by (auto simp: handle_broker_connection_def unless_returned_def going_on_def returning_def try_except_def
            bind_def ret_def split: prod.splits sum.splits)
      have "calls = [] \<and> recs = [] \<and> (isl r \<or> r = Inr 1)"
      proof (cases r)
        case (Inl e')
        from triple_errorD [OF refusal run [unfolded Inl] at1] Inl show ?thesis by (simp add: at_def)
      next
        case (Inr k)
        from tripleD [OF refusal run [unfolded Inr] at1] Inr show ?thesis by (simp add: at_def)
      qed
      then show ?thesis using read Inl by simp
    next
      case False
      then show ?thesis
        using assms req Inl read
        by (auto simp: handle_broker_connection_def unless_returned_def going_on_def try_except_def bind_def ret_def raise_def)
    qed
  qed
qed

section \<open>A run\<close>

lemma write_whole: "write_fully (\<lambda>b. Pair (Inr (WInt (int (length b))))) frame label s = (Inr (), s)"
proof (cases "frame = []")
  case True
  then show ?thesis by (simp add: write_fully_def write_loop.simps [of _ _ "[]"])
next
  case False
  then show ?thesis by (simp add: write_fully_def write_loop.simps [of _ _ frame])
qed

definition demo_session :: BrokerSession where
  "demo_session = new_session demo_policy (u ''r1'') (u ''c'')"

text \<open>A client whose stream takes every write, and a GitHub that knows pull request 7.\<close>

definition demo_env :: "(sock, unit) broker_env" where
  "demo_env = \<lparr>be_lim = 2,
     be_io = \<lparr>sm_read = sock_read, sm_write = (\<lambda>b s. (Inr (WInt (int (length b))), s)),
       sm_flush = (\<lambda>s. (Inr (), s)), sm_close = (\<lambda>s. (Inr (), s))\<rparr>,
     be_now = (\<lambda>_. u ''now''), be_log = (\<lambda>_. ret ()), be_label = u ''run''\<rparr>"

definition demo_pr :: "unit pr_transport" where
  "demo_pr = \<lparr>pt_create = (\<lambda>_ _ _ _. ret []), pt_view = (\<lambda>n. ret [(u ''number'', JInt n)]), pt_checks = (\<lambda>n. ret [])\<rparr>"

definition demo_git :: "unit git_transport" where
  "demo_git = \<lparr>gt_discover = ret [], gt_rpc = (\<lambda>_. ended)\<rparr>"

lemma demo_gh_reads:
  "\<exists>cuts'. read_request_frame 2 sock_read \<lparr>sock_buf = demo_request_frame, sock_cuts = []\<rparr>
      = (Inr demo_request, \<lparr>sock_buf = [], sock_cuts = cuts'\<rparr>)"
proof -
  have e: "encode_frame REQUEST_SCHEMA (request_values demo_request) = Inr demo_request_frame"
    using gh_demo_request_encoded by (simp add: encode_request_frame_def)
  have d: "decode_request_frame 2 demo_request_frame = Inr (demo_request, length demo_request_frame)"
    using broker_request.decode_encoded [OF demo_request_sendable e, of "[]"] by (simp add: decode_request_frame_def)
  obtain t where "read_request_frame 2 sock_read \<lparr>sock_buf = demo_request_frame, sock_cuts = []\<rparr> = (Inr demo_request, t)"
    "sock_buf t = []"
    using sock_source.read_framed_content [of "\<lparr>sock_buf = demo_request_frame, sock_cuts = []\<rparr>" demo_request_frame "[]"
        "decode_request_frame 2" demo_request MAX_REQUEST_BYTES "''request''"] decode_request_frame_bounds [OF d] d
    by (auto simp: read_request_frame_def)
  then show ?thesis by (cases t) auto
qed

lemma demo_answer: "\<exists>b. encode_response_frame \<lparr>bs_version = JInt 1, bs_status = u ''ok''\<rparr> = Inr b"
  by (simp add: encode_response_frame_def RESPONSE_STATUSES_def encode_frame_def response_values_def RESPONSE_SCHEMA_def
      MAX_RESPONSE_BYTES_def dump_opts_of_def json_eval utf8_char_def ascii_encode_def
      char_of_def bit_0 int_repr_def gh_small_int_eval dec_digits.simps digit_def)

lemma demo_body: "\<exists>b. response_body [(u ''number'', JInt 7)] = Inr b \<and> b \<noteq> [] \<and> length b \<le> 100"
  by (simp add: response_body_def response_opts_def json_eval utf8_char_def
      char_of_def bit_0 int_repr_def gh_small_int_eval dec_digits.simps digit_def)

lemma demo_acceptable: "acceptable demo_request demo_session"
  by (simp add: demo_session_def acceptable_def authentic_def demo_request_def new_session_def demo_policy_def
      compare_digest_def MAX_REQUEST_NONCE_def ALLOWED_OPERATIONS_def u_def)

lemma demo_payload: "validate_pr_payload (u ''pr-view'') [(u ''number'', JInt 7)] = Inr (Pr_Number 7)"
  by (simp add: validate_pr_payload_def)

lemma demo_operation: "u ''pr-view'' \<in> PR_OPERATIONS" "u ''pr-view'' \<in> ALLOWED_OPERATIONS"
  by (simp_all add: PR_OPERATIONS_def ALLOWED_OPERATIONS_def)

lemma demo_connection:
  "\<exists>c s rec. handle_broker_connection 1 (recording_env demo_env) (recording_fetch demo_git) (map_option recording_push None)
      (map_option recording_pr (Some demo_pr)) (map_option recording_issue None)
      (([], ()), \<lparr>cn_client = \<lparr>sock_buf = demo_request_frame, sock_cuts = []\<rparr>, cn_session = demo_session, cn_world = ([], ())\<rparr>)
    = (Inr 0, (([Pr_Call (u ''pr-view'') (Pr_Number 7)], ()), \<lparr>cn_client = c, cn_session = s, cn_world = ([rec], ())\<rparr>))"
proof -
  obtain cuts where rd: "read_request_frame 2 sock_read \<lparr>sock_buf = demo_request_frame, sock_cuts = []\<rparr>
      = (Inr demo_request, \<lparr>sock_buf = [], sock_cuts = cuts\<rparr>)" using demo_gh_reads by blast
  obtain f where f: "encode_response_frame \<lparr>bs_version = JInt 1, bs_status = u ''ok''\<rparr> = Inr f" using demo_answer by blast
  obtain b where b: "response_body [(u ''number'', JInt 7)] = Inr b" "b \<noteq> []" "length b \<le> 100" using demo_body by blast
  have pk: "\<exists>h. pack_u32 (length b) = Inr h \<and> length h = 4" using b(3) by (auto simp: pack_u32_def)
  obtain h where h: "pack_u32 (length b) = Inr h" "length h = 4" using pk by blast
  have n: "validate_pr_number (JInt 7) = Inr 7" by (simp add: validate_pr_number_def MAX_PR_NUMBER_def)
  note defs = handle_broker_connection_def unless_returned_def going_on_def try_except_def bind_def ret_def
    client_request_def on_connection_def on_client_def recording_env_def demo_env_def rd
  show ?thesis
    using f b h demo_acceptable demo_payload
    by (simp add: defs)
      (simp add: dispatch_request_def handle_pull_request_connection_def Let_def unless_returned_request,
       simp add: demo_request_def demo_operation,
       simp add: refusing_def authorize_operation_def authorize_request_def lift_def check_def defs try_stage_def
         call_pr_transport_def on_remote_def recording_pr_def demo_pr_def record_call_def authorize_accept
         demo_request_def demo_operation write_response_def PROTOCOL_VERSION_def MAX_PR_RESPONSE_BYTES_def
         send_chunks_def broker_write_chunk_stream_def write_chunk_stream_def write_whole MAX_STREAM_CHUNK_BYTES_def
         audit_call_def audit_def audit_record_def ret_def validate_operation_def failed_entry_def audit_entry_def
         AUDIT_STATUSES_def when_some_def result_number_def n check_bytes_def,
       simp add: acceptable_def authentic_def)
qed

section \<open>Properties\<close>

text \<open>
  C34. Whatever a client sends, whatever fails and however the two ends are cut, everything one
  connection does at GitHub is what one authorised request stands for: it carried the session's
  capability, project, a fresh number and an allowed operation; a fetch or push names the project's own
  repository; a pull request or Issue operation is the one call with the request's own arguments; and a
  push reaches GitHub only after the advertisement was read in the same connection and the whole
  request passed the gate against it, once.
\<close>

theorem remote_calls_authorised:
  assumes "handle_broker_connection n (recording_env env) (recording_fetch upload) (map_option recording_push receive)
      (map_option recording_pr pr) (map_option recording_issue issue)
      (([], g), \<lparr>cn_client = c, cn_session = s, cn_world = ([], w)\<rparr>)
    = (r, ((calls, g'), \<lparr>cn_client = c', cn_session = s', cn_world = (recs, w')\<rparr>))"
    and "calls \<noteq> []"
  shows "\<exists>q c1. read_request_frame (be_lim env) (sm_read (be_io env)) c = (Inr q, c1)
    \<and> acceptable q s \<and> story (gs_policy s) q calls"
  using connection_outcome [OF assms(1)] assms(2) by (auto simp: served_def)

theorem remote_calls_authorised_witness:
  "\<exists>q c1. read_request_frame 2 sock_read \<lparr>sock_buf = demo_request_frame, sock_cuts = []\<rparr> = (Inr q, c1)
    \<and> acceptable q demo_session \<and> story demo_policy q [Pr_Call (u ''pr-view'') (Pr_Number 7)]"
proof -
  obtain c s rec where "handle_broker_connection 1 (recording_env demo_env) (recording_fetch demo_git)
      (map_option recording_push None) (map_option recording_pr (Some demo_pr)) (map_option recording_issue None)
      (([], ()), \<lparr>cn_client = \<lparr>sock_buf = demo_request_frame, sock_cuts = []\<rparr>, cn_session = demo_session, cn_world = ([], ())\<rparr>)
    = (Inr 0, (([Pr_Call (u ''pr-view'') (Pr_Number 7)], ()), \<lparr>cn_client = c, cn_session = s, cn_world = ([rec], ())\<rparr>))"
    using demo_connection by blast
  from remote_calls_authorised [OF this] show ?thesis
    by (simp add: demo_env_def demo_session_def new_session_def)
qed

text \<open>
  C35. The audit file tells what happened. When the handler reports a connection as served, the request was
  read and calls were made; a push left exactly one \<open>ok\<close> record for each ref the gate let through, in order,
  and anything else exactly one \<open>ok\<close> record of its operation. When it reports a failure after a call at
  GitHub, there is exactly one record, an error of the operation, or a denial when a push was stopped between
  its discovery and its request. When it reports a failure without any call, a fetch or push left no record, and
  a pull request or Issue operation one denial, which may be missing only when the broker has no transport for
  it, the session is closed or the log does not take the record; a request that could not be read left none.
\<close>

theorem connections_accounted:
  assumes "handle_broker_connection n (recording_env env) (recording_fetch upload) (map_option recording_push receive)
      (map_option recording_pr pr) (map_option recording_issue issue)
      (([], g), \<lparr>cn_client = c, cn_session = s, cn_world = ([], w)\<rparr>)
    = (Inr k, ((calls, g'), \<lparr>cn_client = c', cn_session = s', cn_world = (recs, w')\<rparr>))"
  shows "case fst (read_request_frame (be_lim env) (sm_read (be_io env)) c) of
      Inl e \<Rightarrow> k = 1 \<and> calls = [] \<and> recs = []
    | Inr q \<Rightarrow>
        (let operation = br_operation q in
         if k = 0
         then calls \<noteq> [] \<and> recs \<noteq> [] \<and> (\<forall>r \<in> set recs. says r operation ''ok'')
           \<and> (if operation = u ''git-receive-pack'' then push_completed (gs_policy s) calls recs else length recs = 1)
         else k = 1
           \<and> (if calls = []
              then recs = [] \<and> \<not> refusal_due env pr issue s operation
                \<or> (\<exists>r. recs = [r] \<and> says r operation ''denied'') \<and> operation \<in> PR_OPERATIONS \<union> ISSUE_OPERATIONS
              else \<exists>r. recs = [r] \<and> (says r operation ''error'' \<or> says r operation ''denied'' \<and> push_stopped calls)))"
proof -
  obtain x c1 where read: "read_request_frame (be_lim env) (sm_read (be_io env)) c = (x, c1)" by fastforce
  show ?thesis
  proof (cases x)
    case (Inl e)
    with connection_outcome [OF assms] read show ?thesis by simp
  next
    case (Inr q)
    with connection_outcome [OF assms] read
    have "accounted (refusal_due env pr issue s (br_operation q)) (gs_policy s) (br_operation q) calls k recs" by simp
    then show ?thesis by (simp only: read Inr fst_conv sum.case Let_def accounted_def)
  qed
qed

theorem connections_accounted_witness:
  "\<exists>c s rec. handle_broker_connection 1 (recording_env demo_env) (recording_fetch demo_git) (map_option recording_push None)
      (map_option recording_pr (Some demo_pr)) (map_option recording_issue None)
      (([], ()), \<lparr>cn_client = \<lparr>sock_buf = demo_request_frame, sock_cuts = []\<rparr>, cn_session = demo_session, cn_world = ([], ())\<rparr>)
    = (Inr 0, (([Pr_Call (u ''pr-view'') (Pr_Number 7)], ()), \<lparr>cn_client = c, cn_session = s, cn_world = ([rec], ())\<rparr>))
    \<and> says rec (u ''pr-view'') ''ok''"
proof -
  obtain c s rec where run: "handle_broker_connection 1 (recording_env demo_env) (recording_fetch demo_git)
      (map_option recording_push None) (map_option recording_pr (Some demo_pr)) (map_option recording_issue None)
      (([], ()), \<lparr>cn_client = \<lparr>sock_buf = demo_request_frame, sock_cuts = []\<rparr>, cn_session = demo_session, cn_world = ([], ())\<rparr>)
    = (Inr 0, (([Pr_Call (u ''pr-view'') (Pr_Number 7)], ()), \<lparr>cn_client = c, cn_session = s, cn_world = ([rec], ())\<rparr>))"
    using demo_connection by blast
  obtain cuts where "read_request_frame 2 sock_read \<lparr>sock_buf = demo_request_frame, sock_cuts = []\<rparr>
      = (Inr demo_request, \<lparr>sock_buf = [], sock_cuts = cuts\<rparr>)" using demo_gh_reads by blast
  then have "fst (read_request_frame (be_lim demo_env) (sm_read (be_io demo_env)) \<lparr>sock_buf = demo_request_frame, sock_cuts = []\<rparr>)
      = Inr demo_request" by (simp add: demo_env_def)
  with connections_accounted [OF run] have "says rec (br_operation demo_request) ''ok''" by (simp add: Let_def)
  with run show ?thesis by (auto simp: demo_request_def)
qed

end
