(* ===== verification/Git_Helper.thy ===== *)
theory Git_Helper
  imports Github_Transport Broker_Files
begin

text \<open>
  The container's end of a fetch or a push: the clients of
  \<open>src/agent_container/github_broker_transport.py\<close>, which speak to the broker's socket, and the
  remote helper of \<open>git_remote_helper.py\<close>, which speaks to Git over its standard streams. The
  helper's transport has the state \<open>'g\<close>, its standard streams \<open>'s\<close>.
\<close>

section \<open>Requests of Git\<close>

definition MAX_STATELESS_REQUEST_BYTES :: nat where
  "MAX_STATELESS_REQUEST_BYTES = 16 * 1024 * 1024"

definition MAX_PUSH_REQUEST_BYTES :: nat where
  "MAX_PUSH_REQUEST_BYTES = 256 * 1024 * 1024"

definition MAX_STATELESS_PACKETS :: nat where
  "MAX_STATELESS_PACKETS = 65536"

text \<open>\<open>_read_exact\<close>: a read may return more than it was asked for; the surplus is kept.\<close>

function helper_read_exact :: "'s reader \<Rightarrow> nat \<Rightarrow> bool \<Rightarrow> bytes \<Rightarrow> ('s, bytes) prog" where
  "helper_read_exact rd sz allow_initial_eof chunks s =
     (if length chunks < sz then
        (case rd (sz - length chunks) s of
           (Inl e, s1) \<Rightarrow> (Inl e, s1)
         | (Inr None, s1) \<Rightarrow> (Inl TypeError, s1)
         | (Inr (Some chunk), s1) \<Rightarrow>
             if chunk = [] then
               (if allow_initial_eof \<and> chunks = [] then (Inr [], s1)
                else (Inl (ValueError ''Git stateless request is incomplete''), s1))
             else helper_read_exact rd sz allow_initial_eof (chunks @ chunk) s1)
      else (Inr chunks, s))"
  by pat_completeness auto
termination
  by (relation "measure (\<lambda>(rd, sz, i, chunks, s). sz - length chunks)") (auto simp flip: length_greater_0_conv)

declare helper_read_exact.simps [simp del]

text \<open>
  \<open>read_stateless_request\<close>: packets up to a flush packet; a delimiter packet has no payload.
  \<open>None\<close> is the end of the stream between two requests.
\<close>

function stateless_loop :: "'s reader \<Rightarrow> bytes \<Rightarrow> nat \<Rightarrow> ('s, bytes option) prog" where
  "stateless_loop rd output packets s =
     (case helper_read_exact rd 4 (output = []) [] s of
        (Inl e, s1) \<Rightarrow> (Inl e, s1)
      | (Inr header, s1) \<Rightarrow>
          if header = [] \<and> output = [] then (Inr None, s1)
          else if length header \<noteq> 4 \<or> \<not> hex_header header
          then (Inl (ValueError ''Git stateless request is invalid''), s1)
          else
            let len = hex_value header; extended = output @ header in
            if MAX_STATELESS_REQUEST_BYTES < length extended
            then (Inl (ValueError ''Git stateless request is too large''), s1)
            else if len = 0 then (Inr (Some extended), s1)
            else if len = 1 then
              (if MAX_STATELESS_PACKETS < packets + 1
               then (Inl (ValueError ''Git stateless request has too many packets''), s1)
               else stateless_loop rd extended (packets + 1) s1)
            else if len < 4 then (Inl (ValueError ''Git stateless request control packet is invalid''), s1)
            else if 65520 < len then (Inl (ValueError ''Git stateless request packet is too large''), s1)
            else
              (case helper_read_exact rd (len - 4) False [] s1 of
                 (Inl e, s2) \<Rightarrow> (Inl e, s2)
               | (Inr payload, s2) \<Rightarrow>
                   if MAX_STATELESS_REQUEST_BYTES < length (extended @ payload)
                   then (Inl (ValueError ''Git stateless request is too large''), s2)
                   else if MAX_STATELESS_PACKETS < packets + 1
                   then (Inl (ValueError ''Git stateless request has too many packets''), s2)
                   else stateless_loop rd (extended @ payload) (packets + 1) s2))"
  by pat_completeness auto
termination
  by (relation "measure (\<lambda>(rd, output, packets, s). MAX_STATELESS_REQUEST_BYTES - length output)") auto

declare stateless_loop.simps [simp del]

definition read_stateless_request :: "'s reader \<Rightarrow> ('s, bytes option) prog" where
  "read_stateless_request rd s = stateless_loop rd [] 0 s"

text \<open>Whether a push only deletes: such a push has no pack after its commands.\<close>

definition hex_oid :: "bytes \<Rightarrow> bool" where
  "hex_oid b \<longleftrightarrow> b \<noteq> [] \<and> list_all (\<lambda>c. unhex (of_char c) \<noteq> None) b"

definition deletion ::
  "nat option \<Rightarrow> bytes set \<Rightarrow> bytes \<Rightarrow> (nat \<times> bytes) option" where
  "deletion oid_len refs line =
     (case split_on (CHR '' '') line of
        [was, becomes, ref] \<Rightarrow>
          if length was \<notin> {40, 64} \<or> length becomes \<noteq> length was
            \<or> \<not> hex_oid was \<or> \<not> hex_oid becomes
            \<or> was = replicate (length was) (CHR ''0'')
            \<or> (case oid_len of None \<Rightarrow> False | Some n \<Rightarrow> length was \<noteq> n)
            \<or> becomes \<noteq> replicate (length becomes) (CHR ''0'')
            \<or> \<not> startswith ref ''refs/'' \<or> ref \<in> refs
          then None
          else Some (length was, ref)
      | _ \<Rightarrow> None)"

function delete_only_loop :: "bytes \<Rightarrow> nat \<Rightarrow> nat \<Rightarrow> nat option \<Rightarrow> bytes set \<Rightarrow> bool" where
  "delete_only_loop commands offset updates oid_len refs =
     (if length commands \<le> offset then False
      else
        let header = take 4 (drop offset commands); len = hex_value header; start = offset + 4 in
        if length header \<noteq> 4 \<or> \<not> hex_header header then False
        else if len = 0 then 0 < updates \<and> start = length commands
        else if len < 4 \<or> length commands < start + (len - 4) then False
        else
          let line = removesuffix [CHR 0x0A] (take (len - 4) (drop start commands));
              command = (if updates = 0 then takeWhile (\<lambda>c. c \<noteq> CHR 0x00) line else line) in
          if (if updates = 0 then count_list line (CHR 0x00) \<noteq> 1 else CHR 0x00 \<in> set line) then False
          else
            (case deletion oid_len refs command of
               None \<Rightarrow> False
             | Some (n, ref) \<Rightarrow>
                 delete_only_loop commands (start + (len - 4)) (updates + 1) (Some n) (insert ref refs)))"
  by pat_completeness auto
termination
  by (relation "measure (\<lambda>(commands, offset, updates, oid_len, refs). length commands - offset)") auto

declare delete_only_loop.simps [simp del]

definition is_delete_only_receive_pack :: "bytes \<Rightarrow> bool" where
  "is_delete_only_receive_pack commands = delete_only_loop commands 0 0 None {}"

definition read_receive_pack_request :: "'s reader \<Rightarrow> ('s, bytes) prog" where
  "read_receive_pack_request rd =
     bind (read_stateless_request rd) (\<lambda>commands.
       case commands of
         None \<Rightarrow> raise (ValueError ''Git receive-pack request is invalid'')
       | Some c \<Rightarrow>
           if is_delete_only_receive_pack c then ret c
           else
             bind (rd (MAX_PUSH_REQUEST_BYTES - length c + 1)) (\<lambda>pack.
               case pack of
                 None \<Rightarrow> raise TypeError
               | Some p \<Rightarrow>
                   if MAX_PUSH_REQUEST_BYTES < length (c @ p)
                   then raise (ValueError ''Git receive-pack request is invalid'')
                   else ret (c @ p)))"

section \<open>Answers for Git\<close>

text \<open>
  \<open>_connect_response\<close>: the generator over another one that turns the response-end packet back into
  the flush packet Git expects; it holds back the last four bytes.
\<close>

primrec connect_response :: "'g generator \<Rightarrow> bytes \<Rightarrow> 'g generator"
  and connect_turn :: "'g gen_turn \<Rightarrow> bytes \<Rightarrow> 'g \<Rightarrow> 'g gen_turn \<times> 'g" where
  "connect_response (Generator adv dis) =
     (\<lambda>tail. Generator (\<lambda>g. case (map_prod connect_turn id \<circ> adv) g of (k, g1) \<Rightarrow> k tail g1) dis)"
| "connect_turn Stopped =
     (\<lambda>tail g. if tail \<noteq> ''0002'' then (Raised (ValueError ''Git upload-pack response is invalid''), g)
               else (Yielded ''0000'' ended, g))"
| "connect_turn (Raised e) = (\<lambda>tail g. (Raised e, g))"
| "connect_turn (Yielded chunk k) =
     (\<lambda>tail g.
        let combined = tail @ chunk; n = length combined - 4 in
        if chunk = [] then (Raised (ValueError ''Git upload-pack response is invalid''), discard k g)
        else if 4 < length combined then (Yielded (take n combined) (connect_response k (drop n combined)), g)
        else advance (connect_response k combined) g)"

text \<open>The loop that hands an answer to Git.\<close>

definition hand_over :: "string \<Rightarrow> (bytes \<Rightarrow> ('s, unit) prog) \<Rightarrow> bytes \<Rightarrow> unit \<Rightarrow> ('s, unit) prog" where
  "hand_over service out chunk x =
     (if chunk = [] then raise (ValueError (''Git '' @ service @ '' response is invalid'')) else out chunk)"

definition on_streams :: "('s, 'a) prog \<Rightarrow> ('g \<times> 's, 'a) prog" where
  "on_streams m gs = (case m (snd gs) of (r, s) \<Rightarrow> (r, (fst gs, s)))"

definition on_transport :: "('g, 'a) prog \<Rightarrow> ('g \<times> 's, 'a) prog" where
  "on_transport m gs = (case m (fst gs) of (r, g) \<Rightarrow> (r, (g, snd gs)))"

record 's standard_streams =
  stdin_read :: "'s reader"
  stdout_write :: "bytes \<Rightarrow> ('s, unit) prog"
  stdout_flush :: "('s, unit) prog"

definition write_advertisement ::
  "'s standard_streams \<Rightarrow> string \<Rightarrow> nat \<Rightarrow> bytes \<Rightarrow> ('g \<times> 's, unit) prog" where
  "write_advertisement io service maximum advertisement =
     bind (check (advertisement \<noteq> [] \<and> length advertisement \<le> maximum)
       (ValueError (''Git '' @ service @ '' advertisement is invalid''))) (\<lambda>_.
     bind (on_streams (stdout_write io advertisement)) (\<lambda>_. on_streams (stdout_flush io)))"

text \<open>\<open>StatelessRemoteHelper.run\<close>; \<open>n\<close> bounds the requests of one session.\<close>

fun stateless_requests :: "nat \<Rightarrow> 's standard_streams \<Rightarrow> (bytes \<Rightarrow> 'g generator) \<Rightarrow> bool \<Rightarrow> ('g \<times> 's, nat) prog" where
  "stateless_requests 0 io rpc connect_mode = raise OutOfFuel"
| "stateless_requests (Suc n) io rpc connect_mode =
     bind (on_streams (read_stateless_request (stdin_read io))) (\<lambda>request.
       case request of
         None \<Rightarrow> ret 0
       | Some r \<Rightarrow>
           if connect_mode \<and> r = ''0000'' then ret 0
           else
             let chunks = (if connect_mode then connect_response (rpc r) [] else rpc r) in
             bind (for_each chunks (hand_over ''upload-pack'' (stdout_write io)) ()) (\<lambda>_.
             bind (on_streams (stdout_flush io)) (\<lambda>_.
             stateless_requests n io rpc connect_mode)))"

definition run_stateless_helper ::
  "nat \<Rightarrow> 's standard_streams \<Rightarrow> 'g git_transport \<Rightarrow> bool \<Rightarrow> ('g \<times> 's, nat) prog" where
  "run_stateless_helper n io transport connect_mode =
     bind (on_transport (gt_discover transport)) (\<lambda>advertisement.
     bind (write_advertisement io ''upload-pack'' 1048576 advertisement) (\<lambda>_.
     stateless_requests n io (gt_rpc transport) connect_mode))"

definition run_receive_pack_helper :: "'s standard_streams \<Rightarrow> 'g git_transport \<Rightarrow> ('g \<times> 's, nat) prog" where
  "run_receive_pack_helper io transport =
     bind (on_transport (gt_discover transport)) (\<lambda>advertisement.
     bind (write_advertisement io ''receive-pack'' (4 * 1024 * 1024) advertisement) (\<lambda>_.
     bind (on_streams (read_receive_pack_request (stdin_read io))) (\<lambda>request.
     bind (for_each (gt_rpc transport request) (hand_over ''receive-pack'' (stdout_write io)) ()) (\<lambda>_.
     bind (on_streams (stdout_flush io)) (\<lambda>_. ret 0)))))"

section \<open>The clients of the broker\<close>

text \<open>\<open>iter_chunk_stream\<close> as the generator it is; the arguments are those of \<open>iter_chunks\<close>.\<close>

function chunk_generator ::
  "(nat \<Rightarrow> bool \<Rightarrow> 'c \<Rightarrow> (exn + bytes) \<times> 'c) \<Rightarrow> nat \<Rightarrow> nat \<Rightarrow> string \<Rightarrow> bool \<Rightarrow> nat \<Rightarrow> 'c generator" where
  "chunk_generator rb maximum_total maximum_chunk label allow_initial_eof transferred =
     Generator (\<lambda>c.
       case rb HEADER_BYTES (allow_initial_eof \<and> transferred = 0) c of
         (Inl e, c1) \<Rightarrow> (Raised e, c1)
       | (Inr header, c1) \<Rightarrow>
           (if header = [] then (Stopped, c1)
            else if length header \<noteq> 4 then (Raised StructError, c1)
            else if unpack_u32 header = 0 then (Stopped, c1)
            else if maximum_chunk < unpack_u32 header
            then (Raised (FrameSizeError (label @ '' chunk is invalid'')), c1)
            else if maximum_total < transferred + unpack_u32 header
            then (Raised (FrameSizeError (label @ '' is too large'')), c1)
            else (case rb (unpack_u32 header) False c1 of
                (Inl e, c2) \<Rightarrow> (Raised e, c2)
              | (Inr chunk, c2) \<Rightarrow>
                  (Yielded chunk (chunk_generator rb maximum_total maximum_chunk label allow_initial_eof
                     (transferred + unpack_u32 header)), c2)))) id"
  by pat_completeness auto
termination
  by (relation "measure (\<lambda>(rb, mt, mc, l, i, tr). mt - tr)") auto

declare chunk_generator.simps [simp del]

definition client_chunks :: "'c stream_methods \<Rightarrow> nat \<Rightarrow> 'c generator" where
  "client_chunks io maximum_total =
     chunk_generator (\<lambda>n initial. read_exact (sm_read io) n ''broker stream'' initial) maximum_total
       MAX_STREAM_CHUNK_BYTES ''broker stream'' False 0"

text \<open>\<open>BrokerUploadPackClient.rpc\<close> and \<open>BrokerReceivePackClient.push\<close> on a connected stream.\<close>

definition client_call :: "'c stream_methods \<Rightarrow> nat \<Rightarrow> bytes \<Rightarrow> 'c generator" where
  "client_call io maximum_total request =
     starting
       (bind (check (request \<noteq> []) (ValueError ''Git broker request is invalid'')) (\<lambda>_.
        broker_write_chunk_stream (sm_write io) (sm_flush io) (slices MAX_STREAM_CHUNK_BYTES request)))
       (\<lambda>_. client_chunks io maximum_total)"

definition client_rpc :: "'c stream_methods \<Rightarrow> bytes \<Rightarrow> 'c generator" where
  "client_rpc io = client_call io MAX_UPLOAD_PACK_RESPONSE_BYTES"

definition client_push :: "'c stream_methods \<Rightarrow> bytes \<Rightarrow> 'c generator" where
  "client_push io = client_call io MAX_RECEIVE_PACK_RESPONSE_BYTES"

text \<open>
  \<open>_connect\<close> of the two clients, which differ in the operation and the size of the advertisement. The
  socket's calls are parameters; \<open>nonce\<close> is the random sequence number. The value is the
  advertisement that the client holds afterwards; a client that holds one does not connect again.
\<close>

record 'c socket_calls =
  ck_create :: "('c \<times> world, unit) prog"
  ck_settimeout :: "nat \<Rightarrow> ('c \<times> world, unit) prog"
  ck_connect :: "path \<Rightarrow> ('c \<times> world, unit) prog"
  ck_makefile :: "('c \<times> world, unit) prog"
  ck_close :: "('c \<times> world, unit) prog"

definition on_exception :: "('s, 'a) prog \<Rightarrow> ('s, unit) prog \<Rightarrow> ('s, 'a) prog" where
  "on_exception m c = try_except m (\<lambda>e. if e = Killed then raise e else bind c (\<lambda>_. raise e))"

definition request_advertisement ::
  "nat \<Rightarrow> 'c stream_methods \<Rightarrow> BrokerRequest \<Rightarrow> nat \<Rightarrow> ('c \<times> world, bytes) prog" where
  "request_advertisement lim io request maximum =
     bind (lift (encode_request_frame request)) (\<lambda>frame.
     bind (on_stream (sm_write io frame)) (\<lambda>_.
     bind (on_stream (sm_flush io)) (\<lambda>_.
     bind (on_stream (read_response_frame lim (sm_read io))) (\<lambda>response.
     bind (check (bs_status response = u ''ok'') (RuntimeError ''Git broker request was denied'')) (\<lambda>_.
     bind (on_stream (\<lambda>c.
       case broker_iter_chunk_stream (sm_read io) (int maximum) False c of
         (chunks, Inl e, c') \<Rightarrow> (Inl e, c')
       | (chunks, Inr _, c') \<Rightarrow> (Inr (concat chunks), c'))) (\<lambda>discovery.
     bind (check (discovery \<noteq> []) (RuntimeError ''Git broker discovery failed'')) (\<lambda>_.
     ret discovery)))))))"

definition client_connect ::
  "nat \<Rightarrow> 'c socket_calls \<Rightarrow> 'c stream_methods \<Rightarrow> path \<Rightarrow> path \<Rightarrow> pystr \<Rightarrow> pystr \<Rightarrow> int \<Rightarrow> string \<Rightarrow> nat
     \<Rightarrow> bytes option \<Rightarrow> ('c \<times> world, bytes) prog" where
  "client_connect lim sk io socket_path capability_path project_id repository nonce operation maximum held =
     (case held of
        Some discovery \<Rightarrow> ret discovery
      | None \<Rightarrow>
          bind (sys (validate_exact_path socket_path ''broker runtime path'')) (\<lambda>p.
          bind (sys (validate_socket p ''broker socket'')) (\<lambda>_.
          bind (sys (read_capability capability_path ''broker capability file'')) (\<lambda>capability.
          bind (ck_create sk) (\<lambda>_.
          bind (on_exception
            (bind (ck_settimeout sk 60) (\<lambda>_. bind (ck_connect sk socket_path) (\<lambda>_. ck_makefile sk)))
            (ck_close sk)) (\<lambda>_.
          on_exception
            (request_advertisement lim io
              \<lparr>br_version = PROTOCOL_VERSION, br_capability = capability, br_project_id = project_id,
               br_sequence = nonce, br_operation = u operation,
               br_payload = [(u ''repository'', JStr repository)]\<rparr> maximum)
            (bind (on_stream (sm_close io)) (\<lambda>_. ck_close sk))))))))"

definition upload_client_connect ::
  "nat \<Rightarrow> 'c socket_calls \<Rightarrow> 'c stream_methods \<Rightarrow> path \<Rightarrow> path \<Rightarrow> pystr \<Rightarrow> pystr \<Rightarrow> int \<Rightarrow> bytes option
     \<Rightarrow> ('c \<times> world, bytes) prog" where
  "upload_client_connect lim sk io socket_path capability_path project_id repository nonce held =
     client_connect lim sk io socket_path capability_path project_id repository nonce ''git-upload-pack''
       MAX_DISCOVERY_BYTES held"

definition receive_client_connect ::
  "nat \<Rightarrow> 'c socket_calls \<Rightarrow> 'c stream_methods \<Rightarrow> path \<Rightarrow> path \<Rightarrow> pystr \<Rightarrow> pystr \<Rightarrow> int \<Rightarrow> bytes option
     \<Rightarrow> ('c \<times> world, bytes) prog" where
  "receive_client_connect lim sk io socket_path capability_path project_id repository nonce held =
     client_connect lim sk io socket_path capability_path project_id repository nonce ''git-receive-pack''
       MAX_RECEIVE_PACK_ADVERTISEMENT_BYTES held"

end
