(* ===== verification/Fetch_Streams.thy ===== *)
theory Fetch_Streams
  imports Git_Helper
begin

text \<open>
  The bytes of a fetch on their way from GitHub to Git: the response is read in pieces, its last
  packet rewritten, cut into the chunks of the broker's socket, put together again in the container and
  the last packet rewritten back. Four components, each of which sees only the pieces.
\<close>

section \<open>From GitHub\<close>

text \<open>The reads of a response: non-empty pieces of at most the size asked for, then the end.\<close>

inductive delivers :: "'g http_stream \<Rightarrow> 'g \<Rightarrow> bytes \<Rightarrow> 'g \<Rightarrow> bool" for response where
  delivers_end: "st_read response READ_CHUNK_BYTES g = (Inr [], g1) \<Longrightarrow> delivers response g [] g1"
| delivers_more: "st_read response READ_CHUNK_BYTES g = (Inr c, g1) \<Longrightarrow> c \<noteq> [] \<Longrightarrow> length c \<le> READ_CHUNK_BYTES
    \<Longrightarrow> delivers response g1 b g2 \<Longrightarrow> delivers response g (c @ b) g2"

lemma upload_chunks_step:
  "advance (upload_chunks response transferred pending) g =
     (case st_read response READ_CHUNK_BYTES g of
         (Inl e, g1) \<Rightarrow> leave_transfer response (u ''upload-rpc'') (Inl e) g1
       | (Inr chunk, g1) \<Rightarrow>
           if chunk = [] then
             (if pending \<noteq> ''0000''
              then leave_transfer response (u ''upload-rpc'')
                     (Inl (ValueError ''GitHub upload-pack response is incomplete'')) g1
              else (Yielded ''0002'' (Generator (leave_transfer response (u ''upload-rpc'') (Inr ()))
                                       (drop_transfer response (u ''upload-rpc''))), g1))
           else if MAX_UPLOAD_PACK_RESPONSE_BYTES < transferred + length chunk
           then leave_transfer response (u ''upload-rpc'')
                  (Inl (ValueError ''GitHub upload-pack response is too large'')) g1
           else
             let buffered = pending @ chunk; n = length buffered - 4 in
             if 4 < length buffered
             then (Yielded (take n buffered) (upload_chunks response (transferred + length chunk) (drop n buffered)), g1)
             else advance (upload_chunks response (transferred + length chunk) buffered) g1)"
  by (subst upload_chunks.simps) simp

lemma upload_rewrites:
  "delivers response g b g1 \<Longrightarrow> transferred + length b \<le> MAX_UPLOAD_PACK_RESPONSE_BYTES \<Longrightarrow> length pending \<le> 4 \<Longrightarrow>
   pending @ b = content @ ''0000'' \<Longrightarrow> st_close response g1 = (Inr (), g2) \<Longrightarrow>
   \<exists>cs. drain (upload_chunks response transferred pending) g = (cs, Inr (), g2) \<and> concat cs = content @ ''0002''"
proof (induction arbitrary: transferred pending content rule: delivers.induct)
  case (delivers_end g g1)
  then have c: "content = []" "pending = ''0000''"
    by (auto simp: append_eq_append_conv2 dest: arg_cong [where f = length])
  have "drain (upload_chunks response transferred pending) g = ([''0002''], Inr (), g2)"
    using delivers_end c
    by (simp add: drain_step [of "upload_chunks _ _ _"] upload_chunks_step leave_transfer_def try_finally_def
        translate_def try_except_def lift_def close_http_response_def)
  with c show ?case by simp
next
  case (delivers_more g c g1 b g3)
  let ?buf = "pending @ c" and ?n = "length (pending @ c) - 4"
  have t: "transferred + length c + length b \<le> MAX_UPLOAD_PACK_RESPONSE_BYTES" using delivers_more.prems(1) by simp
  then have fits: "\<not> MAX_UPLOAD_PACK_RESPONSE_BYTES < transferred + length c" by simp
  show ?case
  proof (cases "4 < length ?buf")
    case True
    have "length ?buf + length b = length content + 4" using arg_cong [OF delivers_more.prems(3), of length] by simp
    then have n: "?n \<le> length content" by simp
    have d: "drop ?n ?buf @ b = drop ?n content @ ''0000''"
      using arg_cong [OF delivers_more.prems(3), of "drop ?n"] n True by (simp add: drop_append)
    have l: "length (drop ?n ?buf) \<le> 4" using True by (simp only: length_drop)
    obtain cs where cs: "drain (upload_chunks response (transferred + length c) (drop ?n ?buf)) g1 = (cs, Inr (), g2)"
      "concat cs = drop ?n content @ ''0002''"
      using delivers_more.IH [OF t l d delivers_more.prems(4)] by blast
    have "take ?n ?buf = take ?n content"
      using arg_cong [OF delivers_more.prems(3), of "take ?n"] n by simp
    moreover have "drain (upload_chunks response transferred pending) g = (take ?n ?buf # cs, Inr (), g2)"
      using delivers_more.hyps fits True cs(1)
      by (simp add: drain_step [of "upload_chunks _ transferred _"] upload_chunks_step Let_def)
    ultimately show ?thesis using cs(2) by simp
  next
    case False
    then obtain cs where cs: "drain (upload_chunks response (transferred + length c) ?buf) g1 = (cs, Inr (), g2)"
      "concat cs = content @ ''0002''"
      using delivers_more.IH [OF t, of ?buf content] delivers_more.prems by auto
    have "drain (upload_chunks response transferred pending) g = drain (upload_chunks response (transferred + length c) ?buf) g1"
      using delivers_more.hyps fits False
      by (simp add: drain_step [of "upload_chunks _ _ _"] upload_chunks_step [of _ transferred] Let_def)
    with cs show ?thesis by simp
  qed
qed

section \<open>Through the broker's socket\<close>

lemma for_each_success:
  "for_each k body a (g, s) = (Inr b, (g', s')) \<Longrightarrow>
     \<exists>cs. drain k g = (cs, Inr (), g') \<and> fold_prog body cs a s = (Inr b, s')"
  "for_each_turn t body a (g, s) = (Inr b, (g', s')) \<Longrightarrow>
     \<exists>cs. drain_turn t g = (cs, Inr (), g') \<and> fold_prog body cs a s = (Inr b, s')"
proof (induction k and t arbitrary: g a s and g a s)
  case (Generator adv dis)
  obtain t g1 where t: "adv g = (t, g1)" by fastforce
  then have r: "(t, g1) \<in> range adv" by (metis rangeI)
  show ?case using Generator.IH [OF r] Generator.prems t by (fastforce simp: prod_set_simps)
next
  case (Yielded chunk k)
  then obtain a' s1 where b: "body chunk a s = (Inr a', s1)" "for_each k body a' (g, s1) = (Inr b, (g', s'))"
    by (auto split: prod.split_asm sum.split_asm)
  from Yielded.IH [OF b(2)] b(1) show ?case by (fastforce simp: bind_def)
qed (auto simp: ret_def)

lemma fold_write_chunks:
  "fold_prog (write_one_chunk env) cs n s = (Inr m, s') \<Longrightarrow>
   write_chunks (sm_write (be_io env)) MAX_STREAM_CHUNK_BYTES ''broker stream'' n cs (cn_client s) = (Inr m, cn_client s')"
proof (induction cs arbitrary: n s)
  case (Cons c cs)
  then obtain k s1 where w: "write_one_chunk env c n s = (Inr k, s1)" "fold_prog (write_one_chunk env) cs k s1 = (Inr m, s')"
    by (auto simp: bind_def split: prod.split_asm sum.split_asm)
  from w(1) have "write_chunks (sm_write (be_io env)) MAX_STREAM_CHUNK_BYTES ''broker stream'' n [c] (cn_client s) = (Inr k, cn_client s1)"
    by (auto simp: write_one_chunk_def on_client_def split: prod.split_asm)
  with Cons.IH [OF w(2)] show ?case
    by (auto simp: bindS_def split: if_split_asm sum.split_asm prod.split_asm)
qed (simp add: ret_def)

lemma chunk_generator_drains:
  "drain (chunk_generator rb mt mc label i transferred) s = iter_chunks rb mt mc label i transferred s"
proof (induction rb mt mc label i transferred s rule: iter_chunks.induct)
  case (1 rb mt mc label i transferred s)
  then show ?case
    by (subst iter_chunks.simps, subst chunk_generator.simps)
       (auto split: prod.split sum.split)
qed

section \<open>To Git\<close>

lemma connect_response_step:
  "advance (connect_response k tail) g = (case advance k g of (t, g1) \<Rightarrow> connect_turn t tail g1)"
  by (cases k) (simp split: prod.split)

lemma connect_restores:
  "drain k g = (cs, Inr (), g') \<Longrightarrow> [] \<notin> set cs \<Longrightarrow> length tail \<le> 4 \<Longrightarrow> tail @ concat cs = content @ ''0002'' \<Longrightarrow>
     \<exists>cs'. drain (connect_response k tail) g = (cs', Inr (), g') \<and> concat cs' = content @ ''0000''"
  "drain_turn t g = (cs, Inr (), g') \<Longrightarrow> [] \<notin> set cs \<Longrightarrow> length tail \<le> 4 \<Longrightarrow> tail @ concat cs = content @ ''0002'' \<Longrightarrow>
     \<exists>cs'. (case connect_turn t tail g of (t', g1) \<Rightarrow> drain_turn t' g1) = (cs', Inr (), g') \<and> concat cs' = content @ ''0000''"
proof (induction k and t arbitrary: g cs tail content and g cs tail content)
  case (Generator adv dis)
  obtain t g1 where t: "adv g = (t, g1)" by fastforce
  then have r: "(t, g1) \<in> range adv" by (metis rangeI)
  have "drain_turn t g1 = (cs, Inr (), g')" using Generator.prems(1) t by simp
  from Generator.IH [OF r _ this Generator.prems(2-4)]
  have "\<exists>cs'. (case connect_turn t tail g1 of (t', g2) \<Rightarrow> drain_turn t' g2) = (cs', Inr (), g') \<and> concat cs' = content @ ''0000''"
    by (simp add: prod_set_simps)
  then show ?case using t by (simp add: drain_step [of "connect_response _ _"] connect_response_step del: connect_response.simps)
next
  case Stopped
  then have "content = []" "tail = ''0002''"
    by (auto simp: append_eq_append_conv2 dest: arg_cong [where f = length])
  with Stopped show ?case by auto
next
  case (Yielded chunk k)
  then obtain cs1 where cs: "cs = chunk # cs1" "drain k g = (cs1, Inr (), g')"
    by (auto split: prod.split_asm)
  let ?buf = "tail @ chunk" and ?n = "length (tail @ chunk) - 4"
  have ne: "chunk \<noteq> []" "[] \<notin> set cs1" using Yielded.prems(2) cs(1) by auto
  have eq: "?buf @ concat cs1 = content @ ''0002''" using Yielded.prems(4) cs(1) by simp
  show ?case
  proof (cases "4 < length ?buf")
    case True
    have "length ?buf + length (concat cs1) = length content + 4" using arg_cong [OF eq, of length] by simp
    then have n: "?n \<le> length content" by simp
    have d: "drop ?n ?buf @ concat cs1 = drop ?n content @ ''0002''"
      using arg_cong [OF eq, of "drop ?n"] n by simp
    have l: "length (drop ?n ?buf) \<le> 4" using True by (simp only: length_drop)
    obtain cs' where cs': "drain (connect_response k (drop ?n ?buf)) g = (cs', Inr (), g')"
      "concat cs' = drop ?n content @ ''0000''"
      using Yielded.IH [OF cs(2) ne(2) l d] by blast
    have "take ?n ?buf = take ?n content" using arg_cong [OF eq, of "take ?n"] n by simp
    then have "take ?n ?buf @ concat cs' = content @ ''0000''" using cs'(2) by simp
    then show ?thesis using cs' ne True by (auto simp: Let_def intro!: exI [of _ "take ?n ?buf # cs'"])
  next
    case False
    then obtain cs' where "drain (connect_response k ?buf) g = (cs', Inr (), g')" "concat cs' = content @ ''0000''"
      using Yielded.IH [OF cs(2) ne(2) _ eq] by auto
    then show ?thesis using ne False by (auto simp: Let_def drain_step [of "connect_response _ _"])
  qed
qed simp

section \<open>Properties\<close>

lemma out_sink_bytes:
  assumes "sm_write (be_io env) = sink_write" and "sm_flush (be_io env) = sink_flush"
    and "send_generator env k (g, c) = (Inr n, (g', c'))" and "cn_client c = \<lparr>out_buf = [], out_cuts = oc\<rparr>"
  shows "\<exists>cs. drain k g = (cs, Inr (), g') \<and> n = sum_list (map length cs)
    \<and> (\<forall>x \<in> set cs. x \<noteq> [] \<and> length x \<le> MAX_STREAM_CHUNK_BYTES)
    \<and> out_buf (cn_client c') = concat (map (\<lambda>c. projr (pack_u32 (length c)) @ c) cs) @ replicate 4 (CHR 0x00)"
proof -
  obtain g1 c1 where f: "for_each k (write_one_chunk env) 0 (g, c) = (Inr n, (g1, c1))"
    and z: "on_connection (finish_chunk_stream env) (g1, c1) = (Inr (), (g', c'))"
    using assms(3) by (auto simp: send_generator_def bind_def ret_def split: prod.split_asm sum.split_asm)
  from for_each_success(1) [OF f] obtain cs where cs: "drain k g = (cs, Inr (), g1)"
    "fold_prog (write_one_chunk env) cs 0 c = (Inr n, c1)" by blast
  from z have g: "g1 = g'" and w: "write_fully sink_write (replicate 4 (CHR 0x00)) ''broker stream'' (cn_client c1)
      = (Inr (), cn_client c')"
    by (auto simp: on_connection_def finish_chunk_stream_def on_client_def write_all_def assms(1,2) sink_flush_def
        bindS_def split: prod.split_asm sum.split_asm)
  from sink_dest.write_chunks_sent [OF fold_write_chunks [OF cs(2), unfolded assms(1)]] sink_dest.write_fully_sent [OF w]
  show ?thesis using cs(1) g assms(4) by auto
qed

text \<open>
  C36. A fetch is transparent: when the broker has passed on GitHub's answer to a request, the
  container's client and helper give Git exactly the bytes GitHub sent, however GitHub's answer, the
  writes into the broker's socket and the reads from it are cut; what follows in the socket stays unread.
\<close>

theorem fetch_transparent:
  assumes "delivers response g (content @ ''0000'') g1" and "st_close response g1 = (Inr (), g2)"
    and "length content + 4 \<le> MAX_UPLOAD_PACK_RESPONSE_BYTES"
    and "sm_write (be_io env) = sink_write" and "sm_flush (be_io env) = sink_flush"
    and "send_generator env (upload_chunks response 0 []) (g, c) = (Inr n, (g', c'))"
    and "cn_client c = \<lparr>out_buf = [], out_cuts = oc\<rparr>" and "sm_read io = sock_read"
  shows "\<exists>cs t. drain (connect_response (client_chunks io MAX_UPLOAD_PACK_RESPONSE_BYTES) [])
      \<lparr>sock_buf = out_buf (cn_client c') @ rest, sock_cuts = ic\<rparr> = (cs, Inr (), t)
    \<and> concat cs = content @ ''0000'' \<and> sock_buf t = rest"
proof -
  obtain cs where cs: "drain (upload_chunks response 0 []) g = (cs, Inr (), g2)" "concat cs = content @ ''0002''"
    using upload_rewrites [OF assms(1), of 0 "[]" content g2] assms(2,3) by auto
  from out_sink_bytes [OF assms(4-7)] cs(1)
  have out: "out_buf (cn_client c') = concat (map (\<lambda>c. projr (pack_u32 (length c)) @ c) cs) @ replicate 4 (CHR 0x00)"
    and small: "\<forall>x \<in> set cs. x \<noteq> [] \<and> length x \<le> MAX_STREAM_CHUNK_BYTES" by auto
  have "length (concat cs) \<le> MAX_UPLOAD_PACK_RESPONSE_BYTES" unfolding cs(2) using assms(3) by simp
  then have total: "sum_list (map length cs) \<le> MAX_UPLOAD_PACK_RESPONSE_BYTES" by (simp add: length_concat)
  let ?s = "\<lparr>sock_buf = out_buf (cn_client c') @ rest, sock_cuts = ic\<rparr>"
  obtain t where "drain (client_chunks io MAX_UPLOAD_PACK_RESPONSE_BYTES) ?s = (cs, Inr (), t)" "sock_buf t = rest"
    using sock_source.iter_chunks_content [of ?s cs rest MAX_STREAM_CHUNK_BYTES 0 MAX_UPLOAD_PACK_RESPONSE_BYTES
        "''broker stream''" False] out small total
    by (auto simp: client_chunks_def chunk_generator_drains assms(8) MAX_STREAM_CHUNK_BYTES_def)
  moreover have "[] \<notin> set cs" using small by blast
  ultimately show ?thesis
    using connect_restores(1) [of "client_chunks io MAX_UPLOAD_PACK_RESPONSE_BYTES" ?s cs t "[]" content] cs(2) by auto
qed

text \<open>An answer in three pieces.\<close>

definition demo_response :: "bytes list http_stream" where
  "demo_response = \<lparr>st_status = Some 200, st_content_type = [],
     st_read = (\<lambda>n g. case g of [] \<Rightarrow> (Inr [], []) | piece # g' \<Rightarrow> (Inr piece, g')), st_close = (\<lambda>g. (Inr (), g))\<rparr>"

lemma demo_delivers: "delivers demo_response [''P'', ''ACK0'', ''000''] (''PACK'' @ ''0000'') []"
proof -
  have r: "st_read demo_response READ_CHUNK_BYTES (x # g) = (Inr x, g)" "st_read demo_response READ_CHUNK_BYTES [] = (Inr [], [])"
    for x g by (simp_all add: demo_response_def)
  have "delivers demo_response [''P'', ''ACK0'', ''000''] (''P'' @ ''ACK0'' @ ''000'' @ []) []"
    by (rule delivers_more [OF r(1)], simp, simp add: READ_CHUNK_BYTES_def,
        rule delivers_more [OF r(1)], simp, simp add: READ_CHUNK_BYTES_def,
        rule delivers_more [OF r(1)], simp, simp add: READ_CHUNK_BYTES_def, rule delivers_end [OF r(2)])
  then show ?thesis by simp
qed

definition demo_streams :: "sink stream_methods" where
  "demo_streams = \<lparr>sm_read = (\<lambda>n s. (Inr None, s)), sm_write = sink_write, sm_flush = sink_flush, sm_close = (\<lambda>s. (Inr (), s))\<rparr>"

definition demo_broker :: "(sink, unit) broker_env" where
  "demo_broker = \<lparr>be_lim = 0, be_io = demo_streams, be_now = (\<lambda>_. []), be_log = (\<lambda>_. ret ()), be_label = []\<rparr>"

lemma sink_whole:
  "write_fully sink_write frame label \<lparr>out_buf = b, out_cuts = []\<rparr> = (Inr (), \<lparr>out_buf = b @ frame, out_cuts = []\<rparr>)"
proof (cases "frame = []")
  case True
  then show ?thesis by (simp add: write_fully_def write_loop.simps [of _ _ "[]"])
next
  case False
  then show ?thesis by (simp add: write_fully_def write_loop.simps [of _ _ frame] sink_write_def)
qed

lemma demo_sent:
  "\<exists>n g c. send_generator demo_broker (upload_chunks demo_response 0 [])
      ([''P'', ''ACK0'', ''000''], \<lparr>cn_client = \<lparr>out_buf = [], out_cuts = []\<rparr>, cn_session = s, cn_world = ()\<rparr>)
    = (Inr n, (g, c))"
proof -
  obtain h1 where h1: "pack_u32 (Suc 0) = Inr h1" by (auto simp: pack_u32_def)
  obtain h3 where h3: "pack_u32 (Suc (Suc (Suc 0))) = Inr h3" by (auto simp: pack_u32_def)
  obtain h4 where h4: "pack_u32 (Suc (Suc (Suc (Suc 0)))) = Inr h4" by (auto simp: pack_u32_def)
  show ?thesis
    by (simp add: send_generator_def for_each_step upload_chunks_step demo_response_def demo_broker_def demo_streams_def
      write_one_chunk_def on_client_def bind_def ret_def Let_def MAX_UPLOAD_PACK_RESPONSE_BYTES_def
      MAX_STREAM_CHUNK_BYTES_def h1 h3 h4 sink_whole leave_transfer_def try_finally_def translate_def try_except_def
      lift_def close_http_response_def on_connection_def finish_chunk_stream_def write_all_def sink_flush_def)
qed

definition demo_reader :: "sock stream_methods" where
  "demo_reader = \<lparr>sm_read = sock_read, sm_write = (\<lambda>b s. (Inr WOther, s)), sm_flush = (\<lambda>s. (Inr (), s)),
     sm_close = (\<lambda>s. (Inr (), s))\<rparr>"

theorem fetch_transparent_witness:
  "\<exists>sent cs t. drain (connect_response (client_chunks demo_reader MAX_UPLOAD_PACK_RESPONSE_BYTES) [])
      \<lparr>sock_buf = sent @ ''next'', sock_cuts = [1, 2, 7]\<rparr> = (cs, Inr (), t)
    \<and> concat cs = ''PACK0000'' \<and> sock_buf t = ''next''"
proof -
  let ?s = "new_session demo_policy [] []"
  obtain n g c where sent: "send_generator demo_broker (upload_chunks demo_response 0 [])
      ([''P'', ''ACK0'', ''000''], \<lparr>cn_client = \<lparr>out_buf = [], out_cuts = []\<rparr>, cn_session = ?s, cn_world = ()\<rparr>)
    = (Inr n, (g, c))" using demo_sent by blast
  have "st_close demo_response [] = (Inr (), [])" by (simp add: demo_response_def)
  from fetch_transparent [OF demo_delivers this _ _ _ sent, of "[]" demo_reader "''next''" "[1, 2, 7]"]
  obtain cs t where "drain (connect_response (client_chunks demo_reader MAX_UPLOAD_PACK_RESPONSE_BYTES) [])
      \<lparr>sock_buf = out_buf (cn_client c) @ ''next'', sock_cuts = [1, 2, 7]\<rparr> = (cs, Inr (), t)
    \<and> concat cs = ''PACK'' @ ''0000'' \<and> sock_buf t = ''next''"
    by (auto simp: demo_broker_def demo_streams_def demo_reader_def MAX_UPLOAD_PACK_RESPONSE_BYTES_def)
  then show ?thesis by auto
qed

end
