(* ===== verification/Github_Rest.thy ===== *)
theory Github_Rest
  imports Github_Transport "HOL-Library.AList"
begin

text \<open>
  \<open>src/agent_container/github_pr.py\<close> and \<open>github_issue.py\<close>: the REST calls behind the pull request
  and Issue operations. The HTTP transport and the token provider are fields of the classes and
  parameters here; what comes back from GitHub is checked field by field, and only the checked
  fields go to the container. \<open>is_iso\<close> is \<open>datetime.fromisoformat\<close>: whether it accepts a text.
\<close>

section \<open>Requests\<close>

definition GITHUB_API :: pystr where
  "GITHUB_API = u ''https://api.github.com''"

record http_response =
  rs_status :: int
  rs_content_type :: pystr
  rs_body :: bytes

type_synonym 'g rest_transport =
  "pystr \<Rightarrow> pystr \<Rightarrow> (pystr \<times> pystr) list \<Rightarrow> bytes option \<Rightarrow> ('g, http_response) prog"

definition rest_headers :: "pystr \<Rightarrow> (pystr \<times> pystr) list" where
  "rest_headers token =
     [(u ''Accept'', u ''application/vnd.github+json''), (u ''Authorization'', u ''Bearer '' @ token),
      (u ''Content-Type'', u ''application/json''), (u ''X-GitHub-Api-Version'', u ''2026-03-10''),
      (u ''User-Agent'', u ''agent-container-github-broker'')]"

text \<open>
  \<open>_request\<close> of the two classes: one repetition with a new token after the answer 401. They differ in
  the exceptions of the transport that they translate, \<open>p\<close>, and in the stage.
\<close>

fun rest_attempts ::
  "'g token_provider \<Rightarrow> 'g rest_transport \<Rightarrow> (exn \<Rightarrow> bool) \<Rightarrow> pystr \<Rightarrow> pystr \<Rightarrow> pystr \<Rightarrow> bytes option \<Rightarrow> nat
     \<Rightarrow> ('g, http_response) prog" where
  "rest_attempts tokens http p stage meth url body 0 = raise OtherException"
| "rest_attempts tokens http p stage meth url body (Suc n) =
     bind (get_installation_token tokens) (\<lambda>token.
     bind (translate p (broker_stage_error stage) (http meth url (rest_headers token) body)) (\<lambda>response.
       if rs_status response \<noteq> 401 \<or> n = 0 then ret response
       else
         bind (invalidate_installation_token tokens) (\<lambda>_.
         rest_attempts tokens http p stage meth url body n)))"

definition repository_api :: "BrokerPolicy \<Rightarrow> pystr \<Rightarrow> pystr" where
  "repository_api policy path = GITHUB_API @ u ''/repos/'' @ slug (bp_repository policy) @ path"

definition pr_request ::
  "BrokerPolicy \<Rightarrow> 'g token_provider \<Rightarrow> 'g rest_transport \<Rightarrow> pystr \<Rightarrow> pystr \<Rightarrow> bytes option \<Rightarrow> ('g, http_response) prog" where
  "pr_request policy tokens http meth path body =
     rest_attempts tokens http (\<lambda>e. is_runtime_error e \<or> is_os_error e) (u ''pr-request'') meth
       (repository_api policy path) body 2"

definition issue_request ::
  "BrokerPolicy \<Rightarrow> 'g token_provider \<Rightarrow> 'g rest_transport \<Rightarrow> pystr \<Rightarrow> ('g, http_response) prog" where
  "issue_request policy tokens http path =
     rest_attempts tokens http (\<lambda>e. transport_failure e \<or> e = HttpException) (u ''issue-request'') (u ''GET'')
       (repository_api policy path) None 2"

definition json_content :: "http_response \<Rightarrow> bool" where
  "json_content response \<longleftrightarrow> strip (takeWhile (\<lambda>c. c \<noteq> 59) (rs_content_type response)) = u ''application/json''"

section \<open>Pull request responses\<close>

definition pr_response_error :: exn where
  "pr_response_error = ValueError ''GitHub pull request response is invalid''"

text \<open>
  \<open>json.loads\<close> without hooks: the last of several equal keys counts, and \<open>NaN\<close> and the infinities
  are floats, which none of the checks below accepts.
\<close>

definition last_wins :: pairs_hook where
  "last_wins kvs = Inr (JObj (foldl (\<lambda>d kv. AList.update (fst kv) (snd kv) d) [] kvs))"

definition pr_json_object :: "nat \<Rightarrow> http_response \<Rightarrow> int \<Rightarrow> exn + (pystr \<times> json) list" where
  "pr_json_object lim response expected =
     (if rs_status response \<noteq> expected
      then Inl (RuntimeError (''GitHub pull request request failed with HTTP '' @ map char_of (int_repr (rs_status response))))
      else if \<not> json_content response then Inl pr_response_error
      else
        bindE (reraise_if (\<lambda>e. e = UnicodeDecodeError \<or> e = JSONDecodeError) pr_response_error
          (bindE (utf8_decode (rs_body response)) (json_loads lim last_wins (\<lambda>w. Inr (JFloat 0 0))))) (\<lambda>payload.
        as_obj pr_response_error payload))"

definition stage_translated :: "string \<Rightarrow> exn + 'a \<Rightarrow> exn + 'a" where
  "stage_translated stage r = reraise_if (\<lambda>e. is_value_error e \<or> is_runtime_error e) (broker_stage_error (u stage)) r"

definition pr_validated_json :: "nat \<Rightarrow> http_response \<Rightarrow> int \<Rightarrow> exn + (pystr \<times> json) list" where
  "pr_validated_json lim response expected = stage_translated ''pr-request'' (pr_json_object lim response expected)"

definition str_of :: "exn \<Rightarrow> json option \<Rightarrow> exn + pystr" where
  "str_of e v = (case v of Some (JStr s) \<Rightarrow> Inr s | _ \<Rightarrow> Inl e)"

definition int_of_field :: "exn \<Rightarrow> json option \<Rightarrow> exn + int" where
  "int_of_field e v = (case v of Some (JInt i) \<Rightarrow> Inr i | _ \<Rightarrow> Inl e)"

definition pr_summary :: "(pystr \<times> json) list \<Rightarrow> exn + (pystr \<times> json) list" where
  "pr_summary payload =
     (let field = (\<lambda>k. map_of payload (u k)) in
      bindE (int_of_field pr_response_error (field ''number'')) (\<lambda>number.
      bindE (str_of pr_response_error (field ''state'')) (\<lambda>state.
      bindE (str_of pr_response_error (field ''title'')) (\<lambda>title.
      bindE (str_of pr_response_error (field ''html_url'')) (\<lambda>html_url.
      bindE (require (startswith html_url (u ''https://github.com/'')) pr_response_error) (\<lambda>_.
      bindE (validate_pr_number (JInt number)) (\<lambda>_.
      bindE (validate_pr_title (JStr title)) (\<lambda>_.
      Inr [(u ''number'', JInt number), (u ''state'', JStr state), (u ''title'', JStr title),
           (u ''url'', JStr html_url)]))))))))"

definition pr_validated_summary :: "(pystr \<times> json) list \<Rightarrow> exn + (pystr \<times> json) list" where
  "pr_validated_summary payload = reraise_if is_value_error (broker_stage_error (u ''pr-request'')) (pr_summary payload)"

section \<open>Pull request operations\<close>

definition create_opts :: dump_opts where
  "create_opts = \<lparr>d_ascii = True, d_sort = True, d_item = u '','', d_key = u '':'', d_indent = None\<rparr>"

definition pr_create ::
  "nat \<Rightarrow> BrokerPolicy \<Rightarrow> 'g token_provider \<Rightarrow> 'g rest_transport \<Rightarrow> pystr \<Rightarrow> pystr \<Rightarrow> pystr \<Rightarrow> pystr
     \<Rightarrow> ('g, (pystr \<times> json) list) prog" where
  "pr_create lim policy tokens http base head title body =
     bind (check (base = default_branch policy) (ValueError ''pull request base is not allowed'')) (\<lambda>_.
     bind (lift (validate_work_branch policy head)) (\<lambda>valid_head.
     bind (lift (validate_pr_title (JStr title))) (\<lambda>valid_title.
     bind (lift (validate_pr_body (JStr body))) (\<lambda>valid_body.
     bind (lift (bindE (json_dumps create_opts (JObj [(u ''base'', JStr base), (u ''body'', JStr valid_body),
         (u ''head'', JStr valid_head), (u ''title'', JStr valid_title)])) utf8_encode)) (\<lambda>request.
     bind (pr_request policy tokens http (u ''POST'') (u ''/pulls'') (Some request)) (\<lambda>response.
     lift (bindE (pr_validated_json lim response 201) pr_validated_summary)))))))"

definition pr_view ::
  "nat \<Rightarrow> BrokerPolicy \<Rightarrow> 'g token_provider \<Rightarrow> 'g rest_transport \<Rightarrow> int \<Rightarrow> ('g, (pystr \<times> json) list) prog" where
  "pr_view lim policy tokens http number =
     bind (lift (validate_pr_number (JInt number))) (\<lambda>n.
     bind (pr_request policy tokens http (u ''GET'') (u ''/pulls/'' @ int_repr n) None) (\<lambda>response.
     lift (bindE (pr_validated_json lim response 200) pr_validated_summary)))"

definition commit_sha :: "(pystr \<times> json) list \<Rightarrow> exn + pystr" where
  "commit_sha pull =
     (case map_of pull (u ''head'') of
        Some (JObj head) \<Rightarrow>
          bindE (str_of pr_response_error (map_of head (u ''sha''))) (\<lambda>sha.
            if length sha \<notin> {40, 64} \<or> list_ex (\<lambda>c. \<not> is_lower_hex c) sha then Inl pr_response_error else Inr sha)
      | _ \<Rightarrow> Inl pr_response_error)"

definition check_error :: exn where
  "check_error = ValueError ''GitHub check response is invalid''"

text \<open>\<open>run.get(''conclusion'')\<close> may be missing or \<open>null\<close>.\<close>

definition check_run :: "json \<Rightarrow> exn + json" where
  "check_run run =
     bindE (as_obj check_error run) (\<lambda>fields_of_run.
     bindE (str_of check_error (map_of fields_of_run (u ''name''))) (\<lambda>name.
     bindE (str_of check_error (map_of fields_of_run (u ''status''))) (\<lambda>status.
     bindE (case map_of fields_of_run (u ''conclusion'') of
              None \<Rightarrow> Inr JNull | Some JNull \<Rightarrow> Inr JNull | Some (JStr s) \<Rightarrow> Inr (JStr s) | _ \<Rightarrow> Inl check_error) (\<lambda>conclusion.
     Inr (JObj [(u ''name'', JStr name), (u ''status'', JStr status), (u ''conclusion'', conclusion)])))))"

definition check_runs :: "(pystr \<times> json) list \<Rightarrow> exn + json list" where
  "check_runs checks =
     (case map_of checks (u ''check_runs'') of
        Some (JList runs) \<Rightarrow> if 100 < length runs then Inl check_error else mapE check_run runs
      | _ \<Rightarrow> Inl check_error)"

definition pr_checks_inner ::
  "nat \<Rightarrow> BrokerPolicy \<Rightarrow> 'g token_provider \<Rightarrow> 'g rest_transport \<Rightarrow> int \<Rightarrow> ('g, (pystr \<times> json) list) prog" where
  "pr_checks_inner lim policy tokens http number =
     bind (pr_request policy tokens http (u ''GET'') (u ''/pulls/'' @ int_repr number) None) (\<lambda>response.
     bind (lift (bindE (pr_validated_json lim response 200) commit_sha)) (\<lambda>sha.
     bind (pr_request policy tokens http (u ''GET'') (u ''/commits/'' @ sha @ u ''/check-runs'') None) (\<lambda>response'.
     bind (lift (bindE (pr_validated_json lim response' 200) check_runs)) (\<lambda>output.
     ret [(u ''number'', JInt number), (u ''checks'', JList output)]))))"

definition pr_checks ::
  "nat \<Rightarrow> BrokerPolicy \<Rightarrow> 'g token_provider \<Rightarrow> 'g rest_transport \<Rightarrow> int \<Rightarrow> ('g, (pystr \<times> json) list) prog" where
  "pr_checks lim policy tokens http number =
     bind (lift (validate_pr_number (JInt number))) (\<lambda>n.
     translate is_value_error (broker_stage_error (u ''pr-request'')) (pr_checks_inner lim policy tokens http n))"

definition pr_transport_of ::
  "nat \<Rightarrow> BrokerPolicy \<Rightarrow> 'g token_provider \<Rightarrow> 'g rest_transport \<Rightarrow> 'g pr_transport" where
  "pr_transport_of lim policy tokens http =
     \<lparr>pt_create = pr_create lim policy tokens http, pt_view = pr_view lim policy tokens http,
      pt_checks = pr_checks lim policy tokens http\<rparr>"

section \<open>Issue responses\<close>

definition issue_response_error :: exn where
  "issue_response_error = ValueError ''GitHub Issue response is invalid''"

definition issue_json :: "nat \<Rightarrow> http_response \<Rightarrow> int \<Rightarrow> exn + json" where
  "issue_json lim response expected =
     (if MAX_ISSUE_RESPONSE_BYTES < length (rs_body response) \<or> rs_status response \<noteq> expected
      then Inl (RuntimeError ''GitHub Issue request failed'')
      else if \<not> json_content response then Inl issue_response_error
      else reraise_if (\<lambda>e. is_value_error e \<or> e = RecursionError) issue_response_error
        (bindE (utf8_decode (rs_body response))
          (json_loads lim (build_object issue_response_error []) (\<lambda>w. Inl issue_response_error))))"

definition issue_text :: "nat \<Rightarrow> bool \<Rightarrow> bool \<Rightarrow> json option \<Rightarrow> exn + pystr" where
  "issue_text maximum_bytes allow_empty allow_newline v =
     bindE (str_of issue_response_error v) (\<lambda>s.
       if s = [] \<and> \<not> allow_empty then Inl issue_response_error
       else
         bindE (reraise_if (\<lambda>e. e = UnicodeEncodeError) issue_response_error (utf8_encode s)) (\<lambda>b.
           if maximum_bytes < length b then Inl issue_response_error
           else if list_ex (\<lambda>c. c = 127 \<or> c < 32 \<and> \<not> (allow_newline \<and> c \<in> {10, 9})) s
           then Inl issue_response_error
           else Inr s))"

text \<open>The pattern \<open>_UTC_TIMESTAMP\<close>: fixed columns, then an optional fraction, then \<open>Z\<close>.\<close>

definition utc_timestamp :: "pystr \<Rightarrow> bool" where
  "utc_timestamp s \<longleftrightarrow> 20 \<le> length s \<and> last s = 90
     \<and> list_all2 (\<lambda>t c. if t = CHR ''9'' then is_digit c else c = of_char t) ''9999-99-99T99:99:99'' (take 19 s)
     \<and> (let fraction = drop 19 (butlast s) in
          fraction = [] \<or> hd fraction = 46 \<and> tl fraction \<noteq> [] \<and> list_all is_digit (tl fraction))"

definition issue_timestamp :: "(pystr \<Rightarrow> bool) \<Rightarrow> json option \<Rightarrow> exn + pystr" where
  "issue_timestamp is_iso v =
     bindE (str_of issue_response_error v) (\<lambda>s.
       if \<not> utc_timestamp s \<or> \<not> is_iso (removesuffix (u ''Z'') s @ u ''+00:00'')
       then Inl issue_response_error else Inr s)"

definition issue_author :: "json \<Rightarrow> exn + json" where
  "issue_author v =
     (case v of
        JNull \<Rightarrow> Inr JNull
      | JObj user \<Rightarrow> bindE (issue_text MAX_ISSUE_RESPONSE_BYTES False False (map_of user (u ''login''))) (\<lambda>s. Inr (JStr s))
      | _ \<Rightarrow> Inl issue_response_error)"

definition issue_labels :: "json option \<Rightarrow> exn + json" where
  "issue_labels v =
     (case v of
        Some (JList labels) \<Rightarrow>
          if 100 < length labels then Inl issue_response_error
          else
            bindE (mapE (\<lambda>label. case label of
                JObj fields_of_label \<Rightarrow>
                  bindE (issue_text 100 False False (map_of fields_of_label (u ''name''))) (\<lambda>s. Inr (JStr s))
              | _ \<Rightarrow> Inl issue_response_error) labels) (\<lambda>names. Inr (JList names))
      | _ \<Rightarrow> Inl issue_response_error)"

text \<open>\<open>payload.get(''number'')\<close> of a missing key is \<open>None\<close>.\<close>

definition get_json :: "(pystr \<times> json) list \<Rightarrow> string \<Rightarrow> json" where
  "get_json payload k = (case map_of payload (u k) of None \<Rightarrow> JNull | Some v \<Rightarrow> v)"

definition issue_summary :: "(pystr \<Rightarrow> bool) \<Rightarrow> BrokerPolicy \<Rightarrow> (pystr \<times> json) list \<Rightarrow> exn + (pystr \<times> json) list" where
  "issue_summary is_iso policy payload =
     (let field = (\<lambda>k. map_of payload (u k)) in
      bindE (require (field ''user'' \<noteq> None) issue_response_error) (\<lambda>_.
      bindE (validate_issue_number (get_json payload ''number'')) (\<lambda>number.
      bindE (issue_text 256 False False (field ''title'')) (\<lambda>title.
      bindE (issue_timestamp is_iso (field ''created_at'')) (\<lambda>created_at.
      bindE (issue_timestamp is_iso (field ''updated_at'')) (\<lambda>updated_at.
      bindE (str_of issue_response_error (field ''state'')) (\<lambda>state.
      bindE (require (state \<in> {u ''open'', u ''closed''}) issue_response_error) (\<lambda>_.
      bindE (str_of issue_response_error (field ''html_url'')) (\<lambda>html_url.
      bindE (require (html_url = u ''https://github.com/'' @ slug (bp_repository policy) @ u ''/issues/'' @ int_repr number)
        issue_response_error) (\<lambda>_.
      bindE (issue_author (get_json payload ''user'')) (\<lambda>author.
      bindE (issue_labels (field ''labels'')) (\<lambda>labels.
      Inr [(u ''number'', JInt number), (u ''title'', JStr title), (u ''state'', JStr state),
           (u ''author'', author), (u ''labels'', labels), (u ''created_at'', JStr created_at),
           (u ''updated_at'', JStr updated_at), (u ''url'', JStr html_url)]))))))))))))"

section \<open>Issue operations\<close>

fun open_issues :: "(pystr \<Rightarrow> bool) \<Rightarrow> BrokerPolicy \<Rightarrow> json list \<Rightarrow> exn + json list" where
  "open_issues is_iso policy [] = Inr []"
| "open_issues is_iso policy (item # items) =
     (case item of
        JObj payload \<Rightarrow>
          if map_of payload (u ''pull_request'') \<noteq> None then open_issues is_iso policy items
          else
            bindE (issue_summary is_iso policy payload) (\<lambda>summary.
            bindE (require (map_of summary (u ''state'') = Some (JStr (u ''open''))) issue_response_error) (\<lambda>_.
            bindE (open_issues is_iso policy items) (\<lambda>rest. Inr (JObj summary # rest))))
      | _ \<Rightarrow> Inl issue_response_error)"

definition LIST_PATH :: pystr where
  "LIST_PATH = u ''/issues?state=open&per_page=30&sort=created&direction=desc''"

definition issue_listing :: "(pystr \<Rightarrow> bool) \<Rightarrow> BrokerPolicy \<Rightarrow> json \<Rightarrow> exn + (pystr \<times> json) list" where
  "issue_listing is_iso policy payload =
     (case payload of
        JList items \<Rightarrow>
          if 30 < length items then Inl issue_response_error
          else bindE (open_issues is_iso policy items) (\<lambda>issues. Inr [(u ''issues'', JList issues)])
      | _ \<Rightarrow> Inl issue_response_error)"

text \<open>\<open>except BrokerStageError: raise; except (ValueError, RuntimeError): raise BrokerStageError(...)\<close>.\<close>

definition issue_failure_translated :: "('g, 'a) prog \<Rightarrow> ('g, 'a) prog" where
  "issue_failure_translated m =
     try_except m (\<lambda>e. case e of
        BrokerStageError stage \<Rightarrow> raise e
      | _ \<Rightarrow> raise (if is_value_error e \<or> is_runtime_error e then broker_stage_error (u ''issue-request'') else e))"

definition issue_list_open ::
  "nat \<Rightarrow> (pystr \<Rightarrow> bool) \<Rightarrow> BrokerPolicy \<Rightarrow> 'g token_provider \<Rightarrow> 'g rest_transport \<Rightarrow> ('g, (pystr \<times> json) list) prog" where
  "issue_list_open lim is_iso policy tokens http =
     issue_failure_translated
       (bind (issue_request policy tokens http LIST_PATH) (\<lambda>response.
        lift (bindE (issue_json lim response 200) (issue_listing is_iso policy))))"

definition issue_content :: "(pystr \<Rightarrow> bool) \<Rightarrow> BrokerPolicy \<Rightarrow> int \<Rightarrow> json \<Rightarrow> exn + (pystr \<times> json) list" where
  "issue_content is_iso policy number v =
     bindE (as_obj issue_response_error v) (\<lambda>payload.
     bindE (issue_summary is_iso policy payload) (\<lambda>summary.
     bindE (require (map_of summary (u ''number'') = Some (JInt number) \<and> map_of payload (u ''body'') \<noteq> None)
       issue_response_error) (\<lambda>_.
     bindE (issue_text (256 * 1024) True True
       (Some (case get_json payload ''body'' of JNull \<Rightarrow> JStr [] | body \<Rightarrow> body))) (\<lambda>body.
     Inr (summary @ [(u ''body'', JStr body)])))))"

definition issue_view ::
  "nat \<Rightarrow> (pystr \<Rightarrow> bool) \<Rightarrow> BrokerPolicy \<Rightarrow> 'g token_provider \<Rightarrow> 'g rest_transport \<Rightarrow> int \<Rightarrow> ('g, (pystr \<times> json) list) prog" where
  "issue_view lim is_iso policy tokens http number =
     bind (lift (validate_issue_number (JInt number))) (\<lambda>n.
     issue_failure_translated
       (bind (issue_request policy tokens http (u ''/issues/'' @ int_repr n)) (\<lambda>response.
        lift (bindE (issue_json lim response 200) (issue_content is_iso policy n)))))"

definition issue_transport_of ::
  "nat \<Rightarrow> (pystr \<Rightarrow> bool) \<Rightarrow> BrokerPolicy \<Rightarrow> 'g token_provider \<Rightarrow> 'g rest_transport \<Rightarrow> 'g issue_transport" where
  "issue_transport_of lim is_iso policy tokens http =
     \<lparr>it_list_open = issue_list_open lim is_iso policy tokens http,
      it_view = issue_view lim is_iso policy tokens http\<rparr>"

section \<open>A refused pull request\<close>

text \<open>
  \<open>create\<close> refuses a base other than the default branch with a \<open>ValueError\<close>, which the handler does
  not catch: the container gets no answer and the audit file no record.
\<close>

lemma pr_refusal_unanswered:
  assumes "acceptable q s" and "br_operation q = u ''pr-create''"
    and "validate_pr_payload (br_operation q) (br_payload q) = Inr (Pr_Create base head title body)"
    and "base \<noteq> default_branch policy"
  shows "\<exists>s'. handle_pull_request_connection env (pr_transport_of lim policy tokens http) (Some q)
      (g, \<lparr>cn_client = c, cn_session = s, cn_world = w\<rparr>)
    = (Inl (ValueError ''pull request base is not allowed''), (g, \<lparr>cn_client = c, cn_session = s', cn_world = w\<rparr>))"
  using assms
  by (simp add: handle_pull_request_connection_def unless_returned_def refusing_def going_on_def client_request_def
      authorize_operation_def authorize_request_def authorize_accept on_connection_def on_remote_def try_stage_def
      try_except_def bind_def ret_def check_def lift_def raise_def Let_def PR_OPERATIONS_def call_pr_transport_def
      pr_transport_of_def pr_create_def)

end
