(* ===== verification/Github_App.thy ===== *)
theory Github_App
  imports Github_Rest Broker_Runtime
begin

text \<open>
  \<open>src/agent_container/github_app.py\<close>: the installation tokens behind every call to GitHub. The
  clock, the signer and the HTTP transport are fields of the provider and parameters here, with the
  state \<open>'x\<close>; \<open>parse_iso\<close> is \<open>int(datetime.fromisoformat(s).timestamp())\<close>, \<open>None\<close> where it raises;
  \<open>float_eq m e i\<close> is Python's comparison of the float written as m times 10 to the e with the integer i.
\<close>

section \<open>Metadata\<close>

definition MAX_RESPONSE_BYTES :: nat where
  "MAX_RESPONSE_BYTES = 1048576"

definition TOKEN_REFRESH_MARGIN_SECONDS :: int where
  "TOKEN_REFRESH_MARGIN_SECONDS = 300"

definition TOKEN_PERMISSIONS :: "(pystr \<times> json) list" where
  "TOKEN_PERMISSIONS =
     [(u ''checks'', JStr (u ''read'')), (u ''contents'', JStr (u ''write'')), (u ''issues'', JStr (u ''read'')),
      (u ''metadata'', JStr (u ''read'')), (u ''pull_requests'', JStr (u ''write''))]"

record GitHubAppMetadata =
  am_client_id :: pystr
  am_installation_id :: int
  am_repository_id :: int
  am_private_key :: path

definition CLIENT_ID :: "pystr \<Rightarrow> bool" where
  "CLIENT_ID s \<longleftrightarrow> 8 \<le> length s \<and> length s \<le> 100 \<and> list_all is_alnum s"

definition app_error :: exn where
  "app_error = ValueError ''GitHub App metadata is invalid''"

definition json_duplicate :: exn where
  "json_duplicate = ValueError ''GitHub JSON is invalid''"

definition ensure_exact_private_file :: "path \<Rightarrow> path io" where
  "ensure_exact_private_file p =
     (if \<not> fst p then raise (ValueError ''GitHub App private path must be absolute'')
      else
        bind (translate (\<lambda>e. is_os_error e \<or> is_runtime_error e) (ValueError ''GitHub App private path is invalid'')
          (path_resolve True p)) (\<lambda>resolved.
        bind (check (resolved = p) (ValueError ''GitHub App private path must not contain symlinks'')) (\<lambda>_.
        ensure_private_file p)))"

definition positive_int :: "json \<Rightarrow> exn + int" where
  "positive_int v = (case v of JInt i \<Rightarrow> if 0 < i then Inr i else Inl app_error | _ \<Rightarrow> Inl app_error)"

definition metadata_of :: "nat \<Rightarrow> bytes \<Rightarrow> exn + pystr \<times> int \<times> int" where
  "metadata_of lim content =
     bindE (reraise_if (\<lambda>e. e = UnicodeDecodeError \<or> e = JSONDecodeError) app_error
       (bindE (utf8_decode content) (json_loads lim (build_object json_duplicate []) (\<lambda>w. Inl app_error)))) (\<lambda>payload.
     bindE (as_obj app_error payload) (\<lambda>kvs.
     bindE (require (set (map fst kvs) = {u ''client_id'', u ''installation_id'', u ''repository_id''}) app_error) (\<lambda>_.
     bindE (str_of app_error (map_of kvs (u ''client_id''))) (\<lambda>client_id.
     bindE (require (CLIENT_ID client_id) app_error) (\<lambda>_.
     bindE (positive_int (get_json kvs ''installation_id'')) (\<lambda>installation_id.
     bindE (positive_int (get_json kvs ''repository_id'')) (\<lambda>repository_id.
     Inr (client_id, installation_id, repository_id))))))))"

definition load_metadata :: "nat \<Rightarrow> path \<Rightarrow> path \<Rightarrow> GitHubAppMetadata io" where
  "load_metadata lim metadata_path private_key =
     bind (ensure_exact_private_file metadata_path) (\<lambda>_.
     bind (ensure_exact_private_file private_key) (\<lambda>_.
     bind (path_read_bytes metadata_path) (\<lambda>content.
     bind (lift (metadata_of lim content)) (\<lambda>(client_id, installation_id, repository_id).
     bind (path_resolve True private_key) (\<lambda>resolved.
     ret \<lparr>am_client_id = client_id, am_installation_id = installation_id, am_repository_id = repository_id,
          am_private_key = resolved\<rparr>)))))"

section \<open>The signed request\<close>

type_synonym 'x signer = "bytes \<Rightarrow> path \<Rightarrow> ('x, bytes) prog"

definition jwt_part :: "(pystr \<times> json) list \<Rightarrow> exn + pystr" where
  "jwt_part vals = bindE (bindE (json_dumps create_opts (JObj vals)) ascii_encode) (\<lambda>b. Inr (base64url (map of_char b)))"

definition create_app_jwt :: "GitHubAppMetadata \<Rightarrow> 'x signer \<Rightarrow> int \<Rightarrow> ('x, pystr) prog" where
  "create_app_jwt metadata sign issued =
     bind (check (0 \<le> issued) (ValueError ''GitHub App clock is invalid'')) (\<lambda>_.
     bind (lift (jwt_part [(u ''alg'', JStr (u ''RS256'')), (u ''typ'', JStr (u ''JWT''))])) (\<lambda>header.
     bind (lift (jwt_part [(u ''exp'', JInt (issued + 540)), (u ''iat'', JInt (issued - 60)),
                           (u ''iss'', JStr (am_client_id metadata))])) (\<lambda>claims.
     bind (lift (ascii_encode (header @ u ''.'' @ claims))) (\<lambda>signing_input.
     bind (sign signing_input (am_private_key metadata)) (\<lambda>signature.
     bind (check (signature \<noteq> []) (RuntimeError ''GitHub App signing failed'')) (\<lambda>_.
     ret (header @ u ''.'' @ claims @ u ''.'' @ base64url (map of_char signature))))))))"

section \<open>Tokens\<close>

record InstallationToken =
  tk_token :: pystr
  tk_expires_at :: int

definition token_error :: exn where
  "token_error = ValueError ''GitHub App token response is invalid''"

definition parse_expiry :: "(pystr \<Rightarrow> int option) \<Rightarrow> json option \<Rightarrow> exn + int" where
  "parse_expiry parse_iso v =
     bindE (str_of token_error v) (\<lambda>s.
       if \<not> endswith s (u ''Z'') then Inl token_error
       else (case parse_iso (removesuffix (u ''Z'') s @ u ''+00:00'') of None \<Rightarrow> Inl token_error | Some t \<Rightarrow> Inr t))"

text \<open>\<open>v == i\<close> for a JSON value and an integer: \<open>True\<close> equals 1, a float may equal any integer.\<close>

definition equals_int :: "(int \<Rightarrow> int \<Rightarrow> int \<Rightarrow> bool) \<Rightarrow> json option \<Rightarrow> int \<Rightarrow> bool" where
  "equals_int float_eq v i =
     (case v of
        Some (JInt j) \<Rightarrow> j = i
      | Some (JBool b) \<Rightarrow> (if b then 1 else 0) = i
      | Some (JFloat m e) \<Rightarrow> float_eq m e i
      | _ \<Rightarrow> False)"

text \<open>Two objects without duplicate keys are equal when they have the same entries.\<close>

definition permissions_granted :: "json option \<Rightarrow> bool" where
  "permissions_granted v = (case v of Some (JObj kvs) \<Rightarrow> set kvs = set TOKEN_PERMISSIONS | _ \<Rightarrow> False)"

definition only_repository :: "(int \<Rightarrow> int \<Rightarrow> int \<Rightarrow> bool) \<Rightarrow> json option \<Rightarrow> int \<Rightarrow> bool" where
  "only_repository float_eq v repository_id =
     (case v of Some (JList [JObj kvs]) \<Rightarrow> equals_int float_eq (map_of kvs (u ''id'')) repository_id | _ \<Rightarrow> False)"

definition token_payload :: "nat \<Rightarrow> http_response \<Rightarrow> exn + (pystr \<times> json) list" where
  "token_payload lim response =
     (if \<not> (100 \<le> rs_status response \<and> rs_status response \<le> 599)
      then Inl (RuntimeError ''GitHub App token request failed'')
      else if rs_status response \<noteq> 201
      then Inl (RuntimeError (''GitHub App token request failed with HTTP '' @ map char_of (int_repr (rs_status response))))
      else if \<not> json_content response then Inl token_error
      else
        bindE (reraise_if (\<lambda>e. e = UnicodeDecodeError \<or> e = JSONDecodeError) token_error
          (bindE (utf8_decode (rs_body response)) (json_loads lim (build_object json_duplicate []) (\<lambda>w. Inl token_error))))
          (as_obj token_error))"

definition parse_token_response ::
  "nat \<Rightarrow> (pystr \<Rightarrow> int option) \<Rightarrow> (int \<Rightarrow> int \<Rightarrow> int \<Rightarrow> bool) \<Rightarrow> http_response \<Rightarrow> GitHubAppMetadata \<Rightarrow> int
     \<Rightarrow> exn + InstallationToken" where
  "parse_token_response lim parse_iso float_eq response metadata now =
     bindE (token_payload lim response) (\<lambda>payload.
     bindE (parse_expiry parse_iso (map_of payload (u ''expires_at''))) (\<lambda>expires_at.
     bindE (str_of token_error (map_of payload (u ''token''))) (\<lambda>token.
     bindE (require (16 \<le> length token \<and> length token \<le> 4096 \<and> list_all (\<lambda>c. 33 \<le> c \<and> c \<le> 126) token
         \<and> permissions_granted (map_of payload (u ''permissions''))
         \<and> only_repository float_eq (map_of payload (u ''repositories'')) (am_repository_id metadata)
         \<and> now + TOKEN_REFRESH_MARGIN_SECONDS < expires_at) token_error) (\<lambda>_.
     Inr \<lparr>tk_token = token, tk_expires_at = expires_at\<rparr>))))"

section \<open>The provider\<close>

type_synonym 'x token_transport = "pystr \<Rightarrow> (pystr \<times> pystr) list \<Rightarrow> bytes \<Rightarrow> ('x, http_response) prog"

record 'x token_parts =
  tp_clock :: "('x, int) prog"
  tp_sign :: "'x signer"
  tp_transport :: "'x token_transport"

type_synonym 'x provider_state = "InstallationToken option \<times> 'x"

definition token_request ::
  "GitHubAppMetadata \<Rightarrow> 'x token_parts \<Rightarrow> int \<Rightarrow> ('x, http_response) prog" where
  "token_request metadata parts now =
     bind (create_app_jwt metadata (tp_sign parts) now) (\<lambda>jwt.
     bind (lift (bindE (json_dumps create_opts
       (JObj [(u ''repository_ids'', JList [JInt (am_repository_id metadata)]), (u ''permissions'', JObj TOKEN_PERMISSIONS)]))
       ascii_encode)) (\<lambda>body.
     tp_transport parts
       (GITHUB_API @ u ''/app/installations/'' @ int_repr (am_installation_id metadata) @ u ''/access_tokens'')
       (rest_headers jwt) body))"

text \<open>The token that is still good for the margin.\<close>

definition cached_token :: "int \<Rightarrow> InstallationToken option \<Rightarrow> InstallationToken option" where
  "cached_token now cached =
     (case cached of
        Some token \<Rightarrow> if now + TOKEN_REFRESH_MARGIN_SECONDS < tk_expires_at token then Some token else None
      | None \<Rightarrow> None)"

definition provider_get ::
  "nat \<Rightarrow> (pystr \<Rightarrow> int option) \<Rightarrow> (int \<Rightarrow> int \<Rightarrow> int \<Rightarrow> bool) \<Rightarrow> GitHubAppMetadata \<Rightarrow> 'x token_parts
     \<Rightarrow> ('x provider_state, InstallationToken) prog" where
  "provider_get lim parse_iso float_eq metadata parts =
     bind (sys (tp_clock parts)) (\<lambda>now cx.
       case cached_token now (fst cx) of
         Some token \<Rightarrow> (Inr token, cx)
       | None \<Rightarrow>
           bind (sys (token_request metadata parts now)) (\<lambda>response.
           bind (lift (parse_token_response lim parse_iso float_eq response metadata now)) (\<lambda>fresh cx'.
             (Inr fresh, (Some fresh, snd cx')))) cx)"

definition provider_invalidate :: "('x provider_state, unit) prog" where
  "provider_invalidate cx = (Inr (), (None, snd cx))"

text \<open>The provider as the transports see it.\<close>

definition provider_of ::
  "nat \<Rightarrow> (pystr \<Rightarrow> int option) \<Rightarrow> (int \<Rightarrow> int \<Rightarrow> int \<Rightarrow> bool) \<Rightarrow> GitHubAppMetadata \<Rightarrow> 'x token_parts
     \<Rightarrow> 'x provider_state token_provider" where
  "provider_of lim parse_iso float_eq metadata parts =
     \<lparr>tp_get = bind (provider_get lim parse_iso float_eq metadata parts) (\<lambda>t. ret (tk_token t)),
      tp_invalidate = provider_invalidate\<rparr>"

section \<open>Any use of a provider\<close>

text \<open>What GitHub answered, and what the callers got.\<close>

datatype provider_event = Token_Asked int "exn + InstallationToken" | Token_Dropped

definition recording_parts :: "'x token_parts \<Rightarrow> (http_response list \<times> 'x) token_parts" where
  "recording_parts parts =
     \<lparr>tp_clock = (\<lambda>lx. case tp_clock parts (snd lx) of (r, x) \<Rightarrow> (r, (fst lx, x))),
      tp_sign = (\<lambda>content key lx. case tp_sign parts content key (snd lx) of (r, x) \<Rightarrow> (r, (fst lx, x))),
      tp_transport = (\<lambda>url headers body lx. case tp_transport parts url headers body (snd lx) of
         (Inl e, x) \<Rightarrow> (Inl e, (fst lx, x)) | (Inr response, x) \<Rightarrow> (Inr response, (fst lx @ [response], x)))\<rparr>"

inductive provider_run ::
  "nat \<Rightarrow> (pystr \<Rightarrow> int option) \<Rightarrow> (int \<Rightarrow> int \<Rightarrow> int \<Rightarrow> bool) \<Rightarrow> GitHubAppMetadata \<Rightarrow> 'x token_parts
     \<Rightarrow> (http_response list \<times> 'x) provider_state \<Rightarrow> provider_event list \<Rightarrow> bool"
  for lim parse_iso float_eq metadata parts where
  run_new: "provider_run lim parse_iso float_eq metadata parts (None, ([], x)) []"
| run_get: "provider_run lim parse_iso float_eq metadata parts cx events
    \<Longrightarrow> fst (sys (tp_clock (recording_parts parts)) cx) = Inr now
    \<Longrightarrow> provider_get lim parse_iso float_eq metadata (recording_parts parts) cx = (r, cx')
    \<Longrightarrow> provider_run lim parse_iso float_eq metadata parts cx' (events @ [Token_Asked now r])"
| run_invalidate: "provider_run lim parse_iso float_eq metadata parts cx events
    \<Longrightarrow> provider_run lim parse_iso float_eq metadata parts (snd (provider_invalidate cx)) (events @ [Token_Dropped])"
| run_outside: "provider_run lim parse_iso float_eq metadata parts (c, (log, x)) events
    \<Longrightarrow> provider_run lim parse_iso float_eq metadata parts (c, (log, x')) events"

definition granted_by ::
  "nat \<Rightarrow> (int \<Rightarrow> int \<Rightarrow> int \<Rightarrow> bool) \<Rightarrow> GitHubAppMetadata \<Rightarrow> http_response \<Rightarrow> InstallationToken \<Rightarrow> bool" where
  "granted_by lim float_eq metadata response token \<longleftrightarrow>
     rs_status response = 201
     \<and> (\<exists>payload. token_payload lim response = Inr payload
          \<and> map_of payload (u ''token'') = Some (JStr (tk_token token))
          \<and> permissions_granted (map_of payload (u ''permissions''))
          \<and> only_repository float_eq (map_of payload (u ''repositories'')) (am_repository_id metadata))"

lemma str_of_Inr: "str_of e v = Inr s \<longleftrightarrow> v = Some (JStr s)"
  by (auto simp: str_of_def split: option.splits json.splits)

lemma parsed_token_granted:
  assumes "parse_token_response lim parse_iso float_eq response metadata now = Inr token"
  shows "granted_by lim float_eq metadata response token" "now + TOKEN_REFRESH_MARGIN_SECONDS < tk_expires_at token"
proof -
  from assms obtain payload where p: "token_payload lim response = Inr payload" by (auto simp: parse_token_response_def err_simps)
  then have "rs_status response = 201" by (auto simp: token_payload_def split: if_split_asm)
  with assms p show "granted_by lim float_eq metadata response token" "now + TOKEN_REFRESH_MARGIN_SECONDS < tk_expires_at token"
    by (auto simp: parse_token_response_def granted_by_def err_simps str_of_Inr)
qed

lemma outside_keeps_cache: "sys m cx = (r, cx') \<Longrightarrow> fst cx' = fst cx"
  by (auto simp: sys_def split: prod.splits)

lemma cached_token_Some:
  "cached_token now c = Some t \<longleftrightarrow> c = Some t \<and> now + TOKEN_REFRESH_MARGIN_SECONDS < tk_expires_at t"
  by (auto simp: cached_token_def split: option.split)

text \<open>The signed request adds exactly its answer to the record.\<close>

lemma token_request_recorded:
  "token_request metadata (recording_parts parts) now (log, x) = (r, (log', x')) \<Longrightarrow>
     (case r of Inl e \<Rightarrow> log' = log | Inr response \<Rightarrow> log' = log @ [response])"
  by (auto simp: token_request_def create_app_jwt_def recording_parts_def bind_def lift_def check_def ret_def
      split: prod.splits sum.splits if_splits)

definition vouched ::
  "nat \<Rightarrow> (int \<Rightarrow> int \<Rightarrow> int \<Rightarrow> bool) \<Rightarrow> GitHubAppMetadata \<Rightarrow> http_response list \<Rightarrow> InstallationToken \<Rightarrow> bool" where
  "vouched lim float_eq metadata log token \<longleftrightarrow> (\<exists>response \<in> set log. granted_by lim float_eq metadata response token)"

lemma provider_get_vouched:
  assumes "provider_get lim parse_iso float_eq metadata (recording_parts parts) (c, (log, x)) = (r, (c', (log', x')))"
    and "fst (sys (tp_clock (recording_parts parts)) (c, (log, x))) = Inr now"
    and "\<forall>t. c = Some t \<longrightarrow> vouched lim float_eq metadata log t"
  shows "set log \<subseteq> set log'" and "\<forall>t. c' = Some t \<longrightarrow> vouched lim float_eq metadata log' t"
    and "\<forall>t. r = Inr t \<longrightarrow> vouched lim float_eq metadata log' t \<and> now + TOKEN_REFRESH_MARGIN_SECONDS < tk_expires_at t"
proof -
  obtain x1 where clock: "sys (tp_clock (recording_parts parts)) (c, (log, x)) = (Inr now, (c, (log, x1)))"
    using assms(2) by (auto simp: sys_def recording_parts_def split: prod.splits)
  have "set log \<subseteq> set log' \<and> (\<forall>t. c' = Some t \<longrightarrow> vouched lim float_eq metadata log' t)
    \<and> (\<forall>t. r = Inr t \<longrightarrow> vouched lim float_eq metadata log' t \<and> now + TOKEN_REFRESH_MARGIN_SECONDS < tk_expires_at t)"
  proof (cases "cached_token now c")
    case (Some t)
    with assms clock show ?thesis by (auto simp: provider_get_def bind_def cached_token_Some)
  next
    case None
    obtain q log2 x2 where req: "token_request metadata (recording_parts parts) now (log, x1) = (q, (log2, x2))"
      by (metis prod.exhaust)
    note rec = token_request_recorded [OF req]
    show ?thesis
    proof (cases q)
      case (Inl e)
      with assms clock None req rec show ?thesis by (auto simp: provider_get_def bind_def sys_def)
    next
      case (Inr response)
      show ?thesis
      proof (cases "parse_token_response lim parse_iso float_eq response metadata now")
        case (Inl e)
        with assms clock None req rec Inr show ?thesis
          by (auto simp: provider_get_def bind_def sys_def lift_def vouched_def)
      next
        case (Inr t)
        with assms clock None req rec \<open>q = Inr response\<close> parsed_token_granted [OF Inr] show ?thesis
          by (auto simp: provider_get_def bind_def sys_def lift_def vouched_def)
      qed
    qed
  qed
  then show "set log \<subseteq> set log'" "\<forall>t. c' = Some t \<longrightarrow> vouched lim float_eq metadata log' t"
    "\<forall>t. r = Inr t \<longrightarrow> vouched lim float_eq metadata log' t \<and> now + TOKEN_REFRESH_MARGIN_SECONDS < tk_expires_at t"
    by auto
qed

lemma vouched_mono: "vouched lim float_eq metadata log t \<Longrightarrow> set log \<subseteq> set log' \<Longrightarrow> vouched lim float_eq metadata log' t"
  by (auto simp: vouched_def)

definition provider_ok ::
  "nat \<Rightarrow> (int \<Rightarrow> int \<Rightarrow> int \<Rightarrow> bool) \<Rightarrow> GitHubAppMetadata \<Rightarrow> (http_response list \<times> 'x) provider_state \<Rightarrow> provider_event list \<Rightarrow> bool" where
  "provider_ok lim float_eq metadata cx events \<longleftrightarrow>
     (\<forall>t. fst cx = Some t \<longrightarrow> vouched lim float_eq metadata (fst (snd cx)) t)
     \<and> (\<forall>now t. Token_Asked now (Inr t) \<in> set events \<longrightarrow>
          vouched lim float_eq metadata (fst (snd cx)) t \<and> now + TOKEN_REFRESH_MARGIN_SECONDS < tk_expires_at t)"

lemma provider_run_ok:
  "provider_run lim parse_iso float_eq metadata parts cx events \<Longrightarrow> provider_ok lim float_eq metadata cx events"
proof (induction rule: provider_run.induct)
  case (run_get cx events now r cx')
  obtain c log x where cx: "cx = (c, (log, x))" by (metis prod.exhaust)
  obtain c' log' x' where cx': "cx' = (c', (log', x'))" by (metis prod.exhaust)
  have "\<forall>t. c = Some t \<longrightarrow> vouched lim float_eq metadata log t"
    using run_get.IH by (simp add: provider_ok_def cx)
  note kept = provider_get_vouched [OF run_get.hyps(3) [unfolded cx cx'] run_get.hyps(2) [unfolded cx] this]
  from kept(2) have cache: "\<forall>t. fst cx' = Some t \<longrightarrow> vouched lim float_eq metadata (fst (snd cx')) t" by (simp add: cx')
  show ?case
    unfolding provider_ok_def
  proof (intro conjI allI impI)
    fix moment t
    assume "Token_Asked moment (Inr t) \<in> set (events @ [Token_Asked now r])"
    then consider "Token_Asked moment (Inr t) \<in> set events" | "moment = now" "r = Inr t" by auto
    then show "vouched lim float_eq metadata (fst (snd cx')) t"
      using kept run_get.IH vouched_mono [OF _ kept(1)] by cases (auto simp: provider_ok_def cx cx')
    show "moment + TOKEN_REFRESH_MARGIN_SECONDS < tk_expires_at t"
      using \<open>Token_Asked moment (Inr t) \<in> set (events @ [Token_Asked now r])\<close> kept run_get.IH
      by (auto simp: provider_ok_def cx)
  qed (use cache in auto)
qed (auto simp: provider_ok_def provider_invalidate_def)

section \<open>An example\<close>

definition demo_app :: GitHubAppMetadata where
  "demo_app = \<lparr>am_client_id = u ''Iv1abcdefgh'', am_installation_id = 3, am_repository_id = 7,
     am_private_key = (True, [u ''k''])\<rparr>"

definition demo_grant :: json where
  "demo_grant = JObj [(u ''expires_at'', JStr (u ''2026-01-01T00:00:00Z'')), (u ''permissions'', JObj TOKEN_PERMISSIONS),
     (u ''repositories'', JList [JObj [(u ''id'', JInt 7)]]), (u ''token'', JStr (u ''tttttttttttttttt''))]"

definition demo_grant_text :: bytes where
  "demo_grant_text =
     ''{\"expires_at\":\"2026-01-01T00:00:00Z\",\"permissions\":{\"checks\":\"read\",\"contents\":\"write\",\"issues\":\"read\",''
     @ ''\"metadata\":\"read\",\"pull_requests\":\"write\"},\"repositories\":[{\"id\":7}],\"token\":\"tttttttttttttttt\"}''"

definition demo_grant_response :: http_response where
  "demo_grant_response = \<lparr>rs_status = 201, rs_content_type = u ''application/json'', rs_body = demo_grant_text\<rparr>"

definition demo_token_parts :: "unit token_parts" where
  "demo_token_parts = \<lparr>tp_clock = ret 1000, tp_sign = (\<lambda>content key. ret ''s''),
     tp_transport = (\<lambda>url headers body. ret demo_grant_response)\<rparr>"

lemma demo_grant_read: "json_loads 5 (build_object json_duplicate []) ch (u demo_grant_text) = Inr demo_grant"
proof -
  have "json_dumps create_opts demo_grant = Inr (u demo_grant_text)" by code_simp
  moreover have "normal_json create_opts demo_grant = demo_grant" by code_simp
  moreover have "plain demo_grant"
    by (simp add: demo_grant_def TOKEN_PERMISSIONS_def clean_str_u small_int_def max_int_digits_def dec_digits.simps)
  moreover have "depth demo_grant \<le> 5" by (simp add: demo_grant_def TOKEN_PERMISSIONS_def)
  moreover have "opts_ok create_opts" by (simp add: create_opts_def opts_ok_def u_def is_ws_def)
  moreover have "keeps_objects (build_object json_duplicate [])" by simp
  ultimately show ?thesis using loads_dumps [of create_opts "build_object json_duplicate []" demo_grant 5 "[]" ch] by simp
qed

lemma demo_token_granted:
  "parse_token_response 5 (\<lambda>s. Some 5000) (\<lambda>m e i. False) demo_grant_response demo_app 1000
     = Inr \<lparr>tk_token = u ''tttttttttttttttt'', tk_expires_at = 5000\<rparr>"
proof -
  have "utf8_decode demo_grant_text = Inr (u demo_grant_text)" by code_simp
  moreover have "json_content demo_grant_response" by code_simp
  ultimately have "token_payload 5 demo_grant_response = as_obj token_error demo_grant"
    by (simp add: token_payload_def demo_grant_response_def demo_grant_read)
  moreover have "bindE (as_obj token_error demo_grant) (\<lambda>payload.
      bindE (parse_expiry (\<lambda>s. Some 5000) (map_of payload (u ''expires_at''))) (\<lambda>expires_at.
      bindE (str_of token_error (map_of payload (u ''token''))) (\<lambda>token.
      bindE (require (16 \<le> length token \<and> length token \<le> 4096 \<and> list_all (\<lambda>c. 33 \<le> c \<and> c \<le> 126) token
         \<and> permissions_granted (map_of payload (u ''permissions''))
         \<and> only_repository (\<lambda>m e i. False) (map_of payload (u ''repositories'')) (am_repository_id demo_app)
         \<and> 1000 + TOKEN_REFRESH_MARGIN_SECONDS < expires_at) token_error) (\<lambda>_.
      Inr \<lparr>tk_token = token, tk_expires_at = expires_at\<rparr>)))) = Inr \<lparr>tk_token = u ''tttttttttttttttt'', tk_expires_at = 5000\<rparr>"
    by code_simp
  ultimately show ?thesis by (simp add: parse_token_response_def)
qed

lemma demo_clock: "tp_clock (recording_parts demo_token_parts) = (\<lambda>lx. (Inr 1000, lx))"
  by (auto simp: recording_parts_def demo_token_parts_def ret_def intro!: ext)

lemma demo_token_asked:
  "token_request demo_app (recording_parts demo_token_parts) 1000 ([], ()) = (Inr demo_grant_response, ([demo_grant_response], ()))"
  by code_simp

section \<open>Properties\<close>

text \<open>
  C37. Tokens are scoped and fresh: whatever the clock, the signer and GitHub do, and however gets and
  invalidations follow each other, a token that the provider hands out was in an answer 201 of GitHub
  that granted exactly the five permissions on exactly one repository, the project's, and at the
  provider's clock it has more than the margin of 300 seconds to live.
\<close>

theorem tokens_scoped:
  assumes "provider_run lim parse_iso float_eq metadata parts (c, (log, x)) events"
    and "Token_Asked now (Inr token) \<in> set events"
  shows "(\<exists>response \<in> set log. granted_by lim float_eq metadata response token) \<and> now + 300 < tk_expires_at token"
  using provider_run_ok [OF assms(1)] assms(2)
  by (auto simp: provider_ok_def vouched_def TOKEN_REFRESH_MARGIN_SECONDS_def)

theorem tokens_scoped_witness:
  "\<exists>c log x events now token.
     provider_run 5 (\<lambda>s. Some 5000) (\<lambda>m e i. False) demo_app demo_token_parts (c, (log, x)) events
     \<and> Token_Asked now (Inr token) \<in> set events
     \<and> (\<exists>response. response \<in> set log \<and> granted_by 5 (\<lambda>m e i. False) demo_app response token) \<and> now + 300 < tk_expires_at token"
proof -
  let ?get = "provider_get 5 (\<lambda>s. Some 5000) (\<lambda>m e i. False) demo_app (recording_parts demo_token_parts)"
  let ?t = "\<lparr>tk_token = u ''tttttttttttttttt'', tk_expires_at = 5000\<rparr>"
  have "?get (None, ([], ())) = (Inr ?t, (Some ?t, ([demo_grant_response], ())))"
    using demo_token_asked demo_token_granted
    by (simp add: provider_get_def bind_def sys_def cached_token_def lift_def demo_clock)
  then have "provider_run 5 (\<lambda>s. Some 5000) (\<lambda>m e i. False) demo_app demo_token_parts (Some ?t, ([demo_grant_response], ()))
      ([] @ [Token_Asked 1000 (Inr ?t)])"
    by (intro run_get [OF run_new])
      (simp_all add: sys_def demo_clock)
  from this tokens_scoped [OF this, of 1000 ?t] show ?thesis by fastforce
qed

end
