(* ===== verification/Issue_Create.thy ===== *)
theory Issue_Create
  imports Pending_Records File_Logic
begin

text \<open>
  \<open>src/agent_container/family_issue_create.py\<close>: the single request that creates an approved issue on
  GitHub, and the one that looks an existing issue up. The HTTPS connection and the token provider are
  parameters, with the state \<open>'x\<close> of whatever is outside. What this file adds is a clear answer to the
  question whether the body has left the host: \<open>SendNotStarted\<close> or \<open>SendOutcomeUnknown\<close>.
\<close>

section \<open>Limits, endpoints and headers\<close>

definition MAX_ISSUE_RESPONSE_BYTES :: nat where
  "MAX_ISSUE_RESPONSE_BYTES = 128 * 1024"

definition MAX_ISSUE_REQUEST_BYTES :: nat where
  "MAX_ISSUE_REQUEST_BYTES = 512 * 1024"

definition API_ORIGIN :: pystr where
  "API_ORIGIN = u ''https://api.github.com''"

definition API_HOST :: pystr where
  "API_HOST = u ''api.github.com''"

definition USER_AGENT :: pystr where
  "USER_AGENT = u ''agent-container-family-approval''"

definition REPOSITORY_PART :: "pystr \<Rightarrow> bool" where
  "REPOSITORY_PART s =
     (case s of
        [] \<Rightarrow> False
      | c # cs \<Rightarrow> (is_lower c \<or> is_digit c) \<and> length cs \<le> 99
          \<and> list_all (\<lambda>d. is_lower d \<or> is_digit d \<or> d \<in> {46, 95, 45}) cs)"

definition endpoint_parts :: "pystr \<Rightarrow> pystr list" where
  "endpoint_parts url =
     (let prefix = API_ORIGIN @ u ''/repos/'' in
      if startswith url prefix then split_on 47 (drop (length prefix) url) else [])"

definition CREATE_ENDPOINT :: "pystr \<Rightarrow> bool" where
  "CREATE_ENDPOINT url =
     (case endpoint_parts url of
        [owner, name, word] \<Rightarrow> REPOSITORY_PART owner \<and> REPOSITORY_PART name \<and> word = u ''issues''
      | _ \<Rightarrow> False)"

text \<open>The number at the end of an issue's address.\<close>

definition ISSUE_ENDPOINT :: "pystr \<Rightarrow> pystr option" where
  "ISSUE_ENDPOINT url =
     (case endpoint_parts url of
        [owner, name, word, number] \<Rightarrow>
          if REPOSITORY_PART owner \<and> REPOSITORY_PART name \<and> word = u ''issues''
            \<and> number \<noteq> [] \<and> list_all is_digit number \<and> hd number \<noteq> 48
          then Some number else None
      | _ \<Rightarrow> None)"

type_synonym header_list = "(pystr \<times> pystr) list"

definition GET_HEADER_NAMES :: "pystr set" where
  "GET_HEADER_NAMES = {u ''Accept'', u ''Authorization'', u ''X-GitHub-Api-Version'', u ''User-Agent''}"

definition POST_HEADER_NAMES :: "pystr set" where
  "POST_HEADER_NAMES = insert (u ''Content-Type'') GET_HEADER_NAMES"

section \<open>Results\<close>

record CreatedIssue =
  cr_number :: int
  cr_url :: pystr

record family_response =
  fr_status :: int
  fr_headers :: header_list
  fr_body :: bytes

section \<open>Validation\<close>

definition issue_json_error :: exn where
  "issue_json_error = ValueError ''family GitHub Issue JSON is invalid''"

definition issue_objects :: pairs_hook where
  "issue_objects = build_object issue_json_error []"

text \<open>\<open>raw_decode\<close> skips no white space, and nothing may follow the value.\<close>

definition strict_json :: "nat \<Rightarrow> bool \<Rightarrow> bytes \<Rightarrow> exn + json" where
  "strict_json lim ascii_only body =
     reraise_if (\<lambda>e. e = RecursionError \<or> e = TypeError \<or> is_value_error e) issue_json_error
       (bindE (if ascii_only then ascii_decode body else utf8_decode body) (\<lambda>text.
        bindE (parse_value issue_objects (\<lambda>w. Inl (ValueError [])) (2 * length text + 2) lim text) (\<lambda>(payload, rest).
        if rest \<noteq> [] then Inl (ValueError []) else Inr payload)))"

definition valid_token_text :: "pystr \<Rightarrow> bool" where
  "valid_token_text token \<longleftrightarrow> 16 \<le> length token \<and> length token \<le> 4096 \<and> list_all (\<lambda>c. 33 \<le> c \<and> c \<le> 126) token"

definition valid_authorization :: "pystr option \<Rightarrow> bool" where
  "valid_authorization v =
     (case v of
        Some s \<Rightarrow> startswith s (u ''Bearer '') \<and> valid_token_text (removeprefix (u ''Bearer '') s)
      | None \<Rightarrow> False)"

definition issue_request_invalid :: exn where
  "issue_request_invalid = ValueError ''family GitHub Issue request is invalid''"

definition endpoint_refused :: exn where
  "endpoint_refused = ValueError ''family GitHub Issue endpoint is not allowed''"

definition validate_headers :: "pystr \<Rightarrow> header_list \<Rightarrow> exn + header_list" where
  "validate_headers meth headers =
     (if set (map fst headers) = (if meth = u ''POST'' then POST_HEADER_NAMES else GET_HEADER_NAMES)
        \<and> map_of headers (u ''Accept'') = Some (u ''application/vnd.github+json'')
        \<and> valid_authorization (map_of headers (u ''Authorization''))
        \<and> map_of headers (u ''X-GitHub-Api-Version'') = Some (u ''2026-03-10'')
        \<and> map_of headers (u ''User-Agent'') = Some USER_AGENT
        \<and> (meth = u ''POST'' \<longrightarrow> map_of headers (u ''Content-Type'') = Some (u ''application/json''))
      then Inr headers else Inl issue_request_invalid)"

definition issue_number_of :: "pystr \<Rightarrow> exn + int" where
  "issue_number_of digits =
     (if length digits \<le> max_int_digits then validate_issue_number (JInt (int (undec digits)))
      else Inl (ValueError ''int string conversion limit''))"

definition is_issue_payload :: "json \<Rightarrow> bool" where
  "is_issue_payload v =
     (case v of
        JObj kvs \<Rightarrow> set (map fst kvs) = {u ''title'', u ''body''}
          \<and> (case map_of kvs (u ''title'') of Some (JStr _) \<Rightarrow> True | _ \<Rightarrow> False)
          \<and> (case map_of kvs (u ''body'') of Some (JStr _) \<Rightarrow> True | _ \<Rightarrow> False)
      | _ \<Rightarrow> False)"

definition validate_transport_request ::
  "nat \<Rightarrow> pystr \<Rightarrow> pystr \<Rightarrow> header_list \<Rightarrow> bytes option \<Rightarrow> exn + pystr \<times> header_list" where
  "validate_transport_request lim meth url headers body =
     bindE
       (if meth = u ''POST'' \<and> CREATE_ENDPOINT url then
          (case body of
             None \<Rightarrow> Inl issue_request_invalid
           | Some b \<Rightarrow>
               if MAX_ISSUE_REQUEST_BYTES < length b then Inl issue_request_invalid
               else bindE (strict_json lim True b) (\<lambda>payload. require (is_issue_payload payload) issue_request_invalid))
        else
          (case ISSUE_ENDPOINT url of
             Some digits \<Rightarrow>
               if meth \<noteq> u ''GET'' then Inl endpoint_refused
               else if body \<noteq> None then Inl issue_request_invalid
               else bindE (issue_number_of digits) (\<lambda>number. require (digits = int_repr number) endpoint_refused)
           | None \<Rightarrow> Inl endpoint_refused)) (\<lambda>_.
     bindE (validate_headers meth headers) (\<lambda>checked.
     Inr (removeprefix API_ORIGIN url, checked)))"

section \<open>The response\<close>

definition issue_response_invalid :: exn where
  "issue_response_invalid = ValueError ''family GitHub Issue response is invalid''"

text \<open>No character outside ASCII becomes a letter of the two names in lower case.\<close>

definition response_header_values :: "header_list \<Rightarrow> pystr \<Rightarrow> pystr list" where
  "response_header_values pairs expected = map snd (filter (\<lambda>p. lower (fst p) = expected) pairs)"

definition validated_response_header_pairs :: "header_list \<Rightarrow> exn + nat option" where
  "validated_response_header_pairs pairs =
     (case response_header_values pairs (u ''content-type'') of
        [content_type] \<Rightarrow>
          if strip (takeWhile (\<lambda>c. c \<noteq> 59) content_type) \<noteq> u ''application/json'' then Inl issue_response_invalid
          else
            (case response_header_values pairs (u ''content-length'') of
               [] \<Rightarrow> Inr None
             | [value] \<Rightarrow>
                 if value = [] \<or> 10 < length value \<or> \<not> list_all is_digit value then Inl issue_response_invalid
                 else if MAX_ISSUE_RESPONSE_BYTES < undec value then Inl issue_response_invalid
                 else Inr (Some (undec value))
             | _ \<Rightarrow> Inl issue_response_invalid)
      | _ \<Rightarrow> Inl issue_response_invalid)"

text \<open>
  The methods of \<open>http.client\<close> that are called, on a connection and on its response. \<open>hx_read n\<close> returns
  at most n bytes.
\<close>

record 'x https =
  hx_connect :: "('x, unit) prog"
  hx_putrequest :: "pystr \<Rightarrow> pystr \<Rightarrow> ('x, unit) prog"
  hx_putheader :: "pystr \<Rightarrow> pystr \<Rightarrow> ('x, unit) prog"
  hx_endheaders :: "('x, unit) prog"
  hx_send :: "bytes \<Rightarrow> ('x, unit) prog"
  hx_getresponse :: "('x, unit) prog"
  hx_status :: "('x, int) prog"
  hx_getheaders :: "('x, header_list) prog"
  hx_length :: "('x, int option) prog"
  hx_chunked :: "('x, bool) prog"
  hx_read :: "nat \<Rightarrow> ('x, bytes) prog"
  hx_isclosed :: "('x, bool) prog"
  hx_close_response :: "('x, unit) prog"
  hx_close :: "('x, unit) prog"

function read_response_loop :: "'x https \<Rightarrow> nat \<Rightarrow> bytes \<Rightarrow> ('x, bytes) prog" where
  "read_response_loop connection remaining received x =
     (if remaining = 0 then (Inr received, x)
      else
        (case hx_read connection remaining x of
           (Inl e, x1) \<Rightarrow> (Inl e, x1)
         | (Inr chunk, x1) \<Rightarrow>
             if chunk = [] then (Inr received, x1)
             else
               (case hx_isclosed connection x1 of
                  (Inl e, x2) \<Rightarrow> (Inl e, x2)
                | (Inr closed, x2) \<Rightarrow>
                    if closed then (Inr (received @ chunk), x2)
                    else read_response_loop connection (remaining - length chunk) (received @ chunk) x2)))"
  by pat_completeness auto
termination
  by (relation "measure (\<lambda>(connection, remaining, received, x). remaining)") (auto simp flip: length_greater_0_conv)

declare read_response_loop.simps [simp del]

definition framing_refused :: "nat option \<Rightarrow> int option \<Rightarrow> bool \<Rightarrow> bool" where
  "framing_refused declared initial chunked \<longleftrightarrow>
     (declared \<noteq> None \<and> chunked)
     \<or> (declared \<noteq> None \<and> initial \<noteq> map_option int declared)
     \<or> (declared = None \<and> \<not> chunked \<and> initial \<noteq> None)"

definition read_framed_response :: "'x https \<Rightarrow> nat option \<Rightarrow> ('x, bytes) prog" where
  "read_framed_response connection declared =
     bind (hx_length connection) (\<lambda>initial.
     bind (hx_chunked connection) (\<lambda>chunked.
     bind (check (\<not> framing_refused declared initial chunked) issue_response_invalid) (\<lambda>_.
     bind (read_response_loop connection (MAX_ISSUE_RESPONSE_BYTES + 1) []) (\<lambda>body.
     bind (check (length body \<le> MAX_ISSUE_RESPONSE_BYTES) issue_response_invalid) (\<lambda>_.
     bind (hx_length connection) (\<lambda>final.
     bind (hx_isclosed connection) (\<lambda>closed.
     bind (check (closed \<and> (case declared of
             Some n \<Rightarrow> length body = n \<and> final = Some 0
           | None \<Rightarrow> final = None)) issue_response_invalid) (\<lambda>_.
     ret body))))))))"

section \<open>The transport\<close>

text \<open>How far \<open>family_issue_transport\<close> has come, for its \<open>except\<close> and \<open>finally\<close> blocks.\<close>

record transport_progress =
  pr_connected :: bool
  pr_body_begun :: bool
  pr_response_phase :: bool
  pr_response :: bool

fun put_headers :: "'x https \<Rightarrow> header_list \<Rightarrow> ('x, unit) prog" where
  "put_headers connection [] = ret ()"
| "put_headers connection ((name, value) # rest) =
     bind (hx_putheader connection name value) (\<lambda>_. put_headers connection rest)"

definition exchange ::
  "'x https \<Rightarrow> pystr \<Rightarrow> pystr \<Rightarrow> header_list \<Rightarrow> bytes option \<Rightarrow> (transport_progress \<times> 'x, family_response) prog" where
  "exchange connection meth path headers body =
     bind (assign (\<lambda>p. p\<lparr>pr_connected := True\<rparr>)) (\<lambda>_.
     bind (sys (hx_connect connection)) (\<lambda>_.
     bind (sys (hx_putrequest connection meth path)) (\<lambda>_.
     bind (sys (hx_putheader connection (u ''Host'') API_HOST)) (\<lambda>_.
     bind (sys (put_headers connection headers)) (\<lambda>_.
     bind (case body of
             None \<Rightarrow> ret ()
           | Some b \<Rightarrow> sys (hx_putheader connection (u ''Content-Length'') (int_repr (int (length b))))) (\<lambda>_.
     bind (sys (hx_endheaders connection)) (\<lambda>_.
     bind (case body of
             None \<Rightarrow> ret ()
           | Some b \<Rightarrow>
               bind (assign (\<lambda>p. p\<lparr>pr_body_begun := True\<rparr>)) (\<lambda>_. sys (hx_send connection b))) (\<lambda>_.
     bind (assign (\<lambda>p. p\<lparr>pr_response_phase := True\<rparr>)) (\<lambda>_.
     bind (sys (hx_getresponse connection)) (\<lambda>_.
     bind (assign (\<lambda>p. p\<lparr>pr_response := True\<rparr>)) (\<lambda>_.
     bind (sys (hx_getheaders connection)) (\<lambda>raw_headers.
     bind (lift (validated_response_header_pairs raw_headers)) (\<lambda>declared.
     bind (sys (read_framed_response connection declared)) (\<lambda>response_body.
     bind (sys (hx_status connection)) (\<lambda>status.
     ret \<lparr>fr_status = status, fr_headers = foldl (\<lambda>d kv. AList.update (fst kv) (snd kv) d) [] raw_headers,
          fr_body = response_body\<rparr>)))))))))))))))"

definition reconciliation_failure :: exn where
  "reconciliation_failure = RuntimeError ''family Issue reconciliation failed''"

text \<open>
  \<open>except Exception\<close>: what an exception becomes. An exception that is already the right one is kept, which
  is the same value.
\<close>

definition transport_failure_of :: "pystr \<Rightarrow> transport_progress \<Rightarrow> exn" where
  "transport_failure_of meth p =
     (if meth = u ''POST'' then
        (if \<not> pr_body_begun p then SendNotStarted (u ''send'')
         else SendOutcomeUnknown (if pr_response_phase p then u ''response'' else u ''send''))
      else reconciliation_failure)"

definition close_quietly :: "('x, unit) prog \<Rightarrow> ('x, unit) prog" where
  "close_quietly m = try_except m (\<lambda>e. if e = Killed then raise e else ret ())"

definition family_issue_transport ::
  "nat \<Rightarrow> 'x https \<Rightarrow> pystr \<Rightarrow> pystr \<Rightarrow> header_list \<Rightarrow> bytes option \<Rightarrow> ('x, family_response) prog" where
  "family_issue_transport lim connection meth url headers body =
     bind (lift (validate_transport_request lim meth url headers body)) (\<lambda>(path, checked).
     with_locals \<lparr>pr_connected = False, pr_body_begun = False, pr_response_phase = False, pr_response = False\<rparr>
       (try_finally
         (try_except (exchange connection meth path checked body)
           (\<lambda>e. locals (\<lambda>p. raise (if e = Killed then e else transport_failure_of meth p))))
         (locals (\<lambda>p.
           bind (if pr_response p then sys (close_quietly (hx_close_response connection)) else ret ()) (\<lambda>_.
           if pr_connected p then sys (close_quietly (hx_close connection)) else ret ())))))"

section \<open>Creating and looking up\<close>

definition validate_issue_binding :: "FamilyBinding \<Rightarrow> exn + FamilyBinding" where
  "validate_issue_binding binding =
     bindE (reraise_if (\<lambda>e. e = TypeError \<or> is_value_error e) binding_error
       (bindE (parse_Repository (slug (fb_repository binding))) (\<lambda>repository.
        bindE (validate_repository_id (JInt (fb_repository_id binding))) (\<lambda>repository_id. Inr (repository, repository_id)))))
     (\<lambda>(repository, repository_id).
     if repository \<noteq> fb_repository binding \<or> slug repository \<noteq> lower (slug repository) then Inl binding_error
     else Inr \<lparr>fb_repository = repository, fb_repository_id = repository_id\<rparr>)"

definition canonical_invalid :: exn where
  "canonical_invalid = ValueError ''canonical family Issue is invalid''"

definition validate_canonical :: "CanonicalFamilyIssue \<Rightarrow> exn + CanonicalFamilyIssue" where
  "validate_canonical canonical =
     bindE (require (ci_title canonical \<noteq> [] \<and> ci_body canonical \<noteq> []) canonical_invalid) (\<lambda>_.
     bindE (reraise_if (\<lambda>e. e = UnicodeEncodeError) canonical_invalid
       (bindE (utf8_encode (ci_title canonical)) (\<lambda>title.
        if 256 < length title then Inl canonical_invalid
        else
          bindE (utf8_encode (ci_body canonical)) (\<lambda>body.
          require (length body \<le> MAX_CANONICAL_BODY_BYTES) canonical_invalid)))) (\<lambda>_.
     Inr canonical))"

text \<open>A token and when it expires.\<close>

type_synonym family_token = "pystr \<times> int"

definition installation_token :: "('x, family_token) prog \<Rightarrow> ('x, family_token) prog" where
  "installation_token tokens =
     try_except
       (bind tokens (\<lambda>token.
        bind (check (valid_token_text (fst token) \<and> 0 < snd token) (ValueError [])) (\<lambda>_. ret token)))
       (\<lambda>e. raise (if e = Killed then e else SendNotStarted (u ''token'')))"

definition issue_url_of :: "FamilyBinding \<Rightarrow> int \<Rightarrow> pystr" where
  "issue_url_of binding number =
     u ''https://github.com/'' @ slug (fb_repository binding) @ u ''/issues/'' @ int_repr number"

definition text_is :: "json option \<Rightarrow> pystr \<Rightarrow> bool" where
  "text_is v s \<longleftrightarrow> v = Some (JStr s)"

definition parse_issue ::
  "nat \<Rightarrow> family_response \<Rightarrow> FamilyBinding \<Rightarrow> int \<Rightarrow> int option \<Rightarrow> CanonicalFamilyIssue option \<Rightarrow> exn + CreatedIssue" where
  "parse_issue lim response binding expected_status expected_number canonical =
     (if fr_status response \<noteq> expected_status \<or> MAX_ISSUE_RESPONSE_BYTES < length (fr_body response)
      then Inl issue_response_invalid
      else
        bindE (validated_response_header_pairs (fr_headers response)) (\<lambda>declared.
        bindE (require (case declared of Some n \<Rightarrow> n = length (fr_body response) | None \<Rightarrow> True) issue_response_invalid) (\<lambda>_.
        bindE (strict_json lim False (fr_body response)) (\<lambda>v.
          case v of
            JObj payload \<Rightarrow>
              bindE (reraise_if (\<lambda>e. e = TypeError \<or> is_value_error e) issue_response_invalid
                (case map_of payload (u ''number'') of None \<Rightarrow> Inl issue_response_invalid | Some n \<Rightarrow> validate_issue_number n)) (\<lambda>number.
              bindE (require ((case expected_number of Some n \<Rightarrow> number = n | None \<Rightarrow> True)
                  \<and> text_is (map_of payload (u ''state'')) (u ''open'')
                  \<and> text_is (map_of payload (u ''html_url'')) (issue_url_of binding number)
                  \<and> text_is (map_of payload (u ''repository_url'')) (API_ORIGIN @ u ''/repos/'' @ slug (fb_repository binding))
                  \<and> (case canonical of
                       Some c \<Rightarrow> text_is (map_of payload (u ''title'')) (ci_title c) \<and> text_is (map_of payload (u ''body'')) (ci_body c)
                     | None \<Rightarrow> True)) issue_response_invalid) (\<lambda>_.
              Inr \<lparr>cr_number = number, cr_url = issue_url_of binding number\<rparr>))
          | _ \<Rightarrow> Inl issue_response_invalid))))"

definition issue_headers :: "family_token \<Rightarrow> bool \<Rightarrow> header_list" where
  "issue_headers token content =
     [(u ''Accept'', u ''application/vnd.github+json''), (u ''Authorization'', u ''Bearer '' @ fst token)]
     @ (if content then [(u ''Content-Type'', u ''application/json'')] else [])
     @ [(u ''X-GitHub-Api-Version'', u ''2026-03-10''), (u ''User-Agent'', USER_AGENT)]"

type_synonym 'x issue_http = "pystr \<Rightarrow> pystr \<Rightarrow> header_list \<Rightarrow> bytes option \<Rightarrow> ('x, family_response) prog"

definition issue_dump_opts :: dump_opts where
  "issue_dump_opts = \<lparr>d_ascii = True, d_sort = False, d_item = u '','', d_key = u '':'', d_indent = None\<rparr>"

definition issue_body :: "CanonicalFamilyIssue \<Rightarrow> exn + bytes" where
  "issue_body canonical =
     bindE (json_dumps issue_dump_opts (JObj [(u ''title'', JStr (ci_title canonical)), (u ''body'', JStr (ci_body canonical))]))
       ascii_encode"

text \<open>
  The failures of the transport that are passed on: those of the boundary. An exception of them with a
  cause or a context counts as another exception here.
\<close>

definition boundary_failure :: "exn \<Rightarrow> bool" where
  "boundary_failure e \<longleftrightarrow>
     e \<in> {SendNotStarted (u ''send''), SendOutcomeUnknown (u ''send''), SendOutcomeUnknown (u ''response'')}"

definition create_issue ::
  "nat \<Rightarrow> 'x issue_http \<Rightarrow> FamilyBinding \<Rightarrow> CanonicalFamilyIssue \<Rightarrow> ('x, family_token) prog \<Rightarrow> ('x, CreatedIssue) prog" where
  "create_issue lim http binding canonical tokens =
     bind (lift (validate_issue_binding binding)) (\<lambda>binding.
     bind (lift (validate_canonical canonical)) (\<lambda>canonical.
     bind (installation_token tokens) (\<lambda>token.
     bind (lift (issue_body canonical)) (\<lambda>body.
     bind (try_except
         (http (u ''POST'') (API_ORIGIN @ u ''/repos/'' @ slug (fb_repository binding) @ u ''/issues'')
           (issue_headers token True) (Some body))
         (\<lambda>e. raise (if e = Killed \<or> boundary_failure e then e else SendOutcomeUnknown (u ''send'')))) (\<lambda>response.
     try_except (lift (parse_issue lim response binding 201 None None))
       (\<lambda>e. raise (SendOutcomeUnknown (u ''response''))))))))"

definition verify_existing ::
  "nat \<Rightarrow> 'x issue_http \<Rightarrow> FamilyBinding \<Rightarrow> CanonicalFamilyIssue \<Rightarrow> int \<Rightarrow> ('x, family_token) prog \<Rightarrow> ('x, CreatedIssue) prog" where
  "verify_existing lim http binding canonical issue_number tokens =
     bind (lift (validate_issue_binding binding)) (\<lambda>binding.
     bind (lift (validate_canonical canonical)) (\<lambda>canonical.
     bind (lift (validate_issue_number (JInt issue_number))) (\<lambda>number.
     try_except
       (bind (installation_token tokens) (\<lambda>token.
        bind (http (u ''GET'') (API_ORIGIN @ u ''/repos/'' @ slug (fb_repository binding) @ u ''/issues/'' @ int_repr number)
          (issue_headers token False) None) (\<lambda>response.
        lift (parse_issue lim response binding 200 (Some number) (Some canonical)))))
       (\<lambda>e. raise (if e = Killed then e else reconciliation_failure)))))"

end
