(* ===== verification/Issue_Send.thy ===== *)
theory Issue_Send
  imports Issue_Create Pending_Bounds
begin

text \<open>
  What leaves the host when an issue is created: requests and bodies of
  \<open>src/agent_container/family_issue_create.py\<close>, written down by a recording connection.
\<close>

section \<open>Recording\<close>

datatype http_event = Requested pystr pystr | Sent bytes

definition recorded :: "'e \<Rightarrow> ('x, 'a) prog \<Rightarrow> ('e list \<times> 'x, 'a) prog" where
  "recorded e m lx = (case m (snd lx) of (r, x) \<Rightarrow> (r, (fst lx @ [e], x)))"

definition recording_https :: "'x https \<Rightarrow> (http_event list \<times> 'x) https" where
  "recording_https c =
     \<lparr>hx_connect = sys (hx_connect c),
      hx_putrequest = (\<lambda>meth path. recorded (Requested meth path) (hx_putrequest c meth path)),
      hx_putheader = (\<lambda>name value. sys (hx_putheader c name value)),
      hx_endheaders = sys (hx_endheaders c),
      hx_send = (\<lambda>body. recorded (Sent body) (hx_send c body)),
      hx_getresponse = sys (hx_getresponse c),
      hx_status = sys (hx_status c),
      hx_getheaders = sys (hx_getheaders c),
      hx_length = sys (hx_length c),
      hx_chunked = sys (hx_chunked c),
      hx_read = (\<lambda>n. sys (hx_read c n)),
      hx_isclosed = sys (hx_isclosed c),
      hx_close_response = sys (hx_close_response c),
      hx_close = sys (hx_close c)\<rparr>"

text \<open>Programs that leave the record alone.\<close>

named_theorems keeps_intros

definition keeps :: "('l \<times> 'x, 'a) prog \<Rightarrow> bool" where
  "keeps m \<longleftrightarrow> (\<forall>lx. fst (snd (m lx)) = fst lx)"

lemma keeps_sys [keeps_intros]: "keeps (sys m)"
  by (simp add: keeps_def sys_def split: prod.split)

lemma keeps_ret [keeps_intros]: "keeps (ret x)" "keeps (raise e)" "keeps (lift r)" "keeps (check b e)"
  by (simp_all add: keeps_def ret_def raise_def lift_def check_def)

lemma keeps_bind [keeps_intros]: "keeps m \<Longrightarrow> (\<And>x. keeps (f x)) \<Longrightarrow> keeps (bind m f)"
  unfolding keeps_def bind_def by (auto split: prod.splits sum.splits) (metis prod.collapse snd_conv fst_conv)+

lemma keeps_try [keeps_intros]: "keeps m \<Longrightarrow> (\<And>e. keeps (h e)) \<Longrightarrow> keeps (try_except m h)"
  unfolding keeps_def try_except_def by (auto split: prod.splits sum.splits) (metis prod.collapse snd_conv fst_conv)+

lemma keeps_if [keeps_intros]: "keeps m \<Longrightarrow> keeps m' \<Longrightarrow> keeps (if b then m else m')"
  by simp

lemma keeps_close [keeps_intros]: "keeps m \<Longrightarrow> keeps (close_quietly m)"
  unfolding close_quietly_def by (intro keeps_intros)

lemma recording_simps [simp]:
  "hx_connect (recording_https c) = sys (hx_connect c)"
  "hx_putrequest (recording_https c) = (\<lambda>meth path. recorded (Requested meth path) (hx_putrequest c meth path))"
  "hx_putheader (recording_https c) = (\<lambda>name value. sys (hx_putheader c name value))"
  "hx_endheaders (recording_https c) = sys (hx_endheaders c)"
  "hx_send (recording_https c) = (\<lambda>body. recorded (Sent body) (hx_send c body))"
  "hx_getresponse (recording_https c) = sys (hx_getresponse c)"
  "hx_status (recording_https c) = sys (hx_status c)"
  "hx_getheaders (recording_https c) = sys (hx_getheaders c)"
  "hx_length (recording_https c) = sys (hx_length c)"
  "hx_chunked (recording_https c) = sys (hx_chunked c)"
  "hx_read (recording_https c) = (\<lambda>n. sys (hx_read c n))"
  "hx_isclosed (recording_https c) = sys (hx_isclosed c)"
  "hx_close_response (recording_https c) = sys (hx_close_response c)"
  "hx_close (recording_https c) = sys (hx_close c)"
  by (simp_all add: recording_https_def)

lemma keeps_put_headers [keeps_intros]: "keeps (put_headers (recording_https c) headers)"
proof (induction headers)
  case (Cons h hs)
  then show ?case by (cases h) (auto intro!: keeps_intros)
qed (simp add: keeps_intros)

lemma keeps_read_loop: "fst (snd (read_response_loop (recording_https c) n received lx)) = fst lx"
proof (induction "recording_https c" n received lx rule: read_response_loop.induct)
  case (1 n received lx)
  show ?case
    by (subst read_response_loop.simps) (use 1 in \<open>auto simp: sys_def split: prod.splits sum.splits\<close>)
qed

lemma keeps_read_framed [keeps_intros]: "keeps (read_framed_response (recording_https c) declared)"
proof -
  have "keeps (read_response_loop (recording_https c) n received)" for n received
    by (simp add: keeps_def keeps_read_loop)
  then show ?thesis unfolding read_framed_response_def recording_simps by (intro keeps_intros)
qed

section \<open>One exchange\<close>

text \<open>What is known of the progress and of the record.\<close>

definition at :: "(transport_progress \<Rightarrow> http_event list \<Rightarrow> bool) \<Rightarrow> transport_progress \<times> http_event list \<times> 'x \<Rightarrow> bool" where
  "at A s \<longleftrightarrow> A (fst s) (fst (snd s))"

lemma at_keeps:
  assumes "keeps m" and "\<And>p l. A p l \<Longrightarrow> F p l"
  shows "triple (at A) (sys m) (\<lambda>_. at A) (\<lambda>_. at F)"
proof -
  have "l' = l" if "m (l, x) = (r, (l', x'))" for l x r l' x'
    using assms(1) that unfolding keeps_def by (metis fst_conv snd_conv)
  then show ?thesis using assms(2) by (fastforce simp: triple_def at_def sys_def split: prod.splits sum.splits)
qed

lemma at_assign: "(\<And>p l. A p l \<Longrightarrow> B (f p) l) \<Longrightarrow> triple (at A) (assign f) (\<lambda>_. at B) E"
  by (auto simp: triple_def at_def assign_def)

lemma at_recorded:
  assumes "\<And>p l. A p l \<Longrightarrow> B p (l @ [e])" and "\<And>p l. A p l \<Longrightarrow> F p (l @ [e])"
  shows "triple (at A) (sys (recorded e m)) (\<lambda>_. at B) (\<lambda>_. at F)"
  using assms by (auto simp: triple_def at_def sys_def recorded_def split: prod.splits sum.splits)

lemma at_lift: "(\<And>p l. A p l \<Longrightarrow> F p l) \<Longrightarrow> triple (at A) (lift r) (\<lambda>_. at A) (\<lambda>_. at F)"
  by (rule triple_lift) (auto simp: at_def)

definition before_body :: "http_event \<Rightarrow> transport_progress \<Rightarrow> http_event list \<Rightarrow> bool" where
  "before_body request p l \<longleftrightarrow> \<not> pr_body_begun p \<and> l \<in> {[], [request]}"

definition interrupted :: "http_event \<Rightarrow> bytes \<Rightarrow> transport_progress \<Rightarrow> http_event list \<Rightarrow> bool" where
  "interrupted request body p l \<longleftrightarrow> before_body request p l \<or> pr_body_begun p \<and> l = [request, Sent body]"

lemma exchange_sends:
  "triple (at (\<lambda>p l. \<not> pr_body_begun p \<and> l = []))
     (exchange (recording_https c) meth path headers (Some body))
     (\<lambda>_. at (\<lambda>p l. pr_body_begun p \<and> l = [Requested meth path, Sent body]))
     (\<lambda>_. at (interrupted (Requested meth path) body))"
proof -
  let ?R = "Requested meth path"
  let ?F = "\<lambda>_. at (interrupted ?R body)"
  let ?A0 = "\<lambda>p l. \<not> pr_body_begun p \<and> l = []"
  let ?A1 = "\<lambda>p l. \<not> pr_body_begun p \<and> l = [?R]"
  let ?A2 = "\<lambda>p l. pr_body_begun p \<and> l = [?R, Sent body]"
  have F: "?A0 p l \<Longrightarrow> interrupted ?R body p l" "?A1 p l \<Longrightarrow> interrupted ?R body p l" "?A2 p l \<Longrightarrow> interrupted ?R body p l" for p l
    by (auto simp: interrupted_def before_body_def)
  have send: "triple (at ?A1) (bind (assign (\<lambda>p. p\<lparr>pr_body_begun := True\<rparr>)) (\<lambda>_. sys (recorded (Sent body) (hx_send c body))))
      (\<lambda>_. at ?A2) ?F"
    by (rule triple_bind [OF at_assign [where B = "\<lambda>p l. pr_body_begun p \<and> l = [?R]"]])
      (auto intro!: at_recorded simp: interrupted_def)
  note step = triple_bind [OF at_keeps [OF _ F(1)]] triple_bind [OF at_keeps [OF _ F(2)]] triple_bind [OF at_keeps [OF _ F(3)]]
  show ?thesis
    unfolding exchange_def recording_simps option.case
    apply (rule triple_bind [OF at_assign [where B = ?A0]], simp)
    apply (rule step(1), intro keeps_intros, assumption)
    apply (rule triple_bind [OF at_recorded [where B = ?A1]], simp, simp add: interrupted_def before_body_def)
    apply (rule step(2), intro keeps_intros, assumption)+
    apply (rule triple_bind [OF send])
    apply (rule triple_bind [OF at_assign [where B = ?A2]], simp)
    apply (rule step(3), intro keeps_intros, assumption)
    apply (rule triple_bind [OF at_assign [where B = ?A2]], simp)
    apply (rule step(3), intro keeps_intros, assumption)
    apply (rule triple_bind [OF at_lift [OF F(3)]], assumption)
    apply (rule step(3), intro keeps_intros, assumption)+
    apply (rule triple_ret, simp)
    done
qed


lemma at_close:
  assumes "keeps m"
  shows "triple (at A) (sys (close_quietly m)) (\<lambda>_. at A) (\<lambda>e s. e = Killed \<and> at A s)"
proof -
  have "l' = l \<and> (\<forall>e. r = Inl e \<longrightarrow> e = Killed)" if "close_quietly m (l, x) = (r, (l', x'))" for l x r l' x'
  proof -
    have "fst (snd (close_quietly m (l, x))) = l" using keeps_close [OF assms] unfolding keeps_def by (metis fst_conv)
    with that show ?thesis
      by (auto simp: close_quietly_def try_except_def raise_def ret_def split: prod.splits sum.splits if_splits)
  qed
  then show ?thesis by (fastforce simp: triple_def at_def sys_def split: prod.splits sum.splits)
qed

lemma at_closing:
  assumes "keeps m" and "keeps m'"
  shows "triple (at A)
    (locals (\<lambda>p. bind (if b p then sys (close_quietly m) else ret ()) (\<lambda>_. if b' p then sys (close_quietly m') else ret ())))
    (\<lambda>_. at A) (\<lambda>e s. e = Killed \<and> at A s)" (is "triple _ (locals ?f) _ _")
proof (rule triple_locals)
  fix p
  have r: "triple (at A) (if c then sys (close_quietly k) else ret ()) (\<lambda>_. at A) (\<lambda>e s. e = Killed \<and> at A s)" if "keeps k" for c k
    by (rule triple_if, rule at_close [OF that], rule triple_ret)
  have "triple (at A) (?f p) (\<lambda>_. at A) (\<lambda>e s. e = Killed \<and> at A s)"
    by (rule triple_bind [OF r [OF assms(1)] r [OF assms(2)]])
  then show "triple (\<lambda>s. at A s \<and> fst s = p) (?f p) (\<lambda>_. at A) (\<lambda>e s. e = Killed \<and> at A s)"
    by (rule triple_pre) simp
qed

section \<open>What a failure says\<close>

text \<open>After an exception of the transport, whether the body has been handed to the connection.\<close>

definition told :: "http_event \<Rightarrow> bytes \<Rightarrow> exn \<Rightarrow> http_event list \<Rightarrow> bool" where
  "told request body e l \<longleftrightarrow>
     l \<in> {[], [request]} \<and> e \<in> {Killed, SendNotStarted (u ''send'')}
     \<or> l = [request, Sent body] \<and> e \<in> {Killed, SendOutcomeUnknown (u ''send''), SendOutcomeUnknown (u ''response'')}"

lemma transport_sends:
  assumes "validate_transport_request lim (u ''POST'') url headers (Some body) = Inr (path, checked)"
  shows "triple (\<lambda>s. fst s = []) (family_issue_transport lim (recording_https c) (u ''POST'') url headers (Some body))
     (\<lambda>_ s. fst s = [Requested (u ''POST'') path, Sent body])
     (\<lambda>e s. told (Requested (u ''POST'') path) body e (fst s))"
proof -
  let ?R = "Requested (u ''POST'') path"
  have handler: "triple (at (interrupted ?R body))
      (locals (\<lambda>p. raise (if e = Killed then e else transport_failure_of (u ''POST'') p))) Q
      (\<lambda>e'. at (\<lambda>p l. told ?R body e' l))" for e and Q :: "family_response \<Rightarrow> _"
    by (rule triple_locals, rule triple_raise)
      (auto simp: at_def interrupted_def before_body_def told_def transport_failure_of_def)
  let ?run = "with_locals \<lparr>pr_connected = False, pr_body_begun = False, pr_response_phase = False, pr_response = False\<rparr>
       (try_finally
         (try_except (exchange (recording_https c) (u ''POST'') path checked (Some body))
           (\<lambda>e. locals (\<lambda>p. raise (if e = Killed then e else transport_failure_of (u ''POST'') p))))
         (locals (\<lambda>p.
           bind (if pr_response p then sys (close_quietly (hx_close_response (recording_https c))) else ret ()) (\<lambda>_.
           if pr_connected p then sys (close_quietly (hx_close (recording_https c))) else ret ()))))"
  have run: "triple (\<lambda>s. fst s = []) ?run (\<lambda>_ s. fst s = [?R, Sent body]) (\<lambda>e s. told ?R body e (fst s))"
  proof (rule triple_with_locals, rule triple_conseq [OF triple_try_finally])
    show "triple (at (\<lambda>p l. \<not> pr_body_begun p \<and> l = []))
       (try_except (exchange (recording_https c) (u ''POST'') path checked (Some body))
         (\<lambda>e. locals (\<lambda>p. raise (if e = Killed then e else transport_failure_of (u ''POST'') p))))
       (\<lambda>_. at (\<lambda>p l. pr_body_begun p \<and> l = [?R, Sent body])) (\<lambda>e. at (\<lambda>p l. told ?R body e l))"
      by (rule triple_try_except [OF exchange_sends handler])
    let ?close = "locals (\<lambda>p.
       bind (if pr_response p then sys (close_quietly (hx_close_response (recording_https c))) else ret ()) (\<lambda>_.
       if pr_connected p then sys (close_quietly (hx_close (recording_https c))) else ret ()))"
    have close: "triple (at A) ?close (\<lambda>_. at A) (\<lambda>e s. e = Killed \<and> at A s)" for A
      unfolding recording_simps by (rule at_closing) (intro keeps_intros)+
    show "triple (at (\<lambda>p l. pr_body_begun p \<and> l = [?R, Sent body])) ?close
        (\<lambda>_. at (\<lambda>p l. l = [?R, Sent body])) (\<lambda>e. at (\<lambda>p l. told ?R body e l))" for x :: family_response
      by (rule triple_conseq [OF close [of "\<lambda>p l. pr_body_begun p \<and> l = [?R, Sent body]"]]) (auto simp: at_def told_def)
    show "triple (at (\<lambda>p l. told ?R body e l)) ?close (\<lambda>_. at (\<lambda>p l. told ?R body e l)) (\<lambda>e. at (\<lambda>p l. told ?R body e l))" for e
      by (rule triple_conseq [OF close [of "\<lambda>p l. told ?R body e l"]]) (auto simp: at_def told_def)
  qed (auto simp: at_def)
  show ?thesis
    unfolding family_issue_transport_def assms
    using run by (auto simp: bind_def lift_def triple_def)
qed

lemma keeps_triple: "keeps m \<Longrightarrow> triple (\<lambda>s. A (fst s)) m (\<lambda>_ s. A (fst s)) (\<lambda>_ s. A (fst s))"
  unfolding triple_def keeps_def by (auto split: prod.split sum.split) (metis fst_conv snd_conv)+

lemma keeps_token [keeps_intros]: "keeps (installation_token (sys tokens))"
  unfolding installation_token_def by (intro keeps_intros)

lemma validate_issue_binding_Inr: "validate_issue_binding b = Inr b' \<Longrightarrow> b' = b"
  by (cases b) (auto simp: validate_issue_binding_def err_simps validate_repository_id_def split: if_splits)

lemma validate_canonical_Inr: "validate_canonical c = Inr c' \<Longrightarrow> c' = c"
  by (auto simp: validate_canonical_def err_simps)

lemma parse_issue_Inr:
  assumes "parse_issue lim response binding status number canonical = Inr created"
  shows "cr_url created = issue_url_of binding (cr_number created)" "1 \<le> cr_number created"
proof -
  let ?fields = "\<lambda>payload. bindE (reraise_if (\<lambda>e. e = TypeError \<or> is_value_error e) issue_response_invalid
      (case map_of payload (u ''number'') of None \<Rightarrow> Inl issue_response_invalid | Some n \<Rightarrow> validate_issue_number n)) (\<lambda>number'.
      bindE (require ((case number of Some n \<Rightarrow> number' = n | None \<Rightarrow> True)
          \<and> text_is (map_of payload (u ''state'')) (u ''open'')
          \<and> text_is (map_of payload (u ''html_url'')) (issue_url_of binding number')
          \<and> text_is (map_of payload (u ''repository_url'')) (API_ORIGIN @ u ''/repos/'' @ slug (fb_repository binding))
          \<and> (case canonical of
               Some c \<Rightarrow> text_is (map_of payload (u ''title'')) (ci_title c) \<and> text_is (map_of payload (u ''body'')) (ci_body c)
             | None \<Rightarrow> True)) issue_response_invalid) (\<lambda>_.
      Inr \<lparr>cr_number = number', cr_url = issue_url_of binding number'\<rparr>))"
  obtain v where "(case v of JObj payload \<Rightarrow> ?fields payload | _ \<Rightarrow> Inl issue_response_invalid) = Inr created"
    using assms unfolding parse_issue_def by (auto simp only: bindE_Inr_iff split: if_split_asm)
  then obtain payload where f: "?fields payload = Inr created" by (cases v) auto
  then obtain n number' where "validate_issue_number n = Inr number'"
    and created: "created = \<lparr>cr_number = number', cr_url = issue_url_of binding number'\<rparr>"
    by (cases "map_of payload (u ''number'')") (auto simp: err_simps)
  then show "cr_url created = issue_url_of binding (cr_number created)" "1 \<le> cr_number created"
    by (auto simp: validate_issue_number_def split: json.splits if_splits)
qed

section \<open>The body is the issue\<close>

definition issue_value :: "CanonicalFamilyIssue \<Rightarrow> json" where
  "issue_value c = JObj [(u ''title'', JStr (ci_title c)), (u ''body'', JStr (ci_body c))]"

lemma issue_opts_ok: "opts_ok issue_dump_opts"
  by (simp add: opts_ok_def issue_dump_opts_def u_def is_ws_def)

lemma issue_value_plain: "clean_str (ci_title c) \<Longrightarrow> clean_str (ci_body c) \<Longrightarrow> plain (issue_value c)"
  by (simp add: issue_value_def clean_str_u)

lemma issue_body_rendered:
  assumes "clean_str (ci_title c)" and "clean_str (ci_body c)"
  shows "issue_body c = Inr (map char_of (render issue_dump_opts 0 (issue_value c)))"
    and "ascii_decode (map char_of (render issue_dump_opts 0 (issue_value c))) = Inr (render issue_dump_opts 0 (issue_value c))"
proof -
  have n: "normal_json issue_dump_opts v = v" for v by (simp add: normal_json_def issue_dump_opts_def)
  have "list_all (\<lambda>x. 32 \<le> x \<and> x < 128) (render issue_dump_opts 0 (issue_value c))"
    by (rule render_one_line) (simp_all add: issue_dump_opts_def u_def issue_value_plain [OF assms])
  then have a: "ascii_encode (render issue_dump_opts 0 (issue_value c)) = Inr (map char_of (render issue_dump_opts 0 (issue_value c)))"
    by (auto simp: ascii_encode_def list_all_iff)
  then show "issue_body c = Inr (map char_of (render issue_dump_opts 0 (issue_value c)))"
    using json_dumps_plain [OF issue_value_plain [OF assms], of issue_dump_opts] by (simp add: issue_body_def n flip: issue_value_def)
  from a show "ascii_decode (map char_of (render issue_dump_opts 0 (issue_value c))) = Inr (render issue_dump_opts 0 (issue_value c))"
    by (rule ascii_round)
qed

text \<open>The transport reads the body as the issue it was made from.\<close>

lemma issue_body_read:
  assumes "clean_str (ci_title c)" and "clean_str (ci_body c)" and "issue_body c = Inr body" and "1 \<le> lim"
  shows "strict_json lim True body = Inr (issue_value c)"
proof -
  let ?t = "render issue_dump_opts 0 (issue_value c)"
  have "parse_value issue_objects (\<lambda>w. Inl (ValueError [])) (2 * length ?t + 2) lim (?t @ []) = Inr (issue_value c, [])"
    by (rule parse_render [OF issue_opts_ok]) (use assms issue_value_plain in \<open>auto simp: issue_objects_def num_stop_def issue_value_def\<close>)
  then show ?thesis
    using assms(3) issue_body_rendered [OF assms(1,2)] by (auto simp: strict_json_def)
qed


section \<open>Every approved issue passes the transport\<close>

lemma lower_part:
  assumes "slug_match s" and "lower s = s"
  shows "REPOSITORY_PART s"
proof -
  have "c + 32 \<noteq> c" for c :: nat by simp
  then have "\<not> is_upper c" if "c \<in> set s" for c
    using that assms(2) map_eq_conv [of "\<lambda>c. if is_upper c then c + 32 else c" s "\<lambda>c. c"]
    by (auto simp: lower_def split: if_splits)
  with assms(1) show ?thesis
    by (cases s) (auto simp: REPOSITORY_PART_def slug_match_def class_match_def is_alnum_def is_slug_char_def u_def list_all_iff)
qed

lemma binding_parts:
  assumes "validate_issue_binding b = Inr b"
  shows "REPOSITORY_PART (repo_owner (fb_repository b))" "REPOSITORY_PART (repo_name (fb_repository b))"
    and "47 \<notin> set (repo_owner (fb_repository b))" "47 \<notin> set (repo_name (fb_repository b))"
proof -
  let ?r = "fb_repository b"
  obtain repository where "parse_Repository (slug ?r) = Inr repository"
    and "\<not> (repository \<noteq> ?r \<or> slug repository \<noteq> lower (slug repository))"
    using assms unfolding validate_issue_binding_def
    by (cases "parse_Repository (slug ?r)"; cases "validate_repository_id (JInt (fb_repository_id b))")
      (auto simp only: bindE_simps reraise_if_simps prod.case sum.distinct split: if_split_asm)
  then have parsed: "parse_Repository (slug ?r) = Inr ?r" and l: "slug ?r = lower (slug ?r)" by auto
  from parsed have p: "slug_match (repo_owner ?r)" "slug_match (repo_name ?r)" by (simp_all only: parse_Repository_iff)
  have "lower (repo_owner ?r) = repo_owner ?r" "lower (repo_name ?r) = repo_name ?r"
    using l by (simp_all add: slug_def lower_def)
  with p show "REPOSITORY_PART (repo_owner ?r)" "REPOSITORY_PART (repo_name ?r)" by (simp_all add: lower_part)
  show "47 \<notin> set (repo_owner ?r)" "47 \<notin> set (repo_name ?r)"
    using p slug_match_no_slash by blast+
qed

lemma create_endpoint:
  assumes "validate_issue_binding b = Inr b"
  shows "CREATE_ENDPOINT (API_ORIGIN @ u ''/repos/'' @ slug (fb_repository b) @ u ''/issues'')"
proof -
  let ?r = "fb_repository b"
  have i: "u ''/issues'' = 47 # u ''issues''" "47 \<notin> set (u ''issues'')" by (simp_all add: u_def)
  have "endpoint_parts (API_ORIGIN @ u ''/repos/'' @ slug ?r @ u ''/issues'') = [repo_owner ?r, repo_name ?r, u ''issues'']"
    using binding_parts(3,4) [OF assms] i(2)
    by (simp add: endpoint_parts_def startswith_def slug_def i(1) split_on_append split_on_single)
  then show ?thesis using binding_parts(1,2) [OF assms] by (simp add: CREATE_ENDPOINT_def)
qed

lemma issue_body_fits:
  assumes "json_width (ci_title c) \<le> 1536" and "json_width (ci_body c) \<le> 393216" and "issue_body c = Inr body"
    and "clean_str (ci_title c)" "clean_str (ci_body c)"
  shows "length body \<le> MAX_ISSUE_REQUEST_BYTES"
proof -
  have "body = map char_of (render issue_dump_opts 0 (issue_value c))"
    using assms(3) issue_body_rendered(1) [OF assms(4,5)] by simp
  then have "length body = length (render issue_dump_opts 0 (issue_value c))" by simp
  also have "\<dots> \<le> 400000"
  proof -
    have "json_width (u ''title'') \<le> 2 * length (u ''title'')" "json_width (u ''body'') \<le> 2 * length (u ''body'')"
      by (rule width_ascii; simp add: u_def)+
    then have k: "json_width (u ''title'') \<le> 10" "json_width (u ''body'') \<le> 8" by (simp_all add: u_def)
    have a: "d_ascii issue_dump_opts" "render issue_dump_opts l (JStr t) = dump_str True t" for l t
      by (simp_all add: issue_dump_opts_def)
    have "length (render issue_dump_opts 0 (issue_value c))
        \<le> 2 + sum_list (map (\<lambda>(k, v). length (dump_str (d_ascii issue_dump_opts) k) + length (render issue_dump_opts (Suc 0) v) + 2)
            [(u ''title'', JStr (ci_title c)), (u ''body'', JStr (ci_body c))])"
      unfolding issue_value_def by (rule length_render_object) (simp_all add: issue_dump_opts_def u_def)
    then show ?thesis using k assms(1,2) by (simp add: a dump_length del: render.simps)
  qed
  finally show ?thesis by (simp add: MAX_ISSUE_REQUEST_BYTES_def)
qed

lemma width_utf8: "utf8_encode s = Inr e \<Longrightarrow> json_width s \<le> 6 * length e"
proof (induction s arbitrary: e)
  case (Cons c s)
  then obtain b bs where b: "utf8_char c = Some b" and bs: "utf8_encode s = Inr bs" "e = b @ bs"
    by (auto split: option.splits)
  have "length (esc_char True c) \<le> 6 * length b"
    using b by (auto simp: esc_char_def esc_u_def hex4_def utf8_char_def split: if_splits)
  then show ?case using Cons.IH [OF bs(1)] by (simp add: bs(2))
qed simp

lemma validate_canonical_fits:
  assumes "validate_canonical c = Inr c'"
  shows "json_width (ci_title c) \<le> 1536" "json_width (ci_body c) \<le> 393216"
    and "\<exists>t b. utf8_encode (ci_title c) = Inr t \<and> utf8_encode (ci_body c) = Inr b"
proof -
  obtain t b where t: "utf8_encode (ci_title c) = Inr t" "length t \<le> 256" and b: "utf8_encode (ci_body c) = Inr b" "length b \<le> 65536"
    using assms by (auto simp: validate_canonical_def err_simps MAX_CANONICAL_BODY_BYTES_def split: if_splits)
  show "json_width (ci_title c) \<le> 1536" using width_utf8 [OF t(1)] t(2) by linarith
  show "json_width (ci_body c) \<le> 393216" using width_utf8 [OF b(1)] b(2) by linarith
  show "\<exists>t b. utf8_encode (ci_title c) = Inr t \<and> utf8_encode (ci_body c) = Inr b" using t b by blast
qed

lemma create_request_accepted:
  assumes c: "validate_canonical c = Inr c" and texts: "valid_str (ci_title c)" "valid_str (ci_body c)"
    and b: "validate_issue_binding b = Inr b" and token: "valid_token_text (fst token)" and body: "issue_body c = Inr body" and "1 \<le> lim"
  shows "validate_transport_request lim (u ''POST'') (API_ORIGIN @ u ''/repos/'' @ slug (fb_repository b) @ u ''/issues'')
      (issue_headers token True) (Some body)
    = Inr (u ''/repos/'' @ slug (fb_repository b) @ u ''/issues'', issue_headers token True)"
proof -
  have clean: "clean_str (ci_title c)" "clean_str (ci_body c)"
    using validate_canonical_fits(3) [OF c] texts utf8_clean by blast+
  have "length body \<le> MAX_ISSUE_REQUEST_BYTES"
    by (rule issue_body_fits [OF validate_canonical_fits(1,2) [OF c] body clean])
  moreover have "strict_json lim True body = Inr (issue_value c)" by (rule issue_body_read [OF clean body \<open>1 \<le> lim\<close>])
  moreover have "is_issue_payload (issue_value c)" by (auto simp: is_issue_payload_def issue_value_def u_def)
  moreover have "validate_headers (u ''POST'') (issue_headers token True) = Inr (issue_headers token True)"
    using token
    by (auto simp: validate_headers_def issue_headers_def POST_HEADER_NAMES_def GET_HEADER_NAMES_def valid_authorization_def
        startswith_def removeprefix_def u_def)
  ultimately show ?thesis
    using create_endpoint [OF b]
    by (simp add: validate_transport_request_def removeprefix_def startswith_def)
qed

section \<open>Creating\<close>

definition create_request :: "FamilyBinding \<Rightarrow> http_event" where
  "create_request binding = Requested (u ''POST'') (u ''/repos/'' @ slug (fb_repository binding) @ u ''/issues'')"

text \<open>What has left the host when \<open>create\<close> ends.\<close>

definition creation :: "FamilyBinding \<Rightarrow> CanonicalFamilyIssue \<Rightarrow> exn + CreatedIssue \<Rightarrow> http_event list \<Rightarrow> bool" where
  "creation binding canonical r log \<longleftrightarrow>
     (case r of
        Inl (SendNotStarted stage) \<Rightarrow> log \<in> {[], [create_request binding]}
      | Inl (SendOutcomeUnknown stage) \<Rightarrow> (\<exists>body. issue_body canonical = Inr body \<and> log = [create_request binding, Sent body])
      | Inl (ValueError message) \<Rightarrow> log = []
      | Inl e \<Rightarrow> e = Killed \<and> (log \<in> {[], [create_request binding]}
          \<or> (\<exists>body. issue_body canonical = Inr body \<and> log = [create_request binding, Sent body]))
      | Inr created \<Rightarrow> (\<exists>body. issue_body canonical = Inr body \<and> log = [create_request binding, Sent body])
          \<and> 1 \<le> cr_number created \<and> cr_url created = issue_url_of binding (cr_number created))"

lemma token_valid:
  "triple (\<lambda>s. fst s = []) (installation_token (sys tokens))
     (\<lambda>token s. valid_token_text (fst token) \<and> fst s = []) (\<lambda>e s. e \<in> {Killed, SendNotStarted (u ''token'')} \<and> fst s = [])"
  unfolding installation_token_def
  by (rule triple_try_except [OF triple_bind [OF keeps_triple [OF keeps_sys, where A = "\<lambda>l. l = []"]
        triple_bind [OF triple_check [where Q = "\<lambda>_ s. valid_token_text (fst token) \<and> fst s = []" for token]]]])
    (auto intro!: triple_ret triple_raise)

lemma bind_lifted: "bind (lift (Inr x)) f = f x"
  by (rule ext) (simp add: bind_def lift_def)

lemma validate_issue_binding_Inl: "validate_issue_binding b = Inl e \<Longrightarrow> e = binding_error"
  by (auto simp: validate_issue_binding_def bindE_def reraise_if_def catchE_def parse_Repository_def validate_repository_id_def
      is_value_error_def split: sum.splits if_splits list.splits)

lemma utf8_encode_error: "utf8_encode s = Inl e \<Longrightarrow> e = UnicodeEncodeError"
  by (induction s) (auto simp: bindE_def split: option.splits sum.splits)

lemma validate_canonical_Inl: "validate_canonical c = Inl e \<Longrightarrow> e = canonical_invalid"
  by (auto simp: validate_canonical_def bindE_def reraise_if_def catchE_def require_def split: sum.splits if_splits
      dest: utf8_encode_error)

lemma create_sends:
  assumes "valid_str (ci_title canonical)" and "valid_str (ci_body canonical)" and "1 \<le> lim"
  shows "triple (\<lambda>s. fst s = []) (create_issue lim (family_issue_transport lim (recording_https c)) binding canonical (sys tokens))
     (\<lambda>created s. creation binding canonical (Inr created) (fst s)) (\<lambda>e s. creation binding canonical (Inl e) (fst s))"
proof -
  let ?E = "\<lambda>e s. creation binding canonical (Inl e) (fst s)"
  let ?Q = "\<lambda>created s. creation binding canonical (Inr created) (fst s)"
  let ?url = "API_ORIGIN @ u ''/repos/'' @ slug (fb_repository binding) @ u ''/issues''"
  have binding_err: "creation binding canonical (Inl e) []" if "validate_issue_binding binding = Inl e" for e
    using validate_issue_binding_Inl [OF that] by (simp add: creation_def binding_error_def)
  have canonical_err: "creation binding canonical (Inl e) []" if "validate_canonical canonical = Inl e" for e
    using validate_canonical_Inl [OF that] by (simp add: creation_def canonical_invalid_def)
  have post: "triple (\<lambda>s. fst s = [])
      (try_except (family_issue_transport lim (recording_https c) (u ''POST'') ?url (issue_headers token True) (Some body))
         (\<lambda>e. raise (if e = Killed \<or> boundary_failure e then e else SendOutcomeUnknown (u ''send''))))
      (\<lambda>_ s. fst s = [create_request binding, Sent body]) ?E"
    if v: "validate_issue_binding binding = Inr binding" "validate_canonical canonical = Inr canonical"
      and b: "issue_body canonical = Inr body" and t: "valid_token_text (fst token)" for token body
    by (rule triple_try_except [OF transport_sends [OF create_request_accepted [OF v(2) assms(1,2) v(1) t b assms(3)]],
          folded create_request_def], rule triple_raise)
      (use b in \<open>auto simp: creation_def told_def boundary_failure_def\<close>)
  have answer: "triple (\<lambda>s. fst s = [create_request binding, Sent body])
      (try_except (lift (parse_issue lim response binding 201 None None)) (\<lambda>e. raise (SendOutcomeUnknown (u ''response''))))
      ?Q ?E" if "issue_body canonical = Inr body" for response body
    by (rule triple_try_except [OF triple_lift [where E = "\<lambda>_ s. fst s = [create_request binding, Sent body]"]])
      (use that parse_issue_Inr in \<open>auto simp: creation_def triple_def raise_def\<close>)
  have token: "triple (\<lambda>s. fst s = []) (installation_token (sys tokens)) (\<lambda>token s. valid_token_text (fst token) \<and> fst s = []) ?E"
    by (rule triple_conseq [OF token_valid]) (auto simp: creation_def)
  show ?thesis
  proof (cases "validate_issue_binding binding")
    case (Inl e)
    then show ?thesis by (simp add: create_issue_def bind_def lift_def triple_def binding_err)
  next
    case (Inr b)
    then have b: "validate_issue_binding binding = Inr binding" using validate_issue_binding_Inr by simp
    show ?thesis
    proof (cases "validate_canonical canonical")
      case (Inl e)
      then show ?thesis by (simp add: create_issue_def bind_def lift_def triple_def b canonical_err)
    next
      case (Inr k)
      then have k: "validate_canonical canonical = Inr canonical" using validate_canonical_Inr by simp
      have "clean_str (ci_title canonical)" "clean_str (ci_body canonical)"
        using validate_canonical_fits(3) [OF k] assms(1,2) utf8_clean by blast+
      then obtain body where body: "issue_body canonical = Inr body" using issue_body_rendered(1) by blast
      have "create_issue lim (family_issue_transport lim (recording_https c)) binding canonical (sys tokens)
          = bind (installation_token (sys tokens)) (\<lambda>token.
            bind (try_except (family_issue_transport lim (recording_https c) (u ''POST'') ?url (issue_headers token True) (Some body))
                (\<lambda>e. raise (if e = Killed \<or> boundary_failure e then e else SendOutcomeUnknown (u ''send'')))) (\<lambda>response.
            try_except (lift (parse_issue lim response binding 201 None None)) (\<lambda>e. raise (SendOutcomeUnknown (u ''response'')))))"
        by (simp add: create_issue_def bind_lifted b k body)
      then show ?thesis
        using triple_bind [OF token triple_conj_pure [OF triple_bind [OF post [OF b k body] answer [OF body]]]] by simp
    qed
  qed
qed


section \<open>The boundary\<close>

text \<open>
  C38. A failure tells whether the issue may exist: whatever the connection and the token provider do,
  \<open>create\<close> sends at most one body, the title and body of the approved issue as JSON, to the project's
  repository; it ends with \<open>SendNotStarted\<close> only when none has been sent, with
  \<open>SendOutcomeUnknown\<close> only when it has, with \<open>ValueError\<close> only before anything is requested, with an issue
  only after the request, whose address belongs to the repository; and with nothing else unless it is killed.
\<close>

theorem send_boundary:
  assumes "create_issue lim (family_issue_transport lim (recording_https c)) binding canonical (sys tokens) ([], x) = (r, (log, x'))"
    and "valid_str (ci_title canonical)" and "valid_str (ci_body canonical)" and "1 \<le> lim"
  shows "case r of
      Inl (SendNotStarted stage) \<Rightarrow> log \<in> {[], [create_request binding]}
    | Inl (SendOutcomeUnknown stage) \<Rightarrow> (\<exists>body. issue_body canonical = Inr body \<and> log = [create_request binding, Sent body])
    | Inl (ValueError message) \<Rightarrow> log = []
    | Inl e \<Rightarrow> e = Killed \<and> (log \<in> {[], [create_request binding]}
        \<or> (\<exists>body. issue_body canonical = Inr body \<and> log = [create_request binding, Sent body]))
    | Inr created \<Rightarrow> (\<exists>body. issue_body canonical = Inr body \<and> log = [create_request binding, Sent body])
        \<and> 1 \<le> cr_number created \<and> cr_url created = issue_url_of binding (cr_number created)"
proof -
  note t = create_sends [OF assms(2-4)]
  have "creation binding canonical r log"
  proof (cases r)
    case (Inl e)
    show ?thesis using triple_errorD [OF t assms(1) [unfolded Inl]] by (simp add: Inl)
  next
    case (Inr created)
    show ?thesis using tripleD [OF t assms(1) [unfolded Inr]] by (simp add: Inr)
  qed
  then show ?thesis by (simp only: creation_def)
qed

definition demo_family_binding :: FamilyBinding where
  "demo_family_binding = \<lparr>fb_repository = \<lparr>repo_owner = u ''a'', repo_name = u ''b''\<rparr>, fb_repository_id = 7\<rparr>"

text \<open>A connection that breaks after the body.\<close>

definition demo_https :: "unit https" where
  "demo_https = \<lparr>hx_connect = ret (), hx_putrequest = (\<lambda>meth path. ret ()), hx_putheader = (\<lambda>name value. ret ()),
     hx_endheaders = ret (), hx_send = (\<lambda>body. ret ()), hx_getresponse = raise (OSError ''reset''), hx_status = ret 0,
     hx_getheaders = ret [], hx_length = ret None, hx_chunked = ret False, hx_read = (\<lambda>n. ret []), hx_isclosed = ret True,
     hx_close_response = ret (), hx_close = ret ()\<rparr>"

lemma demo_calls:
  "hx_connect demo_https = ret ()" "hx_putrequest demo_https = (\<lambda>meth path. ret ())" "hx_putheader demo_https = (\<lambda>name value. ret ())"
  "hx_endheaders demo_https = ret ()" "hx_send demo_https = (\<lambda>body. ret ())"
  "hx_getresponse demo_https = raise (OSError ''reset'')" "hx_close demo_https = ret ()"
  by (simp_all add: demo_https_def)

lemma ret_simps: "sys (ret x) = ret x" "bind (ret x) f = f x" "try_except (ret x) h = ret x" "sys (raise e) = raise e"
  "bind (raise e) f = raise e" "try_except (raise e) h = h e"
  by (auto simp: sys_def ret_def raise_def bind_def try_except_def intro!: ext)

lemma demo_put_headers: "put_headers (recording_https demo_https) hs = ret ()"
  by (induction hs) (auto simp: demo_calls ret_simps)

lemma demo_interrupted:
  assumes "validate_transport_request 5 (u ''POST'') url headers (Some body) = Inr (path, headers)"
  shows "family_issue_transport 5 (recording_https demo_https) (u ''POST'') url headers (Some body) ([], ())
    = (Inl (SendOutcomeUnknown (u ''response'')), ([Requested (u ''POST'') path, Sent body], ()))"
proof -
  have "exchange (recording_https demo_https) (u ''POST'') path headers (Some body) (p, ([], ()))
      = (Inl (OSError ''reset''), (p\<lparr>pr_connected := True, pr_body_begun := True, pr_response_phase := True\<rparr>,
          ([Requested (u ''POST'') path, Sent body], ())))" for p
    by (simp add: exchange_def demo_calls demo_put_headers ret_simps)
      (simp add: bind_def sys_def assign_def recorded_def ret_def raise_def)
  then show ?thesis
    by (simp add: family_issue_transport_def assms bind_lifted with_locals_def try_finally_def)
      (simp add: try_except_def locals_def raise_def transport_failure_of_def demo_calls close_quietly_def ret_simps bind_def sys_def ret_def)
qed

theorem send_boundary_witness:
  "\<exists>r log body. create_issue 5 (family_issue_transport 5 (recording_https demo_https)) demo_family_binding demo_issue
        (sys (ret (u ''tttttttttttttttt'', 9))) ([], ()) = (r, (log, ()))
    \<and> issue_body demo_issue = Inr body \<and> log = [create_request demo_family_binding, Sent body]"
proof -
  note f = issue_fits [OF demo_issue_canonical demo_draft_strings]
  have texts: "valid_str (ci_title demo_issue)" "valid_str (ci_body demo_issue)" using f by (simp_all add: fits_def)
  have b: "validate_issue_binding demo_family_binding = Inr demo_family_binding" by code_simp
  have k: "validate_canonical demo_issue = Inr demo_issue"
    using f by (auto simp: fits_def validate_canonical_def MAX_CANONICAL_BODY_BYTES_def)
  have "clean_str (ci_title demo_issue)" "clean_str (ci_body demo_issue)"
    using validate_canonical_fits(3) [OF k] texts utf8_clean by blast+
  then obtain body where body: "issue_body demo_issue = Inr body" using issue_body_rendered(1) by blast
  have t: "valid_token_text (fst (u ''tttttttttttttttt'', 9))" by (simp add: valid_token_text_def u_def)
  have "installation_token (sys (ret (u ''tttttttttttttttt'', 9))) = (ret (u ''tttttttttttttttt'', 9) :: (http_event list \<times> unit, _) prog)"
    using t by (simp add: installation_token_def ret_simps) (simp add: check_def bind_def try_except_def ret_def fun_eq_iff)
  then have run: "create_issue 5 (family_issue_transport 5 (recording_https demo_https)) demo_family_binding demo_issue
      (sys (ret (u ''tttttttttttttttt'', 9))) ([], ()) = (Inl (SendOutcomeUnknown (u ''response'')),
        ([Requested (u ''POST'') (u ''/repos/'' @ slug (fb_repository demo_family_binding) @ u ''/issues''), Sent body], ()))"
    using demo_interrupted [OF create_request_accepted [OF k texts b t body]]
    by (simp add: create_issue_def b k body bind_lifted ret_simps) (simp add: bind_def try_except_def raise_def boundary_failure_def)
  from send_boundary [OF this texts] run body show ?thesis by auto
qed

end
