(* ===== verification/Family_Approval.thy ===== *)
theory Family_Approval
  imports Issue_Create Pending_Store
begin

text \<open>
  \<open>src/agent_container/family_cli.py\<close>: the commands with which a person lists, previews, approves, rejects
  and reconciles the proposals in the pending store. The terminal, GitHub (inventory, creator and token
  provider) and the standard output are parameters with the state \<open>'x\<close>; the files are the world. A program
  here runs on both; the clock is a call of the system, as in the store.
\<close>

section \<open>Outside and inside\<close>

definition out :: "('x, 'a) prog \<Rightarrow> ('x \<times> world, 'a) prog" where
  "out m xw = (case m (fst xw) of (r, x) \<Rightarrow> (r, (x, snd xw)))"

text \<open>A program on a locked record, in a block that also acts outside.\<close>

definition in_block :: "('l \<times> 'w, 'a) prog \<Rightarrow> ('l \<times> ('x \<times> 'w), 'a) prog" where
  "in_block m lxw = (case m (fst lxw, snd (snd lxw)) of (r, lw) \<Rightarrow> (r, (fst lw, (fst (snd lxw), snd lw))))"

type_synonym ('x, 'a) block = "(LockedPending \<times> ('x \<times> world), 'a) prog"

text \<open>\<open>with pending_lock(...) as locked\<close> around such a block.\<close>

definition pending_lock_around ::
  "nat \<Rightarrow> path \<Rightarrow> pystr \<Rightarrow> pystr \<Rightarrow> PendingSnapshot option \<Rightarrow> ('x, 'a) block \<Rightarrow> ('x \<times> world, 'a) prog" where
  "pending_lock_around lim store request_id expected_project expected_snapshot block =
     bind (lift (validate_request_id request_id)) (\<lambda>validated_id.
     bind (lift (validate_expected_project_id expected_project)) (\<lambda>project.
     let record_name = record_name_of validated_id in
     bind (sys (open_private_parent (path_join store (u ''record'')))) (\<lambda>parent.
     with_locals \<lparr>ll_store = None, ll_lock = None\<rparr>
       (try_finally
         (bind (bind (sys (sys (open_lock parent STORE_LOCK))) (\<lambda>fd. assign (\<lambda>l. l\<lparr>ll_store := Some fd\<rparr>))) (\<lambda>_.
          bind (sys (sys (inventory parent))) (\<lambda>_.
          bind (sys (sys (entry_stat parent record_name))) (\<lambda>metadata.
          bind (sys (sys (validate_private_file metadata))) (\<lambda>_.
          bind (sys (sys (open_lock parent (u ''.'' @ record_name @ u ''.lock'')))) (\<lambda>fd.
          bind (assign (\<lambda>l. l\<lparr>ll_lock := Some fd\<rparr>)) (\<lambda>_.
          bind (sys (sys (inventory parent))) (\<lambda>_.
          bind (sys (sys (read_record_body lim parent record_name))) (\<lambda>(request, expected, body).
          bind (check (pr_request_id request = validated_id \<and> pr_project_id request = project) pending_invalid) (\<lambda>_.
          bind (check (\<not> (pr_recovery request \<or> pr_event request \<noteq> None) \<or> False)
            (ValueError ''family pending audit is incomplete'')) (\<lambda>_.
          bind (check (case expected_snapshot of
                None \<Rightarrow> True
              | Some sn \<Rightarrow> sn_request sn = request \<and> pr_request_id (sn_request sn) = validated_id
                  \<and> pr_project_id (sn_request sn) = project \<and> sn_identity sn = st_id expected \<and> sn_body sn = body)
            (PendingSnapshotMismatch ''family pending request changed'')) (\<lambda>_.
          sys (with_locals \<lparr>lk_parent = parent, lk_record_name = record_name, lk_expected = expected,
            lk_request = request, lk_body = body\<rparr> block)))))))))))))
         (locals (\<lambda>l.
           bind (if_some (ll_lock l) (\<lambda>fd. sys (sys (os_close fd)))) (\<lambda>_.
           bind (if_some (ll_store l) (\<lambda>fd. sys (sys (os_close fd)))) (\<lambda>_.
           sys (sys (os_close parent))))))))))"

text \<open>It is the same statement: around a block that does nothing outside it is the store's \<open>pending_lock\<close>.\<close>

lemma sys_commutes:
  "sys (bind m f) = bind (sys m) (\<lambda>x. sys (f x))"
  "sys (try_finally m c) = try_finally (sys m) (sys c)"
  "sys (lift r) = lift r" "sys (check b e) = check b e" "sys (ret x) = ret x"
  "sys (if_some v g) = if_some v (\<lambda>x. sys (g x))"
  by (auto simp: sys_def bind_def try_finally_def lift_def check_def ret_def if_some_def fun_eq_iff
      split: prod.split sum.split option.split)

lemma in_block_commutes:
  "in_block (bind m f) = bind (in_block m) (\<lambda>x. in_block (f x))"
  "in_block (try_finally m c) = try_finally (in_block m) (in_block c)"
  "in_block (lift r) = lift r" "in_block (check b e) = check b e" "in_block (ret x) = ret x"
  "in_block (if_some v g) = if_some v (\<lambda>x. in_block (g x))"
  "in_block (sys n) = sys (sys n)" "in_block (assign h) = assign h" "in_block (locals k) = locals (\<lambda>l. in_block (k l))"
  by (auto simp: in_block_def sys_def bind_def try_finally_def lift_def check_def ret_def if_some_def assign_def locals_def fun_eq_iff
      split: prod.split sum.split option.split)

lemma sys_with_locals: "sys (with_locals l m) = with_locals l (in_block m)"
  by (auto simp: sys_def with_locals_def in_block_def fun_eq_iff split: prod.split)

lemma in_block_with_locals: "in_block (with_locals l (in_block m)) = with_locals l (in_block (in_block m))"
  by (auto simp: with_locals_def in_block_def fun_eq_iff split: prod.split)

lemma pending_lock_around_quiet:
  "pending_lock_around lim store i project sn (in_block block) = sys (pending_lock lim store i project sn False False block)"
  by (simp add: pending_lock_around_def pending_lock_def Let_def sys_commutes sys_with_locals in_block_commutes
      in_block_with_locals case_prod_unfold)

section \<open>The parts\<close>

record ('x, 'p) family_parts =
  fp_provider :: "('x, 'p) prog"
  fp_resolve :: "Repository \<Rightarrow> 'p \<Rightarrow> ('x, FamilyBinding) prog"
  fp_verify :: "FamilyBinding \<Rightarrow> 'p \<Rightarrow> ('x, unit) prog"
  fp_get :: "'p \<Rightarrow> ('x, unit) prog"
  fp_create :: "FamilyBinding \<Rightarrow> CanonicalFamilyIssue \<Rightarrow> 'p \<Rightarrow> ('x, CreatedIssue) prog"
  fp_verify_existing :: "FamilyBinding \<Rightarrow> CanonicalFamilyIssue \<Rightarrow> int \<Rightarrow> 'p \<Rightarrow> ('x, CreatedIssue) prog"
  fp_print :: "pystr \<Rightarrow> ('x, unit) prog"
  fp_fileno :: "('x, int option) prog"
  fp_dup :: "int \<Rightarrow> ('x, nat) prog"
  fp_isatty :: "nat \<Rightarrow> ('x, bool) prog"
  fp_close :: "nat \<Rightarrow> ('x, unit) prog"
  fp_read :: "nat \<Rightarrow> nat \<Rightarrow> ('x, bytes) prog"
  fp_readable :: "nat \<Rightarrow> ('x, bool) prog"
  fp_clock :: "int io"

text \<open>\<open>except Exception\<close> catches everything but the end of the process.\<close>

definition except_all :: "('s, 'a) prog \<Rightarrow> (exn \<Rightarrow> ('s, 'a) prog) \<Rightarrow> ('s, 'a) prog" where
  "except_all m h = try_except m (\<lambda>e. if e = Killed then raise e else h e)"

definition not_killed :: "exn \<Rightarrow> bool" where
  "not_killed e \<longleftrightarrow> e \<noteq> Killed"

fun print_lines :: "('x, 'p) family_parts \<Rightarrow> pystr list \<Rightarrow> ('x, unit) prog" where
  "print_lines parts [] = ret ()"
| "print_lines parts (line # rest) = bind (fp_print parts line) (\<lambda>_. print_lines parts rest)"

definition audit_event ::
  "FamilyStateLayout \<Rightarrow> pystr \<Rightarrow> int \<Rightarrow> string \<Rightarrow> pystr \<Rightarrow> string \<Rightarrow> AuditEvent" where
  "audit_event layout request_id now operation status stage =
     \<lparr>ev_timestamp = now, ev_project_id = fl_project_id layout, ev_request_id = request_id,
      ev_operation = u operation, ev_status = status, ev_stage = u stage\<rparr>"

definition family_audit ::
  "nat \<Rightarrow> FamilyStateLayout \<Rightarrow> pystr \<Rightarrow> int \<Rightarrow> string \<Rightarrow> pystr \<Rightarrow> string \<Rightarrow> unit io" where
  "family_audit lim layout request_id now operation status stage =
     append_family_audit lim (family_audit_file layout) (audit_event layout request_id now operation status stage)"

definition read_clock :: "int io \<Rightarrow> int io" where
  "read_clock clock = bind clock (\<lambda>v. bind (check (0 \<le> v) (ValueError ''family clock is invalid'')) (\<lambda>_. ret v))"

definition clocked_audit ::
  "nat \<Rightarrow> ('x, 'p) family_parts \<Rightarrow> FamilyStateLayout \<Rightarrow> pystr \<Rightarrow> string \<Rightarrow> string \<Rightarrow> string \<Rightarrow> unit io" where
  "clocked_audit lim parts layout request_id operation status stage =
     bind (read_clock (fp_clock parts)) (\<lambda>now. family_audit lim layout request_id now operation (u status) stage)"

section \<open>The terminal\<close>

definition MAX_CONFIRMATION_CHARS :: nat where
  "MAX_CONFIRMATION_CHARS = 80"

text \<open>\<open>fp_fileno\<close> has no value where the input has no such method.\<close>

definition terminal_input ::
  "('x, 'p) family_parts \<Rightarrow> (nat option \<Rightarrow> ('x \<times> world, 'a) prog) \<Rightarrow> ('x \<times> world, 'a) prog" where
  "terminal_input parts block =
     bind (try_except (out (fp_fileno parts)) (\<lambda>e. if is_os_error e \<or> is_value_error e then ret None else raise e)) (\<lambda>descriptor.
     case descriptor of
       None \<Rightarrow> block None
     | Some fd \<Rightarrow>
         if fd < 0 then block None
         else
           bind (try_except (bind (out (fp_dup parts fd)) (\<lambda>d. ret (Some d)))
             (\<lambda>e. if is_os_error e then ret None else raise e)) (\<lambda>duplicated.
           case duplicated of
             None \<Rightarrow> block None
           | Some d \<Rightarrow>
               try_finally
                 (bind (try_except (out (fp_isatty parts d)) (\<lambda>e. if is_os_error e then ret False else raise e)) (\<lambda>terminal.
                  block (if terminal then Some d else None)))
                 (out (fp_close parts d))))"

text \<open>The position of the first newline, and the text before and including it.\<close>

function read_confirmation_loop :: "('x, 'p) family_parts \<Rightarrow> nat \<Rightarrow> bytes \<Rightarrow> ('x, bytes option) prog" where
  "read_confirmation_loop parts descriptor body x =
     (if MAX_CONFIRMATION_CHARS < length body then (Inr (Some body), x)
      else
        (case fp_read parts descriptor (MAX_CONFIRMATION_CHARS + 1 - length body) x of
           (Inl e, x1) \<Rightarrow> (if is_os_error e then (Inr None, x1) else (Inl e, x1))
         | (Inr chunk, x1) \<Rightarrow>
             if chunk = [] then (Inr None, x1)
             else
               let body = body @ chunk; newline = length (takeWhile (\<lambda>c. c \<noteq> CHR 0x0A) body) in
               if newline < length body then
                 (if newline \<noteq> length body - 1 then (Inr None, x1)
                  else
                    try_except
                      (bind (fp_readable parts descriptor) (\<lambda>readable.
                       if \<not> readable then ret (Some body)
                       else bind (fp_read parts descriptor 1) (\<lambda>more. ret (if more \<noteq> [] then None else Some body))))
                      (\<lambda>e. if is_os_error e \<or> is_value_error e then ret None else raise e) x1)
               else if MAX_CONFIRMATION_CHARS < length body then (Inr None, x1)
               else read_confirmation_loop parts descriptor body x1))"
  by pat_completeness auto
termination
  by (relation "measure (\<lambda>(parts, descriptor, body, x). MAX_CONFIRMATION_CHARS + 1 - length body)")
    (auto simp flip: length_greater_0_conv)

declare read_confirmation_loop.simps [simp del]

definition read_exact_confirmation :: "('x, 'p) family_parts \<Rightarrow> nat \<Rightarrow> pystr \<Rightarrow> ('x, bool) prog" where
  "read_exact_confirmation parts descriptor expected =
     bind (read_confirmation_loop parts descriptor []) (\<lambda>body.
     ret (case body of
            None \<Rightarrow> False
          | Some b \<Rightarrow> (case utf8_decode b of Inl e \<Rightarrow> False | Inr confirmation \<Rightarrow> confirmation = expected)))"

section \<open>Approval\<close>

definition request_changed :: exn where
  "request_changed = ValueError ''family pending request changed''"

definition result_invalid :: exn where
  "result_invalid = ValueError ''family Issue result is invalid''"

definition validate_created_result :: "CreatedIssue \<Rightarrow> FamilyBinding \<Rightarrow> int option \<Rightarrow> exn + CreatedIssue" where
  "validate_created_result v binding expected_number =
     bindE (validate_issue_number (JInt (cr_number v))) (\<lambda>number.
     bindE (require (case expected_number of Some n \<Rightarrow> number = n | None \<Rightarrow> True) result_invalid) (\<lambda>_.
     bindE (require (cr_url v = issue_url_of binding number) result_invalid) (\<lambda>_.
     Inr \<lparr>cr_number = number, cr_url = cr_url v\<rparr>)))"

definition transition_to ::
  "nat \<Rightarrow> FamilyStateLayout \<Rightarrow> PendingState \<Rightarrow> int \<Rightarrow> string \<Rightarrow> string \<Rightarrow> pystr \<Rightarrow> CreatedIssue option
     \<Rightarrow> ('x, unit) block" where
  "transition_to lim layout target now operation status stage created =
     bind (in_block (transition_pending_audited lim target (family_audit_file layout) now (u operation) (u status) stage
       (map_option cr_number created) (map_option cr_url created))) (\<lambda>_. ret ())"

definition expire_locked :: "nat \<Rightarrow> FamilyStateLayout \<Rightarrow> int \<Rightarrow> ('x, unit) block" where
  "expire_locked lim layout now = transition_to lim layout EXPIRED now ''expire'' ''expired'' (u ''cleanup'') None"

definition approval_lines :: "PendingRequest \<Rightarrow> CanonicalFamilyIssue \<Rightarrow> FamilyBinding \<Rightarrow> pystr list" where
  "approval_lines request issue binding =
     [u ''External effect: create exactly one GitHub Issue'',
      u ''request-id: '' @ pr_request_id request, u ''project: '' @ pr_project_id request,
      u ''repository: '' @ slug (fb_repository binding), u ''title:'', ci_title issue, u ''body:'', ci_body issue,
      u ''Type exactly: approve '' @ pr_request_id request]"

definition approval_preview ::
  "nat \<Rightarrow> ('x, 'p) family_parts \<Rightarrow> FamilyStateLayout \<Rightarrow> pystr \<Rightarrow> ('x \<times> world, (PendingSnapshot \<times> FamilyBinding) option) prog" where
  "approval_preview lim parts layout request_id =
     terminal_input parts (\<lambda>terminal.
       case terminal of
         None \<Rightarrow>
           bind (sys (load_pending lim (family_pending_dir layout) request_id (fl_project_id layout))) (\<lambda>_.
           bind (sys (clocked_audit lim parts layout request_id ''approve'' ''denied'' ''validation'')) (\<lambda>_.
           bind (out (fp_print parts (u ''approval refused: interactive TTY required''))) (\<lambda>_. ret None)))
       | Some fd \<Rightarrow>
           bind (sys (snapshot_pending lim (family_pending_dir layout) request_id (fl_project_id layout))) (\<lambda>snapshot.
           let request = sn_request snapshot in
           case (if pr_state request = PENDING then pr_issue request else None) of
             None \<Rightarrow> raise (ValueError ''family pending request cannot be approved'')
           | Some issue \<Rightarrow>
               bind (sys (load_family_binding lim (family_binding_file layout))) (\<lambda>binding.
               bind (out (print_lines parts (approval_lines request issue binding))) (\<lambda>_.
               bind (out (read_exact_confirmation parts fd (u ''approve '' @ pr_request_id request @ [10]))) (\<lambda>confirmed.
               if \<not> confirmed then
                 bind (sys (clocked_audit lim parts layout (pr_request_id request) ''approve'' ''denied'' ''validation'')) (\<lambda>_.
                 bind (out (fp_print parts (u ''approval cancelled''))) (\<lambda>_. ret None))
               else ret (Some (snapshot, binding)))))))"

definition denied ::
  "nat \<Rightarrow> ('x, 'p) family_parts \<Rightarrow> FamilyStateLayout \<Rightarrow> pystr \<Rightarrow> string \<Rightarrow> exn \<Rightarrow> ('x, 'a) block" where
  "denied lim parts layout request_id stage e =
     bind (sys (sys (clocked_audit lim parts layout request_id ''approve'' ''denied'' stage))) (\<lambda>_. raise e)"

text \<open>\<open>creator.create\<close> and what becomes of the record when it fails.\<close>

definition send_issue ::
  "nat \<Rightarrow> ('x, 'p) family_parts \<Rightarrow> FamilyStateLayout \<Rightarrow> FamilyBinding \<Rightarrow> CanonicalFamilyIssue \<Rightarrow> 'p \<Rightarrow> int
     \<Rightarrow> ('x, CreatedIssue) block" where
  "send_issue lim parts layout binding issue provider now =
     except_all (sys (out (fp_create parts binding issue provider))) (\<lambda>e.
       case e of
         SendNotStarted stage \<Rightarrow>
           bind (transition_to lim layout PENDING now ''approve'' ''error'' stage None) (\<lambda>_.
           raise (ValueError ''family Issue send did not start''))
       | SendOutcomeUnknown stage \<Rightarrow>
           bind (transition_to lim layout UNKNOWN now ''approve'' ''unknown'' stage None) (\<lambda>_.
           raise (ValueError ''family Issue send outcome is unknown''))
       | _ \<Rightarrow>
           bind (transition_to lim layout UNKNOWN now ''approve'' ''unknown'' (u ''send'') None) (\<lambda>_.
           raise (ValueError ''family Issue send outcome is unknown'')))"

text \<open>From the transition to \<open>SENDING\<close> to the one to \<open>CREATED\<close>.\<close>

definition send_approved ::
  "nat \<Rightarrow> ('x, 'p) family_parts \<Rightarrow> FamilyStateLayout \<Rightarrow> FamilyBinding \<Rightarrow> CanonicalFamilyIssue \<Rightarrow> 'p \<Rightarrow> int
     \<Rightarrow> ('x, CreatedIssue) block" where
  "send_approved lim parts layout binding issue provider now =
     bind (translate not_killed (ValueError ''family approval audit failed'')
       (transition_to lim layout SENDING now ''approve'' ''sending'' (u ''send'') None)) (\<lambda>_.
     bind (send_issue lim parts layout binding issue provider now) (\<lambda>result.
     bind (except_all (lift (validate_created_result result binding None)) (\<lambda>_.
         bind (transition_to lim layout UNKNOWN now ''approve'' ''unknown'' (u ''response'') None) (\<lambda>_.
         raise (ValueError ''family Issue send outcome is unknown'')))) (\<lambda>created.
     bind (translate not_killed (ValueError ''family Issue cleanup failed'')
       (transition_to lim layout CREATED now ''approve'' ''created'' (u ''cleanup'') (Some created))) (\<lambda>_.
     ret created))))"

definition approve_locked ::
  "nat \<Rightarrow> ('x, 'p) family_parts \<Rightarrow> FamilyStateLayout \<Rightarrow> pystr \<Rightarrow> PendingRequest \<Rightarrow> FamilyBinding
     \<Rightarrow> ('x, CreatedIssue) block" where
  "approve_locked lim parts layout request_id previewed binding =
     locals (\<lambda>lk.
     case (if lk_request lk = previewed \<and> pr_state (lk_request lk) = PENDING then pr_issue previewed else None) of
       None \<Rightarrow> denied lim parts layout request_id ''validation'' request_changed
     | Some issue \<Rightarrow>
         bind (sys (sys (load_family_binding lim (family_binding_file layout)))) (\<lambda>current.
         if current \<noteq> binding then denied lim parts layout request_id ''binding'' (ValueError ''family binding changed'')
         else
           bind (except_all (sys (out (fp_provider parts)))
             (\<lambda>_. denied lim parts layout request_id ''token'' (ValueError ''family approval preflight failed''))) (\<lambda>provider.
           bind (except_all (sys (out (fp_verify parts current provider)))
             (\<lambda>_. denied lim parts layout request_id ''inventory'' (ValueError ''family approval preflight failed''))) (\<lambda>_.
           bind (sys (sys (load_family_binding lim (family_binding_file layout)))) (\<lambda>again.
           if again \<noteq> binding then denied lim parts layout request_id ''binding'' (ValueError ''family binding changed'')
           else
             bind (sys (sys (read_clock (fp_clock parts)))) (\<lambda>now.
             if pr_expires_at (lk_request lk) \<le> now then
               bind (expire_locked lim layout now) (\<lambda>_. raise (ValueError ''family pending request expired''))
             else
               send_approved lim parts layout current issue provider now))))))"

definition approve_family_issue ::
  "nat \<Rightarrow> ('x, 'p) family_parts \<Rightarrow> FamilyStateLayout \<Rightarrow> pystr \<Rightarrow> ('x \<times> world, int) prog" where
  "approve_family_issue lim parts layout request_id =
     bind (approval_preview lim parts layout request_id) (\<lambda>preview.
     case preview of
       None \<Rightarrow> ret 1
     | Some (shown, binding) \<Rightarrow>
         bind (try_except
             (pending_lock_around lim (family_pending_dir layout) request_id (fl_project_id layout) (Some shown)
               (approve_locked lim parts layout request_id (sn_request shown) binding))
             (\<lambda>e. case e of
                PendingSnapshotMismatch _ \<Rightarrow>
                  bind (sys (clocked_audit lim parts layout request_id ''approve'' ''denied'' ''validation'')) (\<lambda>_.
                  raise request_changed)
              | _ \<Rightarrow> raise e)) (\<lambda>created.
         bind (out (print_lines parts
           [u ''request-id: '' @ request_id, u ''issue-number: '' @ int_repr (cr_number created),
            u ''issue-url: '' @ cr_url created, u ''state: created''])) (\<lambda>_.
         ret 0)))"

section \<open>Rejection and reconciliation\<close>

definition reject_locked :: "nat \<Rightarrow> FamilyStateLayout \<Rightarrow> int \<Rightarrow> ('x, unit) block" where
  "reject_locked lim layout now =
     locals (\<lambda>lk.
     bind (check (pr_state (lk_request lk) = PENDING) (ValueError ''family pending request cannot be rejected'')) (\<lambda>_.
     if pr_expires_at (lk_request lk) \<le> now then
       bind (expire_locked lim layout now) (\<lambda>_. raise (ValueError ''family pending request expired''))
     else
       translate not_killed (ValueError ''family Issue cleanup failed'')
         (transition_to lim layout REJECTED now ''reject'' ''rejected'' (u ''cleanup'') None)))"

definition reject_family_issue ::
  "nat \<Rightarrow> ('x, 'p) family_parts \<Rightarrow> FamilyStateLayout \<Rightarrow> pystr \<Rightarrow> int \<Rightarrow> ('x \<times> world, int) prog" where
  "reject_family_issue lim parts layout request_id now =
     bind (pending_lock_around lim (family_pending_dir layout) request_id (fl_project_id layout) None
       (reject_locked lim layout now)) (\<lambda>_.
     bind (out (print_lines parts [u ''request-id: '' @ request_id, u ''state: rejected''])) (\<lambda>_. ret 0))"

definition reconciliation_denied ::
  "nat \<Rightarrow> FamilyStateLayout \<Rightarrow> pystr \<Rightarrow> int \<Rightarrow> string \<Rightarrow> ('x, 'a) block" where
  "reconciliation_denied lim layout request_id now stage =
     bind (sys (sys (family_audit lim layout request_id now ''resolve-created'' (u ''error'') stage))) (\<lambda>_.
     raise (ValueError ''family Issue reconciliation failed''))"

definition resolve_created_locked ::
  "nat \<Rightarrow> ('x, 'p) family_parts \<Rightarrow> FamilyStateLayout \<Rightarrow> pystr \<Rightarrow> int \<Rightarrow> int \<Rightarrow> ('x, CreatedIssue) block" where
  "resolve_created_locked lim parts layout request_id issue_number now =
     locals (\<lambda>lk.
     case (if pr_state (lk_request lk) = UNKNOWN then pr_issue (lk_request lk) else None) of
       None \<Rightarrow> raise (ValueError ''family pending request cannot be reconciled'')
     | Some issue \<Rightarrow>
         bind (sys (sys (load_family_binding lim (family_binding_file layout)))) (\<lambda>binding.
         bind (except_all
             (bind (sys (out (fp_provider parts))) (\<lambda>provider.
              bind (sys (out (fp_verify parts binding provider))) (\<lambda>_. ret provider)))
             (\<lambda>_. reconciliation_denied lim layout request_id now ''inventory'')) (\<lambda>provider.
         bind (sys (sys (load_family_binding lim (family_binding_file layout)))) (\<lambda>again.
         bind (check (again = binding) (ValueError ''family binding changed'')) (\<lambda>_.
         bind (except_all (sys (out (fp_verify_existing parts binding issue issue_number provider)))
             (\<lambda>_. reconciliation_denied lim layout request_id now ''reconcile'')) (\<lambda>found.
         bind (try_except (lift (validate_created_result found binding (Some issue_number)))
             (\<lambda>e. if e = TypeError \<or> is_value_error e then reconciliation_denied lim layout request_id now ''reconcile''
               else raise e)) (\<lambda>created.
         bind (translate not_killed (ValueError ''family Issue cleanup failed'')
           (transition_to lim layout CREATED now ''resolve-created'' ''created'' (u ''cleanup'') (Some created))) (\<lambda>_.
         ret created))))))))"

definition resolve_created_family_issue ::
  "nat \<Rightarrow> ('x, 'p) family_parts \<Rightarrow> FamilyStateLayout \<Rightarrow> pystr \<Rightarrow> int \<Rightarrow> int \<Rightarrow> ('x \<times> world, int) prog" where
  "resolve_created_family_issue lim parts layout request_id issue_number now =
     bind (pending_lock_around lim (family_pending_dir layout) request_id (fl_project_id layout) None
       (resolve_created_locked lim parts layout request_id issue_number now)) (\<lambda>created.
     bind (out (print_lines parts
       [u ''request-id: '' @ request_id, u ''issue-number: '' @ int_repr (cr_number created),
        u ''issue-url: '' @ cr_url created, u ''state: created''])) (\<lambda>_. ret 0))"

definition resolve_not_created_locked ::
  "nat \<Rightarrow> FamilyStateLayout \<Rightarrow> PendingRequest \<Rightarrow> int \<Rightarrow> ('x, unit) block" where
  "resolve_not_created_locked lim layout request now =
     locals (\<lambda>lk.
     bind (check (lk_request lk = request \<and> pr_state (lk_request lk) = UNKNOWN) request_changed) (\<lambda>_.
     transition_to lim layout PENDING now ''resolve-not-created'' ''pending'' (u ''reconcile'') None))"

definition resolve_not_created_family_issue ::
  "nat \<Rightarrow> ('x, 'p) family_parts \<Rightarrow> FamilyStateLayout \<Rightarrow> pystr \<Rightarrow> int \<Rightarrow> ('x \<times> world, int) prog" where
  "resolve_not_created_family_issue lim parts layout request_id now =
     bind (terminal_input parts (\<lambda>terminal.
       case terminal of
         None \<Rightarrow>
           bind (sys (load_pending lim (family_pending_dir layout) request_id (fl_project_id layout))) (\<lambda>_.
           bind (sys (family_audit lim layout request_id now ''resolve-not-created'' (u ''denied'') ''reconcile'')) (\<lambda>_.
           bind (out (fp_print parts (u ''reconciliation refused: interactive TTY required''))) (\<lambda>_. ret True)))
       | Some fd \<Rightarrow>
           bind (sys (snapshot_pending lim (family_pending_dir layout) request_id (fl_project_id layout))) (\<lambda>snapshot.
           let request = sn_request snapshot in
           bind (check (pr_state request = UNKNOWN \<and> pr_issue request \<noteq> None)
             (ValueError ''family pending request cannot be reconciled'')) (\<lambda>_.
           bind (out (print_lines parts
             [u ''WARNING: A later approve can create external state on GitHub.'', u ''request-id: '' @ request_id,
              u ''Type exactly: not-created '' @ request_id])) (\<lambda>_.
           bind (out (read_exact_confirmation parts fd (u ''not-created '' @ request_id @ [10]))) (\<lambda>confirmed.
           if \<not> confirmed then
             bind (sys (family_audit lim layout request_id now ''resolve-not-created'' (u ''denied'') ''reconcile'')) (\<lambda>_.
             bind (out (fp_print parts (u ''reconciliation cancelled''))) (\<lambda>_. ret True))
           else
             bind (pending_lock_around lim (family_pending_dir layout) request_id (fl_project_id layout) (Some snapshot)
               (resolve_not_created_locked lim layout request now)) (\<lambda>_. ret False))))))) (\<lambda>refused.
     if refused then ret 1 else bind (out (fp_print parts (u ''state: pending''))) (\<lambda>_. ret 0))"

end
