(* ===== verification/Family_Commands.thy ===== *)
theory Family_Commands
  imports Family_Approval
begin

text \<open>
  The other commands of \<open>src/agent_container/family_cli.py\<close>: binding a project to its repository, lists and
  previews, the doctor, and the dispatch that recovers interrupted sends first.
\<close>

section \<open>Binding\<close>

fun create_directories :: "path list \<Rightarrow> unit io" where
  "create_directories [] = ret ()"
| "create_directories (p # ps) = bind (ensure_private_directory True p) (\<lambda>_. create_directories ps)"

definition prepare_binding_directories :: "FamilyStateLayout \<Rightarrow> unit io" where
  "prepare_binding_directories layout =
     bind (ensure_private_directory False (fl_root layout)) (\<lambda>_.
     create_directories
       [family_root layout, path_join (family_root layout) (u ''projects''), family_project_dir layout,
        family_pending_dir layout, path_parent (family_audit_file layout)])"

definition inventory_failed :: exn where
  "inventory_failed = ValueError ''family repository inventory failed''"

definition bind_family_project ::
  "nat \<Rightarrow> ('x, 'p) family_parts \<Rightarrow> FamilyStateLayout \<Rightarrow> Repository \<Rightarrow> ('x \<times> world, int) prog" where
  "bind_family_project lim parts layout repository =
     bind (sys (prepare_binding_directories layout)) (\<lambda>_.
     let binding_path = family_binding_file layout in
     bind (sys (path_exists binding_path)) (\<lambda>present.
     bind (if present then ret True else sys (path_is_symlink binding_path)) (\<lambda>bound.
     if bound then
       bind (sys (load_family_binding lim binding_path)) (\<lambda>_. raise (ValueError ''family project is already bound''))
     else
       bind (out (fp_provider parts)) (\<lambda>provider.
       bind (translate not_killed inventory_failed (out (fp_resolve parts repository provider))) (\<lambda>binding.
       bind (check (fb_repository binding = repository) inventory_failed) (\<lambda>_.
       bind (sys (write_family_binding lim binding_path binding False)) (\<lambda>_.
       bind (out (print_lines parts
         [u ''project: '' @ fl_project_id layout, u ''repository: '' @ slug (fb_repository binding),
          u ''repository-id: '' @ int_repr (fb_repository_id binding)])) (\<lambda>_. ret 0))))))))"

section \<open>Lists and previews\<close>

definition request_line :: "PendingRequest \<Rightarrow> pystr" where
  "request_line r =
     join_with [9] [pr_request_id r, pr_project_id r, int_repr (pr_created_at r), int_repr (pr_expires_at r),
       state_value (pr_state r)]"

definition request_header :: pystr where
  "request_header = join_with [9] [u ''request-id'', u ''project'', u ''created-at'', u ''expires-at'', u ''state'']"

definition print_family_list ::
  "nat \<Rightarrow> ('x, 'p) family_parts \<Rightarrow> FamilyStateLayout \<Rightarrow> ('x \<times> world, int) prog" where
  "print_family_list lim parts layout =
     bind (sys (load_family_binding lim (family_binding_file layout))) (\<lambda>binding.
     bind (sys (list_pending lim (family_pending_dir layout) (fl_project_id layout))) (\<lambda>requests.
     bind (out (print_lines parts
       ([u ''project: '' @ fl_project_id layout, u ''repository: '' @ slug (fb_repository binding),
         u ''repository-id: '' @ int_repr (fb_repository_id binding), request_header] @ map request_line requests))) (\<lambda>_.
     ret 0)))"

definition print_pending ::
  "nat \<Rightarrow> ('x, 'p) family_parts \<Rightarrow> FamilyStateLayout \<Rightarrow> ('x \<times> world, int) prog" where
  "print_pending lim parts layout =
     bind (out (fp_print parts request_header)) (\<lambda>_.
     bind (sys (list_pending lim (family_pending_dir layout) (fl_project_id layout))) (\<lambda>requests.
     bind (out (print_lines parts (map request_line requests))) (\<lambda>_. ret 0)))"

definition preview_locked ::
  "nat \<Rightarrow> ('x, 'p) family_parts \<Rightarrow> FamilyStateLayout \<Rightarrow> pystr \<Rightarrow> int \<Rightarrow> FamilyBinding \<Rightarrow> ('x, unit) block" where
  "preview_locked lim parts layout request_id now binding =
     locals (\<lambda>lk.
     let request = lk_request lk in
     case (if pr_state request \<in> {PENDING, UNKNOWN} then pr_issue request else None) of
       None \<Rightarrow> raise (ValueError ''family pending request cannot be previewed'')
     | Some issue \<Rightarrow>
         bind (sys (sys (family_audit lim layout request_id now ''preview'' (state_value (pr_state request)) ''validation''))) (\<lambda>_.
         sys (out (print_lines parts
           [u ''request-id: '' @ pr_request_id request, u ''project: '' @ pr_project_id request,
            u ''repository: '' @ slug (fb_repository binding), u ''created-at: '' @ int_repr (pr_created_at request),
            u ''expires-at: '' @ int_repr (pr_expires_at request), u ''state: '' @ state_value (pr_state request),
            u ''title:'', ci_title issue, u ''body:'', ci_body issue]))))"

definition preview_family_issue ::
  "nat \<Rightarrow> ('x, 'p) family_parts \<Rightarrow> FamilyStateLayout \<Rightarrow> pystr \<Rightarrow> int \<Rightarrow> ('x \<times> world, int) prog" where
  "preview_family_issue lim parts layout request_id now =
     bind (sys (load_family_binding lim (family_binding_file layout))) (\<lambda>binding.
     bind (sys (snapshot_pending lim (family_pending_dir layout) request_id (fl_project_id layout))) (\<lambda>snapshot.
     bind (pending_lock_around lim (family_pending_dir layout) request_id (fl_project_id layout) (Some snapshot)
       (preview_locked lim parts layout request_id now binding)) (\<lambda>_. ret 0)))"

section \<open>The doctor\<close>

text \<open>One check: its name, what a failure is called, and whether it passed.\<close>

definition doctor_check :: "('s, 'a) prog \<Rightarrow> string \<Rightarrow> string \<Rightarrow> ('s, bool \<times> pystr) prog" where
  "doctor_check m name failure =
     except_all (bind m (\<lambda>_. ret (True, u ''PASS  '' @ u name @ u '': valid'')))
       (\<lambda>_. ret (False, u ''FAIL  '' @ u name @ u '': '' @ u failure))"

definition needs_recovery :: "PendingRequest \<Rightarrow> bool" where
  "needs_recovery r \<longleftrightarrow> pr_state r = SENDING \<or> pr_recovery r \<or> pr_event r \<noteq> None"

definition doctor_family ::
  "nat \<Rightarrow> ('x, 'p) family_parts \<Rightarrow> FamilyStateLayout \<Rightarrow> ('x \<times> world, int) prog" where
  "doctor_family lim parts layout =
     bind (doctor_check
       (sys (bind (ensure_private_directory False (fl_root layout)) (\<lambda>_.
             bind (ensure_private_directory False (family_root layout)) (\<lambda>_.
             ensure_private_directory False (family_project_dir layout)))))
       ''local-state'' ''invalid'') (\<lambda>local_state.
     bind (doctor_check (sys (load_family_binding lim (family_binding_file layout))) ''binding'' ''invalid'') (\<lambda>binding.
     bind (doctor_check
       (bind (sys (inspect_pending_store lim (family_pending_dir layout) (fl_project_id layout))) (\<lambda>requests.
        check (\<not> list_ex needs_recovery requests) (ValueError ''family pending recovery is required'')))
       ''pending-invariants'' ''invalid or recovery required'') (\<lambda>pending.
     bind (doctor_check (sys (validate_family_audit lim (family_audit_file layout) (fl_project_id layout)))
       ''audit'' ''invalid'') (\<lambda>audit.
     bind (doctor_check (bind (out (fp_provider parts)) (\<lambda>provider. out (fp_get parts provider)))
       ''app-metadata-permissions'' ''invalid'') (\<lambda>app.
     let checks = [local_state, binding, pending, audit, app] in
     bind (out (print_lines parts (map snd checks @ [u ''not run  remote-availability: not checked'']))) (\<lambda>_.
     ret (if list_all fst checks then 0 else 1)))))))"

section \<open>Dispatch\<close>

datatype family_command =
    Bind pystr
  | Doctor
  | Listing
  | PendingIssues
  | PreviewIssue pystr
  | ApproveIssue pystr
  | RejectIssue pystr
  | ResolveCreated pystr int
  | ResolveNotCreated pystr
  | OtherIssueCommand

definition recover_interrupted_sends ::
  "nat \<Rightarrow> ('x, 'p) family_parts \<Rightarrow> FamilyStateLayout \<Rightarrow> ('x \<times> world, unit) prog" where
  "recover_interrupted_sends lim parts layout =
     bind (sys (initialize_pending_store lim (family_pending_dir layout) (fl_project_id layout)
       (family_audit_file layout) (fp_clock parts))) (\<lambda>_. ret ())"

text \<open>\<open>handler\<close> is \<open>approval_handler\<close>, whose default is \<open>approve_family_issue\<close>.\<close>

definition dispatch_family ::
  "nat \<Rightarrow> ('x, 'p) family_parts \<Rightarrow> (FamilyStateLayout \<Rightarrow> pystr \<Rightarrow> ('x \<times> world, int) prog) \<Rightarrow> FamilyStateLayout
     \<Rightarrow> family_command \<Rightarrow> ('x \<times> world, int) prog" where
  "dispatch_family lim parts handler layout command =
     (let now = sys (read_clock (fp_clock parts));
          recovered = (\<lambda>m. bind (recover_interrupted_sends lim parts layout) (\<lambda>_. m)) in
      case command of
        Bind name \<Rightarrow>
          bind (lift (parse_Repository name)) (\<lambda>repository.
          bind (check (slug repository = lower name) (ValueError ''family repository must be canonical lowercase'')) (\<lambda>_.
          bind_family_project lim parts layout repository))
      | Doctor \<Rightarrow> doctor_family lim parts layout
      | Listing \<Rightarrow> recovered (print_family_list lim parts layout)
      | PendingIssues \<Rightarrow> recovered (print_pending lim parts layout)
      | PreviewIssue i \<Rightarrow> recovered (bind now (preview_family_issue lim parts layout i))
      | ApproveIssue i \<Rightarrow> recovered (handler layout i)
      | RejectIssue i \<Rightarrow> recovered (bind now (reject_family_issue lim parts layout i))
      | ResolveCreated i n \<Rightarrow> recovered (bind now (resolve_created_family_issue lim parts layout i n))
      | ResolveNotCreated i \<Rightarrow> recovered (bind now (resolve_not_created_family_issue lim parts layout i))
      | OtherIssueCommand \<Rightarrow> recovered (raise (ValueError ''family Issue operation is not implemented'')))"

end
