(* ===== verification/Approval_Safety.thy ===== *)
theory Approval_Safety
  imports Family_Approval File_Logic Pending_Records
begin

text \<open>
  What a person sees before an approval and what is sent after it, and what the record in memory says then:
  \<open>approve_family_issue\<close> of \<open>src/agent_container/family_cli.py\<close> with parts that write down their use.
\<close>

section \<open>The record of a handle\<close>

definition on_request :: "(PendingRequest \<Rightarrow> bool) \<Rightarrow> LockedPending \<times> 'w \<Rightarrow> bool" where
  "on_request A s \<longleftrightarrow> A (lk_request (fst s))"

lemma request_sys: "triple (on_request A) (sys m) (\<lambda>_. on_request A) (\<lambda>_. on_request A)"
  by (rule triple_sys) (auto simp: triple_def on_request_def split: prod.split sum.split)

lemma request_check: "triple (on_request A) (check b e) (\<lambda>_. on_request A) (\<lambda>_. on_request A)"
  by (rule triple_check)

lemma request_observe:
  "triple (on_request A) (observe_unchanged lim) (\<lambda>r s. on_request A s \<and> A r) (\<lambda>_. on_request A)"
  unfolding observe_unchanged_def
proof (rule triple_locals)
  fix l
  show "triple (\<lambda>s. on_request A s \<and> fst s = l)
    (bind (sys (entry_stat (lk_parent l) (lk_record_name l))) (\<lambda>current.
     bind (sys (validate_private_file current)) (\<lambda>_.
     bind (check (same_inode (lk_expected l) current) record_changed) (\<lambda>_.
     bind (sys (read_record lim (lk_parent l) (lk_record_name l))) (\<lambda>(observed, observed_stat).
     bind (check (observed = lk_request l \<and> same_inode (lk_expected l) observed_stat) record_changed) (\<lambda>_.
     ret observed)))))) (\<lambda>r s. on_request A s \<and> A r) (\<lambda>_. on_request A)"
    apply (rule triple_pre [of "\<lambda>s. A (lk_request l) \<and> on_request A s"])
     apply (rule triple_conj_pure)
     apply (rule triple_bind [OF request_sys])+
     apply (rule triple_bind [OF request_check])
     apply (rule triple_bind [OF request_sys])
    subgoal for _ _ _ found
      apply (cases found, simp only: prod.case)
      apply (rule triple_bind [OF triple_check [where Q = "\<lambda>_ s. A (fst found) \<and> on_request A s"]])
        apply (auto intro: triple_ret)
      done
    apply (auto simp: on_request_def)
    done
qed

lemma request_store:
  assumes "B changed"
  shows "triple (on_request A) (store_changed changed) (\<lambda>_. on_request B) (\<lambda>_. on_request A)"
  unfolding store_changed_def
proof (rule triple_locals)
  fix l
  show "triple (\<lambda>s. on_request A s \<and> fst s = l)
    (bind (lift (encode_pending changed)) (\<lambda>body.
     bind (sys (atomic_replace (lk_parent l) (lk_record_name l) (lk_expected l) body)) (\<lambda>s.
     bind (assign (\<lambda>lk. lk\<lparr>lk_expected := s, lk_request := changed, lk_body := body\<rparr>)) (\<lambda>_. ret changed))))
    (\<lambda>_. on_request B) (\<lambda>_. on_request A)"
    by (rule triple_pre [of "on_request A"],
        rule triple_bind [OF triple_lift [where Q = "\<lambda>_. on_request A"]], assumption, assumption,
        rule triple_bind [OF request_sys], rule triple_bind [OF triple_assign [where Q = "\<lambda>_. on_request B"]])
      (auto intro!: triple_ret simp: on_request_def assms)
qed

lemma request_clear:
  "triple (on_request (\<lambda>r. pr_state r = S)) (clear_audit_event lim) (\<lambda>_. on_request (\<lambda>r. pr_state r = S))
     (\<lambda>_. on_request (\<lambda>r. pr_state r = S))"
proof -
  let ?A = "on_request (\<lambda>r. pr_state r = S)"
  have m: "triple ?A (replace_audit_metadata lim False None) (\<lambda>_. ?A) (\<lambda>_. ?A)"
    unfolding replace_audit_metadata_def
    apply (rule triple_bind [OF request_observe])
    subgoal for observed
      apply (rule triple_pre [of "\<lambda>s. pr_state observed = S \<and> ?A s"])
       apply (rule triple_conj_pure)
       apply (rule triple_bind [OF triple_lift [where Q = "\<lambda>changed s. pr_state changed = S \<and> ?A s"]])
         apply (simp add: validate_pending_Inr)
        apply assumption
       apply (rule triple_conj_pure, erule request_store)
      apply simp
      done
    done
  show ?thesis
    unfolding clear_audit_event_def
    by (rule triple_locals, rule triple_pre [of ?A], rule triple_bind [OF request_check m]) simp
qed

text \<open>A transition changes the state to its target, or not at all.\<close>

lemma request_transition:
  "triple (on_request (\<lambda>r. pr_state r = S)) (transition_pending_audited lim target p t op status stage n url)
     (\<lambda>_. on_request (\<lambda>r. pr_state r = target)) (\<lambda>_. on_request (\<lambda>r. pr_state r = S \<or> pr_state r = target))"
proof -
  let ?A = "on_request (\<lambda>r. pr_state r = S) :: LockedPending \<times> world \<Rightarrow> bool"
  let ?B = "on_request (\<lambda>r. pr_state r = target) :: LockedPending \<times> world \<Rightarrow> bool"
  let ?E = "\<lambda>_. on_request (\<lambda>r. pr_state r = S \<or> pr_state r = target) :: LockedPending \<times> world \<Rightarrow> bool"
  have weaken: "?A s \<Longrightarrow> on_request (\<lambda>r. pr_state r = S \<or> pr_state r = target) s"
      "?B s \<Longrightarrow> on_request (\<lambda>r. pr_state r = S \<or> pr_state r = target) s" for s
    by (simp_all add: on_request_def)
  have moved: "triple ?A (transition_pending lim target n url False (Some event)) (\<lambda>_. ?B) (\<lambda>_. ?A)" for event
    unfolding transition_pending_def
    apply (rule triple_locals, rule triple_pre [of ?A])
     apply (rule triple_bind [OF request_check])+
     apply (rule triple_bind [OF request_observe])
    subgoal for l observed
      apply (rule triple_pre [of ?A])
       apply (rule triple_bind [OF triple_lift [where Q = "\<lambda>_. ?A"]], assumption, assumption)
      subgoal for nu
        apply (cases nu, simp only: prod.case)
        apply (rule triple_bind [OF triple_lift [where Q = "\<lambda>changed s. pr_state changed = target \<and> ?A s"]])
          apply (simp add: validate_pending_Inr)
         apply assumption
        apply (rule triple_conj_pure, erule request_store)
        done
      apply simp
      done
    apply simp
    done
  have drained: "triple ?B (drain_audit_event lim p) (\<lambda>_. ?B) ?E"
    unfolding drain_audit_event_def
    apply (rule triple_locals, rule triple_pre [of ?B])
     apply (rule triple_conseq [of ?B _ "\<lambda>_. ?B" "\<lambda>_. ?B"])
        apply (auto intro!: triple_raise triple_bind [OF request_sys request_clear] split: option.split dest: weaken)
    done
  show ?thesis
    unfolding transition_pending_audited_def
    apply (rule triple_locals, rule triple_pre [of ?A])
     apply (rule triple_bind [OF triple_lift [where Q = "\<lambda>_. ?A"]], assumption, erule weaken)
     apply (rule triple_bind [OF triple_conseq [OF moved _ _ weaken(1)] drained])
       apply assumption+
    apply simp
    done
qed

section \<open>Recording\<close>

datatype approval_event =
    Printed pystr
  | Typed bytes
  | Verified FamilyBinding
  | CreateCalled FamilyBinding CanonicalFamilyIssue "exn + CreatedIssue"

text \<open>A call that leaves an entry made of its result.\<close>

definition noted :: "(exn + 'a \<Rightarrow> 'e list) \<Rightarrow> ('x, 'a) prog \<Rightarrow> ('e list \<times> 'x, 'a) prog" where
  "noted f m lx = (case m (snd lx) of (r, x) \<Rightarrow> (r, (fst lx @ f r, x)))"

definition recording_family :: "('x, 'p) family_parts \<Rightarrow> (approval_event list \<times> 'x, 'p) family_parts" where
  "recording_family parts =
     \<lparr>fp_provider = sys (fp_provider parts),
      fp_resolve = (\<lambda>repository provider. sys (fp_resolve parts repository provider)),
      fp_verify = (\<lambda>binding provider. noted (\<lambda>r. if isl r then [] else [Verified binding]) (fp_verify parts binding provider)),
      fp_get = (\<lambda>provider. sys (fp_get parts provider)),
      fp_create = (\<lambda>binding issue provider. noted (\<lambda>r. [CreateCalled binding issue r]) (fp_create parts binding issue provider)),
      fp_verify_existing = (\<lambda>binding issue number provider. sys (fp_verify_existing parts binding issue number provider)),
      fp_print = (\<lambda>line. noted (\<lambda>_. [Printed line]) (fp_print parts line)),
      fp_fileno = sys (fp_fileno parts),
      fp_dup = (\<lambda>fd. sys (fp_dup parts fd)),
      fp_isatty = (\<lambda>fd. sys (fp_isatty parts fd)),
      fp_close = (\<lambda>fd. sys (fp_close parts fd)),
      fp_read = (\<lambda>fd n. noted (case_sum (\<lambda>_. []) (\<lambda>chunk. [Typed chunk])) (fp_read parts fd n)),
      fp_readable = (\<lambda>fd. sys (fp_readable parts fd)),
      fp_clock = fp_clock parts\<rparr>"

lemma recording_family_simps [simp]:
  "fp_provider (recording_family parts) = sys (fp_provider parts)"
  "fp_verify (recording_family parts) =
     (\<lambda>binding provider. noted (\<lambda>r. if isl r then [] else [Verified binding]) (fp_verify parts binding provider))"
  "fp_create (recording_family parts) =
     (\<lambda>binding issue provider. noted (\<lambda>r. [CreateCalled binding issue r]) (fp_create parts binding issue provider))"
  "fp_print (recording_family parts) = (\<lambda>line. noted (\<lambda>_. [Printed line]) (fp_print parts line))"
  "fp_fileno (recording_family parts) = sys (fp_fileno parts)"
  "fp_dup (recording_family parts) = (\<lambda>fd. sys (fp_dup parts fd))"
  "fp_isatty (recording_family parts) = (\<lambda>fd. sys (fp_isatty parts fd))"
  "fp_close (recording_family parts) = (\<lambda>fd. sys (fp_close parts fd))"
  "fp_read (recording_family parts) =
     (\<lambda>fd n. noted (case_sum (\<lambda>_. []) (\<lambda>chunk. [Typed chunk])) (fp_read parts fd n))"
  "fp_readable (recording_family parts) = (\<lambda>fd. sys (fp_readable parts fd))"
  "fp_clock (recording_family parts) = fp_clock parts"
  by (simp_all add: recording_family_def)

text \<open>An assertion about the entries, in a program with files around it and in a block with a record.\<close>

definition logged :: "('e list \<Rightarrow> bool) \<Rightarrow> ('e list \<times> 'x) \<times> 'w \<Rightarrow> bool" where
  "logged A s \<longleftrightarrow> A (fst (fst s))"

definition held :: "(PendingRequest \<Rightarrow> 'e list \<Rightarrow> bool) \<Rightarrow> LockedPending \<times> (('e list \<times> 'x) \<times> 'w) \<Rightarrow> bool" where
  "held A s \<longleftrightarrow> logged (A (lk_request (fst s))) (snd s)"

lemma logged_sys: "triple (logged A) (sys m) (\<lambda>_. logged A) (\<lambda>_. logged A)"
  by (rule triple_sys) (auto simp: triple_def logged_def split: prod.split sum.split)

lemma logged_out: "triple (logged A) (out (sys m)) (\<lambda>_. logged A) (\<lambda>_. logged A)"
  by (auto simp: triple_def out_def sys_def logged_def split: prod.split sum.split)

lemma logged_noted:
  assumes "\<And>l x. A l \<Longrightarrow> B x (l @ f (Inr x))" and "\<And>l e. A l \<Longrightarrow> F e (l @ f (Inl e))"
  shows "triple (logged A) (out (noted f m)) (\<lambda>x. logged (B x)) (\<lambda>e. logged (F e))"
  using assms by (auto simp: triple_def out_def noted_def logged_def split: prod.split sum.split)

lemma held_sys:
  assumes "\<And>r. triple (logged (A r)) m (\<lambda>x. logged (B r x)) (\<lambda>e. logged (F r e))"
  shows "triple (held A) (sys m) (\<lambda>x. held (\<lambda>r. B r x)) (\<lambda>e. held (\<lambda>r. F r e))"
  by (rule triple_sys) (use assms in \<open>auto simp: held_def\<close>)

text \<open>A transition inside a block leaves the entries alone.\<close>

lemma held_transition:
  assumes "\<And>r l. A r l \<Longrightarrow> pr_state r = S \<and> K l"
  shows "triple (held A) (transition_to lim layout target now op status stage created)
     (\<lambda>_. held (\<lambda>r l. pr_state r = target \<and> K l)) (\<lambda>_. held (\<lambda>r l. (pr_state r = S \<or> pr_state r = target) \<and> K l))"
proof -
  have "triple (held A) (in_block (transition_pending_audited lim target p now o' s' stage n url))
     (\<lambda>_. held (\<lambda>r l. pr_state r = target \<and> K l)) (\<lambda>_. held (\<lambda>r l. (pr_state r = S \<or> pr_state r = target) \<and> K l))"
    for p o' s' n url
    using request_transition [of S lim target p now o' s' stage n url] assms
    by (fastforce simp: triple_def in_block_def held_def logged_def on_request_def split: prod.splits sum.splits)
  then show ?thesis
    unfolding transition_to_def by (rule triple_bind) (rule triple_ret)
qed

section \<open>Around the lock\<close>

lemma beside: 
  assumes "\<And>x. P x \<Longrightarrow> F x"
  shows "triple (\<lambda>s. P (fst s)) (sys m) (\<lambda>_ s. P (fst s)) (\<lambda>_ s. F (fst s))"
    and "triple (\<lambda>s. P (fst (snd s))) (sys (sys m)) (\<lambda>_ s. P (fst (snd s))) (\<lambda>_ s. F (fst (snd s)))"
    and "triple (\<lambda>s. P (fst (snd s))) (assign f) (\<lambda>_ s. P (fst (snd s))) (\<lambda>_ s. F (fst (snd s)))"
  using assms by (auto simp: triple_def sys_def assign_def split: prod.split sum.split)

lemma triple_bind3:
  "triple P m R E \<Longrightarrow> (\<And>a b c. triple (R (a, b, c)) (f a b c) Q E) \<Longrightarrow> triple P (bind m (\<lambda>(a, b, c). f a b c)) Q E"
  by (erule triple_bind) auto

lemma triple_lock_around:
  assumes block: "triple (\<lambda>s. pr_request_id (lk_request (fst s)) = i \<and> pr_project_id (lk_request (fst s)) = project \<and> P (fst (snd s)))
      block (\<lambda>x s. Q x (fst (snd s))) (\<lambda>_ s. F (fst (snd s)))"
    and P: "\<And>x. P x \<Longrightarrow> F x" and Q: "\<And>v x. Q v x \<Longrightarrow> F x"
  shows "triple (\<lambda>s. P (fst s)) (pending_lock_around lim store i project sn block) (\<lambda>x s. Q x (fst s)) (\<lambda>_ s. F (fst s))"
proof -
  have if_some: "triple (\<lambda>s. A (fst (snd s))) (if_some v (\<lambda>fd. sys (sys (m fd)))) (\<lambda>_ s. A (fst (snd s))) (\<lambda>_ s. F (fst (snd s)))"
    if "\<And>x. A x \<Longrightarrow> F x" for A v and m :: "nat \<Rightarrow> unit io"
    by (rule triple_if_some, rule triple_ret, assumption, rule beside(2) [OF that])
  have close: "triple (\<lambda>s. A (fst (snd s)))
      (locals (\<lambda>l. bind (if_some (ll_lock l) (\<lambda>fd. sys (sys (os_close fd)))) (\<lambda>_.
        bind (if_some (ll_store l) (\<lambda>fd. sys (sys (os_close fd)))) (\<lambda>_. sys (sys (os_close parent))))))
      (\<lambda>_ s. A (fst (snd s))) (\<lambda>_ s. F (fst (snd s)))" if "\<And>x. A x \<Longrightarrow> F x" for A parent
    apply (rule triple_locals)
    apply (rule triple_pre [of "\<lambda>s. A (fst (snd s))"])
     apply (rule triple_bind [OF if_some [OF that]], assumption)
     apply (rule triple_bind [OF if_some [OF that]], assumption)
     apply (rule beside(2) [OF that], assumption)
    apply simp
    done
  note step = triple_bind [OF beside(2) [where P = P and F = F, OF P]] triple_bind [OF beside(3) [where P = P and F = F, OF P]]
  show ?thesis
    unfolding pending_lock_around_def Let_def
    apply (rule triple_bind [OF triple_lift [where Q = "\<lambda>v s. v = i \<and> P (fst s)"]])
      apply (simp add: validate_request_id_Inr)
     apply (erule P)
    apply (rule triple_conj_pure, hypsubst)
    apply (rule triple_bind [OF triple_lift [where Q = "\<lambda>v s. v = project \<and> P (fst s)"]])
      apply (simp add: validate_expected_Inr)
     apply (erule P)
    apply (rule triple_conj_pure, hypsubst)
    apply (rule triple_bind [OF beside(1) [OF P]], assumption)
    apply (rule triple_with_locals)
    apply (rule triple_pre [of "\<lambda>s. P (fst (snd s))"])
     apply (rule triple_try_finally [where R = "\<lambda>x s. Q x (fst (snd s))" and F = "\<lambda>_ s. F (fst (snd s))"])
       apply (rule triple_bind [OF triple_bind [OF beside(2) [where P = P and F = F, OF P] beside(3) [where P = P and F = F, OF P]]], assumption+)
       apply (rule step(1), assumption)+
       apply (rule step(2), assumption)
       apply (rule step(1), assumption)
       apply (rule triple_bind3 [OF beside(2) [where P = P and F = F, OF P]], assumption)
    subgoal for _ _ _ _ _ _ _ _ _ _ request
      apply (rule triple_bind [OF triple_check [where P = "\<lambda>s. P (fst (snd s))"
            and Q = "\<lambda>_ s. (pr_request_id request = i \<and> pr_project_id request = project) \<and> P (fst (snd s))"]])
        apply simp
       apply (erule P)
      apply (rule triple_conj_pure)
      apply (rule triple_bind [OF triple_check [where P = "\<lambda>s. P (fst (snd s))" and Q = "\<lambda>_ s. P (fst (snd s))"]],
          assumption, erule P)+
      apply (rule triple_sys, rule triple_with_locals, simp only: fst_conv snd_conv)
      apply (rule triple_pre [OF block])
      apply auto
      done
      apply (rule close, erule Q)
     apply (rule close, assumption)
    apply simp
    done
qed

lemma snapshot_identity:
  "triple (logged A) (sys (snapshot_pending lim store i project)) (\<lambda>sn s. pr_request_id (sn_request sn) = i \<and> logged A s)
     (\<lambda>_. logged A)"
  unfolding snapshot_pending_def pending_lock_around_quiet [symmetric] logged_def
  by (rule triple_lock_around [where P = "\<lambda>x. A (fst x)" and F = "\<lambda>x. A (fst x)"
        and Q = "\<lambda>sn x. pr_request_id (sn_request sn) = i \<and> A (fst x)"])
    (auto simp: triple_def in_block_def locals_def ret_def)

section \<open>The preview\<close>

lemma logged_print:
  "triple (logged (\<lambda>l. l = l0)) (out (noted (\<lambda>_. [Printed line]) m)) (\<lambda>_. logged (\<lambda>l. l = l0 @ [Printed line]))
     (\<lambda>_. logged (\<lambda>l. l = l0 @ [Printed line]))"
  by (rule logged_noted) simp_all

definition uncreated :: "approval_event list \<Rightarrow> bool" where
  "uncreated l \<longleftrightarrow> list_all (\<lambda>e. case e of CreateCalled binding issue answer \<Rightarrow> False | _ \<Rightarrow> True) l"

lemma uncreated_simps [simp]:
  "uncreated []" "uncreated (l @ l') \<longleftrightarrow> uncreated l \<and> uncreated l'" "uncreated (map Printed lines)"
  "uncreated (map Typed typed)" "uncreated [Verified b]" "uncreated [Printed line]" "\<not> uncreated (CreateCalled b i a # l)"
  "uncreated (Verified b # l) = uncreated l"
  by (auto simp: uncreated_def list_all_iff)

lemma out_bind: "out (bind m f) = bind (out m) (\<lambda>x. out (f x))" "out (ret x) = ret x"
  by (auto simp: out_def bind_def ret_def fun_eq_iff split: prod.split sum.split)

lemma logged_lines:
  "triple (logged (\<lambda>l. l = l0)) (out (print_lines (recording_family parts) lines))
     (\<lambda>_. logged (\<lambda>l. l = l0 @ map Printed lines)) (\<lambda>_. logged (\<lambda>l. \<exists>k. l = l0 @ map Printed (take k lines)))"
proof (induction lines arbitrary: l0)
  case (Cons line rest)
  show ?case
    apply (simp only: print_lines.simps out_bind recording_family_simps)
    apply (rule triple_bind)
     apply (rule triple_conseq [OF logged_print])
       apply assumption+
     apply (simp add: logged_def) apply (rule exI [of _ 1], simp)
    apply (rule triple_conseq [OF Cons.IH])
      apply assumption
     apply (simp add: logged_def)
    apply (clarsimp simp: logged_def, rule_tac x = "Suc k" in exI, simp)
    done
qed (auto simp: out_bind intro!: triple_ret)

definition typing :: "bytes \<Rightarrow> exn + bytes option \<Rightarrow> approval_event list \<Rightarrow> approval_event list \<Rightarrow> bool" where
  "typing body r l l' \<longleftrightarrow>
     (\<exists>typed. l' = l @ map Typed typed \<and> (case r of Inr (Some b) \<Rightarrow> b = body @ concat typed | _ \<Rightarrow> True))"

lemma typing_none: "typing body (Inr None) l l" "typing body (Inl e) l l" "typing body (Inr None) l (l @ [Typed m])"
  by (auto simp: typing_def intro: exI [of _ "[]"] exI [of _ "[m]"])

lemma typing_same: "typing body (Inr (Some body)) l l" "typing body (Inr (Some body)) l (l @ [Typed []])"
  by (auto simp: typing_def intro: exI [of _ "[]"] exI [of _ "[[]]"])

lemma typing_step: "typing (body @ chunk) r (l @ [Typed chunk]) l' \<Longrightarrow> typing body r l l'"
  unfolding typing_def by (elim exE, rule_tac x = "chunk # typed" in exI) (auto split: sum.splits option.splits)

text \<open>The look at what follows the line.\<close>

lemma typing_rest:
  assumes "try_except
      (bind (fp_readable (recording_family parts) fd) (\<lambda>readable.
       if \<not> readable then ret (Some body)
       else bind (fp_read (recording_family parts) fd 1) (\<lambda>more. ret (if more \<noteq> [] then None else Some body))))
      (\<lambda>e. if is_os_error e \<or> is_value_error e then ret None else raise e) lx = (r, lx')"
  shows "typing body r (fst lx) (fst lx')"
proof -
  obtain b x2 where b: "fp_readable parts fd (snd lx) = (b, x2)" by fastforce
  obtain c x3 where c: "fp_read parts fd 1 x2 = (c, x3)" by fastforce
  show ?thesis
    using assms b c
    by (auto simp: try_except_def bind_def sys_def noted_def ret_def raise_def typing_none typing_same
        split: sum.splits if_splits)
qed

lemma confirmation_typed:
  "read_confirmation_loop (recording_family parts) fd body lx = (r, lx') \<Longrightarrow> typing body r (fst lx) (fst lx')"
proof (induction "recording_family parts" fd body lx arbitrary: r lx' rule: read_confirmation_loop.induct)
  case (1 fd body lx)
  show ?case
  proof (cases "MAX_CONFIRMATION_CHARS < length body")
    case True
    then show ?thesis using 1(2) by (auto simp: read_confirmation_loop.simps typing_same)
  next
    case False
    obtain a x1 where a: "fp_read parts fd (MAX_CONFIRMATION_CHARS + 1 - length body) (snd lx) = (a, x1)" by fastforce
    show ?thesis
    proof (cases a)
      case (Inl e)
      then show ?thesis using 1(2) False a by (auto simp: read_confirmation_loop.simps noted_def typing_none split: if_splits)
    next
      case (Inr chunk)
      have read: "fp_read (recording_family parts) fd (MAX_CONFIRMATION_CHARS + 1 - length body) lx
          = (Inr chunk, (fst lx @ [Typed chunk], x1))"
        using a Inr by (simp add: noted_def)
      show ?thesis
      proof (cases "chunk = []")
        case True
        then show ?thesis using 1(2) False a Inr by (auto simp: read_confirmation_loop.simps noted_def typing_none)
      next
        case chunk: False
        have "typing (body @ chunk) r (fst lx @ [Typed chunk]) (fst lx')"
          using 1(2) 1(1) [OF False read [symmetric] refl chunk refl refl] False read chunk
            typing_rest [of parts fd "body @ chunk" "(fst lx @ [Typed chunk], x1)" r lx']
          by (subst (asm) read_confirmation_loop.simps) (auto simp: Let_def typing_none split: if_splits)
        then show ?thesis by (rule typing_step)
      qed
    qed
  qed
qed

lemma logged_confirmation:
  assumes "\<And>typed. F (l0 @ map Typed typed)"
  shows "triple (logged (\<lambda>l. l = l0)) (out (read_exact_confirmation (recording_family parts) fd expected))
     (\<lambda>confirmed. logged (\<lambda>l. \<exists>typed. l = l0 @ map Typed typed \<and> (if confirmed then utf8_decode (concat typed) = Inr expected else True)))
     (\<lambda>_. logged F)"
proof -
  have run: "\<exists>typed. fst lx' = fst lx @ map Typed typed
      \<and> (r = Inr True \<longrightarrow> utf8_decode (concat typed) = Inr expected)"
    if "read_exact_confirmation (recording_family parts) fd expected lx = (r, lx')" for lx r lx'
  proof -
    obtain c lx1 where c: "read_confirmation_loop (recording_family parts) fd [] lx = (c, lx1)" by (rule prod.exhaust)
    from confirmation_typed [OF c] obtain typed where "fst lx1 = fst lx @ map Typed typed"
      and "case c of Inr (Some b) \<Rightarrow> b = concat typed | _ \<Rightarrow> True" unfolding typing_def append_Nil by blast
    moreover have "lx' = lx1 \<and> (r = Inr True \<longrightarrow> (\<exists>b. c = Inr (Some b) \<and> utf8_decode b = Inr expected))"
      using that c
      by (auto simp: read_exact_confirmation_def bind_def ret_def split: sum.splits option.splits) (metis sum.exhaust)
    ultimately show ?thesis by (intro exI [of _ typed]) auto
  qed
  show ?thesis
  proof (rule tripleI)
    fix s x t
    assume "logged (\<lambda>l. l = l0) s" and "out (read_exact_confirmation (recording_family parts) fd expected) s = (Inr x, t)"
    then show "logged (\<lambda>l. \<exists>typed. l = l0 @ map Typed typed \<and> (if x then utf8_decode (concat typed) = Inr expected else True)) t"
      by (cases x) (auto simp: out_def logged_def split: prod.splits dest!: run)
  next
    fix s e t
    assume "logged (\<lambda>l. l = l0) s" and "out (read_exact_confirmation (recording_family parts) fd expected) s = (Inl e, t)"
    then show "logged F t" using assms by (auto simp: out_def logged_def split: prod.splits dest!: run)
  qed
qed

lemma logged_terminal:
  assumes "\<And>d. triple (logged A) (block d) (\<lambda>x. logged (B x)) (\<lambda>_. logged F)" and "\<And>l. A l \<Longrightarrow> F l" and "\<And>x l. B x l \<Longrightarrow> F l"
  shows "triple (logged A) (terminal_input (recording_family parts) block) (\<lambda>x. logged (B x)) (\<lambda>_. logged F)"
proof -
  have weaken: "logged A s \<Longrightarrow> logged F s" "logged (B x) s \<Longrightarrow> logged F s" for x s using assms(2,3) by (simp_all add: logged_def)
  have try_: "triple (logged A) (try_except m (\<lambda>e. if p e then ret y else raise e)) (\<lambda>_. logged A) (\<lambda>_. logged F)"
    if "triple (logged A) m (\<lambda>_. logged A) (\<lambda>_. logged A)" for m p y
    by (rule triple_try_except [OF that], rule triple_if, rule triple_ret, assumption, rule triple_raise, erule weaken(1))
  show ?thesis
    unfolding terminal_input_def recording_family_simps
    apply (rule triple_bind [OF try_ [OF logged_out]])
    subgoal for descriptor
      apply (cases descriptor, simp only: option.case, rule assms(1))
      apply (simp only: option.case, rule triple_if, rule assms(1))
      apply (rule triple_bind [OF try_ [OF triple_bind [OF logged_out triple_ret]]], assumption)
      subgoal for _ duplicated
        apply (cases duplicated, simp only: option.case, rule assms(1))
        apply (simp only: option.case)
        apply (rule triple_try_finally [where R = "\<lambda>x. logged (B x)" and F = "\<lambda>_. logged F"])
          apply (rule triple_bind [OF try_ [OF logged_out] assms(1)])
         apply (rule triple_conseq [OF logged_out], assumption, assumption, erule weaken)
        apply (rule logged_out)
        done
      done
    done
qed

text \<open>What is on the screen and what has been typed when an approval is confirmed.\<close>

definition confirmed_view :: "pystr \<Rightarrow> PendingRequest \<Rightarrow> FamilyBinding \<Rightarrow> approval_event list \<Rightarrow> bool" where
  "confirmed_view request_id request binding l \<longleftrightarrow>
     pr_request_id request = request_id
     \<and> (\<exists>issue typed. pr_state request = PENDING \<and> pr_issue request = Some issue
        \<and> l = map Printed (approval_lines request issue binding) @ map Typed typed
        \<and> utf8_decode (concat typed) = Inr (u ''approve '' @ pr_request_id request @ [10]))"

lemma preview_shows:
  fixes parts :: "('x, 'p) family_parts"
  shows "triple (logged (\<lambda>l. l = [])) (approval_preview lim (recording_family parts) layout request_id)
     (\<lambda>p. logged (\<lambda>l. case p of None \<Rightarrow> uncreated l | Some (shown, binding) \<Rightarrow> confirmed_view request_id (sn_request shown) binding l))
     (\<lambda>_. logged uncreated)"
  unfolding approval_preview_def recording_family_simps
proof (rule logged_terminal)
  let ?E = "\<lambda>_. logged uncreated"
  let ?Q = "\<lambda>p. logged (\<lambda>l. case p of None \<Rightarrow> uncreated l | Some (shown, binding) \<Rightarrow> confirmed_view request_id (sn_request shown) binding l)"
  have keep: "triple (logged A) (sys m) (\<lambda>_. logged A) ?E" if "\<And>l. A l \<Longrightarrow> uncreated l" for A and m :: "(world, 'c) prog"
    by (rule triple_conseq [OF logged_sys [where A = A]]) (use that in \<open>auto simp: logged_def\<close>)
  have refuse: "triple (logged uncreated)
      (bind (sys m) (\<lambda>_. bind (out (noted (\<lambda>_. [Printed line]) k)) (\<lambda>_. ret None))) ?Q ?E"
    for m :: "unit io" and line and k :: "('x, unit) prog"
    apply (rule triple_bind [OF keep [of uncreated]], assumption)
    apply (rule triple_bind [OF logged_noted [where B = "\<lambda>_. uncreated" and F = "\<lambda>_. uncreated"]], simp, simp)
    apply (rule triple_ret, simp)
    done
  have confirm: "triple (logged (\<lambda>l. l = []))
      (bind (out (print_lines (recording_family parts) (approval_lines (sn_request shown) issue binding))) (\<lambda>_.
       bind (out (read_exact_confirmation (recording_family parts) fd (u ''approve '' @ request_id @ [10]))) (\<lambda>confirmed.
       if \<not> confirmed then
         bind (sys (m :: unit io)) (\<lambda>_. bind (out (noted (\<lambda>_. [Printed line]) (k :: ('x, unit) prog))) (\<lambda>_. ret None))
       else ret (Some (shown, binding))))) ?Q ?E"
    if "pr_request_id (sn_request shown) = request_id" "pr_state (sn_request shown) = PENDING" "pr_issue (sn_request shown) = Some issue" for shown issue binding fd m line k
    apply (rule triple_bind [OF triple_conseq [OF logged_lines]], assumption, assumption)
     apply (auto simp: logged_def)[1]
    apply (rule triple_bind [OF logged_confirmation], simp)
    apply (rule triple_if)
     apply (rule triple_pre [OF refuse])
     apply (auto simp: logged_def)[1]
    apply (rule triple_ret)
    using that apply (auto simp: logged_def confirmed_view_def)
    done
  show "triple (logged (\<lambda>l. l = []))
     (case terminal of
         None \<Rightarrow>
           bind (sys (load_pending lim (family_pending_dir layout) request_id (fl_project_id layout))) (\<lambda>_.
           bind (sys (clocked_audit lim (recording_family parts) layout request_id ''approve'' ''denied'' ''validation'')) (\<lambda>_.
           bind (out (noted (\<lambda>_. [Printed (u ''approval refused: interactive TTY required'')])
             (fp_print parts (u ''approval refused: interactive TTY required'')))) (\<lambda>_. ret None)))
       | Some fd \<Rightarrow>
           bind (sys (snapshot_pending lim (family_pending_dir layout) request_id (fl_project_id layout))) (\<lambda>snapshot.
           let request = sn_request snapshot in
           case (if pr_state request = PENDING then pr_issue request else None) of
             None \<Rightarrow> raise (ValueError ''family pending request cannot be approved'')
           | Some issue \<Rightarrow>
               bind (sys (load_family_binding lim (family_binding_file layout))) (\<lambda>binding.
               bind (out (print_lines (recording_family parts) (approval_lines request issue binding))) (\<lambda>_.
               bind (out (read_exact_confirmation (recording_family parts) fd (u ''approve '' @ pr_request_id request @ [10]))) (\<lambda>confirmed.
               if \<not> confirmed then
                 bind (sys (clocked_audit lim (recording_family parts) layout (pr_request_id request) ''approve'' ''denied'' ''validation'')) (\<lambda>_.
                 bind (out (noted (\<lambda>_. [Printed (u ''approval cancelled'')]) (fp_print parts (u ''approval cancelled'')))) (\<lambda>_. ret None))
               else ret (Some (snapshot, binding)))))))
     ?Q ?E" for terminal
    apply (cases terminal)
     apply (simp only: option.case)
     apply (rule triple_bind [OF keep], simp)
     apply (rule triple_pre [OF refuse], simp add: logged_def)
    apply (simp only: option.case)
    apply (rule triple_bind [where R = "\<lambda>sn s. pr_request_id (sn_request sn) = request_id \<and> logged (\<lambda>l. l = []) s"])
     apply (rule triple_conseq [OF snapshot_identity [where A = "\<lambda>l. l = []"]])
       apply (auto simp: logged_def)[3]
    subgoal for fd shown
      apply (rule triple_conj_pure)
      apply (cases "if pr_state (sn_request shown) = PENDING then pr_issue (sn_request shown) else None")
       apply (simp only: Let_def option.case, rule triple_raise, simp add: logged_def)
      apply (simp only: Let_def option.case)
      apply (rule triple_bind [OF keep], simp)
      apply (rule confirm)
       apply (simp_all split: if_splits)
      done
    done
qed (auto simp: confirmed_view_def split: option.splits)

section \<open>Under the lock\<close>

lemma created_result_error: "validate_created_result v binding n \<noteq> Inl Killed"
  by (auto simp: validate_created_result_def bindE_def require_def validate_issue_number_def result_invalid_def split: sum.splits if_splits)

text \<open>
  How an approval ends that began with a record in state S and the entries \<open>l0\<close>: either nothing has been
  sent, or exactly one issue, the previewed one to the previewed repository, after a verification of it.
  The state of the record is the one that the answer allows: it is \<open>CREATED\<close> only after an answer that names
  an issue of the repository, whether or not the command then fails.
\<close>

definition names_issue :: "FamilyBinding \<Rightarrow> CreatedIssue \<Rightarrow> bool" where
  "names_issue binding created \<longleftrightarrow> 1 \<le> cr_number created \<and> cr_url created = issue_url_of binding (cr_number created)"

definition after_answer :: "FamilyBinding \<Rightarrow> exn + CreatedIssue \<Rightarrow> exn + CreatedIssue \<Rightarrow> PendingState \<Rightarrow> bool" where
  "after_answer binding answer result st \<longleftrightarrow>
     (case answer of
        Inl Killed \<Rightarrow> result = Inl Killed \<and> st = SENDING
      | Inl (SendNotStarted stage) \<Rightarrow> isl result \<and> st \<in> {SENDING, PENDING}
      | Inl e \<Rightarrow> isl result \<and> st \<in> {SENDING, UNKNOWN}
      | Inr created \<Rightarrow>
          (case result of
             Inl e \<Rightarrow> st \<in> {SENDING, UNKNOWN} \<or> st = CREATED \<and> names_issue binding created
           | Inr c \<Rightarrow> st = CREATED \<and> c = created \<and> names_issue binding created))"

definition approval_end ::
  "PendingRequest \<Rightarrow> FamilyBinding \<Rightarrow> PendingState \<Rightarrow> approval_event list \<Rightarrow> exn + CreatedIssue
     \<Rightarrow> PendingRequest \<Rightarrow> approval_event list \<Rightarrow> bool" where
  "approval_end previewed binding S l0 result r l \<longleftrightarrow>
     isl result \<and> l \<in> {l0, l0 @ [Verified binding]} \<and> pr_state r \<in> {S, SENDING, EXPIRED}
     \<or> (\<exists>issue answer. S = PENDING \<and> pr_issue previewed = Some issue
          \<and> l = l0 @ [Verified binding, CreateCalled binding issue answer] \<and> after_answer binding answer result (pr_state r))"

lemma triple_except_all:
  assumes "triple P m Q R" and "\<And>e. e \<noteq> Killed \<Longrightarrow> triple (R e) (h e) Q E" and "\<And>s. R Killed s \<Longrightarrow> E Killed s"
  shows "triple P (except_all m h) Q E"
  unfolding except_all_def
  by (rule triple_try_except [OF assms(1)]) (use assms(2,3) in \<open>auto intro: triple_raise\<close>)

lemma held_world: "(\<And>r l. A r l \<Longrightarrow> F r l) \<Longrightarrow> triple (held A) (sys (sys m)) (\<lambda>_. held A) (\<lambda>_. held F)"
  by (rule triple_conseq [OF held_sys [where A = A and B = "\<lambda>r x. A r" and F = "\<lambda>r e. A r", OF logged_sys]]) (auto simp: held_def logged_def)

lemma held_outside: "(\<And>r l. A r l \<Longrightarrow> F r l) \<Longrightarrow> triple (held A) (sys (out (sys m))) (\<lambda>_. held A) (\<lambda>_. held F)"
  by (rule triple_conseq [OF held_sys [where A = A and B = "\<lambda>r x. A r" and F = "\<lambda>r e. A r", OF logged_out]]) (auto simp: held_def logged_def)

lemma held_denied:
  "(\<And>r l e. A r l \<Longrightarrow> F e r l) \<Longrightarrow> triple (held A) (denied lim parts layout request_id stage e) Q (\<lambda>e. held (F e))"
  unfolding denied_def
  by (rule triple_bind [OF triple_conseq [OF held_world [of A A]]], assumption+)
    (auto simp: held_def logged_def intro!: triple_raise)

text \<open>A transition, then an exception.\<close>

lemma held_moved:
  assumes "\<And>r l. A r l \<Longrightarrow> pr_state r = S \<and> K l" and "\<And>e r l. pr_state r \<in> {S, target} \<Longrightarrow> K l \<Longrightarrow> F e r l"
  shows "triple (held A) (bind (transition_to lim layout target now op status stage created) (\<lambda>_. raise e)) Q (\<lambda>e. held (F e))"
  by (rule triple_bind [OF triple_conseq [OF held_transition [where A = A and S = S and K = K, OF assms(1)]]], assumption+)
    (use assms(2) in \<open>auto simp: held_def logged_def intro!: triple_raise\<close>)

lemma created_result_same:
  "validate_created_result v binding n = Inr c \<Longrightarrow> c = v \<and> names_issue binding c"
  by (cases v) (auto simp: names_issue_def validate_created_result_def bindE_def require_def validate_issue_number_def split: sum.splits if_splits)

text \<open>From the state SENDING on: the one call of \<open>create\<close> and what is made of its answer.\<close>

definition sent :: "approval_event list \<Rightarrow> FamilyBinding \<Rightarrow> CanonicalFamilyIssue \<Rightarrow> exn + CreatedIssue \<Rightarrow> approval_event list \<Rightarrow> bool" where
  "sent l1 binding issue answer l \<longleftrightarrow> l = l1 @ [CreateCalled binding issue answer]"

lemma held_create:
  "triple (held (\<lambda>r l. pr_state r = SENDING \<and> l = l1)) (sys (out (fp_create (recording_family parts) binding issue provider)))
     (\<lambda>created. held (\<lambda>r l. pr_state r = SENDING \<and> sent l1 binding issue (Inr created) l))
     (\<lambda>e. held (\<lambda>r l. pr_state r = SENDING \<and> sent l1 binding issue (Inl e) l))"
  unfolding recording_family_simps
  by (rule held_sys [where B = "\<lambda>r created l. pr_state r = SENDING \<and> sent l1 binding issue (Inr created) l"
        and F = "\<lambda>r e l. pr_state r = SENDING \<and> sent l1 binding issue (Inl e) l"], rule logged_noted)
    (simp_all add: sent_def)

definition answered ::
  "approval_event list \<Rightarrow> FamilyBinding \<Rightarrow> CanonicalFamilyIssue \<Rightarrow> exn + CreatedIssue \<Rightarrow> PendingRequest
     \<Rightarrow> approval_event list \<Rightarrow> bool" where
  "answered l1 binding issue result r l \<longleftrightarrow>
     (\<exists>answer. sent l1 binding issue answer l \<and> after_answer binding answer result (pr_state r))"

lemma held_send:
  "triple (held (\<lambda>r l. pr_state r = SENDING \<and> l = l1)) (send_issue lim (recording_family parts) layout binding issue provider now)
     (\<lambda>created. held (\<lambda>r l. pr_state r = SENDING \<and> sent l1 binding issue (Inr created) l)) (\<lambda>e. held (answered l1 binding issue (Inl e)))"
  unfolding send_issue_def
proof (rule triple_except_all [OF held_create])
  fix e :: exn
  assume e: "e \<noteq> Killed"
  have moved: "triple (held (\<lambda>r l. pr_state r = SENDING \<and> sent l1 binding issue (Inl e) l)) (bind (transition_to lim layout target now ''approve'' status stage None) (\<lambda>_. raise (ValueError msg)))
      Q (\<lambda>e. held (answered l1 binding issue (Inl e)))"
    if "\<And>x. after_answer binding (Inl e) (Inl x) SENDING" "\<And>x. after_answer binding (Inl e) (Inl x) target"
    for e target status stage msg Q
    by (rule held_moved [where S = SENDING and K = "sent l1 binding issue (Inl e)"]) (use that in \<open>auto simp: answered_def\<close>)
  show "triple (held (\<lambda>r l. pr_state r = SENDING \<and> sent l1 binding issue (Inl e) l))
     (case e of
         SendNotStarted stage \<Rightarrow>
           bind (transition_to lim layout PENDING now ''approve'' ''error'' stage None) (\<lambda>_.
           raise (ValueError ''family Issue send did not start''))
       | SendOutcomeUnknown stage \<Rightarrow>
           bind (transition_to lim layout UNKNOWN now ''approve'' ''unknown'' stage None) (\<lambda>_.
           raise (ValueError ''family Issue send outcome is unknown''))
       | _ \<Rightarrow>
           bind (transition_to lim layout UNKNOWN now ''approve'' ''unknown'' (u ''send'') None) (\<lambda>_.
           raise (ValueError ''family Issue send outcome is unknown'')))
     (\<lambda>created. held (\<lambda>r l. pr_state r = SENDING \<and> sent l1 binding issue (Inr created) l)) (\<lambda>e. held (answered l1 binding issue (Inl e)))"
    using e by (cases e) (simp_all only: exn.case, (rule moved; simp add: after_answer_def)+)
next
  fix s :: "LockedPending \<times> (approval_event list \<times> 'a) \<times> world"
  assume "held (\<lambda>r l. pr_state r = SENDING \<and> sent l1 binding issue (Inl Killed) l) s"
  then show "held (answered l1 binding issue (Inl Killed)) s" unfolding held_def logged_def answered_def by (auto simp: after_answer_def)
qed

lemma held_answered:
  "triple (held (\<lambda>r l. pr_state r = SENDING \<and> sent l1 binding issue (Inr result) l))
     (bind (except_all (lift (validate_created_result result binding None)) (\<lambda>_.
          bind (transition_to lim layout UNKNOWN now ''approve'' ''unknown'' (u ''response'') None) (\<lambda>_.
          raise (ValueError ''family Issue send outcome is unknown'')))) (\<lambda>created.
      bind (translate not_killed (ValueError ''family Issue cleanup failed'')
        (transition_to lim layout CREATED now ''approve'' ''created'' (u ''cleanup'') (Some created))) (\<lambda>_.
      ret created)))
     (\<lambda>created. held (answered l1 binding issue (Inr created))) (\<lambda>e. held (answered l1 binding issue (Inl e)))"
proof -
  let ?A = "\<lambda>r l. pr_state r = SENDING \<and> sent l1 binding issue (Inr result) l"
  let ?V = "\<lambda>created. created = result \<and> names_issue binding created"
  have parsed: "triple (held ?A) (except_all (lift (validate_created_result result binding None)) (\<lambda>_.
        bind (transition_to lim layout UNKNOWN now ''approve'' ''unknown'' (u ''response'') None) (\<lambda>_.
        raise (ValueError ''family Issue send outcome is unknown''))))
      (\<lambda>created s. ?V created \<and> held ?A s) (\<lambda>e. held (answered l1 binding issue (Inl e)))"
    by (rule triple_except_all [OF triple_lift [where E = "\<lambda>e s. e \<noteq> Killed \<and> held ?A s"]
          triple_pre [OF held_moved [where A = ?A and S = SENDING and K = "sent l1 binding issue (Inr result)"]]])
      (auto simp: created_result_error answered_def after_answer_def held_def logged_def dest: created_result_same)
  have recorded: "triple (\<lambda>s. ?V created \<and> held ?A s)
      (bind (translate not_killed (ValueError ''family Issue cleanup failed'')
         (transition_to lim layout CREATED now ''approve'' ''created'' (u ''cleanup'') (Some created))) (\<lambda>_. ret created))
      (\<lambda>created. held (answered l1 binding issue (Inr created))) (\<lambda>e. held (answered l1 binding issue (Inl e)))" for created
  proof (rule triple_conj_pure, rule triple_bind)
    assume v: "?V created"
    show "triple (held ?A) (translate not_killed (ValueError ''family Issue cleanup failed'')
         (transition_to lim layout CREATED now ''approve'' ''created'' (u ''cleanup'') (Some created)))
       (\<lambda>_. held (\<lambda>r l. pr_state r = CREATED \<and> sent l1 binding issue (Inr result) l)) (\<lambda>e. held (answered l1 binding issue (Inl e)))"
      by (rule triple_translate, rule triple_conseq [OF held_transition
            [where A = ?A and S = SENDING and K = "sent l1 binding issue (Inr result)"]])
        (use v in \<open>auto simp: answered_def after_answer_def held_def logged_def\<close>)
    show "triple (held (\<lambda>r l. pr_state r = CREATED \<and> sent l1 binding issue (Inr result) l)) (ret created)
       (\<lambda>created. held (answered l1 binding issue (Inr created))) (\<lambda>e. held (answered l1 binding issue (Inl e)))"
      by (rule triple_ret) (use v in \<open>auto simp: answered_def after_answer_def held_def logged_def\<close>)
  qed
  show ?thesis by (rule triple_bind [OF parsed recorded])
qed

lemma held_sending:
  "triple (held (\<lambda>r l. pr_state r = PENDING \<and> l = l1)) (send_approved lim (recording_family parts) layout binding issue provider now)
     (\<lambda>c. held (answered l1 binding issue (Inr c)))
     (\<lambda>e. held (\<lambda>r l. pr_state r \<in> {PENDING, SENDING} \<and> l = l1 \<or> answered l1 binding issue (Inl e) r l))"
  unfolding send_approved_def
  apply (rule triple_bind [OF triple_translate, OF triple_conseq, OF held_transition
        [where A = "\<lambda>r l. pr_state r = PENDING \<and> l = l1" and S = PENDING and K = "\<lambda>l. l = l1"]])
      apply simp
     apply assumption
    apply assumption
   apply (auto simp: held_def logged_def)[1]
  apply (rule triple_conseq [OF triple_bind [OF held_send held_answered]])
    apply assumption+
  apply (auto simp: held_def logged_def)
  done

lemma triple_same:
  "triple P m Q E \<Longrightarrow> triple P (f c) Q E \<Longrightarrow> triple P (if b \<noteq> c then m else f b) Q E"
  by simp

lemma held_approval:
  fixes parts :: "('x, 'p) family_parts"
  shows "triple (held (\<lambda>r l. pr_state r = S \<and> l = l0)) (approve_locked lim (recording_family parts) layout request_id previewed binding)
     (\<lambda>c. held (approval_end previewed binding S l0 (Inr c))) (\<lambda>e. held (approval_end previewed binding S l0 (Inl e)))"
  unfolding approve_locked_def
proof (rule triple_locals)
  fix lk
  let ?A0 = "\<lambda>r l. pr_state r = S \<and> l = l0" and ?A1 = "\<lambda>r l. pr_state r = S \<and> l = l0 @ [Verified binding]"
  let ?Q = "\<lambda>c. held (approval_end previewed binding S l0 (Inr c)) :: LockedPending \<times> (approval_event list \<times> 'x) \<times> world \<Rightarrow> bool"
  let ?F = "\<lambda>e. approval_end previewed binding S l0 (Inl e)"
  let ?denied = "\<lambda>stage e. denied lim (recording_family parts) layout request_id stage e"
  let ?load = "load_family_binding lim (family_binding_file layout)"
  have E: "?A0 r l \<Longrightarrow> ?F e r l" "?A1 r l \<Longrightarrow> ?F e r l" for r l e
    by (simp_all add: approval_end_def)
  note denied = held_denied [where F = ?F and A = ?A0, OF E(1)] held_denied [where F = ?F and A = ?A1, OF E(2)]
  have world: "triple (held A) (sys (sys m)) (\<lambda>_. held A) (\<lambda>e. held (?F e))" if "A = ?A0 \<or> A = ?A1" for A and m :: "'c io"
    by (rule triple_conseq [OF held_world [of A A]]) (use that E in \<open>auto simp: held_def logged_def\<close>)
  have provider: "triple (held ?A0) (except_all (sys (out (fp_provider (recording_family parts)))) (\<lambda>_. ?denied ''token'' e))
      (\<lambda>_. held ?A0) (\<lambda>e. held (?F e))" for e
    unfolding recording_family_simps
    by (rule triple_except_all [OF held_outside [of ?A0 ?A0] denied(1)]) (auto simp: held_def logged_def E)
  have verify: "triple (held ?A0)
      (except_all (sys (out (fp_verify (recording_family parts) binding provider))) (\<lambda>_. ?denied ''inventory'' e))
      (\<lambda>_. held ?A1) (\<lambda>e. held (?F e))" for provider e
    unfolding recording_family_simps
    by (rule triple_except_all [OF held_sys [where B = "\<lambda>r _. ?A1 r" and F = "\<lambda>r _. ?A0 r", OF logged_noted] denied(1)])
      (auto simp: held_def logged_def E)
  show "triple (\<lambda>s. held ?A0 s \<and> fst s = lk)
     (case (if lk_request lk = previewed \<and> pr_state (lk_request lk) = PENDING then pr_issue previewed else None) of
       None \<Rightarrow> ?denied ''validation'' request_changed
     | Some issue \<Rightarrow>
         bind (sys (sys ?load)) (\<lambda>current.
         if current \<noteq> binding then ?denied ''binding'' (ValueError ''family binding changed'')
         else
           bind (except_all (sys (out (fp_provider (recording_family parts))))
             (\<lambda>_. ?denied ''token'' (ValueError ''family approval preflight failed''))) (\<lambda>provider.
           bind (except_all (sys (out (fp_verify (recording_family parts) current provider)))
             (\<lambda>_. ?denied ''inventory'' (ValueError ''family approval preflight failed''))) (\<lambda>_.
           bind (sys (sys ?load)) (\<lambda>again.
           if again \<noteq> binding then ?denied ''binding'' (ValueError ''family binding changed'')
           else
             bind (sys (sys (read_clock (fp_clock (recording_family parts))))) (\<lambda>now.
             if pr_expires_at (lk_request lk) \<le> now then
               bind (expire_locked lim layout now) (\<lambda>_. raise (ValueError ''family pending request expired''))
             else send_approved lim (recording_family parts) layout current issue provider now))))))
     ?Q (\<lambda>e. held (?F e))"
  proof (cases "if lk_request lk = previewed \<and> pr_state (lk_request lk) = PENDING then pr_issue previewed else None")
    case None
    show ?thesis unfolding None option.case by (rule triple_pre [OF denied(1)]) auto
  next
    case (Some issue)
    then have issue: "pr_state (lk_request lk) = PENDING" "pr_issue previewed = Some issue" by (auto split: if_splits)
    have send: "triple (held ?A1) (if b then bind (expire_locked lim layout now) (\<lambda>_. raise e)
          else send_approved lim (recording_family parts) layout binding issue provider now) ?Q (\<lambda>e. held (?F e))"
      if "S = PENDING" for b now e provider
      apply (rule triple_if)
      unfolding expire_locked_def
       apply (rule held_moved [where S = S and K = "\<lambda>l. l = l0 @ [Verified binding]"])
        apply (auto simp: approval_end_def)[2]
      apply (rule triple_conseq [OF held_sending [where ?l1.0 = "l0 @ [Verified binding]"]])
        apply (use that issue in \<open>auto simp: held_def logged_def answered_def sent_def approval_end_def\<close>)
      done
    show ?thesis
      unfolding Some option.case
      apply (rule triple_pre [of "\<lambda>s. S = PENDING \<and> held ?A0 s"])
       apply (rule triple_conj_pure)
       apply (rule triple_bind [OF world], simp)
       apply (rule triple_same, rule denied(1), assumption)
       apply (rule triple_bind [OF provider], rule triple_bind [OF verify])
       apply (rule triple_bind [OF world], simp)
       apply (rule triple_if, rule denied(2), assumption)
       apply (rule triple_bind [OF world], simp)
       apply (erule send)
      using issue(1) apply (auto simp: held_def logged_def)
      done
  qed
qed

section \<open>Approvals\<close>

text \<open>
  The entries of an approval that went as far as \<open>create\<close>: what was printed and typed before, the
  verification of the repository, one call, and what was printed after it.
\<close>

definition approved_as_shown :: "pystr \<Rightarrow> exn + CreatedIssue \<Rightarrow> approval_event list \<Rightarrow> bool" where
  "approved_as_shown request_id answer l \<longleftrightarrow>
     (\<exists>request issue binding typed printed.
        pr_request_id request = request_id \<and> pr_state request = PENDING \<and> pr_issue request = Some issue
        \<and> utf8_decode (concat typed) = Inr (u ''approve '' @ request_id @ [10])
        \<and> l = map Printed (approval_lines request issue binding) @ map Typed typed
              @ [Verified binding, CreateCalled binding issue answer] @ map Printed printed)"

definition attempted :: "pystr \<Rightarrow> approval_event list \<Rightarrow> bool" where
  "attempted request_id l \<longleftrightarrow> uncreated l \<or> (\<exists>answer. approved_as_shown request_id answer l)"

lemma attempt_of_end:
  assumes "confirmed_view request_id previewed binding l0" and "approval_end previewed binding S l0 result r l"
  shows "if isl result then attempted request_id l else (\<exists>created. approved_as_shown request_id (Inr created) l)"
proof -
  obtain issue typed where view: "pr_request_id previewed = request_id" "pr_state previewed = PENDING" "pr_issue previewed = Some issue"
    "l0 = map Printed (approval_lines previewed issue binding) @ map Typed typed"
    "utf8_decode (concat typed) = Inr (u ''approve '' @ request_id @ [10])"
    using assms(1) by (auto simp: confirmed_view_def)
  consider "isl result" "l \<in> {l0, l0 @ [Verified binding]}"
    | answer where "l = l0 @ [Verified binding, CreateCalled binding issue answer]" "after_answer binding answer result (pr_state r)"
    using assms(2) view(3) by (auto simp: approval_end_def)
  then show ?thesis
  proof cases
    case 1
    then show ?thesis using view(4) by (auto simp: attempted_def)
  next
    case (2 answer)
    have "approved_as_shown request_id answer l"
      unfolding approved_as_shown_def
      by (intro exI [of _ previewed] exI [of _ issue] exI [of _ binding] exI [of _ typed] exI [of _ "[]"]) (use view 2 in auto)
    moreover have "isl result \<or> (\<exists>created. answer = Inr created)"
      using 2(2) by (auto simp: after_answer_def split: sum.splits exn.splits)
    ultimately show ?thesis by (auto simp: attempted_def)
  qed
qed

lemma lock_approves:
  "triple (logged (confirmed_view request_id previewed binding))
     (pending_lock_around lim store i project sn (approve_locked lim (recording_family parts) layout k previewed binding))
     (\<lambda>_. logged (\<lambda>l. \<exists>created. approved_as_shown request_id (Inr created) l)) (\<lambda>_. logged (attempted request_id))"
  unfolding logged_def
proof (rule triple_lock_around [where P = "\<lambda>x. confirmed_view request_id previewed binding (fst x)"
      and Q = "\<lambda>_ x. \<exists>created. approved_as_shown request_id (Inr created) (fst x)" and F = "\<lambda>x. attempted request_id (fst x)"])
  let ?m = "approve_locked lim (recording_family parts) layout k previewed binding"
  show "triple (\<lambda>s. pr_request_id (lk_request (fst s)) = i \<and> pr_project_id (lk_request (fst s)) = project
        \<and> confirmed_view request_id previewed binding (fst (fst (snd s)))) ?m
     (\<lambda>_ s. \<exists>created. approved_as_shown request_id (Inr created) (fst (fst (snd s)))) (\<lambda>_ s. attempted request_id (fst (fst (snd s))))"
  proof -
    have run: "if isl r then attempted request_id (fst (fst (snd t))) else (\<exists>created. approved_as_shown request_id (Inr created) (fst (fst (snd t))))"
      if "confirmed_view request_id previewed binding (fst (fst (snd s)))" and "?m s = (r, t)" for s r t
    proof (rule attempt_of_end [OF that(1)])
      show "approval_end previewed binding (pr_state (lk_request (fst s))) (fst (fst (snd s))) r (lk_request (fst t)) (fst (fst (snd t)))"
        using held_approval [where S = "pr_state (lk_request (fst s))" and ?l0.0 = "fst (fst (snd s))" and lim = lim and parts = parts
            and layout = layout and request_id = k and previewed = previewed and binding = binding,
            unfolded triple_def, rule_format, of s] that(2)
        by (cases r) (auto simp: held_def logged_def)
    qed
    show ?thesis
      by (rule tripleI) (auto dest!: run)
  qed
next
  show "attempted request_id (fst x)" if "confirmed_view request_id previewed binding (fst x)" for x
    using that by (auto simp: attempted_def confirmed_view_def)
  show "attempted request_id (fst x)" if "\<exists>created. approved_as_shown request_id (Inr created) (fst x)" for x
    using that by (auto simp: attempted_def)
qed

lemma approved_printed: "approved_as_shown request_id answer l \<Longrightarrow> approved_as_shown request_id answer (l @ map Printed rest)"
  unfolding approved_as_shown_def
  by (elim exE, rule_tac x = request in exI, rule_tac x = issue in exI, rule_tac x = binding in exI, rule_tac x = typed in exI,
      rule_tac x = "printed @ rest" in exI) simp

text \<open>
  C39. What is sent is what was shown, once: in every run of \<open>approve_family_issue\<close>, whatever the terminal,
  GitHub, the files and other processes do, \<open>create\<close> is called at most once. When it is called, the lines
  printed before name the request, the project and the repository and show the title and the body, the
  bytes typed are exactly the line that was asked for, the repository was verified in between, and the call
  has that repository and that title and body. The command ends with status 0 only when GitHub answered with
  an issue, and with status 1 only when nothing was sent.
\<close>

theorem approval_as_shown:
  "case approve_family_issue lim (recording_family parts) layout request_id (([], x), w) of
     (r, ((l, x'), w')) \<Rightarrow>
       (case r of
          Inr status \<Rightarrow> status = 1 \<and> uncreated l \<or> status = 0 \<and> (\<exists>created. approved_as_shown request_id (Inr created) l)
        | Inl e \<Rightarrow> uncreated l \<or> (\<exists>answer. approved_as_shown request_id answer l))"
proof -
  let ?A = "\<lambda>l. \<exists>created. approved_as_shown request_id (Inr created) l"
  let ?Q = "\<lambda>status s. status = 1 \<and> logged uncreated s \<or> status = 0 \<and> logged ?A s"
  let ?E = "\<lambda>_. logged (attempted request_id)"
  have lines: "triple (logged ?A) (out (print_lines (recording_family parts) lines)) (\<lambda>_. logged ?A) ?E" for lines
  proof (rule triple_pre [of "\<lambda>s. \<exists>l0. ?A l0 \<and> logged (\<lambda>l. l = l0) s"], rule triple_ex, rule triple_conj_pure)
    fix l0
    assume "?A l0"
    then show "triple (logged (\<lambda>l. l = l0)) (out (print_lines (recording_family parts) lines)) (\<lambda>_. logged ?A) ?E"
      by (intro triple_conseq [OF logged_lines]) (auto simp: logged_def attempted_def, (metis approved_printed)+)
  qed (simp add: logged_def)
  have mismatch: "triple (logged (attempted request_id))
      (case e of
         PendingSnapshotMismatch m \<Rightarrow>
           bind (sys (clocked_audit lim (recording_family parts) layout request_id ''approve'' ''denied'' ''validation'')) (\<lambda>_.
           raise request_changed)
       | _ \<Rightarrow> raise e) Q ?E" for e and Q :: "CreatedIssue \<Rightarrow> _"
    by (cases e) (auto intro!: triple_raise triple_bind [OF logged_sys])
  have approve: "triple (logged (\<lambda>l. l = [])) (approve_family_issue lim (recording_family parts) layout request_id) ?Q ?E"
    unfolding approve_family_issue_def
    apply (rule triple_bind [OF triple_conseq [OF preview_shows]], assumption, assumption)
     apply (simp add: logged_def attempted_def)
    subgoal for preview
      apply (cases preview)
       apply (simp only: option.case, rule triple_ret, simp)
      apply (simp only: option.case split_paired_all prod.case)
      apply (rule triple_bind [OF triple_try_except [OF lock_approves mismatch]])
      apply (rule triple_bind [OF lines], rule triple_ret, simp)
      done
    done
  obtain r l x' w'
    where run: "approve_family_issue lim (recording_family parts) layout request_id (([], x), w) = (r, ((l, x'), w'))"
    by (metis prod.collapse)
  show ?thesis
  proof (cases r)
    case (Inl e)
    have "attempted request_id l" using triple_errorD [OF approve run [unfolded Inl]] by (simp add: logged_def)
    then show ?thesis by (simp only: run Inl prod.case sum.case attempted_def)
  next
    case (Inr status)
    have "status = 1 \<and> uncreated l \<or> status = 0 \<and> ?A l" using tripleD [OF approve run [unfolded Inr]] by (simp add: logged_def)
    then show ?thesis by (simp only: run Inr prod.case sum.case)
  qed
qed

text \<open>
  C40. The record says what may have happened: under the lock, \<open>approve_locked\<close> calls \<open>create\<close> at most once,
  with the previewed issue and the previewed binding and after the record has been moved to \<open>SENDING\<close>. After
  that the record goes back to \<open>PENDING\<close>, from where it can be approved again, only when \<open>create\<close> answered
  \<open>SendNotStarted\<close>; any other failure of \<open>create\<close> leaves it \<open>SENDING\<close> or \<open>UNKNOWN\<close>. The record becomes
  \<open>CREATED\<close> only when GitHub answered with an issue whose number is positive and whose address is that of the
  number in the repository of the binding, also when the command fails after it; a normal return leaves it
  \<open>CREATED\<close> and returns that issue.
\<close>

theorem approval_recorded:
  "case approve_locked lim (recording_family parts) layout request_id previewed binding (lk, ((l0, x), w)) of
     (r, (lk', ((l, x'), w'))) \<Rightarrow>
       isl r \<and> l \<in> {l0, l0 @ [Verified binding]} \<and> pr_state (lk_request lk') \<in> {pr_state (lk_request lk), SENDING, EXPIRED}
       \<or> (\<exists>issue answer. pr_state (lk_request lk) = PENDING \<and> pr_issue previewed = Some issue
            \<and> l = l0 @ [Verified binding, CreateCalled binding issue answer]
            \<and> (let st = pr_state (lk_request lk') in
               case answer of
                 Inl Killed \<Rightarrow> r = Inl Killed \<and> st = SENDING
               | Inl (SendNotStarted stage) \<Rightarrow> isl r \<and> st \<in> {SENDING, PENDING}
               | Inl e \<Rightarrow> isl r \<and> st \<in> {SENDING, UNKNOWN}
               | Inr created \<Rightarrow>
                   (case r of
                      Inl e \<Rightarrow>
                        st \<in> {SENDING, UNKNOWN}
                        \<or> st = CREATED \<and> 1 \<le> cr_number created \<and> cr_url created = issue_url_of binding (cr_number created)
                    | Inr c \<Rightarrow>
                        st = CREATED \<and> c = created
                        \<and> 1 \<le> cr_number created \<and> cr_url created = issue_url_of binding (cr_number created))))"
proof -
  obtain r lk' l x' w'
    where run: "approve_locked lim (recording_family parts) layout request_id previewed binding (lk, ((l0, x), w))
      = (r, (lk', ((l, x'), w')))"
    by (metis prod.collapse)
  have "approval_end previewed binding (pr_state (lk_request lk)) l0 r (lk_request lk') l"
    using held_approval [where S = "pr_state (lk_request lk)" and ?l0.0 = l0 and lim = lim and parts = parts and layout = layout
        and request_id = request_id and previewed = previewed and binding = binding,
        unfolded triple_def, rule_format, of "(lk, ((l0, x), w))"] run
    by (cases r) (simp_all add: held_def logged_def)
  then show ?thesis by (simp only: run prod.case approval_end_def after_answer_def names_issue_def Let_def)
qed

end
