(* ===== verification/Spec2Isabelle.thy ===== *)
theory Spec2Isabelle
  imports Egress_Session Egress_Gateway Egress_Relay Egress_Adapter Github_Session Git_Protocol
    Broker_Files Pending_Safety Audit_Safety Broker_Sessions Handover_Errors
    Relay_Liveness Frame_Termination Tunnel_Safety Intake_Safety Podman_Safety Runtime_Safety
    Transport_Safety Fetch_Streams Github_App Issue_Send
    Family_Commands Approval_Safety
begin

text \<open>
  A model of \<open>agent-container\<close>, the host side of a sandbox for coding agents, with the proofs
  that its guards hold. All paths below are under \<open>src/agent_container/\<close>.

  \<^bold>\<open>The program.\<close> An agent runs in a container without network access. What it may do outside is
  decided by small brokers on the host, reached through Unix sockets: the egress broker opens
  tunnels to allow-listed domains, the GitHub broker performs a fixed set of GitHub operations and
  gates pushes, the handover broker publishes notes, and the family intake collects issue proposals
  that a person approves later. The brokers share a frame format, numbered or one-shot capabilities,
  an audit log and private files whose owner, mode and identity are checked around every use.

  \<^bold>\<open>Foundations.\<close> \<open>Py_Prelude\<close>: Python strings (lists of code points) and bytes, exceptions as a
  datatype, results \<open>exn + 'a\<close> with \<open>bindE\<close> and \<open>bindS\<close>, UTF-8, ASCII, decimal numbers, \<open>struct\<close>.
  \<open>Py_Json\<close>: \<open>json.dumps\<close> and \<open>json.loads\<close> with the options and hooks the program uses, and that
  loading undoes dumping. \<open>File_System\<close>: inodes, directories, descriptors and the calls of \<open>os\<close>,
  where before each call other processes may change anything they are scripted to, any call may
  fail, transfers may be short and the process may be killed. \<open>File_Logic\<close>: Hoare triples for
  programs over it; the exceptional postcondition includes the point of a kill.

  \<^bold>\<open>Messages.\<close> \<open>Broker_Frame\<close> (\<open>broker/frame.py\<close>) and the locales of \<open>Frame_Protocol\<close>, interpreted
  by \<open>Egress_Protocol\<close> (\<open>egress_broker_protocol.py\<close>) and \<open>Github_Protocol\<close>
  (\<open>github_broker_protocol.py\<close>) for their requests and responses: what is encoded is decoded, however
  a socket cuts the bytes, and no two messages share a stream. \<open>Frame_Termination\<close> bounds the calls
  that reading and writing a frame can make on any stream.

  \<^bold>\<open>Egress.\<close> \<open>Host_State\<close> (\<open>state.py\<close>, \<open>github_values.py\<close>): identifiers and paths,
  and that no path below the directories of one project leads, even with \<open>..\<close>, below those of
  another. \<open>Egress_Policy\<close> (\<open>egress_policy.py\<close>): the domain grammar and the policy file. \<open>Replay_Guard\<close>: the contract that a
  number is consumed once, interpreted by both sessions. \<open>Egress_Session\<close> (\<open>egress_broker.py\<close>): the
  session with its sliding window refines a set of consumed numbers. \<open>Egress_Gateway\<close> and
  \<open>Egress_Relay\<close> (\<open>egress_gateway.py\<close>): only public addresses, and a relay that delivers, of what each
  side sends, a prefix when it fails and everything when it returns; \<open>Relay_Liveness\<close>: that it returns, for peers that
  cooperate and time limits linear in the data. \<open>Egress_Runtime\<close> (\<open>egress_broker_runtime.py\<close>) and
  \<open>Tunnel_Safety\<close>: worker threads interleaved call by call keep the limits, and resolve, dial and
  relay only what was granted to them. \<open>Egress_Adapter\<close> (\<open>egress_adapter.py\<close>): the CONNECT request,
  its parser against a grammar of lines stated apart from it, and the client handler, which answers once.

  \<^bold>\<open>GitHub.\<close> \<open>Github_Policy\<close> (\<open>github_broker_policy.py\<close>), \<open>Github_Session\<close> (\<open>github_broker.py\<close>),
  \<open>Git_Protocol\<close> (\<open>git_protocol.py\<close>): branch and ref rules, authorisation, the pkt-line grammar and
  the gate that only lets branches be created. \<open>Generators\<close> models Python generators, consumed turn by
  turn. \<open>Git_Transport\<close> (\<open>github_git_transport.py\<close>) and \<open>Github_Rest\<close> (\<open>github_pr.py\<close>,
  \<open>github_issue.py\<close>) are what the broker asks of GitHub, with the repetition after an expired token
  and the validation of every answer; \<open>Github_App\<close> (\<open>github_app.py\<close>) are the tokens themselves.
  \<open>Github_Transport\<close> (\<open>github_broker_transport.py\<close>) holds the connection handlers and \<open>Git_Helper\<close>
  (\<open>git_remote_helper.py\<close> and the clients of \<open>github_broker_transport.py\<close>) the other end, inside the
  container. \<open>Transport_Logic\<close> has the rules for handlers whose remote calls and audit entries are
  recorded; \<open>Transport_Safety\<close> shows that nothing is asked of GitHub without a granted request, and exactly
  which records each outcome leaves in the audit log; \<open>Fetch_Streams\<close> that a fetched pack passes through both ends
  unchanged; \<open>Github_App\<close> ends with the scope and the life time of every token handed out.

  \<^bold>\<open>Files.\<close> \<open>Private_Files\<close> (\<open>state.py\<close>), \<open>Broker_Files\<close> (\<open>broker/audit.py\<close>, \<open>capability.py\<close>,
  \<open>artifacts.py\<close>). \<open>Publish_Logic\<close> and \<open>Publish_Safety\<close>: publication by link or exchange is atomic at
  every point a call can fail or the process die. \<open>Audit_Safety\<close>: the audit file is append only.

  \<^bold>\<open>Family.\<close> \<open>Family_Issue\<close> (\<open>family_issue.py\<close>): validation, escaping and rendering of proposals.
  \<open>Family_State\<close> (\<open>family_state.py\<close>): layout and bindings. \<open>Family_Pending\<close> and \<open>Pending_Store\<close>
  (\<open>family_pending.py\<close>): the records, their state machine and the store's operations;
  \<open>Pending_Records\<close>, \<open>Pending_Bounds\<close>, \<open>Pending_Safety\<close>: round trips, sizes, and that any sequence
  of the store's operations on a record, killed and reopened at will, moves it along its state machine
  only. \<open>Intake_Protocol\<close>
  (\<open>family_intake_protocol.py\<close>): the messages of the intake broker, whose own reading loop is proved
  equal to the kernel's. \<open>Family_Intake\<close> (\<open>family_intake_broker.py\<close>, \<open>family_intake_transport.py\<close>): the
  session, the check of the peer against the process table, and the connection handler;
  \<open>Intake_Safety\<close>: who is admitted, and that a session is used once. \<open>Family_Mount\<close>
  (\<open>family_runtime_mount.py\<close>): the validation of the directory that is mounted for the intake.
  \<open>Issue_Create\<close> (\<open>family_issue_create.py\<close>): the request that creates an approved issue, the lookup of
  an existing one, their transport and the validation of the answers; \<open>Issue_Send\<close>: whether a body left
  the host is what its failure says. \<open>Family_Approval\<close> and \<open>Family_Commands\<close> (\<open>family_cli.py\<close>): the
  commands of the person who decides, with the terminal, the output and GitHub as parameters;
  \<open>Approval_Safety\<close>: what is sent is what was shown and confirmed, at most once, and the record then says
  what may have happened: created only with the number and URL of an issue of the bound repository.

  \<^bold>\<open>Handover.\<close> \<open>Handover_Protocol\<close>, \<open>Handover_Content\<close>, \<open>Handover_Writer\<close>, \<open>Handover_Broker\<close> and
  \<open>Handover_Transport\<close> (\<open>handover_broker_protocol.py\<close>, \<open>handover_writer.py\<close>, \<open>handover_broker.py\<close>,
  \<open>handover_broker_transport.py\<close>): messages, the rules for a note and its rendering, its atomic
  creation, the session and the connection handler. \<open>Raise_Logic\<close>, \<open>Frame_Errors\<close> and
  \<open>Handover_Errors\<close>: which exceptions each part can raise, and so which the handler can.

  \<^bold>\<open>Run directories.\<close> \<open>Broker_Runtime\<close> (\<open>broker/runtime.py\<close>) and \<open>Broker_Sessions\<close>: private files,
  capabilities, listeners and the \<open>create\<close> methods of the egress and GitHub sessions.
  \<open>Broker_Connection\<close> (\<open>broker/capability.py\<close>): what a client checks before it connects.
  \<open>Socket_Runtime\<close> (\<open>broker/runtime.py\<close>): the life cycle of a broker runtime, whose accept loop,
  workers and \<open>stop\<close> are interleaved call by call; \<open>Runtime_Safety\<close>: an exited runtime is closed,
  deactivated and without threads in every interleaving.

  \<^bold>\<open>Containers.\<close> \<open>Podman\<close> and \<open>Podman_Specs\<close> (\<open>podman.py\<close>): the command line of every container, the
  checks of the paths that are mounted, and stopping; \<open>Podman_Safety\<close>: the flags, labels,
  environment and mounts of every agent are exactly those stated, and its network is none exactly when
  the egress directory is mounted.

  \<^bold>\<open>Interfaces.\<close> A locale states what a client relies on, and its interpretation discharges it for
  the model: \<open>frame_protocol\<close> and \<open>flat_protocol\<close>, \<open>byte_source\<close> and \<open>byte_sink\<close>, \<open>replay_guard\<close>,
  \<open>program_class\<close> (which calls leave the files alone) and others beside their first use.

  \<^bold>\<open>Bounds and fuel.\<close> The depth at which the JSON parser raises \<open>RecursionError\<close> is the parameter
  \<open>lim\<close>. \<open>relay_tunnel\<close> may run forever on a stopped clock and is a \<open>partial_function\<close>. Path
  resolution follows at most 40 links, as the kernel does. What other processes do is a finite script
  in the world; a theorem quantifies over it. Every other loop is total: transfer loops end because
  each turn moves at least one byte or raises.

  \<^bold>\<open>Not modelled.\<close> The HTTP and TLS openers, \<open>openssl\<close>, the container engine and git themselves, which
  are parameters where the code uses their answers; starting and supervising processes; the set-up of
  the single runtimes (\<open>github_broker_runtime.py\<close>, \<open>handover_broker_runtime.py\<close>,
  \<open>family_intake_runtime.py\<close>), which puts the modelled parts together; the command lines
  (\<open>agentctl.py\<close>, the clients inside the container), the migration of old state, the tokens of the family
  App (\<open>family_github_app.py\<close>) and the lookup of its repository. Standard error output and log texts are left out. Sockets,
  selectors, clocks and random bytes are parameters.
\<close>

end
